(* ===== verification/Go_Prelude.thy ===== *)
theory Go_Prelude
  imports Main "HOL-Library.Word" "HOL-Library.Sublist"
begin

text \<open>
  What every component shares: the named theorem collections, Go's 64-bit signed integers,
  the parts of Go's standard library on strings (\<open>strings.Fields\<close>,
  \<open>strings.TrimSpace\<close>, \<open>strings.ToLower\<close>, \<open>strconv\<close>) and generic lemmas.
  A Go string is a byte sequence; it is modelled as an Isabelle \<open>string\<close>, one
  character per byte.
\<close>

named_theorems go_defs \<comment> \<open>definitions that are unfolded as a matter of course\<close>
named_theorems go_keeps \<comment> \<open>what an operation leaves unchanged\<close>

type_synonym byte = "8 word"

section \<open>Integers\<close>

text \<open>Go's \<open>int\<close> and \<open>int64\<close> (64-bit two's complement): results are wrapped by
  \<open>i64\<close>. Division truncates towards zero.\<close>

definition i64 :: "int \<Rightarrow> int" where
  "i64 x = (x + 2 ^ 63) mod 2 ^ 64 - 2 ^ 63"

definition in64 :: "int \<Rightarrow> bool" where
  "in64 x \<longleftrightarrow> - (2 ^ 63) \<le> x \<and> x < 2 ^ 63"

definition gdiv :: "int \<Rightarrow> int \<Rightarrow> int" where
  "gdiv a b = sgn a * sgn b * (\<bar>a\<bar> div \<bar>b\<bar>)"

lemma i64_id: "in64 x \<Longrightarrow> i64 x = x"
  by (simp add: in64_def i64_def)

lemma in64_i64: "in64 (i64 x)"
proof -
  have "0 \<le> (x + 2 ^ 63) mod 2 ^ 64" and "(x + 2 ^ 63) mod 2 ^ 64 < (2::int) ^ 64"
    by simp_all
  then show ?thesis by (simp add: in64_def i64_def)
qed

lemma gdiv_nonneg: "0 \<le> a \<Longrightarrow> 0 < b \<Longrightarrow> gdiv a b = a div b"
  by (cases "a = 0") (simp_all add: gdiv_def)

section \<open>Strings\<close>

text \<open>The UTF-8 encodings of the code points \<open>unicode.IsSpace\<close> accepts. No lead byte
  occurs as a continuation byte, so scanning for these byte sequences is the same as decoding
  runes and testing them.\<close>

definition space_encodings :: "string list" where
  "space_encodings =
     [[CHR 0x09], [CHR 0x0A], [CHR 0x0B], [CHR 0x0C], [CHR 0x0D], [CHR 0x20],
      [CHR 0xC2, CHR 0x85], [CHR 0xC2, CHR 0xA0], [CHR 0xE1, CHR 0x9A, CHR 0x80],
      [CHR 0xE2, CHR 0x80, CHR 0x80], [CHR 0xE2, CHR 0x80, CHR 0x81],
      [CHR 0xE2, CHR 0x80, CHR 0x82], [CHR 0xE2, CHR 0x80, CHR 0x83],
      [CHR 0xE2, CHR 0x80, CHR 0x84], [CHR 0xE2, CHR 0x80, CHR 0x85],
      [CHR 0xE2, CHR 0x80, CHR 0x86], [CHR 0xE2, CHR 0x80, CHR 0x87],
      [CHR 0xE2, CHR 0x80, CHR 0x88], [CHR 0xE2, CHR 0x80, CHR 0x89],
      [CHR 0xE2, CHR 0x80, CHR 0x8A], [CHR 0xE2, CHR 0x80, CHR 0xA8],
      [CHR 0xE2, CHR 0x80, CHR 0xA9], [CHR 0xE2, CHR 0x80, CHR 0xAF],
      [CHR 0xE2, CHR 0x81, CHR 0x9F], [CHR 0xE3, CHR 0x80, CHR 0x80]]"

fun is_prefix :: "string \<Rightarrow> string \<Rightarrow> bool" where
  "is_prefix [] s = True"
| "is_prefix (c # cs) [] = False"
| "is_prefix (c # cs) (d # ds) = (c = d \<and> is_prefix cs ds)"

definition space_len :: "string \<Rightarrow> nat" where
  "space_len s = (case find (\<lambda>w. is_prefix w s) space_encodings of None \<Rightarrow> 0 | Some w \<Rightarrow> length w)"

definition space_len_rev :: "string \<Rightarrow> nat" where
  "space_len_rev s =
     (case find (\<lambda>w. is_prefix (rev w) s) space_encodings of None \<Rightarrow> 0 | Some w \<Rightarrow> length w)"

text \<open>\<open>strings.Fields\<close>: the maximal runs of non-space text; \<open>acc\<close> is the current run,
  reversed.\<close>

fun str_fields_aux :: "string \<Rightarrow> string \<Rightarrow> string list" where
  "str_fields_aux [] acc = (if acc = [] then [] else [rev acc])"
| "str_fields_aux (c # cs) acc =
     (let k = space_len (c # cs) in
      if k = 0 then str_fields_aux cs (c # acc)
      else if acc = [] then str_fields_aux (drop (k - 1) cs) []
      else rev acc # str_fields_aux (drop (k - 1) cs) [])"

definition str_fields :: "string \<Rightarrow> string list" where
  "str_fields s = str_fields_aux s []"

text \<open>\<open>strings.TrimSpace\<close>: leading, then trailing white space.\<close>

fun trim_left :: "string \<Rightarrow> string" where
  "trim_left [] = []"
| "trim_left (c # cs) =
     (let k = space_len (c # cs) in if k = 0 then c # cs else trim_left (drop (k - 1) cs))"

fun trim_left_rev :: "string \<Rightarrow> string" where
  "trim_left_rev [] = []"
| "trim_left_rev (c # cs) =
     (let k = space_len_rev (c # cs) in
      if k = 0 then c # cs else trim_left_rev (drop (k - 1) cs))"

definition trim_space :: "string \<Rightarrow> string" where
  "trim_space s = rev (trim_left_rev (rev (trim_left s)))"

definition trim_prefix :: "string \<Rightarrow> string \<Rightarrow> string" where
  "trim_prefix p s = (if is_prefix p s then drop (length p) s else s)"

fun contains_str :: "string \<Rightarrow> string \<Rightarrow> bool" where
  "contains_str p [] = (p = [])"
| "contains_str p (c # cs) = (is_prefix p (c # cs) \<or> contains_str p cs)"

text \<open>\<open>strings.Join\<close>.\<close>

fun join_with :: "string \<Rightarrow> string list \<Rightarrow> string" where
  "join_with sep [] = []"
| "join_with sep [x] = x"
| "join_with sep (x # y # ys) = x @ sep @ join_with sep (y # ys)"

abbreviation code :: "char \<Rightarrow> nat" where
  "code c \<equiv> of_char c"

text \<open>\<open>strings.ToLower\<close> where the result is compared with ASCII text: the ASCII capitals,
  and the two other code points whose lower case is ASCII (U+0130 gives i, U+212A gives k).\<close>

fun to_lower :: "string \<Rightarrow> string" where
  "to_lower [] = []"
| "to_lower (c # cs) =
     (if 65 \<le> code c \<and> code c \<le> 90 then char_of (code c + 32) # to_lower cs
      else if is_prefix [CHR 0xC4, CHR 0xB0] (c # cs) then CHR ''i'' # to_lower (drop 1 cs)
      else if is_prefix [CHR 0xE2, CHR 0x84, CHR 0xAA] (c # cs)
      then CHR ''k'' # to_lower (drop 2 cs)
      else c # to_lower cs)"

section \<open>Numbers as text\<close>

definition is_digit :: "char \<Rightarrow> bool" where
  "is_digit c \<longleftrightarrow> 48 \<le> code c \<and> code c \<le> 57"

fun digits_value :: "int \<Rightarrow> string \<Rightarrow> int" where
  "digits_value n [] = n"
| "digits_value n (c # cs) = digits_value (10 * n + (of_char c - 48)) cs"

text \<open>\<open>strconv.ParseInt(s, 10, 64)\<close>, and \<open>strconv.Atoi\<close> on a 64-bit machine:
  an optional sign, at least one decimal digit and nothing else, in range; \<open>None\<close> is the
  error.\<close>

definition parse_udec :: "string \<Rightarrow> int option" where
  "parse_udec s = (if s \<noteq> [] \<and> list_all is_digit s then Some (digits_value 0 s) else None)"

definition parse_int :: "string \<Rightarrow> int option" where
  "parse_int s =
     (case s of
        [] \<Rightarrow> None
      | c # cs \<Rightarrow>
          (if c = CHR ''-'' then
             (case parse_udec cs of None \<Rightarrow> None
              | Some n \<Rightarrow> if n \<le> 2 ^ 63 then Some (- n) else None)
           else
             (case parse_udec (if c = CHR ''+'' then cs else s) of None \<Rightarrow> None
              | Some n \<Rightarrow> if n < 2 ^ 63 then Some n else None)))"

definition hex_digit :: "char \<Rightarrow> int option" where
  "hex_digit c =
     (let n = of_char c in
      if 48 \<le> n \<and> n \<le> 57 then Some (n - 48)
      else if 97 \<le> n \<and> n \<le> 102 then Some (n - 87)
      else if 65 \<le> n \<and> n \<le> 70 then Some (n - 55)
      else None)"

fun hex_value :: "int \<Rightarrow> string \<Rightarrow> int option" where
  "hex_value n [] = Some n"
| "hex_value n (c # cs) =
     (case hex_digit c of None \<Rightarrow> None | Some d \<Rightarrow> hex_value (16 * n + d) cs)"

text \<open>\<open>strconv.ParseUint(s, 16, 32)\<close>.\<close>

definition parse_hex32 :: "string \<Rightarrow> 32 word option" where
  "parse_hex32 s =
     (if s = [] then None
      else (case hex_value 0 s of None \<Rightarrow> None
            | Some n \<Rightarrow> if n < 2 ^ 32 then Some (of_int n) else None))"

text \<open>\<open>%d\<close>.\<close>

definition digit_char :: "nat \<Rightarrow> char" where
  "digit_char d = char_of (48 + d)"

fun utoa :: "nat \<Rightarrow> string" where
  "utoa n = (if n < 10 then [digit_char n] else utoa (n div 10) @ [digit_char (n mod 10)])"

declare utoa.simps [simp del]

definition itoa :: "int \<Rightarrow> string" where
  "itoa i = (if i < 0 then CHR ''-'' # utoa (nat (- i)) else utoa (nat i))"

section \<open>Facts about text\<close>

lemma of_char_int: "(of_char c :: int) = int (code c)"
  by (simp only: of_nat_of_char)

lemma code_char_of: "n < 256 \<Longrightarrow> code (char_of n) = n"
  by (simp add: of_char_mod_256)

lemma code_digit_char: "d < 10 \<Longrightarrow> code (digit_char d) = 48 + d"
  by (simp add: digit_char_def code_char_of)

lemma digit_char_is_digit: "d < 10 \<Longrightarrow> is_digit (digit_char d)"
  by (simp add: is_digit_def code_digit_char)

lemma digits_value_append: "digits_value n (xs @ ys) = digits_value (digits_value n xs) ys"
  by (induction xs arbitrary: n) auto

lemma utoa_not_Nil: "utoa n \<noteq> []"
  by (subst utoa.simps) simp

lemma utoa_digits: "list_all is_digit (utoa n)"
proof (induction n rule: utoa.induct)
  case (1 n)
  then show ?case by (subst utoa.simps) (auto simp: digit_char_is_digit)
qed

lemma digits_value_utoa: "digits_value 0 (utoa n) = int n"
proof (induction n rule: utoa.induct)
  case (1 n)
  have "10 * int (n div 10) + int (n mod 10) = int n"
    by (metis mult_div_mod_eq of_nat_add of_nat_mult of_nat_numeral)
  with 1 show ?case
    by (subst utoa.simps)
       (auto simp: digits_value_append of_char_int code_digit_char)
qed

lemma parse_udec_utoa: "parse_udec (utoa n) = Some (int n)"
  by (simp add: parse_udec_def utoa_not_Nil utoa_digits digits_value_utoa)

text \<open>Printing with \<open>%d\<close> and parsing back is the identity on 64-bit integers.\<close>

lemma utoa_head: "utoa n = c # cs \<Longrightarrow> c \<noteq> CHR ''-'' \<and> c \<noteq> CHR ''+''"
  using utoa_digits [of n] by (auto simp: is_digit_def)

lemma parse_int_itoa: "in64 i \<Longrightarrow> parse_int (itoa i) = Some i"
proof (cases "i < 0")
  case True
  moreover assume "in64 i"
  ultimately show ?thesis
    by (simp add: itoa_def parse_int_def parse_udec_utoa in64_def nat_le_iff)
next
  case False
  moreover assume "in64 i"
  moreover obtain c cs where "utoa (nat i) = c # cs"
    using utoa_not_Nil by (meson neq_Nil_conv)
  ultimately show ?thesis
    using utoa_head [of "nat i" c cs] parse_udec_utoa [of "nat i"]
    by (simp add: itoa_def parse_int_def in64_def nat_less_iff)
qed

lemma is_prefix_append [simp]: "is_prefix p (p @ s)"
  by (induction p) auto

lemma is_prefix_iff: "is_prefix p s \<longleftrightarrow> (\<exists>t. s = p @ t)"
  by (induction p s rule: is_prefix.induct) auto

text \<open>Printable ASCII text without blanks is never split or trimmed.\<close>

definition plain :: "char \<Rightarrow> bool" where
  "plain c \<longleftrightarrow> 33 \<le> code c \<and> code c < 127"

lemma is_prefix_head: "is_prefix (d # ds) (c # cs) \<Longrightarrow> d = c"
  by simp

lemma space_encodings_not_plain:
  "list_all (\<lambda>w. w \<noteq> [] \<and> \<not> plain (hd w) \<and> \<not> plain (last w)) space_encodings"
  by code_simp

lemma space_len_plain: "plain c \<Longrightarrow> space_len (c # cs) = 0"
proof -
  assume c: "plain c"
  have "find (\<lambda>w. is_prefix w (c # cs)) space_encodings = None"
    using space_encodings_not_plain c
    by (auto simp: find_None_iff list_all_iff is_prefix_iff Cons_eq_append_conv)
  then show ?thesis by (simp add: space_len_def)
qed

lemma space_len_blank: "space_len (CHR '' '' # cs) = 1"
  by (simp add: space_len_def space_encodings_def)

lemma space_len_cr: "space_len (CHR 0x0D # cs) = 1"
  by (simp add: space_len_def space_encodings_def)

lemma space_len_lf: "space_len (CHR 0x0A # cs) = 1"
  by (simp add: space_len_def space_encodings_def)

lemma str_fields_aux_plain:
  "list_all plain w \<Longrightarrow> str_fields_aux (w @ s) acc = str_fields_aux s (rev w @ acc)"
  by (induction w arbitrary: acc) (auto simp: space_len_plain)

lemma fields_word_blank:
  "list_all plain w \<Longrightarrow> w \<noteq> [] \<Longrightarrow> str_fields (w @ CHR '' '' # s) = w # str_fields s"
  by (simp add: str_fields_def str_fields_aux_plain space_len_blank)

lemma fields_word_crlf:
  "list_all plain w \<Longrightarrow> w \<noteq> [] \<Longrightarrow> str_fields (w @ [CHR 0x0D, CHR 0x0A]) = [w]"
  by (simp add: str_fields_def str_fields_aux_plain space_len_cr space_len_lf)

lemma plain_digit: "is_digit c \<Longrightarrow> plain c"
  by (simp add: is_digit_def plain_def)

lemma plain_utoa: "list_all plain (utoa n)"
  using utoa_digits by (rule list.pred_mono_strong) (simp add: plain_digit)

lemma plain_itoa: "list_all plain (itoa i)"
  by (simp add: itoa_def plain_utoa) (simp add: plain_def)

lemma space_len_rev_plain: "plain c \<Longrightarrow> space_len_rev (c # cs) = 0"
proof -
  assume c: "plain c"
  have "\<not> is_prefix (rev w) (c # cs)" if w: "w \<in> set space_encodings" for w
  proof -
    from w space_encodings_not_plain have "w \<noteq> []" and "\<not> plain (last w)"
      by (auto simp: list_all_iff)
    then obtain v d where "w = v @ [d]" and "\<not> plain d"
      by (metis append_butlast_last_id)
    with c show ?thesis by auto
  qed
  then have "find (\<lambda>w. is_prefix (rev w) (c # cs)) space_encodings = None"
    by (simp add: find_None_iff)
  then show ?thesis by (simp add: space_len_rev_def)
qed

lemma trim_left_plain: "list_all plain w \<Longrightarrow> trim_left w = w"
  by (cases w) (simp_all add: space_len_plain)

lemma trim_left_rev_plain: "list_all plain w \<Longrightarrow> trim_left_rev w = w"
  by (cases w) (simp_all add: space_len_rev_plain)

lemma trim_space_plain: "list_all plain w \<Longrightarrow> trim_space w = w"
  by (simp add: trim_space_def trim_left_plain trim_left_rev_plain)

lemma trim_prefix_append [simp]: "trim_prefix p (p @ s) = s"
  by (simp add: trim_prefix_def)

end
