(* ===== verification/Yenc.thy ===== *)
theory Yenc
  imports Go_Prelude
begin

unbundle bit_operations_syntax

text \<open>
  The yEnc decoder of \<open>internal/nzb/yenc.go\<close>: header parsing, the byte decoder
  \<open>Read\<close> with its escape state and end-of-data detection, the footer, and the CRC check.
  The buffered reader is the list of bytes still to come and the error that follows the last
  one. An abstract relation \<open>yenc_repr\<close> says which byte sequences the format allows as
  the encoding of some data; the decoder is proved to invert all of them.
\<close>

section \<open>Input\<close>

datatype read_err = EOF | UnexpectedEOF | Broken string

record breader =
  buf :: "byte list"
  end_err :: read_err

definition str_of :: "byte list \<Rightarrow> string" where
  "str_of bs = map (\<lambda>b. char_of (unat b)) bs"

definition bytes_of :: "string \<Rightarrow> byte list" where
  "bytes_of s = map (\<lambda>c. word_of_nat (code c)) s"

text \<open>\<open>bufio.Reader.ReadString('\n')\<close>: the line with its newline, or what is left and the
  error.\<close>

definition read_line :: "breader \<Rightarrow> string \<times> read_err option \<times> breader" where
  "read_line r =
     (if 10 \<in> set (buf r) then
        (str_of (takeWhile (\<lambda>b. b \<noteq> 10) (buf r) @ [10]), None,
         r\<lparr>buf := tl (dropWhile (\<lambda>b. b \<noteq> 10) (buf r))\<rparr>)
      else (str_of (buf r), Some (end_err r), r\<lparr>buf := []\<rparr>))"

definition peek :: "nat \<Rightarrow> breader \<Rightarrow> string \<times> read_err option" where
  "peek n r = (str_of (take n (buf r)), if length (buf r) < n then Some (end_err r) else None)"

lemma read_line_shorter:
  "read_line r = (l, None, r') \<Longrightarrow> length (buf r') < length (buf r)"
proof -
  assume eq: "read_line r = (l, None, r')"
  then have m: "10 \<in> set (buf r)" by (simp add: read_line_def split: if_splits)
  then have "dropWhile (\<lambda>b. b \<noteq> 10) (buf r) \<noteq> []" by auto
  moreover have "length (dropWhile (\<lambda>b. b \<noteq> 10) (buf r)) \<le> length (buf r)"
    by (simp add: length_dropWhile_le)
  moreover from eq m have "buf r' = tl (dropWhile (\<lambda>b. b \<noteq> 10) (buf r))"
    by (auto simp: read_line_def)
  ultimately show ?thesis
    by (cases "dropWhile (\<lambda>b. b \<noteq> 10) (buf r)") simp_all
qed

lemma read_line_shorter_sym:
  "(l, None, r') = read_line r \<Longrightarrow> length (buf r') < length (buf r)"
  by (rule read_line_shorter [OF sym])

section \<open>Headers\<close>

record yenc_header =
  PartNumber :: int
  TotalParts :: int
  PartOffset :: int
  PartEnd :: int
  FileSize :: int
  FileName :: string

definition empty_header :: yenc_header where
  "empty_header = \<lparr>PartNumber = 0, TotalParts = 0, PartOffset = 0, PartEnd = 0,
     FileSize = 0, FileName = []\<rparr>"

text \<open>One iteration of the loop of \<open>parseYbeginLine\<close>.\<close>

definition parse_ybegin_part :: "string \<Rightarrow> yenc_header \<Rightarrow> yenc_header" where
  "parse_ybegin_part part h =
     (if is_prefix ''part='' part then
        (case parse_int (trim_prefix ''part='' part) of
           Some v \<Rightarrow> if v > 0 then h\<lparr>PartNumber := v\<rparr> else h
         | None \<Rightarrow> h)
      else if is_prefix ''total='' part then
        (case parse_int (trim_prefix ''total='' part) of
           Some v \<Rightarrow> if v > 0 then h\<lparr>TotalParts := v\<rparr> else h
         | None \<Rightarrow> h)
      else if is_prefix ''size='' part then
        (case parse_int (trim_prefix ''size='' part) of
           Some v \<Rightarrow> h\<lparr>FileSize := v\<rparr>
         | None \<Rightarrow> h)
      else if is_prefix ''name='' part then
        h\<lparr>FileName := trim_space (trim_prefix ''name='' part)\<rparr>
      else h)"

definition parseYbeginLine :: "string \<Rightarrow> yenc_header \<Rightarrow> yenc_header" where
  "parseYbeginLine line h = fold parse_ybegin_part (str_fields line) h"

text \<open>One iteration of the loop over the fields of an \<open>=ypart\<close> line; offsets are 1-based on
  the wire.\<close>

definition parse_ypart_part :: "string \<Rightarrow> yenc_header \<Rightarrow> yenc_header" where
  "parse_ypart_part part h =
     (let h1 = (if is_prefix ''begin='' part then
                  (case parse_int (trim_prefix ''begin='' part) of
                     Some v \<Rightarrow> h\<lparr>PartOffset := i64 (v - 1)\<rparr>
                   | None \<Rightarrow> h)
                else h)
      in if is_prefix ''end='' part then
           (case parse_int (trim_prefix ''end='' part) of
              Some v \<Rightarrow> if v > 0 then h1\<lparr>PartEnd := v\<rparr> else h1
            | None \<Rightarrow> h1)
         else h1)"

definition readPotentialPartHeader ::
  "breader \<Rightarrow> yenc_header \<Rightarrow> read_err option \<times> breader \<times> yenc_header" where
  "readPotentialPartHeader r h =
     (case peek 6 r of
        (_, Some _) \<Rightarrow> (None, r, h)
      | (s, None) \<Rightarrow>
          (if contains_str ''=ypart'' s then
             (case read_line r of
                (_, Some e, r') \<Rightarrow> (Some e, r', h)
              | (line, None, r') \<Rightarrow> (None, r', fold parse_ypart_part (str_fields line) h))
           else (None, r, h)))"

text \<open>The loop that \<open>ReadYencHeader\<close> and \<open>DiscardHeader\<close> share: lines up to the
  \<open>=ybegin\<close> line are skipped. The result is the error, the rest of the input and the
  header.\<close>

function header_loop ::
  "breader \<Rightarrow> yenc_header \<Rightarrow> read_err option \<times> breader \<times> yenc_header" where
  "header_loop r h =
     (case read_line r of
        (_, Some e, r') \<Rightarrow> (Some e, r', h)
      | (line, None, r') \<Rightarrow>
          (if is_prefix ''=ybegin'' line
           then readPotentialPartHeader r' (parseYbeginLine line h)
           else header_loop r' h))"
  by pat_completeness auto
termination
  by (relation "measure (\<lambda>(r, h). length (buf r))") (auto intro: read_line_shorter_sym)

declare header_loop.simps [simp del]

definition ReadYencHeader :: "breader \<Rightarrow> yenc_header \<times> read_err option" where
  "ReadYencHeader r = (case header_loop r empty_header of (e, _, h) \<Rightarrow> (h, e))"

section \<open>CRC-32\<close>

text \<open>\<open>hash/crc32\<close> with the IEEE polynomial, bit by bit. \<open>crc_update\<close> is
  \<open>hash.Hash32.Write\<close>; the state between writes is the checksum itself, as in the Go
  library.\<close>

definition crc_bit :: "32 word \<Rightarrow> 32 word" where
  "crc_bit c = (if bit c 0 then drop_bit 1 c XOR 0xEDB88320 else drop_bit 1 c)"

definition crc_byte :: "32 word \<Rightarrow> byte \<Rightarrow> 32 word" where
  "crc_byte c b = (crc_bit ^^ 8) (c XOR ucast b)"

definition crc_update :: "32 word \<Rightarrow> byte list \<Rightarrow> 32 word" where
  "crc_update c bs = NOT (foldl crc_byte (NOT c) bs)"

section \<open>The decoder\<close>

text \<open>The six header fields that \<open>YencDecoder\<close> repeats are kept as one header record.\<close>

record yenc_decoder =
  scanner :: breader
  reachedEnd :: bool
  escaped :: bool
  hash :: "32 word"
  expectedCRC :: "32 word"
  header :: yenc_header

definition NewYencDecoder :: "breader \<Rightarrow> yenc_decoder" where
  "NewYencDecoder r = \<lparr>scanner = r, reachedEnd = False, escaped = False, hash = 0,
     expectedCRC = 0, header = empty_header\<rparr>"

definition DiscardHeader :: "yenc_decoder \<Rightarrow> read_err option \<times> yenc_decoder" where
  "DiscardHeader d =
     (case header_loop (scanner d) (header d) of
        (e, r, h) \<Rightarrow> (e, d\<lparr>scanner := r, header := h\<rparr>))"

datatype stop = Full | Drained | AtEnd

text \<open>The loop of \<open>Read\<close> with \<open>n\<close> free places in the buffer: the decoded bytes, why it
  stopped, the escape flag and the unread input (at the end marker: after its equals sign).\<close>

fun decode_loop :: "nat \<Rightarrow> bool \<Rightarrow> byte list \<Rightarrow> byte list \<times> stop \<times> bool \<times> byte list" where
  "decode_loop 0 esc bs = ([], Full, esc, bs)"
| "decode_loop (Suc n) esc [] = ([], Drained, esc, [])"
| "decode_loop (Suc n) esc (b # bs) =
     (if b = 61 \<and> \<not> esc then
        (if take 4 bs = bytes_of ''yend'' then ([], AtEnd, esc, bs)
         else decode_loop (Suc n) True bs)
      else if (b = 13 \<or> b = 10) \<and> \<not> esc then decode_loop (Suc n) esc bs
      else
        (case decode_loop n False bs of
           (out, st, esc', rest) \<Rightarrow>
             ((if esc then b - 64 - 42 else b - 42) # out, st, esc', rest)))"

fun footer_crc :: "string list \<Rightarrow> 32 word \<Rightarrow> 32 word" where
  "footer_crc [] crc = crc"
| "footer_crc (part # parts) crc =
     (case (if is_prefix ''pcrc32='' part then parse_hex32 (trim_prefix ''pcrc32='' part)
            else None) of
        Some v \<Rightarrow> v
      | None \<Rightarrow>
          (if is_prefix ''crc32='' part then
             (case parse_hex32 (trim_prefix ''crc32='' part) of
                Some v \<Rightarrow> footer_crc parts v
              | None \<Rightarrow> footer_crc parts crc)
           else footer_crc parts crc))"

definition parseFooter :: "yenc_decoder \<Rightarrow> yenc_decoder" where
  "parseFooter d =
     (case read_line (scanner d) of
        (line, _, r) \<Rightarrow>
          d\<lparr>scanner := r, expectedCRC := footer_crc (str_fields line) (expectedCRC d)\<rparr>)"

text \<open>\<open>Read(p)\<close> with \<open>len(p) = n\<close>: the bytes written to \<open>p\<close>, the error, the decoder.\<close>

definition Read :: "nat \<Rightarrow> yenc_decoder \<Rightarrow> byte list \<times> read_err option \<times> yenc_decoder" where
  "Read n d =
     (if reachedEnd d then ([], Some EOF, d)
      else
        (case decode_loop n (escaped d) (buf (scanner d)) of
           (out, st, esc, rest) \<Rightarrow>
             (let d1 = d\<lparr>scanner := (scanner d)\<lparr>buf := rest\<rparr>, escaped := esc,
                          hash := crc_update (hash d) out\<rparr>
              in case st of
                   Full \<Rightarrow> (out, None, d1)
                 | Drained \<Rightarrow> (out, Some (end_err (scanner d)), d1)
                 | AtEnd \<Rightarrow> (out, Some EOF, parseFooter (d1\<lparr>reachedEnd := True\<rparr>)))))"

definition Verify :: "yenc_decoder \<Rightarrow> (32 word \<times> 32 word) option" where
  "Verify d =
     (if expectedCRC d = 0 then None
      else if hash d \<noteq> expectedCRC d then Some (expectedCRC d, hash d)
      else None)"

section \<open>Checksums over several writes\<close>

text \<open>The contract of a hash that is fed in pieces, and what follows for any sequence of
  writes.\<close>

locale incremental_hash =
  fixes upd :: "'h \<Rightarrow> 'b list \<Rightarrow> 'h"
  assumes upd_nil: "upd h [] = h"
    and upd_append: "upd h (xs @ ys) = upd (upd h xs) ys"
begin

lemma upd_chunks: "foldl upd h xss = upd h (concat xss)"
  by (induction xss arbitrary: h) (simp_all add: upd_nil upd_append)

end

interpretation crc: incremental_hash crc_update
  by unfold_locales (simp_all add: crc_update_def)

section \<open>The decoding loop\<close>

lemma decode_loop_length:
  "decode_loop n esc bs = (out, st, esc', rest) \<Longrightarrow>
     length out \<le> n \<and> (st = Full \<longleftrightarrow> length out = n) \<and> length rest \<le> length bs"
proof (induction n esc bs arbitrary: out rule: decode_loop.induct)
  case (3 n esc b bs)
  then show ?case
    by (auto split: if_splits prod.splits intro: le_SucI)
qed auto

text \<open>Two reads in a row decode what one read with the joint buffer decodes.\<close>

lemma decode_loop_compose:
  "decode_loop (a + b) esc bs =
     (case decode_loop a esc bs of
        (out, st, esc', rest) \<Rightarrow>
          if st = Full then
            (case decode_loop b esc' rest of
               (out', st', esc'', rest') \<Rightarrow> (out @ out', st', esc'', rest'))
          else (out, st, esc', rest))"
proof (induction a esc bs rule: decode_loop.induct)
  case (3 n esc b bs)
  then show ?case by (auto split: prod.splits)
qed (auto split: prod.splits)

section \<open>What the format allows, and that the decoder inverts it\<close>

text \<open>\<open>yenc_repr ds es\<close>: the bytes \<open>es\<close> are an encoding of the data \<open>ds\<close>. Line breaks may
  stand between two encoded bytes; a byte may be escaped unless its escape would be the letter
  y (which starts the end marker); CR, LF and the equals sign must be.\<close>

inductive yenc_repr :: "byte list \<Rightarrow> byte list \<Rightarrow> bool" where
  repr_nil: "yenc_repr [] []"
| repr_break: "b = 13 \<or> b = 10 \<Longrightarrow> yenc_repr ds es \<Longrightarrow> yenc_repr ds (b # es)"
| repr_plain: "d + 42 \<notin> {10, 13, 61} \<Longrightarrow> yenc_repr ds es \<Longrightarrow> yenc_repr (d # ds) ((d + 42) # es)"
| repr_escaped: "d + 106 \<noteq> 121 \<Longrightarrow> yenc_repr ds es \<Longrightarrow> yenc_repr (d # ds) (61 # (d + 106) # es)"

lemma yend_head: "bytes_of ''yend'' = 121 # bytes_of ''end''"
  by (simp add: bytes_of_def)

lemma decode_repr:
  assumes "yenc_repr ds es" and "length ds < n"
  shows "decode_loop n False (es @ rest) =
     (case decode_loop (n - length ds) False rest of
        (out, st, esc, rest') \<Rightarrow> (ds @ out, st, esc, rest'))"
  using assms
proof (induction arbitrary: n)
  case repr_nil
  then show ?case by (simp split: prod.split)
next
  case (repr_break b ds es)
  then obtain m where "n = Suc m" by (cases n) auto
  with repr_break show ?case by (auto split: prod.split)
next
  case (repr_plain d ds es)
  then obtain m where "n = Suc m" and "length ds < m" by (cases n) auto
  with repr_plain show ?case by (auto split: prod.split)
next
  case (repr_escaped d ds es)
  then obtain m where "n = Suc m" and "length ds < m" by (cases n) auto
  with repr_escaped show ?case by (auto simp: yend_head split: prod.split)
qed

lemma decode_end_marker:
  "0 < n \<Longrightarrow> decode_loop n False (bytes_of ''=yend'' @ rest) =
     ([], AtEnd, False, bytes_of ''yend'' @ rest)"
  by (cases n) (simp_all add: bytes_of_def)

lemma decode_repr_full:
  assumes "yenc_repr ds es" and "n \<le> length ds"
  shows "\<exists>rest'. decode_loop n False (es @ rest) = (take n ds, Full, False, rest')"
  using assms
proof (induction arbitrary: n)
  case repr_nil
  then show ?case by simp
next
  case (repr_break b ds es)
  then show ?case by (cases n) auto
next
  case (repr_plain d ds es)
  show ?case
  proof (cases n)
    case (Suc m)
    with repr_plain obtain r where "decode_loop m False (es @ rest) = (take m ds, Full, False, r)"
      by (metis Suc_le_mono length_Cons)
    with Suc repr_plain show ?thesis by auto
  qed simp
next
  case (repr_escaped d ds es)
  show ?case
  proof (cases n)
    case (Suc m)
    with repr_escaped obtain r where "decode_loop m False (es @ rest) = (take m ds, Full, False, r)"
      by (metis Suc_le_mono length_Cons)
    with Suc repr_escaped show ?thesis by (auto simp: yend_head)
  qed simp
qed

text \<open>A reference encoder: the critical characters are escaped, a line break follows every
  \<open>k\<close> data bytes.\<close>

definition yenc_encode_byte :: "byte \<Rightarrow> byte list" where
  "yenc_encode_byte d = (if d + 42 \<in> {0, 10, 13, 61} then [61, d + 106] else [d + 42])"

fun yenc_encode :: "nat \<Rightarrow> nat \<Rightarrow> byte list \<Rightarrow> byte list" where
  "yenc_encode k col [] = [13, 10]"
| "yenc_encode k col (d # ds) =
     (if col = 0 then [13, 10] @ yenc_encode_byte d @ yenc_encode k (k - 1) ds
      else yenc_encode_byte d @ yenc_encode k (col - 1) ds)"

lemma escape_not_y: "d + 42 \<in> {0, 10, 13, 61} \<Longrightarrow> (d::byte) + 106 \<noteq> 121"
proof
  assume "d + 42 \<in> {0, 10, 13, 61}" and "d + 106 = 121"
  from \<open>d + 106 = 121\<close> have "d = 121 - 106" by (simp only: eq_diff_eq)
  with \<open>d + 42 \<in> _\<close> show False by simp
qed

lemma repr_encode_byte: "yenc_repr ds es \<Longrightarrow> yenc_repr (d # ds) (yenc_encode_byte d @ es)"
proof (cases "d + 42 \<in> {0, 10, 13, 61}")
  case True
  assume "yenc_repr ds es"
  with True show ?thesis
    using repr_escaped [of d ds es, OF escape_not_y [OF True]]
    by (simp only: yenc_encode_byte_def if_True append.simps)
next
  case False
  assume "yenc_repr ds es"
  with False show ?thesis
    using repr_plain [of d ds es] by (simp add: yenc_encode_byte_def)
qed

lemma repr_encode: "yenc_repr ds (yenc_encode k col ds)"
  by (induction k col ds rule: yenc_encode.induct)
     (auto intro: yenc_repr.intros repr_encode_byte)

section \<open>Reading lines\<close>

lemma str_of_bytes_of [simp]: "str_of (bytes_of s) = s"
  by (simp add: str_of_def bytes_of_def comp_def unat_of_nat)

lemma bytes_of_append: "bytes_of (s @ t) = bytes_of s @ bytes_of t"
  by (simp add: bytes_of_def)

lemma bytes_of_LF: "bytes_of [CHR 0x0A] = [10]"
  by (simp add: bytes_of_def)

lemma byte_of_char_10: "(word_of_nat (code c) = (10::byte)) \<longleftrightarrow> c = CHR 0x0A"
proof
  assume "word_of_nat (code c) = (10::byte)"
  then have "unat (word_of_nat (code c) :: byte) = unat (10::byte)" by simp
  then have "code c = 10" by (simp add: unat_of_nat)
  then have "code c = code (CHR 0x0A)" by simp
  then show "c = CHR 0x0A" by (simp only: of_char_eq_iff)
qed simp

lemma no_LF_bytes: "CHR 0x0A \<notin> set l \<Longrightarrow> 10 \<notin> set (bytes_of l)"
  by (auto simp: bytes_of_def dest!: byte_of_char_10 [THEN iffD1, OF sym])

lemma read_line_bytes:
  assumes "CHR 0x0A \<notin> set l"
  shows "read_line (r\<lparr>buf := bytes_of (l @ [CHR 0x0A]) @ rest\<rparr>) =
     (l @ [CHR 0x0A], None, r\<lparr>buf := rest\<rparr>)"
proof -
  have "\<forall>b\<in>set (bytes_of l). b \<noteq> 10" using no_LF_bytes [OF assms] by auto
  then have "takeWhile (\<lambda>b. b \<noteq> 10) (bytes_of l @ 10 # rest) = bytes_of l"
    and "dropWhile (\<lambda>b. b \<noteq> 10) (bytes_of l @ 10 # rest) = 10 # rest"
    by (simp_all add: takeWhile_append2 dropWhile_append2)
  moreover have "str_of (bytes_of l @ [10]) = l @ [CHR 0x0A]"
    by (metis bytes_of_LF bytes_of_append str_of_bytes_of)
  ultimately show ?thesis
    by (simp add: read_line_def bytes_of_append bytes_of_LF)
qed

section \<open>Headers written by a poster\<close>

definition ybegin_line :: "yenc_header \<Rightarrow> string" where
  "ybegin_line h = ''=ybegin part='' @ itoa (PartNumber h) @ '' total='' @ itoa (TotalParts h) @
     '' line=128 size='' @ itoa (FileSize h) @ '' name='' @ FileName h @ [CHR 0x0D]"

definition ypart_line :: "yenc_header \<Rightarrow> string" where
  "ypart_line h = ''=ypart begin='' @ itoa (PartOffset h + 1) @ '' end='' @ itoa (PartEnd h) @
     [CHR 0x0D]"

definition good_header :: "yenc_header \<Rightarrow> bool" where
  "good_header h \<longleftrightarrow> 0 < PartNumber h \<and> 0 < TotalParts h \<and> 0 \<le> PartOffset h \<and> 0 < PartEnd h \<and>
     in64 (PartNumber h) \<and> in64 (TotalParts h) \<and> in64 (PartOffset h + 1) \<and>
     in64 (PartEnd h) \<and> in64 (FileSize h) \<and> list_all plain (FileName h)"

lemmas field_words = fields_word_blank fields_word_crlf

lemma str_fields_ybegin:
  assumes "good_header h"
  shows "str_fields (ybegin_line h @ [CHR 0x0A]) =
     [''=ybegin'', ''part='' @ itoa (PartNumber h), ''total='' @ itoa (TotalParts h), ''line=128'',
      ''size='' @ itoa (FileSize h), ''name='' @ FileName h]"
proof -
  have pl: "list_all plain ''=ybegin''" "list_all plain ''part=''" "list_all plain ''total=''"
    "list_all plain ''line=128''" "list_all plain ''size=''" "list_all plain ''name=''"
    by (simp_all add: plain_def)
  have "ybegin_line h @ [CHR 0x0A] =
      ''=ybegin'' @ CHR '' '' # (''part='' @ itoa (PartNumber h)) @ CHR '' '' #
      (''total='' @ itoa (TotalParts h)) @ CHR '' '' # ''line=128'' @ CHR '' '' #
      (''size='' @ itoa (FileSize h)) @ CHR '' '' # (''name='' @ FileName h) @
      [CHR 0x0D, CHR 0x0A]"
    by (simp add: ybegin_line_def)
  moreover have "list_all plain (FileName h)" using assms by (simp add: good_header_def)
  ultimately show ?thesis
    using pl by (simp only: field_words list_all_append plain_itoa simp_thms list.distinct
        append_is_Nil_conv not_Cons_self2)
qed

lemma parse_ybegin_fields:
  assumes "good_header h"
  shows "parseYbeginLine (ybegin_line h @ [CHR 0x0A]) h0 =
     h\<lparr>PartOffset := PartOffset h0, PartEnd := PartEnd h0\<rparr>"
proof -
  have "parse_int (itoa (PartNumber h)) = Some (PartNumber h)"
    and "parse_int (itoa (TotalParts h)) = Some (TotalParts h)"
    and "parse_int (itoa (FileSize h)) = Some (FileSize h)"
    and "0 < PartNumber h" "0 < TotalParts h" "trim_space (FileName h) = FileName h"
    using assms by (simp_all add: good_header_def parse_int_itoa trim_space_plain)
  then show ?thesis
    using assms
    by (simp add: parseYbeginLine_def str_fields_ybegin parse_ybegin_part_def trim_prefix_def)
qed

lemma str_fields_ypart:
  "str_fields (ypart_line h @ [CHR 0x0A]) =
     [''=ypart'', ''begin='' @ itoa (PartOffset h + 1), ''end='' @ itoa (PartEnd h)]"
proof -
  have pl: "list_all plain ''=ypart''" "list_all plain ''begin=''" "list_all plain ''end=''"
    by (simp_all add: plain_def)
  have "ypart_line h @ [CHR 0x0A] =
      ''=ypart'' @ CHR '' '' # (''begin='' @ itoa (PartOffset h + 1)) @ CHR '' '' #
      (''end='' @ itoa (PartEnd h)) @ [CHR 0x0D, CHR 0x0A]"
    by (simp add: ypart_line_def)
  then show ?thesis
    using pl by (simp only: field_words list_all_append plain_itoa simp_thms list.distinct
        append_is_Nil_conv not_Cons_self2)
qed

lemma parse_ypart_fields:
  assumes "good_header h"
  shows "fold parse_ypart_part (str_fields (ypart_line h @ [CHR 0x0A])) h0 =
     h0\<lparr>PartOffset := PartOffset h, PartEnd := PartEnd h\<rparr>"
proof -
  have "parse_int (itoa (PartOffset h + 1)) = Some (PartOffset h + 1)"
    and "parse_int (itoa (PartEnd h)) = Some (PartEnd h)" and "0 < PartEnd h"
    and "i64 (PartOffset h) = PartOffset h"
    using assms by (simp_all add: good_header_def parse_int_itoa i64_id in64_def)
  then show ?thesis
    by (simp add: str_fields_ypart parse_ypart_part_def trim_prefix_def Let_def)
qed

lemma LF_not_plain: "list_all plain s \<Longrightarrow> CHR 0x0A \<notin> set s"
  by (auto simp: list_all_iff plain_def)

lemma itoa_no_LF: "CHR 0x0A \<notin> set (itoa i)"
  by (rule LF_not_plain [OF plain_itoa])

lemma header_lines_no_LF:
  "good_header h \<Longrightarrow> CHR 0x0A \<notin> set (ybegin_line h)"
  "CHR 0x0A \<notin> set (ypart_line h)"
  by (auto simp: ybegin_line_def ypart_line_def itoa_no_LF good_header_def dest: LF_not_plain)

lemma header_loop_skip:
  assumes "CHR 0x0A \<notin> set l" and "\<not> is_prefix ''=ybegin'' (l @ [CHR 0x0A])"
  shows "header_loop (r\<lparr>buf := bytes_of (l @ [CHR 0x0A]) @ rest\<rparr>) h =
     header_loop (r\<lparr>buf := rest\<rparr>) h"
  by (subst header_loop.simps) (simp add: read_line_bytes assms)

lemma header_loop_skips:
  assumes "\<forall>l\<in>set pre. CHR 0x0A \<notin> set l \<and> \<not> is_prefix ''=ybegin'' (l @ [CHR 0x0A])"
  shows "header_loop (r\<lparr>buf := concat (map (\<lambda>l. bytes_of (l @ [CHR 0x0A])) pre) @ rest\<rparr>) h =
     header_loop (r\<lparr>buf := rest\<rparr>) h"
  using assms by (induction pre) (simp_all add: header_loop_skip)

lemma peek_ypart: "peek 6 (r\<lparr>buf := bytes_of (ypart_line h @ [CHR 0x0A]) @ rest\<rparr>) = (''=ypart'', None)"
proof -
  have "bytes_of (ypart_line h @ [CHR 0x0A]) @ rest =
      bytes_of ''=ypart'' @ (bytes_of (drop 6 (ypart_line h @ [CHR 0x0A])) @ rest)"
    by (simp add: ypart_line_def bytes_of_def)
  moreover have "length (bytes_of ''=ypart'') = 6" by (simp add: bytes_of_def)
  ultimately show ?thesis by (simp add: peek_def)
qed

lemma part_header_read:
  assumes "good_header h"
  shows "readPotentialPartHeader (r\<lparr>buf := bytes_of (ypart_line h @ [CHR 0x0A]) @ rest\<rparr>) h0 =
     (None, r\<lparr>buf := rest\<rparr>, h0\<lparr>PartOffset := PartOffset h, PartEnd := PartEnd h\<rparr>)"
  unfolding readPotentialPartHeader_def peek_ypart
  by (simp add: read_line_bytes header_lines_no_LF parse_ypart_fields [OF assms])

lemma ybegin_line_prefix: "is_prefix ''=ybegin'' (ybegin_line h @ [CHR 0x0A])"
  by (simp add: ybegin_line_def)

text \<open>The bytes of an article: lines before the header, the two header lines, the body.\<close>

definition article_bytes :: "string list \<Rightarrow> yenc_header \<Rightarrow> byte list \<Rightarrow> byte list" where
  "article_bytes pre h body =
     concat (map (\<lambda>l. bytes_of (l @ [CHR 0x0A])) pre) @ bytes_of (ybegin_line h @ [CHR 0x0A]) @
     bytes_of (ypart_line h @ [CHR 0x0A]) @ body"

definition preamble_ok :: "string list \<Rightarrow> bool" where
  "preamble_ok pre \<longleftrightarrow>
     (\<forall>l\<in>set pre. CHR 0x0A \<notin> set l \<and> \<not> is_prefix ''=ybegin'' (l @ [CHR 0x0A]))"

lemma header_loop_article:
  assumes "preamble_ok pre" and "good_header h"
  shows "header_loop (r\<lparr>buf := article_bytes pre h body\<rparr>) h0 = (None, r\<lparr>buf := body\<rparr>, h)"
proof -
  have "header_loop (r\<lparr>buf := article_bytes pre h body\<rparr>) h0 =
      header_loop (r\<lparr>buf := bytes_of (ybegin_line h @ [CHR 0x0A]) @
        bytes_of (ypart_line h @ [CHR 0x0A]) @ body\<rparr>) h0"
    unfolding article_bytes_def
    using header_loop_skips assms(1) unfolding preamble_ok_def by blast
  also have "\<dots> = (None, r\<lparr>buf := body\<rparr>, h)"
    by (subst header_loop.simps)
       (simp add: read_line_bytes header_lines_no_LF assms(2) ybegin_line_prefix
          parse_ybegin_fields part_header_read)
  finally show ?thesis .
qed

section \<open>Reading through a buffer of any size\<close>

text \<open>\<open>io.ReadFull(d, data)\<close> with \<open>len(data) = n\<close>: \<open>Read\<close> until the buffer is full or an
  error comes; the end of the data after at least one byte is \<open>UnexpectedEOF\<close>.\<close>

lemma Read_length: "Read n d = (out, e, d') \<Longrightarrow> length out \<le> n \<and> (e = None \<longrightarrow> length out = n)"
  by (auto simp: Read_def Let_def dest: decode_loop_length split: if_splits prod.splits stop.splits)

function read_all :: "nat \<Rightarrow> yenc_decoder \<Rightarrow> byte list \<times> read_err option \<times> yenc_decoder" where
  "read_all n d =
     (if n = 0 then ([], None, d)
      else
        (case Read n d of
           (out, Some e, d') \<Rightarrow> (out, Some e, d')
         | (out, None, d') \<Rightarrow>
             (case read_all (n - length out) d' of (out', e, d'') \<Rightarrow> (out @ out', e, d''))))"
  by pat_completeness auto
termination
  by (relation "measure (\<lambda>(n, d). n)") (auto dest: Read_length [OF sym])

declare read_all.simps [simp del]

definition ReadFull :: "nat \<Rightarrow> yenc_decoder \<Rightarrow> byte list \<times> read_err option \<times> yenc_decoder" where
  "ReadFull n d =
     (case read_all n d of
        (out, e, d') \<Rightarrow>
          if length out \<ge> n then (out, None, d')
          else if out \<noteq> [] \<and> e = Some EOF then (out, Some UnexpectedEOF, d')
          else (out, e, d'))"

lemma read_all_Read: "0 < n \<Longrightarrow> read_all n d = Read n d"
proof -
  assume n: "0 < n"
  obtain out e d' where r: "Read n d = (out, e, d')" by (cases "Read n d") auto
  show ?thesis
  proof (cases e)
    case None
    with r have "length out = n" using Read_length by auto
    with n r None show ?thesis by (simp add: read_all.simps [of n d] read_all.simps [of 0 d'])
  next
    case (Some x)
    with n r show ?thesis by (simp add: read_all.simps [of n d])
  qed
qed

text \<open>Reading with buffers of sizes \<open>ns\<close> in turn, up to the first error.\<close>

fun read_sizes :: "nat list \<Rightarrow> yenc_decoder \<Rightarrow> byte list \<times> read_err option \<times> yenc_decoder" where
  "read_sizes [] d = ([], None, d)"
| "read_sizes (n # ns) d =
     (case Read n d of
        (out, Some e, d') \<Rightarrow> (out, Some e, d')
      | (out, None, d') \<Rightarrow>
          (case read_sizes ns d' of (out', e, d'') \<Rightarrow> (out @ out', e, d'')))"

lemma Read_0: "\<not> reachedEnd d \<Longrightarrow> Read 0 d = ([], None, d)"
  by (simp add: Read_def crc.upd_nil)

lemma reachedEnd_parseFooter: "reachedEnd (parseFooter d) = reachedEnd d"
  by (simp add: parseFooter_def split: prod.split)

lemma Read_open: "Read n d = (out, None, d') \<Longrightarrow> \<not> reachedEnd d \<and> \<not> reachedEnd d'"
  by (auto simp: Read_def Let_def split: if_splits prod.splits stop.splits)

lemma Read_compose:
  "Read (a + b) d =
     (case Read a d of
        (out, Some e, d') \<Rightarrow> (out, Some e, d')
      | (out, None, d') \<Rightarrow> (case Read b d' of (out', e, d'') \<Rightarrow> (out @ out', e, d'')))"
  by (cases "reachedEnd d")
     (auto simp: Read_def Let_def decode_loop_compose [of a b] crc.upd_append
        split: prod.splits stop.splits)

lemma read_sizes_open:
  "\<not> reachedEnd d \<Longrightarrow> read_sizes ns d = Read (sum_list ns) d"
proof (induction ns arbitrary: d)
  case Nil
  then show ?case by (simp add: Read_0)
next
  case (Cons n ns)
  then show ?case
    by (auto simp: Read_compose [of n "sum_list ns"] dest: Read_open split: prod.splits option.splits)
qed

section \<open>The footer\<close>

definition pcrc_value :: "string \<Rightarrow> 32 word option" where
  "pcrc_value part =
     (if is_prefix ''pcrc32='' part then parse_hex32 (trim_prefix ''pcrc32='' part) else None)"

definition crc_value :: "string \<Rightarrow> 32 word option" where
  "crc_value part =
     (if is_prefix ''crc32='' part then parse_hex32 (trim_prefix ''crc32='' part) else None)"

lemma footer_crc_Cons:
  "footer_crc (part # parts) crc =
     (case pcrc_value part of Some v \<Rightarrow> v
      | None \<Rightarrow> footer_crc parts (case crc_value part of Some v \<Rightarrow> v | None \<Rightarrow> crc))"
  by (simp add: pcrc_value_def crc_value_def split: option.split)

declare footer_crc.simps(2) [simp del]

lemma Verify_None: "Verify d = None \<longleftrightarrow> expectedCRC d = 0 \<or> hash d = expectedCRC d"
  by (auto simp: Verify_def)

lemma DiscardHeader_article:
  assumes "preamble_ok pre" and "good_header h"
  shows "DiscardHeader (NewYencDecoder \<lparr>buf = article_bytes pre h body, end_err = fin\<rparr>) =
     (None, (NewYencDecoder \<lparr>buf = body, end_err = fin\<rparr>)\<lparr>header := h\<rparr>)"
  using header_loop_article [OF assms, where r = "\<lparr>buf = [], end_err = fin\<rparr>" and body = body
      and ?h0.0 = empty_header]
  by (simp add: DiscardHeader_def NewYencDecoder_def)

text \<open>The decoder at the start of a body that encodes \<open>ds\<close>, with room for more than \<open>ds\<close>.\<close>

lemma Read_body:
  fixes r :: breader
  assumes "yenc_repr ds es" and "length ds < n" and "CHR 0x0A \<notin> set foot"
  shows "Read n ((NewYencDecoder (r\<lparr>buf := es @ bytes_of (''=yend'' @ foot @ [CHR 0x0A]) @ junk\<rparr>))
       \<lparr>header := h\<rparr>) =
     (ds, Some EOF,
      \<lparr>scanner = r\<lparr>buf := junk\<rparr>, reachedEnd = True, escaped = False, hash = crc_update 0 ds,
       expectedCRC = footer_crc (str_fields (''yend'' @ foot @ [CHR 0x0A])) 0, header = h\<rparr>)"
proof -
  have "decode_loop n False (es @ bytes_of (''=yend'' @ foot @ [CHR 0x0A]) @ junk) =
      (ds, AtEnd, False, bytes_of (''yend'' @ foot @ [CHR 0x0A]) @ junk)"
    using decode_end_marker [of "n - length ds" "bytes_of (foot @ [CHR 0x0A]) @ junk"] assms(2)
    by (simp add: decode_repr [OF assms(1,2)] bytes_of_def)
  moreover have "CHR 0x0A \<notin> set (''yend'' @ foot)" using assms(3) by simp
  ultimately show ?thesis
    using read_line_bytes [of "''yend'' @ foot", where r = r and rest = junk]
    by (simp add: Read_def NewYencDecoder_def parseFooter_def Let_def)
qed

section \<open>Properties\<close>



text \<open>C23: The decoded bytes, the checksum state and the error do not depend on how the caller
  sizes its buffers: reading through any two sequences of buffers of the same total size gives
  the same result.\<close>

theorem read_sizes_irrelevant:
  assumes "\<not> reachedEnd d" and "sum_list ns = sum_list ms"
  shows "read_sizes ns d = read_sizes ms d"
  using assms by (simp add: read_sizes_open)

theorem read_sizes_irrelevant_witness:
  "read_sizes [1, 0, 2] (NewYencDecoder \<lparr>buf = [61, 125, 13, 10, 72], end_err = EOF\<rparr>) =
   read_sizes [3] (NewYencDecoder \<lparr>buf = [61, 125, 13, 10, 72], end_err = EOF\<rparr>)"
  by (rule read_sizes_irrelevant) (simp_all add: NewYencDecoder_def)

text \<open>The checksum the footer announces: the first readable \<open>pcrc32\<close> field wins, whatever
  stands before it; without one the last readable \<open>crc32\<close> field counts; without any the
  expected checksum is unchanged.\<close>

theorem footer_crc_priority:
  "footer_crc parts crc =
     (case List.map_filter pcrc_value parts of
        v # _ \<Rightarrow> v
      | [] \<Rightarrow> last (crc # List.map_filter crc_value parts))"
proof (induction parts arbitrary: crc)
  case Nil
  then show ?case by (simp add: List.map_filter_simps)
next
  case (Cons p ps)
  then show ?case
    by (auto simp: footer_crc_Cons List.map_filter_simps split: option.split list.split)
qed

text \<open>When the buffer is no larger than the data (the NZB understates the segment's size),
  \<open>ReadFull\<close> stops before the end marker: it succeeds with truncated data, no checksum has been
  read, and \<open>Verify\<close> accepts, whatever the footer says.\<close>

theorem undersized_buffer_unchecked:
  assumes "yenc_repr ds es" and "n \<le> length ds"
    and "(out, e, d') = ReadFull n (NewYencDecoder \<lparr>buf = es @ rest, end_err = fin\<rparr>)"
  shows "out = take n ds \<and> e = None \<and> Verify d' = None"
proof -
  obtain r where r: "decode_loop n False (es @ rest) = (take n ds, Full, False, r)"
    using decode_repr_full [OF assms(1,2)] by blast
  show ?thesis
  proof (cases "n = 0")
    case True
    with assms(3) show ?thesis
      by (simp add: ReadFull_def read_all.simps Verify_def NewYencDecoder_def)
  next
    case False
    with r assms(2,3) show ?thesis
      by (auto simp: ReadFull_def read_all_Read Read_def NewYencDecoder_def Verify_def Let_def)
  qed
qed

theorem undersized_buffer_unchecked_witness:
  "\<exists>d'. ReadFull 2 (NewYencDecoder \<lparr>buf = yenc_encode 128 128 [1, 2, 3] @
      bytes_of ''=yend size=3 pcrc32=DEADBEEF'', end_err = EOF\<rparr>) = ([1, 2], None, d') \<and>
     Verify d' = None"
proof -
  obtain out e d' where r: "(out, e, d') = ReadFull 2 (NewYencDecoder
      \<lparr>buf = yenc_encode 128 128 [1, 2, 3] @ bytes_of ''=yend size=3 pcrc32=DEADBEEF'',
       end_err = EOF\<rparr>)" by (metis prod_cases3)
  have "2 \<le> length [1, 2, 3 :: byte]" by simp
  then have "out = [1, 2] \<and> e = None \<and> Verify d' = None"
    using undersized_buffer_unchecked [OF repr_encode _ r] by simp
  with r show ?thesis by metis
qed

text \<open>Header lines survive the wire: printing a header and reading it back with
  \<open>ReadYencHeader\<close> gives the header, for any preamble and any body.\<close>

theorem header_roundtrip:
  assumes "preamble_ok pre" and "good_header h"
  shows "ReadYencHeader \<lparr>buf = article_bytes pre h body, end_err = fin\<rparr> = (h, None)"
  using header_loop_article [OF assms, where r = "\<lparr>buf = [], end_err = fin\<rparr>" and body = body
      and ?h0.0 = empty_header]
  by (simp add: ReadYencHeader_def)

theorem header_roundtrip_witness:
  "ReadYencHeader \<lparr>buf = article_bytes [''222 body'']
      \<lparr>PartNumber = 3, TotalParts = 9, PartOffset = 1024, PartEnd = 1536, FileSize = 4608,
       FileName = ''a.bin''\<rparr> [61, 121], end_err = EOF\<rparr> =
   (\<lparr>PartNumber = 3, TotalParts = 9, PartOffset = 1024, PartEnd = 1536, FileSize = 4608,
     FileName = ''a.bin''\<rparr>, None)"
  by (rule header_roundtrip) (simp_all add: preamble_ok_def good_header_def in64_def plain_def)

text \<open>A file name with a blank is cut at the blank, and what follows it can overwrite other
  header fields: the format's \<open>name=\<close> value runs to the end of the line, the parser splits the
  line into words first.\<close>

theorem header_name_cut_at_blank:
  "parseYbeginLine (''=ybegin line=128 size=10 name=my part=7.rar size=99'' @ [CHR 0x0D, CHR 0x0A])
     empty_header = empty_header\<lparr>FileSize := 99, FileName := ''my''\<rparr>"
  by code_simp

end
