(* ===== verification/Categories.thy ===== *)
theory Categories
  imports Go_Prelude
begin

text \<open>
  The Newznab categories, \<open>categories/newsnab/newsnab.go\<close>: the two-level tree of categories with
  its lookups by id, name and slug, and the choice of a category for a release from its
  attributes. The regular expressions for episodes are matchers on the bytes of the text; all
  texts are compared after \<open>strings.ToLower\<close> with ASCII text.
\<close>

section \<open>The tree\<close>

abbreviation ConsoleRoot :: int where "ConsoleRoot \<equiv> 1000"
abbreviation MoviesRoot :: int where "MoviesRoot \<equiv> 2000"
abbreviation AudioRoot :: int where "AudioRoot \<equiv> 3000"
abbreviation PCRoot :: int where "PCRoot \<equiv> 4000"
abbreviation TVRoot :: int where "TVRoot \<equiv> 5000"
abbreviation XXXRoot :: int where "XXXRoot \<equiv> 6000"
abbreviation BooksRoot :: int where "BooksRoot \<equiv> 7000"
abbreviation OtherRoot :: int where "OtherRoot \<equiv> 8000"
abbreviation ConsoleNDS :: int where "ConsoleNDS \<equiv> 1010"
abbreviation ConsolePSP :: int where "ConsolePSP \<equiv> 1020"
abbreviation ConsoleWii :: int where "ConsoleWii \<equiv> 1030"
abbreviation ConsoleSwitch :: int where "ConsoleSwitch \<equiv> 1035"
abbreviation ConsoleXbox :: int where "ConsoleXbox \<equiv> 1040"
abbreviation ConsoleXbox360 :: int where "ConsoleXbox360 \<equiv> 1050"
abbreviation ConsolePS3 :: int where "ConsolePS3 \<equiv> 1080"
abbreviation ConsoleXboxOne :: int where "ConsoleXboxOne \<equiv> 1090"
abbreviation ConsolePS4 :: int where "ConsolePS4 \<equiv> 1100"
abbreviation MoviesForeign :: int where "MoviesForeign \<equiv> 2010"
abbreviation MoviesOther :: int where "MoviesOther \<equiv> 2020"
abbreviation MoviesSD :: int where "MoviesSD \<equiv> 2030"
abbreviation MoviesHD :: int where "MoviesHD \<equiv> 2040"
abbreviation MoviesUHD :: int where "MoviesUHD \<equiv> 2045"
abbreviation MoviesBluRay :: int where "MoviesBluRay \<equiv> 2050"
abbreviation MoviesThreeD :: int where "MoviesThreeD \<equiv> 2060"
abbreviation AudioMP3 :: int where "AudioMP3 \<equiv> 3010"
abbreviation AudioVideo :: int where "AudioVideo \<equiv> 3020"
abbreviation AudioAudiobook :: int where "AudioAudiobook \<equiv> 3030"
abbreviation AudioLossless :: int where "AudioLossless \<equiv> 3040"
abbreviation AudioPodcast :: int where "AudioPodcast \<equiv> 3050"
abbreviation PC0Day :: int where "PC0Day \<equiv> 4010"
abbreviation PCISO :: int where "PCISO \<equiv> 4020"
abbreviation PCMac :: int where "PCMac \<equiv> 4030"
abbreviation PCMobileOther :: int where "PCMobileOther \<equiv> 4040"
abbreviation PCGames :: int where "PCGames \<equiv> 4050"
abbreviation PCMobileIOS :: int where "PCMobileIOS \<equiv> 4060"
abbreviation PCMobileAndroid :: int where "PCMobileAndroid \<equiv> 4070"
abbreviation PC3DModels :: int where "PC3DModels \<equiv> 4080"
abbreviation TVForeign :: int where "TVForeign \<equiv> 5020"
abbreviation TVSD :: int where "TVSD \<equiv> 5030"
abbreviation TVHD :: int where "TVHD \<equiv> 5040"
abbreviation TVUHD :: int where "TVUHD \<equiv> 5045"
abbreviation TVOther :: int where "TVOther \<equiv> 5050"
abbreviation TVSport :: int where "TVSport \<equiv> 5060"
abbreviation TVAnime :: int where "TVAnime \<equiv> 5070"
abbreviation TVDocumentary :: int where "TVDocumentary \<equiv> 5080"
abbreviation XXXDVD :: int where "XXXDVD \<equiv> 6010"
abbreviation XXXWMV :: int where "XXXWMV \<equiv> 6020"
abbreviation XXXSD :: int where "XXXSD \<equiv> 6030"
abbreviation XXXHD :: int where "XXXHD \<equiv> 6040"
abbreviation XXXUHD :: int where "XXXUHD \<equiv> 6045"
abbreviation XXXPack :: int where "XXXPack \<equiv> 6050"
abbreviation XXXImgSet :: int where "XXXImgSet \<equiv> 6060"
abbreviation XXXOther :: int where "XXXOther \<equiv> 6070"
abbreviation BooksMags :: int where "BooksMags \<equiv> 7010"
abbreviation BooksEbook :: int where "BooksEbook \<equiv> 7020"
abbreviation BooksComics :: int where "BooksComics \<equiv> 7030"
abbreviation OtherMisc :: int where "OtherMisc \<equiv> 8010"

record category =
  cat_id :: int
  cat_parent :: int
  cat_name :: string
  cat_slug :: string
  cat_description :: string

definition category_of :: "int \<Rightarrow> int \<Rightarrow> string \<Rightarrow> string \<Rightarrow> string \<Rightarrow> category" where
  "category_of i parent name slug descr =
     \<lparr>cat_id = i, cat_parent = parent, cat_name = name, cat_slug = slug, cat_description = descr\<rparr>"

definition roots :: "(category \<times> category list) list" where
  "roots =
     [(category_of ConsoleRoot 0 ''Console'' ''console'' [],
       [category_of ConsoleNDS ConsoleRoot ''NDS'' ''nds'' [],
        category_of ConsolePSP ConsoleRoot ''PSP'' ''psp'' [],
        category_of ConsoleWii ConsoleRoot ''Wii'' ''wii'' [],
        category_of ConsoleSwitch ConsoleRoot ''Switch'' ''switch'' [],
        category_of ConsoleXbox ConsoleRoot ''Xbox'' ''xbox'' [],
        category_of ConsoleXbox360 ConsoleRoot ''Xbox 360'' ''xbox-360'' [],
        category_of ConsolePS3 ConsoleRoot ''PS3'' ''ps3'' [],
        category_of ConsoleXboxOne ConsoleRoot ''Xbox One'' ''xbox-one'' [],
        category_of ConsolePS4 ConsoleRoot ''PS4'' ''ps4'' []]),
      (category_of MoviesRoot 0 ''Movies'' ''movies'' [],
       [category_of MoviesForeign MoviesRoot ''Foreign'' ''foreign'' [],
        category_of MoviesOther MoviesRoot ''Other'' ''other'' [],
        category_of MoviesSD MoviesRoot ''SD'' ''sd'' [],
        category_of MoviesHD MoviesRoot ''HD'' ''hd'' [],
        category_of MoviesUHD MoviesRoot ''UHD'' ''uhd'' [],
        category_of MoviesBluRay MoviesRoot ''BluRay'' ''bluray'' [],
        category_of MoviesThreeD MoviesRoot ''3D'' ''3d'' []]),
      (category_of AudioRoot 0 ''Audio'' ''audio'' [],
       [category_of AudioMP3 AudioRoot ''MP3'' ''mp3'' [],
        category_of AudioVideo AudioRoot ''Video'' ''video'' [],
        category_of AudioAudiobook AudioRoot ''Audiobook'' ''audiobook'' [],
        category_of AudioLossless AudioRoot ''Lossless'' ''lossless'' [],
        category_of AudioPodcast AudioRoot ''Podcast'' ''podcast'' []]),
      (category_of PCRoot 0 ''PC'' ''pc'' [],
       [category_of PC0Day PCRoot ''0day'' ''0day'' [],
        category_of PCISO PCRoot ''ISO'' ''iso'' [],
        category_of PCMac PCRoot ''Mac'' ''mac'' [],
        category_of PCMobileOther PCRoot ''Mobile-Other'' ''mobile-other'' [],
        category_of PCGames PCRoot ''Games'' ''games'' [],
        category_of PCMobileIOS PCRoot ''Mobile-iOS'' ''mobile-ios'' [],
        category_of PCMobileAndroid PCRoot ''Mobile-Android'' ''mobile-android'' [],
        category_of PC3DModels PCRoot ''3dModels'' ''3dmodels'' ''3dprint stls'']),
      (category_of TVRoot 0 ''TV'' ''tv'' [],
       [category_of TVForeign TVRoot ''Foreign'' ''foreign'' [],
        category_of TVSD TVRoot ''SD'' ''sd'' [],
        category_of TVHD TVRoot ''HD'' ''hd'' [],
        category_of TVUHD TVRoot ''UHD'' ''uhd'' [],
        category_of TVOther TVRoot ''Other'' ''other'' [],
        category_of TVSport TVRoot ''Sport'' ''sport'' [],
        category_of TVAnime TVRoot ''Anime'' ''anime'' [],
        category_of TVDocumentary TVRoot ''Documentary'' ''documentary'' []]),
      (category_of XXXRoot 0 ''XXX'' ''xxx'' [],
       [category_of XXXDVD XXXRoot ''DVD'' ''dvd'' [],
        category_of XXXWMV XXXRoot ''WMV'' ''wmv'' [],
        category_of XXXSD XXXRoot ''SD'' ''sd'' [],
        category_of XXXHD XXXRoot ''HD'' ''hd'' [],
        category_of XXXUHD XXXRoot ''UHD'' ''uhd'' [],
        category_of XXXPack XXXRoot ''Pack'' ''pack'' [],
        category_of XXXImgSet XXXRoot ''ImgSet'' ''imgset'' [],
        category_of XXXOther XXXRoot ''Other'' ''other'' []]),
      (category_of BooksRoot 0 ''Books'' ''books'' [],
       [category_of BooksMags BooksRoot ''Mags'' ''mags'' [],
        category_of BooksEbook BooksRoot ''Ebook'' ''ebook'' [],
        category_of BooksComics BooksRoot ''Comics'' ''comics'' []]),
      (category_of OtherRoot 0 ''Other'' ''other'' [],
       [category_of OtherMisc OtherRoot ''Misc'' ''misc'' []])]"

text \<open>The map \<open>init\<close> builds: a later entry of an id replaces an earlier one.\<close>

definition all_categories :: "category list" where
  "all_categories = concat (map (\<lambda>(root, subs). root # subs) roots)"

definition Lookup :: "int \<Rightarrow> category option" where
  "Lookup i = map_of (rev (map (\<lambda>c. (cat_id c, c)) all_categories)) i"

definition subcategoriesByRoot :: "int \<Rightarrow> int list" where
  "subcategoriesByRoot i =
     (case find (\<lambda>(root, subs). cat_id root = i) (rev roots) of
        None \<Rightarrow> [] | Some (root, subs) \<Rightarrow> cat_id root # map cat_id subs)"

definition ParentID :: "int \<Rightarrow> int" where
  "ParentID i =
     (case Lookup i of
        None \<Rightarrow> OtherRoot
      | Some c \<Rightarrow> if cat_parent c = 0 then cat_id c else cat_parent c)"

definition Root :: "int \<Rightarrow> category" where
  "Root i =
     (case Lookup (ParentID i) of
        None \<Rightarrow> category_of OtherRoot 0 ''Other'' ''other'' []
      | Some c \<Rightarrow> c)"

definition DisplayName :: "int \<Rightarrow> string" where
  "DisplayName i =
     (case Lookup i of
        None \<Rightarrow> ''Other > Misc''
      | Some c \<Rightarrow>
          (if cat_parent c = 0 then cat_name c else cat_name (Root i) @ '' > '' @ cat_name c))"

definition ParseID :: "string \<Rightarrow> int \<times> bool" where
  "ParseID raw =
     (case parse_int (trim_space raw) of
        None \<Rightarrow> (0, False)
      | Some i \<Rightarrow> (i, Lookup i \<noteq> None))"

definition replace_char :: "char \<Rightarrow> char \<Rightarrow> string \<Rightarrow> string" where
  "replace_char a b = map (\<lambda>c. if c = a then b else c)"

definition normalizeLookupName :: "string \<Rightarrow> string" where
  "normalizeLookupName raw =
     join_with '' '' (str_fields
       (replace_char (CHR ''-'') (CHR '' '') (replace_char (CHR ''>'') (CHR '' '')
         (to_lower (trim_space raw)))))"

text \<open>The keys under which \<open>ParseName\<close> finds the categories, in the order it tries them.\<close>

definition parse_keys :: "(int \<times> string list) list" where
  "parse_keys =
     concat (map (\<lambda>(root, subs).
       (cat_id root, [normalizeLookupName (cat_name root), cat_slug root]) #
       map (\<lambda>s. (cat_id s, [normalizeLookupName (cat_name root @ '' '' @ cat_name s),
                            normalizeLookupName (cat_name s), cat_slug s])) subs) roots)"

definition ParseName :: "string \<Rightarrow> int \<times> bool" where
  "ParseName raw =
     (if to_lower (trim_space raw) = [] then (0, False)
      else (let name = normalizeLookupName raw
            in case find (\<lambda>(i, keys). name \<in> set keys) parse_keys of
                 None \<Rightarrow> (0, False)
               | Some (i, keys) \<Rightarrow> (i, True)))"

definition IDsForBrowse :: "string \<Rightarrow> string \<Rightarrow> int list" where
  "IDsForBrowse category subcategory =
     (let cslug = to_lower (trim_space category); sslug = to_lower (trim_space subcategory)
      in if cslug = [] then []
         else (case find (\<lambda>(root, subs). cat_slug root = cslug) roots of
                 None \<Rightarrow> []
               | Some (root, subs) \<Rightarrow>
                   (if sslug = [] \<or> sslug = ''all'' then subcategoriesByRoot (cat_id root)
                    else (case find (\<lambda>s. cat_slug s = sslug) subs of
                            None \<Rightarrow> [] | Some s \<Rightarrow> [cat_id s]))))"

definition CategoryIDs :: "int list" where
  "CategoryIDs = sort (remdups (map cat_id all_categories))"

section \<open>Evidence in the texts\<close>

record release_attributes =
  ra_classification :: string
  ra_media_type :: string
  ra_tmdb :: int
  ra_tvdb :: int
  ra_season :: int
  ra_episode :: int
  ra_resolution :: string
  ra_audio_codec :: string
  ra_title :: string
  ra_source_title :: string
  ra_deobfuscated :: string
  ra_matched_title :: string
  ra_predb_category :: string
  ra_predb_genre :: string
  ra_poster :: string

definition replacer :: "string \<Rightarrow> string" where
  "replacer = map (\<lambda>c. if c \<in> set ''._-/()[]'' \<or> c = CHR 0x5C then CHR '' '' else c)"

definition normalizeCombined :: "string list \<Rightarrow> string" where
  "normalizeCombined parts =
     '' '' @ join_with '' '' (map replacer
       (filter (\<lambda>p. p \<noteq> []) (map (\<lambda>p. to_lower (trim_space p)) parts))) @ '' ''"

definition hasAny :: "string \<Rightarrow> string list \<Rightarrow> bool" where
  "hasAny haystack needles = list_ex (\<lambda>n. contains_str ('' '' @ n @ '' '') haystack) needles"

definition normalizedResolutionID :: "string \<Rightarrow> int" where
  "normalizedResolutionID raw =
     (let r = to_lower (trim_space raw)
      in if r \<in> set [''2160p'', ''4k'', ''uhd''] then 2
         else if r \<in> set [''720p'', ''1080p''] then 1 else 0)"

text \<open>The matchers of the three expressions at one position; \<open>prev\<close> is the byte before it. \<open>\b\<close>
  is an ASCII word boundary. A run of digits ends where the digits end, because what follows a
  run in the expressions is never a digit. \<open>(?i)S\<close> also matches U+017F.\<close>

definition is_word :: "char \<Rightarrow> bool" where
  "is_word c \<longleftrightarrow> is_digit c \<or> 65 \<le> code c \<and> code c \<le> 90 \<or> 97 \<le> code c \<and> code c \<le> 122 \<or> c = CHR ''_''"

definition word_at :: "string \<Rightarrow> bool" where
  "word_at s = (case s of [] \<Rightarrow> False | c # cs \<Rightarrow> is_word c)"

definition boundary :: "char option \<Rightarrow> string \<Rightarrow> bool" where
  "boundary prev s \<longleftrightarrow> (case prev of None \<Rightarrow> False | Some c \<Rightarrow> is_word c) \<noteq> word_at s"

definition digits_then :: "nat \<Rightarrow> string \<Rightarrow> (string \<Rightarrow> bool) \<Rightarrow> bool" where
  "digits_then most s rest =
     (let n = length (takeWhile is_digit s) in 1 \<le> n \<and> n \<le> most \<and> rest (drop n s))"

definition season_episode_at :: "char option \<Rightarrow> string \<Rightarrow> bool" where
  "season_episode_at prev s =
     (boundary prev s \<and>
      (let n = (if is_prefix ''s'' s \<or> is_prefix ''S'' s then 1
                else if is_prefix [CHR 0xC5, CHR 0xBF] s then 2 else 0)
       in 0 < n \<and>
          digits_then 2 (drop n s) (\<lambda>t. (is_prefix ''e'' t \<or> is_prefix ''E'' t) \<and>
            digits_then 3 (drop 1 t) (\<lambda>u. \<not> word_at u))))"

definition x_episode_at :: "char option \<Rightarrow> string \<Rightarrow> bool" where
  "x_episode_at prev s =
     (boundary prev s \<and>
      digits_then 2 s (\<lambda>t. (is_prefix ''x'' t \<or> is_prefix ''X'' t) \<and>
        digits_then 3 (drop 1 t) (\<lambda>u. \<not> word_at u)))"

definition two_digits :: "string \<Rightarrow> bool" where
  "two_digits s = (case s of a # b # t \<Rightarrow> is_digit a \<and> is_digit b | _ \<Rightarrow> False)"

definition date_sep :: "string \<Rightarrow> bool" where
  "date_sep s = (case s of [] \<Rightarrow> False | c # cs \<Rightarrow> c \<in> set '' ._-'')"

definition daily_episode_at :: "char option \<Rightarrow> string \<Rightarrow> bool" where
  "daily_episode_at prev s =
     (boundary prev s \<and> is_prefix ''20'' s \<and> two_digits (drop 2 s) \<and> date_sep (drop 4 s) \<and>
      two_digits (drop 5 s) \<and> date_sep (drop 7 s) \<and> two_digits (drop 8 s) \<and>
      \<not> word_at (drop 10 s))"

fun somewhere :: "(char option \<Rightarrow> string \<Rightarrow> bool) \<Rightarrow> char option \<Rightarrow> string \<Rightarrow> bool" where
  "somewhere f prev [] = f prev []"
| "somewhere f prev (c # cs) = (f prev (c # cs) \<or> somewhere f (Some c) cs)"

definition hasEpisodePattern :: "string \<Rightarrow> bool" where
  "hasEpisodePattern combined =
     (somewhere season_episode_at None combined \<or> somewhere x_episode_at None combined \<or>
      somewhere daily_episode_at None combined)"

definition hasEpisodeEvidence :: "release_attributes \<Rightarrow> string \<Rightarrow> bool" where
  "hasEpisodeEvidence x combined =
     (if ra_season x > 0 \<or> ra_episode x > 0 then True else hasEpisodePattern combined)"

definition hasLikelyMovieYear :: "string \<Rightarrow> bool" where
  "hasLikelyMovieYear combined =
     list_ex (\<lambda>y. contains_str ('' '' @ itoa y @ '' '') combined) [1950..2099]"

section \<open>Choosing a category\<close>

definition looksXXX :: "string \<Rightarrow> bool" where
  "looksXXX combined =
     hasAny combined [''xxx'', ''porn'', ''nsfw'', ''onlyfans'', ''brazzers'', ''playboy'', ''erotica'']"

definition looksConsole :: "string \<Rightarrow> bool" where
  "looksConsole combined =
     hasAny combined [''ps3'', ''ps4'', ''ps5'', ''playstation'', ''xbox'', ''x360'', ''xboxone'',
       ''switch'', ''nintendo'', ''wii'', ''psp'', ''nds'', ''3ds'']"

definition looksTV :: "string \<Rightarrow> string \<Rightarrow> bool" where
  "looksTV classification combined = (classification = ''tv'' \<or> hasEpisodePattern combined)"

definition looksMovie :: "string \<Rightarrow> string \<Rightarrow> bool" where
  "looksMovie classification combined =
     (classification = ''movie'' \<or> hasAny combined [''bluray'', ''bdrip'', ''dvdrip'', ''remux''] \<or>
      hasLikelyMovieYear combined)"

definition looksAudio :: "string \<Rightarrow> string \<Rightarrow> string \<Rightarrow> string \<Rightarrow> bool" where
  "looksAudio classification media combined codec =
     (if classification = ''audio'' \<or> media = ''audio'' then True
      else if classification = ''video'' \<or> classification = ''video_archive'' \<or> media = ''video'' then False
      else codec \<noteq> [] \<or>
        hasAny combined [''flac'', ''mp3'', ''album'', ''discography'', ''podcast'', ''audiobook''])"

definition looksBooks :: "string \<Rightarrow> string \<Rightarrow> bool" where
  "looksBooks classification combined =
     (classification = ''ebook'' \<or>
      hasAny combined [''ebook'', ''epub'', ''mobi'', ''pdf'', ''comic'', ''magazine'', ''manga''])"

definition looksPC :: "string \<Rightarrow> string \<Rightarrow> bool" where
  "looksPC classification combined =
     (classification \<in> set [''software'', ''software_archive'', ''pc''] \<or>
      hasAny combined [''windows'', ''mac'', ''android'', ''ios'', ''ipa'', ''apk'', ''game'', ''steam'',
        ''software'', ''0day'', ''trainer'', ''stl'', ''steinberg'', ''cubase'', ''nuendo'', ''ableton'',
        ''autodesk'', ''adobe'', ''microsoft office''])"

definition predbLooksTV :: "string \<Rightarrow> bool" where
  "predbLooksTV category = is_prefix ''tv'' category"

definition predbLooksMovie :: "string \<Rightarrow> bool" where
  "predbLooksMovie category = (is_prefix ''movies'' category \<or> is_prefix ''movie'' category)"

definition resolveMovieCategory :: "string \<Rightarrow> int \<Rightarrow> int" where
  "resolveMovieCategory combined resolution =
     (let by_resolution =
        (if resolution = 2 then MoviesUHD
         else if resolution = 1 then MoviesHD
         else if hasAny combined [''dvdrip'', ''xvid'', ''480p'', ''576p''] then MoviesSD else MoviesOther)
      in if hasAny combined [''3d''] then MoviesThreeD
         else if hasAny combined [''foreign'', ''french'', ''german'', ''spanish'', ''ita'', ''nlsubs'']
         then MoviesForeign
         else if hasAny combined [''bluray'', ''blu ray'', ''bdrip'', ''bdremux'']
         then (if resolution = 0 then MoviesBluRay else by_resolution)
         else by_resolution)"

definition resolveTVCategory :: "string \<Rightarrow> int \<Rightarrow> int" where
  "resolveTVCategory combined resolution =
     (if hasAny combined [''anime''] then TVAnime
      else if hasAny combined [''documentary'', ''docu''] then TVDocumentary
      else if hasAny combined [''sport'', ''sports'', ''ufc'', ''wwe'', ''formula'', ''motogp'', ''nba'',
                               ''nfl'', ''mlb'', ''nhl''] then TVSport
      else if hasAny combined [''foreign'', ''german'', ''french'', ''spanish'', ''nlsubs''] then TVForeign
      else if resolution = 2 then TVUHD
      else if resolution = 1 then TVHD
      else if hasAny combined [''480p'', ''576p''] then TVSD else TVOther)"

definition resolveConsoleCategory :: "string \<Rightarrow> int" where
  "resolveConsoleCategory combined =
     (if hasAny combined [''switch'', ''nintendo switch''] then ConsoleSwitch
      else if hasAny combined [''ps4'', ''playstation 4''] then ConsolePS4
      else if hasAny combined [''ps3'', ''playstation 3''] then ConsolePS3
      else if hasAny combined [''xbox one'', ''xbone''] then ConsoleXboxOne
      else if hasAny combined [''xbox 360'', ''x360''] then ConsoleXbox360
      else if hasAny combined [''xbox''] then ConsoleXbox
      else if hasAny combined [''wii''] then ConsoleWii
      else if hasAny combined [''psp''] then ConsolePSP
      else if hasAny combined [''nds'', ''3ds''] then ConsoleNDS
      else ConsoleRoot)"

definition resolveAudioCategory :: "string \<Rightarrow> string \<Rightarrow> int" where
  "resolveAudioCategory combined codec =
     (if hasAny combined [''audiobook''] then AudioAudiobook
      else if hasAny combined [''podcast''] then AudioPodcast
      else if contains_str ''flac'' codec \<or> hasAny combined [''flac'', ''lossless''] then AudioLossless
      else if contains_str ''mp3'' codec \<or> hasAny combined [''mp3''] then AudioMP3
      else if hasAny combined [''music video'', ''concert''] then AudioVideo
      else AudioRoot)"

definition resolveBooksCategory :: "string \<Rightarrow> int" where
  "resolveBooksCategory combined =
     (if hasAny combined [''comic'', ''comics'', ''manga''] then BooksComics
      else if hasAny combined [''magazine'', ''mags''] then BooksMags
      else BooksEbook)"

definition resolvePCCategory :: "string \<Rightarrow> string \<Rightarrow> int" where
  "resolvePCCategory classification combined =
     (if hasAny combined [''android'', ''apk''] then PCMobileAndroid
      else if hasAny combined [''ios'', ''iphone'', ''ipad'', ''ipa''] then PCMobileIOS
      else if hasAny combined [''mobile''] then PCMobileOther
      else if hasAny combined [''mac'', ''osx'', ''macos''] then PCMac
      else if hasAny combined [''game'', ''steam'', ''gog'', ''repack''] then PCGames
      else if hasAny combined [''iso''] then PCISO
      else if hasAny combined [''stl'', ''3d print'', ''3dprint''] then PC3DModels
      else if classification = ''software'' \<or> classification = ''software_archive'' then PC0Day
      else if hasAny combined [''0day''] then PC0Day
      else if hasAny combined [''steinberg'', ''cubase'', ''nuendo'', ''ableton'', ''autodesk'', ''adobe'',
                               ''microsoft office'', ''software''] then PC0Day
      else PCRoot)"

definition resolveXXXCategory :: "string \<Rightarrow> int \<Rightarrow> int" where
  "resolveXXXCategory combined resolution =
     (if hasAny combined [''imgset'', ''photoset''] then XXXImgSet
      else if hasAny combined [''pack''] then XXXPack
      else if hasAny combined [''wmv''] then XXXWMV
      else if hasAny combined [''dvd''] then XXXDVD
      else if resolution = 2 then XXXUHD
      else if resolution = 1 then XXXHD
      else if hasAny combined [''480p'', ''576p''] then XXXSD else XXXOther)"

record resolution =
  res_id :: int
  res_name :: string
  res_root :: int
  res_root_name :: string
  res_root_slug :: string
  res_sub :: int
  res_sub_name :: string
  res_sub_slug :: string

definition buildResolution :: "int \<Rightarrow> resolution" where
  "buildResolution i =
     (let c = (case Lookup i of
                 None \<Rightarrow> category_of OtherMisc OtherRoot ''Misc'' ''misc'' [] | Some c \<Rightarrow> c);
          root = Root i; sub = cat_parent c \<noteq> 0
      in \<lparr>res_id = i, res_name = DisplayName i, res_root = cat_id root, res_root_name = cat_name root,
          res_root_slug = cat_slug root,
          res_sub = (if sub then cat_id c else 0), res_sub_name = (if sub then cat_name c else []),
          res_sub_slug = (if sub then cat_slug c else [])\<rparr>)"

text \<open>The id \<open>ResolveReleaseCategory\<close> builds its result from.\<close>

definition combined_text :: "release_attributes \<Rightarrow> string" where
  "combined_text x =
     normalizeCombined [ra_title x, ra_source_title x, ra_deobfuscated x, ra_matched_title x,
       ra_predb_category x, ra_predb_genre x, ra_poster x]"

definition choose_category :: "release_attributes \<Rightarrow> int" where
  "choose_category x =
     (let combined = combined_text x;
          classification = to_lower (trim_space (ra_classification x));
          media = to_lower (trim_space (ra_media_type x));
          codec = to_lower (trim_space (ra_audio_codec x));
          predb = to_lower (trim_space (ra_predb_category x));
          episodic = hasEpisodeEvidence x combined;
          tv = (ra_tvdb x > 0 \<or> media = ''tv'' \<or> ra_season x > 0 \<or> ra_episode x > 0 \<or> episodic);
          movie = (ra_tmdb x > 0 \<or> media = ''movie'');
          res = normalizedResolutionID (ra_resolution x)
      in if classification = ''xxx'' \<or> looksXXX combined then resolveXXXCategory combined res
         else if looksConsole combined then resolveConsoleCategory combined
         else if tv then resolveTVCategory combined res
         else if movie then resolveMovieCategory combined res
         else if predbLooksTV predb then resolveTVCategory combined res
         else if predbLooksMovie predb then resolveMovieCategory combined res
         else if looksTV classification combined then resolveTVCategory combined res
         else if looksMovie classification combined then resolveMovieCategory combined res
         else if looksAudio classification media combined codec then resolveAudioCategory combined codec
         else if looksBooks classification combined then resolveBooksCategory combined
         else if looksPC classification combined then resolvePCCategory classification combined
         else OtherMisc)"

definition ResolveReleaseCategory :: "release_attributes \<Rightarrow> resolution" where
  "ResolveReleaseCategory x = buildResolution (choose_category x)"

section \<open>The tree is a tree\<close>

lemma categories_distinct: "distinct (map cat_id all_categories)"
  by code_simp

text \<open>The ids of a root are multiples of a thousand, the subcategories lie above their root.\<close>

lemma categories_data:
  "list_all (\<lambda>c. 0 < cat_id c \<and>
      (if cat_parent c = 0 then cat_id c mod 1000 = 0
       else cat_id c mod 1000 \<noteq> 0 \<and> cat_parent c = 1000 * (cat_id c div 1000) \<and>
         list_ex (\<lambda>(root, subs). cat_id root = cat_parent c) roots)) all_categories"
  by code_simp

lemma roots_data: "list_all (\<lambda>(root, subs). cat_parent root = 0) roots"
  by code_simp

lemma lookup_member: "c \<in> set all_categories \<Longrightarrow> Lookup (cat_id c) = Some c"
  using categories_distinct
  by (auto simp: Lookup_def o_def rev_map [symmetric] intro!: map_of_is_SomeI)

lemma member_lookup: "Lookup i = Some c \<Longrightarrow> c \<in> set all_categories \<and> cat_id c = i"
  by (auto simp: Lookup_def dest!: map_of_SomeD)

lemma root_member: "(root, subs) \<in> set roots \<Longrightarrow> root \<in> set all_categories"
  by (force simp: all_categories_def)

lemma parent_of:
  assumes "Lookup i = Some c"
  shows "ParentID i = 1000 * (i div 1000)"
    and "\<exists>r. Lookup (ParentID i) = Some r \<and> cat_parent r = 0"
    and "(cat_parent c = 0) = (ParentID i = i)"
proof -
  have c: "c \<in> set all_categories" "cat_id c = i" using member_lookup [OF assms] by simp_all
  then have d: "0 < i" "if cat_parent c = 0 then i mod 1000 = 0
      else i mod 1000 \<noteq> 0 \<and> cat_parent c = 1000 * (i div 1000) \<and>
        list_ex (\<lambda>(root, subs). cat_id root = cat_parent c) roots"
    using categories_data unfolding list_all_iff by blast+
  have "ParentID i = 1000 * (i div 1000) \<and> (cat_parent c = 0) = (ParentID i = i)"
  proof (cases "cat_parent c = 0")
    case True
    with d have "1000 * (i div 1000) = i" by (simp add: dvd_eq_mod_eq_0 [symmetric])
    with True c assms show ?thesis by (simp add: ParentID_def)
  next
    case False
    note p' = d(2) [unfolded if_not_P [OF False]]
    have p: "cat_parent c = 1000 * (i div 1000)" by (rule conjunct1 [OF conjunct2 [OF p']])
    have "i mod 1000 \<noteq> 0" by (rule conjunct1 [OF p'])
    moreover have "1000 * (i div 1000) = i - i mod 1000" by (rule minus_mod_eq_mult_div [symmetric])
    ultimately have "1000 * (i div 1000) \<noteq> i" by linarith
    moreover have "ParentID i = cat_parent c" using False assms by (simp add: ParentID_def)
    ultimately show ?thesis using False p by metis
  qed
  then show "ParentID i = 1000 * (i div 1000)" "(cat_parent c = 0) = (ParentID i = i)" by simp_all
  show "\<exists>r. Lookup (ParentID i) = Some r \<and> cat_parent r = 0"
  proof (cases "cat_parent c = 0")
    case True
    with assms c show ?thesis by (simp add: ParentID_def)
  next
    case False
    with d obtain root subs where r: "(root, subs) \<in> set roots" "cat_id root = cat_parent c"
      by (auto simp: list_ex_iff)
    then have "Lookup (cat_parent c) = Some root" using lookup_member [OF root_member] by metis
    moreover have "cat_parent root = 0" using roots_data r by (auto simp: list_all_iff)
    ultimately show ?thesis using assms False by (simp add: ParentID_def)
  qed
qed

section \<open>Names that are found again\<close>

text \<open>Normalising a name of printable ASCII characters that neither begins nor ends with a blank,
  without looking for the encodings of white space.\<close>

definition tidy :: "string \<Rightarrow> bool" where
  "tidy s \<longleftrightarrow> s \<noteq> [] \<and> plain (hd s) \<and> plain (last s) \<and> list_all (\<lambda>c. plain c \<or> c = CHR '' '') s"

fun word_list :: "string \<Rightarrow> string \<Rightarrow> string list" where
  "word_list [] acc = (if acc = [] then [] else [rev acc])"
| "word_list (c # cs) acc =
     (if c = CHR '' '' then (if acc = [] then word_list cs [] else rev acc # word_list cs [])
      else word_list cs (c # acc))"

definition low_char :: "char \<Rightarrow> char" where
  "low_char c = (if 65 \<le> code c \<and> code c \<le> 90 then char_of (code c + 32) else c)"

definition fold_char :: "char \<Rightarrow> char" where
  "fold_char c = (if c = CHR ''-'' \<or> c = CHR ''>'' then CHR '' '' else low_char c)"

definition quick_name :: "string \<Rightarrow> string" where
  "quick_name s = join_with '' '' (word_list (map fold_char s) [])"

lemma trim_space_tidy: "tidy s \<Longrightarrow> trim_space s = s"
proof -
  assume t: "tidy s"
  have l: "trim_left s = s" using t by (cases s) (simp_all add: tidy_def space_len_plain)
  have "trim_left_rev (rev s) = rev s"
    using t by (cases "rev s") (simp_all add: tidy_def space_len_rev_plain last_rev [symmetric] hd_rev)
  with l show ?thesis by (simp add: trim_space_def)
qed

lemma lower_char_plain: "65 \<le> code c \<Longrightarrow> code c \<le> 90 \<Longrightarrow> plain (char_of (code c + 32))"
  by (simp add: plain_def code_char_of)

lemma not_plain_lead: "\<not> plain (CHR 0xC4)" "\<not> plain (CHR 0xE2)"
  by (simp_all add: plain_def)

lemma to_lower_ascii:
  "list_all (\<lambda>c. plain c \<or> c = CHR '' '') s \<Longrightarrow> to_lower s = map low_char s"
proof (induction s)
  case (Cons c s)
  then have "c \<noteq> CHR 0xC4" "c \<noteq> CHR 0xE2" using not_plain_lead by auto
  with Cons show ?case by (simp add: low_char_def)
qed simp

lemma low_char_marks: "low_char c \<in> {CHR ''-'', CHR ''>''} \<longleftrightarrow> c \<in> {CHR ''-'', CHR ''>''}"
  by (auto simp: low_char_def dest: arg_cong [of _ _ code])

lemma fold_char_replaces:
  "replace_char (CHR ''-'') (CHR '' '') (replace_char (CHR ''>'') (CHR '' '') (map low_char s)) = map fold_char s"
  using low_char_marks by (auto simp: replace_char_def fold_char_def)

lemma fields_ascii:
  "list_all (\<lambda>c. plain c \<or> c = CHR '' '') s \<Longrightarrow> str_fields_aux s acc = word_list s acc"
  by (induction s arbitrary: acc) (auto simp: space_len_plain space_len_blank)

lemma quick_name:
  assumes "tidy s" shows "normalizeLookupName s = quick_name s"
proof -
  have a: "list_all (\<lambda>c. plain c \<or> c = CHR '' '') s" using assms by (simp add: tidy_def)
  have "list_all (\<lambda>c. plain c \<or> c = CHR '' '') (map fold_char s)"
    using a by (auto simp: list_all_iff fold_char_def low_char_def lower_char_plain)
  from fields_ascii [OF this, of "[]"] show ?thesis
    by (simp add: normalizeLookupName_def trim_space_tidy [OF assms] to_lower_ascii [OF a]
        fold_char_replaces str_fields_def quick_name_def)
qed

lemma names_tidy:
  "list_all (\<lambda>(root, subs). tidy (cat_name root) \<and> list_all (\<lambda>s. tidy (cat_name s)) subs) roots"
  by code_simp

lemma tidy_word_list: "tidy s \<Longrightarrow> tidy t \<Longrightarrow> tidy (s @ CHR '' '' # t)"
  by (simp add: tidy_def)

text \<open>The keys, with the quick names.\<close>

definition quick_keys :: "(int \<times> string list) list" where
  "quick_keys =
     concat (map (\<lambda>(root, subs).
       (cat_id root, [quick_name (cat_name root), cat_slug root]) #
       map (\<lambda>s. (cat_id s, [quick_name (cat_name root @ '' '' @ cat_name s),
                            quick_name (cat_name s), cat_slug s])) subs) roots)"

lemma parse_keys_quick: "parse_keys = quick_keys"
  unfolding parse_keys_def quick_keys_def
  by (intro arg_cong [of _ _ concat] map_cong refl)
    (use names_tidy in \<open>auto simp: list_all_iff quick_name tidy_word_list\<close>)

lemma quick_keys_table:
  "quick_keys =
     [(1000, [''console'', ''console'']), (1010, [''console nds'', ''nds'', ''nds'']),
      (1020, [''console psp'', ''psp'', ''psp'']), (1030, [''console wii'', ''wii'', ''wii'']),
      (1035, [''console switch'', ''switch'', ''switch'']),
      (1040, [''console xbox'', ''xbox'', ''xbox'']),
      (1050, [''console xbox 360'', ''xbox 360'', ''xbox-360'']),
      (1080, [''console ps3'', ''ps3'', ''ps3'']),
      (1090, [''console xbox one'', ''xbox one'', ''xbox-one'']),
      (1100, [''console ps4'', ''ps4'', ''ps4'']), (2000, [''movies'', ''movies'']),
      (2010, [''movies foreign'', ''foreign'', ''foreign'']),
      (2020, [''movies other'', ''other'', ''other'']),
      (2030, [''movies sd'', ''sd'', ''sd'']), (2040, [''movies hd'', ''hd'', ''hd'']),
      (2045, [''movies uhd'', ''uhd'', ''uhd'']),
      (2050, [''movies bluray'', ''bluray'', ''bluray'']),
      (2060, [''movies 3d'', ''3d'', ''3d'']), (3000, [''audio'', ''audio'']),
      (3010, [''audio mp3'', ''mp3'', ''mp3'']),
      (3020, [''audio video'', ''video'', ''video'']),
      (3030, [''audio audiobook'', ''audiobook'', ''audiobook'']),
      (3040, [''audio lossless'', ''lossless'', ''lossless'']),
      (3050, [''audio podcast'', ''podcast'', ''podcast'']), (4000, [''pc'', ''pc'']),
      (4010, [''pc 0day'', ''0day'', ''0day'']), (4020, [''pc iso'', ''iso'', ''iso'']),
      (4030, [''pc mac'', ''mac'', ''mac'']),
      (4040, [''pc mobile other'', ''mobile other'', ''mobile-other'']),
      (4050, [''pc games'', ''games'', ''games'']),
      (4060, [''pc mobile ios'', ''mobile ios'', ''mobile-ios'']),
      (4070, [''pc mobile android'', ''mobile android'', ''mobile-android'']),
      (4080, [''pc 3dmodels'', ''3dmodels'', ''3dmodels'']), (5000, [''tv'', ''tv'']),
      (5020, [''tv foreign'', ''foreign'', ''foreign'']), (5030, [''tv sd'', ''sd'', ''sd'']),
      (5040, [''tv hd'', ''hd'', ''hd'']), (5045, [''tv uhd'', ''uhd'', ''uhd'']),
      (5050, [''tv other'', ''other'', ''other'']),
      (5060, [''tv sport'', ''sport'', ''sport'']),
      (5070, [''tv anime'', ''anime'', ''anime'']),
      (5080, [''tv documentary'', ''documentary'', ''documentary'']),
      (6000, [''xxx'', ''xxx'']), (6010, [''xxx dvd'', ''dvd'', ''dvd'']),
      (6020, [''xxx wmv'', ''wmv'', ''wmv'']), (6030, [''xxx sd'', ''sd'', ''sd'']),
      (6040, [''xxx hd'', ''hd'', ''hd'']), (6045, [''xxx uhd'', ''uhd'', ''uhd'']),
      (6050, [''xxx pack'', ''pack'', ''pack'']),
      (6060, [''xxx imgset'', ''imgset'', ''imgset'']),
      (6070, [''xxx other'', ''other'', ''other'']), (7000, [''books'', ''books'']),
      (7010, [''books mags'', ''mags'', ''mags'']),
      (7020, [''books ebook'', ''ebook'', ''ebook'']),
      (7030, [''books comics'', ''comics'', ''comics'']), (8000, [''other'', ''other'']),
      (8010, [''other misc'', ''misc'', ''misc''])]"
  by code_simp

lemma subs_data:
  "list_all (\<lambda>(root, subs). cat_id root \<noteq> 0 \<and> list_all (\<lambda>s. cat_parent s = cat_id root) subs) roots"
  by code_simp

lemma display_root: "(root, subs) \<in> set roots \<Longrightarrow> DisplayName (cat_id root) = cat_name root"
  using roots_data by (auto simp: DisplayName_def lookup_member [OF root_member] list_all_iff)

lemma display_sub:
  assumes "(root, subs) \<in> set roots" "s \<in> set subs"
  shows "DisplayName (cat_id s) = cat_name root @ '' > '' @ cat_name s"
proof -
  have "s \<in> set all_categories" using assms by (force simp: all_categories_def)
  then have l: "Lookup (cat_id s) = Some s" by (rule lookup_member)
  have p: "cat_parent s = cat_id root" "cat_id root \<noteq> 0" using subs_data assms by (auto simp: list_all_iff)
  then have "Root (cat_id s) = root"
    using lookup_member [OF root_member [OF assms(1)]] l by (simp add: Root_def ParentID_def)
  with l p show ?thesis by (simp add: DisplayName_def)
qed

definition key_of :: "string \<Rightarrow> int option" where
  "key_of name = map_option fst (find (\<lambda>(i, keys). name \<in> set keys) quick_keys)"

lemma parse_tidy:
  assumes "tidy s"
  shows "ParseName s = (case key_of (quick_name s) of None \<Rightarrow> (0, False) | Some i \<Rightarrow> (i, True))"
proof -
  have "to_lower (trim_space s) \<noteq> []"
    using assms to_lower_ascii [of s] by (auto simp: trim_space_tidy tidy_def)
  then show ?thesis
    by (auto simp: ParseName_def quick_name [OF assms] parse_keys_quick key_of_def Let_def split: option.split)
qed

lemma root_keys:
  "list_all (\<lambda>(root, subs). key_of (quick_name (cat_name root)) =
     Some (if cat_id root = OtherRoot then MoviesOther else cat_id root)) roots"
  unfolding key_of_def quick_keys_table by code_simp

lemma sub_keys:
  "list_all (\<lambda>(root, subs). list_all (\<lambda>s.
     key_of (quick_name (cat_name root @ '' > '' @ cat_name s)) = Some (cat_id s)) subs) roots"
  unfolding key_of_def quick_keys_table by code_simp


lemma display_tidy:
  "list_all (\<lambda>(root, subs). tidy (cat_name root) \<and>
     list_all (\<lambda>s. tidy (cat_name root @ '' > '' @ cat_name s)) subs) roots"
  by code_simp

lemma categories_cases:
  assumes "Lookup i = Some c"
  obtains (root) root subs where "(root, subs) \<in> set roots" "cat_id root = i"
  | (sub) root subs s where "(root, subs) \<in> set roots" "s \<in> set subs" "cat_id s = i"
proof -
  from member_lookup [OF assms] obtain root subs where
    "(root, subs) \<in> set roots" "c = root \<or> c \<in> set subs" "cat_id c = i"
    by (auto simp: all_categories_def)
  then show ?thesis using that by metis
qed

lemma subs_are_not_OtherRoot:
  "list_all (\<lambda>(root, subs). list_all (\<lambda>s. cat_id s \<noteq> OtherRoot) subs) roots"
  by code_simp

text \<open>The display name of every category of the tree (\<open>DisplayName\<close>, ''TV > HD'') is read back by
  \<open>ParseName\<close> as the same id, with one exception: the root ''Other'' is found first as the slug of
  the subcategory ''Movies > Other''.\<close>

theorem display_name_roundtrip:
  assumes "Lookup i \<noteq> None"
  shows "ParseName (DisplayName i) = (if i = OtherRoot then MoviesOther else i, True)"
proof -
  from assms obtain c where c: "Lookup i = Some c" by auto
  from c show ?thesis
  proof (cases rule: categories_cases)
    case (root root subs)
    then have t: "tidy (DisplayName i)" and k: "key_of (quick_name (DisplayName i)) =
        Some (if i = OtherRoot then MoviesOther else i)"
      using display_tidy root_keys display_root [OF root(1)] by (auto simp: list_all_iff)
    show ?thesis unfolding parse_tidy [OF t] k by simp
  next
    case (sub root subs s)
    then have t: "tidy (DisplayName i)" and k: "key_of (quick_name (DisplayName i)) = Some i"
      and n: "i \<noteq> OtherRoot"
      using display_tidy sub_keys subs_are_not_OtherRoot display_sub [OF sub(1,2)]
      by (auto simp: list_all_iff)
    show ?thesis unfolding parse_tidy [OF t] k using n by simp
  qed
qed

lemma display_name_roundtrip_witness: "ParseName (DisplayName TVHD) = (TVHD, True)"
proof -
  have "Lookup TVHD \<noteq> None" by code_simp
  from display_name_roundtrip [OF this] show ?thesis by simp
qed

section \<open>The chosen category\<close>

lemma category_ids:
  "map cat_id all_categories =
     [1000, 1010, 1020, 1030, 1035, 1040, 1050, 1080, 1090, 1100, 2000, 2010, 2020, 2030, 2040,
      2045, 2050, 2060, 3000, 3010, 3020, 3030, 3040, 3050, 4000, 4010, 4020, 4030, 4040, 4050,
      4060, 4070, 4080, 5000, 5020, 5030, 5040, 5045, 5050, 5060, 5070, 5080, 6000, 6010, 6020,
      6030, 6040, 6045, 6050, 6060, 6070, 7000, 7010, 7020, 7030, 8000, 8010]"
  by code_simp

lemma known_iff: "Lookup i \<noteq> None \<longleftrightarrow> i \<in> set (map cat_id all_categories)"
  using lookup_member member_lookup by fastforce

lemmas known_ids = known_iff [unfolded category_ids list.set(2) list.set(1)]

lemma xxx_ids: "resolveXXXCategory t n \<in> {XXXImgSet, XXXPack, XXXWMV, XXXDVD, XXXUHD, XXXHD, XXXSD, XXXOther}"
  by (simp add: resolveXXXCategory_def)

lemma console_ids:
  "resolveConsoleCategory t \<in> {ConsoleSwitch, ConsolePS4, ConsolePS3, ConsoleXboxOne, ConsoleXbox360,
     ConsoleXbox, ConsoleWii, ConsolePSP, ConsoleNDS, ConsoleRoot}"
  by (simp add: resolveConsoleCategory_def)

lemma tv_ids:
  "resolveTVCategory t n \<in> {TVAnime, TVDocumentary, TVSport, TVForeign, TVUHD, TVHD, TVSD, TVOther}"
  by (simp add: resolveTVCategory_def)

lemma movie_ids:
  "resolveMovieCategory t n \<in> {MoviesThreeD, MoviesForeign, MoviesBluRay, MoviesUHD, MoviesHD, MoviesSD, MoviesOther}"
  by (simp add: resolveMovieCategory_def)

lemma audio_ids:
  "resolveAudioCategory t k \<in> {AudioAudiobook, AudioPodcast, AudioLossless, AudioMP3, AudioVideo, AudioRoot}"
  by (simp add: resolveAudioCategory_def)

lemma books_ids: "resolveBooksCategory t \<in> {BooksComics, BooksMags, BooksEbook}"
  by (simp add: resolveBooksCategory_def)

lemma pc_ids:
  "resolvePCCategory k t \<in> {PCMobileAndroid, PCMobileIOS, PCMobileOther, PCMac, PCGames, PCISO, PC3DModels, PC0Day, PCRoot}"
  by (simp add: resolvePCCategory_def)

text \<open>The ids a release can get, and the root of each.\<close>

lemma ids_have_roots:
  "i \<in> {ConsoleSwitch, ConsolePS4, ConsolePS3, ConsoleXboxOne, ConsoleXbox360,
     ConsoleXbox, ConsoleWii, ConsolePSP, ConsoleNDS, ConsoleRoot} \<Longrightarrow> Lookup i \<noteq> None \<and> i div 1000 = 1"
  "i \<in> {MoviesThreeD, MoviesForeign, MoviesBluRay, MoviesUHD, MoviesHD, MoviesSD, MoviesOther} \<Longrightarrow>
     Lookup i \<noteq> None \<and> i div 1000 = 2"
  "i \<in> {AudioAudiobook, AudioPodcast, AudioLossless, AudioMP3, AudioVideo, AudioRoot} \<Longrightarrow>
     Lookup i \<noteq> None \<and> i div 1000 = 3"
  "i \<in> {PCMobileAndroid, PCMobileIOS, PCMobileOther, PCMac, PCGames, PCISO, PC3DModels, PC0Day, PCRoot} \<Longrightarrow>
     Lookup i \<noteq> None \<and> i div 1000 = 4"
  "i \<in> {TVAnime, TVDocumentary, TVSport, TVForeign, TVUHD, TVHD, TVSD, TVOther} \<Longrightarrow>
     Lookup i \<noteq> None \<and> i div 1000 = 5"
  "i \<in> {XXXImgSet, XXXPack, XXXWMV, XXXDVD, XXXUHD, XXXHD, XXXSD, XXXOther} \<Longrightarrow>
     Lookup i \<noteq> None \<and> i div 1000 = 6"
  "i \<in> {BooksComics, BooksMags, BooksEbook} \<Longrightarrow> Lookup i \<noteq> None \<and> i div 1000 = 7"
  "i = OtherMisc \<Longrightarrow> Lookup i \<noteq> None \<and> i div 1000 = 8"
  by (auto simp only: known_ids insert_iff empty_iff)

lemmas resolver_roots =
  ids_have_roots(1) [OF console_ids] ids_have_roots(2) [OF movie_ids] ids_have_roots(3) [OF audio_ids]
  ids_have_roots(4) [OF pc_ids] ids_have_roots(5) [OF tv_ids] ids_have_roots(6) [OF xxx_ids]
  ids_have_roots(7) [OF books_ids] ids_have_roots(8) [OF refl]

definition adult :: "release_attributes \<Rightarrow> bool" where
  "adult x \<longleftrightarrow> to_lower (trim_space (ra_classification x)) = ''xxx'' \<or> looksXXX (combined_text x)"

lemma if_lookup: "Lookup i \<noteq> None \<Longrightarrow> Lookup j \<noteq> None \<Longrightarrow> Lookup (if b then i else j) \<noteq> None"
  by simp

lemma if_root: "i div 1000 \<noteq> k \<Longrightarrow> j div 1000 \<noteq> k \<Longrightarrow> (if b then i else j) div 1000 \<noteq> (k :: int)"
  by simp

lemma chosen_is_known: "Lookup (choose_category x) \<noteq> None"
  unfolding choose_category_def Let_def
  by (intro if_lookup; simp only: resolver_roots simp_thms)

lemma chosen_root: "choose_category x div 1000 = 6 \<longleftrightarrow> adult x"
proof (cases "adult x")
  case True
  then show ?thesis
    unfolding choose_category_def Let_def adult_def by (simp only: if_True resolver_roots simp_thms)
next
  case False
  have "choose_category x div 1000 \<noteq> 6"
    unfolding choose_category_def Let_def if_not_P [OF False [unfolded adult_def]]
    by (intro if_root; simp only: resolver_roots)
  with False show ?thesis by simp
qed


lemma find_member: "find P xs = Some x \<Longrightarrow> x \<in> set xs \<and> P x"
  by (induction xs) (auto split: if_splits)

lemma slugs_distinct:
  "distinct (map (cat_slug \<circ> fst) roots) \<and> distinct (map (cat_id \<circ> fst) roots) \<and>
     list_all (\<lambda>(root, subs). distinct (map cat_slug subs)) roots"
  by code_simp

lemma find_distinct:
  "distinct (map f xs) \<Longrightarrow> x \<in> set xs \<Longrightarrow> (\<And>y. P y = (f y = f x)) \<Longrightarrow> find P xs = Some x"
  by (induction xs) (auto split: if_splits simp: image_iff)

lemma subcategories_root:
  assumes "(root, subs) \<in> set roots"
  shows "subcategoriesByRoot (cat_id root) = cat_id root # map cat_id subs"
proof -
  have "distinct (map (cat_id \<circ> fst) (rev roots))"
    using slugs_distinct by (metis rev_map distinct_rev)
  then have "find (\<lambda>(r, s). cat_id r = cat_id root) (rev roots) = Some (root, subs)"
    by (rule find_distinct) (use assms in auto)
  then show ?thesis by (simp add: subcategoriesByRoot_def)
qed

lemma slugs_present: "list_all (\<lambda>(root, subs). cat_slug root \<noteq> []) roots"
  by code_simp

lemma root_of_member:
  assumes "(root, subs) \<in> set roots" "c = root \<or> c \<in> set subs"
  shows "Lookup (cat_id c) = Some c" "ParentID (cat_id c) = cat_id root" "Root (cat_id c) = root"
proof -
  show l: "Lookup (cat_id c) = Some c"
    using assms by (intro lookup_member) (force simp: all_categories_def)
  show p: "ParentID (cat_id c) = cat_id root"
    using assms l roots_data subs_data by (auto simp: ParentID_def list_all_iff)
  show "Root (cat_id c) = root"
    using lookup_member [OF root_member [OF assms(1)]] by (simp add: Root_def p)
qed

lemma browse_known_root:
  assumes "find (\<lambda>(root, subs). cat_slug root = to_lower (trim_space c)) roots = Some (root, subs)"
  shows "IDsForBrowse c s =
    (if to_lower (trim_space s) \<in> {[], ''all''} then cat_id root # map cat_id subs
     else (case find (\<lambda>k. cat_slug k = to_lower (trim_space s)) subs of None \<Rightarrow> [] | Some k \<Rightarrow> [cat_id k]))"
proof -
  have r: "(root, subs) \<in> set roots" "cat_slug root = to_lower (trim_space c)"
    using find_member [OF assms] by simp_all
  then have "to_lower (trim_space c) \<noteq> []" using slugs_present by (auto simp: list_all_iff)
  then show ?thesis
    unfolding IDsForBrowse_def Let_def assms option.case prod.case subcategories_root [OF r(1)] by simp
qed

lemma browse_unknown_root:
  "find (\<lambda>(root, subs). cat_slug root = to_lower (trim_space c)) roots = None \<Longrightarrow> IDsForBrowse c s = []"
  by (simp add: IDsForBrowse_def Let_def)

text \<open>What \<open>IDsForBrowse\<close> returns lies in the tree under the root whose slug was asked for (so an
  unknown category gives no id), and if a subcategory is named, at most its id, which has that slug; without a
  subcategory, or with ''all'', every category of the root is listed, the root first.\<close>

theorem browse_stays_below_root:
  "(\<forall>i \<in> set (IDsForBrowse c s). \<exists>k. Lookup i = Some k \<and> cat_slug (Root i) = to_lower (trim_space c) \<and>
      (to_lower (trim_space s) \<notin> {[], ''all''} \<longrightarrow>
         cat_slug k = to_lower (trim_space s) \<and> IDsForBrowse c s = [i])) \<and>
   (to_lower (trim_space s) \<in> {[], ''all''} \<longrightarrow>
      (\<forall>k. Lookup k \<noteq> None \<and> cat_slug (Root k) = to_lower (trim_space c) \<longrightarrow>
         k \<in> set (IDsForBrowse c s) \<and> hd (IDsForBrowse c s) = ParentID k))"
proof (intro conjI impI ballI allI)
  let ?c = "to_lower (trim_space c)" and ?s = "to_lower (trim_space s)"
  fix i assume i: "i \<in> set (IDsForBrowse c s)"
  then obtain root subs where f: "find (\<lambda>(root, subs). cat_slug root = ?c) roots = Some (root, subs)"
    using browse_unknown_root [of c s] by (cases "find (\<lambda>(root, subs). cat_slug root = ?c) roots") auto
  then have r: "(root, subs) \<in> set roots" "cat_slug root = ?c" using find_member by fastforce+
  show "\<exists>k. Lookup i = Some k \<and> cat_slug (Root i) = ?c \<and>
      (?s \<notin> {[], ''all''} \<longrightarrow> cat_slug k = ?s \<and> IDsForBrowse c s = [i])"
  proof (cases "?s \<in> {[], ''all''}")
    case True
    then have "i \<in> set (cat_id root # map cat_id subs)"
      using i unfolding browse_known_root [OF f] by simp
    then obtain k where k: "k = root \<or> k \<in> set subs" "cat_id k = i" by auto
    with r show ?thesis using root_of_member [OF r(1) k(1)] True by auto
  next
    case False
    then obtain k where k: "find (\<lambda>k. cat_slug k = ?s) subs = Some k" "i = cat_id k" "IDsForBrowse c s = [i]"
      using i unfolding browse_known_root [OF f] by (cases "find (\<lambda>k. cat_slug k = ?s) subs") auto
    then have "k \<in> set subs" "cat_slug k = ?s" using find_member [OF k(1)] by simp_all
    with k r show ?thesis using root_of_member [OF r(1)] by auto
  qed
next
  fix k assume s: "to_lower (trim_space s) \<in> {[], ''all''}"
    and k: "Lookup k \<noteq> None \<and> cat_slug (Root k) = to_lower (trim_space c)"
  then obtain d where d: "Lookup k = Some d" by auto
  then obtain root subs where r: "(root, subs) \<in> set roots" "d = root \<or> d \<in> set subs" "cat_id d = k"
    using member_lookup [OF d] by (auto simp: all_categories_def)
  have m: "Root k = root" "ParentID k = cat_id root" using root_of_member [OF r(1,2)] r(3) by simp_all
  have f: "find (\<lambda>(root, subs). cat_slug root = to_lower (trim_space c)) roots = Some (root, subs)"
    by (rule find_distinct [OF conjunct1 [OF slugs_distinct] r(1)]) (use k m in auto)
  have "IDsForBrowse c s = cat_id root # map cat_id subs"
    using s unfolding browse_known_root [OF f] by simp
  then show "k \<in> set (IDsForBrowse c s)" "hd (IDsForBrowse c s) = ParentID k"
    using r m by auto
qed

lemma browse_stays_below_root_witness:
  "Lookup TVHD \<noteq> None \<and> TVHD \<in> set (IDsForBrowse ''TV'' []) \<and> hd (IDsForBrowse ''TV'' []) = ParentID TVHD"
proof -
  have e: "to_lower (trim_space ''TV'') = ''tv''" "to_lower (trim_space []) = []" by code_simp+
  have k: "Lookup TVHD \<noteq> None" "cat_slug (Root TVHD) = ''tv''" by code_simp+
  from browse_stays_below_root [of "''TV''" "[]", unfolded e] have
    "\<forall>k. Lookup k \<noteq> None \<and> cat_slug (Root k) = ''tv'' \<longrightarrow>
       k \<in> set (IDsForBrowse ''TV'' []) \<and> hd (IDsForBrowse ''TV'' []) = ParentID k"
    by blast
  with k show ?thesis by blast
qed

end
