(* ===== verification/Nntp_Wire.thy ===== *)
theory Nntp_Wire
  imports Go_Prelude
begin

text \<open>
  The bytes of one NNTP connection as \<open>nntp/provider.go\<close> sees them: errors and which of them
  are worth a second attempt, the reply lines and dot-terminated bodies of \<open>net/textproto\<close> (as
  far as the provider uses them), and \<open>pooledReader\<close>, which reads a body with a deadline of one second per read.

  A connection delivers a list of events in the order of their arrival. When the list is used up
  the peer has closed the connection.
\<close>

section \<open>Errors\<close>

text \<open>What the code asks of an error: \<open>errors.Is\<close> with \<open>io.EOF\<close>, \<open>net.ErrClosed\<close> and
  \<open>ErrArticleNotFound\<close>, \<open>errors.As\<close> with \<open>net.Error\<close>, its \<open>Timeout\<close>, and its text.\<close>

record go_error =
  err_eof :: bool
  err_closed :: bool
  err_missing :: bool
  err_net :: bool
  err_timeout :: bool
  err_text :: string

text \<open>An error of \<open>fmt.Errorf\<close> without \<open>%w\<close>: only its text is left of what it reports.\<close>

definition text_error :: "string \<Rightarrow> go_error" where
  "text_error t = \<lparr>err_eof = False, err_closed = False, err_missing = False, err_net = False,
                   err_timeout = False, err_text = t\<rparr>"

text \<open>\<open>fmt.Errorf("...: %w", err)\<close>.\<close>

definition wrapped :: "string \<Rightarrow> go_error \<Rightarrow> go_error" where
  "wrapped t e = e\<lparr>err_text := t @ '': '' @ err_text e\<rparr>"

definition io_eof :: go_error where
  "io_eof = (text_error ''EOF'')\<lparr>err_eof := True\<rparr>"

definition unexpected_eof :: go_error where
  "unexpected_eof = text_error ''unexpected EOF''"

definition read_timeout :: go_error where
  "read_timeout = (text_error ''i/o timeout'')\<lparr>err_net := True, err_timeout := True\<rparr>"

definition use_of_closed :: go_error where
  "use_of_closed = (text_error ''use of closed network connection'')\<lparr>err_closed := True, err_net := True\<rparr>"

definition ErrArticleNotFound :: go_error where
  "ErrArticleNotFound = (text_error ''article not found (430)'')\<lparr>err_missing := True\<rparr>"

definition recoverable_needles :: "string list" where
  "recoverable_needles = [''broken pipe'', ''closed pipe'', ''connection reset'', ''connection refused'',
     ''unexpected eof'', ''timeout'', ''i/o timeout'', ''tls:'']"

definition isRecoverableConnError :: "go_error option \<Rightarrow> bool" where
  "isRecoverableConnError err =
     (case err of
        None \<Rightarrow> False
      | Some e \<Rightarrow>
          (if err_eof e \<or> err_closed e then True
           else if err_net e then True
           else list_ex (\<lambda>needle. contains_str needle (to_lower (err_text e))) recoverable_needles))"

section \<open>Events and lines\<close>

text \<open>\<open>Silence\<close>: nothing arrives for so long that a deadline, if one is set, expires.
  \<open>Cancelled e\<close>: the context of the caller ends with \<open>e\<close>. \<open>Broken e\<close>: reading fails.\<close>

datatype event = Byte char | Silence | Cancelled go_error | Broken go_error

text \<open>\<open>bufio.Reader.ReadLine\<close> as \<open>textproto.Reader.ReadLine\<close> uses it, with no deadline set: a
  line without its end; the end of the stream ends a last line that is not empty. The result
  is the line or the error, and the events left.\<close>

definition chomp_cr :: "string \<Rightarrow> string" where
  "chomp_cr l = (if l \<noteq> [] \<and> hd l = CHR 0x0D then tl l else l)"

fun net_line :: "string \<Rightarrow> event list \<Rightarrow> (go_error + string) \<times> event list" where
  "net_line acc [] = (if acc = [] then (Inl io_eof, []) else (Inr (rev acc), []))"
| "net_line acc (Byte c # es) =
     (if c = CHR 0x0A then (Inr (rev (chomp_cr acc)), es) else net_line (c # acc) es)"
| "net_line acc (Broken e # es) = (if acc = [] then (Inl e, es) else (Inr (rev acc), es))"
| "net_line acc (Silence # es) = net_line acc es"
| "net_line acc (Cancelled e # es) = net_line acc es"

record code_line =
  cl_code :: int
  cl_msg :: string
  cl_err :: "go_error option"

definition pad3 :: "int \<Rightarrow> string" where
  "pad3 n = (let t = itoa n in replicate (3 - length t) (CHR ''0'') @ t)"

definition parse_code_line :: "string \<Rightarrow> int \<Rightarrow> code_line" where
  "parse_code_line l expect =
     (if length l < 4 \<or> (l ! 3 \<noteq> CHR '' '' \<and> l ! 3 \<noteq> CHR ''-'')
      then \<lparr>cl_code = 0, cl_msg = [], cl_err = Some (text_error (''short response: '' @ l))\<rparr>
      else (case parse_int (take 3 l) of
              None \<Rightarrow> \<lparr>cl_code = 0, cl_msg = [], cl_err = Some (text_error (''invalid response code: '' @ l))\<rparr>
            | Some n \<Rightarrow>
                (if n < 100
                 then \<lparr>cl_code = n, cl_msg = [], cl_err = Some (text_error (''invalid response code: '' @ l))\<rparr>
                 else if n \<noteq> expect
                 then \<lparr>cl_code = n, cl_msg = drop 4 l, cl_err = Some (text_error (pad3 n @ '' '' @ drop 4 l))\<rparr>
                 else if l ! 3 = CHR ''-''
                 then \<lparr>cl_code = n, cl_msg = drop 4 l,
                       cl_err = Some (text_error (''unexpected multi-line response: '' @ drop 4 l))\<rparr>
                 else \<lparr>cl_code = n, cl_msg = drop 4 l, cl_err = None\<rparr>)))"

text \<open>\<open>ReadCodeLine\<close> with a code of three digits.\<close>

definition ReadCodeLine :: "int \<Rightarrow> event list \<Rightarrow> code_line \<times> event list" where
  "ReadCodeLine expect es =
     (case net_line [] es of
        (Inl e, es') \<Rightarrow> (\<lparr>cl_code = 0, cl_msg = [], cl_err = Some e\<rparr>, es')
      | (Inr l, es') \<Rightarrow> (parse_code_line l expect, es'))"

section \<open>Dot-terminated bodies\<close>

datatype dot_state = BeginLine | Dot | DotCR | CR | Data | AtEnd

text \<open>One byte through \<open>dotReader\<close>: the new state, the byte it delivers, and whether the byte
  read goes back to the stream.\<close>

fun dot_byte :: "dot_state \<Rightarrow> char \<Rightarrow> dot_state \<times> char option \<times> bool" where
  "dot_byte BeginLine c =
     (if c = CHR ''.'' then (Dot, None, False)
      else if c = CHR 0x0D then (CR, None, False) else (Data, Some c, False))"
| "dot_byte Dot c =
     (if c = CHR 0x0D then (DotCR, None, False)
      else if c = CHR 0x0A then (AtEnd, None, False) else (Data, Some c, False))"
| "dot_byte DotCR c =
     (if c = CHR 0x0A then (AtEnd, None, False) else (Data, Some (CHR 0x0D), True))"
| "dot_byte CR c =
     (if c = CHR 0x0A then (BeginLine, Some c, False) else (Data, Some (CHR 0x0D), True))"
| "dot_byte Data c =
     (if c = CHR 0x0D then (CR, None, False)
      else if c = CHR 0x0A then (BeginLine, Some c, False) else (Data, Some c, False))"
| "dot_byte AtEnd c = (AtEnd, None, True)"

text \<open>\<open>dotReader.Read\<close> into a buffer with room for \<open>n\<close> more bytes, of which \<open>acc\<close> (reversed) are
  read: the bytes, the error, the state and the events left; \<open>dl\<close> says whether a deadline is set. \<open>io.EOF\<close> comes with the
  read that finds the end of the body. An end of a context is noticed by nobody here and is
  remembered in \<open>cx\<close>.\<close>

record dot_result =
  dr_bytes :: string
  dr_err :: "go_error option"
  dr_state :: dot_state
  dr_left :: "event list"
  dr_ctx :: "go_error option"

definition dot_done :: "string \<Rightarrow> go_error option \<Rightarrow> dot_state \<Rightarrow> event list \<Rightarrow> go_error option \<Rightarrow> dot_result" where
  "dot_done acc err st es cx =
     \<lparr>dr_bytes = rev acc, dr_err = err, dr_state = st, dr_left = es, dr_ctx = cx\<rparr>"

definition first_error :: "go_error option \<Rightarrow> go_error \<Rightarrow> go_error option" where
  "first_error cx e = (case cx of None \<Rightarrow> Some e | Some d \<Rightarrow> Some d)"

function dot_read :: "bool \<Rightarrow> nat \<Rightarrow> string \<Rightarrow> dot_state \<Rightarrow> event list \<Rightarrow> go_error option \<Rightarrow> dot_result" where
  "dot_read dl n acc st es cx =
     (if st = AtEnd then dot_done acc (Some io_eof) st es cx
      else if n = 0 then dot_done acc None st es cx
      else (case es of
              [] \<Rightarrow> dot_done acc (Some unexpected_eof) st [] cx
            | Cancelled e # es' \<Rightarrow> dot_read dl n acc st es' (first_error cx e)
            | Silence # es' \<Rightarrow>
                (if dl then dot_done acc (Some read_timeout) st es' cx else dot_read dl n acc st es' cx)
            | Broken e # es' \<Rightarrow>
                dot_done acc (Some (if err_eof e then unexpected_eof else e)) st es' cx
            | Byte c # es' \<Rightarrow>
                (case dot_byte st c of
                   (st', None, _) \<Rightarrow> dot_read dl n acc st' es' cx
                 | (st', Some d, again) \<Rightarrow>
                     dot_read dl (n - 1) (d # acc) st' (if again then es else es') cx)))"
  by pat_completeness auto
termination
  by (relation "measure (\<lambda>(dl, n, acc, st, es, cx). n + length es)") (auto split: if_splits)

declare dot_read.simps [simp del]

text \<open>The rules of \<open>dot_read\<close>, one per case.\<close>

lemma dot_read_at_end: "dot_read dl n acc AtEnd es cx = dot_done acc (Some io_eof) AtEnd es cx"
  by (simp add: dot_read.simps)

lemma dot_read_steps:
  assumes "st \<noteq> AtEnd"
  shows "dot_read dl 0 acc st es cx = dot_done acc None st es cx"
    and "0 < n \<Longrightarrow> dot_read dl n acc st [] cx = dot_done acc (Some unexpected_eof) st [] cx"
    and "0 < n \<Longrightarrow> dot_read dl n acc st (Cancelled e # es) cx = dot_read dl n acc st es (first_error cx e)"
    and "0 < n \<Longrightarrow> dot_read dl n acc st (Silence # es) cx =
           (if dl then dot_done acc (Some read_timeout) st es cx else dot_read dl n acc st es cx)"
    and "0 < n \<Longrightarrow> dot_read dl n acc st (Broken e # es) cx =
           dot_done acc (Some (if err_eof e then unexpected_eof else e)) st es cx"
    and "0 < n \<Longrightarrow> dot_byte st c = (st', None, b) \<Longrightarrow>
           dot_read dl n acc st (Byte c # es) cx = dot_read dl n acc st' es cx"
    and "0 < n \<Longrightarrow> dot_byte st c = (st', Some d, b) \<Longrightarrow>
           dot_read dl n acc st (Byte c # es) cx =
             dot_read dl (n - 1) (d # acc) st' (if b then Byte c # es else es) cx"
  using assms by (simp_all add: dot_read.simps [of dl _ acc st])

lemma dot_read_byte:
  "st \<noteq> AtEnd \<Longrightarrow> 0 < n \<Longrightarrow> dot_read dl n acc st (Byte c # es) cx =
     (case dot_byte st c of
        (st', None, _) \<Rightarrow> dot_read dl n acc st' es cx
      | (st', Some d, b) \<Rightarrow> dot_read dl (n - 1) (d # acc) st' (if b then Byte c # es else es) cx)"
  by (simp add: dot_read.simps [of dl n acc st] split: prod.split option.split)

text \<open>Reading makes progress: a read that delivers something, or runs into its deadline, leaves
  less to be read.\<close>

definition wire_size :: "dot_state \<Rightarrow> event list \<Rightarrow> nat" where
  "wire_size st es = 2 * length es + (if st = CR \<or> st = DotCR then 1 else 0)"

lemma dot_byte_size:
  "dot_byte st c = (st', d, b) \<Longrightarrow> st \<noteq> AtEnd \<Longrightarrow>
     wire_size st' (if b then Byte c # es else es) < wire_size st (Byte c # es) \<and> (d = None \<longrightarrow> \<not> b)"
  by (cases st) (auto simp: wire_size_def split: if_splits)

definition shrinks :: "nat \<Rightarrow> dot_state \<Rightarrow> event list \<Rightarrow> dot_result \<Rightarrow> bool" where
  "shrinks n st es r \<longleftrightarrow>
     wire_size (dr_state r) (dr_left r) \<le> wire_size st es \<and>
     ((0 < n \<and> dr_err r = None) \<or> (\<exists>e. dr_err r = Some e \<and> err_timeout e) \<longrightarrow>
      wire_size (dr_state r) (dr_left r) < wire_size st es)"

lemma shrinks_step: "shrinks k st' es' r \<Longrightarrow> wire_size st' es' < wire_size st es \<Longrightarrow> shrinks n st es r"
  by (auto simp: shrinks_def)

text \<open>The induction the facts on \<open>dot_read\<close> rest on: one case per rule.\<close>

lemma dot_read_induct [case_names at_end full closed cancelled expired silence broken skip deliver]:
  fixes P :: "nat \<Rightarrow> string \<Rightarrow> dot_state \<Rightarrow> event list \<Rightarrow> go_error option \<Rightarrow> bool"
  assumes "\<And>n acc es cx. P n acc AtEnd es cx"
    and "\<And>acc st es cx. st \<noteq> AtEnd \<Longrightarrow> P 0 acc st es cx"
    and "\<And>n acc st cx. st \<noteq> AtEnd \<Longrightarrow> 0 < n \<Longrightarrow> P n acc st [] cx"
    and "\<And>n acc st e es cx. st \<noteq> AtEnd \<Longrightarrow> 0 < n \<Longrightarrow> P n acc st es (first_error cx e) \<Longrightarrow>
          P n acc st (Cancelled e # es) cx"
    and "\<And>n acc st es cx. st \<noteq> AtEnd \<Longrightarrow> 0 < n \<Longrightarrow> dl \<Longrightarrow> P n acc st (Silence # es) cx"
    and "\<And>n acc st es cx. st \<noteq> AtEnd \<Longrightarrow> 0 < n \<Longrightarrow> \<not> dl \<Longrightarrow> P n acc st es cx \<Longrightarrow>
          P n acc st (Silence # es) cx"
    and "\<And>n acc st e es cx. st \<noteq> AtEnd \<Longrightarrow> 0 < n \<Longrightarrow> P n acc st (Broken e # es) cx"
    and "\<And>n acc st c es cx st' b. st \<noteq> AtEnd \<Longrightarrow> 0 < n \<Longrightarrow> dot_byte st c = (st', None, b) \<Longrightarrow>
          P n acc st' es cx \<Longrightarrow> P n acc st (Byte c # es) cx"
    and "\<And>n acc st c es cx st' d b. st \<noteq> AtEnd \<Longrightarrow> 0 < n \<Longrightarrow> dot_byte st c = (st', Some d, b) \<Longrightarrow>
          P (n - 1) (d # acc) st' (if b then Byte c # es else es) cx \<Longrightarrow> P n acc st (Byte c # es) cx"
  shows "P n acc st es cx"
proof -
  have "l = dl \<longrightarrow> P n acc st es cx" for l
  proof (induction l n acc st es cx rule: dot_read.induct)
    case (1 l n acc st es cx)
    show ?case
    proof (cases "l = dl \<and> st \<noteq> AtEnd \<and> 0 < n \<and> es \<noteq> []")
      case False
      with assms(1-3) show ?thesis by (cases "st = AtEnd"; cases "n = 0"; auto)
    next
      case True
      then have st: "st \<noteq> AtEnd" "n \<noteq> 0" "0 < n" "l = dl" by auto
      from True obtain e es' where es: "es = e # es'" by (meson neq_Nil_conv)
      show ?thesis
      proof (cases e)
        case (Byte c)
        obtain st' d b where b: "dot_byte st c = (st', d, b)" by (cases "dot_byte st c") auto
        show ?thesis
        proof (cases d)
          case None
          from assms(8) [of st n c st' b] 1(1) [OF st(1,2) es Byte b [symmetric] refl None] show ?thesis
            using st b es Byte None by simp
        next
          case (Some x)
          from 1(2) [OF st(1,2) es Byte b [symmetric] refl Some] have
            "P (n - 1) (x # acc) st' (if b then Byte c # es' else es') cx"
            using st es Byte by (cases b) auto
          from assms(9) [OF st(1,3) b [unfolded Some] this] show ?thesis using es Byte by simp
        qed
      next
        case Silence
        with assms(5,6) 1(3) [OF st(1,2) es Silence] st es show ?thesis by (cases dl) auto
      next
        case (Cancelled x)
        with assms(4) 1(4) [OF st(1,2) es Cancelled] st es show ?thesis by auto
      next
        case (Broken x)
        with assms(7) st es show ?thesis by auto
      qed
    qed
  qed
  then show ?thesis by simp
qed

lemma dot_read_shrinks: "shrinks n st es (dot_read dl n acc st es cx)"
proof (induction n acc st es cx rule: dot_read_induct [where dl = dl])
  case (skip n acc st c es cx st' b)
  then have "wire_size st' es < wire_size st (Byte c # es)"
    using dot_byte_size [of st c st' None b es] by auto
  from shrinks_step [OF skip(4) this] skip show ?case by (simp add: dot_read_steps)
next
  case (deliver n acc st c es cx st' d b)
  then have "wire_size st' (if b then Byte c # es else es) < wire_size st (Byte c # es)"
    using dot_byte_size [of st c st' "Some d" b es] by auto
  from shrinks_step [OF deliver(4) this] deliver show ?case by (simp add: dot_read_steps(7))
next
  case (cancelled n acc st e es cx)
  from shrinks_step [OF this(3), of st "Cancelled e # es" n] this show ?case
    by (simp add: dot_read_steps wire_size_def)
next
  case (silence n acc st es cx)
  from shrinks_step [OF this(4), of st "Silence # es" n] this show ?case
    by (simp add: dot_read_steps wire_size_def)
qed (auto simp: shrinks_def dot_read_at_end dot_read_steps dot_done_def io_eof_def unexpected_eof_def
      text_error_def wire_size_def)

section \<open>The reader of an article\<close>

text \<open>\<open>pooledReader\<close>: the state of its \<open>dotReader\<close>, what the connection delivers, the context,
  and whether the connection has been closed.\<close>

record pooled_reader =
  pr_dot :: dot_state
  pr_wire :: "event list"
  pr_ctx :: "go_error option"
  pr_closed :: bool

definition after_read :: "pooled_reader \<Rightarrow> dot_result \<Rightarrow> pooled_reader" where
  "after_read pr r = pr\<lparr>pr_dot := dr_state r, pr_wire := dr_left r, pr_ctx := dr_ctx r\<rparr>"

text \<open>\<open>pooledReader.Read\<close> into a buffer of \<open>n\<close> bytes. A read that ran into its deadline is repeated,
  with the whole buffer again.\<close>

function pooled_Read :: "nat \<Rightarrow> pooled_reader \<Rightarrow> string \<times> go_error option \<times> pooled_reader" where
  "pooled_Read n pr =
     (case pr_ctx pr of
        Some e \<Rightarrow> ([], Some e, pr\<lparr>pr_closed := True\<rparr>)
      | None \<Rightarrow>
          (let r = dot_read True n [] (pr_dot pr) (pr_wire pr) None; pr' = after_read pr r
           in case dr_err r of
                None \<Rightarrow> (dr_bytes r, None, pr')
              | Some e \<Rightarrow>
                  (if err_net e \<and> err_timeout e
                   then (case pr_ctx pr' of
                           Some d \<Rightarrow> ([], Some d, pr'\<lparr>pr_closed := True\<rparr>)
                         | None \<Rightarrow> pooled_Read n pr')
                   else (dr_bytes r, Some e, pr'))))"
  by pat_completeness auto
termination
proof (relation "measure (\<lambda>(n, pr). wire_size (pr_dot pr) (pr_wire pr))", goal_cases)
  case (2 n pr r pr' e)
  with dot_read_shrinks [of n "pr_dot pr" "pr_wire pr" True "[]" None] show ?case
    by (auto simp: shrinks_def after_read_def)
qed simp

declare pooled_Read.simps [simp del]

text \<open>\<open>pooledReader.Close\<close> reads the rest of the body, within one deadline, before the connection
  goes back to the pool; \<open>None\<close>: the connection is closed instead. Of a closed connection only
  the \<open>k\<close> events its buffer holds can be read.\<close>

definition close_wire :: "nat \<Rightarrow> event list \<Rightarrow> event list" where
  "close_wire k es = take k es @ [Broken use_of_closed]"

definition drain :: "bool \<Rightarrow> dot_state \<Rightarrow> event list \<Rightarrow> dot_result" where
  "drain dl st es = dot_read dl (2 * length es + 2) [] st es None"

definition pooled_Close :: "nat \<Rightarrow> pooled_reader \<Rightarrow> pooled_reader option" where
  "pooled_Close k pr =
     (let r = drain True (pr_dot pr) (if pr_closed pr then close_wire k (pr_wire pr) else pr_wire pr)
      in if dr_err r = Some io_eof then Some (after_read pr r) else None)"

text \<open>A reader that is asked for \<open>sz i + 1\<close> bytes in its \<open>i\<close>-th read, until a read reports an
  error.\<close>

lemma pooled_Read_size:
  assumes "pooled_Read n pr = (out, None, pr')" "0 < n"
  shows "wire_size (pr_dot pr') (pr_wire pr') < wire_size (pr_dot pr) (pr_wire pr)"
  using assms
proof (induction n pr arbitrary: out pr' rule: pooled_Read.induct)
  case (1 n pr)
  let ?r = "dot_read True n [] (pr_dot pr) (pr_wire pr) None"
  have s: "shrinks n (pr_dot pr) (pr_wire pr) ?r" by (rule dot_read_shrinks)
  from 1(2) have ctx: "pr_ctx pr = None" by (cases "pr_ctx pr") (auto simp: pooled_Read.simps [of n pr])
  show ?case
  proof (cases "dr_err ?r")
    case None
    with 1(2,3) ctx s show ?thesis
      by (auto simp: pooled_Read.simps [of n pr] Let_def after_read_def shrinks_def)
  next
    case (Some e)
    with 1(2) ctx have e: "err_net e \<and> err_timeout e" "pr_ctx (after_read pr ?r) = None"
      and again: "pooled_Read n (after_read pr ?r) = (out, None, pr')"
      by (auto simp: pooled_Read.simps [of n pr] Let_def split: if_splits option.splits)
    have "wire_size (pr_dot pr') (pr_wire pr') < wire_size (pr_dot (after_read pr ?r)) (pr_wire (after_read pr ?r))"
      by (rule 1(1) [OF ctx refl refl Some e again 1(3)])
    with s Some e show ?thesis by (auto simp: shrinks_def after_read_def)
  qed
qed

function read_stream :: "(nat \<Rightarrow> nat) \<Rightarrow> nat \<Rightarrow> pooled_reader \<Rightarrow> string \<times> go_error \<times> pooled_reader" where
  "read_stream sz i pr =
     (let (out, err, pr') = pooled_Read (Suc (sz i)) pr
      in case err of
           Some e \<Rightarrow> (out, e, pr')
         | None \<Rightarrow> (let (rest, e, pr'') = read_stream sz (Suc i) pr' in (out @ rest, e, pr'')))"
  by pat_completeness auto
termination
  by (relation "measure (\<lambda>(sz, i, pr). wire_size (pr_dot pr) (pr_wire pr))")
     (auto dest: pooled_Read_size [OF sym])

declare read_stream.simps [simp del]

section \<open>Reading in pieces\<close>

lemma dot_read_acc:
  "dot_read dl n (a @ acc) st es cx =
     (dot_read dl n a st es cx)\<lparr>dr_bytes := rev acc @ dr_bytes (dot_read dl n a st es cx)\<rparr>"
  by (induction n a st es cx rule: dot_read_induct [where dl = dl])
     (auto simp: dot_read_at_end dot_read_steps dot_done_def)

text \<open>A read of \<open>n + m\<close> bytes is a read of \<open>n\<close> bytes followed by one of \<open>m\<close>.\<close>

definition go_on :: "bool \<Rightarrow> nat \<Rightarrow> dot_result \<Rightarrow> dot_result" where
  "go_on dl m r =
     (if dr_err r = None then dot_read dl m (rev (dr_bytes r)) (dr_state r) (dr_left r) (dr_ctx r) else r)"

lemma dot_read_add: "dot_read dl (n + m) acc st es cx = go_on dl m (dot_read dl n acc st es cx)"
proof (induction n acc st es cx rule: dot_read_induct [where dl = dl])
  case (deliver n acc st c es cx st' d b)
  moreover from this have "n + m - 1 = n - 1 + m" by simp
  ultimately show ?case by (simp add: dot_read_steps(7) del: diff_is_0_eq)
qed (auto simp: dot_read_at_end dot_read_steps dot_done_def go_on_def)

text \<open>A read whose buffer is larger than what can come ends with an error (\<open>io.EOF\<close> included), and
  a larger buffer changes nothing.\<close>

lemma big_read_ends: "wire_size st es < n \<Longrightarrow> dr_err (dot_read dl n acc st es cx) \<noteq> None"
proof (induction n arbitrary: acc st es cx)
  case (Suc n)
  let ?r = "dot_read dl 1 acc st es cx"
  have r: "dot_read dl (Suc n) acc st es cx = go_on dl n ?r" using dot_read_add [of dl 1 n] by simp
  show ?case
  proof (cases "dr_err ?r")
    case None
    have "wire_size (dr_state ?r) (dr_left ?r) < wire_size st es"
      using dot_read_shrinks [of 1 st es dl acc cx] None by (simp add: shrinks_def)
    with Suc show ?thesis by (simp add: r go_on_def None)
  next
    case (Some e)
    then show ?thesis by (simp add: r go_on_def)
  qed
qed simp

lemma read_beyond: "dr_err (dot_read dl n acc st es cx) \<noteq> None \<Longrightarrow> n \<le> m \<Longrightarrow>
    dot_read dl m acc st es cx = dot_read dl n acc st es cx"
  using dot_read_add [of dl n "m - n" acc st es cx] by (auto simp: go_on_def)

lemma drain_eq:
  assumes "dr_err (dot_read dl n [] st es None) \<noteq> None"
  shows "drain dl st es = dot_read dl n [] st es None"
proof (cases "n \<le> 2 * length es + 2")
  case True
  with assms show ?thesis unfolding drain_def by (rule read_beyond)
next
  case False
  have "wire_size st es < 2 * length es + 2" by (simp add: wire_size_def)
  from big_read_ends [OF this] False show ?thesis
    unfolding drain_def by (intro read_beyond [symmetric]) simp_all
qed

lemma drain_ends: "dr_err (drain dl st es) \<noteq> None"
  unfolding drain_def by (rule big_read_ends) (simp add: wire_size_def)

text \<open>The context only ever ends.\<close>

lemma ctx_stays: "cx \<noteq> None \<Longrightarrow> dr_ctx (dot_read dl n acc st es cx) = cx"
  by (induction n acc st es cx rule: dot_read_induct [where dl = dl])
     (auto simp: dot_read_at_end dot_read_steps dot_done_def first_error_def)

text \<open>As long as no deadline runs out and the context lives, the sizes of the reads do not matter: together
  they deliver the body, and leave the connection right behind it.\<close>

lemma read_stream_drain:
  assumes "dr_err (drain True (pr_dot pr) (pr_wire pr)) = Some e" "\<not> err_timeout e"
    and "dr_ctx (drain True (pr_dot pr) (pr_wire pr)) = None" "pr_ctx pr = None"
  shows "read_stream sz i pr =
    (dr_bytes (drain True (pr_dot pr) (pr_wire pr)), e, after_read pr (drain True (pr_dot pr) (pr_wire pr)))"
  using assms
proof (induction sz i pr rule: read_stream.induct)
  case (1 sz i pr)
  let ?n = "Suc (sz i)" and ?st = "pr_dot pr" and ?es = "pr_wire pr"
  let ?r = "dot_read True ?n [] ?st ?es None"
  let ?m = "2 * length ?es + 2"
  show ?case
  proof (cases "dr_err ?r")
    case (Some d)
    then have d: "drain True ?st ?es = ?r" by (intro drain_eq) simp
    with 1(2,3) Some have "d = e" by simp
    with Some 1(3,5) d show ?thesis
      by (simp add: read_stream.simps [of sz i pr] pooled_Read.simps [of ?n pr] Let_def)
  next
    case None
    define q where "q = after_read pr ?r"
    have read: "pooled_Read ?n pr = (dr_bytes ?r, None, q)"
      using None 1(5) by (simp add: pooled_Read.simps [of ?n pr] Let_def q_def)
    let ?s = "dot_read True ?m [] (dr_state ?r) (dr_left ?r) (dr_ctx ?r)"
    have all: "dot_read True (?n + ?m) [] ?st ?es None = ?s\<lparr>dr_bytes := dr_bytes ?r @ dr_bytes ?s\<rparr>"
      using dot_read_add [of True ?n ?m "[]" ?st ?es None] dot_read_acc [of True ?m "[]" "rev (dr_bytes ?r)"] None
      by (simp add: go_on_def)
    have "dr_err (dot_read True (?n + ?m) [] ?st ?es None) \<noteq> None"
      by (rule big_read_ends) (simp add: wire_size_def)
    note whole = drain_eq [OF this]
    have ctx: "dr_ctx ?r = None"
      using ctx_stays [of "dr_ctx ?r" True ?m] 1(4) whole all by fastforce
    have "dr_err ?s \<noteq> None" using whole all 1(2) by simp
    then have "drain True (dr_state ?r) (dr_left ?r) = ?s" unfolding ctx by (rule drain_eq)
    then have q: "drain True (pr_dot q) (pr_wire q) = ?s" by (simp add: q_def after_read_def)
    have "read_stream sz (Suc i) q = (dr_bytes ?s, e, after_read q ?s)"
      using 1(1) [OF read [symmetric] refl refl] whole all 1(2-4) q ctx
      by (simp add: q_def after_read_def)
    then show ?thesis
      using read whole all by (simp add: read_stream.simps [of sz i pr] q_def after_read_def)
  qed
qed

section \<open>Dot-stuffed text\<close>

text \<open>How a server sends a text (RFC 3977, section 3.1.1): every line ends with CRLF, a dot at the
  beginning of a line is doubled, and a line with a single dot ends the text.\<close>

definition crlf :: string where "crlf = [CHR 0x0D, CHR 0x0A]"

definition stuff_line :: "string \<Rightarrow> string" where
  "stuff_line l = (if is_prefix ''.'' l then CHR ''.'' # l else l) @ crlf"

definition body_wire :: "string list \<Rightarrow> string" where
  "body_wire ls = concat (map stuff_line ls) @ ''.'' @ crlf"

definition body_text :: "string list \<Rightarrow> string" where
  "body_text ls = concat (map (\<lambda>l. l @ [CHR 0x0A]) ls)"

lemma read_in_line:
  assumes "CHR 0x0A \<notin> set l"
  shows "dot_read dl (n + length l + 1) acc Data (map Byte (l @ crlf) @ es) cx =
    dot_read dl n (CHR 0x0A # rev l @ acc) BeginLine es cx"
  using assms
proof (induction l arbitrary: acc)
  case Nil
  then show ?case by (simp add: crlf_def dot_read_byte)
next
  case (Cons c l)
  show ?case
  proof (cases "c = CHR 0x0D")
    case False
    moreover have "c \<noteq> CHR 0x0A" using Cons.prems by auto
    ultimately show ?thesis using Cons by (simp add: dot_read_byte)
  next
    case True
    obtain d ds where d: "l @ crlf = d # ds" "d \<noteq> CHR 0x0A"
      using Cons.prems by (cases l) (auto simp: crlf_def)
    have "dot_read dl (n + length (c # l) + 1) acc Data (map Byte ((c # l) @ crlf) @ es) cx =
        dot_read dl (n + length l + 1) (c # acc) Data (map Byte (l @ crlf) @ es) cx"
      using True d by (simp add: dot_read_byte)
    with Cons show ?thesis by simp
  qed
qed

lemma read_line_of_body:
  assumes "CHR 0x0A \<notin> set l"
  shows "dot_read dl (n + length l + 1) acc BeginLine (map Byte (stuff_line l) @ es) cx =
    dot_read dl n (CHR 0x0A # rev l @ acc) BeginLine es cx"
proof (cases l)
  case Nil
  then show ?thesis by (simp add: stuff_line_def crlf_def dot_read_byte)
next
  case (Cons c k)
  have k: "CHR 0x0A \<notin> set k" using assms Cons by simp
  show ?thesis
  proof (cases "c = CHR ''.''")
    case True
    then show ?thesis
      using read_in_line [OF k, of dl n "c # acc" es cx] Cons
      by (simp add: stuff_line_def dot_read_byte)
  next
    case False
    show ?thesis
    proof (cases "c = CHR 0x0D")
      case cr: True
      obtain d ds where d: "k @ crlf = d # ds" "d \<noteq> CHR 0x0A"
        using k by (cases k) (auto simp: crlf_def)
      with cr False Cons read_in_line [OF k, of dl n "c # acc" es cx] show ?thesis
        by (simp add: stuff_line_def dot_read_byte)
    next
      case nocr: False
      with False assms Cons read_in_line [OF k, of dl n "c # acc" es cx] show ?thesis
        by (simp add: stuff_line_def dot_read_byte)
    qed
  qed
qed

lemma read_body:
  assumes "\<forall>l \<in> set ls. CHR 0x0A \<notin> set l"
  shows "dot_read dl (n + length (body_text ls) + 1) acc BeginLine (map Byte (body_wire ls) @ es) cx =
    dot_done (rev (body_text ls) @ acc) (Some io_eof) AtEnd es cx"
  using assms
proof (induction ls arbitrary: acc)
  case Nil
  then show ?case by (simp add: body_wire_def body_text_def crlf_def dot_read_byte dot_read_at_end)
next
  case (Cons l ls)
  have "body_wire (l # ls) = stuff_line l @ body_wire ls" by (simp add: body_wire_def)
  moreover have "body_text (l # ls) = l @ CHR 0x0A # body_text ls" by (simp add: body_text_def)
  moreover have "n + length (body_text (l # ls)) + 1 = (n + length (body_text ls) + 1) + length l + 1"
    by (simp add: body_text_def)
  ultimately show ?case
    using Cons read_line_of_body [of l dl "n + length (body_text ls) + 1" acc "map Byte (body_wire ls) @ es" cx]
    by (simp add: ac_simps)
qed

lemma drain_body:
  assumes "\<forall>l \<in> set ls. CHR 0x0A \<notin> set l"
  shows "drain dl BeginLine (map Byte (body_wire ls) @ es) =
    dot_done (rev (body_text ls)) (Some io_eof) AtEnd es None"
  using drain_eq [of dl "0 + length (body_text ls) + 1" BeginLine "map Byte (body_wire ls) @ es"]
  unfolding read_body [OF assms] by (simp add: dot_done_def)

end
