(* ===== verification/Nntp_Overview.thy ===== *)
theory Nntp_Overview
  imports Nntp_Wire
begin

text \<open>
  The texts \<open>nntp/provider.go\<close> reads from a server: the reply to GROUP, the lines of LIST ACTIVE
  and of XOVER, the split of a body into lines by \<open>bufio.Scanner\<close>, and the beginning of an article up to its
  \<open>=ybegin\<close> line.
\<close>

section \<open>Numbers and fields\<close>

text \<open>The value of \<open>strconv.ParseInt(s, 10, 64)\<close> when its error is ignored: 0 for a text that is no
  number, the nearest number when it is out of range.\<close>

definition parse_int_value :: "string \<Rightarrow> int" where
  "parse_int_value s =
     (case parse_int s of
        Some n \<Rightarrow> n
      | None \<Rightarrow>
          (case s of
             [] \<Rightarrow> 0
           | c # cs \<Rightarrow>
               (if c = CHR ''-'' then (if parse_udec cs = None then 0 else - (2 ^ 63))
                else if parse_udec (if c = CHR ''+'' then cs else s) = None then 0 else 2 ^ 63 - 1)))"

text \<open>\<open>strings.Split\<close> at one character.\<close>

fun split_at_char :: "char \<Rightarrow> string \<Rightarrow> string list" where
  "split_at_char c [] = [[]]"
| "split_at_char c (d # ds) =
     (if d = c then [] # split_at_char c ds
      else (case split_at_char c ds of [] \<Rightarrow> [[d]] | x # xs \<Rightarrow> (d # x) # xs))"

section \<open>GROUP\<close>

record group_stats =
  gs_count :: int
  gs_low :: int
  gs_high :: int
  gs_group :: string

definition quoted :: "string \<Rightarrow> string" where
  "quoted s = ''\"'' @ s @ ''\"''"

text \<open>The part of \<open>selectGroup\<close> after the status line; of a text with a quote or control character
  the error text differs from \<open>%q\<close>.\<close>

definition parse_group_reply :: "string \<Rightarrow> string \<Rightarrow> go_error + group_stats" where
  "parse_group_reply grp msg =
     (let parts = str_fields msg
      in if length parts < 4
         then Inl (text_error (''unexpected GROUP response for '' @ grp @ '': '' @ quoted msg))
         else (case (parse_int (parts ! 0), parse_int (parts ! 1), parse_int (parts ! 2)) of
                 (None, _, _) \<Rightarrow> Inl (text_error (''parse GROUP count: '' @ parts ! 0))
               | (Some n, None, _) \<Rightarrow> Inl (text_error (''parse GROUP low: '' @ parts ! 1))
               | (Some n, Some l, None) \<Rightarrow> Inl (text_error (''parse GROUP high: '' @ parts ! 2))
               | (Some n, Some l, Some h) \<Rightarrow>
                   Inr \<lparr>gs_count = n, gs_low = l, gs_high = h, gs_group = grp\<rparr>))"

section \<open>LIST ACTIVE\<close>

record group_listing =
  gl_group :: string
  gl_high :: int
  gl_low :: int
  gl_status :: string

definition parseListActiveLine :: "string \<Rightarrow> group_listing option" where
  "parseListActiveLine line =
     (let fs = str_fields (trim_space line)
      in if length fs < 4 then None
         else (case (parse_int (fs ! 1), parse_int (fs ! 2)) of
                 (Some high, Some low) \<Rightarrow>
                   (if trim_space (fs ! 0) \<noteq> []
                    then Some \<lparr>gl_group = trim_space (fs ! 0), gl_high = high, gl_low = low,
                               gl_status = trim_space (fs ! 3)\<rparr>
                    else None)
               | _ \<Rightarrow> None))"

section \<open>XOVER\<close>

text \<open>A time is its instant; \<open>time_parse layout s\<close> stands for \<open>time.Parse\<close>.\<close>

record overview_header =
  oh_number :: int
  oh_subject :: string
  oh_poster :: string
  oh_date :: "int option"
  oh_id :: string
  oh_references :: string
  oh_bytes :: int
  oh_lines :: int
  oh_xref :: string
  oh_raw :: "(string \<times> string) list"

definition date_layouts :: "string list" where
  "date_layouts =
     [''Mon, 02 Jan 2006 15:04:05 -0700'', ''Mon, 02 Jan 2006 15:04:05 MST'',
      ''Mon, 02 Jan 06 15:04:05 MST'', ''Mon, 2 Jan 06 15:04:05 MST'',
      ''Mon, 02 Jan 06 15:04:05 -0700'', ''Mon, 2 Jan 06 15:04:05 -0700'',
      ''Mon, 2 Jan 2006 15:04:05 -0700'', ''Mon, 02 Jan 2006 15:04:05 -0700'',
      ''Mon, 02 Jan 2006 15:04:05 MST'', ''Mon, 2 Jan 2006 15:04:05 MST'',
      ''2 Jan 06 15:04:05 MST'', ''2 Jan 2006 15:04:05 -0700'', ''2 Jan 06 15:04:05 -0700'',
      ''2006-01-02T15:04:05Z07:00'']"

fun first_parse :: "(string \<Rightarrow> string \<Rightarrow> int option) \<Rightarrow> string list \<Rightarrow> string \<Rightarrow> int option" where
  "first_parse time_parse [] s = None"
| "first_parse time_parse (l # ls) s =
     (case time_parse l s of Some t \<Rightarrow> Some t | None \<Rightarrow> first_parse time_parse ls s)"

definition parseNNTPDate :: "(string \<Rightarrow> string \<Rightarrow> int option) \<Rightarrow> string \<Rightarrow> int option" where
  "parseNNTPDate time_parse s = (if s = [] then None else first_parse time_parse date_layouts s)"

definition parseOverviewLine ::
  "(string \<Rightarrow> string \<Rightarrow> int option) \<Rightarrow> string \<Rightarrow> overview_header option" where
  "parseOverviewLine time_parse line =
     (let fs = split_at_char (CHR 0x09) line; f = (\<lambda>i. trim_space (fs ! i))
      in if length fs < 8 then None
         else (case parse_int (f 0) of
                 None \<Rightarrow> None
               | Some n \<Rightarrow>
                   (if n \<le> 0 then None
                    else Some \<lparr>oh_number = n, oh_subject = f 1, oh_poster = f 2,
                               oh_date = parseNNTPDate time_parse (f 3), oh_id = f 4,
                               oh_references = f 5, oh_bytes = parse_int_value (f 6),
                               oh_lines = parse_int_value (f 7),
                               oh_xref = (if length fs > 8 then f 8 else []),
                               oh_raw = (if f 5 \<noteq> [] then [(''references'', f 5)] else [])\<rparr>)))"

section \<open>Lines of a body\<close>

text \<open>\<open>bufio.Scanner\<close> with \<open>ScanLines\<close> and a limit of 1 MiB on the text of a body: the lines, and
  whether a line was too long (then the lines before it).\<close>

definition max_token :: nat where "max_token = 1048576"

fun raw_lines :: "string \<Rightarrow> string \<Rightarrow> string list" where
  "raw_lines acc [] = (if acc = [] then [] else [rev acc])"
| "raw_lines acc (c # cs) = (if c = CHR 0x0A then rev acc # raw_lines [] cs else raw_lines (c # acc) cs)"

definition drop_cr :: "string \<Rightarrow> string" where
  "drop_cr l = (if l \<noteq> [] \<and> last l = CHR 0x0D then butlast l else l)"

definition scan_lines :: "string \<Rightarrow> string list \<times> bool" where
  "scan_lines text =
     (let ls = raw_lines [] text
      in (map drop_cr (takeWhile (\<lambda>l. length l < max_token) ls),
          list_ex (\<lambda>l. \<not> length l < max_token) ls))"

section \<open>The beginning of an article\<close>

text \<open>\<open>readBodyPrefixUntilYBegin\<close> on a reader that delivers \<open>content\<close> and then fails with \<open>err\<close>. The
  data appended so far is \<open>data\<close>.\<close>

definition read_string :: "string \<Rightarrow> string \<times> bool \<times> string" where
  "read_string content =
     (let l = takeWhile (\<lambda>c. c \<noteq> CHR 0x0A) content; rest = dropWhile (\<lambda>c. c \<noteq> CHR 0x0A) content
      in case rest of [] \<Rightarrow> (l, False, []) | c # cs \<Rightarrow> (l @ [c], True, cs))"

lemma read_string_split:
  "read_string content = (l, complete, rest) \<Longrightarrow>
     content = l @ rest \<and> (complete = (l \<noteq> [] \<and> last l = CHR 0x0A)) \<and> (\<not> complete \<longrightarrow> rest = [])"
proof (cases "dropWhile (\<lambda>c. c \<noteq> CHR 0x0A) content")
  case Nil
  assume r: "read_string content = (l, complete, rest)"
  have t: "takeWhile (\<lambda>c. c \<noteq> CHR 0x0A) content = content" using Nil by (metis append_Nil2 takeWhile_dropWhile_id)
  have "l = takeWhile (\<lambda>c. c \<noteq> CHR 0x0A) content" using r Nil by (simp add: read_string_def)
  also note t
  finally have l: "l = content" .
  have c: "\<not> complete" "rest = []" using r Nil by (simp_all add: read_string_def)
  have "content = [] \<or> last content \<noteq> CHR 0x0A"
    using Nil unfolding dropWhile_eq_Nil_conv by (cases "content = []") simp_all
  with l c show ?thesis by simp
next
  case (Cons c cs)
  assume r: "read_string content = (l, complete, rest)"
  have "c = CHR 0x0A" using hd_dropWhile [of "\<lambda>c. c \<noteq> CHR 0x0A" content] Cons by simp
  moreover have "content = takeWhile (\<lambda>c. c \<noteq> CHR 0x0A) content @ c # cs"
    using Cons by (metis takeWhile_dropWhile_id)
  ultimately show ?thesis using r Cons by (auto simp: read_string_def)
qed

lemma read_string_shorter: "read_string content = (l, True, rest) \<Longrightarrow> length rest < length content"
  using read_string_split [of content l True rest] by auto

function prefix_loop :: "int \<Rightarrow> string \<Rightarrow> string \<Rightarrow> go_error \<Rightarrow> string \<times> go_error option" where
  "prefix_loop maxBytes data content err =
     (if \<not> int (length data) < maxBytes then (data, None)
      else (case read_string content of
              (line, complete, rest) \<Rightarrow>
                (let data' = data @ take (nat (maxBytes - int (length data))) line
                 in if line \<noteq> [] \<and> (is_prefix ''=ybegin'' line \<or> int (length data') \<ge> maxBytes)
                    then (data', None)
                    else if complete then prefix_loop maxBytes data' rest err
                    else if err_eof err then (data', None) else (data', Some err))))"
  by pat_completeness auto
termination
  by (relation "measure (\<lambda>(m, data, content, err). length content)") (auto dest!: read_string_shorter [OF sym])

declare prefix_loop.simps [simp del]

definition readBodyPrefixUntilYBegin :: "string \<Rightarrow> go_error \<Rightarrow> int \<Rightarrow> string \<times> go_error option" where
  "readBodyPrefixUntilYBegin content err maxBytes =
     prefix_loop (if maxBytes \<le> 0 then 8192 else maxBytes) [] content err"

section \<open>What is read\<close>

text \<open>The lines of a text up to the first that begins with \<open>=ybegin\<close>, that line included, and whether
  there is one.\<close>

function through_ybegin :: "string \<Rightarrow> string \<times> bool" where
  "through_ybegin content =
     (case read_string content of
        (line, complete, rest) \<Rightarrow>
          (if is_prefix ''=ybegin'' line then (line, True)
           else if complete then (line @ fst (through_ybegin rest), snd (through_ybegin rest))
           else (line, False)))"
  by pat_completeness auto
termination
  by (relation "measure length") (auto dest!: read_string_shorter [OF sym])

declare through_ybegin.simps [simp del]

lemma through_ybegin_prefix: "\<exists>t. content = fst (through_ybegin content) @ t"
proof (induction content rule: through_ybegin.induct)
  case (1 content)
  obtain line complete rest where r: "read_string content = (line, complete, rest)"
    by (cases "read_string content") auto
  from read_string_split [OF r] have c: "content = line @ rest" by simp
  show ?case
  proof (cases "is_prefix ''=ybegin'' line \<or> \<not> complete")
    case True
    then have "fst (through_ybegin content) = line" by (auto simp: through_ybegin.simps [of content] r)
    with c show ?thesis by auto
  next
    case False
    with 1 [OF r [symmetric] refl] obtain t where "rest = fst (through_ybegin rest) @ t" by auto
    moreover have "fst (through_ybegin content) = line @ fst (through_ybegin rest)"
      using False by (simp add: through_ybegin.simps [of content] r)
    ultimately show ?thesis using c by auto
  qed
qed

text \<open>The loop, with what has been read before.\<close>

lemma prefix_loop_eq:
  "prefix_loop (int (length data + Suc k)) data content err =
    (data @ take (Suc k) (fst (through_ybegin content)),
     if err_eof err \<or> snd (through_ybegin content) \<or> Suc k \<le> length (fst (through_ybegin content))
     then None else Some err)"
proof (induction content arbitrary: data k rule: through_ybegin.induct)
  case (1 content)
  obtain line complete rest where r: "read_string content = (line, complete, rest)"
    by (cases "read_string content") auto
  let ?m = "int (length data + Suc k)"
  have room: "nat (?m - int (length data)) = Suc k" by simp
  note loop = prefix_loop.simps [of ?m data content err, unfolded r prod.case Let_def room]
  note thr = through_ybegin.simps [of content, unfolded r prod.case]
  note split = read_string_split [OF r]
  show ?case
  proof (cases "Suc k \<le> length line")
    case True
    then have "line \<noteq> []" "?m \<le> int (length (data @ take (Suc k) line))" by auto
    then have l: "prefix_loop ?m data content err = (data @ take (Suc k) line, None)"
      by (subst loop) simp
    have "take (Suc k) (fst (through_ybegin content)) = take (Suc k) line"
      "Suc k \<le> length (fst (through_ybegin content))" using True by (auto simp: thr)
    then show ?thesis unfolding l by simp
  next
    case short: False
    then have d: "data @ take (Suc k) line = data @ line" "\<not> ?m \<le> int (length (data @ line))" by auto
    show ?thesis
    proof (cases "is_prefix ''=ybegin'' line")
      case True
      then have "line \<noteq> []" by auto
      with True d short show ?thesis by (subst loop) (simp add: thr)
    next
      case no: False
      show ?thesis
      proof (cases complete)
        case False
        have t: "through_ybegin content = (line, False)" using no False by (simp add: thr)
        show ?thesis unfolding t using no d short split False by (subst loop) simp
      next
        case True
        have l: "prefix_loop ?m data content err = prefix_loop ?m (data @ line) rest err"
          using no d short True by (subst loop) simp
        have m: "?m = int (length (data @ line) + Suc (k - length line))" using short by simp
        have "prefix_loop ?m (data @ line) rest err =
            ((data @ line) @ take (Suc (k - length line)) (fst (through_ybegin rest)),
             if err_eof err \<or> snd (through_ybegin rest) \<or> Suc (k - length line) \<le> length (fst (through_ybegin rest))
             then None else Some err)"
          unfolding m by (rule 1 [OF r [symmetric] refl no True])
        moreover have "Suc k - length line = Suc (k - length line)" using short by simp
        ultimately show ?thesis using True no short unfolding l by (simp add: thr) linarith
      qed
    qed
  qed
qed

text \<open>\<open>readBodyPrefixUntilYBegin\<close> returns the article from its beginning through the first line that
  starts with \<open>=ybegin\<close> (all of it when there is none), cut off after \<open>maxBytes\<close> bytes (8192 when the limit is not
  positive); the error of the reader is passed on exactly when it is not \<open>io.EOF\<close> and comes before the line and
  the limit.\<close>

theorem body_prefix_exact:
  "readBodyPrefixUntilYBegin content err maxBytes =
    (let m = nat (if maxBytes \<le> 0 then 8192 else maxBytes); (text, found) = through_ybegin content
     in (take m text, if err_eof err \<or> found \<or> m \<le> length text then None else Some err))"
proof -
  define m where "m = (if maxBytes \<le> 0 then 8192 else maxBytes)"
  have "0 < m" by (simp add: m_def)
  then obtain k where k: "m = int (Suc k)" using pos_int_cases [of m] by (metis Suc_pred)
  then have n: "nat m = Suc k" by simp
  have "prefix_loop m [] content err = (take (Suc k) (fst (through_ybegin content)),
      if err_eof err \<or> snd (through_ybegin content) \<or> Suc k \<le> length (fst (through_ybegin content))
      then None else Some err)"
    using prefix_loop_eq [of "[]" k content err] unfolding k by simp
  then show ?thesis
    unfolding readBodyPrefixUntilYBegin_def m_def [symmetric] n Let_def split_beta by (rule trans) simp
qed

section \<open>Overview lines\<close>

text \<open>A line of XOVER for a header; the date is the text \<open>d\<close>.\<close>

definition overview_line :: "overview_header \<Rightarrow> string \<Rightarrow> string" where
  "overview_line h d =
     join_with [CHR 0x09]
       ([itoa (oh_number h), oh_subject h, oh_poster h, d, oh_id h, oh_references h, itoa (oh_bytes h),
         itoa (oh_lines h)] @ (if oh_xref h = [] then [] else [oh_xref h]))"

text \<open>A field that a line can hold.\<close>

definition field_ok :: "string \<Rightarrow> bool" where
  "field_ok s \<longleftrightarrow> CHR 0x09 \<notin> set s \<and> trim_space s = s"

lemma split_at_char_append:
  "c \<notin> set s \<Longrightarrow> split_at_char c (s @ c # t) = s # split_at_char c t"
  by (induction s) auto

lemma split_at_char_none: "c \<notin> set s \<Longrightarrow> split_at_char c s = [s]"
  by (induction s) auto

lemma split_tabs:
  "fs \<noteq> [] \<Longrightarrow> list_all (\<lambda>s. c \<notin> set s) fs \<Longrightarrow> split_at_char c (join_with [c] fs) = fs"
  by (induction "[c]" fs rule: join_with.induct) (auto simp: split_at_char_append split_at_char_none)

lemma plain_no_tab: "list_all plain s \<Longrightarrow> CHR 0x09 \<notin> set s"
  by (auto simp: list_all_iff plain_def dest!: bspec)

lemma itoa_field: "field_ok (itoa i)"
  using plain_no_tab [OF plain_itoa] trim_space_plain [OF plain_itoa] by (simp add: field_ok_def)

text \<open>An overview line is parsed back to the header it was made from, whatever the texts are, as long as
  they can be sent at all (no tab, no blanks around them) and the numbers are those of an article; the references are also
  kept in the raw map, and the date is what \<open>parseNNTPDate\<close> makes of its text.\<close>

theorem overview_roundtrip:
  assumes "list_all field_ok [oh_subject h, oh_poster h, d, oh_id h, oh_references h, oh_xref h]"
    and "0 < oh_number h" "in64 (oh_number h)" "in64 (oh_bytes h)" "in64 (oh_lines h)"
  shows "parseOverviewLine tp (overview_line h d) =
    Some (h\<lparr>oh_date := parseNNTPDate tp d,
            oh_raw := if oh_references h = [] then [] else [(''references'', oh_references h)]\<rparr>)"
proof -
  define fs where "fs = [itoa (oh_number h), oh_subject h, oh_poster h, d, oh_id h, oh_references h,
      itoa (oh_bytes h), itoa (oh_lines h)] @ (if oh_xref h = [] then [] else [oh_xref h])"
  have ok: "list_all field_ok fs" using assms(1) itoa_field by (simp add: fs_def)
  have s: "split_at_char (CHR 0x09) (overview_line h d) = fs"
    unfolding overview_line_def fs_def [symmetric]
    by (rule split_tabs) (use ok in \<open>auto simp: list_all_iff field_ok_def fs_def\<close>)
  have t: "trim_space (oh_subject h) = oh_subject h" "trim_space (oh_poster h) = oh_poster h"
    "trim_space d = d" "trim_space (oh_id h) = oh_id h" "trim_space (oh_references h) = oh_references h"
    "trim_space (oh_xref h) = oh_xref h" "trim_space (itoa i) = itoa i" for i
    using assms(1) itoa_field [of i] by (simp_all add: field_ok_def)
  have l: "\<not> length fs < 8" "length fs > 8 \<longleftrightarrow> oh_xref h \<noteq> []" by (simp_all add: fs_def)
  have n: "fs ! 0 = itoa (oh_number h)" "fs ! 1 = oh_subject h" "fs ! 2 = oh_poster h" "fs ! 3 = d"
    "fs ! 4 = oh_id h" "fs ! 5 = oh_references h" "fs ! 6 = itoa (oh_bytes h)" "fs ! 7 = itoa (oh_lines h)"
    "oh_xref h \<noteq> [] \<Longrightarrow> fs ! 8 = oh_xref h"
    by (simp_all add: fs_def)
  show ?thesis
    unfolding parseOverviewLine_def s Let_def n t if_not_P [OF l(1)] parse_int_itoa [OF assms(3)] option.case
      parse_int_value_def parse_int_itoa [OF assms(4)] parse_int_itoa [OF assms(5)]
    using assms(2) n(9) t(6) l(2) by (auto intro!: overview_header.equality)
qed

definition sample_header :: overview_header where
  "sample_header = \<lparr>oh_number = 12, oh_subject = ''a [1/2]'', oh_poster = ''p'', oh_date = None, oh_id = ''<i@x>'',
     oh_references = ''<r@x>'', oh_bytes = 740, oh_lines = 6, oh_xref = [], oh_raw = []\<rparr>"

lemma overview_roundtrip_witness:
  "\<exists>h. parseOverviewLine (\<lambda>_ _. None) (overview_line sample_header ''x'') = Some h \<and> oh_number h = 12 \<and>
     oh_subject h = ''a [1/2]'' \<and> oh_raw h = [(''references'', ''<r@x>'')]"
proof -
  have ok: "list_all field_ok [oh_subject sample_header, oh_poster sample_header, ''x'', oh_id sample_header,
      oh_references sample_header, oh_xref sample_header]"
    by code_simp
  show ?thesis
    using overview_roundtrip [OF ok, of "\<lambda>_ _. None"] by (simp add: sample_header_def in64_def)
qed

end
