(* ===== verification/Nntp_Conn.thy ===== *)
theory Nntp_Conn
  imports Nntp_Overview
begin

text \<open>
  The connections of one provider, \<open>nntpProvider\<close> of \<open>nntp/provider.go\<close>: the pool, dialling and
  authentication, the conversations on one connection (GROUP, LIST ACTIVE, XOVER, BODY) and the two
  attempts every operation has.

  What a server answers is an argument: \<open>answer cmd\<close> is the error of writing the command, or the
  events that will arrive because of it. The commands of one conversation are different texts.
  Connections have numbers; those that have been closed are remembered. Times are nanoseconds.
\<close>

section \<open>State\<close>

record server_config =
  sc_id :: string
  sc_host :: string
  sc_username :: string
  sc_password :: string
  sc_priority :: int
  sc_max :: int
  sc_dial_timeout :: int
  sc_keepalive :: int
  sc_idle :: int
  sc_age :: int
  sc_pool_logging :: bool

record nntp_conn =
  cn_id :: nat
  cn_created :: "int option"
  cn_used :: "int option"
  cn_wire :: "event list"

datatype discard_reason = DiscardIdle | DiscardAge | DiscardError

record provider_stats =
  ps_dials :: int
  ps_dial_failures :: int
  ps_reuses :: int
  ps_returns :: int
  ps_discard_idle :: int
  ps_discard_age :: int
  ps_discard_error :: int
  ps_fetch_retries :: int
  ps_group_retries :: int
  ps_xover_retries :: int
  ps_recoverable :: int

definition no_stats :: provider_stats where
  "no_stats = \<lparr>ps_dials = 0, ps_dial_failures = 0, ps_reuses = 0, ps_returns = 0, ps_discard_idle = 0,
     ps_discard_age = 0, ps_discard_error = 0, ps_fetch_retries = 0, ps_group_retries = 0,
     ps_xover_retries = 0, ps_recoverable = 0\<rparr>"

text \<open>\<open>pv_next\<close> is the number of the next connection, \<open>pv_closed\<close> the closed ones; the channel \<open>pool\<close> is a
  list with its head at the receiving end.\<close>

record nntp_provider =
  pv_conf :: server_config
  pv_pool :: "nntp_conn list"
  pv_done :: bool
  pv_log :: bool
  pv_stats :: provider_stats
  pv_last_log :: "int option"
  pv_next :: nat
  pv_closed :: "nat list"

text \<open>\<open>None\<close>: \<open>make\<close> panics on a negative capacity.\<close>

definition NewNNTPProviderWithLogger :: "server_config \<Rightarrow> bool \<Rightarrow> nntp_provider option" where
  "NewNNTPProviderWithLogger c log =
     (if sc_max c < 0 then None
      else Some \<lparr>pv_conf = c, pv_pool = [], pv_done = False, pv_log = (log \<and> sc_pool_logging c),
                 pv_stats = no_stats, pv_last_log = None, pv_next = 0, pv_closed = []\<rparr>)"

definition provider_label :: "nntp_provider \<Rightarrow> string" where
  "provider_label p =
     (let host = trim_space (sc_host (pv_conf p)) in if host \<noteq> [] then host else trim_space (sc_id (pv_conf p)))"

definition IdleConnectionCount :: "nntp_provider \<Rightarrow> int" where
  "IdleConnectionCount p = int (length (pv_pool p))"

section \<open>Settings\<close>

abbreviation seconds :: "int \<Rightarrow> int" where "seconds n \<equiv> i64 (n * 1000000000)"

definition dialTimeout :: "nntp_provider \<Rightarrow> int" where
  "dialTimeout p = seconds (if sc_dial_timeout (pv_conf p) \<le> 0 then 10 else sc_dial_timeout (pv_conf p))"

definition tcpKeepAlivePeriod :: "nntp_provider \<Rightarrow> int" where
  "tcpKeepAlivePeriod p = seconds (if sc_keepalive (pv_conf p) \<le> 0 then 30 else sc_keepalive (pv_conf p))"

definition poolIdleTimeout :: "nntp_provider \<Rightarrow> int" where
  "poolIdleTimeout p = seconds (if sc_idle (pv_conf p) \<le> 0 then 120 else sc_idle (pv_conf p))"

definition poolMaxAge :: "nntp_provider \<Rightarrow> int" where
  "poolMaxAge p = seconds (if sc_age (pv_conf p) \<le> 0 then 600 else sc_age (pv_conf p))"

section \<open>The pool\<close>

abbreviation stat :: "(provider_stats \<Rightarrow> provider_stats) \<Rightarrow> nntp_provider \<Rightarrow> nntp_provider" where
  "stat f p \<equiv> p\<lparr>pv_stats := f (pv_stats p)\<rparr>"

text \<open>Of logging, the time of the last line is kept.\<close>

definition maybeLogStats :: "int \<Rightarrow> nntp_provider \<Rightarrow> nntp_provider" where
  "maybeLogStats now p =
     (if \<not> pv_log p then p
      else (case pv_last_log p of
              Some t \<Rightarrow> if now - t < 60 * 1000000000 then p else p\<lparr>pv_last_log := Some now\<rparr>
            | None \<Rightarrow> p\<lparr>pv_last_log := Some now\<rparr>))"

definition logStats :: "int \<Rightarrow> nntp_provider \<Rightarrow> nntp_provider" where
  "logStats now p = (if \<not> pv_log p then p else p\<lparr>pv_last_log := Some now\<rparr>)"

definition closeConn :: "nntp_conn \<Rightarrow> nntp_provider \<Rightarrow> nntp_provider" where
  "closeConn c p = p\<lparr>pv_closed := cn_id c # pv_closed p\<rparr>"

definition shouldDiscardConn :: "nntp_provider \<Rightarrow> nntp_conn \<Rightarrow> int \<Rightarrow> discard_reason option" where
  "shouldDiscardConn p c now =
     (let last_used = (case cn_used c of None \<Rightarrow> cn_created c | Some t \<Rightarrow> Some t)
      in if poolMaxAge p > 0 \<and> (case cn_created c of None \<Rightarrow> False | Some t \<Rightarrow> now - t > poolMaxAge p)
         then Some DiscardAge
         else if poolIdleTimeout p > 0 \<and> (case last_used of None \<Rightarrow> False | Some t \<Rightarrow> now - t > poolIdleTimeout p)
         then Some DiscardIdle
         else None)"

definition count_discard :: "discard_reason \<Rightarrow> provider_stats \<Rightarrow> provider_stats" where
  "count_discard r s =
     (case r of
        DiscardIdle \<Rightarrow> s\<lparr>ps_discard_idle := ps_discard_idle s + 1\<rparr>
      | DiscardAge \<Rightarrow> s\<lparr>ps_discard_age := ps_discard_age s + 1\<rparr>
      | DiscardError \<Rightarrow> s\<lparr>ps_discard_error := ps_discard_error s + 1\<rparr>)"

definition discardConn :: "int \<Rightarrow> discard_reason \<Rightarrow> nntp_conn \<Rightarrow> nntp_provider \<Rightarrow> nntp_provider" where
  "discardConn now r c p = maybeLogStats now (closeConn c (stat (count_discard r) p))"

text \<open>\<open>returnConn\<close> in two parts, because the provider can be closed between them: the checks, which give
  the connection to be sent (if it is to be sent), and the send.\<close>

definition return_check :: "int \<Rightarrow> nntp_conn \<Rightarrow> nntp_provider \<Rightarrow> nntp_conn option \<times> nntp_provider" where
  "return_check now c p =
     (let c = c\<lparr>cn_used := Some now\<rparr>
      in case shouldDiscardConn p c now of
           Some r \<Rightarrow> (None, discardConn now r c p)
         | None \<Rightarrow> if pv_done p then (None, closeConn c p) else (Some c, p))"

definition return_send :: "int \<Rightarrow> nntp_conn \<Rightarrow> nntp_provider \<Rightarrow> nntp_provider" where
  "return_send now c p =
     maybeLogStats now
       (if int (length (pv_pool p)) < sc_max (pv_conf p)
        then stat (\<lambda>s. s\<lparr>ps_returns := ps_returns s + 1\<rparr>) (p\<lparr>pv_pool := pv_pool p @ [c]\<rparr>)
        else discardConn now DiscardError c p)"

definition returnConn :: "int \<Rightarrow> nntp_conn \<Rightarrow> nntp_provider \<Rightarrow> nntp_provider" where
  "returnConn now c p =
     (case return_check now c p of (None, p') \<Rightarrow> p' | (Some c', p') \<Rightarrow> return_send now c' p')"

text \<open>\<open>Close\<close> empties the pool.\<close>

fun close_all :: "int \<Rightarrow> nntp_conn list \<Rightarrow> nntp_provider \<Rightarrow> nntp_provider" where
  "close_all now [] p = p"
| "close_all now (c # cs) p = close_all now cs (discardConn now DiscardError c (p\<lparr>pv_pool := cs\<rparr>))"

definition Close_provider :: "int \<Rightarrow> nntp_provider \<Rightarrow> nntp_provider" where
  "Close_provider now p =
     (if pv_done p then p else logStats now (close_all now (pv_pool p) (p\<lparr>pv_done := True\<rparr>)))"

section \<open>Dialling\<close>

type_synonym server_answers = "string \<Rightarrow> go_error option \<times> event list"

record dial_script =
  dl_error :: "go_error option"
  dl_greeting :: "event list"
  dl_answer :: server_answers
  dl_at :: int

definition authenticate :: "server_config \<Rightarrow> server_answers \<Rightarrow> event list \<Rightarrow> go_error option \<times> event list" where
  "authenticate conf answer es =
     (if sc_username conf = [] then (None, es)
      else (case answer (''AUTHINFO USER '' @ sc_username conf) of
              (Some e, _) \<Rightarrow> (Some e, es)
            | (None, r1) \<Rightarrow>
                (case ReadCodeLine 381 (es @ r1) of
                   (l1, es1) \<Rightarrow>
                     (case cl_err l1 of
                        Some e \<Rightarrow> (Some e, es1)
                      | None \<Rightarrow>
                          (case answer (''AUTHINFO PASS '' @ sc_password conf) of
                             (Some e, _) \<Rightarrow> (Some e, es1)
                           | (None, r2) \<Rightarrow>
                               (case ReadCodeLine 281 (es1 @ r2) of (l2, es2) \<Rightarrow> (cl_err l2, es2)))))))"

definition failed_text :: "string \<Rightarrow> code_line \<Rightarrow> go_error" where
  "failed_text what l =
     text_error (what @ '' failed (code '' @ itoa (cl_code l) @ ''): '' @ cl_msg l)"

definition dial_failed :: "dial_script \<Rightarrow> nntp_provider \<Rightarrow> nntp_provider" where
  "dial_failed d p = maybeLogStats (dl_at d) (stat (\<lambda>s. s\<lparr>ps_dial_failures := ps_dial_failures s + 1\<rparr>) p)"

definition dial :: "dial_script \<Rightarrow> nntp_provider \<Rightarrow> (go_error + nntp_conn) \<times> nntp_provider" where
  "dial d p =
     (case dl_error d of
        Some e \<Rightarrow> (Inl e, dial_failed d p)
      | None \<Rightarrow>
          (let c = \<lparr>cn_id = pv_next p, cn_created = None, cn_used = None, cn_wire = []\<rparr>;
               p = p\<lparr>pv_next := Suc (pv_next p)\<rparr>; (l, es) = ReadCodeLine 200 (dl_greeting d)
           in if cl_err l \<noteq> None \<and> cl_code l \<noteq> 201
              then (Inl (failed_text ''NNTP greeting'' l), closeConn c (dial_failed d p))
              else (case authenticate (pv_conf p) (dl_answer d) es of
                      (Some e, _) \<Rightarrow> (Inl e, closeConn c (dial_failed d p))
                    | (None, es') \<Rightarrow>
                        (Inr (c\<lparr>cn_created := Some (dl_at d), cn_used := Some (dl_at d), cn_wire := es'\<rparr>),
                         maybeLogStats (dl_at d) (stat (\<lambda>s. s\<lparr>ps_dials := ps_dials s + 1\<rparr>) p)))))"

text \<open>\<open>getConn\<close>: the connections at the head of the pool that have expired are thrown away.\<close>

lemma discardConn_pool [simp]: "pv_pool (discardConn now r c p) = pv_pool p"
  by (simp add: discardConn_def maybeLogStats_def closeConn_def split: option.split)

function get_loop :: "int \<Rightarrow> dial_script \<Rightarrow> nntp_provider \<Rightarrow> (go_error + nntp_conn) \<times> nntp_provider" where
  "get_loop now d p =
     (case pv_pool p of
        [] \<Rightarrow> dial d p
      | c # cs \<Rightarrow>
          (case shouldDiscardConn p c now of
             Some r \<Rightarrow> get_loop now d (discardConn now r c (p\<lparr>pv_pool := cs\<rparr>))
           | None \<Rightarrow> (Inr c, stat (\<lambda>s. s\<lparr>ps_reuses := ps_reuses s + 1\<rparr>) (p\<lparr>pv_pool := cs\<rparr>))))"
  by pat_completeness auto
termination
  by (relation "measure (\<lambda>(now, d, p). length (pv_pool p))") simp_all

declare get_loop.simps [simp del]

definition getConn :: "int \<Rightarrow> dial_script \<Rightarrow> nntp_provider \<Rightarrow> (go_error + nntp_conn) \<times> nntp_provider" where
  "getConn now d p =
     (if pv_done p then (Inl (text_error (''provider '' @ sc_id (pv_conf p) @ '' is closed'')), p)
      else get_loop now d p)"

section \<open>Conversations\<close>

text \<open>\<open>Cmd\<close>: the connection with what the server sends for the command, or the error of writing it.\<close>

definition Cmd :: "server_answers \<Rightarrow> nntp_provider \<Rightarrow> string \<Rightarrow> nntp_conn \<Rightarrow> go_error + nntp_conn" where
  "Cmd answer p text c =
     (if cn_id c \<in> set (pv_closed p) then Inl use_of_closed
      else (case answer text of
              (Some e, _) \<Rightarrow> Inl e
            | (None, reply) \<Rightarrow> Inr (c\<lparr>cn_wire := cn_wire c @ reply\<rparr>)))"

definition read_reply :: "int \<Rightarrow> nntp_conn \<Rightarrow> code_line \<times> nntp_conn" where
  "read_reply expect c =
     (case ReadCodeLine expect (cn_wire c) of (l, es) \<Rightarrow> (l, c\<lparr>cn_wire := es\<rparr>))"

text \<open>An attempt ends with its value, or with an error and whether a second attempt is worth it.\<close>

type_synonym 'a attempt = "(go_error \<times> bool) + 'a"

definition give_up :: "go_error \<Rightarrow> nntp_conn \<Rightarrow> nntp_provider \<Rightarrow> 'a attempt \<times> nntp_provider" where
  "give_up e c p = (Inl (e, isRecoverableConnError (Some e)), closeConn c p)"

definition selectGroup :: "server_answers \<Rightarrow> nntp_provider \<Rightarrow> string \<Rightarrow> nntp_conn \<Rightarrow> (go_error + group_stats) \<times> nntp_conn" where
  "selectGroup answer p grp c =
     (case Cmd answer p (''GROUP '' @ grp) c of
        Inl e \<Rightarrow> (Inl e, c)
      | Inr c' \<Rightarrow>
          (case read_reply 211 c' of
             (l, c'') \<Rightarrow>
               (if cl_err l \<noteq> None then (Inl (failed_text (''GROUP '' @ grp) l), c'')
                else (parse_group_reply grp (cl_msg l), c''))))"

definition groupStatsWithConn ::
  "server_answers \<Rightarrow> int \<Rightarrow> string \<Rightarrow> nntp_conn \<Rightarrow> nntp_provider \<Rightarrow> group_stats attempt \<times> nntp_provider" where
  "groupStatsWithConn answer now grp c p =
     (case selectGroup answer p grp c of
        (Inl e, c') \<Rightarrow> give_up e c' p
      | (Inr gs, c') \<Rightarrow> (Inr gs, returnConn now c' p))"

text \<open>The error is judged by the error of the connection, the text reported is another.\<close>

definition give_up_with ::
  "go_error \<Rightarrow> go_error option \<Rightarrow> nntp_conn \<Rightarrow> nntp_provider \<Rightarrow> 'a attempt \<times> nntp_provider" where
  "give_up_with e cause c p = (Inl (e, isRecoverableConnError cause), closeConn c p)"

text \<open>The rest of a body, read without a deadline by a \<open>bufio.Scanner\<close>: its lines, its error, and the
  connection.\<close>

definition token_too_long :: go_error where "token_too_long = text_error ''bufio.Scanner: token too long''"

definition scan_body :: "nntp_conn \<Rightarrow> string list \<times> go_error option \<times> nntp_conn" where
  "scan_body c =
     (let r = drain False BeginLine (cn_wire c); (ls, long) = scan_lines (dr_bytes r)
      in (ls,
          if long then Some token_too_long
          else if dr_err r = Some io_eof then None else dr_err r,
          c\<lparr>cn_wire := dr_left r\<rparr>))"

definition listGroupsWithConn ::
  "server_answers \<Rightarrow> int \<Rightarrow> string \<Rightarrow> nntp_conn \<Rightarrow> nntp_provider \<Rightarrow> group_listing list attempt \<times> nntp_provider" where
  "listGroupsWithConn answer now pat c p =
     (case Cmd answer p (''LIST ACTIVE'' @ (if pat \<noteq> [] then '' '' @ pat else [])) c of
        Inl e \<Rightarrow> give_up e c p
      | Inr c' \<Rightarrow>
          (case read_reply 215 c' of
             (l, c'') \<Rightarrow>
               (if cl_err l \<noteq> None then give_up_with (failed_text ''LIST ACTIVE'' l) (cl_err l) c'' p
                else (case scan_body c'' of
                        (ls, Some e, c3) \<Rightarrow> give_up_with (wrapped ''read LIST ACTIVE stream'' e) (Some e) c3 p
                      | (ls, None, c3) \<Rightarrow> (Inr (List.map_filter parseListActiveLine ls), returnConn now c3 p)))))"

text \<open>\<open>ctx i\<close> is the error of the context when the \<open>i\<close>-th line has been read.\<close>

definition first_cancel :: "(nat \<Rightarrow> go_error option) \<Rightarrow> nat \<Rightarrow> go_error option" where
  "first_cancel ctx n = (case filter (\<lambda>i. ctx i \<noteq> None) [0..<n] of [] \<Rightarrow> None | i # is \<Rightarrow> ctx i)"

definition xoverWithConn ::
  "(string \<Rightarrow> string \<Rightarrow> int option) \<Rightarrow> (nat \<Rightarrow> go_error option) \<Rightarrow> server_answers \<Rightarrow> int \<Rightarrow> string \<Rightarrow> int \<Rightarrow> int \<Rightarrow>
   nntp_conn \<Rightarrow> nntp_provider \<Rightarrow> overview_header list attempt \<times> nntp_provider" where
  "xoverWithConn tp ctx answer now grp lo hi c p =
     (case selectGroup answer p grp c of
        (Inl e, c1) \<Rightarrow> give_up e c1 p
      | (Inr gs, c1) \<Rightarrow>
          (case Cmd answer p (''XOVER '' @ itoa lo @ ''-'' @ itoa hi) c1 of
             Inl e \<Rightarrow> give_up e c1 p
           | Inr c2 \<Rightarrow>
               (case read_reply 224 c2 of
                  (l, c3) \<Rightarrow>
                    (if cl_err l \<noteq> None then give_up_with (failed_text ''XOVER'' l) (cl_err l) c3 p
                     else (case scan_body c3 of
                             (ls, err, c4) \<Rightarrow>
                               (case first_cancel ctx (length ls) of
                                  Some e \<Rightarrow> (Inl (e, False), closeConn c4 p)
                                | None \<Rightarrow>
                                    (case err of
                                       Some e \<Rightarrow> give_up_with (wrapped ''read XOVER stream'' e) (Some e) c4 p
                                     | None \<Rightarrow>
                                         (Inr (List.map_filter (parseOverviewLine tp) ls), returnConn now c4 p))))))))"

text \<open>An article being read: its reader with the connection it came from.\<close>

record article_reader =
  ar_conn :: nntp_conn
  ar_reader :: pooled_reader

definition open_article :: "go_error option \<Rightarrow> nntp_conn \<Rightarrow> article_reader" where
  "open_article ctx c =
     \<lparr>ar_conn = c, ar_reader = \<lparr>pr_dot = BeginLine, pr_wire = cn_wire c, pr_ctx = ctx, pr_closed = False\<rparr>\<rparr>"

definition fetchWithConn ::
  "go_error option \<Rightarrow> server_answers \<Rightarrow> int \<Rightarrow> string \<Rightarrow> string list \<Rightarrow> nntp_conn \<Rightarrow> nntp_provider \<Rightarrow>
   article_reader attempt \<times> nntp_provider" where
  "fetchWithConn ctx answer now msgid groups c p =
     (case (case groups of
              [] \<Rightarrow> (None, c)
            | g # gs \<Rightarrow>
                (case Cmd answer p (''GROUP '' @ g) c of
                   Inl e \<Rightarrow> (Some e, c)
                 | Inr c1 \<Rightarrow> (case read_reply 211 c1 of (l, c2) \<Rightarrow> (cl_err l, c2)))) of
        (Some e, c2) \<Rightarrow> give_up e c2 p
      | (None, c2) \<Rightarrow>
          (case Cmd answer p (''BODY '' @ msgid) c2 of
             Inl e \<Rightarrow> give_up e c2 p
           | Inr c3 \<Rightarrow>
               (case read_reply 222 c3 of
                  (l, c4) \<Rightarrow>
                    (case cl_err l of
                       None \<Rightarrow> (Inr (open_article ctx c4), p)
                     | Some e \<Rightarrow>
                         (if cl_code l = 430 \<or> contains_str ''no such article'' (to_lower (cl_msg l))
                          then (Inl (ErrArticleNotFound, False), returnConn now c4 p)
                          else if isRecoverableConnError (Some e) then (Inl (e, True), closeConn c4 p)
                          else (Inl (text_error (''NNTP error '' @ itoa (cl_code l) @ '': '' @ cl_msg l), False),
                                closeConn c4 p))))))"

text \<open>What becomes of the reader: \<open>Close\<close> (only \<open>k\<close> buffered events can be read from a closed
  connection) and \<open>Discard\<close>.\<close>

definition close_article :: "int \<Rightarrow> nat \<Rightarrow> article_reader \<Rightarrow> nntp_provider \<Rightarrow> nntp_provider" where
  "close_article now k ar p =
     (case pooled_Close k (ar_reader ar) of
        Some pr \<Rightarrow> returnConn now ((ar_conn ar)\<lparr>cn_wire := pr_wire pr\<rparr>) p
      | None \<Rightarrow> closeConn (ar_conn ar) p)"

definition discard_article :: "int \<Rightarrow> article_reader \<Rightarrow> nntp_provider \<Rightarrow> nntp_provider" where
  "discard_article now ar p = discardConn now DiscardError (ar_conn ar) p"

text \<open>\<open>Read\<close> of an article; when the context has ended the reader closes the connection.\<close>

definition read_article ::
  "nat \<Rightarrow> article_reader \<Rightarrow> nntp_provider \<Rightarrow> string \<times> go_error option \<times> article_reader \<times> nntp_provider" where
  "read_article n ar p =
     (case pooled_Read n (ar_reader ar) of
        (out, err, pr) \<Rightarrow>
          (out, err, ar\<lparr>ar_reader := pr\<rparr>, if pr_closed pr then closeConn (ar_conn ar) p else p))"

definition fetchBodyPrefixWithConn ::
  "(nat \<Rightarrow> nat) \<Rightarrow> go_error option \<Rightarrow> server_answers \<Rightarrow> int \<Rightarrow> string \<Rightarrow> string list \<Rightarrow> int \<Rightarrow> nntp_conn \<Rightarrow> nntp_provider \<Rightarrow>
   string attempt \<times> nntp_provider" where
  "fetchBodyPrefixWithConn sz ctx answer now msgid groups maxBytes c p =
     (case fetchWithConn ctx answer now msgid groups c p of
        (Inl er, p') \<Rightarrow> (Inl er, p')
      | (Inr ar, p') \<Rightarrow>
          (case read_stream sz 0 (ar_reader ar) of
             (content, err, pr) \<Rightarrow>
               (case readBodyPrefixUntilYBegin content err maxBytes of
                  (data, Some e) \<Rightarrow> (Inl (e, isRecoverableConnError (Some e)), discard_article now ar p')
                | (data, None) \<Rightarrow> (Inr data, discard_article now ar p'))))"

section \<open>Two attempts\<close>

definition logRecoverableRetry :: "int \<Rightarrow> nntp_provider \<Rightarrow> nntp_provider" where
  "logRecoverableRetry now p = maybeLogStats now (stat (\<lambda>s. s\<lparr>ps_recoverable := ps_recoverable s + 1\<rparr>) p)"

text \<open>The loop all operations share: \<open>left\<close> attempts are left, \<open>i\<close> is the number of this one.
  \<open>now i\<close> and \<open>dials i\<close> are the time and what dialling does in it, \<open>work i\<close> the conversation, \<open>count\<close> the counter of the
  operation.\<close>

primrec attempts ::
  "nat \<Rightarrow> nat \<Rightarrow> (nat \<Rightarrow> int) \<Rightarrow> (nat \<Rightarrow> dial_script) \<Rightarrow>
   (nat \<Rightarrow> nntp_conn \<Rightarrow> nntp_provider \<Rightarrow> 'a attempt \<times> nntp_provider) \<Rightarrow>
   (provider_stats \<Rightarrow> provider_stats) \<Rightarrow> go_error \<Rightarrow> nntp_provider \<Rightarrow> (go_error + 'a) \<times> nntp_provider" where
  "attempts 0 i now dials work count lastErr p = (Inl lastErr, p)"
| "attempts (Suc left) i now dials work count lastErr p =
     (case getConn (now i) (dials i) p of
        (Inl e, p1) \<Rightarrow> (Inl e, p1)
      | (Inr c, p1) \<Rightarrow>
          (case work i c p1 of
             (Inr x, p2) \<Rightarrow> (Inr x, p2)
           | (Inl (e, retry), p2) \<Rightarrow>
               (if retry \<and> i = 0
                then attempts left (Suc i) now dials work count e (logRecoverableRetry (now i) (stat count p2))
                else (Inl e, p2))))"

definition formatted_id :: "string \<Rightarrow> string" where
  "formatted_id msgid =
     (let t = trim_space msgid in if is_prefix ''<'' t then t else ''<'' @ t @ ''>'')"

text \<open>What surrounds a call: the times, the dials and the answers of its attempts.\<close>

record surroundings =
  su_now :: "nat \<Rightarrow> int"
  su_dial :: "nat \<Rightarrow> dial_script"
  su_answer :: "nat \<Rightarrow> server_answers"

definition no_error :: go_error where "no_error = text_error []"

definition provider_Fetch ::
  "surroundings \<Rightarrow> go_error option \<Rightarrow> string \<Rightarrow> string list \<Rightarrow> nntp_provider \<Rightarrow>
   (go_error + article_reader) \<times> nntp_provider" where
  "provider_Fetch su ctx msgid groups p =
     attempts 2 0 (su_now su) (su_dial su)
       (\<lambda>i c p. fetchWithConn ctx (su_answer su i) (su_now su i) (formatted_id msgid) groups c p)
       (\<lambda>s. s\<lparr>ps_fetch_retries := ps_fetch_retries s + 1\<rparr>) no_error p"

definition FetchBodyPrefix ::
  "surroundings \<Rightarrow> (nat \<Rightarrow> nat) \<Rightarrow> go_error option \<Rightarrow> string \<Rightarrow> string list \<Rightarrow> int \<Rightarrow> nntp_provider \<Rightarrow>
   (go_error + string) \<times> nntp_provider" where
  "FetchBodyPrefix su sz ctx msgid groups maxBytes p =
     attempts 2 0 (su_now su) (su_dial su)
       (\<lambda>i c p. fetchBodyPrefixWithConn sz ctx (su_answer su i) (su_now su i) (formatted_id msgid) groups
          (if maxBytes \<le> 0 then 8192 else maxBytes) c p)
       (\<lambda>s. s\<lparr>ps_fetch_retries := ps_fetch_retries s + 1\<rparr>) no_error p"

definition GroupStats ::
  "surroundings \<Rightarrow> go_error option \<Rightarrow> string \<Rightarrow> nntp_provider \<Rightarrow> (go_error + group_stats) \<times> nntp_provider" where
  "GroupStats su ctx grp p =
     (case ctx of
        Some e \<Rightarrow> (Inl e, p)
      | None \<Rightarrow>
          (let g = trim_space grp
           in if g = [] then (Inl (text_error ''group is required''), p)
              else attempts 2 0 (su_now su) (su_dial su)
                (\<lambda>i c p. groupStatsWithConn (su_answer su i) (su_now su i) g c p)
                (\<lambda>s. s\<lparr>ps_group_retries := ps_group_retries s + 1\<rparr>) no_error p))"

definition ListGroups ::
  "surroundings \<Rightarrow> go_error option \<Rightarrow> string \<Rightarrow> nntp_provider \<Rightarrow> (go_error + group_listing list) \<times> nntp_provider" where
  "ListGroups su ctx pat p =
     (case ctx of
        Some e \<Rightarrow> (Inl e, p)
      | None \<Rightarrow>
          attempts 2 0 (su_now su) (su_dial su)
            (\<lambda>i c p. listGroupsWithConn (su_answer su i) (su_now su i) (trim_space pat) c p)
            (\<lambda>s. s) no_error p)"

definition XOver ::
  "(string \<Rightarrow> string \<Rightarrow> int option) \<Rightarrow> surroundings \<Rightarrow> go_error option \<Rightarrow> (nat \<Rightarrow> go_error option) \<Rightarrow> string \<Rightarrow>
   int \<Rightarrow> int \<Rightarrow> nntp_provider \<Rightarrow> (go_error + overview_header list) \<times> nntp_provider" where
  "XOver tp su ctx later grp lo hi p =
     (case ctx of
        Some e \<Rightarrow> (Inl e, p)
      | None \<Rightarrow>
          (if lo \<le> 0 \<or> hi \<le> 0 \<or> hi < lo
           then (Inl (text_error (''invalid xover range '' @ itoa lo @ ''-'' @ itoa hi)), p)
           else attempts 2 0 (su_now su) (su_dial su)
             (\<lambda>i c p. xoverWithConn tp later (su_answer su i) (su_now su i) grp lo hi c p)
             (\<lambda>s. s\<lparr>ps_xover_retries := ps_xover_retries s + 1\<rparr>) no_error p))"

text \<open>\<open>TestConnection\<close>: the connection is closed in the end.\<close>

definition TestConnection :: "dial_script \<Rightarrow> server_answers \<Rightarrow> nntp_provider \<Rightarrow> go_error option \<times> nntp_provider" where
  "TestConnection d answer p =
     (case dial d p of
        (Inl e, p') \<Rightarrow> (Some e, p')
      | (Inr c, p') \<Rightarrow>
          (case Cmd answer p' ''DATE'' c of
             Inl e \<Rightarrow> (Some (wrapped ''DATE command failed'' e), closeConn c p')
           | Inr c' \<Rightarrow>
               (case read_reply 111 c' of
                  (l, c'') \<Rightarrow>
                    (if cl_err l \<noteq> None
                     then Some (text_error (''auth check failed (code '' @ itoa (cl_code l) @ ''): '' @ cl_msg l))
                     else None, closeConn c'' p'))))"

end
