(* ===== verification/Nntp_Conn_Props.thy ===== *)
theory Nntp_Conn_Props
  imports Nntp_Conn
begin

text \<open>
  What the connections of a provider satisfy: none is lost and none is in two places, those in
  the pool are ready for the next command, articles arrive as they were sent, and where that fails.
\<close>

section \<open>Where the connections are\<close>

abbreviation pool_ids :: "nntp_provider \<Rightarrow> nat list" where "pool_ids p \<equiv> map cn_id (pv_pool p)"

text \<open>\<open>H\<close> are the connections in use by callers, \<open>D\<close> those a reader has closed because its context
  ended. Every connection ever made is in the pool, in use or closed; none is twice in the pool, or in the
  pool and in use; the pool is never larger than \<open>MaxConnection\<close>; and what is in the pool or in use is open,
  but for \<open>D\<close>.\<close>

definition conns_ok :: "nntp_provider \<Rightarrow> nat set \<Rightarrow> nat set \<Rightarrow> bool" where
  "conns_ok p H D \<longleftrightarrow>
     distinct (pool_ids p) \<and> set (pool_ids p) \<inter> H = {} \<and>
     set (pool_ids p) \<union> H \<union> set (pv_closed p) = {..<pv_next p} \<and>
     (set (pool_ids p) \<union> H) \<inter> set (pv_closed p) \<subseteq> D \<and>
     int (length (pv_pool p)) \<le> sc_max (pv_conf p)"

named_theorems conn_fields

lemma maybeLogStats_fields [simp, conn_fields]:
  "pv_pool (maybeLogStats now p) = pv_pool p" "pv_closed (maybeLogStats now p) = pv_closed p"
  "pv_next (maybeLogStats now p) = pv_next p" "pv_conf (maybeLogStats now p) = pv_conf p"
  "pv_done (maybeLogStats now p) = pv_done p" "pv_stats (maybeLogStats now p) = pv_stats p"
  by (simp_all add: maybeLogStats_def split: option.split)

lemma logStats_fields [simp]:
  "pv_pool (logStats now p) = pv_pool p" "pv_closed (logStats now p) = pv_closed p"
  "pv_next (logStats now p) = pv_next p" "pv_conf (logStats now p) = pv_conf p"
  "pv_done (logStats now p) = pv_done p"
  by (simp_all add: logStats_def)

lemma closeConn_fields [simp]:
  "pv_pool (closeConn c p) = pv_pool p" "pv_closed (closeConn c p) = cn_id c # pv_closed p"
  "pv_next (closeConn c p) = pv_next p" "pv_conf (closeConn c p) = pv_conf p"
  "pv_done (closeConn c p) = pv_done p"
  by (simp_all add: closeConn_def)

lemma discardConn_fields [simp]:
  "pv_closed (discardConn now r c p) = cn_id c # pv_closed p" "pv_next (discardConn now r c p) = pv_next p"
  "pv_conf (discardConn now r c p) = pv_conf p" "pv_done (discardConn now r c p) = pv_done p"
  by (simp_all add: discardConn_def)

lemma dial_failed_fields [simp]:
  "pv_pool (dial_failed d p) = pv_pool p" "pv_closed (dial_failed d p) = pv_closed p"
  "pv_next (dial_failed d p) = pv_next p" "pv_conf (dial_failed d p) = pv_conf p"
  "pv_done (dial_failed d p) = pv_done p"
  by (simp_all add: dial_failed_def)

lemma conns_ok_cong:
  "pv_pool q = pv_pool p \<Longrightarrow> pv_closed q = pv_closed p \<Longrightarrow> pv_next q = pv_next p \<Longrightarrow> pv_conf q = pv_conf p \<Longrightarrow>
     conns_ok q H D = conns_ok p H D"
  by (simp add: conns_ok_def)

lemma conns_ok_log [simp]:
  "conns_ok (maybeLogStats now p) H D = conns_ok p H D" "conns_ok (logStats now p) H D = conns_ok p H D"
  "conns_ok (p\<lparr>pv_stats := s\<rparr>) H D = conns_ok p H D" "conns_ok (p\<lparr>pv_done := b\<rparr>) H D = conns_ok p H D"
  "conns_ok (dial_failed d p) H D = conns_ok p H D"
  by (simp_all add: conns_ok_def)

text \<open>Closing a connection in use, or giving it back, ends its use.\<close>

lemma closeConn_ok: "conns_ok p H D \<Longrightarrow> cn_id c \<in> H \<Longrightarrow> conns_ok (closeConn c p) (H - {cn_id c}) D"
  by (auto simp: conns_ok_def)

lemma discardConn_ok: "conns_ok p H D \<Longrightarrow> cn_id c \<in> H \<Longrightarrow> conns_ok (discardConn now r c p) (H - {cn_id c}) D"
  unfolding discardConn_def by (simp add: closeConn_ok)

lemma return_send_ok:
  assumes "conns_ok p H D" "cn_id c \<in> H"
  shows "conns_ok (return_send now c p) (H - {cn_id c}) D"
proof (cases "int (length (pv_pool p)) < sc_max (pv_conf p)")
  case True
  with assms show ?thesis by (auto simp: return_send_def conns_ok_def)
next
  case False
  with discardConn_ok [OF assms] show ?thesis by (simp add: return_send_def)
qed

lemma return_check_ok:
  assumes "conns_ok p H D" "cn_id c \<in> H" "return_check now c p = (r, p')"
  shows "case r of None \<Rightarrow> conns_ok p' (H - {cn_id c}) D | Some c' \<Rightarrow> cn_id c' = cn_id c \<and> p' = p"
  using assms(3) discardConn_ok [OF assms(1), of "c\<lparr>cn_used := Some now\<rparr>" now]
    closeConn_ok [OF assms(1), of "c\<lparr>cn_used := Some now\<rparr>"] assms(2)
  by (auto simp: return_check_def Let_def split: option.splits if_splits)

lemma returnConn_ok:
  assumes "conns_ok p H D" "cn_id c \<in> H"
  shows "conns_ok (returnConn now c p) (H - {cn_id c}) D"
proof (cases "return_check now c p")
  case (Pair r p')
  note checked = return_check_ok [OF assms Pair]
  show ?thesis
  proof (cases r)
    case None
    with checked Pair show ?thesis by (simp add: returnConn_def)
  next
    case (Some c')
    with checked assms(2) return_send_ok [OF assms(1), of c' now] Pair show ?thesis
      by (simp add: returnConn_def)
  qed
qed

text \<open>Dialling and taking from the pool.\<close>

definition got :: "(go_error + nntp_conn) \<times> nntp_provider \<Rightarrow> nat set \<Rightarrow> nat set \<Rightarrow> bool" where
  "got r H D \<longleftrightarrow>
     (case r of
        (Inl e, p) \<Rightarrow> conns_ok p H D
      | (Inr c, p) \<Rightarrow> cn_id c \<notin> H \<and> conns_ok p (insert (cn_id c) H) D)"

lemma conns_below: "conns_ok p H D \<Longrightarrow> i \<in> H \<Longrightarrow> i < pv_next p"
  unfolding conns_ok_def by blast

lemma next_ok: "conns_ok p H D \<Longrightarrow> conns_ok (p\<lparr>pv_next := Suc (pv_next p)\<rparr>) (insert (pv_next p) H) D"
  by (auto simp: conns_ok_def)

lemma dial_ok:
  assumes "conns_ok p H D"
  shows "got (dial d p) H D"
proof (cases "dl_error d")
  case (Some e)
  with assms show ?thesis by (simp add: dial_def got_def)
next
  case None
  let ?p = "p\<lparr>pv_next := Suc (pv_next p)\<rparr>"
  have fresh: "pv_next p \<notin> H" using conns_below [OF assms] by blast
  have n: "conns_ok ?p (insert (pv_next p) H) D" using assms by (rule next_ok)
  have c: "conns_ok (closeConn c (dial_failed d ?p)) H D" if "cn_id c = pv_next p" for c
    using closeConn_ok [of "dial_failed d ?p" "insert (pv_next p) H" D c] n that fresh by simp
  show ?thesis
    using None n fresh c
    by (auto simp: dial_def got_def Let_def split: prod.split option.split)
qed

lemma get_loop_ok: "conns_ok p H D \<Longrightarrow> got (get_loop now d p) H D"
proof (induction now d p rule: get_loop.induct)
  case (1 now d p)
  show ?case
  proof (cases "pv_pool p")
    case Nil
    with 1 dial_ok show ?thesis by (simp add: get_loop.simps [of now d p])
  next
    case (Cons c cs)
    have p: "conns_ok (p\<lparr>pv_pool := cs\<rparr>) (insert (cn_id c) H) D" and new: "cn_id c \<notin> H"
      using 1(2) Cons by (auto simp: conns_ok_def)
    show ?thesis
    proof (cases "shouldDiscardConn p c now")
      case None
      with p new Cons show ?thesis by (simp add: get_loop.simps [of now d p] got_def)
    next
      case (Some r)
      have "conns_ok (discardConn now r c (p\<lparr>pv_pool := cs\<rparr>)) (insert (cn_id c) H - {cn_id c}) D"
        by (rule discardConn_ok [OF p]) simp
      then have "conns_ok (discardConn now r c (p\<lparr>pv_pool := cs\<rparr>)) H D" using new by simp
      from 1(1) [OF Cons Some this] Cons Some show ?thesis by (simp add: get_loop.simps [of now d p])
    qed
  qed
qed

lemma getConn_ok: "conns_ok p H D \<Longrightarrow> got (getConn now d p) H D"
  by (simp add: getConn_def get_loop_ok) (simp add: got_def)

text \<open>Closing the provider closes all that is in the pool.\<close>

lemma close_all_ok:
  "conns_ok p H D \<Longrightarrow> pv_pool p = cs \<Longrightarrow> conns_ok (close_all now cs p) H D \<and> pv_pool (close_all now cs p) = []"
proof (induction cs arbitrary: p)
  case (Cons c cs)
  have p: "conns_ok (p\<lparr>pv_pool := cs\<rparr>) (insert (cn_id c) H) D" and new: "cn_id c \<notin> H"
    using Cons.prems by (auto simp: conns_ok_def)
  have "conns_ok (discardConn now DiscardError c (p\<lparr>pv_pool := cs\<rparr>)) H D"
    using discardConn_ok [OF p, of c] new by simp
  from Cons.IH [OF this] show ?case by simp
qed simp

lemma Close_provider_ok: "conns_ok p H D \<Longrightarrow> conns_ok (Close_provider now p) H D"
  using close_all_ok [of "p\<lparr>pv_done := True\<rparr>" H D "pv_pool p" now]
  by (simp add: Close_provider_def)

section \<open>Conversations\<close>

text \<open>What every conversation on a connection in use promises: when it fails the connection is no longer in
  use, when it succeeds only the result still uses it, and a failure that asks for a second attempt has closed it.
  The loop of two attempts relies on this alone.\<close>

locale conversation =
  fixes work :: "nat \<Rightarrow> nntp_conn \<Rightarrow> nntp_provider \<Rightarrow> 'a attempt \<times> nntp_provider"
    and owns :: "'a \<Rightarrow> nat set"
  assumes failed: "conns_ok p H D \<Longrightarrow> cn_id c \<in> H \<Longrightarrow> work i c p = (Inl er, p') \<Longrightarrow>
      conns_ok p' (H - {cn_id c}) D"
    and succeeded: "conns_ok p H D \<Longrightarrow> cn_id c \<in> H \<Longrightarrow> work i c p = (Inr x, p') \<Longrightarrow>
      owns x \<subseteq> {cn_id c} \<and> conns_ok p' (H - {cn_id c} \<union> owns x) D"
    and retry_closed: "work i c p = (Inl (e, True), p') \<Longrightarrow> cn_id c \<in> set (pv_closed p')"
begin

lemma attempts_ok:
  assumes "conns_ok p H D" "attempts n i now dials work count lastErr p = (r, p')"
  shows "case r of Inl e \<Rightarrow> conns_ok p' H D | Inr x \<Rightarrow> owns x \<inter> H = {} \<and> conns_ok p' (H \<union> owns x) D"
  using assms
proof (induction n arbitrary: i lastErr p)
  case (Suc n)
  obtain g p1 where g: "getConn (now i) (dials i) p = (g, p1)" by (cases "getConn (now i) (dials i) p")
  have got: "got (g, p1) H D" using getConn_ok [OF Suc.prems(1), of "now i" "dials i"] g by simp
  show ?case
  proof (cases g)
    case (Inl e)
    with Suc.prems(2) g got show ?thesis by (auto simp: got_def)
  next
    case (Inr c)
    then have c: "cn_id c \<notin> H" "conns_ok p1 (insert (cn_id c) H) D" using got by (simp_all add: got_def)
    obtain w p2 where w: "work i c p1 = (w, p2)" by (cases "work i c p1")
    show ?thesis
    proof (cases w)
      case (Inr x)
      with succeeded [OF c(2) _ w [unfolded Inr]] c(1) have "owns x \<subseteq> {cn_id c}" "conns_ok p2 (H \<union> owns x) D"
        by simp_all
      moreover have "r = Inr x" "p' = p2" using Suc.prems(2) g \<open>g = Inr c\<close> w Inr by simp_all
      ultimately show ?thesis using c(1) by auto
    next
      case (Inl er)
      obtain e retry where er: "er = (e, retry)" by (cases er)
      have p2: "conns_ok p2 H D" using failed [OF c(2) _ w [unfolded Inl]] c(1) by simp
      show ?thesis
      proof (cases "retry \<and> i = 0")
        case True
        have "conns_ok (logRecoverableRetry (now i) (stat count p2)) H D"
          using p2 by (simp add: logRecoverableRetry_def)
        from Suc.IH [OF this] show ?thesis
          using Suc.prems(2) g \<open>g = Inr c\<close> w Inl er True by simp
      next
        case False
        then have "r = Inl e" "p' = p2" using Suc.prems(2) g \<open>g = Inr c\<close> w Inl er by auto
        with p2 show ?thesis by simp
      qed
    qed
  qed
qed auto

text \<open>An error of an operation is an error of taking a connection or of one of its conversations.\<close>

lemma error_origin:
  assumes "attempts (Suc n) i now dials work count lastErr p = (Inl e, p')"
  shows "(\<exists>j q q'. getConn (now j) (dials j) q = (Inl e, q')) \<or>
    (\<exists>j c q q' b. work j c q = (Inl (e, b), q')) \<or> (n = 0 \<and> i = 0)"
  using assms
proof (induction n arbitrary: i lastErr p)
  case 0
  then show ?case by (fastforce split: prod.splits sum.splits if_splits)
next
  case (Suc n)
  obtain g p1 where g: "getConn (now i) (dials i) p = (g, p1)" by (cases "getConn (now i) (dials i) p")
  show ?case
  proof (cases g)
    case (Inl d)
    with Suc.prems g show ?thesis by auto
  next
    case (Inr c)
    obtain w p2 where w: "work i c p1 = (w, p2)" by (cases "work i c p1")
    show ?thesis
    proof (cases w)
      case (Inr x)
      with Suc.prems g \<open>g = Inr c\<close> w show ?thesis by simp
    next
      case (Inl er)
      obtain d retry where er: "er = (d, retry)" by (cases er)
      show ?thesis
      proof (cases "retry \<and> i = 0")
        case True
        with Suc.prems g \<open>g = Inr c\<close> w Inl er have
          "attempts (Suc n) (Suc i) now dials work count d (logRecoverableRetry (now i) (stat count p2)) = (Inl e, p')"
          by simp
        from Suc.IH [OF this] show ?thesis by auto
      next
        case False
        with Suc.prems g \<open>g = Inr c\<close> w Inl er have "d = e" by auto
        with w Inl er show ?thesis by auto
      qed
    qed
  qed
qed

end

lemma give_up_ok:
  "conns_ok p H D \<Longrightarrow> cn_id c \<in> H \<Longrightarrow> conns_ok (snd (give_up e c p)) (H - {cn_id c}) D"
  "conns_ok p H D \<Longrightarrow> cn_id c \<in> H \<Longrightarrow> conns_ok (snd (give_up_with e k c p)) (H - {cn_id c}) D"
  by (simp_all add: give_up_def give_up_with_def closeConn_ok)

lemma Cmd_id: "Cmd answer p t c = Inr c' \<Longrightarrow> cn_id c' = cn_id c"
  by (auto simp: Cmd_def split: if_splits option.splits prod.splits)

lemma read_reply_id: "read_reply n c = (l, c') \<Longrightarrow> cn_id c' = cn_id c"
  by (auto simp: read_reply_def split: prod.splits)

lemma scan_body_id: "scan_body c = (ls, e, c') \<Longrightarrow> cn_id c' = cn_id c"
  by (auto simp: scan_body_def Let_def split: prod.splits)

lemma selectGroup_id: "selectGroup answer p g c = (r, c') \<Longrightarrow> cn_id c' = cn_id c"
  by (auto simp: selectGroup_def Cmd_id dest: Cmd_id read_reply_id split: sum.splits prod.splits if_splits)

lemmas same_conn = Cmd_id read_reply_id scan_body_id selectGroup_id

lemma given_back:
  "conns_ok p H D \<Longrightarrow> cn_id c \<in> H \<Longrightarrow> cn_id d = cn_id c \<Longrightarrow> conns_ok (closeConn d p) (H - {cn_id c}) D"
  "conns_ok p H D \<Longrightarrow> cn_id c \<in> H \<Longrightarrow> cn_id d = cn_id c \<Longrightarrow> conns_ok (returnConn now d p) (H - {cn_id c}) D"
  "conns_ok p H D \<Longrightarrow> cn_id c \<in> H \<Longrightarrow> cn_id d = cn_id c \<Longrightarrow> conns_ok (discardConn now r d p) (H - {cn_id c}) D"
  using closeConn_ok [of p H D d] returnConn_ok [of p H D d] discardConn_ok [of p H D d] by simp_all

lemmas conversation_parts = give_up_def give_up_with_def given_back

lemma open_article_conn [simp]: "ar_conn (open_article ctx c) = c"
  by (simp add: open_article_def)

text \<open>An article being read uses its connection; every other conversation ends its use.\<close>

abbreviation article_owns :: "article_reader \<Rightarrow> nat set" where
  "article_owns ar \<equiv> {cn_id (ar_conn ar)}"

interpretation group_call: conversation
  "\<lambda>i c p. groupStatsWithConn (answer i) (now i) g c p" "\<lambda>x. {}" for answer now g
  by unfold_locales
     (auto simp: groupStatsWithConn_def conversation_parts dest!: same_conn split: prod.splits sum.splits)

interpretation list_call: conversation
  "\<lambda>i c p. listGroupsWithConn (answer i) (now i) pat c p" "\<lambda>x. {}" for answer now pat
  by unfold_locales
     (auto simp: listGroupsWithConn_def conversation_parts dest!: same_conn
       split: prod.splits sum.splits option.splits if_splits)

interpretation xover_call: conversation
  "\<lambda>i c p. xoverWithConn tp ctx (answer i) (now i) g lo hi c p" "\<lambda>x. {}" for tp ctx answer now g lo hi
  by unfold_locales
     (auto simp: xoverWithConn_def conversation_parts dest!: same_conn
       split: prod.splits sum.splits option.splits if_splits)

lemma fetchWithConn_id: "fetchWithConn ctx answer now msgid groups c p = (Inr ar, p') \<Longrightarrow>
    cn_id (ar_conn ar) = cn_id c \<and> p' = p"
  by (auto simp: fetchWithConn_def give_up_def dest!: same_conn
       split: prod.splits sum.splits option.splits if_splits list.splits)

lemma fetchWithConn_failed: "fetchWithConn ctx answer now msgid groups c p = (Inl (e, b), p') \<Longrightarrow>
    \<exists>d. cn_id d = cn_id c \<and> (p' = closeConn d p \<or> (\<not> b \<and> p' = returnConn now d p))"
  by (auto simp: fetchWithConn_def give_up_def dest!: same_conn
       split: prod.splits sum.splits option.splits if_splits list.splits)

interpretation fetch_call: conversation
  "\<lambda>i c p. fetchWithConn ctx (answer i) (now i) msgid groups c p" article_owns for ctx answer now msgid groups
proof (unfold_locales, goal_cases)
  case (1 p H D c i er p')
  then show ?case by (cases er) (auto dest!: fetchWithConn_failed simp: given_back)
next
  case (2 p H D c i x p')
  then show ?case by (auto dest!: fetchWithConn_id simp: insert_absorb)
next
  case (3 i c p e p')
  then show ?case by (auto dest!: fetchWithConn_failed)
qed

interpretation prefix_call: conversation
  "\<lambda>i c p. fetchBodyPrefixWithConn sz ctx (answer i) (now i) msgid groups m c p" "\<lambda>x. {}"
  for sz ctx answer now msgid groups m
proof (unfold_locales, goal_cases)
  case (1 p H D c i er p')
  then show ?case
    by (cases er) (auto simp: fetchBodyPrefixWithConn_def discard_article_def given_back
        dest!: fetchWithConn_failed fetchWithConn_id split: prod.splits sum.splits option.splits)
next
  case (2 p H D c i x p')
  then show ?case
    by (auto simp: fetchBodyPrefixWithConn_def discard_article_def given_back
        dest!: fetchWithConn_id split: prod.splits sum.splits option.splits)
next
  case (3 i c p e p')
  then show ?case
    by (auto simp: fetchBodyPrefixWithConn_def discard_article_def
        dest!: fetchWithConn_failed fetchWithConn_id split: prod.splits sum.splits option.splits)
qed

section \<open>Any number of callers\<close>

text \<open>The steps of all callers of a provider, in any order: taking a connection, a conversation on a connection
  in use, reading an article, closing or discarding its reader, the two parts of giving a connection back,
  and the closing of the provider.\<close>

inductive conn_step ::
  "nntp_provider \<times> nat set \<times> nat set \<Rightarrow> nntp_provider \<times> nat set \<times> nat set \<Rightarrow> bool" where
  take_conn: "getConn now d p = (Inr c, p') \<Longrightarrow> conn_step (p, H, D) (p', insert (cn_id c) H, D)"
| take_fails: "getConn now d p = (Inl e, p') \<Longrightarrow> conn_step (p, H, D) (p', H, D)"
| talk_group: "cn_id c \<in> H \<Longrightarrow> groupStatsWithConn answer now g c p = (r, p') \<Longrightarrow>
    conn_step (p, H, D) (p', H - {cn_id c}, D)"
| talk_list: "cn_id c \<in> H \<Longrightarrow> listGroupsWithConn answer now pat c p = (r', p') \<Longrightarrow>
    conn_step (p, H, D) (p', H - {cn_id c}, D)"
| talk_xover: "cn_id c \<in> H \<Longrightarrow> xoverWithConn tp ctx answer now g lo hi c p = (r'', p') \<Longrightarrow>
    conn_step (p, H, D) (p', H - {cn_id c}, D)"
| talk_prefix: "cn_id c \<in> H \<Longrightarrow> fetchBodyPrefixWithConn sz cx answer now i gs m c p = (r3, p') \<Longrightarrow>
    conn_step (p, H, D) (p', H - {cn_id c}, D)"
| fetch_fails: "cn_id c \<in> H \<Longrightarrow> fetchWithConn cx answer now i gs c p = (Inl er, p') \<Longrightarrow>
    conn_step (p, H, D) (p', H - {cn_id c}, D)"
| fetch_opens: "cn_id c \<in> H \<Longrightarrow> fetchWithConn cx answer now i gs c p = (Inr ar, p') \<Longrightarrow>
    conn_step (p, H, D) (p', H, D)"
| read_more: "cn_id (ar_conn ar) \<in> H \<Longrightarrow> read_article n ar p = (out, err, ar', p') \<Longrightarrow>
    conn_step (p, H, D) (p', H, if pr_closed (ar_reader ar') then insert (cn_id (ar_conn ar)) D else D)"
| close_reader: "cn_id (ar_conn ar) \<in> H \<Longrightarrow>
    conn_step (p, H, D) (close_article now k ar p, H - {cn_id (ar_conn ar)}, D)"
| discard_reader: "cn_id (ar_conn ar) \<in> H \<Longrightarrow>
    conn_step (p, H, D) (discard_article now ar p, H - {cn_id (ar_conn ar)}, D)"
| check_stops: "cn_id c \<in> H \<Longrightarrow> return_check now c p = (None, p') \<Longrightarrow>
    conn_step (p, H, D) (p', H - {cn_id c}, D)"
| send_back: "cn_id c \<in> H \<Longrightarrow> conn_step (p, H, D) (return_send now c p, H - {cn_id c}, D)"
| close_provider: "conn_step (p, H, D) (Close_provider now p, H, D)"

inductive conn_reachable ::
  "server_config \<Rightarrow> bool \<Rightarrow> nntp_provider \<Rightarrow> nat set \<Rightarrow> nat set \<Rightarrow> bool" for conf log where
  new: "NewNNTPProviderWithLogger conf log = Some p \<Longrightarrow> conn_reachable conf log p {} {}"
| more: "conn_reachable conf log p H D \<Longrightarrow> conn_step (p, H, D) (p', H', D') \<Longrightarrow>
    conn_reachable conf log p' H' D'"

lemma read_article_ok:
  assumes "conns_ok p H D" "cn_id (ar_conn ar) \<in> H" "read_article n ar p = (out, err, ar', p')"
  shows "conns_ok p' H (if pr_closed (ar_reader ar') then insert (cn_id (ar_conn ar)) D else D)"
proof -
  have "set (pool_ids p) \<union> H \<union> insert (cn_id (ar_conn ar)) (set (pv_closed p)) = {..<pv_next p}"
    using assms(1,2) unfolding conns_ok_def by blast
  moreover have "(set (pool_ids p) \<union> H) \<inter> insert (cn_id (ar_conn ar)) (set (pv_closed p)) \<subseteq>
      insert (cn_id (ar_conn ar)) D"
    using assms(1) unfolding conns_ok_def by blast
  ultimately have "conns_ok (closeConn (ar_conn ar) p) H (insert (cn_id (ar_conn ar)) D)"
    using assms(1) by (simp add: conns_ok_def)
  with assms(1,3) show ?thesis by (auto simp: read_article_def split: prod.splits if_splits)
qed

lemma close_article_ok:
  "conns_ok p H D \<Longrightarrow> cn_id (ar_conn ar) \<in> H \<Longrightarrow>
     conns_ok (close_article now k ar p) (H - {cn_id (ar_conn ar)}) D"
  by (auto simp: close_article_def given_back split: option.split)

text \<open>The configuration never changes.\<close>

lemma return_conf [simp]:
  "pv_conf (return_send now c p) = pv_conf p" "pv_conf (returnConn now c p) = pv_conf p"
  "pv_conf (close_article now k ar p) = pv_conf p" "pv_conf (discard_article now ar p) = pv_conf p"
  by (auto simp: return_send_def returnConn_def return_check_def Let_def close_article_def discard_article_def
      split: option.splits if_splits)

lemma close_all_conf [simp]: "pv_conf (close_all now cs p) = pv_conf p"
  by (induction now cs p rule: close_all.induct) simp_all

lemma dial_conf: "dial d p = (r, p') \<Longrightarrow> pv_conf p' = pv_conf p"
  by (auto simp: dial_def Let_def split: option.splits prod.splits if_splits)

lemma getConn_conf: "getConn now d p = (r, p') \<Longrightarrow> pv_conf p' = pv_conf p"
proof -
  have "get_loop now d p = (r, p') \<Longrightarrow> pv_conf p' = pv_conf p"
  proof (induction now d p rule: get_loop.induct)
    case (1 now d p)
    then show ?case
      by (auto simp: get_loop.simps [of now d p] dest: dial_conf split: list.splits option.splits)
  qed
  then show "getConn now d p = (r, p') \<Longrightarrow> pv_conf p' = pv_conf p"
    by (auto simp: getConn_def split: if_splits)
qed

lemma talk_conf:
  "groupStatsWithConn answer now g c p = (r, p') \<Longrightarrow> pv_conf p' = pv_conf p"
  "listGroupsWithConn answer now pat c p = (r', p') \<Longrightarrow> pv_conf p' = pv_conf p"
  "xoverWithConn tp ctx answer now g lo hi c p = (r'', p') \<Longrightarrow> pv_conf p' = pv_conf p"
  "fetchWithConn cx answer now i gs c p = (r3, p') \<Longrightarrow> pv_conf p' = pv_conf p"
proof -
  show "groupStatsWithConn answer now g c p = (r, p') \<Longrightarrow> pv_conf p' = pv_conf p"
    by (auto simp: groupStatsWithConn_def give_up_def split: prod.splits sum.splits)
  show "listGroupsWithConn answer now pat c p = (r', p') \<Longrightarrow> pv_conf p' = pv_conf p"
    by (auto simp: listGroupsWithConn_def give_up_def give_up_with_def
        split: prod.splits sum.splits option.splits if_splits)
  show "xoverWithConn tp ctx answer now g lo hi c p = (r'', p') \<Longrightarrow> pv_conf p' = pv_conf p"
    by (auto simp: xoverWithConn_def give_up_def give_up_with_def
        split: prod.splits sum.splits option.splits if_splits)
  show "fetchWithConn cx answer now i gs c p = (r3, p') \<Longrightarrow> pv_conf p' = pv_conf p"
    by (cases r3) (auto dest!: fetchWithConn_failed fetchWithConn_id)
qed

lemma prefix_conf:
  assumes "fetchBodyPrefixWithConn sz cx answer now i gs m c p = (r, p')" shows "pv_conf p' = pv_conf p"
proof (cases "fetchWithConn cx answer now i gs c p")
  case (Pair q p1)
  with talk_conf(4) [OF Pair] assms show ?thesis
    by (auto simp: fetchBodyPrefixWithConn_def split: prod.splits sum.splits option.splits)
qed

lemma conn_step_conf: "conn_step s s' \<Longrightarrow> pv_conf (fst s') = pv_conf (fst s)"
  by (induction rule: conn_step.induct)
     (auto simp: read_article_def return_check_def Let_def Close_provider_def
       dest: getConn_conf talk_conf prefix_conf split: prod.splits option.splits if_splits)

lemma conn_step_ok: "conn_step s s' \<Longrightarrow> (\<forall>p H D. s = (p, H, D) \<longrightarrow> conns_ok p H D) \<Longrightarrow>
    (\<forall>p H D. s' = (p, H, D) \<longrightarrow> conns_ok p H D)"
proof (induction rule: conn_step.induct)
  case (take_conn now d p c p' H D)
  then show ?case using getConn_ok [of p H D now d] by (simp add: got_def)
next
  case (take_fails now d p e p' H D)
  then show ?case using getConn_ok [of p H D now d] by (simp add: got_def)
next
  case (talk_group c H answer now g p r p' D)
  then show ?case
    using group_call.failed [of p H D c "\<lambda>_. answer"] group_call.succeeded [of p H D c "\<lambda>_. answer"]
    by (cases r) auto
next
  case (talk_list c H answer now pat p r' p' D)
  then show ?case
    using list_call.failed [of p H D c "\<lambda>_. answer"] list_call.succeeded [of p H D c "\<lambda>_. answer"]
    by (cases r') auto
next
  case (talk_xover c H tp ctx answer now g lo hi p r'' p' D)
  then show ?case
    using xover_call.failed [of p H D c tp ctx "\<lambda>_. answer"] xover_call.succeeded [of p H D c tp ctx "\<lambda>_. answer"]
    by (cases r'') auto
next
  case (talk_prefix c H sz cx answer now i gs m p r3 p' D)
  then show ?case
    using prefix_call.failed [of p H D c sz cx "\<lambda>_. answer"] prefix_call.succeeded [of p H D c sz cx "\<lambda>_. answer"]
    by (cases r3) auto
next
  case (fetch_fails c H cx answer now i gs p er p' D)
  then show ?case using fetch_call.failed [of p H D c cx "\<lambda>_. answer"] by auto
next
  case (fetch_opens c H cx answer now i gs p ar p' D)
  then show ?case by (auto dest: fetchWithConn_id)
next
  case (read_more ar H n p out err ar' p' D)
  then show ?case using read_article_ok [of p H D ar n out err ar' p'] by simp
qed (auto simp: close_article_ok discard_article_def given_back return_send_ok Close_provider_ok
      dest: return_check_ok)

lemma conn_step_keeps:
  "conn_step (p, H, D) (p', H', D') \<Longrightarrow> conns_ok p H D \<Longrightarrow> conns_ok p' H' D' \<and> pv_conf p' = pv_conf p"
  using conn_step_ok [of "(p, H, D)" "(p', H', D')"] conn_step_conf [of "(p, H, D)" "(p', H', D')"] by simp

text \<open>C36: No connection is lost or used twice. Whatever the callers of a provider do, in whatever order, and
  whatever servers answer: every connection that was dialled is idle in the pool, in use by a caller, or
  closed; no connection is in the pool twice, or in the pool and in use; the pool never exceeds
  \<open>MaxConnection\<close>; and a connection in the pool or in use that has been closed is one a reader closed because its context
  ended (\<open>D\<close>).\<close>

theorem connections_accounted:
  assumes "conn_reachable conf log p H D"
  shows "distinct (map cn_id (pv_pool p)) \<and> cn_id ` set (pv_pool p) \<inter> H = {} \<and>
    cn_id ` set (pv_pool p) \<union> H \<union> set (pv_closed p) = {..<pv_next p} \<and>
    (cn_id ` set (pv_pool p) \<union> H) \<inter> set (pv_closed p) \<subseteq> D \<and> int (length (pv_pool p)) \<le> sc_max conf"
proof -
  from assms have "conns_ok p H D \<and> pv_conf p = conf"
  proof (induction rule: conn_reachable.induct)
    case (new p)
    then show ?case by (auto simp: NewNNTPProviderWithLogger_def conns_ok_def split: if_splits)
  next
    case (more p H D p' H' D')
    from conn_step_keeps [OF more(2)] more(3) show ?case by simp
  qed
  then show ?thesis by (auto simp: conns_ok_def)
qed

definition sample_conf :: server_config where
  "sample_conf = \<lparr>sc_id = ''p'', sc_host = ''h'', sc_username = [], sc_password = [], sc_priority = 0,
     sc_max = 1, sc_dial_timeout = 0, sc_keepalive = 0, sc_idle = 0, sc_age = 0, sc_pool_logging = False\<rparr>"

definition sample_provider :: nntp_provider where
  "sample_provider = \<lparr>pv_conf = sample_conf, pv_pool = [], pv_done = False, pv_log = False, pv_stats = no_stats,
     pv_last_log = None, pv_next = 0, pv_closed = []\<rparr>"

definition text_line :: "string \<Rightarrow> event list" where "text_line l = map Byte (l @ crlf)"

definition sample_dial :: dial_script where
  "sample_dial = \<lparr>dl_error = None, dl_greeting = text_line ''200 hi'', dl_answer = (\<lambda>_. (None, [])), dl_at = 5\<rparr>"

lemma sample_take:
  "getConn 0 sample_dial sample_provider =
     (Inr \<lparr>cn_id = 0, cn_created = Some 5, cn_used = Some 5, cn_wire = []\<rparr>,
      sample_provider\<lparr>pv_next := 1, pv_stats := no_stats\<lparr>ps_dials := 1\<rparr>\<rparr>)"
  by code_simp

lemma connections_accounted_witness:
  "\<exists>p. conn_reachable sample_conf False p {0} {} \<and> {0} \<union> set (pv_closed p) = {..<pv_next p}"
proof -
  have "NewNNTPProviderWithLogger sample_conf False = Some sample_provider" by code_simp
  note n = conn_reachable.new [OF this]
  let ?p = "sample_provider\<lparr>pv_next := 1, pv_stats := no_stats\<lparr>ps_dials := 1\<rparr>\<rparr>"
  note m = conn_reachable.more [OF n conn_step.take_conn [OF sample_take]]
  have r: "conn_reachable sample_conf False ?p {0} {}" using m by simp
  have "cn_id ` set (pv_pool ?p) \<union> {0} \<union> set (pv_closed ?p) = {..<pv_next ?p}"
    using connections_accounted [OF r] by blast
  moreover have "pv_pool ?p = []" by (simp add: sample_provider_def)
  ultimately have "{0} \<union> set (pv_closed ?p) = {..<pv_next ?p}" by simp
  with r show ?thesis by blast
qed

text \<open>The attempts of an operation whose result owns nothing.\<close>

lemma attempts_leave:
  assumes "conversation work (\<lambda>x. {})" "conns_ok p H D"
  shows "conns_ok (snd (attempts n i now dials work count e p)) H D"
proof (cases "attempts n i now dials work count e p")
  case (Pair r p')
  with conversation.attempts_ok [OF assms Pair] show ?thesis by (cases r) auto
qed

text \<open>An operation leaves no connection behind. Whatever happens in its attempts, \<open>GroupStats\<close>, \<open>ListGroups\<close>,
  \<open>XOver\<close> and \<open>FetchBodyPrefix\<close> end with every connection they took given back or closed; \<open>Fetch\<close> ends so when it
  fails, and otherwise with exactly one more connection in use, that of the article.\<close>

theorem operations_leave_no_connection:
  assumes "conns_ok p H D"
  shows "conns_ok (snd (GroupStats su ctx grp p)) H D \<and> conns_ok (snd (ListGroups su ctx pat p)) H D \<and>
    conns_ok (snd (XOver tp su ctx later grp lo hi p)) H D \<and>
    conns_ok (snd (FetchBodyPrefix su sz ctx i groups m p)) H D \<and>
    (case provider_Fetch su ctx i groups p of
       (Inl e, p') \<Rightarrow> conns_ok p' H D
     | (Inr ar, p') \<Rightarrow> cn_id (ar_conn ar) \<notin> H \<and> conns_ok p' (insert (cn_id (ar_conn ar)) H) D)"
proof (intro conjI)
  show "conns_ok (snd (GroupStats su ctx grp p)) H D"
    using assms attempts_leave [OF group_call.conversation_axioms assms]
    by (simp add: GroupStats_def Let_def split: option.split)
  show "conns_ok (snd (ListGroups su ctx pat p)) H D"
    using assms attempts_leave [OF list_call.conversation_axioms assms]
    by (simp add: ListGroups_def split: option.split)
  show "conns_ok (snd (XOver tp su ctx later grp lo hi p)) H D"
    using assms attempts_leave [OF xover_call.conversation_axioms assms]
    by (simp add: XOver_def split: option.split)
  show "conns_ok (snd (FetchBodyPrefix su sz ctx i groups m p)) H D"
    using attempts_leave [OF prefix_call.conversation_axioms assms] by (simp add: FetchBodyPrefix_def)
  obtain r p' where f: "provider_Fetch su ctx i groups p = (r, p')" by (cases "provider_Fetch su ctx i groups p")
  from fetch_call.attempts_ok [OF assms f [unfolded provider_Fetch_def]] f show
    "case provider_Fetch su ctx i groups p of
       (Inl e, p') \<Rightarrow> conns_ok p' H D
     | (Inr ar, p') \<Rightarrow> cn_id (ar_conn ar) \<notin> H \<and> conns_ok p' (insert (cn_id (ar_conn ar)) H) D"
    by (cases r) auto
qed

lemma operations_leave_no_connection_witness:
  "conns_ok (snd (GroupStats \<lparr>su_now = (\<lambda>_. 10), su_dial = (\<lambda>_. sample_dial), su_answer = (\<lambda>_ _. (None, []))\<rparr>
     None ''g'' sample_provider)) {} {}"
proof -
  have "conns_ok sample_provider {} {}" by (simp add: conns_ok_def sample_provider_def sample_conf_def)
  from operations_leave_no_connection [OF this] show ?thesis by blast
qed

section \<open>Articles\<close>

text \<open>A server that answers BODY with an article: a status line and the dot-stuffed lines.\<close>

definition sends_article :: "server_answers \<Rightarrow> string \<Rightarrow> string \<Rightarrow> string list \<Rightarrow> bool" where
  "sends_article answer msgid note ls \<longleftrightarrow>
     answer (''BODY '' @ msgid) = (None, text_line (''222 '' @ note) @ map Byte (body_wire ls)) \<and>
     CHR 0x0A \<notin> set note \<and> (\<forall>l \<in> set ls. CHR 0x0A \<notin> set l)"

lemma read_line_text:
  "CHR 0x0A \<notin> set l \<Longrightarrow> net_line acc (text_line l @ es) = (Inr (rev acc @ l), es)"
  by (induction l arbitrary: acc) (auto simp: text_line_def crlf_def chomp_cr_def)

lemma ReadCodeLine_222:
  "CHR 0x0A \<notin> set note \<Longrightarrow>
     ReadCodeLine 222 (text_line (''222 '' @ note) @ es) = (\<lparr>cl_code = 222, cl_msg = note, cl_err = None\<rparr>, es)"
proof -
  assume n: "CHR 0x0A \<notin> set note"
  have "parse_int ''222'' = Some 222" by code_simp
  then have "parse_code_line (''222 '' @ note) 222 = \<lparr>cl_code = 222, cl_msg = note, cl_err = None\<rparr>"
    by (simp add: parse_code_line_def)
  then show ?thesis
    unfolding ReadCodeLine_def using read_line_text [of "''222 '' @ note" "[]" es] n by simp
qed



definition sample_lines :: "string list" where "sample_lines = [''=ybegin'', ''.ab'', []]"

definition sample_answer :: server_answers where
  "sample_answer cmd = (if cmd = ''BODY <m>'' then (None, text_line ''222 ok'' @ map Byte (body_wire sample_lines)) else (None, []))"

definition sample_conn :: nntp_conn where
  "sample_conn = \<lparr>cn_id = 0, cn_created = Some 5, cn_used = Some 5, cn_wire = []\<rparr>"


section \<open>A pause during a read\<close>

lemma read_whole_lines:
  assumes "\<forall>l \<in> set ls. CHR 0x0A \<notin> set l"
  shows "dot_read dl (n + length (body_text ls)) acc BeginLine (map Byte (concat (map stuff_line ls)) @ es) cx =
    dot_read dl n (rev (body_text ls) @ acc) BeginLine es cx"
  using assms
proof (induction ls arbitrary: acc)
  case (Cons l ls)
  have "n + length (body_text (l # ls)) = n + length (body_text ls) + length l + 1" by (simp add: body_text_def)
  with Cons read_line_of_body [of l dl "n + length (body_text ls)" acc "map Byte (concat (map stuff_line ls)) @ es" cx]
  show ?case by (simp add: body_text_def ac_simps)
qed (simp add: body_text_def)

text \<open>A pause loses data. When the peer sends the lines \<open>ls1\<close> of an article, nothing for the second of
  the read deadline, and then the lines \<open>ls2\<close>, a reader whose first buffer is larger than \<open>ls1\<close> delivers only
  \<open>ls2\<close>, and still ends with \<open>io.EOF\<close>: \<open>pooledReader.Read\<close> repeats the read into the whole buffer and forgets the bytes the
  read that timed out had put there.\<close>

theorem pause_loses_data:
  assumes "\<forall>l \<in> set (ls1 @ ls2). CHR 0x0A \<notin> set l" "length (body_text ls1) \<le> sz 0"
    and "pr_dot pr = BeginLine" "pr_ctx pr = None"
    and "pr_wire pr = map Byte (concat (map stuff_line ls1)) @ Silence # map Byte (body_wire ls2)"
  shows "\<exists>pr'. read_stream sz 0 pr = (body_text ls2, io_eof, pr')"
proof -
  define n where "n = Suc (sz 0)"
  have n: "n = n - length (body_text ls1) + length (body_text ls1)" "0 < n - length (body_text ls1)"
    using assms(2) by (simp_all add: n_def)
  let ?pr = "pr\<lparr>pr_dot := BeginLine, pr_wire := map Byte (body_wire ls2), pr_ctx := None\<rparr>"
  have "dot_read True n [] BeginLine (pr_wire pr) None =
      dot_done (rev (body_text ls1)) (Some read_timeout) BeginLine (map Byte (body_wire ls2)) None"
    unfolding assms(5) using assms(1) n(2)
    by (subst n(1), subst read_whole_lines) (simp_all add: dot_read_steps)
  then have "pooled_Read n pr = pooled_Read n ?pr"
    using assms(3,4)
    by (simp add: pooled_Read.simps [of n pr] after_read_def dot_done_def read_timeout_def text_error_def)
  then have same: "read_stream sz 0 pr = read_stream sz 0 ?pr"
    unfolding n_def by (subst (1 2) read_stream.simps) simp
  have "drain True BeginLine (map Byte (body_wire ls2)) = dot_done (rev (body_text ls2)) (Some io_eof) AtEnd [] None"
    using drain_body [of ls2 True "[]"] assms(1) by simp
  then show ?thesis
    unfolding same using read_stream_drain [of ?pr io_eof sz 0]
    by (simp add: dot_done_def io_eof_def text_error_def)
qed

lemma pause_loses_data_witness:
  "\<exists>pr'. read_stream (\<lambda>_. 4096) 0 \<lparr>pr_dot = BeginLine,
       pr_wire = map Byte (stuff_line ''abc'') @ Silence # map Byte (body_wire [''def'']),
       pr_ctx = None, pr_closed = False\<rparr> =
     (''def'' @ [CHR 0x0A], io_eof, pr')"
  using pause_loses_data [of "[''abc'']" "[''def'']" "\<lambda>_. 4096"
      "\<lparr>pr_dot = BeginLine, pr_wire = map Byte (stuff_line ''abc'') @ Silence # map Byte (body_wire [''def'']),
        pr_ctx = None, pr_closed = False\<rparr>"]
  by (simp add: body_text_def)

section \<open>Connections the server has closed\<close>

text \<open>A connection of the pool whose server has gone: the command can still be written, and nothing
  comes back. \<open>Fetch\<close> tries again on another connection; the operations that begin with
  \<open>selectGroup\<close> do not, because its error is only a text.\<close>

definition server_gone :: "server_answers \<Rightarrow> bool" where "server_gone answer \<longleftrightarrow> (\<forall>cmd. answer cmd = (None, []))"

lemma gone_reply: "cn_wire c = [] \<Longrightarrow> read_reply n c = (\<lparr>cl_code = 0, cl_msg = [], cl_err = Some io_eof\<rparr>, c)"
  by (cases c) (simp add: read_reply_def ReadCodeLine_def)

lemma eof_recoverable: "isRecoverableConnError (Some io_eof)"
  by (simp add: isRecoverableConnError_def io_eof_def)

lemma take_idle:
  assumes "pv_pool p = c # cs" "shouldDiscardConn p c now = None" "\<not> pv_done p"
  shows "getConn now d p = (Inr c, stat (\<lambda>s. s\<lparr>ps_reuses := ps_reuses s + 1\<rparr>) (p\<lparr>pv_pool := cs\<rparr>))"
  using assms by (simp add: getConn_def get_loop.simps)

text \<open>\<open>GroupStats\<close> on a provider whose idle connection the server has meanwhile closed fails at once, in its
  only attempt, although a new connection might work: the \<open>io.EOF\<close> that makes \<open>Fetch\<close> try again is reduced to a text by \<open>selectGroup\<close>,
  which \<open>isRecoverableConnError\<close> does not recognise (unless the name of the group happens to contain one of
  its key words).\<close>

theorem stale_connection_fails_group:
  assumes "pv_pool p = c # cs" "shouldDiscardConn p c (su_now su 0) = None" "\<not> pv_done p"
    and "cn_wire c = []" "cn_id c \<notin> set (pv_closed p)" "server_gone (su_answer su 0)"
    and "trim_space grp \<noteq> []"
    and "\<not> isRecoverableConnError (Some (text_error (''GROUP '' @ trim_space grp @ '' failed (code 0): '')))"
  shows "fst (GroupStats su None grp p) =
      Inl (text_error (''GROUP '' @ trim_space grp @ '' failed (code 0): '')) \<and>
    ps_group_retries (pv_stats (snd (GroupStats su None grp p))) = ps_group_retries (pv_stats p) \<and>
    ps_dials (pv_stats (snd (GroupStats su None grp p))) = ps_dials (pv_stats p)"
proof -
  let ?e = "text_error (''GROUP '' @ trim_space grp @ '' failed (code 0): '')"
  let ?p = "stat (\<lambda>s. s\<lparr>ps_reuses := ps_reuses s + 1\<rparr>) (p\<lparr>pv_pool := cs\<rparr>)"
  have same: "c\<lparr>cn_wire := []\<rparr> = c" using assms(4) by (cases c) simp
  have "itoa 0 = ''0''" by code_simp
  then have "selectGroup (su_answer su 0) ?p (trim_space grp) c = (Inl ?e, c)"
    using assms(4-6) same by (simp add: selectGroup_def Cmd_def server_gone_def gone_reply failed_text_def)
  then have w: "groupStatsWithConn (su_answer su 0) (su_now su 0) (trim_space grp) c ?p =
      (Inl (?e, False), closeConn c ?p)"
    using assms(8) by (simp add: groupStatsWithConn_def give_up_def)
  have "GroupStats su None grp p = (Inl ?e, closeConn c ?p)"
    using assms(7) take_idle [OF assms(1-3)] w by (simp add: GroupStats_def numeral_2_eq_2 Let_def)
  then show ?thesis by (simp add: closeConn_def)
qed


definition silent_surroundings :: surroundings where
  "silent_surroundings = \<lparr>su_now = (\<lambda>_. 10), su_dial = (\<lambda>_. sample_dial), su_answer = (\<lambda>_ _. (None, []))\<rparr>"

lemma stale_connection_fails_group_witness:
  "fst (GroupStats silent_surroundings None ''alt.bin'' (sample_provider\<lparr>pv_pool := [sample_conn], pv_next := 1\<rparr>)) =
     Inl (text_error ''GROUP alt.bin failed (code 0): '')"
proof -
  let ?p = "sample_provider\<lparr>pv_pool := [sample_conn], pv_next := 1\<rparr>"
  have t: "trim_space ''alt.bin'' = ''alt.bin''" by code_simp
  have "shouldDiscardConn ?p sample_conn (su_now silent_surroundings 0) = None" by code_simp
  moreover have "\<not> isRecoverableConnError (Some (text_error ''GROUP alt.bin failed (code 0): ''))" by code_simp
  moreover have "pv_pool ?p = [sample_conn]" "\<not> pv_done ?p" "cn_wire sample_conn = []"
    "cn_id sample_conn \<notin> set (pv_closed ?p)" "server_gone (su_answer silent_surroundings 0)"
    by (simp_all add: sample_provider_def sample_conn_def server_gone_def silent_surroundings_def)
  ultimately show ?thesis
    using stale_connection_fails_group [of ?p sample_conn "[]" silent_surroundings "''alt.bin''"] t by simp
qed

section \<open>Articles that do not exist\<close>

text \<open>The answer by which a server says that it does not have an article.\<close>

definition says_missing :: "code_line \<Rightarrow> bool" where
  "says_missing l \<longleftrightarrow> cl_err l \<noteq> None \<and>
     (cl_code l = 430 \<or> contains_str ''no such article'' (to_lower (cl_msg l)))"

text \<open>Servers and the network do not produce \<open>ErrArticleNotFound\<close> themselves.\<close>

definition event_plain :: "event \<Rightarrow> bool" where
  "event_plain e = (case e of Broken x \<Rightarrow> \<not> err_missing x | _ \<Rightarrow> True)"

definition answers_plain :: "server_answers \<Rightarrow> bool" where
  "answers_plain answer \<longleftrightarrow>
     (\<forall>cmd. (case fst (answer cmd) of None \<Rightarrow> True | Some e \<Rightarrow> \<not> err_missing e) \<and>
            list_all event_plain (snd (answer cmd)))"

lemma read_line_plain:
  "net_line acc es = (r, es') \<Longrightarrow> list_all event_plain es \<Longrightarrow>
     list_all event_plain es' \<and> (\<forall>e. r = Inl e \<longrightarrow> \<not> err_missing e)"
  by (induction acc es rule: net_line.induct)
     (auto simp: io_eof_def text_error_def event_plain_def split: if_splits)

lemma parse_code_line_plain: "cl_err (parse_code_line l n) = Some e \<Longrightarrow> \<not> err_missing e"
  by (auto simp: parse_code_line_def text_error_def split: if_splits option.splits)

lemma ReadCodeLine_plain:
  assumes "ReadCodeLine n es = (l, es')" "list_all event_plain es"
  shows "list_all event_plain es' \<and> (\<forall>e. cl_err l = Some e \<longrightarrow> \<not> err_missing e)"
  using assms read_line_plain [of "[]" es] parse_code_line_plain
  by (fastforce simp: ReadCodeLine_def split: prod.splits sum.splits)

definition conn_plain :: "nntp_conn \<Rightarrow> bool" where
  "conn_plain c \<longleftrightarrow> list_all event_plain (cn_wire c)"

lemma read_reply_plain:
  "read_reply n c = (l, c') \<Longrightarrow> conn_plain c \<Longrightarrow> conn_plain c' \<and> (\<forall>e. cl_err l = Some e \<longrightarrow> \<not> err_missing e)"
  by (auto simp: read_reply_def conn_plain_def dest: ReadCodeLine_plain split: prod.splits)

lemma Cmd_plain:
  assumes "answers_plain answer" "conn_plain c"
  shows "case Cmd answer p t c of Inl e \<Rightarrow> \<not> err_missing e | Inr c' \<Rightarrow> conn_plain c'"
proof (cases "answer t")
  case (Pair e reply)
  with assms(1) have "case e of None \<Rightarrow> True | Some x \<Rightarrow> \<not> err_missing x" "list_all event_plain reply"
    unfolding answers_plain_def by (metis fst_conv) (metis Pair answers_plain_def assms(1) snd_conv)
  with Pair assms(2) show ?thesis
    by (auto simp: Cmd_def conn_plain_def use_of_closed_def text_error_def split: option.splits)
qed

text \<open>\<open>ErrArticleNotFound\<close> comes from the server. If a conversation about an article ends with it, the
  server has answered the BODY command with code 430 (or with a text that says ``no such article''), and then
  it asks for no second attempt and gives the connection back instead of closing it.\<close>

theorem missing_means_server_said_so:
  assumes "fetchWithConn ctx answer now msgid groups c p = (Inl (e, retry), p')" "err_missing e"
    and "answers_plain answer" "conn_plain c"
  shows "\<exists>d d'. cn_id d = cn_id c \<and> Cmd answer p (''BODY '' @ msgid) d = Inr d' \<and>
    says_missing (fst (read_reply 222 d')) \<and> \<not> retry \<and> p' = returnConn now (snd (read_reply 222 d')) p"
proof -
  define first where "first = (case groups of
              [] \<Rightarrow> (None, c)
            | g # gs \<Rightarrow>
                (case Cmd answer p (''GROUP '' @ g) c of
                   Inl e \<Rightarrow> (Some e, c)
                 | Inr c1 \<Rightarrow> (case read_reply 211 c1 of (l, c2) \<Rightarrow> (cl_err l, c2))))"
  obtain e1 c2 where f: "first = (e1, c2)" by (cases first)
  have c2: "cn_id c2 = cn_id c" "conn_plain c2" "\<forall>x. e1 = Some x \<longrightarrow> \<not> err_missing x"
    unfolding atomize_conj
  proof (cases groups)
    case Nil
    with f assms(4) show "cn_id c2 = cn_id c \<and> conn_plain c2 \<and> (\<forall>x. e1 = Some x \<longrightarrow> \<not> err_missing x)"
      by (simp add: first_def)
  next
    case (Cons g gs)
    note cmd = Cmd_plain [OF assms(3,4), of p "''GROUP '' @ g"]
    show "cn_id c2 = cn_id c \<and> conn_plain c2 \<and> (\<forall>x. e1 = Some x \<longrightarrow> \<not> err_missing x)"
    proof (cases "Cmd answer p (''GROUP '' @ g) c")
      case (Inl x)
      with f Cons cmd assms(4) show ?thesis by (auto simp: first_def)
    next
      case (Inr c1)
      obtain l d where d: "read_reply 211 c1 = (l, d)" by (cases "read_reply 211 c1")
      with f Cons Inr have "e1 = cl_err l" "c2 = d" by (simp_all add: first_def)
      with read_reply_plain [OF d] cmd Inr Cmd_id [OF Inr] read_reply_id [OF d] show ?thesis by simp
    qed
  qed
  have body: "fetchWithConn ctx answer now msgid groups c p =
      (case first of (Some e, c2) \<Rightarrow> give_up e c2 p
      | (None, c2) \<Rightarrow>
          (case Cmd answer p (''BODY '' @ msgid) c2 of
             Inl e \<Rightarrow> give_up e c2 p
           | Inr c3 \<Rightarrow>
               (case read_reply 222 c3 of
                  (l, c4) \<Rightarrow>
                    (case cl_err l of
                       None \<Rightarrow> (Inr (open_article ctx c4), p)
                     | Some e \<Rightarrow>
                         (if cl_code l = 430 \<or> contains_str ''no such article'' (to_lower (cl_msg l))
                          then (Inl (ErrArticleNotFound, False), returnConn now c4 p)
                          else if isRecoverableConnError (Some e) then (Inl (e, True), closeConn c4 p)
                          else (Inl (text_error (''NNTP error '' @ itoa (cl_code l) @ '': '' @ cl_msg l), False),
                                closeConn c4 p))))))"
    by (simp only: fetchWithConn_def first_def)
  have e1: "e1 = None" using assms(1,2) c2(3) unfolding body f by (cases e1) (auto simp: give_up_def)
  obtain c3 where c3: "Cmd answer p (''BODY '' @ msgid) c2 = Inr c3"
    using assms(1,2) Cmd_plain [OF assms(3) c2(2), of p "''BODY '' @ msgid"] unfolding body f e1
    by (cases "Cmd answer p (''BODY '' @ msgid) c2") (auto simp: give_up_def)
  have p3: "conn_plain c3" using Cmd_plain [OF assms(3) c2(2), of p "''BODY '' @ msgid"] c3 by simp
  obtain l c4 where l: "read_reply 222 c3 = (l, c4)" by (cases "read_reply 222 c3")
  have "says_missing l \<and> \<not> retry \<and> p' = returnConn now c4 p"
    using assms(1,2) read_reply_plain [OF l p3] unfolding body f e1 prod.case option.case c3 sum.case l
    by (auto simp: says_missing_def text_error_def split: option.splits if_splits)
  then show ?thesis using c2(1) c3 l by (intro exI [of _ c2] exI [of _ c3]) simp
qed

definition missing_answer :: server_answers where
  "missing_answer cmd = (None, text_line ''430 none'')"

lemma missing_means_server_said_so_witness:
  "\<exists>d d' q. fetchWithConn None missing_answer 7 ''<m>'' [] sample_conn sample_provider = (Inl (ErrArticleNotFound, False), q) \<and>
     Cmd missing_answer sample_provider (''BODY '' @ ''<m>'') d = Inr d' \<and> says_missing (fst (read_reply 222 d')) \<and>
     q = returnConn 7 (snd (read_reply 222 d')) sample_provider"
proof -
  have "answers_plain missing_answer" "conn_plain sample_conn"
    by (simp_all add: answers_plain_def missing_answer_def text_line_def event_plain_def list_all_iff crlf_def
        conn_plain_def sample_conn_def)
  moreover have "fst (fetchWithConn None missing_answer 7 ''<m>'' [] sample_conn sample_provider) =
      Inl (ErrArticleNotFound, False)"
    by code_simp
  then obtain q where q: "fetchWithConn None missing_answer 7 ''<m>'' [] sample_conn sample_provider =
      (Inl (ErrArticleNotFound, False), q)" by (metis prod.collapse)
  moreover have "err_missing ErrArticleNotFound" by (simp add: ErrArticleNotFound_def)
  ultimately show ?thesis using missing_means_server_said_so [OF q] by blast
qed

end
