(* ===== verification/Domain.thy ===== *)
theory Domain
  imports Go_Prelude
begin

text \<open>
  The data model of \<open>internal/domain\<close>: job states, releases, segments, download files and
  queue items. A \<open>time.Time\<close> is a number of nanoseconds, \<open>None\<close> being the zero time. A
  release snapshot is kept as what its JSON text says: no text, an object with its keys in order,
  or text that is not such an object.
\<close>

datatype job_status =
  StatusPending | StatusDownloading | StatusProcessing | StatusCompleted | StatusFailed

fun status_text :: "job_status \<Rightarrow> string" where
  "status_text StatusPending = ''pending''"
| "status_text StatusDownloading = ''downloading''"
| "status_text StatusProcessing = ''processing''"
| "status_text StatusCompleted = ''completed''"
| "status_text StatusFailed = ''failed''"

definition terminal :: "job_status \<Rightarrow> bool" where
  "terminal st \<longleftrightarrow> st = StatusCompleted \<or> st = StatusFailed"

text \<open>The order in which a job passes through its states.\<close>

instantiation job_status :: linorder
begin

fun status_rank :: "job_status \<Rightarrow> nat" where
  "status_rank StatusPending = 0"
| "status_rank StatusDownloading = 1"
| "status_rank StatusProcessing = 2"
| "status_rank StatusCompleted = 3"
| "status_rank StatusFailed = 4"

definition less_eq_job_status :: "job_status \<Rightarrow> job_status \<Rightarrow> bool" where
  "less_eq_job_status a b \<longleftrightarrow> status_rank a \<le> status_rank b"

definition less_job_status :: "job_status \<Rightarrow> job_status \<Rightarrow> bool" where
  "less_job_status a b \<longleftrightarrow> status_rank a < status_rank b"

instance
proof
  fix x y z :: job_status
  show "(x < y) = (x \<le> y \<and> \<not> y \<le> x)"
    by (auto simp: less_eq_job_status_def less_job_status_def)
  show "x \<le> x" by (simp add: less_eq_job_status_def)
  show "x \<le> y \<Longrightarrow> y \<le> z \<Longrightarrow> x \<le> z" by (simp add: less_eq_job_status_def)
  show "x \<le> y \<Longrightarrow> y \<le> x \<Longrightarrow> x = y"
    by (cases x; cases y) (simp_all add: less_eq_job_status_def)
  show "x \<le> y \<or> y \<le> x" by (auto simp: less_eq_job_status_def)
qed

end

type_synonym gotime = "int option"

record release =
  rel_ID :: string
  rel_Title :: string
  rel_Password :: string
  rel_GUID :: string
  rel_Source :: string
  rel_DownloadURL :: string
  rel_Size :: int
  rel_PublishDate :: gotime
  rel_Category :: string
  rel_CachePresent :: bool
  rel_CacheBlobSize :: int
  rel_CacheVerifiedAt :: gotime
  rel_RedirectAllowed :: bool
  rel_Poster :: string

definition empty_release :: release where
  "empty_release = \<lparr>rel_ID = [], rel_Title = [], rel_Password = [], rel_GUID = [], rel_Source = [],
     rel_DownloadURL = [], rel_Size = 0, rel_PublishDate = None, rel_Category = [],
     rel_CachePresent = False, rel_CacheBlobSize = 0, rel_CacheVerifiedAt = None,
     rel_RedirectAllowed = False, rel_Poster = []\<rparr>"

text \<open>\<open>MissingFrom\<close> maps the IDs of the providers that answered 430 to \<open>true\<close>: the list of
  those IDs.\<close>

record segment =
  seg_Number :: int
  seg_Bytes :: int
  seg_MessageID :: string
  seg_MissingFrom :: "string list"

record download_file =
  df_ID :: int
  df_ReleaseID :: string
  df_FileName :: string
  df_Size :: int
  df_Index :: int
  df_IsPars :: bool
  df_Subject :: string
  df_Date :: int
  df_Groups :: "string list"
  df_Poster :: string
  df_PartPath :: string
  df_FinalPath :: string
  df_IsComplete :: bool
  df_Password :: string
  df_actualSize :: int
  df_Segments :: "segment list"

datatype jval = JString string | JNumber int | JBool bool

datatype snapshot_text = NoText | ObjText "(string \<times> jval) list" | OtherText string

text \<open>\<open>qi_CancelFunc\<close> is the identity of the context the function cancels.\<close>

record queue_item =
  qi_ID :: string
  qi_ReleaseID :: string
  qi_Release :: "release option"
  qi_Status :: job_status
  qi_OutDir :: string
  qi_SourceKind :: string
  qi_SourceReleaseID :: string
  qi_ReleaseTitle :: string
  qi_ReleaseSize :: int
  qi_ReleaseSnapshotJSON :: snapshot_text
  qi_PayloadMode :: string
  qi_Resumable :: bool
  qi_Tasks :: "download_file list"
  qi_BytesWritten :: int
  qi_CreatedAt :: gotime
  qi_UpdatedAt :: gotime
  qi_StartedAt :: gotime
  qi_CompletedAt :: gotime
  qi_DownloadedBytes :: int
  qi_AvgBps :: int
  qi_DownloadSeconds :: int
  qi_PostProcessSeconds :: int
  qi_DownloadStartedAt :: gotime
  qi_ProcessingStartedAt :: gotime
  qi_Error :: "string option"
  qi_CancelFunc :: "nat option"

record queue_event =
  ev_QueueID :: string
  ev_Stage :: string
  ev_Status :: string
  ev_Message :: string

definition PayloadModeCached :: string where "PayloadModeCached = ''cached''"

definition PayloadModeEphemeral :: string where "PayloadModeEphemeral = ''ephemeral''"

section \<open>Snapshots\<close>

text \<open>\<open>encoding/json\<close> reading an object into a struct: a key matches a field name up to case,
  the last match counts, a missing key leaves the zero value, a value of another type is an
  error.\<close>

definition jlookup :: "string \<Rightarrow> (string \<times> jval) list \<Rightarrow> jval option" where
  "jlookup name obj = map_option snd (find (\<lambda>(k, v). to_lower k = to_lower name) (rev obj))"

definition jstr :: "string \<Rightarrow> (string \<times> jval) list \<Rightarrow> string option" where
  "jstr name obj =
     (case jlookup name obj of None \<Rightarrow> Some [] | Some (JString s) \<Rightarrow> Some s | _ \<Rightarrow> None)"

definition jnum :: "string \<Rightarrow> (string \<times> jval) list \<Rightarrow> int option" where
  "jnum name obj =
     (case jlookup name obj of None \<Rightarrow> Some 0 | Some (JNumber n) \<Rightarrow> Some n | _ \<Rightarrow> None)"

definition jbool :: "string \<Rightarrow> (string \<times> jval) list \<Rightarrow> bool option" where
  "jbool name obj =
     (case jlookup name obj of None \<Rightarrow> Some False | Some (JBool b) \<Rightarrow> Some b | _ \<Rightarrow> None)"

text \<open>\<open>SetActualSize\<close>, \<open>GetBytes\<close> and \<open>Prepare\<close>'s constructor work on one record each.\<close>

definition SetActualSize :: "int \<Rightarrow> download_file \<Rightarrow> download_file" where
  "SetActualSize n f = f\<lparr>df_actualSize := n\<rparr>"

definition AddBytes :: "int \<Rightarrow> queue_item \<Rightarrow> queue_item" where
  "AddBytes n q = q\<lparr>qi_BytesWritten := i64 (qi_BytesWritten q + n)\<rparr>"

definition GetBytes :: "queue_item \<Rightarrow> int" where
  "GetBytes q = qi_BytesWritten q"

end
