(* ===== verification/Job_Store.thy ===== *)
theory Job_Store
  imports Domain
begin

text \<open>
  The queue tables of the SQLite job store (\<open>internal/store/sqlitejob/queue.go\<close> and
  \<open>dbo.go\<close>): rows in insertion order, the upsert of \<open>SaveQueueItem\<close>, the selects, the
  deletes, the reset at start-up, and the mapping from a row back to a queue item.
\<close>

record queue_row =
  row_id :: string
  row_status :: job_status
  row_out_dir :: string
  row_error :: "string option"
  row_source_kind :: string
  row_source_release_id :: string
  row_release_title :: string
  row_release_size :: int
  row_snapshot :: snapshot_text
  row_payload_mode :: string
  row_resumable :: bool
  row_created_at :: int
  row_updated_at :: int
  row_started_at_unix :: int
  row_completed_at_unix :: int
  row_download_seconds :: int
  row_postprocess_seconds :: int
  row_avg_bps :: int
  row_downloaded_bytes :: int

type_synonym job_store = "queue_row list"

text \<open>\<open>Time.Unix()\<close>, 0 for the zero time.\<close>

definition unix :: "gotime \<Rightarrow> int" where
  "unix t = (case t of None \<Rightarrow> 0 | Some ns \<Rightarrow> ns div 1000000000)"

text \<open>The values \<open>SaveQueueItem\<close> binds, defaults included; \<open>now\<close> is the database clock.\<close>

definition row_of_item :: "int \<Rightarrow> queue_item \<Rightarrow> queue_row" where
  "row_of_item now item =
     (let mode = (if qi_PayloadMode item = [] then PayloadModeCached else qi_PayloadMode item);
          res0 = qi_Resumable item;
          res1 = (if mode = PayloadModeCached \<and> \<not> qi_Resumable item then False else res0);
          res2 = (if mode = PayloadModeCached \<and> qi_Resumable item then True else res1);
          res3 = (if mode = PayloadModeEphemeral then False else res2)
      in \<lparr>row_id = qi_ID item, row_status = qi_Status item, row_out_dir = qi_OutDir item,
          row_error = qi_Error item,
          row_source_kind = (if qi_SourceKind item = [] then ''aggregator'' else qi_SourceKind item),
          row_source_release_id =
            (if qi_SourceReleaseID item = [] then qi_ReleaseID item else qi_SourceReleaseID item),
          row_release_title =
            (case qi_Release item of
               Some r \<Rightarrow> if qi_ReleaseTitle item = [] then rel_Title r else qi_ReleaseTitle item
             | None \<Rightarrow> qi_ReleaseTitle item),
          row_release_size =
            (case qi_Release item of
               Some r \<Rightarrow> if qi_ReleaseSize item = 0 then rel_Size r else qi_ReleaseSize item
             | None \<Rightarrow> qi_ReleaseSize item),
          row_snapshot =
            (if qi_ReleaseSnapshotJSON item = NoText then ObjText []
             else qi_ReleaseSnapshotJSON item),
          row_payload_mode = mode, row_resumable = res3,
          row_created_at = now, row_updated_at = now,
          row_started_at_unix = unix (qi_StartedAt item),
          row_completed_at_unix = unix (qi_CompletedAt item),
          row_download_seconds = qi_DownloadSeconds item,
          row_postprocess_seconds = qi_PostProcessSeconds item,
          row_avg_bps = qi_AvgBps item, row_downloaded_bytes = qi_DownloadedBytes item\<rparr>)"

text \<open>The table's constraints on the two coded columns.\<close>

definition row_allowed :: "queue_row \<Rightarrow> bool" where
  "row_allowed row \<longleftrightarrow>
     row_source_kind row \<in> {''manual'', ''aggregator'', ''usenet_index''} \<and>
     row_payload_mode row \<in> {PayloadModeCached, PayloadModeEphemeral}"

text \<open>\<open>INSERT ... ON CONFLICT(id) DO UPDATE\<close>: a new row goes to the end, an existing one keeps its
  place and its creation time. \<open>None\<close> is the constraint error.\<close>

fun upsert :: "queue_row \<Rightarrow> job_store \<Rightarrow> job_store" where
  "upsert row [] = [row]"
| "upsert row (r # rs) =
     (if row_id r = row_id row then row\<lparr>row_created_at := row_created_at r\<rparr> # rs
      else r # upsert row rs)"

definition SaveQueueItem :: "int \<Rightarrow> queue_item \<Rightarrow> job_store \<Rightarrow> job_store option" where
  "SaveQueueItem now item db =
     (let row = row_of_item now item in if row_allowed row then Some (upsert row db) else None)"

text \<open>A snapshot read back into \<open>domain.Release\<close>, field by field under that struct's JSON names;
  \<open>None\<close> is the error. Time-valued keys are never written by the program.\<close>

definition unmarshal_release :: "snapshot_text \<Rightarrow> release option" where
  "unmarshal_release t =
     (case t of
        ObjText obj \<Rightarrow>
          (case (jstr ''id'' obj, jstr ''title'' obj, jstr ''password'' obj, jstr ''guid'' obj,
                 jstr ''source'' obj, jstr ''downloadUrl'' obj, jnum ''size'' obj,
                 jstr ''category'' obj, jbool ''cache_present'' obj, jnum ''cache_blob_size'' obj,
                 jbool ''RedirectAllowed'' obj, jstr ''Poster'' obj) of
             (Some i, Some ti, Some pw, Some g, Some src, Some url, Some sz, Some cat, Some cp,
              Some cbs, Some ra, Some po) \<Rightarrow>
               Some (empty_release\<lparr>rel_ID := i, rel_Title := ti, rel_Password := pw, rel_GUID := g,
                 rel_Source := src, rel_DownloadURL := url, rel_Size := sz, rel_Category := cat,
                 rel_CachePresent := cp, rel_CacheBlobSize := cbs, rel_RedirectAllowed := ra,
                 rel_Poster := po\<rparr>)
           | _ \<Rightarrow> None)
      | _ \<Rightarrow> None)"

definition releaseFromSnapshot ::
  "string \<Rightarrow> string \<Rightarrow> string \<Rightarrow> int \<Rightarrow> snapshot_text \<Rightarrow> release option" where
  "releaseFromSnapshot rid sourceKind title sz snap =
     (case (if snap \<noteq> NoText \<and> snap \<noteq> ObjText [] then unmarshal_release snap else None) of
        Some rel \<Rightarrow>
          Some (rel\<lparr>rel_ID := (if rel_ID rel = [] then rid else rel_ID rel),
                    rel_GUID := (if rel_GUID rel = [] then rid else rel_GUID rel),
                    rel_Source := (if rel_Source rel = [] then sourceKind else rel_Source rel),
                    rel_Title := (if rel_Title rel = [] then title else rel_Title rel),
                    rel_Size := (if rel_Size rel = 0 then sz else rel_Size rel)\<rparr>)
      | None \<Rightarrow>
          (if rid \<noteq> [] \<or> title \<noteq> [] \<or> sz > 0 then
             Some (empty_release\<lparr>rel_ID := rid, rel_GUID := rid, rel_Title := title, rel_Size := sz,
                     rel_Source := sourceKind\<rparr>)
           else None))"

definition ToDomain :: "queue_row \<Rightarrow> queue_item" where
  "ToDomain q =
     (let mode = (if row_payload_mode q = [] then PayloadModeCached else row_payload_mode q);
          res = (if mode = PayloadModeCached \<and> \<not> row_resumable q then False
                 else if mode = PayloadModeCached \<and> row_resumable q then True
                 else if mode = PayloadModeEphemeral then False
                 else row_resumable q)
      in \<lparr>qi_ID = row_id q, qi_ReleaseID = row_source_release_id q,
          qi_Release = releaseFromSnapshot (row_source_release_id q) (row_source_kind q)
             (row_release_title q) (row_release_size q) (row_snapshot q),
          qi_Status = row_status q, qi_OutDir = row_out_dir q, qi_SourceKind = row_source_kind q,
          qi_SourceReleaseID = row_source_release_id q, qi_ReleaseTitle = row_release_title q,
          qi_ReleaseSize = row_release_size q, qi_ReleaseSnapshotJSON = row_snapshot q,
          qi_PayloadMode = mode, qi_Resumable = res, qi_Tasks = [],
          qi_BytesWritten = row_downloaded_bytes q, qi_CreatedAt = Some (row_created_at q),
          qi_UpdatedAt = Some (row_updated_at q),
          qi_StartedAt = (if row_started_at_unix q > 0
             then Some (row_started_at_unix q * 1000000000) else None),
          qi_CompletedAt = (if row_completed_at_unix q > 0
             then Some (row_completed_at_unix q * 1000000000) else None),
          qi_DownloadedBytes = row_downloaded_bytes q, qi_AvgBps = row_avg_bps q,
          qi_DownloadSeconds = row_download_seconds q,
          qi_PostProcessSeconds = row_postprocess_seconds q,
          qi_DownloadStartedAt = None, qi_ProcessingStartedAt = None,
          qi_Error = row_error q, qi_CancelFunc = None\<rparr>)"

definition GetQueueItem :: "string \<Rightarrow> job_store \<Rightarrow> queue_item option" where
  "GetQueueItem qid db = map_option ToDomain (find (\<lambda>r. row_id r = qid) db)"

definition GetQueueItems :: "job_store \<Rightarrow> queue_item list" where
  "GetQueueItems db = map ToDomain (sort_key row_created_at db)"

definition GetActiveQueueItems :: "job_store \<Rightarrow> queue_item list" where
  "GetActiveQueueItems db =
     map ToDomain (sort_key row_created_at (filter (\<lambda>r. \<not> terminal (row_status r)) db))"

definition DeleteQueueItems :: "string list \<Rightarrow> job_store \<Rightarrow> int \<times> job_store" where
  "DeleteQueueItems ids db =
     (if ids = [] then (0, db)
      else (int (length (filter (\<lambda>r. row_id r \<in> set ids) db)),
            filter (\<lambda>r. row_id r \<notin> set ids) db))"

definition ClearQueueHistory :: "job_status list \<Rightarrow> job_store \<Rightarrow> int \<times> job_store" where
  "ClearQueueHistory statuses db =
     (let sts = (if statuses = [] then [StatusCompleted, StatusFailed] else statuses)
      in (int (length (filter (\<lambda>r. row_status r \<in> set sts) db)),
          filter (\<lambda>r. row_status r \<notin> set sts) db))"

definition ResetStuckQueueItems ::
  "int \<Rightarrow> job_status \<Rightarrow> job_status list \<Rightarrow> job_store \<Rightarrow> job_store" where
  "ResetStuckQueueItems now newStatus oldStatuses db =
     (if oldStatuses = [] then db
      else map (\<lambda>r. if row_status r \<in> set oldStatuses
                    then r\<lparr>row_status := newStatus, row_error := Some ''Unexpected shutdown'',
                           row_updated_at := now\<rparr>
                    else r) db)"

section \<open>The table as a map of statuses\<close>

definition db_status :: "job_store \<Rightarrow> string \<Rightarrow> job_status option" where
  "db_status db = map_of (map (\<lambda>r. (row_id r, row_status r)) db)"

definition distinct_ids :: "job_store \<Rightarrow> bool" where
  "distinct_ids db \<longleftrightarrow> distinct (map row_id db)"

text \<open>What the queue needs of its store: a save sets one job's status and no other, a delete
  forgets the named jobs and no other.\<close>

locale status_table =
  fixes save :: "'i \<Rightarrow> 's \<Rightarrow> 's option"
    and drop_ids :: "string list \<Rightarrow> 's \<Rightarrow> 's"
    and lookup :: "'s \<Rightarrow> string \<Rightarrow> job_status option"
    and ident :: "'i \<Rightarrow> string"
    and state_of :: "'i \<Rightarrow> job_status"
    and wf :: "'s \<Rightarrow> bool"
  assumes save_lookup: "wf s \<Longrightarrow> save i s = Some s' \<Longrightarrow> lookup s' = (lookup s)(ident i \<mapsto> state_of i)"
    and save_wf: "wf s \<Longrightarrow> save i s = Some s' \<Longrightarrow> wf s'"
    and drop_lookup: "wf s \<Longrightarrow> lookup (drop_ids ids s) = lookup s |` (- set ids)"
    and drop_wf: "wf s \<Longrightarrow> wf (drop_ids ids s)"
begin

lemma save_then_lookup: "wf s \<Longrightarrow> save i s = Some s' \<Longrightarrow> lookup s' (ident i) = Some (state_of i)"
  by (simp add: save_lookup)

lemma save_other: "wf s \<Longrightarrow> save i s = Some s' \<Longrightarrow> k \<noteq> ident i \<Longrightarrow> lookup s' k = lookup s k"
  by (simp add: save_lookup)

lemma drop_then_lookup: "wf s \<Longrightarrow> k \<in> set ids \<Longrightarrow> lookup (drop_ids ids s) k = None"
  by (simp add: drop_lookup)

lemma drop_other: "wf s \<Longrightarrow> k \<notin> set ids \<Longrightarrow> lookup (drop_ids ids s) k = lookup s k"
  by (simp add: drop_lookup)

text \<open>A table that agrees with a view of the jobs agrees with it after a job is saved and the
  view updated alike.\<close>

definition agrees :: "'s \<Rightarrow> (string \<Rightarrow> job_status option) \<Rightarrow> bool" where
  "agrees s view \<longleftrightarrow> (\<forall>k st. view k = Some st \<longrightarrow> lookup s k = Some st)"

lemma save_agrees:
  "wf s \<Longrightarrow> save i s = Some s' \<Longrightarrow> agrees s view \<Longrightarrow> agrees s' (view(ident i \<mapsto> state_of i))"
  by (simp add: agrees_def save_lookup)

end

lemma upsert_status:
  "map_of (map (\<lambda>r. (row_id r, row_status r)) (upsert row db)) =
     (map_of (map (\<lambda>r. (row_id r, row_status r)) db))(row_id row \<mapsto> row_status row)"
  by (induction row db rule: upsert.induct) (auto simp: fun_eq_iff)

lemma upsert_ids: "row_id ` set (upsert row db) = insert (row_id row) (row_id ` set db)"
  by (induction row db rule: upsert.induct) auto

lemma upsert_distinct: "distinct (map row_id db) \<Longrightarrow> distinct (map row_id (upsert row db))"
proof (induction row db rule: upsert.induct)
  case (2 row r rs)
  then show ?case using upsert_ids [of row rs] by auto
qed simp

lemma row_of_item_key [simp]:
  "row_id (row_of_item now i) = qi_ID i" "row_status (row_of_item now i) = qi_Status i"
  by (simp_all add: row_of_item_def Let_def)

lemma delete_status:
  "map_of (map (\<lambda>r. (row_id r, row_status r)) (filter (\<lambda>r. row_id r \<notin> X) db)) =
     map_of (map (\<lambda>r. (row_id r, row_status r)) db) |` (- X)"
  by (induction db) (auto simp: fun_eq_iff restrict_map_def)

interpretation jobs: status_table "SaveQueueItem now" "\<lambda>ids db. snd (DeleteQueueItems ids db)"
  db_status qi_ID qi_Status distinct_ids
proof unfold_locales
  fix s s' :: job_store and i :: queue_item and ids
  show "distinct_ids s \<Longrightarrow> SaveQueueItem now i s = Some s' \<Longrightarrow>
      db_status s' = (db_status s)(qi_ID i \<mapsto> qi_Status i)"
    by (auto simp: SaveQueueItem_def db_status_def Let_def upsert_status split: if_splits)
  show "distinct_ids s \<Longrightarrow> SaveQueueItem now i s = Some s' \<Longrightarrow> distinct_ids s'"
    by (auto simp: SaveQueueItem_def distinct_ids_def Let_def upsert_distinct split: if_splits)
  show "db_status (snd (DeleteQueueItems ids s)) = db_status s |` (- set ids)"
    by (simp add: DeleteQueueItems_def db_status_def delete_status restrict_map_def)
  show "distinct_ids s \<Longrightarrow> distinct_ids (snd (DeleteQueueItems ids s))"
    by (simp add: DeleteQueueItems_def distinct_ids_def distinct_map_filter)
qed

end
