(* ===== verification/Go_Path.thy ===== *)
theory Go_Path
  imports Go_Prelude
begin

text \<open>
  Path names on Unix: \<open>path/filepath\<close> as far as the program uses it, and the replacement of unsafe characters that
  the names of working directories and of completed directories share (the expressions \<open>queueDirUnsafeRE\<close> and
  \<open>completedPathUnsafeRE\<close> are the same).
\<close>

section \<open>Unsafe characters\<close>

definition dir_char :: "char \<Rightarrow> bool" where
  "dir_char c \<longleftrightarrow>
     (let n = code c in (97 \<le> n \<and> n \<le> 122) \<or> (65 \<le> n \<and> n \<le> 90) \<or> (48 \<le> n \<and> n \<le> 57) \<or>
       c = CHR ''.'' \<or> c = CHR ''_'' \<or> c = CHR ''-'')"

text \<open>\<open>ReplaceAllString(value, "_")\<close> for \<open>[^a-zA-Z0-9._-]+\<close>: each maximal run of other bytes becomes
  one underscore; the flag says that the last byte read was such a byte.\<close>

fun replace_unsafe :: "bool \<Rightarrow> string \<Rightarrow> string" where
  "replace_unsafe inrun [] = []"
| "replace_unsafe inrun (c # cs) =
     (if dir_char c then c # replace_unsafe False cs
      else if inrun then replace_unsafe True cs
      else CHR ''_'' # replace_unsafe True cs)"

definition in_cutset :: "char \<Rightarrow> bool" where
  "in_cutset c \<longleftrightarrow> c \<in> set ''._- ''"

text \<open>\<open>strings.Trim(value, "._- ")\<close>.\<close>

definition trim_cutset :: "string \<Rightarrow> string" where
  "trim_cutset s = rev (dropWhile in_cutset (rev (dropWhile in_cutset s)))"

text \<open>One \<open>strings.ReplaceAll(value, "__", "_")\<close>, and the loop that repeats it.\<close>

fun replace_double :: "string \<Rightarrow> string" where
  "replace_double (CHR ''_'' # CHR ''_'' # cs) = CHR ''_'' # replace_double cs"
| "replace_double (c # cs) = c # replace_double cs"
| "replace_double [] = []"

lemma replace_double_length: "length (replace_double s) \<le> length s"
  by (induction s rule: replace_double.induct) auto

lemma replace_double_shorter: "contains_str ''__'' s \<Longrightarrow> length (replace_double s) < length s"
proof (induction s rule: replace_double.induct)
  case (1 cs)
  then show ?case using replace_double_length [of cs] by simp
qed (auto simp: is_prefix_iff)

function collapse :: "string \<Rightarrow> string" where
  "collapse s = (if contains_str ''__'' s then collapse (replace_double s) else s)"
  by pat_completeness auto
termination
  by (relation "measure length") (simp_all only: in_measure wf_measure replace_double_shorter)

declare collapse.simps [simp del]

lemma replace_unsafe_chars: "list_all dir_char (replace_unsafe b s)"
  by (induction b s rule: replace_unsafe.induct) (auto simp: dir_char_def)

lemma trim_cutset_set: "set (trim_cutset s) \<subseteq> set s"
  unfolding trim_cutset_def by (metis set_dropWhileD set_rev subsetI)

lemma trim_cutset_hd: "trim_cutset s \<noteq> [] \<Longrightarrow> \<not> in_cutset (hd (trim_cutset s))"
proof -
  define u where "u = dropWhile in_cutset s"
  assume "trim_cutset s \<noteq> []"
  moreover have t: "trim_cutset s = rev (dropWhile in_cutset (rev u))"
    by (simp add: trim_cutset_def u_def)
  ultimately have u: "u \<noteq> []" by (cases u) simp_all
  then have hd: "\<not> in_cutset (hd u)" unfolding u_def by (simp add: hd_dropWhile)
  from u have "rev u = rev (tl u) @ [hd u]" by (cases u) simp_all
  then have "dropWhile in_cutset (rev u) = dropWhile in_cutset (rev (tl u)) @ [hd u]"
    using hd by (simp add: dropWhile_append)
  with t hd show ?thesis by simp
qed

lemma replace_double_set: "set (replace_double s) \<subseteq> set s"
  by (induction s rule: replace_double.induct) auto

lemma replace_double_hd: "s \<noteq> [] \<Longrightarrow> replace_double s \<noteq> [] \<and> hd (replace_double s) = hd s"
  by (induction s rule: replace_double.induct) auto

lemma collapse_set: "set (collapse s) \<subseteq> set s"
proof (induction s rule: collapse.induct)
  case (1 s)
  then show ?case
    using replace_double_set [of s] by (subst collapse.simps) auto
qed

lemma collapse_hd: "s \<noteq> [] \<Longrightarrow> collapse s \<noteq> [] \<and> hd (collapse s) = hd s"
proof (induction s rule: collapse.induct)
  case (1 s)
  show ?case
  proof (cases "contains_str ''__'' s")
    case True
    with 1 replace_double_hd [of s] have "collapse (replace_double s) \<noteq> [] \<and> hd (collapse (replace_double s)) = hd s"
      by simp
    with True show ?thesis by (simp add: collapse.simps [of s])
  next
    case False
    with 1 show ?thesis by (simp add: collapse.simps [of s])
  qed
qed

lemma collapse_no_double: "\<not> contains_str ''__'' (collapse s)"
proof (induction s rule: collapse.induct)
  case (1 s)
  then show ?case by (cases "contains_str ''__'' s") (simp_all add: collapse.simps [of s])
qed

section \<open>Joining and cleaning\<close>

text \<open>\<open>filepath.Join\<close> of two elements on Unix: empty elements are dropped, the rest is joined
  with a slash and cleaned (\<open>filepath.Clean\<close>: empty and dot elements vanish, a dot-dot removes
  the element before it).\<close>

fun split_slash :: "string \<Rightarrow> string \<Rightarrow> string list" where
  "split_slash acc [] = [rev acc]"
| "split_slash acc (c # cs) =
     (if c = CHR ''/'' then rev acc # split_slash [] cs else split_slash (c # acc) cs)"

fun clean_elems :: "bool \<Rightarrow> string list \<Rightarrow> string list \<Rightarrow> string list" where
  "clean_elems rooted out [] = rev out"
| "clean_elems rooted out (e # es) =
     (if e = [] \<or> e = ''.'' then clean_elems rooted out es
      else if e = ''..'' then
        (case out of
           [] \<Rightarrow> clean_elems rooted (if rooted then [] else [''..'']) es
         | p # ps \<Rightarrow> if p = ''..'' then clean_elems rooted (''..'' # p # ps) es
                     else clean_elems rooted ps es)
      else clean_elems rooted (e # out) es)"

fun join_slash :: "string list \<Rightarrow> string" where
  "join_slash [] = []"
| "join_slash [e] = e"
| "join_slash (e # es) = e @ CHR ''/'' # join_slash es"

definition clean_path :: "string \<Rightarrow> string" where
  "clean_path p =
     (if p = [] then ''.''
      else
        (let rooted = (hd p = CHR ''/''); es = clean_elems rooted [] (split_slash [] p)
         in if rooted then CHR ''/'' # join_slash es
            else if es = [] then ''.'' else join_slash es))"

definition path_join :: "string \<Rightarrow> string \<Rightarrow> string" where
  "path_join a b =
     (if a = [] \<and> b = [] then []
      else if a = [] then clean_path b
      else if b = [] then clean_path a
      else clean_path (a @ CHR ''/'' # b))"

text \<open>A path element that \<open>filepath.Clean\<close> keeps.\<close>

definition ordinary :: "string \<Rightarrow> bool" where
  "ordinary e \<longleftrightarrow> e \<noteq> [] \<and> e \<noteq> ''.'' \<and> e \<noteq> ''..'' \<and> CHR ''/'' \<notin> set e"

lemma split_slash_plain: "CHR ''/'' \<notin> set e \<Longrightarrow> split_slash acc (e @ s) = split_slash (rev e @ acc) s"
  by (induction e arbitrary: acc) auto

lemma split_join:
  "es \<noteq> [] \<Longrightarrow> list_all ordinary es \<Longrightarrow> split_slash [] (join_slash es) = es"
proof (induction es rule: join_slash.induct)
  case (2 e)
  then show ?case using split_slash_plain [of e "[]" "[]"] by (simp add: ordinary_def)
next
  case (3 e f es)
  then show ?case
    using split_slash_plain [of e "[]" "CHR ''/'' # join_slash (f # es)"] by (simp add: ordinary_def)
qed simp

lemma clean_ordinary: "list_all ordinary es \<Longrightarrow> clean_elems rooted out es = rev out @ es"
  by (induction es arbitrary: out) (auto simp: ordinary_def)

lemma clean_join:
  assumes "list_all ordinary es" and "es \<noteq> []"
  shows "clean_path (CHR ''/'' # join_slash es) = CHR ''/'' # join_slash es"
  using assms by (simp add: clean_path_def split_join clean_ordinary)

lemma join_slash_snoc: "es \<noteq> [] \<Longrightarrow> join_slash (es @ [e]) = join_slash es @ CHR ''/'' # e"
  by (induction es rule: join_slash.induct) auto

lemma path_join_below:
  assumes "list_all ordinary es" and "es \<noteq> []" and "ordinary name"
  shows "path_join (CHR ''/'' # join_slash es) name = CHR ''/'' # join_slash es @ CHR ''/'' # name"
  using assms clean_join [of "es @ [name]"]
  by (simp add: path_join_def join_slash_snoc ordinary_def)

section \<open>Parts of a path\<close>

definition has_suffix :: "string \<Rightarrow> string \<Rightarrow> bool" where
  "has_suffix suf s \<longleftrightarrow> is_prefix (rev suf) (rev s)"

definition rooted :: "string \<Rightarrow> bool" where
  "rooted p \<longleftrightarrow> is_prefix ''/'' p"

text \<open>\<open>filepath.Base\<close>, \<open>filepath.Dir\<close>, \<open>filepath.Ext\<close>.\<close>

definition base_name :: "string \<Rightarrow> string" where
  "base_name p =
     (if p = [] then ''.''
      else (let q = rev (dropWhile (\<lambda>c. c = CHR ''/'') (rev p))
            in if q = [] then ''/'' else last (split_slash [] q)))"

definition dir_name :: "string \<Rightarrow> string" where
  "dir_name p = clean_path (rev (dropWhile (\<lambda>c. c \<noteq> CHR ''/'') (rev p)))"

definition path_ext :: "string \<Rightarrow> string" where
  "path_ext p =
     (let e = last (split_slash [] p)
      in if CHR ''.'' \<in> set e then CHR ''.'' # rev (takeWhile (\<lambda>c. c \<noteq> CHR ''.'') (rev e)) else [])"

text \<open>The elements of a cleaned path; the root has none.\<close>

definition path_elems :: "string \<Rightarrow> string list" where
  "path_elems p = (let q = (if rooted p then tl p else p) in if q = [] then [] else split_slash [] q)"

fun drop_common :: "string list \<Rightarrow> string list \<Rightarrow> string list \<times> string list" where
  "drop_common (b # bs) (t # ts) = (if b = t then drop_common bs ts else (b # bs, t # ts))"
| "drop_common bs ts = (bs, ts)"

text \<open>\<open>filepath.Rel\<close>; \<open>None\<close>: there is no such path.\<close>

definition path_rel :: "string \<Rightarrow> string \<Rightarrow> string option" where
  "path_rel bas targ =
     (let b = clean_path bas; t = clean_path targ
      in if t = b then Some ''.''
         else (let b = (if b = ''.'' then [] else b)
               in if rooted b \<noteq> rooted t then None
                  else (let (bs, ts) = drop_common (path_elems b) (path_elems t)
                        in if bs = [] then Some (join_slash ts)
                           else if hd bs = ''..'' then None
                           else Some (join_slash (replicate (length bs) ''..'' @ ts)))))"

text \<open>\<open>filepath.Abs\<close> in the working directory \<open>cwd\<close> of the process.\<close>

definition path_abs :: "string \<Rightarrow> string \<Rightarrow> string" where
  "path_abs cwd p = (if rooted p then clean_path p else path_join cwd p)"

text \<open>The absolute clean path with these elements.\<close>

definition path_of :: "string list \<Rightarrow> string" where
  "path_of es = CHR ''/'' # join_slash es"

lemma split_slash_ne: "split_slash acc s \<noteq> []"
  by (induction acc s rule: split_slash.induct) auto

lemma split_slash_no_slash: "CHR ''/'' \<notin> set acc \<Longrightarrow> e \<in> set (split_slash acc s) \<Longrightarrow> CHR ''/'' \<notin> set e"
  by (induction acc s rule: split_slash.induct) (auto split: if_splits)

lemma clean_elems_rooted:
  "list_all ordinary out \<Longrightarrow> \<forall>e\<in>set es. CHR ''/'' \<notin> set e \<Longrightarrow> list_all ordinary (clean_elems True out es)"
  by (induction "True" out es rule: clean_elems.induct) (auto simp: ordinary_def split: list.splits)

lemma join_slash_empty [simp]: "list_all ordinary es \<Longrightarrow> join_slash es = [] \<longleftrightarrow> es = []"
  by (cases es rule: join_slash.cases) (auto simp: ordinary_def)

text \<open>An absolute path is \<open>path_of\<close> its clean elements.\<close>

lemma clean_rooted:
  assumes "rooted p"
  obtains es where "clean_path p = path_of es" "list_all ordinary es"
proof
  have p: "p \<noteq> []" "hd p = CHR ''/''" using assms by (cases p; simp add: rooted_def)+
  then show "clean_path p = path_of (clean_elems True [] (split_slash [] p))" by (simp add: clean_path_def Let_def path_of_def)
  show "list_all ordinary (clean_elems True [] (split_slash [] p))"
    by (rule clean_elems_rooted) (auto dest: split_slash_no_slash [rotated])
qed

lemma rooted_path_of [simp]: "rooted (path_of es)"
  by (simp add: path_of_def rooted_def)

lemma elems_path_of [simp]: "list_all ordinary es \<Longrightarrow> path_elems (path_of es) = es"
  by (cases "es = []") (simp_all add: path_elems_def path_of_def rooted_def Let_def split_join)

lemma clean_path_of [simp]: "list_all ordinary es \<Longrightarrow> clean_path (path_of es) = path_of es"
  by (cases "es = []") (simp_all add: path_of_def clean_join, simp add: clean_path_def)

lemma path_of_inject [simp]:
  "list_all ordinary es \<Longrightarrow> list_all ordinary fs \<Longrightarrow> path_of es = path_of fs \<longleftrightarrow> es = fs"
  using elems_path_of by metis

lemma path_abs_rooted: "rooted cwd \<Longrightarrow> \<exists>es. path_abs cwd p = path_of es \<and> list_all ordinary es"
proof (cases "rooted p")
  case True
  then show ?thesis using clean_rooted [of p] by (metis path_abs_def)
next
  case False
  assume c: "rooted cwd"
  then have "rooted (cwd @ x)" "cwd \<noteq> []" for x by (cases cwd; simp add: rooted_def)+
  then have "\<exists>q. rooted q \<and> path_abs cwd p = clean_path q" using False c by (auto simp: path_abs_def path_join_def)
  then show ?thesis using clean_rooted by metis
qed

lemma split_slash_append: "split_slash acc (a @ CHR ''/'' # b) = split_slash acc a @ split_slash [] b"
  by (induction acc a rule: split_slash.induct) auto

lemma clean_path_append:
  assumes "list_all ordinary es"
  shows "clean_path (path_of es @ CHR ''/'' # p) = path_of (clean_elems True (rev es) (split_slash [] p))"
proof -
  have s: "split_slash [] (path_of es) = [] # (if es = [] then [[]] else es)"
    using assms split_join [of es] by (cases "es = []") (simp_all add: path_of_def)
  have c: "clean_elems True out (fs @ gs) = clean_elems True (rev fs @ out) gs" if "list_all ordinary fs" for out fs gs
    using that by (induction fs arbitrary: out) (auto simp: ordinary_def)
  have "split_slash [] (path_of es @ CHR ''/'' # p) = [] # (if es = [] then [[]] else es) @ split_slash [] p"
    by (simp add: split_slash_append s)
  then have "clean_elems True [] (split_slash [] (path_of es @ CHR ''/'' # p)) = clean_elems True (rev es) (split_slash [] p)"
    using c [of es] assms by simp
  then show ?thesis by (simp add: clean_path_def path_of_def)
qed

lemma path_join_of:
  assumes "list_all ordinary es" "list_all ordinary fs" "fs \<noteq> []"
  shows "path_join (path_of es) (join_slash fs) = path_of (es @ fs)"
proof -
  have "clean_path (path_of es @ CHR ''/'' # join_slash fs) = path_of (es @ fs)"
    using assms by (simp add: clean_path_append split_join clean_ordinary)
  then show ?thesis using assms(2,3) by (simp add: path_join_def path_of_def)
qed

lemma join_slash_append: "es \<noteq> [] \<Longrightarrow> fs \<noteq> [] \<Longrightarrow> join_slash (es @ fs) = join_slash es @ CHR ''/'' # join_slash fs"
proof (induction es rule: join_slash.induct)
  case (2 e)
  then show ?case by (cases fs) auto
qed auto

lemma dir_name_of:
  assumes "list_all ordinary es"
  shows "dir_name (path_of es) = path_of (butlast es)"
proof (cases es rule: rev_cases)
  case (snoc fs e)
  with assms have e: "CHR ''/'' \<notin> set e" and fs: "list_all ordinary fs" by (auto simp: ordinary_def)
  have "path_of es = (if fs = [] then ''/'' else path_of fs @ ''/'') @ e"
    using snoc by (simp add: path_of_def join_slash_append)
  moreover have "dropWhile (\<lambda>c. c \<noteq> CHR ''/'') (rev e @ CHR ''/'' # x) = CHR ''/'' # x" for x
    using e by (subst dropWhile_append2) auto
  ultimately have "rev (dropWhile (\<lambda>c. c \<noteq> CHR ''/'') (rev (path_of es))) = (if fs = [] then ''/'' else path_of fs @ ''/'')"
    by simp
  moreover have "clean_path (path_of fs @ ''/'') = path_of fs" "clean_path ''/'' = path_of []"
    using clean_path_append [OF fs, of "[]"] by (simp, simp add: clean_path_def path_of_def)
  ultimately show ?thesis using snoc by (simp add: dir_name_def)
qed (simp add: path_of_def dir_name_def clean_path_def)

lemma base_name_of:
  assumes "list_all ordinary es" "es \<noteq> []"
  shows "base_name (path_of es) = last es"
proof -
  obtain fs e where es: "es = fs @ [e]" using assms(2) by (cases es rule: rev_cases) auto
  with assms have e: "CHR ''/'' \<notin> set e" "e \<noteq> []" by (auto simp: ordinary_def)
  obtain e' c where c: "e = e' @ [c]" using e(2) by (cases e rule: rev_cases) auto
  obtain pre where "path_of es = pre @ e" using es by (cases "fs = []") (simp_all add: path_of_def join_slash_append)
  with c e(1) have d: "dropWhile (\<lambda>c. c = CHR ''/'') (rev (path_of es)) = rev (path_of es)" by (cases "c = CHR ''/''") simp_all
  have "last (split_slash [] (path_of es)) = e"
    using split_join [OF assms(2,1)] es by (simp add: path_of_def)
  with d es show ?thesis by (simp add: base_name_def path_of_def)
qed

lemma base_name_no_slash: "CHR ''/'' \<notin> set (base_name p) \<or> base_name p = ''/''"
  unfolding base_name_def Let_def using split_slash_no_slash [OF _ last_in_set [OF split_slash_ne]] by auto

section \<open>Going up\<close>

text \<open>\<open>filepath.Dir\<close> of a path is the path itself, or nearer to the end of the way up by this measure.\<close>

definition up_measure :: "string \<Rightarrow> nat" where
  "up_measure c = (if c = ''.'' then 0 else length c + 1)"

definition elems_size :: "string list \<Rightarrow> nat" where
  "elems_size es = sum_list (map (\<lambda>e. length e + 1) es)"

lemma split_slash_size: "elems_size (split_slash acc s) = length acc + length s + 1"
  by (induction acc s rule: split_slash.induct) (auto simp: elems_size_def)

lemma clean_elems_size: "elems_size (clean_elems r out es) \<le> elems_size out + elems_size es"
proof (induction r out es rule: clean_elems.induct)
  case (1 r out)
  then show ?case by (simp add: elems_size_def rev_map [symmetric])
next
  case (2 r out e es)
  consider "e = [] \<or> e = ''.''" | "e = ''..''" | "e \<noteq> []" "e \<noteq> ''.''" "e \<noteq> ''..''" by blast
  then show ?case
  proof cases
    case 2
    then show ?thesis using "2.IH" by (cases out) (auto simp: elems_size_def)
  qed (use "2.IH" in \<open>auto simp: elems_size_def\<close>)
qed

lemma clean_elems_snoc_empty: "clean_elems r out (es @ [[]]) = clean_elems r out es"
  by (induction r out es rule: clean_elems.induct) (auto split: list.split)

lemma join_slash_size: "es \<noteq> [] \<Longrightarrow> length (join_slash es) + 1 = elems_size es"
  by (induction es rule: join_slash.induct) (auto simp: elems_size_def)

lemma clean_path_shorter:
  assumes "last q = CHR ''/''" "q \<noteq> []"
  shows "length (clean_path q) < length q \<or> clean_path q = ''/'' \<or> clean_path q = ''.''"
proof -
  obtain q' where q: "q = q' @ CHR ''/'' # []" using assms by (metis append_butlast_last_id)
  define es where "es = clean_elems (hd q = CHR ''/'') [] (split_slash [] q)"
  have e: "es = clean_elems (hd q = CHR ''/'') [] (split_slash [] q')"
    unfolding es_def by (subst q, simp only: split_slash_append split_slash.simps rev.simps clean_elems_snoc_empty)
  have s: "elems_size es \<le> length q' + 1"
    using clean_elems_size [of "hd q = CHR ''/''" "[]" "split_slash [] q'"] split_slash_size [of "[]" q'] by (simp add: e elems_size_def)
  have r: "elems_size es \<le> length q'" if "hd q = CHR ''/''" "q' \<noteq> []"
  proof -
    have "q' = CHR ''/'' # tl q'" using that q by (cases q') auto
    then have "es = clean_elems True [] (split_slash [] (tl q'))" using e that(1)
      by (metis (full_types) clean_elems.simps(2) rev.simps(1) split_slash.simps(2))
    then show ?thesis using clean_elems_size [of True "[]" "split_slash [] (tl q')"] split_slash_size [of "[]" "tl q'"] that(2)
      by (simp add: elems_size_def)
  qed
  have cp: "clean_path q = (if hd q = CHR ''/'' then CHR ''/'' # join_slash es else if es = [] then ''.'' else join_slash es)"
    using assms(2) by (simp add: clean_path_def Let_def es_def)
  have q1: "es = []" if "q' = []" using that by (simp add: e)
  have l: "length q = length q' + 1" using q by simp
  show ?thesis
  proof (cases "es = []")
    case False
    with q1 have n: "q' \<noteq> []" by blast
    note j = join_slash_size [OF False]
    show ?thesis using s r [OF _ n] j l by (cases "hd q = CHR ''/''") (simp_all add: cp False)
  qed (simp add: cp)
qed

lemma dir_name_up: "dir_name c = c \<or> up_measure (dir_name c) < up_measure c"
proof -
  define q where "q = rev (dropWhile (\<lambda>x. x \<noteq> CHR ''/'') (rev c))"
  obtain t where c: "c = q @ t" unfolding q_def by (metis rev_append rev_rev_ident takeWhile_dropWhile_id)
  have d: "dir_name c = clean_path q" by (simp add: dir_name_def q_def)
  show ?thesis
  proof (cases "q = []")
    case True
    then show ?thesis using d by (auto simp: clean_path_def up_measure_def)
  next
    case False
    have "hd (dropWhile (\<lambda>x. x \<noteq> CHR ''/'') (rev c)) = CHR ''/''"
      using False hd_dropWhile [of "\<lambda>x. x \<noteq> CHR ''/''" "rev c"] by (simp add: q_def)
    with False have l: "last q = CHR ''/''" by (simp only: q_def last_rev rev_is_Nil_conv not_False_eq_True)
    then have n: "c \<noteq> ''.''" using c False by (cases q) auto
    from clean_path_shorter [OF l False] show ?thesis
    proof (elim disjE)
      assume a: "clean_path q = ''/''"
      have "length c \<ge> 2 \<or> c = ''/''" using c l False by (cases q; cases "tl q"; cases t) auto
      then show ?thesis using a d n by (auto simp: up_measure_def)
    qed (use d c n in \<open>auto simp: up_measure_def\<close>)
  qed
qed

lemma trim_space_length: "length (trim_space s) \<le> length s"
proof -
  have "length (trim_left s) \<le> length s" for s
    by (induction s rule: trim_left.induct) (auto simp: Let_def intro: le_trans)
  moreover have "length (trim_left_rev s) \<le> length s" for s
    by (induction s rule: trim_left_rev.induct) (auto simp: Let_def intro: le_trans)
  ultimately show ?thesis unfolding trim_space_def by (metis le_trans length_rev)
qed

lemma up_measure_trim: "up_measure (trim_space c) \<le> up_measure c"
proof (cases "c = ''.''")
  case True
  moreover have "trim_space ''.'' = ''.''" by code_simp
  ultimately show ?thesis by simp
qed (use trim_space_length [of c] in \<open>simp add: up_measure_def\<close>)

end
