(* ===== verification/Queue_Manager.thy ===== *)
theory Queue_Manager
  imports Job_Store Go_Path
begin

text \<open>
  The download queue: \<open>internal/engine/manager.go\<close> and \<open>internal/engine/workflow.go\<close>.
  Queue items are shared by pointer, so they live in a heap and the queue holds references.
  The resolver, the payload fetcher, the NZB parser, the processor and the downloader are
  interfaces the manager is given; what they return enters as an argument of the step that calls
  them. Log output and the best-effort Arr notification are not modelled.
\<close>

section \<open>State\<close>

record queue_config =
  PayloadCacheEnabled :: bool
  OutDir :: string

record queue_manager =
  items :: "nat \<Rightarrow> queue_item"
  next_ref :: nat
  queue :: "nat list"
  activeItem :: "nat option"
  paused :: bool
  pauseRequestedID :: string
  running :: bool
  stopped :: bool
  newJobChan :: bool
  cancelled :: "nat set"
  next_ctx :: nat
  store :: job_store
  save_failed :: bool
  events :: "queue_event list"

definition blank_item :: queue_item where
  "blank_item = \<lparr>qi_ID = [], qi_ReleaseID = [], qi_Release = None, qi_Status = StatusPending,
     qi_OutDir = [], qi_SourceKind = [], qi_SourceReleaseID = [], qi_ReleaseTitle = [],
     qi_ReleaseSize = 0, qi_ReleaseSnapshotJSON = NoText, qi_PayloadMode = [],
     qi_Resumable = False, qi_Tasks = [], qi_BytesWritten = 0, qi_CreatedAt = None,
     qi_UpdatedAt = None, qi_StartedAt = None, qi_CompletedAt = None, qi_DownloadedBytes = 0,
     qi_AvgBps = 0, qi_DownloadSeconds = 0, qi_PostProcessSeconds = 0,
     qi_DownloadStartedAt = None, qi_ProcessingStartedAt = None, qi_Error = None,
     qi_CancelFunc = None\<rparr>"

definition NewQueueManager :: "job_store \<Rightarrow> queue_manager" where
  "NewQueueManager db = \<lparr>items = (\<lambda>_. blank_item), next_ref = 0, queue = [], activeItem = None,
     paused = False, pauseRequestedID = [], running = False, stopped = False,
     newJobChan = False, cancelled = {}, next_ctx = 0, store = db, save_failed = False,
     events = []\<rparr>"

text \<open>What every operation starts from: the clock and whether the database answers.\<close>

record env =
  now :: int
  db_up :: bool

section \<open>Persistence\<close>

definition saveItem :: "env \<Rightarrow> nat \<Rightarrow> queue_manager \<Rightarrow> queue_manager" where
  "saveItem e r m =
     (case (if db_up e then SaveQueueItem (now e) (items m r) (store m) else None) of
        Some db \<Rightarrow> m\<lparr>store := db\<rparr>
      | None \<Rightarrow> m\<lparr>save_failed := True\<rparr>)"

definition recordEvent ::
  "string \<Rightarrow> string \<Rightarrow> string \<Rightarrow> string \<Rightarrow> queue_manager \<Rightarrow> queue_manager" where
  "recordEvent qid stage st msg m =
     m\<lparr>events := events m @
        [\<lparr>ev_QueueID = qid, ev_Stage = stage, ev_Status = st, ev_Message = msg\<rparr>]\<rparr>"

definition set_item :: "nat \<Rightarrow> queue_item \<Rightarrow> queue_manager \<Rightarrow> queue_manager" where
  "set_item r i m = m\<lparr>items := (items m)(r := i)\<rparr>"

text \<open>The first reference in the list whose item has the ID is removed.\<close>

fun remove_first :: "(nat \<Rightarrow> queue_item) \<Rightarrow> string \<Rightarrow> nat list \<Rightarrow> nat list" where
  "remove_first h qid [] = []"
| "remove_first h qid (r # rs) = (if qi_ID (h r) = qid then rs else r # remove_first h qid rs)"

definition removeFromLiveQueue :: "string \<Rightarrow> queue_manager \<Rightarrow> queue_manager" where
  "removeFromLiveQueue qid m = m\<lparr>queue := remove_first (items m) qid (queue m)\<rparr>"

text \<open>\<open>now.Sub(t).Seconds()\<close> as an \<open>int64\<close>.\<close>

definition secs_since :: "int \<Rightarrow> gotime \<Rightarrow> int" where
  "secs_since n t = (case t of None \<Rightarrow> 0 | Some s \<Rightarrow> gdiv (n - s) 1000000000)"

definition or_now :: "gotime \<Rightarrow> int \<Rightarrow> gotime" where
  "or_now t n = (if t = None then Some n else t)"

section \<open>Working directories\<close>

definition sanitizeQueueDirComponent :: "string \<Rightarrow> string" where
  "sanitizeQueueDirComponent s0 =
     (let s = trim_space s0
      in if s = [] then []
         else take 80 (collapse (trim_cutset (replace_unsafe False s))))"

definition buildQueueItemOutDir :: "string \<Rightarrow> string \<Rightarrow> string \<Rightarrow> string" where
  "buildQueueItemOutDir baseDir title qid =
     (let name = sanitizeQueueDirComponent title;
          name = (if name = [] then ''job'' else name);
          name = (if qid \<noteq> [] then name @ ''_'' @ qid else name)
      in path_join baseDir name)"

section \<open>Release snapshots\<close>

definition buildReleaseSnapshotJSON :: "release option \<Rightarrow> snapshot_text" where
  "buildReleaseSnapshotJSON rel =
     (case rel of
        None \<Rightarrow> ObjText []
      | Some r \<Rightarrow>
          ObjText [(''id'', JString (rel_ID r)), (''title'', JString (rel_Title r)),
            (''guid'', JString (rel_GUID r)), (''source'', JString (rel_Source r)),
            (''download_url'', JString (rel_DownloadURL r)), (''size'', JNumber (rel_Size r)),
            (''category'', JString (rel_Category r)),
            (''redirect_allowed'', JBool (rel_RedirectAllowed r))])"

text \<open>The same object read into the struct of \<open>hydrateReleaseFromSnapshot\<close>.\<close>

definition unmarshal_snapshot :: "snapshot_text \<Rightarrow> release option" where
  "unmarshal_snapshot t =
     (case t of
        ObjText obj \<Rightarrow>
          (case (jstr ''id'' obj, jstr ''title'' obj, jstr ''guid'' obj, jstr ''source'' obj,
                 jstr ''download_url'' obj, jnum ''size'' obj, jstr ''category'' obj,
                 jbool ''redirect_allowed'' obj) of
             (Some i, Some ti, Some g, Some src, Some url, Some sz, Some cat, Some ra) \<Rightarrow>
               Some (empty_release\<lparr>rel_ID := i, rel_Title := ti, rel_GUID := g, rel_Source := src,
                 rel_DownloadURL := url, rel_Size := sz, rel_Category := cat,
                 rel_RedirectAllowed := ra\<rparr>)
           | _ \<Rightarrow> None)
      | _ \<Rightarrow> None)"

definition or_else :: "string \<Rightarrow> string \<Rightarrow> string" where
  "or_else s d = (if s = [] then d else s)"

definition hydrateReleaseFromSnapshot :: "queue_item \<Rightarrow> release" where
  "hydrateReleaseFromSnapshot item =
     (case (if qi_ReleaseSnapshotJSON item \<noteq> NoText \<and> qi_ReleaseSnapshotJSON item \<noteq> ObjText []
            then unmarshal_snapshot (qi_ReleaseSnapshotJSON item) else None) of
        Some rel \<Rightarrow>
          rel\<lparr>rel_ID := or_else (rel_ID rel) (qi_SourceReleaseID item),
              rel_GUID := or_else (rel_GUID rel) (qi_SourceReleaseID item),
              rel_Source := or_else (rel_Source rel) (qi_SourceKind item),
              rel_Title := or_else (rel_Title rel) (qi_ReleaseTitle item),
              rel_Category := or_else (rel_Category rel) ''Uncategorized''\<rparr>
      | None \<Rightarrow>
          (let rel = empty_release\<lparr>rel_ID := qi_SourceReleaseID item,
                       rel_GUID := qi_SourceReleaseID item, rel_Title := qi_ReleaseTitle item,
                       rel_Size := qi_ReleaseSize item, rel_Source := qi_SourceKind item,
                       rel_Category := ''Uncategorized''\<rparr>;
               rel = (if rel_ID rel = []
                      then rel\<lparr>rel_ID := qi_ReleaseID item, rel_GUID := qi_ReleaseID item\<rparr>
                      else rel)
           in rel\<lparr>rel_Title := or_else (rel_Title rel) (qi_ID item)\<rparr>))"

section \<open>Adding a job\<close>

record queue_add_request =
  qr_SourceKind :: string
  qr_SourceReleaseID :: string
  qr_Release :: "release option"
  qr_Title :: string

definition request_release :: "queue_add_request \<Rightarrow> release" where
  "request_release req =
     (let rel = (case qr_Release req of
                   Some r \<Rightarrow> r
                 | None \<Rightarrow> empty_release\<lparr>rel_ID := qr_SourceReleaseID req,
                             rel_GUID := qr_SourceReleaseID req, rel_Title := qr_Title req,
                             rel_Source := qr_SourceKind req,
                             rel_Category := ''Uncategorized''\<rparr>)
      in rel\<lparr>rel_ID := or_else (rel_ID rel) (qr_SourceReleaseID req),
             rel_GUID := or_else (rel_GUID rel) (qr_SourceReleaseID req),
             rel_Title := or_else (or_else (rel_Title rel) (qr_Title req)) (qr_SourceReleaseID req),
             rel_Source := or_else (rel_Source rel) (qr_SourceKind req),
             rel_Category := or_else (rel_Category rel) ''Uncategorized''\<rparr>)"

definition new_item :: "env \<Rightarrow> queue_config option \<Rightarrow> string \<Rightarrow> queue_add_request \<Rightarrow> queue_item" where
  "new_item e cfg qid req =
     (let rel = request_release req;
          ephemeral = (case cfg of Some c \<Rightarrow> \<not> PayloadCacheEnabled c | None \<Rightarrow> False);
          outDir = (case cfg of
                      Some c \<Rightarrow> if OutDir c \<noteq> []
                                then buildQueueItemOutDir (OutDir c) (rel_Title rel) qid else []
                    | None \<Rightarrow> [])
      in blank_item\<lparr>qi_ID := qid, qi_ReleaseID := qr_SourceReleaseID req, qi_Release := Some rel,
           qi_Status := StatusPending, qi_OutDir := outDir, qi_SourceKind := qr_SourceKind req,
           qi_SourceReleaseID := qr_SourceReleaseID req, qi_ReleaseTitle := rel_Title rel,
           qi_ReleaseSize := rel_Size rel,
           qi_ReleaseSnapshotJSON := buildReleaseSnapshotJSON (Some rel),
           qi_PayloadMode := (if ephemeral then PayloadModeEphemeral else PayloadModeCached),
           qi_Resumable := \<not> ephemeral, qi_CreatedAt := Some (now e),
           qi_UpdatedAt := Some (now e)\<rparr>)"

text \<open>\<open>Add\<close> up to the event, and the non-blocking send that ends it. \<open>qid\<close> is the fresh KSUID.\<close>

definition add_item ::
  "env \<Rightarrow> queue_config option \<Rightarrow> string \<Rightarrow> queue_add_request \<Rightarrow> queue_manager
     \<Rightarrow> (string + nat) \<times> queue_manager" where
  "add_item e cfg qid req m =
     (if qr_SourceKind req = [] then (Inl ''source kind is required'', m)
      else if qr_SourceReleaseID req = [] then (Inl ''source release id is required'', m)
      else
        (let r = next_ref m;
             m1 = set_item r (new_item e cfg qid req) (m\<lparr>next_ref := Suc r\<rparr>)
         in case (if db_up e then SaveQueueItem (now e) (items m1 r) (store m1) else None) of
              None \<Rightarrow> (Inl ''failed to save job to database'', m)
            | Some db \<Rightarrow>
                (Inr r, recordEvent qid ''queue'' (status_text StatusPending) ''Queued''
                   (m1\<lparr>store := db, queue := queue m1 @ [r]\<rparr>))))"

definition notify :: "queue_manager \<Rightarrow> queue_manager" where
  "notify m = m\<lparr>newJobChan := True\<rparr>"

definition Add ::
  "env \<Rightarrow> queue_config option \<Rightarrow> string \<Rightarrow> queue_add_request \<Rightarrow> queue_manager
     \<Rightarrow> (string + nat) \<times> queue_manager" where
  "Add e cfg qid req m =
     (case add_item e cfg qid req m of
        (Inl err, m') \<Rightarrow> (Inl err, m')
      | (Inr r, m') \<Rightarrow> (Inr r, notify m'))"

section \<open>Start-up\<close>

text \<open>A job that cannot be resumed is closed as failed.\<close>

definition fail_non_resumable :: "env \<Rightarrow> queue_item \<Rightarrow> queue_item" where
  "fail_non_resumable e item =
     item\<lparr>qi_Status := StatusFailed, qi_Error := Some ''payload_not_persisted'',
          qi_StartedAt := or_now (qi_StartedAt item) (now e), qi_CompletedAt := Some (now e),
          qi_UpdatedAt := Some (now e), qi_DownloadedBytes := GetBytes item\<rparr>"

fun load_items :: "env \<Rightarrow> bool \<Rightarrow> queue_item list \<Rightarrow> queue_manager \<Rightarrow> queue_manager" where
  "load_items e cacheOff [] m = m"
| "load_items e cacheOff (i # rest) m =
     (let r = next_ref m; m0 = m\<lparr>next_ref := Suc r\<rparr>
      in if cacheOff \<and> \<not> qi_Resumable i then
           load_items e cacheOff rest
             (recordEvent (qi_ID i) ''hydrate'' ''failed'' ''payload_not_persisted''
                (saveItem e r (set_item r (fail_non_resumable e i) m0)))
         else load_items e cacheOff rest
             ((set_item r i m0)\<lparr>queue := queue m0 @ [r]\<rparr>))"

definition initFromDatabase :: "env \<Rightarrow> queue_config option \<Rightarrow> queue_manager \<Rightarrow> queue_manager" where
  "initFromDatabase e cfg m =
     (if \<not> db_up e then m
      else
        (let m1 = m\<lparr>store := ResetStuckQueueItems (now e) StatusPending
                       [StatusDownloading, StatusProcessing] (store m)\<rparr>;
             cacheOff = (case cfg of Some c \<Rightarrow> \<not> PayloadCacheEnabled c | None \<Rightarrow> False)
         in load_items e cacheOff (GetActiveQueueItems (store m1)) m1))"

section \<open>Requests\<close>

definition GetActiveItem :: "queue_manager \<Rightarrow> queue_item option" where
  "GetActiveItem m = map_option (items m) (activeItem m)"

definition GetItem :: "env \<Rightarrow> string \<Rightarrow> queue_manager \<Rightarrow> queue_item option" where
  "GetItem e qid m =
     (case find (\<lambda>r. qi_ID (items m r) = qid) (queue m) of
        Some r \<Rightarrow> Some (items m r)
      | None \<Rightarrow> if db_up e then GetQueueItem qid (store m) else None)"

definition GetAllItems :: "queue_manager \<Rightarrow> queue_item list" where
  "GetAllItems m = map (items m) (queue m)"

definition Pause :: "queue_manager \<Rightarrow> queue_manager" where
  "Pause m =
     (if paused m then m
      else
        (let m1 = m\<lparr>paused := True\<rparr>
         in case activeItem m1 of
              Some r \<Rightarrow>
                (case qi_CancelFunc (items m1 r) of
                   Some c \<Rightarrow>
                     recordEvent (qi_ID (items m1 r)) ''queue'' ''pause_requested'' ''Pause requested''
                       (m1\<lparr>pauseRequestedID := qi_ID (items m1 r),
                           cancelled := insert c (cancelled m1)\<rparr>)
                 | None \<Rightarrow> m1)
            | None \<Rightarrow> m1))"

text \<open>\<open>Resume\<close> is the change under the lock and, when the queue was paused, a notification.\<close>

definition unpause :: "queue_manager \<Rightarrow> bool \<times> queue_manager" where
  "unpause m = (paused m, m\<lparr>paused := False\<rparr>)"

definition Resume :: "queue_manager \<Rightarrow> queue_manager" where
  "Resume m = (case unpause m of (was, m') \<Rightarrow> if was then notify m' else m')"

definition cancel_pending :: "env \<Rightarrow> nat \<Rightarrow> queue_manager \<Rightarrow> queue_manager" where
  "cancel_pending e r m =
     (let i = items m r;
          i' = i\<lparr>qi_Status := StatusFailed, qi_Error := Some ''Cancelled by user'',
                 qi_StartedAt := or_now (qi_StartedAt i) (now e), qi_CompletedAt := Some (now e),
                 qi_UpdatedAt := Some (now e), qi_DownloadedBytes := GetBytes i\<rparr>
      in recordEvent (qi_ID i) ''queue'' ''cancelled'' ''Cancelled by user''
           (saveItem e r (removeFromLiveQueue (qi_ID i) (set_item r i' m))))"

definition Cancel :: "env \<Rightarrow> string \<Rightarrow> queue_manager \<Rightarrow> bool \<times> queue_manager" where
  "Cancel e qid m =
     (case find (\<lambda>r. qi_ID (items m r) = qid) (queue m) of
        None \<Rightarrow> (False, m)
      | Some r \<Rightarrow>
          (if terminal (qi_Status (items m r)) then (False, m)
           else
             (case qi_CancelFunc (items m r) of
                Some c \<Rightarrow>
                  (True, recordEvent qid ''queue'' ''cancel_requested'' ''Cancellation requested''
                     (m\<lparr>cancelled := insert c (cancelled m)\<rparr>))
              | None \<Rightarrow> (True, cancel_pending e r m))))"

definition Delete :: "env \<Rightarrow> string \<Rightarrow> queue_manager \<Rightarrow> bool \<times> queue_manager" where
  "Delete e qid m =
     (if list_ex (\<lambda>r. qi_ID (items m r) = qid \<and> \<not> terminal (qi_Status (items m r))) (queue m)
      then (False, m)
      else if \<not> db_up e then (False, m)
      else (case DeleteQueueItems [qid] (store m) of (n, db) \<Rightarrow> (0 < n, m\<lparr>store := db\<rparr>)))"

definition Stop :: "queue_manager \<Rightarrow> queue_manager" where
  "Stop m =
     (let m1 = (if running m then m\<lparr>stopped := True\<rparr> else m)
      in case activeItem m1 of
           Some r \<Rightarrow>
             (case qi_CancelFunc (items m1 r) of
                Some c \<Rightarrow> m1\<lparr>cancelled := insert c (cancelled m1)\<rparr>
              | None \<Rightarrow> m1)
         | None \<Rightarrow> m1)"

section \<open>Status changes\<close>

definition mark_status :: "int \<Rightarrow> job_status \<Rightarrow> queue_item \<Rightarrow> queue_item" where
  "mark_status n st i =
     (let i1 = (if st = StatusDownloading then
                  i\<lparr>qi_StartedAt := or_now (qi_StartedAt i) n,
                    qi_DownloadStartedAt := or_now (qi_DownloadStartedAt i) n\<rparr>
                else i);
          i2 = (if st = StatusProcessing then
                  (let j1 = (if qi_DownloadStartedAt i1 \<noteq> None \<and> qi_DownloadSeconds i1 = 0
                             then i1\<lparr>qi_DownloadSeconds := secs_since n (qi_DownloadStartedAt i1)\<rparr>
                             else i1);
                       j2 = j1\<lparr>qi_ProcessingStartedAt := or_now (qi_ProcessingStartedAt j1) n,
                              qi_DownloadedBytes := GetBytes j1\<rparr>
                   in if qi_DownloadSeconds j2 > 0
                      then j2\<lparr>qi_AvgBps := gdiv (qi_DownloadedBytes j2) (qi_DownloadSeconds j2)\<rparr>
                      else j2)
                else i1)
      in i2\<lparr>qi_Status := st, qi_UpdatedAt := Some n\<rparr>)"

definition UpdateStatus :: "env \<Rightarrow> nat \<Rightarrow> job_status \<Rightarrow> queue_manager \<Rightarrow> queue_manager" where
  "UpdateStatus e r st m =
     recordEvent (qi_ID (items m r)) ''queue'' (status_text st) ''Status updated''
       (saveItem e r (set_item r (mark_status (now e) st (items m r)) m))"

text \<open>An error of a job: whether it wraps \<open>context.Canceled\<close>, and its text.\<close>

datatype job_error = JobError (is_canceled: bool) (err_text: string)

text \<open>The item that a paused job becomes: back in the queue, its run-time markers cleared.\<close>

definition requeue_item :: "int \<Rightarrow> queue_item \<Rightarrow> queue_item" where
  "requeue_item n i =
     i\<lparr>qi_Status := StatusPending, qi_Error := None, qi_UpdatedAt := Some n,
       qi_CompletedAt := None, qi_CancelFunc := None, qi_DownloadStartedAt := None,
       qi_ProcessingStartedAt := None, qi_DownloadSeconds := 0, qi_PostProcessSeconds := 0,
       qi_AvgBps := 0\<rparr>"

definition finish_item :: "int \<Rightarrow> job_error option \<Rightarrow> queue_item \<Rightarrow> queue_item" where
  "finish_item n err i =
     (let i1 = i\<lparr>qi_StartedAt := or_now (qi_StartedAt i) n,
                 qi_CompletedAt := or_now (qi_CompletedAt i) n\<rparr>;
          i2 = (if qi_DownloadStartedAt i1 \<noteq> None \<and> qi_DownloadSeconds i1 = 0
                then i1\<lparr>qi_DownloadSeconds := secs_since n (qi_DownloadStartedAt i1)\<rparr> else i1);
          i3 = (if qi_ProcessingStartedAt i2 \<noteq> None \<and> qi_PostProcessSeconds i2 = 0
                then i2\<lparr>qi_PostProcessSeconds := secs_since n (qi_ProcessingStartedAt i2)\<rparr>
                else i2);
          i4 = i3\<lparr>qi_DownloadedBytes := GetBytes i3\<rparr>;
          i5 = (if qi_DownloadSeconds i4 > 0
                then i4\<lparr>qi_AvgBps := gdiv (qi_DownloadedBytes i4) (qi_DownloadSeconds i4)\<rparr>
                else i4);
          i6 = i5\<lparr>qi_UpdatedAt := Some n, qi_CancelFunc := None\<rparr>
      in case err of
           Some x \<Rightarrow>
             i6\<lparr>qi_Status := StatusFailed,
                qi_Error := Some (if is_canceled x then ''Cancelled by user'' else err_text x)\<rparr>
         | None \<Rightarrow> i6\<lparr>qi_Status := StatusCompleted, qi_Error := None\<rparr>)"

definition finalizeJob :: "env \<Rightarrow> nat \<Rightarrow> job_error option \<Rightarrow> queue_manager \<Rightarrow> queue_manager" where
  "finalizeJob e r err m =
     (let i = items m r in
      if (case err of Some x \<Rightarrow> is_canceled x | None \<Rightarrow> False) \<and> pauseRequestedID m = qi_ID i then
        (recordEvent (qi_ID i) ''queue'' ''paused'' ''Queue item paused''
           (saveItem e r (set_item r (requeue_item (now e) i) m)))
          \<lparr>pauseRequestedID := [], activeItem := None\<rparr>
      else
        (let m1 = saveItem e r (set_item r (finish_item (now e) err i) m);
             m2 = (if err = None
                   then recordEvent (qi_ID i) ''finalize'' ''completed'' ''Queue item completed'' m1
                   else recordEvent (qi_ID i) ''finalize'' ''failed'' ''Queue item failed'' m1)
         in removeFromLiveQueue (qi_ID i) (m2\<lparr>activeItem := None\<rparr>)))"

section \<open>Hydration\<close>

text \<open>What the interfaces called by \<open>HydrateItem\<close> return.\<close>

record hydrate_io =
  io_release :: "release option"
  io_nzb_err :: "job_error option"
  io_parse_err :: "job_error option"
  io_prepare :: "job_error + (download_file list \<times> int \<times> string)"

definition wrap_error :: "string \<Rightarrow> job_error \<Rightarrow> job_error" where
  "wrap_error msg x = JobError (is_canceled x) (msg @ err_text x)"

definition hydrated_release :: "hydrate_io \<Rightarrow> queue_item \<Rightarrow> release" where
  "hydrated_release io i =
     (case qi_Release i of
        Some rel \<Rightarrow> rel
      | None \<Rightarrow>
          (let rel = (case io_release io of Some rel \<Rightarrow> rel | None \<Rightarrow> hydrateReleaseFromSnapshot i)
           in rel\<lparr>rel_ID := or_else (rel_ID rel) (qi_SourceReleaseID i),
                  rel_GUID := or_else (rel_GUID rel) (qi_SourceReleaseID i),
                  rel_Source := or_else (rel_Source rel) (qi_SourceKind i),
                  rel_Title := or_else (or_else (rel_Title rel) (qi_ReleaseTitle i)) (qi_ID i),
                  rel_Category := or_else (rel_Category rel) ''Uncategorized''\<rparr>))"

definition HydrateItem :: "hydrate_io \<Rightarrow> queue_item \<Rightarrow> job_error option \<times> queue_item" where
  "HydrateItem io i0 =
     (if qi_SourceKind i0 = [] then
        (Some (JobError False (''queue item '' @ qi_ID i0 @ '' missing source kind'')), i0)
      else
        (let i = i0\<lparr>qi_SourceReleaseID := or_else (qi_SourceReleaseID i0) (qi_ReleaseID i0)\<rparr>;
             rel = hydrated_release io i;
             i1 = i\<lparr>qi_Release := Some rel\<rparr>
         in case io_nzb_err io of
              Some x \<Rightarrow>
                (Some (wrap_error (''failed to fetch nzb for queue item '' @ qi_ID i @ '': '') x), i1)
            | None \<Rightarrow>
                (case io_parse_err io of
                   Some x \<Rightarrow> (Some (wrap_error ''failed to parse nzb payload: '' x), i1)
                 | None \<Rightarrow>
                     (case io_prepare io of
                        Inl x \<Rightarrow> (Some (wrap_error ''failed to prepare download: '' x), i1)
                      | Inr (tasks, totalSize, password) \<Rightarrow>
                          (None,
                           i1\<lparr>qi_Tasks := tasks,
                              qi_Release := Some (rel\<lparr>rel_Size := totalSize, rel_Password := password,
                                rel_PublishDate :=
                                  (case tasks of [] \<Rightarrow> rel_PublishDate rel
                                   | t # _ \<Rightarrow> Some (df_Date t * 1000000000))\<rparr>)\<rparr>)))))"

definition isDownloadAlreadyFinished :: "queue_item \<Rightarrow> bool" where
  "isDownloadAlreadyFinished i \<longleftrightarrow> qi_Tasks i \<noteq> [] \<and> list_all df_IsComplete (qi_Tasks i)"

section \<open>The manager loop and the workflow\<close>

text \<open>Where the manager's goroutine is. \<open>Hydrating\<close>, \<open>InDownload\<close> and \<open>InPost\<close> wait for an
  interface call to return; the locks are only held inside one step, so requests interleave
  between any two.\<close>

datatype pc =
  LoopTop
| Parked
| Chosen nat
| Admitted nat
| RunPending nat nat
| Hydrating nat nat
| ToDownloading nat nat
| RunDownload nat nat
| InDownload nat nat
| DownloadDone nat nat
| ToProcessing nat nat
| RunPost nat nat
| InPost nat nat
| Finalizing nat nat "job_error option"
| Closing nat nat
| Exited

text \<open>\<open>ctx.Done()\<close> of a job's context, which is derived from the loop's.\<close>

definition isCancelled :: "queue_manager \<Rightarrow> nat \<Rightarrow> bool" where
  "isCancelled m c \<longleftrightarrow> stopped m \<or> c \<in> cancelled m"

definition pick :: "queue_manager \<Rightarrow> nat option" where
  "pick m =
     (if paused m then None
      else find (\<lambda>r. qi_Status (items m r) = StatusPending \<or>
                     qi_Status (items m r) = StatusDownloading \<or>
                     qi_Status (items m r) = StatusProcessing) (queue m))"

text \<open>What a call that the goroutine waits for returns: hydration's interfaces, or the error of
  \<open>Download\<close> and \<open>PostProcess\<close> with the item as they left it.\<close>

datatype reply = NoReply | HydrateReply hydrate_io | CallReply "job_error option" queue_item

fun worker_step :: "env \<Rightarrow> reply \<Rightarrow> pc \<Rightarrow> queue_manager \<Rightarrow> pc \<times> queue_manager" where
  "worker_step e rp LoopTop m =
     (case pick m of None \<Rightarrow> (Parked, m) | Some r \<Rightarrow> (Chosen r, m))"
| "worker_step e rp Parked m =
     (if newJobChan m then (LoopTop, m\<lparr>newJobChan := False\<rparr>)
      else if stopped m then (Exited, m) else (Parked, m))"
| "worker_step e rp (Chosen r) m = (if stopped m then (Exited, m) else (Admitted r, m))"
| "worker_step e rp (Admitted r) m =
     (let c = next_ctx m
      in (RunPending r c,
          (set_item r ((items m r)\<lparr>qi_CancelFunc := Some c\<rparr>) m)
            \<lparr>activeItem := Some r, next_ctx := Suc c\<rparr>))"
| "worker_step e rp (RunPending r c) m =
     (if qi_Status (items m r) \<noteq> StatusPending then (RunDownload r c, m)
      else if qi_Tasks (items m r) = [] then
        (Hydrating r c,
         recordEvent (qi_ID (items m r)) ''hydrate'' ''start'' ''Hydrating queue item'' m)
      else (ToDownloading r c, m))"
| "worker_step e rp (Hydrating r c) m =
     (case rp of
        HydrateReply io \<Rightarrow>
          (case HydrateItem io (items m r) of
             (Some x, i) \<Rightarrow> (Finalizing r c (Some x), set_item r i m)
           | (None, i) \<Rightarrow> (ToDownloading r c, set_item r i m))
      | _ \<Rightarrow> (Hydrating r c, m))"
| "worker_step e rp (ToDownloading r c) m =
     (RunDownload r c,
      UpdateStatus e r StatusDownloading
        (recordEvent (qi_ID (items m r)) ''hydrate'' ''ok'' ''Hydration complete'' m))"
| "worker_step e rp (RunDownload r c) m =
     (if isCancelled m c \<or> qi_Status (items m r) \<noteq> StatusDownloading then (RunPost r c, m)
      else if isDownloadAlreadyFinished (items m r) then (DownloadDone r c, m)
      else (InDownload r c, m))"
| "worker_step e rp (InDownload r c) m =
     (case rp of
        CallReply (Some x) i \<Rightarrow> (Finalizing r c (Some x), set_item r i m)
      | CallReply None i \<Rightarrow> (DownloadDone r c, set_item r i m)
      | _ \<Rightarrow> (InDownload r c, m))"
| "worker_step e rp (DownloadDone r c) m =
     (if isCancelled m c then (RunPost r c, m) else (ToProcessing r c, m))"
| "worker_step e rp (ToProcessing r c) m = (RunPost r c, UpdateStatus e r StatusProcessing m)"
| "worker_step e rp (RunPost r c) m =
     (if isCancelled m c \<or> qi_Status (items m r) \<noteq> StatusProcessing
      then (Finalizing r c None, m) else (InPost r c, m))"
| "worker_step e rp (InPost r c) m =
     (case rp of
        CallReply (Some x) i \<Rightarrow> (Finalizing r c (Some x), set_item r i m)
      | CallReply None i \<Rightarrow>
          (Finalizing r c None, saveItem e r (set_item r (i\<lparr>qi_UpdatedAt := Some (now e)\<rparr>) m))
      | _ \<Rightarrow> (InPost r c, m))"
| "worker_step e rp (Finalizing r c err) m = (Closing r c, finalizeJob e r err m)"
| "worker_step e rp (Closing r c) m =
     (LoopTop, m\<lparr>cancelled := insert c (cancelled m), activeItem := None\<rparr>)"
| "worker_step e rp Exited m = (Exited, m)"

end
