(* ===== verification/Queue_Steps.thy ===== *)
theory Queue_Steps
  imports Queue_Manager
begin

text \<open>
  The queue as an interleaving of the manager's goroutine with requests, and what holds in every
  reachable state.
\<close>

section \<open>What the building blocks leave alone\<close>

lemma saveItem_keeps [simp, go_keeps]:
  "items (saveItem e r m) = items m" "next_ref (saveItem e r m) = next_ref m"
  "queue (saveItem e r m) = queue m" "activeItem (saveItem e r m) = activeItem m"
  "paused (saveItem e r m) = paused m" "pauseRequestedID (saveItem e r m) = pauseRequestedID m"
  "running (saveItem e r m) = running m" "stopped (saveItem e r m) = stopped m"
  "newJobChan (saveItem e r m) = newJobChan m" "cancelled (saveItem e r m) = cancelled m"
  "next_ctx (saveItem e r m) = next_ctx m" "events (saveItem e r m) = events m"
  by (simp_all add: saveItem_def split: option.split)

lemma recordEvent_keeps [simp, go_keeps]:
  "items (recordEvent a b c d m) = items m" "next_ref (recordEvent a b c d m) = next_ref m"
  "queue (recordEvent a b c d m) = queue m" "activeItem (recordEvent a b c d m) = activeItem m"
  "paused (recordEvent a b c d m) = paused m"
  "pauseRequestedID (recordEvent a b c d m) = pauseRequestedID m"
  "running (recordEvent a b c d m) = running m" "stopped (recordEvent a b c d m) = stopped m"
  "newJobChan (recordEvent a b c d m) = newJobChan m"
  "cancelled (recordEvent a b c d m) = cancelled m"
  "next_ctx (recordEvent a b c d m) = next_ctx m" "store (recordEvent a b c d m) = store m"
  "save_failed (recordEvent a b c d m) = save_failed m"
  by (simp_all add: recordEvent_def)

lemma set_item_keeps [simp, go_keeps]:
  "items (set_item r i m) = (items m)(r := i)" "next_ref (set_item r i m) = next_ref m"
  "queue (set_item r i m) = queue m" "activeItem (set_item r i m) = activeItem m"
  "paused (set_item r i m) = paused m" "pauseRequestedID (set_item r i m) = pauseRequestedID m"
  "running (set_item r i m) = running m" "stopped (set_item r i m) = stopped m"
  "newJobChan (set_item r i m) = newJobChan m" "cancelled (set_item r i m) = cancelled m"
  "next_ctx (set_item r i m) = next_ctx m" "events (set_item r i m) = events m"
  "store (set_item r i m) = store m" "save_failed (set_item r i m) = save_failed m"
  by (simp_all add: set_item_def)

lemma removeFromLiveQueue_keeps [simp, go_keeps]:
  "items (removeFromLiveQueue q m) = items m"
  "next_ref (removeFromLiveQueue q m) = next_ref m"
  "activeItem (removeFromLiveQueue q m) = activeItem m"
  "paused (removeFromLiveQueue q m) = paused m"
  "pauseRequestedID (removeFromLiveQueue q m) = pauseRequestedID m"
  "running (removeFromLiveQueue q m) = running m"
  "stopped (removeFromLiveQueue q m) = stopped m"
  "newJobChan (removeFromLiveQueue q m) = newJobChan m"
  "cancelled (removeFromLiveQueue q m) = cancelled m"
  "next_ctx (removeFromLiveQueue q m) = next_ctx m"
  "events (removeFromLiveQueue q m) = events m" "store (removeFromLiveQueue q m) = store m"
  "save_failed (removeFromLiveQueue q m) = save_failed m"
  "queue (removeFromLiveQueue q m) = remove_first (items m) q (queue m)"
  by (simp_all add: removeFromLiveQueue_def)

text \<open>The fields of an item that only the manager writes.\<close>

definition same_control :: "queue_item \<Rightarrow> queue_item \<Rightarrow> bool" where
  "same_control i j \<longleftrightarrow> qi_ID i = qi_ID j \<and> qi_Status i = qi_Status j \<and>
     qi_CancelFunc i = qi_CancelFunc j \<and> qi_SourceKind i = qi_SourceKind j \<and>
     qi_PayloadMode i = qi_PayloadMode j"

lemma mark_status_sel [simp]:
  "qi_ID (mark_status n st i) = qi_ID i" "qi_Status (mark_status n st i) = st"
  "qi_CancelFunc (mark_status n st i) = qi_CancelFunc i"
  by (simp_all add: mark_status_def Let_def)

lemma requeue_item_sel [simp]:
  "qi_ID (requeue_item n i) = qi_ID i" "qi_Status (requeue_item n i) = StatusPending"
  "qi_CancelFunc (requeue_item n i) = None"
  by (simp_all add: requeue_item_def)

lemma finish_item_sel [simp]:
  "qi_ID (finish_item n err i) = qi_ID i"
  "qi_Status (finish_item n err i) = (if err = None then StatusCompleted else StatusFailed)"
  "qi_CancelFunc (finish_item n err i) = None"
  by (simp_all add: finish_item_def Let_def split: option.split)

lemma HydrateItem_sel:
  "HydrateItem io i = (x, j) \<Longrightarrow>
     qi_ID j = qi_ID i \<and> qi_Status j = qi_Status i \<and> qi_CancelFunc j = qi_CancelFunc i \<and>
     qi_SourceKind j = qi_SourceKind i \<and> qi_PayloadMode j = qi_PayloadMode i"
  by (auto simp: HydrateItem_def Let_def split: if_splits option.splits sum.splits)

section \<open>Lists of references\<close>

lemma remove_first_subset: "set (remove_first h q rs) \<subseteq> set rs"
  by (induction rs) auto

lemma remove_first_distinct: "distinct rs \<Longrightarrow> distinct (remove_first h q rs)"
  using remove_first_subset by (induction rs) fastforce+

lemma remove_first_set:
  "inj_on (\<lambda>r. qi_ID (h r)) (insert r (set rs)) \<Longrightarrow> distinct rs \<Longrightarrow>
     set (remove_first h (qi_ID (h r)) rs) = set rs - {r}"
proof (induction rs)
  case (Cons a rs)
  have "inj_on (\<lambda>r. qi_ID (h r)) (insert r (set rs))"
    using Cons.prems(1) by (rule inj_on_subset) auto
  moreover have "qi_ID (h a) = qi_ID (h r) \<longleftrightarrow> a = r"
    using Cons.prems(1) by (auto simp: inj_on_def)
  ultimately show ?case using Cons by auto
qed simp

section \<open>The system\<close>

text \<open>\<open>signals\<close> counts the notifications that \<open>Add\<close> and \<open>Resume\<close> still have to send after
  leaving the lock. \<open>asked\<close> (the jobs someone asked to stop) and \<open>posted\<close> (the jobs whose
  post-processing returned without error) are history variables: no step reads them.\<close>

record queue_system =
  at :: pc
  mgr :: queue_manager
  signals :: nat
  asked :: "nat set"
  posted :: "nat set"

definition queue_start :: "env \<Rightarrow> queue_config option \<Rightarrow> job_store \<Rightarrow> queue_system" where
  "queue_start e cfg db =
     \<lparr>at = LoopTop, mgr = (initFromDatabase e cfg (NewQueueManager db))\<lparr>running := True\<rparr>,
      signals = 0, asked = {}, posted = {}\<rparr>"

text \<open>The downloader and the processor work on the item they are given but leave its identity,
  its status and its cancel function to the manager.\<close>

fun reply_ok :: "pc \<Rightarrow> queue_manager \<Rightarrow> reply \<Rightarrow> bool" where
  "reply_ok (InDownload r c) m (CallReply x i) = same_control i (items m r)"
| "reply_ok (InPost r c) m (CallReply x i) = same_control i (items m r)"
| "reply_ok p m rp = True"

fun post_done :: "pc \<Rightarrow> reply \<Rightarrow> nat set" where
  "post_done (InPost r c) (CallReply None i) = {r}"
| "post_done p rp = {}"

definition fresh_id :: "string \<Rightarrow> queue_manager \<Rightarrow> bool" where
  "fresh_id qid m \<longleftrightarrow> (\<forall>r<next_ref m. qi_ID (items m r) \<noteq> qid) \<and> db_status (store m) qid = None"

inductive queue_step :: "queue_system \<Rightarrow> queue_system \<Rightarrow> bool" where
  step_worker: "worker_step e rp (at s) (mgr s) = (p', m') \<Longrightarrow> reply_ok (at s) (mgr s) rp \<Longrightarrow>
     queue_step s (s\<lparr>at := p', mgr := m', posted := posted s \<union> post_done (at s) rp\<rparr>)"
| step_add: "add_item e cfg qid req (mgr s) = (Inr r, m') \<Longrightarrow> fresh_id qid (mgr s) \<Longrightarrow>
     queue_step s (s\<lparr>mgr := m', signals := Suc (signals s)\<rparr>)"
| step_signal: "signals s = Suc n \<Longrightarrow>
     queue_step s (s\<lparr>mgr := notify (mgr s), signals := n\<rparr>)"
| step_pause:
    "queue_step s (s\<lparr>mgr := Pause (mgr s), asked := asked s \<union> set_option (activeItem (mgr s))\<rparr>)"
| step_resume: "unpause (mgr s) = (was, m') \<Longrightarrow>
     queue_step s (s\<lparr>mgr := m', signals := signals s + (if was then 1 else 0)\<rparr>)"
| step_cancel: "Cancel e qid (mgr s) = (b, m') \<Longrightarrow>
     queue_step s (s\<lparr>mgr := m', asked := asked s \<union>
       set_option (find (\<lambda>r. qi_ID (items (mgr s) r) = qid) (queue (mgr s)))\<rparr>)"
| step_delete: "Delete e qid (mgr s) = (b, m') \<Longrightarrow> queue_step s (s\<lparr>mgr := m'\<rparr>)"
| step_stop:
    "queue_step s (s\<lparr>mgr := Stop (mgr s), asked := asked s \<union> set_option (activeItem (mgr s))\<rparr>)"

inductive queue_reachable :: "queue_system \<Rightarrow> bool" where
  reach_start: "db_up e \<Longrightarrow> distinct_ids db \<Longrightarrow> queue_reachable (queue_start e cfg db)"
| reach_step: "queue_reachable s \<Longrightarrow> queue_step s t \<Longrightarrow> queue_reachable t"

section \<open>The invariant\<close>

definition live :: "queue_manager \<Rightarrow> nat \<Rightarrow> bool" where
  "live m r \<longleftrightarrow> r \<in> set (queue m)"

text \<open>A job cancelled between being chosen and being activated.\<close>

definition gone :: "nat set \<Rightarrow> queue_manager \<Rightarrow> nat \<Rightarrow> bool" where
  "gone A m r \<longleftrightarrow> r \<in> A \<and> qi_Status (items m r) = StatusFailed \<and> \<not> live m r"

definition busy :: "nat set \<Rightarrow> queue_manager \<Rightarrow> nat \<Rightarrow> nat \<Rightarrow> bool" where
  "busy A m r c \<longleftrightarrow> activeItem m = Some r \<and> r < next_ref m \<and> c < next_ctx m \<and>
     qi_CancelFunc (items m r) = Some c \<and> (c \<in> cancelled m \<longrightarrow> r \<in> A)"

definition in_status :: "queue_manager \<Rightarrow> nat \<Rightarrow> job_status \<Rightarrow> bool" where
  "in_status m r st \<longleftrightarrow> live m r \<and> qi_Status (items m r) = st"

definition told :: "nat set \<Rightarrow> queue_manager \<Rightarrow> nat \<Rightarrow> bool" where
  "told A m r \<longleftrightarrow> r \<in> A \<or> stopped m"

fun pc_ok :: "nat set \<Rightarrow> nat set \<Rightarrow> queue_manager \<Rightarrow> pc \<Rightarrow> bool" where
  "pc_ok A P m LoopTop = (activeItem m = None)"
| "pc_ok A P m Parked = (activeItem m = None)"
| "pc_ok A P m Exited = (activeItem m = None)"
| "pc_ok A P m (Chosen r) = (activeItem m = None \<and> r < next_ref m \<and> (live m r \<or> gone A m r))"
| "pc_ok A P m (Admitted r) = (activeItem m = None \<and> r < next_ref m \<and> (live m r \<or> gone A m r))"
| "pc_ok A P m (RunPending r c) = (busy A m r c \<and> (live m r \<or> gone A m r))"
| "pc_ok A P m (Hydrating r c) = (busy A m r c \<and> in_status m r StatusPending)"
| "pc_ok A P m (ToDownloading r c) = (busy A m r c \<and> in_status m r StatusPending)"
| "pc_ok A P m (RunDownload r c) =
     (busy A m r c \<and> (in_status m r StatusDownloading \<or> in_status m r StatusProcessing \<or> gone A m r))"
| "pc_ok A P m (InDownload r c) = (busy A m r c \<and> in_status m r StatusDownloading)"
| "pc_ok A P m (DownloadDone r c) = (busy A m r c \<and> in_status m r StatusDownloading)"
| "pc_ok A P m (ToProcessing r c) = (busy A m r c \<and> in_status m r StatusDownloading)"
| "pc_ok A P m (RunPost r c) =
     (busy A m r c \<and> (live m r \<and> (qi_Status (items m r) = StatusProcessing \<or> told A m r) \<or> gone A m r))"
| "pc_ok A P m (InPost r c) = (busy A m r c \<and> in_status m r StatusProcessing)"
| "pc_ok A P m (Finalizing r c None) =
     (busy A m r c \<and> (live m r \<or> gone A m r) \<and> (r \<in> P \<or> told A m r))"
| "pc_ok A P m (Finalizing r c (Some x)) = (busy A m r c \<and> live m r)"
| "pc_ok A P m (Closing r c) = (activeItem m = None \<and> c < next_ctx m)"

definition heap_ok :: "queue_manager \<Rightarrow> bool" where
  "heap_ok m \<longleftrightarrow> distinct (queue m) \<and> (\<forall>r. live m r \<longrightarrow> r < next_ref m) \<and>
     inj_on (\<lambda>r. qi_ID (items m r)) {..<next_ref m} \<and>
     (\<forall>r<next_ref m. live m r \<longleftrightarrow> \<not> terminal (qi_Status (items m r))) \<and>
     (\<forall>r<next_ref m. qi_CancelFunc (items m r) \<noteq> None \<longrightarrow> activeItem m = Some r) \<and>
     (\<forall>c\<in>cancelled m. c < next_ctx m)"

definition done_ok :: "nat set \<Rightarrow> nat set \<Rightarrow> queue_manager \<Rightarrow> bool" where
  "done_ok A P m \<longleftrightarrow>
     (\<forall>r<next_ref m. qi_Status (items m r) = StatusCompleted \<longrightarrow> r \<in> P \<or> told A m r)"

definition queue_inv :: "queue_system \<Rightarrow> bool" where
  "queue_inv s \<longleftrightarrow> heap_ok (mgr s) \<and> pc_ok (asked s) (posted s) (mgr s) (at s) \<and>
     done_ok (asked s) (posted s) (mgr s)"

lemmas inv_defs = heap_ok_def done_ok_def live_def gone_def busy_def in_status_def told_def
  terminal_def

lemma heap_remove:
  assumes "heap_ok m" and "r < next_ref m"
  shows "set (remove_first (items m) (qi_ID (items m r)) (queue m)) = set (queue m) - {r}"
    and "distinct (remove_first (items m) (qi_ID (items m r)) (queue m))"
proof -
  have "inj_on (\<lambda>r. qi_ID (items m r)) {..<next_ref m}" and "insert r (set (queue m)) \<subseteq> {..<next_ref m}"
    using assms by (auto simp: heap_ok_def live_def)
  then have "inj_on (\<lambda>r. qi_ID (items m r)) (insert r (set (queue m)))"
    by (rule inj_on_subset)
  with assms(1) show "set (remove_first (items m) (qi_ID (items m r)) (queue m)) = set (queue m) - {r}"
    by (simp add: remove_first_set heap_ok_def)
  show "distinct (remove_first (items m) (qi_ID (items m r)) (queue m))"
    using assms(1) by (simp add: remove_first_distinct heap_ok_def)
qed

lemma remove_first_cong:
  "(\<And>r. qi_ID (h r) = qi_ID (h' r)) \<Longrightarrow> remove_first h q rs = remove_first h' q rs"
  by (induction rs) auto

lemma pick_live: "pick m = Some r \<Longrightarrow> live m r"
  by (auto simp: pick_def live_def find_Some_iff split: if_splits)

text \<open>The invariant reads only part of the manager.\<close>

definition same_view :: "queue_manager \<Rightarrow> queue_manager \<Rightarrow> bool" where
  "same_view m n \<longleftrightarrow> items m = items n \<and> next_ref m = next_ref n \<and> queue m = queue n \<and>
     activeItem m = activeItem n \<and> stopped m = stopped n \<and> cancelled m = cancelled n \<and>
     next_ctx m = next_ctx n"

lemma heap_ok_view: "same_view m n \<Longrightarrow> heap_ok m \<Longrightarrow> heap_ok n"
  by (simp add: same_view_def heap_ok_def live_def)

lemma done_ok_view: "same_view m n \<Longrightarrow> done_ok A P m \<Longrightarrow> done_ok A P n"
  by (simp add: same_view_def done_ok_def told_def)

lemma pc_ok_view: "same_view m n \<Longrightarrow> pc_ok A P m p \<Longrightarrow> pc_ok A P n p"
  by (induction A P m p rule: pc_ok.induct)
     (simp_all add: same_view_def inv_defs)

definition minv :: "nat set \<Rightarrow> nat set \<Rightarrow> pc \<Rightarrow> queue_manager \<Rightarrow> bool" where
  "minv A P p m \<longleftrightarrow> heap_ok m \<and> pc_ok A P m p \<and> done_ok A P m"

lemma minv_view: "same_view m n \<Longrightarrow> minv A P p m \<Longrightarrow> minv A P p n"
  unfolding minv_def by (blast intro: heap_ok_view pc_ok_view done_ok_view)

lemma same_view_ops [simp]:
  "same_view m (saveItem e r m)" "same_view m (recordEvent a b c d m)"
  "same_view m (m\<lparr>newJobChan := x\<rparr>)" "same_view m (m\<lparr>store := db\<rparr>)"
  "same_view m (m\<lparr>pauseRequestedID := q\<rparr>)" "same_view m (m\<lparr>paused := x\<rparr>)"
  by (simp_all add: same_view_def)

lemma same_view_trans: "same_view m n \<Longrightarrow> same_view n k \<Longrightarrow> same_view m k"
  by (simp add: same_view_def)

lemma heap_ok_item:
  assumes "heap_ok m" and "r < next_ref m" and "qi_ID i = qi_ID (items m r)"
    and "terminal (qi_Status i) = terminal (qi_Status (items m r))"
    and "qi_CancelFunc i \<noteq> None \<Longrightarrow> activeItem m = Some r"
  shows "heap_ok (set_item r i m)"
proof -
  let ?h = "(items m)(r := i)"
  have "(\<lambda>r. qi_ID (?h r)) = (\<lambda>r. qi_ID (items m r))"
    using assms(3) by (simp add: fun_eq_iff)
  moreover have "terminal (qi_Status (?h x)) = terminal (qi_Status (items m x))" for x
    using assms(4) by simp
  moreover have "\<forall>x<next_ref m. qi_CancelFunc (?h x) \<noteq> None \<longrightarrow> activeItem m = Some x"
    using assms(1,5) by (simp add: heap_ok_def)
  ultimately show ?thesis
    using assms(1) unfolding heap_ok_def live_def set_item_keeps by metis
qed

lemma done_ok_item:
  "done_ok A P m \<Longrightarrow> qi_Status i \<noteq> StatusCompleted \<Longrightarrow> done_ok A P (set_item r i m)"
  by (simp add: done_ok_def told_def)

lemma done_ok_same:
  "done_ok A P m \<Longrightarrow> qi_Status i = qi_Status (items m r) \<Longrightarrow> done_ok A P (set_item r i m)"
  by (simp add: done_ok_def told_def)

lemma busy_item:
  "busy A m r c \<Longrightarrow> qi_CancelFunc i = qi_CancelFunc (items m r) \<Longrightarrow> busy A (set_item r i m) r c"
  by (simp add: busy_def)

lemma live_item [simp]: "live (set_item r i m) x = live m x"
  by (simp add: live_def)

lemma in_status_item [simp]: "in_status (set_item r i m) r st = (live m r \<and> qi_Status i = st)"
  by (simp add: in_status_def)

lemma told_item [simp]: "told A (set_item r i m) x = told A m x"
  by (simp add: told_def)

lemma pending_live: "heap_ok m \<Longrightarrow> busy A m r c \<Longrightarrow> live m r = (\<not> terminal (qi_Status (items m r)))"
  by (auto simp: heap_ok_def busy_def)

lemma terminal_simps [simp]:
  "\<not> terminal StatusPending" "\<not> terminal StatusDownloading" "\<not> terminal StatusProcessing"
  "terminal StatusCompleted" "terminal StatusFailed"
  by (simp_all add: terminal_def)

section \<open>The worker keeps it\<close>

lemma minv_mark:
  assumes "minv A P p m" and "busy A m r c" and "live m r" and "\<not> terminal st"
    and "\<And>n. busy A n r c \<Longrightarrow> in_status n r st \<Longrightarrow> pc_ok A P n q"
  shows "minv A P q (UpdateStatus e r st m)"
proof -
  let ?n = "set_item r (mark_status (now e) st (items m r)) m"
  have "heap_ok ?n"
    using assms by (intro heap_ok_item) (auto simp: minv_def busy_def heap_ok_def)
  moreover have "done_ok A P ?n"
    using assms by (intro done_ok_item) (auto simp: minv_def)
  moreover have "pc_ok A P ?n q"
    using assms by (intro assms(5) busy_item) simp_all
  ultimately have "minv A P q ?n" by (simp add: minv_def)
  then show ?thesis
    unfolding UpdateStatus_def by (rule minv_view [rotated]) (simp add: same_view_def)
qed

lemma minv_control:
  assumes "minv A P p m" and "busy A m r c" and "same_control i (items m r)"
    and "\<And>n. busy A n r c \<Longrightarrow> live n r = live m r \<Longrightarrow> qi_Status (items n r) = qi_Status (items m r)
           \<Longrightarrow> stopped n = stopped m \<Longrightarrow> pc_ok A P n q"
  shows "minv A P q (set_item r i m)"
proof -
  have "heap_ok (set_item r i m)"
    using assms by (intro heap_ok_item) (auto simp: minv_def busy_def same_control_def)
  moreover have "done_ok A P (set_item r i m)"
    using assms by (intro done_ok_same) (auto simp: minv_def same_control_def)
  moreover have "pc_ok A P (set_item r i m) q"
    using assms by (intro assms(4) busy_item) (auto simp: same_control_def)
  ultimately show ?thesis by (simp add: minv_def)
qed

lemma HydrateItem_control: "HydrateItem io i = (x, j) \<Longrightarrow> same_control j i"
  by (simp add: same_control_def HydrateItem_sel)

lemma minv_weaken:
  "minv A P p m \<Longrightarrow> pc_ok A P m q \<Longrightarrow> minv A P q m"
  by (simp add: minv_def)

lemma minv_busy:
  "minv A P p m \<Longrightarrow> p \<in> {RunPending r c, Hydrating r c, ToDownloading r c, RunDownload r c,
     InDownload r c, DownloadDone r c, ToProcessing r c, RunPost r c, InPost r c} \<Longrightarrow> busy A m r c"
  by (auto simp: minv_def)

lemma minv_admit:
  assumes "minv A P (Admitted r) m"
  shows "minv A P (RunPending r (next_ctx m))
     ((set_item r ((items m r)\<lparr>qi_CancelFunc := Some (next_ctx m)\<rparr>) m)
        \<lparr>activeItem := Some r, next_ctx := Suc (next_ctx m)\<rparr>)"
proof -
  have h: "heap_ok m" and d: "done_ok A P m" and r: "r < next_ref m" "activeItem m = None"
    and l: "live m r \<or> gone A m r"
    using assms by (auto simp: minv_def)
  have none: "\<forall>x<next_ref m. qi_CancelFunc (items m x) = None"
    using h r(2) by (auto simp: heap_ok_def)
  let ?n = "(set_item r ((items m r)\<lparr>qi_CancelFunc := Some (next_ctx m)\<rparr>) m)
        \<lparr>activeItem := Some r, next_ctx := Suc (next_ctx m)\<rparr>"
  have "(\<lambda>x. qi_ID (items ?n x)) = (\<lambda>x. qi_ID (items m x))"
    and "\<And>x. qi_Status (items ?n x) = qi_Status (items m x)"
    by (auto simp: fun_eq_iff)
  moreover have "\<forall>x<next_ref m. qi_CancelFunc (items ?n x) \<noteq> None \<longrightarrow> Some r = Some x"
    using none by simp
  moreover have "\<forall>c\<in>cancelled m. c < Suc (next_ctx m)"
    using h by (auto simp: heap_ok_def)
  ultimately have "heap_ok ?n"
    using h by (simp add: heap_ok_def live_def)
  moreover have "next_ctx m \<notin> cancelled m"
    using h by (auto simp: heap_ok_def)
  ultimately show ?thesis
    using d r l by (auto simp: minv_def done_ok_def busy_def gone_def live_def told_def)
qed

lemma minv_finalize:
  assumes "minv A P (Finalizing r c err) m"
  shows "minv A P (Closing r c) (finalizeJob e r err m)"
proof -
  have h: "heap_ok m" and d: "done_ok A P m" and b: "busy A m r c"
    and ok: "err = None \<Longrightarrow> r \<in> P \<or> told A m r" and lv: "err \<noteq> None \<Longrightarrow> live m r"
    using assms by (cases err; simp add: minv_def)+
  have r: "r < next_ref m" and act: "activeItem m = Some r" and c: "c < next_ctx m"
    using b by (auto simp: busy_def)
  have others: "\<forall>x<next_ref m. x \<noteq> r \<longrightarrow> qi_CancelFunc (items m x) = None"
    using h act by (auto simp: heap_ok_def)
  have inj: "inj_on (\<lambda>x. qi_ID (items m x)) {..<next_ref m}"
    and ids: "\<And>i. qi_ID i = qi_ID (items m r) \<Longrightarrow>
        (\<lambda>x. qi_ID (((items m)(r := i)) x)) = (\<lambda>x. qi_ID (items m x))"
    using h by (auto simp: heap_ok_def fun_eq_iff)
  show ?thesis
  proof (cases "(case err of Some x \<Rightarrow> is_canceled x | None \<Rightarrow> False) \<and> pauseRequestedID m = qi_ID (items m r)")
    case True
    then have "live m r" using lv by (cases err) auto
    then have "heap_ok ((set_item r (requeue_item (now e) (items m r)) m)\<lparr>activeItem := None\<rparr>)"
      using h others inj ids [of "requeue_item (now e) (items m r)"]
      by (auto simp: heap_ok_def live_def)
    moreover have "done_ok A P ((set_item r (requeue_item (now e) (items m r)) m)\<lparr>activeItem := None\<rparr>)"
      using d by (simp add: done_ok_def told_def)
    ultimately have "minv A P (Closing r c)
        ((set_item r (requeue_item (now e) (items m r)) m)\<lparr>activeItem := None\<rparr>)"
      using c by (simp add: minv_def)
    then show ?thesis
      using True by (simp add: finalizeJob_def Let_def) (erule minv_view [rotated], simp add: same_view_def)
  next
    case False
    let ?i = "finish_item (now e) err (items m r)"
    let ?q = "remove_first (items m) (qi_ID (items m r)) (queue m)"
    let ?n = "m\<lparr>items := (items m)(r := ?i), activeItem := None, queue := ?q\<rparr>"
    have q: "set ?q = set (queue m) - {r}" "distinct ?q"
      using heap_remove [OF h r] by auto
    have q': "remove_first ((items m)(r := ?i)) (qi_ID (items m r)) (queue m) = ?q"
      by (rule remove_first_cong) simp
    have t: "terminal (qi_Status ?i)" by simp
    have "heap_ok ?n"
      using h others inj q t ids [of ?i] by (auto simp: heap_ok_def live_def)
    moreover have "done_ok A P ?n"
      using d ok by (auto simp: done_ok_def told_def)
    ultimately have "minv A P (Closing r c) ?n"
      using c by (simp add: minv_def)
    then show ?thesis
      using False q' unfolding finalizeJob_def Let_def
      by (simp only: if_False) (erule minv_view [rotated], cases err; simp add: same_view_def)
  qed
qed

lemma minv_closing:
  assumes "minv A P (Closing r c) m"
  shows "minv A P LoopTop (m\<lparr>cancelled := insert c (cancelled m), activeItem := None\<rparr>)"
  using assms by (auto simp: minv_def heap_ok_def done_ok_def live_def told_def)

lemma minv_posted:
  "minv A P p m \<Longrightarrow> minv A (P \<union> X) p m"
proof -
  assume m: "minv A P p m"
  then have "pc_ok A (P \<union> X) m p"
    by (cases "(A, P, m, p)" rule: pc_ok.cases) (auto simp: minv_def)
  with m show ?thesis by (auto simp: minv_def done_ok_def)
qed

lemma worker_minv:
  assumes "minv A P p m" and "reply_ok p m rp" and "worker_step e rp p m = (q, n)"
  shows "minv A (P \<union> post_done p rp) q n"
proof (cases p)
  case LoopTop
  with assms show ?thesis
    by (auto simp: minv_def heap_ok_def dest: pick_live split: option.splits)
next
  case Parked
  with assms show ?thesis
    by (auto simp: minv_def heap_ok_def done_ok_def live_def told_def split: if_splits)
next
  case (Chosen r)
  with assms show ?thesis by (auto simp: minv_def split: if_splits)
next
  case (Admitted r)
  with assms minv_admit [of A P r m] show ?thesis by (simp add: Let_def)
next
  case (RunPending r c)
  with assms have b: "busy A m r c" and l: "live m r \<or> gone A m r" and h: "heap_ok m"
    by (auto simp: minv_def)
  from l h b have st: "in_status m r (qi_Status (items m r)) \<and> \<not> terminal (qi_Status (items m r))
      \<or> gone A m r \<and> qi_Status (items m r) = StatusFailed"
    by (auto simp: in_status_def pending_live gone_def)
  show ?thesis
  proof (cases "qi_Status (items m r)")
    case StatusPending
    with RunPending assms b st show ?thesis
      by (auto simp: gone_def split: if_splits
          intro!: minv_view [OF same_view_ops(2)] minv_weaken [where p = p])
  qed (use RunPending assms b st in \<open>auto intro!: minv_weaken [where p = p]\<close>)
next
  case (Hydrating r c)
  with assms have b: "busy A m r c" and st: "in_status m r StatusPending" by (auto simp: minv_def)
  show ?thesis
  proof (cases "\<exists>io. rp = HydrateReply io")
    case True
    then obtain io x j where io: "rp = HydrateReply io" "HydrateItem io (items m r) = (x, j)"
      by (metis surj_pair)
    from HydrateItem_control [OF io(2)] have sc: "same_control j (items m r)" .
    show ?thesis
    proof (cases x)
      case None
      with Hydrating io assms(3) have "q = ToDownloading r c" "n = set_item r j m" by auto
      with minv_control [OF assms(1) b sc] st Hydrating io show ?thesis
        by (simp add: in_status_def)
    next
      case (Some err)
      with Hydrating io assms(3) have "q = Finalizing r c (Some err)" "n = set_item r j m" by auto
      with minv_control [OF assms(1) b sc] st Hydrating io show ?thesis
        by (simp add: in_status_def)
    qed
  next
    case False
    with Hydrating assms show ?thesis by (cases rp) auto
  qed
next
  case (ToDownloading r c)
  with assms have b: "busy A m r c" and st: "in_status m r StatusPending" by (auto simp: minv_def)
  let ?m = "recordEvent (qi_ID (items m r)) ''hydrate'' ''ok'' ''Hydration complete'' m"
  have "minv A P p ?m" and "busy A ?m r c" and "live ?m r"
    using assms(1) b st
    by (auto intro: minv_view [OF same_view_ops(2)] simp: busy_def in_status_def live_def)
  then have "minv A P (RunDownload r c) (UpdateStatus e r StatusDownloading ?m)"
    by (rule minv_mark) simp_all
  with ToDownloading assms(3) show ?thesis by simp
next
  case (RunDownload r c)
  with assms have b: "busy A m r c" by (auto simp: minv_def)
  with RunDownload assms show ?thesis
    by (auto simp: minv_def isCancelled_def told_def in_status_def busy_def gone_def split: if_splits)
next
  case (InDownload r c)
  with assms have b: "busy A m r c" and st: "in_status m r StatusDownloading"
    by (auto simp: minv_def)
  show ?thesis
  proof (cases "\<exists>x i. rp = CallReply x i")
    case True
    then obtain x i where rp: "rp = CallReply x i" by auto
    with assms(2) InDownload have sc: "same_control i (items m r)" by simp
    from minv_control [OF assms(1) b sc, of "Finalizing r c x"]
      minv_control [OF assms(1) b sc, of "DownloadDone r c"] st InDownload rp assms(3)
    show ?thesis by (cases x) (auto simp: in_status_def)
  next
    case False
    with InDownload assms show ?thesis by (cases rp) auto
  qed
next
  case (DownloadDone r c)
  with assms show ?thesis
    by (auto simp: minv_def isCancelled_def told_def in_status_def busy_def split: if_splits)
next
  case (ToProcessing r c)
  with assms have b: "busy A m r c" and st: "in_status m r StatusDownloading"
    by (auto simp: minv_def)
  then have "minv A P (RunPost r c) (UpdateStatus e r StatusProcessing m)"
    using assms(1) by (intro minv_mark [where c = c]) (auto simp: in_status_def)
  with ToProcessing assms(3) show ?thesis by simp
next
  case (RunPost r c)
  with assms show ?thesis
    by (auto simp: minv_def isCancelled_def told_def in_status_def busy_def gone_def split: if_splits)
next
  case (InPost r c)
  with assms have b: "busy A m r c" and st: "in_status m r StatusProcessing"
    by (auto simp: minv_def)
  show ?thesis
  proof (cases "\<exists>x i. rp = CallReply x i")
    case True
    then obtain x i where rp: "rp = CallReply x i" by auto
    with assms(2) InPost have sc: "same_control i (items m r)"
      and sc': "same_control (i\<lparr>qi_UpdatedAt := Some (now e)\<rparr>) (items m r)"
      by (simp_all add: same_control_def)
    show ?thesis
    proof (cases x)
      case None
      have "minv A (insert r P) (Finalizing r c None)
          (set_item r (i\<lparr>qi_UpdatedAt := Some (now e)\<rparr>) m)"
        using minv_control [OF minv_posted [OF assms(1)] b sc', of "{r}" "Finalizing r c None"] st
        by (simp add: in_status_def)
      with None InPost rp assms(3) show ?thesis
        by (auto intro: minv_view [OF same_view_ops(1)])
    next
      case (Some err)
      with minv_control [OF assms(1) b sc, of "Finalizing r c x"] st InPost rp assms(3)
      show ?thesis by (auto simp: in_status_def)
    qed
  next
    case False
    with InPost assms show ?thesis by (cases rp) auto
  qed
next
  case (Finalizing r c err)
  with assms minv_finalize [of A P r c err m e] show ?thesis by auto
next
  case (Closing r c)
  with assms minv_closing [of A P r c m] show ?thesis by auto
next
  case Exited
  with assms show ?thesis by auto
qed

section \<open>Requests keep it\<close>

lemma pc_ok_mono:
  "pc_ok A P m p \<Longrightarrow> A \<subseteq> B \<Longrightarrow> pc_ok B P m p"
  by (cases "(A, P, m, p)" rule: pc_ok.cases) (auto simp: inv_defs)

lemma done_ok_mono: "done_ok A P m \<Longrightarrow> A \<subseteq> B \<Longrightarrow> done_ok B P m"
  by (auto simp: done_ok_def told_def)

lemma minv_mono: "minv A P p m \<Longrightarrow> A \<subseteq> B \<Longrightarrow> minv B P p m"
  by (auto simp: minv_def intro: pc_ok_mono done_ok_mono)

text \<open>Cancelling the context of the active job, once it counts as asked for.\<close>

lemma pc_ok_cancel:
  "pc_ok A P m p \<Longrightarrow> activeItem m = Some r \<Longrightarrow> r \<in> A \<Longrightarrow>
     pc_ok A P (m\<lparr>cancelled := insert c (cancelled m)\<rparr>) p"
  by (cases "(A, P, m, p)" rule: pc_ok.cases) (auto simp: inv_defs)

lemma active_ctx:
  "pc_ok A P m p \<Longrightarrow> activeItem m = Some r \<Longrightarrow> qi_CancelFunc (items m r) = Some c \<Longrightarrow> c < next_ctx m"
  by (cases "(A, P, m, p)" rule: pc_ok.cases) (auto simp: busy_def)

lemma minv_cancel:
  assumes "minv A P p m" and "activeItem m = Some r" and "qi_CancelFunc (items m r) = Some c"
    and "r \<in> A"
  shows "minv A P p (m\<lparr>cancelled := insert c (cancelled m)\<rparr>)"
  using assms pc_ok_cancel [of A P m p r c] active_ctx [of A P m p r c]
  by (auto simp: minv_def heap_ok_def done_ok_def live_def told_def)

lemma pc_ok_stopped: "pc_ok A P m p \<Longrightarrow> pc_ok A P (m\<lparr>stopped := True\<rparr>) p"
  by (cases "(A, P, m, p)" rule: pc_ok.cases) (auto simp: inv_defs)

lemma minv_stopped: "minv A P p m \<Longrightarrow> minv A P p (m\<lparr>stopped := True\<rparr>)"
  unfolding minv_def using pc_ok_stopped [of A P m p]
  by (simp add: heap_ok_def done_ok_def live_def told_def)

lemma Pause_minv: "minv A P p m \<Longrightarrow> minv (A \<union> set_option (activeItem m)) P p (Pause m)"
proof -
  assume "minv A P p m"
  then have m: "minv (A \<union> set_option (activeItem m)) P p (m\<lparr>paused := True\<rparr>)"
    by (auto intro: minv_mono minv_view [OF same_view_ops(6)])
  show ?thesis
  proof (cases "paused m \<or> activeItem m = None \<or>
      qi_CancelFunc (items m (the (activeItem m))) = None")
    case True
    with m minv_mono [OF \<open>minv A P p m\<close>] show ?thesis
      by (auto simp: Pause_def Let_def split: option.split)
  next
    case False
    then obtain r c where rc: "activeItem m = Some r" "qi_CancelFunc (items m r) = Some c"
      "\<not> paused m" by auto
    with m have "minv (A \<union> {r}) P p (m\<lparr>paused := True, cancelled := insert c (cancelled m)\<rparr>)"
      using minv_cancel [of "A \<union> {r}" P p "m\<lparr>paused := True\<rparr>" r c] by simp
    with rc show ?thesis
      by (simp add: Pause_def Let_def) (erule minv_view [rotated], simp add: same_view_def)
  qed
qed

lemma Stop_minv: "minv A P p m \<Longrightarrow> minv (A \<union> set_option (activeItem m)) P p (Stop m)"
proof -
  assume "minv A P p m"
  then have "minv (A \<union> set_option (activeItem m)) P p m" by (rule minv_mono) simp
  then have m: "minv (A \<union> set_option (activeItem m)) P p
      (if running m then m\<lparr>stopped := True\<rparr> else m)"
    by (simp add: minv_stopped)
  show ?thesis
  proof (cases "activeItem m = None \<or> qi_CancelFunc (items m (the (activeItem m))) = None")
    case True
    with m show ?thesis by (auto simp: Stop_def Let_def split: option.split)
  next
    case False
    then obtain r c where rc: "activeItem m = Some r" "qi_CancelFunc (items m r) = Some c" by auto
    with m minv_cancel [OF m, of r c] show ?thesis by (auto simp: Stop_def Let_def)
  qed
qed

lemma unpause_minv: "minv A P p m \<Longrightarrow> minv A P p (snd (unpause m))"
  by (auto simp: unpause_def intro: minv_view [OF same_view_ops(6)])

lemma notify_minv: "minv A P p m \<Longrightarrow> minv A P p (notify m)"
  by (auto simp: notify_def intro: minv_view [OF same_view_ops(3)])

lemma Delete_minv: "minv A P p m \<Longrightarrow> minv A P p (snd (Delete e qid m))"
  by (auto simp: Delete_def split: prod.split intro: minv_view [OF same_view_ops(4)])

text \<open>Cancelling a job that is not active takes it out of the queue as failed.\<close>

lemma pc_ok_drop:
  assumes "pc_ok A P m p" and "r \<in> A" and "activeItem m \<noteq> Some r"
    and "qi_Status i = StatusFailed" and "set q = set (queue m) - {r}"
  shows "pc_ok A P (m\<lparr>items := (items m)(r := i), queue := q\<rparr>) p"
  using assms by (cases "(A, P, m, p)" rule: pc_ok.cases) (auto simp: inv_defs)

lemma Cancel_minv:
  assumes "minv A P p m"
  shows "minv (A \<union> set_option (find (\<lambda>r. qi_ID (items m r) = qid) (queue m))) P p
     (snd (Cancel e qid m))"
proof (cases "find (\<lambda>r. qi_ID (items m r) = qid) (queue m)")
  case None
  with assms show ?thesis by (simp add: Cancel_def)
next
  case (Some r)
  then have lv: "live m r" and qid: "qi_ID (items m r) = qid"
    by (auto simp: find_Some_iff live_def)
  have m: "minv (A \<union> {r}) P p m" using assms by (rule minv_mono) auto
  then have h: "heap_ok m" and d: "done_ok (A \<union> {r}) P m" and pk: "pc_ok (A \<union> {r}) P m p"
    by (auto simp: minv_def)
  with lv have r: "r < next_ref m" "\<not> terminal (qi_Status (items m r))"
    by (auto simp: heap_ok_def)
  show ?thesis
  proof (cases "qi_CancelFunc (items m r)")
    case (Some c)
    with h r have "activeItem m = Some r" by (auto simp: heap_ok_def)
    with Some m have "minv (A \<union> {r}) P p (m\<lparr>cancelled := insert c (cancelled m)\<rparr>)"
      by (intro minv_cancel) auto
    with Some r \<open>find _ _ = Some r\<close> show ?thesis
      by (simp add: Cancel_def) (erule minv_view [rotated], simp add: same_view_def)
  next
    case None
    have act: "activeItem m \<noteq> Some r"
    proof
      assume "activeItem m = Some r"
      with pk None show False
        by (cases "(A \<union> {r}, P, m, p)" rule: pc_ok.cases) (auto simp: busy_def)
    qed
    let ?i = "(items m r)\<lparr>qi_Status := StatusFailed, qi_Error := Some ''Cancelled by user'',
                 qi_StartedAt := or_now (qi_StartedAt (items m r)) (now e),
                 qi_CompletedAt := Some (now e), qi_UpdatedAt := Some (now e),
                 qi_DownloadedBytes := GetBytes (items m r)\<rparr>"
    let ?q = "remove_first (items m) qid (queue m)"
    have q: "set ?q = set (queue m) - {r}" "distinct ?q"
      using heap_remove [OF h r(1)] qid by auto
    have q': "remove_first ((items m)(r := ?i)) qid (queue m) = ?q"
      by (rule remove_first_cong) simp
    have ids: "(\<lambda>x. qi_ID (((items m)(r := ?i)) x)) = (\<lambda>x. qi_ID (items m x))"
      by (simp add: fun_eq_iff)
    have "heap_ok (m\<lparr>items := (items m)(r := ?i), queue := ?q\<rparr>)"
      using h None q ids by (auto simp: heap_ok_def live_def)
    moreover have "done_ok (A \<union> {r}) P (m\<lparr>items := (items m)(r := ?i), queue := ?q\<rparr>)"
      using d by (auto simp: done_ok_def told_def)
    moreover have "pc_ok (A \<union> {r}) P (m\<lparr>items := (items m)(r := ?i), queue := ?q\<rparr>) p"
      using pk act q by (intro pc_ok_drop) auto
    ultimately have "minv (A \<union> {r}) P p (m\<lparr>items := (items m)(r := ?i), queue := ?q\<rparr>)"
      by (simp add: minv_def)
    then have "minv (A \<union> {r}) P p (cancel_pending e r m)"
      using q' qid
      by (simp only: cancel_pending_def Let_def)
         (erule minv_view [rotated], simp add: same_view_def)
    with None r \<open>find _ _ = Some r\<close> show ?thesis by (simp add: Cancel_def)
  qed
qed

text \<open>A new job: its reference is fresh, its ID is nobody else's.\<close>

lemma new_item_sel [simp]:
  "qi_ID (new_item e cfg qid req) = qid" "qi_Status (new_item e cfg qid req) = StatusPending"
  "qi_CancelFunc (new_item e cfg qid req) = None"
  by (simp_all add: new_item_def Let_def blank_item_def)

lemma add_item_view:
  "add_item e cfg qid req m = (Inr r, m') \<Longrightarrow>
     r = next_ref m \<and>
     same_view (m\<lparr>items := (items m)(r := new_item e cfg qid req), next_ref := Suc r,
                  queue := queue m @ [r]\<rparr>) m'"
  by (auto simp: add_item_def Let_def same_view_def split: if_splits option.splits)

lemma pc_ok_new:
  assumes "pc_ok A P m p" and "\<forall>r. live m r \<longrightarrow> r < next_ref m"
  shows "pc_ok A P (m\<lparr>items := (items m)(next_ref m := i), next_ref := Suc (next_ref m),
           queue := queue m @ [next_ref m]\<rparr>) p"
  using assms by (cases "(A, P, m, p)" rule: pc_ok.cases) (auto simp: inv_defs)

lemma heap_ok_new:
  assumes h: "heap_ok m" and "\<forall>r<next_ref m. qi_ID (items m r) \<noteq> qi_ID i"
    and "\<not> terminal (qi_Status i)" and "qi_CancelFunc i = None"
  shows "heap_ok (m\<lparr>items := (items m)(next_ref m := i), next_ref := Suc (next_ref m),
           queue := queue m @ [next_ref m]\<rparr>)"
proof -
  let ?h = "(items m)(next_ref m := i)"
  have nl: "next_ref m \<notin> set (queue m)" using h by (auto simp: heap_ok_def live_def)
  have "inj_on (\<lambda>r. qi_ID (?h r)) {..<Suc (next_ref m)}"
    using h assms(2) by (auto simp: heap_ok_def inj_on_def less_Suc_eq)
  with h assms nl show ?thesis
    by (auto simp: heap_ok_def live_def less_Suc_eq)
qed

lemma add_minv:
  assumes "minv A P p m" and "add_item e cfg qid req m = (Inr r, m')" and "fresh_id qid m"
  shows "minv A P p m'"
proof -
  let ?n = "m\<lparr>items := (items m)(next_ref m := new_item e cfg qid req),
      next_ref := Suc (next_ref m), queue := queue m @ [next_ref m]\<rparr>"
  have "heap_ok ?n"
    using assms(1,3) by (intro heap_ok_new) (auto simp: minv_def fresh_id_def)
  moreover have "done_ok A P ?n"
    using assms(1) by (auto simp: minv_def done_ok_def told_def less_Suc_eq)
  moreover have "pc_ok A P ?n p"
    using assms(1) by (intro pc_ok_new) (auto simp: minv_def heap_ok_def)
  ultimately have "minv A P p ?n" by (simp add: minv_def)
  with add_item_view [OF assms(2)] show ?thesis by (auto intro: minv_view)
qed

lemma step_minv:
  "queue_step s t \<Longrightarrow> minv (asked s) (posted s) (at s) (mgr s) \<Longrightarrow>
     minv (asked t) (posted t) (at t) (mgr t)"
proof (induction rule: queue_step.induct)
  case (step_worker e rp s p' m')
  then show ?case using worker_minv by simp
next
  case (step_add e cfg qid req s r m')
  then show ?case using add_minv by simp
next
  case (step_signal s n)
  then show ?case using notify_minv by simp
next
  case (step_pause s)
  then show ?case using Pause_minv by simp
next
  case (step_resume s was m')
  then show ?case using unpause_minv [of "asked s" "posted s" "at s" "mgr s"] by simp
next
  case (step_cancel e qid s b m')
  then show ?case using Cancel_minv [of "asked s" "posted s" "at s" "mgr s" qid e] by simp
next
  case (step_delete e qid s b m')
  then show ?case using Delete_minv [of "asked s" "posted s" "at s" "mgr s" e qid] by simp
next
  case (step_stop s)
  then show ?case using Stop_minv by simp
qed

section \<open>Start-up\<close>

lemma load_items_inv:
  assumes "heap_ok m" and "activeItem m = None"
    and "\<forall>r<next_ref m. qi_Status (items m r) \<noteq> StatusCompleted"
    and "distinct (map qi_ID is)" and "\<forall>r<next_ref m. qi_ID (items m r) \<notin> qi_ID ` set is"
    and "\<forall>i\<in>set is. \<not> terminal (qi_Status i) \<and> qi_CancelFunc i = None"
  shows "heap_ok (load_items e off is m) \<and> activeItem (load_items e off is m) = None \<and>
    (\<forall>r<next_ref (load_items e off is m).
       qi_Status (items (load_items e off is m) r) \<noteq> StatusCompleted)"
  using assms
proof (induction "is" arbitrary: m)
  case (Cons i rest)
  let ?r = "next_ref m"
  show ?case
  proof (cases "off \<and> \<not> qi_Resumable i")
    case True
    let ?i = "fail_non_resumable e i"
    let ?n = "m\<lparr>items := (items m)(?r := ?i), next_ref := Suc ?r\<rparr>"
    let ?n' = "recordEvent (qi_ID i) ''hydrate'' ''failed'' ''payload_not_persisted''
        (saveItem e ?r (set_item ?r ?i (m\<lparr>next_ref := Suc ?r\<rparr>)))"
    have i: "qi_ID ?i = qi_ID i" "qi_Status ?i = StatusFailed" "qi_CancelFunc ?i = None"
      using Cons.prems(6) by (simp_all add: fail_non_resumable_def)
    have "inj_on (\<lambda>r. qi_ID (((items m)(?r := ?i)) r)) {..<Suc ?r}"
      using Cons.prems(1,5) i by (auto simp: heap_ok_def inj_on_def less_Suc_eq)
    moreover have "?r \<notin> set (queue m)" using Cons.prems(1) by (auto simp: heap_ok_def live_def)
    ultimately have "heap_ok ?n"
      using Cons.prems(1) i by (auto simp: heap_ok_def live_def less_Suc_eq)
    moreover have v: "same_view ?n ?n'" by (simp add: same_view_def)
    ultimately have "heap_ok ?n'" by (blast intro: heap_ok_view)
    moreover have "next_ref ?n' = Suc ?r" "items ?n' = (items m)(?r := ?i)" "activeItem ?n' = None"
      using Cons.prems(2) by simp_all
    moreover have "load_items e off (i # rest) m = load_items e off rest ?n'"
      using True by (simp add: Let_def)
    ultimately show ?thesis
      using Cons.prems i by (simp only:) (rule Cons.IH; auto simp: less_Suc_eq)
  next
    case False
    let ?n = "(set_item ?r i (m\<lparr>next_ref := Suc ?r\<rparr>))\<lparr>queue := queue m @ [?r]\<rparr>"
    have "heap_ok (m\<lparr>items := (items m)(?r := i), next_ref := Suc ?r, queue := queue m @ [?r]\<rparr>)"
      using Cons.prems by (intro heap_ok_new) auto
    then have "heap_ok ?n" by (rule heap_ok_view [rotated]) (simp add: same_view_def)
    moreover have "next_ref ?n = Suc ?r" "items ?n = (items m)(?r := i)" "activeItem ?n = None"
      using Cons.prems(2) by simp_all
    moreover have "load_items e off (i # rest) m = load_items e off rest ?n"
      using False by (auto simp: Let_def)
    ultimately show ?thesis
      using Cons.prems by (simp only:) (rule Cons.IH; auto simp: less_Suc_eq terminal_def)
  qed
qed simp

lemma ResetStuck_ids: "map row_id (ResetStuckQueueItems t st old db) = map row_id db"
  by (induction db) (simp_all add: ResetStuckQueueItems_def)

lemma ToDomain_sel [simp]:
  "qi_ID (ToDomain row) = row_id row" "qi_Status (ToDomain row) = row_status row"
  "qi_CancelFunc (ToDomain row) = None"
  by (simp_all add: ToDomain_def Let_def)

lemma map_ID_ToDomain: "map qi_ID (map ToDomain rows) = map row_id rows"
  by (induction rows) simp_all

lemma active_distinct:
  assumes "distinct_ids db"
  shows "distinct (map qi_ID (GetActiveQueueItems db))"
proof -
  have "distinct (map row_id (filter (\<lambda>r. \<not> terminal (row_status r)) db))"
    using assms by (simp add: distinct_ids_def distinct_map_filter)
  then have "distinct (map row_id (sort_key row_created_at (filter (\<lambda>r. \<not> terminal (row_status r)) db)))"
    by (simp add: distinct_map)
  then show ?thesis by (simp only: GetActiveQueueItems_def map_ID_ToDomain)
qed

lemma active_live: "i \<in> set (GetActiveQueueItems db) \<Longrightarrow> \<not> terminal (qi_Status i) \<and> qi_CancelFunc i = None"
  by (auto simp: GetActiveQueueItems_def)

lemma NewQueueManager_sel [simp]:
  "queue (NewQueueManager db) = []" "next_ref (NewQueueManager db) = 0"
  "activeItem (NewQueueManager db) = None" "cancelled (NewQueueManager db) = {}"
  "store (NewQueueManager db) = db" "newJobChan (NewQueueManager db) = False"
  "save_failed (NewQueueManager db) = False"
  by (simp_all add: NewQueueManager_def)

lemma start_minv:
  assumes "db_up e" and "distinct_ids db"
  shows "minv {} {} LoopTop (mgr (queue_start e cfg db))"
proof -
  let ?m = "initFromDatabase e cfg (NewQueueManager db)"
  let ?n = "(NewQueueManager db)\<lparr>store := ResetStuckQueueItems (now e) StatusPending
      [StatusDownloading, StatusProcessing] db\<rparr>"
  have "distinct_ids (store ?n)"
    using assms(2) by (simp add: distinct_ids_def ResetStuck_ids)
  moreover have "heap_ok ?n" by (simp add: heap_ok_def live_def)
  ultimately have "heap_ok ?m \<and> activeItem ?m = None \<and>
      (\<forall>r<next_ref ?m. qi_Status (items ?m r) \<noteq> StatusCompleted)"
    using assms(1) unfolding initFromDatabase_def
    by (simp add: Let_def) (rule load_items_inv; simp add: active_distinct active_live)
  then show ?thesis
    by (auto simp: queue_start_def minv_def done_ok_def heap_ok_def live_def)
qed

lemma reachable_minv:
  "queue_reachable s \<Longrightarrow> minv (asked s) (posted s) (at s) (mgr s)"
proof (induction rule: queue_reachable.induct)
  case (reach_start e db cfg)
  then show ?case using start_minv [of e db cfg] by (simp add: queue_start_def)
next
  case (reach_step s t)
  then show ?case by (blast intro: step_minv)
qed

end
