(* ===== verification/Queue_Store.thy ===== *)
theory Queue_Store
  imports Queue_Steps
begin

text \<open>
  Two properties of every reachable state of the queue: the parked goroutine is woken when there is
  work, and the table of the job store agrees with the jobs the manager holds.
\<close>

section \<open>No wake-up is lost\<close>

definition wake_ok :: "queue_system \<Rightarrow> bool" where
  "wake_ok s \<longleftrightarrow>
     (at s = Parked \<and> pick (mgr s) \<noteq> None \<longrightarrow> newJobChan (mgr s) \<or> 0 < signals s)"

lemma pick_subset:
  "set q \<subseteq> set (queue m) \<Longrightarrow> (\<And>r. r \<in> set q \<Longrightarrow> items m' r = items m r) \<Longrightarrow>
     paused m' = paused m \<Longrightarrow> queue m' = q \<Longrightarrow> pick m = None \<Longrightarrow> pick m' = None"
  by (auto simp: pick_def find_None_iff split: if_splits)

lemma Pause_paused: "paused (Pause m)"
  by (auto simp: Pause_def Let_def split: option.split)

lemma Cancel_pick:
  assumes "minv A P p m" and "p = Parked" and "pick m = None"
  shows "pick (snd (Cancel e qid m)) = None"
proof (cases "find (\<lambda>r. qi_ID (items m r) = qid) (queue m)")
  case None
  with assms show ?thesis by (simp add: Cancel_def)
next
  case (Some r)
  then have r: "live m r" "qi_ID (items m r) = qid" by (auto simp: find_Some_iff live_def)
  with assms have h: "heap_ok m" and n: "r < next_ref m" by (auto simp: minv_def heap_ok_def)
  have set: "r \<notin> set (remove_first (items m) qid (queue m))"
    using heap_remove(1) [OF h n] r by auto
  show ?thesis
  proof (cases "terminal (qi_Status (items m r)) \<or> qi_CancelFunc (items m r) \<noteq> None")
    case True
    with Some assms show ?thesis by (auto simp: Cancel_def pick_def)
  next
    case False
    let ?i = "qi_Status_update (\<lambda>_. StatusFailed) (items m r)"
    have "pick (cancel_pending e r m) = None"
      using assms(3) set r(2) remove_first_subset [of "items m" qid "queue m"]
      by (auto simp: cancel_pending_def Let_def pick_def find_None_iff
          remove_first_cong [of "(items m)(r := _)" "items m"] split: if_splits)
    with False Some show ?thesis by (auto simp: Cancel_def)
  qed
qed

lemma request_keeps [simp]:
  "newJobChan (Pause m) = newJobChan m" "newJobChan (Stop m) = newJobChan m"
  "newJobChan (snd (Cancel e qid m)) = newJobChan m" "newJobChan (snd (Delete e qid m)) = newJobChan m"
  "newJobChan (snd (unpause m)) = newJobChan m" "pick (Stop m) = pick m"
  "pick (snd (Delete e qid m)) = pick m"
  by (simp_all add: Pause_def Stop_def Cancel_def cancel_pending_def Delete_def unpause_def Let_def
      pick_def split: option.split prod.split)

lemma pick_paused: "paused m \<Longrightarrow> pick m = None"
  by (simp add: pick_def)

lemma pick_unpaused: "\<not> paused m \<Longrightarrow> pick (m\<lparr>paused := False\<rparr>) = pick m"
  by (simp add: pick_def)

lemma worker_parks:
  "worker_step e rp p m = (Parked, m') \<Longrightarrow> p \<noteq> Parked \<Longrightarrow> pick m' = None"
  by (cases p; cases rp) (auto simp: Let_def split: if_splits option.splits prod.splits)

lemma step_wake:
  "queue_step s t \<Longrightarrow> minv (asked s) (posted s) (at s) (mgr s) \<Longrightarrow> wake_ok s \<Longrightarrow> wake_ok t"
proof (induction rule: queue_step.induct)
  case (step_worker e rp s p' m')
  show ?case
  proof (cases "at s = Parked")
    case True
    with step_worker show ?thesis by (auto simp: wake_ok_def split: if_splits)
  next
    case False
    with step_worker worker_parks [of e rp "at s" "mgr s" m'] show ?thesis
      by (auto simp: wake_ok_def)
  qed
next
  case (step_add e cfg qid req s r m')
  then show ?case by (simp add: wake_ok_def)
next
  case (step_signal s n)
  then show ?case by (simp add: wake_ok_def notify_def)
next
  case (step_pause s)
  then show ?case by (simp add: wake_ok_def pick_paused Pause_paused)
next
  case (step_resume s was m')
  then show ?case by (auto simp: wake_ok_def unpause_def pick_unpaused)
next
  case (step_cancel e qid s b m')
  then have "pick (mgr s) = None \<Longrightarrow> at s = Parked \<Longrightarrow> pick m' = None"
    using Cancel_pick [of "asked s" "posted s" "at s" "mgr s" e qid] by simp
  moreover have "newJobChan m' = newJobChan (mgr s)"
    using step_cancel request_keeps(3) [of e qid "mgr s"] by simp
  ultimately show ?case
    using step_cancel by (cases "pick (mgr s)") (auto simp: wake_ok_def)
next
  case (step_delete e qid s b m')
  then show ?case using request_keeps(4,7) [of e qid "mgr s"] by (simp add: wake_ok_def)
next
  case (step_stop s)
  then show ?case by (simp add: wake_ok_def)
qed

lemma reachable_wake: "queue_reachable s \<Longrightarrow> wake_ok s"
proof (induction rule: queue_reachable.induct)
  case (reach_start e db cfg)
  then show ?case by (simp add: wake_ok_def queue_start_def)
next
  case (reach_step s t)
  then show ?case using step_wake reachable_minv by blast
qed

section \<open>The database follows the queue\<close>

text \<open>Unless a write failed, every job the manager knows has its current status in the table
  (a deleted job is terminal), and the table has no live job the manager does not know.\<close>

text \<open>\<open>X\<close> holds the IDs still to be loaded at start-up.\<close>

definition store_fn ::
  "string set \<Rightarrow> nat \<Rightarrow> (nat \<Rightarrow> string) \<Rightarrow> (nat \<Rightarrow> job_status) \<Rightarrow> job_store \<Rightarrow> bool" where
  "store_fn X n idf stf db \<longleftrightarrow> distinct_ids db \<and>
     (\<forall>r<n. db_status db (idf r) = Some (stf r) \<or> terminal (stf r) \<and> db_status db (idf r) = None) \<and>
     (\<forall>k st. db_status db k = Some st \<longrightarrow> \<not> terminal st \<longrightarrow> k \<in> X \<or> (\<exists>r<n. idf r = k))"

definition store_ok :: "queue_manager \<Rightarrow> bool" where
  "store_ok m \<longleftrightarrow>
     store_fn {} (next_ref m) (\<lambda>r. qi_ID (items m r)) (\<lambda>r. qi_Status (items m r)) (store m)"

definition sinv :: "queue_manager \<Rightarrow> bool" where
  "sinv m \<longleftrightarrow> save_failed m \<or> store_ok m"

lemma sinv_view:
  "items m = items n \<Longrightarrow> next_ref m = next_ref n \<Longrightarrow> store m = store n \<Longrightarrow>
     save_failed m = save_failed n \<Longrightarrow> sinv m \<Longrightarrow> sinv n"
  by (simp add: sinv_def store_ok_def)

lemma item_view:
  "qi_ID i = qi_ID (h r) \<Longrightarrow> (\<lambda>x. qi_ID ((h(r := i)) x)) = (\<lambda>x. qi_ID (h x))"
  "(\<lambda>x. qi_Status ((h(r := i)) x)) = (\<lambda>x. qi_Status (h x))(r := qi_Status i)"
  by (auto simp: fun_eq_iff)

lemma sinv_item:
  assumes "sinv m" and "qi_ID i = qi_ID (items m r)" and "qi_Status i = qi_Status (items m r)"
  shows "sinv (set_item r i m)"
proof -
  have "(\<lambda>x. qi_Status (items m x))(r := qi_Status i) = (\<lambda>x. qi_Status (items m x))"
    using assms(3) by (simp add: fun_eq_iff)
  with assms show ?thesis
    unfolding sinv_def store_ok_def set_item_keeps item_view(2)
      item_view(1) [where h = "items m" and r = r, OF assms(2)] by simp
qed

lemma store_fn_save:
  assumes "store_fn X n idf stf db" and "db_status db' = (db_status db)(idf r \<mapsto> st)"
    and "distinct_ids db'" and "inj_on idf {..<n}" and "r < n"
  shows "store_fn X n idf (stf(r := st)) db'"
proof -
  have "idf x \<noteq> idf r" if "x < n" "x \<noteq> r" for x
    using assms(4,5) that by (auto simp: inj_on_def)
  with assms show ?thesis by (auto simp: store_fn_def)
qed

lemma sinv_save:
  assumes "sinv m" and "inj_on (\<lambda>r. qi_ID (items m r)) {..<next_ref m}" and "r < next_ref m"
    and "qi_ID i = qi_ID (items m r)"
  shows "sinv (saveItem e r (set_item r i m))"
proof (cases "save_failed m \<or> \<not> db_up e \<or> SaveQueueItem (now e) i (store m) = None")
  case True
  then show ?thesis by (auto simp: sinv_def saveItem_def split: option.split)
next
  case False
  then obtain db where db: "SaveQueueItem (now e) i (store m) = Some db" "db_up e" by auto
  have ok: "store_ok m" using assms(1) False by (simp add: sinv_def)
  then have w: "distinct_ids (store m)" by (simp add: store_ok_def store_fn_def)
  have l: "db_status db = (db_status (store m))(qi_ID (items m r) \<mapsto> qi_Status i)"
    using jobs.save_lookup [OF w db(1)] assms(4) by simp
  have "store_fn {} (next_ref m) (\<lambda>r. qi_ID (items m r))
      ((\<lambda>r. qi_Status (items m r))(r := qi_Status i)) db"
    using ok l jobs.save_wf [OF w db(1)] assms(2,3) unfolding store_ok_def
    by (intro store_fn_save) auto
  then have "store_ok ((set_item r i m)\<lparr>store := db\<rparr>)"
    unfolding store_ok_def by (simp add: item_view(1) [where h = "items m" and r = r, OF assms(4)] item_view(2)
        del: fun_upd_apply)
  then show ?thesis using db by (simp add: sinv_def saveItem_def)
qed

lemma heap_inj: "heap_ok m \<Longrightarrow> inj_on (\<lambda>r. qi_ID (items m r)) {..<next_ref m}"
  by (simp add: heap_ok_def)

lemma sinv_mark:
  "sinv m \<Longrightarrow> heap_ok m \<Longrightarrow> r < next_ref m \<Longrightarrow> sinv (UpdateStatus e r st m)"
  unfolding UpdateStatus_def
  by (rule sinv_view [OF _ _ _ _ sinv_save [where m = m and r = r and e = e
        and i = "mark_status (now e) st (items m r)"]])
     (simp_all add: heap_inj)

lemma sinv_finalize:
  "sinv m \<Longrightarrow> heap_ok m \<Longrightarrow> r < next_ref m \<Longrightarrow> sinv (finalizeJob e r err m)"
  unfolding finalizeJob_def Let_def
  by (rule sinv_view [OF _ _ _ _ sinv_save [where m = m and r = r and e = e
        and i = "if (case err of Some x \<Rightarrow> is_canceled x | None \<Rightarrow> False) \<and>
                    pauseRequestedID m = qi_ID (items m r)
                 then requeue_item (now e) (items m r) else finish_item (now e) err (items m r)"]])
     (simp_all add: heap_inj)

lemma busy_of_pc:
  "pc_ok A P m p \<Longrightarrow> activeItem m = Some r \<Longrightarrow> r < next_ref m"
  by (cases "(A, P, m, p)" rule: pc_ok.cases) (auto simp: busy_def)

lemma worker_sinv:
  assumes "sinv m" and "minv A P p m" and "reply_ok p m rp" and "worker_step e rp p m = (q, n)"
  shows "sinv n"
proof (cases p)
  case (Admitted r)
  with assms show ?thesis
    by (auto simp: Let_def intro: sinv_view [OF _ _ _ _ sinv_item [OF assms(1)]])
next
  case (Hydrating r c)
  show ?thesis
  proof (cases rp)
    case (HydrateReply io)
    obtain x j where "HydrateItem io (items m r) = (x, j)" by (cases "HydrateItem io (items m r)")
    with HydrateItem_control [OF this] HydrateReply Hydrating assms show ?thesis
      by (cases x) (auto simp: same_control_def intro: sinv_item)
  qed (use Hydrating assms in auto)
next
  case (ToDownloading r c)
  let ?m = "recordEvent (qi_ID (items m r)) ''hydrate'' ''ok'' ''Hydration complete'' m"
  have "sinv ?m" using assms(1) by (rule sinv_view [rotated 4]) simp_all
  moreover have "heap_ok ?m" and "r < next_ref ?m"
    using assms(2) ToDownloading by (auto simp: minv_def busy_def intro: heap_ok_view [OF same_view_ops(2)])
  ultimately show ?thesis using ToDownloading assms(4) by (auto intro: sinv_mark)
next
  case (InDownload r c)
  with assms show ?thesis
    by (cases rp) (auto simp: same_control_def intro: sinv_item split: option.splits)
next
  case (ToProcessing r c)
  with assms show ?thesis by (auto simp: minv_def busy_def intro: sinv_mark)
next
  case (InPost r c)
  have h: "heap_ok m" and r: "r < next_ref m" using assms(2) InPost by (auto simp: minv_def busy_def)
  show ?thesis
  proof (cases rp)
    case (CallReply x i)
    with InPost assms(3) have "qi_ID i = qi_ID (items m r)" "qi_Status i = qi_Status (items m r)"
      by (auto simp: same_control_def)
    with CallReply InPost assms(1,4) h r show ?thesis
      by (cases x) (auto intro: sinv_item sinv_save simp: heap_inj)
  qed (use InPost assms in auto)
next
  case (Finalizing r c err)
  have "r < next_ref m" using assms(2) Finalizing by (cases err) (auto simp: minv_def busy_def)
  with Finalizing assms show ?thesis by (auto simp: minv_def intro: sinv_finalize)
qed (use assms in \<open>auto simp: Let_def split: if_splits option.splits
       intro: sinv_view [OF _ _ _ _ assms(1)]\<close>)

lemma store_fn_load:
  assumes "store_fn X n idf stf db" and "db_status db k = Some st" and "\<forall>x<n. idf x \<noteq> k"
  shows "store_fn (X - {k}) (Suc n) (idf(n := k)) (stf(n := st)) db"
  unfolding store_fn_def
proof (intro conjI allI impI)
  show "distinct_ids db" using assms(1) by (simp add: store_fn_def)
next
  fix r assume "r < Suc n"
  then show "db_status db ((idf(n := k)) r) = Some ((stf(n := st)) r) \<or>
      terminal ((stf(n := st)) r) \<and> db_status db ((idf(n := k)) r) = None"
    using assms(1,2) by (auto simp: store_fn_def less_Suc_eq)
next
  fix k' st' assume s: "db_status db k' = Some st'" "\<not> terminal st'"
  show "k' \<in> X - {k} \<or> (\<exists>r<Suc n. (idf(n := k)) r = k')"
  proof (cases "k' = k")
    case True
    then show ?thesis by (intro disjI2 exI [of _ n]) simp
  next
    case False
    have "k' \<in> X \<or> (\<exists>r<n. idf r = k')" using assms(1) s by (simp add: store_fn_def)
    then consider "k' \<in> X" | r where "r < n" "idf r = k'" by blast
    then show ?thesis
    proof cases
      case 1
      with False show ?thesis by simp
    next
      case 2
      then show ?thesis by (intro disjI2 exI [of _ r]) auto
    qed
  qed
qed

lemma store_fn_other:
  assumes "store_fn X n idf stf db" and "db_status db' = (db_status db)(k \<mapsto> st)"
    and "distinct_ids db'" and "\<forall>x<n. idf x \<noteq> k"
  shows "store_fn (insert k X) n idf stf db'"
  using assms by (auto simp: store_fn_def)

lemma item_new_view:
  "(\<lambda>x. qi_ID ((h(r := i)) x)) = (\<lambda>x. qi_ID (h x))(r := qi_ID i)"
  by (auto simp: fun_eq_iff)

lemma add_sinv:
  assumes "sinv m" and "add_item e cfg qid req m = (Inr r, m')" and "fresh_id qid m"
  shows "sinv m'"
proof -
  let ?i = "new_item e cfg qid req"
  obtain db where db: "SaveQueueItem (now e) ?i (store m) = Some db"
    and m': "next_ref m' = Suc (next_ref m)" "items m' = (items m)(next_ref m := ?i)"
      "store m' = db" "save_failed m' = save_failed m"
    using assms(2) by (auto simp: add_item_def Let_def split: if_splits option.splits)
  show ?thesis
  proof (cases "save_failed m")
    case True
    with m' show ?thesis by (simp add: sinv_def)
  next
    case False
    with assms(1) have ok: "store_ok m" by (simp add: sinv_def)
    then have w: "distinct_ids (store m)" by (simp add: store_ok_def store_fn_def)
    have "db_status db = (db_status (store m))(qid \<mapsto> StatusPending)"
      using jobs.save_lookup [OF w db] by simp
    then have "store_fn {qid} (next_ref m) (\<lambda>r. qi_ID (items m r)) (\<lambda>r. qi_Status (items m r)) db"
      using ok assms(3) jobs.save_wf [OF w db] unfolding store_ok_def
      by (intro store_fn_other) (auto simp: fresh_id_def)
    from store_fn_load [OF this, of qid StatusPending] \<open>db_status db = _\<close> assms(3)
    have "store_ok m'"
      unfolding store_ok_def m' item_new_view item_view(2) by (simp add: fresh_id_def)
    then show ?thesis by (simp add: sinv_def)
  qed
qed

lemma Delete_sinv:
  assumes "sinv m" and "heap_ok m"
  shows "sinv (snd (Delete e qid m))"
proof (cases "save_failed m \<or> \<not> db_up e \<or>
    list_ex (\<lambda>r. qi_ID (items m r) = qid \<and> \<not> terminal (qi_Status (items m r))) (queue m)")
  case True
  then show ?thesis using assms(1) by (auto simp: Delete_def sinv_def split: prod.split)
next
  case False
  let ?db = "snd (DeleteQueueItems [qid] (store m))"
  have ok: "store_ok m" using assms(1) False by (simp add: sinv_def)
  then have w: "distinct_ids (store m)" by (simp add: store_ok_def store_fn_def)
  have l: "db_status ?db = db_status (store m) |` (- {qid})" and w': "distinct_ids ?db"
    using jobs.drop_lookup [OF w, of "[qid]"] jobs.drop_wf [OF w, of "[qid]"] by simp_all
  have t: "r < next_ref m \<Longrightarrow> qi_ID (items m r) = qid \<Longrightarrow> terminal (qi_Status (items m r))" for r
    using False assms(2) by (auto simp: heap_ok_def live_def list_ex_iff)
  have "store_ok (m\<lparr>store := ?db\<rparr>)"
    using ok t w' by (auto simp: store_ok_def store_fn_def l restrict_map_def)
  moreover have "snd (Delete e qid m) = m\<lparr>store := ?db\<rparr>"
    using False by (auto simp: Delete_def split: prod.split)
  ultimately show ?thesis by (simp add: sinv_def)
qed

lemma Cancel_sinv:
  assumes "sinv m" and "heap_ok m"
  shows "sinv (snd (Cancel e qid m))"
proof (cases "find (\<lambda>r. qi_ID (items m r) = qid) (queue m)")
  case None
  with assms show ?thesis by (simp add: Cancel_def)
next
  case (Some r)
  then have "live m r" by (auto simp: find_Some_iff live_def)
  with assms(2) have r: "r < next_ref m" by (auto simp: heap_ok_def)
  let ?i = "(items m r)\<lparr>qi_Status := StatusFailed, qi_Error := Some ''Cancelled by user'',
               qi_StartedAt := or_now (qi_StartedAt (items m r)) (now e),
               qi_CompletedAt := Some (now e), qi_UpdatedAt := Some (now e),
               qi_DownloadedBytes := GetBytes (items m r)\<rparr>"
  have "sinv (cancel_pending e r m)"
    unfolding cancel_pending_def Let_def
    by (rule sinv_view [OF _ _ _ _ sinv_save [OF assms(1) heap_inj [OF assms(2)] r,
          where e = e and i = ?i]]) (simp_all add: saveItem_def removeFromLiveQueue_def set_item_def
            split: option.split)
  with Some assms(1) show ?thesis
    by (auto simp: Cancel_def split: option.split intro: sinv_view [OF _ _ _ _ assms(1)])
qed

lemma step_sinv:
  "queue_step s t \<Longrightarrow> minv (asked s) (posted s) (at s) (mgr s) \<Longrightarrow> sinv (mgr s) \<Longrightarrow> sinv (mgr t)"
proof (induction rule: queue_step.induct)
  case (step_worker e rp s p' m')
  then show ?case using worker_sinv by simp
next
  case (step_add e cfg qid req s r m')
  then show ?case using add_sinv by simp
next
  case (step_signal s n)
  then show ?case by (auto simp: notify_def intro: sinv_view [rotated 4])
next
  case (step_pause s)
  then show ?case
    by (auto simp: Pause_def Let_def split: option.split intro: sinv_view [rotated 4])
next
  case (step_resume s was m')
  then show ?case by (auto simp: unpause_def intro: sinv_view [rotated 4])
next
  case (step_cancel e qid s b m')
  then show ?case using Cancel_sinv [of "mgr s" e qid] by (simp add: minv_def)
next
  case (step_delete e qid s b m')
  then show ?case using Delete_sinv [of "mgr s" e qid] by (simp add: minv_def)
next
  case (step_stop s)
  then show ?case
    by (auto simp: Stop_def Let_def split: option.split intro: sinv_view [rotated 4])
qed

lemma load_items_save_failed: "save_failed m \<Longrightarrow> save_failed (load_items e off is m)"
proof (induction e off "is" m rule: load_items.induct)
  case (2 e cacheOff i rest m)
  have "save_failed (saveItem e r n)" if "save_failed n" for r n
    using that by (simp add: saveItem_def split: option.split)
  with 2 show ?case by (simp add: Let_def)
qed simp

lemma load_items_sinv:
  assumes "store_fn (qi_ID ` set is) (next_ref m) (\<lambda>r. qi_ID (items m r)) (\<lambda>r. qi_Status (items m r)) (store m)"
    and "\<forall>i\<in>set is. db_status (store m) (qi_ID i) = Some (qi_Status i)"
    and "distinct (map qi_ID is)" and "\<forall>r<next_ref m. qi_ID (items m r) \<notin> qi_ID ` set is"
  shows "sinv (load_items e off is m)"
  using assms
proof (induction "is" arbitrary: m)
  case Nil
  then show ?case by (simp add: sinv_def store_ok_def)
next
  case (Cons i rest)
  let ?k = "qi_ID i" and ?r = "next_ref m"
  have X: "qi_ID ` set (i # rest) - {?k} = qi_ID ` set rest"
    "insert ?k (qi_ID ` set (i # rest)) - {?k} = qi_ID ` set rest"
    using Cons.prems(3) by auto
  have new: "\<forall>x<?r. qi_ID (items m x) \<noteq> ?k" using Cons.prems(4) by auto
  have rest: "\<forall>x<Suc ?r. qi_ID (((items m)(?r := j)) x) \<notin> qi_ID ` set rest" if "qi_ID j = ?k" for j
    using Cons.prems(3,4) that by (auto simp: less_Suc_eq)
  show ?case
  proof (cases "off \<and> \<not> qi_Resumable i")
    case True
    let ?i = "fail_non_resumable e i"
    let ?m0 = "set_item ?r ?i (m\<lparr>next_ref := Suc ?r\<rparr>)"
    let ?n = "recordEvent ?k ''hydrate'' ''failed'' ''payload_not_persisted'' (saveItem e ?r ?m0)"
    have i: "qi_ID ?i = ?k" "qi_Status ?i = StatusFailed" by (simp_all add: fail_non_resumable_def)
    have eq: "load_items e off (i # rest) m = load_items e off rest ?n" using True by (simp add: Let_def)
    show ?thesis
    proof (cases "save_failed ?n")
      case True
      then show ?thesis unfolding eq by (simp add: sinv_def load_items_save_failed)
    next
      case False
      then obtain db where db: "SaveQueueItem (now e) ?i (store m) = Some db" and sn: "store ?n = db"
        by (auto simp: saveItem_def split: option.splits if_splits)
      have w: "distinct_ids (store m)" using Cons.prems(1) by (simp add: store_fn_def)
      have l: "db_status db = (db_status (store m))(?k \<mapsto> StatusFailed)"
        using jobs.save_lookup [OF w db] i by simp
      have "store_fn (insert ?k (qi_ID ` set (i # rest))) ?r (\<lambda>r. qi_ID (items m r))
          (\<lambda>r. qi_Status (items m r)) db"
        using Cons.prems(1) l jobs.save_wf [OF w db] new by (rule store_fn_other)
      from store_fn_load [OF this, of ?k StatusFailed] l new
      have "store_fn (qi_ID ` set rest) (Suc ?r) (\<lambda>r. qi_ID (((items m)(?r := ?i)) r))
          (\<lambda>r. qi_Status (((items m)(?r := ?i)) r)) db"
        unfolding item_new_view item_view(2) X(2) i by simp
      moreover have "\<forall>j\<in>set rest. db_status db (qi_ID j) = Some (qi_Status j)"
      proof
        fix j assume j: "j \<in> set rest"
        then have "qi_ID j \<in> qi_ID ` set rest" by (rule imageI)
        with Cons.prems(3) have "qi_ID j \<noteq> ?k" by auto
        with l j Cons.prems(2) show "db_status db (qi_ID j) = Some (qi_Status j)" by simp
      qed
      ultimately show ?thesis
        unfolding eq using Cons.prems(3) rest [OF i(1)] sn
        by (intro Cons.IH) (simp_all del: fun_upd_apply)
    qed
  next
    case False
    let ?n = "(set_item ?r i (m\<lparr>next_ref := Suc ?r\<rparr>))\<lparr>queue := queue m @ [?r]\<rparr>"
    have eq: "load_items e off (i # rest) m = load_items e off rest ?n" using False by (auto simp: Let_def)
    from store_fn_load [OF Cons.prems(1), of ?k "qi_Status i"] Cons.prems(2) new
    have "store_fn (qi_ID ` set rest) (Suc ?r) (\<lambda>r. qi_ID (((items m)(?r := i)) r))
        (\<lambda>r. qi_Status (((items m)(?r := i)) r)) (store m)"
      unfolding item_new_view item_view(2) X(1) by simp
    then show ?thesis
      unfolding eq using Cons.prems(2,3) rest [of i]
      by (intro Cons.IH) (simp_all del: fun_upd_apply)
  qed
qed

lemma active_status:
  assumes "distinct_ids db"
  shows "i \<in> set (GetActiveQueueItems db) \<Longrightarrow> db_status db (qi_ID i) = Some (qi_Status i)"
    and "db_status db k = Some st \<Longrightarrow> \<not> terminal st \<Longrightarrow> k \<in> qi_ID ` set (GetActiveQueueItems db)"
proof -
  assume "i \<in> set (GetActiveQueueItems db)"
  then obtain row where "row \<in> set db" "i = ToDomain row" by (auto simp: GetActiveQueueItems_def)
  with assms show "db_status db (qi_ID i) = Some (qi_Status i)"
    unfolding db_status_def by (intro map_of_is_SomeI) (auto simp: distinct_ids_def comp_def)
next
  assume "db_status db k = Some st" and t: "\<not> terminal st"
  then obtain row where "row \<in> set db" "row_id row = k" "row_status row = st"
    unfolding db_status_def by (auto dest!: map_of_SomeD)
  with t show "k \<in> qi_ID ` set (GetActiveQueueItems db)"
    by (force simp: GetActiveQueueItems_def)
qed

lemma start_sinv:
  assumes "db_up e" and "distinct_ids db"
  shows "sinv (mgr (queue_start e cfg db))"
proof -
  let ?db = "ResetStuckQueueItems (now e) StatusPending [StatusDownloading, StatusProcessing] db"
  let ?n = "(NewQueueManager db)\<lparr>store := ?db\<rparr>"
  have w: "distinct_ids ?db" using assms(2) by (simp add: distinct_ids_def ResetStuck_ids)
  have "sinv (load_items e off (GetActiveQueueItems ?db) ?n)" for off
    by (rule load_items_sinv)
       (use w active_status [OF w] active_distinct [OF w] in \<open>auto simp: store_fn_def\<close>)
  with assms(1) show ?thesis
    by (simp add: queue_start_def initFromDatabase_def Let_def)
       (rule sinv_view [rotated 4], assumption, simp_all)
qed

lemma reachable_sinv: "queue_reachable s \<Longrightarrow> sinv (mgr s)"
proof (induction rule: queue_reachable.induct)
  case (reach_start e db cfg)
  then show ?case by (rule start_sinv)
next
  case (reach_step s t)
  then show ?case by (blast intro: step_sinv reachable_minv)
qed

end
