(* ===== verification/Queue_Runs.thy ===== *)
theory Queue_Runs
  imports Queue_Store
begin

text \<open>
  Executable runs of the queue: lists of actions, each of which is a step, and a small instance on
  which the properties are exercised.
\<close>

section \<open>Concrete runs\<close>

text \<open>A run is a list of actions; an action that is not enabled leaves the system as it is.
  \<open>Returns\<close> lets the call in progress return, with the item as it is.\<close>

datatype action =
    Goroutine env
  | Hydrated env hydrate_io
  | Returns env "job_error option"
  | AddRequest env "queue_config option" string queue_add_request
  | Signal
  | PauseRequest
  | ResumeRequest
  | CancelRequest env string
  | DeleteRequest env string
  | StopRequest

definition work :: "env \<Rightarrow> reply \<Rightarrow> queue_system \<Rightarrow> queue_system" where
  "work e rp s =
     (case worker_step e rp (at s) (mgr s) of
        (p', m') \<Rightarrow> s\<lparr>at := p', mgr := m', posted := posted s \<union> post_done (at s) rp\<rparr>)"

fun called_item :: "pc \<Rightarrow> nat" where
  "called_item (InDownload r c) = r"
| "called_item (InPost r c) = r"
| "called_item p = 0"

fun act :: "action \<Rightarrow> queue_system \<Rightarrow> queue_system" where
  "act (Goroutine e) s = work e NoReply s"
| "act (Hydrated e io) s = work e (HydrateReply io) s"
| "act (Returns e x) s = work e (CallReply x (items (mgr s) (called_item (at s)))) s"
| "act (AddRequest e cfg qid req) s =
     (case add_item e cfg qid req (mgr s) of
        (Inl err, m') \<Rightarrow> s
      | (Inr r, m') \<Rightarrow>
          if list_all (\<lambda>r. qi_ID (items (mgr s) r) \<noteq> qid) [0..<next_ref (mgr s)] \<and>
             db_status (store (mgr s)) qid = None
          then s\<lparr>mgr := m', signals := Suc (signals s)\<rparr> else s)"
| "act Signal s =
     (case signals s of 0 \<Rightarrow> s | Suc n \<Rightarrow> s\<lparr>mgr := notify (mgr s), signals := n\<rparr>)"
| "act PauseRequest s =
     s\<lparr>mgr := Pause (mgr s), asked := asked s \<union> set_option (activeItem (mgr s))\<rparr>"
| "act ResumeRequest s =
     (case unpause (mgr s) of
        (was, m') \<Rightarrow> s\<lparr>mgr := m', signals := signals s + (if was then 1 else 0)\<rparr>)"
| "act (CancelRequest e qid) s =
     (case Cancel e qid (mgr s) of
        (b, m') \<Rightarrow> s\<lparr>mgr := m', asked := asked s \<union>
          set_option (find (\<lambda>r. qi_ID (items (mgr s) r) = qid) (queue (mgr s)))\<rparr>)"
| "act (DeleteRequest e qid) s = (case Delete e qid (mgr s) of (b, m') \<Rightarrow> s\<lparr>mgr := m'\<rparr>)"
| "act StopRequest s =
     s\<lparr>mgr := Stop (mgr s), asked := asked s \<union> set_option (activeItem (mgr s))\<rparr>"

fun run :: "action list \<Rightarrow> queue_system \<Rightarrow> queue_system" where
  "run [] s = s"
| "run (a # as) s = run as (act a s)"

lemma work_step: "reply_ok (at s) (mgr s) rp \<Longrightarrow> queue_step s (work e rp s)"
  by (cases "worker_step e rp (at s) (mgr s)") (auto simp: work_def intro: step_worker)

lemma act_step: "act a s = s \<or> queue_step s (act a s)"
proof (cases a)
  case (Goroutine e)
  have "reply_ok (at s) (mgr s) NoReply" by (cases "at s") simp_all
  with Goroutine show ?thesis by (simp add: work_step)
next
  case (Hydrated e io)
  have "reply_ok (at s) (mgr s) (HydrateReply io)" by (cases "at s") simp_all
  with Hydrated show ?thesis by (simp add: work_step)
next
  case (Returns e x)
  have "reply_ok (at s) (mgr s) (CallReply x (items (mgr s) (called_item (at s))))"
    by (cases "at s") (simp_all add: same_control_def)
  with Returns show ?thesis by (simp add: work_step)
next
  case (AddRequest e cfg qid req)
  then show ?thesis
    by (auto simp: fresh_id_def list_all_iff split: prod.split sum.split intro: step_add)
next
  case Signal
  then show ?thesis by (auto split: nat.split intro: step_signal)
next
  case PauseRequest
  then show ?thesis by (simp add: step_pause)
next
  case ResumeRequest
  then show ?thesis by (cases "unpause (mgr s)") (use step_resume in \<open>simp del: One_nat_def\<close>)
next
  case (CancelRequest e qid)
  then show ?thesis by (cases "Cancel e qid (mgr s)") (use step_cancel in simp)
next
  case (DeleteRequest e qid)
  then show ?thesis by (cases "Delete e qid (mgr s)") (use step_delete in simp)
next
  case StopRequest
  then show ?thesis by (simp add: step_stop)
qed

lemma run_reachable: "queue_reachable s \<Longrightarrow> queue_reachable (run as s)"
proof (induction "as" arbitrary: s)
  case (Cons a as)
  then show ?case using act_step [of a s] reach_step [of s "act a s"] by (metis run.simps(2))
qed simp

text \<open>A small instance: one pending job, its interfaces answering without error.\<close>

definition env1 :: env where "env1 = \<lparr>now = 5000000000, db_up = True\<rparr>"

definition row1 :: queue_row where
  "row1 = row_of_item 1 (blank_item\<lparr>qi_ID := ''k1'', qi_SourceKind := ''aggregator'',
     qi_SourceReleaseID := ''rel'', qi_Resumable := True\<rparr>)"

definition file1 :: download_file where
  "file1 = \<lparr>df_ID = 1, df_ReleaseID = ''rel'', df_FileName = ''a.bin'', df_Size = 10, df_Index = 0,
     df_IsPars = False, df_Subject = ''s'', df_Date = 7, df_Groups = [], df_Poster = ''p'',
     df_PartPath = ''a.part'', df_FinalPath = ''a.bin'', df_IsComplete = False, df_Password = [],
     df_actualSize = 0, df_Segments = []\<rparr>"

definition io1 :: hydrate_io where
  "io1 = \<lparr>io_release = None, io_nzb_err = None, io_parse_err = None,
     io_prepare = Inr ([file1], 10, [])\<rparr>"

definition start1 :: queue_system where "start1 = queue_start env1 None [row1]"

lemma start1_reachable: "queue_reachable start1"
  unfolding start1_def by (rule reach_start) (simp_all add: env1_def distinct_ids_def)

abbreviation "tick \<equiv> Goroutine env1"

definition to_download :: "action list" where
  "to_download = [tick, tick, tick, tick, Hydrated env1 io1, tick]"

definition whole_job :: "action list" where
  "whole_job = to_download @ [tick, Returns env1 None, tick, tick, tick, Returns env1 None, tick]"

lemma whole_job_completes:
  "at (run whole_job start1) = Closing 0 0"
  "qi_Status (items (mgr (run whole_job start1)) 0) = StatusCompleted"
  "posted (run whole_job start1) = {0}" "asked (run whole_job start1) = {}"
  "stopped (mgr (run whole_job start1)) = False"
  "next_ref (mgr (run whole_job start1)) = 1"
  by code_simp+

end
