(* ===== verification/Queue_Props.thy ===== *)
theory Queue_Props
  imports Queue_Runs
begin

text \<open>
  The properties of the download queue and of its job store: what holds in every reachable state,
  restart, requests, cancelling and pausing, progress, working directories, snapshots and rows.
\<close>


section \<open>Properties of every reachable state\<close>

text \<open>C1: In every reachable state the live queue holds no job twice, no two jobs share an ID, the
  live queue is exactly the jobs whose status is not terminal, and only the active job has a cancel
  function.\<close>

theorem live_queue_invariant:
  assumes "queue_reachable s"
  shows "distinct (queue (mgr s)) \<and> set (queue (mgr s)) \<subseteq> {..<next_ref (mgr s)} \<and>
     inj_on (\<lambda>r. qi_ID (items (mgr s) r)) {..<next_ref (mgr s)} \<and>
     (\<forall>r<next_ref (mgr s).
        (r \<in> set (queue (mgr s)) \<longleftrightarrow> \<not> terminal (qi_Status (items (mgr s) r))) \<and>
        (qi_CancelFunc (items (mgr s) r) \<noteq> None \<longrightarrow> activeItem (mgr s) = Some r))"
  using reachable_minv [OF assms] unfolding minv_def heap_ok_def live_def by auto

theorem live_queue_invariant_witness:
  "distinct (queue (mgr (run to_download start1)))"
  using live_queue_invariant [OF run_reachable [OF start1_reachable, of to_download]] by blast

text \<open>C2: A job ends as completed only if its post-processing returned without error, or somebody
  asked for it to stop (a pause, a cancel or a shutdown while it ran).\<close>

theorem completed_only_after_post:
  assumes "queue_reachable s" and "r < next_ref (mgr s)"
    and "qi_Status (items (mgr s) r) = StatusCompleted"
    and "r \<notin> asked s" and "\<not> stopped (mgr s)"
  shows "r \<in> posted s"
  using reachable_minv [OF assms(1)] assms(2-) unfolding minv_def done_ok_def told_def by auto

theorem completed_only_after_post_witness: "0 \<in> posted (run whole_job start1)"
  by (rule completed_only_after_post [OF run_reachable [OF start1_reachable]])
     (simp_all add: whole_job_completes)


definition add_while_parked :: "action list" where
  "add_while_parked = [tick,
     AddRequest env1 None ''k9'' \<lparr>qr_SourceKind = ''manual'', qr_SourceReleaseID = ''r9'',
       qr_Release = None, qr_Title = ''t9''\<rparr>]"

definition start_empty :: queue_system where "start_empty = queue_start env1 None []"

lemma start_empty_reachable: "queue_reachable start_empty"
  unfolding start_empty_def by (rule reach_start) (simp_all add: env1_def distinct_ids_def)

lemma add_while_parked_state:
  "at (run add_while_parked start_empty) = Parked"
  "pick (mgr (run add_while_parked start_empty)) = Some 0"
  by code_simp+


text \<open>C20: Unless a write to the job store failed, a job's row carries the job's current status (the
  row may be gone only after the job has ended), and every row that is not terminal belongs to a
  job of the manager.\<close>

theorem store_follows_queue:
  assumes "queue_reachable s" and "\<not> save_failed (mgr s)" and "r < next_ref (mgr s)"
  shows "(db_status (store (mgr s)) (qi_ID (items (mgr s) r)) = Some (qi_Status (items (mgr s) r)) \<or>
          terminal (qi_Status (items (mgr s) r)) \<and>
          db_status (store (mgr s)) (qi_ID (items (mgr s) r)) = None) \<and>
    (\<forall>k st. db_status (store (mgr s)) k = Some st \<and> \<not> terminal st \<longrightarrow>
       (\<exists>r<next_ref (mgr s). qi_ID (items (mgr s) r) = k))"
  using reachable_sinv [OF assms(1)] assms(2,3) by (auto simp: sinv_def store_ok_def store_fn_def)

lemma whole_job_saved: "\<not> save_failed (mgr (run whole_job start1))"
  by code_simp

theorem store_follows_queue_witness:
  "db_status (store (mgr (run whole_job start1))) (qi_ID (items (mgr (run whole_job start1)) 0))
     \<in> {Some StatusCompleted, None}"
  using store_follows_queue [OF run_reachable [OF start1_reachable] whole_job_saved, of 0]
  by (auto simp: whole_job_completes)

section \<open>Restart\<close>

lemma live_status: "queue_reachable s \<Longrightarrow> r \<in> set (queue (mgr s)) \<Longrightarrow>
    r < next_ref (mgr s) \<and> \<not> terminal (qi_Status (items (mgr s) r))"
  using reachable_minv unfolding minv_def heap_ok_def live_def by blast

lemma load_all:
  assumes "\<forall>r\<in>set (queue m). r < next_ref m"
  shows "map (items (load_items e False is m)) (queue (load_items e False is m)) =
     map (items m) (queue m) @ is"
  using assms
proof (induction "is" arbitrary: m)
  case (Cons i rest)
  let ?n = "(set_item (next_ref m) i (m\<lparr>next_ref := Suc (next_ref m)\<rparr>))\<lparr>queue := queue m @ [next_ref m]\<rparr>"
  have "map (items ?n) (queue ?n) = map (items m) (queue m) @ [i]"
    using Cons.prems by auto
  moreover have "\<forall>r\<in>set (queue ?n). r < next_ref ?n" using Cons.prems by auto
  ultimately show ?case using Cons.IH [of ?n] by (simp add: Let_def)
qed simp

definition cache_on :: "queue_config option \<Rightarrow> bool" where
  "cache_on cfg \<longleftrightarrow> (case cfg of Some c \<Rightarrow> PayloadCacheEnabled c | None \<Rightarrow> True)"

lemma start_items:
  assumes "db_up e" and "cache_on cfg"
  shows "map (items (mgr (queue_start e cfg db))) (queue (mgr (queue_start e cfg db))) =
     GetActiveQueueItems (ResetStuckQueueItems (now e) StatusPending
       [StatusDownloading, StatusProcessing] db)"
  using assms load_all [of "(NewQueueManager db)\<lparr>store := ResetStuckQueueItems (now e) StatusPending
       [StatusDownloading, StatusProcessing] db\<rparr>"]
  by (auto simp: queue_start_def initFromDatabase_def Let_def cache_on_def split: option.splits)

abbreviation reset_rows :: "int \<Rightarrow> job_store \<Rightarrow> job_store" where
  "reset_rows n db \<equiv>
     ResetStuckQueueItems n StatusPending [StatusDownloading, StatusProcessing] db"

lemma active_rows:
  "set (GetActiveQueueItems db) = ToDomain ` {r \<in> set db. \<not> terminal (row_status r)}"
  by (auto simp: GetActiveQueueItems_def)

lemma reset_row:
  "set (reset_rows n db) = (\<lambda>r. if row_status r = StatusDownloading \<or> row_status r = StatusProcessing
     then r\<lparr>row_status := StatusPending, row_error := Some ''Unexpected shutdown'', row_updated_at := n\<rparr>
     else r) ` set db"
  by (simp add: ResetStuckQueueItems_def)

lemma reset_active: "i \<in> set (GetActiveQueueItems (reset_rows n db)) \<Longrightarrow> qi_Status i = StatusPending"
proof -
  assume "i \<in> set (GetActiveQueueItems (reset_rows n db))"
  then obtain r where "r \<in> set (reset_rows n db)" "\<not> terminal (row_status r)" "i = ToDomain r"
    unfolding active_rows by blast
  then show ?thesis
    unfolding reset_row by (cases "row_status r") (auto simp: terminal_def split: if_splits)
qed

lemma reset_active_ids:
  "qi_ID ` set (GetActiveQueueItems (reset_rows n db)) = qi_ID ` set (GetActiveQueueItems db)"
proof -
  let ?f = "\<lambda>r. if row_status r = StatusDownloading \<or> row_status r = StatusProcessing
     then r\<lparr>row_status := StatusPending, row_error := Some ''Unexpected shutdown'', row_updated_at := n\<rparr>
     else r"
  have f: "row_id (?f r) = row_id r" "terminal (row_status (?f r)) = terminal (row_status r)" for r
    by (simp_all add: terminal_def)
  have "{r \<in> ?f ` set db. \<not> terminal (row_status r)} = ?f ` {r \<in> set db. \<not> terminal (row_status r)}"
    using f(2) by blast
  then show ?thesis
    unfolding active_rows reset_row image_image ToDomain_sel by (simp only: image_image f(1))
qed

text \<open>C21: When the program is started again on the table a running queue left behind (no write
  having failed, and the payload cache on), the new queue holds exactly the jobs that were live, all
  of them pending.\<close>

theorem restart_recovers_live_jobs:
  assumes "queue_reachable s" and "\<not> save_failed (mgr s)" and "db_up e" and "cache_on cfg"
    and "t = queue_start e cfg (store (mgr s))"
  shows "(\<lambda>r. qi_ID (items (mgr t) r)) ` set (queue (mgr t)) =
           (\<lambda>r. qi_ID (items (mgr s) r)) ` set (queue (mgr s)) \<and>
         (\<forall>r\<in>set (queue (mgr t)). qi_Status (items (mgr t) r) = StatusPending)"
proof -
  let ?db = "store (mgr s)"
  let ?is = "GetActiveQueueItems (reset_rows (now e) ?db)"
  have l: "map (items (mgr t)) (queue (mgr t)) = ?is"
    using start_items [OF assms(3,4)] assms(5) by simp
  then have s: "items (mgr t) ` set (queue (mgr t)) = set ?is" by (metis list.set_map)
  have ok: "store_ok (mgr s)" using reachable_sinv [OF assms(1)] assms(2) by (simp add: sinv_def)
  then have w: "distinct_ids ?db" by (simp add: store_ok_def store_fn_def)
  have h: "heap_ok (mgr s)" using reachable_minv [OF assms(1)] by (simp add: minv_def)
  have "qi_ID ` set (GetActiveQueueItems ?db) = (\<lambda>r. qi_ID (items (mgr s) r)) ` set (queue (mgr s))"
  proof (intro equalityI subsetI)
    fix k assume "k \<in> qi_ID ` set (GetActiveQueueItems ?db)"
    then obtain i where i: "i \<in> set (GetActiveQueueItems ?db)" "k = qi_ID i" by auto
    then have st: "db_status ?db k = Some (qi_Status i)" "\<not> terminal (qi_Status i)"
      using active_status(1) [OF w] active_live by blast+
    from ok have "\<forall>k st. db_status ?db k = Some st \<longrightarrow> \<not> terminal st \<longrightarrow>
        (\<exists>r<next_ref (mgr s). qi_ID (items (mgr s) r) = k)"
      by (simp add: store_ok_def store_fn_def)
    with st obtain r where r: "r < next_ref (mgr s)" "qi_ID (items (mgr s) r) = k" by blast
    with ok st have "qi_Status (items (mgr s) r) = qi_Status i"
      by (auto simp: store_ok_def store_fn_def)
    with r st h have "r \<in> set (queue (mgr s))" by (simp add: heap_ok_def live_def)
    with r show "k \<in> (\<lambda>r. qi_ID (items (mgr s) r)) ` set (queue (mgr s))" by auto
  next
    fix k assume "k \<in> (\<lambda>r. qi_ID (items (mgr s) r)) ` set (queue (mgr s))"
    then obtain r where r: "r \<in> set (queue (mgr s))" "k = qi_ID (items (mgr s) r)" by auto
    with live_status [OF assms(1)] ok
    have "db_status ?db k = Some (qi_Status (items (mgr s) r))" "\<not> terminal (qi_Status (items (mgr s) r))"
      by (auto simp: store_ok_def store_fn_def)
    then show "k \<in> qi_ID ` set (GetActiveQueueItems ?db)" by (rule active_status(2) [OF w])
  qed
  then have "qi_ID ` items (mgr t) ` set (queue (mgr t)) =
      (\<lambda>r. qi_ID (items (mgr s) r)) ` set (queue (mgr s))"
    by (simp add: s reset_active_ids)
  moreover have "\<forall>r\<in>set (queue (mgr t)). qi_Status (items (mgr t) r) = StatusPending"
    using s reset_active by blast
  ultimately show ?thesis by (simp add: image_image)
qed

lemma to_download_saved: "\<not> save_failed (mgr (run to_download start1))"
  by code_simp

theorem restart_recovers_live_jobs_witness:
  "(\<lambda>r. qi_ID (items (mgr (queue_start env1 None (store (mgr (run to_download start1))))) r)) `
       set (queue (mgr (queue_start env1 None (store (mgr (run to_download start1)))))) =
   (\<lambda>r. qi_ID (items (mgr (run to_download start1)) r)) ` set (queue (mgr (run to_download start1)))"
  using restart_recovers_live_jobs [OF run_reachable [OF start1_reachable] to_download_saved _ _ refl,
      of env1 None]
  by (simp add: env1_def cache_on_def)

section \<open>Requests\<close>

text \<open>Deleting never removes a job that is still live: the request is refused and nothing
  changes.\<close>

theorem delete_refuses_live_job:
  assumes "queue_reachable s" and "r < next_ref (mgr s)"
    and "\<not> terminal (qi_Status (items (mgr s) r))"
  shows "Delete e (qi_ID (items (mgr s) r)) (mgr s) = (False, mgr s)"
proof -
  have "r \<in> set (queue (mgr s))"
    using reachable_minv [OF assms(1)] assms(2,3) by (simp add: minv_def heap_ok_def live_def)
  with assms(3) show ?thesis by (auto simp: Delete_def list_ex_iff)
qed

lemma to_download_live:
  "0 < next_ref (mgr (run to_download start1))"
  "\<not> terminal (qi_Status (items (mgr (run to_download start1)) 0))"
  by code_simp+

theorem delete_refuses_live_job_witness:
  "Delete env1 (qi_ID (items (mgr (run to_download start1)) 0)) (mgr (run to_download start1)) =
     (False, mgr (run to_download start1))"
  by (rule delete_refuses_live_job [OF run_reachable [OF start1_reachable] to_download_live])


section \<open>Cancelling and pausing\<close>

text \<open>When a job whose context is cancelled stands between two steps of the workflow, both
  remaining steps return without doing anything and without an error, and the job is finalized as
  completed.\<close>

theorem cancel_between_steps_completes:
  assumes "isCancelled m c"
  shows "worker_step e rp (RunDownload r c) m = (RunPost r c, m) \<and>
    worker_step e rp (RunPost r c) m = (Finalizing r c None, m) \<and>
    qi_Status (items (snd (worker_step e rp (Finalizing r c None) m)) r) = StatusCompleted"
  using assms by (simp add: finalizeJob_def Let_def)

theorem cancel_between_steps_completes_witness:
  "qi_Status (items (snd (worker_step env1 NoReply (Finalizing 0 0 None)
     (mgr (run (to_download @ [CancelRequest env1 ''k1'']) start1)))) 0) = StatusCompleted"
proof -
  have "isCancelled (mgr (run (to_download @ [CancelRequest env1 ''k1'']) start1)) 0"
    by code_simp
  then show ?thesis using cancel_between_steps_completes by blast
qed

definition cancel_run :: "action list" where
  "cancel_run = to_download @ [CancelRequest env1 ''k1'', tick, tick, tick, tick]"


definition early_cancel :: "action list" where
  "early_cancel = [tick, CancelRequest env1 ''k1'']"

definition late_finish :: "action list" where
  "late_finish = [tick, tick, tick, tick, tick, tick]"

text \<open>A job that is cancelled after the loop chose it and before the loop gave it a cancel
  function is recorded as failed and taken out of the queue, and is nevertheless activated: its row
  then goes from failed to completed.\<close>

theorem failed_job_revived:
  "queue_reachable (run (early_cancel @ late_finish) start1) \<and>
   db_status (store (mgr (run early_cancel start1))) ''k1'' = Some StatusFailed \<and>
   queue (mgr (run early_cancel start1)) = [] \<and>
   db_status (store (mgr (run (early_cancel @ late_finish) start1))) ''k1'' = Some StatusCompleted"
proof (intro conjI)
  show "queue_reachable (run (early_cancel @ late_finish) start1)"
    by (rule run_reachable [OF start1_reachable])
  show "db_status (store (mgr (run early_cancel start1))) ''k1'' = Some StatusFailed" by code_simp
  show "queue (mgr (run early_cancel start1)) = []" by code_simp
  show "db_status (store (mgr (run (early_cancel @ late_finish) start1))) ''k1'' = Some StatusCompleted"
    by code_simp
qed

text \<open>A job that stops because the queue was paused goes back to pending and stays in the live
  queue; its cancel function is cleared, nothing is active and, the write having succeeded, its
  row says pending.\<close>

theorem pause_requeues_job:
  assumes "queue_reachable s" and "at s = Finalizing r c (Some x)" and "is_canceled x"
    and "pauseRequestedID (mgr s) = qi_ID (items (mgr s) r)"
    and "m = finalizeJob e r (Some x) (mgr s)"
  shows "r \<in> set (queue m) \<and> qi_Status (items m r) = StatusPending \<and>
     qi_CancelFunc (items m r) = None \<and> activeItem m = None \<and> pauseRequestedID m = [] \<and>
     (\<not> save_failed m \<longrightarrow> db_status (store m) (qi_ID (items m r)) = Some StatusPending)"
proof -
  have i: "minv (asked s) (posted s) (at s) (mgr s)" and sv: "sinv (mgr s)"
    using assms(1) by (rule reachable_minv, rule reachable_sinv)
  then have h: "heap_ok (mgr s)" and r: "r < next_ref (mgr s)" "r \<in> set (queue (mgr s))"
    using assms(2) by (auto simp: minv_def busy_def live_def)
  have m: "queue m = queue (mgr s)" "items m r = requeue_item (now e) (items (mgr s) r)"
    "activeItem m = None" "pauseRequestedID m = []" "next_ref m = next_ref (mgr s)"
    using assms(3-5) by (simp_all add: finalizeJob_def Let_def)
  have "sinv m" unfolding assms(5) by (rule sinv_finalize [OF sv h r(1)])
  with m r(1) have "\<not> save_failed m \<longrightarrow> db_status (store m) (qi_ID (items m r)) = Some StatusPending"
    by (auto simp: sinv_def store_ok_def store_fn_def terminal_def)
  with m r(2) show ?thesis by simp
qed

definition paused_run :: "action list" where
  "paused_run = to_download @ [tick, PauseRequest, Returns env1 (Some (JobError True ''canceled''))]"

lemma paused_run_state:
  "at (run paused_run start1) = Finalizing 0 0 (Some (JobError True ''canceled''))"
  "pauseRequestedID (mgr (run paused_run start1)) = qi_ID (items (mgr (run paused_run start1)) 0)"
  by code_simp+

theorem pause_requeues_job_witness:
  "qi_Status (items (finalizeJob env1 0 (Some (JobError True ''canceled''))
     (mgr (run paused_run start1))) 0) = StatusPending"
  using pause_requeues_job [OF run_reachable [OF start1_reachable] paused_run_state(1) _
      paused_run_state(2) refl] by simp

section \<open>The goroutine makes progress\<close>

text \<open>How many steps of its own the goroutine is at most away from releasing the job.\<close>

fun to_go :: "pc \<Rightarrow> nat" where
  "to_go (Admitted r) = 11"
| "to_go (RunPending r c) = 10"
| "to_go (Hydrating r c) = 9"
| "to_go (ToDownloading r c) = 8"
| "to_go (RunDownload r c) = 7"
| "to_go (InDownload r c) = 6"
| "to_go (DownloadDone r c) = 5"
| "to_go (ToProcessing r c) = 4"
| "to_go (RunPost r c) = 3"
| "to_go (InPost r c) = 2"
| "to_go (Finalizing r c x) = 1"
| "to_go p = 0"

text \<open>A reply that the call in progress can return.\<close>

fun answers :: "pc \<Rightarrow> reply \<Rightarrow> bool" where
  "answers (Hydrating r c) rp = (case rp of HydrateReply io \<Rightarrow> True | _ \<Rightarrow> False)"
| "answers (InDownload r c) rp = (case rp of CallReply x i \<Rightarrow> True | _ \<Rightarrow> False)"
| "answers (InPost r c) rp = (case rp of CallReply x i \<Rightarrow> True | _ \<Rightarrow> False)"
| "answers p rp = True"

fun job_of :: "pc \<Rightarrow> nat option" where
  "job_of (Chosen r) = Some r"
| "job_of (Admitted r) = Some r"
| "job_of (RunPending r c) = Some r"
| "job_of (Hydrating r c) = Some r"
| "job_of (ToDownloading r c) = Some r"
| "job_of (RunDownload r c) = Some r"
| "job_of (InDownload r c) = Some r"
| "job_of (DownloadDone r c) = Some r"
| "job_of (ToProcessing r c) = Some r"
| "job_of (RunPost r c) = Some r"
| "job_of (InPost r c) = Some r"
| "job_of (Finalizing r c x) = Some r"
| "job_of (Closing r c) = Some r"
| "job_of p = None"

lemma step_to_go:
  "worker_step e rp p m = (q, n) \<Longrightarrow> answers p rp \<Longrightarrow> 0 < to_go p \<Longrightarrow>
     to_go q < to_go p \<and> job_of q = job_of p \<and> (to_go q = 0 \<longrightarrow> (\<exists>r c. q = Closing r c))"
  by (cases p; cases rp) (auto simp: Let_def split: if_splits option.splits prod.splits)

text \<open>The places the goroutine passes when other requests change the manager between its steps.\<close>

fun worker_trace ::
  "(pc \<Rightarrow> queue_manager \<Rightarrow> env \<times> reply) \<Rightarrow> (queue_manager \<Rightarrow> queue_manager) list \<Rightarrow> pc
     \<Rightarrow> queue_manager \<Rightarrow> pc list" where
  "worker_trace inp [] p m = [p]"
| "worker_trace inp (f # fs) p m =
     (case inp p m of (e, rp) \<Rightarrow>
        (case worker_step e rp p m of (q, n) \<Rightarrow> p # worker_trace inp fs q (f n)))"

lemma trace_closes:
  "0 < to_go p \<Longrightarrow> to_go p \<le> length fs \<Longrightarrow> job_of p = Some r \<Longrightarrow>
     (\<And>p m. answers p (snd (inp p m))) \<Longrightarrow> \<exists>c. Closing r c \<in> set (worker_trace inp fs p m)"
proof (induction inp fs p m rule: worker_trace.induct)
  case (2 inp f fs p m)
  obtain e rp where i: "inp p m = (e, rp)" by fastforce
  obtain q n where w: "worker_step e rp p m = (q, n)" by fastforce
  have "answers p rp" using 2(5) [of p m] i by simp
  with step_to_go [OF w] 2(2,4) have q: "to_go q < to_go p" "job_of q = Some r"
    "to_go q = 0 \<Longrightarrow> \<exists>r c. q = Closing r c" by auto
  have "\<exists>c. Closing r c \<in> set (worker_trace inp fs q (f n))"
  proof (cases "to_go q = 0")
    case True
    with q obtain c where "q = Closing r c" by auto
    moreover have "q \<in> set (worker_trace inp fs q (f n))" by (cases fs) (simp_all add: case_prod_unfold)
    ultimately show ?thesis by auto
  next
    case False
    with q 2(1) [OF i [symmetric] w [symmetric]] 2(3,5) show ?thesis by simp
  qed
  then show ?case using i w by auto
qed simp


fun obliging :: "pc \<Rightarrow> queue_manager \<Rightarrow> env \<times> reply" where
  "obliging (Hydrating r c) m = (env1, HydrateReply io1)"
| "obliging (InDownload r c) m = (env1, CallReply None (items m r))"
| "obliging (InPost r c) m = (env1, CallReply None (items m r))"
| "obliging p m = (env1, NoReply)"

lemma obliging_answers: "answers p (snd (obliging p m))"
  by (cases p) simp_all



section \<open>Working directories stay below the output directory\<close>

lemma sanitized_chars: "list_all dir_char (sanitizeQueueDirComponent t)"
proof -
  let ?u = "replace_unsafe False (trim_space t)"
  have "set (take 80 (collapse (trim_cutset ?u))) \<subseteq> set ?u"
    by (rule subset_trans [OF set_take_subset subset_trans [OF collapse_set trim_cutset_set]])
  then have "list_all dir_char (take 80 (collapse (trim_cutset ?u)))"
    using replace_unsafe_chars [of False "trim_space t"] by (auto simp: list_all_iff)
  then show ?thesis by (simp add: sanitizeQueueDirComponent_def Let_def)
qed

lemma sanitized_hd:
  assumes "sanitizeQueueDirComponent t \<noteq> []"
  shows "\<not> in_cutset (hd (sanitizeQueueDirComponent t))"
proof -
  let ?u = "trim_cutset (replace_unsafe False (trim_space t))"
  have eq: "sanitizeQueueDirComponent t = take 80 (collapse ?u)" and n: "collapse ?u \<noteq> []"
    using assms by (auto simp: sanitizeQueueDirComponent_def Let_def split: if_splits)
  have "?u \<noteq> []"
  proof
    assume "?u = []"
    then have "collapse ?u = []" by (simp add: collapse.simps [of "[]"])
    with n show False by simp
  qed
  moreover have "hd (take 80 (collapse ?u)) = hd (collapse ?u)" using n by (simp add: hd_take)
  ultimately show ?thesis using collapse_hd [of ?u] trim_cutset_hd [of "replace_unsafe False (trim_space t)"] eq by simp
qed

lemma sanitized_length: "length (sanitizeQueueDirComponent t) \<le> 80"
  by (simp add: sanitizeQueueDirComponent_def Let_def)

text \<open>Whatever the title of a release is (a path, dots, control characters), the working directory
  of its job is one new element directly below the output directory: the element has only letters,
  digits, dots, underscores and hyphens, and at most 80 of them before the job's ID.\<close>

theorem out_dir_stays_below_base:
  assumes "list_all ordinary es" and "es \<noteq> []" and "list_all dir_char qid"
    and "base = CHR ''/'' # join_slash es"
  shows "\<exists>name. buildQueueItemOutDir base title qid = base @ CHR ''/'' # name \<and> ordinary name \<and>
     list_all dir_char name \<and> length name \<le> 81 + length qid"
proof -
  define n where "n = (if sanitizeQueueDirComponent title = [] then ''job'' else sanitizeQueueDirComponent title)"
  define name where "name = (if qid \<noteq> [] then n @ ''_'' @ qid else n)"
  have n: "n \<noteq> []" "\<not> in_cutset (hd n)" "list_all dir_char n" "length n \<le> 80"
    using sanitized_hd [of title] sanitized_chars [of title] sanitized_length [of title]
    by (auto simp: n_def in_cutset_def dir_char_def)
  have c: "list_all dir_char name"
    using n(3) assms(3) by (auto simp: name_def dir_char_def)
  then have "CHR ''/'' \<notin> set name" by (auto simp: list_all_iff dir_char_def)
  moreover have "hd name = hd n" "name \<noteq> []" using n(1) by (auto simp: name_def)
  then have "name \<noteq> [] \<and> name \<noteq> ''.'' \<and> name \<noteq> ''..''"
    using n(2) by (auto simp: in_cutset_def)
  ultimately have o: "ordinary name" by (simp add: ordinary_def)
  have "buildQueueItemOutDir base title qid = path_join base name"
    by (simp add: buildQueueItemOutDir_def Let_def name_def n_def)
  with path_join_below [OF assms(1,2) o] assms(4) o c n(4) show ?thesis
    by (intro exI [of _ name]) (auto simp: name_def)
qed

theorem out_dir_stays_below_base_witness:
  "\<exists>name. buildQueueItemOutDir ''/data'' ''../../etc/passwd'' ''k1'' = ''/data'' @ CHR ''/'' # name \<and>
     ordinary name \<and> list_all dir_char name \<and> length name \<le> 81 + length ''k1''"
  by (rule out_dir_stays_below_base [of "[''data'']"]) (simp_all add: ordinary_def dir_char_def)

section \<open>Release snapshots\<close>

lemma snapshot_reads:
  "unmarshal_snapshot (buildReleaseSnapshotJSON (Some r)) =
     Some (empty_release\<lparr>rel_ID := rel_ID r, rel_Title := rel_Title r, rel_GUID := rel_GUID r,
       rel_Source := rel_Source r, rel_DownloadURL := rel_DownloadURL r, rel_Size := rel_Size r,
       rel_Category := rel_Category r, rel_RedirectAllowed := rel_RedirectAllowed r\<rparr>)"
  by (simp add: unmarshal_snapshot_def buildReleaseSnapshotJSON_def jstr_def jnum_def jbool_def jlookup_def)

lemma snapshot_read_as_release:
  "unmarshal_release (buildReleaseSnapshotJSON (Some r)) =
     Some (empty_release\<lparr>rel_ID := rel_ID r, rel_Title := rel_Title r, rel_GUID := rel_GUID r,
       rel_Source := rel_Source r, rel_Size := rel_Size r, rel_Category := rel_Category r\<rparr>)"
  by (simp add: unmarshal_release_def buildReleaseSnapshotJSON_def jstr_def jnum_def jbool_def
      jlookup_def empty_release_def)

text \<open>The snapshot of a release whose names are all present, read back by the fallback of the
  hydration step, gives the same identity, title, source, address, size, category and redirect
  permission.\<close>

theorem snapshot_roundtrip:
  assumes "rel_ID r \<noteq> []" and "rel_GUID r \<noteq> []" and "rel_Title r \<noteq> []" and "rel_Source r \<noteq> []"
    and "rel_Category r \<noteq> []" and "qi_ReleaseSnapshotJSON item = buildReleaseSnapshotJSON (Some r)"
  shows "hydrateReleaseFromSnapshot item =
     empty_release\<lparr>rel_ID := rel_ID r, rel_Title := rel_Title r, rel_GUID := rel_GUID r,
       rel_Source := rel_Source r, rel_DownloadURL := rel_DownloadURL r, rel_Size := rel_Size r,
       rel_Category := rel_Category r, rel_RedirectAllowed := rel_RedirectAllowed r\<rparr>"
proof -
  have "buildReleaseSnapshotJSON (Some r) \<noteq> NoText" "buildReleaseSnapshotJSON (Some r) \<noteq> ObjText []"
    by (simp_all add: buildReleaseSnapshotJSON_def)
  with assms show ?thesis
    by (simp add: hydrateReleaseFromSnapshot_def snapshot_reads or_else_def empty_release_def)
qed

definition release1 :: release where
  "release1 = empty_release\<lparr>rel_ID := ''a'', rel_Title := ''b'', rel_GUID := ''c'', rel_Source := ''d'',
     rel_DownloadURL := ''u'', rel_Category := ''e'', rel_RedirectAllowed := True\<rparr>"

theorem snapshot_roundtrip_witness:
  "rel_DownloadURL (hydrateReleaseFromSnapshot (blank_item\<lparr>qi_ReleaseSnapshotJSON :=
     buildReleaseSnapshotJSON (Some release1)\<rparr>)) = ''u''"
  by (subst snapshot_roundtrip [of release1]) (simp_all add: release1_def empty_release_def)

text \<open>A job that is added, saved and read back from the job store (as at every start) comes back
  with a release that has lost its download address and its redirect permission, and hydration
  then keeps this release instead of asking the resolver or reading the snapshot.\<close>

theorem reloaded_release_loses_url:
  assumes "SaveQueueItem t (new_item e cfg qid req) db = Some db'" and "distinct_ids db"
    and "GetQueueItem qid db' = Some item"
  shows "rel_DownloadURL (hydrated_release io item) = [] \<and>
     \<not> rel_RedirectAllowed (hydrated_release io item)"
proof -
  let ?i = "new_item e cfg qid req"
  have f: "find (\<lambda>r. row_id r = row_id row) (upsert row db) = Some q \<Longrightarrow> row_snapshot q = row_snapshot row"
    for row q by (induction row db rule: upsert.induct) (auto split: if_splits)
  from assms(1) have db': "db' = upsert (row_of_item t ?i) db"
    by (auto simp: SaveQueueItem_def Let_def split: if_splits)
  from assms(3) obtain q where q: "find (\<lambda>r. row_id r = qid) db' = Some q" "item = ToDomain q"
    by (auto simp: GetQueueItem_def)
  with f [of "row_of_item t ?i" q] db' have "row_snapshot q = row_snapshot (row_of_item t ?i)" by simp
  also have "\<dots> = buildReleaseSnapshotJSON (Some (request_release req))"
    by (simp add: row_of_item_def new_item_def Let_def buildReleaseSnapshotJSON_def)
  finally have s: "row_snapshot q = buildReleaseSnapshotJSON (Some (request_release req))" .
  moreover have "buildReleaseSnapshotJSON (Some r) \<noteq> NoText \<and> buildReleaseSnapshotJSON (Some r) \<noteq> ObjText []" for r
    by (simp add: buildReleaseSnapshotJSON_def)
  ultimately show ?thesis
    by (simp add: hydrated_release_def q(2) ToDomain_def Let_def releaseFromSnapshot_def
        snapshot_read_as_release empty_release_def)
qed

definition request1 :: queue_add_request where
  "request1 = \<lparr>qr_SourceKind = ''aggregator'', qr_SourceReleaseID = ''c'', qr_Release = Some release1,
     qr_Title = ''b''\<rparr>"

definition saved1 :: job_store where
  "saved1 = [row_of_item 1 (new_item env1 None ''k7'' request1)]"

lemma saved1: "SaveQueueItem 1 (new_item env1 None ''k7'' request1) [] = Some saved1"
proof -
  have "row_allowed (row_of_item 1 (new_item env1 None ''k7'' request1))" by code_simp
  then show ?thesis by (simp add: SaveQueueItem_def Let_def saved1_def)
qed

theorem reloaded_release_loses_url_witness:
  "rel_DownloadURL release1 = ''u'' \<and>
   rel_DownloadURL (hydrated_release io1 (ToDomain (hd saved1))) = []"
proof -
  have g: "GetQueueItem ''k7'' saved1 = Some (ToDomain (hd saved1))"
    by (simp add: GetQueueItem_def saved1_def)
  show ?thesis
    using reloaded_release_loses_url [OF saved1 _ g, of io1]
    by (simp add: distinct_ids_def release1_def)
qed

section \<open>The job store\<close>

text \<open>A saved job reads back with its identity, status, paths, source, size, mode, error and counters;
  times lose what is below a second, and defaults replace a missing source kind and mode.\<close>

theorem save_get_roundtrip:
  assumes "SaveQueueItem t i db = Some db'"
  shows "\<exists>j. GetQueueItem (qi_ID i) db' = Some j \<and> qi_ID j = qi_ID i \<and> qi_Status j = qi_Status i \<and>
     qi_OutDir j = qi_OutDir i \<and> qi_Error j = qi_Error i \<and>
     (qi_SourceKind i \<noteq> [] \<longrightarrow> qi_SourceKind j = qi_SourceKind i) \<and>
     (qi_SourceReleaseID i \<noteq> [] \<longrightarrow> qi_SourceReleaseID j = qi_SourceReleaseID i) \<and>
     (qi_ReleaseTitle i \<noteq> [] \<longrightarrow> qi_ReleaseTitle j = qi_ReleaseTitle i) \<and>
     (qi_PayloadMode i \<noteq> [] \<longrightarrow> qi_PayloadMode j = qi_PayloadMode i) \<and>
     (qi_PayloadMode j = PayloadModeEphemeral \<longrightarrow> \<not> qi_Resumable j) \<and>
     qi_DownloadedBytes j = qi_DownloadedBytes i \<and> qi_BytesWritten j = qi_DownloadedBytes i \<and>
     qi_AvgBps j = qi_AvgBps i \<and> qi_DownloadSeconds j = qi_DownloadSeconds i \<and>
     (\<forall>ns\<ge>1000000000. qi_StartedAt i = Some ns \<longrightarrow>
        qi_StartedAt j = Some (ns - ns mod 1000000000))"
proof -
  let ?row = "row_of_item t i"
  have f: "\<exists>c. find (\<lambda>r. row_id r = row_id row) (upsert row db) = Some (row\<lparr>row_created_at := c\<rparr>)" for row
  proof (induction row db rule: upsert.induct)
    case (1 row)
    then show ?case by (intro exI [of _ "row_created_at row"]) simp
  qed auto
  from assms have "db' = upsert ?row db" and a: "row_allowed ?row"
    by (auto simp: SaveQueueItem_def Let_def split: if_splits)
  with f [of ?row] obtain c where g: "GetQueueItem (qi_ID i) db' = Some (ToDomain (?row\<lparr>row_created_at := c\<rparr>))"
    by (auto simp: GetQueueItem_def)
  have u: "unix (Some ns) > 0 \<and> unix (Some ns) * 1000000000 = ns - ns mod 1000000000"
    if "1000000000 \<le> ns" for ns :: int
    using that by (simp add: unix_def minus_mod_eq_div_mult)
  show ?thesis
    by (rule exI [of _ "ToDomain (?row\<lparr>row_created_at := c\<rparr>)"])
       (use g u in \<open>auto simp: ToDomain_def row_of_item_def Let_def PayloadModeEphemeral_def
          PayloadModeCached_def split: option.split\<close>)
qed

theorem save_get_roundtrip_witness:
  "\<exists>j. GetQueueItem ''k7'' saved1 = Some j \<and> qi_Status j = StatusPending"
  using save_get_roundtrip [OF saved1] by auto

text \<open>Clearing the history with no statuses given removes exactly the rows that are terminal: no
  live job loses its row, and the number of removed rows is returned.\<close>

theorem clear_history_keeps_live:
  assumes "ClearQueueHistory [] db = (n, db')"
  shows "db' = filter (\<lambda>r. \<not> terminal (row_status r)) db \<and> n = int (length db - length db') \<and>
     GetActiveQueueItems db' = GetActiveQueueItems db"
proof -
  have e: "(\<lambda>r. row_status r \<notin> set [StatusCompleted, StatusFailed]) = (\<lambda>r. \<not> terminal (row_status r))"
    "(\<lambda>r. row_status r \<in> set [StatusCompleted, StatusFailed]) = (\<lambda>r. terminal (row_status r))"
    by (auto simp: terminal_def fun_eq_iff)
  have "length (filter (\<lambda>r. terminal (row_status r)) db) =
      length db - length (filter (\<lambda>r. \<not> terminal (row_status r)) db)"
    using sum_length_filter_compl [of "\<lambda>r. terminal (row_status r)" db] by simp
  with assms show ?thesis
    by (simp add: ClearQueueHistory_def Let_def e [simplified] GetActiveQueueItems_def) auto
qed

theorem clear_history_keeps_live_witness:
  "GetActiveQueueItems (snd (ClearQueueHistory [] [row1])) = GetActiveQueueItems [row1]"
  using clear_history_keeps_live [of "[row1]"] by (metis surjective_pairing)

end
