(* ===== verification/Nntp_Manager.thy ===== *)
theory Nntp_Manager
  imports Domain "HOL-Library.Char_ord" "HOL-Library.List_Lexorder" "HOL-Library.Product_Lexorder"
begin

text \<open>
  The NNTP manager (\<open>internal/nntp/manager.go\<close>, \<open>internal/nntp/errors.go\<close>): which
  provider a caller may use, the connection permits of each provider (a buffered channel used as
  a semaphore), the shares of downloader and indexer, failover on missing articles, and waiting
  for a free connection. The providers themselves (the network) are replies.

  The providers and the options never change after construction; what changes is the state. A
  provider is named by its position. The manager is shared by many goroutines: what the others do
  to the state between two accesses enters as functions on the state. The constructors never
  store a nil provider, so the nil tests on providers have no counterpart.
\<close>

section \<open>Configuration\<close>

definition CapacityReturnBusy :: string where "CapacityReturnBusy = ''return_busy''"

definition CapacityWaitQueue :: string where "CapacityWaitQueue = ''wait_queue''"

definition providerHeadroomPercent :: int where "providerHeadroomPercent = 5"

record manager_options =
  CapacityPolicy :: string
  ModuleReservationsEnabled :: bool
  IdleBorrowEnabled :: bool
  IndexerMaxPercent :: int
  DownloaderReservePercent :: int
  DownloaderDemandWindow :: int

record managed_provider =
  mp_ID :: string
  mp_Label :: string
  mp_Priority :: int
  mp_cap :: nat
  mp_roles :: "string list"

record nntp_config =
  providers :: "managed_provider list"
  opts :: manager_options

text \<open>The defaults of \<open>newManagerWithProviders\<close>; 30 seconds in nanoseconds.\<close>

definition newManagerWithProviders :: "managed_provider list \<Rightarrow> manager_options \<Rightarrow> nntp_config" where
  "newManagerWithProviders ps o0 =
     (let o1 = (if CapacityPolicy o0 = [] then o0\<lparr>CapacityPolicy := CapacityReturnBusy\<rparr> else o0);
          o2 = (if IndexerMaxPercent o1 \<le> 0 then o1\<lparr>IndexerMaxPercent := 80\<rparr> else o1);
          o3 = (if IndexerMaxPercent o2 > 100 then o2\<lparr>IndexerMaxPercent := 100\<rparr> else o2);
          o4 = (if DownloaderReservePercent o3 \<le> 0 then o3\<lparr>DownloaderReservePercent := 20\<rparr> else o3);
          o5 = (if DownloaderReservePercent o4 > 100 then o4\<lparr>DownloaderReservePercent := 100\<rparr> else o4);
          o6 = (if DownloaderDemandWindow o5 \<le> 0
                then o5\<lparr>DownloaderDemandWindow := 30 * 1000000000\<rparr> else o5)
      in \<lparr>providers = ps, opts = o6\<rparr>)"

text \<open>A set of role names, as the list of the map's keys; every key the code sets is true.\<close>

definition role_of_name :: "string \<Rightarrow> string option" where
  "role_of_name role =
     (let r = trim_space (to_lower role) in
      if r = ''scrape'' then Some ''scrape''
      else if r = ''yenc_recovery'' \<or> r = ''recover_yenc'' then Some ''yenc_recovery''
      else if r = ''inspection'' \<or> r = ''inspect'' then Some ''inspection''
      else if r = ''download'' \<or> r = ''downloader'' then Some ''download''
      else None)"

definition normalizeProviderRoles :: "string list \<Rightarrow> string list" where
  "normalizeProviderRoles roles =
     (let out = fold (\<lambda>role out. case role_of_name role of
                        Some r \<Rightarrow> List.insert r out | None \<Rightarrow> out) roles []
      in if out = [] then [''scrape'', ''yenc_recovery'', ''inspection'', ''download''] else out)"

definition providerRoleList :: "string list \<Rightarrow> string list" where
  "providerRoleList roles =
     (if roles = [] then [''download'', ''inspection'', ''scrape'', ''yenc_recovery''] else sort roles)"

definition newManagedProvider :: "string \<Rightarrow> string \<Rightarrow> int \<Rightarrow> int \<Rightarrow> managed_provider" where
  "newManagedProvider pid label priority maxConnection =
     \<lparr>mp_ID = pid, mp_Label = label, mp_Priority = priority,
      mp_cap = nat (if maxConnection \<le> 0 then 1 else maxConnection),
      mp_roles = normalizeProviderRoles []\<rparr>"

text \<open>A configured server and the outcome of its connection test. The constructor stops at the first
  server that fails. \<open>sort.Slice\<close> is modelled as a stable sort, which it is for up to twelve
  servers.\<close>

record server =
  sv_ID :: string
  sv_Label :: string
  sv_Priority :: int
  sv_MaxConnection :: nat
  sv_Roles :: "string list"
  sv_test :: "string option"

fun connect_all :: "server list \<Rightarrow> string + managed_provider list" where
  "connect_all [] = Inr []"
| "connect_all (s # ss) =
     (case sv_test s of
        Some err \<Rightarrow> Inl (''connection test failed for '' @ sv_Label s @ '': '' @ err)
      | None \<Rightarrow>
          (case connect_all ss of
             Inl err \<Rightarrow> Inl err
           | Inr ps \<Rightarrow>
               Inr (\<lparr>mp_ID = sv_ID s, mp_Label = sv_Label s, mp_Priority = sv_Priority s,
                     mp_cap = sv_MaxConnection s, mp_roles = normalizeProviderRoles (sv_Roles s)\<rparr> # ps)))"

definition NewManagerWithOptions :: "server list \<Rightarrow> manager_options \<Rightarrow> string + nntp_config" where
  "NewManagerWithOptions servers o0 =
     (case connect_all servers of
        Inl err \<Rightarrow> Inl err
      | Inr ps \<Rightarrow> Inr (newManagerWithProviders (sort_key mp_Priority ps) o0))"

section \<open>Scopes\<close>

definition normalizeScope :: "string \<Rightarrow> string" where
  "normalizeScope scope = (let s = trim_space scope in if s = [] then ''unscoped'' else s)"

definition roleForScope :: "string \<Rightarrow> string" where
  "roleForScope scope =
     (let s = normalizeScope scope in
      if s = ''downloader'' then ''download''
      else if s = ''recover_yenc'' then ''yenc_recovery''
      else if s = ''scrape'' then ''scrape''
      else if s \<in> set [''inspect_discovery'', ''inspect_par2'', ''inspect_nfo'', ''inspect_archive'',
                      ''inspect_password'', ''inspect_media''] then ''inspection''
      else [])"

definition allowsScope :: "managed_provider \<Rightarrow> string \<Rightarrow> bool" where
  "allowsScope mp scope =
     (let role = roleForScope scope in
      role = [] \<or> mp_roles mp = [] \<or> role \<in> set (mp_roles mp))"

definition moduleForScope :: "string \<Rightarrow> string" where
  "moduleForScope scope = (if normalizeScope scope = ''downloader'' then ''downloader'' else ''indexer'')"

abbreviation allowed :: "nntp_config \<Rightarrow> string \<Rightarrow> nat \<Rightarrow> bool" where
  "allowed cfg scope i \<equiv> allowsScope (providers cfg ! i) scope"

text \<open>The positions of the providers, in the order of the list.\<close>

abbreviation all_providers :: "nntp_config \<Rightarrow> nat list" where
  "all_providers cfg \<equiv> [0..<length (providers cfg)]"

definition eligibleProviders :: "nntp_config \<Rightarrow> string \<Rightarrow> nat list" where
  "eligibleProviders cfg scope = filter (allowed cfg scope) (all_providers cfg)"

section \<open>State\<close>

text \<open>Counters only count; their 64-bit wrap-around is written out. The three counters of held
  connections are bounded by the number of connections and cannot wrap.\<close>

record scope_stats =
  ss_active :: int
  ss_waiting :: int
  ss_waitCount :: int
  ss_waitDurationNS :: int
  ss_waitMaxNS :: int
  ss_fetches :: int
  ss_fetchBodyPrefix :: int
  ss_groupStats :: int
  ss_xover :: int
  ss_articleNotFound :: int
  ss_operationErrors :: int

record nntp_state =
  sem :: "nat \<Rightarrow> nat"
  scopes :: "(string \<times> scope_stats) list"
  ns_waiting :: int
  busyReturns :: int
  waitCount :: int
  waitDurationNS :: int
  waitMaxNS :: int
  fetches :: int
  fetchBodyPrefixes :: int
  groupStatsCalls :: int
  xovers :: int
  articleNotFound :: int
  operationErrors :: int
  indexerActive :: int
  downloaderActive :: int
  downloaderDemand :: int

definition zero_scope :: scope_stats where
  "zero_scope = \<lparr>ss_active = 0, ss_waiting = 0, ss_waitCount = 0, ss_waitDurationNS = 0,
     ss_waitMaxNS = 0, ss_fetches = 0, ss_fetchBodyPrefix = 0, ss_groupStats = 0, ss_xover = 0,
     ss_articleNotFound = 0, ss_operationErrors = 0\<rparr>"

definition zero_state :: nntp_state where
  "zero_state = \<lparr>sem = (\<lambda>_. 0), scopes = [], ns_waiting = 0, busyReturns = 0, waitCount = 0,
     waitDurationNS = 0, waitMaxNS = 0, fetches = 0, fetchBodyPrefixes = 0, groupStatsCalls = 0,
     xovers = 0, articleNotFound = 0, operationErrors = 0, indexerActive = 0,
     downloaderActive = 0, downloaderDemand = 0\<rparr>"

text \<open>\<open>m.scopeStats(scope)\<close> finds or creates the counters of a scope; they are then changed by
  \<open>f\<close>.\<close>

fun update_scope ::
  "string \<Rightarrow> (scope_stats \<Rightarrow> scope_stats) \<Rightarrow> (string \<times> scope_stats) list \<Rightarrow> (string \<times> scope_stats) list"
where
  "update_scope k f [] = [(k, f zero_scope)]"
| "update_scope k f ((k', v) # rest) = (if k' = k then (k', f v) # rest else (k', v) # update_scope k f rest)"

definition scopeStats :: "string \<Rightarrow> (scope_stats \<Rightarrow> scope_stats) \<Rightarrow> nntp_state \<Rightarrow> nntp_state" where
  "scopeStats scope f st = st\<lparr>scopes := update_scope (normalizeScope scope) f (scopes st)\<rparr>"

definition recordActive :: "string \<Rightarrow> string \<Rightarrow> int \<Rightarrow> nntp_state \<Rightarrow> nntp_state" where
  "recordActive scope module delta st =
     (let st1 = scopeStats scope (\<lambda>s. s\<lparr>ss_active := ss_active s + delta\<rparr>) st
      in if module = ''downloader'' then st1\<lparr>downloaderActive := downloaderActive st1 + delta\<rparr>
         else st1\<lparr>indexerActive := indexerActive st1 + delta\<rparr>)"

definition recordArticleNotFound :: "string \<Rightarrow> nntp_state \<Rightarrow> nntp_state" where
  "recordArticleNotFound scope st =
     scopeStats scope (\<lambda>s. s\<lparr>ss_articleNotFound := i64 (ss_articleNotFound s + 1)\<rparr>)
       (st\<lparr>articleNotFound := i64 (articleNotFound st + 1)\<rparr>)"

definition recordDownloaderDemand :: "int \<Rightarrow> nntp_state \<Rightarrow> nntp_state" where
  "recordDownloaderDemand now st = st\<lparr>downloaderDemand := now\<rparr>"

text \<open>\<open>d\<close> is a duration in nanoseconds; the compare-and-swap loops leave the maximum.\<close>

definition recordWait :: "string \<Rightarrow> int \<Rightarrow> nntp_state \<Rightarrow> nntp_state" where
  "recordWait scope d st =
     (if d \<le> 0 then st
      else
        (let st1 = st\<lparr>waitCount := i64 (waitCount st + 1), waitDurationNS := i64 (waitDurationNS st + d)\<rparr>;
             st2 = scopeStats scope
               (\<lambda>s. s\<lparr>ss_waitCount := i64 (ss_waitCount s + 1),
                      ss_waitDurationNS := i64 (ss_waitDurationNS s + d),
                      ss_waitMaxNS := max (ss_waitMaxNS s) d\<rparr>) st1
         in st2\<lparr>waitMaxNS := max (waitMaxNS st2) d\<rparr>))"

section \<open>Shares of the two modules\<close>

definition TotalCapacity :: "nntp_config \<Rightarrow> int" where
  "TotalCapacity cfg = fold (\<lambda>p total. i64 (total + int (mp_cap p))) (providers cfg) 0"

definition percentOfCapacity :: "int \<Rightarrow> int \<Rightarrow> int" where
  "percentOfCapacity capacity percent0 =
     (if capacity \<le> 0 then 0
      else if percent0 \<le> 0 then 1
      else
        (let percent = (if percent0 > 100 then 100 else percent0);
             limit = gdiv (i64 (capacity * percent)) 100
         in if limit \<le> 0 then 1 else limit))"

definition downloaderDemandActive :: "nntp_config \<Rightarrow> int \<Rightarrow> nntp_state \<Rightarrow> bool" where
  "downloaderDemandActive cfg now st =
     (let last = downloaderDemand st in
      if last = 0 then downloaderActive st > 0
      else downloaderActive st > 0 \<or> now - last \<le> DownloaderDemandWindow (opts cfg))"

record module_limits =
  ml_indexer :: int
  ml_downloader :: int
  ml_downloaderDemandLive :: bool

definition moduleLimits :: "nntp_config \<Rightarrow> int \<Rightarrow> nntp_state \<Rightarrow> module_limits" where
  "moduleLimits cfg now st =
     (let capacity = TotalCapacity cfg; o' = opts cfg in
      if capacity \<le> 0 then \<lparr>ml_indexer = 0, ml_downloader = 0, ml_downloaderDemandLive = False\<rparr>
      else
        (let demand = downloaderDemandActive cfg now st;
             indexerLimit = (if \<not> IdleBorrowEnabled o' \<or> demand
                             then percentOfCapacity capacity (IndexerMaxPercent o') else capacity);
             d0 = (if \<not> IdleBorrowEnabled o' then
                     (let d = percentOfCapacity capacity (i64 (100 - IndexerMaxPercent o'))
                      in if d \<le> 0 then percentOfCapacity capacity (DownloaderReservePercent o') else d)
                   else capacity);
             downloaderLimit = (if d0 \<le> 0 then 1 else d0)
         in \<lparr>ml_indexer = indexerLimit, ml_downloader = downloaderLimit, ml_downloaderDemandLive = demand\<rparr>))"

definition moduleCanAcquire :: "nntp_config \<Rightarrow> int \<Rightarrow> string \<Rightarrow> nntp_state \<Rightarrow> bool" where
  "moduleCanAcquire cfg now module st =
     (if \<not> ModuleReservationsEnabled (opts cfg) then True
      else if module = ''downloader'' then downloaderActive st < ml_downloader (moduleLimits cfg now st)
      else indexerActive st < ml_indexer (moduleLimits cfg now st))"

section \<open>Permits\<close>

abbreviation capacity_of :: "nntp_config \<Rightarrow> nat \<Rightarrow> nat" where
  "capacity_of cfg i \<equiv> mp_cap (providers cfg ! i)"

text \<open>The non-blocking send to the semaphore with the accounting that follows a success.\<close>

definition try_send :: "nntp_config \<Rightarrow> string \<Rightarrow> nat \<Rightarrow> nntp_state \<Rightarrow> bool \<times> nntp_state" where
  "try_send cfg scope i st =
     (if sem st i < capacity_of cfg i
      then (True, recordActive scope (moduleForScope scope) 1 (st\<lparr>sem := (sem st)(i := Suc (sem st i))\<rparr>))
      else (False, st))"

text \<open>\<open>releaseForScope\<close> by a holder of a permit: the receive does not block.\<close>

definition releaseForScope :: "string \<Rightarrow> nat \<Rightarrow> nntp_state \<Rightarrow> nntp_state" where
  "releaseForScope scope i st =
     recordActive scope (moduleForScope scope) (- 1) (st\<lparr>sem := (sem st)(i := sem st i - 1)\<rparr>)"

text \<open>What the test before the send does and says.\<close>

definition may_send :: "nntp_config \<Rightarrow> int \<Rightarrow> string \<Rightarrow> nat \<Rightarrow> nntp_state \<Rightarrow> bool \<times> nntp_state" where
  "may_send cfg now scope i st =
     (if \<not> allowed cfg scope i then (False, st)
      else
        (let module = moduleForScope scope;
             st1 = (if module = ''downloader'' then recordDownloaderDemand now st else st)
         in (moduleCanAcquire cfg now module st1, st1)))"

text \<open>\<open>between\<close> is what other goroutines do between the test and the send.\<close>

definition acquire ::
  "nntp_config \<Rightarrow> int \<Rightarrow> (nntp_state \<Rightarrow> nntp_state) \<Rightarrow> string \<Rightarrow> nat \<Rightarrow> nntp_state \<Rightarrow> bool \<times> nntp_state" where
  "acquire cfg now between scope i st =
     (case may_send cfg now scope i st of
        (False, st1) \<Rightarrow> (False, st1)
      | (True, st1) \<Rightarrow> try_send cfg scope i (between st1))"

section \<open>The order in which providers are tried\<close>

definition providerUtilizationBasisPoints :: "nntp_config \<Rightarrow> nntp_state \<Rightarrow> nat \<Rightarrow> int" where
  "providerUtilizationBasisPoints cfg st i =
     (if capacity_of cfg i = 0 then 10000
      else gdiv (i64 (int (sem st i) * 10000)) (int (capacity_of cfg i)))"

definition providerAtHeadroom :: "nntp_config \<Rightarrow> nntp_state \<Rightarrow> nat \<Rightarrow> bool" where
  "providerAtHeadroom cfg st i =
     (if capacity_of cfg i = 0 then False
      else i64 (int (sem st i) * 100) \<ge>
           i64 (int (capacity_of cfg i) * (100 - providerHeadroomPercent)))"

definition providerHasIdlePeer :: "nntp_config \<Rightarrow> nntp_state \<Rightarrow> nat \<Rightarrow> nat list \<Rightarrow> bool" where
  "providerHasIdlePeer cfg st i others =
     list_ex (\<lambda>j. j \<noteq> i \<and> sem st j < capacity_of cfg j) others"

definition providerAcquireOrder :: "nntp_config \<Rightarrow> nntp_state \<Rightarrow> string \<Rightarrow> nat list \<Rightarrow> nat list" where
  "providerAcquireOrder cfg st scope ps =
     (let eligible = filter (allowed cfg scope) ps in
      if length ps < 2 \<or> length eligible < 2 then ps
      else if normalizeScope scope = ''recover_yenc'' then
        sort_key (\<lambda>i. (providerUtilizationBasisPoints cfg st i, mp_Priority (providers cfg ! i))) ps
      else
        (let stays = (\<lambda>i. \<not> allowed cfg scope i \<or> \<not> providerAtHeadroom cfg st i \<or>
                          \<not> providerHasIdlePeer cfg st i eligible)
         in filter stays ps @ filter (\<lambda>i. \<not> stays i) ps))"


section \<open>Waiting for a connection\<close>

text \<open>One round of the polling loop: the clock, the time waited so far, what other goroutines did
  before the round and before each send of it, and whether the context was found done at its end.\<close>

record tick =
  tk_now :: int
  tk_elapsed :: int
  tk_before :: "nntp_state \<Rightarrow> nntp_state"
  tk_between :: "nat \<Rightarrow> nntp_state \<Rightarrow> nntp_state"
  tk_done :: bool

datatype nntp_error =
  ErrContext
| ErrProviderBusy
| ErrNilReader
| ErrProvider string
| ArticleNotFoundError string "string list"

fun is_not_found :: "nntp_error \<Rightarrow> bool" where
  "is_not_found (ArticleNotFoundError mid attempts) = True"
| "is_not_found e = False"

fun send_first ::
  "nntp_config \<Rightarrow> string \<Rightarrow> (nat \<Rightarrow> nntp_state \<Rightarrow> nntp_state) \<Rightarrow> nat list \<Rightarrow> nntp_state \<Rightarrow> nat option \<times> nntp_state"
where
  "send_first cfg scope between [] st = (None, st)"
| "send_first cfg scope between (i # is) st =
     (case try_send cfg scope i (between i st) of
        (True, st1) \<Rightarrow> (Some i, st1)
      | (False, st1) \<Rightarrow> send_first cfg scope between is st1)"

definition wait_round ::
  "nntp_config \<Rightarrow> string \<Rightarrow> nat list \<Rightarrow> tick \<Rightarrow> nntp_state \<Rightarrow> nat option \<times> nntp_state" where
  "wait_round cfg scope ps t st =
     (let module = moduleForScope scope;
          st0 = tk_before t st;
          st1 = (if module = ''downloader'' then recordDownloaderDemand (tk_now t) st0 else st0)
      in if moduleCanAcquire cfg (tk_now t) module st1
         then send_first cfg scope (tk_between t) (providerAcquireOrder cfg st1 scope ps) st1
         else (None, st1))"

text \<open>\<open>None\<close>: still waiting when the rounds given are used up.\<close>

fun wait_loop ::
  "nntp_config \<Rightarrow> string \<Rightarrow> nat list \<Rightarrow> tick list \<Rightarrow> nntp_state \<Rightarrow> (nntp_error + nat) option \<times> nntp_state"
where
  "wait_loop cfg scope ps [] st = (None, st)"
| "wait_loop cfg scope ps (t # ts) st =
     (case wait_round cfg scope ps t st of
        (Some i, st1) \<Rightarrow> (Some (Inr i), recordWait scope (tk_elapsed t) st1)
      | (None, st1) \<Rightarrow>
          if tk_done t then (Some (Inl ErrContext), recordWait scope (tk_elapsed t) st1)
          else wait_loop cfg scope ps ts st1)"

definition add_waiting :: "string \<Rightarrow> int \<Rightarrow> nntp_state \<Rightarrow> nntp_state" where
  "add_waiting scope d st =
     scopeStats scope (\<lambda>s. s\<lparr>ss_waiting := ss_waiting s + d\<rparr>) (st\<lparr>ns_waiting := ns_waiting st + d\<rparr>)"

definition waitForProviderFromList ::
  "nntp_config \<Rightarrow> string \<Rightarrow> nat list \<Rightarrow> tick list \<Rightarrow> nntp_state \<Rightarrow> (nntp_error + nat) option \<times> nntp_state"
where
  "waitForProviderFromList cfg scope ps ticks st =
     (if ps = [] then (Some (Inl ErrProviderBusy), st)
      else
        (case wait_loop cfg scope ps ticks (add_waiting scope 1 st) of
           (None, st1) \<Rightarrow> (None, st1)
         | (Some r, st1) \<Rightarrow> (Some r, add_waiting scope (- 1) st1)))"

definition waitForProvider ::
  "nntp_config \<Rightarrow> string \<Rightarrow> tick list \<Rightarrow> nntp_state \<Rightarrow> (nntp_error + nat) option \<times> nntp_state" where
  "waitForProvider cfg scope = waitForProviderFromList cfg scope (eligibleProviders cfg scope)"

section \<open>Fetching an article\<close>

text \<open>What a provider returns for an article: a reader, no reader and no error, the 430 answer, or
  another error.\<close>

datatype 'r reply430 = Got 'r | GotNil | Missing430 | ReplyFailed string

abbreviation pid :: "nntp_config \<Rightarrow> nat \<Rightarrow> string" where
  "pid cfg i \<equiv> mp_ID (providers cfg ! i)"

definition missing_at :: "segment \<Rightarrow> nntp_config \<Rightarrow> nat \<Rightarrow> bool" where
  "missing_at seg cfg i \<longleftrightarrow> pid cfg i \<in> set (seg_MissingFrom seg)"

definition articleNotFoundError :: "nntp_config \<Rightarrow> segment \<Rightarrow> nntp_error" where
  "articleNotFoundError cfg seg =
     ArticleNotFoundError (seg_MessageID seg)
       (map (pid cfg) (filter (missing_at seg cfg) (all_providers cfg)))"

definition missingEligibleProviderCount :: "nntp_config \<Rightarrow> string \<Rightarrow> segment \<Rightarrow> nat" where
  "missingEligibleProviderCount cfg scope seg =
     length (filter (\<lambda>i. allowed cfg scope i \<and> missing_at seg cfg i) (all_providers cfg))"

definition recordOperationError :: "string \<Rightarrow> nntp_error \<Rightarrow> nntp_state \<Rightarrow> nntp_state" where
  "recordOperationError scope e st =
     (if is_not_found e then recordArticleNotFound scope st
      else scopeStats scope (\<lambda>s. s\<lparr>ss_operationErrors := i64 (ss_operationErrors s + 1)\<rparr>)
             (st\<lparr>operationErrors := i64 (operationErrors st + 1)\<rparr>))"

definition mark_missing :: "string \<Rightarrow> segment \<Rightarrow> segment" where
  "mark_missing p seg = seg\<lparr>seg_MissingFrom := List.insert p (seg_MissingFrom seg)\<rparr>"

text \<open>With the permit held; on success the permit goes to the caller with the reader.\<close>

definition fetchFromAcquiredProvider ::
  "nntp_config \<Rightarrow> string \<Rightarrow> nat \<Rightarrow> 'r reply430 \<Rightarrow> segment \<Rightarrow> nntp_state
     \<Rightarrow> (nntp_error + 'r) \<times> segment \<times> nntp_state" where
  "fetchFromAcquiredProvider cfg scope i rep seg st =
     (case rep of
        Got r \<Rightarrow> (Inr r, seg, st)
      | GotNil \<Rightarrow> (Inl ErrNilReader, seg, releaseForScope scope i st)
      | Missing430 \<Rightarrow>
          (Inl (ArticleNotFoundError [] []), mark_missing (pid cfg i) seg,
           recordArticleNotFound scope (releaseForScope scope i st))
      | ReplyFailed e \<Rightarrow> (Inl (ErrProvider e), seg, releaseForScope scope i st))"

text \<open>One visit of a provider in the loop of \<open>fetch\<close>: the clock, the reply, and what other
  goroutines do before the visit, between its test and its send, and during the network call.\<close>

record 'r turn =
  tn_now :: int
  tn_before :: "nntp_state \<Rightarrow> nntp_state"
  tn_between :: "nntp_state \<Rightarrow> nntp_state"
  tn_during :: "nntp_state \<Rightarrow> nntp_state"
  tn_reply :: "'r reply430"

fun fetch_loop ::
  "nntp_config \<Rightarrow> string \<Rightarrow> (nat \<Rightarrow> 'r turn) \<Rightarrow> nat list \<Rightarrow> nntp_error option \<Rightarrow> segment \<Rightarrow> nntp_state
     \<Rightarrow> (nat \<times> 'r) option \<times> nntp_error option \<times> segment \<times> nntp_state" where
  "fetch_loop cfg scope turns [] lastErr seg st = (None, lastErr, seg, st)"
| "fetch_loop cfg scope turns (i # is) lastErr seg st =
     (if missing_at seg cfg i then fetch_loop cfg scope turns is lastErr seg st
      else
        (case acquire cfg (tn_now (turns i)) (tn_between (turns i)) scope i (tn_before (turns i) st) of
           (False, st1) \<Rightarrow> fetch_loop cfg scope turns is lastErr seg st1
         | (True, st1) \<Rightarrow>
             (case fetchFromAcquiredProvider cfg scope i (tn_reply (turns i)) seg (tn_during (turns i) st1) of
                (Inr r, seg', st2) \<Rightarrow> (Some (i, r), lastErr, seg', st2)
              | (Inl e, seg', st2) \<Rightarrow>
                  fetch_loop cfg scope turns is (if is_not_found e then lastErr else Some e) seg' st2)))"

definition waitForFetchProvider ::
  "nntp_config \<Rightarrow> string \<Rightarrow> segment \<Rightarrow> tick list \<Rightarrow> nntp_state \<Rightarrow> (nntp_error + nat) option \<times> nntp_state"
where
  "waitForFetchProvider cfg scope seg ticks st =
     (let eligible = eligibleProviders cfg scope;
          ps = filter (\<lambda>i. \<not> missing_at seg cfg i) eligible
      in if eligible = [] then (Some (Inl ErrProviderBusy), st)
         else if ps = [] then (Some (Inl (articleNotFoundError cfg seg)), st)
         else waitForProviderFromList cfg scope ps ticks st)"

text \<open>What one pass through \<open>fetch\<close> meets: whether the context is already done, the visits, the
  rounds of waiting and the answer after waiting. Pass \<open>k\<close> of a call meets \<open>passes k\<close>.\<close>

record 'r pass =
  ps_done :: bool
  ps_turns :: "nat \<Rightarrow> 'r turn"
  ps_ticks :: "tick list"
  ps_during :: "nntp_state \<Rightarrow> nntp_state"
  ps_reply :: "'r reply430"

datatype 'r outcome = StillWaiting | Failed nntp_error | Fetched nat 'r

lemma send_first_member:
  "send_first cfg scope f ps st = (Some i, st') \<Longrightarrow> i \<in> set ps"
  by (induction cfg scope f ps st rule: send_first.induct) (auto split: prod.splits bool.splits)

lemma acquire_order_set [simp]: "set (providerAcquireOrder cfg st scope ps) = set ps"
  by (auto simp: providerAcquireOrder_def Let_def)

lemma wait_loop_member: "wait_loop cfg scope ps ts st = (Some (Inr i), st') \<Longrightarrow> i \<in> set ps"
proof (induction cfg scope ps ts st rule: wait_loop.induct)
  case (2 cfg scope ps t ts st)
  then show ?case
    by (auto simp: wait_round_def Let_def split: prod.splits if_splits option.splits
        dest!: send_first_member)
qed simp

lemma waitForFetch_member:
  assumes "waitForFetchProvider cfg scope seg ticks st = (Some (Inr i), st')"
  shows "i < length (providers cfg)" and "\<not> missing_at seg cfg i" and "allowed cfg scope i"
proof -
  have "i \<in> set (filter (\<lambda>i. \<not> missing_at seg cfg i) (eligibleProviders cfg scope))"
    using assms
    by (auto simp: waitForFetchProvider_def waitForProviderFromList_def Let_def
        split: if_splits prod.splits option.splits dest!: wait_loop_member)
  then show "i < length (providers cfg)" and "\<not> missing_at seg cfg i" and "allowed cfg scope i"
    by (auto simp: eligibleProviders_def)
qed

definition unasked :: "nntp_config \<Rightarrow> segment \<Rightarrow> nat" where
  "unasked cfg seg = card {i. i < length (providers cfg) \<and> \<not> missing_at seg cfg i}"

lemma fetchFromAcquired_missing:
  "fetchFromAcquiredProvider cfg scope i rep seg st = (x, seg', st') \<Longrightarrow>
     set (seg_MissingFrom seg) \<subseteq> set (seg_MissingFrom seg')"
  by (auto simp: fetchFromAcquiredProvider_def mark_missing_def split: reply430.splits)

lemma fetch_loop_missing:
  "fetch_loop cfg scope turns is e seg st = (x, e', seg', st') \<Longrightarrow>
     set (seg_MissingFrom seg) \<subseteq> set (seg_MissingFrom seg')"
proof (induction cfg scope turns "is" e seg st rule: fetch_loop.induct)
  case (2 cfg scope turns i "is" lastErr seg st)
  show ?case
  proof (cases "missing_at seg cfg i")
    case True
    with 2 show ?thesis by simp
  next
    case False
    with 2 show ?thesis
      by (fastforce split: prod.splits bool.splits sum.splits dest: fetchFromAcquired_missing)
  qed
qed simp

lemma unasked_mono:
  "set (seg_MissingFrom seg) \<subseteq> set (seg_MissingFrom seg') \<Longrightarrow> unasked cfg seg' \<le> unasked cfg seg"
  unfolding unasked_def by (rule card_mono) (auto simp: missing_at_def)

lemma unasked_less:
  assumes "i < length (providers cfg)" and "\<not> missing_at seg cfg i"
  shows "unasked cfg (mark_missing (pid cfg i) seg) < unasked cfg seg"
  unfolding unasked_def
proof (rule psubset_card_mono)
  show "{j. j < length (providers cfg) \<and> \<not> missing_at (mark_missing (pid cfg i) seg) cfg j}
      \<subset> {j. j < length (providers cfg) \<and> \<not> missing_at seg cfg j}"
    using assms by (auto simp: missing_at_def mark_missing_def)
qed simp

function fetch ::
  "nntp_config \<Rightarrow> string \<Rightarrow> string \<Rightarrow> (nat \<Rightarrow> 'r pass) \<Rightarrow> nat \<Rightarrow> segment \<Rightarrow> nntp_state
     \<Rightarrow> 'r outcome \<times> segment \<times> nntp_state" where
  "fetch cfg scope policy passes k seg st =
     (if ps_done (passes k) then (Failed ErrContext, seg, st)
      else
        (case fetch_loop cfg scope (ps_turns (passes k)) (all_providers cfg) None seg st of
           (Some (i, r), _, seg1, st1) \<Rightarrow> (Fetched i r, seg1, st1)
         | (None, lastErr, seg1, st1) \<Rightarrow>
             (let n = length (eligibleProviders cfg scope) in
              if 0 < n \<and> n \<le> missingEligibleProviderCount cfg scope seg1
              then (Failed (articleNotFoundError cfg seg1), seg1, st1)
              else
                (case lastErr of
                   Some e \<Rightarrow> (Failed e, seg1, recordOperationError scope e st1)
                 | None \<Rightarrow>
                     (if policy = CapacityWaitQueue then
                        (case waitForFetchProvider cfg scope seg1 (ps_ticks (passes k)) st1 of
                           (None, st2) \<Rightarrow> (StillWaiting, seg1, st2)
                         | (Some (Inl e), st2) \<Rightarrow> (Failed e, seg1, st2)
                         | (Some (Inr i), st2) \<Rightarrow>
                             (case fetchFromAcquiredProvider cfg scope i (ps_reply (passes k)) seg1
                                (ps_during (passes k) st2) of
                                (Inr r, seg2, st3) \<Rightarrow> (Fetched i r, seg2, st3)
                              | (Inl e, seg2, st3) \<Rightarrow>
                                  if is_not_found e then fetch cfg scope policy passes (Suc k) seg2 st3
                                  else (Failed e, seg2, recordOperationError scope e st3)))
                      else (Failed ErrProviderBusy, seg1,
                            st1\<lparr>busyReturns := i64 (busyReturns st1 + 1)\<rparr>))))))"
  by pat_completeness auto

lemma fetchFromAcquired_notfound:
  "fetchFromAcquiredProvider cfg scope i rep seg st = (Inl e, seg', st') \<Longrightarrow> is_not_found e \<Longrightarrow>
     seg' = mark_missing (pid cfg i) seg"
  by (auto simp: fetchFromAcquiredProvider_def split: reply430.splits)

lemma fetch_decreases:
  assumes "fetch_loop cfg scope turns ps None seg st = (None, lastErr, seg1, st1)"
    and "waitForFetchProvider cfg scope seg1 ticks st1 = (Some (Inr i), st2)"
    and "fetchFromAcquiredProvider cfg scope i rep seg1 (during st2) = (Inl e, seg2, st3)" and "is_not_found e"
  shows "unasked cfg seg2 < unasked cfg seg"
proof -
  have "unasked cfg seg1 \<le> unasked cfg seg"
    using fetch_loop_missing [OF assms(1)] by (rule unasked_mono)
  moreover have "unasked cfg seg2 < unasked cfg seg1"
    using waitForFetch_member [OF assms(2)] fetchFromAcquired_notfound [OF assms(3,4)]
    by (simp add: unasked_less)
  ultimately show ?thesis by simp
qed

termination fetch
  by (relation "measure (\<lambda>(cfg, scope, policy, passes, k, seg, st). unasked cfg seg)")
     (auto intro: fetch_decreases [OF sym sym sym])

declare fetch.simps [simp del]

section \<open>Calls\<close>

definition count_fetches :: "string \<Rightarrow> nntp_state \<Rightarrow> nntp_state" where
  "count_fetches scope st =
     scopeStats scope (\<lambda>s. s\<lparr>ss_fetches := i64 (ss_fetches s + 1)\<rparr>) (st\<lparr>fetches := i64 (fetches st + 1)\<rparr>)"

definition count_prefixes :: "string \<Rightarrow> nntp_state \<Rightarrow> nntp_state" where
  "count_prefixes scope st =
     scopeStats scope (\<lambda>s. s\<lparr>ss_fetchBodyPrefix := i64 (ss_fetchBodyPrefix s + 1)\<rparr>)
       (st\<lparr>fetchBodyPrefixes := i64 (fetchBodyPrefixes st + 1)\<rparr>)"

definition count_groups :: "string \<Rightarrow> nntp_state \<Rightarrow> nntp_state" where
  "count_groups scope st =
     scopeStats scope (\<lambda>s. s\<lparr>ss_groupStats := i64 (ss_groupStats s + 1)\<rparr>)
       (st\<lparr>groupStatsCalls := i64 (groupStatsCalls st + 1)\<rparr>)"

definition count_xovers :: "string \<Rightarrow> nntp_state \<Rightarrow> nntp_state" where
  "count_xovers scope st =
     scopeStats scope (\<lambda>s. s\<lparr>ss_xover := i64 (ss_xover s + 1)\<rparr>) (st\<lparr>xovers := i64 (xovers st + 1)\<rparr>)"

text \<open>\<open>Fetch\<close> is the downloader's entry; the other scopes fetch by message ID.\<close>

definition Fetch :: "nntp_config \<Rightarrow> (nat \<Rightarrow> 'r pass) \<Rightarrow> segment \<Rightarrow> nntp_state \<Rightarrow> 'r outcome \<times> segment \<times> nntp_state"
where
  "Fetch cfg passes seg st =
     fetch cfg ''downloader'' CapacityReturnBusy passes 0 seg (count_fetches ''downloader'' st)"

definition fetchMessageForScope ::
  "nntp_config \<Rightarrow> string \<Rightarrow> string \<Rightarrow> string \<Rightarrow> (nat \<Rightarrow> 'r pass) \<Rightarrow> nntp_state
     \<Rightarrow> 'r outcome \<times> segment \<times> nntp_state" where
  "fetchMessageForScope cfg scope policy msgID passes st =
     fetch cfg scope policy passes 0
       \<lparr>seg_Number = 0, seg_Bytes = 0, seg_MessageID = msgID, seg_MissingFrom = []\<rparr>
       (count_fetches scope st)"

text \<open>The four calls that hold the permit only while the provider answers share their loop. Their
  error may be the 430 error.\<close>

record 'r op_turn =
  op_now :: int
  op_before :: "nntp_state \<Rightarrow> nntp_state"
  op_between :: "nntp_state \<Rightarrow> nntp_state"
  op_during :: "nntp_state \<Rightarrow> nntp_state"
  op_reply :: "nntp_error + 'r"

record 'r op_input =
  oi_done :: bool
  oi_turns :: "nat \<Rightarrow> 'r op_turn"
  oi_ticks :: "tick list"
  oi_during :: "nntp_state \<Rightarrow> nntp_state"
  oi_reply :: "nntp_error + 'r"

fun op_loop ::
  "nntp_config \<Rightarrow> string \<Rightarrow> (nat \<Rightarrow> 'r op_turn) \<Rightarrow> nat list \<Rightarrow> nntp_error option \<Rightarrow> nntp_state
     \<Rightarrow> (nat \<times> 'r) option \<times> nntp_error option \<times> nntp_state" where
  "op_loop cfg scope turns [] lastErr st = (None, lastErr, st)"
| "op_loop cfg scope turns (i # is) lastErr st =
     (case acquire cfg (op_now (turns i)) (op_between (turns i)) scope i (op_before (turns i) st) of
        (False, st1) \<Rightarrow> op_loop cfg scope turns is lastErr st1
      | (True, st1) \<Rightarrow>
          (let st2 = releaseForScope scope i (op_during (turns i) st1) in
           case op_reply (turns i) of
             Inr r \<Rightarrow> (Some (i, r), lastErr, st2)
           | Inl e \<Rightarrow> op_loop cfg scope turns is (Some e) st2))"

definition run_op ::
  "nntp_config \<Rightarrow> string \<Rightarrow> string \<Rightarrow> nat list \<Rightarrow> 'r op_input \<Rightarrow> nntp_state \<Rightarrow> 'r outcome \<times> nntp_state" where
  "run_op cfg scope policy order inp st =
     (if oi_done inp then (Failed ErrContext, st)
      else
        (case op_loop cfg scope (oi_turns inp) order None st of
           (Some (i, r), _, st1) \<Rightarrow> (Fetched i r, st1)
         | (None, Some e, st1) \<Rightarrow> (Failed e, recordOperationError scope e st1)
         | (None, None, st1) \<Rightarrow>
             (if policy = CapacityWaitQueue then
                (case waitForProvider cfg scope (oi_ticks inp) st1 of
                   (None, st2) \<Rightarrow> (StillWaiting, st2)
                 | (Some (Inl e), st2) \<Rightarrow> (Failed e, st2)
                 | (Some (Inr i), st2) \<Rightarrow>
                     (let st3 = releaseForScope scope i (oi_during inp st2) in
                      case oi_reply inp of
                        Inr r \<Rightarrow> (Fetched i r, st3)
                      | Inl e \<Rightarrow> (Failed e, recordOperationError scope e st3)))
              else (Failed ErrProviderBusy, st1\<lparr>busyReturns := i64 (busyReturns st1 + 1)\<rparr>))))"

definition listGroupsForScope ::
  "nntp_config \<Rightarrow> string \<Rightarrow> string \<Rightarrow> 'r op_input \<Rightarrow> nntp_state \<Rightarrow> 'r outcome \<times> nntp_state" where
  "listGroupsForScope cfg scope policy inp st =
     (let st0 = count_groups scope st
      in run_op cfg scope policy (providerAcquireOrder cfg st0 scope (all_providers cfg)) inp st0)"

definition fetchBodyPrefixForScope ::
  "nntp_config \<Rightarrow> string \<Rightarrow> string \<Rightarrow> 'r op_input \<Rightarrow> nntp_state \<Rightarrow> 'r outcome \<times> nntp_state" where
  "fetchBodyPrefixForScope cfg scope policy inp st =
     (let st0 = count_prefixes scope st
      in run_op cfg scope policy (providerAcquireOrder cfg st0 scope (all_providers cfg)) inp st0)"

definition groupStatsForScopeWithProvider ::
  "nntp_config \<Rightarrow> string \<Rightarrow> string \<Rightarrow> 'r op_input \<Rightarrow> nntp_state \<Rightarrow> 'r outcome \<times> nntp_state" where
  "groupStatsForScopeWithProvider cfg scope policy inp st =
     run_op cfg scope policy (all_providers cfg) inp (count_groups scope st)"

definition xoverForScopeWithProvider ::
  "nntp_config \<Rightarrow> string \<Rightarrow> string \<Rightarrow> 'r op_input \<Rightarrow> nntp_state \<Rightarrow> 'r outcome \<times> nntp_state" where
  "xoverForScopeWithProvider cfg scope policy inp st =
     run_op cfg scope policy (all_providers cfg) inp (count_xovers scope st)"

section \<open>Readers that hold a permit\<close>

record 'r release_reader =
  rr_reader :: 'r
  rr_onClose :: "(string \<times> nat) option"

definition reader_of :: "string \<Rightarrow> nat \<Rightarrow> 'r \<Rightarrow> 'r release_reader" where
  "reader_of scope i r = \<lparr>rr_reader = r, rr_onClose = Some (scope, i)\<rparr>"

definition Close_reader :: "'r release_reader \<Rightarrow> nntp_state \<Rightarrow> 'r release_reader \<times> nntp_state" where
  "Close_reader rd st =
     (case rr_onClose rd of
        Some (scope, i) \<Rightarrow> (rd\<lparr>rr_onClose := None\<rparr>, releaseForScope scope i st)
      | None \<Rightarrow> (rd, st))"

section \<open>Statistics\<close>

record module_stats =
  ms_ReservationsEnabled :: bool
  ms_IdleBorrowEnabled :: bool
  ms_IndexerMaxPercent :: int
  ms_DownloaderReservePercent :: int
  ms_DownloaderDemandWindowMS :: int
  ms_IndexerActive :: int
  ms_DownloaderActive :: int
  ms_IndexerLimit :: int
  ms_DownloaderLimit :: int
  ms_DownloaderDemandActive :: bool

definition moduleStats :: "nntp_config \<Rightarrow> int \<Rightarrow> nntp_state \<Rightarrow> module_stats" where
  "moduleStats cfg now st =
     (let limits = moduleLimits cfg now st; o' = opts cfg in
      \<lparr>ms_ReservationsEnabled = ModuleReservationsEnabled o',
       ms_IdleBorrowEnabled = IdleBorrowEnabled o',
       ms_IndexerMaxPercent = IndexerMaxPercent o',
       ms_DownloaderReservePercent = DownloaderReservePercent o',
       ms_DownloaderDemandWindowMS = gdiv (DownloaderDemandWindow o') 1000000,
       ms_IndexerActive = indexerActive st, ms_DownloaderActive = downloaderActive st,
       ms_IndexerLimit = ml_indexer limits, ms_DownloaderLimit = ml_downloader limits,
       ms_DownloaderDemandActive = ml_downloaderDemandLive limits\<rparr>)"

text \<open>Durations are reported in milliseconds.\<close>

definition scopeStatsSnapshot :: "nntp_state \<Rightarrow> (string \<times> scope_stats) list" where
  "scopeStatsSnapshot st =
     sort_key fst
       (map (\<lambda>(scope, s). (scope, s\<lparr>ss_waitDurationNS := gdiv (ss_waitDurationNS s) 1000000,
                                    ss_waitMaxNS := gdiv (ss_waitMaxNS s) 1000000\<rparr>)) (scopes st))"

definition policyForRuntimeScope :: "nntp_config \<Rightarrow> string \<Rightarrow> string" where
  "policyForRuntimeScope cfg scope =
     (if normalizeScope scope = ''indexer'' then CapacityWaitQueue else CapacityPolicy (opts cfg))"

record manager_client =
  cl_scope :: string
  cl_policy :: string

definition ClientForScopeWithPolicy :: "nntp_config \<Rightarrow> string \<Rightarrow> string \<Rightarrow> manager_client" where
  "ClientForScopeWithPolicy cfg scope policy =
     \<lparr>cl_scope = normalizeScope scope,
      cl_policy = (if policy = [] then CapacityPolicy (opts cfg) else policy)\<rparr>"

end
