(* ===== verification/Nntp_Fetch.thy ===== *)
theory Nntp_Fetch
  imports Nntp_Manager
begin

text \<open>
  How the NNTP manager handles its permits: the interface of a pool of permits, its instances (the
  bare send and the whole \<open>acquire\<close>), and the ways a fetch can go as an inductive relation, over
  which the properties of \<open>fetch\<close> are proved.
\<close>


section \<open>Semaphores as an interface\<close>

text \<open>A pool of permits: taking one either counts it or changes no count, giving one back uncounts
  it. What is done under a permit that is given back leaves no trace.\<close>

locale permit_pool =
  fixes take_one :: "'k \<Rightarrow> 's \<Rightarrow> bool \<times> 's"
    and give_back :: "'k \<Rightarrow> 's \<Rightarrow> 's"
    and used :: "'s \<Rightarrow> 'i \<Rightarrow> nat"
    and slot :: "'k \<Rightarrow> 'i"
    and limit :: "'i \<Rightarrow> nat"
  assumes take_ok: "take_one k s = (True, s') \<Longrightarrow>
      used s (slot k) < limit (slot k) \<and> used s' = (used s)(slot k := Suc (used s (slot k)))"
    and take_full: "take_one k s = (False, s') \<Longrightarrow> used s' = used s"
    and give: "used (give_back k s) = (used s)(slot k := used s (slot k) - 1)"
begin

definition within :: "'s \<Rightarrow> bool" where
  "within s \<longleftrightarrow> (\<forall>i. used s i \<le> limit i)"

lemma take_within: "within s \<Longrightarrow> take_one k s = (b, s') \<Longrightarrow> within s'"
  using take_ok [of k s s'] take_full [of k s s'] by (cases b) (auto simp: within_def)

lemma give_within: "within s \<Longrightarrow> within (give_back k s)"
  by (auto simp: within_def give intro: le_trans [OF diff_le_self])

lemma bracket:
  "take_one k s = (True, s1) \<Longrightarrow> used s2 = used s1 \<Longrightarrow> used (give_back k s2) = used s"
  using take_ok [of k s s1] by (simp add: give fun_eq_iff)

lemma taken_then_given:
  "used s1 = (used s)(slot k := Suc (used s (slot k))) \<Longrightarrow> used (give_back k s1) = used s"
  by (simp add: give fun_eq_iff)

end

lemma sem_keeps [simp, go_keeps]:
  "sem (scopeStats scope f st) = sem st"
  "sem (recordActive scope module d st) = sem st"
  "sem (recordArticleNotFound scope st) = sem st"
  "sem (recordDownloaderDemand now st) = sem st"
  "sem (recordWait scope d st) = sem st"
  "sem (recordOperationError scope e st) = sem st"
  "sem (add_waiting scope d st) = sem st"
  "sem (count_fetches scope st) = sem st"
  "sem (count_groups scope st) = sem st" "sem (count_xovers scope st) = sem st"
  "sem (count_prefixes scope st) = sem st"
  by (simp_all add: scopeStats_def recordActive_def recordArticleNotFound_def recordDownloaderDemand_def
      recordWait_def recordOperationError_def add_waiting_def count_fetches_def count_groups_def
      count_xovers_def count_prefixes_def Let_def)

lemma sem_release [simp]: "sem (releaseForScope scope i st) = (sem st)(i := sem st i - 1)"
  by (simp add: releaseForScope_def)

lemma sem_try_send:
  "try_send cfg scope i st = (True, st') \<Longrightarrow>
     sem st i < capacity_of cfg i \<and> sem st' = (sem st)(i := Suc (sem st i))"
  "try_send cfg scope i st = (False, st') \<Longrightarrow> sem st' = sem st"
  by (auto simp: try_send_def split: if_splits)

lemma sem_may_send: "may_send cfg now scope i st = (b, st') \<Longrightarrow> sem st' = sem st"
  by (auto simp: may_send_def Let_def split: if_splits)

interpretation sends: permit_pool "\<lambda>(scope, i). try_send cfg scope i"
  "\<lambda>(scope, i). releaseForScope scope i" sem snd "capacity_of cfg" for cfg
  by unfold_locales (auto dest: sem_try_send)

interpretation permits: permit_pool "\<lambda>(scope, i). acquire cfg now id scope i"
  "\<lambda>(scope, i). releaseForScope scope i" sem snd "capacity_of cfg" for cfg now
  by unfold_locales
     (auto simp: acquire_def split: prod.splits bool.splits dest!: sem_may_send sem_try_send)

section \<open>One call at a time\<close>

text \<open>The other goroutines do nothing while the call runs.\<close>

definition alone_tick :: "tick \<Rightarrow> bool" where
  "alone_tick t \<longleftrightarrow> tk_before t = id \<and> tk_between t = (\<lambda>_. id)"

definition alone_turn :: "'r turn \<Rightarrow> bool" where
  "alone_turn t \<longleftrightarrow> tn_before t = id \<and> tn_between t = id \<and> tn_during t = id"

definition alone :: "'r pass \<Rightarrow> bool" where
  "alone p \<longleftrightarrow> (\<forall>i. alone_turn (ps_turns p i)) \<and> list_all alone_tick (ps_ticks p) \<and> ps_during p = id"

text \<open>What a step did to the permits: took one of provider \<open>i\<close>, or none.\<close>

definition takes :: "nntp_config \<Rightarrow> nat option \<Rightarrow> nntp_state \<Rightarrow> nntp_state \<Rightarrow> bool" where
  "takes cfg x st st' \<longleftrightarrow>
     (case x of None \<Rightarrow> sem st' = sem st
      | Some i \<Rightarrow> sem st i < capacity_of cfg i \<and> sem st' = (sem st)(i := Suc (sem st i)))"

lemma takes_cong: "sem st = sem st1 \<Longrightarrow> sem st' = sem st2 \<Longrightarrow> takes cfg x st1 st2 \<Longrightarrow> takes cfg x st st'"
  by (cases x) (simp_all add: takes_def)

lemma takes_None [simp]: "takes cfg None st st' \<longleftrightarrow> sem st' = sem st"
  by (simp add: takes_def)

lemma takes_acquire:
  "acquire cfg now id scope i st = (b, st') \<Longrightarrow> takes cfg (if b then Some i else None) st st'"
  using permits.take_ok [of cfg now "(scope, i)" st st'] permits.take_full [of cfg now "(scope, i)" st st']
  by (cases b) (simp_all add: takes_def)

lemma takes_release: "takes cfg (Some i) st st1 \<Longrightarrow> sem (releaseForScope scope i st1) = sem st"
  by (simp add: takes_def fun_eq_iff)

lemma takes_send:
  "try_send cfg scope i st = (b, st') \<Longrightarrow> takes cfg (if b then Some i else None) st st'"
  using sem_try_send [of cfg scope i st st'] by (cases b) (simp_all add: takes_def)

lemma takes_send_first: "send_first cfg scope (\<lambda>_. id) ps st = (x, st') \<Longrightarrow> takes cfg x st st'"
proof (induction cfg scope "\<lambda>_::nat. id::nntp_state \<Rightarrow> _" ps st rule: send_first.induct)
  case (2 cfg scope i "is" st)
  obtain b st1 where b: "try_send cfg scope i st = (b, st1)" by fastforce
  with takes_send [OF b] 2 show ?case by (cases b) (auto intro: takes_cong [of st st1 st' st'])
qed simp

lemma takes_wait_round:
  assumes "wait_round cfg scope ps t st = (x, st')" and "alone_tick t"
  shows "takes cfg x st st'"
proof -
  let ?st1 = "if moduleForScope scope = ''downloader'' then recordDownloaderDemand (tk_now t) st else st"
  have e: "sem st = sem ?st1" by simp
  have "tk_before t = id" "tk_between t = (\<lambda>_. id)" using assms(2) by (simp_all add: alone_tick_def)
  with assms(1) have r: "(if moduleCanAcquire cfg (tk_now t) (moduleForScope scope) ?st1
      then send_first cfg scope (\<lambda>_. id) (providerAcquireOrder cfg ?st1 scope ps) ?st1
      else (None, ?st1)) = (x, st')"
    by (simp only: wait_round_def Let_def id_apply)
  show ?thesis
  proof (cases "moduleCanAcquire cfg (tk_now t) (moduleForScope scope) ?st1")
    case True
    with r have "send_first cfg scope (\<lambda>_. id) (providerAcquireOrder cfg ?st1 scope ps) ?st1 = (x, st')"
      by (simp only: if_True)
    then show ?thesis by (rule takes_cong [OF e refl takes_send_first])
  next
    case False
    with r have "x = None" "st' = ?st1" by (simp_all only: if_False prod.inject)
    then show ?thesis by simp
  qed
qed

fun waited :: "(nntp_error + nat) option \<Rightarrow> nat option" where
  "waited (Some (Inr i)) = Some i"
| "waited x = None"

lemma takes_wait_loop:
  "wait_loop cfg scope ps ts st = (x, st') \<Longrightarrow> list_all alone_tick ts \<Longrightarrow> takes cfg (waited x) st st'"
proof (induction cfg scope ps ts st arbitrary: x st' rule: wait_loop.induct)
  case (2 cfg scope ps t ts st)
  obtain s st1 where s: "wait_round cfg scope ps t st = (s, st1)" by fastforce
  have t: "takes cfg s st st1" using takes_wait_round [OF s] 2(3) by simp
  show ?case
  proof (cases s)
    case (Some i)
    with s t 2(2) show ?thesis by (auto intro: takes_cong)
  next
    case None
    with s t 2 show ?thesis
      by (cases "tk_done t") (auto intro: takes_cong [of st st1])
  qed
qed simp

lemma takes_waitList:
  assumes "waitForProviderFromList cfg scope ps ts st = (x, st')" and "list_all alone_tick ts"
  shows "takes cfg (waited x) st st'"
proof (cases "ps = []")
  case False
  obtain y st1 where w: "wait_loop cfg scope ps ts (add_waiting scope 1 st) = (y, st1)" by fastforce
  from assms(1) w False have "x = y" "sem st' = sem st1"
    by (auto simp: waitForProviderFromList_def split: option.splits)
  with takes_wait_loop [OF w assms(2)] show ?thesis by (auto intro: takes_cong [rotated 2])
qed (use assms in \<open>auto simp: waitForProviderFromList_def\<close>)

lemma takes_waitFetch:
  "waitForFetchProvider cfg scope seg ts st = (x, st') \<Longrightarrow> list_all alone_tick ts \<Longrightarrow>
     takes cfg (waited x) st st'"
  by (auto simp: waitForFetchProvider_def Let_def split: if_splits dest!: takes_waitList)

lemma takes_fetchFromAcquired:
  "fetchFromAcquiredProvider cfg scope i rep seg st1 = (x, seg', st') \<Longrightarrow> takes cfg (Some i) st st1 \<Longrightarrow>
     takes cfg (case x of Inr r \<Rightarrow> Some i | Inl e \<Rightarrow> None) st st'"
  by (auto simp: fetchFromAcquiredProvider_def takes_release [unfolded sem_release]
      split: reply430.splits)
     (auto simp: takes_def)

lemma takes_fetch_loop:
  "fetch_loop cfg scope turns is e seg st = (x, e', seg', st') \<Longrightarrow> (\<forall>i. alone_turn (turns i)) \<Longrightarrow>
     takes cfg (map_option fst x) st st'"
proof (induction "is" arbitrary: e seg st)
  case (Cons i "is")
  have t: "tn_before (turns i) = id" "tn_between (turns i) = id" "tn_during (turns i) = id"
    using Cons.prems(2) by (simp_all add: alone_turn_def)
  have IH: "fetch_loop cfg scope turns is e1 seg1 st1 = (x, e', seg', st') \<Longrightarrow> sem st1 = sem st \<Longrightarrow>
      takes cfg (map_option fst x) st st'" for e1 seg1 st1
    using Cons.IH [OF _ Cons.prems(2)] by (metis takes_cong)
  show ?case
  proof (cases "missing_at seg cfg i")
    case True
    with IH Cons.prems(1) show ?thesis by simp
  next
    case False
    obtain b st1 where a: "acquire cfg (tn_now (turns i)) id scope i st = (b, st1)" by fastforce
    note tk = takes_acquire [OF a]
    show ?thesis
    proof (cases b)
      case False
      with IH tk Cons.prems(1) a \<open>\<not> missing_at seg cfg i\<close> show ?thesis by (simp add: t)
    next
      case True
      obtain y seg2 st2 where f: "fetchFromAcquiredProvider cfg scope i (tn_reply (turns i)) seg st1
          = (y, seg2, st2)" by (metis surjective_pairing)
      have "takes cfg (case y of Inr r \<Rightarrow> Some i | Inl e \<Rightarrow> None) st st2"
        using takes_fetchFromAcquired [OF f] tk True by simp
      with IH Cons.prems(1) a f True \<open>\<not> missing_at seg cfg i\<close> show ?thesis
        by (cases y) (auto simp: t)
    qed
  qed
qed simp

fun fetched :: "'r outcome \<Rightarrow> nat option" where
  "fetched (Fetched i r) = Some i"
| "fetched x = None"

text \<open>The ways a fetch can go, as rules: proofs about \<open>fetch\<close> are inductions over them.\<close>

definition all_missing :: "nntp_config \<Rightarrow> string \<Rightarrow> segment \<Rightarrow> bool" where
  "all_missing cfg scope seg \<longleftrightarrow> 0 < length (eligibleProviders cfg scope) \<and>
     length (eligibleProviders cfg scope) \<le> missingEligibleProviderCount cfg scope seg"

inductive fetch_run ::
  "nntp_config \<Rightarrow> string \<Rightarrow> string \<Rightarrow> (nat \<Rightarrow> 'r pass) \<Rightarrow> nat \<Rightarrow> segment \<Rightarrow> nntp_state
     \<Rightarrow> 'r outcome \<times> segment \<times> nntp_state \<Rightarrow> bool"
  for cfg scope policy passes
where
  run_done: "ps_done (passes k) \<Longrightarrow> fetch_run cfg scope policy passes k seg st (Failed ErrContext, seg, st)"
| run_hit: "\<not> ps_done (passes k) \<Longrightarrow>
    fetch_loop cfg scope (ps_turns (passes k)) (all_providers cfg) None seg st = (Some (i, r), e, seg1, st1) \<Longrightarrow>
    fetch_run cfg scope policy passes k seg st (Fetched i r, seg1, st1)"
| run_missing: "\<not> ps_done (passes k) \<Longrightarrow>
    fetch_loop cfg scope (ps_turns (passes k)) (all_providers cfg) None seg st = (None, e, seg1, st1) \<Longrightarrow>
    all_missing cfg scope seg1 \<Longrightarrow>
    fetch_run cfg scope policy passes k seg st (Failed (articleNotFoundError cfg seg1), seg1, st1)"
| run_error: "\<not> ps_done (passes k) \<Longrightarrow>
    fetch_loop cfg scope (ps_turns (passes k)) (all_providers cfg) None seg st = (None, Some e, seg1, st1) \<Longrightarrow>
    \<not> all_missing cfg scope seg1 \<Longrightarrow>
    fetch_run cfg scope policy passes k seg st (Failed e, seg1, recordOperationError scope e st1)"
| run_busy: "\<not> ps_done (passes k) \<Longrightarrow>
    fetch_loop cfg scope (ps_turns (passes k)) (all_providers cfg) None seg st = (None, None, seg1, st1) \<Longrightarrow>
    \<not> all_missing cfg scope seg1 \<Longrightarrow> policy \<noteq> CapacityWaitQueue \<Longrightarrow>
    fetch_run cfg scope policy passes k seg st
      (Failed ErrProviderBusy, seg1, st1\<lparr>busyReturns := i64 (busyReturns st1 + 1)\<rparr>)"
| run_waiting: "\<not> ps_done (passes k) \<Longrightarrow>
    fetch_loop cfg scope (ps_turns (passes k)) (all_providers cfg) None seg st = (None, None, seg1, st1) \<Longrightarrow>
    \<not> all_missing cfg scope seg1 \<Longrightarrow> policy = CapacityWaitQueue \<Longrightarrow>
    waitForFetchProvider cfg scope seg1 (ps_ticks (passes k)) st1 = (None, st2) \<Longrightarrow>
    fetch_run cfg scope policy passes k seg st (StillWaiting, seg1, st2)"
| run_wait_error: "\<not> ps_done (passes k) \<Longrightarrow>
    fetch_loop cfg scope (ps_turns (passes k)) (all_providers cfg) None seg st = (None, None, seg1, st1) \<Longrightarrow>
    \<not> all_missing cfg scope seg1 \<Longrightarrow> policy = CapacityWaitQueue \<Longrightarrow>
    waitForFetchProvider cfg scope seg1 (ps_ticks (passes k)) st1 = (Some (Inl e), st2) \<Longrightarrow>
    fetch_run cfg scope policy passes k seg st (Failed e, seg1, st2)"
| run_wait_hit: "\<not> ps_done (passes k) \<Longrightarrow>
    fetch_loop cfg scope (ps_turns (passes k)) (all_providers cfg) None seg st = (None, None, seg1, st1) \<Longrightarrow>
    \<not> all_missing cfg scope seg1 \<Longrightarrow> policy = CapacityWaitQueue \<Longrightarrow>
    waitForFetchProvider cfg scope seg1 (ps_ticks (passes k)) st1 = (Some (Inr i), st2) \<Longrightarrow>
    fetchFromAcquiredProvider cfg scope i (ps_reply (passes k)) seg1 (ps_during (passes k) st2) =
      (Inr r, seg2, st3) \<Longrightarrow>
    fetch_run cfg scope policy passes k seg st (Fetched i r, seg2, st3)"
| run_wait_failed: "\<not> ps_done (passes k) \<Longrightarrow>
    fetch_loop cfg scope (ps_turns (passes k)) (all_providers cfg) None seg st = (None, None, seg1, st1) \<Longrightarrow>
    \<not> all_missing cfg scope seg1 \<Longrightarrow> policy = CapacityWaitQueue \<Longrightarrow>
    waitForFetchProvider cfg scope seg1 (ps_ticks (passes k)) st1 = (Some (Inr i), st2) \<Longrightarrow>
    fetchFromAcquiredProvider cfg scope i (ps_reply (passes k)) seg1 (ps_during (passes k) st2) =
      (Inl e, seg2, st3) \<Longrightarrow> \<not> is_not_found e \<Longrightarrow>
    fetch_run cfg scope policy passes k seg st (Failed e, seg2, recordOperationError scope e st3)"
| run_again: "\<not> ps_done (passes k) \<Longrightarrow>
    fetch_loop cfg scope (ps_turns (passes k)) (all_providers cfg) None seg st = (None, None, seg1, st1) \<Longrightarrow>
    \<not> all_missing cfg scope seg1 \<Longrightarrow> policy = CapacityWaitQueue \<Longrightarrow>
    waitForFetchProvider cfg scope seg1 (ps_ticks (passes k)) st1 = (Some (Inr i), st2) \<Longrightarrow>
    fetchFromAcquiredProvider cfg scope i (ps_reply (passes k)) seg1 (ps_during (passes k) st2) =
      (Inl e, seg2, st3) \<Longrightarrow> is_not_found e \<Longrightarrow>
    fetch_run cfg scope policy passes (Suc k) seg2 st3 res \<Longrightarrow>
    fetch_run cfg scope policy passes k seg st res"

lemma fetch_run: "fetch_run cfg scope policy passes k seg st (fetch cfg scope policy passes k seg st)"
proof (induction cfg scope policy passes k seg st rule: fetch.induct)
  case (1 cfg scope policy passes k seg st)
  show ?case
  proof (cases "ps_done (passes k)")
    case True
    then show ?thesis using run_done [of passes k] by (simp add: fetch.simps [of cfg scope policy passes k])
  next
    case d: False
    obtain a e seg1 st1 where l: "fetch_loop cfg scope (ps_turns (passes k)) (all_providers cfg) None seg st
        = (a, e, seg1, st1)" by (metis surjective_pairing)
    show ?thesis
    proof (cases a)
      case (Some ir)
      with d l show ?thesis
        using run_hit [of passes k cfg scope seg st "fst ir" "snd ir"]
        by (cases ir) (simp add: fetch.simps [of cfg scope policy passes k])
    next
      case a: None
      show ?thesis
      proof (cases "all_missing cfg scope seg1")
        case True
        with d l a show ?thesis
          using run_missing [of passes k cfg scope seg st e seg1 st1]
          by (simp add: fetch.simps [of cfg scope policy passes k] Let_def all_missing_def)
      next
        case am: False
        then have am': "\<not> (0 < length (eligibleProviders cfg scope) \<and>
            length (eligibleProviders cfg scope) \<le> missingEligibleProviderCount cfg scope seg1)"
          by (simp add: all_missing_def)
        show ?thesis
        proof (cases e)
          case (Some err)
          with d l a am am' show ?thesis
            using run_error [of passes k cfg scope seg st err seg1 st1]
            by (auto simp: fetch.simps [of cfg scope policy passes k] Let_def)
        next
          case e: None
          show ?thesis
          proof (cases "policy = CapacityWaitQueue")
            case False
            with d l a e am am' show ?thesis
              using run_busy [of passes k cfg scope seg st seg1 st1 policy]
              by (auto simp: fetch.simps [of cfg scope policy passes k] Let_def)
          next
            case p: True
            obtain y st2 where w: "waitForFetchProvider cfg scope seg1 (ps_ticks (passes k)) st1 = (y, st2)"
              by fastforce
            have unf: "fetch cfg scope policy passes k seg st =
               (case y of None \<Rightarrow> (StillWaiting, seg1, st2)
                | Some (Inl e) \<Rightarrow> (Failed e, seg1, st2)
                | Some (Inr i) \<Rightarrow>
                   (case fetchFromAcquiredProvider cfg scope i (ps_reply (passes k)) seg1 (ps_during (passes k) st2) of
                      (Inr r, seg2, st3) \<Rightarrow> (Fetched i r, seg2, st3)
                    | (Inl e, seg2, st3) \<Rightarrow>
                        if is_not_found e then fetch cfg scope policy passes (Suc k) seg2 st3
                        else (Failed e, seg2, recordOperationError scope e st3)))"
              by (subst fetch.simps)
                 (simp only: d l [unfolded a e] am' w if_False prod.case option.case Let_def,
                  simp only: p refl if_True)
            note l' = l [unfolded a e]
            show ?thesis
            proof (cases y)
              case None
              with run_waiting [where passes = passes, OF d l' am p] w show ?thesis by (simp add: unf)
            next
              case (Some z)
              show ?thesis
              proof (cases z)
                case (Inl err)
                with run_wait_error [where passes = passes, OF d l' am p] w Some show ?thesis by (simp add: unf)
              next
                case (Inr i)
                have w': "waitForFetchProvider cfg scope seg1 (ps_ticks (passes k)) st1 = (Some (Inr i), st2)"
                  using w Some Inr by simp
                obtain u seg2 st3 where f: "fetchFromAcquiredProvider cfg scope i (ps_reply (passes k)) seg1
                    (ps_during (passes k) st2) = (u, seg2, st3)" by (metis surjective_pairing)
                show ?thesis
                proof (cases u)
                  case (Inr r)
                  with run_wait_hit [where passes = passes, OF d l' am p w'] f Some \<open>z = Inr i\<close> show ?thesis by (simp add: unf)
                next
                  case (Inl err)
                  note f' = f [unfolded Inl]
                  show ?thesis
                  proof (cases "is_not_found err")
                    case True
                    have "fetch_run cfg scope policy passes (Suc k) seg2 st3
                        (fetch cfg scope policy passes (Suc k) seg2 st3)"
                      by (rule 1 [OF d l' [symmetric] refl refl refl refl am' refl p w' [symmetric] refl refl
                            f' [symmetric] refl refl True])
                    with run_again [where passes = passes, OF d l' am p w' f' True] f' Some \<open>z = Inr i\<close> True
                    show ?thesis by (simp add: unf)
                  next
                    case False
                    with run_wait_failed [where passes = passes, OF d l' am p w' f' False] f' Some \<open>z = Inr i\<close>
                    show ?thesis by (simp add: unf)
                  qed
                qed
              qed
            qed
          qed
        qed
      qed
    qed
  qed
qed

lemma takes_fetch_run:
  "fetch_run cfg scope policy passes k seg st res \<Longrightarrow> (\<forall>k. alone (passes k)) \<Longrightarrow>
     takes cfg (fetched (fst res)) st (snd (snd res))"
proof (induction rule: fetch_run.induct)
  case (run_done k seg st)
  then show ?case by simp
next
  case (run_hit k seg st i r e seg1 st1)
  then show ?case using takes_fetch_loop [OF run_hit(2)] by (simp add: alone_def)
next
  case (run_missing k seg st e seg1 st1)
  then show ?case using takes_fetch_loop [OF run_missing(2)] by (simp add: alone_def)
next
  case (run_error k seg st e seg1 st1)
  then show ?case using takes_fetch_loop [OF run_error(2)] by (simp add: alone_def)
next
  case (run_busy k seg st seg1 st1)
  then show ?case using takes_fetch_loop [OF run_busy(2)] by (simp add: alone_def)
next
  case (run_waiting k seg st seg1 st1 st2)
  then show ?case using takes_fetch_loop [OF run_waiting(2)] takes_waitFetch [OF run_waiting(5)]
    by (simp add: alone_def)
next
  case (run_wait_error k seg st seg1 st1 e st2)
  then show ?case using takes_fetch_loop [OF run_wait_error(2)] takes_waitFetch [OF run_wait_error(5)]
    by (simp add: alone_def)
next
  case (run_wait_hit k seg st seg1 st1 i st2 r seg2 st3)
  then show ?case
    using takes_fetch_loop [OF run_wait_hit(2)] takes_waitFetch [OF run_wait_hit(5)]
      takes_fetchFromAcquired [OF run_wait_hit(6), where st = st1]
    by (auto simp: alone_def intro: takes_cong [rotated 2])
next
  case (run_wait_failed k seg st seg1 st1 i st2 e seg2 st3)
  then show ?case
    using takes_fetch_loop [OF run_wait_failed(2)] takes_waitFetch [OF run_wait_failed(5)]
      takes_fetchFromAcquired [OF run_wait_failed(6), where st = st1]
    by (auto simp: alone_def)
next
  case (run_again k seg st seg1 st1 i st2 e seg2 st3 res)
  then have "takes cfg (fetched (fst res)) st3 (snd (snd res))" by simp
  moreover have "sem st3 = sem st"
    using run_again takes_fetch_loop [OF run_again(2)] takes_waitFetch [OF run_again(5)]
      takes_fetchFromAcquired [OF run_again(6), where st = st1]
    by (auto simp: alone_def)
  ultimately show ?case by (auto intro: takes_cong [rotated 2])
qed

end
