(* ===== verification/Nntp_Props.thy ===== *)
theory Nntp_Props
  imports Nntp_Fetch "HOL-Library.Multiset"
begin

text \<open>
  The properties of the NNTP manager: missing articles, where an article comes from, connections
  taken and given back, termination, the order of the providers, the shares of the two modules,
  and the accounting of permits under every interleaving.
\<close>


section \<open>Articles that are missing\<close>

lemma fetchFromAcquired_error:
  "fetchFromAcquiredProvider cfg scope i rep seg st = (Inl e, seg', st') \<Longrightarrow>
     is_not_found e \<longleftrightarrow> rep = Missing430"
  by (auto simp: fetchFromAcquiredProvider_def split: reply430.splits)

lemma fetch_loop_error:
  "fetch_loop cfg scope turns is e seg st = (x, e', seg', st') \<Longrightarrow>
     (\<And>err. e = Some err \<Longrightarrow> \<not> is_not_found err) \<Longrightarrow> e' = Some err \<Longrightarrow> \<not> is_not_found err"
proof (induction "is" arbitrary: e seg st)
  case (Cons i "is")
  obtain b st1 where a: "acquire cfg (tn_now (turns i)) (tn_between (turns i)) scope i (tn_before (turns i) st)
      = (b, st1)" by fastforce
  obtain y seg2 st2 where f: "fetchFromAcquiredProvider cfg scope i (tn_reply (turns i)) seg
      (tn_during (turns i) st1) = (y, seg2, st2)" by (metis surjective_pairing)
  from Cons.prems(1) a f show ?case
    using Cons.IH Cons.prems(2,3)
    by (cases "missing_at seg cfg i"; cases b; cases y) (auto split: if_splits)
qed simp

lemma wait_loop_no_article:
  "wait_loop cfg scope ps ts st = (Some (Inl e), st') \<Longrightarrow> e = ErrContext"
  by (induction cfg scope ps ts st rule: wait_loop.induct)
     (auto split: prod.splits option.splits if_splits)

lemma all_missing_iff:
  "all_missing cfg scope seg \<longleftrightarrow>
     eligibleProviders cfg scope \<noteq> [] \<and> (\<forall>i\<in>set (eligibleProviders cfg scope). missing_at seg cfg i)"
proof -
  have "missingEligibleProviderCount cfg scope seg =
      length (filter (missing_at seg cfg) (eligibleProviders cfg scope))"
    unfolding missingEligibleProviderCount_def eligibleProviders_def
    by (simp add: conj_commute)
  moreover have "length xs \<le> length (filter P xs) \<longleftrightarrow> (\<forall>x\<in>set xs. P x)" for P and xs :: "nat list"
    by (metis filter_True filter_id_conv length_filter_le length_filter_less linorder_not_less order_refl)
  ultimately show ?thesis unfolding all_missing_def by simp
qed

lemma waitFetch_error:
  "waitForFetchProvider cfg scope seg ts st = (Some (Inl e), st') \<Longrightarrow> is_not_found e \<Longrightarrow>
     e = articleNotFoundError cfg seg \<and> all_missing cfg scope seg"
  by (auto simp: waitForFetchProvider_def waitForProviderFromList_def Let_def all_missing_iff
      filter_empty_conv split: if_splits prod.splits option.splits dest!: wait_loop_no_article)

lemma fetch_run_missing:
  "fetch_run cfg scope policy passes k seg st res \<Longrightarrow> fst res = Failed e \<Longrightarrow> is_not_found e \<Longrightarrow>
     e = articleNotFoundError cfg (fst (snd res)) \<and> all_missing cfg scope (fst (snd res))"
proof (induction rule: fetch_run.induct)
  case (run_error k seg st e seg1 st1)
  then show ?case using fetch_loop_error [OF run_error(2)] by auto
next
  case (run_wait_error k seg st seg1 st1 e st2)
  then show ?case using waitFetch_error [OF run_wait_error(5)] by auto
qed auto

text \<open>Which answers of 430 a segment's set of missing providers rests on.\<close>

definition refused :: "(nat \<Rightarrow> 'r pass) \<Rightarrow> nat \<Rightarrow> bool" where
  "refused passes i \<longleftrightarrow>
     (\<exists>k. tn_reply (ps_turns (passes k) i) = Missing430 \<or> ps_reply (passes k) = Missing430)"

lemma fetch_loop_refused:
  "fetch_loop cfg scope turns is e seg st = (x, e', seg', st') \<Longrightarrow> p \<in> set (seg_MissingFrom seg') \<Longrightarrow>
     p \<in> set (seg_MissingFrom seg) \<or> (\<exists>i\<in>set is. p = pid cfg i \<and> tn_reply (turns i) = Missing430)"
proof (induction "is" arbitrary: e seg st)
  case (Cons i "is")
  obtain b st1 where a: "acquire cfg (tn_now (turns i)) (tn_between (turns i)) scope i (tn_before (turns i) st)
      = (b, st1)" by fastforce
  obtain y seg2 st2 where f: "fetchFromAcquiredProvider cfg scope i (tn_reply (turns i)) seg
      (tn_during (turns i) st1) = (y, seg2, st2)" by (metis surjective_pairing)
  have m: "q \<in> set (seg_MissingFrom seg2) \<Longrightarrow>
      q \<in> set (seg_MissingFrom seg) \<or> q = pid cfg i \<and> tn_reply (turns i) = Missing430" for q
    using f by (auto simp: fetchFromAcquiredProvider_def mark_missing_def split: reply430.splits)
  from Cons.prems a f m show ?case
    using Cons.IH by (cases "missing_at seg cfg i"; cases b; cases y) (fastforce split: if_splits)+
qed simp

lemma fetch_run_refused:
  "fetch_run cfg scope policy passes k seg st res \<Longrightarrow> p \<in> set (seg_MissingFrom (fst (snd res))) \<Longrightarrow>
     p \<in> set (seg_MissingFrom seg) \<or> (\<exists>i<length (providers cfg). p = pid cfg i \<and> refused passes i)"
proof (induction rule: fetch_run.induct)
  case (run_again k seg st seg1 st1 i st2 e seg2 st3 res)
  have "seg2 = mark_missing (pid cfg i) seg1" and "refused passes i"
    using fetchFromAcquired_notfound [OF run_again(6,7)] fetchFromAcquired_error [OF run_again(6)]
      run_again(7) by (auto simp: refused_def)
  moreover have "i < length (providers cfg)" using waitForFetch_member [OF run_again(5)] by simp
  ultimately show ?case
    using run_again fetch_loop_refused [OF run_again(2)]
    by (fastforce simp: mark_missing_def refused_def)
next
  case (run_wait_hit k seg st seg1 st1 i st2 r seg2 st3)
  then have "seg2 = seg1" by (auto simp: fetchFromAcquiredProvider_def split: reply430.splits)
  with run_wait_hit fetch_loop_refused [OF run_wait_hit(2)] show ?case by (fastforce simp: refused_def)
next
  case (run_wait_failed k seg st seg1 st1 i st2 e seg2 st3)
  then have "seg2 = seg1" by (auto simp: fetchFromAcquiredProvider_def split: reply430.splits)
  with run_wait_failed fetch_loop_refused [OF run_wait_failed(2)] show ?case by (fastforce simp: refused_def)
next
  case (run_hit k seg st i r e seg1 st1)
  then show ?case using fetch_loop_refused [OF run_hit(2)] by (fastforce simp: refused_def)
next
  case (run_missing k seg st e seg1 st1)
  then show ?case using fetch_loop_refused [OF run_missing(2)] by (fastforce simp: refused_def)
next
  case (run_error k seg st e seg1 st1)
  then show ?case using fetch_loop_refused [OF run_error(2)] by (fastforce simp: refused_def)
next
  case (run_busy k seg st seg1 st1)
  then show ?case using fetch_loop_refused [OF run_busy(2)] by (fastforce simp: refused_def)
next
  case (run_waiting k seg st seg1 st1 st2)
  then show ?case using fetch_loop_refused [OF run_waiting(2)] by (fastforce simp: refused_def)
next
  case (run_wait_error k seg st seg1 st1 e st2)
  then show ?case using fetch_loop_refused [OF run_wait_error(2)] by (fastforce simp: refused_def)
qed simp


definition provider1 :: "string \<Rightarrow> managed_provider" where
  "provider1 p = \<lparr>mp_ID = p, mp_Label = p, mp_Priority = 0, mp_cap = 2, mp_roles = normalizeProviderRoles []\<rparr>"

definition options1 :: manager_options where
  "options1 = \<lparr>CapacityPolicy = [], ModuleReservationsEnabled = True, IdleBorrowEnabled = False,
     IndexerMaxPercent = 50, DownloaderReservePercent = 0, DownloaderDemandWindow = 0\<rparr>"

definition config1 :: nntp_config where
  "config1 = newManagerWithProviders [provider1 ''a'', provider1 ''b''] options1"

definition turn1 :: "nat reply430 \<Rightarrow> nat turn" where
  "turn1 rep = \<lparr>tn_now = 5, tn_before = id, tn_between = id, tn_during = id, tn_reply = rep\<rparr>"

definition pass1 :: "(nat \<Rightarrow> nat reply430) \<Rightarrow> nat pass" where
  "pass1 reps = \<lparr>ps_done = False, ps_turns = (\<lambda>i. turn1 (reps i)), ps_ticks = [], ps_during = id,
     ps_reply = GotNil\<rparr>"

definition segment1 :: segment where
  "segment1 = \<lparr>seg_Number = 1, seg_Bytes = 10, seg_MessageID = ''m'', seg_MissingFrom = []\<rparr>"

lemma fetch1:
  "fst (fetch config1 ''downloader'' CapacityReturnBusy (\<lambda>_. pass1 (\<lambda>_. Missing430)) 0 segment1 zero_state) =
     Failed (ArticleNotFoundError ''m'' [''a'', ''b''])"
  by code_simp

lemma fetch1_alone: "alone (pass1 reps)"
  by (simp add: alone_def pass1_def alone_turn_def turn1_def)


section \<open>Where an article comes from\<close>

lemma acquire_allowed: "acquire cfg now between scope i st = (True, st') \<Longrightarrow> allowed cfg scope i"
  by (auto simp: acquire_def may_send_def Let_def split: prod.splits bool.splits if_splits)

lemma fetch_loop_hit:
  "fetch_loop cfg scope turns is e seg st = (Some (i, r), e', seg', st') \<Longrightarrow>
     i \<in> set is \<and> allowed cfg scope i \<and> \<not> missing_at seg' cfg i \<and> tn_reply (turns i) = Got r"
proof (induction "is" arbitrary: e seg st)
  case (Cons j "is")
  obtain b st1 where a: "acquire cfg (tn_now (turns j)) (tn_between (turns j)) scope j (tn_before (turns j) st)
      = (b, st1)" by fastforce
  obtain y seg2 st2 where f: "fetchFromAcquiredProvider cfg scope j (tn_reply (turns j)) seg
      (tn_during (turns j) st1) = (y, seg2, st2)" by (metis surjective_pairing)
  have hit: "y = Inr r' \<Longrightarrow> seg2 = seg \<and> tn_reply (turns j) = Got r'" for r'
    using f by (auto simp: fetchFromAcquiredProvider_def split: reply430.splits)
  from Cons.prems a f hit acquire_allowed [of cfg _ _ scope j] show ?case
    using Cons.IH by (cases "missing_at seg cfg j"; cases b; cases y) (fastforce split: if_splits)+
qed simp

lemma fetch_run_hit:
  "fetch_run cfg scope policy passes k seg st res \<Longrightarrow> fst res = Fetched i r \<Longrightarrow>
     i < length (providers cfg) \<and> allowed cfg scope i \<and> \<not> missing_at (fst (snd res)) cfg i \<and>
     (\<exists>n. tn_reply (ps_turns (passes n) i) = Got r \<or> ps_reply (passes n) = Got r)"
proof (induction rule: fetch_run.induct)
  case (run_hit k seg st j r' e seg1 st1)
  then show ?case using fetch_loop_hit [OF run_hit(2)] by auto
next
  case (run_wait_hit k seg st seg1 st1 j st2 r' seg2 st3)
  then have "seg2 = seg1" "ps_reply (passes k) = Got r'"
    by (auto simp: fetchFromAcquiredProvider_def split: reply430.splits)
  with run_wait_hit waitForFetch_member [OF run_wait_hit(5)] show ?case by auto
qed auto

text \<open>A fetched article comes from a provider that may serve the scope and is not recorded as
  missing it, and it is what that provider returned (in its turn, or after the wait).\<close>

theorem fetched_from_eligible_provider:
  assumes "fetch cfg scope policy passes k seg st = (Fetched i r, seg', st')"
  shows "i \<in> set (eligibleProviders cfg scope) \<and> \<not> missing_at seg' cfg i \<and>
    (\<exists>n. tn_reply (ps_turns (passes n) i) = Got r \<or> ps_reply (passes n) = Got r)"
  using fetch_run_hit [OF fetch_run, of cfg scope policy passes k seg st i r] assms
  by (auto simp: eligibleProviders_def)

definition failover1 :: "nat \<Rightarrow> nat pass" where
  "failover1 _ = pass1 (\<lambda>i. if i = 0 then Missing430 else Got 42)"

lemma fetch2: "fst (fetch config1 ''downloader'' CapacityReturnBusy failover1 0 segment1 zero_state) = Fetched 1 42"
  by code_simp

theorem fetched_from_eligible_provider_witness:
  "1 \<in> set (eligibleProviders config1 ''downloader'')"
proof -
  obtain seg' st' where "fetch config1 ''downloader'' CapacityReturnBusy failover1 0 segment1 zero_state =
      (Fetched 1 42, seg', st')" using fetch2 by (metis surjective_pairing)
  from fetched_from_eligible_provider [OF this] show ?thesis by blast
qed

section \<open>Connections\<close>

text \<open>A fetch that does not return a reader gives back every connection it took; a fetch that
  returns one keeps exactly one connection, of the provider it names, and closing the reader (once
  or more often) gives it back. Stated for a fetch that no other goroutine interferes with, waits
  and repetitions included.\<close>

theorem fetch_returns_its_connections:
  assumes "fetch cfg scope policy passes k seg st = (x, seg', st')" and "\<forall>k. alone (passes k)"
  shows "case x of
      Fetched i r \<Rightarrow>
        sem st i < capacity_of cfg i \<and> sem st' = (sem st)(i := Suc (sem st i)) \<and>
        (let (rd1, st1) = Close_reader (reader_of scope i r) st'; (rd2, st2) = Close_reader rd1 st1
         in sem st1 = sem st \<and> st2 = st1)
    | _ \<Rightarrow> sem st' = sem st"
proof -
  have t: "takes cfg (fetched x) st st'"
    using takes_fetch_run [OF fetch_run assms(2), of cfg scope policy k seg st] assms(1) by simp
  show ?thesis
  proof (cases x)
    case (Fetched i r)
    with t have "sem (releaseForScope scope i st') = sem st"
      using permits.taken_then_given [of st' st "(scope, i)"] by (simp add: takes_def)
    with Fetched t show ?thesis
      by (simp add: takes_def Close_reader_def reader_of_def del: sem_release)
  qed (use t in simp_all)
qed

theorem fetch_returns_its_connections_witness:
  "sem (snd (snd (fetch config1 ''downloader'' CapacityReturnBusy failover1 0 segment1 zero_state))) 1 = 1"
proof -
  obtain seg' st' where f: "fetch config1 ''downloader'' CapacityReturnBusy failover1 0 segment1 zero_state =
      (Fetched 1 42, seg', st')" using fetch2 by (metis surjective_pairing)
  have "sem zero_state = (\<lambda>_. 0)" by (simp add: zero_state_def)
  with fetch_returns_its_connections [OF f] fetch1_alone f show ?thesis
    by (simp add: failover1_def)
qed

section \<open>A fetch ends\<close>

lemma fetch_run_passes:
  "fetch_run cfg scope policy passes k seg st res \<Longrightarrow>
     (\<forall>j. k \<le> j \<and> j \<le> k + unasked cfg seg \<longrightarrow> passes' j = passes j) \<Longrightarrow>
     fetch cfg scope policy passes' k seg st = res"
proof (induction rule: fetch_run.induct)
  case (run_again k seg st seg1 st1 i st2 e seg2 st3 res)
  have "unasked cfg seg2 < unasked cfg seg"
    by (rule fetch_decreases [where during = "ps_during (passes k)", OF run_again(2,5,6,7)])
  then have "fetch cfg scope policy passes' (Suc k) seg2 st3 = res"
    using run_again by auto
  moreover have "passes' k = passes k" using run_again by simp
  ultimately show ?case using run_again
    by (subst fetch.simps) (auto simp: Let_def all_missing_def)
qed (subst fetch.simps; auto simp: Let_def all_missing_def fetchFromAcquiredProvider_def split: reply430.splits)+

text \<open>A fetch goes through the list of providers at most once more than there are providers not yet
  recorded as missing the article: it does not look at later passes. With the policy that does not
  wait it always ends, and it is still waiting only if a wait for a connection has not ended.\<close>

theorem fetch_passes_bounded:
  assumes "\<forall>j\<le>length (providers cfg). passes' j = passes j"
  shows "fetch cfg scope policy passes' 0 seg st = fetch cfg scope policy passes 0 seg st \<and>
    (policy \<noteq> CapacityWaitQueue \<longrightarrow> fst (fetch cfg scope policy passes 0 seg st) \<noteq> StillWaiting)"
proof (intro conjI impI)
  have r: "fetch_run cfg scope policy passes 0 seg st (fetch cfg scope policy passes 0 seg st)"
    by (rule fetch_run)
  have "unasked cfg seg \<le> card {..<length (providers cfg)}"
    unfolding unasked_def by (rule card_mono) auto
  with assms show "fetch cfg scope policy passes' 0 seg st = fetch cfg scope policy passes 0 seg st"
    by (intro fetch_run_passes [OF r]) auto
  have "fetch_run cfg scope policy passes k seg st res \<Longrightarrow> policy \<noteq> CapacityWaitQueue \<Longrightarrow>
      fst res \<noteq> StillWaiting" for k seg st res
    by (induction rule: fetch_run.induct) auto
  with r show "policy \<noteq> CapacityWaitQueue \<Longrightarrow> fst (fetch cfg scope policy passes 0 seg st) \<noteq> StillWaiting"
    by blast
qed

theorem fetch_passes_bounded_witness:
  "fst (fetch config1 ''downloader'' CapacityReturnBusy failover1 0 segment1 zero_state) \<noteq> StillWaiting"
proof -
  have "CapacityReturnBusy \<noteq> CapacityWaitQueue" by code_simp
  then show ?thesis
    using fetch_passes_bounded [of config1 failover1 failover1 "''downloader''" CapacityReturnBusy] by blast
qed



section \<open>The order of the providers\<close>

definition saturated :: "nntp_config \<Rightarrow> nntp_state \<Rightarrow> string \<Rightarrow> nat list \<Rightarrow> nat \<Rightarrow> bool" where
  "saturated cfg st scope ps i \<longleftrightarrow> allowed cfg scope i \<and> providerAtHeadroom cfg st i \<and>
     (\<exists>j\<in>set ps. j \<noteq> i \<and> allowed cfg scope j \<and> sem st j < capacity_of cfg j)"

lemma sorted_wrt_split:
  "sorted_wrt (\<lambda>a b. \<not> P a \<longrightarrow> \<not> P b) (filter P xs @ filter (\<lambda>x. \<not> P x) xs)"
  by (auto simp: sorted_wrt_append intro: sorted_wrt_mono_rel [OF _ sorted_wrt_true])

lemma two_eligible: "saturated cfg st scope ps i \<Longrightarrow> i \<in> set ps \<Longrightarrow> distinct ps \<Longrightarrow>
    2 \<le> length (filter (allowed cfg scope) ps)"
proof -
  assume s: "saturated cfg st scope ps i" and i: "i \<in> set ps" and d: "distinct ps"
  then obtain j where j: "j \<in> set ps" "j \<noteq> i" "allowed cfg scope j" by (auto simp: saturated_def)
  have "card {i, j} \<le> card (set (filter (allowed cfg scope) ps))"
    using s i j by (intro card_mono) (auto simp: saturated_def)
  with j(2) show ?thesis using card_length [of "filter (allowed cfg scope) ps"] by simp
qed

text \<open>The order in which the providers are tried is a permutation of the list. For every scope but
  the recovery scope, a provider that is at its headroom limit while another eligible provider has
  a free connection never comes before one that is not; within the two groups the order is kept.
  For the recovery scope the providers are sorted by utilization, then priority.\<close>

theorem acquire_order_correct:
  assumes "distinct ps" and "qs = providerAcquireOrder cfg st scope ps"
  shows "mset qs = mset ps \<and>
    (normalizeScope scope \<noteq> ''recover_yenc'' \<longrightarrow>
       sorted_wrt (\<lambda>a b. saturated cfg st scope ps a \<longrightarrow> saturated cfg st scope ps b) qs \<and>
       filter (saturated cfg st scope ps) qs = filter (saturated cfg st scope ps) ps) \<and>
    (normalizeScope scope = ''recover_yenc'' \<and> 2 \<le> length (filter (allowed cfg scope) ps) \<longrightarrow>
       sorted (map (\<lambda>i. (providerUtilizationBasisPoints cfg st i, mp_Priority (providers cfg ! i))) qs))"
proof -
  let ?el = "filter (allowed cfg scope) ps"
  let ?P = "\<lambda>i. \<not> allowed cfg scope i \<or> \<not> providerAtHeadroom cfg st i \<or> \<not> providerHasIdlePeer cfg st i ?el"
  have P: "?P i \<longleftrightarrow> \<not> saturated cfg st scope ps i" for i
    by (auto simp: saturated_def providerHasIdlePeer_def list_ex_iff)
  have none: "\<not> saturated cfg st scope ps i" if "length ?el < 2" "i \<in> set ps" for i
    using two_eligible [of cfg st scope ps i] assms(1) that by auto
  have short: "length ps < 2 \<Longrightarrow> length ?el < 2"
    by (rule le_less_trans [OF length_filter_le])
  show ?thesis
  proof (cases "length ps < 2 \<or> length ?el < 2")
    case True
    then have "qs = ps" "length ?el < 2" using assms(2) short by (auto simp: providerAcquireOrder_def)
    with none show ?thesis
      by (auto intro!: sorted_wrt_mono_rel [OF _ sorted_wrt_true])
  next
    case big: False
    show ?thesis
    proof (cases "normalizeScope scope = ''recover_yenc''")
      case True
      with big assms(2) show ?thesis by (simp add: providerAcquireOrder_def)
    next
      case False
      with big assms(2) have qs: "qs = filter (\<lambda>i. \<not> saturated cfg st scope ps i) ps @ filter (saturated cfg st scope ps) ps"
        unfolding providerAcquireOrder_def Let_def P by simp
      have "sorted_wrt (\<lambda>a b. saturated cfg st scope ps a \<longrightarrow> saturated cfg st scope ps b) qs"
        using sorted_wrt_split [of "\<lambda>i. \<not> saturated cfg st scope ps i" ps] by (simp add: qs)
      moreover have "mset qs = mset ps" by (simp add: qs)
      moreover have "filter (saturated cfg st scope ps) qs = filter (saturated cfg st scope ps) ps"
        by (simp add: qs)
      ultimately show ?thesis using False by simp
    qed
  qed
qed

section \<open>The shares of the modules\<close>

lemma percent_bounds:
  assumes "0 < c" and "c < 2 ^ 50" and "0 < p" and "p \<le> 100"
  shows "1 \<le> percentOfCapacity c p \<and> percentOfCapacity c p \<le> c \<and>
    percentOfCapacity c p = max 1 (c * p div 100)"
proof -
  have le: "c * p \<le> c * 100" using assms by (intro mult_left_mono) auto
  have "c * 100 < 2 ^ 63" using assms(2) by simp
  with le have "c * p < 2 ^ 63" by linarith
  moreover have "0 \<le> c * p" using assms by simp
  ultimately have "0 \<le> c * p" "c * p < 2 ^ 63" by simp_all
  then have i: "i64 (c * p) = c * p" by (intro i64_id) (simp add: in64_def)
  have "c * p div 100 \<le> c" using zdiv_mono1 [OF le, of 100] by simp
  with assms i show ?thesis
    by (auto simp: percentOfCapacity_def gdiv_nonneg Let_def)
qed

lemma percent_positive: "0 < c \<Longrightarrow> 0 < percentOfCapacity c p"
  by (simp add: percentOfCapacity_def Let_def)

text \<open>The limits of the two modules lie between one and the capacity. Without idle borrowing they
  add up to at most one more than the capacity, and to no more than the capacity when each share is
  at least one connection.\<close>

theorem module_limits_bounds:
  assumes "0 < TotalCapacity cfg" and "TotalCapacity cfg < 2 ^ 50"
    and "0 < IndexerMaxPercent (opts cfg)" and "IndexerMaxPercent (opts cfg) \<le> 100"
    and "l = moduleLimits cfg now st"
  shows "1 \<le> ml_indexer l \<and> ml_indexer l \<le> TotalCapacity cfg \<and>
    1 \<le> ml_downloader l \<and> ml_downloader l \<le> TotalCapacity cfg \<and>
    (\<not> IdleBorrowEnabled (opts cfg) \<longrightarrow>
       ml_indexer l + ml_downloader l \<le> TotalCapacity cfg + 1 \<and>
       (100 \<le> TotalCapacity cfg * IndexerMaxPercent (opts cfg) \<and>
        100 \<le> TotalCapacity cfg * (100 - IndexerMaxPercent (opts cfg)) \<longrightarrow>
        ml_indexer l + ml_downloader l \<le> TotalCapacity cfg))"
proof -
  let ?c = "TotalCapacity cfg" and ?p = "IndexerMaxPercent (opts cfg)"
  have ip: "1 \<le> percentOfCapacity ?c ?p" "percentOfCapacity ?c ?p \<le> ?c"
    "percentOfCapacity ?c ?p = max 1 (?c * ?p div 100)"
    using percent_bounds [OF assms(1-4)] by auto
  have dp: "percentOfCapacity ?c (i64 (100 - ?p)) = max 1 (?c * (100 - ?p) div 100)
      \<and> percentOfCapacity ?c (i64 (100 - ?p)) \<le> ?c"
  proof (cases "?p = 100")
    case True
    with assms(1) show ?thesis by (simp add: i64_def percentOfCapacity_def)
  next
    case False
    with assms(3,4) have q: "0 < 100 - ?p" "100 - ?p \<le> 100" by simp_all
    then have e: "i64 (100 - ?p) = 100 - ?p" by (intro i64_id) (simp add: in64_def)
    show ?thesis unfolding e using percent_bounds [OF assms(1,2) q] by blast
  qed
  have "?c * ?p + ?c * (100 - ?p) = ?c * 100" by (simp add: algebra_simps)
  then have sum: "?c * ?p div 100 + ?c * (100 - ?p) div 100 \<le> ?c" by linarith
  have nn: "0 \<le> ?c * ?p div 100" "0 \<le> ?c * (100 - ?p) div 100"
    using assms(1,3,4) by (simp_all add: pos_imp_zdiv_nonneg_iff)
  have one: "100 \<le> x \<Longrightarrow> 1 \<le> x div 100" for x :: int by simp
  have le1: "max 1 a + max 1 b \<le> ?c + 1" if "a + b \<le> ?c" "0 \<le> a" "0 \<le> b" "a \<le> ?c" "b \<le> ?c" for a b :: int
    using that assms(1) by (auto simp: max_def)
  have l: "ml_indexer l = (if \<not> IdleBorrowEnabled (opts cfg) \<or> downloaderDemandActive cfg now st
        then percentOfCapacity ?c ?p else ?c)"
    "ml_downloader l = (if IdleBorrowEnabled (opts cfg) then ?c else percentOfCapacity ?c (i64 (100 - ?p)))"
    using assms(1,5) percent_positive [OF assms(1), of "i64 (100 - ?p)"]
    by (auto simp: moduleLimits_def Let_def)
  have both: "percentOfCapacity ?c ?p + percentOfCapacity ?c (i64 (100 - ?p)) \<le> ?c + 1"
    unfolding ip(3) using dp le1 [OF sum nn] sum nn by linarith
  have exact: "percentOfCapacity ?c ?p + percentOfCapacity ?c (i64 (100 - ?p)) \<le> ?c"
    if "100 \<le> ?c * ?p" "100 \<le> ?c * (100 - ?p)"
    using ip(3) dp one [OF that(1)] one [OF that(2)] sum by (simp add: max_def)
  show ?thesis
    using l ip(1,2) dp both exact assms(1) by auto
qed

definition config2 :: nntp_config where
  "config2 = newManagerWithProviders
     [\<lparr>mp_ID = ''a'', mp_Label = ''a'', mp_Priority = 0, mp_cap = 2, mp_roles = normalizeProviderRoles []\<rparr>]
     \<lparr>CapacityPolicy = [], ModuleReservationsEnabled = True, IdleBorrowEnabled = False,
      IndexerMaxPercent = 50, DownloaderReservePercent = 0, DownloaderDemandWindow = 0\<rparr>"

lemma config2: "TotalCapacity config2 = 2" "IndexerMaxPercent (opts config2) = 50"
  by code_simp+

theorem module_limits_bounds_witness:
  "ml_indexer (moduleLimits config2 0 zero_state) \<le> 2"
  using module_limits_bounds [of config2 _ 0 zero_state, OF _ _ _ _ refl] by (simp add: config2)

text \<open>The configured downloader reserve has no influence on any decision: the limits are the same
  for every value of it.\<close>

theorem reserve_percent_unused:
  "moduleLimits (cfg\<lparr>opts := (opts cfg)\<lparr>DownloaderReservePercent := r\<rparr>\<rparr>) now st = moduleLimits cfg now st \<and>
   moduleCanAcquire (cfg\<lparr>opts := (opts cfg)\<lparr>DownloaderReservePercent := r\<rparr>\<rparr>) now module st =
     moduleCanAcquire cfg now module st"
proof -
  let ?cfg = "cfg\<lparr>opts := (opts cfg)\<lparr>DownloaderReservePercent := r\<rparr>\<rparr>"
  have c: "TotalCapacity ?cfg = TotalCapacity cfg" by (simp add: TotalCapacity_def)
  have p: "\<not> percentOfCapacity (TotalCapacity cfg) p \<le> 0" if "\<not> TotalCapacity cfg \<le> 0" for p
    using percent_positive [of "TotalCapacity cfg" p] that by simp
  have "moduleLimits ?cfg now st = moduleLimits cfg now st"
    by (cases "TotalCapacity cfg \<le> 0")
       (simp_all add: moduleLimits_def c downloaderDemandActive_def Let_def p)
  then show ?thesis by (simp add: moduleCanAcquire_def)
qed

section \<open>Many goroutines\<close>

text \<open>The manager shared by any number of goroutines: the state, the scopes of the goroutines that
  have passed the test of their module's share and have not yet tried to send, and the permits
  held, each with the scope it was taken for. \<open>same_permits\<close>: other accesses (counters, waiting)
  touch neither the semaphores nor the counts of held connections.\<close>

record nntp_system =
  nst :: nntp_state
  passed :: "string list"
  held :: "(string \<times> nat) list"

definition same_permits :: "nntp_state \<Rightarrow> nntp_state \<Rightarrow> bool" where
  "same_permits st st' \<longleftrightarrow> sem st' = sem st \<and> indexerActive st' = indexerActive st \<and>
     downloaderActive st' = downloaderActive st"

inductive nntp_step :: "nntp_config \<Rightarrow> nntp_system \<Rightarrow> nntp_system \<Rightarrow> bool" for cfg where
  nntp_test: "may_send cfg now scope i (nst s) = (b, st') \<Longrightarrow>
     nntp_step cfg s (s\<lparr>nst := st', passed := (if b then scope # passed s else passed s)\<rparr>)"
| nntp_send: "scope \<in> set (passed s) \<Longrightarrow> allowed cfg scope i \<Longrightarrow> i < length (providers cfg) \<Longrightarrow>
     try_send cfg scope i (nst s) = (b, st') \<Longrightarrow>
     nntp_step cfg s (s\<lparr>nst := st', passed := (if b then remove1 scope (passed s) else passed s),
       held := (if b then (scope, i) # held s else held s)\<rparr>)"
| nntp_give_up: "nntp_step cfg s (s\<lparr>passed := remove1 scope (passed s)\<rparr>)"
| nntp_release: "(scope, i) \<in> set (held s) \<Longrightarrow>
     nntp_step cfg s (s\<lparr>nst := releaseForScope scope i (nst s), held := remove1 (scope, i) (held s)\<rparr>)"
| nntp_other: "same_permits (nst s) st' \<Longrightarrow> nntp_step cfg s (s\<lparr>nst := st'\<rparr>)"

inductive nntp_reachable :: "nntp_config \<Rightarrow> nntp_system \<Rightarrow> bool" for cfg where
  nntp_start: "nntp_reachable cfg \<lparr>nst = zero_state, passed = [], held = []\<rparr>"
| nntp_next: "nntp_reachable cfg s \<Longrightarrow> nntp_step cfg s t \<Longrightarrow> nntp_reachable cfg t"

definition held_by :: "(string \<Rightarrow> bool) \<Rightarrow> (string \<times> nat) list \<Rightarrow> nat" where
  "held_by M hs = length (filter (\<lambda>(scope, i). M scope) hs)"

definition held_at :: "nat \<Rightarrow> (string \<times> nat) list \<Rightarrow> nat" where
  "held_at p hs = length (filter (\<lambda>(scope, i). i = p) hs)"

abbreviation is_downloader :: "string \<Rightarrow> bool" where
  "is_downloader scope \<equiv> moduleForScope scope = ''downloader''"

definition accounted :: "nntp_config \<Rightarrow> nntp_system \<Rightarrow> bool" where
  "accounted cfg s \<longleftrightarrow> (\<forall>i. sem (nst s) i = held_at i (held s)) \<and> sends.within cfg (nst s) \<and>
     downloaderActive (nst s) = int (held_by is_downloader (held s)) \<and>
     indexerActive (nst s) = int (held_by (\<lambda>sc. \<not> is_downloader sc) (held s))"

lemma active_recordActive:
  "downloaderActive (recordActive scope module d st) =
     downloaderActive st + (if module = ''downloader'' then d else 0)"
  "indexerActive (recordActive scope module d st) =
     indexerActive st + (if module = ''downloader'' then 0 else d)"
  by (simp_all add: recordActive_def scopeStats_def Let_def)

lemma count_remove1:
  "x \<in> set xs \<Longrightarrow> length (filter P xs) = length (filter P (remove1 x xs)) + (if P x then 1 else 0)"
  by (induction xs) auto

lemma within_cong: "sem st' = sem st \<Longrightarrow> sends.within cfg st' = sends.within cfg st"
  by (simp add: sends.within_def)

lemma step_accounted: "nntp_step cfg s t \<Longrightarrow> accounted cfg s \<Longrightarrow> accounted cfg t"
proof (induction rule: nntp_step.induct)
  case (nntp_test now scope i s b st')
  then have "sem st' = sem (nst s)" "downloaderActive st' = downloaderActive (nst s)"
    "indexerActive st' = indexerActive (nst s)"
    by (auto simp: may_send_def Let_def recordDownloaderDemand_def split: if_splits)
  with nntp_test show ?case using within_cong [of st' "nst s"] by (simp add: accounted_def)
next
  case (nntp_send scope s i b st')
  show ?case
  proof (cases b)
    case True
    with nntp_send(4) have "sem st' = (sem (nst s))(i := Suc (sem (nst s) i))"
      and "downloaderActive st' = downloaderActive (nst s) + (if is_downloader scope then 1 else 0)"
      and "indexerActive st' = indexerActive (nst s) + (if is_downloader scope then 0 else 1)"
      by (auto simp: try_send_def active_recordActive split: if_splits)
    moreover have "sends.within cfg st'"
      using nntp_send sends.take_within [of cfg "nst s" "(scope, i)"] by (simp add: accounted_def)
    ultimately show ?thesis
      using nntp_send(5) True by (auto simp: accounted_def held_at_def held_by_def)
  next
    case False
    with nntp_send(4) have "st' = nst s" by (simp add: try_send_def split: if_splits)
    with nntp_send(5) False show ?thesis by (simp add: accounted_def)
  qed
next
  case (nntp_release scope i s)
  let ?st = "releaseForScope scope i (nst s)"
  have "sem ?st = (sem (nst s))(i := sem (nst s) i - 1)"
    and "downloaderActive ?st = downloaderActive (nst s) + (if is_downloader scope then - 1 else 0)"
    and "indexerActive ?st = indexerActive (nst s) + (if is_downloader scope then 0 else - 1)"
    by (simp_all add: releaseForScope_def active_recordActive)
  moreover have "sends.within cfg ?st"
    using nntp_release sends.give_within [of cfg "nst s" "(scope, i)"] by (simp add: accounted_def)
  ultimately show ?case
    using nntp_release(2) count_remove1 [OF nntp_release(1), of "\<lambda>(sc, j). j = p" for p]
      count_remove1 [OF nntp_release(1), of "\<lambda>(sc, j). is_downloader sc"]
      count_remove1 [OF nntp_release(1), of "\<lambda>(sc, j). \<not> is_downloader sc"]
    by (auto simp: accounted_def held_at_def held_by_def)
next
  case (nntp_other s st')
  then show ?case using within_cong [of st' "nst s"] by (simp add: accounted_def same_permits_def)
qed (simp add: accounted_def)

lemma reachable_accounted: "nntp_reachable cfg s \<Longrightarrow> accounted cfg s"
proof (induction rule: nntp_reachable.induct)
  case nntp_start
  then show ?case
    by (simp add: accounted_def held_at_def held_by_def zero_state_def sends.within_def)
next
  case (nntp_next s t)
  then show ?case by (blast intro: step_accounted)
qed

text \<open>However the goroutines interleave, a provider's semaphore counts exactly the permits held
  for it and never exceeds its number of connections, and the two activity counters count exactly
  the permits held by the downloader and by the indexer's scopes.\<close>

theorem permits_accounted:
  assumes "nntp_reachable cfg s"
  shows "(\<forall>i. sem (nst s) i = held_at i (held s) \<and> sem (nst s) i \<le> capacity_of cfg i) \<and>
    downloaderActive (nst s) = int (held_by is_downloader (held s)) \<and>
    indexerActive (nst s) = int (held_by (\<lambda>sc. \<not> is_downloader sc) (held s))"
  using reachable_accounted [OF assms] by (auto simp: accounted_def sends.within_def)

definition tested2 :: nntp_system where
  "tested2 = \<lparr>nst = zero_state, passed = [''scrape'', ''scrape''], held = []\<rparr>"

definition sent_once :: nntp_system where
  "sent_once = tested2\<lparr>nst := snd (try_send config2 ''scrape'' 0 zero_state), passed := [''scrape''],
     held := [(''scrape'', 0)]\<rparr>"

definition sent_twice :: nntp_system where
  "sent_twice = sent_once\<lparr>nst := snd (try_send config2 ''scrape'' 0 (nst sent_once)), passed := [],
     held := [(''scrape'', 0), (''scrape'', 0)]\<rparr>"

lemma sent_twice_reachable: "nntp_reachable config2 sent_twice"
proof -
  let ?s0 = "\<lparr>nst = zero_state, passed = [], held = []\<rparr>"
  have test: "may_send config2 0 ''scrape'' 0 zero_state = (True, zero_state)"
  proof -
    have "fst (may_send config2 0 ''scrape'' 0 zero_state)" "moduleForScope ''scrape'' \<noteq> ''downloader''"
      "allowed config2 ''scrape'' 0"
      by code_simp+
    then show ?thesis by (simp add: may_send_def Let_def)
  qed
  have "nntp_step config2 ?s0 (?s0\<lparr>nst := zero_state, passed := [''scrape'']\<rparr>)"
    using nntp_test [of config2 0 "''scrape''" 0 ?s0 True zero_state] test by simp
  then have "nntp_reachable config2 (?s0\<lparr>passed := [''scrape'']\<rparr>)"
    using nntp_next [OF nntp_start] by simp
  moreover have "nntp_step config2 (?s0\<lparr>passed := [''scrape'']\<rparr>) tested2"
    using nntp_test [of config2 0 "''scrape''" 0 "?s0\<lparr>passed := [''scrape'']\<rparr>" True zero_state] test
    by (simp add: tested2_def)
  ultimately have t: "nntp_reachable config2 tested2" by (rule nntp_next)
  have ok: "allowed config2 ''scrape'' 0" "0 < length (providers config2)" by code_simp+
  have s1: "fst (try_send config2 ''scrape'' 0 zero_state)" by code_simp
  then have "nntp_step config2 tested2 sent_once"
    using nntp_send [of "''scrape''" tested2 config2 0 True "snd (try_send config2 ''scrape'' 0 zero_state)"] ok
    by (simp add: tested2_def sent_once_def prod_eq_iff)
  with t have o: "nntp_reachable config2 sent_once" by (rule nntp_next)
  have "fst (try_send config2 ''scrape'' 0 (nst sent_once))" by code_simp
  then have "nntp_step config2 sent_once sent_twice"
    using nntp_send [of "''scrape''" sent_once config2 0 True "snd (try_send config2 ''scrape'' 0 (nst sent_once))"] ok
    by (simp add: sent_once_def sent_twice_def prod_eq_iff)
  with o show ?thesis by (rule nntp_next)
qed

theorem permits_accounted_witness:
  "indexerActive (nst sent_twice) = int (held_by (\<lambda>sc. \<not> is_downloader sc) (held sent_twice))"
  using permits_accounted [OF sent_twice_reachable] by blast

text \<open>Taken alone, an acquisition keeps its module within its share: after it the module holds no
  more connections than its limit (computed when the test was made).\<close>

theorem acquire_respects_share:
  assumes "acquire cfg now id scope i st = (True, st')" and "ModuleReservationsEnabled (opts cfg)"
  shows "(is_downloader scope \<longrightarrow>
      downloaderActive st' \<le> ml_downloader (moduleLimits cfg now (recordDownloaderDemand now st))) \<and>
    (\<not> is_downloader scope \<longrightarrow> indexerActive st' \<le> ml_indexer (moduleLimits cfg now st))"
  using assms
  by (auto simp: acquire_def may_send_def try_send_def moduleCanAcquire_def active_recordActive Let_def
      recordDownloaderDemand_def split: prod.splits bool.splits if_splits)

lemma acquire1: "fst (acquire config2 0 id ''scrape'' 0 zero_state)"
  by code_simp

lemma config2_reserves: "ModuleReservationsEnabled (opts config2)"
  by code_simp

theorem acquire_respects_share_witness:
  "is_downloader ''scrape'' \<or>
   indexerActive (snd (acquire config2 0 id ''scrape'' 0 zero_state)) \<le> ml_indexer (moduleLimits config2 0 zero_state)"
  using acquire_respects_share [OF _ config2_reserves, of 0 "''scrape''" 0 zero_state] acquire1
  by (metis surjective_pairing)

text \<open>The test of a module's share and the send are not one atomic step: two scraping goroutines
  that both pass the test before either sends hold two connections although the indexer's limit is
  one.\<close>

theorem share_can_be_exceeded:
  "nntp_reachable config2 sent_twice \<and> ModuleReservationsEnabled (opts config2) \<and>
   indexerActive (nst sent_twice) = 2 \<and> ml_indexer (moduleLimits config2 0 (nst sent_twice)) = 1"
proof (intro conjI)
  show "nntp_reachable config2 sent_twice" by (rule sent_twice_reachable)
  show "ModuleReservationsEnabled (opts config2)" by (rule config2_reserves)
  show "indexerActive (nst sent_twice) = 2" by code_simp
  show "ml_indexer (moduleLimits config2 0 (nst sent_twice)) = 1" by code_simp
qed

section \<open>Calls that hold a connection only while the provider answers\<close>

definition alone_op :: "'r op_input \<Rightarrow> bool" where
  "alone_op inp \<longleftrightarrow> list_all alone_tick (oi_ticks inp) \<and> oi_during inp = id \<and>
     (\<forall>i. op_before (oi_turns inp i) = id \<and> op_between (oi_turns inp i) = id \<and> op_during (oi_turns inp i) = id)"

lemma op_loop_sem:
  "op_loop cfg scope turns is e st = (x, e', st') \<Longrightarrow>
     (\<forall>i. op_before (turns i) = id \<and> op_between (turns i) = id \<and> op_during (turns i) = id) \<Longrightarrow>
     sem st' = sem st"
proof (induction "is" arbitrary: e st)
  case (Cons i "is")
  obtain b st1 where a: "acquire cfg (op_now (turns i)) id scope i st = (b, st1)" by fastforce
  have t: "takes cfg (if b then Some i else None) st st1" by (rule takes_acquire [OF a])
  have o: "op_before (turns i) = id" "op_between (turns i) = id" "op_during (turns i) = id"
    using Cons.prems(2) by blast+
  note run = Cons.prems(1) [unfolded op_loop.simps o id_apply a prod.case]
  show ?case
  proof (cases b)
    case False
    with run t Cons.IH [OF _ Cons.prems(2)] show ?thesis by simp
  next
    case True
    with t have "sem (releaseForScope scope i st1) = sem st" by (simp add: takes_release del: sem_release)
    with run True Cons.IH [OF _ Cons.prems(2)] show ?thesis
      by (auto simp: Let_def simp del: sem_release split: sum.splits)
  qed
qed simp

lemma run_op_sem:
  assumes "run_op cfg scope policy order inp st = (x, st')" and "alone_op inp"
  shows "sem st' = sem st"
proof (cases "oi_done inp")
  case False
  obtain a e st1 where l: "op_loop cfg scope (oi_turns inp) order None st = (a, e, st1)"
    by (metis surjective_pairing)
  have s1: "sem st1 = sem st" by (rule op_loop_sem [OF l]) (use assms(2) in \<open>simp add: alone_op_def\<close>)
  obtain y st2 where w: "waitForProvider cfg scope (oi_ticks inp) st1 = (y, st2)" by fastforce
  have t: "takes cfg (waited y) st1 st2"
    using w assms(2) unfolding waitForProvider_def by (intro takes_waitList) (auto simp: alone_op_def)
  have d: "oi_during inp = id" using assms(2) by (simp add: alone_op_def)
  have r: "y = Some (Inr i) \<Longrightarrow> sem (releaseForScope scope i st2) = sem st1" for i
    using t by (simp add: takes_release del: sem_release)
  from assms(1) False l w s1 t d r show ?thesis
    by (auto simp: run_op_def Let_def simp del: sem_release
        split: option.splits sum.splits if_splits prod.splits)
qed (use assms(1) in \<open>simp add: run_op_def\<close>)

text \<open>Listing groups, reading an article's beginning, reading a group's bounds and reading overview
  lines give back every connection they took, whatever the outcome.\<close>

theorem calls_return_their_connections:
  assumes "alone_op inp"
  shows "sem (snd (listGroupsForScope cfg scope policy inp st)) = sem st \<and>
    sem (snd (fetchBodyPrefixForScope cfg scope policy inp st)) = sem st \<and>
    sem (snd (groupStatsForScopeWithProvider cfg scope policy inp st)) = sem st \<and>
    sem (snd (xoverForScopeWithProvider cfg scope policy inp st)) = sem st"
  using run_op_sem [OF surjective_pairing assms]
  by (simp add: listGroupsForScope_def fetchBodyPrefixForScope_def groupStatsForScopeWithProvider_def
      xoverForScopeWithProvider_def Let_def)

definition op_input1 :: "nat op_input" where
  "op_input1 = \<lparr>oi_done = False,
     oi_turns = (\<lambda>i. \<lparr>op_now = 3, op_before = id, op_between = id, op_during = id, op_reply = Inr i\<rparr>),
     oi_ticks = [], oi_during = id, oi_reply = Inr 0\<rparr>"

lemma op_input1_alone: "alone_op op_input1"
  by (simp add: alone_op_def op_input1_def)

theorem calls_return_their_connections_witness:
  "sem (snd (xoverForScopeWithProvider config2 ''scrape'' CapacityReturnBusy op_input1 zero_state)) = sem zero_state"
  using calls_return_their_connections [OF op_input1_alone] by blast

definition order1 :: "nat list" where
  "order1 = providerAcquireOrder config2 zero_state ''scrape'' [0]"

theorem acquire_order_correct_witness: "mset order1 = {#0#}"
  using acquire_order_correct [of "[0]" order1 config2 zero_state "''scrape''"] by (simp add: order1_def)

end
