(* ===== verification/File_Writer.thy ===== *)
theory File_Writer
  imports Domain
begin

text \<open>
  The writer of the downloaded parts (\<open>internal/engine/file_writer.go\<close>): open handles by path,
  positioned writes, pre-allocation, closing with a final size. The disk maps a path to the bytes
  of its file. A file is not renamed or removed while its handle is open. The outcome of each
  system call enters as an argument: \<open>None\<close> for success.
\<close>

record file_writer =
  handles :: "string list"
  disk :: "string \<Rightarrow> byte list option"

datatype io_error = OpenError string | WriteError string | TruncateError string | CloseError string

definition NewFileWriter :: "(string \<Rightarrow> byte list option) \<Rightarrow> file_writer" where
  "NewFileWriter d = \<lparr>handles = [], disk = d\<rparr>"

text \<open>What \<open>pwrite\<close> and \<open>ftruncate\<close> do to the bytes of a file: holes are filled with zeros.\<close>

definition write_bytes :: "nat \<Rightarrow> byte list \<Rightarrow> byte list \<Rightarrow> byte list" where
  "write_bytes off d bs =
     (if d = [] then bs
      else (let b = bs @ replicate (off - length bs) 0
            in take off b @ d @ drop (off + length d) b))"

definition set_size :: "nat \<Rightarrow> byte list \<Rightarrow> byte list" where
  "set_size n bs = take n bs @ replicate (n - length bs) 0"

definition update_file :: "string \<Rightarrow> (byte list \<Rightarrow> byte list) \<Rightarrow> file_writer \<Rightarrow> file_writer" where
  "update_file path f fw =
     fw\<lparr>disk := (disk fw)(path := map_option f (disk fw path))\<rparr>"

definition getOrCreateFile :: "string \<Rightarrow> string option \<Rightarrow> file_writer \<Rightarrow> io_error option \<times> file_writer" where
  "getOrCreateFile path opened fw =
     (if path \<in> set (handles fw) then (None, fw)
      else (case opened of
              Some e \<Rightarrow> (Some (OpenError (''could not open final file: '' @ e)), fw)
            | None \<Rightarrow>
                (None, fw\<lparr>handles := path # handles fw,
                          disk := (disk fw)(path := Some (case disk fw path of None \<Rightarrow> [] | Some b \<Rightarrow> b))\<rparr>)))"

text \<open>\<open>File.WriteAt\<close> refuses a negative offset; a failing write may have written a beginning of the
  data: \<open>written = Some (k, e)\<close>.\<close>

definition WriteAt ::
  "string \<Rightarrow> byte list \<Rightarrow> int \<Rightarrow> string option \<Rightarrow> (nat \<times> string) option \<Rightarrow> file_writer
     \<Rightarrow> io_error option \<times> file_writer" where
  "WriteAt path data off opened written fw =
     (case getOrCreateFile path opened fw of
        (Some e, fw1) \<Rightarrow> (Some e, fw1)
      | (None, fw1) \<Rightarrow>
          (if off < 0 then (Some (WriteError ''negative offset''), fw1)
           else (case written of
                   None \<Rightarrow> (None, update_file path (write_bytes (nat off) data) fw1)
                 | Some (k, e) \<Rightarrow>
                     (Some (WriteError e), update_file path (write_bytes (nat off) (take k data)) fw1))))"

definition PreAllocate ::
  "string \<Rightarrow> int \<Rightarrow> string option \<Rightarrow> string option \<Rightarrow> file_writer \<Rightarrow> io_error option \<times> file_writer" where
  "PreAllocate path sz opened truncated fw =
     (case getOrCreateFile path opened fw of
        (Some e, fw1) \<Rightarrow> (Some e, fw1)
      | (None, fw1) \<Rightarrow>
          (if sz < 0 then (Some (TruncateError ''invalid argument''), fw1)
           else (case truncated of
                   Some e \<Rightarrow> (Some (TruncateError e), fw1)
                 | None \<Rightarrow> (None, update_file path (set_size (nat sz)) fw1))))"

definition CloseFile ::
  "string \<Rightarrow> int \<Rightarrow> string option \<Rightarrow> string option \<Rightarrow> file_writer \<Rightarrow> io_error option \<times> file_writer" where
  "CloseFile path finalSize truncated closed fw =
     (if path \<notin> set (handles fw) then (None, fw)
      else
        (let fw1 = fw\<lparr>handles := filter (\<lambda>p. p \<noteq> path) (handles fw)\<rparr>
         in if finalSize > 0 \<and> truncated \<noteq> None
            then (Some (TruncateError (''failed to truncate to final size: '' @ the truncated)), fw1)
            else
              (let fw2 = (if finalSize > 0 then update_file path (set_size (nat finalSize)) fw1 else fw1)
               in (map_option CloseError closed, fw2))))"

definition CloseAll :: "file_writer \<Rightarrow> file_writer" where
  "CloseAll fw = fold (\<lambda>path w. snd (CloseFile path 0 None None w)) (handles fw) fw"

section \<open>Positioned writes\<close>

text \<open>A store that is written at positions. Writes that all agree with one intended content may come
  in any order and may be repeated: what they cover ends up with the intended content.\<close>

locale positional_store =
  fixes put :: "nat \<Rightarrow> 'b list \<Rightarrow> 'f \<Rightarrow> 'f"
    and look :: "'f \<Rightarrow> nat \<Rightarrow> 'b option"
  assumes put_hit: "off \<le> k \<Longrightarrow> k < off + length d \<Longrightarrow> look (put off d f) k = Some (d ! (k - off))"
    and put_keep: "\<not> (off \<le> k \<and> k < off + length d) \<Longrightarrow> look f k = Some b \<Longrightarrow> look (put off d f) k = Some b"
begin

definition agrees_with :: "'b list \<Rightarrow> nat \<times> 'b list \<Rightarrow> bool" where
  "agrees_with whole w \<longleftrightarrow>
     (\<forall>j<length (snd w). fst w + j < length whole \<and> snd w ! j = whole ! (fst w + j))"

definition covers :: "nat \<times> 'b list \<Rightarrow> nat \<Rightarrow> bool" where
  "covers w k \<longleftrightarrow> fst w \<le> k \<and> k < fst w + length (snd w)"

lemma write_step:
  assumes "agrees_with whole w" and "covers w k \<or> look f k = Some (whole ! k)"
  shows "look (put (fst w) (snd w) f) k = Some (whole ! k)"
proof (cases "covers w k")
  case True
  then have k: "fst w \<le> k" "k < fst w + length (snd w)" by (simp_all add: covers_def)
  then have "k - fst w < length (snd w)" by simp
  with assms(1) k have "snd w ! (k - fst w) = whole ! k" by (fastforce simp: agrees_with_def)
  with put_hit [OF k] show ?thesis by simp
next
  case False
  with assms(2) have f: "look f k = Some (whole ! k)" by simp
  from False have "\<not> (fst w \<le> k \<and> k < fst w + length (snd w))" by (simp add: covers_def)
  from put_keep [OF this f] show ?thesis .
qed

lemma writes_cover:
  "\<forall>w\<in>set ws. agrees_with whole w \<Longrightarrow> (\<exists>w\<in>set ws. covers w k) \<or> look f k = Some (whole ! k) \<Longrightarrow>
     look (fold (\<lambda>w. put (fst w) (snd w)) ws f) k = Some (whole ! k)"
proof (induction ws arbitrary: f)
  case (Cons w ws)
  then show ?case
    using write_step [of whole w k f] by auto
qed simp

end

definition look_bytes :: "byte list \<Rightarrow> nat \<Rightarrow> byte option" where
  "look_bytes bs k = (if k < length bs then Some (bs ! k) else None)"

lemma length_write_bytes:
  "length (write_bytes off d bs) = (if d = [] then length bs else max (length bs) (off + length d))"
  by (auto simp: write_bytes_def Let_def)

lemma nth_write_bytes:
  assumes "d \<noteq> []" and "k < max (length bs) (off + length d)"
  shows "write_bytes off d bs ! k =
    (if off \<le> k \<and> k < off + length d then d ! (k - off) else if k < length bs then bs ! k else 0)"
proof -
  define b where "b = bs @ replicate (off - length bs) (0::byte)"
  have l: "off \<le> length b" "length b = max (length bs) off" by (auto simp: b_def)
  have w: "write_bytes off d bs = take off b @ d @ drop (off + length d) b"
    using assms(1) by (simp add: write_bytes_def Let_def b_def)
  have n: "b ! k = (if k < length bs then bs ! k else 0)" if "k < length b"
    using that by (auto simp: b_def nth_append)
  consider "k < off" | "off \<le> k" "k < off + length d" | "off + length d \<le> k" by linarith
  then show ?thesis
  proof cases
    case 1
    with l n show ?thesis by (simp add: w nth_append)
  next
    case 2
    moreover from this have "k - off < length d" by simp
    ultimately show ?thesis using l by (simp add: w nth_append)
  next
    case 3
    then have "\<not> k - off < length d" "off + length d + (k - off - length d) = k" by simp_all
    moreover have "k < length bs" "length b = length bs" using 3 assms(2) l by auto
    ultimately show ?thesis using 3 l n by (simp add: w nth_append)
  qed
qed

interpretation bytes: positional_store write_bytes look_bytes
proof unfold_locales
  fix off k :: nat and d f :: "byte list" and b
  show "off \<le> k \<Longrightarrow> k < off + length d \<Longrightarrow> look_bytes (write_bytes off d f) k = Some (d ! (k - off))"
    by (cases "d = []") (simp_all add: look_bytes_def length_write_bytes nth_write_bytes)
  show "\<not> (off \<le> k \<and> k < off + length d) \<Longrightarrow> look_bytes f k = Some b \<Longrightarrow>
      look_bytes (write_bytes off d f) k = Some b"
    by (cases "d = []")
       (auto simp: look_bytes_def length_write_bytes nth_write_bytes write_bytes_def [of off "[]"]
          split: if_splits)
qed

text \<open>The parts of a file at their offsets.\<close>

fun layout :: "nat \<Rightarrow> byte list list \<Rightarrow> (nat \<times> byte list) list" where
  "layout off [] = []"
| "layout off (p # ps) = (off, p) # layout (off + length p) ps"

lemma layout_agrees:
  "w \<in> set (layout (length pre) ps) \<Longrightarrow> bytes.agrees_with (pre @ concat ps) w"
proof (induction "length pre" ps arbitrary: pre rule: layout.induct)
  case (2 p ps)
  show ?case
  proof (cases "w = (length pre, p)")
    case True
    then show ?thesis by (auto simp: bytes.agrees_with_def nth_append)
  next
    case False
    with 2(2) have "w \<in> set (layout (length (pre @ p)) ps)" by simp
    with 2(1) [of "pre @ p"] show ?thesis by simp
  qed
qed simp

lemma layout_covers:
  "off \<le> k \<Longrightarrow> k < off + length (concat ps) \<Longrightarrow> \<exists>w\<in>set (layout off ps). bytes.covers w k"
proof (induction off ps rule: layout.induct)
  case (2 off p ps)
  show ?case
  proof (cases "k < off + length p")
    case True
    with 2(2) show ?thesis by (simp add: bytes.covers_def)
  next
    case False
    with 2 show ?thesis by simp
  qed
qed simp

lemma writes_reach:
  assumes "set ws = set (layout 0 ps)"
  shows "k < length (concat ps) \<Longrightarrow> look_bytes (fold (\<lambda>w. write_bytes (fst w) (snd w)) ws f) k = Some (concat ps ! k)"
    and "length (concat ps) \<le> length (fold (\<lambda>w. write_bytes (fst w) (snd w)) ws f)"
proof -
  let ?g = "fold (\<lambda>w. write_bytes (fst w) (snd w)) ws f"
  show k: "look_bytes ?g k = Some (concat ps ! k)" if "k < length (concat ps)" for k
    using that layout_agrees [of _ "[]" ps] layout_covers [of 0 k ps] assms
    by (intro bytes.writes_cover) auto
  show "length (concat ps) \<le> length ?g"
  proof (rule ccontr)
    assume "\<not> length (concat ps) \<le> length ?g"
    then have "length ?g < length (concat ps)" by simp
    from k [OF this] show False by (simp add: look_bytes_def)
  qed
qed

lemma writes_assemble:
  assumes "set ws = set (layout 0 ps)"
  shows "set_size (length (concat ps)) (fold (\<lambda>w. write_bytes (fst w) (snd w)) ws f) = concat ps"
proof -
  let ?g = "fold (\<lambda>w. write_bytes (fst w) (snd w)) ws f"
  have "?g ! k = concat ps ! k" if "k < length (concat ps)" for k
    using writes_reach(1) [OF assms that, of f] by (simp add: look_bytes_def split: if_splits)
  then have "take (length (concat ps)) ?g = concat ps"
    using writes_reach(2) [OF assms, of f] by (intro nth_equalityI) auto
  with writes_reach(2) [OF assms, of f] show ?thesis by (simp add: set_size_def)
qed

end
