(* ===== verification/Worker.thy ===== *)
theory Worker
  imports Yenc File_Writer "HOL-Library.Multiset"
begin

text \<open>
  The download of one item (\<open>internal/engine/worker.go\<close>, \<open>internal/engine/downloader.go\<close>): the jobs
  of a task list, the processing of one segment (fetch, decode, verify, write), the pool of workers
  with its channels, retries and result counting, and what \<open>Download\<close> does before and after. A
  cancelled pool returns at once with the context's error; the steps below are those of a pool
  that is not cancelled.
\<close>


section \<open>Jobs\<close>

text \<open>\<open>dj_File\<close> is the position of the job's file among the item's tasks.\<close>

record download_job =
  dj_Segment :: segment
  dj_File :: nat
  dj_Groups :: "string list"
  dj_Offset :: int
  dj_RetryCount :: int

fun dispatch_file :: "nat \<Rightarrow> string list \<Rightarrow> int \<Rightarrow> segment list \<Rightarrow> download_job list" where
  "dispatch_file k groups off [] = []"
| "dispatch_file k groups off (seg # segs) =
     \<lparr>dj_Segment = seg, dj_File = k, dj_Groups = groups, dj_Offset = off, dj_RetryCount = 0\<rparr>
       # dispatch_file k groups (i64 (off + seg_Bytes seg)) segs"

fun dispatchJobs :: "nat \<Rightarrow> download_file list \<Rightarrow> download_job list" where
  "dispatchJobs k [] = []"
| "dispatchJobs k (task # tasks) =
     (if df_IsComplete task then dispatchJobs (Suc k) tasks
      else dispatch_file k (df_Groups task) 0 (df_Segments task) @ dispatchJobs (Suc k) tasks)"

definition totalSegments :: "download_file list \<Rightarrow> nat" where
  "totalSegments tasks = fold (\<lambda>f n. if df_IsComplete f then n else n + length (df_Segments f)) tasks 0"

section \<open>One segment\<close>

text \<open>What the NNTP manager returned: an error (busy or not), no reader, or a reader over the article;
  and the segment, in which the manager has recorded the providers that miss it.\<close>

datatype seg_reply = FetchErr bool string | FetchNil | FetchGot breader

record seg_io =
  io_fetch :: seg_reply
  io_missing :: "string list"
  io_opened :: "string option"
  io_written :: "(nat \<times> string) option"

datatype seg_error =
  FetchFailed bool string
| NilReader string
| HeaderFailed read_err
| NegativeLength
| ReadFailed read_err
| IntegrityFailed "32 word" "32 word"
| WriteFailed io_error

text \<open>\<open>errors.Is(err, nntp.ErrProviderBusy)\<close>.\<close>

fun is_busy :: "seg_error \<Rightarrow> bool" where
  "is_busy (FetchFailed busy e) = busy"
| "is_busy e = False"

definition set_actual :: "nat \<Rightarrow> int \<Rightarrow> queue_item \<Rightarrow> queue_item" where
  "set_actual k n item = item\<lparr>qi_Tasks := (qi_Tasks item)[k := SetActualSize n (qi_Tasks item ! k)]\<rparr>"

definition note_size :: "download_job \<Rightarrow> yenc_header \<Rightarrow> queue_item \<Rightarrow> queue_item" where
  "note_size job h item = (if FileSize h > 0 then set_actual (dj_File job) (FileSize h) item else item)"

definition write_offset :: "download_job \<Rightarrow> yenc_header \<Rightarrow> int" where
  "write_offset job h = (if PartOffset h = 0 \<and> dj_Offset job \<noteq> 0 then dj_Offset job else PartOffset h)"

text \<open>\<open>NegativeLength\<close> is the run-time panic of \<open>make\<close>. Closing the reader gives the connection back to
  the manager and is part of its model.\<close>

definition processSegment ::
  "seg_io \<Rightarrow> queue_item \<Rightarrow> file_writer \<Rightarrow> download_job
     \<Rightarrow> seg_error option \<times> queue_item \<times> file_writer \<times> download_job" where
  "processSegment io item fw job0 =
     (let job = job0\<lparr>dj_Segment := (dj_Segment job0)\<lparr>seg_MissingFrom := io_missing io\<rparr>\<rparr> in
      case io_fetch io of
        FetchErr busy e \<Rightarrow> (Some (FetchFailed busy (''fetch failed: '' @ e)), item, fw, job)
      | FetchNil \<Rightarrow> (Some (NilReader (seg_MessageID (dj_Segment job))), item, fw, job)
      | FetchGot rd \<Rightarrow>
          (case DiscardHeader (NewYencDecoder rd) of
             (Some e, d) \<Rightarrow> (Some (HeaderFailed e), item, fw, job)
           | (None, d) \<Rightarrow>
               (let item1 = note_size job (header d) item
                in if seg_Bytes (dj_Segment job) < 0 then (Some NegativeLength, item1, fw, job)
                   else
                     (case ReadFull (nat (seg_Bytes (dj_Segment job))) d of
                        (data, e, d1) \<Rightarrow>
                          if e \<notin> {None, Some EOF, Some UnexpectedEOF}
                          then (Some (ReadFailed (the e)), item1, fw, job)
                          else
                            (case Verify d1 of
                               Some (expected, got) \<Rightarrow> (Some (IntegrityFailed expected got), item1, fw, job)
                             | None \<Rightarrow>
                                 (if data = [] then (None, item1, fw, job)
                                  else
                                    (case WriteAt (df_PartPath (qi_Tasks item1 ! dj_File job)) data
                                            (write_offset job (header d))
                                            (io_opened io) (io_written io) fw of
                                       (Some x, fw1) \<Rightarrow> (Some (WriteFailed x), item1, fw1, job)
                                     | (None, fw1) \<Rightarrow>
                                         (None, AddBytes (int (length data)) item1, fw1, job))))))))"

section \<open>The pool\<close>

text \<open>The dispatcher, the workers and the collector. \<open>jobs\<close> and \<open>results\<close> are the two channels,
  \<open>todo\<close> what the dispatcher has still to send, \<open>working\<close> what workers have taken, \<open>delayed\<close> what
  sleeping goroutines will send back. \<open>finished\<close> is a history variable: the counted results.\<close>

record pool =
  todo :: "download_job list"
  jobs :: "download_job list"
  working :: "download_job list"
  results :: "(download_job \<times> seg_error option) list"
  delayed :: "download_job list"
  completedCount :: nat
  finalErr :: bool
  p_item :: queue_item
  p_writer :: file_writer
  finished :: "(download_job \<times> seg_error option) list"

definition collect_result :: "download_job \<times> seg_error option \<Rightarrow> pool \<Rightarrow> pool" where
  "collect_result r p =
     (case r of (job, err) \<Rightarrow>
        (case err of
           None \<Rightarrow> p\<lparr>completedCount := Suc (completedCount p), finished := r # finished p\<rparr>
         | Some e \<Rightarrow>
             (if is_busy e then p\<lparr>delayed := job # delayed p\<rparr>
              else if dj_RetryCount job < 3
              then p\<lparr>delayed := job\<lparr>dj_RetryCount := dj_RetryCount job + 1\<rparr> # delayed p\<rparr>
              else p\<lparr>finalErr := True, completedCount := Suc (completedCount p),
                     finished := r # finished p\<rparr>)))"

definition bufferSize :: "nat \<Rightarrow> nat" where
  "bufferSize capacity = (capacity + 2) * 2"

text \<open>\<open>capacity\<close> is the total number of connections; there are two more workers. The steps of
  \<open>processSegment\<close> on the shared item and writer are atomic operations on different parts of them,
  taken as one step here.\<close>

inductive pool_step :: "nat \<Rightarrow> pool \<Rightarrow> pool \<Rightarrow> bool" for capacity where
  pool_dispatch: "todo p = j # js \<Longrightarrow> length (jobs p) < bufferSize capacity \<Longrightarrow>
     pool_step capacity p (p\<lparr>todo := js, jobs := jobs p @ [j]\<rparr>)"
| pool_take: "jobs p = j # js \<Longrightarrow> length (working p) < capacity + 2 \<Longrightarrow>
     pool_step capacity p (p\<lparr>jobs := js, working := j # working p\<rparr>)"
| pool_work: "working p = ws @ j # ws' \<Longrightarrow> length (results p) < bufferSize capacity \<Longrightarrow>
     processSegment io (p_item p) (p_writer p) j = (err, item', fw', j') \<Longrightarrow>
     pool_step capacity p (p\<lparr>working := ws @ ws', results := results p @ [(j', err)],
       p_item := item', p_writer := fw'\<rparr>)"
| pool_collect: "results p = r # rs \<Longrightarrow> pool_step capacity p (collect_result r (p\<lparr>results := rs\<rparr>))"
| pool_requeue: "delayed p = ds @ j # ds' \<Longrightarrow> length (jobs p) < bufferSize capacity \<Longrightarrow>
     pool_step capacity p (p\<lparr>delayed := ds @ ds', jobs := jobs p @ [j]\<rparr>)"

definition start_pool :: "queue_item \<Rightarrow> file_writer \<Rightarrow> pool" where
  "start_pool item fw = \<lparr>todo = dispatchJobs 0 (qi_Tasks item), jobs = [], working = [], results = [],
     delayed = [], completedCount = 0, finalErr = False, p_item = item, p_writer = fw, finished = []\<rparr>"

text \<open>How \<open>runWorkerPool\<close> begins, and what it returns once every segment is counted.\<close>

datatype pool_start = NothingToDo | NoCapacity string | RunPool pool

definition runWorkerPool :: "int \<Rightarrow> queue_item \<Rightarrow> file_writer \<Rightarrow> pool_start" where
  "runWorkerPool capacity item fw =
     (if totalSegments (qi_Tasks item) = 0 then NothingToDo
      else if capacity \<le> 0
      then NoCapacity ''no download capacity available: check server max_connections''
      else RunPool (start_pool item fw))"

definition pool_returns :: "nat \<Rightarrow> pool \<Rightarrow> string option option" where
  "pool_returns n p =
     (if completedCount p < n then None
      else Some (if finalErr p then Some ''one or more segments failed permanently'' else None))"

inductive pool_reachable :: "nat \<Rightarrow> queue_item \<Rightarrow> file_writer \<Rightarrow> nat \<Rightarrow> pool \<Rightarrow> bool" for capacity item fw where
  pool_start: "pool_reachable capacity item fw 0 (start_pool item fw)"
| pool_next: "pool_reachable capacity item fw n p \<Longrightarrow> completedCount p < totalSegments (qi_Tasks item) \<Longrightarrow>
     pool_step capacity p q \<Longrightarrow> pool_reachable capacity item fw (Suc n) q"

section \<open>The download of an item\<close>

text \<open>\<open>Download\<close> up to the pool: the error, nothing to do, or the item with its counters reset.\<close>

datatype download_start = MissingRelease | AllVerified queue_item | StartPool queue_item

definition alreadyDone :: "download_file list \<Rightarrow> int" where
  "alreadyDone tasks = fold (\<lambda>t n. if df_IsComplete t then i64 (n + df_Size t) else n) tasks 0"

definition Download_begin :: "int \<Rightarrow> queue_item \<Rightarrow> download_start" where
  "Download_begin now item =
     (case qi_Release item of
        None \<Rightarrow> MissingRelease
      | Some rel \<Rightarrow>
          (let done = alreadyDone (qi_Tasks item); item1 = item\<lparr>qi_BytesWritten := done\<rparr>
           in if done \<ge> rel_Size rel \<and> rel_Size rel > 0 then AllVerified item1
              else StartPool (item1\<lparr>qi_StartedAt := Some now\<rparr>)))"

text \<open>And after it: a failed pool closes the files; otherwise the processor finalizes.\<close>

definition Download_end :: "string option \<Rightarrow> string option \<Rightarrow> file_writer \<Rightarrow> string option \<times> file_writer" where
  "Download_end poolErr finalizeErr fw =
     (case poolErr of
        Some e \<Rightarrow> (Some e, CloseAll fw)
      | None \<Rightarrow> (case finalizeErr of
                   Some e \<Rightarrow> (Some (''post-processing failed: '' @ e), CloseAll fw)
                 | None \<Rightarrow> (None, CloseAll fw)))"

section \<open>Invariant of the pool\<close>

text \<open>What identifies a job; neither a retry nor the manager changes it.\<close>

definition job_key :: "download_job \<Rightarrow> nat \<times> int \<times> string list \<times> int \<times> int \<times> string" where
  "job_key j = (dj_File j, dj_Offset j, dj_Groups j, seg_Number (dj_Segment j), seg_Bytes (dj_Segment j),
     seg_MessageID (dj_Segment j))"

definition all_jobs :: "pool \<Rightarrow> download_job list" where
  "all_jobs p = todo p @ jobs p @ working p @ map fst (results p) @ delayed p @ map fst (finished p)"

definition pool_inv :: "queue_item \<Rightarrow> pool \<Rightarrow> bool" where
  "pool_inv item p \<longleftrightarrow>
     mset (map job_key (all_jobs p)) = mset (map job_key (dispatchJobs 0 (qi_Tasks item))) \<and>
     completedCount p = length (finished p) \<and>
     (finalErr p \<longleftrightarrow> (\<exists>(j, e)\<in>set (finished p). e \<noteq> None)) \<and>
     (\<forall>j\<in>set (all_jobs p). 0 \<le> dj_RetryCount j \<and> dj_RetryCount j \<le> 3) \<and>
     (\<forall>(j, e)\<in>set (finished p). e \<noteq> None \<longrightarrow> dj_RetryCount j = 3)"

lemma processSegment_job:
  assumes "processSegment io item fw j = (err, item', fw', j')"
  shows "job_key j' = job_key j \<and> dj_RetryCount j' = dj_RetryCount j"
proof -
  have "j' = j\<lparr>dj_Segment := (dj_Segment j)\<lparr>seg_MissingFrom := io_missing io\<rparr>\<rparr>"
    using assms
    by (auto simp: processSegment_def Let_def split: seg_reply.splits prod.splits option.splits if_splits)
  then show ?thesis by (simp add: job_key_def)
qed

lemma dispatch_file_retry: "j \<in> set (dispatch_file k groups off segs) \<Longrightarrow> dj_RetryCount j = 0"
  by (induction segs arbitrary: off) auto

lemma dispatchJobs_retry: "j \<in> set (dispatchJobs k tasks) \<Longrightarrow> dj_RetryCount j = 0"
  by (induction tasks arbitrary: k) (auto dest: dispatch_file_retry split: if_splits)

lemma length_dispatch_file: "length (dispatch_file k groups off segs) = length segs"
  by (induction segs arbitrary: off) auto

lemma totalSegments_aux:
  "fold (\<lambda>f n. if df_IsComplete f then n else n + length (df_Segments f)) tasks m = m + length (dispatchJobs k tasks)"
proof (induction tasks arbitrary: m k)
  case (Cons a tasks)
  show ?case
    using Cons.IH [of m "Suc k"] Cons.IH [of "m + length (df_Segments a)" "Suc k"]
    by (simp add: length_dispatch_file)
qed simp

lemma totalSegments: "totalSegments tasks = length (dispatchJobs 0 tasks)"
  unfolding totalSegments_def using totalSegments_aux [of tasks 0 0] by simp

lemma job_key_retry [simp]: "job_key (j\<lparr>dj_RetryCount := n\<rparr>) = job_key j"
  by (simp add: job_key_def)

lemma pool_step_inv: "pool_step capacity p q \<Longrightarrow> pool_inv item p \<Longrightarrow> pool_inv item q"
proof (induction rule: pool_step.induct)
  case (pool_dispatch p j js)
  then show ?case by (auto simp: pool_inv_def all_jobs_def)
next
  case (pool_take p j js)
  then show ?case by (auto simp: pool_inv_def all_jobs_def)
next
  case (pool_work p ws j ws' io err item' fw' j')
  then show ?case using processSegment_job [OF pool_work(3)] by (auto simp: pool_inv_def all_jobs_def)
next
  case (pool_collect p r rs)
  obtain j e where r: "r = (j, e)" by fastforce
  with pool_collect show ?case
    by (cases e) (auto simp: pool_inv_def all_jobs_def collect_result_def)
next
  case (pool_requeue p ds j ds')
  then show ?case by (auto simp: pool_inv_def all_jobs_def)
qed

lemma reachable_pool_inv: "pool_reachable capacity item fw n p \<Longrightarrow> pool_inv item p"
proof (induction rule: pool_reachable.induct)
  case pool_start
  then show ?case
    by (auto simp: pool_inv_def start_pool_def all_jobs_def dest: dispatchJobs_retry)
next
  case (pool_next n p q)
  then show ?case by (blast intro: pool_step_inv)
qed

end
