(* ===== verification/Worker_Props.thy ===== *)
theory Worker_Props
  imports Worker
begin

text \<open>
  The properties of the worker pool and of the files it writes: every segment counted once, no
  deadlock, a bound on the steps, what one segment writes, and the assembly of a file; with a
  small concrete download.
\<close>


section \<open>What a finished pool has done\<close>

text \<open>When the pool returns, every segment of every unfinished file has been counted exactly once,
  nothing is left in a channel, with a worker or waiting for a retry, and the pool returns without
  error exactly if every segment was fetched, verified and written; a segment counts as failed only
  after its third retry.\<close>

theorem pool_counts_every_segment_once:
  assumes "pool_reachable capacity item fw n p" and "completedCount p = totalSegments (qi_Tasks item)"
  shows "mset (map (job_key \<circ> fst) (finished p)) = mset (map job_key (dispatchJobs 0 (qi_Tasks item))) \<and>
    todo p = [] \<and> jobs p = [] \<and> working p = [] \<and> results p = [] \<and> delayed p = [] \<and>
    (pool_returns (totalSegments (qi_Tasks item)) p = Some None \<longleftrightarrow> (\<forall>r\<in>set (finished p). snd r = None)) \<and>
    (\<forall>r\<in>set (finished p). snd r \<noteq> None \<longrightarrow> dj_RetryCount (fst r) = 3)"
proof -
  have i: "pool_inv item p" by (rule reachable_pool_inv [OF assms(1)])
  then have m: "mset (map job_key (all_jobs p)) = mset (map job_key (dispatchJobs 0 (qi_Tasks item)))"
    and c: "completedCount p = length (finished p)" by (simp_all add: pool_inv_def)
  have "length (all_jobs p) = length (dispatchJobs 0 (qi_Tasks item))"
    using m by (metis length_map mset_eq_length)
  with c assms(2) have e: "todo p = []" "jobs p = []" "working p = []" "results p = []" "delayed p = []"
    by (simp_all add: all_jobs_def totalSegments)
  then have "all_jobs p = map fst (finished p)" by (simp add: all_jobs_def)
  with m have k: "mset (map (job_key \<circ> fst) (finished p)) = mset (map job_key (dispatchJobs 0 (qi_Tasks item)))"
    by simp
  have f: "finalErr p \<longleftrightarrow> (\<exists>r\<in>set (finished p). snd r \<noteq> None)"
    and t: "\<forall>r\<in>set (finished p). snd r \<noteq> None \<longrightarrow> dj_RetryCount (fst r) = 3"
    using i by (simp_all add: pool_inv_def case_prod_unfold)
  have "pool_returns (totalSegments (qi_Tasks item)) p = Some None \<longleftrightarrow> (\<forall>r\<in>set (finished p). snd r = None)"
    using f assms(2) by (simp add: pool_returns_def)
  with k e t show ?thesis by blast
qed

text \<open>C40: The pool cannot get stuck: as long as a segment is not counted, the dispatcher, a worker, the
  collector or a waiting retry can take a step.\<close>

theorem pool_never_stuck:
  assumes "pool_reachable capacity item fw n p" and "completedCount p < totalSegments (qi_Tasks item)"
  shows "\<exists>q. pool_step capacity p q"
proof (rule ccontr)
  assume stuck: "\<nexists>q. pool_step capacity p q"
  have r: "results p = []" using pool_collect [of p _ _ capacity] stuck by (cases "results p") blast+
  have w: "working p = []"
  proof (cases "working p")
    case (Cons j ws)
    obtain err item' fw' j' where "processSegment (SOME io. True) (p_item p) (p_writer p) j = (err, item', fw', j')"
      by (metis surjective_pairing)
    with pool_work [of p "[]" j ws capacity] Cons r stuck show ?thesis by (auto simp: bufferSize_def)
  qed simp
  have j: "jobs p = []" using pool_take [of p _ _ capacity] w stuck by (cases "jobs p") auto
  have "delayed p = []"
    using pool_requeue [of p "[]" _ _ capacity] j stuck by (cases "delayed p") (auto simp: bufferSize_def)
  moreover have "todo p = []"
    using pool_dispatch [of p _ _ capacity] j stuck by (cases "todo p") (auto simp: bufferSize_def)
  ultimately have "all_jobs p = map fst (finished p)" using r w j by (simp add: all_jobs_def)
  moreover have "pool_inv item p" by (rule reachable_pool_inv [OF assms(1)])
  ultimately have "length (finished p) = totalSegments (qi_Tasks item)" "completedCount p = length (finished p)"
    unfolding pool_inv_def totalSegments by (metis length_map mset_eq_length, simp)
  with assms(2) show False by simp
qed

section \<open>The pool ends\<close>

definition left_tries :: "download_job \<Rightarrow> nat" where
  "left_tries j = 6 * nat (3 - dj_RetryCount j)"

definition pool_weight :: "pool \<Rightarrow> nat" where
  "pool_weight p = (\<Sum>j\<leftarrow>todo p. left_tries j + 5) + (\<Sum>j\<leftarrow>jobs p. left_tries j + 3) +
     (\<Sum>j\<leftarrow>working p. left_tries j + 2) + (\<Sum>r\<leftarrow>results p. left_tries (fst r) + 1) +
     (\<Sum>j\<leftarrow>delayed p. left_tries j + 4)"

definition no_busy :: "pool \<Rightarrow> bool" where
  "no_busy p \<longleftrightarrow> list_all (\<lambda>r. case snd r of Some e \<Rightarrow> \<not> is_busy e | None \<Rightarrow> True) (results p)"

lemma weight_step: "pool_step capacity p q \<Longrightarrow> no_busy p \<Longrightarrow> pool_weight q < pool_weight p"
proof (induction rule: pool_step.induct)
  case (pool_work p ws j ws' io err item' fw' j')
  then show ?case
    using processSegment_job [OF pool_work(3)] by (simp add: pool_weight_def left_tries_def)
next
  case (pool_collect p r rs)
  obtain j e where r: "r = (j, e)" by fastforce
  show ?case
  proof (cases e)
    case None
    with r pool_collect show ?thesis by (simp add: pool_weight_def collect_result_def)
  next
    case (Some x)
    with r pool_collect have "\<not> is_busy x" by (simp add: no_busy_def)
    with r pool_collect Some show ?thesis
      by (auto simp: pool_weight_def collect_result_def left_tries_def nat_diff_distrib)
  qed
qed (simp_all add: pool_weight_def left_tries_def)

inductive calm_pool :: "nat \<Rightarrow> queue_item \<Rightarrow> file_writer \<Rightarrow> nat \<Rightarrow> pool \<Rightarrow> bool" for capacity item fw where
  calm_start: "calm_pool capacity item fw 0 (start_pool item fw)"
| calm_next: "calm_pool capacity item fw n p \<Longrightarrow> no_busy p \<Longrightarrow>
     completedCount p < totalSegments (qi_Tasks item) \<Longrightarrow> pool_step capacity p q \<Longrightarrow>
     calm_pool capacity item fw (Suc n) q"

lemma calm_weight: "calm_pool capacity item fw n p \<Longrightarrow> n + pool_weight p \<le> pool_weight (start_pool item fw)"
proof (induction rule: calm_pool.induct)
  case (calm_next n p q)
  with weight_step [OF calm_next(4,2)] show ?case by simp
qed simp

lemma start_weight: "pool_weight (start_pool item fw) = 23 * totalSegments (qi_Tasks item)"
proof -
  have "\<forall>j\<in>set js. dj_RetryCount j = 0 \<Longrightarrow> (\<Sum>j\<leftarrow>js. left_tries j + 5) = 23 * length js" for js
    by (induction js) (auto simp: left_tries_def)
  with dispatchJobs_retry show ?thesis
    unfolding totalSegments by (simp add: pool_weight_def start_pool_def)
qed

text \<open>If no fetch is turned away because every connection is busy, the pool ends: it takes at most
  23 steps per segment, retries included. (A busy fetch is tried again without limit.)\<close>

theorem pool_ends:
  assumes "calm_pool capacity item fw n p"
  shows "n \<le> 23 * totalSegments (qi_Tasks item)"
  using calm_weight [OF assms] start_weight [of item fw] by simp

section \<open>One segment\<close>

lemma segment_decoded:
  assumes "preamble_ok pre" and "good_header h" and "yenc_repr ds es" and "length ds < n"
    and "CHR 0x0A \<notin> set foot" and "ds \<noteq> []"
    and "footer_crc (str_fields (''yend'' @ foot @ [CHR 0x0A])) 0 \<in> {0, crc_update 0 ds}"
  shows "\<exists>d d1. DiscardHeader (NewYencDecoder \<lparr>buf = article_bytes pre h
        (es @ bytes_of (''=yend'' @ foot @ [CHR 0x0A]) @ junk), end_err = fin\<rparr>) = (None, d) \<and> header d = h \<and>
      ReadFull n d = (ds, Some UnexpectedEOF, d1) \<and> Verify d1 = None"
proof -
  let ?body = "es @ bytes_of (''=yend'' @ foot @ [CHR 0x0A]) @ junk"
  let ?d = "(NewYencDecoder \<lparr>buf = ?body, end_err = fin\<rparr>)\<lparr>header := h\<rparr>"
  let ?d1 = "\<lparr>scanner = \<lparr>buf = junk, end_err = fin\<rparr>, reachedEnd = True, escaped = False,
       hash = crc_update 0 ds,
       expectedCRC = footer_crc (str_fields (''yend'' @ foot @ [CHR 0x0A])) 0, header = h\<rparr>"
  have "read_all n ?d = (ds, Some EOF, ?d1)"
    using Read_body [OF assms(3-5), where r = "\<lparr>buf = [], end_err = fin\<rparr>" and junk = junk and h = h] assms(4)
    by (simp add: read_all_Read)
  then have "ReadFull n ?d = (ds, Some UnexpectedEOF, ?d1)"
    using assms(4,6) by (simp add: ReadFull_def)
  moreover have "Verify ?d1 = None" using assms(7) by (auto simp: Verify_None)
  ultimately show ?thesis
    using DiscardHeader_article [OF assms(1,2), of ?body fin] by (intro exI conjI) auto
qed

definition file_bytes :: "file_writer \<Rightarrow> string \<Rightarrow> byte list" where
  "file_bytes fw path = (case disk fw path of None \<Rightarrow> [] | Some b \<Rightarrow> b)"

lemma getOrCreate_opens:
  "path \<in> set (handles fw) \<longrightarrow> disk fw path \<noteq> None \<Longrightarrow>
     \<exists>fw1. getOrCreateFile path None fw = (None, fw1) \<and> disk fw1 path = Some (file_bytes fw path)"
  by (auto simp: getOrCreateFile_def file_bytes_def split: option.split)

lemma segment_ok:
  assumes "preamble_ok pre" and "good_header h" and "yenc_repr ds es" and "ds \<noteq> []"
    and "int (length ds) < seg_Bytes (dj_Segment j)" and "CHR 0x0A \<notin> set foot"
    and "footer_crc (str_fields (''yend'' @ foot @ [CHR 0x0A])) 0 \<in> {0, crc_update 0 ds}"
    and "io_fetch io = FetchGot \<lparr>buf = article_bytes pre h
           (es @ bytes_of (''=yend'' @ foot @ [CHR 0x0A]) @ junk), end_err = fin\<rparr>"
    and "io_opened io = None" and "io_written io = None" and "dj_File j < length (qi_Tasks item)"
    and "off = (if PartOffset h = 0 then dj_Offset j else PartOffset h)" and "0 \<le> off"
    and "path = df_PartPath (qi_Tasks item ! dj_File j)"
    and "path \<in> set (handles fw) \<longrightarrow> disk fw path \<noteq> None"
  shows "\<exists>fw1. getOrCreateFile path None fw = (None, fw1) \<and> disk fw1 path = Some (file_bytes fw path) \<and>
    processSegment io item fw j = (None, AddBytes (int (length ds)) (note_size j h item),
      update_file path (write_bytes (nat off) ds) fw1,
      j\<lparr>dj_Segment := (dj_Segment j)\<lparr>seg_MissingFrom := io_missing io\<rparr>\<rparr>)"
proof -
  let ?n = "nat (seg_Bytes (dj_Segment j))"
  have "length ds < ?n" using assms(5) by simp
  from segment_decoded [OF assms(1-3) this assms(6,4,7), of junk fin] obtain d d1 where
    d: "DiscardHeader (NewYencDecoder \<lparr>buf = article_bytes pre h
        (es @ bytes_of (''=yend'' @ foot @ [CHR 0x0A]) @ junk), end_err = fin\<rparr>) = (None, d)"
      "header d = h" "ReadFull ?n d = (ds, Some UnexpectedEOF, d1)" "Verify d1 = None" by blast
  let ?item = "note_size j h item" and ?j = "j\<lparr>dj_Segment := (dj_Segment j)\<lparr>seg_MissingFrom := io_missing io\<rparr>\<rparr>"
  have p: "df_PartPath (qi_Tasks ?item ! dj_File j) = path" "qi_BytesWritten ?item = qi_BytesWritten item"
    using assms(11,14) by (auto simp: note_size_def set_actual_def SetActualSize_def)
  have q: "note_size ?j h item = ?item" by (simp add: note_size_def)
  obtain fw1 where g: "getOrCreateFile path None fw = (None, fw1)" "disk fw1 path = Some (file_bytes fw path)"
    using getOrCreate_opens assms(15) by blast
  have w: "WriteAt path ds off None None fw = (None, update_file path (write_bytes (nat off) ds) fw1)"
    using g(1) assms(13) by (simp add: WriteAt_def)
  have o: "write_offset ?j h = off" using assms(12) by (simp add: write_offset_def)
  have "processSegment io item fw j = (None, AddBytes (int (length ds)) ?item,
      update_file path (write_bytes (nat off) ds) fw1,
      j\<lparr>dj_Segment := (dj_Segment j)\<lparr>seg_MissingFrom := io_missing io\<rparr>\<rparr>)"
    using assms(4,5) d p w by (simp add: processSegment_def Let_def assms(8-10) o q)
  with g show ?thesis by blast
qed

text \<open>A segment whose article carries an encoding of some data behind a yEnc header, with a matching
  checksum or none, and whose size the NZB does not understate, is decoded and written: exactly
  the data goes to the part file at the header's offset, and the progress grows by its length. If
  the header's offset is zero, the job's own offset is used instead when it is not zero.\<close>

theorem segment_written:
  assumes "preamble_ok pre" and "good_header h" and "yenc_repr ds es" and "ds \<noteq> []"
    and "int (length ds) < seg_Bytes (dj_Segment j)" and "CHR 0x0A \<notin> set foot"
    and "footer_crc (str_fields (''yend'' @ foot @ [CHR 0x0A])) 0 \<in> {0, crc_update 0 ds}"
    and "io_fetch io = FetchGot \<lparr>buf = article_bytes pre h
           (es @ bytes_of (''=yend'' @ foot @ [CHR 0x0A]) @ junk), end_err = fin\<rparr>"
    and "io_opened io = None" and "io_written io = None" and "dj_File j < length (qi_Tasks item)"
    and "off = (if PartOffset h = 0 then dj_Offset j else PartOffset h)" and "0 \<le> off"
    and "path = df_PartPath (qi_Tasks item ! dj_File j)"
    and "(err, item', fw', j') = processSegment io item fw j"
    and "path \<in> set (handles fw) \<longrightarrow> disk fw path \<noteq> None"
  shows "err = None \<and> disk fw' path = Some (write_bytes (nat off) ds (file_bytes fw path)) \<and>
    qi_BytesWritten item' = i64 (qi_BytesWritten item + int (length ds)) \<and> job_key j' = job_key j"
proof -
  obtain fw1 where f: "disk fw1 path = Some (file_bytes fw path)"
      "processSegment io item fw j = (None, AddBytes (int (length ds)) (note_size j h item),
         update_file path (write_bytes (nat off) ds) fw1,
         j\<lparr>dj_Segment := (dj_Segment j)\<lparr>seg_MissingFrom := io_missing io\<rparr>\<rparr>)"
    using segment_ok [OF assms(1-14,16)] by blast
  have "qi_BytesWritten (note_size j h item) = qi_BytesWritten item"
    by (simp add: note_size_def set_actual_def)
  with f assms(15) show ?thesis by (simp add: AddBytes_def update_file_def job_key_def)
qed

section \<open>The file\<close>

definition write_part :: "string \<Rightarrow> nat \<times> byte list \<Rightarrow> file_writer \<Rightarrow> file_writer" where
  "write_part path w fw = snd (WriteAt path (snd w) (int (fst w)) None None fw)"

lemma write_part_open:
  assumes "path \<in> set (handles fw)" and "disk fw path = Some b"
  shows "path \<in> set (handles (write_part path w fw)) \<and>
    disk (write_part path w fw) path = Some (write_bytes (fst w) (snd w) b)"
  using assms by (simp add: write_part_def WriteAt_def getOrCreateFile_def update_file_def)

lemma write_parts_open:
  "path \<in> set (handles fw) \<Longrightarrow> disk fw path = Some b \<Longrightarrow>
     path \<in> set (handles (fold (write_part path) ws fw)) \<and>
     disk (fold (write_part path) ws fw) path = Some (fold (\<lambda>w. write_bytes (fst w) (snd w)) ws b)"
  by (induction ws arbitrary: fw b) (auto dest: write_part_open)

text \<open>Pre-allocating a part file, writing its parts at their offsets in any order, each at least
  once and possibly again, and closing it with the size the yEnc headers announce gives exactly
  the concatenation of the parts, whatever was pre-allocated and whatever was in the file before.\<close>

theorem file_assembled_in_any_order:
  assumes "set ws = set (layout 0 parts)" and "concat parts \<noteq> []" and "0 \<le> allocated"
    and "fw1 = snd (PreAllocate path allocated None None fw)"
    and "fw2 = fold (write_part path) ws fw1"
    and "(err, fw3) = CloseFile path (int (length (concat parts))) None None fw2"
    and "path \<in> set (handles fw) \<longrightarrow> disk fw path \<noteq> None"
  shows "err = None \<and> disk fw3 path = Some (concat parts) \<and> path \<notin> set (handles fw3)"
proof -
  obtain fw0 where g: "getOrCreateFile path None fw = (None, fw0)" "disk fw0 path = Some (file_bytes fw path)"
    using getOrCreate_opens assms(7) by blast
  have h0: "path \<in> set (handles fw0)"
    using g(1) by (auto simp: getOrCreateFile_def split: if_splits option.splits)
  have "fw1 = update_file path (set_size (nat allocated)) fw0"
    using assms(3,4) g(1) by (simp add: PreAllocate_def)
  with g(2) h0 have "path \<in> set (handles fw1)" "disk fw1 path = Some (set_size (nat allocated) (file_bytes fw path))"
    by (simp_all add: update_file_def)
  from write_parts_open [OF this, of ws] assms(5)
  have "path \<in> set (handles fw2)" "disk fw2 path = Some (fold (\<lambda>w. write_bytes (fst w) (snd w)) ws
      (set_size (nat allocated) (file_bytes fw path)))" by auto
  moreover have "0 < int (length (concat parts))" using assms(2) by simp
  ultimately show ?thesis
    using assms(6) writes_assemble [OF assms(1)]
    by (simp add: CloseFile_def update_file_def Let_def del: length_concat)
qed

theorem file_assembled_in_any_order_witness:
  "disk (snd (CloseFile ''p'' (int (length (concat [[1, 2], [3]]))) None None
     (fold (write_part ''p'') [(2, [3]), (0, [1, 2]), (2, [3])]
        (snd (PreAllocate ''p'' 7 None None (NewFileWriter (\<lambda>_. None))))))) ''p'' = Some [1, 2, 3]"
proof -
  have w: "set [(2, [3]), (0, [1, 2]), (2, [3])] = set (layout 0 [[1, 2], [3]])" by auto
  show ?thesis
    using file_assembled_in_any_order [OF w _ _ refl refl prod.collapse, of 7 "''p''" "NewFileWriter (\<lambda>_. None)"]
    by (simp add: NewFileWriter_def)
qed

text \<open>The NZB's order of segments is taken as the order of the parts: when the first part (whose
  header says offset zero) is not listed first, it is written at the sum of the sizes listed before
  it instead of at the beginning of the file.\<close>

theorem unordered_nzb_misplaces_first_part:
  assumes "df_Segments f = s2 # s1 # rest" and "\<not> df_IsComplete f" and "PartOffset h = 0"
    and "in64 (seg_Bytes s2)" and "seg_Bytes s2 \<noteq> 0"
  shows "dj_Segment (dispatchJobs 0 [f] ! 1) = s1 \<and> write_offset (dispatchJobs 0 [f] ! 1) h = seg_Bytes s2"
  using assms by (simp add: write_offset_def i64_id)

section \<open>A concrete download\<close>

definition w_header :: yenc_header where
  "w_header = \<lparr>PartNumber = 1, TotalParts = 1, PartOffset = 0, PartEnd = 3, FileSize = 3, FileName = ''a.bin''\<rparr>"

definition w_segment :: segment where
  "w_segment = \<lparr>seg_Number = 1, seg_Bytes = 9, seg_MessageID = ''m'', seg_MissingFrom = []\<rparr>"

definition w_file :: download_file where
  "w_file = \<lparr>df_ID = 1, df_ReleaseID = [], df_FileName = ''a.bin'', df_Size = 9, df_Index = 0,
     df_IsPars = False, df_Subject = [], df_Date = 7, df_Groups = [], df_Poster = [],
     df_PartPath = ''a.part'', df_FinalPath = ''a.bin'', df_IsComplete = False, df_Password = [],
     df_actualSize = 0, df_Segments = [w_segment]\<rparr>"

definition w_item :: queue_item where
  "w_item = \<lparr>qi_ID = ''q'', qi_ReleaseID = [], qi_Release = None, qi_Status = StatusDownloading,
     qi_OutDir = [], qi_SourceKind = [], qi_SourceReleaseID = [], qi_ReleaseTitle = [],
     qi_ReleaseSize = 0, qi_ReleaseSnapshotJSON = NoText, qi_PayloadMode = [],
     qi_Resumable = False, qi_Tasks = [w_file], qi_BytesWritten = 0, qi_CreatedAt = None,
     qi_UpdatedAt = None, qi_StartedAt = None, qi_CompletedAt = None, qi_DownloadedBytes = 0,
     qi_AvgBps = 0, qi_DownloadSeconds = 0, qi_PostProcessSeconds = 0,
     qi_DownloadStartedAt = None, qi_ProcessingStartedAt = None, qi_Error = None,
     qi_CancelFunc = None\<rparr>"

definition w_writer :: file_writer where "w_writer = NewFileWriter (\<lambda>_. None)"

definition w_io :: seg_io where
  "w_io = \<lparr>io_fetch = FetchGot \<lparr>buf = article_bytes [''222 body''] w_header
       (yenc_encode 128 128 [19, 65, 0] @ bytes_of (''=yend'' @ '' size=3'' @ [CHR 0x0A]) @ []), end_err = EOF\<rparr>,
     io_missing = [], io_opened = None, io_written = None\<rparr>"

definition w_job :: download_job where
  "w_job = \<lparr>dj_Segment = w_segment, dj_File = 0, dj_Groups = [], dj_Offset = 0, dj_RetryCount = 0\<rparr>"

lemma w_preamble: "preamble_ok [''222 body'']"
  by (simp add: preamble_ok_def)

lemma w_good: "good_header w_header"
  by (simp add: w_header_def good_header_def in64_def plain_def)

lemma w_footer: "footer_crc (str_fields (''yend'' @ '' size=3'' @ [CHR 0x0A])) 0 \<in> {0, crc_update 0 [19, 65, 0]}"
proof -
  have "footer_crc (str_fields (''yend'' @ '' size=3'' @ [CHR 0x0A])) 0 = 0" by code_simp
  then show ?thesis by simp
qed

lemma w_fetch:
  "io_fetch w_io = FetchGot \<lparr>buf = article_bytes [''222 body''] w_header
     (yenc_encode 128 128 [19, 65, 0] @ bytes_of (''=yend'' @ '' size=3'' @ [CHR 0x0A]) @ []), end_err = EOF\<rparr>"
  "io_opened w_io = None" "io_written w_io = None"
  by (simp_all only: w_io_def seg_io.simps)

lemma w_setup:
  "int (length [19, 65, 0 :: byte]) < seg_Bytes (dj_Segment w_job)" "CHR 0x0A \<notin> set '' size=3''"
  "dj_File w_job < length (qi_Tasks w_item)"
  "0 = (if PartOffset w_header = 0 then dj_Offset w_job else PartOffset w_header)"
  "''a.part'' = df_PartPath (qi_Tasks w_item ! dj_File w_job)"
  "''a.part'' \<in> set (handles w_writer) \<longrightarrow> disk w_writer ''a.part'' \<noteq> None"
  by (simp_all add: w_job_def w_segment_def w_item_def w_file_def w_header_def w_writer_def NewFileWriter_def)

theorem segment_written_witness:
  "disk (fst (snd (snd (processSegment w_io w_item w_writer w_job)))) ''a.part'' = Some [19, 65, 0]"
proof -
  obtain err item' fw' j' where e: "(err, item', fw', j') = processSegment w_io w_item w_writer w_job"
    by (metis surjective_pairing)
  have "disk fw' ''a.part'' = Some (write_bytes (nat 0) [19, 65, 0] (file_bytes w_writer ''a.part''))"
    using segment_written [OF w_preamble w_good repr_encode list.distinct(2) w_setup(1,2) w_footer w_fetch
        w_setup(3,4) order_refl w_setup(5) e w_setup(6)] by blast
  moreover have "write_bytes (nat 0) [19, 65, 0] (file_bytes w_writer ''a.part'') = [19, 65, 0]"
    by (simp add: write_bytes_def file_bytes_def w_writer_def NewFileWriter_def)
  ultimately show ?thesis using e by (metis fst_conv snd_conv)
qed

theorem unordered_nzb_misplaces_first_part_witness:
  "write_offset (dispatchJobs 0 [w_file\<lparr>df_Segments := [w_segment\<lparr>seg_Number := 2\<rparr>, w_segment]\<rparr>] ! 1) w_header = 9"
  using unordered_nzb_misplaces_first_part [of "w_file\<lparr>df_Segments := [w_segment\<lparr>seg_Number := 2\<rparr>, w_segment]\<rparr>"
      "w_segment\<lparr>seg_Number := 2\<rparr>" w_segment "[]" w_header]
  by (simp add: w_file_def w_segment_def w_header_def in64_def)

text \<open>A pool of one connection downloading the item.\<close>

definition w_pool1 :: pool where
  "w_pool1 = (start_pool w_item w_writer)\<lparr>todo := [], jobs := [w_job]\<rparr>"

definition w_pool2 :: pool where "w_pool2 = w_pool1\<lparr>jobs := [], working := [w_job]\<rparr>"

definition w_pool3 :: pool where
  "w_pool3 = (case processSegment w_io w_item w_writer w_job of
     (err, item', fw', j') \<Rightarrow> w_pool2\<lparr>working := [], results := [(j', err)], p_item := item', p_writer := fw'\<rparr>)"

definition w_pool4 :: pool where
  "w_pool4 = collect_result (hd (results w_pool3)) (w_pool3\<lparr>results := []\<rparr>)"

lemma w_total: "totalSegments (qi_Tasks w_item) = 1"
  by code_simp

lemma w_counts:
  "completedCount (start_pool w_item w_writer) = 0" "completedCount w_pool1 = 0" "completedCount w_pool2 = 0"
  by (simp_all add: start_pool_def w_pool1_def w_pool2_def)

lemma w_processed: "fst (processSegment w_io w_item w_writer w_job) = None"
  using segment_ok [OF w_preamble w_good repr_encode list.distinct(2) w_setup(1,2) w_footer w_fetch
      w_setup(3,4) order_refl w_setup(5,6)] by auto

lemma w_count3: "completedCount w_pool3 = 0" "completedCount w_pool4 = 1" "no_busy w_pool3"
  using w_processed
  by (auto simp: w_pool4_def w_pool3_def collect_result_def no_busy_def w_counts split: prod.splits)

lemma w_step1: "pool_step 2 (start_pool w_item w_writer) w_pool1"
proof -
  have "todo (start_pool w_item w_writer) = [w_job]"
    by (simp add: start_pool_def w_item_def w_file_def w_job_def)
  from pool_dispatch [OF this, of 2] show ?thesis
    by (simp add: w_pool1_def start_pool_def bufferSize_def)
qed

lemma w_step2: "pool_step 2 w_pool1 w_pool2"
  using pool_take [of w_pool1 w_job "[]" 2] by (simp add: w_pool1_def w_pool2_def start_pool_def)

lemma w_step3: "pool_step 2 w_pool2 w_pool3"
proof -
  obtain err item' fw' j' where e: "processSegment w_io w_item w_writer w_job = (err, item', fw', j')"
    by (metis surjective_pairing)
  then show ?thesis
    using pool_work [of w_pool2 "[]" w_job "[]" 2 w_io err item' fw' j']
    by (simp add: w_pool2_def w_pool1_def w_pool3_def start_pool_def bufferSize_def)
qed

lemma w_results3: "results w_pool3 = [hd (results w_pool3)]"
  by (auto simp: w_pool3_def split: prod.split)

lemma w_step4: "pool_step 2 w_pool3 w_pool4"
  using pool_collect [OF w_results3, of 2] by (simp add: w_pool4_def)

lemma w_reachable3: "pool_reachable 2 w_item w_writer 3 w_pool3"
proof -
  have "pool_reachable 2 w_item w_writer (Suc 0) w_pool1"
    by (rule pool_next [OF pool_start]) (simp_all add: w_counts w_total w_step1)
  then have "pool_reachable 2 w_item w_writer (Suc (Suc 0)) w_pool2"
    by (rule pool_next) (simp_all add: w_counts w_total w_step2)
  then have "pool_reachable 2 w_item w_writer (Suc (Suc (Suc 0))) w_pool3"
    by (rule pool_next) (simp_all add: w_counts w_total w_step3)
  then show ?thesis by (simp add: eval_nat_numeral)
qed

lemma w_reachable4: "pool_reachable 2 w_item w_writer 4 w_pool4"
proof -
  have "pool_reachable 2 w_item w_writer (Suc 3) w_pool4"
    by (rule pool_next [OF w_reachable3]) (simp_all add: w_count3 w_total w_step4)
  then show ?thesis by simp
qed

lemma w_calm: "calm_pool 2 w_item w_writer 4 w_pool4"
proof -
  have b: "no_busy (start_pool w_item w_writer)" "no_busy w_pool1" "no_busy w_pool2"
    by (simp_all add: no_busy_def start_pool_def w_pool1_def w_pool2_def)
  have "calm_pool 2 w_item w_writer (Suc 0) w_pool1"
    by (rule calm_next [OF calm_start]) (simp_all add: b w_counts w_total w_step1)
  then have "calm_pool 2 w_item w_writer (Suc (Suc 0)) w_pool2"
    by (rule calm_next) (simp_all add: b w_counts w_total w_step2)
  then have "calm_pool 2 w_item w_writer (Suc (Suc (Suc 0))) w_pool3"
    by (rule calm_next) (simp_all add: b w_counts w_total w_step3)
  then have "calm_pool 2 w_item w_writer (Suc (Suc (Suc (Suc 0)))) w_pool4"
    by (rule calm_next) (simp_all add: w_count3 w_total w_step4)
  then show ?thesis by (simp add: eval_nat_numeral)
qed

theorem pool_counts_every_segment_once_witness:
  "mset (map (job_key \<circ> fst) (finished w_pool4)) = mset (map job_key (dispatchJobs 0 (qi_Tasks w_item))) \<and>
   delayed w_pool4 = []"
  using pool_counts_every_segment_once [OF w_reachable4] w_count3 w_total by simp

theorem pool_never_stuck_witness: "\<exists>q. pool_step 2 w_pool3 q"
  by (rule pool_never_stuck [OF w_reachable3]) (simp add: w_count3 w_total)

theorem pool_ends_witness: "4 \<le> 23 * totalSegments (qi_Tasks w_item)"
  by (rule pool_ends [OF w_calm])

end
