(* ===== verification/Stage_Store.thy ===== *)
theory Stage_Store
  imports Go_Prelude
begin

text \<open>
  The leases and run records of the indexer's stages, \<open>pgindex/stage_runtime_store.go\<close>:
  which supervisor process may run a stage, and what became of every run. The two tables are
  lists of rows, each SQL statement an operation on them. A claim and a finish are one
  transaction that locks the rows it decides on, so each is one atomic step; \<open>fault\<close> is the
  database error that made the transaction fail after its retries, and then nothing of it
  remains. A heartbeat is two statements without a transaction and has two faults. Times are
  nanoseconds; \<open>now\<close> is the database's \<open>NOW()\<close>, \<open>clk\<close> the clock of the calling process, and
  nothing relates the two. An error is given by the fixed part of its message.
\<close>

section \<open>The tables\<close>

datatype run_status = Running | Completed | Failed | Abandoned

record stage_run =
  run_id :: int
  run_stage :: string
  run_trigger :: string
  run_status :: run_status
  run_owner :: string
  run_started :: int
  run_heartbeat :: "int option"
  run_finished :: "int option"
  run_error :: string
  run_metrics :: string

record stage_state =
  st_name :: string
  st_enabled :: bool
  st_paused :: bool
  st_interval :: int
  st_batch :: int
  st_concurrency :: int
  st_backoff :: int
  st_lease_owner :: string
  st_lease_expires :: "int option"
  st_heartbeat :: "int option"
  st_last_run :: "int option"
  st_last_success :: "int option"
  st_last_error :: string
  st_updated :: int

record stage_db =
  db_states :: "stage_state list"
  db_runs :: "stage_run list"
  db_next_id :: int

definition empty_db :: stage_db where
  "empty_db = \<lparr>db_states = [], db_runs = [], db_next_id = 1\<rparr>"

text \<open>\<open>UPDATE ... WHERE\<close>, and its \<open>RowsAffected\<close>.\<close>

definition update_where :: "('a \<Rightarrow> bool) \<Rightarrow> ('a \<Rightarrow> 'a) \<Rightarrow> 'a list \<Rightarrow> 'a list" where
  "update_where p f rows = map (\<lambda>r. if p r then f r else r) rows"

definition rows_affected :: "('a \<Rightarrow> bool) \<Rightarrow> 'a list \<Rightarrow> int" where
  "rows_affected p rows = int (length (filter p rows))"

text \<open>The column defaults of \<open>indexer_stage_state\<close>.\<close>

definition default_state :: "string \<Rightarrow> int \<Rightarrow> stage_state" where
  "default_state name now =
     \<lparr>st_name = name, st_enabled = True, st_paused = False, st_interval = 600, st_batch = 0,
      st_concurrency = 1, st_backoff = 0, st_lease_owner = '''', st_lease_expires = None,
      st_heartbeat = None, st_last_run = None, st_last_success = None, st_last_error = '''',
      st_updated = now\<rparr>"

text \<open>\<open>INSERT ... ON CONFLICT (stage_name) DO UPDATE\<close>: the same columns are set either way.\<close>

definition upsert_state ::
  "string \<Rightarrow> int \<Rightarrow> (stage_state \<Rightarrow> stage_state) \<Rightarrow> stage_state list \<Rightarrow> stage_state list" where
  "upsert_state name now f rows =
     (if list_ex (\<lambda>s. st_name s = name) rows
      then update_where (\<lambda>s. st_name s = name) f rows
      else rows @ [f (default_state name now)])"

definition find_state :: "string \<Rightarrow> stage_db \<Rightarrow> stage_state option" where
  "find_state name db = find (\<lambda>s. st_name s = name) (db_states db)"

definition find_run :: "int \<Rightarrow> stage_db \<Rightarrow> stage_run option" where
  "find_run rid db = find (\<lambda>r. run_id r = rid) (db_runs db)"

section \<open>Claiming a stage\<close>

definition second :: int where
  "second = 1000000000"

record claim_request =
  req_stage :: string
  req_trigger :: string
  req_owner :: string
  req_enabled :: bool
  req_interval :: int
  req_batch :: int
  req_concurrency :: int
  req_backoff :: int
  req_lease :: int

record claim_result =
  claimed :: bool
  claim_reason :: string
  claim_run :: "stage_run option"

definition refused :: "string \<Rightarrow> claim_result" where
  "refused why = \<lparr>claimed = False, claim_reason = why, claim_run = None\<rparr>"

text \<open>What the claim writes of the request, with the defaults for values that are not
  positive.\<close>

definition configure_state :: "claim_request \<Rightarrow> int \<Rightarrow> stage_state \<Rightarrow> stage_state" where
  "configure_state req now s =
     (let interval = (if req_interval req \<le> 0 then 600 * second else req_interval req);
          secs = gdiv interval second;
          backoff = gdiv (req_backoff req) second
      in s\<lparr>st_enabled := req_enabled req,
           st_interval := (if secs \<le> 0 then 1 else secs),
           st_batch := req_batch req,
           st_concurrency := (if req_concurrency req \<le> 0 then 1 else req_concurrency req),
           st_backoff := (if backoff < 0 then 0 else backoff),
           st_updated := now\<rparr>)"

text \<open>Who may not have the stage now, and why.\<close>

definition claim_refusal :: "string \<Rightarrow> int \<Rightarrow> stage_state \<Rightarrow> stage_db \<Rightarrow> string option" where
  "claim_refusal owner clk s db =
     (if \<not> st_enabled s then Some ''disabled''
      else if st_paused s then Some ''paused''
      else if st_lease_owner s \<noteq> '''' \<and>
              (case st_lease_expires s of None \<Rightarrow> False | Some e \<Rightarrow> clk < e)
      then (if st_lease_owner s \<noteq> owner then Some ''leased''
            else (case st_last_run s of
                    None \<Rightarrow> None
                  | Some rid \<Rightarrow>
                      (case find_run rid db of
                         None \<Rightarrow> None
                       | Some r \<Rightarrow> if run_status r = Running then Some ''running'' else None)))
      else None)"

definition abandon :: "string \<Rightarrow> int \<Rightarrow> stage_run \<Rightarrow> stage_run" where
  "abandon why now r =
     r\<lparr>run_status := Abandoned,
       run_error := (if run_error r = '''' then why else run_error r),
       run_heartbeat := (case run_heartbeat r of None \<Rightarrow> Some now | Some t \<Rightarrow> Some t),
       run_finished := (case run_finished r of None \<Rightarrow> Some now | Some t \<Rightarrow> Some t)\<rparr>"

definition abandon_last :: "int option \<Rightarrow> int \<Rightarrow> stage_run list \<Rightarrow> stage_run list" where
  "abandon_last prev now rows =
     (case prev of
        None \<Rightarrow> rows
      | Some rid \<Rightarrow>
          update_where (\<lambda>r. run_id r = rid \<and> run_status r = Running)
            (abandon ''lease expired before completion'' now) rows)"

definition new_run :: "int \<Rightarrow> string \<Rightarrow> string \<Rightarrow> string \<Rightarrow> int \<Rightarrow> stage_run" where
  "new_run rid stage trigger owner now =
     \<lparr>run_id = rid, run_stage = stage, run_trigger = trigger, run_status = Running,
      run_owner = owner, run_started = now, run_heartbeat = Some now, run_finished = None,
      run_error = '''', run_metrics = ''{}''\<rparr>"

definition lease_to :: "string \<Rightarrow> int \<Rightarrow> int \<Rightarrow> int \<Rightarrow> stage_state \<Rightarrow> stage_state" where
  "lease_to owner expires rid now s =
     s\<lparr>st_lease_owner := owner, st_lease_expires := Some expires, st_heartbeat := Some now,
       st_last_run := Some rid, st_last_error := '''', st_updated := now\<rparr>"

definition grant ::
  "string \<Rightarrow> string \<Rightarrow> string \<Rightarrow> int \<Rightarrow> int \<Rightarrow> stage_state \<Rightarrow> stage_db \<Rightarrow> claim_result \<times> stage_db" where
  "grant stage trigger owner expires now s db =
     (let rid = db_next_id db; run = new_run rid stage trigger owner now
      in (\<lparr>claimed = True, claim_reason = '''', claim_run = Some run\<rparr>,
          db\<lparr>db_runs := abandon_last (st_last_run s) now (db_runs db) @ [run],
             db_states := update_where (\<lambda>t. st_name t = stage) (lease_to owner expires rid now)
                            (db_states db),
             db_next_id := rid + 1\<rparr>))"

text \<open>\<open>clk0\<close> is read before the transaction, for the expiry of the lease, \<open>clk\<close> inside it.
  The upsert is committed with every refusal.\<close>

definition ClaimIndexerStage ::
  "claim_request \<Rightarrow> int \<Rightarrow> int \<Rightarrow> int \<Rightarrow> string option \<Rightarrow> stage_db \<Rightarrow> (string + claim_result) \<times> stage_db"
where
  "ClaimIndexerStage req clk0 clk now fault db =
     (let stage = trim_space (req_stage req); owner = trim_space (req_owner req);
          low = trim_space (to_lower (req_trigger req));
          trigger = (if low = '''' then ''scheduled'' else low);
          lease = (if req_lease req \<le> 0 then 30 * second else req_lease req)
      in if stage = '''' then (Inl ''stage name is required'', db)
         else if owner = '''' then (Inl ''stage owner is required'', db)
         else (case fault of
            Some e \<Rightarrow> (Inl e, db)
          | None \<Rightarrow>
              (let db1 = db\<lparr>db_states :=
                           upsert_state stage now (configure_state req now) (db_states db)\<rparr>
               in case find_state stage db1 of
                    None \<Rightarrow> (Inl ''lock indexer stage state'', db)
                  | Some s \<Rightarrow>
                      (case claim_refusal owner clk s db1 of
                         Some why \<Rightarrow> (Inr (refused why), db1)
                       | None \<Rightarrow>
                           (let (res, db2) = grant stage trigger owner (clk0 + lease) now s db1
                            in (Inr res, db2))))))"

section \<open>Heartbeat, finish, pause, repair\<close>

definition lease_seconds :: "int \<Rightarrow> int" where
  "lease_seconds d =
     (let secs = gdiv (if d \<le> 0 then 30 * second else d) second in if secs \<le> 0 then 1 else secs)"

definition beat_run :: "int \<Rightarrow> string \<Rightarrow> stage_run \<Rightarrow> bool" where
  "beat_run rid owner r \<longleftrightarrow> run_id r = rid \<and> run_owner r = owner \<and> run_status r = Running"

definition beat_state :: "int \<Rightarrow> string \<Rightarrow> stage_state \<Rightarrow> bool" where
  "beat_state rid owner s \<longleftrightarrow> st_last_run s = Some rid \<and> st_lease_owner s = owner"

text \<open>\<open>now1\<close> and \<open>now2\<close> are the times of the two statements, \<open>between\<close> what other
  processes do to the tables between them.\<close>

definition HeartbeatIndexerStageRun ::
  "int \<Rightarrow> string \<Rightarrow> int \<Rightarrow> int \<Rightarrow> int \<Rightarrow> string option \<Rightarrow> string option \<Rightarrow> (stage_db \<Rightarrow> stage_db)
     \<Rightarrow> stage_db \<Rightarrow> string option \<times> stage_db" where
  "HeartbeatIndexerStageRun rid who lease now1 now2 fault1 fault2 between db =
     (let owner = trim_space who
      in if rid \<le> 0 then (Some ''run id is required'', db)
         else if owner = '''' then (Some ''stage owner is required'', db)
         else (case fault1 of
            Some e \<Rightarrow> (Some e, db)
          | None \<Rightarrow>
              (let hit = rows_affected (beat_run rid owner) (db_runs db);
                   db1 = db\<lparr>db_runs := update_where (beat_run rid owner)
                               (\<lambda>r. r\<lparr>run_heartbeat := Some now1\<rparr>) (db_runs db)\<rparr>
               in if hit = 0 then (Some ''stage run is no longer running'', db1)
                  else (let db2 = between db1 in
                   case fault2 of
                     Some e \<Rightarrow> (Some e, db2)
                   | None \<Rightarrow>
                       (let held = rows_affected (beat_state rid owner) (db_states db2);
                            db3 = db2\<lparr>db_states := update_where (beat_state rid owner)
                              (\<lambda>s. s\<lparr>st_lease_expires := Some (now2 + lease_seconds lease * second),
                                     st_heartbeat := Some now2, st_updated := now2\<rparr>)
                              (db_states db2)\<rparr>
                        in (if held = 0 then Some ''stage state is no longer owned'' else None,
                            db3))))))"

definition release_lease ::
  "int \<Rightarrow> string \<Rightarrow> bool \<Rightarrow> string \<Rightarrow> int \<Rightarrow> stage_state \<Rightarrow> stage_state" where
  "release_lease rid owner success err now s =
     (if st_last_run s \<noteq> Some rid then s
      else s\<lparr>st_lease_owner := (if st_lease_owner s = owner then '''' else st_lease_owner s),
             st_lease_expires := (if st_lease_owner s = owner then None else st_lease_expires s),
             st_heartbeat := Some now,
             st_last_success := (if success then Some now else st_last_success s),
             st_last_error := err,
             st_updated := now\<rparr>)"

definition finish_row :: "run_status \<Rightarrow> string \<Rightarrow> string \<Rightarrow> int \<Rightarrow> stage_run \<Rightarrow> stage_run" where
  "finish_row status err metrics now r =
     r\<lparr>run_status := status, run_heartbeat := Some now, run_finished := Some now,
       run_error := err, run_metrics := metrics\<rparr>"

definition finishIndexerStageRun ::
  "int \<Rightarrow> string \<Rightarrow> string \<Rightarrow> string \<Rightarrow> run_status \<Rightarrow> int \<Rightarrow> string option \<Rightarrow> stage_db
     \<Rightarrow> string option \<times> stage_db" where
  "finishIndexerStageRun rid who err metrics_json status now fault db =
     (let owner = trim_space who;
          metrics = (if metrics_json = '''' then ''{}'' else metrics_json)
      in if rid \<le> 0 then (Some ''run id is required'', db)
         else if owner = '''' then (Some ''stage owner is required'', db)
         else (case fault of
            Some e \<Rightarrow> (Some e, db)
          | None \<Rightarrow>
              (case find (\<lambda>r. run_id r = rid \<and> run_owner r = owner) (db_runs db) of
                 None \<Rightarrow> (Some ''lock stage run'', db)
               | Some r \<Rightarrow>
                   (None,
                    db\<lparr>db_runs := update_where (\<lambda>r. run_id r = rid)
                         (finish_row status err metrics now) (db_runs db),
                       db_states := update_where (\<lambda>s. st_name s = run_stage r)
                         (release_lease rid owner (status = Completed) err now)
                         (db_states db)\<rparr>))))"

definition CompleteIndexerStageRun ::
  "int \<Rightarrow> string \<Rightarrow> string \<Rightarrow> string \<Rightarrow> int \<Rightarrow> string option \<Rightarrow> stage_db \<Rightarrow> string option \<times> stage_db"
where
  "CompleteIndexerStageRun rid who err metrics now fault db =
     finishIndexerStageRun rid who err metrics Completed now fault db"

definition FailIndexerStageRun ::
  "int \<Rightarrow> string \<Rightarrow> string \<Rightarrow> string \<Rightarrow> int \<Rightarrow> string option \<Rightarrow> stage_db \<Rightarrow> string option \<times> stage_db"
where
  "FailIndexerStageRun rid who err metrics now fault db =
     finishIndexerStageRun rid who err metrics Failed now fault db"

definition setIndexerStagePaused ::
  "string \<Rightarrow> bool \<Rightarrow> int \<Rightarrow> string option \<Rightarrow> stage_db \<Rightarrow> string option \<times> stage_db" where
  "setIndexerStagePaused name paused now fault db =
     (let stage = trim_space name
      in if stage = '''' then (Some ''stage name is required'', db)
         else (case fault of
            Some e \<Rightarrow> (Some e, db)
          | None \<Rightarrow>
              (None, db\<lparr>db_states := upsert_state stage now
                          (\<lambda>s. s\<lparr>st_paused := paused, st_updated := now\<rparr>) (db_states db)\<rparr>)))"

definition PauseIndexerStage ::
  "string \<Rightarrow> int \<Rightarrow> string option \<Rightarrow> stage_db \<Rightarrow> string option \<times> stage_db" where
  "PauseIndexerStage name = setIndexerStagePaused name True"

definition ResumeIndexerStage ::
  "string \<Rightarrow> int \<Rightarrow> string option \<Rightarrow> stage_db \<Rightarrow> string option \<times> stage_db" where
  "ResumeIndexerStage name = setIndexerStagePaused name False"

definition lease_expired :: "int \<Rightarrow> stage_state \<Rightarrow> bool" where
  "lease_expired now s \<longleftrightarrow>
     st_lease_owner s \<noteq> '''' \<and> (case st_lease_expires s of None \<Rightarrow> False | Some e \<Rightarrow> e < now)"

text \<open>The second statement selects the rows the first selected: it sees the same \<open>NOW()\<close>
  and the rows are locked.\<close>

definition RepairIndexerStageRuntime ::
  "int \<Rightarrow> string option \<Rightarrow> stage_db \<Rightarrow> (string + int \<times> int) \<times> stage_db" where
  "RepairIndexerStageRuntime now fault db =
     (case fault of
        Some e \<Rightarrow> (Inl e, db)
      | None \<Rightarrow>
          (let stale = filter (lease_expired now) (db_states db);
               hit = (\<lambda>r. Some (run_id r) \<in> set (map st_last_run stale) \<and> run_status r = Running)
           in (Inr (rows_affected hit (db_runs db), int (length stale)),
               db\<lparr>db_runs := update_where hit
                    (abandon ''lease expired before repair cleanup'' now) (db_runs db),
                  db_states := update_where (lease_expired now)
                    (\<lambda>s. s\<lparr>st_lease_owner := '''', st_lease_expires := None, st_updated := now\<rparr>)
                    (db_states db)\<rparr>)))"

text \<open>The maintenance task that forgets old runs, one statement of
  \<open>maintenance_store.go\<close>; the foreign key sets \<open>last_run_id\<close> to \<open>NULL\<close> where it pointed to
  a deleted row.\<close>

definition old_run :: "int \<Rightarrow> stage_run \<Rightarrow> bool" where
  "old_run now r \<longleftrightarrow>
     (run_status r = Completed \<or> run_status r = Abandoned) \<and>
       run_started r < now - 14 * 86400 * second \<or>
     run_status r = Failed \<and> run_started r < now - 30 * 86400 * second"

definition purge_old_runs :: "int \<Rightarrow> stage_db \<Rightarrow> stage_db" where
  "purge_old_runs now db =
     (let gone = map run_id (filter (old_run now) (db_runs db))
      in db\<lparr>db_runs := filter (\<lambda>r. \<not> old_run now r) (db_runs db),
            db_states := update_where
              (\<lambda>s. case st_last_run s of None \<Rightarrow> False | Some rid \<Rightarrow> rid \<in> set gone)
              (\<lambda>s. s\<lparr>st_last_run := None\<rparr>) (db_states db)\<rparr>)"

section \<open>Reading the runs\<close>

definition GetIndexerStageRun :: "int \<Rightarrow> string option \<Rightarrow> stage_db \<Rightarrow> string + stage_run option" where
  "GetIndexerStageRun rid fault db =
     (if rid \<le> 0 then Inl ''run id is required''
      else (case fault of Some e \<Rightarrow> Inl e | None \<Rightarrow> Inr (find_run rid db)))"

text \<open>\<open>ORDER BY started_at DESC, id DESC LIMIT\<close>; the filters compare with the lower-case
  texts of the status.\<close>

fun status_word :: "run_status \<Rightarrow> string" where
  "status_word Running = ''running''"
| "status_word Completed = ''completed''"
| "status_word Failed = ''failed''"
| "status_word Abandoned = ''abandoned''"

definition newest_first :: "stage_run list \<Rightarrow> stage_run list" where
  "newest_first rows =
     rev (sort_key run_started (sort_key run_id rows))"

definition ListIndexerStageRunsFiltered ::
  "string \<Rightarrow> string \<Rightarrow> string \<Rightarrow> int \<Rightarrow> string option \<Rightarrow> stage_db \<Rightarrow> string + stage_run list" where
  "ListIndexerStageRunsFiltered name status trigger limit fault db =
     (let stage = trim_space name;
          wanted = to_lower (trim_space status);
          kind = to_lower (trim_space trigger);
          n = (if limit \<le> 0 then 50 else limit)
      in case fault of
           Some e \<Rightarrow> Inl e
         | None \<Rightarrow>
             Inr (take (nat n) (newest_first (filter (\<lambda>r.
                 (stage = '''' \<or> run_stage r = stage) \<and>
                 (wanted = '''' \<or> status_word (run_status r) = wanted) \<and>
                 (kind = '''' \<or> run_trigger r = kind)) (db_runs db)))))"

definition ListIndexerStageRuns ::
  "string \<Rightarrow> int \<Rightarrow> string option \<Rightarrow> stage_db \<Rightarrow> string + stage_run list" where
  "ListIndexerStageRuns name limit = ListIndexerStageRunsFiltered name '''' '''' limit"

end
