(* ===== verification/Supervisor.thy ===== *)
theory Supervisor
  imports Stage_Store
begin

text \<open>
  The stage supervisor, \<open>indexing/supervisor/supervisor.go\<close>. Every stage has a goroutine that
  executes it once and then at every tick; an execution asks the gate, takes the stage's write
  lane, claims the stage at the tracker, runs the runner and records the outcome. An execution
  is modelled in two halves, before and after the runner, because other executions interleave
  with it there. The tracker is a parameter: functions on its state \<open>'d\<close>; the gate, the runner
  and the clock are outcomes given to the definitions. A nil logger, gate or tracker is a flag.
\<close>

section \<open>Stages\<close>

abbreviation StageScrapeLatest :: string where "StageScrapeLatest \<equiv> ''scrape_latest''"
abbreviation StageScrapeBackfill :: string where "StageScrapeBackfill \<equiv> ''scrape_backfill''"
abbreviation StageAssemble :: string where "StageAssemble \<equiv> ''assemble''"
abbreviation StageRecoverYEnc :: string where "StageRecoverYEnc \<equiv> ''recover_yenc''"
abbreviation StageReleaseSummaryRefresh :: string where
  "StageReleaseSummaryRefresh \<equiv> ''release_summary_refresh''"
abbreviation StageReleaseArchiveNZB :: string where "StageReleaseArchiveNZB \<equiv> ''release_archive_nzb''"
abbreviation StageReleasePurgeArchivedSources :: string where
  "StageReleasePurgeArchivedSources \<equiv> ''release_purge_archived_sources''"
abbreviation StageInspectPAR2 :: string where "StageInspectPAR2 \<equiv> ''inspect_par2''"
abbreviation StageMaintenance :: string where "StageMaintenance \<equiv> ''indexer_maintenance''"
abbreviation StageMaintenanceReleaseSourcePurge :: string where
  "StageMaintenanceReleaseSourcePurge \<equiv> ''maintenance.release_source_purge''"

definition pipelineStageNames :: "string list" where
  "pipelineStageNames =
     [StageScrapeLatest, StageScrapeBackfill, ''poster_materialize'', ''crosspost_popularity_refresh'',
      ''article_cohort_schedule'', StageAssemble, StageRecoverYEnc, StageReleaseSummaryRefresh,
      ''release'', ''release_generate_nzb'', StageReleaseArchiveNZB,
      ''inspect_discovery_ready_refresh'', ''inspect_par2_ready_refresh'',
      ''inspect_archive_ready_refresh'', ''inspect_media_ready_refresh'', ''inspect_discovery'',
      StageInspectPAR2, ''inspect_nfo'', ''inspect_archive'', ''inspect_password'', ''inspect_media'',
      ''enrich_predb'', ''enrich_tmdb'']"

definition maintenanceStageNames :: "string list" where
  "maintenanceStageNames =
     [''maintenance.dashboard_stats_refresh'', StageMaintenanceReleaseSourcePurge,
      ''maintenance.poster_queue_done_cleanup'', ''maintenance.inspect_ready_queue_cleanup'',
      ''maintenance.assembly_queue_stale_cleanup'', ''maintenance.readiness_cleanup'',
      ''maintenance.runtime_history_cleanup'', ''maintenance.grouping_evidence_cleanup'',
      ''maintenance.crosspost_group_raw_purge'', ''maintenance.yenc_done_work_item_cleanup'',
      ''maintenance.group_profile_refresh'', ''maintenance.raw_stage_retention'',
      ''maintenance.partition_retention_drop'', ''maintenance.partition_default_rehome'',
      ''maintenance.stale_nonrelease_source_purge'', ''maintenance.emergency_source_window_reset'',
      ''maintenance.header_payload_purge'', StageMaintenance]"

record stage =
  stage_name :: string
  stage_interval :: int
  stage_enabled :: bool
  stage_batch :: int
  stage_concurrency :: int
  stage_backoff :: int
  has_runner :: bool

record gate_decision =
  allowed :: bool
  reason :: string

record supervisor =
  sv_logging :: bool
  sv_stages :: "string \<Rightarrow> stage option"
  sv_tracked :: bool
  sv_owner :: string
  sv_lease :: int
  sv_heartbeat :: int
  sv_gated :: bool
  blockedLogs :: "string \<Rightarrow> (string \<times> int) option"
  activeStageGroups :: "string \<Rightarrow> string option"

record sv_options =
  opt_tracked :: bool
  opt_owner :: string
  opt_lease :: int
  opt_heartbeat :: int
  opt_gated :: bool

definition normal_stage :: "stage \<Rightarrow> stage" where
  "normal_stage s =
     s\<lparr>stage_interval := (if stage_interval s \<le> 0 then 600 * second else stage_interval s),
       stage_concurrency := (if stage_concurrency s \<le> 0 then 1 else stage_concurrency s)\<rparr>"

definition New :: "bool \<Rightarrow> stage list \<Rightarrow> sv_options option \<Rightarrow> int \<Rightarrow> supervisor" where
  "New logging stages options now =
     (let opts = (case options of
                    None \<Rightarrow> \<lparr>opt_tracked = False, opt_owner = '''', opt_lease = 0,
                              opt_heartbeat = 0, opt_gated = False\<rparr>
                  | Some o' \<Rightarrow> o');
          owner = (if opt_owner opts = '''' then ''indexer-supervisor-'' @ itoa now else opt_owner opts);
          lease = (if opt_lease opts \<le> 0 then 30 * second else opt_lease opts);
          half = gdiv lease 2;
          beat = (if opt_heartbeat opts \<le> 0 \<or> opt_heartbeat opts \<ge> lease
                  then (if half \<le> 0 then 10 * second else half) else opt_heartbeat opts)
      in \<lparr>sv_logging = logging,
          sv_stages = fold (\<lambda>s m. m(stage_name s \<mapsto> normal_stage s)) stages Map.empty,
          sv_tracked = opt_tracked opts, sv_owner = owner, sv_lease = lease, sv_heartbeat = beat,
          sv_gated = opt_gated opts, blockedLogs = Map.empty, activeStageGroups = Map.empty\<rparr>)"

section \<open>Selecting stages\<close>

definition selectableStage :: "string \<Rightarrow> supervisor \<Rightarrow> string + stage option" where
  "selectableStage name sv =
     (case sv_stages sv name of
        None \<Rightarrow> Inl (''stage '' @ name @ '' is not configured'')
      | Some s \<Rightarrow>
          (if \<not> stage_enabled s then Inr None
           else if \<not> has_runner s then Inl (''stage '' @ name @ '' has no runner'')
           else Inr (Some s)))"

definition stage_for :: "string \<Rightarrow> supervisor \<Rightarrow> string + stage" where
  "stage_for name sv =
     (case selectableStage name sv of
        Inl e \<Rightarrow> Inl e
      | Inr None \<Rightarrow> Inl (''stage '' @ name @ '' is disabled'')
      | Inr (Some s) \<Rightarrow> Inr s)"

fun select_loop :: "string list \<Rightarrow> supervisor \<Rightarrow> string + stage list" where
  "select_loop [] sv = Inr []"
| "select_loop (n # ns) sv =
     (case selectableStage n sv of
        Inl e \<Rightarrow> Inl e
      | Inr found \<Rightarrow>
          (case select_loop ns sv of
             Inl e \<Rightarrow> Inl e
           | Inr rest \<Rightarrow> Inr (case found of None \<Rightarrow> rest | Some s \<Rightarrow> s # rest)))"

definition selectStages :: "string list \<Rightarrow> supervisor \<Rightarrow> string + stage list" where
  "selectStages names sv =
     (if names = [] then Inl ''at least one stage must be selected'' else select_loop names sv)"

text \<open>The stages whose goroutines are started, or the error.\<close>

definition runSelected :: "bool \<Rightarrow> string list \<Rightarrow> supervisor \<Rightarrow> string + stage list" where
  "runSelected allow_empty names sv =
     (case selectStages names sv of
        Inl e \<Rightarrow> Inl e
      | Inr stages \<Rightarrow>
          (if stages = [] \<and> \<not> allow_empty then Inl ''no enabled supervisor stages selected''
           else Inr stages))"

section \<open>Blocked stages in the log\<close>

definition blockedStageLogInterval :: int where
  "blockedStageLogInterval = 60 * second"

definition shouldLogBlockedStage :: "string \<Rightarrow> string \<Rightarrow> int \<Rightarrow> supervisor \<Rightarrow> bool \<times> supervisor" where
  "shouldLogBlockedStage name why now sv =
     (if (case blockedLogs sv name of
            None \<Rightarrow> True
          | Some (prev, at) \<Rightarrow> prev \<noteq> why \<or> now - at \<ge> blockedStageLogInterval)
      then (True, sv\<lparr>blockedLogs := (blockedLogs sv)(name \<mapsto> (why, now))\<rparr>)
      else (False, sv))"

definition clearBlockedStageLog :: "string \<Rightarrow> supervisor \<Rightarrow> supervisor" where
  "clearBlockedStageLog name sv = sv\<lparr>blockedLogs := (blockedLogs sv)(name := None)\<rparr>"

section \<open>Write lanes\<close>

definition exclusiveStageGroup :: "string \<Rightarrow> string option" where
  "exclusiveStageGroup name =
     (if name = StageAssemble \<or> name = StageReleasePurgeArchivedSources \<or>
         name = StageMaintenanceReleaseSourcePurge
      then Some ''assemble/purge'' else None)"

definition tryClaimStageGroup :: "string \<Rightarrow> string \<Rightarrow> supervisor \<Rightarrow> bool \<times> supervisor" where
  "tryClaimStageGroup grp name sv =
     (case activeStageGroups sv grp of
        Some _ \<Rightarrow> (False, sv)
      | None \<Rightarrow> (True, sv\<lparr>activeStageGroups := (activeStageGroups sv)(grp \<mapsto> name)\<rparr>))"

text \<open>The function a successful claim returns; \<open>None\<close> when there is no lane to give back.\<close>

definition release_group :: "string option \<Rightarrow> string \<Rightarrow> supervisor \<Rightarrow> supervisor" where
  "release_group lane name sv =
     (case lane of
        None \<Rightarrow> sv
      | Some g \<Rightarrow>
          (if activeStageGroups sv g = Some name
           then sv\<lparr>activeStageGroups := (activeStageGroups sv)(g := None)\<rparr> else sv))"

section \<open>One execution\<close>

text \<open>How the first half ends: the execution is over with a result, or its runner is due,
  without or with a claimed run.\<close>

datatype begun = Over "string option" | Due | Due_run stage_run

type_synonym 'd claim_fn = "claim_request \<Rightarrow> 'd \<Rightarrow> (string + claim_result option) \<times> 'd"
type_synonym 'd finish_fn = "int \<Rightarrow> string \<Rightarrow> string \<Rightarrow> string \<Rightarrow> 'd \<Rightarrow> string option \<times> 'd"

definition claim_request_for :: "stage \<Rightarrow> string \<Rightarrow> supervisor \<Rightarrow> claim_request" where
  "claim_request_for s trigger sv =
     \<lparr>req_stage = stage_name s, req_trigger = trigger, req_owner = sv_owner sv,
      req_enabled = stage_enabled s, req_interval = stage_interval s, req_batch = stage_batch s,
      req_concurrency = stage_concurrency s, req_backoff = stage_backoff s,
      req_lease = sv_lease sv\<rparr>"

text \<open>A blocked execution: what is logged, if anything.\<close>

definition log_blocked :: "string \<Rightarrow> string \<Rightarrow> int \<Rightarrow> supervisor \<Rightarrow> string list \<times> supervisor" where
  "log_blocked name why now sv =
     (if sv_logging sv
      then (let (due, sv') = shouldLogBlockedStage name why now sv
            in (if due then [why] else [], sv'))
      else ([], sv))"

text \<open>The claim at the tracker, with the lane already taken.\<close>

definition claim_stage ::
  "stage \<Rightarrow> string \<Rightarrow> 'd claim_fn \<Rightarrow> string option \<Rightarrow> supervisor \<Rightarrow> 'd
     \<Rightarrow> begun \<times> string option \<times> supervisor \<times> 'd" where
  "claim_stage s trigger claim lane sv db =
     (if \<not> sv_tracked sv then (Due, lane, sv, db)
      else (case claim (claim_request_for s trigger sv) db of
              (Inl e, db') \<Rightarrow> (Over (Some e), None, release_group lane (stage_name s) sv, db')
            | (Inr None, db') \<Rightarrow> (Over None, None, release_group lane (stage_name s) sv, db')
            | (Inr (Some res), db') \<Rightarrow>
                (if claimed res
                 then (case claim_run res of
                         None \<Rightarrow> (Over None, None, release_group lane (stage_name s) sv, db')
                       | Some r \<Rightarrow> (Due_run r, lane, sv, db'))
                 else (Over None, None, release_group lane (stage_name s) sv, db'))))"

text \<open>The part after the gate: the write lane if the stage has one, then the claim.\<close>

definition enter_lane ::
  "stage \<Rightarrow> string \<Rightarrow> int \<Rightarrow> 'd claim_fn \<Rightarrow> supervisor \<Rightarrow> 'd
     \<Rightarrow> (begun \<times> string option \<times> supervisor \<times> 'd) \<times> string list" where
  "enter_lane s trigger now claim sv db =
     (let name = stage_name s
      in case exclusiveStageGroup name of
           None \<Rightarrow> (claim_stage s trigger claim None sv db, [])
         | Some g \<Rightarrow>
             (let (won, sv2) = tryClaimStageGroup g name sv
              in if won then (claim_stage s trigger claim (Some g) sv2 db, [])
                 else (let (ws, sv3) = log_blocked name (g @ '' write lane already active'') now sv2
                       in ((Over None, None, sv3, db), ws))))"

definition execute_begin ::
  "stage \<Rightarrow> string \<Rightarrow> string option \<Rightarrow> (string + gate_decision) \<Rightarrow> int \<Rightarrow> 'd claim_fn \<Rightarrow> supervisor \<Rightarrow> 'd
     \<Rightarrow> (begun \<times> string option \<times> supervisor \<times> 'd) \<times> string list" where
  "execute_begin s trigger ctx gate now claim sv db =
     (case ctx of
        Some e \<Rightarrow> ((Over (Some e), None, sv, db), [])
      | None \<Rightarrow>
          (if sv_gated sv
           then (case gate of
                   Inl e \<Rightarrow> ((Over (Some e), None, sv, db), [])
                 | Inr d \<Rightarrow>
                     (if \<not> allowed d
                      then (let (ws, sv') = log_blocked (stage_name s) (reason d) now sv
                            in ((Over None, None, sv', db), ws))
                      else enter_lane s trigger now claim (clearBlockedStageLog (stage_name s) sv) db))
           else enter_lane s trigger now claim sv db))"

text \<open>The second half: the runner has returned its metrics and perhaps an error.\<close>

definition execute_end ::
  "stage \<Rightarrow> begun \<Rightarrow> string option \<Rightarrow> string \<times> string option \<Rightarrow> 'd finish_fn \<Rightarrow> 'd finish_fn \<Rightarrow> supervisor \<Rightarrow> 'd
     \<Rightarrow> string option \<times> supervisor \<times> 'd" where
  "execute_end s b lane out complete fail sv db =
     (let (metrics, run_err) = out; sv' = release_group lane (stage_name s) sv
      in case b of
           Over res \<Rightarrow> (res, sv, db)
         | Due \<Rightarrow> (run_err, sv', db)
         | Due_run r \<Rightarrow>
             (case run_err of
                Some e \<Rightarrow>
                  (case fail (run_id r) (sv_owner sv) e metrics db of
                     (Some f, db') \<Rightarrow>
                       (Some (e @ '' (also failed to mark stage run failed: '' @ f @ '')''), sv', db')
                   | (None, db') \<Rightarrow> (Some e, sv', db'))
              | None \<Rightarrow>
                  (let (err, db') = complete (run_id r) (sv_owner sv) '''' metrics db
                   in (err, sv', db'))))"

text \<open>An execution with nothing interleaved; the runner also stands for what other processes do
  to the tracker while it runs.\<close>

definition executeStage ::
  "stage \<Rightarrow> string \<Rightarrow> string option \<Rightarrow> (string + gate_decision) \<Rightarrow> int \<Rightarrow>
   'd claim_fn \<Rightarrow> 'd finish_fn \<Rightarrow> 'd finish_fn \<Rightarrow> ('d \<Rightarrow> (string \<times> string option) \<times> 'd) \<Rightarrow> supervisor \<Rightarrow> 'd
     \<Rightarrow> string option \<times> supervisor \<times> 'd" where
  "executeStage s trigger ctx gate now claim complete fail runner sv db =
     (let (b, lane, sv1, db1) = fst (execute_begin s trigger ctx gate now claim sv db)
      in case b of
           Over res \<Rightarrow> (res, sv1, db1)
         | _ \<Rightarrow> (let (out, db2) = runner db1
                 in execute_end s b lane out complete fail sv1 db2))"

definition RunStageOnce ::
  "(stage \<Rightarrow> supervisor \<times> 'd \<Rightarrow> string option \<times> supervisor \<times> 'd) \<Rightarrow> string \<Rightarrow> supervisor \<times> 'd
     \<Rightarrow> string option \<times> supervisor \<times> 'd" where
  "RunStageOnce exec n st =
     (case stage_for n (fst st) of Inl e \<Rightarrow> (Some e, st) | Inr s \<Rightarrow> exec s st)"

text \<open>\<open>RunStagesOnce\<close>: in order, up to the first error; \<open>exec\<close> is the execution of one stage.\<close>

fun RunStagesOnce ::
  "(stage \<Rightarrow> supervisor \<times> 'd \<Rightarrow> string option \<times> supervisor \<times> 'd) \<Rightarrow> string list \<Rightarrow> supervisor \<times> 'd
     \<Rightarrow> string option \<times> supervisor \<times> 'd" where
  "RunStagesOnce exec [] st = (None, st)"
| "RunStagesOnce exec (n # ns) st =
     (case stage_for n (fst st) of
        Inl e \<Rightarrow> (Some e, st)
      | Inr s \<Rightarrow>
          (case exec s st of
             (Some e, st') \<Rightarrow> (Some (n @ '': '' @ e), st')
           | (None, st') \<Rightarrow> RunStagesOnce exec ns st'))"

text \<open>\<open>runStageLoop\<close>: once at the start and once per tick; \<open>ticks\<close> are the ticks before the
  context ends.\<close>

definition runStageLoop :: "('t \<Rightarrow> 's \<Rightarrow> 's) \<Rightarrow> 't \<Rightarrow> 't list \<Rightarrow> 's \<Rightarrow> 's" where
  "runStageLoop exec first ticks st = fold exec ticks (exec first st)"

text \<open>\<open>heartbeatStageRun\<close>: the outcomes of the heartbeats at the ticks until the runner is
  done; how many are sent, and the error it leaves.\<close>

fun heartbeatStageRun :: "string option list \<Rightarrow> nat \<times> string option" where
  "heartbeatStageRun [] = (0, None)"
| "heartbeatStageRun (Some e # outs) = (1, Some e)"
| "heartbeatStageRun (None # outs) = (let (n, err) = heartbeatStageRun outs in (Suc n, err))"


text \<open>A stage the examples use.\<close>

definition sample_stage :: stage where
  "sample_stage =
     \<lparr>stage_name = StageAssemble, stage_interval = 60 * second, stage_enabled = True,
      stage_batch = 100, stage_concurrency = 2, stage_backoff = 0, has_runner = True\<rparr>"

end
