(* ===== verification/Stage_Leases.thy ===== *)
theory Stage_Leases
  imports Stage_Store
begin

text \<open>
  What the stage leases guarantee. A history is a list of operations any number of supervisor
  processes issue, with arbitrary clocks and database errors; the invariant of the two tables
  holds after every history, and a lease that is renewed in time keeps its stage.
\<close>

section \<open>Histories\<close>

text \<open>A heartbeat carries the operations that fall between its two statements.\<close>

datatype lease_op =
    Claim_op claim_request int int int "string option"
  | Beat_op int string int int int "string option" "string option" "lease_op list"
  | Finish_op int string string string run_status int "string option"
  | Pause_op string bool int "string option"
  | Repair_op int "string option"
  | Purge_op int

fun run_op :: "lease_op \<Rightarrow> stage_db \<Rightarrow> stage_db"
and run_ops :: "lease_op list \<Rightarrow> stage_db \<Rightarrow> stage_db" where
  "run_op (Claim_op req clk0 clk now fault) db = snd (ClaimIndexerStage req clk0 clk now fault db)"
| "run_op (Beat_op rid who lease now1 now2 f1 f2 between) db =
     snd (HeartbeatIndexerStageRun rid who lease now1 now2 f1 f2 (\<lambda>d. run_ops between d) db)"
| "run_op (Finish_op rid who err metrics status now fault) db =
     (if status = Completed then snd (CompleteIndexerStageRun rid who err metrics now fault db)
      else snd (FailIndexerStageRun rid who err metrics now fault db))"
| "run_op (Pause_op name paused now fault) db =
     (if paused then snd (PauseIndexerStage name now fault db)
      else snd (ResumeIndexerStage name now fault db))"
| "run_op (Repair_op now fault) db = snd (RepairIndexerStageRuntime now fault db)"
| "run_op (Purge_op now) db = purge_old_runs now db"
| "run_ops [] db = db"
| "run_ops (x # xs) db = run_ops xs (run_op x db)"

section \<open>The invariant\<close>

definition runs_ok :: "stage_db \<Rightarrow> bool" where
  "runs_ok db \<longleftrightarrow>
     distinct (map st_name (db_states db)) \<and> distinct (map run_id (db_runs db)) \<and>
     (\<forall>r \<in> set (db_runs db). 0 < run_id r \<and> run_id r < db_next_id db) \<and> 0 < db_next_id db"

definition owned :: "stage_db \<Rightarrow> stage_run \<Rightarrow> bool" where
  "owned db r \<longleftrightarrow>
     (\<exists>s \<in> set (db_states db). st_name s = run_stage r \<and> st_last_run s = Some (run_id r))"

definition lease_inv :: "stage_db \<Rightarrow> bool" where
  "lease_inv db \<longleftrightarrow>
     runs_ok db \<and> (\<forall>r \<in> set (db_runs db). run_status r = Running \<longrightarrow> owned db r)"

lemma lease_inv_empty: "lease_inv empty_db"
  by (simp add: lease_inv_def runs_ok_def empty_db_def)

lemma set_update_where: "set (update_where p f rows) = (\<lambda>r. if p r then f r else r) ` set rows"
  by (simp add: update_where_def)

lemma map_update_where: "(\<And>r. k (f r) = k r) \<Longrightarrow> map k (update_where p f rows) = map k rows"
  by (simp add: update_where_def)

lemma bex_update_where:
  "s \<in> set rows \<Longrightarrow> Q (if p s then f s else s) \<Longrightarrow> \<exists>t \<in> set (update_where p f rows). Q t"
  by (rule bexI [of _ "if p s then f s else s"]) (simp_all only: set_update_where image_eqI)

lemma map_upsert_state:
  "(\<And>s. st_name (f s) = st_name s) \<Longrightarrow>
   map st_name (upsert_state name now f rows) =
     (if name \<in> st_name ` set rows then map st_name rows else map st_name rows @ [name])"
  by (auto simp: upsert_state_def map_update_where list_ex_iff default_state_def)

text \<open>The two shapes of change: the states keep their names and their last runs, or the runs
  only stop running.\<close>

definition same_leases :: "stage_db \<Rightarrow> stage_db \<Rightarrow> bool" where
  "same_leases db db' \<longleftrightarrow>
     (\<forall>s \<in> set (db_states db). \<exists>t \<in> set (db_states db').
        st_name t = st_name s \<and> st_last_run t = st_last_run s)"

definition runs_only_stop :: "stage_db \<Rightarrow> stage_db \<Rightarrow> bool" where
  "runs_only_stop db db' \<longleftrightarrow>
     (\<forall>r \<in> set (db_runs db'). run_status r = Running \<longrightarrow>
        (\<exists>q \<in> set (db_runs db). run_status q = Running \<and> run_id q = run_id r \<and> run_stage q = run_stage r))"

lemma lease_inv_change:
  assumes "lease_inv db" "runs_ok db'" "same_leases db db'" "runs_only_stop db db'"
  shows "lease_inv db'"
proof -
  have "owned db' r" if r: "r \<in> set (db_runs db')" "run_status r = Running" for r
  proof -
    from assms(4) r obtain q where q: "q \<in> set (db_runs db)" "run_status q = Running"
      "run_id q = run_id r" "run_stage q = run_stage r" by (auto simp: runs_only_stop_def)
    with assms(1) have "owned db q" by (simp add: lease_inv_def)
    then obtain s where "s \<in> set (db_states db)" "st_name s = run_stage q"
      "st_last_run s = Some (run_id q)" by (auto simp: owned_def)
    with assms(3) q show ?thesis unfolding same_leases_def owned_def by metis
  qed
  with assms(2) show ?thesis by (simp add: lease_inv_def)
qed


lemma runs_ok_states:
  "runs_ok db \<Longrightarrow> map st_name ss = map st_name (db_states db) \<Longrightarrow>
   runs_ok (db\<lparr>db_states := ss\<rparr>)"
  by (simp add: runs_ok_def)

lemma runs_ok_runs:
  assumes "runs_ok db" "map run_id rs = map run_id (db_runs db)"
  shows "runs_ok (db\<lparr>db_runs := rs\<rparr>)"
proof -
  have "run_id ` set rs = run_id ` set (db_runs db)"
    using arg_cong [OF assms(2), of set] by simp
  then have "\<forall>r \<in> set rs. run_id r \<in> run_id ` set (db_runs db)" by blast
  with assms show ?thesis by (auto simp: runs_ok_def)
qed

lemma same_leases_update:
  "(\<And>s. st_name (f s) = st_name s) \<Longrightarrow> (\<And>s. st_last_run (f s) = st_last_run s) \<Longrightarrow>
   same_leases db (db\<lparr>db_states := update_where p f (db_states db)\<rparr>)"
  by (auto simp: same_leases_def intro!: bex_update_where)

lemma only_stop_update:
  "(\<And>r. run_id (f r) = run_id r) \<Longrightarrow> (\<And>r. run_stage (f r) = run_stage r) \<Longrightarrow>
   (\<And>r. p r \<Longrightarrow> run_status (f r) = Running \<Longrightarrow> run_status r = Running) \<Longrightarrow>
   rs = update_where p f (db_runs db) \<Longrightarrow> runs_only_stop db (db\<lparr>db_runs := rs\<rparr>)"
  by (fastforce simp: runs_only_stop_def set_update_where split: if_splits)

text \<open>A step that changes states and runs in these ways keeps the invariant.\<close>

lemma lease_inv_step:
  assumes "lease_inv db"
    and "\<And>s. st_name (f s) = st_name s" "\<And>s. st_last_run (f s) = st_last_run s"
    and "\<And>r. run_id (g r) = run_id r" "\<And>r. run_stage (g r) = run_stage r"
    and "\<And>r. q r \<Longrightarrow> run_status (g r) = Running \<Longrightarrow> run_status r = Running"
  shows "lease_inv (db\<lparr>db_runs := update_where q g (db_runs db),
                      db_states := update_where p f (db_states db)\<rparr>)"
proof -
  let ?d1 = "db\<lparr>db_runs := update_where q g (db_runs db)\<rparr>"
  have ok: "runs_ok db" using assms(1) by (simp add: lease_inv_def)
  have "lease_inv ?d1"
    by (rule lease_inv_change [OF assms(1)])
      (use ok assms in \<open>auto intro!: runs_ok_runs map_update_where only_stop_update [OF _ _ _ refl]
         simp: same_leases_def\<close>)
  moreover have "runs_ok (?d1\<lparr>db_states := update_where p f (db_states db)\<rparr>)"
    using \<open>lease_inv ?d1\<close> assms(2) by (auto simp: lease_inv_def map_update_where intro!: runs_ok_states)
  moreover have "same_leases ?d1 (?d1\<lparr>db_states := update_where p f (db_states db)\<rparr>)"
    using same_leases_update [of f ?d1 p] assms by simp
  moreover have "runs_only_stop ?d1 (?d1\<lparr>db_states := update_where p f (db_states db)\<rparr>)"
    by (auto simp: runs_only_stop_def)
  ultimately have "lease_inv (?d1\<lparr>db_states := update_where p f (db_states db)\<rparr>)"
    by (rule lease_inv_change)
  then show ?thesis by simp
qed

lemma lease_inv_upsert:
  assumes "lease_inv db" "\<And>s. st_name (f s) = st_name s" "\<And>s. st_last_run (f s) = st_last_run s"
  shows "lease_inv (db\<lparr>db_states := upsert_state name now f (db_states db)\<rparr>)"
proof (rule lease_inv_change [OF assms(1)])
  show "runs_ok (db\<lparr>db_states := upsert_state name now f (db_states db)\<rparr>)"
    using assms by (auto simp: lease_inv_def runs_ok_def map_upsert_state)
  show "same_leases db (db\<lparr>db_states := upsert_state name now f (db_states db)\<rparr>)"
    using assms by (auto simp: same_leases_def upsert_state_def intro!: bex_update_where)
  show "runs_only_stop db (db\<lparr>db_states := upsert_state name now f (db_states db)\<rparr>)"
    by (auto simp: runs_only_stop_def)
qed


section \<open>Every operation keeps it\<close>

lemma abandon_keeps [simp]:
  "run_id (abandon why now r) = run_id r" "run_stage (abandon why now r) = run_stage r"
  "run_status (abandon why now r) = Abandoned" "run_owner (abandon why now r) = run_owner r"
  by (simp_all add: abandon_def)

lemma configure_keeps [simp]:
  "st_name (configure_state req now s) = st_name s"
  "st_last_run (configure_state req now s) = st_last_run s"
  "st_lease_owner (configure_state req now s) = st_lease_owner s"
  "st_lease_expires (configure_state req now s) = st_lease_expires s"
  "st_paused (configure_state req now s) = st_paused s"
  "st_enabled (configure_state req now s) = req_enabled req"
  by (simp_all add: configure_state_def Let_def)

lemma release_keeps [simp]:
  "st_name (release_lease rid owner ok err now s) = st_name s"
  "st_last_run (release_lease rid owner ok err now s) = st_last_run s"
  by (simp_all add: release_lease_def)

lemma finish_row_keeps [simp]:
  "run_id (finish_row st err m now r) = run_id r" "run_stage (finish_row st err m now r) = run_stage r"
  "run_status (finish_row st err m now r) = st"
  by (simp_all add: finish_row_def)

lemma find_state_member:
  "find_state name db = Some s \<Longrightarrow> s \<in> set (db_states db) \<and> st_name s = name"
  by (auto simp: find_state_def find_Some_iff)

lemma find_run_member: "find_run rid db = Some r \<Longrightarrow> r \<in> set (db_runs db) \<and> run_id r = rid"
  by (auto simp: find_run_def find_Some_iff)

lemma stopped_update:
  assumes "r \<in> set (update_where p f rows)" "run_status r = Running"
    "\<And>q. run_status (f q) \<noteq> Running"
  shows "r \<in> set rows \<and> \<not> p r"
proof -
  from assms(1) obtain q where "q \<in> set rows" "r = (if p q then f q else q)"
    by (auto simp only: set_update_where)
  with assms(2,3) show ?thesis by (cases "p q") auto
qed

lemma abandon_last_facts:
  shows "map run_id (abandon_last prev now rows) = map run_id rows"
    and "r \<in> set (abandon_last prev now rows) \<Longrightarrow> run_status r = Running \<Longrightarrow>
     r \<in> set rows \<and> prev \<noteq> Some (run_id r)"
proof -
  show "map run_id (abandon_last prev now rows) = map run_id rows"
    by (simp add: abandon_last_def map_update_where split: option.split)
  assume "r \<in> set (abandon_last prev now rows)" "run_status r = Running"
  then show "r \<in> set rows \<and> prev \<noteq> Some (run_id r)"
    by (cases prev) (auto simp: abandon_last_def dest!: stopped_update)
qed

lemma distinct_states:
  "distinct (map st_name ss) \<Longrightarrow> s \<in> set ss \<Longrightarrow> t \<in> set ss \<Longrightarrow> st_name s = st_name t \<Longrightarrow> s = t"
  unfolding distinct_map inj_on_def by blast

lemma distinct_runs:
  "distinct (map run_id rs) \<Longrightarrow> r \<in> set rs \<Longrightarrow> q \<in> set rs \<Longrightarrow> run_id r = run_id q \<Longrightarrow> r = q"
  unfolding distinct_map inj_on_def by blast

lemma lease_to_keeps [simp]: "st_name (lease_to o' e rid now s) = st_name s"
  by (simp add: lease_to_def)

lemma lease_inv_grant:
  assumes inv: "lease_inv db" and s: "find_state stage db = Some s"
  shows "lease_inv (snd (grant stage trigger who expires now s db))"
proof -
  let ?db = "snd (grant stage trigger who expires now s db)"
  let ?rs = "abandon_last (st_last_run s) now (db_runs db)"
  have db: "db_runs ?db = ?rs @ [new_run (db_next_id db) stage trigger who now]"
    "db_states ?db = update_where (\<lambda>t. st_name t = stage)
       (lease_to who expires (db_next_id db) now) (db_states db)"
    "db_next_id ?db = db_next_id db + 1"
    by (simp_all add: grant_def Let_def)
  have ok: "runs_ok db" using inv by (simp add: lease_inv_def)
  note ids = arg_cong [OF abandon_last_facts(1) [of "st_last_run s" now "db_runs db"], of set]
  have "\<forall>r \<in> set ?rs. 0 < run_id r \<and> run_id r < db_next_id db"
  proof
    fix r assume "r \<in> set ?rs"
    then have "run_id r \<in> run_id ` set (db_runs db)" using ids by auto
    then show "0 < run_id r \<and> run_id r < db_next_id db" using ok by (auto simp: runs_ok_def)
  qed
  then have "runs_ok ?db"
    using ok by (auto simp: runs_ok_def db new_run_def abandon_last_facts(1) map_update_where)
  moreover have "owned ?db r" if r: "r \<in> set (db_runs ?db)" "run_status r = Running" for r
  proof (cases "r \<in> set ?rs")
    case True
    then have r': "r \<in> set (db_runs db)" "st_last_run s \<noteq> Some (run_id r)"
      using abandon_last_facts(2) r(2) by blast+
    with inv r(2) obtain t where t: "t \<in> set (db_states db)" "st_name t = run_stage r"
      "st_last_run t = Some (run_id r)" by (auto simp: lease_inv_def owned_def)
    with r'(2) find_state_member [OF s] ok have "st_name t \<noteq> stage"
      by (metis distinct_states runs_ok_def)
    with t show ?thesis by (auto simp: owned_def db set_update_where)
  next
    case False
    then have "r = new_run (db_next_id db) stage trigger who now" using r by (simp add: db)
    with find_state_member [OF s] show ?thesis
      by (auto simp: owned_def db new_run_def lease_to_def intro!: bex_update_where)
  qed
  ultimately show ?thesis by (simp add: lease_inv_def)
qed

lemma lease_inv_claim:
  assumes "lease_inv db" shows "lease_inv (snd (ClaimIndexerStage req clk0 clk now fault db))"
proof -
  let ?db1 = "db\<lparr>db_states := upsert_state (trim_space (req_stage req)) now
                     (configure_state req now) (db_states db)\<rparr>"
  have "lease_inv ?db1" using assms by (rule lease_inv_upsert) simp_all
  then show ?thesis
    using assms lease_inv_grant [of ?db1]
    by (auto simp: ClaimIndexerStage_def Let_def case_prod_unfold split: option.split)
qed

lemma lease_inv_purge:
  assumes "lease_inv db" shows "lease_inv (purge_old_runs now db)"
proof -
  let ?db = "purge_old_runs now db"
  have ok: "runs_ok ?db"
    using assms by (auto simp: lease_inv_def runs_ok_def purge_old_runs_def Let_def map_update_where
        intro: distinct_map_filter)
  have "owned ?db r" if r: "r \<in> set (db_runs ?db)" "run_status r = Running" for r
  proof -
    have mem: "r \<in> set (db_runs db)" using r by (simp add: purge_old_runs_def Let_def)
    with assms r obtain s where s: "s \<in> set (db_states db)" "st_name s = run_stage r"
      "st_last_run s = Some (run_id r)" by (auto simp: lease_inv_def owned_def)
    have "run_id r \<notin> set (map run_id (filter (old_run now) (db_runs db)))"
    proof
      assume "run_id r \<in> set (map run_id (filter (old_run now) (db_runs db)))"
      then obtain q where q: "q \<in> set (db_runs db)" "old_run now q" "run_id q = run_id r" by auto
      then have "q = r" using assms mem distinct_runs unfolding lease_inv_def runs_ok_def by blast
      with q(2) r(2) show False by (simp add: old_run_def)
    qed
    with s show ?thesis
      by (auto simp: owned_def purge_old_runs_def Let_def intro!: bex_update_where)
  qed
  with ok show ?thesis by (simp add: lease_inv_def)
qed

lemma lease_inv_finish:
  assumes "lease_inv db" "status \<noteq> Running"
  shows "lease_inv (snd (finishIndexerStageRun rid who err m status now fault db))"
  using assms
  by (auto simp: finishIndexerStageRun_def Let_def split: option.split intro!: lease_inv_step)


lemma update_all: "update_where p (\<lambda>x. x) rows = rows"
  by (simp add: update_where_def)

lemma lease_inv_states:
  assumes "lease_inv db" "\<And>s. st_name (f s) = st_name s" "\<And>s. st_last_run (f s) = st_last_run s"
  shows "lease_inv (db\<lparr>db_states := update_where p f (db_states db)\<rparr>)"
  using lease_inv_step [OF assms(1), of f "\<lambda>r. r" "\<lambda>_. True" p] assms by (simp add: update_all)

lemma lease_inv_runs:
  assumes "lease_inv db" "\<And>r. run_id (g r) = run_id r" "\<And>r. run_stage (g r) = run_stage r"
    "\<And>r. q r \<Longrightarrow> run_status (g r) = Running \<Longrightarrow> run_status r = Running"
  shows "lease_inv (db\<lparr>db_runs := update_where q g (db_runs db)\<rparr>)"
  using lease_inv_step [OF assms(1), of "\<lambda>s. s" g q "\<lambda>_. True"] assms by (simp add: update_all)

lemma lease_inv_heartbeat:
  assumes "lease_inv db" "\<And>d. lease_inv d \<Longrightarrow> lease_inv (between d)"
  shows "lease_inv (snd (HeartbeatIndexerStageRun rid who lease now1 now2 f1 f2 between db))"
proof -
  let ?d1 = "db\<lparr>db_runs := update_where (beat_run rid (trim_space who))
               (\<lambda>r. r\<lparr>run_heartbeat := Some now1\<rparr>) (db_runs db)\<rparr>"
  have d1: "lease_inv ?d1" by (rule lease_inv_runs [OF assms(1)]) simp_all
  then have "lease_inv (between ?d1)" by (rule assms(2))
  then have "lease_inv (between ?d1\<lparr>db_states := update_where (beat_state rid (trim_space who))
      (\<lambda>s. s\<lparr>st_lease_expires := Some (now2 + lease_seconds lease * second),
             st_heartbeat := Some now2, st_updated := now2\<rparr>) (db_states (between ?d1))\<rparr>)"
    by (rule lease_inv_states) simp_all
  with d1 \<open>lease_inv (between ?d1)\<close> assms(1) show ?thesis
    by (simp add: HeartbeatIndexerStageRun_def Let_def split: option.split)
qed

lemma lease_inv_pause:
  "lease_inv db \<Longrightarrow> lease_inv (snd (setIndexerStagePaused name paused now fault db))"
  by (auto simp: setIndexerStagePaused_def Let_def split: option.split intro!: lease_inv_upsert)

lemma lease_inv_repair:
  "lease_inv db \<Longrightarrow> lease_inv (snd (RepairIndexerStageRuntime now fault db))"
  by (auto simp: RepairIndexerStageRuntime_def Let_def split: option.split intro!: lease_inv_step)

lemma lease_inv_ops:
  "lease_inv db \<Longrightarrow> lease_inv (run_op x db)"
  "lease_inv db \<Longrightarrow> lease_inv (run_ops ops db)"
proof (induction x db and ops db rule: run_op_run_ops.induct)
  case (2 rid who lease now1 now2 f1 f2 between db)
  then show ?case by (simp add: lease_inv_heartbeat)
next
  case (3 rid who err metrics status now fault db)
  then show ?case
    by (simp add: CompleteIndexerStageRun_def FailIndexerStageRun_def lease_inv_finish)
qed (simp_all add: lease_inv_claim PauseIndexerStage_def ResumeIndexerStage_def lease_inv_pause
      lease_inv_repair lease_inv_purge)

text \<open>C25: Whatever any number of supervisor processes do, with any clocks and any database errors
  - claims, heartbeats, finishes, pauses, repairs and clean-ups in any order, also between the
  two statements of a heartbeat - the table never holds two running runs of one stage.\<close>

theorem one_running_run:
  "length (filter (\<lambda>r. run_stage r = stage \<and> run_status r = Running)
            (db_runs (run_ops ops empty_db))) \<le> 1"
proof -
  let ?db = "run_ops ops empty_db"
  let ?rs = "filter (\<lambda>r. run_stage r = stage \<and> run_status r = Running) (db_runs ?db)"
  have inv: "lease_inv ?db" by (rule lease_inv_ops(2) [OF lease_inv_empty])
  then have d: "distinct (map st_name (db_states ?db))" "distinct (map run_id (db_runs ?db))"
    by (simp_all add: lease_inv_def runs_ok_def)
  have "r = q" if rq: "r \<in> set ?rs" "q \<in> set ?rs" for r q
  proof -
    from rq have m: "r \<in> set (db_runs ?db)" "q \<in> set (db_runs ?db)" "run_stage r = run_stage q"
      by simp_all
    from inv rq have "owned ?db r" "owned ?db q" by (simp_all add: lease_inv_def)
    with m(3) d(1) have "run_id r = run_id q"
      unfolding owned_def by (metis distinct_states option.inject)
    with m d(2) show ?thesis by (metis distinct_runs)
  qed
  moreover have "distinct ?rs" using d(2) by (simp add: distinct_map)
  ultimately show ?thesis
    by (metis (no_types, lifting) One_nat_def card_le_Suc0_iff_eq distinct_card finite_set)
qed

section \<open>A lease that is renewed in time\<close>

text \<open>The run \<open>rid\<close> of \<open>stage\<close> is running for \<open>owner\<close>, whose lease lasts at least to
  \<open>e\<close>.\<close>

definition run_held :: "string \<Rightarrow> int \<Rightarrow> string \<Rightarrow> stage_run \<Rightarrow> bool" where
  "run_held owner rid stage r \<longleftrightarrow>
     run_id r = rid \<and> run_status r = Running \<and> run_owner r = owner \<and> run_stage r = stage"

definition state_held :: "string \<Rightarrow> int \<Rightarrow> string \<Rightarrow> int \<Rightarrow> stage_state \<Rightarrow> bool" where
  "state_held owner rid stage e s \<longleftrightarrow>
     st_name s = stage \<and> st_lease_owner s = owner \<and> st_last_run s = Some rid \<and>
     (case st_lease_expires s of None \<Rightarrow> False | Some x \<Rightarrow> e \<le> x)"

definition holds :: "string \<Rightarrow> int \<Rightarrow> string \<Rightarrow> int \<Rightarrow> stage_db \<Rightarrow> bool" where
  "holds owner rid stage e db \<longleftrightarrow>
     list_ex (run_held owner rid stage) (db_runs db) \<and>
     list_ex (state_held owner rid stage e) (db_states db)"

text \<open>Until when the lease is known to last after an operation; \<open>None\<close> when the operation may
  end it: a claim or a repair after the expiry, or the owner's own finish. A heartbeat of the
  owner renews it.\<close>

fun stays :: "string \<Rightarrow> int \<Rightarrow> lease_op \<Rightarrow> int \<Rightarrow> int option"
and stays_all :: "string \<Rightarrow> int \<Rightarrow> lease_op list \<Rightarrow> int \<Rightarrow> int option" where
  "stays owner rid (Claim_op req clk0 clk now fault) e = (if clk < e then Some e else None)"
| "stays owner rid (Beat_op rid' who lease now1 now2 f1 f2 between) e =
     (case stays_all owner rid between e of
        None \<Rightarrow> None
      | Some e' \<Rightarrow>
          Some (if rid' = rid \<and> trim_space who = owner \<and> f1 = None \<and> f2 = None
                then now2 + lease_seconds lease * second else min e e'))"
| "stays owner rid (Finish_op rid' who err metrics status now fault) e =
     (if rid' = rid \<and> trim_space who = owner then None else Some e)"
| "stays owner rid (Pause_op name paused now fault) e = Some e"
| "stays owner rid (Repair_op now fault) e = (if now \<le> e then Some e else None)"
| "stays owner rid (Purge_op now) e = Some e"
| "stays_all owner rid [] e = Some e"
| "stays_all owner rid (x # xs) e =
     (case stays owner rid x e of None \<Rightarrow> None | Some e' \<Rightarrow> stays_all owner rid xs e')"

lemma holds_alt:
  "holds owner rid stage e db \<longleftrightarrow>
     (\<exists>r \<in> set (db_runs db). run_held owner rid stage r) \<and>
     (\<exists>s \<in> set (db_states db). state_held owner rid stage e s)"
  by (simp add: holds_def list_ex_iff)

lemma holds_mono: "holds owner rid stage e db \<Longrightarrow> e' \<le> e \<Longrightarrow> holds owner rid stage e' db"
  by (fastforce simp: holds_alt state_held_def split: option.splits)

lemma holds_update:
  assumes "holds owner rid stage e db"
    and "\<And>r. run_held owner rid stage r \<Longrightarrow> run_held owner rid stage (if q r then g r else r)"
    and "\<And>s. state_held owner rid stage e s \<Longrightarrow> state_held owner rid stage e' (if p s then f s else s)"
  shows "holds owner rid stage e' (db\<lparr>db_runs := update_where q g (db_runs db),
           db_states := update_where p f (db_states db)\<rparr>)"
proof -
  obtain r s where rs: "r \<in> set (db_runs db)" "run_held owner rid stage r"
    "s \<in> set (db_states db)" "state_held owner rid stage e s"
    using assms(1) by (auto simp: holds_alt)
  show ?thesis
    using bex_update_where [OF rs(1), of "run_held owner rid stage" q g, OF assms(2) [OF rs(2)]]
      bex_update_where [OF rs(3), of "state_held owner rid stage e'" p f, OF assms(3) [OF rs(4)]]
    by (simp add: holds_alt)
qed

lemma holds_update_states:
  assumes "holds owner rid stage e db"
    and "\<And>s. state_held owner rid stage e s \<Longrightarrow> state_held owner rid stage e' (if p s then f s else s)"
  shows "holds owner rid stage e' (db\<lparr>db_states := update_where p f (db_states db)\<rparr>)"
  using holds_update [OF assms(1), of "\<lambda>_. True" "\<lambda>r. r" e' p f] assms(2) by (simp add: update_all)

lemma holds_update_runs:
  assumes "holds owner rid stage e db"
    and "\<And>r. run_held owner rid stage r \<Longrightarrow> run_held owner rid stage (if q r then g r else r)"
  shows "holds owner rid stage e (db\<lparr>db_runs := update_where q g (db_runs db)\<rparr>)"
  using holds_update [OF assms(1), of q g e "\<lambda>_. True" "\<lambda>s. s"] assms(2) by (simp add: update_all)

lemma holds_upsert:
  assumes "holds owner rid stage e db"
    and "\<And>s. state_held owner rid stage e s \<Longrightarrow> state_held owner rid stage e (f s)"
  shows "holds owner rid stage e (db\<lparr>db_states := upsert_state name now f (db_states db)\<rparr>)"
proof (cases "list_ex (\<lambda>s. st_name s = name) (db_states db)")
  case True
  then show ?thesis using holds_update_states [OF assms(1)] assms(2) by (simp add: upsert_state_def)
next
  case False
  with assms(1) show ?thesis by (auto simp: upsert_state_def holds_alt)
qed

text \<open>A claim on the clock before the expiry is refused, for every process.\<close>

lemma holds_refuses:
  assumes inv: "lease_inv db" and h: "holds owner rid stage e db" and o: "owner \<noteq> ''''"
    and s: "find_state stage db = Some s" and clk: "clk < e"
  shows "claim_refusal who clk s db \<noteq> None"
proof -
  from h obtain r t where r: "r \<in> set (db_runs db)" "run_held owner rid stage r"
    and t: "t \<in> set (db_states db)" "state_held owner rid stage e t" by (auto simp: holds_alt)
  have d: "distinct (map st_name (db_states db))" "distinct (map run_id (db_runs db))"
    using inv by (simp_all add: lease_inv_def runs_ok_def)
  have "t = s" using find_state_member [OF s] t distinct_states [OF d(1)]
    by (auto simp: state_held_def)
  moreover have "find_run rid db = Some r"
  proof (cases "find_run rid db")
    case None
    then show ?thesis using r by (auto simp: find_run_def find_None_iff run_held_def)
  next
    case (Some q)
    then have "q = r" using find_run_member [OF Some] r distinct_runs [OF d(2)]
      by (auto simp: run_held_def)
    with Some show ?thesis by simp
  qed
  ultimately show ?thesis using t(2) r(2) o clk
    by (auto simp: claim_refusal_def state_held_def run_held_def split: option.splits)
qed

section \<open>A stage points to its own runs\<close>

definition state_pairs :: "stage_db \<Rightarrow> (string \<times> int) set" where
  "state_pairs db = {(st_name s, rid) | s rid. s \<in> set (db_states db) \<and> st_last_run s = Some rid}"

definition run_pairs :: "stage_db \<Rightarrow> (int \<times> string) set" where
  "run_pairs db = (\<lambda>r. (run_id r, run_stage r)) ` set (db_runs db)"

definition homed :: "stage_db \<Rightarrow> bool" where
  "homed db \<longleftrightarrow>
     (\<forall>(n, rid) \<in> state_pairs db. rid < db_next_id db \<and> (\<forall>st. (rid, st) \<in> run_pairs db \<longrightarrow> st = n))"

lemma homed_empty: "homed empty_db"
  by (simp add: homed_def state_pairs_def empty_db_def)

lemma homed_change:
  "homed db \<Longrightarrow> state_pairs db' \<subseteq> state_pairs db \<Longrightarrow> run_pairs db' \<subseteq> run_pairs db \<Longrightarrow>
   db_next_id db' = db_next_id db \<Longrightarrow> homed db'"
  unfolding homed_def by fastforce

lemma state_pairs_update:
  assumes "\<And>s. st_name (f s) = st_name s"
    "\<And>s. p s \<Longrightarrow> st_last_run (f s) = st_last_run s \<or> st_last_run (f s) = None"
    "db_states db' = update_where p f (db_states db)"
  shows "state_pairs db' \<subseteq> state_pairs db"
proof -
  have "(st_name s, rid) \<in> state_pairs db"
    if "s \<in> set (db_states db')" "st_last_run s = Some rid" for s rid
  proof -
    from that(1) obtain t where t: "t \<in> set (db_states db)" "s = (if p t then f t else t)"
      by (auto simp only: assms(3) set_update_where)
    then show ?thesis using assms(1,2) [of t] that(2)
      by (cases "p t") (auto simp: state_pairs_def)
  qed
  then show ?thesis by (auto simp: state_pairs_def)
qed

lemma state_pairs_upsert:
  assumes "\<And>s. st_name (f s) = st_name s" "\<And>s. st_last_run (f s) = st_last_run s"
  shows "state_pairs (db\<lparr>db_states := upsert_state name now f (db_states db)\<rparr>) \<subseteq> state_pairs db"
proof (cases "list_ex (\<lambda>s. st_name s = name) (db_states db)")
  case True
  show ?thesis
    by (rule state_pairs_update [of f "\<lambda>s. st_name s = name"]) (simp_all add: assms True upsert_state_def)
next
  case False
  then show ?thesis using assms by (auto simp: upsert_state_def state_pairs_def default_state_def)
qed

lemma run_pairs_update:
  assumes "\<And>r. run_id (g r) = run_id r" "\<And>r. run_stage (g r) = run_stage r"
    "db_runs db' = update_where p g (db_runs db)"
  shows "run_pairs db' = run_pairs db"
proof -
  have "map (\<lambda>r. (run_id r, run_stage r)) (db_runs db') = map (\<lambda>r. (run_id r, run_stage r)) (db_runs db)"
    using assms by (simp add: map_update_where)
  from arg_cong [OF this, of set] show ?thesis by (simp add: run_pairs_def)
qed

lemma homed_grant:
  assumes h: "homed db" and ok: "runs_ok db" and s: "find_state stage db = Some s"
  shows "homed (snd (grant stage trigger who expires now s db))"
proof -
  let ?db = "snd (grant stage trigger who expires now s db)"
  have runs: "run_pairs ?db = insert (db_next_id db, stage) (run_pairs db)"
  proof -
    have "run_pairs (db\<lparr>db_runs := abandon_last (st_last_run s) now (db_runs db)\<rparr>) = run_pairs db"
    proof (cases "st_last_run s")
      case (Some rid)
      show ?thesis
        by (rule run_pairs_update [of "abandon ''lease expired before completion'' now" _
              "\<lambda>r. run_id r = rid \<and> run_status r = Running"]) (simp_all add: abandon_last_def Some)
    qed (simp add: abandon_last_def)
    then show ?thesis by (simp add: run_pairs_def grant_def Let_def new_run_def)
  qed
  have states: "state_pairs ?db \<subseteq> insert (stage, db_next_id db) (state_pairs db)"
    by (auto simp: state_pairs_def grant_def Let_def set_update_where lease_to_def split: if_splits)
  have fresh: "(db_next_id db, st) \<notin> run_pairs db" for st
    using ok by (auto simp: runs_ok_def run_pairs_def)
  have nxt: "db_next_id ?db = db_next_id db + 1" by (simp add: grant_def Let_def)
  show ?thesis unfolding homed_def
  proof (clarify, intro conjI allI impI)
    fix n rid assume m: "(n, rid) \<in> state_pairs ?db"
    then have c: "n = stage \<and> rid = db_next_id db \<or> (n, rid) \<in> state_pairs db" using states by auto
    then show "rid < db_next_id ?db" using h by (auto simp: homed_def nxt)
    fix st assume "(rid, st) \<in> run_pairs ?db"
    then show "st = n" using c h fresh by (auto simp: homed_def runs)
  qed
qed

lemma homed_claim:
  assumes "lease_inv db" "homed db"
  shows "homed (snd (ClaimIndexerStage req clk0 clk now fault db))"
proof -
  let ?db1 = "db\<lparr>db_states := upsert_state (trim_space (req_stage req)) now
                     (configure_state req now) (db_states db)\<rparr>"
  have "lease_inv ?db1" using assms(1) by (rule lease_inv_upsert) simp_all
  moreover have "homed ?db1"
    by (rule homed_change [OF assms(2) state_pairs_upsert]) (simp_all add: run_pairs_def)
  ultimately show ?thesis
    using assms homed_grant [of ?db1]
    by (auto simp: ClaimIndexerStage_def Let_def case_prod_unfold lease_inv_def split: option.split)
qed

definition tables_ok :: "stage_db \<Rightarrow> bool" where
  "tables_ok db \<longleftrightarrow> lease_inv db \<and> homed db"

lemma homed_update:
  assumes "homed db" "\<And>r. run_id (g r) = run_id r" "\<And>r. run_stage (g r) = run_stage r"
    "\<And>s. st_name (f s) = st_name s" "\<And>s. st_last_run (f s) = st_last_run s"
  shows "homed (db\<lparr>db_runs := update_where q g (db_runs db),
                   db_states := update_where p f (db_states db)\<rparr>)"
proof (rule homed_change [OF assms(1)])
  let ?db = "db\<lparr>db_runs := update_where q g (db_runs db), db_states := update_where p f (db_states db)\<rparr>"
  show "state_pairs ?db \<subseteq> state_pairs db"
    by (rule state_pairs_update [of f p]) (simp_all add: assms)
  show "run_pairs ?db \<subseteq> run_pairs db"
    using run_pairs_update [of g ?db q db] assms by simp
qed simp

lemma homed_update_states:
  assumes "homed db" "\<And>s. st_name (f s) = st_name s" "\<And>s. st_last_run (f s) = st_last_run s"
  shows "homed (db\<lparr>db_states := update_where p f (db_states db)\<rparr>)"
  using homed_update [of db "\<lambda>r. r" f p "\<lambda>_. True"] assms by (simp add: update_all)

lemma homed_update_runs:
  assumes "homed db" "\<And>r. run_id (g r) = run_id r" "\<And>r. run_stage (g r) = run_stage r"
  shows "homed (db\<lparr>db_runs := update_where q g (db_runs db)\<rparr>)"
  using homed_update [of db g "\<lambda>s. s" "\<lambda>_. True" q] assms by (simp add: update_all)

lemma homed_purge:
  assumes "homed db" shows "homed (purge_old_runs now db)"
proof (rule homed_change [OF assms])
  let ?p = "\<lambda>s. case st_last_run s of None \<Rightarrow> False
                | Some rid \<Rightarrow> rid \<in> set (map run_id (filter (old_run now) (db_runs db)))"
  show "state_pairs (purge_old_runs now db) \<subseteq> state_pairs db"
    by (rule state_pairs_update [of "\<lambda>s. s\<lparr>st_last_run := None\<rparr>" ?p])
      (simp_all add: purge_old_runs_def Let_def)
  show "run_pairs (purge_old_runs now db) \<subseteq> run_pairs db"
    by (auto simp: run_pairs_def purge_old_runs_def Let_def)
qed (simp add: purge_old_runs_def Let_def)

lemma homed_heartbeat:
  assumes "lease_inv db" "homed db"
    "\<And>d. lease_inv d \<Longrightarrow> homed d \<Longrightarrow> homed (between d)"
  shows "homed (snd (HeartbeatIndexerStageRun rid who lease now1 now2 f1 f2 between db))"
proof -
  let ?d1 = "db\<lparr>db_runs := update_where (beat_run rid (trim_space who))
               (\<lambda>r. r\<lparr>run_heartbeat := Some now1\<rparr>) (db_runs db)\<rparr>"
  have "lease_inv ?d1" by (rule lease_inv_runs [OF assms(1)]) simp_all
  moreover have d1: "homed ?d1" by (rule homed_update_runs [OF assms(2)]) simp_all
  ultimately have d2: "homed (between ?d1)" by (rule assms(3))
  then have "homed (between ?d1\<lparr>db_states := update_where (beat_state rid (trim_space who))
      (\<lambda>s. s\<lparr>st_lease_expires := Some (now2 + lease_seconds lease * second),
             st_heartbeat := Some now2, st_updated := now2\<rparr>) (db_states (between ?d1))\<rparr>)"
    by (rule homed_update_states) simp_all
  with d1 d2 assms(2) show ?thesis
    by (simp add: HeartbeatIndexerStageRun_def Let_def split: option.split)
qed

lemma homed_finish: "homed db \<Longrightarrow> homed (snd (finishIndexerStageRun rid who err m status now fault db))"
  by (auto simp: finishIndexerStageRun_def Let_def split: option.split intro!: homed_update)

lemma homed_upsert:
  assumes "homed db" "\<And>s. st_name (f s) = st_name s" "\<And>s. st_last_run (f s) = st_last_run s"
  shows "homed (db\<lparr>db_states := upsert_state name now f (db_states db)\<rparr>)"
  by (rule homed_change [OF assms(1) state_pairs_upsert]) (simp_all add: assms run_pairs_def)

lemma homed_pause: "homed db \<Longrightarrow> homed (snd (setIndexerStagePaused name paused now fault db))"
  by (auto simp: setIndexerStagePaused_def Let_def split: option.split intro!: homed_upsert)

lemma homed_repair: "homed db \<Longrightarrow> homed (snd (RepairIndexerStageRuntime now fault db))"
  by (auto simp: RepairIndexerStageRuntime_def Let_def split: option.split intro!: homed_update)

lemma homed_ops:
  "lease_inv db \<Longrightarrow> homed db \<Longrightarrow> homed (run_op x db)"
  "lease_inv db \<Longrightarrow> homed db \<Longrightarrow> homed (run_ops ops db)"
proof (induction x db and ops db rule: run_op_run_ops.induct)
  case (2 rid who lease now1 now2 f1 f2 between db)
  then show ?case by (simp add: homed_heartbeat)
next
  case (3 rid who err metrics status now fault db)
  then show ?case
    by (simp add: CompleteIndexerStageRun_def FailIndexerStageRun_def homed_finish)
qed (simp_all add: homed_claim PauseIndexerStage_def ResumeIndexerStage_def homed_pause
      homed_repair homed_purge lease_inv_ops)


lemma tables_ok_empty: "tables_ok empty_db"
  by (simp add: tables_ok_def lease_inv_empty homed_empty)

lemma tables_ok_ops:
  "tables_ok db \<Longrightarrow> tables_ok (run_op x db)" "tables_ok db \<Longrightarrow> tables_ok (run_ops ops db)"
  by (simp_all add: tables_ok_def lease_inv_ops homed_ops)

section \<open>The held lease through every operation\<close>

lemma holds_grant:
  assumes ok: "tables_ok db" and h: "holds owner rid stage e db"
    and s: "find_state st db = Some s" and other: "st \<noteq> stage"
  shows "holds owner rid stage e (snd (grant st trigger who expires now s db))"
proof -
  obtain r t where r: "r \<in> set (db_runs db)" "run_held owner rid stage r"
    and t: "t \<in> set (db_states db)" "state_held owner rid stage e t"
    using h by (auto simp: holds_alt)
  have "st_last_run s \<noteq> Some rid"
  proof
    assume "st_last_run s = Some rid"
    then have "(st, rid) \<in> state_pairs db" using find_state_member [OF s] by (auto simp: state_pairs_def)
    moreover have "(rid, stage) \<in> run_pairs db" using r by (auto simp: run_pairs_def run_held_def)
    ultimately show False using ok other by (auto simp: tables_ok_def homed_def)
  qed
  then have "r \<in> set (abandon_last (st_last_run s) now (db_runs db))"
    using r by (auto simp: abandon_last_def update_where_def run_held_def image_iff
        intro!: bexI [of _ r] split: option.split)
  moreover have "t \<in> set (db_states (snd (grant st trigger who expires now s db)))"
    using t other by (auto simp: grant_def Let_def update_where_def state_held_def image_iff
        intro!: bexI [of _ t])
  ultimately show ?thesis using r(2) t(2)
    by (auto simp: holds_alt grant_def Let_def)
qed

lemma holds_claim:
  assumes ok: "tables_ok db" and h: "holds owner rid stage e db" and o: "owner \<noteq> ''''" and clk: "clk < e"
  shows "holds owner rid stage e (snd (ClaimIndexerStage req clk0 clk now fault db))"
proof -
  let ?st = "trim_space (req_stage req)"
  let ?db1 = "db\<lparr>db_states := upsert_state ?st now (configure_state req now) (db_states db)\<rparr>"
  have h1: "holds owner rid stage e ?db1"
    by (rule holds_upsert [OF h]) (simp add: state_held_def)
  have ok1: "tables_ok ?db1"
    using ok by (simp add: tables_ok_def lease_inv_upsert homed_upsert)
  then have inv1: "lease_inv ?db1" by (simp add: tables_ok_def)
  have "holds owner rid stage e (snd (grant ?st trigger who expires now s ?db1))"
    if s: "find_state ?st ?db1 = Some s" "claim_refusal who clk s ?db1 = None" for s trigger who expires
  proof (rule holds_grant [OF ok1 h1 s(1)])
    show "?st \<noteq> stage" using holds_refuses [OF inv1 h1 o _ clk] s by metis
  qed
  with h h1 show ?thesis
    by (auto simp: ClaimIndexerStage_def Let_def case_prod_unfold split: option.split)
qed

lemma holds_heartbeat:
  assumes h: "holds owner rid stage e db"
    and btw: "\<And>d. tables_ok d \<Longrightarrow> holds owner rid stage e d \<Longrightarrow> holds owner rid stage e' (between d)"
    and ok: "tables_ok db" and o: "owner \<noteq> []"
  shows "holds owner rid stage
           (if rid' = rid \<and> trim_space who = owner \<and> f1 = None \<and> f2 = None
            then now2 + lease_seconds lease * second else min e e')
           (snd (HeartbeatIndexerStageRun rid' who lease now1 now2 f1 f2 between db))"
proof -
  let ?d1 = "db\<lparr>db_runs := update_where (beat_run rid' (trim_space who))
               (\<lambda>r. r\<lparr>run_heartbeat := Some now1\<rparr>) (db_runs db)\<rparr>"
  have h1: "holds owner rid stage e ?d1"
    by (rule holds_update_runs [OF h]) (simp add: run_held_def)
  have "tables_ok ?d1"
    using ok by (auto simp: tables_ok_def intro!: lease_inv_runs homed_update_runs)
  then have h2: "holds owner rid stage e' (between ?d1)" using h1 by (rule btw)
  have h3: "holds owner rid stage
      (if rid' = rid \<and> trim_space who = owner then now2 + lease_seconds lease * second else e')
      (between ?d1\<lparr>db_states := update_where (beat_state rid' (trim_space who))
         (\<lambda>s. s\<lparr>st_lease_expires := Some (now2 + lease_seconds lease * second),
                st_heartbeat := Some now2, st_updated := now2\<rparr>) (db_states (between ?d1))\<rparr>)"
    by (rule holds_update_states [OF h2]) (auto simp: state_held_def beat_state_def)
  obtain r where r: "r \<in> set (db_runs db)" "run_held owner rid stage r"
    using h by (auto simp: holds_alt)
  have hit: "rows_affected (beat_run rid' (trim_space who)) (db_runs db) \<noteq> 0" "0 < rid'" "trim_space who \<noteq> ''''"
    if "rid' = rid" "trim_space who = owner"
    using r that ok o by (auto simp: rows_affected_def filter_empty_conv beat_run_def run_held_def
        tables_ok_def lease_inv_def runs_ok_def)
  have low: "holds owner rid stage (min e e') db" "holds owner rid stage (min e e') ?d1"
    "holds owner rid stage (min e e') (between ?d1)"
    using h h1 h2 by (auto intro: holds_mono)
  note beat = HeartbeatIndexerStageRun_def Let_def
  show ?thesis
  proof (cases "rid' = rid \<and> trim_space who = owner")
    case True
    then show ?thesis using h3 low hit by (auto simp: beat split: option.split)
  next
    case False
    then have "holds owner rid stage (min e e') (between ?d1\<lparr>db_states :=
        update_where (beat_state rid' (trim_space who))
         (\<lambda>s. s\<lparr>st_lease_expires := Some (now2 + lease_seconds lease * second),
                st_heartbeat := Some now2, st_updated := now2\<rparr>) (db_states (between ?d1))\<rparr>)"
      using h3 by (auto intro: holds_mono)
    with False low show ?thesis by (auto simp: beat split: option.split)
  qed
qed

lemma holds_finish:
  assumes h: "holds owner rid stage e db" and ok: "tables_ok db"
    and n: "\<not> (rid' = rid \<and> trim_space who = owner)"
  shows "holds owner rid stage e (snd (finishIndexerStageRun rid' who err m status now fault db))"
proof (cases "rid' = rid")
  case False
  then show ?thesis using h
    by (auto simp: finishIndexerStageRun_def Let_def split: option.split intro!: holds_update)
      (auto simp: run_held_def state_held_def release_lease_def)
next
  case True
  obtain r where r: "r \<in> set (db_runs db)" "run_held owner rid stage r"
    using h by (auto simp: holds_alt)
  have "find (\<lambda>r. run_id r = rid \<and> run_owner r = trim_space who) (db_runs db) = None"
  proof -
    have "q = r" if "q \<in> set (db_runs db)" "run_id q = rid" for q
      using that r ok distinct_runs by (auto simp: tables_ok_def lease_inv_def runs_ok_def run_held_def)
    then have "run_owner q = owner" if "q \<in> set (db_runs db)" "run_id q = rid" for q
      using that r(2) by (auto simp: run_held_def)
    with n True show ?thesis by (auto simp: find_None_iff)
  qed
  with h True show ?thesis by (auto simp: finishIndexerStageRun_def Let_def split: option.split)
qed

lemma holds_pause:
  assumes "holds owner rid stage e db"
  shows "holds owner rid stage e (snd (setIndexerStagePaused name paused now fault db))"
proof -
  have "holds owner rid stage e (db\<lparr>db_states := upsert_state (trim_space name) now
          (\<lambda>s. s\<lparr>st_paused := paused, st_updated := now\<rparr>) (db_states db)\<rparr>)"
    by (rule holds_upsert [OF assms]) (simp add: state_held_def)
  with assms show ?thesis by (simp add: setIndexerStagePaused_def Let_def split: option.split)
qed

lemma holds_repair:
  assumes h: "holds owner rid stage e db" and ok: "tables_ok db" and now: "now \<le> e"
  shows "holds owner rid stage e (snd (RepairIndexerStageRuntime now fault db))"
proof -
  obtain r where r: "r \<in> set (db_runs db)" "run_held owner rid stage r"
    using h by (auto simp: holds_alt)
  have kept: "\<not> lease_expired now s" if "state_held owner rid stage e s" for s
    using that now by (auto simp: lease_expired_def state_held_def split: option.splits)
  have other: "st_last_run s \<noteq> Some rid" if s: "s \<in> set (db_states db)" "lease_expired now s" for s
  proof
    assume l: "st_last_run s = Some rid"
    obtain t where t: "t \<in> set (db_states db)" "state_held owner rid stage e t"
      using h by (auto simp: holds_alt)
    have "(st_name s, rid) \<in> state_pairs db" using s l by (auto simp: state_pairs_def)
    moreover have "(rid, stage) \<in> run_pairs db" using r by (auto simp: run_pairs_def run_held_def)
    ultimately have "st_name s = stage" using ok by (auto simp: tables_ok_def homed_def)
    then have "s = t" using s t ok distinct_states
      by (auto simp: tables_ok_def lease_inv_def runs_ok_def state_held_def)
    with s kept [OF t(2)] show False by simp
  qed
  show ?thesis
    using h kept other
    by (auto simp: RepairIndexerStageRuntime_def Let_def split: option.split intro!: holds_update)
      (auto simp: run_held_def)
qed

lemma holds_purge:
  assumes h: "holds owner rid stage e db" and ok: "tables_ok db"
  shows "holds owner rid stage e (purge_old_runs now db)"
proof -
  obtain r t where r: "r \<in> set (db_runs db)" "run_held owner rid stage r"
    and t: "t \<in> set (db_states db)" "state_held owner rid stage e t"
    using h by (auto simp: holds_alt)
  have "rid \<notin> set (map run_id (filter (old_run now) (db_runs db)))"
  proof
    assume "rid \<in> set (map run_id (filter (old_run now) (db_runs db)))"
    then obtain q where q: "q \<in> set (db_runs db)" "old_run now q" "run_id q = rid" by auto
    then have "q = r" using r ok distinct_runs
      by (auto simp: tables_ok_def lease_inv_def runs_ok_def run_held_def)
    with q(2) r(2) show False by (simp add: old_run_def run_held_def)
  qed
  with r t show ?thesis
    by (auto simp: holds_alt purge_old_runs_def Let_def old_run_def run_held_def state_held_def
        intro!: bex_update_where)
qed

lemma holds_ops:
  "tables_ok db \<Longrightarrow> holds owner rid stage e db \<Longrightarrow> stays owner rid x e = Some e' \<Longrightarrow> owner \<noteq> [] \<Longrightarrow>
     holds owner rid stage e' (run_op x db)"
  "tables_ok db \<Longrightarrow> holds owner rid stage e db \<Longrightarrow> stays_all owner rid ops e = Some e' \<Longrightarrow>
     owner \<noteq> [] \<Longrightarrow> holds owner rid stage e' (run_ops ops db)"
proof (induction x db and ops db arbitrary: e e' and e e' rule: run_op_run_ops.induct)
  case (1 req clk0 clk now fault db)
  then show ?case using holds_claim by (auto split: if_splits)
next
  case (2 rid' who lease now1 now2 f1 f2 between db)
  from 2(4) obtain m where m: "stays_all owner rid between e = Some m"
    "e' = (if rid' = rid \<and> trim_space who = owner \<and> f1 = None \<and> f2 = None
           then now2 + lease_seconds lease * second else min e m)"
    by (auto split: option.splits)
  show ?case
    unfolding run_op.simps m(2)
    by (rule holds_heartbeat [OF 2(3)]) (use 2 m in auto)
next
  case (3 rid' who err metrics status now fault db)
  then have "\<not> (rid' = rid \<and> trim_space who = owner)" "e' = e" by (auto split: if_splits)
  with 3 show ?case
    by (simp add: CompleteIndexerStageRun_def FailIndexerStageRun_def holds_finish)
next
  case (8 x xs db)
  then show ?case by (auto split: option.splits simp: tables_ok_ops)
qed (auto simp: PauseIndexerStage_def ResumeIndexerStage_def holds_pause holds_repair holds_purge
      split: if_splits)

text \<open>What a successful claim establishes.\<close>

lemma claim_holds:
  assumes ok: "tables_ok db"
    and c: "ClaimIndexerStage req clk0 clk now fault db = (Inr res, db')" "claim_run res = Some r"
  shows "holds (run_owner r) (run_id r) (run_stage r)
           (clk0 + (if req_lease req \<le> 0 then 30 * second else req_lease req)) db'
         \<and> run_owner r = trim_space (req_owner req) \<and> run_owner r \<noteq> ''''"
proof -
  let ?st = "trim_space (req_stage req)" and ?who = "trim_space (req_owner req)"
  let ?db1 = "db\<lparr>db_states := upsert_state ?st now (configure_state req now) (db_states db)\<rparr>"
  let ?exp = "clk0 + (if req_lease req \<le> 0 then 30 * second else req_lease req)"
  from c obtain s trig where w: "?who \<noteq> ''''" "find_state ?st ?db1 = Some s"
    "grant ?st trig ?who ?exp now s ?db1 = (res, db')"
    by (auto simp: ClaimIndexerStage_def Let_def refused_def split: if_splits option.splits prod.splits)
  have r: "r = new_run (db_next_id ?db1) ?st trig ?who now" "db' = snd (grant ?st trig ?who ?exp now s ?db1)"
    using w(3) c(2) by (auto simp: grant_def Let_def)
  have s: "s \<in> set (db_states ?db1)" "st_name s = ?st" using find_state_member [OF w(2)] by simp_all
  have "\<exists>t \<in> set (db_states db'). state_held ?who (run_id r) ?st ?exp t"
    using s unfolding r
    by (auto simp: grant_def Let_def state_held_def lease_to_def new_run_def intro!: bex_update_where)
  then show ?thesis using r w(1)
    by (auto simp: holds_alt grant_def Let_def new_run_def run_held_def)
qed

text \<open>A process that claimed a stage keeps it: whatever other processes do after the claim,
  as long as every claim and repair falls before the expiry the last heartbeat set and its run
  is not finished by itself, its run is the running one and the stage's lease is its own - so
  no other process was given the stage.\<close>

theorem renewed_lease_keeps_stage:
  assumes "db = run_ops before empty_db"
    and "ClaimIndexerStage req clk0 clk now fault db = (Inr res, db1)" "claim_run res = Some r"
    and "stays_all (run_owner r) (run_id r) ops
           (clk0 + (if req_lease req \<le> 0 then 30 * second else req_lease req)) = Some e"
  shows "holds (run_owner r) (run_id r) (run_stage r) e (run_ops ops db1)"
proof -
  have ok: "tables_ok db" by (simp add: assms(1) tables_ok_ops tables_ok_empty)
  have "db1 = run_op (Claim_op req clk0 clk now fault) db" by (simp add: assms(2))
  then have "tables_ok db1" using ok by (simp only: tables_ok_ops)
  with claim_holds [OF ok assms(2,3)] assms(4) show ?thesis by (auto intro: holds_ops)
qed

definition sample_request :: "string \<Rightarrow> claim_request" where
  "sample_request who =
     \<lparr>req_stage = ''assemble'', req_trigger = ''scheduled'', req_owner = who, req_enabled = True,
      req_interval = 60 * second, req_batch = 100, req_concurrency = 2, req_backoff = 0,
      req_lease = 30 * second\<rparr>"

text \<open>Two processes; the first claims at time 0, renews at 20 s; the second tries at 10 s and
  at 45 s.\<close>

definition sample_later :: "lease_op list" where
  "sample_later =
     [Claim_op (sample_request ''b'') (10 * second) (10 * second) (10 * second) None,
      Beat_op 1 ''a'' (30 * second) (20 * second) (20 * second) None None [],
      Claim_op (sample_request ''b'') (45 * second) (45 * second) (45 * second) None]"

definition sample_claim :: "(string + claim_result) \<times> stage_db" where
  "sample_claim = ClaimIndexerStage (sample_request ''a'') 0 0 0 None (run_ops [] empty_db)"

lemma renewed_lease_keeps_stage_witness:
  "holds ''a'' 1 ''assemble'' (50 * second) (run_ops sample_later (snd sample_claim))"
proof -
  let ?r = "new_run 1 ''assemble'' ''scheduled'' ''a'' 0"
  have c: "ClaimIndexerStage (sample_request ''a'') 0 0 0 None (run_ops [] empty_db) =
      (Inr (projr (fst sample_claim)), snd sample_claim)" by code_simp
  have r: "claim_run (projr (fst sample_claim)) = Some ?r" by code_simp
  have st: "stays_all (run_owner ?r) (run_id ?r) sample_later
      (0 + (if req_lease (sample_request ''a'') \<le> 0 then 30 * second
            else req_lease (sample_request ''a''))) = Some (50 * second)" by code_simp
  from renewed_lease_keeps_stage [OF refl c r st] show ?thesis by (simp add: new_run_def)
qed

section \<open>When a lease runs out\<close>

definition claimable :: "string \<Rightarrow> int \<Rightarrow> stage_db \<Rightarrow> bool" where
  "claimable stage clk db \<longleftrightarrow>
     (case find_state stage db of
        None \<Rightarrow> True
      | Some s \<Rightarrow> \<not> st_paused s \<and>
          (st_lease_owner s = '''' \<or>
           (case st_lease_expires s of None \<Rightarrow> True | Some e \<Rightarrow> e \<le> clk)))"

lemma find_upsert:
  assumes "\<And>s. st_name (f s) = st_name s"
  shows "find_state name (db\<lparr>db_states := upsert_state name now f (db_states db)\<rparr>) =
    Some (f (case find_state name db of None \<Rightarrow> default_state name now | Some s \<Rightarrow> s))"
proof -
  have "find (\<lambda>s. st_name s = name) (update_where (\<lambda>s. st_name s = name) f ss) =
      map_option f (find (\<lambda>s. st_name s = name) ss)" for ss
    using assms by (induction ss) (auto simp: update_where_def)
  moreover have "find (\<lambda>s. st_name s = name) (ss @ [f (default_state name now)]) =
      Some (f (default_state name now))" if "\<not> list_ex (\<lambda>s. st_name s = name) ss" for ss
    using that assms by (induction ss) (auto simp: default_state_def)
  moreover have none: "(find (\<lambda>s. st_name s = name) ss = None) = (\<not> list_ex (\<lambda>s. st_name s = name) ss)" for ss
    by (auto simp: find_None_iff list_ex_iff)
  ultimately show ?thesis
    using none [of "db_states db"]
    by (cases "find (\<lambda>s. st_name s = name) (db_states db)")
      (simp_all add: find_state_def upsert_state_def)
qed

lemma running_unique:
  assumes "tables_ok db" "r \<in> set (db_runs db)" "run_status r = Running"
    "q \<in> set (db_runs db)" "run_status q = Running" "run_stage r = run_stage q"
  shows "r = q"
proof -
  have "owned db r" "owned db q" and d: "distinct (map st_name (db_states db))"
    "distinct (map run_id (db_runs db))"
    using assms by (simp_all add: tables_ok_def lease_inv_def runs_ok_def)
  then have "run_id r = run_id q" unfolding owned_def by (metis assms(6) distinct_states option.inject)
  with d assms show ?thesis by (metis distinct_runs)
qed

text \<open>A process that dies does not block its stage: once its lease has run out on the
  claimant's clock, and the stage is neither paused nor disabled, the next claim is granted
  and the claimant's run is the only running run of the stage, the dead one having been marked
  as abandoned.\<close>

theorem expired_lease_is_taken_over:
  assumes "db = run_ops ops empty_db"
    and "trim_space (req_stage req) = stage" "stage \<noteq> ''''" "trim_space (req_owner req) \<noteq> ''''"
    and "req_enabled req" "claimable stage clk db"
  shows "\<exists>res r db'. ClaimIndexerStage req clk0 clk now None db = (Inr res, db') \<and> claimed res \<and>
           claim_run res = Some r \<and> run_owner r = trim_space (req_owner req) \<and>
           (\<forall>q \<in> set (db_runs db'). (run_stage q = stage \<and> run_status q = Running) = (q = r))"
proof -
  let ?db1 = "db\<lparr>db_states := upsert_state stage now (configure_state req now) (db_states db)\<rparr>"
  let ?s0 = "case find_state stage db of None \<Rightarrow> default_state stage now | Some s \<Rightarrow> s"
  let ?s = "configure_state req now ?s0"
  let ?who = "trim_space (req_owner req)"
  let ?c = "ClaimIndexerStage req clk0 clk now None db"
  have s: "find_state stage ?db1 = Some ?s" by (rule find_upsert) simp
  have ref: "claim_refusal ?who clk ?s ?db1 = None"
    using assms(5,6) by (auto simp: claim_refusal_def claimable_def default_state_def
        split: option.splits)
  have ok': "tables_ok (snd ?c)"
    using tables_ok_ops(1) [of db "Claim_op req clk0 clk now None"]
    by (simp add: assms(1) tables_ok_ops tables_ok_empty)
  obtain res r db' where c: "?c = (Inr res, db')" "claimed res" "claim_run res = Some r"
    "r = new_run (db_next_id db) stage (run_trigger r) ?who now" "r \<in> set (db_runs db')"
    using assms(2-4) s ref
    by (auto simp: ClaimIndexerStage_def Let_def grant_def new_run_def)
  have "(run_stage q = stage \<and> run_status q = Running) = (q = r)" if "q \<in> set (db_runs db')" for q
    using running_unique [OF ok', of q r] that c(1,4,5)
    by (metis (mono_tags, lifting) new_run_def snd_conv stage_run.select_convs(2,4))
  moreover have "run_owner r = ?who" using c(4) by (metis new_run_def stage_run.select_convs(5))
  ultimately show ?thesis using c by blast
qed

lemma expired_lease_is_taken_over_witness:
  "\<exists>res r db'. ClaimIndexerStage (sample_request ''b'') (31 * second) (31 * second) (31 * second)
                  None (snd sample_claim) = (Inr res, db') \<and> claimed res \<and>
           claim_run res = Some r \<and> run_owner r = ''b'' \<and>
           (\<forall>q \<in> set (db_runs db'). (run_stage q = ''assemble'' \<and> run_status q = Running) = (q = r))"
proof -
  have db: "snd sample_claim = run_ops [Claim_op (sample_request ''a'') 0 0 0 None] empty_db"
    by code_simp
  have h: "trim_space (req_stage (sample_request ''b'')) = ''assemble''"
    "(''assemble'' :: string) \<noteq> ''''" "trim_space (req_owner (sample_request ''b'')) \<noteq> ''''"
    "req_enabled (sample_request ''b'')" "claimable ''assemble'' (31 * second) (snd sample_claim)"
    "trim_space (req_owner (sample_request ''b'')) = ''b''"
    by code_simp+
  from expired_lease_is_taken_over [OF db h(1-5), of "31 * second" "31 * second"] show ?thesis
    by (simp only: h(6))
qed

lemma find_run_only:
  assumes "runs_ok db" "find_run rid db = Some r"
  shows "find (\<lambda>q. run_id q = rid \<and> run_owner q = run_owner r) (db_runs db) = Some r"
proof -
  have r: "r \<in> set (db_runs db)" "run_id r = rid" using find_run_member [OF assms(2)] by simp_all
  have one: "q = r" if "q \<in> set (db_runs db)" "run_id q = rid" for q
    using that r assms(1) distinct_runs by (auto simp: runs_ok_def)
  show ?thesis
  proof (cases "find (\<lambda>q. run_id q = rid \<and> run_owner q = run_owner r) (db_runs db)")
    case None
    then show ?thesis using r by (auto simp: find_None_iff)
  next
    case (Some q)
    then have "q \<in> set (db_runs db)" "run_id q = rid" by (auto simp: find_Some_iff)
    with Some one show ?thesis by simp
  qed
qed

text \<open>A finish by a run the stage no longer points to leaves the states alone.\<close>

lemma release_lease_other:
  assumes "runs_ok db" "find_state st db = Some s" "st_last_run s \<noteq> Some rid"
  shows "update_where (\<lambda>t. st_name t = st) (release_lease rid who ok err now) (db_states db) =
    db_states db"
proof -
  have s: "s \<in> set (db_states db)" "st_name s = st" using find_state_member [OF assms(2)] by simp_all
  have d: "distinct (map st_name (db_states db))" using assms(1) by (simp add: runs_ok_def)
  have "release_lease rid who ok err now t = t" if "t \<in> set (db_states db)" "st_name t = st" for t
    using distinct_states [OF d s(1) that(1)] s(2) that(2) assms(3) by (simp add: release_lease_def)
  then show ?thesis by (auto simp: update_where_def intro: map_idI)
qed

lemma find_run_update:
  assumes "\<And>q. run_id (g q) = run_id q"
  shows "find_run rid (db\<lparr>db_runs := update_where (\<lambda>q. run_id q = rid) g (db_runs db)\<rparr>) =
    map_option g (find_run rid db)"
proof -
  have "find (\<lambda>q. run_id q = rid) (update_where (\<lambda>q. run_id q = rid) g rs) =
      map_option g (find (\<lambda>q. run_id q = rid) rs)" for rs
    using assms by (induction rs) (auto simp: update_where_def)
  then show ?thesis by (simp add: find_run_def)
qed

text \<open>A run that was given up keeps its executor: when that one finishes late, the finish
  succeeds, does not touch the lease the stage has been given to since, and overwrites the
  record of the abandoned run - it is then listed as completed.\<close>

theorem late_finish_rewrites_abandoned_run:
  assumes "db = run_ops ops empty_db"
    and "find_run rid db = Some r" "run_status r = Abandoned" "trim_space (run_owner r) = run_owner r"
    and "run_owner r \<noteq> ''''" "find_state (run_stage r) db = Some s" "st_last_run s \<noteq> Some rid"
  shows "\<exists>db'. CompleteIndexerStageRun rid (run_owner r) err metrics now None db = (None, db') \<and>
           db_states db' = db_states db \<and>
           map_option run_status (find_run rid db') = Some Completed"
proof -
  have ok: "runs_ok db" using tables_ok_ops(2) [OF tables_ok_empty, of ops]
    by (simp add: assms(1) tables_ok_def lease_inv_def)
  then have "0 < rid" using find_run_member [OF assms(2)] by (auto simp: runs_ok_def)
  then show ?thesis
    using assms(2,4,5) find_run_only [OF ok assms(2)] release_lease_other [OF ok assms(6,7)]
    by (simp add: CompleteIndexerStageRun_def finishIndexerStageRun_def Let_def)
      (auto simp: find_run_update)
qed

definition sample_takeover :: "lease_op list" where
  "sample_takeover =
     [Claim_op (sample_request ''a'') 0 0 0 None,
      Claim_op (sample_request ''b'') (31 * second) (31 * second) (31 * second) None]"

lemma late_finish_rewrites_abandoned_run_witness:
  "\<exists>db'. CompleteIndexerStageRun 1 ''a'' '''' '''' (40 * second) None (run_ops sample_takeover empty_db)
            = (None, db') \<and>
          db_states db' = db_states (run_ops sample_takeover empty_db) \<and>
          map_option run_status (find_run 1 db') = Some Completed"
proof -
  let ?db = "run_ops sample_takeover empty_db"
  let ?r = "abandon ''lease expired before completion'' (31 * second)
              (new_run 1 ''assemble'' ''scheduled'' ''a'' 0)"
  have f: "find_run 1 ?db = Some ?r" by code_simp
  have h: "run_status ?r = Abandoned" "trim_space (run_owner ?r) = run_owner ?r" "run_owner ?r \<noteq> ''''"
    "find_state (run_stage ?r) ?db = Some (hd (db_states ?db))"
    "st_last_run (hd (db_states ?db)) \<noteq> Some 1"
    by code_simp+
  from late_finish_rewrites_abandoned_run [OF refl f h, of "''''" "''''" "40 * second"]
  show ?thesis by (simp add: new_run_def)
qed

end
