(* ===== verification/Supervisor_Props.thy ===== *)
theory Supervisor_Props
  imports Supervisor Stage_Leases
begin

text \<open>
  The supervisor's executions as a transition system - any number of them between their two
  halves, other processes acting on the tracker at any time - and what holds of them: write
  lanes exclude, an execution's runner is due exactly when everything admits it, and the run an
  execution claimed is no longer running when it is over. The tracker is an interface (locale
  \<open>stage_tracker\<close>), provided by the store of \<open>Stage_Store\<close>.
\<close>

section \<open>Interleaved executions\<close>

record 'd system =
  sy_sv :: supervisor
  sy_db :: 'd
  sy_active :: "(stage \<times> begun \<times> string option) list"

definition lanes_free :: "supervisor \<Rightarrow> bool" where
  "lanes_free sv \<longleftrightarrow> activeStageGroups sv = Map.empty"

definition remove_nth :: "nat \<Rightarrow> 'a list \<Rightarrow> 'a list" where
  "remove_nth i xs = take i xs @ drop (Suc i) xs"

text \<open>An execution starts, one of the active ones ends, or another process changes the tracker's
  state.\<close>

inductive sup_step :: "'d system \<Rightarrow> 'd system \<Rightarrow> bool" where
  start: "execute_begin s trigger ctx gate now claim (sy_sv st) (sy_db st) = ((b, lane, sv, db), ws) \<Longrightarrow>
     sup_step st (st\<lparr>sy_sv := sv, sy_db := db,
       sy_active := (case b of Over _ \<Rightarrow> sy_active st | _ \<Rightarrow> sy_active st @ [(s, b, lane)])\<rparr>)"
| finish: "i < length (sy_active st) \<Longrightarrow> sy_active st ! i = (s, b, lane) \<Longrightarrow>
     execute_end s b lane out complete fail (sy_sv st) (sy_db st) = (res, sv, db) \<Longrightarrow>
     sup_step st (st\<lparr>sy_sv := sv, sy_db := db, sy_active := remove_nth i (sy_active st)\<rparr>)"
| other: "sup_step st (st\<lparr>sy_db := db\<rparr>)"

inductive_cases sup_stepE: "sup_step st st'"

text \<open>The executions that hold the lane of a group.\<close>

definition lane_holders :: "string \<Rightarrow> (stage \<times> begun \<times> string option) list \<Rightarrow> string list" where
  "lane_holders g active =
     map (\<lambda>(s, b, lane). stage_name s) (filter (\<lambda>(s, b, lane). lane = Some g) active)"

definition lanes_ok :: "'d system \<Rightarrow> bool" where
  "lanes_ok st \<longleftrightarrow>
     (\<forall>g. lane_holders g (sy_active st) =
        (case activeStageGroups (sy_sv st) g of None \<Rightarrow> [] | Some n \<Rightarrow> [n])) \<and>
     (\<forall>(s, b, lane) \<in> set (sy_active st).
        lane = exclusiveStageGroup (stage_name s) \<and> (\<forall>r. b \<noteq> Over r))"

section \<open>What the two halves do to the lanes\<close>

lemma log_blocked_lanes [simp]:
  "activeStageGroups (snd (log_blocked name why now sv)) = activeStageGroups sv"
  by (simp add: log_blocked_def shouldLogBlockedStage_def case_prod_unfold)

lemma clear_lanes [simp]: "activeStageGroups (clearBlockedStageLog name sv) = activeStageGroups sv"
  by (simp add: clearBlockedStageLog_def)

definition begin_lanes ::
  "stage \<Rightarrow> supervisor \<Rightarrow> begun \<times> string option \<times> supervisor \<times> 'd \<Rightarrow> bool" where
  "begin_lanes s sv res =
     (case res of (b, lane, sv', db) \<Rightarrow>
        (if \<exists>r. b = Over r then lane = None \<and> activeStageGroups sv' = activeStageGroups sv
         else lane = exclusiveStageGroup (stage_name s) \<and>
           (case lane of
              None \<Rightarrow> activeStageGroups sv' = activeStageGroups sv
            | Some g \<Rightarrow> activeStageGroups sv g = None \<and>
                activeStageGroups sv' = (activeStageGroups sv)(g \<mapsto> stage_name s))))"

lemma release_undoes:
  "activeStageGroups sv g = None \<Longrightarrow> activeStageGroups sv' = (activeStageGroups sv)(g \<mapsto> n) \<Longrightarrow>
   activeStageGroups (release_group (Some g) n sv') = activeStageGroups sv"
  by (auto simp: release_group_def)

lemma claim_stage_lanes:
  "begin_lanes s sv (claim_stage s trigger claim None sv db) \<or>
   exclusiveStageGroup (stage_name s) \<noteq> None"
  by (auto simp: begin_lanes_def claim_stage_def release_group_def
      split: prod.split sum.split option.split)

lemma claim_stage_lanes_group:
  assumes "exclusiveStageGroup (stage_name s) = Some g" "activeStageGroups sv g = None"
    "activeStageGroups sv' = (activeStageGroups sv)(g \<mapsto> stage_name s)"
  shows "begin_lanes s sv (claim_stage s trigger claim (Some g) sv' db)"
  using assms release_undoes [OF assms(2,3)]
  by (auto simp: begin_lanes_def claim_stage_def split: prod.split sum.split option.split)

lemma over_lanes:
  "activeStageGroups sv' = activeStageGroups sv \<Longrightarrow> begin_lanes s sv (Over r, None, sv', db)"
  by (simp add: begin_lanes_def)

lemma enter_lane_lanes:
  assumes sv1: "activeStageGroups sv1 = activeStageGroups sv"
  shows "begin_lanes s sv (fst (enter_lane s trigger now claim sv1 db))"
proof (cases "exclusiveStageGroup (stage_name s)")
  case None
  then show ?thesis using claim_stage_lanes [of s sv1 trigger claim db] sv1
    by (auto simp: begin_lanes_def enter_lane_def)
next
  case (Some g)
  obtain won sv2 where t: "tryClaimStageGroup g (stage_name s) sv1 = (won, sv2)" by force
  show ?thesis
  proof (cases won)
    case True
    then show ?thesis using claim_stage_lanes_group [of s g sv sv2] t sv1 Some
      by (auto simp: tryClaimStageGroup_def enter_lane_def Let_def split: option.splits)
  next
    case False
    then have "activeStageGroups sv2 = activeStageGroups sv"
      using t sv1 by (auto simp: tryClaimStageGroup_def split: option.splits)
    then show ?thesis using False t
      by (simp add: Some enter_lane_def case_prod_unfold Let_def over_lanes)
  qed
qed

lemma execute_begin_lanes:
  "begin_lanes s sv (fst (execute_begin s trigger ctx gate now claim sv db))"
  by (simp add: execute_begin_def Let_def case_prod_unfold over_lanes enter_lane_lanes
      split: option.split sum.split)

lemma execute_end_lanes:
  assumes "\<forall>r. b \<noteq> Over r"
  shows "activeStageGroups (fst (snd (execute_end s b lane out complete fail sv db))) =
    activeStageGroups (release_group lane (stage_name s) sv)"
  using assms
  by (cases b) (auto simp: execute_end_def Let_def case_prod_unfold split: option.split prod.split)

section \<open>Write lanes exclude\<close>

inductive sup_reachable :: "supervisor \<Rightarrow> 'd \<Rightarrow> 'd system \<Rightarrow> bool" for sv db where
  init: "sup_reachable sv db \<lparr>sy_sv = sv, sy_db = db, sy_active = []\<rparr>"
| step: "sup_reachable sv db st \<Longrightarrow> sup_step st st' \<Longrightarrow> sup_reachable sv db st'"

lemma lane_holders_append [simp]:
  "lane_holders g (xs @ ys) = lane_holders g xs @ lane_holders g ys"
  by (simp add: lane_holders_def)

lemma lane_holders_Cons [simp]:
  "lane_holders g ((s, b, lane) # xs) =
     (if lane = Some g then [stage_name s] else []) @ lane_holders g xs"
  by (simp add: lane_holders_def)

lemma lane_holders_Nil [simp]: "lane_holders g [] = []"
  by (simp add: lane_holders_def)

lemma lane_holders_remove:
  assumes "i < length xs" "xs ! i = (s, b, lane)"
    "lane_holders g xs = (case m g of None \<Rightarrow> [] | Some n \<Rightarrow> [n])"
  shows "lane_holders g (remove_nth i xs) =
    (case (if lane = Some g \<and> m g = Some (stage_name s) then None else m g) of
       None \<Rightarrow> [] | Some n \<Rightarrow> [n])"
proof -
  have xs: "xs = take i xs @ (s, b, lane) # drop (Suc i) xs"
    using assms(1,2) by (metis id_take_nth_drop)
  have "lane_holders g xs = lane_holders g (take i xs) @
      (if lane = Some g then [stage_name s] else []) @ lane_holders g (drop (Suc i) xs)"
    by (subst xs) simp
  with assms(3) show ?thesis
    by (auto simp: remove_nth_def append_eq_Cons_conv split: option.splits if_splits)
qed

lemma set_remove_nth: "set (remove_nth i xs) \<subseteq> set xs"
  by (auto simp: remove_nth_def dest: in_set_takeD in_set_dropD)

lemma lanes_ok_start:
  assumes ok: "lanes_ok st"
    and b: "execute_begin s trigger ctx gate now claim (sy_sv st) (sy_db st) = ((b, lane, sv, db), ws)"
  shows "lanes_ok (st\<lparr>sy_sv := sv, sy_db := db,
       sy_active := (case b of Over _ \<Rightarrow> sy_active st | _ \<Rightarrow> sy_active st @ [(s, b, lane)])\<rparr>)"
proof (cases "\<exists>r. b = Over r")
  case True
  then have "activeStageGroups sv = activeStageGroups (sy_sv st)"
    using execute_begin_lanes [of s "sy_sv st" trigger ctx gate now claim "sy_db st"] b
    by (simp add: begin_lanes_def)
  moreover obtain r where "b = Over r" using True by blast
  ultimately show ?thesis using ok by (simp add: lanes_ok_def)
next
  case False
  have "begin_lanes s (sy_sv st) (b, lane, sv, db)"
    using execute_begin_lanes [of s "sy_sv st" trigger ctx gate now claim "sy_db st"] b by simp
  note l = this [unfolded begin_lanes_def prod.case if_not_P [OF False]]
  have act: "(case b of Over _ \<Rightarrow> sy_active st | _ \<Rightarrow> sy_active st @ [(s, b, lane)]) =
      sy_active st @ [(s, b, lane)]"
    using False by (cases b) auto
  show ?thesis
    unfolding act using ok conjunct1 [OF l] conjunct2 [OF l] False
    by (auto simp: lanes_ok_def split: option.splits)
qed

lemma lanes_ok_finish:
  assumes ok: "lanes_ok st" and i: "i < length (sy_active st)" "sy_active st ! i = (s, b, lane)"
    and e: "execute_end s b lane out complete fail (sy_sv st) (sy_db st) = (res, sv, db)"
  shows "lanes_ok (st\<lparr>sy_sv := sv, sy_db := db, sy_active := remove_nth i (sy_active st)\<rparr>)"
proof -
  have mem: "(s, b, lane) \<in> set (sy_active st)" using i by (metis nth_mem)
  then have "\<forall>r. b \<noteq> Over r" using ok by (auto simp: lanes_ok_def)
  then have g: "activeStageGroups sv = activeStageGroups (release_group lane (stage_name s) (sy_sv st))"
    using execute_end_lanes [of b s lane out complete fail "sy_sv st" "sy_db st"] e by simp
  have "lane_holders g (remove_nth i (sy_active st)) =
      (case activeStageGroups sv g of None \<Rightarrow> [] | Some n \<Rightarrow> [n])" for g
    using lane_holders_remove [OF i, of g "activeStageGroups (sy_sv st)"] ok g
    by (auto simp: lanes_ok_def release_group_def split: option.splits if_splits)
  moreover have "\<forall>(s, b, lane) \<in> set (remove_nth i (sy_active st)).
      lane = exclusiveStageGroup (stage_name s) \<and> (\<forall>r. b \<noteq> Over r)"
    using ok set_remove_nth [of i "sy_active st"] unfolding lanes_ok_def by blast
  ultimately show ?thesis by (simp add: lanes_ok_def)
qed

lemma lanes_ok_reachable:
  assumes "sup_reachable sv db st" "activeStageGroups sv = Map.empty" shows "lanes_ok st"
  using assms
proof (induction rule: sup_reachable.induct)
  case init
  then show ?case by (simp add: lanes_ok_def)
next
  case (step st st')
  note ok = step.IH [OF step.prems]
  from step.hyps(2) show ?case
  proof (cases rule: sup_step.cases)
    case (other db)
    then show ?thesis using ok by (simp add: lanes_ok_def)
  qed (simp_all add: lanes_ok_start [OF ok] lanes_ok_finish [OF ok])
qed

text \<open>C26: However executions of any stages start, end and interleave, with other processes acting
  on the tracker in between, at most one execution of assembling, purging archived sources and
  purging release sources is between its halves, and the lane is free exactly when none is: no
  lane is lost on any early return or error.\<close>

theorem write_lane_excludes:
  assumes "sup_reachable (New logging stages options now) db st"
  shows "length (filter (\<lambda>(s, b, lane). exclusiveStageGroup (stage_name s) = Some ''assemble/purge'')
             (sy_active st)) =
         (if activeStageGroups (sy_sv st) ''assemble/purge'' = None then 0 else 1)"
proof -
  let ?g = "''assemble/purge''"
  have ok: "lanes_ok st"
    by (rule lanes_ok_reachable [OF assms]) (simp add: New_def Let_def split: option.split)
  then have "filter (\<lambda>(s, b, lane). exclusiveStageGroup (stage_name s) = Some ?g) (sy_active st) =
      filter (\<lambda>(s, b, lane). lane = Some ?g) (sy_active st)"
    by (intro filter_cong) (auto simp: lanes_ok_def)
  moreover have "length (filter (\<lambda>(s, b, lane). lane = Some ?g) (sy_active st)) =
      length (lane_holders ?g (sy_active st))"
    by (simp add: lane_holders_def)
  ultimately show ?thesis using ok by (auto simp: lanes_ok_def split: option.splits)
qed

section \<open>The tracker\<close>

text \<open>What the supervisor relies on: a granted claim starts a run, a finish without error stops
  that run and no other.\<close>

locale stage_tracker =
  fixes claim :: "'d claim_fn" and complete fail :: "'d finish_fn"
    and inv :: "'d \<Rightarrow> bool" and running :: "int \<Rightarrow> 'd \<Rightarrow> bool"
  assumes granted: "inv db \<Longrightarrow> claim req db = (Inr (Some res), db') \<Longrightarrow> claim_run res = Some r \<Longrightarrow>
      running (run_id r) db'"
    and claim_inv: "inv db \<Longrightarrow> inv (snd (claim req db))"
    and complete_inv: "inv db \<Longrightarrow> inv (snd (complete rid who err m db))"
    and fail_inv: "inv db \<Longrightarrow> inv (snd (fail rid who err m db))"
    and complete_stops: "inv db \<Longrightarrow> complete rid who err m db = (None, db') \<Longrightarrow>
      running q db' = (running q db \<and> q \<noteq> rid)"
    and fail_stops: "inv db \<Longrightarrow> fail rid who err m db = (None, db') \<Longrightarrow>
      running q db' = (running q db \<and> q \<noteq> rid)"
begin

lemma claim_stage_due:
  assumes "claim_stage s trigger claim lane0 sv0 db = (Due_run r, lane, sv1, db1)" "inv db"
  shows "running (run_id r) db1"
  using assms granted [OF assms(2)]
  by (auto simp: claim_stage_def split: if_splits prod.splits sum.splits option.splits)

lemma begin_runs:
  assumes "execute_begin s trigger ctx gate now claim sv db = ((Due_run r, lane, sv1, db1), ws)" "inv db"
  shows "running (run_id r) db1"
  using assms
  by (auto simp: execute_begin_def enter_lane_def Let_def case_prod_unfold claim_stage_due
      split: option.splits sum.splits if_splits)

lemma claim_stage_inv: "inv db \<Longrightarrow> inv (snd (snd (snd (claim_stage s trigger claim lane sv db))))"
  using claim_inv [of db "claim_request_for s trigger sv"]
  by (cases "claim (claim_request_for s trigger sv) db")
    (auto simp: claim_stage_def split: sum.split option.split)

lemma begin_inv:
  "inv db \<Longrightarrow> inv (snd (snd (snd (fst (execute_begin s trigger ctx gate now claim sv db)))))"
  by (simp add: execute_begin_def enter_lane_def Let_def case_prod_unfold claim_stage_inv
      split: option.split sum.split)

lemma end_stops:
  assumes "execute_end s (Due_run r) lane out complete fail sv db = (res, sv', db')" "inv db"
    and "res = snd out"
  shows "running q db' = (running q db \<and> q \<noteq> run_id r)"
proof (cases "snd out")
  case None
  obtain err d where c: "complete (run_id r) (sv_owner sv) '''' (fst out) db = (err, d)" by force
  then have "err = None" "d = db'" using assms(1,3) None
    by (auto simp: execute_end_def Let_def case_prod_unfold)
  with c complete_stops [OF assms(2)] show ?thesis by blast
next
  case (Some e)
  obtain err d where f: "fail (run_id r) (sv_owner sv) e (fst out) db = (err, d)" by force
  then have "err = None" "d = db'" using assms(1,3) Some
    by (auto simp: execute_end_def Let_def case_prod_unfold split: option.splits)
  with f fail_stops [OF assms(2)] show ?thesis by blast
qed

end

subsection \<open>The store is one\<close>

definition store_claim :: "int \<Rightarrow> int \<Rightarrow> int \<Rightarrow> string option \<Rightarrow> stage_db claim_fn" where
  "store_claim clk0 clk now fault req db =
     (case ClaimIndexerStage req clk0 clk now fault db of
        (Inl e, d) \<Rightarrow> (Inl e, d)
      | (Inr res, d) \<Rightarrow> (Inr (Some res), d))"

definition store_complete :: "int \<Rightarrow> string option \<Rightarrow> stage_db finish_fn" where
  "store_complete now fault rid who err m = CompleteIndexerStageRun rid who err m now fault"

definition store_fail :: "int \<Rightarrow> string option \<Rightarrow> stage_db finish_fn" where
  "store_fail now fault rid who err m = FailIndexerStageRun rid who err m now fault"

definition is_running :: "int \<Rightarrow> stage_db \<Rightarrow> bool" where
  "is_running rid db \<longleftrightarrow> list_ex (\<lambda>r. run_id r = rid \<and> run_status r = Running) (db_runs db)"

lemma finish_stops:
  assumes "finishIndexerStageRun rid who err m status now fault db = (None, db')" "status \<noteq> Running"
  shows "is_running q db' = (is_running q db \<and> q \<noteq> rid)"
proof -
  have "db_runs db' = update_where (\<lambda>r. run_id r = rid)
      (finish_row status err (if m = '''' then ''{}'' else m) now) (db_runs db)"
    using assms(1) by (auto simp: finishIndexerStageRun_def Let_def split: if_splits option.splits)
  moreover have "list_ex (\<lambda>r. run_id r = q \<and> run_status r = Running)
      (update_where (\<lambda>r. run_id r = rid) (finish_row status err n now) rs) =
    (list_ex (\<lambda>r. run_id r = q \<and> run_status r = Running) rs \<and> q \<noteq> rid)" for n rs
    using assms(2) by (induction rs) (auto simp: update_where_def)
  ultimately show ?thesis by (simp add: is_running_def)
qed

lemma store_claim_inv: "tables_ok db \<Longrightarrow> tables_ok (snd (store_claim clk0 clk now fault req db))"
  using tables_ok_ops(1) [of db "Claim_op req clk0 clk now fault"]
  by (cases "ClaimIndexerStage req clk0 clk now fault db") (auto simp: store_claim_def split: sum.split)

interpretation store: stage_tracker "store_claim clk0 clk now fault" "store_complete now1 fault1"
  "store_fail now2 fault2" tables_ok is_running
  for clk0 clk now fault now1 fault1 now2 fault2
proof unfold_locales
  fix db req res db' r
  assume ok: "tables_ok db" and c: "store_claim clk0 clk now fault req db = (Inr (Some res), db')"
    and r: "claim_run res = Some r"
  then have "ClaimIndexerStage req clk0 clk now fault db = (Inr res, db')"
    by (auto simp: store_claim_def split: prod.splits sum.splits)
  from claim_holds [OF ok this r] show "is_running (run_id r) db'"
    by (auto simp: holds_alt is_running_def list_ex_iff run_held_def)
next
  fix db req assume "tables_ok db"
  then show "tables_ok (snd (store_claim clk0 clk now fault req db))" by (rule store_claim_inv)
next
  fix db rid who err m assume "tables_ok db"
  then have "tables_ok (run_op (Finish_op rid who err m Completed now1 fault1) db)" by (rule tables_ok_ops)
  then show "tables_ok (snd (store_complete now1 fault1 rid who err m db))"
    by (simp add: store_complete_def)
next
  fix db rid who err m assume "tables_ok db"
  then have "tables_ok (run_op (Finish_op rid who err m Failed now2 fault2) db)" by (rule tables_ok_ops)
  then show "tables_ok (snd (store_fail now2 fault2 rid who err m db))"
    by (simp add: store_fail_def)
qed (auto simp: store_complete_def store_fail_def CompleteIndexerStageRun_def FailIndexerStageRun_def
      finish_stops)

text \<open>An execution that claimed a run closes it: whatever other processes did to the tables
  while the runner was at work, when the execution returns what the runner returned, its run
  is not running any more - completed or failed - and no other run was stopped by it.\<close>

theorem executed_run_is_closed:
  assumes "execute_begin s trigger ctx gate now (store_claim clk0 clk now0 fault) sv (run_ops before empty_db)
             = ((Due_run r, lane, sv1, db1), ws)"
    and "execute_end s (Due_run r) lane out (store_complete now1 fault1) (store_fail now2 fault2) sv1
           (run_ops others db1) = (res, sv2, db2)"
    and "res = snd out"
  shows "is_running (run_id r) db1 \<and> \<not> is_running (run_id r) db2 \<and>
         (q \<noteq> run_id r \<longrightarrow> is_running q db2 = is_running q (run_ops others db1))"
proof -
  have ok: "tables_ok (run_ops before empty_db)" by (rule tables_ok_ops [OF tables_ok_empty])
  have run: "is_running (run_id r) db1" by (rule store.begin_runs [OF assms(1) ok])
  have "tables_ok db1"
    using store.begin_inv [OF ok, of s trigger ctx gate now clk0 clk now0 fault sv] assms(1) by simp
  then have "tables_ok (run_ops others db1)" by (rule tables_ok_ops)
  from store.end_stops [OF assms(2) this assms(3)] run show ?thesis by blast
qed

section \<open>What admits an execution\<close>

definition gate_admits :: "supervisor \<Rightarrow> string + gate_decision \<Rightarrow> bool" where
  "gate_admits sv gate \<longleftrightarrow> \<not> sv_gated sv \<or> (case gate of Inl _ \<Rightarrow> False | Inr d \<Rightarrow> allowed d)"

definition lane_admits :: "supervisor \<Rightarrow> string \<Rightarrow> bool" where
  "lane_admits sv name \<longleftrightarrow>
     (case exclusiveStageGroup name of None \<Rightarrow> True | Some g \<Rightarrow> activeStageGroups sv g = None)"

definition tracker_admits :: "stage \<Rightarrow> string \<Rightarrow> 'd claim_fn \<Rightarrow> supervisor \<Rightarrow> 'd \<Rightarrow> bool" where
  "tracker_admits s trigger claim sv db \<longleftrightarrow>
     \<not> sv_tracked sv \<or>
     (case fst (claim (claim_request_for s trigger sv) db) of
        Inl _ \<Rightarrow> False
      | Inr None \<Rightarrow> False
      | Inr (Some res) \<Rightarrow> claimed res \<and> claim_run res \<noteq> None)"

definition runner_due :: "begun \<Rightarrow> bool" where
  "runner_due b \<longleftrightarrow> (case b of Over _ \<Rightarrow> False | _ \<Rightarrow> True)"

lemma claim_stage_due_iff:
  "runner_due (fst (claim_stage s trigger claim lane sv db)) = tracker_admits s trigger claim sv db"
  by (cases "claim (claim_request_for s trigger sv) db")
    (auto simp: claim_stage_def tracker_admits_def runner_due_def split: sum.split option.split)

lemma request_ignores_log [simp]:
  "claim_request_for s trigger (sv\<lparr>activeStageGroups := m\<rparr>) = claim_request_for s trigger sv"
  "claim_request_for s trigger (sv\<lparr>blockedLogs := bl\<rparr>) = claim_request_for s trigger sv"
  by (simp_all add: claim_request_for_def)

lemma tracker_ignores_log [simp]:
  "tracker_admits s trigger claim (sv\<lparr>activeStageGroups := m\<rparr>) db = tracker_admits s trigger claim sv db"
  "tracker_admits s trigger claim (sv\<lparr>blockedLogs := bl\<rparr>) db = tracker_admits s trigger claim sv db"
  by (simp_all add: tracker_admits_def)

lemma enter_lane_due:
  "runner_due (fst (fst (enter_lane s trigger now claim sv db))) =
     (lane_admits sv (stage_name s) \<and> tracker_admits s trigger claim sv db)"
  by (auto simp: enter_lane_def tryClaimStageGroup_def lane_admits_def claim_stage_due_iff
      Let_def case_prod_unfold split: option.split)
    (auto simp: runner_due_def)

text \<open>The runner of a stage is run exactly when the context is alive, the gate (if there is
  one) allows the stage, its write lane (if it has one) is free and the tracker (if there is
  one) grants a run; a nil claim, a refused claim and every error end the execution before it.\<close>

theorem runner_runs_iff_admitted:
  "runner_due (fst (fst (execute_begin s trigger ctx gate now claim sv db))) =
     (ctx = None \<and> gate_admits sv gate \<and> lane_admits sv (stage_name s) \<and>
      tracker_admits s trigger claim sv db)"
proof -
  have over: "\<not> runner_due (Over r)" for r by (simp add: runner_due_def)
  have "lane_admits (clearBlockedStageLog n sv) m = lane_admits sv m" for n m
    by (simp add: lane_admits_def split: option.split)
  moreover have "tracker_admits s trigger claim (clearBlockedStageLog n sv) db =
      tracker_admits s trigger claim sv db" for n
    by (simp add: clearBlockedStageLog_def)
  ultimately show ?thesis
    by (auto simp: execute_begin_def gate_admits_def enter_lane_due over Let_def case_prod_unfold
        split: option.split sum.split)
qed

section \<open>The log of blocked stages\<close>

text \<open>The times at which a stage that stays blocked for the same reason is logged, when it is
  tried at the times \<open>ts\<close>.\<close>

fun logged_times :: "string \<Rightarrow> string \<Rightarrow> int list \<Rightarrow> supervisor \<Rightarrow> int list" where
  "logged_times name why [] sv = []"
| "logged_times name why (t # ts) sv =
     (let (due, sv') = shouldLogBlockedStage name why t sv
      in (if due then [t] else []) @ logged_times name why ts sv')"

lemma logged_times_after:
  "blockedLogs sv name = Some (why, at) \<Longrightarrow>
   sorted_wrt (\<lambda>a b. a + blockedStageLogInterval \<le> b) (at # logged_times name why ts sv)"
proof (induction ts arbitrary: sv at)
  case Nil
  then show ?case by simp
next
  case (Cons t ts)
  have pos: "0 < blockedStageLogInterval" by (simp add: blockedStageLogInterval_def second_def)
  show ?case
  proof (cases "t - at \<ge> blockedStageLogInterval")
    case True
    let ?sv = "sv\<lparr>blockedLogs := (blockedLogs sv)(name \<mapsto> (why, t))\<rparr>"
    have "sorted_wrt (\<lambda>a b. a + blockedStageLogInterval \<le> b) (t # logged_times name why ts ?sv)"
      by (rule Cons.IH) simp
    with True Cons.prems pos show ?thesis
      by (fastforce simp: shouldLogBlockedStage_def)
  next
    case False
    with Cons.prems Cons.IH [OF Cons.prems] show ?thesis
      by (simp add: shouldLogBlockedStage_def)
  qed
qed

text \<open>A stage blocked for one reason is logged at most once a minute, however often it is
  tried and whatever the clock does.\<close>

theorem blocked_stage_logged_once_a_minute:
  "sorted_wrt (\<lambda>a b. a + blockedStageLogInterval \<le> b) (logged_times name why ts sv)"
proof (induction ts arbitrary: sv)
  case Nil
  then show ?case by simp
next
  case (Cons t ts)
  have "sorted_wrt (\<lambda>a b. a + blockedStageLogInterval \<le> b)
      (t # logged_times name why ts (sv\<lparr>blockedLogs := (blockedLogs sv)(name \<mapsto> (why, t))\<rparr>))"
    by (rule logged_times_after) simp
  with Cons.IH [of sv] show ?case by (simp add: shouldLogBlockedStage_def)
qed

text \<open>But an allowing gate forgets the last log, so a stage its write lane blocks is logged
  every time.\<close>

lemma lane_block_always_logged:
  assumes "sv_gated sv" "sv_logging sv" "allowed d" "exclusiveStageGroup (stage_name s) = Some g"
    "activeStageGroups sv g = Some n"
  shows "snd (execute_begin s trigger None (Inr d) now claim sv db) = [g @ '' write lane already active'']"
  using assms
  by (simp add: execute_begin_def enter_lane_def tryClaimStageGroup_def log_blocked_def
      shouldLogBlockedStage_def clearBlockedStageLog_def)

section \<open>Heartbeats\<close>

text \<open>The first error ends the heartbeats of a run, while its runner goes on: from then on only
  the rest of the lease keeps other processes away.\<close>

lemma heartbeat_gives_up:
  "heartbeatStageRun (replicate n None @ Some e # outs) = (Suc n, Some e)"
  by (induction n) simp_all

text \<open>Whatever the options and the stages say, a supervisor sends its heartbeats within the
  lease (unless the lease is a single nanosecond) and every stage it holds has a positive
  interval and concurrency and is filed under its own name.\<close>

theorem new_supervisor_is_normal:
  "0 < sv_heartbeat (New logging stages options now) \<and>
   (sv_lease (New logging stages options now) = 1 \<or>
    sv_heartbeat (New logging stages options now) < sv_lease (New logging stages options now)) \<and>
   (case sv_stages (New logging stages options now) n of
      None \<Rightarrow> True
    | Some s \<Rightarrow> 0 < stage_interval s \<and> 0 < stage_concurrency s \<and> stage_name s = n)"
proof -
  have half: "gdiv l 2 = l div 2" if "0 < l" for l using that by (simp add: gdiv_nonneg)
  have "case fold (\<lambda>s m. m(stage_name s \<mapsto> normal_stage s)) stages m n of
        None \<Rightarrow> True | Some s \<Rightarrow> 0 < stage_interval s \<and> 0 < stage_concurrency s \<and> stage_name s = n"
    if "case m n of None \<Rightarrow> True
        | Some s \<Rightarrow> 0 < stage_interval s \<and> 0 < stage_concurrency s \<and> stage_name s = n" for m
    using that by (induction stages arbitrary: m) (auto simp: normal_stage_def second_def)
  then have "case sv_stages (New logging stages options now) n of None \<Rightarrow> True
      | Some s \<Rightarrow> 0 < stage_interval s \<and> 0 < stage_concurrency s \<and> stage_name s = n"
    by (simp add: New_def Let_def)
  moreover have "0 < sv_heartbeat (New logging stages options now)"
    by (auto simp: New_def Let_def second_def half not_le)
  moreover have "sv_lease (New logging stages options now) = 1 \<or>
    sv_heartbeat (New logging stages options now) < sv_lease (New logging stages options now)"
    by (auto simp: New_def Let_def second_def half not_le)
  ultimately show ?thesis by blast
qed

section \<open>Sample executions\<close>

definition sample_options :: sv_options where
  "sample_options = \<lparr>opt_tracked = True, opt_owner = ''a'', opt_lease = 0, opt_heartbeat = 0, opt_gated = False\<rparr>"

definition sample_sv :: supervisor where
  "sample_sv = New True [sample_stage] (Some sample_options) 0"

definition sample_begun :: "(begun \<times> string option \<times> supervisor \<times> stage_db) \<times> string list" where
  "sample_begun = execute_begin sample_stage ''scheduled'' None (Inl '''') 0 (store_claim 0 0 0 None) sample_sv
     (run_ops [] empty_db)"

definition sample_run :: stage_run where
  "sample_run = new_run 1 StageAssemble ''scheduled'' ''a'' 0"

lemma sample_begun_eq:
  "execute_begin sample_stage ''scheduled'' None (Inl '''') 0 (store_claim 0 0 0 None) sample_sv
     (run_ops [] empty_db) =
   ((Due_run sample_run, Some ''assemble/purge'', fst (snd (snd (fst sample_begun))),
     snd (snd (snd (fst sample_begun)))), [])"
proof -
  have "fst (fst sample_begun) = Due_run sample_run" by code_simp
  moreover have "fst (snd (fst sample_begun)) = Some ''assemble/purge''" by code_simp
  moreover have "snd sample_begun = []" by code_simp
  ultimately show ?thesis unfolding sample_begun_def by (metis prod.collapse)
qed

definition sample_system :: "stage_db system" where
  "sample_system =
     \<lparr>sy_sv = fst (snd (snd (fst sample_begun))), sy_db = snd (snd (snd (fst sample_begun))),
      sy_active = [(sample_stage, Due_run sample_run, Some ''assemble/purge'')]\<rparr>"

lemma sample_reachable: "sup_reachable sample_sv (run_ops [] empty_db) sample_system"
proof -
  let ?st = "\<lparr>sy_sv = sample_sv, sy_db = run_ops [] empty_db, sy_active = []\<rparr>"
  have "sup_step ?st sample_system"
    using sup_step.start [of sample_stage "''scheduled''" None "Inl ''''" 0 "store_claim 0 0 0 None" ?st]
      sample_begun_eq by (fastforce simp: sample_system_def)
  then show ?thesis by (rule sup_reachable.step [OF sup_reachable.init])
qed

lemma write_lane_excludes_witness:
  "length (filter (\<lambda>(s, b, lane). exclusiveStageGroup (stage_name s) = Some ''assemble/purge'')
             (sy_active sample_system)) =
         (if activeStageGroups (sy_sv sample_system) ''assemble/purge'' = None then 0 else 1)"
  using write_lane_excludes [OF sample_reachable [unfolded sample_sv_def]] .

lemma executed_run_is_closed_witness:
  "is_running 1 (snd (snd (snd (fst sample_begun)))) \<and>
   \<not> is_running 1 (snd (snd (execute_end sample_stage (Due_run sample_run) (Some ''assemble/purge'')
        (''{}'', None) (store_complete 5 None) (store_fail 5 None) (fst (snd (snd (fst sample_begun))))
        (run_ops [Pause_op StageAssemble True 3 None] (snd (snd (snd (fst sample_begun))))))))"
proof -
  let ?e = "execute_end sample_stage (Due_run sample_run) (Some ''assemble/purge'')
        (''{}'', None) (store_complete 5 None) (store_fail 5 None) (fst (snd (snd (fst sample_begun))))
        (run_ops [Pause_op StageAssemble True 3 None] (snd (snd (snd (fst sample_begun)))))"
  have e: "?e = (None, fst (snd ?e), snd (snd ?e))"
  proof -
    have "fst ?e = None" by code_simp
    then show ?thesis by (metis prod.collapse)
  qed
  have r: "run_id sample_run = 1" by code_simp
  from executed_run_is_closed [OF sample_begun_eq e, of 1] show ?thesis by (simp add: r)
qed

end
