(* ===== verification/Stage_Guards.thy ===== *)
theory Stage_Guards
  imports Complex_Main Supervisor
begin

text \<open>
  The gates of the stage supervisor (\<open>runtime/wiring\<close>): what keeps a stage from running now.
  Three guards cache the decisions of one evaluation for all stages
  (\<open>indexer_pipeline_backlog_guard.go\<close>, \<open>indexer_backlog_guard.go\<close>,
  \<open>indexer_nntp_stage_guard.go\<close>); only one goroutine evaluates at a time and the others wait for
  it, so a call is one step on the guard's state. The storage, memory and integrity guards cache
  one decision. What the guards read - settings, counts, snapshots, statistics - are arguments.
  Percentages are float64 values that are only compared; they are rationals here. The reasons
  are the fixed part of the texts, with the numbers the properties need.
\<close>

section \<open>Settings\<close>

record index_settings =
  latest_enabled :: bool
  backfill_enabled :: bool
  assemble_enabled :: bool
  assemble_batch :: int
  recover_enabled :: bool
  recover_batch :: int
  release_enabled :: bool
  release_batch :: int
  par2_enabled :: bool
  max_group_window :: int
  backlog_high_water :: int
  backlog_low_water :: int

definition let_pass :: gate_decision where
  "let_pass = \<lparr>allowed = True, reason = ''''\<rparr>"

definition block :: "string \<Rightarrow> gate_decision" where
  "block why = \<lparr>allowed = False, reason = why\<rparr>"

section \<open>The cached guards\<close>

type_synonym decisions = "string \<Rightarrow> gate_decision option"

record guard_cache =
  last_check :: "int option"
  last_results :: decisions

definition fresh :: "int \<Rightarrow> int option \<Rightarrow> int \<Rightarrow> bool" where
  "fresh interval checked now =
     (case checked of None \<Rightarrow> False | Some t \<Rightarrow> now - t < interval)"

definition decision_for :: "string \<Rightarrow> decisions \<Rightarrow> gate_decision" where
  "decision_for name results = (case results name of None \<Rightarrow> let_pass | Some d \<Rightarrow> d)"

text \<open>\<open>allowStage\<close> of the three guards. \<open>settings\<close> is the outcome of loading the runtime
  settings (\<open>None\<close> when they or their indexing part are nil), \<open>now\<close> the time of the check
  and \<open>later\<close> the time after the evaluation.\<close>

definition allow_cached ::
  "int \<Rightarrow> (string \<Rightarrow> bool) \<Rightarrow>
   (index_settings option \<Rightarrow> 'g guard_cache_scheme \<Rightarrow> (string + decisions) \<times> 'g guard_cache_scheme) \<Rightarrow>
   string \<Rightarrow> string \<Rightarrow> string + index_settings option \<Rightarrow> int \<Rightarrow> int \<Rightarrow> 'g guard_cache_scheme
     \<Rightarrow> (string + gate_decision) \<times> 'g guard_cache_scheme" where
  "allow_cached interval applies evaluate name trigger settings now later g =
     (if trigger = ''manual'' \<or> \<not> applies name then (Inr let_pass, g)
      else if fresh interval (last_check g) now then (Inr (decision_for name (last_results g)), g)
      else (case settings of
              Inl e \<Rightarrow> (Inl (''load runtime settings: '' @ e), g)
            | Inr rt \<Rightarrow>
                (case evaluate rt g of
                   (Inl e, g') \<Rightarrow> (Inl e, g')
                 | (Inr results, g') \<Rightarrow>
                     (Inr (decision_for name results),
                      g'\<lparr>last_check := Some later, last_results := results\<rparr>))))"

section \<open>Release catch-up\<close>

record pipeline_guard = guard_cache +
  refreshBlocked :: bool

definition releaseReadyThresholds :: "index_settings option \<Rightarrow> int \<times> int" where
  "releaseReadyThresholds indexing =
     (case indexing of
        None \<Rightarrow> (1000, 500)
      | Some ix \<Rightarrow>
          (let batch = (if release_batch ix \<le> 0 then 2500 else release_batch ix);
               high = (let h = i64 (batch * 5) in if h < 1000 then 1000 else h);
               low = (let l = gdiv high 2 in if l < 250 then 250 else l)
           in (high, low)))"

definition pipelineGuardApplies :: "string \<Rightarrow> bool" where
  "pipelineGuardApplies name \<longleftrightarrow> name = StageReleaseSummaryRefresh"

definition refresh_paused :: "string \<Rightarrow> int \<Rightarrow> int \<Rightarrow> decisions" where
  "refresh_paused label ready threshold =
     [StageReleaseSummaryRefresh \<mapsto>
        block (''release_summary_refresh paused for release catch-up: ready_candidates='' @ itoa ready @
               '' '' @ label @ ''='' @ itoa threshold)]"

definition pipeline_evaluate ::
  "string + int \<Rightarrow> index_settings option \<Rightarrow> 'g pipeline_guard_scheme
     \<Rightarrow> (string + decisions) \<times> 'g pipeline_guard_scheme" where
  "pipeline_evaluate pending rt g =
     (case rt of
        None \<Rightarrow> (Inr Map.empty, g)
      | Some ix \<Rightarrow>
          (let (high, low) = releaseReadyThresholds (Some ix)
           in case pending of
                Inl e \<Rightarrow> (Inl (''count pending release candidate families: '' @ e), g)
              | Inr ready \<Rightarrow>
                  (if \<not> release_enabled ix then (Inr Map.empty, g\<lparr>refreshBlocked := False\<rparr>)
                   else if refreshBlocked g
                   then (if ready > low
                         then (Inr (refresh_paused ''resume_threshold'' ready low), g)
                         else (Inr Map.empty, g\<lparr>refreshBlocked := False\<rparr>))
                   else if ready \<ge> high
                   then (Inr (refresh_paused ''high_water'' ready high), g\<lparr>refreshBlocked := True\<rparr>)
                   else (Inr Map.empty, g))))"

definition pipelineBacklogGuardRefreshInterval :: int where
  "pipelineBacklogGuardRefreshInterval = 15 * second"

definition pipeline_allowStage where
  "pipeline_allowStage pending =
     allow_cached pipelineBacklogGuardRefreshInterval pipelineGuardApplies
       (pipeline_evaluate pending :: index_settings option \<Rightarrow> pipeline_guard \<Rightarrow> _)"

section \<open>Assemble and yEnc catch-up\<close>

record scrape_guard = guard_cache +
  assembleBlocked :: bool
  yencBlocked :: bool

record yenc_snapshot =
  open_total :: int
  soft_cap :: int
  hard_cap :: int

definition scrapeBacklogGuardMinHighWater :: int where
  "scrapeBacklogGuardMinHighWater = 50000"

definition scrapeBacklogGuardMinLowWater :: int where
  "scrapeBacklogGuardMinLowWater = 10000"

definition assembleEnabled :: "index_settings option \<Rightarrow> bool" where
  "assembleEnabled rt = (case rt of None \<Rightarrow> False | Some ix \<Rightarrow> assemble_enabled ix)"

definition recoverYEncEnabled :: "index_settings option \<Rightarrow> bool" where
  "recoverYEncEnabled rt = (case rt of None \<Rightarrow> False | Some ix \<Rightarrow> recover_enabled ix)"

definition at_least :: "int \<Rightarrow> int \<Rightarrow> int" where
  "at_least bound x = (if x < bound then bound else x)"

definition scrape_high_water :: "index_settings \<Rightarrow> int" where
  "scrape_high_water ix =
     (if backlog_high_water ix > 0 then backlog_high_water ix
      else (let batch = (if assemble_batch ix \<le> 0 then 5000 else assemble_batch ix);
                total0 = (if assemble_enabled ix then batch else 0);
                capacity = (if total0 \<le> 0 then 5000 else total0);
                high = (if max_group_window ix > 0 then i64 (max_group_window ix * 2)
                        else i64 (capacity * 10))
            in at_least scrapeBacklogGuardMinHighWater high))"

definition scrapeBacklogThresholds :: "index_settings option \<Rightarrow> int \<times> int" where
  "scrapeBacklogThresholds rt =
     (case rt of
        None \<Rightarrow> (scrapeBacklogGuardMinHighWater, scrapeBacklogGuardMinLowWater)
      | Some ix \<Rightarrow>
          (let high0 = scrape_high_water ix;
               low0 = (if backlog_low_water ix > 0 then backlog_low_water ix
                       else at_least scrapeBacklogGuardMinLowWater (gdiv high0 2));
               high = at_least scrapeBacklogGuardMinHighWater high0;
               low1 = at_least scrapeBacklogGuardMinLowWater low0;
               low = (if low1 \<ge> high then at_least scrapeBacklogGuardMinLowWater (gdiv high 2) else low1)
           in (high, low)))"

definition scrape_both :: "gate_decision \<Rightarrow> decisions" where
  "scrape_both d = [StageScrapeLatest \<mapsto> d, StageScrapeBackfill \<mapsto> d]"

definition scrapeBlockedDecisions :: "int \<Rightarrow> int \<Rightarrow> string \<Rightarrow> decisions" where
  "scrapeBlockedDecisions backlog threshold label =
     scrape_both (block (''scrape paused for assemble catch-up: unassembled_headers='' @ itoa backlog @
                         '' '' @ label @ ''='' @ itoa threshold))"

definition yencHardCapBlockedDecisions :: "yenc_snapshot \<Rightarrow> decisions" where
  "yencHardCapBlockedDecisions snap =
     scrape_both (block (''scrape paused for recover_yenc hard cap: open_yenc='' @ itoa (open_total snap) @
       '' soft_cap='' @ itoa (soft_cap snap) @ '' hard_cap='' @ itoa (hard_cap snap)))"

text \<open>The part about recovery; \<open>configure\<close> is the error of passing on the admission settings,
  \<open>snapshot\<close> the outcome of the refresh (the snapshot may be nil).\<close>

definition scrape_yenc_part ::
  "string option \<Rightarrow> string + yenc_snapshot option \<Rightarrow> index_settings \<Rightarrow> 'g scrape_guard_scheme
     \<Rightarrow> (string + decisions) \<times> 'g scrape_guard_scheme" where
  "scrape_yenc_part configure snapshot ix g =
     (if recover_enabled ix
      then (case configure of
              Some e \<Rightarrow> (Inl (''configure yenc recovery admission: '' @ e), g)
            | None \<Rightarrow>
                (case snapshot of
                   Inl e \<Rightarrow> (Inl (''refresh yenc recovery admission snapshot: '' @ e), g)
                 | Inr None \<Rightarrow> (Inr (scrape_both let_pass), g)
                 | Inr (Some snap) \<Rightarrow>
                     (if open_total snap \<ge> hard_cap snap
                      then (Inr (yencHardCapBlockedDecisions snap), g\<lparr>yencBlocked := True\<rparr>)
                      else if open_total snap \<ge> soft_cap snap
                      then (Inr ((scrape_both let_pass)(StageScrapeBackfill \<mapsto>
                               block (''scrape_backfill paused for recover_yenc capacity: open_yenc='' @
                                      itoa (open_total snap)))),
                            g\<lparr>yencBlocked := False\<rparr>)
                      else (Inr (scrape_both let_pass), g))))
      else (Inr (scrape_both let_pass), g\<lparr>yencBlocked := False\<rparr>))"

definition scrape_evaluate ::
  "string + int \<Rightarrow> string option \<Rightarrow> string + yenc_snapshot option \<Rightarrow> index_settings option
     \<Rightarrow> 'g scrape_guard_scheme \<Rightarrow> (string + decisions) \<times> 'g scrape_guard_scheme" where
  "scrape_evaluate counted configure snapshot rt g =
     (case rt of
        None \<Rightarrow> (Inr (scrape_both let_pass), g)
      | Some ix \<Rightarrow>
          (if \<not> assemble_enabled ix \<and> \<not> recover_enabled ix
           then (Inr (scrape_both let_pass), g\<lparr>assembleBlocked := False, yencBlocked := False\<rparr>)
           else if assemble_enabled ix
           then (let (high, low) = scrapeBacklogThresholds (Some ix)
                 in case counted of
                      Inl e \<Rightarrow> (Inl (''count unassembled article header backlog: '' @ e), g)
                    | Inr backlog \<Rightarrow>
                        (let blocked = assembleBlocked g
                         in if blocked \<or> backlog \<ge> high
                            then (if blocked \<and> backlog \<le> low
                                  then scrape_yenc_part configure snapshot ix (g\<lparr>assembleBlocked := False\<rparr>)
                                  else (Inr (if \<not> blocked \<and> backlog \<ge> high
                                             then scrapeBlockedDecisions backlog high ''high_water''
                                             else scrapeBlockedDecisions backlog low ''resume_threshold''),
                                        g\<lparr>assembleBlocked := True\<rparr>))
                            else scrape_yenc_part configure snapshot ix g))
           else scrape_yenc_part configure snapshot ix (g\<lparr>assembleBlocked := False\<rparr>)))"

definition scrape_applies :: "string \<Rightarrow> bool" where
  "scrape_applies name \<longleftrightarrow> name = StageScrapeLatest \<or> name = StageScrapeBackfill"

definition scrapeBacklogGuardRefreshInterval :: int where
  "scrapeBacklogGuardRefreshInterval = 15 * second"

definition scrape_allowStage where
  "scrape_allowStage counted configure snapshot =
     allow_cached scrapeBacklogGuardRefreshInterval scrape_applies
       (scrape_evaluate counted configure snapshot :: index_settings option \<Rightarrow> scrape_guard \<Rightarrow> _)"

section \<open>NNTP traffic\<close>

record scope_activity =
  scope_name :: string
  scope_active :: int
  scope_waiting :: int

record nntp_stats =
  pool_capacity :: int
  pool_active :: int
  pool_waiting :: int
  pool_scopes :: "scope_activity list"

definition nntpGuardApplies :: "string \<Rightarrow> bool" where
  "nntpGuardApplies name \<longleftrightarrow>
     name = StageScrapeLatest \<or> name = StageScrapeBackfill \<or> name = StageRecoverYEnc \<or>
     name = StageInspectPAR2"

text \<open>The pool settings may be nil; only \<open>IndexerStageTargetPercent\<close> is read.\<close>

definition nntpPoolHot :: "int option \<Rightarrow> nntp_stats \<Rightarrow> bool" where
  "nntpPoolHot target stats =
     (if pool_capacity stats \<le> 0 then False
      else (let percent = (case target of None \<Rightarrow> 90 | Some p \<Rightarrow> if p > 0 then p else 90);
                want = gdiv (i64 (pool_capacity stats * percent)) 100;
                target_active = (if want \<le> 0 then 1 else want)
            in pool_waiting stats > 0 \<or> pool_active stats \<ge> target_active))"

definition yencHotThreshold :: "index_settings option \<Rightarrow> int" where
  "yencHotThreshold rt =
     (case rt of
        None \<Rightarrow> 1000
      | Some ix \<Rightarrow>
          at_least 1000 (i64 ((if recover_batch ix \<le> 0 then 1000 else recover_batch ix) * 4)))"

definition scope_map :: "scope_activity list \<Rightarrow> string \<Rightarrow> scope_activity option" where
  "scope_map scopes = fold (\<lambda>s m. m(scope_name s \<mapsto> s)) scopes Map.empty"

definition scopeHot :: "(string \<Rightarrow> scope_activity option) \<Rightarrow> string \<Rightarrow> bool" where
  "scopeHot scopes name =
     (case scopes name of None \<Rightarrow> False | Some s \<Rightarrow> scope_active s > 0 \<or> scope_waiting s > 0)"

text \<open>PAR2 inspection is the lowest priority, then backfill, then the latest articles.\<close>

definition nntp_decisions ::
  "bool \<Rightarrow> (string \<Rightarrow> scope_activity option) \<Rightarrow> index_settings \<Rightarrow> decisions" where
  "nntp_decisions yenc_hot scopes ix =
     (if par2_enabled ix \<and> (yenc_hot \<or> scopeHot scopes ''recover_yenc'' \<or> scopeHot scopes ''scrape'')
      then [StageInspectPAR2 \<mapsto> block ''inspect_par2 paused for nntp catch-up''] else Map.empty) ++
     (if backfill_enabled ix \<and> (yenc_hot \<or> latest_enabled ix \<or> scopeHot scopes ''recover_yenc'')
      then [StageScrapeBackfill \<mapsto> block ''scrape_backfill paused for nntp catch-up''] else Map.empty) ++
     (if latest_enabled ix \<and> yenc_hot
      then [StageScrapeLatest \<mapsto> block ''scrape_latest paused for recover_yenc catch-up''] else Map.empty)"

definition nntp_evaluate ::
  "nntp_stats \<Rightarrow> int option \<Rightarrow> string + int \<Rightarrow> index_settings option \<Rightarrow> 'g guard_cache_scheme
     \<Rightarrow> (string + decisions) \<times> 'g guard_cache_scheme" where
  "nntp_evaluate stats target pending rt g =
     (case rt of
        None \<Rightarrow> (Inr Map.empty, g)
      | Some ix \<Rightarrow>
          (if \<not> nntpPoolHot target stats then (Inr Map.empty, g)
           else (case pending of
                   Inl e \<Rightarrow> (Inl (''count pending yenc recovery backlog for nntp guard: '' @ e), g)
                 | Inr backlog \<Rightarrow>
                     (Inr (nntp_decisions (recover_enabled ix \<and> backlog \<ge> yencHotThreshold (Some ix))
                             (scope_map (pool_scopes stats)) ix), g))))"

definition nntpStageGuardRefreshInterval :: int where
  "nntpStageGuardRefreshInterval = 5 * second"

definition nntp_allowStage where
  "nntp_allowStage stats target pending =
     allow_cached nntpStageGuardRefreshInterval nntpGuardApplies
       (nntp_evaluate stats target pending :: index_settings option \<Rightarrow> guard_cache \<Rightarrow> _)"

section \<open>Storage, memory, integrity and prerequisites\<close>

record storage_config =
  sg_enabled :: bool
  sg_directory :: string
  sg_min_bytes :: int
  sg_min_percent :: rat

record storage_status =
  free_bytes :: int
  free_percent :: rat
  fs_visible :: bool

record resource_cache =
  last_checked :: "int option"
  last_decision :: gate_decision

definition EvaluateDatabaseStorageGuard :: "storage_status \<Rightarrow> storage_config \<Rightarrow> bool \<times> string" where
  "EvaluateDatabaseStorageGuard status cfg =
     (if \<not> sg_enabled cfg then (False, '''')
      else if \<not> fs_visible status then (True, ''postgres data directory free space is unavailable'')
      else if sg_min_bytes cfg > 0 \<and> free_bytes status < sg_min_bytes cfg
      then (True, ''postgres data directory low on space: free_bytes='' @ itoa (free_bytes status))
      else if sg_min_percent cfg > 0 \<and> free_percent status < sg_min_percent cfg
      then (True, ''postgres data directory low on space: free_percent'')
      else (False, ''''))"

text \<open>\<open>currentConfig\<close>: the configuration of the start, overridden by the runtime settings when
  there is a settings store with indexing settings.\<close>

definition currentConfig ::
  "storage_config \<Rightarrow> (string + storage_config option) option \<Rightarrow> string + storage_config" where
  "currentConfig cfg settings =
     (case settings of
        None \<Rightarrow> Inr cfg
      | Some (Inl e) \<Rightarrow> Inl (''load runtime storage guard settings: '' @ e)
      | Some (Inr None) \<Rightarrow> Inr cfg
      | Some (Inr (Some rt)) \<Rightarrow>
          Inr (cfg\<lparr>sg_enabled := sg_enabled rt, sg_directory := sg_directory rt,
                   sg_min_bytes := sg_min_bytes rt, sg_min_percent := sg_min_percent rt\<rparr>))"

definition shouldAlwaysAllowOnLowDBSpace :: "string \<Rightarrow> bool" where
  "shouldAlwaysAllowOnLowDBSpace name \<longleftrightarrow>
     name = StageReleaseArchiveNZB \<or> name = StageReleasePurgeArchivedSources \<or>
     name = StageMaintenanceReleaseSourcePurge"

text \<open>\<open>populate\<close> reads the file system status of a configured directory.\<close>

definition storage_allowStage ::
  "storage_config \<Rightarrow> (string + storage_config option) option \<Rightarrow> string + storage_status \<Rightarrow>
   (string \<Rightarrow> storage_status \<Rightarrow> string + storage_status) \<Rightarrow> string \<Rightarrow> int \<Rightarrow> int \<Rightarrow> resource_cache
     \<Rightarrow> (string + gate_decision) \<times> resource_cache" where
  "storage_allowStage cfg0 settings status populate name now later g =
     (if shouldAlwaysAllowOnLowDBSpace name then (Inr let_pass, g)
      else if fresh (15 * second) (last_checked g) now then (Inr (last_decision g), g)
      else (case status of
              Inl e \<Rightarrow> (Inl (''check postgres storage status: '' @ e), g)
            | Inr st \<Rightarrow>
                (case currentConfig cfg0 settings of
                   Inl e \<Rightarrow> (Inl e, g)
                 | Inr cfg \<Rightarrow>
                     (let dir = trim_space (sg_directory cfg)
                      in case (if dir = '''' then Inr st else populate dir st) of
                           Inl e \<Rightarrow> (Inl (''check configured postgres storage path: '' @ e), g)
                         | Inr st' \<Rightarrow>
                             (let (blocked, why) = EvaluateDatabaseStorageGuard st' cfg;
                                  d = \<lparr>allowed = \<not> blocked, reason = why\<rparr>
                              in (Inr d, g\<lparr>last_checked := Some later, last_decision := d\<rparr>))))))"

record memory_config =
  mg_enabled :: bool
  mg_min_bytes :: int
  mg_min_percent :: rat

record memory_status =
  mem_bytes :: int
  mem_percent :: rat
  mem_visible :: bool

definition evaluateIndexerMemoryGuard :: "memory_status \<Rightarrow> memory_config \<Rightarrow> gate_decision" where
  "evaluateIndexerMemoryGuard status cfg =
     (if \<not> mg_enabled cfg \<or> \<not> mem_visible status then let_pass
      else if mg_min_bytes cfg > 0 \<and> mem_bytes status < mg_min_bytes cfg
      then block (''host memory low: available_bytes='' @ itoa (mem_bytes status))
      else if mg_min_percent cfg > 0 \<and> mem_percent status < mg_min_percent cfg
      then block ''host memory low: available_percent''
      else let_pass)"

definition shouldAlwaysAllowOnLowMemory :: "string \<Rightarrow> bool" where
  "shouldAlwaysAllowOnLowMemory name \<longleftrightarrow>
     name = StageMaintenance \<or> name = StageReleasePurgeArchivedSources"

definition memory_allowStage ::
  "memory_config \<Rightarrow> string + memory_status \<Rightarrow> string \<Rightarrow> int \<Rightarrow> int \<Rightarrow> resource_cache
     \<Rightarrow> (string + gate_decision) \<times> resource_cache" where
  "memory_allowStage cfg status name now later g =
     (if shouldAlwaysAllowOnLowMemory name then (Inr let_pass, g)
      else if fresh (5 * second) (last_checked g) now then (Inr (last_decision g), g)
      else (case status of
              Inl e \<Rightarrow> (Inl (''check host memory status: '' @ e), g)
            | Inr st \<Rightarrow>
                (let d = evaluateIndexerMemoryGuard st cfg
                 in (Inr d, g\<lparr>last_checked := Some later, last_decision := d\<rparr>))))"

text \<open>The report of the integrity check is nil or says which of its checks failed.\<close>

definition integrity_allowStage ::
  "string + string list option \<Rightarrow> string \<Rightarrow> int \<Rightarrow> int \<Rightarrow> resource_cache
     \<Rightarrow> (string + gate_decision) \<times> resource_cache" where
  "integrity_allowStage report trigger now later g =
     (if trigger = ''manual'' then (Inr let_pass, g)
      else if fresh (300 * second) (last_checked g) now then (Inr (last_decision g), g)
      else (case report of
              Inl e \<Rightarrow> (Inl (''check critical indexer integrity: '' @ e), g)
            | Inr rep \<Rightarrow>
                (let d = (case rep of
                            None \<Rightarrow> let_pass
                          | Some [] \<Rightarrow> let_pass
                          | Some (f # fs) \<Rightarrow>
                              block (''critical index integrity failed: '' @ concat ((f # map (\<lambda>x. ''; '' @ x) fs))))
                 in (Inr d, g\<lparr>last_checked := Some later, last_decision := d\<rparr>))))"

text \<open>Which stages need a server or a scrape group; the counts are those of the settings, the
  groups of \<open>EffectiveNewsgroupNames\<close> are \<open>None\<close> when the indexing settings are nil.\<close>

definition needs_server :: "string \<Rightarrow> bool" where
  "needs_server name \<longleftrightarrow>
     name \<in> set [StageAssemble, StageRecoverYEnc, ''inspect_discovery'', StageInspectPAR2, ''inspect_nfo'',
                 ''inspect_archive'', ''inspect_password'', ''inspect_media'']"

definition prerequisite_gate ::
  "string + nat \<times> nat option \<Rightarrow> string \<Rightarrow> string + gate_decision" where
  "prerequisite_gate settings name =
     (case settings of
        Inl e \<Rightarrow> Inl e
      | Inr (servers, groups) \<Rightarrow>
          Inr (if scrape_applies name
               then (if servers = 0 then block ''configure at least one NNTP server''
                     else if groups = None \<or> groups = Some 0
                     then block ''configure at least one scrape group'' else let_pass)
               else if needs_server name \<and> servers = 0
               then block ''configure at least one NNTP server'' else let_pass))"

section \<open>The chain\<close>

text \<open>A gate is a function on the state of all guards; the chain asks them in order and stops at
  the first error or refusal. A nil gate is left out, and a chain of none is nil.\<close>

type_synonym 's gate = "stage \<Rightarrow> string \<Rightarrow> 's \<Rightarrow> (string + gate_decision) \<times> 's"

fun ask_gates :: "'s gate list \<Rightarrow> stage \<Rightarrow> string \<Rightarrow> 's \<Rightarrow> (string + gate_decision) \<times> 's" where
  "ask_gates [] s trigger st = (Inr let_pass, st)"
| "ask_gates (g # gs) s trigger st =
     (case g s trigger st of
        (Inl e, st') \<Rightarrow> (Inl e, st')
      | (Inr d, st') \<Rightarrow> if \<not> allowed d then (Inr d, st') else ask_gates gs s trigger st')"

definition chainStageGates :: "'s gate option list \<Rightarrow> 's gate option" where
  "chainStageGates gates =
     (case List.map_filter (\<lambda>g. g) gates of
        [] \<Rightarrow> None
      | g # gs \<Rightarrow> Some (ask_gates (g # gs)))"

text \<open>\<open>newIndexerStageResourceGuard\<close>: the storage guard when there is a store, the memory guard
  when it is enabled.\<close>

definition newIndexerStageResourceGuard ::
  "bool \<Rightarrow> bool \<Rightarrow> 's gate \<Rightarrow> 's gate \<Rightarrow> 's gate option" where
  "newIndexerStageResourceGuard has_repo memory_on storage memory =
     (case (if has_repo then [storage] else []) @ (if memory_on then [memory] else []) of
        [] \<Rightarrow> None
      | g # gs \<Rightarrow> Some (ask_gates (g # gs)))"

text \<open>The gate the runtime builds: the guards' states and, for one call, what they read.\<close>

record gate_state =
  g_integrity :: resource_cache
  g_scrape :: scrape_guard
  g_pipeline :: pipeline_guard
  g_nntp :: guard_cache
  g_storage :: resource_cache
  g_memory :: resource_cache

record gate_inputs =
  in_now :: int
  in_prerequisites :: "string + nat \<times> nat option"
  in_report :: "string + string list option"
  in_settings :: "string + index_settings option"
  in_unassembled :: "string + int"
  in_configure :: "string option"
  in_snapshot :: "string + yenc_snapshot option"
  in_ready :: "string + int"
  in_stats :: nntp_stats
  in_target :: "int option"
  in_yenc_pending :: "string + int"
  in_storage_config :: storage_config
  in_storage_settings :: "(string + storage_config option) option"
  in_storage_status :: "string + storage_status"
  in_populate :: "string \<Rightarrow> storage_status \<Rightarrow> string + storage_status"
  in_memory_config :: memory_config
  in_memory_status :: "string + memory_status"

definition on_part :: "('s \<Rightarrow> 'p) \<Rightarrow> ('p \<Rightarrow> 's \<Rightarrow> 's) \<Rightarrow> ('p \<Rightarrow> 'r \<times> 'p) \<Rightarrow> 's \<Rightarrow> 'r \<times> 's" where
  "on_part get put f st = (let (r, p) = f (get st) in (r, put p st))"

definition stage_gates :: "gate_inputs \<Rightarrow> gate_state gate option list" where
  "stage_gates x =
     [Some (\<lambda>s trigger st. (prerequisite_gate (in_prerequisites x) (stage_name s), st)),
      Some (\<lambda>s trigger. on_part g_integrity (\<lambda>p st. st\<lparr>g_integrity := p\<rparr>)
              (integrity_allowStage (in_report x) trigger (in_now x) (in_now x))),
      Some (\<lambda>s trigger. on_part g_scrape (\<lambda>p st. st\<lparr>g_scrape := p\<rparr>)
              (scrape_allowStage (in_unassembled x) (in_configure x) (in_snapshot x)
                 (stage_name s) trigger (in_settings x) (in_now x) (in_now x))),
      Some (\<lambda>s trigger. on_part g_pipeline (\<lambda>p st. st\<lparr>g_pipeline := p\<rparr>)
              (pipeline_allowStage (in_ready x) (stage_name s) trigger (in_settings x) (in_now x) (in_now x))),
      Some (\<lambda>s trigger. on_part g_nntp (\<lambda>p st. st\<lparr>g_nntp := p\<rparr>)
              (nntp_allowStage (in_stats x) (in_target x) (in_yenc_pending x)
                 (stage_name s) trigger (in_settings x) (in_now x) (in_now x))),
      newIndexerStageResourceGuard True (mg_enabled (in_memory_config x))
        (\<lambda>s trigger. on_part g_storage (\<lambda>p st. st\<lparr>g_storage := p\<rparr>)
           (storage_allowStage (in_storage_config x) (in_storage_settings x) (in_storage_status x)
              (in_populate x) (stage_name s) (in_now x) (in_now x)))
        (\<lambda>s trigger. on_part g_memory (\<lambda>p st. st\<lparr>g_memory := p\<rparr>)
           (memory_allowStage (in_memory_config x) (in_memory_status x) (stage_name s)
              (in_now x) (in_now x)))]"

definition stage_gate :: "gate_inputs \<Rightarrow> gate_state gate" where
  "stage_gate x = (case chainStageGates (stage_gates x) of
                     None \<Rightarrow> (\<lambda>s trigger st. (Inr let_pass, st)) | Some g \<Rightarrow> g)"

end
