(* ===== verification/Stage_Guard_Props.thy ===== *)
theory Stage_Guard_Props
  imports Stage_Guards
begin

text \<open>
  What the gates promise. The two backlog guards are switches with two water marks (locale
  \<open>water_marks\<close>, interpreted on both): their marks are always in order, and the level has to
  cross the whole band between them from one switch to the next. The chain the runtime builds
  never stops the stage that frees storage for lack of storage.
\<close>

section \<open>Two water marks\<close>

text \<open>The abstract switch.\<close>

definition watermark :: "int \<Rightarrow> int \<Rightarrow> bool \<Rightarrow> int \<Rightarrow> bool" where
  "watermark high low on level = (if on then low < level else high \<le> level)"

fun watermark_run :: "int \<Rightarrow> int \<Rightarrow> bool \<Rightarrow> int list \<Rightarrow> bool list" where
  "watermark_run high low on [] = []"
| "watermark_run high low on (x # xs) =
     watermark high low on x # watermark_run high low (watermark high low on x) xs"

text \<open>The levels at which a switch changes.\<close>

fun switch_levels :: "(bool \<Rightarrow> int \<Rightarrow> bool) \<Rightarrow> bool \<Rightarrow> int list \<Rightarrow> int list" where
  "switch_levels f on [] = []"
| "switch_levels f on (x # xs) = (if f on x = on then [] else [x]) @ switch_levels f (f on x) xs"

fun far_apart :: "int \<Rightarrow> int list \<Rightarrow> bool" where
  "far_apart d (x # y # ys) = (d \<le> \<bar>x - y\<bar> \<and> far_apart d (y # ys))"
| "far_apart d xs = True"

locale water_marks =
  fixes high low :: int and turn :: "bool \<Rightarrow> int \<Rightarrow> bool"
  assumes ordered: "low < high"
    and refines: "turn on level = watermark high low on level"
begin

lemma steady: "low < level \<Longrightarrow> level < high \<Longrightarrow> turn on level = on"
  by (auto simp: refines watermark_def)

lemma first_switch:
  "case switch_levels turn on xs of [] \<Rightarrow> True | x # _ \<Rightarrow> (if on then x \<le> low else high \<le> x)"
  by (induction xs) (auto simp: refines watermark_def split: list.splits)

lemma switches_far_apart: "far_apart (high - low) (switch_levels turn on xs)"
proof (induction xs arbitrary: on)
  case Nil
  then show ?case by simp
next
  case (Cons x xs)
  show ?case
  proof (cases "turn on x = on")
    case True
    then show ?thesis using Cons by simp
  next
    case False
    then have t: "turn on x = (\<not> on)" by simp
    have "if on then x \<le> low else high \<le> x" using False by (auto simp: refines watermark_def split: if_splits)
    then show ?thesis
      using Cons [of "\<not> on"] first_switch [of "\<not> on" xs] t
      by (cases "switch_levels turn (\<not> on) xs") (auto split: if_splits)
  qed
qed

end

section \<open>The marks of the guards\<close>

lemma at_least_ge [simp]: "bound \<le> at_least bound x" "x \<le> at_least bound x"
  by (simp_all add: at_least_def)

lemma at_least_less: "at_least bound x < y \<longleftrightarrow> bound < y \<and> x < y"
  by (auto simp: at_least_def)

lemma half_less: "0 < (h::int) \<Longrightarrow> gdiv h 2 < h" "0 \<le> h \<Longrightarrow> gdiv h 2 = h div 2"
  by (simp_all add: gdiv_nonneg)

lemma release_marks:
  "1000 \<le> fst (releaseReadyThresholds rt)" "500 \<le> snd (releaseReadyThresholds rt)"
  "snd (releaseReadyThresholds rt) < fst (releaseReadyThresholds rt)"
  by (auto simp: releaseReadyThresholds_def Let_def half_less not_less split: option.split)

lemma half_mark: "at_least 10000 (gdiv (at_least 50000 h) 2) < at_least 50000 h"
proof -
  have "50000 \<le> at_least 50000 h" by simp
  then show ?thesis by (simp add: at_least_less half_less del: at_least_ge)
qed

lemma scrape_marks:
  "50000 \<le> fst (scrapeBacklogThresholds rt)" "10000 \<le> snd (scrapeBacklogThresholds rt)"
  "snd (scrapeBacklogThresholds rt) < fst (scrapeBacklogThresholds rt)"
  by (auto simp: scrapeBacklogThresholds_def scrapeBacklogGuardMinHighWater_def
      scrapeBacklogGuardMinLowWater_def Let_def half_mark not_le split: option.split)

text \<open>Whatever the settings say, overflowing products included, both backlog guards resume
  strictly below the mark at which they pause, and never use a mark under their minimum.\<close>

theorem water_marks_in_order:
  "(case releaseReadyThresholds rt of (high, low) \<Rightarrow> 1000 \<le> high \<and> 500 \<le> low \<and> low < high) \<and>
   (case scrapeBacklogThresholds rt of (high, low) \<Rightarrow> 50000 \<le> high \<and> 10000 \<le> low \<and> low < high)"
  using release_marks [of rt] scrape_marks [of rt] by (simp add: case_prod_unfold)

section \<open>The guards are such switches\<close>

text \<open>How a count turns the flag of a guard: releases enabled for the one, assembling enabled and
  recovery disabled for the other.\<close>

definition pipeline_turn :: "index_settings \<Rightarrow> pipeline_guard \<Rightarrow> bool \<Rightarrow> int \<Rightarrow> bool" where
  "pipeline_turn ix g on ready =
     refreshBlocked (snd (pipeline_evaluate (Inr ready) (Some (ix\<lparr>release_enabled := True\<rparr>))
       (g\<lparr>refreshBlocked := on\<rparr>)))"

definition scrape_turn :: "index_settings \<Rightarrow> scrape_guard \<Rightarrow> bool \<Rightarrow> int \<Rightarrow> bool" where
  "scrape_turn ix g on backlog =
     assembleBlocked (snd (scrape_evaluate (Inr backlog) None (Inr None)
       (Some (ix\<lparr>assemble_enabled := True, recover_enabled := False\<rparr>)) (g\<lparr>assembleBlocked := on\<rparr>)))"

interpretation release_pause: water_marks
  "fst (releaseReadyThresholds (Some (ix\<lparr>release_enabled := True\<rparr>)))"
  "snd (releaseReadyThresholds (Some (ix\<lparr>release_enabled := True\<rparr>)))" "pipeline_turn ix g"
  for ix g
  by unfold_locales
    (auto simp: release_marks pipeline_turn_def pipeline_evaluate_def watermark_def case_prod_unfold
      Let_def)

interpretation scrape_pause: water_marks
  "fst (scrapeBacklogThresholds (Some (ix\<lparr>assemble_enabled := True, recover_enabled := False\<rparr>)))"
  "snd (scrapeBacklogThresholds (Some (ix\<lparr>assemble_enabled := True, recover_enabled := False\<rparr>)))"
  "scrape_turn ix g"
  for ix g
proof
  let ?ix = "ix\<lparr>assemble_enabled := True, recover_enabled := False\<rparr>"
  show marks: "snd (scrapeBacklogThresholds (Some ?ix)) < fst (scrapeBacklogThresholds (Some ?ix))"
    by (rule scrape_marks)
  show "scrape_turn ix g on level = watermark (fst (scrapeBacklogThresholds (Some ?ix)))
      (snd (scrapeBacklogThresholds (Some ?ix))) on level" for on level
    using marks
    by (auto simp: scrape_turn_def scrape_evaluate_def scrape_yenc_part_def watermark_def
        case_prod_unfold Let_def)
qed

text \<open>A backlog guard never flaps: from one switch to the next - pausing or resuming - the
  count it reads has moved by at least the distance of its two marks, whatever the counts are.\<close>

theorem guards_switch_far_apart:
  "(let ix' = ix\<lparr>release_enabled := True\<rparr>; (high, low) = releaseReadyThresholds (Some ix')
    in 0 < high - low \<and> far_apart (high - low) (switch_levels (pipeline_turn ix g) on xs)) \<and>
   (let ix' = ix\<lparr>assemble_enabled := True, recover_enabled := False\<rparr>;
        (high, low) = scrapeBacklogThresholds (Some ix')
    in 0 < high - low \<and> far_apart (high - low) (switch_levels (scrape_turn ix h) on xs))"
  using release_pause.switches_far_apart scrape_pause.switches_far_apart
    release_pause.ordered scrape_pause.ordered
  by (simp add: Let_def case_prod_unfold)

text \<open>The decisions a guard gives for a sequence of counts.\<close>

fun pipeline_trace :: "index_settings \<Rightarrow> int list \<Rightarrow> pipeline_guard \<Rightarrow> bool list" where
  "pipeline_trace ix [] g = []"
| "pipeline_trace ix (x # xs) g =
     (case pipeline_evaluate (Inr x) (Some ix) g of
        (Inl e, g') \<Rightarrow> True # pipeline_trace ix xs g'
      | (Inr results, g') \<Rightarrow>
          allowed (decision_for StageReleaseSummaryRefresh results) # pipeline_trace ix xs g')"

fun scrape_trace :: "index_settings \<Rightarrow> int list \<Rightarrow> scrape_guard \<Rightarrow> (bool \<times> bool) list" where
  "scrape_trace ix [] g = []"
| "scrape_trace ix (x # xs) g =
     (case scrape_evaluate (Inr x) None (Inr None) (Some ix) g of
        (Inl e, g') \<Rightarrow> (True, True) # scrape_trace ix xs g'
      | (Inr results, g') \<Rightarrow>
          (allowed (decision_for StageScrapeLatest results),
           allowed (decision_for StageScrapeBackfill results)) # scrape_trace ix xs g')"

lemma pipeline_trace_watermark:
  "pipeline_trace (ix\<lparr>release_enabled := True\<rparr>) xs g =
     map Not (watermark_run (fst (releaseReadyThresholds (Some (ix\<lparr>release_enabled := True\<rparr>))))
       (snd (releaseReadyThresholds (Some (ix\<lparr>release_enabled := True\<rparr>)))) (refreshBlocked g) xs)"
  by (induction xs arbitrary: g)
    (auto simp: pipeline_evaluate_def watermark_def case_prod_unfold decision_for_def refresh_paused_def
      let_pass_def block_def Let_def)

lemma scrape_both_simps [simp]:
  "scrape_both d StageScrapeLatest = Some d" "scrape_both d StageScrapeBackfill = Some d"
  by (simp_all add: scrape_both_def)

lemma scrape_trace_watermark:
  "scrape_trace (ix\<lparr>assemble_enabled := True, recover_enabled := False\<rparr>) xs g =
     map (\<lambda>b. (\<not> b, \<not> b)) (watermark_run
       (fst (scrapeBacklogThresholds (Some (ix\<lparr>assemble_enabled := True, recover_enabled := False\<rparr>))))
       (snd (scrapeBacklogThresholds (Some (ix\<lparr>assemble_enabled := True, recover_enabled := False\<rparr>))))
       (assembleBlocked g) xs)"
proof (induction xs arbitrary: g)
  case Nil
  then show ?case by simp
next
  case (Cons x xs)
  then show ?case
    using scrape_marks(3) [of "Some (ix\<lparr>assemble_enabled := True, recover_enabled := False\<rparr>)"]
    by (auto simp: scrape_evaluate_def scrape_yenc_part_def scrapeBlockedDecisions_def watermark_def
        case_prod_unfold decision_for_def let_pass_def block_def Let_def)
qed


section \<open>Priorities on the NNTP pool\<close>

lemma one_entry_lookups:
  "((if a then [i \<mapsto> x] else Map.empty) ++ (if b then [j \<mapsto> y] else Map.empty) ++
    (if c then [k \<mapsto> z] else Map.empty)) n =
   (if c \<and> n = k then Some z else if b \<and> n = j then Some y else if a \<and> n = i then Some x else None)"
  by (cases a; cases b; cases c) (simp_all add: map_add_def)

text \<open>On a hot NNTP pool the guard gives way in the order of the stages' priority: the yEnc
  recovery is never refused, and where the scraping of the latest articles is refused, so are
  the enabled stages below it, backfill and PAR2 inspection.\<close>

theorem nntp_guard_respects_priority:
  assumes "nntp_evaluate stats target pending (Some ix) g = (Inr results, g')"
  shows "allowed (decision_for StageRecoverYEnc results) \<and>
     (allowed (decision_for StageScrapeLatest results) \<or>
        (allowed (decision_for StageScrapeBackfill results) = (\<not> backfill_enabled ix) \<and>
         allowed (decision_for StageInspectPAR2 results) = (\<not> par2_enabled ix)))"
proof (cases "nntpPoolHot target stats")
  case False
  with assms show ?thesis by (auto simp: nntp_evaluate_def decision_for_def let_pass_def)
next
  case True
  with assms obtain backlog where b: "pending = Inr backlog" by (cases pending) (auto simp: nntp_evaluate_def)
  with True assms have r: "results = nntp_decisions (recover_enabled ix \<and> yencHotThreshold (Some ix) \<le> backlog)
      (scope_map (pool_scopes stats)) ix"
    by (simp add: nntp_evaluate_def)
  show ?thesis
    unfolding r by (simp add: decision_for_def nntp_decisions_def one_entry_lookups let_pass_def block_def)
qed

definition sample_settings :: index_settings where
  "sample_settings =
     \<lparr>latest_enabled = True, backfill_enabled = True, assemble_enabled = True, assemble_batch = 0,
      recover_enabled = True, recover_batch = 0, release_enabled = True, release_batch = 0,
      par2_enabled = True, max_group_window = 0, backlog_high_water = 0, backlog_low_water = 0\<rparr>"

definition sample_hot :: "(string + decisions) \<times> guard_cache" where
  "sample_hot = nntp_evaluate \<lparr>pool_capacity = 10, pool_active = 9, pool_waiting = 0, pool_scopes = []\<rparr>
     None (Inr 5000) (Some sample_settings) \<lparr>last_check = None, last_results = Map.empty\<rparr>"

lemma nntp_guard_respects_priority_witness:
  "\<not> allowed (decision_for StageScrapeLatest (projr (fst sample_hot))) \<and>
   allowed (decision_for StageRecoverYEnc (projr (fst sample_hot))) \<and>
   \<not> allowed (decision_for StageScrapeBackfill (projr (fst sample_hot)))"
proof -
  have l: "\<not> allowed (decision_for StageScrapeLatest (projr (fst sample_hot)))" by code_simp
  have "isl (fst sample_hot) = False" by code_simp
  then have "sample_hot = (Inr (projr (fst sample_hot)), snd sample_hot)"
    by (cases sample_hot) (auto simp: isl_def split: sum.splits)
  then have "nntp_evaluate \<lparr>pool_capacity = 10, pool_active = 9, pool_waiting = 0, pool_scopes = []\<rparr>
     None (Inr 5000) (Some sample_settings) \<lparr>last_check = None, last_results = Map.empty\<rparr> =
     (Inr (projr (fst sample_hot)), snd sample_hot)" unfolding sample_hot_def .
  from nntp_guard_respects_priority [OF this]
  show ?thesis using l by (auto simp: sample_settings_def)
qed

section \<open>The chain\<close>

lemma ask_gates_append:
  "ask_gates (gs @ hs) s trigger st =
     (case ask_gates gs s trigger st of
        (Inl e, st') \<Rightarrow> (Inl e, st')
      | (Inr d, st') \<Rightarrow> if \<not> allowed d then (Inr d, st') else
          (case ask_gates hs s trigger st' of (r, st'') \<Rightarrow> (r, st'')))"
  by (induction gs arbitrary: st) (auto simp: let_pass_def split: prod.split sum.split)

text \<open>What a gate does to its own part, for the stages and triggers it lets pass unasked.\<close>

lemma unasked [simp]:
  "scrape_allowStage c cf sn ''release_purge_archived_sources'' trigger rt now later g = (Inr let_pass, g)"
  "pipeline_allowStage p ''release_purge_archived_sources'' trigger rt now later h = (Inr let_pass, h)"
  "nntp_allowStage ns tg y ''release_purge_archived_sources'' trigger rt now later i = (Inr let_pass, i)"
  "storage_allowStage c0 ss st po ''release_purge_archived_sources'' now later k = (Inr let_pass, k)"
  "memory_allowStage mc ms ''release_purge_archived_sources'' now later k = (Inr let_pass, k)"
  by (simp_all add: scrape_allowStage_def pipeline_allowStage_def nntp_allowStage_def allow_cached_def
      scrape_applies_def pipelineGuardApplies_def nntpGuardApplies_def storage_allowStage_def
      shouldAlwaysAllowOnLowDBSpace_def memory_allowStage_def shouldAlwaysAllowOnLowMemory_def)

lemma pass_allowed [simp]: "allowed let_pass"
  by (simp add: let_pass_def)

lemma sum_tuple: "(case r of Inl e \<Rightarrow> (Inl e, x) | Inr d \<Rightarrow> if allowed d then (Inr d, x) else (Inr d, x)) = (r, x)"
  by (simp split: sum.split)

text \<open>Nothing but a failed integrity check keeps the purge of archived sources from running:
  when the settings can be loaded, the gate of the runtime decides on it exactly as the
  integrity guard does, however little disk space or memory is left, however large the backlogs
  are and whatever the guards have cached - the stage that frees space is never refused for
  lack of it.\<close>

theorem purge_is_not_refused_for_lack_of_space:
  assumes "stage_name s = ''release_purge_archived_sources''" "in_prerequisites x = Inr counts"
  shows "(case fst (stage_gate x s trigger st) of Inl _ \<Rightarrow> False | Inr d \<Rightarrow> allowed d) =
     (case fst (integrity_allowStage (in_report x) trigger (in_now x) (in_now x) (g_integrity st)) of
        Inl _ \<Rightarrow> False | Inr d \<Rightarrow> allowed d)"
proof -
  obtain n gr where c: "counts = (n, gr)" by force
  have pre: "prerequisite_gate (in_prerequisites x) (stage_name s) = Inr let_pass"
    using assms by (simp add: prerequisite_gate_def c scrape_applies_def needs_server_def)
  show ?thesis
    using pre assms(1)
    by (auto simp: stage_gate_def chainStageGates_def stage_gates_def newIndexerStageResourceGuard_def
        List.map_filter_def on_part_def case_prod_unfold split: sum.split)
qed


definition sample_gates :: gate_state where
  "sample_gates =
     \<lparr>g_integrity = \<lparr>last_checked = None, last_decision = let_pass\<rparr>,
      g_scrape = \<lparr>last_check = None, last_results = Map.empty, assembleBlocked = False, yencBlocked = False\<rparr>,
      g_pipeline = \<lparr>last_check = None, last_results = Map.empty, refreshBlocked = False\<rparr>,
      g_nntp = \<lparr>last_check = None, last_results = Map.empty\<rparr>,
      g_storage = \<lparr>last_checked = Some 0, last_decision = block ''low on space''\<rparr>,
      g_memory = \<lparr>last_checked = Some 0, last_decision = block ''low''\<rparr>\<rparr>"

definition sample_inputs :: gate_inputs where
  "sample_inputs =
     \<lparr>in_now = 1, in_prerequisites = Inr (0, None), in_report = Inr (Some []),
      in_settings = Inr (Some sample_settings), in_unassembled = Inr 99999, in_configure = None,
      in_snapshot = Inr None, in_ready = Inr 99999,
      in_stats = \<lparr>pool_capacity = 10, pool_active = 9, pool_waiting = 0, pool_scopes = []\<rparr>,
      in_target = None, in_yenc_pending = Inr 0,
      in_storage_config = \<lparr>sg_enabled = True, sg_directory = [], sg_min_bytes = 0, sg_min_percent = 0\<rparr>,
      in_storage_settings = None, in_storage_status = Inl ''down'', in_populate = (\<lambda>d st. Inr st),
      in_memory_config = \<lparr>mg_enabled = True, mg_min_bytes = 0, mg_min_percent = 0\<rparr>,
      in_memory_status = Inl ''down''\<rparr>"

lemma purge_is_not_refused_for_lack_of_space_witness:
  "case fst (stage_gate sample_inputs (sample_stage\<lparr>stage_name := ''release_purge_archived_sources''\<rparr>)
       ''scheduled'' sample_gates) of Inl _ \<Rightarrow> False | Inr d \<Rightarrow> allowed d"
proof -
  let ?s = "sample_stage\<lparr>stage_name := ''release_purge_archived_sources''\<rparr>"
  have n: "stage_name ?s = ''release_purge_archived_sources''" by simp
  have i: "in_prerequisites sample_inputs = Inr (0, None)" by (simp add: sample_inputs_def)
  have "case fst (integrity_allowStage (in_report sample_inputs) ''scheduled'' (in_now sample_inputs)
      (in_now sample_inputs) (g_integrity sample_gates)) of Inl _ \<Rightarrow> False | Inr d \<Rightarrow> allowed d"
    by (simp add: sample_inputs_def sample_gates_def integrity_allowStage_def fresh_def let_pass_def Let_def)
  with purge_is_not_refused_for_lack_of_space [OF n i, of "''scheduled''" sample_gates] show ?thesis
    by blast
qed

end
