(* ===== verification/Scrape_Store.thy ===== *)
theory Scrape_Store
  imports Go_Prelude Complex_Main
begin

text \<open>
  The tables of the indexer that scraping reads and writes (\<open>store/pgindex/repository.go\<close>,
  \<open>work_window_control_store.go\<close>, \<open>scrape_boundary_store.go\<close>): providers and newsgroups, the checkpoints of a provider's group,
  the deferred article ranges, the boundaries of days, and the runs. An operation is a function on the
  tables that returns an error or a value; times are instants in nanoseconds since the epoch.

  \<open>db_fails\<close> lists, for the calls to come, whether the database fails (then the tables do not change).
\<close>

section \<open>Errors\<close>

text \<open>\<open>isContextCancellation\<close> compares with \<open>==\<close>, so it only matters whether an error is one of the two context
  errors itself, and what its text is.\<close>

datatype scrape_error = ContextEnded string | Failed string

fun error_text :: "scrape_error \<Rightarrow> string" where
  "error_text (ContextEnded t) = t"
| "error_text (Failed t) = t"

definition in_call :: "string \<Rightarrow> scrape_error \<Rightarrow> scrape_error" where
  "in_call what e = Failed (what @ '': '' @ error_text e)"

section \<open>Tables\<close>

record checkpoint =
  ck_last :: int
  ck_backfill :: int
  ck_until :: "int option"
  ck_reached :: bool
  ck_reason :: string

definition no_checkpoint :: checkpoint where
  "no_checkpoint = \<lparr>ck_last = 0, ck_backfill = 0, ck_until = None, ck_reached = False, ck_reason = []\<rparr>"

text \<open>A row of \<open>deferred_article_ranges\<close>; scraping leaves the dates empty. Priorities are rational
  numbers.\<close>

record deferred_range =
  df_provider :: int
  df_group :: int
  df_low :: int
  df_high :: int
  df_count :: int
  df_obfuscated :: int
  df_reason :: string
  df_priority :: rat
  df_state :: string

record day_boundary =
  bd_lower :: bool
  bd_upper :: bool
  bd_low :: int
  bd_high :: int
  bd_count :: int

record article_header =
  ah_number :: int
  ah_id :: string
  ah_subject :: string
  ah_poster :: string
  ah_date :: "int option"
  ah_bytes :: int
  ah_lines :: int
  ah_xref :: string
  ah_raw :: "(string \<times> string) list"

record scrape_run =
  rn_provider :: int
  rn_status :: string
  rn_error :: string
  rn_finished :: bool

record group_profile =
  gp_tier :: string
  gp_override :: "string option"

text \<open>\<open>db_inserted\<close> are the batches given to \<open>InsertArticleHeaders\<close> (how they are spread over the article tables is not
  modelled); \<open>db_fetched\<close> is a history variable: the ranges that were fetched, inserted and observed.\<close>

record scrape_db =
  db_fails :: "scrape_error option list"
  db_providers :: "string list"
  db_groups :: "string list"
  db_checkpoints :: "(int \<times> int) \<Rightarrow> checkpoint option"
  db_deferred :: "deferred_range list"
  db_days :: "(int \<times> int \<times> int) \<Rightarrow> day_boundary option"
  db_inserted :: "(int \<times> int \<times> article_header list) list"
  db_profiles :: "(int \<times> int) \<Rightarrow> group_profile option"
  db_runs :: "scrape_run list"
  db_fetched :: "(int \<times> int \<times> int \<times> int) list"

type_synonym 'a db = "scrape_db \<Rightarrow> (scrape_error + 'a) \<times> scrape_db"

definition ret :: "'a \<Rightarrow> 'a db" where "ret x s = (Inr x, s)"

definition throw :: "scrape_error \<Rightarrow> 'a db" where "throw e s = (Inl e, s)"

text \<open>\<open>call what m k\<close>: call \<open>m\<close>, return its error wrapped, or go on.\<close>

definition call :: "string \<Rightarrow> 'a db \<Rightarrow> ('a \<Rightarrow> 'b db) \<Rightarrow> 'b db" where
  "call what m k s = (case m s of (Inl e, s') \<Rightarrow> (Inl (in_call what e), s') | (Inr x, s') \<Rightarrow> k x s')"

text \<open>The same with the error passed on as it is.\<close>

definition pass :: "'a db \<Rightarrow> ('a \<Rightarrow> 'b db) \<Rightarrow> 'b db" where
  "pass m k s = (case m s of (Inl e, s') \<Rightarrow> (Inl e, s') | (Inr x, s') \<Rightarrow> k x s')"

text \<open>A statement on the database.\<close>

definition statement :: "string \<Rightarrow> (scrape_db \<Rightarrow> 'a \<times> scrape_db) \<Rightarrow> 'a db" where
  "statement what f s =
     (case db_fails s of
        [] \<Rightarrow> (case f s of (x, s') \<Rightarrow> (Inr x, s'))
      | None # fs \<Rightarrow> (case f (s\<lparr>db_fails := fs\<rparr>) of (x, s') \<Rightarrow> (Inr x, s'))
      | Some e # fs \<Rightarrow> (Inl (in_call what e), s\<lparr>db_fails := fs\<rparr>))"

section \<open>Providers, groups, runs\<close>

text \<open>Ids count from one in the order of insertion.\<close>

fun index_from :: "int \<Rightarrow> string \<Rightarrow> string list \<Rightarrow> int option" where
  "index_from i x [] = None"
| "index_from i x (y # ys) = (if x = y then Some i else index_from (i + 1) x ys)"

definition ensure_name :: "string \<Rightarrow> string list \<Rightarrow> int \<times> string list" where
  "ensure_name x xs =
     (case index_from 1 x xs of Some i \<Rightarrow> (i, xs) | None \<Rightarrow> (int (length xs) + 1, xs @ [x]))"

definition EnsureProvider :: "string \<Rightarrow> int db" where
  "EnsureProvider key =
     (let key = trim_space key
      in if key = [] then throw (Failed ''provider key is required'')
         else statement (''ensure provider '' @ key)
           (\<lambda>s. case ensure_name key (db_providers s) of (i, ns) \<Rightarrow> (i, s\<lparr>db_providers := ns\<rparr>)))"

definition EnsureNewsgroup :: "string \<Rightarrow> int db" where
  "EnsureNewsgroup grp =
     (let grp = trim_space grp
      in if grp = [] then throw (Failed ''newsgroup name is required'')
         else statement (''ensure newsgroup '' @ grp)
           (\<lambda>s. case ensure_name grp (db_groups s) of (i, ns) \<Rightarrow> (i, s\<lparr>db_groups := ns\<rparr>)))"

definition StartScrapeRun :: "int \<Rightarrow> int db" where
  "StartScrapeRun p =
     (if p \<le> 0 then throw (Failed ''provider id is required'')
      else statement ''start scrape run''
        (\<lambda>s. (int (length (db_runs s)) + 1,
              s\<lparr>db_runs := db_runs s @ [\<lparr>rn_provider = p, rn_status = ''running'', rn_error = [], rn_finished = False\<rparr>]\<rparr>)))"

definition FinishScrapeRun :: "int \<Rightarrow> string \<Rightarrow> string \<Rightarrow> unit db" where
  "FinishScrapeRun i status err =
     (if i \<le> 0 then throw (Failed ''run id is required'')
      else statement (''finish scrape run '' @ itoa i)
        (\<lambda>s. (let t = to_lower status; t = trim_space t; t = (if t = [] then ''completed'' else t); k = nat (i - 1)
              in if k < length (db_runs s)
                 then ((), s\<lparr>db_runs := (db_runs s)
                   [k := (db_runs s ! k)\<lparr>rn_status := t, rn_error := err, rn_finished := True\<rparr>]\<rparr>)
                 else ((), s))))"

section \<open>Checkpoints\<close>

abbreviation keys_needed :: scrape_error where
  "keys_needed \<equiv> Failed ''provider id and newsgroup id are required''"

definition GetLatestCheckpoint :: "int \<Rightarrow> int \<Rightarrow> int db" where
  "GetLatestCheckpoint p g =
     (if p \<le> 0 \<or> g \<le> 0 then throw keys_needed
      else statement ''get checkpoint''
        (\<lambda>s. (case db_checkpoints s (p, g) of None \<Rightarrow> 0 | Some c \<Rightarrow> ck_last c, s)))"

definition put_checkpoint :: "int \<Rightarrow> int \<Rightarrow> (checkpoint \<Rightarrow> checkpoint) \<Rightarrow> scrape_db \<Rightarrow> scrape_db" where
  "put_checkpoint p g f s =
     s\<lparr>db_checkpoints := (db_checkpoints s)((p, g) \<mapsto>
        f (case db_checkpoints s (p, g) of None \<Rightarrow> no_checkpoint | Some c \<Rightarrow> c))\<rparr>"

definition UpsertLatestCheckpoint :: "int \<Rightarrow> int \<Rightarrow> int \<Rightarrow> unit db" where
  "UpsertLatestCheckpoint p g n =
     (if p \<le> 0 \<or> g \<le> 0 then throw keys_needed
      else statement ''upsert checkpoint''
        (\<lambda>s. ((), put_checkpoint p g (\<lambda>c. c\<lparr>ck_last := max (ck_last c) (max n 0)\<rparr>) s)))"

definition GetBackfillCheckpoint :: "int \<Rightarrow> int \<Rightarrow> int db" where
  "GetBackfillCheckpoint p g =
     statement ''get backfill checkpoint''
       (\<lambda>s. (case db_checkpoints s (p, g) of None \<Rightarrow> 0 | Some c \<Rightarrow> ck_backfill c, s))"

definition UpsertBackfillCheckpoint :: "int \<Rightarrow> int \<Rightarrow> int \<Rightarrow> unit db" where
  "UpsertBackfillCheckpoint p g n =
     (if p \<le> 0 then throw (Failed ''provider id is required'')
      else if g \<le> 0 then throw (Failed ''newsgroup id is required'')
      else statement ''upsert backfill checkpoint''
        (\<lambda>s. ((), put_checkpoint p g (\<lambda>c. c\<lparr>ck_backfill := max n 0\<rparr>) s)))"

definition GetBackfillCheckpointState :: "int \<Rightarrow> int \<Rightarrow> checkpoint option db" where
  "GetBackfillCheckpointState p g =
     (if p \<le> 0 then throw (Failed ''provider id is required'')
      else if g \<le> 0 then throw (Failed ''newsgroup id is required'')
      else statement ''get backfill checkpoint state'' (\<lambda>s. (db_checkpoints s (p, g), s)))"

text \<open>Whether any provider has reached the date in the group: a provider of the table.\<close>

definition cutoff_reached_by :: "scrape_db \<Rightarrow> int \<Rightarrow> int \<Rightarrow> int \<Rightarrow> bool" where
  "cutoff_reached_by s g date p \<longleftrightarrow>
     (case db_checkpoints s (p, g) of None \<Rightarrow> False | Some c \<Rightarrow> ck_reached c \<and> ck_until c = Some date)"

definition HasBackfillCutoffReachedForGroup :: "int \<Rightarrow> int \<Rightarrow> bool db" where
  "HasBackfillCutoffReachedForGroup g date =
     (if g \<le> 0 then throw (Failed ''newsgroup id is required'')
      else statement ''check backfill cutoff reached''
        (\<lambda>s. (list_ex (cutoff_reached_by s g date) (map int [1..<Suc (length (db_providers s))]), s)))"

definition SetBackfillCheckpointState :: "int \<Rightarrow> int \<Rightarrow> int option \<Rightarrow> bool \<Rightarrow> string \<Rightarrow> unit db" where
  "SetBackfillCheckpointState p g until reached reason =
     (if p \<le> 0 then throw (Failed ''provider id is required'')
      else if g \<le> 0 then throw (Failed ''newsgroup id is required'')
      else statement ''set backfill checkpoint state''
        (\<lambda>s. ((), put_checkpoint p g
           (\<lambda>c. c\<lparr>ck_until := until, ck_reached := reached, ck_reason := trim_space reason\<rparr>) s)))"

section \<open>Profiles and deferred ranges\<close>

definition normalizeIndexerGroupTier :: "string \<Rightarrow> string" where
  "normalizeIndexerGroupTier tier =
     (if tier \<in> set [''hot'', ''warm'', ''cold'', ''disabled''] then tier else ''warm'')"

definition UpsertIndexerGroupProfile :: "int \<Rightarrow> int \<Rightarrow> string \<Rightarrow> unit db" where
  "UpsertIndexerGroupProfile p g tier =
     (if p \<le> 0 \<or> g \<le> 0 then throw keys_needed
      else statement ''upsert indexer group profile''
        (\<lambda>s. ((), s\<lparr>db_profiles := (db_profiles s)((p, g) \<mapsto>
           (case db_profiles s (p, g) of
              None \<Rightarrow> \<lparr>gp_tier = normalizeIndexerGroupTier tier, gp_override = None\<rparr>
            | Some r \<Rightarrow>
                (if gp_override r = None then r\<lparr>gp_tier := normalizeIndexerGroupTier tier\<rparr> else r)))\<rparr>)))"

definition same_range :: "deferred_range \<Rightarrow> deferred_range \<Rightarrow> bool" where
  "same_range a b \<longleftrightarrow> df_provider a = df_provider b \<and> df_group a = df_group b \<and> df_low a = df_low b \<and>
     df_high a = df_high b"

fun upsert_range :: "deferred_range \<Rightarrow> deferred_range list \<Rightarrow> deferred_range list" where
  "upsert_range x [] = [x\<lparr>df_state := ''ready''\<rparr>]"
| "upsert_range x (r # rs) =
     (if same_range x r
      then r\<lparr>df_count := max (df_count r) (df_count x), df_obfuscated := max (df_obfuscated r) (df_obfuscated x),
             df_reason := df_reason x, df_priority := max (df_priority r) (df_priority x),
             df_state := (if df_state r = ''completed'' then df_state r else ''ready'')\<rparr> # rs
      else r # upsert_range x rs)"

definition UpsertDeferredArticleRange :: "deferred_range \<Rightarrow> unit db" where
  "UpsertDeferredArticleRange x =
     (if df_provider x \<le> 0 \<or> df_group x \<le> 0 then throw keys_needed
      else if df_low x \<le> 0 \<or> df_high x < df_low x then throw (Failed ''valid article range is required'')
      else statement ''upsert deferred article range''
        (\<lambda>s. ((), s\<lparr>db_deferred := upsert_range x (db_deferred s)\<rparr>)))"

section \<open>Articles\<close>

text \<open>\<open>InsertArticleHeaders\<close>; the number of new rows is an argument.\<close>

definition InsertArticleHeaders :: "int \<Rightarrow> int \<Rightarrow> int \<Rightarrow> article_header list \<Rightarrow> int db" where
  "InsertArticleHeaders fresh_rows p g hs =
     (if p \<le> 0 \<or> g \<le> 0 then throw keys_needed
      else if hs = [] then ret 0
      else statement ''insert article headers''
        (\<lambda>s. (fresh_rows, s\<lparr>db_inserted := db_inserted s @ [(p, g, hs)]\<rparr>)))"

section \<open>Days\<close>

definition day_length :: int where "day_length = 86400 * 1000000000"

definition day_of :: "int \<Rightarrow> int" where "day_of t = t div day_length"

text \<open>\<open>BuildScrapeDayBoundaryObservations\<close>: for every day with an article, what was seen of it; the days are
  listed in ascending order (the code ranges over a map).\<close>

definition dated :: "(int \<times> int option) list \<Rightarrow> (int \<times> int) list" where
  "dated obs = List.map_filter
     (\<lambda>(n, d). if n \<le> 0 then None else (case d of None \<Rightarrow> None | Some t \<Rightarrow> Some (n, t))) obs"

definition BuildScrapeDayBoundaryObservations :: "(int \<times> int option) list \<Rightarrow> (int \<times> day_boundary) list" where
  "BuildScrapeDayBoundaryObservations obs =
     (let ds = dated obs; ts = map snd ds
      in map (\<lambda>day. let ns = map fst (filter (\<lambda>(n, t). day_of t = day) ds)
           in (day, \<lparr>bd_lower = (Min (set ts) < day * day_length),
                    bd_upper = (day * day_length + day_length \<le> Max (set ts)),
                    bd_low = Min (set ns), bd_high = Max (set ns), bd_count = int (length ns)\<rparr>))
         (sort (remdups (map day_of ts))))"

definition merge_boundary :: "day_boundary option \<Rightarrow> day_boundary \<Rightarrow> day_boundary" where
  "merge_boundary old new =
     (case old of
        None \<Rightarrow> new
      | Some o' \<Rightarrow>
          \<lparr>bd_lower = (bd_lower o' \<or> bd_lower new), bd_upper = (bd_upper o' \<or> bd_upper new),
           bd_low = (if bd_low o' \<le> 0 then bd_low new else min (bd_low o') (bd_low new)),
           bd_high = max (bd_high o') (bd_high new), bd_count = bd_count o' + bd_count new\<rparr>)"

definition upsert_day :: "int \<Rightarrow> int \<Rightarrow> int \<times> day_boundary \<Rightarrow> unit db" where
  "upsert_day p g x =
     (case x of
        (day, b) \<Rightarrow>
          (if bd_low b \<le> 0 \<or> bd_high b < bd_low b then ret ()
           else statement ''upsert scrape day boundary observation''
             (\<lambda>s. ((), s\<lparr>db_days := (db_days s)((p, g, day) \<mapsto> merge_boundary (db_days s (p, g, day)) b)\<rparr>))))"

fun upsert_days :: "int \<Rightarrow> int \<Rightarrow> (int \<times> day_boundary) list \<Rightarrow> unit db" where
  "upsert_days p g [] = ret ()"
| "upsert_days p g (x # xs) = pass (upsert_day p g x) (\<lambda>_. upsert_days p g xs)"

definition ObserveScrapeRange :: "int \<Rightarrow> int \<Rightarrow> int \<Rightarrow> int \<Rightarrow> (int \<times> int option) list \<Rightarrow> unit db" where
  "ObserveScrapeRange p g lo hi obs =
     (if p \<le> 0 \<or> g \<le> 0 then throw keys_needed
      else if lo \<le> 0 \<or> hi < lo \<or> obs = [] then ret ()
      else upsert_days p g (BuildScrapeDayBoundaryObservations obs))"

end
