(* ===== verification/Scrape.thy ===== *)
theory Scrape
  imports Scrape_Store
begin

text \<open>
  Scraping, \<open>indexing/scrape/service.go\<close>: one run takes some of the newsgroups in rotation and fetches, for
  each, one range of article headers: the newest (\<open>latest\<close>) or the next older one (\<open>backfill\<close>).

  What the news server and the recovery queue answer during the run of a group is an argument
  (\<open>group_call\<close>), as is the order in which the workers finish. Article numbers and batch
  sizes are far below 2^63, so their sums are not wrapped.
\<close>

section \<open>The service\<close>

record scrape_options =
  so_groups :: "string list"
  so_batch :: int
  so_concurrency :: int
  so_max_batches :: int
  so_cutoffs :: "string \<Rightarrow> int option"

record integrity_report =
  ir_amcheck :: bool
  ir_checks :: "(bool \<times> string \<times> string) list"

text \<open>\<open>sv_provider\<close> is the id of the provider, \<open>sv_aware\<close> whether it reports which server answered.\<close>

record scrape_service =
  sv_opts :: scrape_options
  sv_provider :: string
  sv_aware :: bool
  sv_next :: int
  sv_checked :: "int option"
  sv_valid :: bool
  sv_report :: "integrity_report option"
  sv_warned :: bool

definition NewService :: "string \<Rightarrow> bool \<Rightarrow> scrape_options \<Rightarrow> scrape_service" where
  "NewService provider aware opts =
     (let opts = (if so_batch opts \<le> 0 then opts\<lparr>so_batch := 5000\<rparr> else opts);
          opts = (if so_concurrency opts \<le> 0 then opts\<lparr>so_concurrency := 1\<rparr> else opts);
          opts = (if so_max_batches opts \<le> 0 then opts\<lparr>so_max_batches := so_concurrency opts\<rparr> else opts)
      in \<lparr>sv_opts = opts, sv_provider = provider, sv_aware = aware, sv_next = 0, sv_checked = None,
          sv_valid = False, sv_report = None, sv_warned = False\<rparr>)"

record overview_row =
  ow_number :: int
  ow_id :: string
  ow_subject :: string
  ow_poster :: string
  ow_date :: "int option"
  ow_bytes :: int
  ow_lines :: int
  ow_xref :: string
  ow_raw :: "(string \<times> string) list"

record recovery_snapshot =
  rs_soft :: int
  rs_hard :: int
  rs_open :: int

record group_stats_answer =
  ga_low :: int
  ga_high :: int
  ga_provider :: string

record group_call =
  gc_stats :: "scrape_error + group_stats_answer"
  gc_rows :: "int \<Rightarrow> int \<Rightarrow> scrape_error + overview_row list \<times> string"
  gc_snapshot :: "scrape_error + recovery_snapshot option"
  gc_new :: "article_header list \<Rightarrow> int"

section \<open>Texts\<close>

text \<open>The length of the UTF-8 encoded code point a text begins with; 0 if it begins with none.\<close>

definition cont :: "nat \<Rightarrow> nat \<Rightarrow> string \<Rightarrow> bool" where
  "cont lo hi s = (case s of [] \<Rightarrow> False | c # cs \<Rightarrow> lo \<le> code c \<and> code c \<le> hi)"

definition rune_len :: "string \<Rightarrow> nat" where
  "rune_len s =
     (case s of
        [] \<Rightarrow> 0
      | c # t \<Rightarrow>
          (let n = code c; tail = (\<lambda>k. cont 0x80 0xBF (drop k t))
           in if n < 0x80 then 1
              else if 0xC2 \<le> n \<and> n \<le> 0xDF then (if tail 0 then 2 else 0)
              else if 0xE0 \<le> n \<and> n \<le> 0xEF
              then (if cont (if n = 0xE0 then 0xA0 else 0x80) (if n = 0xED then 0x9F else 0xBF) t \<and> tail 1
                    then 3 else 0)
              else if 0xF0 \<le> n \<and> n \<le> 0xF4
              then (if cont (if n = 0xF0 then 0x90 else 0x80) (if n = 0xF4 then 0x8F else 0xBF) t \<and> tail 1 \<and> tail 2
                    then 4 else 0)
              else 0))"

fun utf8_valid :: "string \<Rightarrow> bool" where
  "utf8_valid [] = True"
| "utf8_valid (c # cs) = (let k = rune_len (c # cs) in k \<noteq> 0 \<and> utf8_valid (drop (k - 1) cs))"

text \<open>\<open>bytes.ToValidUTF8\<close> with an empty replacement.\<close>

fun drop_invalid :: "string \<Rightarrow> string" where
  "drop_invalid [] = []"
| "drop_invalid (c # cs) =
     (let k = rune_len (c # cs)
      in if k = 0 then drop_invalid cs else take k (c # cs) @ drop_invalid (drop (k - 1) cs))"

definition drop_nul :: "string \<Rightarrow> string" where "drop_nul = filter (\<lambda>c. c \<noteq> CHR 0x00)"

definition sanitizeScrapeUTF8 :: "string \<Rightarrow> string" where
  "sanitizeScrapeUTF8 s =
     (let s = trim_space s
      in if s = [] then []
         else (let s = drop_nul s
               in if s = [] then [] else if utf8_valid s then s else drop_nul (drop_invalid s)))"

text \<open>\<open>strings.EqualFold\<close>, for texts whose letters are ASCII.\<close>

definition equal_fold :: "string \<Rightarrow> string \<Rightarrow> bool" where
  "equal_fold a b \<longleftrightarrow> to_lower a = to_lower b"

section \<open>Fetching a range\<close>

definition effectiveProviderID :: "scrape_service \<Rightarrow> int \<Rightarrow> string \<Rightarrow> int db" where
  "effectiveProviderID sv fallback key =
     (let key = trim_space key
      in if key = [] \<or> equal_fold key (trim_space (sv_provider sv)) then ret fallback
         else call (''ensure provider '' @ key) (EnsureProvider key) ret)"

text \<open>The rows in turn: what is observed, the headers to insert, the oldest date, the number of rows the
  cutoff removes.\<close>

record row_scan =
  sc_observed :: "(int \<times> int option) list"
  sc_headers :: "article_header list"
  sc_oldest :: "int option"
  sc_filtered :: int

definition clean_header :: "overview_row \<Rightarrow> article_header" where
  "clean_header r =
     \<lparr>ah_number = ow_number r, ah_id = sanitizeScrapeUTF8 (ow_id r), ah_subject = sanitizeScrapeUTF8 (ow_subject r),
      ah_poster = sanitizeScrapeUTF8 (ow_poster r), ah_date = ow_date r, ah_bytes = ow_bytes r,
      ah_lines = ow_lines r, ah_xref = sanitizeScrapeUTF8 (ow_xref r),
      ah_raw = map (\<lambda>(k, v). (sanitizeScrapeUTF8 k, sanitizeScrapeUTF8 v)) (ow_raw r)\<rparr>"

definition scan_row :: "int option \<Rightarrow> overview_row \<Rightarrow> row_scan \<Rightarrow> row_scan" where
  "scan_row cutoff r sc =
     (if ow_number r \<le> 0 \<or> trim_space (ow_id r) = [] then sc
      else
        (let sc = sc\<lparr>sc_observed := sc_observed sc @ [(ow_number r, ow_date r)]\<rparr>
         in case ow_date r of
              Some t \<Rightarrow>
                (let sc = (if (case sc_oldest sc of None \<Rightarrow> True | Some o' \<Rightarrow> t < o')
                           then sc\<lparr>sc_oldest := Some t\<rparr> else sc)
                 in if (case cutoff of None \<Rightarrow> False | Some c \<Rightarrow> t < c)
                    then sc\<lparr>sc_filtered := sc_filtered sc + 1\<rparr>
                    else sc\<lparr>sc_headers := sc_headers sc @ [clean_header r]\<rparr>)
            | None \<Rightarrow>
                (if cutoff \<noteq> None then sc\<lparr>sc_filtered := sc_filtered sc + 1\<rparr>
                 else sc\<lparr>sc_headers := sc_headers sc @ [clean_header r]\<rparr>)))"

definition scan_rows :: "int option \<Rightarrow> overview_row list \<Rightarrow> row_scan" where
  "scan_rows cutoff rows =
     fold (scan_row cutoff) rows \<lparr>sc_observed = [], sc_headers = [], sc_oldest = None, sc_filtered = 0\<rparr>"

record fetched_range =
  fr_headers :: "article_header list"
  fr_inserted :: int
  fr_oldest :: "int option"
  fr_filtered :: int
  fr_provider :: int

definition range_text :: "string \<Rightarrow> string \<Rightarrow> int \<Rightarrow> int \<Rightarrow> string" where
  "range_text what grp lo hi = what @ '' '' @ grp @ '' '' @ itoa lo @ ''-'' @ itoa hi"

text \<open>The history of what has been fetched; not part of the code.\<close>

definition note_fetched :: "int \<Rightarrow> int \<Rightarrow> int \<Rightarrow> int \<Rightarrow> unit db" where
  "note_fetched p g lo hi s = (Inr (), s\<lparr>db_fetched := db_fetched s @ [(p, g, lo, hi)]\<rparr>)"

definition fetchInsertRange ::
  "scrape_service \<Rightarrow> group_call \<Rightarrow> int \<Rightarrow> int \<Rightarrow> string \<Rightarrow> int \<Rightarrow> int \<Rightarrow> int option \<Rightarrow> string \<Rightarrow> fetched_range db" where
  "fetchInsertRange sv gc p g grp lo hi cutoff expected =
     (case gc_rows gc lo hi of
        Inl e \<Rightarrow> throw (in_call (range_text ''xover'' grp lo hi) e)
      | Inr (rows, key) \<Rightarrow>
          (let actual = (if sv_aware sv then key else sv_provider sv)
           in pass (if trim_space actual \<noteq> [] \<and> trim_space expected \<noteq> [] \<and> \<not> equal_fold actual expected
                    then effectiveProviderID sv p actual else ret p)
                (\<lambda>p. let sc = scan_rows cutoff rows
                     in call (range_text ''insert headers'' grp lo hi) (InsertArticleHeaders (gc_new gc (sc_headers sc)) p g (sc_headers sc))
                          (\<lambda>n. call (range_text ''observe scrape range'' grp lo hi) (ObserveScrapeRange p g lo hi (sc_observed sc))
                             (\<lambda>_. pass (note_fetched p g lo hi)
                                (\<lambda>_. ret \<lparr>fr_headers = sc_headers sc, fr_inserted = n, fr_oldest = sc_oldest sc,
                                           fr_filtered = sc_filtered sc, fr_provider = p\<rparr>))))))"

datatype scrape_mode = Latest | Backfill

definition deferredRangePriority :: "scrape_mode \<Rightarrow> recovery_snapshot \<Rightarrow> rat" where
  "deferredRangePriority mode sn =
     (let score = (if mode = Latest then 100 else 10);
          score = (if rs_hard sn > 0 then score - (of_int (rs_open sn) / of_int (rs_hard sn)) * 10 else score)
      in if score < 0 then 0 else score)"

definition deferral :: "int \<Rightarrow> int \<Rightarrow> int \<Rightarrow> int \<Rightarrow> string \<Rightarrow> rat \<Rightarrow> deferred_range" where
  "deferral p g lo hi reason priority =
     \<lparr>df_provider = p, df_group = g, df_low = lo, df_high = hi, df_count = hi - lo + 1,
      df_obfuscated = hi - lo + 1, df_reason = reason, df_priority = priority, df_state = []\<rparr>"

definition deferRangeWhenRecoveryPressured ::
  "scrape_mode \<Rightarrow> group_call \<Rightarrow> int \<Rightarrow> int \<Rightarrow> int \<Rightarrow> int \<Rightarrow> bool db" where
  "deferRangeWhenRecoveryPressured mode gc p g lo hi =
     (if lo \<le> 0 \<or> hi < lo then ret False
      else (case gc_snapshot gc of
              Inl e \<Rightarrow> throw e
            | Inr None \<Rightarrow> ret False
            | Inr (Some sn) \<Rightarrow>
                (let hard = (rs_hard sn > 0 \<and> rs_open sn \<ge> rs_hard sn);
                     soft = (rs_soft sn > 0 \<and> rs_open sn \<ge> rs_soft sn)
                 in if \<not> hard \<and> \<not> (mode = Backfill \<and> soft) then ret False
                    else pass (UpsertDeferredArticleRange (deferral p g lo hi
                                (if hard then ''recovery_hard_cap'' else ''recovery_soft_cap'')
                                (deferredRangePriority mode sn)))
                           (\<lambda>_. ret True))))"

section \<open>One group\<close>

record group_result =
  gr_work :: bool
  gr_ranges :: int
  gr_headers :: int
  gr_inserted :: int
  gr_filtered :: int
  gr_updates :: int
  gr_deferred :: int

definition no_result :: group_result where
  "no_result = \<lparr>gr_work = False, gr_ranges = 0, gr_headers = 0, gr_inserted = 0, gr_filtered = 0,
                gr_updates = 0, gr_deferred = 0\<rparr>"

text \<open>The part of \<open>runLatestGroup\<close> that records a gap, and the start it leads to.\<close>

definition latest_start :: "string \<Rightarrow> int \<Rightarrow> int \<Rightarrow> int \<Rightarrow> int \<Rightarrow> int \<Rightarrow> int \<Rightarrow> int db" where
  "latest_start grp batch p g low high seen =
     (if seen = 0 then ret (high - batch + 1)
      else if high - seen > batch
      then (let gap_low = seen + 1; start = high - batch + 1; start = (if start < low then low else start);
                gap_high = start - 1
            in if gap_high \<ge> gap_low
               then call (range_text ''record latest gap'' grp gap_low gap_high)
                      (UpsertDeferredArticleRange (deferral p g gap_low gap_high ''latest_gap'' 90))
                      (\<lambda>_. call (''get backfill checkpoint for latest gap '' @ grp) (GetBackfillCheckpoint p g)
                         (\<lambda>cursor. if cursor < gap_high
                            then call (''seed backfill checkpoint for latest gap '' @ grp) (UpsertBackfillCheckpoint p g gap_high)
                                   (\<lambda>_. ret start)
                            else ret start))
               else ret start)
      else ret (seen + 1))"

text \<open>\<open>runLatestGroup\<close> with the id \<open>g\<close> of the group.\<close>

definition latest_of_group :: "scrape_service \<Rightarrow> group_call \<Rightarrow> int \<Rightarrow> string \<Rightarrow> int \<Rightarrow> group_result db" where
  "latest_of_group sv gc p grp g =
       (case gc_stats gc of
          Inl e \<Rightarrow> throw (in_call (''group stats '' @ grp) e)
        | Inr st \<Rightarrow>
            pass (effectiveProviderID sv p (ga_provider st))
              (\<lambda>p. pass (UpsertIndexerGroupProfile p g ''warm'')
                 (\<lambda>_. if ga_high st \<le> 0 then ret no_result
                      else call (''get latest checkpoint '' @ grp) (GetLatestCheckpoint p g)
                        (\<lambda>seen. pass (latest_start grp (so_batch (sv_opts sv)) p g (ga_low st) (ga_high st) seen)
                           (\<lambda>start.
                              let start = (if start < ga_low st then ga_low st else start)
                              in if start > ga_high st then ret no_result
                                 else
                                   (let upto = start + so_batch (sv_opts sv) - 1;
                                        upto = (if upto > ga_high st then ga_high st else upto)
                                    in pass (deferRangeWhenRecoveryPressured Latest gc p g start upto)
                                         (\<lambda>deferred.
                                            if deferred then ret (no_result\<lparr>gr_work := True, gr_deferred := 1\<rparr>)
                                            else pass (fetchInsertRange sv gc p g grp start upto None (ga_provider st))
                                              (\<lambda>fr. call (''upsert latest checkpoint '' @ grp)
                                                      (UpsertLatestCheckpoint (fr_provider fr) g upto)
                                                 (\<lambda>_. ret (no_result\<lparr>gr_work := True, gr_ranges := 1,
                                                    gr_headers := int (length (fr_headers fr)),
                                                    gr_inserted := fr_inserted fr, gr_updates := 1\<rparr>))))))))))"

definition runLatestGroup :: "scrape_service \<Rightarrow> group_call \<Rightarrow> int \<Rightarrow> string \<Rightarrow> group_result db" where
  "runLatestGroup sv gc p grp =
     call (''ensure newsgroup '' @ grp) (EnsureNewsgroup grp) (latest_of_group sv gc p grp)"

text \<open>The part of \<open>runBackfillGroup\<close> that looks after the cutoff date: whether the group is finished.\<close>

definition cutoff_state :: "string \<Rightarrow> int \<Rightarrow> int \<Rightarrow> int option \<Rightarrow> checkpoint option \<Rightarrow> bool db" where
  "cutoff_state grp p g cutoff state =
     (case cutoff of
        Some date \<Rightarrow>
          call (''check backfill cutoff state '' @ grp) (HasBackfillCutoffReachedForGroup g date)
            (\<lambda>reached.
               if reached then ret True
               else if (case state of None \<Rightarrow> True | Some c \<Rightarrow> ck_until c \<noteq> Some date)
               then call (''set backfill cutoff state '' @ grp) (SetBackfillCheckpointState p g (Some date) False [])
                      (\<lambda>_. ret False)
               else ret (case state of None \<Rightarrow> False | Some c \<Rightarrow> ck_reached c))
      | None \<Rightarrow>
          (if (case state of None \<Rightarrow> False
               | Some c \<Rightarrow> ck_until c \<noteq> None \<or> ck_reached c \<or> trim_space (ck_reason c) \<noteq> [])
           then call (''clear backfill cutoff state '' @ grp) (SetBackfillCheckpointState p g None False [])
                  (\<lambda>_. ret False)
           else ret False))"

definition backfill_end :: "int \<Rightarrow> int \<Rightarrow> int \<Rightarrow> int" where
  "backfill_end high seen cursor =
     (let e = (if cursor = 0 then (if seen > 0 then seen - 1 else high) else cursor)
      in if e > high then high else e)"

text \<open>The part of \<open>runBackfillGroup\<close> that fetches the range.\<close>

definition backfill_range ::
  "scrape_service \<Rightarrow> group_call \<Rightarrow> int \<Rightarrow> int \<Rightarrow> string \<Rightarrow> group_stats_answer \<Rightarrow> int option \<Rightarrow> int \<Rightarrow> int \<Rightarrow> group_result db" where
  "backfill_range sv gc p g grp st cutoff lo hi =
     (let next_cursor = (if lo - 1 < 0 then 0 else lo - 1)
      in pass (deferRangeWhenRecoveryPressured Backfill gc p g lo hi)
           (\<lambda>deferred.
              if deferred
              then call (''upsert deferred backfill checkpoint '' @ grp) (UpsertBackfillCheckpoint p g next_cursor)
                     (\<lambda>_. ret (no_result\<lparr>gr_work := True, gr_deferred := 1, gr_updates := 1\<rparr>))
              else pass (fetchInsertRange sv gc p g grp lo hi cutoff (ga_provider st))
                (\<lambda>fr. let p = fr_provider fr;
                          result = no_result\<lparr>gr_work := True, gr_ranges := 1,
                            gr_headers := int (length (fr_headers fr)), gr_inserted := fr_inserted fr,
                            gr_filtered := fr_filtered fr\<rparr>
                      in if (case (cutoff, fr_oldest fr) of (Some c, Some t) \<Rightarrow> \<not> c < t | _ \<Rightarrow> False)
                         then call (''mark backfill cutoff reached '' @ grp)
                                (SetBackfillCheckpointState p g cutoff True ''until_date_reached'')
                                (\<lambda>_. ret result)
                         else call (''upsert backfill checkpoint '' @ grp) (UpsertBackfillCheckpoint p g next_cursor)
                                (\<lambda>_. ret (result\<lparr>gr_updates := 1\<rparr>)))))"

definition backfill_of_group :: "scrape_service \<Rightarrow> group_call \<Rightarrow> int \<Rightarrow> string \<Rightarrow> int \<Rightarrow> group_result db" where
  "backfill_of_group sv gc p grp g =
       (case gc_stats gc of
          Inl e \<Rightarrow> throw (in_call (''group stats '' @ grp) e)
        | Inr st \<Rightarrow>
            pass (effectiveProviderID sv p (ga_provider st))
              (\<lambda>p. pass (UpsertIndexerGroupProfile p g ''warm'')
                 (\<lambda>_. if ga_high st \<le> 0 then ret no_result
                      else call (''get latest checkpoint '' @ grp) (GetLatestCheckpoint p g)
                        (\<lambda>seen. call (''get backfill checkpoint '' @ grp) (GetBackfillCheckpoint p g)
                           (\<lambda>cursor. call (''get backfill checkpoint state '' @ grp) (GetBackfillCheckpointState p g)
                              (\<lambda>state. pass (cutoff_state grp p g (so_cutoffs (sv_opts sv) grp) state)
                                 (\<lambda>finished.
                                    let hi = backfill_end (ga_high st) seen cursor
                                    in if finished \<or> hi < ga_low st then ret no_result
                                       else
                                         (let lo = hi - so_batch (sv_opts sv) + 1;
                                              lo = (if lo < ga_low st then ga_low st else lo)
                                          in backfill_range sv gc p g grp st (so_cutoffs (sv_opts sv) grp) lo hi))))))))"

definition runBackfillGroup :: "scrape_service \<Rightarrow> group_call \<Rightarrow> int \<Rightarrow> string \<Rightarrow> group_result db" where
  "runBackfillGroup sv gc p grp =
     call (''ensure newsgroup '' @ grp) (EnsureNewsgroup grp) (backfill_of_group sv gc p grp)"

definition runGroup :: "scrape_service \<Rightarrow> scrape_mode \<Rightarrow> group_call \<Rightarrow> int \<Rightarrow> string \<Rightarrow> group_result db" where
  "runGroup sv mode gc p grp =
     (case mode of Latest \<Rightarrow> runLatestGroup sv gc p grp | Backfill \<Rightarrow> runBackfillGroup sv gc p grp)"


section \<open>One run\<close>

definition isContextCancellation :: "scrape_error \<Rightarrow> bool" where
  "isContextCancellation e = (case e of ContextEnded t \<Rightarrow> True | Failed t \<Rightarrow> False)"

fun effective_groups :: "string list \<Rightarrow> string list \<Rightarrow> string list" where
  "effective_groups done [] = done"
| "effective_groups done (raw # raws) =
     (let grp = trim_space raw
      in effective_groups (if grp = [] \<or> grp \<in> set done then done else done @ [grp]) raws)"

definition effectiveGroups :: "scrape_service \<Rightarrow> string list" where
  "effectiveGroups sv = effective_groups [] (so_groups (sv_opts sv))"

text \<open>\<open>reserveRunGroups\<close>: the groups of this run, where it starts, where the next one will. The remainder of Go
  has the sign of its left operand.\<close>

definition grem :: "int \<Rightarrow> int \<Rightarrow> int" where "grem a b = a - gdiv a b * b"

definition run_budget :: "scrape_service \<Rightarrow> int \<Rightarrow> int" where
  "run_budget sv n =
     (let b = so_max_batches (sv_opts sv);
          b = (if b \<le> 0 then so_concurrency (sv_opts sv) else b);
          b = (if b \<le> 0 then 1 else b)
      in if b > n then n else b)"

definition reserveRunGroups :: "string list \<Rightarrow> scrape_service \<Rightarrow> (string list \<times> int \<times> int) \<times> scrape_service" where
  "reserveRunGroups gs sv =
     (if gs = [] then (([], 0, 0), sv)
      else (let n = int (length gs); start = grem (sv_next sv) n; start = (if start < 0 then 0 else start);
                b = run_budget sv n;
                scheduled = map (\<lambda>i. gs ! nat ((start + int i) mod n)) [0..<nat b];
                next_start = (start + b) mod n
            in ((scheduled, start, next_start), sv\<lparr>sv_next := next_start\<rparr>)))"

record run_metrics =
  rm_total :: int
  rm_scheduled :: int
  rm_processed :: int
  rm_with_work :: int
  rm_workers :: int
  rm_ranges :: int
  rm_headers :: int
  rm_inserted :: int
  rm_filtered :: int
  rm_updates :: int
  rm_deferred :: int
  rm_start :: int
  rm_next :: int

definition no_metrics :: run_metrics where
  "no_metrics = \<lparr>rm_total = 0, rm_scheduled = 0, rm_processed = 0, rm_with_work = 0, rm_workers = 0, rm_ranges = 0,
     rm_headers = 0, rm_inserted = 0, rm_filtered = 0, rm_updates = 0, rm_deferred = 0, rm_start = 0, rm_next = 0\<rparr>"

definition add_result :: "group_result \<Rightarrow> run_metrics \<Rightarrow> run_metrics" where
  "add_result r m =
     m\<lparr>rm_processed := rm_processed m + 1,
       rm_with_work := (if gr_work r then rm_with_work m + 1 else rm_with_work m),
       rm_ranges := rm_ranges m + gr_ranges r, rm_headers := rm_headers m + gr_headers r,
       rm_inserted := rm_inserted m + gr_inserted r, rm_filtered := rm_filtered m + gr_filtered r,
       rm_updates := rm_updates m + gr_updates r, rm_deferred := rm_deferred m + gr_deferred r\<rparr>"

text \<open>The groups in the order in which the workers finish them. The result of a group that fails is
  empty; the first error that is not the end of the context is kept.\<close>

fun run_scheduled ::
  "scrape_service \<Rightarrow> scrape_mode \<Rightarrow> (string \<Rightarrow> group_call) \<Rightarrow> int \<Rightarrow> string list \<Rightarrow> scrape_error option \<Rightarrow> run_metrics \<Rightarrow>
   scrape_db \<Rightarrow> (scrape_error option \<times> run_metrics) \<times> scrape_db" where
  "run_scheduled sv mode calls p [] err m s = ((err, m), s)"
| "run_scheduled sv mode calls p (grp # grps) err m s =
     (case runGroup sv mode (calls grp) p grp s of
        (Inr r, s') \<Rightarrow> run_scheduled sv mode calls p grps err (add_result r m) s'
      | (Inl e, s') \<Rightarrow>
          run_scheduled sv mode calls p grps
            (if \<not> isContextCancellation e \<and> err = None then Some e else err) (add_result no_result m) s')"

text \<open>\<open>order\<close> gives the order of finishing for the groups scheduled.\<close>

definition runGroups ::
  "scrape_mode \<Rightarrow> (string list \<Rightarrow> string list) \<Rightarrow> (string \<Rightarrow> group_call) \<Rightarrow> int \<Rightarrow> string list \<Rightarrow> scrape_service \<Rightarrow> scrape_db \<Rightarrow>
   (scrape_error option \<times> run_metrics) \<times> scrape_service \<times> scrape_db" where
  "runGroups mode order calls p groups sv s =
     (case reserveRunGroups groups sv of
        ((scheduled, start, next_start), sv') \<Rightarrow>
          (let m = no_metrics\<lparr>rm_total := int (length groups), rm_scheduled := int (length scheduled),
                              rm_start := start, rm_next := next_start\<rparr>
           in if scheduled = [] then ((None, m), sv', s)
              else (let w = so_concurrency (sv_opts sv);
                        w = (if w > int (length scheduled) then int (length scheduled) else w);
                        w = (if w \<le> 0 then 1 else w)
                    in case run_scheduled sv' mode calls p (order scheduled) None (m\<lparr>rm_workers := w\<rparr>) s of
                         (r, s') \<Rightarrow> (r, sv', s'))))"

section \<open>The integrity check and the whole run\<close>

definition HasFailures :: "integrity_report \<Rightarrow> bool" where
  "HasFailures r = list_ex (\<lambda>(ok, rel, detail). \<not> ok) (ir_checks r)"

definition FailureSummary :: "integrity_report \<Rightarrow> string" where
  "FailureSummary r =
     join_with ''; '' (map (\<lambda>(ok, rel, detail). rel @ '': '' @ detail) (filter (\<lambda>(ok, rel, detail). \<not> ok) (ir_checks r)))"

text \<open>The report is kept for five minutes; \<open>fresh\<close> is what the database says now.\<close>

definition checkCriticalIndexerIntegrity ::
  "int \<Rightarrow> scrape_error + integrity_report option \<Rightarrow> scrape_service \<Rightarrow> (scrape_error + integrity_report option) \<times> scrape_service" where
  "checkCriticalIndexerIntegrity now fresh sv =
     (if sv_valid sv \<and> (case sv_checked sv of None \<Rightarrow> False | Some t \<Rightarrow> now - t < 5 * 60 * 1000000000)
      then (Inr (sv_report sv), sv)
      else (case fresh of
              Inl e \<Rightarrow> (Inl e, sv)
            | Inr r \<Rightarrow> (Inr r, sv\<lparr>sv_report := r, sv_valid := True, sv_checked := Some now\<rparr>)))"

record run_call =
  rc_now :: int
  rc_integrity :: "scrape_error + integrity_report option"
  rc_order :: "string list \<Rightarrow> string list"
  rc_groups :: "string \<Rightarrow> group_call"

definition also_failed :: "scrape_error \<Rightarrow> scrape_error \<Rightarrow> scrape_error" where
  "also_failed run_err finish_err =
     Failed (error_text run_err @ '' (also failed to finish scrape run: '' @ error_text finish_err @ '')'')"

definition runModeWithMetrics ::
  "scrape_mode \<Rightarrow> run_call \<Rightarrow> scrape_service \<Rightarrow> scrape_db \<Rightarrow>
   (scrape_error option \<times> run_metrics option) \<times> scrape_service \<times> scrape_db" where
  "runModeWithMetrics mode rc sv s =
     (case checkCriticalIndexerIntegrity (rc_now rc) (rc_integrity rc) sv of
        (Inl e, sv) \<Rightarrow> ((Some (in_call ''check critical ingest index integrity'' e), None), sv, s)
      | (Inr report, sv) \<Rightarrow>
          (if (case report of None \<Rightarrow> False | Some r \<Rightarrow> HasFailures r)
           then ((Some (Failed (''critical ingest index integrity failed: '' @
                    (case report of None \<Rightarrow> [] | Some r \<Rightarrow> FailureSummary r))), None), sv, s)
           else
             (let sv = (if (case report of None \<Rightarrow> False | Some r \<Rightarrow> \<not> ir_amcheck r) then sv\<lparr>sv_warned := True\<rparr> else sv);
                  groups = effectiveGroups sv; key = trim_space (sv_provider sv)
              in if groups = [] then ((None, Some no_metrics), sv, s)
                 else if key = [] then ((Some (Failed ''provider id is required''), None), sv, s)
                 else (case EnsureProvider key s of
                   (Inl e, s) \<Rightarrow> ((Some (in_call ''ensure provider'' e), None), sv, s)
                 | (Inr p, s) \<Rightarrow>
                     (case StartScrapeRun p s of
                        (Inl e, s) \<Rightarrow> ((Some (in_call ''start scrape run'' e), None), sv, s)
                      | (Inr run, s) \<Rightarrow>
                          (case runGroups mode (rc_order rc) (rc_groups rc) p groups sv s of
                             ((err, m), sv, s) \<Rightarrow>
                               (case FinishScrapeRun run (if err = None then ''completed'' else ''failed'')
                                       (case err of None \<Rightarrow> [] | Some e \<Rightarrow> error_text e) s of
                                  (Inl fe, s) \<Rightarrow>
                                    ((Some (case err of None \<Rightarrow> in_call ''finish scrape run'' fe
                                            | Some e \<Rightarrow> also_failed e fe), Some m), sv, s)
                                | (Inr _, s) \<Rightarrow> ((err, Some m), sv, s))))))))"

end
