(* ===== verification/Scrape_Props.thy ===== *)
theory Scrape_Props
  imports Scrape
begin

text \<open>
  Assertions for scraping: before-and-after triples over the operations on the tables, the invariant of one group
  (\<open>scraped_ok\<close>: what lies between its two checkpoints is covered), its preservation by the runs of the group and by
  runs of other groups, and the histories of a group.
\<close>

section \<open>Assertions\<close>

text \<open>From a state with \<open>P\<close>, the operation ends with a value and \<open>Q\<close>, or with an error and \<open>E\<close>.\<close>

definition valid :: "(scrape_db \<Rightarrow> bool) \<Rightarrow> 'a db \<Rightarrow> ('a \<Rightarrow> scrape_db \<Rightarrow> bool) \<Rightarrow> (scrape_db \<Rightarrow> bool) \<Rightarrow> bool" where
  "valid P m Q E \<longleftrightarrow> (\<forall>s. P s \<longrightarrow> (case m s of (Inl e, s') \<Rightarrow> E s' | (Inr x, s') \<Rightarrow> Q x s'))"

named_theorems valid_rules

lemma valid_ret [valid_rules]: "(\<And>s. P s \<Longrightarrow> Q x s) \<Longrightarrow> valid P (ret x) Q E"
  by (simp add: valid_def ret_def)

lemma valid_throw [valid_rules]: "(\<And>s. P s \<Longrightarrow> E s) \<Longrightarrow> valid P (throw e) Q E"
  by (simp add: valid_def throw_def)

lemma valid_call: "valid P m R E \<Longrightarrow> (\<And>x. valid (R x) (k x) Q E) \<Longrightarrow> valid P (call what m k) Q E"
  by (fastforce simp: valid_def call_def split: prod.splits sum.splits)

lemma valid_pass: "valid P m R E \<Longrightarrow> (\<And>x. valid (R x) (k x) Q E) \<Longrightarrow> valid P (pass m k) Q E"
  by (fastforce simp: valid_def pass_def split: prod.splits sum.splits)

lemma valid_if: "(b \<Longrightarrow> valid P m Q E) \<Longrightarrow> (\<not> b \<Longrightarrow> valid P m' Q E) \<Longrightarrow> valid P (if b then m else m') Q E"
  by simp

lemma valid_when: "(b \<Longrightarrow> valid P m Q E) \<Longrightarrow> valid (\<lambda>s. b \<and> P s) m Q E"
  by (cases b) (simp_all add: valid_def)

lemma valid_weaken:
  "valid P' m Q' E' \<Longrightarrow> (\<And>s. P s \<Longrightarrow> P' s) \<Longrightarrow> (\<And>x s. Q' x s \<Longrightarrow> Q x s) \<Longrightarrow> (\<And>s. E' s \<Longrightarrow> E s) \<Longrightarrow>
     valid P m Q E"
  by (fastforce simp: valid_def split: prod.splits sum.splits)

lemma valid_post: "valid P m Q' E \<Longrightarrow> (\<And>x s. Q' x s \<Longrightarrow> Q x s) \<Longrightarrow> valid P m Q E"
  by (rule valid_weaken)

text \<open>A statement, for assertions that do not look at the failures to come.\<close>

lemma valid_statement:
  assumes "\<And>s fs. P s \<Longrightarrow> E (s\<lparr>db_fails := fs\<rparr>)"
    and "\<And>s fs. P s \<Longrightarrow> (case f (s\<lparr>db_fails := fs\<rparr>) of (x, s') \<Rightarrow> Q x s')"
  shows "valid P (statement what f) Q E"
proof -
  have "case statement what f s of (Inl e, s') \<Rightarrow> E s' | (Inr x, s') \<Rightarrow> Q x s'" if "P s" for s
  proof (cases "db_fails s")
    case Nil
    then have "s\<lparr>db_fails := []\<rparr> = s" by (cases s) simp
    with assms(2) [OF that, of "[]"] Nil show ?thesis by (auto simp: statement_def split: prod.splits)
  next
    case (Cons x fs)
    with assms(1) [OF that, of fs] assms(2) [OF that, of fs] show ?thesis
      by (cases x) (auto simp: statement_def split: prod.splits)
  qed
  then show ?thesis by (simp add: valid_def)
qed

section \<open>What has been covered\<close>

definition row :: "int \<Rightarrow> int \<Rightarrow> scrape_db \<Rightarrow> checkpoint" where
  "row p g s = (case db_checkpoints s (p, g) of None \<Rightarrow> no_checkpoint | Some c \<Rightarrow> c)"

text \<open>An article number is covered when a fetched range or a deferred range contains it, or when the server has
  said that it begins after it (\<open>low\<close>).\<close>

definition covered :: "int \<Rightarrow> int \<Rightarrow> int \<Rightarrow> scrape_db \<Rightarrow> int \<Rightarrow> bool" where
  "covered low p g s n \<longleftrightarrow>
     n < low \<or> (\<exists>lo hi. (p, g, lo, hi) \<in> set (db_fetched s) \<and> lo \<le> n \<and> n \<le> hi) \<or>
     (\<exists>r \<in> set (db_deferred s). df_provider r = p \<and> df_group r = g \<and> df_low r \<le> n \<and> n \<le> df_high r)"

text \<open>The invariant of one group: between the backfill checkpoint and the latest checkpoint everything is
  covered, and nothing is above what the server has reported (\<open>high\<close>).\<close>

definition scraped_ok :: "int \<Rightarrow> int \<Rightarrow> int \<Rightarrow> int \<Rightarrow> scrape_db \<Rightarrow> bool" where
  "scraped_ok low high p g s \<longleftrightarrow>
     0 \<le> ck_last (row p g s) \<and> 0 \<le> ck_backfill (row p g s) \<and> ck_last (row p g s) \<le> high \<and>
     ck_backfill (row p g s) \<le> high \<and> (ck_last (row p g s) = 0 \<longrightarrow> ck_backfill (row p g s) = 0) \<and>
     (0 < ck_last (row p g s) \<longrightarrow> covered low p g s (ck_last (row p g s))) \<and>
     (0 < ck_backfill (row p g s) \<longrightarrow>
        (\<forall>n. ck_backfill (row p g s) < n \<and> n \<le> ck_last (row p g s) \<longrightarrow> covered low p g s n))"

text \<open>States that differ, for a group, only in having covered more.\<close>

definition grows :: "int \<Rightarrow> int \<Rightarrow> scrape_db \<Rightarrow> scrape_db \<Rightarrow> bool" where
  "grows p g s s' \<longleftrightarrow>
     row p g s' = row p g s \<and> (\<forall>low n. covered low p g s n \<longrightarrow> covered low p g s' n)"

lemma grows_refl [simp]: "grows p g s s" by (simp add: grows_def)

lemma grows_trans: "grows p g s t \<Longrightarrow> grows p g t u \<Longrightarrow> grows p g s u"
  by (simp add: grows_def)

lemma grows_ok: "grows p g s s' \<Longrightarrow> scraped_ok low high p g s \<Longrightarrow> scraped_ok low high p g s'"
  by (simp add: grows_def scraped_ok_def)

lemma covered_mono: "covered low p g s n \<Longrightarrow> low \<le> low' \<Longrightarrow> covered low' p g s n"
  by (auto simp: covered_def)

lemma scraped_ok_mono:
  assumes "scraped_ok low high p g s" "low \<le> low'" "high \<le> high'"
  shows "scraped_ok low' high' p g s"
proof -
  have "ck_last (row p g s) \<le> high'" "ck_backfill (row p g s) \<le> high'"
    using assms unfolding scraped_ok_def by linarith+
  moreover have "covered low p g s n \<Longrightarrow> covered low' p g s n" for n
    using assms(2) by (rule covered_mono [rotated])
  ultimately show ?thesis using assms(1) unfolding scraped_ok_def by blast
qed

lemma upsert_range_keeps:
  "r \<in> set rs \<Longrightarrow> \<exists>q \<in> set (upsert_range x rs). same_range r q"
  by (induction x rs rule: upsert_range.induct) (auto simp: same_range_def)

lemma upsert_range_adds: "\<exists>q \<in> set (upsert_range x rs). same_range x q"
  by (induction x rs rule: upsert_range.induct) (auto simp: same_range_def)

lemma covered_fails [simp]: "covered low p g (s\<lparr>db_fails := fs\<rparr>) n = covered low p g s n"
  by (simp add: covered_def)

lemma covered_upsert:
  "covered low p g s n \<Longrightarrow> covered low p g (s\<lparr>db_deferred := upsert_range x (db_deferred s)\<rparr>) n"
  unfolding covered_def using upsert_range_keeps [of _ "db_deferred s" x]
  by (fastforce simp: same_range_def)

lemma covered_by_deferral:
  "df_provider x = p \<Longrightarrow> df_group x = g \<Longrightarrow> df_low x \<le> n \<Longrightarrow> n \<le> df_high x \<Longrightarrow>
     covered low p g (s\<lparr>db_deferred := upsert_range x (db_deferred s)\<rparr>) n"
  unfolding covered_def using upsert_range_adds [of x "db_deferred s"] by (fastforce simp: same_range_def)

section \<open>The operations\<close>

text \<open>Operations that change neither checkpoints nor what is covered.\<close>

definition quiet :: "'a db \<Rightarrow> bool" where
  "quiet m \<longleftrightarrow> (\<forall>s. db_checkpoints (snd (m s)) = db_checkpoints s \<and> db_fetched (snd (m s)) = db_fetched s \<and>
     db_deferred (snd (m s)) = db_deferred s)"

definition stable :: "(scrape_db \<Rightarrow> bool) \<Rightarrow> bool" where
  "stable P \<longleftrightarrow> (\<forall>s s'. db_checkpoints s' = db_checkpoints s \<longrightarrow> db_fetched s' = db_fetched s \<longrightarrow>
     db_deferred s' = db_deferred s \<longrightarrow> P s \<longrightarrow> P s')"

lemma stableD: "stable P \<Longrightarrow> P s \<Longrightarrow> P (s\<lparr>db_fails := fs\<rparr>)"
  unfolding stable_def by (metis (no_types, lifting) scrape_db.select_convs scrape_db.surjective scrape_db.update_convs(1))

lemma valid_quiet: "quiet m \<Longrightarrow> stable P \<Longrightarrow> valid P m (\<lambda>_. P) P"
  unfolding quiet_def stable_def valid_def
  by (metis (no_types, lifting) case_prodI2 old.sum.simps(5,6) snd_conv sum.exhaust)

lemma quiet_ret [simp]: "quiet (ret x)" by (simp add: quiet_def ret_def)

lemma quiet_throw [simp]: "quiet (throw e)" by (simp add: quiet_def throw_def)

lemma quiet_statement:
  "(\<And>s. db_checkpoints (snd (f s)) = db_checkpoints s \<and> db_fetched (snd (f s)) = db_fetched s \<and>
     db_deferred (snd (f s)) = db_deferred s) \<Longrightarrow> quiet (statement what f)"
  by (simp add: quiet_def statement_def split_beta split: list.split option.split)

lemma quiet_pass:
  assumes "quiet m" "\<And>x. quiet (k x)"
  shows "quiet (pass m k)" and "quiet (call what m k)"
proof -
  have "db_checkpoints (snd (n s)) = db_checkpoints s \<and> db_fetched (snd (n s)) = db_fetched s \<and>
      db_deferred (snd (n s)) = db_deferred s" if "n = pass m k \<or> n = call what m k" for n s
  proof (cases "m s")
    case (Pair r s')
    with assms(1) have "db_checkpoints s' = db_checkpoints s \<and> db_fetched s' = db_fetched s \<and> db_deferred s' = db_deferred s"
      unfolding quiet_def by (metis snd_conv)
    with that Pair assms(2) show ?thesis by (cases r) (auto simp: pass_def call_def quiet_def)
  qed
  then show "quiet (pass m k)" "quiet (call what m k)" by (simp_all add: quiet_def)
qed

lemma quiet_days: "quiet (upsert_days p g ds)"
  by (induction p g ds rule: upsert_days.induct)
     (auto intro!: quiet_pass(1) quiet_statement simp: upsert_day_def split: prod.splits)

lemma quiet_operations:
  "quiet (EnsureProvider key)" "quiet (EnsureNewsgroup grp)" "quiet (UpsertIndexerGroupProfile p g tier)"
  "quiet (InsertArticleHeaders n p g hs)" "quiet (ObserveScrapeRange p g lo hi obs)"
  by (auto simp: EnsureProvider_def EnsureNewsgroup_def UpsertIndexerGroupProfile_def InsertArticleHeaders_def
      ObserveScrapeRange_def Let_def quiet_days intro!: quiet_statement split: prod.split)

lemma quiet_provider: "quiet (effectiveProviderID sv p key)"
  by (auto simp: effectiveProviderID_def Let_def quiet_operations intro!: quiet_pass(2))

lemma valid_latest:
  "stable P \<Longrightarrow> valid P (GetLatestCheckpoint p g) (\<lambda>x s. P s \<and> x = ck_last (row p g s)) P"
  by (auto simp: GetLatestCheckpoint_def no_checkpoint_def row_def dest: stableD intro!: valid_rules valid_statement
      split: option.split)

lemma valid_backfill:
  "stable P \<Longrightarrow> valid P (GetBackfillCheckpoint p g) (\<lambda>x s. P s \<and> x = ck_backfill (row p g s)) P"
  by (auto simp: GetBackfillCheckpoint_def no_checkpoint_def row_def dest: stableD intro!: valid_rules valid_statement
      split: option.split)

lemma valid_state:
  "stable P \<Longrightarrow> valid P (GetBackfillCheckpointState p g) (\<lambda>_. P) P"
  by (auto simp: GetBackfillCheckpointState_def dest: stableD intro!: valid_rules valid_statement)

lemma valid_reached:
  "stable P \<Longrightarrow> valid P (HasBackfillCutoffReachedForGroup g d) (\<lambda>_. P) P"
  by (auto simp: HasBackfillCutoffReachedForGroup_def dest: stableD intro!: valid_rules valid_statement)

lemma valid_put:
  assumes "stable P" "\<And>s. P s \<Longrightarrow> Q (put_checkpoint p g f s)"
  shows "valid P (statement what (\<lambda>s. ((), put_checkpoint p g f s))) (\<lambda>_. Q) P"
  using assms by (auto dest: stableD intro!: valid_statement)

lemma valid_defer:
  assumes "stable P" "\<And>s. P s \<Longrightarrow> Q (s\<lparr>db_deferred := upsert_range x (db_deferred s)\<rparr>)"
  shows "valid P (UpsertDeferredArticleRange x) (\<lambda>_. Q) P"
  unfolding UpsertDeferredArticleRange_def
  using assms stableD [OF assms(1)] by (auto intro!: valid_rules valid_statement)

lemma row_fields [simp]:
  "row p g (s\<lparr>db_deferred := ds\<rparr>) = row p g s" "row p g (s\<lparr>db_fetched := fs\<rparr>) = row p g s"
  "row p g (put_checkpoint p g f s) = f (row p g s)"
  by (simp_all add: put_checkpoint_def row_def)

lemma row_other [simp]: "(q, h) \<noteq> (p, g) \<Longrightarrow> row p g (put_checkpoint q h f s) = row p g s"
  by (auto simp: put_checkpoint_def row_def)

lemma covered_put [simp]: "covered low p g (put_checkpoint q h f s) n = covered low p g s n"
  by (simp add: covered_def put_checkpoint_def)

lemma stable_conj: "stable P \<Longrightarrow> stable Q \<Longrightarrow> stable (\<lambda>s. P s \<and> Q s)"
  by (auto simp: stable_def)

lemma stable_const: "stable (\<lambda>s. b)"
  by (simp add: stable_def)

lemma stableI:
  assumes "\<And>s s'. row p g s' = row p g s \<Longrightarrow> (\<And>low n. covered low p g s' n = covered low p g s n) \<Longrightarrow> P s \<Longrightarrow> P s'"
  shows "stable P"
  unfolding stable_def
proof (intro allI impI)
  fix s s' :: scrape_db
  assume "db_checkpoints s' = db_checkpoints s" "db_fetched s' = db_fetched s" "db_deferred s' = db_deferred s" "P s"
  then show "P s'" by - (rule assms [of s' s], simp_all add: row_def covered_def)
qed

lemma ok_same:
  "row p g s' = row p g s \<Longrightarrow> (\<And>low n. covered low p g s' n = covered low p g s n) \<Longrightarrow>
     scraped_ok low high p g s' = scraped_ok low high p g s"
  by (simp add: scraped_ok_def)

lemma stable_ok: "stable (scraped_ok low high p g)"
  by (rule stableI [of p g]) (rule iffD2 [OF ok_same])

lemma stable_last: "stable (\<lambda>s. ck_last (row p g s) = n)"
  by (rule stableI [of p g]) simp

lemma deferred_ok:
  "scraped_ok low high p g s \<Longrightarrow> scraped_ok low high p g (s\<lparr>db_deferred := upsert_range x (db_deferred s)\<rparr>)"
  using grows_ok [of p g s "s\<lparr>db_deferred := upsert_range x (db_deferred s)\<rparr>"]
  by (simp add: grows_def covered_upsert)

section \<open>Fetching the newest articles\<close>

text \<open>Where the newest range starts: what is between the checkpoints and the start is covered.\<close>

definition ready_from :: "int \<Rightarrow> int \<Rightarrow> int \<Rightarrow> int \<Rightarrow> int \<Rightarrow> int \<Rightarrow> scrape_db \<Rightarrow> bool" where
  "ready_from low high p g seen start s \<longleftrightarrow>
     scraped_ok low high p g s \<and> ck_last (row p g s) = seen \<and> (0 < seen \<longrightarrow> seen < start) \<and>
     (0 < ck_backfill (row p g s) \<longrightarrow>
        (\<forall>n. ck_backfill (row p g s) < n \<and> n < start \<longrightarrow> covered low p g s n))"

lemma stable_ready: "stable (ready_from low high p g seen start)"
proof (rule stableI [of p g])
  fix s s'
  assume s: "row p g s' = row p g s" "\<And>low n. covered low p g s' n = covered low p g s n"
    and "ready_from low high p g seen start s"
  then show "ready_from low high p g seen start s'" by (simp add: ready_from_def ok_same [OF s])
qed

lemma valid_latest_start:
  assumes "0 < batch" "low0 \<le> low" "low0 \<le> high + 1"
  shows "valid (\<lambda>s. scraped_ok low high p g s \<and> ck_last (row p g s) = seen)
    (latest_start grp batch p g low0 high seen)
    (\<lambda>start. ready_from low high p g seen (if start < low0 then low0 else start)) (scraped_ok low high p g)"
proof -
  let ?P = "\<lambda>s. scraped_ok low high p g s \<and> ck_last (row p g s) = seen"
  have st: "stable ?P" by (intro stable_conj stable_ok stable_last)
  show ?thesis
  proof (cases "seen = 0")
    case True
    have "ready_from low high p g 0 start s" if "?P s" for s start
      using that True by (auto simp: ready_from_def scraped_ok_def)
    with True show ?thesis by (auto simp: latest_start_def intro!: valid_rules)
  next
    case False
    show ?thesis
    proof (cases "high - seen > batch")
      case small: False
      have "ready_from low high p g seen (if seen + 1 < low0 then low0 else seen + 1) s" if "?P s" for s
      proof -
        have "covered low p g s n" if "0 < ck_backfill (row p g s)" "ck_backfill (row p g s) < n"
          "n < (if seen + 1 < low0 then low0 else seen + 1)" for n
          using \<open>?P s\<close> that assms(2) unfolding scraped_ok_def covered_def
          by (cases "n < low0") (auto split: if_splits)
        with that False show ?thesis by (auto simp: ready_from_def scraped_ok_def split: if_splits)
      qed
      with False small show ?thesis by (auto simp: latest_start_def intro!: valid_rules)
    next
      case gap: True
      define start where "start = (if high - batch + 1 < low0 then low0 else high - batch + 1)"
      have s: "seen + 1 < start" "start - 1 \<le> high" "\<not> start < low0"
        using gap assms by (auto simp: start_def)
      have behind: "ready_from low high p g seen start s"
        if "?P s" "start - 1 \<le> ck_backfill (row p g s)" for s
        using that s by (auto simp: ready_from_def)
      have seed: "valid (\<lambda>s. ?P s \<and> cursor = ck_backfill (row p g s))
          (if cursor < start - 1 then call w (UpsertBackfillCheckpoint p g (start - 1)) (\<lambda>_. ret start) else ret start)
          (\<lambda>x. ready_from low high p g seen (if x < low0 then low0 else x)) (scraped_ok low high p g)" for cursor w
      proof (rule valid_if)
        assume "\<not> cursor < start - 1"
        then show "valid (\<lambda>s. ?P s \<and> cursor = ck_backfill (row p g s)) (ret start)
          (\<lambda>x. ready_from low high p g seen (if x < low0 then low0 else x)) (scraped_ok low high p g)"
          using behind s by (intro valid_rules) auto
      next
        have "?P (put_checkpoint p g (ck_backfill_update (\<lambda>_. max (start - 1) 0)) s)"
          if "?P s" for s
          using that s False by (auto simp: scraped_ok_def)
        then have "valid ?P (UpsertBackfillCheckpoint p g (start - 1))
            (\<lambda>_ s. ?P s \<and> start - 1 \<le> ck_backfill (row p g s)) ?P"
          unfolding UpsertBackfillCheckpoint_def
          by (intro valid_if valid_throw valid_put [OF st]) auto
        then have "valid ?P (call w (UpsertBackfillCheckpoint p g (start - 1)) (\<lambda>_. ret start))
          (\<lambda>x. ready_from low high p g seen (if x < low0 then low0 else x)) ?P"
          by (rule valid_call) (use behind s in \<open>auto intro!: valid_rules\<close>)
        then show "valid (\<lambda>s. ?P s \<and> cursor = ck_backfill (row p g s))
          (call w (UpsertBackfillCheckpoint p g (start - 1)) (\<lambda>_. ret start))
          (\<lambda>x. ready_from low high p g seen (if x < low0 then low0 else x)) (scraped_ok low high p g)"
          by (rule valid_weaken) auto
      qed
      have deferring: "valid ?P (UpsertDeferredArticleRange x) (\<lambda>_. ?P) ?P" for x
        by (rule valid_defer [OF st]) (simp add: deferred_ok)
      have "latest_start grp batch p g low0 high seen =
          call (range_text ''record latest gap'' grp (seen + 1) (start - 1))
            (UpsertDeferredArticleRange (deferral p g (seen + 1) (start - 1) ''latest_gap'' 90))
            (\<lambda>_. call (''get backfill checkpoint for latest gap '' @ grp) (GetBackfillCheckpoint p g)
               (\<lambda>cursor. if cursor < start - 1
                  then call (''seed backfill checkpoint for latest gap '' @ grp) (UpsertBackfillCheckpoint p g (start - 1))
                         (\<lambda>_. ret start)
                  else ret start))"
        using s(1) unfolding latest_start_def Let_def if_not_P [OF False] if_P [OF gap] start_def [symmetric] by simp
      moreover have "valid ?P (GetBackfillCheckpoint p g) (\<lambda>x s. ?P s \<and> x = ck_backfill (row p g s)) (scraped_ok low high p g)"
        by (rule valid_weaken [OF valid_backfill [OF st]]) auto
      from valid_call [OF this seed] have "valid ?P (call w (GetBackfillCheckpoint p g)
          (\<lambda>cursor. if cursor < start - 1 then call w' (UpsertBackfillCheckpoint p g (start - 1)) (\<lambda>_. ret start) else ret start))
          (\<lambda>x. ready_from low high p g seen (if x < low0 then low0 else x)) (scraped_ok low high p g)" for w w'
        by simp
      note inner = this
      have deferring': "valid ?P (UpsertDeferredArticleRange x) (\<lambda>_. ?P) (scraped_ok low high p g)" for x
        by (rule valid_weaken [OF deferring]) auto
      note valid_call [OF deferring' inner]
      ultimately show ?thesis by simp
    qed
  qed
qed

section \<open>A run of one group\<close>

text \<open>All answers come from the provider of the service.\<close>

definition same_server :: "scrape_service \<Rightarrow> group_call \<Rightarrow> bool" where
  "same_server sv gc \<longleftrightarrow>
     (\<forall>st. gc_stats gc = Inr st \<longrightarrow>
        (trim_space (ga_provider st) = [] \<or> equal_fold (trim_space (ga_provider st)) (trim_space (sv_provider sv))) \<and>
        (\<forall>lo hi rows key. gc_rows gc lo hi = Inr (rows, key) \<longrightarrow>
           (let actual = (if sv_aware sv then key else sv_provider sv)
            in trim_space actual = [] \<or> trim_space (ga_provider st) = [] \<or> equal_fold actual (ga_provider st))))"

lemma same_provider: "same_server sv gc \<Longrightarrow> gc_stats gc = Inr st \<Longrightarrow>
    effectiveProviderID sv p (ga_provider st) = ret p"
  by (auto simp: same_server_def effectiveProviderID_def)

lemma pass_ret [simp]: "pass (ret x) k = k x"
  by (simp add: pass_def ret_def fun_eq_iff)

lemma same_answer:
  assumes "same_server sv gc" "gc_stats gc = Inr st" "gc_rows gc lo hi = Inr (rows, key)"
  shows "\<not> (trim_space (if sv_aware sv then key else sv_provider sv) \<noteq> [] \<and> trim_space (ga_provider st) \<noteq> [] \<and>
    \<not> equal_fold (if sv_aware sv then key else sv_provider sv) (ga_provider st))"
  using assms(1) [unfolded same_server_def, rule_format, OF assms(2), THEN conjunct2, rule_format, OF assms(3)]
  by (auto simp: Let_def)

lemma valid_fetch:
  assumes "stable P" "same_server sv gc" "gc_stats gc = Inr st"
    and "\<And>s. P s \<Longrightarrow> Q (s\<lparr>db_fetched := db_fetched s @ [(p, g, lo, hi)]\<rparr>)"
  shows "valid P (fetchInsertRange sv gc p g grp lo hi cutoff (ga_provider st)) (\<lambda>fr s. fr_provider fr = p \<and> Q s) P"
proof (cases "gc_rows gc lo hi")
  case (Inl e)
  then show ?thesis by (auto simp: fetchInsertRange_def intro: valid_throw)
next
  case (Inr a)
  then obtain rows key where r: "gc_rows gc lo hi = Inr (rows, key)" by (cases a) auto
  define actual where "actual = (if sv_aware sv then key else sv_provider sv)"
  have same: "\<not> (trim_space actual \<noteq> [] \<and> trim_space (ga_provider st) \<noteq> [] \<and> \<not> equal_fold actual (ga_provider st))"
    by (rule same_answer [OF assms(2,3) r, folded actual_def])
  have noted: "valid P (note_fetched p g lo hi) (\<lambda>_. Q) P"
    using assms(4) by (simp add: valid_def note_fetched_def)
  show ?thesis
    unfolding fetchInsertRange_def r sum.case prod.case Let_def actual_def [symmetric] if_not_P [OF same] pass_ret
    by (rule valid_call [OF valid_quiet [OF quiet_operations(4) assms(1)]],
        rule valid_call [OF valid_quiet [OF quiet_operations(5) assms(1)]],
        rule valid_pass [OF noted], rule valid_ret, simp)
qed

lemma valid_deferral:
  assumes "stable P"
    and "\<And>s reason prio. P s \<Longrightarrow>
          Q (s\<lparr>db_deferred := upsert_range (deferral p g lo hi reason prio) (db_deferred s)\<rparr>)"
  shows "valid P (deferRangeWhenRecoveryPressured mode gc p g lo hi) (\<lambda>d s. if d then Q s else P s) P"
proof -
  have d: "valid P (pass (UpsertDeferredArticleRange (deferral p g lo hi reason prio)) (\<lambda>_. ret True))
      (\<lambda>d s. if d then Q s else P s) P" for reason prio
    by (rule valid_pass [OF valid_defer [where Q = Q, OF assms(1) assms(2)]]) (auto intro: valid_ret)
  have r: "valid P (ret False) (\<lambda>d s. if d then Q s else P s) P" by (rule valid_ret) simp
  have t: "valid P (throw e) (\<lambda>d s. if d then Q s else P s) P" for e by (rule valid_throw)
  show ?thesis
    unfolding deferRangeWhenRecoveryPressured_def Let_def
    by (rule valid_if [OF r], split sum.split, intro conjI allI impI, rule t,
        split option.split, intro conjI allI impI, rule r, rule valid_if [OF r d])
qed

lemma row_fetched [simp]: "row p g (s\<lparr>db_fetched := fs\<rparr>) = row p g s"
  by (simp add: row_def)

lemma covered_fetched:
  "covered low p g s n \<Longrightarrow> covered low p g (s\<lparr>db_fetched := db_fetched s @ xs\<rparr>) n"
  "lo \<le> n \<Longrightarrow> n \<le> hi \<Longrightarrow> covered low p g (s\<lparr>db_fetched := db_fetched s @ [(p, g, lo, hi)]\<rparr>) n"
  by (auto simp: covered_def)

lemma fetched_ok:
  "scraped_ok low high p g s \<Longrightarrow> scraped_ok low high p g (s\<lparr>db_fetched := db_fetched s @ xs\<rparr>)"
  using grows_ok [of p g s "s\<lparr>db_fetched := db_fetched s @ xs\<rparr>"] by (simp add: grows_def covered_fetched)

text \<open>The newest range.\<close>

lemma latest_moves:
  assumes "ready_from low high p g seen start s" "\<forall>n. start \<le> n \<and> n \<le> final \<longrightarrow> covered low p g s n"
    and "start \<le> final" "final \<le> high"
  shows "scraped_ok low high p g (put_checkpoint p g (\<lambda>c. c\<lparr>ck_last := max (ck_last c) (max final 0)\<rparr>) s)"
proof -
  let ?r = "row p g s"
  have ok: "scraped_ok low high p g s" and l: "ck_last ?r = seen" "0 < seen \<longrightarrow> seen < start"
    and b: "0 < ck_backfill ?r \<Longrightarrow> ck_backfill ?r < n \<Longrightarrow> n < start \<Longrightarrow> covered low p g s n" for n
    using assms(1) by (auto simp: ready_from_def)
  have "0 \<le> seen" using ok l by (simp add: scraped_ok_def)
  then have m: "max (ck_last ?r) (max final 0) = (if 0 < final then final else 0)" "0 < final \<or> seen = 0"
    using l assms(3) by auto
  have "covered low p g s n" if "0 < ck_backfill ?r" "ck_backfill ?r < n" "n \<le> final" for n
    using b [OF that(1,2)] assms(2) that(3) by (cases "n < start") auto
  then show ?thesis using ok assms(2-4) m l by (cases "0 < final") (auto simp: scraped_ok_def)
qed

lemma valid_latest_group:
  assumes "0 < so_batch (sv_opts sv)" "same_server sv gc" "gc_stats gc = Inr st"
    and "ga_low st \<le> ga_high st + 1"
  shows "valid (scraped_ok (ga_low st) (ga_high st) p g) (latest_of_group sv gc p grp g)
    (\<lambda>_. scraped_ok (ga_low st) (ga_high st) p g) (scraped_ok (ga_low st) (ga_high st) p g)"
proof -
  let ?low = "ga_low st" and ?high = "ga_high st" and ?batch = "so_batch (sv_opts sv)"
  let ?I = "scraped_ok ?low ?high p g"
  have finish: "valid (ready_from ?low ?high p g seen start)
      (if start > ?high then ret no_result
       else
         (let upto = start + ?batch - 1; upto = (if upto > ?high then ?high else upto)
          in pass (deferRangeWhenRecoveryPressured Latest gc p g start upto)
               (\<lambda>deferred.
                  if deferred then ret (no_result\<lparr>gr_work := True, gr_deferred := 1\<rparr>)
                  else pass (fetchInsertRange sv gc p g grp start upto None (ga_provider st))
                    (\<lambda>fr. call (''upsert latest checkpoint '' @ grp) (UpsertLatestCheckpoint (fr_provider fr) g upto)
                       (\<lambda>_. ret (no_result\<lparr>gr_work := True, gr_ranges := 1,
                          gr_headers := int (length (fr_headers fr)), gr_inserted := fr_inserted fr, gr_updates := 1\<rparr>))))))
      (\<lambda>_. ?I) ?I" (is "valid ?J ?body _ _") for start seen
  proof (cases "start > ?high")
    case True
    then show ?thesis by (auto intro!: valid_ret simp: ready_from_def)
  next
    case False
    define final where "final = (if start + ?batch - 1 > ?high then ?high else start + ?batch - 1)"
    have u: "start \<le> final" "final \<le> ?high" using False assms(1) by (auto simp: final_def)
    let ?J = "ready_from ?low ?high p g seen start"
    let ?F = "\<lambda>s. ?J s \<and> (\<forall>n. start \<le> n \<and> n \<le> final \<longrightarrow> covered ?low p g s n)"
    have st: "stable ?F"
      by (rule stable_conj [OF stable_ready]) (rule stableI [of p g], simp)
    have fetch: "valid ?J (fetchInsertRange sv gc p g grp start final None (ga_provider st))
        (\<lambda>fr s. fr_provider fr = p \<and> ?F s) ?I"
      by (rule valid_weaken [OF valid_fetch [where P = ?J and Q = ?F, OF stable_ready assms(2,3)]])
         (auto simp: ready_from_def fetched_ok covered_fetched)
    have store: "valid (\<lambda>s. q = p \<and> ?F s) (UpsertLatestCheckpoint q g final) (\<lambda>_. ?I) ?I" for q
    proof (cases "q = p")
      case True
      have "valid ?F (UpsertLatestCheckpoint p g final) (\<lambda>_. ?I) ?F"
        unfolding UpsertLatestCheckpoint_def
        by (intro valid_if valid_throw valid_put [OF st] latest_moves [of _ _ _ _ seen start]) (use u in auto)
      then show ?thesis unfolding True by (rule valid_weaken) (auto simp: ready_from_def)
    qed (simp add: valid_def)
    have body: "?body = pass (deferRangeWhenRecoveryPressured Latest gc p g start final)
               (\<lambda>deferred.
                  if deferred then ret (no_result\<lparr>gr_work := True, gr_deferred := 1\<rparr>)
                  else pass (fetchInsertRange sv gc p g grp start final None (ga_provider st))
                    (\<lambda>fr. call (''upsert latest checkpoint '' @ grp) (UpsertLatestCheckpoint (fr_provider fr) g final)
                       (\<lambda>_. ret (no_result\<lparr>gr_work := True, gr_ranges := 1,
                          gr_headers := int (length (fr_headers fr)), gr_inserted := fr_inserted fr, gr_updates := 1\<rparr>))))"
      unfolding Let_def if_not_P [OF False] final_def ..
    have defer': "valid ?J (deferRangeWhenRecoveryPressured Latest gc p g start final) (\<lambda>d s. if d then ?J s else ?J s) ?I"
      by (rule valid_weaken [OF valid_deferral [where P = ?J and Q = ?J, OF stable_ready]])
         (auto simp: ready_from_def deferred_ok covered_upsert)
    show ?thesis
      unfolding body
      by (rule valid_pass [OF defer'], rule valid_if, (rule valid_ret, simp add: ready_from_def),
          simp, rule valid_pass [OF fetch], rule valid_call [OF store], rule valid_ret, simp)
  qed
  have prof: "quiet (UpsertIndexerGroupProfile p g ''warm'')" by (rule quiet_operations)
  show ?thesis
  proof (cases "?high \<le> 0")
    case True
    show ?thesis
      unfolding latest_of_group_def assms(3) sum.case same_provider [OF assms(2,3)] pass_ret
      by (rule valid_pass [OF valid_quiet [OF prof stable_ok]], rule valid_if) (use True in \<open>auto intro: valid_ret\<close>)
  next
    case False
    have seen: "valid (\<lambda>s. ?I s \<and> seen = ck_last (row p g s)) (latest_start grp ?batch p g ?low ?high seen)
        (\<lambda>start. ready_from ?low ?high p g seen (if start < ?low then ?low else start)) ?I" for seen
      by (rule valid_weaken [OF valid_latest_start [OF assms(1) order_refl assms(4), of p g seen grp]]) auto
    show ?thesis
      unfolding latest_of_group_def assms(3) sum.case same_provider [OF assms(2,3)] pass_ret if_not_P [OF False]
      by (rule valid_pass [OF valid_quiet [OF prof stable_ok]], rule valid_call [OF valid_latest [OF stable_ok]],
          rule valid_pass [OF seen], subst Let_def, rule finish)
  qed
qed

text \<open>The next older range.\<close>

definition scraped_at :: "int \<Rightarrow> int \<Rightarrow> int \<Rightarrow> int \<Rightarrow> int \<Rightarrow> int \<Rightarrow> scrape_db \<Rightarrow> bool" where
  "scraped_at low high p g seen cursor s \<longleftrightarrow>
     scraped_ok low high p g s \<and> ck_last (row p g s) = seen \<and> ck_backfill (row p g s) = cursor"

lemma stable_at: "stable (scraped_at low high p g seen cursor)"
proof (rule stableI [of p g])
  fix s s'
  assume s: "row p g s' = row p g s" "\<And>low n. covered low p g s' n = covered low p g s n"
    and "scraped_at low high p g seen cursor s"
  then show "scraped_at low high p g seen cursor s'" by (simp add: scraped_at_def ok_same [OF s])
qed

lemma at_ok: "scraped_at low high p g seen cursor s \<Longrightarrow> scraped_ok low high p g s"
  by (simp add: scraped_at_def)

lemma ok_put:
  assumes "ck_last (f (row p g s)) = ck_last (row p g s)" "ck_backfill (f (row p g s)) = ck_backfill (row p g s)"
  shows "scraped_at low high p g seen cursor (put_checkpoint p g f s) = scraped_at low high p g seen cursor s"
  using assms by (simp add: scraped_at_def scraped_ok_def)

lemma valid_set_state:
  "valid (scraped_at low high p g seen cursor) (SetBackfillCheckpointState p g until reached reason)
     (\<lambda>_. scraped_at low high p g seen cursor) (scraped_at low high p g seen cursor)"
  unfolding SetBackfillCheckpointState_def
  by (intro valid_if valid_throw valid_put [OF stable_at]) (simp_all add: ok_put)

lemma valid_cutoff_state:
  "valid (scraped_at low high p g seen cursor) (cutoff_state grp p g cutoff state)
     (\<lambda>_. scraped_at low high p g seen cursor) (scraped_at low high p g seen cursor)"
proof -
  let ?K = "scraped_at low high p g seen cursor"
  have r: "valid ?K (ret b) (\<lambda>_. ?K) ?K" for b by (rule valid_ret)
  have s: "valid ?K (call w (SetBackfillCheckpointState p g u b t) (\<lambda>_. ret c)) (\<lambda>_. ?K) ?K" for w u b t c
    by (rule valid_call [OF valid_set_state r])
  show ?thesis
  proof (cases cutoff)
    case None
    show ?thesis unfolding cutoff_state_def None option.case by (intro valid_if s r)
  next
    case (Some date)
    show ?thesis unfolding cutoff_state_def Some option.case(2)
      by (rule valid_call [OF valid_reached [OF stable_at]]) (intro valid_if s r)
  qed
qed

lemma older_moves:
  assumes "scraped_at low high p g seen cursor s" "0 < seen" "hi = backfill_end high seen cursor"
    and "\<forall>n. lo \<le> n \<and> n \<le> hi \<longrightarrow> covered low p g s n" "lo \<le> hi"
  shows "scraped_ok low high p g (put_checkpoint p g (ck_backfill_update (\<lambda>_. max (if lo - 1 < 0 then 0 else lo - 1) 0)) s)"
proof -
  let ?r = "row p g s"
  have ok: "scraped_ok low high p g s" and r: "ck_last ?r = seen" "ck_backfill ?r = cursor"
    using assms(1) by (simp_all add: scraped_at_def)
  have h: "hi \<le> high" by (simp add: assms(3) backfill_end_def Let_def)
  have above: "covered low p g s n" if "hi < n" "n \<le> seen" for n
  proof (cases "cursor = 0")
    case True
    with that assms(2,3) ok r have "n = seen" by (auto simp: backfill_end_def scraped_ok_def Let_def split: if_splits)
    then show ?thesis using ok r assms(2) by (simp add: scraped_ok_def)
  next
    case False
    then have "hi = cursor" "0 < cursor" using ok r assms(3) by (auto simp: backfill_end_def scraped_ok_def Let_def)
    then show ?thesis using ok r that by (simp add: scraped_ok_def)
  qed
  have "covered low p g s n" if "lo - 1 < n" "n \<le> seen" for n
    using above [of n] assms(4) that by (cases "hi < n") auto
  then show ?thesis using ok r h assms(2,5) by (auto simp: scraped_ok_def)
qed

lemma valid_older:
  assumes "0 < seen" "hi = backfill_end high seen cursor" "lo \<le> hi" "low = ga_low st" "high = ga_high st"
    and "same_server sv gc" "gc_stats gc = Inr st"
  shows "valid (scraped_at low high p g seen cursor) (backfill_range sv gc p g grp st cutoff lo hi)
    (\<lambda>_. scraped_ok low high p g) (scraped_ok low high p g)"
proof -
  let ?K = "scraped_at low high p g seen cursor"
  let ?F = "\<lambda>s. ?K s \<and> (\<forall>n. lo \<le> n \<and> n \<le> hi \<longrightarrow> covered low p g s n)"
  let ?I = "scraped_ok low high p g"
  define next_cursor where "next_cursor = (if lo - 1 < 0 then 0 else lo - 1)"
  have st: "stable ?F" by (rule stable_conj [OF stable_at]) (rule stableI [of p g], simp)
  have move: "valid ?F (UpsertBackfillCheckpoint p g next_cursor) (\<lambda>_. ?I) ?F"
    unfolding UpsertBackfillCheckpoint_def next_cursor_def
    by (intro valid_if valid_throw valid_put [OF st] older_moves [where seen = seen and cursor = cursor and hi = hi])
       (use assms in auto)
  have move: "valid (\<lambda>s. q = p \<and> ?F s) (UpsertBackfillCheckpoint q g next_cursor) (\<lambda>_. ?I) ?I" for q
  proof (cases "q = p")
    case True
    show ?thesis unfolding True by (rule valid_weaken [OF move]) (auto intro: at_ok)
  qed (simp add: valid_def)
  have mark: "valid (\<lambda>s. q = p \<and> ?F s) (SetBackfillCheckpointState q g u b t) (\<lambda>_. ?I) ?I" for q u b t
  proof (cases "q = p")
    case True
    show ?thesis unfolding True by (rule valid_weaken [OF valid_set_state]) (auto intro: at_ok)
  qed (simp add: valid_def)
  have fetch: "valid ?K (fetchInsertRange sv gc p g grp lo hi cutoff (ga_provider st)) (\<lambda>fr s. fr_provider fr = p \<and> ?F s) ?I"
    by (rule valid_weaken [OF valid_fetch [where P = ?K and Q = ?F, OF stable_at assms(6,7)]])
       (auto simp: scraped_at_def fetched_ok covered_fetched)
  have put_off: "valid ?K (deferRangeWhenRecoveryPressured Backfill gc p g lo hi) (\<lambda>d s. if d then ?F s else ?K s) ?I"
    by (rule valid_weaken [OF valid_deferral [where P = ?K and Q = ?F, OF stable_at]])
       (auto simp: scraped_at_def deferred_ok covered_upsert deferral_def intro!: covered_by_deferral)
  show ?thesis
    unfolding backfill_range_def Let_def next_cursor_def [symmetric]
    apply (rule valid_pass [OF put_off])
    apply (rule valid_if)
     apply (rule valid_call [OF valid_weaken [OF move [of p]]], simp, assumption, assumption, rule valid_ret, assumption)
    apply simp
    apply (rule valid_pass [OF fetch])
    apply (rule valid_if)
     apply (rule valid_call [OF mark], rule valid_ret, assumption)
    apply (rule valid_call [OF move], rule valid_ret, assumption)
    done
qed

lemma valid_backfill_group:
  assumes "0 < so_batch (sv_opts sv)" "same_server sv gc" "gc_stats gc = Inr st"
  shows "valid (\<lambda>s. scraped_ok (ga_low st) (ga_high st) p g s \<and> 0 < ck_last (row p g s)) (backfill_of_group sv gc p grp g)
    (\<lambda>_. scraped_ok (ga_low st) (ga_high st) p g) (scraped_ok (ga_low st) (ga_high st) p g)"
proof -
  let ?low = "ga_low st" and ?high = "ga_high st"
  let ?I = "scraped_ok ?low ?high p g"
  let ?P = "\<lambda>s. ?I s \<and> 0 < ck_last (row p g s)"
  have st: "stable ?P" by (rule stable_conj [OF stable_ok]) (rule stableI [of p g], simp)
  have prof: "valid ?P (UpsertIndexerGroupProfile p g ''warm'') (\<lambda>_. ?P) ?I"
    by (rule valid_weaken [OF valid_quiet [OF quiet_operations(3) st]]) auto
  have seen: "valid ?P (GetLatestCheckpoint p g) (\<lambda>seen s. ?P s \<and> seen = ck_last (row p g s)) ?I"
    by (rule valid_weaken [OF valid_latest [OF st]]) auto
  have st': "stable (\<lambda>s. ?P s \<and> seen = ck_last (row p g s))" for seen
    by (rule stable_conj [OF st]) (rule stableI [of p g], simp)
  have cursor: "valid (\<lambda>s. ?P s \<and> seen = ck_last (row p g s)) (GetBackfillCheckpoint p g)
      (\<lambda>cursor s. 0 < seen \<and> scraped_at ?low ?high p g seen cursor s) ?I" for seen
    by (rule valid_weaken [OF valid_backfill [OF st']]) (auto simp: scraped_at_def)
  have st'': "stable (\<lambda>s. 0 < seen \<and> scraped_at ?low ?high p g seen cursor s)" for seen cursor
    by (rule stable_conj [OF stable_const stable_at])
  have state: "valid (\<lambda>s. 0 < seen \<and> scraped_at ?low ?high p g seen cursor s) (GetBackfillCheckpointState p g)
      (\<lambda>_ s. 0 < seen \<and> scraped_at ?low ?high p g seen cursor s) ?I" for seen cursor
    by (rule valid_weaken [OF valid_state [OF st'']]) (auto simp: scraped_at_def)
  have cutoff: "valid (\<lambda>s. 0 < seen \<and> scraped_at ?low ?high p g seen cursor s) (cutoff_state grp p g c state)
      (\<lambda>_ s. 0 < seen \<and> scraped_at ?low ?high p g seen cursor s) ?I" for seen cursor c state
    by (cases "0 < seen") (simp_all add: valid_def [of "\<lambda>_. False"]
          valid_weaken [OF valid_cutoff_state, of _ ?low ?high p g seen cursor _ ?I] at_ok)
  have older: "valid (\<lambda>s. 0 < seen \<and> scraped_at ?low ?high p g seen cursor s)
      (let hi = backfill_end ?high seen cursor
       in if finished \<or> hi < ?low then ret no_result
          else (let lo = hi - so_batch (sv_opts sv) + 1; lo = (if lo < ?low then ?low else lo)
                in backfill_range sv gc p g grp st c lo hi)) (\<lambda>_. ?I) ?I" for seen cursor finished c
  proof (cases "0 < seen")
    case True
    show ?thesis
      unfolding Let_def
      by (rule valid_if, (rule valid_ret, blast intro: at_ok),
          rule valid_weaken [OF valid_older [where seen = seen and cursor = cursor, OF True refl _ refl refl assms(2,3)]])
         (use assms(1) in auto)
  qed (simp add: valid_def)
  show ?thesis
    unfolding backfill_of_group_def assms(3) sum.case same_provider [OF assms(2,3)] pass_ret
    by (rule valid_pass [OF prof], rule valid_if, rule valid_ret, simp, rule valid_call [OF seen],
        rule valid_call [OF cursor], rule valid_call [OF state], rule valid_pass [OF cutoff], rule older)
qed

section \<open>Runs of other groups\<close>

text \<open>Operations on another group \<open>h\<close> keep what is known of a group.\<close>

definition keeps :: "int \<Rightarrow> 'a db \<Rightarrow> bool" where
  "keeps h m \<longleftrightarrow> (\<forall>low high p g. g \<noteq> h \<longrightarrow>
     valid (scraped_ok low high p g) m (\<lambda>_. scraped_ok low high p g) (scraped_ok low high p g))"

named_theorems keeps_rules

lemma keepsI: "(\<And>low high p g. g \<noteq> h \<Longrightarrow>
    valid (scraped_ok low high p g) m (\<lambda>_. scraped_ok low high p g) (scraped_ok low high p g)) \<Longrightarrow> keeps h m"
  by (simp add: keeps_def)

lemma keeps_quiet [keeps_rules]: "quiet m \<Longrightarrow> keeps h m"
  by (rule keepsI) (rule valid_quiet [OF _ stable_ok])

lemma keeps_then [keeps_rules]:
  "keeps h m \<Longrightarrow> (\<And>x. keeps h (k x)) \<Longrightarrow> keeps h (pass m k)"
  "keeps h m \<Longrightarrow> (\<And>x. keeps h (k x)) \<Longrightarrow> keeps h (call what m k)"
  unfolding keeps_def by (blast intro: valid_pass valid_call)+

lemma keeps_if [keeps_rules]: "keeps h m \<Longrightarrow> keeps h m' \<Longrightarrow> keeps h (if b then m else m')"
  by simp

lemma keeps_put:
  "keeps h (statement what (\<lambda>s. ((), put_checkpoint q h f s)))"
proof (rule keepsI)
  fix low high p g :: int assume "g \<noteq> h"
  then have "scraped_ok low high p g (put_checkpoint q h f s)" if "scraped_ok low high p g s" for s
    using that by (simp add: scraped_ok_def)
  then show "valid (scraped_ok low high p g) (statement what (\<lambda>s. ((), put_checkpoint q h f s)))
      (\<lambda>_. scraped_ok low high p g) (scraped_ok low high p g)"
    by (rule valid_put [OF stable_ok])
qed

lemma quiet_reads:
  "quiet (GetLatestCheckpoint p g)" "quiet (GetBackfillCheckpoint p g)" "quiet (GetBackfillCheckpointState p g)"
  "quiet (HasBackfillCutoffReachedForGroup g d)"
  by (auto simp: GetLatestCheckpoint_def GetBackfillCheckpoint_def GetBackfillCheckpointState_def
      HasBackfillCutoffReachedForGroup_def intro!: quiet_statement)

lemma keeps_operations:
  "keeps h (UpsertLatestCheckpoint q h n)" "keeps h (UpsertBackfillCheckpoint q h n)"
  "keeps h (SetBackfillCheckpointState q h u b t)" "keeps h (UpsertDeferredArticleRange x)" "keeps h (note_fetched q h lo hi)"
proof -
  show "keeps h (UpsertDeferredArticleRange x)" by (rule keepsI, rule valid_defer [OF stable_ok], rule deferred_ok)
  show "keeps h (note_fetched q h lo hi)" by (rule keepsI) (simp add: valid_def note_fetched_def fetched_ok)
  have t: "keeps h (throw e)" for e :: scrape_error by (rule keeps_quiet) simp
  show "keeps h (UpsertLatestCheckpoint q h n)" "keeps h (UpsertBackfillCheckpoint q h n)"
    "keeps h (SetBackfillCheckpointState q h u b t)"
    unfolding UpsertLatestCheckpoint_def UpsertBackfillCheckpoint_def SetBackfillCheckpointState_def
    by (intro keeps_if t keeps_put)+
qed

lemma keeps_fetch: "keeps h (fetchInsertRange sv gc p h grp lo hi cutoff expected)"
  unfolding fetchInsertRange_def Let_def
  by (split sum.split, intro conjI allI impI keeps_quiet [OF quiet_throw], split prod.split,
      intro allI impI keeps_then keeps_if keeps_operations keeps_quiet [OF quiet_ret] keeps_quiet [OF quiet_provider]
        keeps_quiet [OF quiet_operations(4)] keeps_quiet [OF quiet_operations(5)])

lemma keeps_deferral: "keeps h (deferRangeWhenRecoveryPressured mode gc p g lo hi)"
  unfolding deferRangeWhenRecoveryPressured_def Let_def
  by (intro keeps_if keeps_quiet [OF quiet_ret], split sum.split, intro conjI allI impI keeps_quiet [OF quiet_throw],
      split option.split, intro conjI allI impI keeps_if keeps_quiet [OF quiet_ret] keeps_then keeps_operations(4))

lemma keeps_latest_start: "keeps h (latest_start grp batch p h low high seen)"
  unfolding latest_start_def Let_def
  by (intro keeps_if keeps_then keeps_operations keeps_quiet quiet_ret quiet_reads)

lemma keeps_cutoff: "keeps h (cutoff_state grp p h cutoff state)"
  unfolding cutoff_state_def
  by (cases cutoff; simp only: option.case)
     (intro keeps_if keeps_then keeps_operations keeps_quiet quiet_ret quiet_reads)+

lemma keeps_latest_group: "keeps h (latest_of_group sv gc p grp h)"
proof (cases "gc_stats gc")
  case (Inr st)
  show ?thesis unfolding latest_of_group_def Inr sum.case Let_def
    by (intro keeps_if keeps_then keeps_latest_start keeps_deferral keeps_fetch keeps_operations keeps_quiet quiet_ret quiet_reads quiet_provider
        quiet_operations)
qed (auto simp: latest_of_group_def intro!: keeps_quiet)

lemma keeps_backfill_group: "keeps h (backfill_of_group sv gc p grp h)"
proof (cases "gc_stats gc")
  case (Inr st)
  show ?thesis unfolding backfill_of_group_def backfill_range_def Inr sum.case Let_def
    by (intro keeps_if keeps_then keeps_cutoff keeps_deferral keeps_fetch keeps_operations keeps_quiet quiet_ret quiet_reads quiet_provider
        quiet_operations)
qed (auto simp: backfill_of_group_def intro!: keeps_quiet)

section \<open>Histories of a group\<close>

text \<open>Any sequence of runs, with failures of the server and of the database anywhere, as long as the answers come
  from one provider, the group is backfilled only once its newest articles have been fetched,
  and the server's lowest and highest numbers do not go down (\<open>low\<close>, \<open>high\<close>: the last ones it has reported).\<close>

inductive scrape_history :: "scrape_service \<Rightarrow> int \<Rightarrow> int \<Rightarrow> int \<Rightarrow> int \<Rightarrow> scrape_db \<Rightarrow> bool" for sv p g where
  new_group: "db_checkpoints s (p, g) = None \<Longrightarrow> scrape_history sv p g 0 0 s"
| answered: "scrape_history sv p g low high s \<Longrightarrow> fst (EnsureNewsgroup grp s) = Inr g \<Longrightarrow>
     same_server sv gc \<Longrightarrow> gc_stats gc = Inr st \<Longrightarrow> low \<le> ga_low st \<Longrightarrow> high \<le> ga_high st \<Longrightarrow>
     ga_low st \<le> ga_high st + 1 \<Longrightarrow> mode = Latest \<or> 0 < ck_last (row p g s) \<Longrightarrow>
     scrape_history sv p g (ga_low st) (ga_high st) (snd (runGroup sv mode gc p grp s))"
| unanswered: "scrape_history sv p g low high s \<Longrightarrow> gc_stats gc = Inl e \<Longrightarrow>
     scrape_history sv p g low high (snd (runGroup sv mode gc p grp s))"
| other_group: "scrape_history sv p g low high s \<Longrightarrow> fst (EnsureNewsgroup grp s) \<noteq> Inr g \<Longrightarrow>
     scrape_history sv p g low high (snd (runGroup sv mode gc q grp s))"

lemma after_valid: "valid P m (\<lambda>_. Q) Q \<Longrightarrow> P s \<Longrightarrow> Q (snd (m s))"
  unfolding valid_def by (drule spec [of _ s]) (auto split: prod.splits sum.splits)

lemma run_of_group:
  assumes "fst (EnsureNewsgroup grp s) = Inr h"
  shows "snd (runGroup sv mode gc p grp s) =
    snd ((case mode of Latest \<Rightarrow> latest_of_group sv gc p grp h | Backfill \<Rightarrow> backfill_of_group sv gc p grp h)
      (snd (EnsureNewsgroup grp s)))"
  using assms by (cases "EnsureNewsgroup grp s"; cases mode)
    (auto simp: runGroup_def runLatestGroup_def runBackfillGroup_def call_def)

lemma run_of_no_group:
  assumes "fst (EnsureNewsgroup grp s) = Inl e"
  shows "snd (runGroup sv mode gc p grp s) = snd (EnsureNewsgroup grp s)"
  using assms by (cases "EnsureNewsgroup grp s"; cases mode)
    (auto simp: runGroup_def runLatestGroup_def runBackfillGroup_def call_def)

lemma ensure_keeps: "scraped_ok low high p g s \<Longrightarrow> scraped_ok low high p g (snd (EnsureNewsgroup grp s))"
  by (rule after_valid [OF valid_quiet [OF quiet_operations(2) stable_ok]])

lemma unanswered_run:
  assumes "gc_stats gc = Inl e" shows "snd (runGroup sv mode gc p grp s) = snd (EnsureNewsgroup grp s)"
proof (cases "fst (EnsureNewsgroup grp s)")
  case (Inr h)
  with assms show ?thesis
    by (cases mode) (simp_all add: run_of_group latest_of_group_def backfill_of_group_def throw_def)
qed (rule run_of_no_group)

lemma history_ok:
  assumes "scrape_history sv p g low high s" "0 < so_batch (sv_opts sv)"
  shows "scraped_ok low high p g s"
  using assms(1)
proof induction
  case (new_group s)
  then show ?case by (simp add: scraped_ok_def row_def no_checkpoint_def)
next
  case (answered low high s grp gc st mode)
  have ok: "scraped_ok (ga_low st) (ga_high st) p g s"
    using scraped_ok_mono [OF answered.IH] answered.hyps by blast
  let ?s = "snd (EnsureNewsgroup grp s)"
  have ok': "scraped_ok (ga_low st) (ga_high st) p g ?s" by (rule ensure_keeps [OF ok])
  show ?case
  proof (cases mode)
    case Latest
    show ?thesis unfolding run_of_group [OF answered.hyps(2)] Latest scrape_mode.case
      by (rule after_valid [OF valid_latest_group [OF assms(2) answered.hyps(3,4,7)] ok'])
  next
    case Backfill
    have st: "stable (\<lambda>s. 0 < ck_last (row p g s))" by (rule stableI [of p g]) simp
    have "0 < ck_last (row p g s)" using answered.hyps(8) Backfill by simp
    from after_valid [OF valid_quiet [OF quiet_operations(2) st] this] ok'
    have "scraped_ok (ga_low st) (ga_high st) p g ?s \<and> 0 < ck_last (row p g ?s)" by blast
    then show ?thesis unfolding run_of_group [OF answered.hyps(2)] Backfill scrape_mode.case
      by (rule after_valid [OF valid_backfill_group [OF assms(2) answered.hyps(3,4)]])
  qed
next
  case (unanswered low high s gc e mode grp)
  then show ?case by (simp add: unanswered_run ensure_keeps)
next
  case (other_group low high s grp mode gc q)
  show ?case
  proof (cases "fst (EnsureNewsgroup grp s)")
    case (Inr h)
    with other_group.hyps(2) have "g \<noteq> h" by simp
    then have "valid (scraped_ok low high p g)
        (case mode of Latest \<Rightarrow> latest_of_group sv gc q grp h | Backfill \<Rightarrow> backfill_of_group sv gc q grp h)
        (\<lambda>_. scraped_ok low high p g) (scraped_ok low high p g)"
      using keeps_latest_group [of h sv gc q grp] keeps_backfill_group [of h sv gc q grp]
      by (cases mode) (simp_all add: keeps_def)
    from after_valid [OF this ensure_keeps [OF other_group.IH]] show ?thesis by (simp add: run_of_group [OF Inr])
  qed (simp add: run_of_no_group ensure_keeps [OF other_group.IH])
qed

end
