(* ===== verification/Scrape_Runs.thy ===== *)
theory Scrape_Runs
  imports Scrape_Props
begin

text \<open>
  What scraping guarantees about its runs: rows are filtered as configured, every newsgroup gets its turn,
  between its two checkpoints no article number is passed over in silence, a backfill comes to its end;
  and where that fails.
\<close>

section \<open>Rows\<close>

definition usable_row :: "overview_row \<Rightarrow> bool" where
  "usable_row r \<longleftrightarrow> 0 < ow_number r \<and> trim_space (ow_id r) \<noteq> []"

definition recent_row :: "int option \<Rightarrow> overview_row \<Rightarrow> bool" where
  "recent_row cutoff r \<longleftrightarrow> (case (cutoff, ow_date r) of (None, _) \<Rightarrow> True | (Some c, None) \<Rightarrow> False | (Some c, Some t) \<Rightarrow> c \<le> t)"

definition dates_of :: "overview_row list \<Rightarrow> int set" where
  "dates_of rows = {t. \<exists>r \<in> set rows. usable_row r \<and> ow_date r = Some t}"

definition oldest_is :: "int option \<Rightarrow> int set \<Rightarrow> bool" where
  "oldest_is d ts \<longleftrightarrow> (case d of None \<Rightarrow> ts = {} | Some t \<Rightarrow> t \<in> ts \<and> (\<forall>u \<in> ts. t \<le> u))"

definition scanned :: "int option \<Rightarrow> overview_row list \<Rightarrow> row_scan \<Rightarrow> bool" where
  "scanned cutoff rows sc \<longleftrightarrow>
     sc_headers sc = map clean_header (filter (\<lambda>r. usable_row r \<and> recent_row cutoff r) rows) \<and>
     sc_filtered sc = int (length (filter (\<lambda>r. usable_row r \<and> \<not> recent_row cutoff r) rows)) \<and>
     sc_observed sc = map (\<lambda>r. (ow_number r, ow_date r)) (filter usable_row rows) \<and>
     oldest_is (sc_oldest sc) (dates_of rows)"

lemma dates_snoc: "dates_of (rows @ [r]) =
    (case (usable_row r, ow_date r) of (True, Some t) \<Rightarrow> insert t (dates_of rows) | _ \<Rightarrow> dates_of rows)"
  by (auto simp: dates_of_def split: option.split bool.split)

lemma oldest_insert:
  "oldest_is d ts \<Longrightarrow>
     oldest_is (if (case d of None \<Rightarrow> True | Some o' \<Rightarrow> t < o') then Some t else d) (insert t ts)"
  by (auto simp: oldest_is_def split: option.splits if_splits)

lemma scan_step: "scanned cutoff rows sc \<Longrightarrow> scanned cutoff (rows @ [r]) (scan_row cutoff r sc)"
proof (cases "usable_row r")
  case False
  moreover assume "scanned cutoff rows sc"
  moreover have "scan_row cutoff r sc = sc" using False by (auto simp: scan_row_def usable_row_def)
  ultimately show ?thesis by (simp add: scanned_def dates_snoc)
next
  case True
  then have u: "\<not> (ow_number r \<le> 0 \<or> trim_space (ow_id r) = [])" by (simp add: usable_row_def)
  assume s: "scanned cutoff rows sc"
  show ?thesis
  proof (cases "ow_date r")
    case None
    with s True u show ?thesis
      by (cases cutoff) (simp_all add: scanned_def dates_snoc scan_row_def recent_row_def)
  next
    case (Some t)
    have "oldest_is (sc_oldest sc) (dates_of rows)" using s by (simp add: scanned_def)
    from oldest_insert [OF this, of t] s True u Some show ?thesis
      unfolding scanned_def scan_row_def if_not_P [OF u] Let_def
      by (cases cutoff; cases "sc_oldest sc") (auto simp: dates_snoc recent_row_def split: if_splits)
  qed
qed

lemma scan_fold: "scanned cutoff done sc \<Longrightarrow> scanned cutoff (done @ rows) (fold (scan_row cutoff) rows sc)"
proof (induction rows arbitrary: "done" sc)
  case (Cons r rows)
  from Cons.IH [OF scan_step [OF Cons.prems, of r]] show ?case by simp
qed simp

text \<open>Of the overview rows the server returns, exactly those with a positive number and a message id are used. All of
  them are observed; inserted, in order and with their texts cleaned, are those not older than the cutoff date (with
  a cutoff, an article without a date counts as older); the others are counted; and the oldest date, which
  decides whether the cutoff is reached, is that of all usable rows.\<close>

theorem rows_are_filtered_by_cutoff:
  "sc_headers (scan_rows cutoff rows) = map clean_header (filter (\<lambda>r. usable_row r \<and> recent_row cutoff r) rows) \<and>
   sc_filtered (scan_rows cutoff rows) = int (length (filter (\<lambda>r. usable_row r \<and> \<not> recent_row cutoff r) rows)) \<and>
   sc_observed (scan_rows cutoff rows) = map (\<lambda>r. (ow_number r, ow_date r)) (filter usable_row rows) \<and>
   oldest_is (sc_oldest (scan_rows cutoff rows)) (dates_of rows)"
proof -
  have "scanned cutoff ([] @ rows) (scan_rows cutoff rows)"
    unfolding scan_rows_def by (rule scan_fold) (simp add: scanned_def oldest_is_def dates_of_def)
  then show ?thesis by (simp add: scanned_def)
qed

section \<open>Rotation\<close>

text \<open>The groups of the \<open>i\<close>-th run from here on, with the configuration unchanged.\<close>

fun turns :: "string list \<Rightarrow> nat \<Rightarrow> scrape_service \<Rightarrow> scrape_service" where
  "turns gs 0 sv = sv"
| "turns gs (Suc i) sv = turns gs i (snd (reserveRunGroups gs sv))"

definition turn :: "string list \<Rightarrow> nat \<Rightarrow> scrape_service \<Rightarrow> string list" where
  "turn gs i sv = fst (fst (reserveRunGroups gs (turns gs i sv)))"

lemma grem_mod: "0 \<le> a \<Longrightarrow> 0 < b \<Longrightarrow> grem a b = a mod b"
  by (cases "a = 0") (simp_all add: grem_def gdiv_def minus_div_mult_eq_mod)

lemma budget_range:
  assumes "0 < n" shows "1 \<le> run_budget sv n" "run_budget sv n \<le> n"
  using assms by (auto simp: run_budget_def Let_def)

lemma reserve_once:
  assumes "gs \<noteq> []" "0 \<le> sv_next sv"
  defines "n \<equiv> int (length gs)"
  shows "reserveRunGroups gs sv =
    ((map (\<lambda>i. gs ! nat ((sv_next sv mod n + int i) mod n)) [0..<nat (run_budget sv n)], sv_next sv mod n,
      (sv_next sv mod n + run_budget sv n) mod n), sv\<lparr>sv_next := (sv_next sv mod n + run_budget sv n) mod n\<rparr>)"
  using assms by (simp add: reserveRunGroups_def grem_mod Let_def not_less)

lemma turns_next:
  assumes "gs \<noteq> []" "0 \<le> sv_next sv"
  shows "0 \<le> sv_next (turns gs i sv) \<and> run_budget (turns gs i sv) m = run_budget sv m \<and>
    sv_next (turns gs i sv) mod int (length gs) = (sv_next sv + int i * run_budget sv (int (length gs))) mod int (length gs)"
  using assms(2)
proof (induction i arbitrary: sv)
  case (Suc i)
  let ?n = "int (length gs)"
  let ?sv = "snd (reserveRunGroups gs sv)"
  have n: "0 < ?n" using assms(1) by simp
  have r: "?sv = sv\<lparr>sv_next := (sv_next sv mod ?n + run_budget sv ?n) mod ?n\<rparr>"
    by (simp add: reserve_once [OF assms(1) Suc.prems])
  have b: "run_budget ?sv k = run_budget sv k" for k unfolding r by (simp add: run_budget_def Let_def)
  have "0 \<le> sv_next ?sv" unfolding r using n by simp
  note IH = Suc.IH [OF this, unfolded b]
  have "(sv_next ?sv + int i * run_budget sv ?n) mod ?n = (sv_next sv + int (Suc i) * run_budget sv ?n) mod ?n"
    unfolding r by (simp add: mod_simps algebra_simps)
  with IH show ?case by simp
qed simp

text \<open>Every newsgroup gets its turn: with \<open>n\<close> groups of which each run takes \<open>b\<close>, from any state of the rotation
  each group is among those of the next \<open>n\<close> runs (of the first \<open>n div b + 1\<close> of them), and no run has a group twice.\<close>

theorem every_group_gets_its_turn:
  assumes "x \<in> set gs" "0 \<le> sv_next sv" "distinct gs"
  shows "(\<exists>i. i \<le> (length gs - 1) div nat (run_budget sv (int (length gs))) \<and> x \<in> set (turn gs i sv)) \<and> distinct (turn gs k sv)"
proof
  let ?n = "int (length gs)"
  define b where "b = run_budget sv ?n"
  have gs: "gs \<noteq> []" using assms(1) by auto
  then have n: "0 < ?n" by simp
  have b: "1 \<le> b" "b \<le> ?n" unfolding b_def using budget_range [OF n] by auto
  have turn: "turn gs i sv = map (\<lambda>k. gs ! nat ((sv_next sv + int i * b + int k) mod ?n)) [0..<nat b]" for i
  proof -
    note t = turns_next [OF gs assms(2), of i, folded b_def]
    then have "0 \<le> sv_next (turns gs i sv)" by blast
    from reserve_once [OF gs this] t show ?thesis by (simp add: turn_def b_def [symmetric] mod_simps)
  qed
  obtain j where j: "j < length gs" "x = gs ! j" using assms(1) by (auto simp: in_set_conv_nth)
  define d where "d = (int j - sv_next sv) mod ?n"
  have d: "0 \<le> d" "d < ?n" using n by (auto simp: d_def)
  define i where "i = nat (d div b)"
  have i: "int i = d div b" "0 \<le> d mod b" "d mod b < b" using d b by (auto simp: i_def pos_imp_zdiv_nonneg_iff)
  have "(sv_next sv + int i * b + int (nat (d mod b))) mod ?n = (sv_next sv + d) mod ?n"
    using i by (simp add: add.assoc)
  also have "\<dots> = int j mod ?n" by (simp add: d_def mod_simps)
  also have "\<dots> = int j" using j by simp
  finally have "gs ! nat ((sv_next sv + int i * b + int (nat (d mod b))) mod ?n) = x" using j by simp
  moreover have "nat (d mod b) < nat b" using i by simp
  ultimately have "x \<in> set (turn gs i sv)"
    unfolding turn set_map by (intro image_eqI [where x = "nat (d mod b)"]) (simp_all del: of_nat_nat)
  moreover have "i \<le> (length gs - 1) div nat b"
  proof -
    have "d div b \<le> (?n - 1) div b" using d b by (intro zdiv_mono1) auto
    also have "(?n - 1) div b = int ((length gs - 1) div nat b)" using n b by (simp add: zdiv_int of_nat_diff)
    finally show ?thesis using i by linarith
  qed
  ultimately show "\<exists>i. i \<le> (length gs - 1) div nat (run_budget sv ?n) \<and> x \<in> set (turn gs i sv)"
    unfolding b_def by blast
  have "u = v" if "(a + int u) mod ?n = (a + int v) mod ?n" "u < nat b" "v < nat b" for a u v
  proof -
    from that(1) have "?n dvd int u - int v" by (simp add: mod_eq_dvd_iff)
    moreover have "\<bar>int u - int v\<bar> < ?n" using that b by linarith
    ultimately have "int u - int v = 0" using zdvd_imp_le [of ?n "\<bar>int u - int v\<bar>"] by fastforce
    then show ?thesis by simp
  qed
  then have "inj_on (\<lambda>k. gs ! nat ((sv_next sv + int i * b + int k) mod ?n)) {0..<nat b}" for i
    using assms(3) n by (intro inj_onI) (auto simp: nth_eq_iff_index_eq nat_less_iff eq_nat_nat_iff)
  then show "distinct (turn gs k sv)" unfolding turn by (simp add: distinct_map)
qed

lemma every_group_gets_its_turn_witness:
  "let gs = [''a'', ''b'', ''c'']; sv = NewService ''p'' False
     \<lparr>so_groups = gs, so_batch = 0, so_concurrency = 2, so_max_batches = 0, so_cutoffs = \<lambda>_. None\<rparr>
   in (\<exists>i \<le> 1. ''c'' \<in> set (turn gs i sv)) \<and> distinct (turn gs 0 sv)"
  using every_group_gets_its_turn [of "''c''" "[''a'', ''b'', ''c'']" "NewService ''p'' False
     \<lparr>so_groups = [''a'', ''b'', ''c''], so_batch = 0, so_concurrency = 2, so_max_batches = 0, so_cutoffs = \<lambda>_. None\<rparr>" 0]
  by (auto simp: NewService_def run_budget_def)
section \<open>Runs without failures\<close>

definition at_rest :: "int \<Rightarrow> int \<Rightarrow> int \<Rightarrow> int \<Rightarrow> (int \<times> int \<times> int \<times> int) list \<Rightarrow> string list \<Rightarrow> scrape_db \<Rightarrow> bool" where
  "at_rest p g seen cursor F G s \<longleftrightarrow>
     db_fails s = [] \<and> ck_last (row p g s) = seen \<and> ck_backfill (row p g s) = cursor \<and> db_fetched s = F \<and> db_groups s = G"

text \<open>A news server that answers, without recovery pressure.\<close>

definition answers :: "scrape_service \<Rightarrow> group_call \<Rightarrow> group_stats_answer \<Rightarrow> bool" where
  "answers sv gc st \<longleftrightarrow> same_server sv gc \<and> gc_stats gc = Inr st \<and> gc_snapshot gc = Inr None \<and>
     (\<forall>lo hi. \<exists>rows key. gc_rows gc lo hi = Inr (rows, key))"

abbreviation succeeds :: "(scrape_db \<Rightarrow> bool) \<Rightarrow> 'a db \<Rightarrow> ('a \<Rightarrow> scrape_db \<Rightarrow> bool) \<Rightarrow> bool" where
  "succeeds P m Q \<equiv> valid P m Q (\<lambda>_. False)"

lemma succeeds_statement:
  assumes "\<And>s. P s \<Longrightarrow> db_fails s = []" "\<And>s. P s \<Longrightarrow> (case f s of (x, s') \<Rightarrow> Q x s')"
  shows "succeeds P (statement what f) Q"
  unfolding valid_def
proof (intro allI impI)
  fix s assume "P s"
  from assms(1) [OF this] assms(2) [OF this]
  show "case statement what f s of (Inl e, s') \<Rightarrow> False | (Inr x, s') \<Rightarrow> Q x s'"
    by (auto simp: statement_def split: prod.splits)
qed

lemma succeeds_keep:
  assumes "\<And>s. db_fails (snd (f s)) = db_fails s \<and> db_checkpoints (snd (f s)) = db_checkpoints s \<and>
     db_fetched (snd (f s)) = db_fetched s \<and> db_groups (snd (f s)) = db_groups s"
  shows "succeeds (at_rest p g seen cursor F G) (statement what f) (\<lambda>_. at_rest p g seen cursor F G)"
proof (rule succeeds_statement)
  fix s assume "at_rest p g seen cursor F G s"
  with assms [of s] show "case f s of (x, s') \<Rightarrow> at_rest p g seen cursor F G s'"
    by (auto simp: at_rest_def row_def split: prod.splits)
qed (simp add: at_rest_def)

lemma succeeds_ensure:
  assumes "index_from 1 (trim_space grp) G = Some g" "trim_space grp \<noteq> []"
  shows "succeeds (at_rest p g seen cursor F G) (EnsureNewsgroup grp) (\<lambda>h s. h = g \<and> at_rest p g seen cursor F G s)"
  unfolding EnsureNewsgroup_def Let_def if_not_P [OF assms(2)]
  by (rule succeeds_statement) (auto simp: at_rest_def ensure_name_def assms(1) row_def)

lemma succeeds_profile:
  "0 < p \<Longrightarrow> 0 < g \<Longrightarrow> succeeds (at_rest p g seen cursor F G) (UpsertIndexerGroupProfile p g tier) (\<lambda>_. at_rest p g seen cursor F G)"
  unfolding UpsertIndexerGroupProfile_def by (auto intro: succeeds_keep)

lemma succeeds_reads:
  assumes "0 < p" "0 < g"
  shows "succeeds (at_rest p g seen cursor F G) (GetLatestCheckpoint p g) (\<lambda>x s. x = seen \<and> at_rest p g seen cursor F G s)"
    and "succeeds (at_rest p g seen cursor F G) (GetBackfillCheckpoint p g) (\<lambda>x s. x = cursor \<and> at_rest p g seen cursor F G s)"
    and "succeeds (at_rest p g seen cursor F G) (GetBackfillCheckpointState p g) (\<lambda>_. at_rest p g seen cursor F G)"
  using assms unfolding GetLatestCheckpoint_def GetBackfillCheckpoint_def GetBackfillCheckpointState_def
  by (auto intro!: succeeds_statement simp: at_rest_def row_def no_checkpoint_def split: option.split)

lemma succeeds_put:
  assumes "0 < p" "0 < g"
  shows "succeeds (at_rest p g seen cursor F G) (UpsertBackfillCheckpoint p g n) (\<lambda>_. at_rest p g seen (max n 0) F G)"
    and "succeeds (at_rest p g seen cursor F G) (UpsertLatestCheckpoint p g n) (\<lambda>_. at_rest p g (max seen (max n 0)) cursor F G)"
    and "succeeds (at_rest p g seen cursor F G) (SetBackfillCheckpointState p g u b t) (\<lambda>_. at_rest p g seen cursor F G)"
  using assms unfolding UpsertBackfillCheckpoint_def UpsertLatestCheckpoint_def SetBackfillCheckpointState_def
  by (auto intro!: succeeds_statement simp: at_rest_def) (simp_all add: put_checkpoint_def)

lemma succeeds_days:
  "succeeds (at_rest p g seen cursor F G) (upsert_days q h ds) (\<lambda>_. at_rest p g seen cursor F G)"
proof (induction ds)
  case (Cons x ds)
  have "succeeds (at_rest p g seen cursor F G) (upsert_day q h x) (\<lambda>_. at_rest p g seen cursor F G)"
    unfolding upsert_day_def by (cases x) (auto intro!: valid_ret succeeds_keep)
  from valid_pass [OF this Cons.IH] show ?case by simp
qed (auto intro: valid_ret)

lemma succeeds_fetch:
  assumes "0 < p" "0 < g" "answers sv gc st"
  shows "succeeds (at_rest p g seen cursor F G) (fetchInsertRange sv gc p g grp lo hi cutoff (ga_provider st))
    (\<lambda>fr s. fr_provider fr = p \<and> at_rest p g seen cursor (F @ [(p, g, lo, hi)]) G s)"
proof -
  obtain rows key where r: "gc_rows gc lo hi = Inr (rows, key)" using assms(3) unfolding answers_def by blast
  define actual where "actual = (if sv_aware sv then key else sv_provider sv)"
  have ss: "same_server sv gc" and gs: "gc_stats gc = Inr st" using assms(3) by (auto simp: answers_def)
  have same: "\<not> (trim_space actual \<noteq> [] \<and> trim_space (ga_provider st) \<noteq> [] \<and> \<not> equal_fold actual (ga_provider st))"
    by (rule same_answer [OF ss gs r, folded actual_def])
  have insert: "succeeds (at_rest p g seen cursor F G) (InsertArticleHeaders n p g hs) (\<lambda>_. at_rest p g seen cursor F G)" for n hs
    using assms(1,2) unfolding InsertArticleHeaders_def by (auto intro!: valid_ret succeeds_keep)
  have observe: "succeeds (at_rest p g seen cursor F G) (ObserveScrapeRange p g lo hi obs) (\<lambda>_. at_rest p g seen cursor F G)" for obs
    using assms(1,2) unfolding ObserveScrapeRange_def by (auto intro!: valid_ret succeeds_days)
  have noted: "succeeds (at_rest p g seen cursor F G) (note_fetched p g lo hi)
      (\<lambda>_. at_rest p g seen cursor (F @ [(p, g, lo, hi)]) G)"
    by (simp add: valid_def note_fetched_def at_rest_def)
  show ?thesis
    unfolding fetchInsertRange_def r sum.case prod.case Let_def actual_def [symmetric] if_not_P [OF same] pass_ret
    by (rule valid_call [OF insert], rule valid_call [OF observe], rule valid_pass [OF noted], rule valid_ret, simp)
qed

lemma no_deferral: "answers sv gc st \<Longrightarrow> deferRangeWhenRecoveryPressured mode gc p g lo hi = ret False"
  by (simp add: deferRangeWhenRecoveryPressured_def answers_def)

lemma succeeds_no_cutoff:
  assumes "0 < p" "0 < g"
  shows "succeeds (at_rest p g seen cursor F G) (cutoff_state grp p g None state) (\<lambda>b s. \<not> b \<and> at_rest p g seen cursor F G s)"
proof -
  have "succeeds (at_rest p g seen cursor F G) (ret False) (\<lambda>b s. \<not> b \<and> at_rest p g seen cursor F G s)" by (rule valid_ret) simp
  then show ?thesis unfolding cutoff_state_def option.case
    by (intro valid_if) (blast intro: valid_call [OF succeeds_put(3) [OF assms]])+
qed

text \<open>One backfill run, its range and where it leaves the checkpoint.\<close>

definition range_start :: "scrape_service \<Rightarrow> group_stats_answer \<Rightarrow> int \<Rightarrow> int" where
  "range_start sv st hi = max (hi - so_batch (sv_opts sv) + 1) (ga_low st)"

lemma backfill_run:
  fixes seen cursor :: int
  assumes "0 < p" "0 < g" "answers sv gc st" "0 < ga_high st" "so_cutoffs (sv_opts sv) grp = None"
    and "index_from 1 (trim_space grp) G = Some g" "trim_space grp \<noteq> []"
  defines "hi \<equiv> backfill_end (ga_high st) seen cursor"
  shows "succeeds (at_rest p g seen cursor F G) (runBackfillGroup sv gc p grp)
    (\<lambda>r s. if hi < ga_low st then \<not> gr_work r \<and> at_rest p g seen cursor F G s
       else gr_work r \<and> at_rest p g seen (max (range_start sv st hi - 1) 0) (F @ [(p, g, range_start sv st hi, hi)]) G s)"
    (is "succeeds ?A _ ?B")
proof -
  note gc = assms(3) [unfolded answers_def]
  have same: "same_server sv gc" and stats: "gc_stats gc = Inr st" using gc by blast+
  have high: "\<not> ga_high st \<le> 0" using assms(4) by simp
  let ?lo = "range_start sv st hi"
  have lo: "(if hi - so_batch (sv_opts sv) + 1 < ga_low st then ga_low st else hi - so_batch (sv_opts sv) + 1) = ?lo"
    by (simp add: range_start_def)
  have move: "succeeds (\<lambda>s. q = p \<and> at_rest p g seen cursor F' G s)
      (call w (UpsertBackfillCheckpoint q g (if ?lo - 1 < 0 then 0 else ?lo - 1)) (\<lambda>_. ret (r\<lparr>gr_work := True, gr_ranges := 1, gr_headers := a,
         gr_inserted := b, gr_filtered := c, gr_updates := 1\<rparr>)))
      (\<lambda>r s. gr_work r \<and> at_rest p g seen (max (?lo - 1) 0) F' G s)" for q F' r w a b c
  proof (rule valid_when, hypsubst)
    have "max (if ?lo - 1 < 0 then 0 else ?lo - 1) 0 = max (?lo - 1) 0" by simp
    note put = succeeds_put(1) [OF assms(1,2), where n = "if ?lo - 1 < 0 then 0 else ?lo - 1", unfolded this]
    show "succeeds (at_rest p g seen cursor F' G)
        (call w (UpsertBackfillCheckpoint p g (if ?lo - 1 < 0 then 0 else ?lo - 1)) (\<lambda>_. ret (r\<lparr>gr_work := True,
           gr_ranges := 1, gr_headers := a, gr_inserted := b, gr_filtered := c, gr_updates := 1\<rparr>)))
        (\<lambda>r s. gr_work r \<and> at_rest p g seen (max (?lo - 1) 0) F' G s)"
      by (rule valid_call [OF put], rule valid_ret) simp
  qed
  have range: "succeeds ?A (backfill_range sv gc p g grp st None ?lo hi)
     (\<lambda>r s. gr_work r \<and> at_rest p g seen (max (?lo - 1) 0) (F @ [(p, g, ?lo, hi)]) G s)"
    unfolding backfill_range_def Let_def no_deferral [OF assms(3)] pass_ret if_False prod.case option.case
    by (rule valid_pass [OF succeeds_fetch [OF assms(1-3)]]) (rule move)
  have body: "succeeds (\<lambda>s. \<not> finished \<and> ?A s) (if finished \<or> hi < ga_low st then ret no_result
         else backfill_range sv gc p g grp st None ?lo hi) ?B" for finished
  proof (cases "finished \<or> hi < ga_low st")
    case True
    then show ?thesis by (auto intro: valid_ret simp: no_result_def)
  next
    case False
    with range show ?thesis by simp
  qed
  have group: "succeeds ?A (backfill_of_group sv gc p grp g) ?B"
    unfolding backfill_of_group_def stats sum.case same_provider [OF same stats] pass_ret if_not_P [OF high] assms(5)
    by (rule valid_pass [OF succeeds_profile [OF assms(1,2)]], rule valid_call [OF succeeds_reads(1) [OF assms(1,2)]],
        rule valid_when, hypsubst, rule valid_call [OF succeeds_reads(2) [OF assms(1,2)]], rule valid_when, hypsubst,
        rule valid_call [OF succeeds_reads(3) [OF assms(1,2)]], rule valid_pass [OF succeeds_no_cutoff [OF assms(1,2)]],
        unfold Let_def hi_def [symmetric] lo, rule body)
  have "succeeds (\<lambda>s. h = g \<and> ?A s) (backfill_of_group sv gc p grp h) ?B" for h
    by (rule valid_when, hypsubst, rule group)
  then show ?thesis unfolding runBackfillGroup_def by (rule valid_call [OF succeeds_ensure [OF assms(6,7)]])
qed

text \<open>The backfill runs of a group in turn.\<close>

abbreviation older_run :: "scrape_service \<Rightarrow> group_call \<Rightarrow> int \<Rightarrow> string \<Rightarrow> scrape_db \<Rightarrow> scrape_db" where
  "older_run sv gc p grp s \<equiv> snd (runBackfillGroup sv gc p grp s)"

definition fetched_in :: "int \<Rightarrow> int \<Rightarrow> int \<Rightarrow> (int \<times> int \<times> int \<times> int) list \<Rightarrow> bool" where
  "fetched_in p g n F \<longleftrightarrow> (\<exists>lo hi. (p, g, lo, hi) \<in> set F \<and> lo \<le> n \<and> n \<le> hi)"

lemma older_step:
  fixes seen cursor :: int
  assumes "0 < p" "0 < g" "answers sv gc st" "0 < ga_high st" "so_cutoffs (sv_opts sv) grp = None"
    and "index_from 1 (trim_space grp) G = Some g" "trim_space grp \<noteq> []" "at_rest p g seen cursor F G s"
  shows "backfill_end (ga_high st) seen cursor < ga_low st \<Longrightarrow>
      at_rest p g seen cursor F G (older_run sv gc p grp s) \<and>
      (\<exists>r. fst (runBackfillGroup sv gc p grp s) = Inr r \<and> \<not> gr_work r)"
    and "\<not> backfill_end (ga_high st) seen cursor < ga_low st \<Longrightarrow>
      (let hi = backfill_end (ga_high st) seen cursor; lo = range_start sv st hi
       in at_rest p g seen (max (lo - 1) 0) (F @ [(p, g, lo, hi)]) G (older_run sv gc p grp s))"
  using backfill_run [OF assms(1-7), of seen cursor F, unfolded valid_def, rule_format, OF assms(8)]
  by (auto simp: Let_def split: prod.splits sum.splits if_splits)

lemma backfills_reach_low:
  assumes "0 < p" "0 < g" "answers sv gc st" "0 < ga_high st" "so_cutoffs (sv_opts sv) grp = None"
    and "index_from 1 (trim_space grp) G = Some g" "trim_space grp \<noteq> []" "0 < so_batch (sv_opts sv)" "1 < ga_low st"
  shows "at_rest p g seen cursor F G s \<Longrightarrow> hi = backfill_end (ga_high st) seen cursor \<Longrightarrow> ga_low st \<le> hi + 1 \<Longrightarrow>
    \<exists>c F'. at_rest p g seen c F' G ((older_run sv gc p grp ^^ nat ((hi - ga_low st) div so_batch (sv_opts sv) + 1)) s) \<and>
      backfill_end (ga_high st) seen c < ga_low st \<and> set F \<subseteq> set F' \<and> (\<forall>n. ga_low st \<le> n \<and> n \<le> hi \<longrightarrow> fetched_in p g n F')"
proof (induction "nat (hi - ga_low st + 1)" arbitrary: hi cursor F s rule: less_induct)
  case less
  let ?b = "so_batch (sv_opts sv)" and ?low = "ga_low st" and ?high = "ga_high st"
  let ?run = "older_run sv gc p grp"
  show ?case
  proof (cases "hi < ?low")
    case True
    with less.prems(3) have "hi - ?low = - 1" by simp
    with assms(8) have "(?run ^^ nat ((hi - ?low) div ?b + 1)) s = s" by (simp add: div_eq_minus1)
    with less.prems(1,2) True show ?thesis by (intro exI [of _ cursor] exI [of _ F]) auto
  next
    case False
    define lo where "lo = range_start sv st hi"
    have h: "hi \<le> ?high" using less.prems(2) by (simp add: backfill_end_def Let_def)
    have lo: "lo = max (hi - ?b + 1) ?low" by (simp add: lo_def range_start_def)
    from older_step(2) [OF assms(1-7) less.prems(1)] False less.prems(2)
    have step: "at_rest p g seen (max (lo - 1) 0) (F @ [(p, g, lo, hi)]) G (?run s)"
      by (simp add: Let_def lo_def)
    have m: "max (lo - 1) 0 = lo - 1" "lo - 1 \<noteq> 0" "lo - 1 < hi" using lo assms(8,9) False by auto
    have e: "lo - 1 = backfill_end ?high seen (max (lo - 1) 0)"
      using m h by (simp add: backfill_end_def Let_def)
    have "nat (lo - 1 - ?low + 1) < nat (hi - ?low + 1)" "?low \<le> lo - 1 + 1" using m False lo by auto
    from less.hyps [OF this(1) step e this(2)]
    obtain c F' where c: "at_rest p g seen c F' G ((?run ^^ nat ((lo - 1 - ?low) div ?b + 1)) (?run s))"
      "backfill_end ?high seen c < ?low" "set (F @ [(p, g, lo, hi)]) \<subseteq> set F'"
      "\<forall>n. ?low \<le> n \<and> n \<le> lo - 1 \<longrightarrow> fetched_in p g n F'" by blast
    have k: "nat ((hi - ?low) div ?b + 1) = Suc (nat ((lo - 1 - ?low) div ?b + 1))"
    proof (cases "hi - ?b + 1 \<le> ?low")
      case True
      then have "lo = ?low" "(hi - ?low) div ?b = 0" using lo False by (auto simp: div_pos_pos_trivial)
      moreover have "(lo - 1 - ?low) div ?b = - 1" using \<open>lo = ?low\<close> assms(8) by (simp add: div_eq_minus1)
      ultimately show ?thesis by simp
    next
      case False
      then have "lo = hi - ?b + 1" using lo by simp
      then have h: "hi - ?low = (lo - 1 - ?low) + ?b" by simp
      have "(hi - ?low) div ?b = (lo - 1 - ?low) div ?b + 1"
        unfolding h by (rule div_add_self2) (use assms(8) in simp)
      moreover have "0 \<le> (lo - 1 - ?low) div ?b" using False lo assms(8) by (simp add: pos_imp_zdiv_nonneg_iff)
      ultimately show ?thesis by simp
    qed
    have "fetched_in p g n F'" if "?low \<le> n" "n \<le> hi" for n
    proof (cases "n < lo")
      case False
      with c(3) that show ?thesis unfolding fetched_in_def by (intro exI [of _ lo] exI [of _ hi]) simp
    qed (use c(4) that in simp)
    moreover have "at_rest p g seen c F' G ((?run ^^ nat ((hi - ?low) div ?b + 1)) s)"
      using c(1) unfolding k funpow_Suc_right o_apply .
    ultimately show ?thesis using c(2,3) by auto
  qed
qed

section \<open>A concrete group\<close>

definition demo_row :: "int \<Rightarrow> int \<Rightarrow> overview_row" where
  "demo_row n t = \<lparr>ow_number = n, ow_id = ''<m>'', ow_subject = [], ow_poster = [], ow_date = Some t, ow_bytes = 0,
     ow_lines = 0, ow_xref = [], ow_raw = []\<rparr>"

definition demo_service :: "int option \<Rightarrow> scrape_service" where
  "demo_service cutoff = NewService ''p'' False \<lparr>so_groups = [''a.b''], so_batch = 2, so_concurrency = 1, so_max_batches = 1,
     so_cutoffs = \<lambda>_. cutoff\<rparr>"

definition demo_call :: "int \<Rightarrow> int \<Rightarrow> group_call" where
  "demo_call low high = \<lparr>gc_stats = Inr \<lparr>ga_low = low, ga_high = high, ga_provider = ''p''\<rparr>,
     gc_rows = \<lambda>lo hi. Inr ([demo_row lo (lo * 1000)], ''p''), gc_snapshot = Inr None, gc_new = \<lambda>hs. 0\<rparr>"

definition demo_db :: scrape_db where
  "demo_db = \<lparr>db_fails = [], db_providers = [''p''], db_groups = [''a.b''], db_checkpoints = (\<lambda>_. None), db_deferred = [],
     db_days = (\<lambda>_. None), db_inserted = [], db_profiles = (\<lambda>_. None), db_runs = [], db_fetched = []\<rparr>"

definition demo_run :: "int option \<Rightarrow> scrape_mode \<Rightarrow> int \<Rightarrow> int \<Rightarrow> scrape_db \<Rightarrow> scrape_db" where
  "demo_run cutoff mode low high s = snd (runGroup (demo_service cutoff) mode (demo_call low high) 1 ''a.b'' s)"

lemma demo_answers: "answers (demo_service cutoff) (demo_call low high) \<lparr>ga_low = low, ga_high = high, ga_provider = ''p''\<rparr>"
  by (auto simp: answers_def same_server_def demo_service_def demo_call_def NewService_def equal_fold_def)



lemma demo_values:
  "so_batch (sv_opts (demo_service cutoff)) = 2" "so_cutoffs (sv_opts (demo_service cutoff)) grp = cutoff"
  "index_from 1 (trim_space ''a.b'') [''a.b''] = Some 1" "trim_space ''a.b'' \<noteq> []"
  by (simp_all add: demo_service_def NewService_def) code_simp+

lemma demo_older:
  assumes "at_rest 1 1 seen cursor F [''a.b''] s" "0 < high" "low \<le> backfill_end high seen cursor"
  shows "at_rest 1 1 seen (max (max (backfill_end high seen cursor - 1) low - 1) 0)
    (F @ [(1, 1, max (backfill_end high seen cursor - 1) low, backfill_end high seen cursor)]) [''a.b''] (demo_run None Backfill low high s)"
  using older_step(2) [OF _ _ demo_answers _ demo_values(2,3,4) assms(1)] assms(2,3)
  by (simp add: Let_def range_start_def demo_values demo_run_def runGroup_def)


text \<open>If the server counts its articles from one, a backfill never ends: the run that fetches article one leaves the checkpoint
  at zero, which the next run takes for a backfill that has not begun, so it fetches again the articles right
  below the latest checkpoint.\<close>

theorem backfill_at_one_starts_over:
  assumes "0 < p" "0 < g" "answers sv gc st" "so_cutoffs (sv_opts sv) grp = None"
    and "index_from 1 (trim_space grp) G = Some g" "trim_space grp \<noteq> []"
    and "ga_low st = 1" "0 < cursor" "cursor \<le> so_batch (sv_opts sv)" "cursor \<le> ga_high st" "1 < seen" "seen \<le> ga_high st"
    and "at_rest p g seen cursor F G s"
  shows "ck_backfill (row p g (older_run sv gc p grp s)) = 0 \<and>
    db_fetched (older_run sv gc p grp (older_run sv gc p grp s)) =
      F @ [(p, g, 1, cursor), (p, g, max (seen - so_batch (sv_opts sv)) 1, seen - 1)]"
proof -
  have high: "0 < ga_high st" using assms by simp
  note step = older_step(2) [OF assms(1-3) high assms(4-6)]
  have "backfill_end (ga_high st) seen cursor = cursor" "range_start sv st cursor = 1"
    using assms by (auto simp: backfill_end_def Let_def range_start_def)
  with step [OF assms(13)] assms have one: "at_rest p g seen 0 (F @ [(p, g, 1, cursor)]) G (older_run sv gc p grp s)"
    by (simp add: Let_def)
  have "backfill_end (ga_high st) seen 0 = seen - 1" "range_start sv st (seen - 1) = max (seen - so_batch (sv_opts sv)) 1"
    using assms by (auto simp: backfill_end_def Let_def range_start_def)
  with step [OF one] assms(7,11) one show ?thesis by (simp add: Let_def at_rest_def)
qed


lemma backfill_at_one_starts_over_witness:
  "let sv = demo_service None; gc = demo_call 1 6; run = demo_run None;
       s = run Backfill 1 6 (run Backfill 1 6 (run Latest 1 6 demo_db)) in
   ck_backfill (row 1 1 (older_run sv gc 1 ''a.b'' s)) = 0 \<and>
   db_fetched (older_run sv gc 1 ''a.b'' (older_run sv gc 1 ''a.b'' s)) =
     [(1, 1, 5, 6), (1, 1, 4, 5), (1, 1, 2, 3), (1, 1, 1, 1), (1, 1, 4, 5)]"
proof -
  have "at_rest 1 1 6 0 [(1, 1, 5, 6)] [''a.b''] (demo_run None Latest 1 6 demo_db)" by code_simp
  from demo_older [OF demo_older [OF this, of 6 1], of 6 1]
  have "at_rest 1 1 6 1 [(1, 1, 5, 6), (1, 1, 4, 5), (1, 1, 2, 3)] [''a.b'']
      (demo_run None Backfill 1 6 (demo_run None Backfill 1 6 (demo_run None Latest 1 6 demo_db)))"
    by (simp add: backfill_end_def range_start_def demo_values)
  from backfill_at_one_starts_over [OF _ _ demo_answers [of None 1 6] demo_values(2-4) _ _ _ _ _ _ this] show ?thesis
    by (simp add: demo_values Let_def)
qed

section \<open>No gaps\<close>


lemma demo_history:
  assumes "scrape_history (demo_service cutoff) 1 1 low high s" "fst (EnsureNewsgroup ''a.b'' s) = Inr 1"
    and "low \<le> l" "high \<le> h" "l \<le> h + 1" "mode = Latest \<or> 0 < ck_last (row 1 1 s)"
  shows "scrape_history (demo_service cutoff) 1 1 l h (demo_run cutoff mode l h s)"
  using scrape_history.answered [OF assms(1,2), of "demo_call l h", OF _ _ _ _ _ assms(6)] assms(3-5) demo_answers [of cutoff l h]
  by (simp add: answers_def demo_run_def)


section \<open>Where articles are lost\<close>

text \<open>A backfill that runs before the newest articles were fetched leaves a hole: it starts at the highest number of that moment;
  the first fetch of the newest articles later starts one batch below the then highest number and takes no notice, so the
  numbers in between are neither fetched nor deferred, and both checkpoints have moved past them.\<close>

theorem cold_start_leaves_a_hole:
  "let s = demo_run None Latest 1 9 (demo_run None Backfill 1 4 demo_db)
   in db_fetched s = [(1, 1, 3, 4), (1, 1, 8, 9)] \<and> db_deferred s = [] \<and> ck_backfill (row 1 1 s) = 2 \<and> ck_last (row 1 1 s) = 9"
  by code_simp

section \<open>Finished groups\<close>

text \<open>Some provider has reached the cutoff date in the group.\<close>

definition cutoff_reached :: "int \<Rightarrow> int \<Rightarrow> scrape_db \<Rightarrow> bool" where
  "cutoff_reached g date s \<longleftrightarrow> list_ex (cutoff_reached_by s g date) (map int [1..<Suc (length (db_providers s))])"

text \<open>Operations that take no cutoff mark away.\<close>

definition marks_kept :: "'a db \<Rightarrow> bool" where
  "marks_kept m \<longleftrightarrow> (\<forall>s. length (db_providers s) \<le> length (db_providers (snd (m s))) \<and>
     (\<forall>k c. db_checkpoints s k = Some c \<and> ck_reached c \<longrightarrow>
        (\<exists>c'. db_checkpoints (snd (m s)) k = Some c' \<and> ck_reached c' \<and> ck_until c' = ck_until c)))"

lemma marks_reached:
  assumes "marks_kept m" "cutoff_reached g date s" shows "cutoff_reached g date (snd (m s))"
proof -
  obtain k c where "1 \<le> k" "k \<le> length (db_providers s)" "db_checkpoints s (int k, g) = Some c" "ck_reached c" "ck_until c = Some date"
    using assms(2) by (auto simp: cutoff_reached_def list_ex_iff cutoff_reached_by_def split: option.splits)
  with assms(1) show ?thesis
    unfolding cutoff_reached_def list_ex_iff cutoff_reached_by_def marks_kept_def
    by (fastforce intro!: bexI [of _ "int k"])
qed

lemma marks_then:
  assumes "marks_kept m" "\<And>x. marks_kept (k x)"
  shows "marks_kept (pass m k)" "marks_kept (call what m k)"
proof -
  have "length (db_providers s) \<le> length (db_providers (snd (n s))) \<and>
     (\<forall>i c. db_checkpoints s i = Some c \<and> ck_reached c \<longrightarrow>
        (\<exists>c'. db_checkpoints (snd (n s)) i = Some c' \<and> ck_reached c' \<and> ck_until c' = ck_until c))"
    if "n = pass m k \<or> n = call what m k" for n s
  proof (cases "m s")
    case (Pair r s')
    have *: "snd (n s) = (case r of Inl e \<Rightarrow> s' | Inr x \<Rightarrow> snd (k x s'))"
      using that Pair by (cases r) (auto simp: pass_def call_def)
    have 1: "length (db_providers s) \<le> length (db_providers s')"
      "\<And>i c. db_checkpoints s i = Some c \<Longrightarrow> ck_reached c \<Longrightarrow>
         \<exists>c'. db_checkpoints s' i = Some c' \<and> ck_reached c' \<and> ck_until c' = ck_until c"
      using assms(1) Pair unfolding marks_kept_def by (metis snd_conv)+
    show ?thesis
    proof (cases r)
      case (Inr x)
      have "length (db_providers s') \<le> length (db_providers (snd (k x s')))"
        "\<And>i c. db_checkpoints s' i = Some c \<Longrightarrow> ck_reached c \<Longrightarrow>
         \<exists>c'. db_checkpoints (snd (k x s')) i = Some c' \<and> ck_reached c' \<and> ck_until c' = ck_until c"
        using assms(2) unfolding marks_kept_def by blast+
      with 1 show ?thesis unfolding * Inr by (metis (no_types, lifting) old.sum.simps(6) order_trans)
    qed (use 1 * in auto)
  qed
  then show "marks_kept (pass m k)" "marks_kept (call what m k)" by (simp_all add: marks_kept_def)
qed

lemma marks_if: "marks_kept m \<Longrightarrow> marks_kept m' \<Longrightarrow> marks_kept (if b then m else m')"
  by simp

lemma marks_simple: "marks_kept (ret x)" "marks_kept (throw e)" "marks_kept (note_fetched p g lo hi)"
  by (simp_all add: marks_kept_def ret_def throw_def note_fetched_def)

lemma marks_statement:
  assumes "\<And>s. length (db_providers s) \<le> length (db_providers (snd (f s)))"
    and "\<And>s k c. db_checkpoints s k = Some c \<Longrightarrow> ck_reached c \<Longrightarrow>
      \<exists>c'. db_checkpoints (snd (f s)) k = Some c' \<and> ck_reached c' \<and> ck_until c' = ck_until c"
  shows "marks_kept (statement what f)"
  unfolding marks_kept_def
proof (intro allI conjI impI; (elim conjE)?)
  fix s
  show "length (db_providers s) \<le> length (db_providers (snd (statement what f s)))"
    using assms(1) [of "s\<lparr>db_fails := fs\<rparr>" for fs] assms(1) [of s]
    by (auto simp: statement_def split_beta split: list.split option.split)
  fix k c
  assume "db_checkpoints s k = Some c" "ck_reached c"
  then show "\<exists>c'. db_checkpoints (snd (statement what f s)) k = Some c' \<and> ck_reached c' \<and> ck_until c' = ck_until c"
    using assms(2) [of "s\<lparr>db_fails := fs\<rparr>" k c for fs] assms(2) [of s k c]
    by (auto simp: statement_def split_beta split: list.split option.split)
qed

lemma marks_put:
  assumes "\<And>c. ck_reached (f c) = ck_reached c" "\<And>c. ck_until (f c) = ck_until c"
  shows "marks_kept (statement what (\<lambda>s. ((), put_checkpoint p g f s)))"
  by (rule marks_statement) (auto simp: put_checkpoint_def assms)

lemma ensure_longer: "length xs \<le> length (snd (ensure_name x xs))"
  by (simp add: ensure_name_def split: option.split)

lemma marks_operations:
  "marks_kept (EnsureProvider key)" "marks_kept (EnsureNewsgroup grp)" "marks_kept (UpsertIndexerGroupProfile p g tier)"
  "marks_kept (InsertArticleHeaders n p g hs)" "marks_kept (GetLatestCheckpoint p g)" "marks_kept (GetBackfillCheckpoint p g)"
  "marks_kept (GetBackfillCheckpointState p g)" "marks_kept (UpsertLatestCheckpoint p g n)"
  "marks_kept (UpsertBackfillCheckpoint p g n)" "marks_kept (UpsertDeferredArticleRange x)"
  unfolding EnsureProvider_def EnsureNewsgroup_def UpsertIndexerGroupProfile_def InsertArticleHeaders_def
    GetLatestCheckpoint_def GetBackfillCheckpoint_def GetBackfillCheckpointState_def UpsertLatestCheckpoint_def
    UpsertBackfillCheckpoint_def UpsertDeferredArticleRange_def Let_def
  by (intro marks_if marks_simple marks_put marks_statement; simp add: split_beta ensure_longer)+

lemma marks_days: "marks_kept (upsert_days p g ds)"
proof (induction ds)
  case (Cons x ds)
  have "marks_kept (upsert_day p g x)" unfolding upsert_day_def
    by (cases x) (auto intro!: marks_simple marks_statement)
  from marks_then(1) [OF this Cons.IH] show ?case by simp
qed (simp add: marks_simple)

lemma marks_fetch: "marks_kept (fetchInsertRange sv gc p g grp lo hi cutoff expected)"
  unfolding fetchInsertRange_def Let_def effectiveProviderID_def ObserveScrapeRange_def
  by (split sum.split, intro conjI allI impI marks_simple, split prod.split,
      intro allI impI marks_then marks_if marks_simple marks_operations marks_days)

lemma marks_latest_group: "marks_kept (latest_of_group sv gc p grp g)"
proof (cases "gc_stats gc")
  case (Inr st)
  have d: "marks_kept (deferRangeWhenRecoveryPressured mode gc p g lo hi)" for mode p lo hi
    unfolding deferRangeWhenRecoveryPressured_def Let_def
    by (intro marks_if marks_simple, split sum.split, intro conjI allI impI marks_simple,
      split option.split, intro conjI allI impI marks_if marks_simple marks_then marks_operations)
  show ?thesis unfolding latest_of_group_def Inr sum.case Let_def effectiveProviderID_def latest_start_def
    by (intro marks_if marks_then marks_simple marks_operations marks_fetch d)
qed (simp add: latest_of_group_def marks_simple)

lemma marks_latest: "marks_kept (runLatestGroup sv gc p grp)"
  unfolding runLatestGroup_def by (intro marks_then marks_operations marks_latest_group)

text \<open>The backfill of a finished group.\<close>

definition finished_with :: "int \<Rightarrow> int \<Rightarrow> (int \<times> int \<times> int \<times> int) list \<Rightarrow> scrape_db \<Rightarrow> bool" where
  "finished_with g date F s \<longleftrightarrow> cutoff_reached g date s \<and> db_fetched s = F"

lemma finished_quiet:
  assumes "quiet m" "marks_kept m"
  shows "valid (finished_with g date F) m (\<lambda>_. finished_with g date F) (finished_with g date F)"
  unfolding valid_def
proof (intro allI impI)
  fix s assume "finished_with g date F s"
  with marks_reached [OF assms(2), of g date s] assms(1) have "finished_with g date F (snd (m s))"
    by (simp add: finished_with_def quiet_def)
  then show "case m s of (Inl e, s') \<Rightarrow> finished_with g date F s' | (Inr x, s') \<Rightarrow> finished_with g date F s'"
    by (auto split: prod.split sum.split)
qed

lemma finished_reached:
  "valid (finished_with g date F) (HasBackfillCutoffReachedForGroup g date) (\<lambda>b s. b \<and> finished_with g date F s) (finished_with g date F)"
proof -
  have "cutoff_reached g date (s\<lparr>db_fails := fs\<rparr>) = cutoff_reached g date s" for s fs
    by (simp add: cutoff_reached_def cutoff_reached_by_def list_ex_iff)
  then show ?thesis unfolding HasBackfillCutoffReachedForGroup_def cutoff_reached_def [symmetric]
    by (intro valid_if valid_throw valid_statement) (simp_all add: finished_with_def)
qed

lemma finished_group:
  assumes "so_cutoffs (sv_opts sv) grp = Some date"
  shows "valid (finished_with g date F) (backfill_of_group sv gc p grp g) (\<lambda>_. finished_with g date F) (finished_with g date F)"
    (is "valid ?P _ _ _")
proof (cases "gc_stats gc")
  case (Inr st)
  have prov: "valid ?P (effectiveProviderID sv p key) (\<lambda>_. ?P) ?P" for key
    by (rule finished_quiet [OF quiet_provider])
       (auto simp: effectiveProviderID_def Let_def intro!: marks_then marks_simple marks_operations)
  have body: "valid (\<lambda>s. b \<and> ?P s) (if b \<or> c then ret no_result else m) (\<lambda>_. ?P) ?P" for b c m
    by (rule valid_when) (simp add: valid_ret)
  have state: "valid ?P (cutoff_state grp q g (Some date) state) (\<lambda>b s. b \<and> ?P s) ?P" for q state
    unfolding cutoff_state_def option.case
    by (rule valid_call [OF finished_reached], rule valid_when) (simp add: valid_ret)
  show ?thesis
    unfolding backfill_of_group_def Inr sum.case assms
    by (rule valid_pass [OF prov], rule valid_pass [OF finished_quiet [OF quiet_operations(3) marks_operations(3)]],
        rule valid_if, rule valid_ret, assumption,
        rule valid_call [OF finished_quiet [OF quiet_reads(1) marks_operations(5)]],
        rule valid_call [OF finished_quiet [OF quiet_reads(2) marks_operations(6)]],
        rule valid_call [OF finished_quiet [OF quiet_reads(3) marks_operations(7)]],
        rule valid_pass [OF state], unfold Let_def, rule body)
qed (simp add: backfill_of_group_def valid_throw)

text \<open>Once a provider has reached the cutoff date of a group, its backfill is over, and nothing ends that: no fetch of
  newest articles takes the mark away, and every backfill run leaves what has been fetched as it is.
  So a gap found later, which the fetch of the newest articles leaves to the backfill by moving the
  backfill checkpoint up, is never fetched.\<close>

theorem finished_backfill_fetches_nothing:
  assumes "cutoff_reached g date s" "fst (EnsureNewsgroup grp s) = Inr g" "so_cutoffs (sv_opts sv) grp = Some date"
  shows "db_fetched (older_run sv gc p grp s) = db_fetched s \<and> cutoff_reached g date (older_run sv gc p grp s) \<and>
    cutoff_reached g date (snd (runLatestGroup sv' gc' q grp' s))"
proof -
  let ?s = "snd (EnsureNewsgroup grp s)"
  have run: "older_run sv gc p grp s = snd (backfill_of_group sv gc p grp g ?s)"
    using assms(2) by (cases "EnsureNewsgroup grp s") (auto simp: runBackfillGroup_def call_def)
  have "finished_with g date (db_fetched s) s" by (simp add: finished_with_def assms(1))
  from after_valid [OF finished_quiet [OF quiet_operations(2) marks_operations(2)] this]
  have "finished_with g date (db_fetched s) ?s" .
  from after_valid [OF finished_group [OF assms(3)] this] have "finished_with g date (db_fetched s) (older_run sv gc p grp s)"
    unfolding run .
  with marks_reached [OF marks_latest assms(1)] show ?thesis by (simp add: finished_with_def)
qed

definition finished_db :: scrape_db where
  "finished_db = demo_db\<lparr>db_checkpoints := [(1, 1) \<mapsto> no_checkpoint\<lparr>ck_last := 4, ck_backfill := 3,
     ck_until := Some 3500, ck_reached := True\<rparr>]\<rparr>"

lemma finished_backfill_fetches_nothing_witness:
  "let t = demo_run (Some 3500) Latest 1 9 finished_db in
   cutoff_reached 1 3500 t \<and>
   db_fetched (older_run (demo_service (Some 3500)) (demo_call 1 9) 1 ''a.b'' finished_db) = db_fetched finished_db"
proof -
  have "cutoff_reached 1 3500 finished_db" by code_simp
  moreover have "fst (EnsureNewsgroup ''a.b'' finished_db) = Inr 1" by code_simp
  moreover have "so_cutoffs (sv_opts (demo_service (Some 3500))) ''a.b'' = Some 3500" by (simp add: demo_values)
  ultimately show ?thesis
    using finished_backfill_fetches_nothing [of 1 3500 finished_db "''a.b''" "demo_service (Some 3500)" "demo_call 1 9" 1
      "demo_service (Some 3500)" "demo_call 1 9" 1 "''a.b''"]
    by (simp add: demo_run_def runGroup_def)
qed

end
