(* ===== verification/Go_Effects.thy ===== *)
theory Go_Effects
  imports Go_Prelude
begin

text \<open>
  Operations on a state that return an error or a value, as the accounts and the post-processing use them:
  \<open>give x\<close> returns \<open>x\<close>, \<open>refuse e\<close> an error; \<open>attempt m k\<close>: an error of \<open>m\<close> is returned, otherwise \<open>k\<close> goes on;
  \<open>regardless m k\<close>: \<open>k\<close> goes on with the outcome, whatever it is.
\<close>

type_synonym ('s, 'e, 'a) op = "'s \<Rightarrow> ('e + 'a) \<times> 's"

definition give :: "'a \<Rightarrow> ('s, 'e, 'a) op" where "give x s = (Inr x, s)"

definition refuse :: "'e \<Rightarrow> ('s, 'e, 'a) op" where "refuse e s = (Inl e, s)"

definition attempt :: "('s, 'e, 'a) op \<Rightarrow> ('a \<Rightarrow> ('s, 'e, 'b) op) \<Rightarrow> ('s, 'e, 'b) op" where
  "attempt m k s = (case m s of (Inl e, s') \<Rightarrow> (Inl e, s') | (Inr x, s') \<Rightarrow> k x s')"

definition regardless :: "('s, 'e, 'a) op \<Rightarrow> ('e + 'a \<Rightarrow> ('s, 'f, 'b) op) \<Rightarrow> ('s, 'f, 'b) op" where
  "regardless m k s = (case m s of (r, s') \<Rightarrow> k r s')"

text \<open>\<open>map_error f m\<close> changes the error; \<open>deferring c m\<close> is a deferred call.\<close>

definition map_error :: "('e \<Rightarrow> 'f) \<Rightarrow> ('s, 'e, 'a) op \<Rightarrow> ('s, 'f, 'a) op" where
  "map_error f m s = (case m s of (Inl e, s') \<Rightarrow> (Inl (f e), s') | (Inr x, s') \<Rightarrow> (Inr x, s'))"

definition deferring :: "('s, 'f, 'b) op \<Rightarrow> ('s, 'e, 'a) op \<Rightarrow> ('s, 'e, 'a) op" where
  "deferring c m s = (case m s of (r, s') \<Rightarrow> (r, snd (c s')))"

lemma attempt_Inr: "attempt m k s = (Inr y, t) \<Longrightarrow> \<exists>x u. m s = (Inr x, u) \<and> k x u = (Inr y, t)"
  by (auto simp: attempt_def split: prod.splits sum.splits)

lemma regardless_eq: "regardless m k s = k (fst (m s)) (snd (m s))"
  by (simp add: regardless_def split_beta)

lemma attemptE:
  assumes "attempt m k s = (r, t)"
  obtains (fails) e where "m s = (Inl e, t)" "r = Inl e" | (goes_on) x u where "m s = (Inr x, u)" "k x u = (r, t)"
  using assms by (auto simp: attempt_def split: prod.splits sum.splits)

lemma regardlessE:
  assumes "regardless m k s = (r, t)"
  obtains x u where "m s = (x, u)" "k x u = (r, t)"
  using assms by (auto simp: regardless_def split: prod.splits)

lemma map_errorE:
  assumes "map_error f m s = (r, t)"
  obtains (fails) e where "m s = (Inl e, t)" "r = Inl (f e)" | (goes_on) x where "m s = (Inr x, t)" "r = Inr x"
  using assms by (auto simp: map_error_def split: prod.splits sum.splits)

lemma attempt_assoc: "attempt (attempt m k) h = attempt m (\<lambda>x. attempt (k x) h)"
  by (rule ext) (simp add: attempt_def split: prod.split sum.split)

lemma attempt_regardless: "attempt (regardless m k) h = regardless m (\<lambda>r. attempt (k r) h)"
  by (rule ext) (simp add: attempt_def regardless_def split: prod.split)

lemma attempt_give [simp]: "attempt (give x) h = h x"
  by (rule ext) (simp add: attempt_def give_def)

text \<open>What every step keeps, a composition keeps: \<open>R\<close> relates the state before to the state after.\<close>

definition steps_within :: "('s \<Rightarrow> 's \<Rightarrow> bool) \<Rightarrow> ('s, 'e, 'a) op \<Rightarrow> bool" where
  "steps_within R m \<longleftrightarrow> (\<forall>s. R s (snd (m s)))"

lemma steps_attempt:
  assumes "transp R" "steps_within R m" "\<And>x. steps_within R (k x)"
  shows "steps_within R (attempt m k)"
  unfolding steps_within_def
proof
  fix s
  have "R s (snd (m s))" "\<And>x. R (snd (m s)) (snd (k x (snd (m s))))" using assms(2,3) by (simp_all add: steps_within_def)
  with transpD [OF assms(1)] show "R s (snd (attempt m k s))"
    by (cases "m s"; cases "fst (m s)") (auto simp: attempt_def)
qed

lemma steps_regardless:
  assumes "transp R" "steps_within R m" "\<And>x. steps_within R (k x)"
  shows "steps_within R (regardless m k)"
  using assms transpD [OF assms(1)] unfolding steps_within_def regardless_eq by blast

end
