(* ===== verification/Auth_Store.thy ===== *)
theory Auth_Store
  imports Go_Effects "HOL-Library.List_Lexorder" "HOL-Library.Char_ord" "HOL-Library.Product_Lexorder"
begin

text \<open>
  The tables of accounts (\<open>store/settings/auth_store.go\<close>): users, roles, who has which role, sessions and
  API tokens. A table is the list of its rows in the order of insertion, an operation a function on the tables that
  returns an error or a value; times are instants in nanoseconds. SQLite does not enforce foreign keys
  unless a connection asks for it (\<open>PRAGMA foreign_keys\<close>), and \<open>NewStore\<close> does not: the
  \<open>ON DELETE CASCADE\<close> of the schema has no effect. Primary keys and \<open>UNIQUE\<close> are enforced.

  \<open>au_fails\<close> says, for the statements (or transactions) to come, whether the database fails; when the list is used
  up it does not.
\<close>

section \<open>Rows\<close>

datatype auth_error =
    InvalidCredentials | Unauthorized | Forbidden | SetupRequiredFirst | SetupCompleted | Refused string | StoreFailed

record auth_user =
  us_id :: string
  us_name :: string
  us_hash :: string
  us_enabled :: bool
  us_roles :: "string list"
  us_created :: "int option"
  us_updated :: "int option"

record auth_role =
  ro_id :: string
  ro_name :: string
  ro_builtin :: bool
  ro_perms :: "string list"
  ro_created :: "int option"
  ro_updated :: "int option"

record auth_session =
  se_id :: string
  se_user :: string
  se_expires :: int
  se_created :: int
  se_seen :: int

record api_token =
  tk_id :: string
  tk_user :: string
  tk_name :: string
  tk_prefix :: string
  tk_hash :: string
  tk_created :: int
  tk_used :: "int option"
  tk_revoked :: "int option"

record auth_db =
  au_fails :: "bool list"
  au_users :: "auth_user list"
  au_roles :: "auth_role list"
  au_grants :: "(string \<times> string) list"
  au_sessions :: "auth_session list"
  au_tokens :: "api_token list"

type_synonym 'a auth = "auth_db \<Rightarrow> (auth_error + 'a) \<times> auth_db"

section \<open>Statements\<close>

definition query :: "(auth_db \<Rightarrow> 'a) \<Rightarrow> 'a auth" where
  "query f s =
     (case au_fails s of
        [] \<Rightarrow> (Inr (f s), s)
      | b # bs \<Rightarrow> (if b then Inl StoreFailed else Inr (f s), s\<lparr>au_fails := bs\<rparr>))"

text \<open>An \<open>INSERT\<close>, \<open>UPDATE\<close> or \<open>DELETE\<close>, or a whole transaction of them; \<open>Inl\<close>: a constraint or the program refuses it.\<close>

definition exec :: "(auth_db \<Rightarrow> auth_error + auth_db) \<Rightarrow> unit auth" where
  "exec f s =
     (case au_fails s of
        [] \<Rightarrow> (case f s of Inl e \<Rightarrow> (Inl e, s) | Inr s' \<Rightarrow> (Inr (), s'))
      | b # bs \<Rightarrow>
          (let s = s\<lparr>au_fails := bs\<rparr>
           in if b then (Inl StoreFailed, s)
              else (case f s of Inl e \<Rightarrow> (Inl e, s) | Inr s' \<Rightarrow> (Inr (), s'))))"

section \<open>Roles\<close>

text \<open>\<open>INSERT \<dots> ON CONFLICT(id) DO UPDATE\<close> of a role; the name is unique.\<close>

definition put_role :: "auth_role \<Rightarrow> auth_db \<Rightarrow> auth_error + auth_db" where
  "put_role r s =
     (if list_ex (\<lambda>q. ro_name q = ro_name r \<and> ro_id q \<noteq> ro_id r) (au_roles s) then Inl StoreFailed
      else if list_ex (\<lambda>q. ro_id q = ro_id r) (au_roles s)
      then Inr (s\<lparr>au_roles := map (\<lambda>q. if ro_id q = ro_id r
             then q\<lparr>ro_name := ro_name r, ro_builtin := ro_builtin r, ro_perms := ro_perms r, ro_updated := ro_updated r\<rparr>
             else q) (au_roles s)\<rparr>)
      else Inr (s\<lparr>au_roles := au_roles s @ [r]\<rparr>))"

fun put_roles :: "auth_role list \<Rightarrow> auth_db \<Rightarrow> auth_error + auth_db" where
  "put_roles [] s = Inr s"
| "put_roles (r # rs) s = (case put_role r s of Inl e \<Rightarrow> Inl e | Inr s' \<Rightarrow> put_roles rs s')"

definition EnsureAuthDefaults :: "int \<Rightarrow> auth_role list \<Rightarrow> unit auth" where
  "EnsureAuthDefaults now roles =
     exec (put_roles (map (\<lambda>r. r\<lparr>ro_created := Some now, ro_updated := Some now\<rparr>) roles))"

definition UpsertAuthRole :: "auth_role \<Rightarrow> unit auth" where
  "UpsertAuthRole r = exec (put_role r)"

definition DeleteAuthRole :: "string \<Rightarrow> unit auth" where
  "DeleteAuthRole rid =
     exec (\<lambda>s. Inr (s\<lparr>au_roles := filter (\<lambda>r. \<not> (ro_id r = rid \<and> \<not> ro_builtin r)) (au_roles s)\<rparr>))"

text \<open>Built-in roles first, then by name.\<close>

definition ListAuthRoles :: "auth_role list auth" where
  "ListAuthRoles = query (\<lambda>s. sort_key (\<lambda>r. (\<not> ro_builtin r, ro_name r)) (au_roles s))"

section \<open>Users\<close>

definition CountAuthUsers :: "nat auth" where
  "CountAuthUsers = query (\<lambda>s. length (au_users s))"

definition stored_user :: "auth_user \<Rightarrow> auth_user" where
  "stored_user u = u\<lparr>us_roles := []\<rparr>"

definition insert_user :: "auth_user \<Rightarrow> auth_db \<Rightarrow> auth_error + auth_db" where
  "insert_user u s =
     (if list_ex (\<lambda>v. us_id v = us_id u \<or> us_name v = us_name u) (au_users s) then Inl StoreFailed
      else Inr (s\<lparr>au_users := au_users s @ [stored_user u]\<rparr>))"

text \<open>\<open>INSERT OR IGNORE\<close> into the table of grants.\<close>

fun add_grants :: "string \<Rightarrow> string list \<Rightarrow> (string \<times> string) list \<Rightarrow> (string \<times> string) list" where
  "add_grants u [] gs = gs"
| "add_grants u (r # rs) gs = add_grants u rs (if (u, r) \<in> set gs then gs else gs @ [(u, r)])"

definition CreateInitialAuthUser :: "auth_user \<Rightarrow> string list \<Rightarrow> unit auth" where
  "CreateInitialAuthUser u roles =
     exec (\<lambda>s. if 0 < length (au_users s) then Inl SetupCompleted
               else (case insert_user u s of
                       Inl e \<Rightarrow> Inl e
                     | Inr s' \<Rightarrow> Inr (s'\<lparr>au_grants := add_grants (us_id u) roles (au_grants s')\<rparr>)))"

definition GetAuthUserByUsername :: "string \<Rightarrow> auth_user option auth" where
  "GetAuthUserByUsername name = query (\<lambda>s. find (\<lambda>u. us_name u = name) (au_users s))"

definition GetAuthUserByID :: "string \<Rightarrow> auth_user option auth" where
  "GetAuthUserByID uid = query (\<lambda>s. find (\<lambda>u. us_id u = uid) (au_users s))"

definition granted :: "string \<Rightarrow> auth_db \<Rightarrow> string list" where
  "granted uid s = sort (map snd (filter (\<lambda>(u, r). u = uid) (au_grants s)))"

definition ListAuthUserRoleIDs :: "string \<Rightarrow> string list auth" where
  "ListAuthUserRoleIDs uid = query (granted uid)"

text \<open>The roles of each user are read by further queries while the rows are scanned.\<close>

fun with_roles :: "auth_user list \<Rightarrow> auth_user list auth" where
  "with_roles [] = give []"
| "with_roles (u # us) =
     attempt (ListAuthUserRoleIDs (us_id u))
       (\<lambda>rs. attempt (with_roles us) (\<lambda>vs. give (u\<lparr>us_roles := rs\<rparr> # vs)))"

definition ListAuthUsers :: "auth_user list auth" where
  "ListAuthUsers = attempt (query (\<lambda>s. sort_key us_name (au_users s))) with_roles"

definition UpsertAuthUser :: "auth_user \<Rightarrow> unit auth" where
  "UpsertAuthUser u =
     exec (\<lambda>s.
       if list_ex (\<lambda>v. us_name v = us_name u \<and> us_id v \<noteq> us_id u) (au_users s) then Inl StoreFailed
       else if list_ex (\<lambda>v. us_id v = us_id u) (au_users s)
       then Inr (s\<lparr>au_users := map (\<lambda>v. if us_id v = us_id u
              then v\<lparr>us_name := us_name u, us_hash := us_hash u, us_enabled := us_enabled u, us_updated := us_updated u\<rparr>
              else v) (au_users s)\<rparr>)
       else Inr (s\<lparr>au_users := au_users s @ [stored_user u]\<rparr>))"

definition DeleteAuthUser :: "string \<Rightarrow> unit auth" where
  "DeleteAuthUser uid = exec (\<lambda>s. Inr (s\<lparr>au_users := filter (\<lambda>u. us_id u \<noteq> uid) (au_users s)\<rparr>))"

definition ReplaceAuthUserRoles :: "string \<Rightarrow> string list \<Rightarrow> unit auth" where
  "ReplaceAuthUserRoles uid roles =
     exec (\<lambda>s. Inr (s\<lparr>au_grants := add_grants uid roles (filter (\<lambda>(u, r). u \<noteq> uid) (au_grants s))\<rparr>))"

section \<open>Sessions and tokens\<close>

definition CreateAuthSession :: "auth_session \<Rightarrow> unit auth" where
  "CreateAuthSession x =
     exec (\<lambda>s. if list_ex (\<lambda>y. se_id y = se_id x) (au_sessions s) then Inl StoreFailed
               else Inr (s\<lparr>au_sessions := au_sessions s @ [x]\<rparr>))"

definition GetAuthSession :: "string \<Rightarrow> auth_session option auth" where
  "GetAuthSession sid = query (\<lambda>s. find (\<lambda>x. se_id x = sid) (au_sessions s))"

definition TouchAuthSession :: "string \<Rightarrow> int \<Rightarrow> unit auth" where
  "TouchAuthSession sid t =
     exec (\<lambda>s. Inr (s\<lparr>au_sessions := map (\<lambda>x. if se_id x = sid then x\<lparr>se_seen := t\<rparr> else x) (au_sessions s)\<rparr>))"

definition DeleteAuthSession :: "string \<Rightarrow> unit auth" where
  "DeleteAuthSession sid = exec (\<lambda>s. Inr (s\<lparr>au_sessions := filter (\<lambda>x. se_id x \<noteq> sid) (au_sessions s)\<rparr>))"

definition CreateAuthToken :: "api_token \<Rightarrow> unit auth" where
  "CreateAuthToken x =
     exec (\<lambda>s. if list_ex (\<lambda>y. tk_id y = tk_id x \<or> tk_hash y = tk_hash x) (au_tokens s) then Inl StoreFailed
               else Inr (s\<lparr>au_tokens := au_tokens s @ [x]\<rparr>))"

text \<open>What the lists show of a token (\<open>scanToken\<close>): not its hash.\<close>

definition token_view :: "api_token \<Rightarrow> api_token" where "token_view x = x\<lparr>tk_hash := []\<rparr>"

definition ListAuthTokens :: "api_token list auth" where
  "ListAuthTokens = query (\<lambda>s. map token_view (sort_key (\<lambda>x. - tk_created x) (au_tokens s)))"

definition ListAuthTokensByUserID :: "string \<Rightarrow> api_token list auth" where
  "ListAuthTokensByUserID uid =
     query (\<lambda>s. map token_view (sort_key (\<lambda>x. - tk_created x) (filter (\<lambda>x. tk_user x = uid) (au_tokens s))))"

definition GetAuthTokenByHash :: "string \<Rightarrow> api_token option auth" where
  "GetAuthTokenByHash h = query (\<lambda>s. find (\<lambda>x. tk_hash x = h) (au_tokens s))"

definition GetAuthTokenByID :: "string \<Rightarrow> api_token option auth" where
  "GetAuthTokenByID tid = query (\<lambda>s. find (\<lambda>x. tk_id x = tid) (au_tokens s))"

definition TouchAuthToken :: "string \<Rightarrow> int \<Rightarrow> unit auth" where
  "TouchAuthToken tid t =
     exec (\<lambda>s. Inr (s\<lparr>au_tokens := map (\<lambda>x. if tk_id x = tid then x\<lparr>tk_used := Some t\<rparr> else x) (au_tokens s)\<rparr>))"

definition RevokeAuthToken :: "int \<Rightarrow> string \<Rightarrow> unit auth" where
  "RevokeAuthToken now tid =
     exec (\<lambda>s. Inr (s\<lparr>au_tokens := map (\<lambda>x. if tk_id x = tid then x\<lparr>tk_revoked := Some now\<rparr> else x) (au_tokens s)\<rparr>))"

end
