(* ===== verification/Auth.thy ===== *)
theory Auth
  imports Auth_Store
begin

text \<open>
  Accounts, \<open>auth/service.go\<close> and \<open>auth/types.go\<close>: setting up the first user, logging in, the two ways to authenticate a request (a
  session or an API token), and the administration of users, roles and tokens. Random ids (\<open>ksuid\<close>), bcrypt and
  SHA-256 are fields of an environment; the clock stands still within one call.
\<close>

section \<open>Permissions and roles\<close>

definition viewer_permissions :: "string list" where
  "viewer_permissions = [''indexer.releases.read'', ''aggregator.releases.read'']"

definition operator_permissions :: "string list" where
  "operator_permissions = [''indexer.releases.read'', ''indexer.runtime.read'', ''indexer.runtime.run'',
     ''indexer.runtime.pause'', ''admin.settings.read'', ''aggregator.releases.read'', ''aggregator.runtime.read'',
     ''downloader.runtime.read'']"

definition admin_permissions :: "string list" where
  "admin_permissions = [''indexer.releases.read'', ''indexer.releases.override'', ''indexer.releases.hide'',
     ''indexer.releases.purge'', ''indexer.runtime.read'', ''indexer.runtime.run'', ''indexer.runtime.pause'',
     ''indexer.runtime.configure'', ''admin.settings.read'', ''admin.settings.write'', ''aggregator.releases.read'',
     ''aggregator.runtime.read'', ''aggregator.runtime.configure'', ''downloader.runtime.read'',
     ''downloader.runtime.configure'', ''auth.users.read'', ''auth.users.write'', ''auth.roles.read'',
     ''auth.roles.write'', ''auth.tokens.read'', ''auth.tokens.write'']"

definition builtin_role :: "string \<Rightarrow> string \<Rightarrow> string list \<Rightarrow> auth_role" where
  "builtin_role rid name perms = \<lparr>ro_id = rid, ro_name = name, ro_builtin = True, ro_perms = perms,
     ro_created = None, ro_updated = None\<rparr>"

definition DefaultRoles :: "auth_role list" where
  "DefaultRoles = [builtin_role ''viewer'' ''Viewer'' viewer_permissions,
     builtin_role ''operator'' ''Operator'' operator_permissions, builtin_role ''admin'' ''Admin'' admin_permissions]"

record principal =
  pr_user :: string
  pr_name :: string
  pr_perms :: "string list"

definition Has :: "principal option \<Rightarrow> string \<Rightarrow> bool" where
  "Has p perm = (case p of None \<Rightarrow> False | Some p \<Rightarrow> perm \<in> set (pr_perms p))"

section \<open>The environment\<close>

record auth_env =
  en_now :: int
  en_id :: string
  en_id2 :: string
  en_bcrypt :: "string \<Rightarrow> auth_error + string"
  en_matches :: "string \<Rightarrow> string \<Rightarrow> bool"
  en_sha :: "string \<Rightarrow> string"

definition week :: int where "week = 7 * 24 * 3600 * 1000000000"

definition Bootstrap :: "auth_env \<Rightarrow> unit auth" where
  "Bootstrap en = EnsureAuthDefaults (en_now en) DefaultRoles"

definition SetupRequired :: "bool auth" where
  "SetupRequired = attempt CountAuthUsers (\<lambda>n. give (n = 0))"

definition validatePassword :: "string \<Rightarrow> auth_error option" where
  "validatePassword pw = (if length pw < 12 then Some (Refused ''password must be at least 12 characters'') else None)"

text \<open>The permissions of the roles granted to a user, in the order of the roles (a set in the code).\<close>

definition permissions_of :: "string list \<Rightarrow> auth_role list \<Rightarrow> string list" where
  "permissions_of ids roles = concat (map ro_perms (filter (\<lambda>r. ro_id r \<in> set ids) roles))"

definition principalForUser :: "auth_user \<Rightarrow> principal auth" where
  "principalForUser u =
     attempt (ListAuthUserRoleIDs (us_id u))
       (\<lambda>ids. attempt ListAuthRoles
          (\<lambda>roles. give \<lparr>pr_user = us_id u, pr_name = us_name u, pr_perms = permissions_of ids roles\<rparr>))"

definition new_session :: "auth_env \<Rightarrow> string \<Rightarrow> auth_user \<Rightarrow> auth_session" where
  "new_session en sid u =
     \<lparr>se_id = sid, se_user = us_id u, se_expires = en_now en + week, se_created = en_now en, se_seen = en_now en\<rparr>"

definition open_session :: "auth_env \<Rightarrow> string \<Rightarrow> auth_user \<Rightarrow> (auth_session \<times> principal) auth" where
  "open_session en sid u =
     (let x = new_session en sid u
      in attempt (CreateAuthSession x) (\<lambda>_. attempt (principalForUser u) (\<lambda>p. give (x, p))))"

definition SetupInitialUser :: "auth_env \<Rightarrow> string \<Rightarrow> string \<Rightarrow> (auth_session \<times> principal) auth" where
  "SetupInitialUser en name pw =
     (let name = trim_space name
      in if length name < 3 then refuse (Refused ''username must be at least 3 characters'')
         else (case validatePassword pw of
                 Some e \<Rightarrow> refuse e
               | None \<Rightarrow>
                   (case en_bcrypt en pw of
                      Inl e \<Rightarrow> refuse e
                    | Inr h \<Rightarrow>
                        (let u = \<lparr>us_id = en_id en, us_name = name, us_hash = h, us_enabled = True, us_roles = [],
                                  us_created = Some (en_now en), us_updated = Some (en_now en)\<rparr>
                         in attempt (CreateInitialAuthUser u [''admin'']) (\<lambda>_. open_session en (en_id2 en) u)))))"

section \<open>Logging in\<close>

definition AuthenticatePassword :: "auth_env \<Rightarrow> string \<Rightarrow> string \<Rightarrow> (auth_session \<times> principal) auth" where
  "AuthenticatePassword en name pw =
     attempt SetupRequired
       (\<lambda>needed. if needed then refuse SetupRequiredFirst
          else regardless (GetAuthUserByUsername (trim_space name))
            (\<lambda>r. case r of
                Inr (Some u) \<Rightarrow>
                  (if \<not> us_enabled u \<or> \<not> en_matches en (us_hash u) pw then refuse InvalidCredentials
                   else open_session en (en_id en) u)
              | _ \<Rightarrow> refuse InvalidCredentials))"

text \<open>The user of a session or a token: it has to exist and to be enabled.\<close>

definition principal_of_id :: "string \<Rightarrow> principal auth" where
  "principal_of_id uid =
     regardless (GetAuthUserByID uid)
       (\<lambda>r. case r of
           Inr (Some u) \<Rightarrow> (if us_enabled u then principalForUser u else refuse Unauthorized)
         | _ \<Rightarrow> refuse Unauthorized)"

definition AuthenticateSession :: "auth_env \<Rightarrow> string \<Rightarrow> principal auth" where
  "AuthenticateSession en sid =
     (let sid = trim_space sid
      in if sid = [] then refuse Unauthorized
         else regardless (GetAuthSession sid)
           (\<lambda>r. case r of
               Inr (Some x) \<Rightarrow>
                 (if se_expires x < en_now en
                  then regardless (DeleteAuthSession sid) (\<lambda>_. refuse Unauthorized)
                  else regardless (TouchAuthSession sid (en_now en)) (\<lambda>_. principal_of_id (se_user x)))
             | _ \<Rightarrow> refuse Unauthorized))"

definition AuthenticateToken :: "auth_env \<Rightarrow> string \<Rightarrow> principal auth" where
  "AuthenticateToken en raw =
     (let raw = trim_space raw
      in if raw = [] then refuse Unauthorized
         else regardless (GetAuthTokenByHash (en_sha en raw))
           (\<lambda>r. case r of
               Inr (Some x) \<Rightarrow>
                 (if tk_revoked x \<noteq> None then refuse Unauthorized
                  else regardless (TouchAuthToken (tk_id x) (en_now en)) (\<lambda>_. principal_of_id (tk_user x)))
             | _ \<Rightarrow> refuse Unauthorized))"

definition LogoutSession :: "string \<Rightarrow> unit auth" where
  "LogoutSession sid = (if trim_space sid = [] then give () else DeleteAuthSession sid)"

section \<open>Users\<close>

definition ListUsers :: "auth_user list auth" where "ListUsers = ListAuthUsers"

definition hydrateStoredUser :: "auth_user option \<Rightarrow> auth_user option auth" where
  "hydrateStoredUser u =
     (case u of
        None \<Rightarrow> give None
      | Some u \<Rightarrow> attempt (ListAuthUserRoleIDs (us_id u)) (\<lambda>ids. give (Some (u\<lparr>us_roles := ids\<rparr>))))"

definition GetUser :: "string \<Rightarrow> auth_user option auth" where
  "GetUser uid = attempt (GetAuthUserByID (trim_space uid)) hydrateStoredUser"

text \<open>The password hash to be stored: of the new password, or the one the user has.\<close>

definition chosen_hash :: "auth_env \<Rightarrow> auth_user \<Rightarrow> string \<Rightarrow> string auth" where
  "chosen_hash en u pw =
     (if trim_space pw \<noteq> []
      then (case validatePassword pw of
              Some e \<Rightarrow> refuse e
            | None \<Rightarrow> (case en_bcrypt en pw of Inl e \<Rightarrow> refuse e | Inr h \<Rightarrow> give h))
      else regardless (GetAuthUserByID (us_id u))
             (\<lambda>r. give (case r of Inr (Some v) \<Rightarrow> us_hash v | _ \<Rightarrow> us_hash u)))"

definition UpsertUser :: "auth_env \<Rightarrow> auth_user \<Rightarrow> string \<Rightarrow> string list \<Rightarrow> auth_user option auth" where
  "UpsertUser en u pw roles =
     (let u = (if trim_space (us_id u) = [] then u\<lparr>us_id := en_id en\<rparr> else u);
          u = (if us_created u = None then u\<lparr>us_created := Some (en_now en)\<rparr> else u);
          u = u\<lparr>us_updated := Some (en_now en)\<rparr>
      in attempt (chosen_hash en u pw)
           (\<lambda>h. if h = [] then refuse (Refused ''password is required'')
                else attempt (UpsertAuthUser (u\<lparr>us_hash := h\<rparr>))
                  (\<lambda>_. attempt (ReplaceAuthUserRoles (us_id u) roles)
                     (\<lambda>_. attempt (GetAuthUserByID (us_id u)) hydrateStoredUser))))"

definition DeleteUser :: "string \<Rightarrow> unit auth" where "DeleteUser uid = DeleteAuthUser uid"

section \<open>Roles and tokens\<close>

definition ListRoles :: "auth_role list auth" where "ListRoles = ListAuthRoles"

definition UpsertRole :: "auth_env \<Rightarrow> auth_role \<Rightarrow> auth_role auth" where
  "UpsertRole en r =
     (let r = (if trim_space (ro_id r) = [] then r\<lparr>ro_id := en_id en\<rparr> else r);
          r = (if ro_created r = None then r\<lparr>ro_created := Some (en_now en)\<rparr> else r);
          r = r\<lparr>ro_updated := Some (en_now en)\<rparr>
      in attempt (UpsertAuthRole r)
           (\<lambda>_. attempt ListAuthRoles
              (\<lambda>roles. give (case find (\<lambda>q. ro_id q = ro_id r) roles of None \<Rightarrow> r | Some q \<Rightarrow> q))))"

definition DeleteRole :: "string \<Rightarrow> unit auth" where "DeleteRole rid = DeleteAuthRole rid"

text \<open>\<open>CreateToken\<close>: the secret is two random ids in a row.\<close>

definition CreateToken :: "auth_env \<Rightarrow> string \<Rightarrow> string \<Rightarrow> string \<Rightarrow> (api_token \<times> string) auth" where
  "CreateToken en tid uid name =
     (let raw = en_id en @ en_id2 en;
          x = \<lparr>tk_id = tid, tk_user = uid, tk_name = trim_space name, tk_prefix = take 12 raw, tk_hash = en_sha en raw,
               tk_created = en_now en, tk_used = None, tk_revoked = None\<rparr>
      in attempt (CreateAuthToken x) (\<lambda>_. give (token_view x, raw)))"

definition ListTokens :: "api_token list auth" where "ListTokens = ListAuthTokens"

definition ListTokensByUser :: "string \<Rightarrow> api_token list auth" where
  "ListTokensByUser uid = ListAuthTokensByUserID (trim_space uid)"

definition RevokeToken :: "auth_env \<Rightarrow> string \<Rightarrow> unit auth" where
  "RevokeToken en tid = RevokeAuthToken (en_now en) tid"

definition RevokeTokenForUser :: "auth_env \<Rightarrow> string \<Rightarrow> string \<Rightarrow> unit auth" where
  "RevokeTokenForUser en uid tid =
     attempt (GetAuthTokenByID (trim_space tid))
       (\<lambda>r. case r of
           None \<Rightarrow> give ()
         | Some x \<Rightarrow> (if tk_user x \<noteq> trim_space uid then refuse Forbidden else RevokeAuthToken (en_now en) (tk_id x)))"

end
