(* ===== verification/Auth_Http.thy ===== *)
theory Auth_Http
  imports Auth
begin

text \<open>
  Requests and what stands before their handlers: the middlewares and the table of routes of
  \<open>api/router.go\<close> and \<open>api/transport.go\<close>, the choice of the compatibility API (\<open>controllers/compat_api.go\<close>) and the handlers of
  accounts (\<open>controllers/auth.go\<close>). Decoding of bodies and matching of paths are the web framework's: a handler gets
  its decoded body, a route is named by its method and pattern. The rate limiter's verdict is part of the request.
\<close>

section \<open>Requests\<close>

record http_request =
  rq_method :: string
  rq_authorization :: string
  rq_session :: "string option"
  rq_csrf :: "string option"
  rq_csrf_header :: string
  rq_apikey :: string
  rq_xapikey :: string
  rq_mode :: string
  rq_form_mode :: string
  rq_content_type :: string
  rq_length :: int
  rq_within_rate :: bool

definition isSafeMethod :: "string \<Rightarrow> bool" where
  "isSafeMethod m \<longleftrightarrow> m \<in> set [''GET'', ''HEAD'', ''OPTIONS'']"

definition usesNonSessionAuth :: "http_request \<Rightarrow> bool" where
  "usesNonSessionAuth rq \<longleftrightarrow> is_prefix ''Bearer '' (rq_authorization rq)"

text \<open>\<open>None\<close> for the service: there is no account store.\<close>

definition authenticatePrincipal :: "auth_env option \<Rightarrow> http_request \<Rightarrow> principal auth" where
  "authenticatePrincipal svc rq =
     (case svc of
        None \<Rightarrow> refuse Unauthorized
      | Some en \<Rightarrow>
          (if is_prefix ''Bearer '' (rq_authorization rq)
           then AuthenticateToken en (trim_space (trim_prefix ''Bearer '' (rq_authorization rq)))
           else (case rq_session rq of
                   Some c \<Rightarrow> AuthenticateSession en c
                 | None \<Rightarrow> refuse Unauthorized)))"

definition authenticateAPIKeyPrincipal :: "auth_env option \<Rightarrow> http_request \<Rightarrow> principal auth" where
  "authenticateAPIKeyPrincipal svc rq =
     (case svc of
        None \<Rightarrow> refuse Unauthorized
      | Some en \<Rightarrow>
          (let key = trim_space (rq_apikey rq); key = (if key = [] then trim_space (rq_xapikey rq) else key)
           in AuthenticateToken en key))"

section \<open>Middlewares\<close>

datatype guard =
    BodyLimit int int
  | Csrf
  | Audit string
  | RateLimit
  | Authn bool "string list"
  | ApiToken "string list"
  | CompatToken

text \<open>A middleware answers with a status, or lets the request pass, with the principal the context then has.\<close>

type_synonym pass_result = "(int + principal option) \<times> auth_db"

definition bodyLimitMiddleware :: "int \<Rightarrow> int \<Rightarrow> http_request \<Rightarrow> principal option \<Rightarrow> auth_db \<Rightarrow> pass_result" where
  "bodyLimitMiddleware json multipart rq p s =
     (let limit = (if is_prefix ''multipart/form-data'' (to_lower (trim_space (rq_content_type rq))) then multipart else json)
      in if 0 < rq_length rq \<and> limit < rq_length rq then (Inl 413, s) else (Inr p, s))"

definition csrfProtectionMiddleware :: "http_request \<Rightarrow> principal option \<Rightarrow> auth_db \<Rightarrow> pass_result" where
  "csrfProtectionMiddleware rq p s =
     (if isSafeMethod (rq_method rq) \<or> usesNonSessionAuth rq then (Inr p, s)
      else if rq_session rq = None then (Inr p, s)
      else (case rq_csrf rq of
              None \<Rightarrow> (Inl 403, s)
            | Some c \<Rightarrow>
                (if trim_space c = [] then (Inl 403, s)
                 else if trim_space (rq_csrf_header rq) \<noteq> c then (Inl 403, s)
                 else (Inr p, s))))"

definition permitted :: "principal \<Rightarrow> string list \<Rightarrow> auth_db \<Rightarrow> pass_result" where
  "permitted q perms s = (if list_all (Has (Some q)) perms then (Inr (Some q), s) else (Inl 403, s))"

definition authMiddleware ::
  "auth_env option \<Rightarrow> bool \<Rightarrow> string list \<Rightarrow> http_request \<Rightarrow> principal option \<Rightarrow> auth_db \<Rightarrow> pass_result" where
  "authMiddleware svc optional perms rq p s =
     (case authenticatePrincipal svc rq s of
        (Inl e, s') \<Rightarrow> (if optional then (Inr p, s') else (Inl 401, s'))
      | (Inr q, s') \<Rightarrow> permitted q perms s')"

definition apiTokenMiddleware ::
  "auth_env option \<Rightarrow> string list \<Rightarrow> http_request \<Rightarrow> principal option \<Rightarrow> auth_db \<Rightarrow> pass_result" where
  "apiTokenMiddleware svc perms rq p s =
     (case authenticateAPIKeyPrincipal svc rq s of
        (Inl e, s') \<Rightarrow> (Inl 401, s')
      | (Inr q, s') \<Rightarrow> permitted q perms s')"

definition compatAPITokenMiddleware :: "auth_env option \<Rightarrow> http_request \<Rightarrow> principal option \<Rightarrow> auth_db \<Rightarrow> pass_result" where
  "compatAPITokenMiddleware svc rq =
     apiTokenMiddleware svc
       [if trim_space (rq_mode rq) \<noteq> [] \<or> trim_space (rq_form_mode rq) \<noteq> [] then ''downloader.runtime.read''
        else ''aggregator.releases.read''] rq"

fun run_guard :: "auth_env option \<Rightarrow> guard \<Rightarrow> http_request \<Rightarrow> principal option \<Rightarrow> auth_db \<Rightarrow> pass_result" where
  "run_guard svc (BodyLimit json multipart) rq p s = bodyLimitMiddleware json multipart rq p s"
| "run_guard svc Csrf rq p s = csrfProtectionMiddleware rq p s"
| "run_guard svc (Audit scope) rq p s = (Inr p, s)"
| "run_guard svc RateLimit rq p s = (if rq_within_rate rq then (Inr p, s) else (Inl 429, s))"
| "run_guard svc (Authn optional perms) rq p s = authMiddleware svc optional perms rq p s"
| "run_guard svc (ApiToken perms) rq p s = apiTokenMiddleware svc perms rq p s"
| "run_guard svc CompatToken rq p s = compatAPITokenMiddleware svc rq p s"

fun run_guards :: "auth_env option \<Rightarrow> guard list \<Rightarrow> http_request \<Rightarrow> principal option \<Rightarrow> auth_db \<Rightarrow> pass_result" where
  "run_guards svc [] rq p s = (Inr p, s)"
| "run_guards svc (g # gs) rq p s =
     (case run_guard svc g rq p s of
        (Inl status, s') \<Rightarrow> (Inl status, s')
      | (Inr p', s') \<Rightarrow> run_guards svc gs rq p' s')"

section \<open>Routes\<close>

record route =
  rt_method :: string
  rt_path :: string
  rt_guards :: "guard list"

text \<open>A group of routes: its prefix, its middlewares, and each route's own.\<close>

definition route_group :: "string \<Rightarrow> guard list \<Rightarrow> (string \<times> string \<times> guard list) list \<Rightarrow> route list" where
  "route_group base gs rs =
     map (\<lambda>(m, path, own). \<lparr>rt_method = m, rt_path = base @ path, rt_guards = gs @ own\<rparr>) rs"

abbreviation "defaultJSONBodyLimit \<equiv> (1048576 :: int)"
abbreviation "adminJSONBodyLimit \<equiv> (33554432 :: int)"
abbreviation "defaultMultipartBodyLimit \<equiv> (67108864 :: int)"

abbreviation "default_limit \<equiv> BodyLimit defaultJSONBodyLimit defaultMultipartBodyLimit"
abbreviation "admin_limit \<equiv> BodyLimit adminJSONBodyLimit defaultMultipartBodyLimit"

abbreviation need :: "string \<Rightarrow> guard" where "need perm \<equiv> Authn False [perm]"

definition settings_routes :: "route list" where
  "settings_routes = route_group ''/api/v1/admin'' [admin_limit, Csrf, Audit ''admin.settings'']
     [(''GET'', ''/settings'', [need ''admin.settings.read'']),
      (''GET'', ''/capabilities'', [need ''admin.settings.read'']),
      (''PUT'', ''/settings'', [need ''admin.settings.write''])]"

definition auth_routes :: "route list" where
  "auth_routes = route_group ''/api/v1/auth'' [default_limit]
     [(''GET'', ''/session'', [Authn True []]),
      (''GET'', ''/setup'', []),
      (''POST'', ''/setup'', [RateLimit]),
      (''POST'', ''/session'', [RateLimit]),
      (''DELETE'', ''/session'', [Authn True [], Csrf]),
      (''GET'', ''/tokens'', [Authn False []]),
      (''POST'', ''/tokens'', [Authn False [], Csrf]),
      (''DELETE'', ''/tokens/:id'', [Authn False [], Csrf])]"

definition admin_auth_routes :: "route list" where
  "admin_auth_routes = route_group ''/api/v1/admin/auth'' [admin_limit, Csrf, Audit ''admin.auth'']
     [(''GET'', ''/users'', [need ''auth.users.read'']),
      (''GET'', ''/users/:id'', [need ''auth.users.read'']),
      (''POST'', ''/users'', [need ''auth.users.write'']),
      (''DELETE'', ''/users/:id'', [need ''auth.users.write'']),
      (''GET'', ''/roles'', [need ''auth.roles.read'']),
      (''POST'', ''/roles'', [need ''auth.roles.write'']),
      (''DELETE'', ''/roles/:id'', [need ''auth.roles.write'']),
      (''GET'', ''/tokens'', [need ''auth.tokens.read'']),
      (''POST'', ''/tokens'', [need ''auth.tokens.write'']),
      (''DELETE'', ''/tokens/:id'', [need ''auth.tokens.write''])]"

definition probe_routes :: "route list" where
  "probe_routes = route_group [] [] [(''GET'', ''/healthz'', []), (''GET'', ''/readyz'', [])]"

definition aggregator_routes :: "route list" where
  "aggregator_routes =
     route_group ''/api/v1'' [default_limit, ApiToken [''aggregator.releases.read'']] [(''GET'', ''/releases/search'', [])] @
     route_group [] [] [(''GET'', ''/nzb/:id'', [ApiToken [''aggregator.releases.read'']])]"

definition indexer_routes :: "route list" where
  "indexer_routes = route_group ''/api/v1/indexer'' [default_limit, need ''indexer.releases.read'']
     [(''GET'', ''/overview'', []), (''GET'', ''/stages'', []), (''GET'', ''/runs'', []),
      (''POST'', ''/stages/:stage/run'', []),
      (''POST'', ''/stages/:stage/pause'', []),
      (''POST'', ''/stages/:stage/resume'', []),
      (''GET'', ''/releases'', []), (''GET'', ''/releases/:id'', []), (''GET'', ''/binaries/:id'', []),
      (''GET'', ''/files/:id'', [])]"

definition admin_indexer_routes :: "route list" where
  "admin_indexer_routes =
     route_group ''/api/v1/admin/indexer'' [admin_limit, need ''indexer.runtime.read'', Csrf, Audit ''admin.indexer'']
     (map (\<lambda>path. (''GET'', path, []))
        [''/overview'', ''/overview/stream'', ''/overview/stats'', ''/storage'', ''/overview/backfill-progress'',
         ''/work/recovery-capacity'', ''/work/group-profiles'', ''/work/deferred-ranges'', ''/work/cohorts'',
         ''/overview/throughput'', ''/overview/nntp'', ''/overview/backlog'', ''/scrape'', ''/stages'', ''/stages/:stage'',
         ''/maintenance/storage-audit'', ''/maintenance/tasks'', ''/attention'', ''/releases'', ''/releases/:id'',
         ''/binaries'', ''/runs'', ''/runs/:id'', ''/scrape/provider-inventory'', ''/scrape/preview'',
         ''/scrape/crosspost-popularity''] @
      [(''POST'', ''/overview/stats/actions/refresh'', [need ''indexer.runtime.run'']),
       (''POST'', ''/overview/backlog/actions/refresh'', [need ''indexer.runtime.run'']),
       (''PATCH'', ''/stages/:stage'', [need ''indexer.runtime.configure'']),
       (''PATCH'', ''/maintenance/tasks/:task'', [need ''indexer.runtime.configure'']),
       (''POST'', ''/maintenance/tasks/:task/dry-run'', [need ''indexer.runtime.run'']),
       (''POST'', ''/maintenance/tasks/:task/run'', [need ''indexer.runtime.run'']),
       (''PUT'', ''/scrape'', [need ''indexer.runtime.configure'']),
       (''POST'', ''/scrape/actions/scan'', [need ''indexer.runtime.run'']),
       (''POST'', ''/scrape/actions/apply'', [need ''indexer.runtime.configure'']),
       (''POST'', ''/stages/:stage/actions/run'', [need ''indexer.runtime.run'']),
       (''POST'', ''/stages/:stage/actions/pause'', [need ''indexer.runtime.pause'']),
       (''POST'', ''/stages/:stage/actions/resume'', [need ''indexer.runtime.pause'']),
       (''PATCH'', ''/releases/:id'', [need ''indexer.releases.override'']),
       (''POST'', ''/releases/:id/actions/identify'', [need ''indexer.releases.override'']),
       (''POST'', ''/releases/:id/actions/reinspect'', [need ''indexer.runtime.run'']),
       (''POST'', ''/releases/:id/actions/reenrich'', [need ''indexer.runtime.run'']),
       (''POST'', ''/releases/:id/actions/hide'', [need ''indexer.releases.hide'']),
       (''POST'', ''/releases/:id/actions/unhide'', [need ''indexer.releases.hide''])])"

definition downloader_routes :: "route list" where
  "downloader_routes =
     route_group ''/api/v1'' [default_limit, Authn False [], Csrf]
       [(''GET'', ''/queue'', []), (''GET'', ''/queue/history'', []), (''POST'', ''/queue/bulk/cancel'', []),
        (''POST'', ''/queue/bulk/delete'', []), (''POST'', ''/queue/history/clear'', []), (''GET'', ''/queue/:id'', []),
        (''GET'', ''/queue/:id/files'', []), (''GET'', ''/queue/:id/events'', []), (''POST'', ''/queue'', []),
        (''POST'', ''/queue/:id/cancel'', []), (''GET'', ''/events/queue'', [])] @
     route_group [] []
       [(''GET'', ''/api/sab'', [default_limit, ApiToken [''downloader.runtime.read'']]),
        (''POST'', ''/api/sab'', [default_limit, ApiToken [''downloader.runtime.read''] ])]"

definition compat_routes :: "route list" where
  "compat_routes = route_group [] []
     [(''GET'', ''/api'', [default_limit, CompatToken]), (''POST'', ''/api'', [default_limit, CompatToken])]"

record modules =
  mo_api :: bool
  mo_aggregator :: bool
  mo_indexer :: bool
  mo_downloader :: bool

text \<open>\<open>RegisterRoutes\<close>; \<open>settings\<close>: there is a settings store, \<open>accounts\<close>: it is an account store.\<close>

definition RegisterRoutes :: "modules \<Rightarrow> bool \<Rightarrow> bool \<Rightarrow> route list" where
  "RegisterRoutes mo settings accounts =
     (if mo_api mo
      then (if settings then settings_routes else []) @ (if accounts then auth_routes @ admin_auth_routes else []) @
           probe_routes @ (if mo_aggregator mo then aggregator_routes else []) @
           (if mo_indexer mo then indexer_routes @ admin_indexer_routes else []) @
           (if mo_downloader mo then downloader_routes else []) @
           (if mo_aggregator mo \<or> mo_downloader mo then compat_routes else [])
      else [])"

section \<open>The compatibility API\<close>

datatype compat_target = ToSAB | ToNewznab | CompatRejected int

definition compat_Handle :: "bool \<Rightarrow> bool \<Rightarrow> string \<Rightarrow> string \<Rightarrow> compat_target" where
  "compat_Handle sab newznab mode typ =
     (let mode = to_lower (trim_space mode); typ = to_lower (trim_space typ)
      in if mode \<noteq> [] \<and> typ \<noteq> [] then CompatRejected 400
         else if mode \<noteq> [] then (if sab then ToSAB else CompatRejected 404)
         else if typ \<noteq> [] then (if newznab then ToNewznab else CompatRejected 404)
         else CompatRejected 400)"

section \<open>The handlers of accounts\<close>

datatype account_call =
    GetSetupStatus
  | CreateInitialUser string string
  | CreateSession string string
  | GetSession
  | DeleteSession
  | ListUsersCall
  | GetUserCall string
  | UpsertUserCall string string string bool "string list"
  | DeleteUserCall string
  | ListRolesCall
  | UpsertRoleCall string string "string list"
  | DeleteRoleCall string
  | ListTokensCall
  | ListCurrentUserTokens
  | CreateTokenCall string string
  | CreateCurrentUserToken string
  | RevokeTokenCall string
  | RevokeCurrentUserToken string

datatype payload =
    Failure | NoContent | SetupStatus bool | LoggedIn auth_session principal | LoggedOut
  | SessionInfo "principal option" bool | Users "auth_user list" | UserDetail auth_user "api_token list"
  | OneUser auth_user | Roles "auth_role list" | OneRole auth_role | Tokens "api_token list" | NewToken api_token string

type_synonym response = "int \<times> payload"

definition sanitizeStoredUser :: "auth_user \<Rightarrow> auth_user" where
  "sanitizeStoredUser u = u\<lparr>us_hash := []\<rparr>"

text \<open>\<open>respond m bad good\<close>: the response to the outcome of \<open>m\<close>.\<close>

definition respond :: "'a auth \<Rightarrow> (auth_error \<Rightarrow> int) \<Rightarrow> ('a \<Rightarrow> response) \<Rightarrow> auth_db \<Rightarrow> response \<times> auth_db" where
  "respond m bad good s = (case m s of (Inl e, s') \<Rightarrow> ((bad e, Failure), s') | (Inr x, s') \<Rightarrow> (good x, s'))"

definition internal_error :: "auth_error \<Rightarrow> int" where "internal_error e = 500"

definition bad_request :: "auth_error \<Rightarrow> int" where "bad_request e = 400"

definition for_current :: "principal option \<Rightarrow> (principal \<Rightarrow> auth_db \<Rightarrow> response \<times> auth_db) \<Rightarrow> auth_db \<Rightarrow> response \<times> auth_db" where
  "for_current p f s = (case p of None \<Rightarrow> ((401, Failure), s) | Some q \<Rightarrow> f q s)"

definition request_user :: "string \<Rightarrow> string \<Rightarrow> bool \<Rightarrow> auth_user" where
  "request_user uid name enabled = \<lparr>us_id = trim_space uid, us_name = trim_space name, us_hash = [], us_enabled = enabled,
     us_roles = [], us_created = None, us_updated = None\<rparr>"

definition request_role :: "string \<Rightarrow> string \<Rightarrow> string list \<Rightarrow> auth_role" where
  "request_role rid name perms = \<lparr>ro_id = trim_space rid, ro_name = trim_space name, ro_builtin = False, ro_perms = perms,
     ro_created = None, ro_updated = None\<rparr>"

text \<open>A third random id is needed for tokens: \<open>tid\<close>.\<close>

fun handle_account ::
  "auth_env \<Rightarrow> string \<Rightarrow> http_request \<Rightarrow> principal option \<Rightarrow> account_call \<Rightarrow> auth_db \<Rightarrow> response \<times> auth_db" where
  "handle_account en tid rq p GetSetupStatus s = respond SetupRequired internal_error (\<lambda>b. (200, SetupStatus b)) s"
| "handle_account en tid rq p (CreateInitialUser name pw) s =
     respond (SetupInitialUser en name pw) (\<lambda>e. if e = SetupCompleted then 409 else 400) (\<lambda>(x, q). (201, LoggedIn x q)) s"
| "handle_account en tid rq p (CreateSession name pw) s =
     respond (AuthenticatePassword en name pw) (\<lambda>e. if e = SetupRequiredFirst then 409 else 401) (\<lambda>(x, q). (200, LoggedIn x q)) s"
| "handle_account en tid rq p GetSession s = respond SetupRequired internal_error (\<lambda>b. (200, SessionInfo p b)) s"
| "handle_account en tid rq p DeleteSession s =
     (case rq_session rq of
        None \<Rightarrow> ((204, LoggedOut), s)
      | Some c \<Rightarrow> ((204, LoggedOut), snd (LogoutSession c s)))"
| "handle_account en tid rq p ListUsersCall s = respond ListUsers internal_error (\<lambda>us. (200, Users (map sanitizeStoredUser us))) s"
| "handle_account en tid rq p (GetUserCall uid) s =
     respond (attempt (GetUser (trim_space uid))
                (\<lambda>u. case u of
                   None \<Rightarrow> give (404, Failure)
                 | Some u \<Rightarrow> attempt (ListTokensByUser (trim_space uid))
                     (\<lambda>ts. give (200, UserDetail (sanitizeStoredUser u) ts)))) internal_error id s"
| "handle_account en tid rq p (UpsertUserCall uid name pw enabled roles) s =
     respond (UpsertUser en (request_user uid name enabled) pw roles) bad_request
       (\<lambda>u. case u of None \<Rightarrow> (500, Failure) | Some u \<Rightarrow> (200, OneUser (sanitizeStoredUser u))) s"
| "handle_account en tid rq p (DeleteUserCall uid) s = respond (DeleteUser (trim_space uid)) internal_error (\<lambda>_. (204, NoContent)) s"
| "handle_account en tid rq p ListRolesCall s = respond ListRoles internal_error (\<lambda>rs. (200, Roles rs)) s"
| "handle_account en tid rq p (UpsertRoleCall rid name perms) s =
     respond (UpsertRole en (request_role rid name perms)) bad_request (\<lambda>r. (200, OneRole r)) s"
| "handle_account en tid rq p (DeleteRoleCall rid) s = respond (DeleteRole (trim_space rid)) internal_error (\<lambda>_. (204, NoContent)) s"
| "handle_account en tid rq p ListTokensCall s = respond ListTokens internal_error (\<lambda>ts. (200, Tokens ts)) s"
| "handle_account en tid rq p ListCurrentUserTokens s =
     for_current p (\<lambda>q. respond (ListTokensByUser (pr_user q)) internal_error (\<lambda>ts. (200, Tokens ts))) s"
| "handle_account en tid rq p (CreateTokenCall uid name) s =
     respond (CreateToken en tid (trim_space uid) (trim_space name)) bad_request (\<lambda>(x, raw). (200, NewToken x raw)) s"
| "handle_account en tid rq p (CreateCurrentUserToken name) s =
     for_current p (\<lambda>q. respond (CreateToken en tid (pr_user q) (trim_space name)) bad_request (\<lambda>(x, raw). (200, NewToken x raw))) s"
| "handle_account en tid rq p (RevokeTokenCall t) s = respond (RevokeToken en (trim_space t)) internal_error (\<lambda>_. (204, NoContent)) s"
| "handle_account en tid rq p (RevokeCurrentUserToken t) s =
     for_current p (\<lambda>q. respond (RevokeTokenForUser en (pr_user q) (trim_space t))
       (\<lambda>e. if e = Forbidden then 403 else 500) (\<lambda>_. (204, NoContent))) s"

end
