(* ===== verification/Auth_Props.thy ===== *)
theory Auth_Props
  imports Auth_Http
begin

text \<open>
  What the accounts guarantee: a request that passes the guards of a route stands for an enabled user with the permissions the
  route demands, by a cookie only with the matching CSRF token on the administration routes; sessions end, revoked tokens
  stay dead through every history of requests, the setup cannot be repeated; and where that fails.
\<close>

section \<open>Who may act\<close>

text \<open>A principal stands for an enabled user, and each of its permissions comes from a role the user has.\<close>

definition entitled :: "auth_db \<Rightarrow> principal \<Rightarrow> bool" where
  "entitled s p \<longleftrightarrow> (\<exists>u \<in> set (au_users s). us_id u = pr_user p \<and> us_enabled u \<and>
     (\<forall>perm \<in> set (pr_perms p). \<exists>r \<in> set (au_roles s). perm \<in> set (ro_perms r) \<and> (us_id u, ro_id r) \<in> set (au_grants s)))"

definition same_accounts :: "auth_db \<Rightarrow> auth_db \<Rightarrow> bool" where
  "same_accounts s t \<longleftrightarrow> au_users t = au_users s \<and> au_roles t = au_roles s \<and> au_grants t = au_grants s"

lemma same_accounts_refl [simp]: "same_accounts s s" by (simp add: same_accounts_def)

lemma same_accounts_trans: "same_accounts s t \<Longrightarrow> same_accounts t u \<Longrightarrow> same_accounts s u"
  by (simp add: same_accounts_def)

lemma entitled_same: "same_accounts s t \<Longrightarrow> entitled t p = entitled s p"
  by (simp add: same_accounts_def entitled_def)

lemma find_found: "find P xs = Some x \<Longrightarrow> x \<in> set xs \<and> P x"
  by (auto simp: find_Some_iff)

lemma query_facts: "query f s = (r, t) \<Longrightarrow> (r = Inr (f s) \<or> r = Inl StoreFailed) \<and> (\<exists>bs. t = s\<lparr>au_fails := bs\<rparr>)"
  by (cases s) (auto simp: query_def split: list.splits)

lemma query_same: "same_accounts s (snd (query f s))"
  by (auto simp: query_def same_accounts_def split: list.split)

text \<open>A statement either changes nothing but the list of failures to come, or does what its function says.\<close>

lemma exec_cases:
  assumes "exec f s = (r, t)"
  obtains e bs where "r = Inl e" "t = s\<lparr>au_fails := bs\<rparr>"
    | bs t' where "r = Inr ()" "t = t'" "f (s\<lparr>au_fails := bs\<rparr>) = Inr t'"
proof (cases "au_fails s")
  case Nil
  then have s: "s\<lparr>au_fails := []\<rparr> = s" by (cases s) simp
  show ?thesis
  proof (cases "f s")
    case (Inl e)
    with Nil assms s that(1) [of e "[]"] show ?thesis by (simp add: exec_def)
  next
    case (Inr u)
    then have "r = Inr ()" "t = u" using Nil assms by (auto simp: exec_def)
    moreover have "f (s\<lparr>au_fails := []\<rparr>) = Inr u" using Inr s by simp
    ultimately show ?thesis by (rule that(2))
  qed
next
  case (Cons b bs)
  with assms that(1) [of _ bs] that(2) [of _ bs] show ?thesis
    by (auto simp: exec_def Let_def split: if_splits sum.splits)
qed

lemma touch_same: "same_accounts s (snd (TouchAuthSession i t s))" "same_accounts s (snd (TouchAuthToken i t s))"
  by (auto simp: TouchAuthSession_def TouchAuthToken_def exec_def same_accounts_def Let_def split: list.split)

lemma principal_ok:
  assumes "principalForUser u s = (Inr p, t)"
  shows "same_accounts s t \<and> pr_user p = us_id u \<and>
    (\<forall>perm \<in> set (pr_perms p). \<exists>r \<in> set (au_roles s). perm \<in> set (ro_perms r) \<and> (us_id u, ro_id r) \<in> set (au_grants s))"
proof -
  let ?k = "\<lambda>ids roles. give \<lparr>pr_user = us_id u, pr_name = us_name u, pr_perms = permissions_of ids roles\<rparr> :: principal auth"
  obtain ids u1 where 1: "ListAuthUserRoleIDs (us_id u) s = (Inr ids, u1)" "attempt ListAuthRoles (?k ids) u1 = (Inr p, t)"
    using attempt_Inr [OF assms [unfolded principalForUser_def]] by blast
  obtain roles u2 where 2: "ListAuthRoles u1 = (Inr roles, u2)" "?k ids roles u2 = (Inr p, t)"
    using attempt_Inr [OF 1(2)] by blast
  have ids: "ids = granted (us_id u) s" "\<exists>bs. u1 = s\<lparr>au_fails := bs\<rparr>"
    using query_facts [OF 1(1) [unfolded ListAuthUserRoleIDs_def]] by auto
  have roles: "set roles = set (au_roles u1)" "\<exists>bs. u2 = u1\<lparr>au_fails := bs\<rparr>"
    using query_facts [OF 2(1) [unfolded ListAuthRoles_def]] by auto
  show ?thesis using 2(2) ids roles
    by (auto simp: give_def same_accounts_def permissions_of_def granted_def) blast
qed

lemma principal_of_id_ok:
  assumes "principal_of_id uid s = (Inr p, t)"
  shows "same_accounts s t \<and> entitled s p \<and> pr_user p = uid"
proof -
  define r u1 where "r = fst (GetAuthUserByID uid s)" "u1 = snd (GetAuthUserByID uid s)"
  note q = query_facts [of "\<lambda>s. find (\<lambda>u. us_id u = uid) (au_users s)" s r u1]
  have "query (\<lambda>s. find (\<lambda>u. us_id u = uid) (au_users s)) s = (r, u1)" by (simp add: r_u1_def GetAuthUserByID_def)
  note q = q [OF this]
  from assms obtain u where u: "r = Inr (Some u)" "us_enabled u" "principalForUser u u1 = (Inr p, t)"
    unfolding principal_of_id_def regardless_eq r_u1_def [symmetric]
    by (auto simp: refuse_def split: sum.splits option.splits if_splits)
  have s: "same_accounts s u1" using q by (auto simp: same_accounts_def)
  have f: "find (\<lambda>u. us_id u = uid) (au_users s) = Some u" using q u(1) by auto
  then have "u \<in> set (au_users s)" "us_id u = uid" by (auto dest: find_found)
  with principal_ok [OF u(3)] s u(2) show ?thesis
    unfolding entitled_def same_accounts_def by auto
qed

lemma session_ok:
  assumes "AuthenticateSession en sid s = (Inr p, t)"
  shows "same_accounts s t \<and> entitled s p \<and>
    (\<exists>x \<in> set (au_sessions s). se_id x = trim_space sid \<and> se_user x = pr_user p \<and> en_now en \<le> se_expires x)"
proof -
  define i where "i = trim_space sid"
  define r u1 where "r = fst (GetAuthSession i s)" "u1 = snd (GetAuthSession i s)"
  have "query (\<lambda>s. find (\<lambda>x. se_id x = i) (au_sessions s)) s = (r, u1)" by (simp add: r_u1_def GetAuthSession_def)
  note q = query_facts [OF this]
  from assms obtain x where x: "r = Inr (Some x)" "\<not> se_expires x < en_now en"
    "principal_of_id (se_user x) (snd (TouchAuthSession i (en_now en) u1)) = (Inr p, t)"
    unfolding AuthenticateSession_def Let_def i_def [symmetric]
    by (auto simp: regardless_eq r_u1_def [symmetric] refuse_def split: sum.splits option.splits if_splits)
  have "same_accounts s u1" using q by (auto simp: same_accounts_def)
  note s = same_accounts_trans [OF this touch_same(1) [of u1 i "en_now en"]]
  have "find (\<lambda>x. se_id x = i) (au_sessions s) = Some x" using q x(1) by auto
  then have "x \<in> set (au_sessions s)" "se_id x = i" by (auto dest: find_found)
  with principal_of_id_ok [OF x(3)] x(2) s entitled_same [OF s, of p] show ?thesis
    by (auto simp: i_def intro: same_accounts_trans)
qed

lemma token_ok:
  assumes "AuthenticateToken en raw s = (Inr p, t)"
  shows "same_accounts s t \<and> entitled s p \<and>
    (\<exists>x \<in> set (au_tokens s). tk_hash x = en_sha en (trim_space raw) \<and> tk_user x = pr_user p \<and> tk_revoked x = None)"
proof -
  define h where "h = en_sha en (trim_space raw)"
  define r u1 where "r = fst (GetAuthTokenByHash h s)" "u1 = snd (GetAuthTokenByHash h s)"
  have "query (\<lambda>s. find (\<lambda>x. tk_hash x = h) (au_tokens s)) s = (r, u1)" by (simp add: r_u1_def GetAuthTokenByHash_def)
  note q = query_facts [OF this]
  from assms obtain x where x: "r = Inr (Some x)" "tk_revoked x = None"
    "principal_of_id (tk_user x) (snd (TouchAuthToken (tk_id x) (en_now en) u1)) = (Inr p, t)"
    unfolding AuthenticateToken_def Let_def h_def [symmetric]
    by (auto simp: regardless_eq r_u1_def [symmetric] refuse_def split: sum.splits option.splits if_splits)
  have "same_accounts s u1" using q by (auto simp: same_accounts_def)
  note s = same_accounts_trans [OF this touch_same(2) [of u1 "tk_id x" "en_now en"]]
  have "find (\<lambda>x. tk_hash x = h) (au_tokens s) = Some x" using q x(1) by auto
  then have "x \<in> set (au_tokens s)" "tk_hash x = h" by (auto dest: find_found)
  with principal_of_id_ok [OF x(3)] x(2) s entitled_same [OF s, of p] show ?thesis
    by (auto simp: h_def intro: same_accounts_trans)
qed

text \<open>What the middlewares ask of a way to authenticate a request.\<close>

locale authenticator =
  fixes authen :: "auth_env option \<Rightarrow> http_request \<Rightarrow> principal auth"
  assumes sound: "authen svc rq s = (Inr p, t) \<Longrightarrow> entitled s p"
    and keeps_accounts: "same_accounts s (snd (authen svc rq s))"
begin

lemma admitted:
  assumes "authen svc rq s = (Inr q, t)" "permitted q perms t = (Inr p, u)"
  shows "u = t \<and> p = Some q \<and> entitled s q \<and> set perms \<subseteq> set (pr_perms q) \<and> same_accounts s u"
proof -
  have "list_all (Has (Some q)) perms" "p = Some q" "u = t"
    using assms(2) by (auto simp: permitted_def split: if_splits)
  moreover have "same_accounts s t" using keeps_accounts [of s svc rq] assms(1) by simp
  ultimately show ?thesis using sound [OF assms(1)] by (auto simp: list_all_iff Has_def)
qed

end

lemma kept_by_attempt: "(\<And>s. same_accounts s (snd (m s))) \<Longrightarrow> (\<And>x s. same_accounts s (snd (k x s))) \<Longrightarrow>
    same_accounts s (snd (attempt m k s))"
  by (auto simp: attempt_def split: prod.split sum.split intro: same_accounts_trans) (metis same_accounts_trans snd_conv)+

lemma kept_by_regardless: "(\<And>s. same_accounts s (snd (m s))) \<Longrightarrow> (\<And>x s. same_accounts s (snd (k x s))) \<Longrightarrow>
    same_accounts s (snd (regardless m k s))"
  by (metis regardless_eq same_accounts_trans)

lemma kept_simple: "same_accounts s (snd (give x s))" "same_accounts s (snd (refuse e s))"
  by (simp_all add: give_def refuse_def)

lemma kept_principal: "same_accounts s (snd (principal_of_id uid s))"
  unfolding principal_of_id_def principalForUser_def GetAuthUserByID_def ListAuthUserRoleIDs_def ListAuthRoles_def
  by (intro kept_by_regardless query_same)
     (auto split: sum.split option.split intro!: kept_by_attempt kept_simple query_same)

lemma kept_session: "same_accounts s (snd (AuthenticateSession en sid s))"
proof -
  have d: "same_accounts s (snd (DeleteAuthSession i s))" for i s
    by (auto simp: DeleteAuthSession_def exec_def same_accounts_def Let_def split: list.split)
  show ?thesis unfolding AuthenticateSession_def Let_def GetAuthSession_def
    by (cases "trim_space sid = []")
       (auto simp: kept_simple split: sum.split option.split
         intro!: kept_by_regardless query_same touch_same kept_principal kept_simple d)
qed

lemma kept_token: "same_accounts s (snd (AuthenticateToken en raw s))"
  unfolding AuthenticateToken_def Let_def GetAuthTokenByHash_def
  by (cases "trim_space raw = []")
     (auto simp: kept_simple split: sum.split option.split
       intro!: kept_by_regardless query_same touch_same kept_principal kept_simple)

interpretation browser: authenticator authenticatePrincipal
proof
  fix svc rq s p t
  assume "authenticatePrincipal svc rq s = (Inr p, t)"
  then show "entitled s p"
    by (auto simp: authenticatePrincipal_def refuse_def split: option.splits if_splits dest!: session_ok token_ok)
next
  fix svc rq s
  show "same_accounts s (snd (authenticatePrincipal svc rq s))"
    by (auto simp: authenticatePrincipal_def kept_session kept_token kept_simple split: option.split)
qed

interpretation api_key: authenticator authenticateAPIKeyPrincipal
proof
  fix svc rq s p t
  assume "authenticateAPIKeyPrincipal svc rq s = (Inr p, t)"
  then show "entitled s p"
    by (auto simp: authenticateAPIKeyPrincipal_def refuse_def Let_def split: option.splits dest!: token_ok)
next
  fix svc rq s
  show "same_accounts s (snd (authenticateAPIKeyPrincipal svc rq s))"
    by (auto simp: authenticateAPIKeyPrincipal_def kept_token kept_simple Let_def split: option.split)
qed

section \<open>Guarded routes\<close>

text \<open>The permissions a guard insists on; \<open>None\<close>: it lets requests without a principal pass.\<close>

fun demands :: "http_request \<Rightarrow> guard \<Rightarrow> string list option" where
  "demands rq (Authn False perms) = Some perms"
| "demands rq (ApiToken perms) = Some perms"
| "demands rq CompatToken =
     Some [if trim_space (rq_mode rq) \<noteq> [] \<or> trim_space (rq_form_mode rq) \<noteq> [] then ''downloader.runtime.read''
           else ''aggregator.releases.read'']"
| "demands rq g = None"

lemma guard_keeps: "run_guard svc g rq p s = (Inr p', t) \<Longrightarrow> same_accounts s t"
proof -
  have b: "same_accounts s t" if "authMiddleware svc opt perms rq p s = (Inr p', t)" for opt perms
    using that browser.keeps_accounts [of s svc rq]
    by (auto simp: authMiddleware_def permitted_def split: prod.splits sum.splits if_splits)
  have a: "same_accounts s t" if "apiTokenMiddleware svc perms rq p s = (Inr p', t)" for perms
    using that api_key.keeps_accounts [of s svc rq]
    by (auto simp: apiTokenMiddleware_def permitted_def split: prod.splits sum.splits if_splits)
  assume "run_guard svc g rq p s = (Inr p', t)"
  then show ?thesis
    by (cases g) (auto simp: bodyLimitMiddleware_def csrfProtectionMiddleware_def compatAPITokenMiddleware_def Let_def
        split: if_splits option.splits intro: a b)
qed

lemma guard_demands:
  assumes "run_guard svc g rq p s = (Inr p', t)" "demands rq g = Some perms"
  shows "\<exists>q. p' = Some q \<and> entitled s q \<and> set perms \<subseteq> set (pr_perms q)"
proof -
  have b: "\<exists>q. p' = Some q \<and> entitled s q \<and> set perms \<subseteq> set (pr_perms q)"
    if "authMiddleware svc False perms rq p s = (Inr p', t)" for perms
    using that browser.admitted [of svc rq s _ _ perms p' t]
    by (fastforce simp: authMiddleware_def split: prod.splits sum.splits)
  have a: "\<exists>q. p' = Some q \<and> entitled s q \<and> set perms \<subseteq> set (pr_perms q)"
    if "apiTokenMiddleware svc perms rq p s = (Inr p', t)" for perms
    using that api_key.admitted [of svc rq s _ _ perms p' t]
    by (fastforce simp: apiTokenMiddleware_def split: prod.splits sum.splits)
  show ?thesis using assms a b
    by (cases "(rq, g)" rule: demands.cases) (auto simp: compatAPITokenMiddleware_def)
qed

lemma guards_demand:
  "run_guards svc gs rq p s = (Inr p', t) \<Longrightarrow> g \<in> set gs \<Longrightarrow> demands rq g = Some perms \<Longrightarrow>
     \<exists>q. entitled s q \<and> set perms \<subseteq> set (pr_perms q)"
proof (induction gs arbitrary: p s)
  case (Cons h gs)
  obtain p1 u where step: "run_guard svc h rq p s = (Inr p1, u)" "run_guards svc gs rq p1 u = (Inr p', t)"
    using Cons.prems(1) by (auto split: prod.splits sum.splits)
  show ?case
  proof (cases "g = h")
    case True
    with guard_demands [OF step(1), of perms] Cons.prems(3) show ?thesis by blast
  next
    case False
    with Cons.IH [OF step(2)] Cons.prems obtain q where "entitled u q" "set perms \<subseteq> set (pr_perms q)" by auto
    with entitled_same [OF guard_keeps [OF step(1)]] show ?thesis by blast
  qed
qed simp

lemma guards_keep: "run_guards svc gs rq p s = (Inr p', t) \<Longrightarrow> same_accounts s t"
proof (induction gs arbitrary: p s)
  case (Cons h gs)
  obtain p1 u where step: "run_guard svc h rq p s = (Inr p1, u)" "run_guards svc gs rq p1 u = (Inr p', t)"
    using Cons.prems(1) by (auto split: prod.splits sum.splits)
  show ?case by (rule same_accounts_trans [OF guard_keeps [OF step(1)] Cons.IH [OF step(2)]])
qed simp

text \<open>The principal of a request that has passed is entitled, also where it is optional.\<close>

lemma guard_principal:
  assumes "run_guard svc g rq p s = (Inr p', t)" "\<forall>q. p = Some q \<longrightarrow> entitled s q" "p' = Some q"
  shows "entitled s q"
proof -
  have "entitled s q" if "authMiddleware svc opt perms rq p s = (Inr p', t)" for opt perms
    using that assms(2,3) browser.admitted [of svc rq s _ _ perms p' t]
    by (fastforce simp: authMiddleware_def split: prod.splits sum.splits if_splits)
  moreover have "entitled s q" if "apiTokenMiddleware svc perms rq p s = (Inr p', t)" for perms
    using that assms(3) api_key.admitted [of svc rq s _ _ perms p' t]
    by (fastforce simp: apiTokenMiddleware_def split: prod.splits sum.splits)
  ultimately show ?thesis using assms
    by (cases g) (auto simp: bodyLimitMiddleware_def csrfProtectionMiddleware_def compatAPITokenMiddleware_def Let_def
        split: if_splits option.splits)
qed

lemma guards_principal:
  "run_guards svc gs rq p s = (Inr p', t) \<Longrightarrow> \<forall>q. p = Some q \<longrightarrow> entitled s q \<Longrightarrow> p' = Some q \<Longrightarrow> entitled s q"
proof (induction gs arbitrary: p s)
  case (Cons h gs)
  obtain p1 u where step: "run_guard svc h rq p s = (Inr p1, u)" "run_guards svc gs rq p1 u = (Inr p', t)"
    using Cons.prems(1) by (auto split: prod.splits sum.splits)
  have "\<forall>q. p1 = Some q \<longrightarrow> entitled u q"
    using guard_principal [OF step(1) Cons.prems(2)] entitled_same [OF guard_keeps [OF step(1)]] by blast
  with Cons.IH [OF step(2) _ Cons.prems(3)] entitled_same [OF guard_keeps [OF step(1)]] show ?case by blast
qed simp


section \<open>Administration\<close>

lemma csrf_passed:
  assumes "run_guards svc gs rq p s = (Inr p', t)" "Csrf \<in> set gs" "\<not> isSafeMethod (rq_method rq)"
    "\<not> usesNonSessionAuth rq" "rq_session rq \<noteq> None"
  shows "\<exists>c. rq_csrf rq = Some c \<and> trim_space c \<noteq> [] \<and> trim_space (rq_csrf_header rq) = c"
  using assms(1,2)
proof (induction gs arbitrary: p s)
  case (Cons h gs)
  obtain p1 u where step: "run_guard svc h rq p s = (Inr p1, u)" "run_guards svc gs rq p1 u = (Inr p', t)"
    using Cons.prems(1) by (auto split: prod.splits sum.splits)
  show ?case
  proof (cases "h = Csrf")
    case True
    with step(1) assms(3-5) show ?thesis
      by (auto simp: csrfProtectionMiddleware_def split: option.splits if_splits)
  next
    case False
    with Cons.IH [OF step(2)] Cons.prems(2) show ?thesis by auto
  qed
qed simp

text \<open>The table: a route under \<open>/api/v1/admin\<close> that changes something has the CSRF guard, and demands a permission that viewers lack.\<close>

definition well_guarded :: "route \<Rightarrow> bool" where
  "well_guarded r \<longleftrightarrow> (is_prefix ''/api/v1/admin'' (rt_path r) \<and> \<not> isSafeMethod (rt_method r) \<longrightarrow>
     Csrf \<in> set (rt_guards r) \<and>
     list_ex (\<lambda>perm. perm \<notin> set viewer_permissions \<and> list_ex (\<lambda>g. g = Authn False [perm]) (rt_guards r)) admin_permissions)"

lemma table_guarded: "list_all well_guarded (RegisterRoutes \<lparr>mo_api = True, mo_aggregator = True, mo_indexer = True, mo_downloader = True\<rparr> True True)"
  by code_simp

lemma routes_subset: "set (RegisterRoutes mo settings accounts) \<subseteq>
    set (RegisterRoutes \<lparr>mo_api = True, mo_aggregator = True, mo_indexer = True, mo_downloader = True\<rparr> True True)"
  by (auto simp: RegisterRoutes_def)


section \<open>Histories of accounts\<close>

text \<open>An invariant of sessions and tokens: kept by everything that leaves both tables alone and by each of the operations on them.\<close>

locale session_token_invariant =
  fixes I :: "auth_db \<Rightarrow> bool"
  assumes others: "I s \<Longrightarrow> au_sessions t = au_sessions s \<Longrightarrow> au_tokens t = au_tokens s \<Longrightarrow> I t"
    and session_added: "I s \<Longrightarrow> se_expires x = se_created x + week \<Longrightarrow> I (s\<lparr>au_sessions := au_sessions s @ [x]\<rparr>)"
    and session_touched: "I s \<Longrightarrow> I (s\<lparr>au_sessions := map (\<lambda>x. if se_id x = i then x\<lparr>se_seen := t0\<rparr> else x) (au_sessions s)\<rparr>)"
    and session_removed: "I s \<Longrightarrow> I (s\<lparr>au_sessions := filter (\<lambda>x. se_id x \<noteq> i) (au_sessions s)\<rparr>)"
    and token_added: "I s \<Longrightarrow> \<forall>y \<in> set (au_tokens s). tk_id y \<noteq> tk_id k \<and> tk_hash y \<noteq> tk_hash k \<Longrightarrow> tk_revoked k = None \<Longrightarrow>
      I (s\<lparr>au_tokens := au_tokens s @ [k]\<rparr>)"
    and token_touched: "I s \<Longrightarrow> I (s\<lparr>au_tokens := map (\<lambda>x. if tk_id x = i then x\<lparr>tk_used := Some t0\<rparr> else x) (au_tokens s)\<rparr>)"
    and token_revoked: "I s \<Longrightarrow> I (s\<lparr>au_tokens := map (\<lambda>x. if tk_id x = i then x\<lparr>tk_revoked := Some t0\<rparr> else x) (au_tokens s)\<rparr>)"
begin

definition through :: "'a auth \<Rightarrow> bool" where
  "through m \<longleftrightarrow> (\<forall>s. I s \<longrightarrow> I (snd (m s)))"

lemma through_then:
  "through m \<Longrightarrow> (\<And>x. through (k x)) \<Longrightarrow> through (attempt m k)"
  "through m \<Longrightarrow> (\<And>x. through (k' x)) \<Longrightarrow> through (regardless m k')"
  by (fastforce simp: through_def attempt_def regardless_def split: prod.split sum.split)+

lemma through_simple: "through (give x)" "through (refuse e)"
  by (simp_all add: through_def give_def refuse_def)

lemma through_query: "through (query f)"
  by (auto simp: through_def query_def split: list.split intro: others)

lemma through_exec:
  assumes "\<And>s t. I s \<Longrightarrow> f s = Inr t \<Longrightarrow> I t"
  shows "through (exec f)"
  unfolding through_def
proof (intro allI impI)
  fix s assume "I s"
  then have fails: "I (s\<lparr>au_fails := bs\<rparr>)" for bs by (rule others) simp_all
  show "I (snd (exec f s))"
    by (rule exec_cases [of f s "fst (exec f s)" "snd (exec f s)"]) (auto intro: fails assms)
qed

lemma through_other_exec:
  "(\<And>s t. f s = Inr t \<Longrightarrow> au_sessions t = au_sessions s \<and> au_tokens t = au_tokens s) \<Longrightarrow> through (exec f)"
  by (rule through_exec) (blast intro: others)

lemma put_role_tables: "put_role r s = Inr t \<Longrightarrow> au_sessions t = au_sessions s \<and> au_tokens t = au_tokens s"
  by (auto simp: put_role_def split: if_splits)

lemma through_other_statements:
  "through (CreateInitialAuthUser u rs)" "through (UpsertAuthUser u)" "through (DeleteAuthUser uid)"
  "through (ReplaceAuthUserRoles uid rs)" "through (UpsertAuthRole r)" "through (DeleteAuthRole rid)"
  unfolding CreateInitialAuthUser_def UpsertAuthUser_def DeleteAuthUser_def ReplaceAuthUserRoles_def UpsertAuthRole_def
    DeleteAuthRole_def
  by (rule through_other_exec; auto simp: insert_user_def dest: put_role_tables split: if_splits sum.splits)+

lemma through_own_statements:
  "se_expires x = se_created x + week \<Longrightarrow> through (CreateAuthSession x)" "through (TouchAuthSession i t0)"
  "through (DeleteAuthSession i)" "tk_revoked k = None \<Longrightarrow> through (CreateAuthToken k)" "through (TouchAuthToken i t0)"
  "through (RevokeAuthToken t0 i)"
  unfolding CreateAuthSession_def TouchAuthSession_def DeleteAuthSession_def CreateAuthToken_def
    TouchAuthToken_def RevokeAuthToken_def
  by (rule through_exec; auto simp: list_ex_iff session_added session_touched session_removed token_added token_touched
      token_revoked split: if_splits)+

lemmas through_statements = through_other_statements through_own_statements

lemma through_with_roles: "through (with_roles us)"
  by (induction us) (auto simp: ListAuthUserRoleIDs_def intro!: through_simple through_then through_query)

lemmas through_rules = through_simple through_query through_statements through_with_roles

lemma through_open: "through (open_session en sid u)"
  unfolding open_session_def Let_def principalForUser_def ListAuthUserRoleIDs_def ListAuthRoles_def
  by (intro through_then through_rules) (simp add: new_session_def)

lemma through_hydrate: "through (hydrateStoredUser u)"
  by (cases u) (auto simp: hydrateStoredUser_def ListAuthUserRoleIDs_def intro!: through_then through_rules)

lemma through_service:
  "through SetupRequired" "through (SetupInitialUser en name pw)" "through (AuthenticatePassword en name pw)"
  "through (LogoutSession sid)" "through ListUsers" "through (GetUser uid)" "through (UpsertUser en u pw rs)"
  "through (DeleteUser uid)" "through ListRoles" "through (UpsertRole en r)" "through (DeleteRole rid)" "through ListTokens"
  "through (ListTokensByUser uid)" "through (CreateToken en tid uid name)" "through (RevokeToken en tid)"
  "through (RevokeTokenForUser en uid tid)"
  unfolding SetupRequired_def SetupInitialUser_def AuthenticatePassword_def LogoutSession_def ListUsers_def GetUser_def
    UpsertUser_def chosen_hash_def DeleteUser_def ListRoles_def UpsertRole_def DeleteRole_def ListTokens_def ListTokensByUser_def
    CreateToken_def RevokeToken_def RevokeTokenForUser_def Let_def CountAuthUsers_def GetAuthUserByUsername_def
    ListAuthUsers_def GetAuthUserByID_def ListAuthRoles_def ListAuthTokens_def ListAuthTokensByUserID_def GetAuthTokenByID_def
  by (auto intro!: through_then through_rules through_open through_hydrate split: option.split sum.split)
lemma through_authenticate: "through (AuthenticateSession en sid)" "through (AuthenticateToken en raw)"
  unfolding AuthenticateSession_def AuthenticateToken_def Let_def principal_of_id_def principalForUser_def
    GetAuthSession_def GetAuthTokenByHash_def GetAuthUserByID_def ListAuthUserRoleIDs_def ListAuthRoles_def
  by (auto intro!: through_then through_rules split: option.split sum.split)

lemma through_guard: "I s \<Longrightarrow> I (snd (run_guard svc g rq p s))"
proof -
  have a: "through (authenticatePrincipal svc rq)" "through (authenticateAPIKeyPrincipal svc rq)"
    unfolding authenticatePrincipal_def authenticateAPIKeyPrincipal_def Let_def
    by (auto intro: through_authenticate through_simple split: option.split)
  have b: "snd (permitted q perms t) = t" for q perms t by (simp add: permitted_def)
  have c: "I (snd (authMiddleware svc opt perms rq p s))" "I (snd (apiTokenMiddleware svc perms rq p s))" if "I s" for opt perms
    using a that unfolding through_def authMiddleware_def apiTokenMiddleware_def
    by (fastforce simp: b split: prod.split sum.split)+
  assume "I s"
  with c show ?thesis
    by (cases g) (auto simp: bodyLimitMiddleware_def csrfProtectionMiddleware_def compatAPITokenMiddleware_def Let_def
        split: option.split)
qed

lemma through_guards: "I s \<Longrightarrow> I (snd (run_guards svc gs rq p s))"
proof (induction gs arbitrary: p s)
  case (Cons g gs)
  obtain r u where g: "run_guard svc g rq p s = (r, u)" by fastforce
  with through_guard [OF Cons.prems, of svc g rq p] have "I u" by simp
  with Cons.IH g show ?case by (cases r) simp_all
qed simp

lemma through_respond: "through m \<Longrightarrow> I s \<Longrightarrow> I (snd (respond m bad good s))"
  unfolding through_def respond_def by (cases "m s"; cases "fst (m s)"; fastforce)

lemma through_handler: "I s \<Longrightarrow> I (snd (handle_account en tid rq p call s))"
proof (cases call)
  case (GetUserCall uid)
  assume "I s"
  then show ?thesis unfolding GetUserCall handle_account.simps
    by (intro through_respond) (auto intro!: through_then through_service through_simple split: option.split)
next
  case DeleteSession
  assume "I s"
  with through_service(4) show ?thesis unfolding DeleteSession by (simp add: through_def split: option.split)
qed (auto simp: for_current_def split: option.split intro!: through_respond through_service)

end

text \<open>What happens to the accounts: a request meets the guards of a route, a handler runs, the server starts.\<close>

datatype account_event =
    Guarded "auth_env option" "guard list" http_request
  | Handled auth_env string http_request "principal option" account_call
  | Started auth_env

fun account_step :: "account_event \<Rightarrow> auth_db \<Rightarrow> auth_db" where
  "account_step (Guarded svc gs rq) s = snd (run_guards svc gs rq None s)"
| "account_step (Handled en tid rq p call) s = snd (handle_account en tid rq p call s)"
| "account_step (Started en) s = snd (Bootstrap en s)"

context session_token_invariant begin

lemma put_roles_tables: "put_roles rs s = Inr t \<Longrightarrow> au_sessions t = au_sessions s \<and> au_tokens t = au_tokens s"
  by (induction rs arbitrary: s) (auto split: sum.splits dest: put_role_tables)

lemma through_step: "I s \<Longrightarrow> I (account_step ev s)"
proof (cases ev)
  case (Started en)
  assume "I s"
  moreover have "through (Bootstrap en)"
    unfolding Bootstrap_def EnsureAuthDefaults_def by (rule through_other_exec) (rule put_roles_tables)
  ultimately show ?thesis by (simp add: Started through_def)
qed (auto simp: through_guards through_handler)

lemma through_history: "I s \<Longrightarrow> I (fold account_step evs s)"
  by (induction evs arbitrary: s) (auto simp: through_step)

end

section \<open>Sessions end, tokens stay revoked\<close>

definition weekly :: "auth_db \<Rightarrow> bool" where
  "weekly s \<longleftrightarrow> (\<forall>x \<in> set (au_sessions s). se_expires x = se_created x + week)"

interpretation weekly: session_token_invariant weekly
  by unfold_locales (auto simp: weekly_def)

text \<open>A hash whose token is there and revoked.\<close>

definition dead :: "string \<Rightarrow> auth_db \<Rightarrow> bool" where
  "dead h s \<longleftrightarrow> h \<in> set (map tk_hash (au_tokens s)) \<and> (\<forall>x \<in> set (au_tokens s). tk_hash x = h \<longrightarrow> tk_revoked x \<noteq> None)"

lemma hashes_kept:
  "map tk_hash (map (\<lambda>x. if P x then x\<lparr>tk_used := u\<rparr> else x) xs) = map tk_hash xs"
  "map tk_hash (map (\<lambda>x. if P x then x\<lparr>tk_revoked := u\<rparr> else x) xs) = map tk_hash xs"
  by (induction xs) auto

interpretation dead: session_token_invariant "dead h" for h
proof
  fix s i t0
  assume "dead h s"
  then show "dead h (s\<lparr>au_tokens := map (\<lambda>x. if tk_id x = i then x\<lparr>tk_used := Some t0\<rparr> else x) (au_tokens s)\<rparr>)"
    "dead h (s\<lparr>au_tokens := map (\<lambda>x. if tk_id x = i then x\<lparr>tk_revoked := Some t0\<rparr> else x) (au_tokens s)\<rparr>)"
    unfolding dead_def auth_db.simps hashes_kept by auto
qed (auto simp: dead_def)

text \<open>C17: A session lives for a week and nothing prolongs it: after any history of requests that began without sessions, a
  session id is accepted only within a week of the log-in that created its session, and then for the user who logged in.\<close>

theorem session_ends_after_a_week:
  assumes "au_sessions s0 = []" "AuthenticateSession en sid (fold account_step evs s0) = (Inr p, t)"
  shows "\<exists>x \<in> set (au_sessions (fold account_step evs s0)). se_id x = trim_space sid \<and> se_user x = pr_user p \<and>
    en_now en \<le> se_created x + week"
proof -
  have "weekly (fold account_step evs s0)" by (rule weekly.through_history) (simp add: weekly_def assms(1))
  with session_ok [OF assms(2)] show ?thesis by (auto simp: weekly_def)
qed

text \<open>C18: A revoked token stays dead: once every row with its hash is marked revoked, no history of requests - log-ins, new tokens,
  changes of users and roles, restarts - makes a secret with that hash acceptable again.\<close>

theorem revoked_token_stays_dead:
  assumes "dead (en_sha en (trim_space raw)) s"
  shows "\<exists>e. fst (AuthenticateToken en raw (fold account_step evs s)) = Inl e"
proof (cases "AuthenticateToken en raw (fold account_step evs s)")
  case (Pair r t)
  have "dead (en_sha en (trim_space raw)) (fold account_step evs s)" by (rule dead.through_history [OF assms])
  with token_ok [of en raw "fold account_step evs s" _ t] Pair show ?thesis
    by (cases r) (auto simp: dead_def)
qed

section \<open>What responses show\<close>

fun hashes_in :: "payload \<Rightarrow> string list" where
  "hashes_in (Users us) = map us_hash us"
| "hashes_in (UserDetail u ts) = us_hash u # map tk_hash ts"
| "hashes_in (OneUser u) = [us_hash u]"
| "hashes_in (Tokens ts) = map tk_hash ts"
| "hashes_in (NewToken x raw) = [tk_hash x]"
| "hashes_in _ = []"

definition tokens_hidden :: "auth_error + api_token list \<Rightarrow> bool" where
  "tokens_hidden r \<longleftrightarrow> (case r of Inl _ \<Rightarrow> True | Inr ts \<Rightarrow> \<forall>x \<in> set ts. tk_hash x = [])"

lemma lists_hidden: "tokens_hidden (fst (ListTokens s))" "tokens_hidden (fst (ListTokensByUser uid s))"
  by (auto simp: tokens_hidden_def ListTokens_def ListAuthTokens_def ListTokensByUser_def ListAuthTokensByUserID_def
      query_def token_view_def split: list.split)

lemma created_hidden: "CreateToken en tid uid name s = (Inr (x, raw), t) \<Longrightarrow> tk_hash x = []"
  by (auto simp: CreateToken_def Let_def give_def token_view_def dest!: attempt_Inr)

lemma respond_hides:
  "(\<And>x t. m s = (Inr x, t) \<Longrightarrow> set (hashes_in (snd (good x))) \<subseteq> {[]}) \<Longrightarrow>
     set (hashes_in (snd (fst (respond m bad good s)))) \<subseteq> {[]}"
  by (auto simp: respond_def split: prod.split sum.split)

text \<open>No response of the account API contains a password hash or the hash of a token.\<close>

theorem responses_hide_hashes:
  "set (hashes_in (snd (fst (handle_account en tid rq p call s)))) \<subseteq> {[]}"
proof (cases call)
  case (GetUserCall uid)
  show ?thesis unfolding GetUserCall handle_account.simps
  proof (rule respond_hides)
    fix x t assume "attempt (GetUser (trim_space uid)) (\<lambda>u. case u of None \<Rightarrow> give (404, Failure)
      | Some u \<Rightarrow> attempt (ListTokensByUser (trim_space uid)) (\<lambda>ts. give (200, UserDetail (sanitizeStoredUser u) ts))) s = (Inr x, t)"
    from attempt_Inr [OF this] obtain y v where y: "(case y of None \<Rightarrow> give (404, Failure)
      | Some u \<Rightarrow> attempt (ListTokensByUser (trim_space uid)) (\<lambda>ts. give (200, UserDetail (sanitizeStoredUser u) ts))) v = (Inr x, t)"
      by blast
    show "set (hashes_in (snd (id x))) \<subseteq> {[]}"
    proof (cases y)
      case (Some u)
      with y obtain ts w where "ListTokensByUser (trim_space uid) v = (Inr ts, w)" "x = (200, UserDetail (sanitizeStoredUser u) ts)"
        by (auto simp: give_def dest!: attempt_Inr)
      then show ?thesis using lists_hidden(2) [of "trim_space uid" v] by (auto simp: tokens_hidden_def sanitizeStoredUser_def)
    qed (use y in \<open>auto simp: give_def\<close>)
  qed
next
  case (CreateTokenCall uid name)
  show ?thesis unfolding CreateTokenCall handle_account.simps by (rule respond_hides) (auto dest: created_hidden)
next
  case (CreateCurrentUserToken name)
  have "set (hashes_in (snd (fst (respond (CreateToken en tid uid name) bad_request (\<lambda>(x, raw). (200, NewToken x raw)) s)))) \<subseteq> {[]}"
    for uid name by (rule respond_hides) (auto dest: created_hidden)
  then show ?thesis unfolding CreateCurrentUserToken handle_account.simps for_current_def
    by (cases p) simp_all
next
  case ListTokensCall
  show ?thesis unfolding ListTokensCall handle_account.simps
    by (rule respond_hides) (use lists_hidden(1) [of s] in \<open>auto simp: tokens_hidden_def\<close>)
next
  case ListCurrentUserTokens
  show ?thesis unfolding ListCurrentUserTokens handle_account.simps for_current_def
  proof (cases p)
    case (Some q)
    have "set (hashes_in (snd (fst (respond (ListTokensByUser (pr_user q)) internal_error (\<lambda>ts. (200, Tokens ts)) s)))) \<subseteq> {[]}"
      by (rule respond_hides) (use lists_hidden(2) [of "pr_user q" s] in \<open>auto simp: tokens_hidden_def\<close>)
    then show "set (hashes_in (snd (fst (case p of None \<Rightarrow> ((401, Failure), s)
      | Some q \<Rightarrow> respond (ListTokensByUser (pr_user q)) internal_error (\<lambda>ts. (200, Tokens ts)) s)))) \<subseteq> {[]}" by (simp add: Some)
  qed simp
qed (auto simp: for_current_def respond_def sanitizeStoredUser_def split: option.splits prod.splits sum.splits)

section \<open>Setting up\<close>

text \<open>The setup happens once: while there is a user, the setup request is refused, and users, roles and grants stay as they are.\<close>

theorem setup_only_once:
  assumes "au_users s \<noteq> []"
  shows "fst (fst (handle_account en tid rq p (CreateInitialUser name pw) s)) \<noteq> 201 \<and>
    same_accounts s (snd (handle_account en tid rq p (CreateInitialUser name pw) s)) \<and>
    au_sessions (snd (handle_account en tid rq p (CreateInitialUser name pw) s)) = au_sessions s"
proof -
  have c: "\<exists>e bs. CreateInitialAuthUser u rs s = (Inl e, s\<lparr>au_fails := bs\<rparr>)" for u rs
    by (rule exec_cases [of _ s "fst (CreateInitialAuthUser u rs s)" "snd (CreateInitialAuthUser u rs s)"])
       (use assms in \<open>auto simp: CreateInitialAuthUser_def prod_eq_iff\<close>)
  have "\<exists>e bs. SetupInitialUser en name pw s = (Inl e, s) \<or> SetupInitialUser en name pw s = (Inl e, s\<lparr>au_fails := bs\<rparr>)"
  proof (cases "length (trim_space name) < 3 \<or> validatePassword pw \<noteq> None \<or> (\<exists>e. en_bcrypt en pw = Inl e)")
    case True
    then show ?thesis by (auto simp: SetupInitialUser_def Let_def refuse_def split: option.split sum.split)
  next
    case False
    then obtain h where "en_bcrypt en pw = Inr h" by (cases "en_bcrypt en pw") auto
    moreover obtain e bs where "CreateInitialAuthUser \<lparr>us_id = en_id en, us_name = trim_space name, us_hash = h, us_enabled = True,
        us_roles = [], us_created = Some (en_now en), us_updated = Some (en_now en)\<rparr> [''admin''] s = (Inl e, s\<lparr>au_fails := bs\<rparr>)"
      using c by blast
    ultimately show ?thesis using False by (auto simp: SetupInitialUser_def Let_def attempt_def)
  qed
  then show ?thesis by (auto simp: respond_def same_accounts_def split: if_splits)
qed

section \<open>Where the guards fail\<close>

lemma route_member: "r \<in> set rs \<Longrightarrow> r \<in> set (rs @ rs')" "r \<in> set rs' \<Longrightarrow> r \<in> set (rs @ rs')"
  by simp_all

definition pause_route :: route where
  "pause_route = \<lparr>rt_method = ''POST'', rt_path = ''/api/v1/indexer/stages/:stage/pause'',
     rt_guards = [default_limit, need ''indexer.releases.read'']\<rparr>"

text \<open>With the indexer enabled, whoever may read releases - a viewer - may also pause its stages: the public route that
  pauses a stage asks for no other permission, and for no CSRF token.\<close>

theorem reader_may_pause_stages:
  assumes "mo_api mo" "mo_indexer mo" "authenticatePrincipal svc rq s = (Inr q, t)" "''indexer.releases.read'' \<in> set (pr_perms q)"
    and "rq_length rq \<le> 1048576"
  shows "pause_route \<in> set (RegisterRoutes mo settings accounts) \<and> run_guards svc (rt_guards pause_route) rq None s = (Inr (Some q), t)"
proof
  have "pause_route \<in> set indexer_routes" by (simp add: pause_route_def indexer_routes_def route_group_def)
  with assms(1,2) show "pause_route \<in> set (RegisterRoutes mo settings accounts)" by (simp add: RegisterRoutes_def)
  show "run_guards svc (rt_guards pause_route) rq None s = (Inr (Some q), t)"
    using assms(3-5) by (simp add: pause_route_def bodyLimitMiddleware_def Let_def authMiddleware_def permitted_def Has_def)
qed

text \<open>A built-in role can be deleted after all. Deleting it is refused silently, but saving it through the API marks it as not
  built in (the request has no such field), and then the deletion removes it; administrators lose
  every permission until the next start.\<close>

theorem builtin_role_can_be_deleted:
  assumes "au_fails s = []" "trim_space rid = rid" "rid \<noteq> []" "\<forall>r \<in> set (au_roles s). ro_id r = rid \<longrightarrow> ro_builtin r"
    and "\<forall>r \<in> set (au_roles s). ro_name r = trim_space name \<longrightarrow> ro_id r = rid" "\<exists>r \<in> set (au_roles s). ro_id r = rid"
  shows "au_roles (snd (handle_account en tid rq p (DeleteRoleCall rid) s)) = au_roles s \<and>
    (let t = snd (handle_account en tid rq p (UpsertRoleCall rid name perms) s)
     in fst (handle_account en tid rq p (DeleteRoleCall rid) t) = (204, NoContent) \<and>
        (\<forall>r \<in> set (au_roles (snd (handle_account en tid rq p (DeleteRoleCall rid) t))). ro_id r \<noteq> rid))"
proof -
  have "filter (\<lambda>r. \<not> (ro_id r = rid \<and> \<not> ro_builtin r)) (au_roles s) = au_roles s"
    using assms(4) by (auto simp: filter_id_conv)
  then have "au_roles (snd (handle_account en tid rq p (DeleteRoleCall rid) s)) = au_roles s"
    by (simp add: respond_def DeleteRole_def DeleteAuthRole_def exec_def assms(1,2))
  moreover define t where "t = snd (handle_account en tid rq p (UpsertRoleCall rid name perms) s)"
  have "au_fails t = [] \<and> (\<forall>r \<in> set (au_roles t). ro_id r = rid \<longrightarrow> \<not> ro_builtin r)"
    using assms unfolding t_def
    by (auto simp: respond_def UpsertRole_def UpsertAuthRole_def request_role_def Let_def attempt_def exec_def put_role_def
        list_ex_iff ListAuthRoles_def query_def give_def split: prod.splits sum.splits if_splits list.splits)
  then have "fst (handle_account en tid rq p (DeleteRoleCall rid) t) = (204, NoContent) \<and>
      (\<forall>r \<in> set (au_roles (snd (handle_account en tid rq p (DeleteRoleCall rid) t))). ro_id r \<noteq> rid)"
    by (auto simp: respond_def DeleteRole_def DeleteAuthRole_def exec_def assms(2))
  ultimately show ?thesis by (simp add: t_def Let_def)
qed

lemma find_snoc: "find P xs = None \<Longrightarrow> find P (xs @ [y]) = (if P y then Some y else None)"
  by (induction xs) (auto split: if_splits)

text \<open>C19: A deleted user is not gone: its sessions stay in the table (no foreign key is enforced). They are refused while the user is
  missing, but when a user is saved under the same id again - the request may name the id - the old session is accepted
  as the new user.\<close>

theorem deleted_user_comes_back:
  assumes "au_fails s = []" "find (\<lambda>x. se_id x = sid) (au_sessions s) = Some x" "en_now en \<le> se_expires x" "se_user x = uid"
    and "trim_space sid = sid" "sid \<noteq> []" "trim_space uid = uid" "uid \<noteq> []"
    and "12 \<le> length pw" "trim_space pw \<noteq> []" "en_bcrypt en pw = Inr h" "h \<noteq> []"
    and "\<forall>u \<in> set (au_users s). us_name u = trim_space name \<longrightarrow> us_id u = uid"
    and "t = snd (handle_account en tid rq p (DeleteUserCall uid) s)"
    and "u = snd (handle_account en tid rq p (UpsertUserCall uid name pw True roles) t)"
  shows "fst (AuthenticateSession en sid t) = Inl Unauthorized \<and>
    (\<exists>q. fst (AuthenticateSession en sid u) = Inr q \<and> pr_user q = uid)"
proof -
  have t: "t = s\<lparr>au_users := filter (\<lambda>v. us_id v \<noteq> uid) (au_users s)\<rparr>"
    by (simp add: assms(14) respond_def DeleteUser_def DeleteAuthUser_def exec_def assms(1,7))
  have none: "find (\<lambda>v. us_id v = uid) (au_users t) = None" by (auto simp: t find_None_iff)
  have name: "\<not> list_ex (\<lambda>v. us_name v = trim_space name \<and> us_id v \<noteq> uid) (au_users t)"
    "\<not> list_ex (\<lambda>v. us_id v = uid) (au_users t)"
    using assms(13) by (auto simp: t list_ex_iff)
  define new where "new = \<lparr>us_id = uid, us_name = trim_space name, us_hash = h, us_enabled = True, us_roles = [],
    us_created = Some (en_now en), us_updated = Some (en_now en)\<rparr>"
  have fails: "au_fails t = []" by (simp add: t assms(1))
  have "UpsertAuthUser new t = (Inr (), t\<lparr>au_users := au_users t @ [new]\<rparr>)"
    using name fails by (simp add: UpsertAuthUser_def exec_def new_def stored_user_def)
  note ups = this [unfolded new_def]
  have u: "au_users u = au_users t @ [new] \<and> au_sessions u = au_sessions t \<and> au_fails u = []"
    using assms(7-12) fails none
    by (simp add: assms(15) respond_def UpsertUser_def request_user_def chosen_hash_def validatePassword_def Let_def attempt_def give_def
        ups ReplaceAuthUserRoles_def exec_def GetAuthUserByID_def query_def hydrateStoredUser_def ListAuthUserRoleIDs_def
        new_def split: prod.split sum.split option.split)
  have "find (\<lambda>v. us_id v = uid) (au_users u) = Some new"
    using u none find_snoc [of "\<lambda>v. us_id v = uid" "au_users t" new] by (simp add: new_def)
  then have "principal_of_id uid v = principalForUser new v" if "au_users v = au_users u" "au_fails v = []" for v
    using that by (simp add: principal_of_id_def regardless_def GetAuthUserByID_def query_def new_def)
  moreover have "\<exists>q. fst (principalForUser new v) = Inr q \<and> pr_user q = uid" if "au_fails v = []" for v
    using that by (simp add: principalForUser_def attempt_def ListAuthUserRoleIDs_def query_def ListAuthRoles_def give_def new_def)
  moreover have "principal_of_id uid v = (Inl Unauthorized, v)" if "au_users v = au_users t" "au_fails v = []" for v
    using that none by (simp add: principal_of_id_def regardless_def GetAuthUserByID_def query_def refuse_def)
  ultimately show ?thesis
    using assms(2-6) u fails
    by (simp add: AuthenticateSession_def GetAuthSession_def regardless_def query_def TouchAuthSession_def exec_def t split: prod.split)
qed

section \<open>Accounts at work\<close>

text \<open>An environment in which the hash of a text is the text itself.\<close>

definition plain_env :: "int \<Rightarrow> string \<Rightarrow> auth_env" where
  "plain_env now fresh = \<lparr>en_now = now, en_id = fresh, en_id2 = fresh @ ''-s'', en_bcrypt = Inr, en_matches = (=), en_sha = id\<rparr>"

definition no_accounts :: auth_db where
  "no_accounts = \<lparr>au_fails = [], au_users = [], au_roles = [], au_grants = [], au_sessions = [], au_tokens = []\<rparr>"

definition plain_request :: "string \<Rightarrow> string \<Rightarrow> http_request" where
  "plain_request meth sid = \<lparr>rq_method = meth, rq_authorization = [], rq_session = Some sid, rq_csrf = Some ''c'', rq_csrf_header = ''c'',
     rq_apikey = [], rq_xapikey = [], rq_mode = [], rq_form_mode = [], rq_content_type = [], rq_length = 0, rq_within_rate = True\<rparr>"

definition call_at :: "int \<Rightarrow> string \<Rightarrow> account_call \<Rightarrow> account_event" where
  "call_at now fresh call = Handled (plain_env now fresh) (fresh @ ''-t'') (plain_request ''POST'' []) None call"

text \<open>The server starts, the owner sets it up and adds a viewer, who logs in and gets a token, which is revoked.\<close>

definition first_day :: "account_event list" where
  "first_day = [Started (plain_env 0 []), call_at 1 ''o'' (CreateInitialUser ''owner'' ''owner-owner-1''),
     call_at 2 ''v'' (UpsertUserCall [] ''viewer1'' ''viewer-viewer'' True [''viewer'']),
     call_at 3 ''vs'' (CreateSession ''viewer1'' ''viewer-viewer''),
     call_at 4 ''k'' (CreateTokenCall ''v'' ''cli''), call_at 5 [] (RevokeTokenCall ''k-t'')]"

definition accounts1 :: auth_db where "accounts1 = fold account_step first_day no_accounts"

lemma accounts1_facts:
  "au_fails accounts1 = []" "map us_id (au_users accounts1) = [''o'', ''v'']"
  "map (\<lambda>x. (se_id x, se_user x)) (au_sessions accounts1) = [(''o-s'', ''o''), (''vs'', ''v'')]"
  "map (\<lambda>x. (tk_hash x, tk_revoked x)) (au_tokens accounts1) = [(''kk-s'', Some 5)]"
  by code_simp+

lemma accounts1_viewer:
  "fst (AuthenticateSession (plain_env 6 []) ''vs'' accounts1) = Inr \<lparr>pr_user = ''v'', pr_name = ''viewer1'', pr_perms = viewer_permissions\<rparr>"
  by code_simp

lemma accounts1_owner:
  "map_sum id pr_user (fst (AuthenticateSession (plain_env 6 []) ''o-s'' accounts1)) = Inr ''o''"
  by code_simp


lemma browse_viewer:
  "\<exists>t. authenticatePrincipal (Some (plain_env 6 [])) (plain_request m ''vs'') accounts1 =
     (Inr \<lparr>pr_user = ''v'', pr_name = ''viewer1'', pr_perms = viewer_permissions\<rparr>, t)"
  using accounts1_viewer
  by (cases "AuthenticateSession (plain_env 6 []) ''vs'' accounts1") (simp add: authenticatePrincipal_def plain_request_def)

lemma reader_may_pause_stages_witness:
  "\<exists>t q. run_guards (Some (plain_env 6 [])) (rt_guards pause_route) (plain_request ''POST'' ''vs'') None accounts1 = (Inr (Some q), t) \<and>
     pr_user q = ''v''"
proof -
  obtain t where "authenticatePrincipal (Some (plain_env 6 [])) (plain_request ''POST'' ''vs'') accounts1 =
     (Inr \<lparr>pr_user = ''v'', pr_name = ''viewer1'', pr_perms = viewer_permissions\<rparr>, t)" using browse_viewer by blast
  from reader_may_pause_stages [OF _ _ this, of "\<lparr>mo_api = True, mo_aggregator = False, mo_indexer = True, mo_downloader = False\<rparr>"]
  show ?thesis by (auto simp: viewer_permissions_def plain_request_def)
qed


definition delete_user_route :: route where
  "delete_user_route = \<lparr>rt_method = ''DELETE'', rt_path = ''/api/v1/admin/auth/users/:id'',
     rt_guards = [admin_limit, Csrf, Audit ''admin.auth'', need ''auth.users.write'']\<rparr>"

lemma owner_deletes:
  "(case fst (run_guards (Some (plain_env 6 [])) (rt_guards delete_user_route) (plain_request ''DELETE'' ''o-s'') None accounts1)
    of Inl _ \<Rightarrow> False | Inr _ \<Rightarrow> True)"
  by code_simp


lemma session_ends_after_a_week_witness:
  "\<exists>x \<in> set (au_sessions accounts1). se_id x = ''vs'' \<and> 6 \<le> se_created x + week"
proof -
  obtain t where "AuthenticateSession (plain_env 6 []) ''vs'' (fold account_step first_day no_accounts) =
      (Inr \<lparr>pr_user = ''v'', pr_name = ''viewer1'', pr_perms = viewer_permissions\<rparr>, t)"
    using accounts1_viewer by (cases "AuthenticateSession (plain_env 6 []) ''vs'' accounts1") (simp add: accounts1_def)
  moreover have "trim_space ''vs'' = ''vs''" by code_simp
  ultimately show ?thesis
    using session_ends_after_a_week [of no_accounts "plain_env 6 []" "''vs''" first_day]
    by (auto simp: no_accounts_def plain_env_def accounts1_def)
qed

lemma revoked_token_stays_dead_witness:
  "\<exists>e. fst (AuthenticateToken (plain_env 9 []) ''kk-s''
      (fold account_step [call_at 7 ''m'' (CreateTokenCall ''v'' ''again''), Started (plain_env 8 [])] accounts1)) = Inl e"
proof -
  have "dead (en_sha (plain_env 9 []) (trim_space ''kk-s'')) accounts1" by code_simp
  from revoked_token_stays_dead [OF this] show ?thesis .
qed

lemma setup_only_once_witness:
  "fst (fst (handle_account (plain_env 6 ''x'') [] (plain_request ''POST'' []) None (CreateInitialUser ''mallory'' ''mallory-mallory'') accounts1)) \<noteq> 201"
proof -
  have "au_users accounts1 \<noteq> []" using accounts1_facts(2) by auto
  from setup_only_once [OF this] show ?thesis by blast
qed

lemma builtin_role_can_be_deleted_witness:
  "let s = snd (Bootstrap (plain_env 0 []) no_accounts); h = handle_account (plain_env 1 []) [] (plain_request ''POST'' []) None;
       t = snd (h (UpsertRoleCall ''admin'' ''Admin'' []) s)
   in fst (h (DeleteRoleCall ''admin'') t) = (204, NoContent) \<and> (\<forall>r \<in> set (au_roles (snd (h (DeleteRoleCall ''admin'') t))). ro_id r \<noteq> ''admin'')"
proof -
  have s: "snd (Bootstrap (plain_env 0 []) no_accounts) = no_accounts\<lparr>au_roles := map (\<lambda>r. r\<lparr>ro_created := Some 0, ro_updated := Some 0\<rparr>) DefaultRoles\<rparr>"
    by (simp add: Bootstrap_def EnsureAuthDefaults_def DefaultRoles_def builtin_role_def exec_def no_accounts_def put_role_def plain_env_def)
  have t: "trim_space ''admin'' = ''admin''" "trim_space ''Admin'' = ''Admin''" by code_simp+
  show ?thesis unfolding Let_def
    by (rule builtin_role_can_be_deleted [THEN conjunct2, unfolded Let_def])
       (simp_all add: s t, simp_all add: no_accounts_def DefaultRoles_def builtin_role_def)
qed

lemma deleted_user_comes_back_witness:
  "let h = handle_account (plain_env 6 ''n'') [] (plain_request ''POST'' []) None; t = snd (h (DeleteUserCall ''v'') accounts1);
       u = snd (h (UpsertUserCall ''v'' ''somebody'' ''new-password-1'' True [''admin'']) t)
   in fst (AuthenticateSession (plain_env 6 ''n'') ''vs'' t) = Inl Unauthorized \<and>
      (\<exists>q. fst (AuthenticateSession (plain_env 6 ''n'') ''vs'' u) = Inr q \<and> pr_user q = ''v'')"
proof -
  have f: "find (\<lambda>x. se_id x = ''vs'') (au_sessions accounts1) =
      Some \<lparr>se_id = ''vs'', se_user = ''v'', se_expires = 3 + week, se_created = 3, se_seen = 3\<rparr>" by code_simp
  have t: "trim_space ''vs'' = ''vs''" "trim_space ''v'' = ''v''" "trim_space ''somebody'' = ''somebody''" "trim_space ''new-password-1'' \<noteq> []" by code_simp+
  have n: "\<forall>u \<in> set (au_users accounts1). us_name u = trim_space ''somebody'' \<longrightarrow> us_id u = ''v''" unfolding t by code_simp
  have b: "en_bcrypt (plain_env 6 ''n'') ''new-password-1'' = Inr ''new-password-1''" by (simp add: plain_env_def)
  show ?thesis unfolding Let_def
    by (rule deleted_user_comes_back [OF accounts1_facts(1) f _ _ t(1) _ t(2) _ _ t(4) b _ n refl refl])
       (simp_all add: week_def plain_env_def)
qed

end
