(* ===== verification/Go_Places.thy ===== *)
theory Go_Places
  imports Go_Path
begin

text \<open>
  Where a path name leads: the elements of its absolute, cleaned form, and how joining, cleaning, taking the directory
  and relative paths act on them.
\<close>

section \<open>Cleaning twice\<close>

text \<open>The stack of \<open>clean_elems\<close>: nothing but elements it keeps, and dot-dots at the bottom.\<close>

fun clean_stack :: "string list \<Rightarrow> bool" where
  "clean_stack [] = True"
| "clean_stack (e # out) = (if e = ''..'' then list_all (\<lambda>x. x = ''..'') out else ordinary e \<and> clean_stack out)"

lemma dots_clean: "list_all (\<lambda>x. x = ''..'') out \<Longrightarrow> clean_stack out"
  by (induction out) auto

lemma clean_stack_pop: "clean_stack (e # out) \<Longrightarrow> clean_stack out"
  by (auto split: if_splits intro: dots_clean)

lemma element_cases:
  assumes "CHR ''/'' \<notin> set e"
  obtains "e = [] \<or> e = ''.''" | "e = ''..''" | "ordinary e"
  using assms by (auto simp: ordinary_def)

lemma clean_elems_stack:
  "clean_stack out \<Longrightarrow> \<forall>e\<in>set es. CHR ''/'' \<notin> set e \<Longrightarrow> clean_stack (rev (clean_elems r out es))"
proof (induction es arbitrary: out)
  case (Cons e es)
  note IH = Cons.IH [OF _ ballI] Cons.prems
  from IH(3) have "CHR ''/'' \<notin> set e" by simp
  then show ?case
  proof (cases rule: element_cases)
    case 2
    then show ?thesis using IH by (cases out) (auto simp: clean_stack_pop)
  qed (use IH in \<open>auto simp: ordinary_def\<close>)
qed simp

lemma clean_elems_ordinary: "list_all ordinary fs \<Longrightarrow> clean_elems r out (xs @ fs) = clean_elems r out xs @ fs"
proof (induction r out xs rule: clean_elems.induct)
  case (1 r out)
  then show ?case by (simp add: clean_ordinary)
qed (auto split: list.split)

text \<open>Cleaning a path before it is appended to another changes nothing.\<close>

lemma clean_elems_twice:
  "clean_stack acc \<Longrightarrow> \<forall>e\<in>set es. CHR ''/'' \<notin> set e \<Longrightarrow>
   clean_elems True out (clean_elems False acc es) = clean_elems True (rev (clean_elems True out (rev acc))) es"
proof (induction es arbitrary: acc)
  case (Cons e es)
  have app: "clean_elems True out (xs @ ys) = clean_elems True (rev (clean_elems True out xs)) ys" for xs ys
    by (induction True out xs rule: clean_elems.induct) (auto split: list.split)
  from Cons.prems have "CHR ''/'' \<notin> set e" by simp
  then show ?case
  proof (cases rule: element_cases)
    case 2
    show ?thesis
    proof (cases acc)
      case Nil
      then show ?thesis using 2 Cons app [of "rev acc" "[e]"] by (auto split: list.splits)
    next
      case (Cons p ps)
      show ?thesis
      proof (cases "p = ''..''")
        case True
        then show ?thesis using 2 Cons Cons.IH [of "e # acc"] Cons.prems Cons.prems(1) local.Cons app [of "rev acc" "[e]"]
          by (auto split: list.splits)
      next
        case False
        then have "ordinary p" using Cons.prems(1) local.Cons by simp
        then show ?thesis
          using 2 False local.Cons Cons.IH [of ps] Cons.prems clean_stack_pop [of p ps] app [of "rev ps" "[p]"]
          by (auto simp: ordinary_def)
      qed
    qed
  next
    case 3
    then have "clean_elems True X [e] = rev (e # X)" for X by (simp add: ordinary_def)
    then show ?thesis using 3 Cons.IH [of "e # acc"] Cons.prems app [of "rev acc" "[e]"] by (auto simp: ordinary_def)
  qed (use Cons in auto)
qed simp

section \<open>Places\<close>

text \<open>The elements of the absolute path of \<open>p\<close> in the working directory \<open>cwd\<close>.\<close>

definition place_of :: "string \<Rightarrow> string \<Rightarrow> string list" where
  "place_of cwd p = path_elems (path_abs cwd p)"

definition start_of :: "string \<Rightarrow> string \<Rightarrow> string list" where
  "start_of cwd p = (if rooted p then [] else rev (path_elems (clean_path cwd)))"

lemma split_no_slash [simp]: "e \<in> set (split_slash [] s) \<Longrightarrow> CHR ''/'' \<notin> set e"
  using split_slash_no_slash [of "[]"] by simp

lemma split_join_any: "es \<noteq> [] \<Longrightarrow> \<forall>e\<in>set es. CHR ''/'' \<notin> set e \<Longrightarrow> split_slash [] (join_slash es) = es"
proof (induction es rule: join_slash.induct)
  case (2 e)
  then show ?case using split_slash_plain [of e "[]" "[]"] by simp
next
  case (3 e f es)
  then show ?case using split_slash_plain [of e "[]" "CHR ''/'' # join_slash (f # es)"] by simp
qed simp

lemma place_ordinary: "rooted cwd \<Longrightarrow> list_all ordinary (place_of cwd p)"
  using path_abs_rooted [of cwd p] by (auto simp: place_of_def)

lemma start_ordinary:
  assumes "rooted cwd"
  shows "list_all ordinary (start_of cwd p)"
proof -
  obtain C where "clean_path cwd = path_of C" "list_all ordinary C" using clean_rooted [OF assms] .
  then show ?thesis by (simp add: start_of_def)
qed

lemma place_elems:
  assumes "rooted cwd"
  shows "place_of cwd p = clean_elems True (start_of cwd p) (split_slash [] p)"
proof (cases "rooted p")
  case True
  then have p: "p \<noteq> []" "hd p = CHR ''/''" by (cases p; simp add: rooted_def)+
  let ?es = "clean_elems True [] (split_slash [] p)"
  have "list_all ordinary ?es" by (rule clean_elems_rooted) auto
  then show ?thesis using True p elems_path_of [of ?es]
    by (simp add: place_of_def path_abs_def start_of_def clean_path_def path_of_def [symmetric])
next
  case False
  obtain C where C: "clean_path cwd = path_of C" "list_all ordinary C" using clean_rooted [OF assms] .
  have st: "start_of cwd p = rev C" using False C by (simp add: start_of_def)
  have o: "list_all ordinary (clean_elems True (rev C) (split_slash [] p))"
    by (rule clean_elems_rooted) (use C in \<open>auto simp: list_all_iff\<close>)
  have n: "cwd \<noteq> []" "hd cwd = CHR ''/''" using assms by (cases cwd; simp add: rooted_def)+
  have "clean_path (cwd @ CHR ''/'' # p) = path_of (clean_elems True [] (split_slash [] cwd @ split_slash [] p))"
    using n by (simp add: clean_path_def split_slash_append path_of_def)
  also have "clean_elems True [] (split_slash [] cwd @ split_slash [] p) = clean_elems True (rev C) (split_slash [] p)"
  proof -
    have "clean_elems True out (xs @ ys) = clean_elems True (rev (clean_elems True out xs)) ys" for out xs ys
      by (induction True out xs rule: clean_elems.induct) (auto split: list.split)
    moreover have "list_all ordinary (clean_elems True [] (split_slash [] cwd))" by (rule clean_elems_rooted) auto
    then have "clean_elems True [] (split_slash [] cwd) = C" using C n by (simp add: clean_path_def path_of_def [symmetric])
    ultimately show ?thesis by simp
  qed
  finally have c: "clean_path (cwd @ CHR ''/'' # p) = path_of (clean_elems True (rev C) (split_slash [] p))" .
  show ?thesis
  proof (cases "p = []")
    case True
    then show ?thesis using False n C st by (simp add: place_of_def path_abs_def path_join_def clean_ordinary)
  next
    case p: False
    then show ?thesis using False n c st o by (simp add: place_of_def path_abs_def path_join_def)
  qed
qed

lemma cleaned_elements: "\<forall>e\<in>set (clean_elems r [] (split_slash [] p)). e \<noteq> [] \<and> CHR ''/'' \<notin> set e"
proof -
  have "list_all (\<lambda>e. e \<noteq> [] \<and> CHR ''/'' \<notin> set e) xs" if "clean_stack xs" for xs
    using that by (induction xs) (auto simp: ordinary_def list_all_iff split: if_splits)
  from this [OF clean_elems_stack [of "[]" "split_slash [] p" r]] show ?thesis by (simp add: list_all_iff)
qed

lemma clean_path_ne: "clean_path p \<noteq> []"
proof -
  have "join_slash es \<noteq> []" if "es \<noteq> []" "\<forall>e\<in>set es. e \<noteq> []" for es
    using that by (cases es; cases "tl es") auto
  then show ?thesis using cleaned_elements [of False p] by (auto simp: clean_path_def Let_def)
qed

lemma place_clean:
  assumes "rooted cwd" "p \<noteq> []"
  shows "place_of cwd (clean_path p) = place_of cwd p"
proof (cases "rooted p")
  case True
  then obtain es where "clean_path p = path_of es" "list_all ordinary es" using clean_rooted by blast
  with True show ?thesis by (simp add: place_of_def path_abs_def)
next
  case False
  let ?es = "clean_elems False [] (split_slash [] p)"
  note e = cleaned_elements [of False p]
  have h: "hd p \<noteq> CHR ''/''" using False assms(2) by (cases p) (auto simp: rooted_def)
  have r: "\<not> rooted (clean_path p)"
  proof (cases ?es)
    case (Cons x xs)
    with e have "x \<noteq> []" "hd x \<noteq> CHR ''/''" by (auto simp: neq_Nil_conv)
    then show ?thesis using Cons h assms(2) by (cases xs; cases x) (auto simp: clean_path_def rooted_def)
  qed (use h assms(2) in \<open>simp add: clean_path_def rooted_def\<close>)
  have s: "start_of cwd (clean_path p) = start_of cwd p" using r False by (simp add: start_of_def)
  have t: "clean_elems True out ?es = clean_elems True out (split_slash [] p)" if "list_all ordinary out" for out
    using clean_elems_twice [of "[]" "split_slash [] p" out] by simp
  show ?thesis
  proof (cases "?es = []")
    case True
    then have "clean_path p = ''.''" using h assms(2) by (simp add: clean_path_def)
    then show ?thesis
      using place_elems [OF assms(1), of p] place_elems [OF assms(1), of "''.''"] s t [OF start_ordinary [OF assms(1)], of p] True by simp
  next
    case ne: False
    then have "clean_path p = join_slash ?es" using h assms(2) by (simp add: clean_path_def)
    moreover have "split_slash [] (join_slash ?es) = ?es" using split_join_any [OF ne] e by blast
    ultimately show ?thesis
      using place_elems [OF assms(1)] s t [OF start_ordinary [OF assms(1)], of p] by metis
  qed
qed

lemma place_join:
  assumes "rooted cwd" "b \<noteq> []" "fs \<noteq> []" "list_all ordinary fs"
  shows "place_of cwd (path_join b (join_slash fs)) = place_of cwd b @ fs"
proof -
  have j: "path_join b (join_slash fs) = clean_path (b @ CHR ''/'' # join_slash fs)"
    using assms by (simp add: path_join_def)
  have r: "rooted (b @ x) = rooted b" for x using assms(2) by (cases b) (auto simp: rooted_def)
  note a = clean_elems_ordinary [OF assms(4), of True]
  show ?thesis unfolding j
    using place_clean [OF assms(1), of "b @ CHR ''/'' # join_slash fs"] place_elems [OF assms(1)] split_join [OF assms(3,4)] r
    by (simp add: split_slash_append start_of_def a)
qed

lemma place_snoc:
  assumes "rooted cwd" "b \<noteq> []" "ordinary e"
  shows "place_of cwd (path_join b e) = place_of cwd b @ [e]"
  using place_join [of cwd b "[e]"] assms by simp

lemma place_dir:
  assumes "rooted cwd" "p \<noteq> []" "ordinary (last (split_slash [] p))"
  shows "place_of cwd p = place_of cwd (dir_name p) @ [last (split_slash [] p)]" "base_name p = last (split_slash [] p)"
proof -
  define e where "e = last (split_slash [] p)"
  define q where "q = rev (dropWhile (\<lambda>c. c \<noteq> CHR ''/'') (rev p))"
  define t where "t = rev (takeWhile (\<lambda>c. c \<noteq> CHR ''/'') (rev p))"
  have p: "p = q @ t" unfolding q_def t_def by (metis rev_append rev_rev_ident takeWhile_dropWhile_id)
  have t: "CHR ''/'' \<notin> set t" unfolding t_def using set_takeWhileD by fastforce
  have o: "ordinary e" using assms(3) by (simp add: e_def)
  have a: "clean_elems True out (xs @ [y]) = clean_elems True out xs @ [y]" if "ordinary y" for out xs y
    using clean_elems_ordinary [of "[y]"] that by simp
  have *: "place_of cwd p = place_of cwd (dir_name p) @ [e] \<and> e = t"
  proof (cases "q = []")
    case True
    then have s: "split_slash [] p = [t]" using p split_slash_plain [OF t, of "[]" "[]"] by simp
    then have e: "e = t" by (simp add: e_def)
    have "hd t \<noteq> CHR ''/''" "t \<noteq> []" using t o e by (cases t; auto simp: ordinary_def)+
    then have r: "\<not> rooted p" using p True by (cases t) (auto simp: rooted_def)
    have "dir_name p = ''.''" using True by (simp add: dir_name_def q_def [symmetric] clean_path_def)
    moreover have "place_of cwd ''.'' = clean_elems True (start_of cwd p) []"
      using place_elems [OF assms(1), of "''.''"] r by (simp add: start_of_def rooted_def)
    ultimately show ?thesis using place_elems [OF assms(1), of p] s e o r a [of t _ "[]"] by simp
  next
    case False
    have "hd (dropWhile (\<lambda>x. x \<noteq> CHR ''/'') (rev p)) = CHR ''/''"
      using False hd_dropWhile [of "\<lambda>x. x \<noteq> CHR ''/''" "rev p"] by (simp add: q_def)
    with False have l: "last q = CHR ''/''" by (simp only: q_def last_rev rev_is_Nil_conv not_False_eq_True)
    then obtain q' where q: "q = q' @ CHR ''/'' # []" using False by (metis append_butlast_last_id)
    have s: "split_slash [] p = split_slash [] q' @ [t]"
      using p q t split_slash_plain [OF t, of "[]" "[]"] by (simp add: split_slash_append)
    then have e: "e = t" by (simp add: e_def)
    have sq: "split_slash [] q = split_slash [] q' @ [[]]" using q by (simp add: split_slash_append)
    have "rooted q = rooted p" using p False by (cases q) (auto simp: rooted_def)
    moreover have "place_of cwd (dir_name p) = place_of cwd q"
      using place_clean [OF assms(1) False] by (simp add: dir_name_def q_def [symmetric])
    ultimately show ?thesis using place_elems [OF assms(1)] s sq e o a [of t] clean_elems_snoc_empty by (simp add: start_of_def)
  qed
  then show "place_of cwd p = place_of cwd (dir_name p) @ [last (split_slash [] p)]" by (simp add: e_def)
  from * o have "t \<noteq> []" "last t \<noteq> CHR ''/''" using t by (auto simp: ordinary_def) (metis last_in_set)
  then have "dropWhile (\<lambda>c. c = CHR ''/'') (rev p) = rev p" using p by (cases t rule: rev_cases) auto
  then show "base_name p = last (split_slash [] p)" using assms(2) by (simp add: base_name_def)
qed

lemma drop_common_split: "drop_common bs ts = (bs', ts') \<Longrightarrow> \<exists>cs. bs = cs @ bs' \<and> ts = cs @ ts'"
proof (induction bs ts arbitrary: bs' ts' rule: drop_common.induct)
  case (1 b bs t ts)
  show ?case
  proof (cases "b = t")
    case True
    with 1 obtain cs where "bs = cs @ bs' \<and> ts = cs @ ts'" by auto
    with True have "b # bs = (b # cs) @ bs' \<and> t # ts = (b # cs) @ ts'" by simp
    then show ?thesis by blast
  qed (use 1 in auto)
qed auto

lemma clean_stack_end: "clean_stack (rev es) \<Longrightarrow> es = cs @ t # ts \<Longrightarrow> t \<noteq> ''..'' \<Longrightarrow> list_all ordinary (t # ts)"
proof (induction es arbitrary: ts rule: rev_induct)
  case (snoc e es)
  show ?case
  proof (cases ts rule: rev_cases)
    case Nil
    with snoc.prems show ?thesis by (auto split: if_splits)
  next
    case (snoc us u)
    with snoc.prems have e: "e = u" "es = cs @ t # us" by auto
    then have "\<not> list_all (\<lambda>x. x = ''..'') (rev es)" using snoc.prems(3) by simp
    with snoc.prems(1) have "ordinary e" "clean_stack (rev es)" by (auto split: if_splits)
    with snoc.IH [OF _ e(2) snoc.prems(3)] show ?thesis using e snoc by simp
  qed
qed simp

lemma join_slash_Cons: "es \<noteq> [] \<Longrightarrow> join_slash (e # es) = e @ CHR ''/'' # join_slash es"
  by (cases es) auto

lemma join_split: "join_slash (split_slash acc s) = rev acc @ s"
  by (induction acc s rule: split_slash.induct) (auto simp: join_slash_Cons split_slash_ne)

lemma path_elems_inject: "rooted a = rooted b \<Longrightarrow> path_elems a = path_elems b \<Longrightarrow> a = b"
proof -
  assume r: "rooted a = rooted b" and e: "path_elems a = path_elems b"
  have i: "(if p = [] then [] else split_slash [] p) = (if q = [] then [] else split_slash [] q) \<Longrightarrow> p = q" for p q
    by (metis append_Nil join_split rev.simps(1) split_slash_ne)
  show ?thesis
  proof (cases "rooted a")
    case True
    then have "a = CHR ''/'' # tl a" "b = CHR ''/'' # tl b" using r by (cases a; cases b; simp add: rooted_def)+
    moreover have "tl a = tl b" using i [of "tl a" "tl b"] e True r by (simp add: path_elems_def Let_def)
    ultimately show ?thesis by metis
  qed (use i [of a b] e r in \<open>simp add: path_elems_def Let_def\<close>)
qed

lemma clean_elements:
  assumes "p \<noteq> []" "path_elems (clean_path p) = cs @ t # ts" "t \<noteq> ''..''" "t # ts \<noteq> [''.'']"
  shows "list_all ordinary (t # ts)"
proof (cases "rooted p")
  case True
  then obtain es where "clean_path p = path_of es" "list_all ordinary es" using clean_rooted by blast
  with assms(2) show ?thesis by simp
next
  case False
  let ?es = "clean_elems False [] (split_slash [] p)"
  have st: "clean_stack (rev ?es)" by (rule clean_elems_stack) auto
  note e = cleaned_elements [of False p]
  have h: "hd p \<noteq> CHR ''/''" using False assms(1) by (cases p) (auto simp: rooted_def)
  show ?thesis
  proof (cases "?es = []")
    case True
    then have "clean_path p = ''.''" using h assms(1) by (simp add: clean_path_def)
    then have "path_elems (clean_path p) = [''.'']" by (simp add: path_elems_def rooted_def)
    with assms(2,4) show ?thesis by (cases cs) auto
  next
    case ne: False
    then obtain x xs where x: "?es = x # xs" "x \<noteq> []" "hd x \<noteq> CHR ''/''" using e by (cases ?es) (auto simp: neq_Nil_conv)
    have c: "clean_path p = join_slash ?es" using ne h assms(1) by (simp add: clean_path_def)
    then have "\<not> rooted (clean_path p) \<and> clean_path p \<noteq> []" using x by (cases xs; cases x) (auto simp: rooted_def)
    moreover have "split_slash [] (join_slash ?es) = ?es" using split_join_any [OF ne] e by blast
    ultimately have "path_elems (clean_path p) = ?es" by (simp add: path_elems_def c)
    with clean_stack_end [OF st] assms(2,3) show ?thesis by metis
  qed
qed

text \<open>A relative path that does not go up consists of elements that \<open>Clean\<close> keeps.\<close>

lemma path_rel_down:
  assumes "path_rel bas targ = Some rel" "rel \<noteq> ''.''" "rel \<noteq> ''..''" "\<not> is_prefix ''../'' rel" "targ \<noteq> []"
  obtains fs where "rel = join_slash fs" "fs \<noteq> []" "list_all ordinary fs"
proof -
  define b where "b = (if clean_path bas = ''.'' then [] else clean_path bas)"
  obtain bs ts where d: "drop_common (path_elems b) (path_elems (clean_path targ)) = (bs, ts)" by fastforce
  have ne: "clean_path targ \<noteq> clean_path bas" using assms(1,2) by (auto simp: path_rel_def Let_def split: if_splits)
  then have r: "rooted b = rooted (clean_path targ)"
    and rel: "rel = (if bs = [] then join_slash ts else join_slash (replicate (length bs) ''..'' @ ts))"
    using assms(1) d unfolding path_rel_def Let_def b_def [symmetric] by (auto split: if_splits)
  have up: "join_slash (''..'' # xs) = ''..'' \<or> is_prefix ''../'' (join_slash (''..'' # xs))" for xs
    by (cases xs) auto
  have bs: "bs = []"
  proof (rule ccontr)
    assume "bs \<noteq> []"
    then have "rel = join_slash (''..'' # (replicate (length bs - 1) ''..'' @ ts))" using rel by (cases bs) auto
    with up assms(3,4) show False by metis
  qed
  obtain cs where cs: "path_elems (clean_path targ) = cs @ ts" "path_elems b = cs" using drop_common_split [OF d] bs by auto
  have "ts \<noteq> []"
  proof
    assume "ts = []"
    then have eq: "clean_path targ = b" using cs path_elems_inject [of "clean_path targ" b] r by simp
    from eq ne show False using clean_path_ne [of targ] by (auto simp: b_def split: if_splits)
  qed
  then obtain t us where t: "ts = t # us" by (cases ts) auto
  have "t \<noteq> ''..''" using up [of us] rel bs t assms(3,4) by auto
  moreover have "ts \<noteq> [''.'']" using rel bs assms(2) by auto
  ultimately have "list_all ordinary ts" using clean_elements [OF assms(5)] cs t by metis
  with that [of ts] t rel bs show thesis by simp
qed

lemma last_of_join:
  assumes "b \<noteq> []" "fs \<noteq> []" "list_all ordinary fs"
  shows "last (split_slash [] (path_join b (join_slash fs))) = last fs"
proof -
  let ?p = "b @ CHR ''/'' # join_slash fs"
  have j: "path_join b (join_slash fs) = clean_path ?p" using assms by (simp add: path_join_def)
  have e: "clean_elems r [] (split_slash [] ?p) = clean_elems r [] (split_slash [] b) @ fs" for r
    using clean_elems_ordinary [OF assms(3)] split_join [OF assms(2,3)] by (simp add: split_slash_append)
  have n: "clean_elems r [] (split_slash [] ?p) \<noteq> []" for r using assms(2) by (simp add: e)
  have s: "split_slash [] (join_slash (clean_elems r [] (split_slash [] ?p))) = clean_elems r [] (split_slash [] ?p)" for r
    using split_join_any [OF n] cleaned_elements by blast
  show ?thesis
  proof (cases "rooted ?p")
    case True
    then have "clean_path ?p = CHR ''/'' # join_slash (clean_elems True [] (split_slash [] ?p))"
      using assms(1) by (cases b) (auto simp: clean_path_def rooted_def)
    then show ?thesis using s [of True] n [of True] assms(2) by (simp add: j e)
  next
    case False
    then have "clean_path ?p = join_slash (clean_elems False [] (split_slash [] ?p))"
      using assms(1) n [of False] by (cases b) (auto simp: clean_path_def rooted_def)
    then show ?thesis using s [of False] assms(2) by (simp add: j e)
  qed
qed

end
