(* ===== verification/Go_Os.thy ===== *)
theory Go_Os
  imports Go_Places Go_Effects File_Writer "HOL-Library.List_Lexorder" "HOL-Library.Char_ord"
begin

text \<open>
  Files, as far as the program uses the package \<open>os\<close> on Unix. A path resolves to the list of its elements; the tree
  lists the directories and files by such lists, except the root, which is always there. There are no symbolic links.

  \<open>os_faults\<close> says, for the calls to come, whether the system fails them: \<open>Some k\<close> is a failure (a call that
  writes has then written \<open>k\<close> bytes); when the list is used up nothing fails. \<open>os_ctx\<close> holds what the polls of the
  context to come will see. \<open>os_handles\<close> are the paths the file writer (\<open>File_Writer\<close>) has open.
\<close>

section \<open>State and errors\<close>

datatype node = DirNode | FileNode "byte list"

type_synonym place = "string list"

record os =
  os_tree :: "(place \<times> node) list"
  os_cwd :: string
  os_handles :: "string list"
  os_faults :: "nat option list"
  os_ctx :: "bool list"

text \<open>\<open>Wrapped\<close> is \<open>fmt.Errorf\<close> with \<open>%w\<close>; with \<open>%v\<close> only the text remains, \<open>Flat\<close>.\<close>

datatype go_error = NotExist | SysFailed | Canceled | ExitStatus int | Wrapped string go_error | Flat string go_error | Message string

fun errors_is :: "go_error \<Rightarrow> go_error \<Rightarrow> bool" where
  "errors_is target (Wrapped m e) = (Wrapped m e = target \<or> errors_is target e)"
| "errors_is target e = (e = target)"

text \<open>The text of an error, as \<open>err.Error()\<close> gives it.\<close>

fun error_text :: "go_error \<Rightarrow> string" where
  "error_text (Wrapped m e) = m @ '': '' @ error_text e"
| "error_text (Flat m e) = m @ '': '' @ error_text e"
| "error_text (Message m) = m"
| "error_text NotExist = ''file does not exist''"
| "error_text Canceled = ''context canceled''"
| "error_text (ExitStatus n) = ''exit status '' @ itoa n"
| "error_text SysFailed = ''input/output error''"

type_synonym 'a io = "(os, go_error, 'a) op"

definition look :: "os \<Rightarrow> place \<Rightarrow> node option" where
  "look s q = (if q = [] then Some DirNode else map_of (os_tree s) q)"

definition put_node :: "place \<Rightarrow> node \<Rightarrow> os \<Rightarrow> os" where
  "put_node q n s = s\<lparr>os_tree := (q, n) # filter (\<lambda>x. fst x \<noteq> q) (os_tree s)\<rparr>"

definition drop_node :: "place \<Rightarrow> os \<Rightarrow> os" where
  "drop_node q s = s\<lparr>os_tree := filter (\<lambda>x. fst x \<noteq> q) (os_tree s)\<rparr>"

definition resolve :: "os \<Rightarrow> string \<Rightarrow> place" where
  "resolve s p = place_of (os_cwd s) p"

text \<open>The places on the way to a place, and why it is not there: a file on the way is another error than
  something missing.\<close>

definition ways :: "place \<Rightarrow> place list" where
  "ways q = map (\<lambda>n. take n q) [0..<length q]"

definition is_file :: "node option \<Rightarrow> bool" where
  "is_file n \<longleftrightarrow> (case n of Some (FileNode _) \<Rightarrow> True | _ \<Rightarrow> False)"

definition absent :: "os \<Rightarrow> place \<Rightarrow> go_error" where
  "absent s q = (if list_ex (\<lambda>w. is_file (look s w)) (ways q) then SysFailed else NotExist)"

definition below :: "place \<Rightarrow> place \<Rightarrow> bool" where
  "below d q \<longleftrightarrow> length d < length q \<and> take (length d) q = d"

definition children :: "os \<Rightarrow> place \<Rightarrow> place list" where
  "children s d = filter (\<lambda>q. q \<noteq> [] \<and> butlast q = d) (remdups (map fst (os_tree s)))"

section \<open>Calls\<close>

definition sys :: "(nat \<Rightarrow> 'a io) \<Rightarrow> 'a io \<Rightarrow> 'a io" where
  "sys broken f s =
     (case os_faults s of
        [] \<Rightarrow> f s
      | b # bs \<Rightarrow> (let s = s\<lparr>os_faults := bs\<rparr> in case b of None \<Rightarrow> f s | Some k \<Rightarrow> broken k s))"

definition call :: "'a io \<Rightarrow> 'a io" where
  "call f = sys (\<lambda>k. refuse SysFailed) f"

definition poll_ctx :: "bool io" where
  "poll_ctx s = (case os_ctx s of [] \<Rightarrow> (Inr False, s) | b # bs \<Rightarrow> (Inr b, s\<lparr>os_ctx := bs\<rparr>))"

definition Stat :: "string \<Rightarrow> node io" where
  "Stat p = call (\<lambda>s. case look s (resolve s p) of None \<Rightarrow> (Inl (absent s (resolve s p)), s) | Some n \<Rightarrow> (Inr n, s))"

definition make_dirs :: "place list \<Rightarrow> os \<Rightarrow> os" where
  "make_dirs ws s = fold (\<lambda>w s. if look s w = None then put_node w DirNode s else s) ws s"

definition MkdirAll :: "string \<Rightarrow> unit io" where
  "MkdirAll p = call (\<lambda>s.
     let ws = ways (resolve s p) @ [resolve s p]
     in if list_ex (\<lambda>w. is_file (look s w)) ws then (Inl SysFailed, s) else (Inr (), make_dirs ws s))"

definition Remove :: "string \<Rightarrow> unit io" where
  "Remove p = call (\<lambda>s.
     let q = resolve s p
     in case look s q of
          None \<Rightarrow> (Inl (absent s q), s)
        | Some (FileNode _) \<Rightarrow> (Inr (), drop_node q s)
        | Some DirNode \<Rightarrow> (if q = [] \<or> children s q \<noteq> [] then (Inl SysFailed, s) else (Inr (), drop_node q s)))"

definition RemoveAll :: "string \<Rightarrow> unit io" where
  "RemoveAll p = call (\<lambda>s.
     let q = resolve s p
     in if q = [] then (Inl SysFailed, s) else (Inr (), s\<lparr>os_tree := filter (\<lambda>x. fst x \<noteq> q \<and> \<not> below q (fst x)) (os_tree s)\<rparr>))"

text \<open>\<open>os.Rename\<close> refuses an existing directory as the new name before the system call; a directory moves with
  everything below it.\<close>

definition move_tree :: "place \<Rightarrow> place \<Rightarrow> os \<Rightarrow> os" where
  "move_tree a b s =
     s\<lparr>os_tree := map (\<lambda>(q, n). if q = a \<or> below a q then (b @ drop (length a) q, n) else (q, n))
        (filter (\<lambda>x. fst x \<noteq> b) (os_tree s))\<rparr>"

definition Rename :: "string \<Rightarrow> string \<Rightarrow> unit io" where
  "Rename p r = call (\<lambda>s.
     let a = resolve s p; b = resolve s r
     in case look s a of
          None \<Rightarrow> (Inl (absent s a), s)
        | Some n \<Rightarrow>
            (if look s b = Some DirNode then (if a = b \<and> p \<noteq> r then (Inr (), s) else (Inl SysFailed, s))
             else if look s (butlast b) \<noteq> Some DirNode then (Inl (absent s b), s)
             else if a = b then (Inr (), s)
             else (case n of
                     FileNode c \<Rightarrow> (Inr (), put_node b n (drop_node a s))
                   | DirNode \<Rightarrow> (if look s b \<noteq> None \<or> below a b then (Inl SysFailed, s) else (Inr (), move_tree a b s)))))"

text \<open>\<open>os.ReadDir\<close>: the entries by name, with their nodes.\<close>

definition ReadDir :: "string \<Rightarrow> (string \<times> node) list io" where
  "ReadDir p = call (\<lambda>s.
     let q = resolve s p
     in case look s q of
          None \<Rightarrow> (Inl (absent s q), s)
        | Some (FileNode _) \<Rightarrow> (Inl SysFailed, s)
        | Some DirNode \<Rightarrow> (Inr (map (\<lambda>c. (last c, the (look s c))) (sort (children s q))), s))"

text \<open>Reading a file from its start: \<open>os.Open\<close>, one read of at most \<open>k\<close> bytes, and the copying of the whole.\<close>

definition Open :: "string \<Rightarrow> node io" where
  "Open p = Stat p"

definition read_start :: "nat \<Rightarrow> node \<Rightarrow> byte list io" where
  "read_start k n = call (case n of DirNode \<Rightarrow> refuse SysFailed | FileNode c \<Rightarrow> give (take k c))"

definition Create :: "string \<Rightarrow> unit io" where
  "Create p = call (\<lambda>s.
     let q = resolve s p
     in if look s q = Some DirNode then (Inl SysFailed, s)
        else if look s (butlast q) \<noteq> Some DirNode then (Inl (absent s q), s)
        else (Inr (), put_node q (FileNode []) s))"

text \<open>\<open>io.Copy\<close> into a file just created; a failure leaves what has been written.\<close>

definition CopyInto :: "string \<Rightarrow> node \<Rightarrow> unit io" where
  "CopyInto p n = sys
     (\<lambda>k s. (Inl SysFailed, case n of DirNode \<Rightarrow> s | FileNode c \<Rightarrow> put_node (resolve s p) (FileNode (take k c)) s))
     (\<lambda>s. case n of DirNode \<Rightarrow> (Inl SysFailed, s) | FileNode c \<Rightarrow> (Inr (), put_node (resolve s p) (FileNode c) s))"

text \<open>\<open>os.MkdirTemp\<close>: the random part of the name is an argument.\<close>

definition MkdirTemp :: "string \<Rightarrow> string \<Rightarrow> string \<Rightarrow> string io" where
  "MkdirTemp dir stem rnd = call (\<lambda>s.
     let p = path_join dir (stem @ rnd); q = resolve s p
     in if look s q \<noteq> None \<or> look s (butlast q) \<noteq> Some DirNode then (Inl (absent s q), s) else (Inr p, put_node q DirNode s))"

section \<open>The file writer on this disk\<close>

text \<open>The writer of \<open>File_Writer\<close> works on one path at a time; opening needs the directory, and each of the two
  system calls may fail.\<close>

definition disk_of :: "os \<Rightarrow> string \<Rightarrow> byte list option" where
  "disk_of s p = (case look s (resolve s p) of Some (FileNode c) \<Rightarrow> Some c | _ \<Rightarrow> None)"

definition writer_of :: "os \<Rightarrow> file_writer" where
  "writer_of s = \<lparr>handles = os_handles s, disk = disk_of s\<rparr>"

definition outcome :: "string option io" where
  "outcome = sys (\<lambda>k. give (Some ''system call failed'')) (give None)"

definition open_error :: "string \<Rightarrow> string option io" where
  "open_error p = sys (\<lambda>k. give (Some ''system call failed''))
     (\<lambda>s. let q = resolve s p
          in (Inr (if look s q = Some DirNode \<or> look s (butlast q) \<noteq> Some DirNode then Some ''cannot open'' else None), s))"

definition write_back :: "string \<Rightarrow> io_error option \<times> file_writer \<Rightarrow> unit io" where
  "write_back p r s =
     (let s = s\<lparr>os_handles := handles (snd r)\<rparr>;
          s = (case disk (snd r) p of None \<Rightarrow> s | Some c \<Rightarrow> put_node (resolve s p) (FileNode c) s)
      in (case fst r of None \<Rightarrow> Inr () | Some e \<Rightarrow> Inl SysFailed, s))"

definition writer_PreAllocate :: "string \<Rightarrow> int \<Rightarrow> unit io" where
  "writer_PreAllocate p n s = attempt (if p \<in> set (os_handles s) then give None else open_error p)
     (\<lambda>opened. attempt outcome (\<lambda>truncated s. write_back p (PreAllocate p n opened truncated (writer_of s)) s)) s"

definition writer_CloseFile :: "string \<Rightarrow> int \<Rightarrow> unit io" where
  "writer_CloseFile p n = attempt outcome
     (\<lambda>truncated. attempt outcome (\<lambda>closed s. write_back p (CloseFile p n truncated closed (writer_of s)) s))"

text \<open>What a walk visits: the place and all below it, each directory before what it holds, siblings by name.\<close>

definition walk_order :: "os \<Rightarrow> place \<Rightarrow> place list" where
  "walk_order s q = q # sort (filter (\<lambda>x. below q x) (remdups (map fst (os_tree s))))"

end
