(* ===== verification/Processor.thy ===== *)
theory Processor
  imports Go_Os
begin

text \<open>
  Post-processing of a finished download (\<open>internal/processor\<close>): the names of the files of an NZB, the completion of
  part files, repair, extraction, the move to the completed directory and the clearing of the working directory, in
  terms of \<open>Go_Os\<close>. The external programs (par2, unrar, unzip, 7z) are functions on the files; logging is left out.
\<close>

section \<open>Names\<close>

text \<open>Lower case as the flag \<open>(?i)\<close> of a regular expression needs it: ASCII only.\<close>

definition ascii_lower :: "string \<Rightarrow> string" where
  "ascii_lower = map (\<lambda>c. if 65 \<le> code c \<and> code c \<le> 90 then char_of (code c + 32) else c)"

definition regex_space :: "char \<Rightarrow> bool" where
  "regex_space c \<longleftrightarrow> code c \<in> {9, 10, 12, 13, 32}"

text \<open>The text between two opening and two closing braces, on one line, and what follows; \<open>acc\<close> is what has been
  read, reversed.\<close>

fun braced :: "string \<Rightarrow> string \<Rightarrow> (string \<times> string) option" where
  "braced acc [] = None"
| "braced acc (c # cs) =
     (if is_prefix ''}}'' (c # cs) then Some (rev acc, tl cs)
      else if code c = 10 then None
      else braced (c # acc) cs)"

lemma braced_shorter: "braced acc s = Some (w, r) \<Longrightarrow> length r < length s"
  by (induction acc s rule: braced.induct) (auto split: if_splits)

function strip_braced :: "string \<Rightarrow> string" where
  "strip_braced [] = []"
| "strip_braced (c # cs) =
     (case (if is_prefix ''{{'' (c # cs) then braced [] (tl cs) else None) of
        Some (w, r) \<Rightarrow> strip_braced r
      | None \<Rightarrow> c # strip_braced cs)"
  by pat_completeness auto
termination
proof (relation "measure length")
  fix c cs x w r
  assume "(if is_prefix ''{{'' (c # cs) then braced [] (tl cs) else None) = Some x" "(w, r) = x"
  then have "length r < length (tl cs)" by (auto split: if_splits simp del: length_tl dest: braced_shorter)
  then show "(r, c # cs) \<in> measure length" by simp
qed simp_all

fun extractPassword :: "string \<Rightarrow> string" where
  "extractPassword [] = []"
| "extractPassword (c # cs) =
     (case (if is_prefix ''{{'' (c # cs) then braced [] (tl cs) else None) of
        Some (w, r) \<Rightarrow> trim_space w
      | None \<Rightarrow> extractPassword cs)"

text \<open>The expressions \<open>(?i)\s+yenc.*$\<close> and \<open>^\[\d+/\d+\]\s+\<close>, removed.\<close>

definition yenc_tail :: "string \<Rightarrow> bool" where
  "yenc_tail s \<longleftrightarrow> is_prefix ''yenc'' (ascii_lower s) \<and> (\<forall>c\<in>set (drop 4 s). code c \<noteq> 10)"

fun drop_yenc :: "string \<Rightarrow> string" where
  "drop_yenc [] = []"
| "drop_yenc (c # cs) =
     (if regex_space c \<and> yenc_tail (dropWhile regex_space cs) then [] else c # drop_yenc cs)"

definition after_digits :: "string \<Rightarrow> string option" where
  "after_digits s = (if s \<noteq> [] \<and> is_digit (hd s) then Some (dropWhile is_digit s) else None)"

definition after_char :: "char \<Rightarrow> string \<Rightarrow> string option" where
  "after_char c s = (if is_prefix [c] s then Some (tl s) else None)"

definition drop_counter :: "string \<Rightarrow> string" where
  "drop_counter s =
     (case Option.bind (after_char CHR ''['' s) (\<lambda>s. Option.bind (after_digits s) (\<lambda>s.
           Option.bind (after_char CHR ''/'' s) (\<lambda>s. Option.bind (after_digits s) (after_char CHR '']''))))
      of Some (c # cs) \<Rightarrow> (if regex_space c then dropWhile regex_space cs else s) | _ \<Rightarrow> s)"

definition bad_char :: "char \<Rightarrow> bool" where
  "bad_char c \<longleftrightarrow> code c \<in> {92, 47, 58, 42, 63, 34, 60, 62, 124}"

text \<open>What is between the first and the last quotation mark.\<close>

definition quoted_part :: "string \<Rightarrow> string option" where
  "quoted_part s =
     (let q = (\<lambda>c. code c \<noteq> 34); r = dropWhile q s
      in if r = [] \<or> (\<forall>c\<in>set (tl r). q c) then None
         else Some (rev (tl (dropWhile q (rev (tl r))))))"

text \<open>\<open>html.UnescapeString\<close>, a table of entities of the library, is the argument \<open>unescape\<close>.\<close>

definition sanitizeFileName :: "(string \<Rightarrow> string) \<Rightarrow> string \<Rightarrow> string" where
  "sanitizeFileName unescape subject =
     (let res = strip_braced (unescape subject);
          res = (case quoted_part res of Some q \<Rightarrow> q | None \<Rightarrow> drop_counter (drop_yenc res))
      in trim_space (map (\<lambda>c. if bad_char c then CHR ''_'' else c) res))"

definition cleanupExtensions :: "string \<Rightarrow> string list \<Rightarrow> bool" where
  "cleanupExtensions name exts \<longleftrightarrow> path_ext (to_lower name) \<in> set exts"

text \<open>The suffixes \<open>.r\<close>, \<open>.z\<close> and two or three digits, \<open>.7z.\<close> and three digits; \<open>(?i)\<close> lets the long s stand
  for s. Names with \<open>.partN.rar\<close> or \<open>.volN+N.par2\<close> end in \<open>.rar\<close> or \<open>.par2\<close>.\<close>

definition numbered_suffix :: "string \<Rightarrow> nat \<Rightarrow> string \<Rightarrow> bool" where
  "numbered_suffix stem k s \<longleftrightarrow>
     (let r = rev s in k \<le> length r \<and> list_all is_digit (take k r) \<and> is_prefix (rev stem) (drop k r))"

definition archive_name :: "string \<Rightarrow> bool" where
  "archive_name name \<longleftrightarrow>
     (let n = ascii_lower name
      in list_ex (\<lambda>suf. has_suffix suf n) [''.rar'', ''.7z'', ''.zip'', ''.par2'', ''.sfv'', ''.'' @ [CHR 0xC5, CHR 0xBF] @ ''fv''] \<or>
         list_ex (\<lambda>k. numbered_suffix ''.r'' k n \<or> numbered_suffix ''.z'' k n) [2, 3] \<or>
         numbered_suffix ''.7z.'' 3 n)"

section \<open>The processor and the programs it runs\<close>

datatype extractor = Unrar | Unzip | SevenZip

datatype signature = NoSignature | RarSignature | SevenZipSignature | ZipSignature

text \<open>\<open>ExtractionEnabled\<close> and the cleanup map come with the configuration.\<close>

record processor =
  pc_OutDir :: string
  pc_CompletedDir :: string
  pc_extraction :: bool
  pc_extractors :: "extractor list"
  pc_cleanup :: "string list"

text \<open>\<open>exec.LookPath\<close>, running a program with arguments (its error), the random part of a temporary name, and the
  order in which a map is traversed.\<close>

record programs =
  found :: "string \<Rightarrow> bool"
  exec_run :: "string \<Rightarrow> string list \<Rightarrow> os \<Rightarrow> go_error option \<times> os"
  temp_suffix :: "os \<Rightarrow> string"
  map_order :: "(download_file \<times> extractor) list \<Rightarrow> (download_file \<times> extractor) list"

fun binary :: "programs \<Rightarrow> extractor \<Rightarrow> string" where
  "binary pg Unrar = ''unrar''"
| "binary pg Unzip = ''unzip''"
| "binary pg SevenZip = (if found pg ''7z'' then ''7z'' else ''7za'')"

fun extractor_name :: "extractor \<Rightarrow> string" where
  "extractor_name Unrar = ''RAR''"
| "extractor_name Unzip = ''ZIP''"
| "extractor_name SevenZip = ''7-Zip''"

fun available :: "programs \<Rightarrow> extractor \<Rightarrow> bool" where
  "available pg Unrar = found pg ''unrar''"
| "available pg Unzip = found pg ''unzip''"
| "available pg SevenZip = (found pg ''7z'' \<or> found pg ''7za'')"

definition NewManager :: "programs \<Rightarrow> extractor list" where
  "NewManager pg = filter (available pg) [Unrar, Unzip, SevenZip]"

definition normal_extension :: "string \<Rightarrow> string" where
  "normal_extension ext = (let e = to_lower ext in if is_prefix ''.'' e then e else ''.'' @ e)"

definition New_processor :: "programs \<Rightarrow> string \<Rightarrow> string \<Rightarrow> string list \<Rightarrow> bool \<Rightarrow> processor" where
  "New_processor pg out completed exts extraction =
     \<lparr>pc_OutDir = out, pc_CompletedDir = completed, pc_extraction = extraction, pc_extractors = NewManager pg,
      pc_cleanup = map normal_extension exts\<rparr>"

section \<open>Signatures\<close>

definition rarSignatures :: "byte list list" where
  "rarSignatures = [[0x52, 0x61, 0x72, 0x21, 0x1A, 0x07, 0x00], [0x52, 0x61, 0x72, 0x21, 0x1A, 0x07, 0x01, 0x00]]"

definition sevenZipSignature :: "byte list" where "sevenZipSignature = [0x37, 0x7A, 0xBC, 0xAF, 0x27, 0x1C]"

definition zipSignatures :: "byte list list" where
  "zipSignatures = [[0x50, 0x4B, 0x03, 0x04], [0x50, 0x4B, 0x05, 0x06], [0x50, 0x4B, 0x07, 0x08]]"

definition hasSignature :: "byte list \<Rightarrow> byte list list \<Rightarrow> bool" where
  "hasSignature h sigs \<longleftrightarrow> list_ex (\<lambda>sig. length sig \<le> length h \<and> take (length sig) h = sig) sigs"

definition signature_of :: "byte list \<Rightarrow> signature" where
  "signature_of h =
     (if hasSignature h rarSignatures then RarSignature
      else if hasSignature h [sevenZipSignature] then SevenZipSignature
      else if hasSignature h zipSignatures then ZipSignature
      else NoSignature)"

definition detectArchiveSignature :: "string \<Rightarrow> signature io" where
  "detectArchiveSignature p = attempt (Open p) (\<lambda>n. attempt (read_start 8 n) (\<lambda>h. give (signature_of h)))"

definition isExtensionlessArchive :: "string \<Rightarrow> bool io" where
  "isExtensionlessArchive p =
     (if path_ext (base_name p) \<noteq> [] then give False
      else regardless (detectArchiveSignature p) (\<lambda>r. give (case r of Inl _ \<Rightarrow> False | Inr k \<Rightarrow> k \<noteq> NoSignature)))"

definition isArchiveArtifact :: "string \<Rightarrow> bool io" where
  "isArchiveArtifact p = (if archive_name (base_name p) then give True else isExtensionlessArchive p)"

section \<open>Detection\<close>

text \<open>Whether the name lets an extractor look into the file: the first volume of a set, or a name without extension.\<close>

fun name_admits :: "extractor \<Rightarrow> string \<Rightarrow> bool" where
  "name_admits Unrar n =
     ((has_suffix ''.rar'' n \<or> path_ext n = []) \<and>
      (has_suffix ''.rar'' n \<and> contains_str ''.part'' n \<longrightarrow>
         contains_str ''.part01.rar'' n \<or> contains_str ''.part001.rar'' n \<or> contains_str ''.part1.rar'' n))"
| "name_admits Unzip n = (has_suffix ''.zip'' n \<or> path_ext n = [])"
| "name_admits SevenZip n =
     (has_suffix ''.7z'' n \<or>
      (if numbered_suffix ''.7z.'' 3 n then has_suffix ''001'' n else path_ext n = []))"

fun signature_for :: "extractor \<Rightarrow> signature" where
  "signature_for Unrar = RarSignature"
| "signature_for Unzip = ZipSignature"
| "signature_for SevenZip = SevenZipSignature"

definition CanExtract :: "extractor \<Rightarrow> string \<Rightarrow> bool io" where
  "CanExtract x p =
     (if name_admits x (to_lower (base_name p))
      then map_error (Wrapped ''failed to verify signature'')
             (attempt (detectArchiveSignature p) (\<lambda>k. give (k = signature_for x)))
      else give False)"

definition extensionlessArchiveKey :: "string \<Rightarrow> (string \<times> signature) option io" where
  "extensionlessArchiveKey p =
     (if path_ext (base_name p) \<noteq> [] then give None
      else regardless (detectArchiveSignature p)
        (\<lambda>r. give (case r of Inl _ \<Rightarrow> None | Inr k \<Rightarrow> if k = NoSignature then None else Some (dir_name p, k))))"

fun first_extractor :: "extractor list \<Rightarrow> string \<Rightarrow> extractor option io" where
  "first_extractor [] p = give None"
| "first_extractor (x # xs) p =
     attempt (map_error (Wrapped ''error checking'') (CanExtract x p))
       (\<lambda>b. if b then give (Some x) else first_extractor xs p)"

fun detect_loop ::
  "extractor list \<Rightarrow> (string \<times> signature) list \<Rightarrow> download_file list \<Rightarrow> (download_file \<times> extractor) list io" where
  "detect_loop xs seen [] = give []"
| "detect_loop xs seen (t # ts) =
     attempt (first_extractor xs (df_FinalPath t)) (\<lambda>r.
       case r of
         None \<Rightarrow> detect_loop xs seen ts
       | Some x \<Rightarrow> attempt (extensionlessArchiveKey (df_FinalPath t)) (\<lambda>key.
           case key of
             None \<Rightarrow> attempt (detect_loop xs seen ts) (\<lambda>rest. give ((t, x) # rest))
           | Some k \<Rightarrow>
               (if k \<in> set seen then detect_loop xs seen ts
                else attempt (detect_loop xs (k # seen) ts) (\<lambda>rest. give ((t, x) # rest)))))"

definition DetectArchives :: "extractor list \<Rightarrow> download_file list \<Rightarrow> (download_file \<times> extractor) list io" where
  "DetectArchives xs ts = detect_loop xs [] ts"

section \<open>Moving files\<close>

definition moveCrossDevice :: "string \<Rightarrow> string \<Rightarrow> unit io" where
  "moveCrossDevice source dest =
     (let temp = path_join (dir_name dest) (''.'' @ base_name dest @ ''.tmp'');
          or_remove = (\<lambda>m. regardless m (\<lambda>r. case r of Inr _ \<Rightarrow> give () | Inl e \<Rightarrow> regardless (Remove temp) (\<lambda>_. refuse e)))
      in attempt (Open source) (\<lambda>n.
         attempt (Create temp) (\<lambda>_.
         attempt (or_remove (map_error (Wrapped ''copy failed'') (CopyInto temp n))) (\<lambda>_.
         attempt (or_remove (call (give ()))) (\<lambda>_. \<comment> \<open>\<open>Sync\<close>\<close>
         attempt (or_remove (call (give ()))) (\<lambda>_. \<comment> \<open>\<open>Close\<close>\<close>
         attempt (or_remove (Rename temp dest)) (\<lambda>_. Remove source)))))))"

definition moveFile :: "string \<Rightarrow> string \<Rightarrow> unit io" where
  "moveFile source dest =
     attempt (MkdirAll (dir_name dest))
       (\<lambda>_. regardless (Rename source dest) (\<lambda>r. case r of Inr _ \<Rightarrow> give () | Inl _ \<Rightarrow> moveCrossDevice source dest))"

section \<open>Extraction\<close>

fun arguments :: "extractor \<Rightarrow> string \<Rightarrow> string \<Rightarrow> string \<Rightarrow> string list" where
  "arguments Unrar archive password work =
     [''x'', ''-o+'', ''-y'', if password \<noteq> [] then ''-p'' @ password else ''-p-'', archive, work @ ''/'']"
| "arguments Unzip archive password work =
     [''-o'', ''-q''] @ (if password \<noteq> [] then [''-P'', password] else []) @ [archive, ''-d'', work]"
| "arguments SevenZip archive password work =
     [''x'', ''-o'' @ work, ''-y'', ''-aoa''] @ (if password \<noteq> [] then [''-p'' @ password] else []) @ [archive]"

definition run_program :: "programs \<Rightarrow> string \<Rightarrow> string list \<Rightarrow> unit io" where
  "run_program pg b args s = (case exec_run pg b args s of (None, t) \<Rightarrow> (Inr (), t) | (Some e, t) \<Rightarrow> (Inl e, t))"

text \<open>One visit of the walk through the directory \<open>work\<close>: a directory is read, a file is moved below \<open>dest\<close>. What the
  program has unpacked does not change during the walk.\<close>

definition visit :: "string \<Rightarrow> string \<Rightarrow> place \<Rightarrow> string list io" where
  "visit work dest q = attempt poll_ctx (\<lambda>over.
     if over then refuse Canceled
     else (\<lambda>s. if look s q = Some DirNode
        then regardless (call (give ())) (\<lambda>r.
               case r of
                 Inr _ \<Rightarrow> give []
               | Inl e \<Rightarrow> attempt poll_ctx (\<lambda>over. refuse (if over then Canceled else e))) s
        else (let path = path_join work (join_slash (drop (length (resolve s work)) q))
              in case path_rel work path of
                   None \<Rightarrow> (Inl (Wrapped ''failed to resolve extracted file path'' (Message ''Rel'')), s)
                 | Some rel \<Rightarrow>
                     (if rel = ''..'' \<or> is_prefix ''../'' rel then (Inl (Message ''invalid extracted path outside workdir''), s)
                      else attempt (map_error (Wrapped ''failed to move extracted file'') (moveFile path (path_join dest rel)))
                             (\<lambda>_. give [path_join dest rel]) s))))"

fun visit_all :: "string \<Rightarrow> string \<Rightarrow> place list \<Rightarrow> string list io" where
  "visit_all work dest [] = give []"
| "visit_all work dest (q # qs) =
     attempt (visit work dest q) (\<lambda>ps. attempt (visit_all work dest qs) (\<lambda>rest. give (ps @ rest)))"

definition baseExtract :: "programs \<Rightarrow> extractor \<Rightarrow> string \<Rightarrow> string \<Rightarrow> string \<Rightarrow> string list io" where
  "baseExtract pg x archive dest password =
     attempt (map_error (Wrapped ''failed to create extraction workdir'') (\<lambda>s. MkdirTemp dest ''_extracted_'' (temp_suffix pg s) s))
       (\<lambda>work. deferring (RemoveAll work)
          (attempt (map_error (Wrapped ''extraction failed'') (run_program pg (binary pg x) (arguments x archive password work)))
             (\<lambda>_ s. visit_all work dest (walk_order s (resolve s work)) s)))"

definition no_file :: download_file where
  "no_file = \<lparr>df_ID = 0, df_ReleaseID = [], df_FileName = [], df_Size = 0, df_Index = 0, df_IsPars = False, df_Subject = [],
     df_Date = 0, df_Groups = [], df_Poster = [], df_PartPath = [], df_FinalPath = [], df_IsComplete = False,
     df_Password = [], df_actualSize = 0, df_Segments = []\<rparr>"

definition extracted_file :: "string \<Rightarrow> download_file" where
  "extracted_file p = no_file\<lparr>df_FinalPath := p, df_FileName := base_name p\<rparr>"

text \<open>The extraction of one batch: an archive that cannot be extracted is passed over.\<close>

fun extract_each :: "programs \<Rightarrow> (download_file \<times> extractor) list \<Rightarrow> download_file list io" where
  "extract_each pg [] = give []"
| "extract_each pg ((t, x) # rest) =
     regardless (baseExtract pg x (df_FinalPath t) (dir_name (df_FinalPath t)) (df_Password t))
       (\<lambda>r. attempt (extract_each pg rest)
          (\<lambda>ts. give ((case r of Inl _ \<Rightarrow> [] | Inr ps \<Rightarrow> map extracted_file ps) @ ts)))"

definition extractBatch :: "programs \<Rightarrow> processor \<Rightarrow> download_file list \<Rightarrow> download_file list io" where
  "extractBatch pg p ts =
     attempt (map_error (Wrapped ''failed to detect archives'') (DetectArchives (pc_extractors p) ts))
       (\<lambda>archives. if archives = [] then give [] else extract_each pg (map_order pg archives))"

text \<open>\<open>depth\<close> batches at most, each the output of the one before.\<close>

fun extract_depths :: "programs \<Rightarrow> processor \<Rightarrow> nat \<Rightarrow> download_file list \<Rightarrow> download_file list io" where
  "extract_depths pg p 0 batch = give []"
| "extract_depths pg p (Suc depth) batch =
     attempt (extractBatch pg p batch) (\<lambda>new.
       if new = [] then give []
       else attempt (extract_depths pg p depth new) (\<lambda>rest. give (new @ rest)))"

definition extractArchives :: "programs \<Rightarrow> processor \<Rightarrow> download_file list \<Rightarrow> download_file list io" where
  "extractArchives pg p ts =
     (if \<not> pc_extraction p \<or> pc_extractors p = [] then give [] else extract_depths pg p 3 ts)"

section \<open>Repair\<close>

definition findPrimaryPar :: "download_file list \<Rightarrow> string" where
  "findPrimaryPar ts =
     (case find (\<lambda>t. has_suffix ''.par2'' (df_FinalPath t) \<and> \<not> contains_str ''.vol'' (df_FinalPath t)) ts of
        Some t \<Rightarrow> df_FinalPath t | None \<Rightarrow> [])"

text \<open>\<open>Verify\<close> and \<open>Repair\<close> of the par2 program; \<open>Inr False\<close>: damaged but repairable.\<close>

definition par2_Verify :: "programs \<Rightarrow> string \<Rightarrow> bool io" where
  "par2_Verify pg path =
     regardless (run_program pg ''par2'' [''v'', ''-q'', path])
       (\<lambda>r. case r of Inr _ \<Rightarrow> give True | Inl e \<Rightarrow> if e = ExitStatus 1 then give False else refuse e)"

definition par2_Repair :: "programs \<Rightarrow> string \<Rightarrow> unit io" where
  "par2_Repair pg path = run_program pg ''par2'' [''r'', path]"

definition handleRepair :: "programs \<Rightarrow> string \<Rightarrow> unit io" where
  "handleRepair pg path =
     (if \<not> found pg ''par2'' then refuse (Wrapped ''cannot initialize repair engine'' (Message ''par2 binary not found in PATH''))
      else regardless (par2_Verify pg path)
        (\<lambda>r. if r = Inr True then give () else map_error (Wrapped ''PAR2 repair failed'') (par2_Repair pg path)))"

section \<open>The completed directory\<close>

definition sanitizeCompletedPathPart :: "string \<Rightarrow> string" where
  "sanitizeCompletedPathPart v = collapse (trim_cutset (replace_unsafe False (trim_space v)))"

definition completedBaseDir :: "processor \<Rightarrow> queue_item option \<Rightarrow> string" where
  "completedBaseDir p item =
     (let category = (case item of
            Some i \<Rightarrow> (case qi_Release i of
               Some r \<Rightarrow> if trim_space (rel_Category r) \<noteq> [] then sanitizeCompletedPathPart (rel_Category r) else ''uncategorized''
             | None \<Rightarrow> ''uncategorized'')
          | None \<Rightarrow> ''uncategorized'');
          folder = (case item of
            Some i \<Rightarrow> if qi_OutDir i \<noteq> [] then sanitizeCompletedPathPart (base_name (qi_OutDir i))
                      else if qi_ReleaseTitle i \<noteq> [] then sanitizeCompletedPathPart (qi_ReleaseTitle i)
                      else ''job''
          | None \<Rightarrow> ''job'');
          category = (if category = [] then ''uncategorized'' else category);
          folder = (if folder = [] then ''job'' else folder)
      in path_join (pc_CompletedDir p) (category @ ''/'' @ folder))"

definition relative_name :: "queue_item option \<Rightarrow> string \<Rightarrow> string" where
  "relative_name item path =
     (let name = base_name path
      in case item of
           None \<Rightarrow> name
         | Some i \<Rightarrow>
             (if qi_OutDir i = [] then name
              else (case path_rel (qi_OutDir i) path of
                      Some rel \<Rightarrow> if rel \<noteq> ''.'' \<and> rel \<noteq> ''..'' \<and> \<not> is_prefix ''../'' rel then rel else name
                    | None \<Rightarrow> name)))"

fun move_each :: "processor \<Rightarrow> queue_item option \<Rightarrow> string \<Rightarrow> download_file list \<Rightarrow> unit io" where
  "move_each p item dest [] = give ()"
| "move_each p item dest (t # ts) =
     (if cleanupExtensions (base_name (df_FinalPath t)) (pc_cleanup p)
      then regardless (Remove (df_FinalPath t)) (\<lambda>_. move_each p item dest ts)
      else attempt (moveFile (df_FinalPath t) (path_join dest (relative_name item (df_FinalPath t))))
             (\<lambda>_. move_each p item dest ts))"

definition moveToCompleted :: "processor \<Rightarrow> queue_item option \<Rightarrow> download_file list \<Rightarrow> string io" where
  "moveToCompleted p item ts =
     attempt (map_error (Wrapped ''failed to create completed directory'') (MkdirAll (pc_CompletedDir p))) (\<lambda>_.
     attempt (map_error (Wrapped ''failed to create completed job directory'') (MkdirAll (completedBaseDir p item))) (\<lambda>_.
     attempt (move_each p item (completedBaseDir p item) ts) (\<lambda>_. give (completedBaseDir p item))))"

fun without_artifacts :: "download_file list \<Rightarrow> download_file list io" where
  "without_artifacts [] = give []"
| "without_artifacts (t # ts) =
     attempt (isArchiveArtifact (df_FinalPath t))
       (\<lambda>b. attempt (without_artifacts ts) (\<lambda>rest. give (if b then rest else t # rest)))"

definition buildMoveTaskList :: "download_file list \<Rightarrow> download_file list \<Rightarrow> download_file list io" where
  "buildMoveTaskList ts extracted =
     (if extracted = [] then give ts else attempt (without_artifacts ts) (\<lambda>kept. give (kept @ extracted)))"

section \<open>Clearing the working directory\<close>

definition samePath :: "string \<Rightarrow> string \<Rightarrow> os \<Rightarrow> bool" where
  "samePath a b s \<longleftrightarrow> path_abs (os_cwd s) a = path_abs (os_cwd s) b"

text \<open>\<open>filepath.Walk\<close> from \<open>root\<close>: every entry is looked at, every directory read; the directories in the order of
  the walk.\<close>

fun walk_dirs :: "place list \<Rightarrow> string list io" where
  "walk_dirs [] = give []"
| "walk_dirs (q # qs) = attempt (Stat (path_of q)) (\<lambda>n.
     case n of
       FileNode _ \<Rightarrow> walk_dirs qs
     | DirNode \<Rightarrow> attempt (call (give ())) (\<lambda>_. attempt (walk_dirs qs) (\<lambda>ds. give (path_of q # ds))))"

fun remove_dirs :: "string \<Rightarrow> string list \<Rightarrow> unit io" where
  "remove_dirs root [] = give ()"
| "remove_dirs root (d # ds) =
     (\<lambda>s. if samePath d root s then remove_dirs root ds s else regardless (Remove d) (\<lambda>_. remove_dirs root ds) s)"

definition removeEmptyDirsWithin :: "string \<Rightarrow> unit io" where
  "removeEmptyDirsWithin root0 =
     (let root = trim_space root0
      in if root = [] then give ()
         else regardless (\<lambda>s. walk_dirs (walk_order s (resolve s root)) s)
           (\<lambda>r. case r of
              Inl e \<Rightarrow> if e = NotExist then give () else refuse e
            | Inr dirs \<Rightarrow> remove_dirs root (rev dirs)))"

function removeEmptyDirsUp :: "string \<Rightarrow> string \<Rightarrow> unit io" where
  "removeEmptyDirsUp c stop s =
     (let current = trim_space c
      in if current = [] \<or> samePath current stop s then (Inr (), s)
         else (case Remove current s of
                 (Inl _, t) \<Rightarrow> (Inr (), t)
               | (Inr _, t) \<Rightarrow>
                   (if dir_name current = current then (Inr (), t) else removeEmptyDirsUp (dir_name current) stop t)))"
  by pat_completeness auto
termination
  using dir_name_up up_measure_trim by (relation "measure (\<lambda>(c, _). up_measure c)") (auto intro: less_le_trans)

declare removeEmptyDirsUp.simps [simp del]

text \<open>The loop over the entries of the working directory.\<close>

fun clear_entries :: "processor \<Rightarrow> string \<Rightarrow> (string \<times> node) list \<Rightarrow> unit io" where
  "clear_entries p dir [] = give ()"
| "clear_entries p dir ((name, n) # rest) =
     (if n = DirNode then clear_entries p dir rest
      else attempt (isArchiveArtifact (path_join dir name)) (\<lambda>artifact.
        if artifact \<or> cleanupExtensions name (pc_cleanup p)
        then regardless (Remove (path_join dir name))
               (\<lambda>r. case r of Inl e \<Rightarrow> if e = NotExist then clear_entries p dir rest else refuse e
                             | Inr _ \<Rightarrow> clear_entries p dir rest)
        else clear_entries p dir rest))"

definition path_below :: "string \<Rightarrow> string \<Rightarrow> bool" where
  "path_below d q \<longleftrightarrow> is_prefix (d @ ''/'') q"

definition cleanupWorkDir :: "processor \<Rightarrow> string \<Rightarrow> string \<Rightarrow> unit io" where
  "cleanupWorkDir p work completed s =
     (if trim_space work = [] then (Inr (), s)
      else
        (let w = path_abs (os_cwd s) (trim_space work);
             c = (if trim_space completed = [] then [] else path_abs (os_cwd s) (trim_space completed));
             root = trim_space (pc_OutDir p); r = path_abs (os_cwd s) root
         in if root = [] then (Inr (), s)
            else if w \<noteq> r \<and> \<not> path_below r w then (Inl (Message ''refusing to cleanup work dir outside download root''), s)
            else if c \<noteq> [] \<and> (w = c \<or> \<not> path_below w c \<and> path_below c w)
            then (Inl (Message ''refusing to cleanup work dir overlapping completed dir''), s)
            else regardless (ReadDir w) (\<lambda>es.
              case es of
                Inl e \<Rightarrow> if e = NotExist then give () else refuse e
              | Inr entries \<Rightarrow>
                  attempt (clear_entries p w entries) (\<lambda>_.
                  attempt (removeEmptyDirsWithin w) (\<lambda>_. removeEmptyDirsUp w r))) s))"

section \<open>Post-processing\<close>

text \<open>\<open>PostProcess\<close> returns the queue item, whose \<open>OutDir\<close> it may have changed.\<close>

definition PostProcess :: "programs \<Rightarrow> processor \<Rightarrow> queue_item option \<Rightarrow> download_file list \<Rightarrow> queue_item option io" where
  "PostProcess pg p item ts =
     (if ts = [] then give item
      else
        attempt (if findPrimaryPar ts = [] then give ()
                 else map_error (Flat ''Post-repair health check failed'') (handleRepair pg (findPrimaryPar ts))) (\<lambda>_.
        attempt (map_error (Flat ''Archive extraction failed'') (extractArchives pg p ts)) (\<lambda>extracted.
        attempt (buildMoveTaskList ts extracted) (\<lambda>moves.
          if pc_CompletedDir p = [] then give item
          else
            attempt (map_error (Wrapped ''failed to move files'') (moveToCompleted p item moves)) (\<lambda>dir.
            regardless (cleanupWorkDir p (case item of Some i \<Rightarrow> qi_OutDir i | None \<Rightarrow> []) dir) (\<lambda>_.
            give (map_option (\<lambda>i. if dir = [] then i else i\<lparr>qi_OutDir := dir\<rparr>) item)))))))"

section \<open>Preparing and finalising the files\<close>

record nzb_file =
  nf_Subject :: string
  nf_Poster :: string
  nf_Date :: int
  nf_Groups :: "string list"
  nf_Segments :: "segment list"

record nzb_model =
  nzb_Meta :: "(string \<times> string) list"
  nzb_Files :: "nzb_file list"

definition GetPassword :: "nzb_model \<Rightarrow> string" where
  "GetPassword m = (case find (\<lambda>x. fst x = ''password'') (nzb_Meta m) of Some x \<Rightarrow> trim_space (snd x) | None \<Rightarrow> [])"

definition NewDownloadFile :: "string \<Rightarrow> int \<Rightarrow> int \<Rightarrow> segment list \<Rightarrow> string \<Rightarrow> string \<Rightarrow> download_file" where
  "NewDownloadFile name size0 index segs outDir password =
     no_file\<lparr>df_FileName := name,
       df_Size := (if size0 \<le> 0 then foldl (\<lambda>a x. i64 (a + seg_Bytes x)) size0 segs else size0),
       df_Index := index, df_Segments := segs, df_Password := password,
       df_IsPars := has_suffix ''.par2'' (to_lower name),
       df_PartPath := path_join outDir name @ ''.part'', df_FinalPath := path_join outDir name\<rparr>"

definition bytes_of :: "node \<Rightarrow> int" where
  "bytes_of n = (case n of FileNode c \<Rightarrow> int (length c) | DirNode \<Rightarrow> 4096)"

definition prepared_file :: "(string \<Rightarrow> string) \<Rightarrow> string \<Rightarrow> string \<Rightarrow> int \<Rightarrow> nzb_file \<Rightarrow> download_file" where
  "prepared_file unescape outDir password i f =
     (NewDownloadFile (sanitizeFileName unescape (nf_Subject f)) 0 i
        (map (\<lambda>x. x\<lparr>seg_MissingFrom := []\<rparr>) (nf_Segments f)) outDir password)
       \<lparr>df_Subject := nf_Subject f, df_Date := nf_Date f, df_Groups := nf_Groups f, df_Poster := nf_Poster f\<rparr>"

text \<open>The writer is an interface of the processor: \<open>PreAllocate\<close> and \<open>CloseFile\<close> are arguments.\<close>

fun prepare_each ::
  "(string \<Rightarrow> int \<Rightarrow> unit io) \<Rightarrow> (string \<Rightarrow> string) \<Rightarrow> string \<Rightarrow> string \<Rightarrow> int \<Rightarrow> nzb_file list \<Rightarrow> download_file list io" where
  "prepare_each pre unescape outDir password i [] = give []"
| "prepare_each pre unescape outDir password i (f # fs) =
     (let t = prepared_file unescape outDir password i f
      in attempt (regardless (Stat (df_FinalPath t)) (\<lambda>r.
             case r of
               Inr n \<Rightarrow> give (if df_Size t > 0 \<and> bytes_of n < df_Size t then t else t\<lparr>df_IsComplete := True\<rparr>)
             | Inl _ \<Rightarrow> attempt (map_error (Wrapped ''failed to pre-allocate'') (pre (df_PartPath t) (df_Size t))) (\<lambda>_. give t)))
           (\<lambda>t. attempt (prepare_each pre unescape outDir password (i + 1) fs) (\<lambda>ts. give (t # ts))))"

definition prepare_password :: "nzb_model \<Rightarrow> string \<Rightarrow> string" where
  "prepare_password m nzbName =
     (let pw = GetPassword m;
          pw = (if pw = [] then extractPassword nzbName else pw)
      in if pw = [] \<and> nzb_Files m \<noteq> [] then extractPassword (nf_Subject (hd (nzb_Files m))) else pw)"

definition Prepare ::
  "(string \<Rightarrow> int \<Rightarrow> unit io) \<Rightarrow> (string \<Rightarrow> string) \<Rightarrow> processor \<Rightarrow> queue_item option \<Rightarrow> nzb_model \<Rightarrow> string
     \<Rightarrow> (download_file list \<times> int \<times> string) io" where
  "Prepare pre unescape p item m nzbName =
     (let outDir = (case item of Some i \<Rightarrow> if trim_space (qi_OutDir i) \<noteq> [] then qi_OutDir i else pc_OutDir p | None \<Rightarrow> pc_OutDir p);
          password = prepare_password m nzbName
      in if outDir = [] then refuse (Message ''missing output directory for queue item'')
         else attempt (map_error (Wrapped ''failed to create out_dir'') (MkdirAll outDir)) (\<lambda>_.
              attempt (prepare_each pre unescape outDir password 0 (nzb_Files m)) (\<lambda>ts.
              give (ts, foldl (\<lambda>a t. i64 (a + df_Size t)) 0 ts, password))))"

definition finalize_file :: "(string \<Rightarrow> int \<Rightarrow> unit io) \<Rightarrow> download_file \<Rightarrow> download_file io" where
  "finalize_file close t =
     (if df_IsComplete t then give t
      else regardless (Stat (df_PartPath t)) (\<lambda>r.
        case r of
          Inl _ \<Rightarrow> give t
        | Inr n \<Rightarrow> regardless (close (df_PartPath t) (df_actualSize t)) (\<lambda>_.
            let target = (if df_actualSize t = 0 then df_Size t else df_actualSize t)
            in if bytes_of n < target then give t
               else regardless (Rename (df_PartPath t) (df_FinalPath t)) (\<lambda>r.
                 give (case r of Inl _ \<Rightarrow> t | Inr _ \<Rightarrow> t\<lparr>df_IsComplete := True\<rparr>)))))"

fun Finalize :: "(string \<Rightarrow> int \<Rightarrow> unit io) \<Rightarrow> download_file list \<Rightarrow> download_file list io" where
  "Finalize close [] = give []"
| "Finalize close (t # ts) =
     attempt (finalize_file close t) (\<lambda>t. attempt (Finalize close ts) (\<lambda>ts. give (t # ts)))"

end
