(* ===== verification/Go_Frame.thy ===== *)
theory Go_Frame
  imports Go_Os
begin

text \<open>
  Which files a call of \<open>Go_Os\<close> leaves alone, and what it does to the files it is called for.
\<close>

section \<open>What a call leaves alone\<close>

text \<open>The file at a place, and the relation between two states: the working directory of the process stays, and the
  files at the places in \<open>P\<close> stay, \<open>cwd\<close> being the working directory.\<close>

definition file_at :: "os \<Rightarrow> place \<Rightarrow> byte list option" where
  "file_at s q = (case look s q of Some (FileNode c) \<Rightarrow> Some c | _ \<Rightarrow> None)"

definition spares :: "string \<Rightarrow> (place \<Rightarrow> bool) \<Rightarrow> os \<Rightarrow> os \<Rightarrow> bool" where
  "spares cwd P s t \<longleftrightarrow> (os_cwd s = cwd \<longrightarrow> os_cwd t = cwd \<and> (\<forall>q. P q \<longrightarrow> file_at t q = file_at s q))"

abbreviation sparing :: "string \<Rightarrow> (place \<Rightarrow> bool) \<Rightarrow> 'a io \<Rightarrow> bool" where
  "sparing cwd P \<equiv> steps_within (spares cwd P)"

definition within :: "place \<Rightarrow> place \<Rightarrow> bool" where
  "within d q \<longleftrightarrow> q = d \<or> below d q"

lemma within_self [simp]: "within d d"
  by (simp add: within_def)

lemma spares_trans: "transp (spares cwd P)"
  by (rule transpI) (auto simp: spares_def)

lemma spares_refl [simp]: "spares cwd P s s"
  by (simp add: spares_def)

lemma file_at_faults [simp]: "file_at (s\<lparr>os_faults := bs\<rparr>) q = file_at s q" "file_at (s\<lparr>os_ctx := cs\<rparr>) q = file_at s q"
  "file_at (s\<lparr>os_handles := hs\<rparr>) q = file_at s q"
  by (simp_all add: file_at_def look_def)

lemma spares_faults [simp]: "spares cwd P s (t\<lparr>os_faults := bs\<rparr>) = spares cwd P s t"
  "spares cwd P (s\<lparr>os_faults := bs\<rparr>) t = spares cwd P s t" "spares cwd P s (t\<lparr>os_ctx := cs\<rparr>) = spares cwd P s t"
  "spares cwd P s (t\<lparr>os_handles := hs\<rparr>) = spares cwd P s t"
  by (simp_all add: spares_def)

lemma map_of_without: "map_of (filter (\<lambda>x. fst x \<noteq> q) xs) r = (if r = q then None else map_of xs r)"
  by (induction xs) auto

lemma look_put: "look (put_node q n s) r = (if r = q \<and> q \<noteq> [] then Some n else look s r)"
  by (auto simp: look_def put_node_def map_of_without)

lemma look_drop: "look (drop_node q s) r = (if r = q \<and> q \<noteq> [] then None else look s r)"
  by (auto simp: look_def drop_node_def map_of_without)

lemma cwd_nodes [simp]: "os_cwd (put_node q n s) = os_cwd s" "os_cwd (drop_node q s) = os_cwd s" "os_cwd (move_tree a b s) = os_cwd s"
  by (simp_all add: put_node_def drop_node_def move_tree_def)

lemma spares_put: "(P q \<Longrightarrow> file_at s q = (case n of FileNode c \<Rightarrow> Some c | DirNode \<Rightarrow> None)) \<Longrightarrow> spares cwd P s (put_node q n s)"
  by (auto simp: spares_def file_at_def look_put split: node.split)

lemma spares_drop: "\<not> P q \<Longrightarrow> spares cwd P s (drop_node q s)"
  by (auto simp: spares_def file_at_def look_drop)

lemma make_dirs_keep: "spares cwd P s (make_dirs ws s)"
  unfolding make_dirs_def
proof (induction ws arbitrary: s)
  case (Cons w ws)
  have "spares cwd P s (if look s w = None then put_node w DirNode s else s)"
    by (auto intro!: spares_put simp: file_at_def)
  from transpD [OF spares_trans this Cons] show ?case by simp
qed simp

lemma look_move:
  assumes "\<not> within a q" "\<not> within b q"
  shows "look (move_tree a b s) q = look s q"
proof -
  have w: "b @ r \<noteq> q" for r using assms(2) by (auto simp: within_def below_def)
  have "map_of (map (\<lambda>(q, n). if q = a \<or> below a q then (b @ drop (length a) q, n) else (q, n))
      (filter (\<lambda>x. fst x \<noteq> b) xs)) q = map_of xs q" for xs
  proof (induction xs)
    case (Cons x xs)
    obtain q' n where x: "x = (q', n)" by fastforce
    have "\<not> (q' = a \<or> below a q')" if "q' = q" using that assms(1) by (simp add: within_def)
    moreover have "q \<noteq> b" using assms(2) by auto
    ultimately show ?case using Cons w x by auto
  qed simp
  from this [of "os_tree s"] show ?thesis by (simp add: look_def move_tree_def)
qed

lemma spares_move: "(\<And>q. P q \<Longrightarrow> \<not> within a q \<and> \<not> within b q) \<Longrightarrow> spares cwd P s (move_tree a b s)"
  by (simp add: spares_def file_at_def look_move)

subsection \<open>Calls\<close>

lemma sparing_give [intro!]: "sparing cwd P (give x)" and sparing_refuse [intro!]: "sparing cwd P (refuse e)"
  by (simp_all add: steps_within_def give_def refuse_def)

lemma sparing_attempt [intro!]: "sparing cwd P m \<Longrightarrow> (\<And>x. sparing cwd P (k x)) \<Longrightarrow> sparing cwd P (attempt m k)"
  by (rule steps_attempt [OF spares_trans])

lemma sparing_regardless [intro!]: "sparing cwd P m \<Longrightarrow> (\<And>x. sparing cwd P (k x)) \<Longrightarrow> sparing cwd P (regardless m k)"
  by (rule steps_regardless [OF spares_trans])

lemma sparing_map_error [intro!]: "sparing cwd P m \<Longrightarrow> sparing cwd P (map_error f m)"
  unfolding steps_within_def map_error_def by (auto split: prod.split sum.split) (metis snd_conv)+

lemma sparing_deferring [intro!]: "sparing cwd P c \<Longrightarrow> sparing cwd P m \<Longrightarrow> sparing cwd P (deferring c m)"
  unfolding steps_within_def deferring_def by (auto split: prod.split) (metis snd_conv spares_trans transpD)

lemma sparing_sys: "(\<And>k. sparing cwd P (b k)) \<Longrightarrow> sparing cwd P m \<Longrightarrow> sparing cwd P (sys b m)"
  unfolding steps_within_def sys_def by (simp split: list.split option.split add: Let_def) (metis spares_faults(2))

lemma sparing_call [intro!]: "sparing cwd P m \<Longrightarrow> sparing cwd P (call m)"
  unfolding call_def by (rule sparing_sys) blast+

lemma sparing_state: "(\<And>s. os_cwd s = cwd \<Longrightarrow> spares cwd P s (snd (m s))) \<Longrightarrow> sparing cwd P m"
  unfolding steps_within_def by (auto simp: spares_def)

lemma sparing_poll [intro!]: "sparing cwd P poll_ctx"
  unfolding steps_within_def poll_ctx_def by (auto split: list.split)

lemma sparing_Stat [intro!]: "sparing cwd P (Stat p)" "sparing cwd P (Open p)"
  unfolding Open_def Stat_def by (rule sparing_call [OF sparing_state]; auto split: option.split)+

lemma sparing_read [intro!]: "sparing cwd P (read_start k n)"
  unfolding read_start_def by (auto split: node.split)

lemma sparing_ReadDir [intro!]: "sparing cwd P (ReadDir p)"
  unfolding ReadDir_def by (rule sparing_call [OF sparing_state]; auto simp: Let_def split: option.split node.split)

lemma sparing_MkdirAll [intro!]: "sparing cwd P (MkdirAll p)"
  unfolding MkdirAll_def by (rule sparing_call [OF sparing_state]; auto simp: Let_def make_dirs_keep)

lemma sparing_MkdirTemp [intro!]: "sparing cwd P (MkdirTemp d f r)"
  unfolding MkdirTemp_def by (rule sparing_call [OF sparing_state]; auto intro!: spares_put simp: Let_def file_at_def)

lemma sparing_Remove: "\<not> P (place_of cwd p) \<Longrightarrow> sparing cwd P (Remove p)"
  unfolding Remove_def by (rule sparing_call [OF sparing_state]; auto intro!: spares_drop simp: Let_def resolve_def split: option.split node.split)

lemma sparing_Create: "\<not> P (place_of cwd p) \<Longrightarrow> sparing cwd P (Create p)"
  unfolding Create_def by (rule sparing_call [OF sparing_state]; auto intro!: spares_put simp: Let_def resolve_def)

lemma sparing_CopyInto: "\<not> P (place_of cwd p) \<Longrightarrow> sparing cwd P (CopyInto p n)"
  unfolding CopyInto_def by (rule sparing_sys; rule sparing_state; auto intro!: spares_put simp: resolve_def split: node.split)

lemma sparing_RemoveAll:
  assumes "\<And>q. P q \<Longrightarrow> \<not> within (place_of cwd p) q"
  shows "sparing cwd P (RemoveAll p)"
proof -
  have m: "map_of (filter (\<lambda>x. fst x \<noteq> a \<and> \<not> below a (fst x)) xs) q = map_of xs q" if "\<not> within a q" for a q :: place and xs
    using that by (induction xs) (auto simp: within_def)
  have "spares cwd P s (s\<lparr>os_tree := filter (\<lambda>x. fst x \<noteq> a \<and> \<not> below a (fst x)) (os_tree s)\<rparr>)" if "a = place_of cwd p" for a s
    using assms that by (simp add: spares_def file_at_def look_def m)
  then show ?thesis unfolding RemoveAll_def
    by (intro sparing_call sparing_state) (auto simp: Let_def resolve_def)
qed

lemma sparing_Rename:
  assumes "\<And>q. P q \<Longrightarrow> \<not> within (place_of cwd p) q \<and> \<not> within (place_of cwd r) q"
  shows "sparing cwd P (Rename p r)"
proof -
  have n: "\<not> P (place_of cwd p)" "\<not> P (place_of cwd r)" using assms within_self by blast+
  have "spares cwd P s (put_node b m (drop_node a s))" if "\<not> P a" "\<not> P b" for a b m s
    using transpD [OF spares_trans spares_drop spares_put] that by blast
  note put = this
  show ?thesis unfolding Rename_def
    by (rule sparing_call [OF sparing_state];
        use n put spares_move [OF assms] in \<open>auto simp: Let_def resolve_def split: option.split node.split\<close>)
qed

subsection \<open>Outcomes\<close>

lemma sparing_file:
  assumes "sparing cwd P m" "m s = (r, t)" "os_cwd s = cwd"
  shows "os_cwd t = cwd" "P q \<Longrightarrow> file_at t q = file_at s q"
  using assms unfolding steps_within_def spares_def by (metis snd_conv)+

lemma sparing_result: "sparing cwd P m \<Longrightarrow> m s = (r, t) \<Longrightarrow> spares cwd P s t"
  unfolding steps_within_def by (metis snd_conv)

lemma call_cases:
  assumes "call f s = (r, t)"
  obtains "r = Inl SysFailed" | s' where "f s' = (r, t)" "look s' = look s" "os_cwd s' = os_cwd s"
proof -
  have l: "look (s\<lparr>os_faults := bs\<rparr>) = look s" for bs by (rule ext) (simp add: look_def)
  show thesis
    using assms that(1) that(2) [of s] that(2) [of "s\<lparr>os_faults := tl (os_faults s)\<rparr>"] l
    unfolding call_def sys_def by (auto simp: refuse_def Let_def split: list.splits option.splits)
qed

lemma Rename_ok:
  assumes "Rename p r s = (Inr x, t)" "look s (place_of (os_cwd s) p) = Some (FileNode c)"
  shows "file_at t (place_of (os_cwd s) r) = Some c"
  using assms(1) unfolding Rename_def
proof (cases rule: call_cases)
  case (2 s')
  let ?a = "place_of (os_cwd s) p" and ?b = "place_of (os_cwd s) r"
  have b: "look s ?b \<noteq> Some DirNode \<longrightarrow> ?b \<noteq> []" by (auto simp: look_def)
  from 2 assms(2) have "look s ?b \<noteq> Some DirNode \<and> (t = s' \<and> ?a = ?b \<or> t = put_node ?b (FileNode c) (drop_node ?a s'))"
    by (auto simp: resolve_def Let_def split: if_splits)
  then show ?thesis using b assms(2) 2(2) by (auto simp: file_at_def look_put)
qed simp

lemma Rename_fails: "Rename p r s = (Inl e, t) \<Longrightarrow> look t = look s \<and> os_cwd t = os_cwd s"
  unfolding Rename_def call_def sys_def
  by (auto simp: Let_def refuse_def look_def fun_eq_iff split: list.splits option.splits node.splits if_splits)

lemma Open_ok: "Open p s = (Inr n, t) \<Longrightarrow> look s (place_of (os_cwd s) p) = Some n"
  unfolding Open_def Stat_def by (erule call_cases) (auto simp: resolve_def split: option.splits)

lemma Create_ok: "Create p s = (Inr x, t) \<Longrightarrow> place_of (os_cwd s) p \<noteq> []"
  unfolding Create_def by (erule call_cases) (auto simp: resolve_def Let_def look_def split: if_splits)

lemma CopyInto_ok:
  "CopyInto p (FileNode c) s = (Inr x, t) \<Longrightarrow> place_of (os_cwd s) p \<noteq> [] \<Longrightarrow> look t (place_of (os_cwd s) p) = Some (FileNode c)"
  unfolding CopyInto_def sys_def by (auto simp: resolve_def look_put Let_def split: list.splits option.splits)

end
