(* ===== verification/Processor_Props.thy ===== *)
theory Processor_Props
  imports Processor Go_Frame
begin

text \<open>
  Properties of post-processing: no file is lost or written elsewhere by the move to the completed directory, the
  clearing of the working directory deletes leftovers only, prepared files stay in the directory of their job, a
  finalised file consists of its parts (locale \<open>closeable\<close>: what the writer promises), and how an archive is lost.
\<close>

section \<open>Moving a file\<close>

definition temp_of :: "string \<Rightarrow> string" where
  "temp_of dest = path_join (dir_name dest) (''.'' @ base_name dest @ ''.tmp'')"

definition or_remove :: "string \<Rightarrow> 'a io \<Rightarrow> unit io" where
  "or_remove temp m = regardless m (\<lambda>r. case r of Inr _ \<Rightarrow> give () | Inl e \<Rightarrow> regardless (Remove temp) (\<lambda>_. refuse e))"

lemma sparing_or_remove: "sparing cwd P m \<Longrightarrow> \<not> P (place_of cwd temp) \<Longrightarrow> sparing cwd P (or_remove temp m)"
  unfolding or_remove_def by (auto intro!: sparing_Remove split: sum.split)

lemma or_remove_ok: "or_remove temp m s = (Inr x, t) \<Longrightarrow> \<exists>y. m s = (Inr y, t)"
  unfolding or_remove_def
  by (elim regardlessE) (auto simp: give_def refuse_def split: sum.splits elim!: regardlessE)

text \<open>The part of \<open>moveCrossDevice\<close> before the source is removed.\<close>

definition copy_over :: "string \<Rightarrow> string \<Rightarrow> unit io" where
  "copy_over source dest =
     attempt (Open source) (\<lambda>n.
     attempt (Create (temp_of dest)) (\<lambda>_.
     attempt (or_remove (temp_of dest) (map_error (Wrapped ''copy failed'') (CopyInto (temp_of dest) n))) (\<lambda>_.
     attempt (or_remove (temp_of dest) (call (give ()))) (\<lambda>_.
     attempt (or_remove (temp_of dest) (call (give ()))) (\<lambda>_. or_remove (temp_of dest) (Rename (temp_of dest) dest))))))"

lemma cross_device_split: "moveCrossDevice source dest = attempt (copy_over source dest) (\<lambda>_. Remove source)"
  unfolding moveCrossDevice_def copy_over_def Let_def temp_of_def [symmetric] or_remove_def [symmetric] attempt_assoc by (rule refl)

lemma sparing_copy_over:
  assumes "\<And>q. P q \<Longrightarrow> \<not> within (place_of cwd dest) q \<and> \<not> within (place_of cwd (temp_of dest)) q"
  shows "sparing cwd P (copy_over source dest)"
proof -
  have "\<not> P (place_of cwd (temp_of dest))" using assms within_self by blast
  with assms show ?thesis unfolding copy_over_def
    by (auto intro!: sparing_or_remove sparing_Create sparing_CopyInto sparing_Rename)
qed

lemma sparing_moveFile:
  assumes "\<And>q. P q \<Longrightarrow> \<not> within (place_of cwd source) q \<and> \<not> within (place_of cwd dest) q \<and> \<not> within (place_of cwd (temp_of dest)) q"
  shows "sparing cwd P (moveFile source dest)"
proof -
  have "\<not> P (place_of cwd source)" using assms within_self by blast
  with assms show ?thesis unfolding moveFile_def cross_device_split
    by (auto intro!: sparing_copy_over sparing_Rename sparing_Remove split: sum.split)
qed

lemma done_call: "or_remove temp (call (give ())) s = (Inr x, t) \<Longrightarrow> look t = look s \<and> os_cwd t = os_cwd s"
  by (drule or_remove_ok) (auto simp: give_def elim!: call_cases)
lemma copy_over_ok:
  assumes "copy_over source dest s = (Inr x, t)" "file_at s (place_of (os_cwd s) source) = Some c"
  shows "file_at t (place_of (os_cwd s) dest) = Some c"
proof -
  let ?w = "os_cwd s" and ?tmp = "place_of (os_cwd s) (temp_of dest)"
  obtain n s1 s2 s3 s4 s5 where 1: "Open source s = (Inr n, s1)" and 2: "Create (temp_of dest) s1 = (Inr (), s2)"
    and 3: "or_remove (temp_of dest) (map_error (Wrapped ''copy failed'') (CopyInto (temp_of dest) n)) s2 = (Inr (), s3)"
    and 4: "or_remove (temp_of dest) (call (give ())) s3 = (Inr (), s4)"
    and 5: "or_remove (temp_of dest) (call (give ())) s4 = (Inr (), s5)"
    and 6: "or_remove (temp_of dest) (Rename (temp_of dest) dest) s5 = (Inr x, t)"
    using assms(1) unfolding copy_over_def by (elim attemptE) auto
  have n: "n = FileNode c" using Open_ok [OF 1] assms(2) by (simp add: file_at_def split: node.splits)
  have w1: "os_cwd s1 = ?w" using sparing_file(1) [OF sparing_Stat(2) 1 refl] .
  have t: "?tmp \<noteq> []" using Create_ok [OF 2] w1 by simp
  have w2: "os_cwd s2 = ?w" using sparing_file(1) [OF sparing_Create [of "\<lambda>_. False"] 2 w1] by simp
  obtain y where c: "CopyInto (temp_of dest) (FileNode c) s2 = (Inr y, s3)"
    using or_remove_ok [OF 3] n by (auto elim!: map_errorE)
  have l3: "look s3 ?tmp = Some (FileNode c)" using CopyInto_ok [OF c] t w2 by simp
  have w3: "os_cwd s3 = ?w" using sparing_file(1) [OF sparing_CopyInto [of "\<lambda>_. False"] c w2] by simp
  have "look s5 ?tmp = Some (FileNode c)" "os_cwd s5 = ?w" using done_call [OF 4] done_call [OF 5] l3 w3 by simp_all
  then show ?thesis using or_remove_ok [OF 6] Rename_ok by metis
qed

text \<open>Whatever fails on the way, the content of the file is at the source or at the destination afterwards; if the move
  reports success it is at the destination.\<close>

lemma moveFile_safe:
  assumes "moveFile source dest s = (r, t)" "a = place_of (os_cwd s) source" "b = place_of (os_cwd s) dest"
    and "file_at s a = Some c" "\<not> within b a" "\<not> within (place_of (os_cwd s) (temp_of dest)) a"
  shows "file_at t a = Some c \<or> file_at t b = Some c" "r = Inr () \<Longrightarrow> file_at t b = Some c"
proof -
  let ?w = "os_cwd s" and ?K = "\<lambda>q. q = a"
  have "a \<noteq> b" using assms(5) by auto
  have "(file_at t a = Some c \<or> file_at t b = Some c) \<and> (r = Inr () \<longrightarrow> file_at t b = Some c)"
    using assms(1) unfolding moveFile_def
  proof (cases rule: attemptE)
    case (fails e)
    then show ?thesis using sparing_file [OF sparing_MkdirAll [where P = "\<lambda>_. True"] fails(1) refl] assms(4) by simp
  next
    case (goes_on x s1)
    have 1: "os_cwd s1 = ?w" "file_at s1 a = Some c" using sparing_file [OF sparing_MkdirAll [where P = "\<lambda>_. True"] goes_on(1) refl] assms(4) by simp_all
    from goes_on(2) obtain y s2 where 2: "Rename source dest s1 = (y, s2)"
      "(case y of Inr _ \<Rightarrow> give () | Inl _ \<Rightarrow> moveCrossDevice source dest) s2 = (r, t)" by (elim regardlessE)
    show ?thesis
    proof (cases y)
      case (Inr u)
      then show ?thesis using 2 1 assms(2,3) Rename_ok [where p = source and r = dest and s = s1 and t = s2 and c = c] by (simp add: give_def file_at_def split: option.splits node.splits)
    next
      case (Inl e)
      have k: "file_at s2 a = Some c \<and> os_cwd s2 = ?w"
        using 2(1) Inl 1 Rename_fails [of source dest s1 e s2] by (simp add: file_at_def)
      have x: "moveCrossDevice source dest s2 = (r, t)" using 2(2) Inl by simp
      have sp: "sparing ?w ?K (copy_over source dest)" using assms(3,5,6) by (intro sparing_copy_over) auto
      show ?thesis using x unfolding cross_device_split
      proof (cases rule: attemptE)
        case (fails e)
        then show ?thesis using sparing_file [OF sp fails(1)] k by simp
      next
        case (goes_on z s3)
        have "file_at s3 b = Some c" using copy_over_ok [OF goes_on(1)] k assms(2,3) by simp
        moreover have "os_cwd s3 = ?w" using sparing_file(1) [OF sp goes_on(1)] k by simp
        moreover have rm: "sparing ?w (\<lambda>q. q = b) (Remove source)" using \<open>a \<noteq> b\<close> assms(2) by (intro sparing_Remove) simp
        ultimately have "file_at t b = Some c" using sparing_file(2) [OF rm goes_on(2)] by simp
        then show ?thesis by simp
      qed
    qed
  qed
  then show "file_at t a = Some c \<or> file_at t b = Some c" "r = Inr () \<Longrightarrow> file_at t b = Some c" by simp_all
qed

section \<open>The move to the completed directory\<close>

definition dest_of :: "processor \<Rightarrow> queue_item option \<Rightarrow> download_file \<Rightarrow> string" where
  "dest_of p item t = path_join (completedBaseDir p item) (relative_name item (df_FinalPath t))"

lemma completedBaseDir_ne: "completedBaseDir p item \<noteq> []"
  using clean_path_ne by (simp add: completedBaseDir_def Let_def path_join_def)

lemma relative_ordinary:
  assumes "ordinary (base_name path)" "path \<noteq> []"
  obtains fs where "relative_name item path = join_slash fs" "fs \<noteq> []" "list_all ordinary fs"
proof -
  show thesis
  proof (cases "relative_name item path = base_name path")
    case False
    then obtain i :: queue_item and rel where "path_rel (qi_OutDir i) path = Some rel" "rel \<noteq> ''.''" "rel \<noteq> ''..''"
      "\<not> is_prefix ''../'' rel" and r: "relative_name item path = rel"
      by (simp add: relative_name_def Let_def split: option.splits if_splits)
    from path_rel_down [OF this(1-4) assms(2)] show thesis using that r by metis
  qed (use assms(1) that [of "[base_name path]"] in simp)
qed

text \<open>Destination and temporary file are strictly below the directory of the job.\<close>

lemma dest_below:
  assumes "rooted cwd" "ordinary (base_name (df_FinalPath t))" "df_FinalPath t \<noteq> []"
  shows "below (place_of cwd (completedBaseDir p item)) (place_of cwd (dest_of p item t)) \<and>
    below (place_of cwd (completedBaseDir p item)) (place_of cwd (temp_of (dest_of p item t)))"
proof -
  obtain fs where fs: "relative_name item (df_FinalPath t) = join_slash fs" "fs \<noteq> []" "list_all ordinary fs"
    using relative_ordinary [OF assms(2,3)] .
  let ?B = "place_of cwd (completedBaseDir p item)" and ?d = "dest_of p item t"
  have d: "place_of cwd ?d = ?B @ fs" and l: "last (split_slash [] ?d) = last fs"
    using place_join [OF assms(1) completedBaseDir_ne fs(2,3)] last_of_join [OF completedBaseDir_ne fs(2,3)]
    by (simp_all add: dest_of_def fs(1))
  have o: "ordinary (last fs)" using fs(2,3) by (simp add: list_all_iff)
  have n: "?d \<noteq> []" unfolding dest_of_def path_join_def using clean_path_ne completedBaseDir_ne by simp
  have "place_of cwd (dir_name ?d) = butlast (?B @ fs)" "base_name ?d = last fs"
    using place_dir [OF assms(1) n] l o d by (metis butlast_snoc)+
  moreover have "ordinary (''.'' @ last fs @ ''.tmp'')" using o by (auto simp: ordinary_def)
  moreover have "dir_name ?d \<noteq> []" by (simp add: dir_name_def clean_path_ne)
  ultimately have "place_of cwd (temp_of ?d) = butlast (?B @ fs) @ [''.'' @ last fs @ ''.tmp'']"
    using place_snoc [OF assms(1)] by (simp add: temp_of_def)
  then show ?thesis using d fs(2) by (auto simp: below_def butlast_append)
qed

lemma within_trans: "within a b \<Longrightarrow> within b c \<Longrightarrow> within a c"
proof -
  have w: "within a c \<longleftrightarrow> (\<exists>x. c = a @ x)" for a c :: place
    unfolding within_def below_def
    by (metis append.right_neutral append_eq_conv_conj append_take_drop_id length_append le_add1 nat_less_le)
  show "within a b \<Longrightarrow> within b c \<Longrightarrow> within a c" by (auto simp: w)
qed

abbreviation source_place :: "string \<Rightarrow> download_file \<Rightarrow> place" where
  "source_place cwd t \<equiv> place_of cwd (df_FinalPath t)"

abbreviation dest_place :: "string \<Rightarrow> processor \<Rightarrow> queue_item option \<Rightarrow> download_file \<Rightarrow> place" where
  "dest_place cwd p item t \<equiv> place_of cwd (dest_of p item t)"

definition discarded :: "processor \<Rightarrow> download_file \<Rightarrow> bool" where
  "discarded p t \<longleftrightarrow> cleanupExtensions (base_name (df_FinalPath t)) (pc_cleanup p)"

text \<open>The move of \<open>u\<close> touches none of these places.\<close>

definition clear_of :: "string \<Rightarrow> processor \<Rightarrow> queue_item option \<Rightarrow> place set \<Rightarrow> download_file \<Rightarrow> bool" where
  "clear_of cwd p item X u \<longleftrightarrow>
     (\<forall>x\<in>X. \<not> within (source_place cwd u) x \<and> \<not> within (dest_place cwd p item u) x \<and>
        \<not> within (place_of cwd (temp_of (dest_of p item u))) x)"

lemma sparing_move_each:
  assumes "\<forall>u\<in>set ts. \<not> P (source_place cwd u)"
    and "\<forall>u\<in>set ts. \<not> discarded p u \<longrightarrow> clear_of cwd p item (Collect P) u"
  shows "sparing cwd P (move_each p item (completedBaseDir p item) ts)"
  using assms
proof (induction ts)
  case (Cons u us)
  have "sparing cwd P (moveFile (df_FinalPath u) (dest_of p item u))" if "\<not> discarded p u"
    using Cons.prems(2) that by (intro sparing_moveFile) (auto simp: clear_of_def)
  moreover have "sparing cwd P (Remove (df_FinalPath u))" using Cons.prems(1) by (intro sparing_Remove) simp
  ultimately show ?case using Cons by (auto simp: discarded_def dest_of_def)
qed auto

lemma move_each_append:
  "move_each p item d (xs @ ys) = attempt (move_each p item d xs) (\<lambda>_. move_each p item d ys)"
  by (induction xs) (simp_all add: attempt_assoc attempt_regardless)

text \<open>The tasks before and after \<open>t\<close> leave its source and its destination alone; \<open>t\<close> itself does not overlap.\<close>

definition apart :: "string \<Rightarrow> processor \<Rightarrow> queue_item option \<Rightarrow> download_file list \<Rightarrow> download_file \<Rightarrow> download_file list \<Rightarrow> bool" where
  "apart cwd p item xs t ys \<longleftrightarrow>
     (\<forall>u\<in>set (xs @ ys). clear_of cwd p item {source_place cwd t, dest_place cwd p item t} u) \<and>
     \<not> within (dest_place cwd p item t) (source_place cwd t) \<and>
     \<not> within (place_of cwd (temp_of (dest_of p item t))) (source_place cwd t)"

lemma move_each_safe:
  assumes "move_each p item (completedBaseDir p item) (xs @ t # ys) s = (r, s')" "os_cwd s = cwd"
    and "apart cwd p item xs t ys" "\<not> discarded p t" "file_at s (source_place cwd t) = Some c"
  shows "(file_at s' (source_place cwd t) = Some c \<or> file_at s' (dest_place cwd p item t) = Some c) \<and>
    (r = Inr () \<longrightarrow> file_at s' (dest_place cwd p item t) = Some c)"
proof -
  let ?P = "\<lambda>q. q = source_place cwd t \<or> q = dest_place cwd p item t" and ?d = "completedBaseDir p item"
  have "sparing cwd ?P (move_each p item ?d us)" if "set us \<subseteq> set (xs @ ys)" for us
  proof (rule sparing_move_each)
    have "clear_of cwd p item {source_place cwd t, dest_place cwd p item t} u" if "u \<in> set us" for u
      using \<open>set us \<subseteq> _\<close> that assms(3) unfolding apart_def by blast
    then show "\<forall>u\<in>set us. \<not> ?P (source_place cwd u)" "\<forall>u\<in>set us. \<not> discarded p u \<longrightarrow> clear_of cwd p item (Collect ?P) u"
      by (auto simp: clear_of_def) (metis within_self)+
  qed
  then have sx: "sparing cwd ?P (move_each p item ?d xs)" and sy: "sparing cwd ?P (move_each p item ?d ys)" by simp_all
  from assms(1) show ?thesis unfolding move_each_append
  proof (cases rule: attemptE)
    case (fails e)
    then show ?thesis using sparing_file [OF sx fails(1) assms(2)] assms(5) by simp
  next
    case (goes_on x s1)
    have 1: "os_cwd s1 = cwd" "file_at s1 (source_place cwd t) = Some c" using sparing_file [OF sx goes_on(1) assms(2)] assms(5) by simp_all
    have "attempt (moveFile (df_FinalPath t) (dest_of p item t)) (\<lambda>_. move_each p item ?d ys) s1 = (r, s')"
      using goes_on(2) assms(4) by (simp add: discarded_def dest_of_def)
    then show ?thesis
    proof (cases rule: attemptE)
      case (fails e)
      then show ?thesis using moveFile_safe [OF fails(1) refl refl] 1 assms(3) by (simp add: apart_def)
    next
      case (goes_on y s2)
      have "file_at s2 (dest_place cwd p item t) = Some c"
        using moveFile_safe(2) [OF goes_on(1) refl refl] 1 assms(3) by (simp add: apart_def)
      moreover have "os_cwd s2 = cwd"
        using sparing_file(1) [OF sparing_moveFile [of "\<lambda>_. False"] goes_on(1) 1(1)] by simp
      ultimately show ?thesis using sparing_file [OF sy goes_on(2)] by simp
    qed
  qed
qed

lemma move_to_completed_cases:
  assumes "moveToCompleted p item ts s = (r, s')" "os_cwd s = cwd"
  obtains (early) e where "r = Inl e" "\<And>P. spares cwd P s s'"
  | (moved) s1 r' where "\<And>P. spares cwd P s s1" "os_cwd s1 = cwd" "move_each p item (completedBaseDir p item) ts s1 = (r', s')"
      "\<And>d. r = Inr d \<Longrightarrow> r' = Inr ()"
proof -
  note mk = sparing_result [OF sparing_map_error [OF sparing_MkdirAll]]
  from assms(1) show thesis unfolding moveToCompleted_def
  proof (cases rule: attemptE)
    case (fails e)
    then show thesis using early mk by metis
  next
    case (goes_on x s1)
    have 1: "spares cwd P s s1" for P using mk [OF goes_on(1)] .
    from goes_on(2) show thesis
    proof (cases rule: attemptE)
      case (fails e)
      have "spares cwd P s s'" for P using transpD [OF spares_trans 1 mk [OF fails(1)]] .
      then show thesis using early fails(2) by metis
    next
      case (goes_on y s2)
      have 2: "spares cwd P s s2" for P using transpD [OF spares_trans 1 mk [OF goes_on(1)]] .
      then have "os_cwd s2 = cwd" using assms(2) unfolding spares_def by metis
      from goes_on(2) show thesis by (cases rule: attemptE) (use moved [OF 2 \<open>os_cwd s2 = cwd\<close>] in \<open>auto simp: give_def\<close>)
    qed
  qed
qed

text \<open>C5: The move to the completed directory loses no file. Whatever system call fails at whatever moment (also in the copy between
  devices), the content of every file to be moved is afterwards at its old or at its new place; if the move reports
  success, it is at the new place.\<close>

theorem moved_files_are_not_lost:
  assumes "moveToCompleted p item (xs @ t # ys) s = (r, s')" "apart (os_cwd s) p item xs t ys" "\<not> discarded p t"
    and "file_at s (source_place (os_cwd s) t) = Some c"
  shows "(file_at s' (source_place (os_cwd s) t) = Some c \<or> file_at s' (dest_place (os_cwd s) p item t) = Some c) \<and>
    (\<forall>d. r = Inr d \<longrightarrow> file_at s' (dest_place (os_cwd s) p item t) = Some c)"
  using assms(1) refl
proof (cases rule: move_to_completed_cases)
  case (early e)
  have "file_at s' (source_place (os_cwd s) t) = Some c" using early(2) [of "\<lambda>_. True"] assms(4) by (simp add: spares_def)
  with early show ?thesis by simp
next
  case (moved s1 r')
  have "file_at s1 (source_place (os_cwd s) t) = Some c" using moved(1) [of "\<lambda>_. True"] assms(4) by (simp add: spares_def)
  from move_each_safe [OF moved(3,2) assms(2,3) this] moved(4) show ?thesis by auto
qed

lemma sanitized_part:
  assumes "sanitizeCompletedPathPart v \<noteq> []"
  shows "ordinary (sanitizeCompletedPathPart v) \<and> list_all dir_char (sanitizeCompletedPathPart v)"
proof -
  let ?u = "trim_cutset (replace_unsafe False (trim_space v))"
  have "?u \<noteq> []"
  proof
    assume "?u = []"
    then show False using assms by (simp add: sanitizeCompletedPathPart_def collapse.simps [of "[]"])
  qed
  then have h: "hd (sanitizeCompletedPathPart v) = hd ?u" "\<not> in_cutset (hd ?u)"
    using collapse_hd [of ?u] trim_cutset_hd by (auto simp: sanitizeCompletedPathPart_def)
  have "set (sanitizeCompletedPathPart v) \<subseteq> set (replace_unsafe False (trim_space v))"
    unfolding sanitizeCompletedPathPart_def by (rule subset_trans [OF collapse_set trim_cutset_set])
  then have c: "list_all dir_char (sanitizeCompletedPathPart v)"
    using replace_unsafe_chars [of False "trim_space v"] by (auto simp: list_all_iff)
  then have "CHR ''/'' \<notin> set (sanitizeCompletedPathPart v)" by (auto simp: list_all_iff dir_char_def)
  with c h assms show ?thesis by (auto simp: ordinary_def in_cutset_def)
qed

lemma completed_base:
  assumes "rooted cwd" "pc_CompletedDir p \<noteq> []"
  shows "\<exists>category folder. place_of cwd (completedBaseDir p item) = place_of cwd (pc_CompletedDir p) @ [category, folder] \<and>
    list_all dir_char category \<and> list_all dir_char folder"
proof -
  obtain c f where b: "completedBaseDir p item = path_join (pc_CompletedDir p) (c @ ''/'' @ f)"
    and "ordinary c" "ordinary f" and d: "list_all dir_char c" "list_all dir_char f"
  proof
    let ?c = "(case item of
            Some i \<Rightarrow> (case qi_Release i of
               Some r \<Rightarrow> if trim_space (rel_Category r) \<noteq> [] then sanitizeCompletedPathPart (rel_Category r) else ''uncategorized''
             | None \<Rightarrow> ''uncategorized'')
          | None \<Rightarrow> ''uncategorized'')"
    let ?f = "(case item of
            Some i \<Rightarrow> if qi_OutDir i \<noteq> [] then sanitizeCompletedPathPart (base_name (qi_OutDir i))
                      else if qi_ReleaseTitle i \<noteq> [] then sanitizeCompletedPathPart (qi_ReleaseTitle i)
                      else ''job''
          | None \<Rightarrow> ''job'')"
    define c where "c = (if ?c = [] then ''uncategorized'' else ?c)"
    define f where "f = (if ?f = [] then ''job'' else ?f)"
    show "completedBaseDir p item = path_join (pc_CompletedDir p) (c @ ''/'' @ f)"
      by (simp add: completedBaseDir_def Let_def c_def f_def)
    have u: "ordinary ''uncategorized'' \<and> list_all dir_char ''uncategorized''" "ordinary ''job'' \<and> list_all dir_char ''job''"
      by (simp_all add: ordinary_def dir_char_def)
    have "ordinary c \<and> list_all dir_char c" "ordinary f \<and> list_all dir_char f"
      using u sanitized_part by (auto simp: c_def f_def split: option.split)
    then show "ordinary c" "ordinary f" "list_all dir_char c" "list_all dir_char f" by simp_all
  qed
  then show ?thesis using place_join [OF assms, of "[c, f]"] by auto
qed

text \<open>C13: The move writes only into its own directory two levels below the completed directory, however the release, its
  category and its files are called: the two elements consist of letters, digits, dots, underscores and hyphens, and a
  file anywhere else that is not one of the files to be moved is the same before and after.\<close>

theorem move_stays_below_completed:
  assumes "rooted (os_cwd s)" "pc_CompletedDir p \<noteq> []" "moveToCompleted p item ts s = (r, s')"
    and "\<forall>t\<in>set ts. ordinary (base_name (df_FinalPath t))"
  shows "\<exists>category folder. list_all dir_char category \<and> list_all dir_char folder \<and>
    (\<forall>q. \<not> within (place_of (os_cwd s) (pc_CompletedDir p) @ [category, folder]) q \<and>
         (\<forall>t\<in>set ts. \<not> within (source_place (os_cwd s) t) q) \<longrightarrow> file_at s' q = file_at s q)"
proof -
  let ?w = "os_cwd s" and ?B = "place_of (os_cwd s) (completedBaseDir p item)"
  obtain c f where cf: "?B = place_of ?w (pc_CompletedDir p) @ [c, f]" "list_all dir_char c" "list_all dir_char f"
    using completed_base [OF assms(1,2)] by blast
  let ?P = "\<lambda>q. \<not> within ?B q \<and> (\<forall>t\<in>set ts. \<not> within (source_place ?w t) q)"
  have "clear_of ?w p item (Collect ?P) u" if "u \<in> set ts" for u
  proof -
    have "df_FinalPath u \<noteq> []" "ordinary (base_name (df_FinalPath u))" using assms(4) that by (auto simp: base_name_def ordinary_def)
    then have "within ?B (dest_place ?w p item u)" "within ?B (place_of ?w (temp_of (dest_of p item u)))"
      using dest_below [OF assms(1)] by (auto simp: within_def)
    then show ?thesis using that within_trans unfolding clear_of_def by blast
  qed
  moreover have "\<not> ?P (source_place ?w u)" if "u \<in> set ts" for u using that within_self by blast
  ultimately have m: "sparing ?w ?P (move_each p item (completedBaseDir p item) ts)" by (intro sparing_move_each) blast+
  have "spares ?w ?P s s'" using assms(3) refl
  proof (cases rule: move_to_completed_cases)
    case (moved s1 r')
    show ?thesis by (rule transpD [OF spares_trans moved(1) sparing_result [OF m moved(3)]])
  qed
  then show ?thesis using cf by (auto simp: spares_def)
qed

section \<open>Clearing the working directory\<close>

text \<open>A file system as Unix has it: names without slashes, every entry in a directory.\<close>

definition os_ok :: "os \<Rightarrow> bool" where
  "os_ok s \<longleftrightarrow> rooted (os_cwd s) \<and> (\<forall>x\<in>set (os_tree s). list_all ordinary (fst x)) \<and>
     (\<forall>x\<in>set (os_tree s). fst x \<noteq> [] \<longrightarrow> look s (butlast (fst x)) = Some DirNode)"

lemma look_key: "look s q \<noteq> None \<Longrightarrow> q \<noteq> [] \<Longrightarrow> \<exists>n. (q, n) \<in> set (os_tree s)"
  by (auto simp: look_def dest: map_of_SomeD)

lemma way_dirs: "os_ok s \<Longrightarrow> look s q \<noteq> None \<Longrightarrow> n < length q \<Longrightarrow> look s (take n q) = Some DirNode"
proof (induction q rule: rev_induct)
  case (snoc e q)
  obtain m where "(q @ [e], m) \<in> set (os_tree s)" using look_key [OF snoc.prems(2)] by auto
  then have d: "look s q = Some DirNode" using snoc.prems(1) unfolding os_ok_def by force
  show ?case
  proof (cases "n < length q")
    case True
    with snoc.IH snoc.prems(1) d show ?thesis by simp
  qed (use d snoc.prems(3) in simp)
qed simp

text \<open>What \<open>Remove\<close> does when no file is at the place.\<close>

lemma Remove_dir: "file_at s (place_of (os_cwd s) p) = None \<Longrightarrow> spares cwd P s (snd (Remove p s))"
proof -
  assume a: "file_at s (place_of (os_cwd s) p) = None"
  then have d: "spares cwd P s (drop_node (place_of (os_cwd s) p) s)" by (auto simp: spares_def file_at_def look_drop)
  have f: "drop_node q (s\<lparr>os_faults := bs\<rparr>) = (drop_node q s)\<lparr>os_faults := bs\<rparr>" for q bs by (simp add: drop_node_def)
  from a d show ?thesis
    by (auto simp: f Remove_def call_def sys_def refuse_def Let_def resolve_def file_at_def look_def
        split: list.split option.split node.split)
qed

lemma Stat_ok: "Stat p s = (Inr n, t) \<Longrightarrow> look s (place_of (os_cwd s) p) = Some n"
  unfolding Stat_def by (erule call_cases) (auto simp: resolve_def split: option.splits)

abbreviation "everywhere \<equiv> \<lambda>_::place. True"

lemma sparing_walk [intro!]: "sparing cwd P (walk_dirs qs)"
  by (induction qs) (auto split: node.split)

lemma walk_dirs_dirs:
  "walk_dirs qs s = (Inr ds, t) \<Longrightarrow> os_cwd s = cwd \<Longrightarrow> d \<in> set ds \<Longrightarrow> file_at s (place_of cwd d) = None"
proof (induction qs arbitrary: s ds)
  case (Cons q qs)
  from Cons.prems(1) obtain n s1 where 1: "Stat (path_of q) s = (Inr n, s1)"
    and r: "(case n of FileNode _ \<Rightarrow> walk_dirs qs
      | DirNode \<Rightarrow> attempt (call (give ())) (\<lambda>_. attempt (walk_dirs qs) (\<lambda>ds. give (path_of q # ds)))) s1 = (Inr ds, t)"
    by (auto elim: attemptE)
  note s1 = sparing_file [OF sparing_Stat(1) [where P = everywhere] 1 Cons.prems(2)]
  show ?case
  proof (cases n)
    case (FileNode c)
    with r Cons.IH [of s1 ds] s1 Cons.prems(3) show ?thesis by simp
  next
    case DirNode
    then obtain s2 ds' where 2: "call (give ()) s1 = (Inr (), s2)" "walk_dirs qs s2 = (Inr ds', t)" "ds = path_of q # ds'"
      using r by (auto simp: give_def elim!: attemptE)
    note s2 = sparing_file [OF sparing_call [OF sparing_give, where P = everywhere] 2(1) s1(1)]
    have "file_at s (place_of cwd (path_of q)) = None" using Stat_ok [OF 1] DirNode Cons.prems(2) by (simp add: file_at_def)
    with Cons.IH [OF 2(2) s2(1)] s1 s2 Cons.prems(3) 2(3) show ?thesis by auto
  qed
qed (simp add: give_def)

lemma sparing_at: "spares cwd everywhere s t \<longleftrightarrow> (os_cwd s = cwd \<longrightarrow> os_cwd t = cwd \<and> file_at t = file_at s)"
  by (auto simp: spares_def)

lemma remove_dirs_spare:
  "os_cwd s = cwd \<Longrightarrow> \<forall>d\<in>set ds. file_at s (place_of cwd d) = None \<Longrightarrow> spares cwd everywhere s (snd (remove_dirs root ds s))"
proof (induction ds arbitrary: s)
  case (Cons d ds)
  show ?case
  proof (cases "samePath d root s")
    case False
    have 1: "spares cwd everywhere s (snd (Remove d s))" using Remove_dir Cons.prems by simp
    then have "spares cwd everywhere (snd (Remove d s)) (snd (remove_dirs root ds (snd (Remove d s))))"
      using Cons.IH [of "snd (Remove d s)"] Cons.prems by (simp add: sparing_at)
    with transpD [OF spares_trans 1] False show ?thesis by (simp add: regardless_eq)
  qed (use Cons in simp)
qed (simp add: give_def)

lemma within_spare: "os_cwd s = cwd \<Longrightarrow> spares cwd everywhere s (snd (removeEmptyDirsWithin root s))"
proof -
  assume c: "os_cwd s = cwd"
  let ?root = "trim_space root"
  obtain r t where w: "walk_dirs (walk_order s (resolve s ?root)) s = (r, t)" by fastforce
  have t: "spares cwd everywhere s t" by (rule sparing_result [OF sparing_walk w])
  have "spares cwd everywhere t (snd (remove_dirs ?root (rev ds) t))" if "r = Inr ds" for ds
    using walk_dirs_dirs [OF w [unfolded that] c] t c by (intro remove_dirs_spare) (auto simp: sparing_at)
  with t show ?thesis
    using transpD [OF spares_trans t]
    by (auto simp: removeEmptyDirsWithin_def Let_def regardless_eq w give_def refuse_def split: sum.split)
qed

text \<open>No blanks at the ends of the paths to a place.\<close>

definition unblanked :: "place \<Rightarrow> bool" where
  "unblanked q \<longleftrightarrow> (\<forall>n\<le>length q. trim_space (path_of (take n q)) = path_of (take n q))"

lemma unblanked_code: "unblanked q \<longleftrightarrow> list_all (\<lambda>n. trim_space (path_of (take n q)) = path_of (take n q)) [0..<Suc (length q)]"
  by (auto simp: unblanked_def list_all_iff less_Suc_eq_le)

lemma up_spare:
  assumes "rooted cwd" "list_all ordinary es" "unblanked es"
  shows "os_cwd s = cwd \<Longrightarrow> \<forall>n\<le>length es. file_at s (take n es) = None \<Longrightarrow> c = path_of es \<Longrightarrow>
    spares cwd everywhere s (snd (removeEmptyDirsUp c stop s))"
  using assms(2,3)
proof (induction c stop s arbitrary: es rule: removeEmptyDirsUp.induct)
  case (1 c stop s)
  have tr: "trim_space c = path_of es" using 1(4,6) by (simp add: unblanked_def) (metis order_refl take_all)
  have pl: "place_of cwd (path_of es) = es" using 1(5) by (simp add: place_of_def path_abs_def)
  have d: "dir_name (path_of es) = path_of (butlast es)" by (rule dir_name_of [OF 1(5)])
  show ?case
  proof (cases "path_of es = [] \<or> samePath (path_of es) stop s")
    case True
    then show ?thesis by (simp add: removeEmptyDirsUp.simps tr)
  next
    case False
    obtain r t where rm: "Remove (path_of es) s = (r, t)" by fastforce
    have "file_at s es = None" using 1(3) by (metis order_refl take_all)
    then have sp: "spares cwd everywhere s t" using Remove_dir [of s "path_of es"] pl 1(2) rm by (metis snd_conv)
    then have t: "os_cwd t = cwd" "file_at t = file_at s" using 1(2) by (simp_all add: sparing_at)
    have b: "list_all ordinary (butlast es)" using 1(5) by (auto simp: list_all_iff dest: in_set_butlastD)
    have u: "unblanked (butlast es)" using 1(6) by (auto simp: unblanked_def take_butlast butlast_conv_take min_def)
    have f: "\<forall>n\<le>length (butlast es). file_at t (take n (butlast es)) = None"
      using 1(3) t by (auto simp: butlast_conv_take min_def)
    have "spares cwd everywhere t (snd (removeEmptyDirsUp (dir_name (path_of es)) stop t))"
      if "r = Inr ()" "dir_name (path_of es) \<noteq> path_of es"
      by (rule 1(1) [OF tr [symmetric] False rm [symmetric] that t(1) f d b u])
    with sp show ?thesis using False rm d
      by (subst removeEmptyDirsUp.simps) (auto simp: tr Let_def split: sum.split intro: transpD [OF spares_trans sp])
  qed
qed

text \<open>What the clearing may remove from the working directory: a file by its name and content.\<close>

definition leftover :: "processor \<Rightarrow> string \<Rightarrow> byte list \<Rightarrow> bool" where
  "leftover p name c \<longleftrightarrow> archive_name name \<or> (path_ext name = [] \<and> signature_of (take 8 c) \<noteq> NoSignature) \<or>
     cleanupExtensions name (pc_cleanup p)"

definition cleared :: "string \<Rightarrow> processor \<Rightarrow> place \<Rightarrow> os \<Rightarrow> os \<Rightarrow> bool" where
  "cleared cwd p W s t \<longleftrightarrow> (os_cwd s = cwd \<longrightarrow> os_cwd t = cwd \<and>
     (\<forall>q. file_at t q = file_at s q \<or>
        file_at t q = None \<and> (\<exists>name c. q = W @ [name] \<and> file_at s q = Some c \<and> leftover p name c)))"

lemma cleared_trans: "transp (cleared cwd p W)"
  unfolding transp_def cleared_def by (metis option.distinct(1))

lemma spares_cleared: "spares cwd everywhere s t \<Longrightarrow> cleared cwd p W s t"
  by (simp add: spares_def cleared_def)

lemma sparing_signature [intro!]: "sparing cwd P (detectArchiveSignature f)"
  unfolding detectArchiveSignature_def by auto

lemma signature_ok:
  "detectArchiveSignature f s = (Inr k, t) \<Longrightarrow> \<exists>c. file_at s (place_of (os_cwd s) f) = Some c \<and> k = signature_of (take 8 c)"
proof -
  assume "detectArchiveSignature f s = (Inr k, t)"
  then obtain n s1 h s2 where 1: "Open f s = (Inr n, s1)" "read_start 8 n s1 = (Inr h, s2)" "k = signature_of h"
    unfolding detectArchiveSignature_def by (auto simp: give_def elim!: attemptE)
  from 1(2) obtain c where "n = FileNode c" "h = take 8 c"
    unfolding read_start_def by (cases rule: call_cases) (auto simp: refuse_def give_def split: node.splits)
  then show ?thesis using Open_ok [OF 1(1)] 1(3) by (simp add: file_at_def)
qed

lemma sparing_artifact [intro!]: "sparing cwd P (isArchiveArtifact f)"
  unfolding isArchiveArtifact_def isExtensionlessArchive_def by auto

lemma artifact_ok:
  assumes "isArchiveArtifact f s = (Inr True, t)" "\<not> archive_name (base_name f)"
  shows "path_ext (base_name f) = [] \<and> (\<exists>c. file_at s (place_of (os_cwd s) f) = Some c \<and> signature_of (take 8 c) \<noteq> NoSignature)"
proof -
  from assms have e: "path_ext (base_name f) = []" and
    r: "(regardless (detectArchiveSignature f) (\<lambda>r. give (case r of Inl _ \<Rightarrow> False | Inr k \<Rightarrow> k \<noteq> NoSignature)) :: bool io) s = (Inr True, t)"
    by (auto simp: isArchiveArtifact_def isExtensionlessArchive_def give_def split: if_splits)
  from r obtain k u where "detectArchiveSignature f s = (Inr k, u)" "k \<noteq> NoSignature"
    by (auto simp: give_def elim!: regardlessE split: sum.splits)
  with signature_ok e show ?thesis by blast
qed

lemma Remove_gone:
  assumes "Remove f s = (z, t)"
  shows "file_at t (place_of (os_cwd s) f) = file_at s (place_of (os_cwd s) f) \<or> file_at t (place_of (os_cwd s) f) = None"
  using assms unfolding Remove_def
proof (cases rule: call_cases)
  case 1
  with assms show ?thesis
    by (auto simp: Remove_def call_def sys_def refuse_def Let_def file_at_def look_drop look_def
        split: list.splits option.splits node.splits if_splits)
next
  case (2 s')
  then show ?thesis by (auto simp: resolve_def Let_def file_at_def look_drop split: option.splits node.splits if_splits)
qed

lemma clear_entries_clear:
  assumes "rooted cwd" "list_all ordinary W" "\<forall>x\<in>set es. ordinary (fst x)"
  shows "steps_within (cleared cwd p W) (clear_entries p (path_of W) es)"
  using assms(3)
proof (induction es)
  case Nil
  show ?case by (simp add: steps_within_def give_def cleared_def)
next
  case (Cons x es)
  obtain name n where x: "x = (name, n)" by fastforce
  have o: "ordinary name" using Cons.prems x by simp
  note IH = Cons.IH [OF ballI, OF Cons.prems [rule_format], OF list.set_intros(2)]
  let ?f = "path_join (path_of W) name"
  have f: "?f = path_of (W @ [name])" using path_join_of [OF assms(2), of "[name]"] o by simp
  then have b: "base_name ?f = name" "place_of cwd ?f = W @ [name]"
    using base_name_of [of "W @ [name]"] o assms(2) by (simp_all add: place_of_def path_abs_def)
  show ?case unfolding x
  proof (cases "n = DirNode")
    case True
    then show "steps_within (cleared cwd p W) (clear_entries p (path_of W) ((name, n) # es))" using IH by simp
  next
    case False
    have "cleared cwd p W s (snd (clear_entries p (path_of W) ((name, n) # es) s))" for s
    proof (cases "os_cwd s = cwd")
      case True
      obtain r s1 where a: "isArchiveArtifact ?f s = (r, s1)" by fastforce
      have 1: "spares cwd everywhere s s1" by (rule sparing_result [OF sparing_artifact a])
      then have c1: "cleared cwd p W s s1" "os_cwd s1 = cwd" using True by (simp_all add: spares_cleared sparing_at)
      obtain z s2 where rm: "Remove ?f s1 = (z, s2)" by fastforce
      have 2: "cleared cwd p W s1 s2" if "r = Inr art" "art \<or> cleanupExtensions name (pc_cleanup p)" for art
      proof -
        have l: "leftover p name c" if "file_at s1 (W @ [name]) = Some c" for c
          using artifact_ok [of ?f s s1] a \<open>r = Inr art\<close> \<open>art \<or> _\<close> b that 1 True by (auto simp: leftover_def sparing_at)
        have "spares cwd (\<lambda>q. q \<noteq> W @ [name]) s1 s2" using sparing_result [OF sparing_Remove rm] b(2) by simp
        moreover have "file_at s2 (W @ [name]) = file_at s1 (W @ [name]) \<or> file_at s2 (W @ [name]) = None"
          using Remove_gone [OF rm] b(2) c1(2) by simp
        ultimately show ?thesis using l unfolding cleared_def spares_def by (metis option.exhaust)
      qed
      have 3: "cleared cwd p W u (snd (clear_entries p (path_of W) es u))" for u using IH by (simp add: steps_within_def)
      note tr = transpD [OF cleared_trans c1(1)]
      show ?thesis
      proof (cases r)
        case (Inl e)
        then show ?thesis using False c1(1) by (simp add: attempt_def a)
      next
        case (Inr art)
        have 4: "cleared cwd p W s (snd (clear_entries p (path_of W) es s1))" by (rule tr [OF 3])
        have 5: "cleared cwd p W s s2" "cleared cwd p W s (snd (clear_entries p (path_of W) es s2))"
          if "art \<or> cleanupExtensions name (pc_cleanup p)"
          using tr [OF 2 [OF Inr that]] transpD [OF cleared_trans tr [OF 2 [OF Inr that]] 3] by simp_all
        show ?thesis using False Inr 4 5 by (auto simp: attempt_def a regardless_def rm refuse_def split: sum.split)
      qed
    qed (simp add: cleared_def)
    then show "steps_within (cleared cwd p W) (clear_entries p (path_of W) ((name, n) # es))" by (simp add: steps_within_def)
  qed
qed

lemma path_below_within:
  assumes "list_all ordinary R" "list_all ordinary W" "path_below (path_of R) (path_of W)"
  shows "within R W"
proof (cases "R = []")
  case True
  then have "\<exists>x. join_slash W = CHR ''/'' # x" using assms(3) by (auto simp: path_below_def path_of_def is_prefix_iff)
  moreover have "W \<noteq> [] \<Longrightarrow> hd W \<noteq> [] \<and> hd (hd W) \<noteq> CHR ''/''"
    using assms(2) by (cases W) (auto simp: ordinary_def neq_Nil_conv)
  ultimately show ?thesis by (cases W; cases "tl W"; cases "hd W") (auto simp: within_def below_def True)
next
  case False
  obtain x where x: "join_slash W = join_slash R @ CHR ''/'' # x"
    using assms(3) by (auto simp: path_below_def path_of_def is_prefix_iff)
  then have "W \<noteq> []" by auto
  then have "W = R @ split_slash [] x"
    using split_join [OF _ assms(2)] split_join [OF False assms(1)] x by (simp add: split_slash_append)
  then show ?thesis using split_slash_ne [of "[]" x] by (auto simp: within_def below_def)
qed

lemma ReadDir_ok:
  assumes "ReadDir d s = (Inr es, t)"
  shows "look s (place_of (os_cwd s) d) = Some DirNode \<and> (\<forall>x\<in>set es. \<exists>q \<in> fst ` set (os_tree s). q \<noteq> [] \<and> fst x = last q)"
proof -
  have c: "children (s\<lparr>os_faults := bs\<rparr>) q = children s q" for bs q by (simp add: children_def)
  show ?thesis using assms unfolding ReadDir_def call_def sys_def
    by (auto simp: c Let_def refuse_def resolve_def look_def children_def image_iff
        split: list.splits option.splits node.splits if_splits)
qed

text \<open>The entries, the empty directories below and above, once the working directory has been read.\<close>

lemma clear_and_remove:
  assumes "rooted cwd" "list_all ordinary W" "\<forall>x\<in>set es. ordinary (fst x)" "unblanked W" "os_cwd s = cwd"
    and way: "\<forall>n\<le>length W. file_at s (take n W) = None"
    and "attempt (clear_entries p (path_of W) es) (\<lambda>_.
          attempt (removeEmptyDirsWithin (path_of W)) (\<lambda>_. removeEmptyDirsUp (path_of W) stop)) s = (r, t)"
  shows "cleared cwd p W s t"
proof -
  note clear = clear_entries_clear [OF assms(1-3), of p, unfolded steps_within_def, THEN spec, of s]
  from assms(7) show ?thesis
  proof (cases rule: attemptE)
    case (fails e)
    then show ?thesis using clear by simp
  next
    case (goes_on x s2)
    have 2: "cleared cwd p W s s2" using clear goes_on(1) by simp
    then have s2: "os_cwd s2 = cwd" "\<And>q. file_at s q = None \<Longrightarrow> file_at s2 q = None"
      using assms(5) unfolding cleared_def by (auto, metis)
    note ws = within_spare [OF s2(1), of "path_of W"]
    from goes_on(2) show ?thesis
    proof (cases rule: attemptE)
      case (fails e)
      then have "spares cwd everywhere s2 t" using ws by simp
      with 2 show ?thesis using transpD [OF cleared_trans] spares_cleared by blast
    next
      case (goes_on y s3)
      then have 3: "spares cwd everywhere s2 s3" using ws by simp
      then have s3: "os_cwd s3 = cwd" "file_at s3 = file_at s2" using s2 by (simp_all add: sparing_at)
      have "\<forall>n\<le>length W. file_at s3 (take n W) = None" using way s2(2) s3(2) by simp
      then have "spares cwd everywhere s3 t" using up_spare [OF assms(1,2,4) s3(1) _ refl, of stop] goes_on(2) by simp
      with 2 3 show ?thesis using transpD [OF cleared_trans] spares_cleared by metis
    qed
  qed
qed

text \<open>C10: The clearing of the working directory deletes no file but leftovers: a file that disappears lay directly in the working
  directory, the working directory is the download directory or below it, and the file is an archive, a parity or
  checksum file by its name or (without extension) by its signature, or has an extension to be cleaned up. Everything
  else keeps its content, whatever system call fails.\<close>

theorem clearing_spares_files:
  assumes "os_ok s" "cleanupWorkDir p work completed s = (r, t)"
    and "W = place_of (os_cwd s) (trim_space work)" "unblanked W"
  shows "\<forall>q. file_at t q = file_at s q \<or>
    file_at t q = None \<and> (\<exists>name c. q = W @ [name] \<and> file_at s q = Some c \<and> leftover p name c \<and>
      within (place_of (os_cwd s) (trim_space (pc_OutDir p))) W)"
proof -
  let ?cwd = "os_cwd s" and ?work = "trim_space work" and ?root = "trim_space (pc_OutDir p)"
  define R where "R = place_of ?cwd ?root"
  have rt: "rooted ?cwd" using assms(1) by (simp add: os_ok_def)
  have W: "list_all ordinary W" "path_abs ?cwd ?work = path_of W"
    using path_abs_rooted [OF rt, of ?work] assms(3) by (auto simp: place_of_def)
  have R: "list_all ordinary R" "path_abs ?cwd ?root = path_of R"
    using path_abs_rooted [OF rt, of ?root] by (auto simp: place_of_def R_def)
  have "cleared ?cwd p W s t \<and> (t = s \<or> within R W)"
  proof (cases "t = s")
    case True
    then show ?thesis by (simp add: cleared_def)
  next
    case False
    then have g: "path_of W = path_of R \<or> path_below (path_of R) (path_of W)"
      and run: "regardless (ReadDir (path_of W)) (\<lambda>es.
              case es of
                Inl e \<Rightarrow> if e = NotExist then give () else refuse e
              | Inr entries \<Rightarrow>
                  attempt (clear_entries p (path_of W) entries) (\<lambda>_.
                  attempt (removeEmptyDirsWithin (path_of W)) (\<lambda>_. removeEmptyDirsUp (path_of W) (path_of R)))) s = (r, t)"
      using assms(2) unfolding cleanupWorkDir_def W(2) R(2) Let_def by (auto split: if_splits)
    have in_root: "within R W" using g path_below_within [OF R(1) W(1)] R(1) W(1) by auto
    obtain es s1 where rd: "ReadDir (path_of W) s = (es, s1)" by fastforce
    have 1: "spares ?cwd everywhere s s1" by (rule sparing_result [OF sparing_ReadDir rd])
    then have s1: "os_cwd s1 = ?cwd" "file_at s1 = file_at s" by (simp_all add: sparing_at)
    have "cleared ?cwd p W s1 t"
    proof (cases es)
      case (Inl e)
      then show ?thesis using run rd by (auto simp: regardless_def give_def refuse_def cleared_def split: if_splits)
    next
      case (Inr entries)
      have rd': "ReadDir (path_of W) s = (Inr entries, s1)" using rd Inr by simp
      have pW: "place_of ?cwd (path_of W) = W" using W(1) by (simp add: place_of_def path_abs_def)
      have d: "look s W = Some DirNode" and names: "\<forall>x\<in>set entries. ordinary (fst x)"
        using ReadDir_ok [OF rd'] pW assms(1) unfolding os_ok_def
        by (auto simp: list_all_iff)
      have way: "\<forall>n\<le>length W. file_at s1 (take n W) = None"
        using way_dirs [OF assms(1), of W] d s1 by (auto simp: file_at_def le_less)
      show ?thesis
        by (rule clear_and_remove [OF rt W(1) names assms(4) s1(1) way]) (use run rd' in \<open>simp add: regardless_def\<close>)
    qed
    with in_root show ?thesis using s1 unfolding cleared_def by simp
  qed
  then show ?thesis unfolding cleared_def R_def by blast
qed

section \<open>The files of an NZB\<close>

lemma trim_space_subset: "set (trim_space s) \<subseteq> set s"
proof -
  have "set (trim_left s) \<subseteq> set s" for s
    by (induction s rule: trim_left.induct) (auto simp: Let_def dest: in_set_dropD)
  moreover have "set (trim_left_rev s) \<subseteq> set s" for s
    by (induction s rule: trim_left_rev.induct) (auto simp: Let_def dest: in_set_dropD)
  ultimately show ?thesis unfolding trim_space_def by (metis set_rev subset_trans)
qed

lemma file_name_no_slash: "CHR ''/'' \<notin> set (sanitizeFileName unescape subject)"
  using trim_space_subset by (fastforce simp: sanitizeFileName_def Let_def bad_char_def)

text \<open>A suffix to the last element of a path is a suffix to the path.\<close>

lemma path_join_suffix:
  assumes "b \<noteq> []" "ordinary n" "ordinary (n @ x)"
  shows "path_join b (n @ x) = path_join b n @ x"
proof -
  have e: "clean_elems r [] (split_slash [] (b @ CHR ''/'' # m)) = clean_elems r [] (split_slash [] b) @ [m]" if "ordinary m" for r m
    using clean_elems_ordinary [of "[m]"] that split_slash_plain [of m "[]" "[]"] by (simp add: split_slash_append ordinary_def)
  have s: "join_slash (es @ [n @ x]) = join_slash (es @ [n]) @ x" for es
    by (cases "es = []") (simp_all add: join_slash_append)
  have p: "path_join b m = clean_path (b @ CHR ''/'' # m)" if "ordinary m" for m
    using assms(1) that by (simp add: path_join_def ordinary_def)
  show ?thesis using p [OF assms(2)] p [OF assms(3)] e [OF assms(2)] e [OF assms(3)] assms(1) by (simp add: clean_path_def s Let_def)
qed

text \<open>The properties of a prepared file that concern its name and paths.\<close>

definition well_placed :: "string \<Rightarrow> string \<Rightarrow> download_file \<Rightarrow> bool" where
  "well_placed cwd outDir t \<longleftrightarrow> CHR ''/'' \<notin> set (df_FileName t) \<and>
     (df_FileName t \<notin> {[], ''.'', ''..''} \<longrightarrow>
        place_of cwd (df_FinalPath t) = place_of cwd outDir @ [df_FileName t] \<and>
        place_of cwd (df_PartPath t) = place_of cwd outDir @ [df_FileName t @ ''.part''])"

lemma prepared_well_placed:
  assumes "rooted cwd" "outDir \<noteq> []"
  shows "well_placed cwd outDir (prepared_file unescape outDir password i f)"
proof -
  let ?n = "sanitizeFileName unescape (nf_Subject f)"
  have "ordinary ?n \<and> ordinary (?n @ ''.part'')" if "?n \<notin> {[], ''.'', ''..''}"
    using that file_name_no_slash by (auto simp: ordinary_def)
  then show ?thesis
    using file_name_no_slash place_snoc [OF assms] path_join_suffix [OF assms(2)]
    by (auto simp: well_placed_def prepared_file_def NewDownloadFile_def no_file_def) (metis)
qed

lemma prepare_each_files:
  "prepare_each pre unescape outDir password i fs s = (Inr ts, t) \<Longrightarrow>
   list_all2 (\<lambda>f x. x\<lparr>df_IsComplete := False\<rparr> = prepared_file unescape outDir password (df_Index x) f) fs ts \<and>
   map df_Index ts = map (\<lambda>k. i + int k) [0..<length fs]"
proof (induction fs arbitrary: i s ts t)
  case (Cons f fs)
  let ?t = "prepared_file unescape outDir password i f"
  have c: "?t\<lparr>df_IsComplete := False\<rparr> = ?t" "df_Index ?t = i" by (simp_all add: prepared_file_def NewDownloadFile_def no_file_def)
  from Cons.prems obtain x s1 xs s2 where x: "x = ?t \<or> x = ?t\<lparr>df_IsComplete := True\<rparr>"
    and xs: "prepare_each pre unescape outDir password (i + 1) fs s1 = (Inr xs, s2)" "ts = x # xs"
    by (auto simp: Let_def give_def elim!: attemptE regardlessE split: sum.splits if_splits)
  have "map (\<lambda>k. i + int k) [0..<length (f # fs)] = i # map (\<lambda>k. i + 1 + int k) [0..<length fs]"
    by (simp add: upt_conv_Cons map_Suc_upt [symmetric] del: upt_Suc)
  with Cons.IH [OF xs(1)] x xs(2) c show ?case by auto
qed (simp add: give_def)

text \<open>C14: A prepared download has one file per file of the NZB, in its order, and whatever the subjects say, no file name contains
  a slash: unless the name that remains is empty, a dot or two dots, the file and its part file are placed directly in the
  directory of the job.\<close>

theorem prepared_files_stay_in_job_dir:
  assumes "rooted (os_cwd s)" "qi_OutDir i \<noteq> []" "trim_space (qi_OutDir i) \<noteq> []"
    and "Prepare pre unescape p (Some i) m nzbName s = (Inr (ts, bytes, password), t)"
  shows "length ts = length (nzb_Files m) \<and> map df_Index ts = map int [0..<length ts] \<and>
    map df_Subject ts = map nf_Subject (nzb_Files m) \<and> list_all (well_placed (os_cwd s) (qi_OutDir i)) ts"
proof -
  obtain s1 where p: "prepare_each pre unescape (qi_OutDir i) password 0 (nzb_Files m) s1 = (Inr ts, t)"
    using assms(2-4) by (auto simp: Prepare_def Let_def give_def elim!: attemptE)
  note f = prepare_each_files [OF p]
  have "well_placed (os_cwd s) (qi_OutDir i) x" if "x\<lparr>df_IsComplete := False\<rparr> = prepared_file unescape (qi_OutDir i) password k g" for x k g
    using prepared_well_placed [OF assms(1,2), of unescape password k g] that [symmetric] by (simp add: well_placed_def)
  then have "list_all2 (\<lambda>f. well_placed (os_cwd s) (qi_OutDir i)) (nzb_Files m) ts"
    using conjunct1 [OF f] by (rule list_all2_mono [rotated])
  then have "list_all (well_placed (os_cwd s) (qi_OutDir i)) ts" by (simp add: list_all2_conv_all_nth list_all_length)
  moreover have sub: "nf_Subject g = df_Subject x"
    if "x\<lparr>df_IsComplete := False\<rparr> = prepared_file unescape (qi_OutDir i) password k g" for x k g
    using arg_cong [OF that, of df_Subject] by (simp add: prepared_file_def)
  have "list_all2 (\<lambda>g x. nf_Subject g = df_Subject x) (nzb_Files m) ts"
    using conjunct1 [OF f] sub by (rule list_all2_mono)
  then have "map df_Subject ts = map nf_Subject (nzb_Files m)" by (simp add: list_all2_conv_all_nth list_eq_iff_nth_eq)
  moreover have l: "length ts = length (nzb_Files m)" using list_all2_lengthD [OF conjunct1 [OF f]] by simp
  moreover have "map df_Index ts = map int [0..<length ts]" using conjunct2 [OF f] l by simp
  ultimately show ?thesis by simp
qed

section \<open>The writer as an interface\<close>

text \<open>What the processor relies on: the two operations of the writer touch the file they are called for, and no other.\<close>

locale closeable =
  fixes pre close :: "string \<Rightarrow> int \<Rightarrow> unit io"
  assumes pre_only: "\<not> P (place_of cwd f) \<Longrightarrow> sparing cwd P (pre f n)"
    and close_only: "\<not> P (place_of cwd f) \<Longrightarrow> sparing cwd P (close f n)"
begin

lemma prepare_spares:
  "\<forall>f\<in>set fs. \<forall>i. \<not> P (place_of cwd (df_PartPath (prepared_file unescape outDir password i f))) \<Longrightarrow>
   sparing cwd P (prepare_each pre unescape outDir password i fs)"
  by (induction fs arbitrary: i) (auto simp: Let_def intro!: pre_only split: sum.split)

lemma finalize_spares:
  "\<forall>x\<in>set ts. \<forall>q. P q \<longrightarrow> \<not> within (place_of cwd (df_PartPath x)) q \<and> \<not> within (place_of cwd (df_FinalPath x)) q \<Longrightarrow>
   sparing cwd P (Finalize close ts)"
proof (induction ts)
  case (Cons x ts)
  have "\<not> P (place_of cwd (df_PartPath x))" using Cons.prems within_self by fastforce
  then have "sparing cwd P (finalize_file close x)"
    using Cons.prems unfolding finalize_file_def Let_def
    by (auto intro!: close_only sparing_Rename split: sum.split)
  with Cons show ?case by auto
qed auto

end

lemma sparing_write_back: "\<not> P (place_of cwd f) \<Longrightarrow> sparing cwd P (\<lambda>s. write_back f (g s) s)"
proof (rule sparing_state)
  fix s :: os
  assume a: "\<not> P (place_of cwd f)" "os_cwd s = cwd"
  have r: "resolve (s\<lparr>os_handles := hs\<rparr>) f = place_of cwd f" for hs using a(2) by (simp add: resolve_def)
  have "put_node q n (s\<lparr>os_handles := hs\<rparr>) = (put_node q n s)\<lparr>os_handles := hs\<rparr>" for q n hs by (simp add: put_node_def)
  with a r show "spares cwd P s (snd (write_back f (g s) s))"
    by (auto simp: write_back_def Let_def intro!: spares_put split: option.split)
qed

lemma sparing_outcome [intro!]: "sparing cwd P outcome" "sparing cwd P (open_error f)"
  unfolding outcome_def open_error_def by (rule sparing_sys, rule sparing_give, rule sparing_give, rule sparing_sys, rule sparing_give, rule sparing_state, simp add: Let_def)

interpretation writer: closeable writer_PreAllocate writer_CloseFile
proof
  fix P cwd f n
  assume a: "\<not> P (place_of cwd f)"
  show "sparing cwd P (writer_PreAllocate f n)"
    unfolding steps_within_def
  proof
    fix s :: os
    have "sparing cwd P (attempt (if f \<in> set (os_handles s) then give None else open_error f)
     (\<lambda>opened. attempt outcome (\<lambda>truncated s. write_back f (PreAllocate f n opened truncated (writer_of s)) s)))"
      by (auto intro!: sparing_write_back a)
    then show "spares cwd P s (snd (writer_PreAllocate f n s))" by (simp add: steps_within_def writer_PreAllocate_def)
  qed
  show "sparing cwd P (writer_CloseFile f n)"
    unfolding writer_CloseFile_def by (auto intro!: sparing_write_back a)
qed

text \<open>Without failures: the writer cuts the part file to its size, and the file gets its name.\<close>

lemma no_faults: "os_faults s = [] \<Longrightarrow> call m s = m s" "os_faults s = [] \<Longrightarrow> sys b m s = m s"
  by (simp_all add: call_def sys_def)

lemma close_cuts:
  assumes "os_faults s = []" "f \<in> set (os_handles s)" "0 < n" "file_at s (place_of (os_cwd s) f) = Some c"
  shows "writer_CloseFile f n s = (Inr (), put_node (place_of (os_cwd s) f) (FileNode (set_size (nat n) c))
    (s\<lparr>os_handles := filter (\<lambda>h. h \<noteq> f) (os_handles s)\<rparr>))"
proof -
  have o: "outcome s = (Inr None, s)" using assms(1) by (simp add: outcome_def no_faults give_def)
  have "disk_of s f = Some c" using assms(4) by (simp add: disk_of_def file_at_def resolve_def split: option.splits node.splits)
  then show ?thesis using assms
    by (simp add: writer_CloseFile_def attempt_def o write_back_def CloseFile_def writer_of_def update_file_def Let_def resolve_def)
qed


section \<open>An archive that is lost\<close>

text \<open>A job of two archives in \<open>/dl/job\<close>. The program of the first unpacks one file; the second ends with the error \<open>e\<close>.\<close>

definition rar_content :: "byte list" where "rar_content = [0x52, 0x61, 0x72, 0x21, 0x1A, 0x07, 0x00, 1]"

definition other_content :: "byte list" where "other_content = [0x52, 0x61, 0x72, 0x21, 0x1A, 0x07, 0x00, 2]"

definition demo_os :: os where
  "demo_os = \<lparr>os_tree = [([''dl''], DirNode), ([''dl'', ''job''], DirNode),
      ([''dl'', ''job'', ''a.rar''], FileNode rar_content), ([''dl'', ''job'', ''b.rar''], FileNode other_content)],
     os_cwd = ''/'', os_handles = [], os_faults = [], os_ctx = []\<rparr>"

definition demo_programs :: "go_error \<Rightarrow> programs" where
  "demo_programs e = \<lparr>found = (\<lambda>b. b = ''unrar''),
     exec_run = (\<lambda>b args s. if ''/dl/job/a.rar'' \<in> set args
       then (None, put_node [''dl'', ''job'', ''_extracted_1'', ''film.mkv''] (FileNode [7]) s) else (Some e, s)),
     temp_suffix = (\<lambda>s. ''1''), map_order = id\<rparr>"

definition demo_processor :: processor where
  "demo_processor = New_processor (demo_programs Canceled) ''/dl'' ''/done'' [] True"

definition demo_file :: "string \<Rightarrow> download_file" where
  "demo_file f = no_file\<lparr>df_FileName := f, df_FinalPath := ''/dl/job/'' @ f\<rparr>"

section \<open>Instances\<close>

definition demo_item :: queue_item where
  "demo_item = \<lparr>qi_ID = ''1'', qi_ReleaseID = [], qi_Release = None, qi_Status = StatusProcessing, qi_OutDir = ''/dl/job'',
     qi_SourceKind = [], qi_SourceReleaseID = [], qi_ReleaseTitle = [], qi_ReleaseSize = 0, qi_ReleaseSnapshotJSON = NoText,
     qi_PayloadMode = [], qi_Resumable = True, qi_Tasks = [], qi_BytesWritten = 0, qi_CreatedAt = None, qi_UpdatedAt = None,
     qi_StartedAt = None, qi_CompletedAt = None, qi_DownloadedBytes = 0, qi_AvgBps = 0, qi_DownloadSeconds = 0,
     qi_PostProcessSeconds = 0, qi_DownloadStartedAt = None, qi_ProcessingStartedAt = None, qi_Error = None,
     qi_CancelFunc = None\<rparr>"


definition failing_os :: os where
  "failing_os = demo_os\<lparr>os_faults := [None, None, None, Some 0, None, None, Some 2]\<rparr>"

theorem moved_files_are_not_lost_witness:
  "\<exists>s'. snd (moveToCompleted demo_processor (Some demo_item) [demo_file ''a.rar'', demo_file ''b.rar''] failing_os) = s' \<and>
     (file_at s' [''dl'', ''job'', ''a.rar''] = Some rar_content \<or>
      file_at s' [''done'', ''uncategorized'', ''job'', ''a.rar''] = Some rar_content)"
proof -
  let ?m = "moveToCompleted demo_processor (Some demo_item) [demo_file ''a.rar'', demo_file ''b.rar''] failing_os"
  have "apart (os_cwd failing_os) demo_processor (Some demo_item) [] (demo_file ''a.rar'') [demo_file ''b.rar'']" by code_simp
  moreover have "\<not> discarded demo_processor (demo_file ''a.rar'')" by code_simp
  moreover have p: "source_place (os_cwd failing_os) (demo_file ''a.rar'') = [''dl'', ''job'', ''a.rar'']" by code_simp
  moreover have d: "dest_place (os_cwd failing_os) demo_processor (Some demo_item) (demo_file ''a.rar'') =
    [''done'', ''uncategorized'', ''job'', ''a.rar'']" by code_simp
  moreover have "file_at failing_os [''dl'', ''job'', ''a.rar''] = Some rar_content" by code_simp
  ultimately show ?thesis
    using moved_files_are_not_lost [of demo_processor "Some demo_item" "[]" "demo_file ''a.rar''" "[demo_file ''b.rar'']"
        failing_os "fst ?m" "snd ?m" rar_content] by simp
qed

theorem move_stays_below_completed_witness:
  "file_at (snd (moveToCompleted demo_processor (Some demo_item) [demo_file ''a.rar''] failing_os)) [''dl'', ''job'', ''b.rar''] =
     Some other_content"
proof -
  let ?m = "moveToCompleted demo_processor (Some demo_item) [demo_file ''a.rar''] failing_os"
  have 1: "rooted (os_cwd failing_os)" "pc_CompletedDir demo_processor \<noteq> []" "\<forall>t\<in>set [demo_file ''a.rar'']. ordinary (base_name (df_FinalPath t))"
    by code_simp+
  have 2: "place_of (os_cwd failing_os) (pc_CompletedDir demo_processor) = [''done'']"
    "source_place (os_cwd failing_os) (demo_file ''a.rar'') = [''dl'', ''job'', ''a.rar'']"
    "file_at failing_os [''dl'', ''job'', ''b.rar''] = Some other_content" by code_simp+
  show ?thesis
    using move_stays_below_completed [where p = demo_processor and item = "Some demo_item" and ts = "[demo_file ''a.rar'']"
        and s = failing_os, OF 1(1,2) prod.collapse [symmetric] 1(3)] 2
    by (auto simp: within_def below_def)
qed

theorem clearing_spares_files_witness:
  "\<exists>t. snd (cleanupWorkDir demo_processor ''/dl/job'' ''/done/uncategorized/job''
       (put_node [''dl'', ''job'', ''film.mkv''] (FileNode [7]) failing_os)) = t \<and>
     file_at t [''dl'', ''job'', ''film.mkv''] = Some [7]"
proof -
  let ?s = "put_node [''dl'', ''job'', ''film.mkv''] (FileNode [7]) failing_os"
  let ?c = "cleanupWorkDir demo_processor ''/dl/job'' ''/done/uncategorized/job'' ?s"
  have u: "unblanked [''dl'', ''job'']" unfolding unblanked_code by code_simp
  have 1: "os_ok ?s" "[''dl'', ''job''] = place_of (os_cwd ?s) (trim_space ''/dl/job'')"
    "file_at ?s [''dl'', ''job'', ''film.mkv''] = Some [7]" "\<not> leftover demo_processor ''film.mkv'' [7]"
    by code_simp+
  show ?thesis
    using clearing_spares_files [where p = demo_processor and work = "''/dl/job''" and completed = "''/done/uncategorized/job''", OF 1(1) prod.collapse [symmetric] 1(2) u,
        THEN spec [where x = "[''dl'', ''job'', ''film.mkv'']"]] 1(3,4) by auto
qed

definition demo_nzb :: nzb_model where
  "demo_nzb = \<lparr>nzb_Meta = [],
     nzb_Files = [\<lparr>nf_Subject = ''(1/2) \"../evil.mkv\" yEnc'', nf_Poster = [], nf_Date = 0, nf_Groups = [], nf_Segments = []\<rparr>]\<rparr>"

theorem prepared_files_stay_in_job_dir_witness:
  "\<exists>x bytes password t. Prepare writer_PreAllocate id demo_processor (Some demo_item) demo_nzb [] demo_os = (Inr ([x], bytes, password), t) \<and>
     df_FileName x = ''.._evil.mkv'' \<and> place_of ''/'' (df_FinalPath x) = [''dl'', ''job'', ''.._evil.mkv'']"
proof -
  let ?p = "Prepare writer_PreAllocate id demo_processor (Some demo_item) demo_nzb [] demo_os"
  have 1: "rooted (os_cwd demo_os)" "qi_OutDir demo_item \<noteq> []" "trim_space (qi_OutDir demo_item) \<noteq> []" "os_cwd demo_os = ''/''"
    "place_of (os_cwd demo_os) (qi_OutDir demo_item) = [''dl'', ''job'']"
    by code_simp+
  obtain r t where rt: "?p = (r, t)" by fastforce
  moreover have "case fst ?p of Inr (ts, _) \<Rightarrow> map df_FileName ts = [''.._evil.mkv''] | _ \<Rightarrow> False" by code_simp
  ultimately obtain x bytes password where p: "?p = (Inr ([x], bytes, password), t)" and n: "df_FileName x = ''.._evil.mkv''"
    by (auto split: sum.splits)
  with prepared_files_stay_in_job_dir [OF 1(1-3) p] 1(4,5) show ?thesis by (auto simp: well_placed_def)
qed


end
