(* ===== verification/Blob_Store.thy ===== *)
theory Blob_Store
  imports Go_Frame Job_Store
begin

text \<open>
  The payloads of releases and what the job store remembers of them: the blob store in the file system and the one in
  memory (\<open>internal/store/blob\<close>), the tables \<open>blob_cache_index\<close> and \<open>aggregator_release_cache\<close>
  (\<open>sqlitejob/blob_cache_index.go\<close>, \<open>sqlitejob/aggregator_release_cache.go\<close>).
\<close>

section \<open>State\<close>

record blob_row =
  br_key :: string
  br_size :: int
  br_mtime :: int
  br_verified :: int
  br_error :: string

record cached_release =
  cr_id :: string
  cr_title :: string
  cr_size :: int
  cr_source :: string
  cr_category :: string
  cr_guid :: string
  cr_publish :: int
  cr_cached :: bool
  cr_updated :: int

record cache_db =
  cd_blobs :: "blob_row list"
  cd_releases :: "cached_release list"

text \<open>The disk, the two tables, the map of the store in memory, the results the aggregator remembers. \<open>ct_faults\<close> says
  which of the coming statements of the database fail; \<open>ct_now\<close> is its clock in seconds, \<open>ct_mtime\<close> the modification
  times the file system reports, \<open>ct_names\<close> the random numbers tried for the name of a temporary file.\<close>

record catalogue =
  ct_os :: os
  ct_db :: cache_db
  ct_memory :: "string \<Rightarrow> byte list option"
  ct_recent :: "(string \<times> release) list"
  ct_faults :: "bool list"
  ct_now :: int
  ct_mtime :: "place \<Rightarrow> int"
  ct_names :: "nat list"

type_synonym 'a shop = "(catalogue, go_error, 'a) op"

definition on_disk :: "'a io \<Rightarrow> 'a shop" where
  "on_disk m s = (case m (ct_os s) of (r, d) \<Rightarrow> (r, s\<lparr>ct_os := d\<rparr>))"

definition stmt_failed :: go_error where "stmt_failed = Message ''statement failed''"

definition ErrNoRows :: go_error where "ErrNoRows = Message ''sql: no rows in result set''"

text \<open>One statement of the database.\<close>

definition stmt :: "(cache_db \<Rightarrow> 'a \<times> cache_db) \<Rightarrow> 'a shop" where
  "stmt f s =
     (let run = (\<lambda>s. case f (ct_db s) of (x, d) \<Rightarrow> (Inr x, s\<lparr>ct_db := d\<rparr>))
      in case ct_faults s of
           [] \<Rightarrow> run s
         | b # bs \<Rightarrow> (if b then (Inl stmt_failed, s\<lparr>ct_faults := bs\<rparr>) else run (s\<lparr>ct_faults := bs\<rparr>)))"

definition exec :: "(cache_db \<Rightarrow> cache_db) \<Rightarrow> unit shop" where
  "exec f = stmt (\<lambda>d. ((), f d))"

text \<open>A transaction: begin, the statements, commit; on an error the tables are as they were.\<close>

definition transaction :: "unit shop \<Rightarrow> unit shop" where
  "transaction m s =
     (case attempt (exec id) (\<lambda>_. attempt m (\<lambda>_. exec id)) s of
        (Inl e, t) \<Rightarrow> (Inl e, t\<lparr>ct_db := ct_db s\<rparr>)
      | r \<Rightarrow> r)"

section \<open>The index of the blobs\<close>

text \<open>\<open>INSERT ... ON CONFLICT(key) DO UPDATE\<close>.\<close>

definition put_blob :: "blob_row \<Rightarrow> blob_row list \<Rightarrow> blob_row list" where
  "put_blob row rows =
     (if list_ex (\<lambda>r. br_key r = br_key row) rows
      then map (\<lambda>r. if br_key r = br_key row then row else r) rows else rows @ [row])"

definition set_cached :: "int \<Rightarrow> string \<Rightarrow> bool \<Rightarrow> cache_db \<Rightarrow> cache_db" where
  "set_cached now k b d =
     d\<lparr>cd_releases := map (\<lambda>r. if cr_id r = k then r\<lparr>cr_cached := b, cr_updated := now\<rparr> else r) (cd_releases d)\<rparr>"

definition mark_row :: "string \<Rightarrow> int \<Rightarrow> blob_row \<Rightarrow> bool \<Rightarrow> unit shop" where
  "mark_row what now row b =
     attempt (map_error (Wrapped (''upsert blob_cache_index '' @ what @ '' row''))
        (exec (\<lambda>d. d\<lparr>cd_blobs := put_blob row (cd_blobs d)\<rparr>))) (\<lambda>_.
     map_error (Wrapped (''sync aggregator_release_cache '' @ what @ '' row'')) (exec (set_cached now (br_key row) b)))"

definition MarkReleaseCached :: "string \<Rightarrow> int \<Rightarrow> int \<Rightarrow> unit shop" where
  "MarkReleaseCached k sz mt s =
     mark_row ''cached'' (ct_now s) \<lparr>br_key = k, br_size = sz, br_mtime = mt, br_verified = ct_now s, br_error = []\<rparr> True s"

definition MarkReleaseCacheMissing :: "string \<Rightarrow> string \<Rightarrow> unit shop" where
  "MarkReleaseCacheMissing k reason s =
     mark_row ''missing'' (ct_now s) \<lparr>br_key = k, br_size = 0, br_mtime = 0, br_verified = ct_now s, br_error = reason\<rparr> False s"

section \<open>Blobs in the file system\<close>

text \<open>\<open>fb_index\<close>: whether the store reports to the job store or to the index that does nothing.\<close>

record fs_blob_store =
  fb_dir :: string
  fb_index :: bool

definition NewFSBlobStore :: "string \<Rightarrow> bool \<Rightarrow> fs_blob_store shop" where
  "NewFSBlobStore dir index =
     attempt (map_error (Wrapped ''failed to create blob directory'') (on_disk (MkdirAll dir))) (\<lambda>_.
     give \<lparr>fb_dir = dir, fb_index = index\<rparr>)"

definition pathForObjectKey :: "fs_blob_store \<Rightarrow> string \<Rightarrow> string" where
  "pathForObjectKey fs key =
     (let key = trim_space (trim_prefix ''/'' key);
          key = (if key = [] then ''unknown.bin'' else key)
      in path_join (fb_dir fs) key)"

definition pathForNZBKey :: "fs_blob_store \<Rightarrow> string \<Rightarrow> string" where
  "pathForNZBKey fs key =
     (let key = trim_space (trim_prefix ''/'' key);
          key = (if key = [] then ''unknown.nzb'' else key);
          key = (if has_suffix ''.nzb'' (to_lower key) then key else key @ ''.nzb'')
      in path_join (fb_dir fs) key)"

text \<open>What the index is told: \<open>info.Size()\<close> and \<open>info.ModTime()\<close> of the node found at the path.\<close>

definition mark_found :: "fs_blob_store \<Rightarrow> string \<Rightarrow> string \<Rightarrow> node \<Rightarrow> unit shop" where
  "mark_found fs k path n s =
     (if fb_index fs
      then MarkReleaseCached k (case n of FileNode c \<Rightarrow> int (length c) | DirNode \<Rightarrow> 4096)
             (ct_mtime s (resolve (ct_os s) path)) s
      else give () s)"

definition report_missing :: "fs_blob_store \<Rightarrow> string \<Rightarrow> go_error \<Rightarrow> unit shop" where
  "report_missing fs k e =
     (if fb_index fs \<and> e = NotExist then MarkReleaseCacheMissing k ''missing blob on disk'' else give ())"

text \<open>What a caller reads from: an open file, a buffer, or the body of a reply.\<close>

datatype reader = OpenFile node | Buffer "byte list" | Remote "go_error + byte list"

definition ReadAll :: "reader \<Rightarrow> byte list shop" where
  "ReadAll r =
     (case r of
        OpenFile (FileNode c) \<Rightarrow> on_disk (read_start (length c) (FileNode c))
      | OpenFile DirNode \<Rightarrow> on_disk (read_start 0 DirNode)
      | Buffer b \<Rightarrow> give b
      | Remote (Inl e) \<Rightarrow> refuse e
      | Remote (Inr b) \<Rightarrow> give b)"

text \<open>\<open>os.CreateTemp\<close> with the pattern \<open>stem.*.tmp\<close>: the first name that is free.\<close>

definition CreateTemp :: "nat list \<Rightarrow> string \<Rightarrow> string \<Rightarrow> string io" where
  "CreateTemp names dir stem =
     (if CHR ''/'' \<in> set stem then refuse (Message ''pattern contains path separator'')
      else call (\<lambda>s.
        case find (\<lambda>r. look s (resolve s (path_join dir (stem @ ''.'' @ utoa r @ ''.tmp''))) = None) names of
          None \<Rightarrow> (Inl SysFailed, s)
        | Some r \<Rightarrow>
            (let p = path_join dir (stem @ ''.'' @ utoa r @ ''.tmp''); q = resolve s p
             in if look s (butlast q) \<noteq> Some DirNode then (Inl (absent s q), s)
                else (Inr p, put_node q (FileNode []) s))))"

text \<open>Write, \<open>Sync\<close>, \<open>Close\<close>, \<open>Rename\<close>; after an error the temporary file is removed.\<close>

definition sys_step :: "unit io" where "sys_step = call (give ())"

definition or_close :: "string \<Rightarrow> unit io \<Rightarrow> unit io" where
  "or_close text m = regardless m (\<lambda>r. case r of Inl e \<Rightarrow> regardless sys_step (\<lambda>_. refuse (Wrapped text e)) | Inr _ \<Rightarrow> give ())"

definition write_temp :: "string \<Rightarrow> string \<Rightarrow> byte list \<Rightarrow> unit io" where
  "write_temp what tmp data =
     attempt (or_close (''failed to write temp '' @ what @ '' file'') (CopyInto tmp (FileNode data))) (\<lambda>_.
     attempt (or_close (''failed to sync temp '' @ what @ '' file'') sys_step) (\<lambda>_.
     map_error (Wrapped (''failed to close temp '' @ what @ '' file'')) sys_step))"

definition commit_temp :: "string \<Rightarrow> string \<Rightarrow> string \<Rightarrow> string \<Rightarrow> byte list \<Rightarrow> unit io" where
  "commit_temp what commit tmp final data s =
     (case attempt (write_temp what tmp data) (\<lambda>_. map_error (Wrapped commit) (Rename tmp final)) s of
        (Inl e, t) \<Rightarrow> (Inl e, snd (Remove tmp t))
      | r \<Rightarrow> r)"

definition save_io :: "nat list \<Rightarrow> string \<Rightarrow> string \<Rightarrow> string \<Rightarrow> byte list \<Rightarrow> unit io" where
  "save_io names what commit final data =
     attempt (MkdirAll (dir_name final)) (\<lambda>_.
     attempt (map_error (Wrapped (''failed to create temp '' @ what @ '' file''))
        (CreateTemp names (dir_name final) (base_name final))) (\<lambda>tmp.
     commit_temp what commit tmp final data))"

definition save_file :: "string \<Rightarrow> string \<Rightarrow> string \<Rightarrow> byte list \<Rightarrow> unit shop" where
  "save_file what commit final data s = on_disk (save_io (ct_names s) what commit final data) s"

definition FS_SaveObjectAtomically :: "fs_blob_store \<Rightarrow> string \<Rightarrow> byte list \<Rightarrow> unit shop" where
  "FS_SaveObjectAtomically fs k data =
     save_file ''object'' ''failed to commit object file'' (pathForObjectKey fs k) data"

definition report_saved :: "fs_blob_store \<Rightarrow> string \<Rightarrow> string \<Rightarrow> unit shop" where
  "report_saved fs k final = regardless (on_disk (Stat final)) (\<lambda>r. case r of
     Inr n \<Rightarrow> regardless (mark_found fs k final n) (\<lambda>_. give ())
   | Inl _ \<Rightarrow> give ())"

definition FS_SaveNZBAtomically :: "fs_blob_store \<Rightarrow> string \<Rightarrow> byte list \<Rightarrow> unit shop" where
  "FS_SaveNZBAtomically fs k data =
     (let final = pathForNZBKey fs k
      in attempt (save_file ''nzb'' ''failed to commit nzb cache file'' final data) (\<lambda>_. report_saved fs k final))"

definition FS_GetObjectReader :: "fs_blob_store \<Rightarrow> string \<Rightarrow> reader shop" where
  "FS_GetObjectReader fs k = attempt (on_disk (Open (pathForObjectKey fs k))) (\<lambda>n. give (OpenFile n))"

definition FS_GetNZBReader :: "fs_blob_store \<Rightarrow> string \<Rightarrow> reader shop" where
  "FS_GetNZBReader fs k =
     (let path = pathForNZBKey fs k
      in regardless (on_disk (Open path)) (\<lambda>r. case r of
           Inl e \<Rightarrow> regardless (report_missing fs k e) (\<lambda>_. refuse e)
         | Inr n \<Rightarrow> regardless (on_disk sys_step) (\<lambda>stat. case stat of
               Inr _ \<Rightarrow> regardless (mark_found fs k path n) (\<lambda>_. give (OpenFile n))
             | Inl _ \<Rightarrow> give (OpenFile n))))"

definition create_file :: "string \<Rightarrow> string shop" where
  "create_file path = attempt (on_disk (MkdirAll (dir_name path))) (\<lambda>_. attempt (on_disk (Create path)) (\<lambda>_. give path))"

definition FS_CreateObjectWriter :: "fs_blob_store \<Rightarrow> string \<Rightarrow> string shop" where
  "FS_CreateObjectWriter fs k = create_file (pathForObjectKey fs k)"

definition FS_CreateNZBWriter :: "fs_blob_store \<Rightarrow> string \<Rightarrow> string shop" where
  "FS_CreateNZBWriter fs k = create_file (pathForNZBKey fs k)"

definition FS_ExistsObject :: "fs_blob_store \<Rightarrow> string \<Rightarrow> bool shop" where
  "FS_ExistsObject fs k = regardless (on_disk (Stat (pathForObjectKey fs k))) (\<lambda>r. give (\<not> isl r))"

definition FS_Exists :: "fs_blob_store \<Rightarrow> string \<Rightarrow> bool shop" where
  "FS_Exists fs k =
     (let path = pathForNZBKey fs k
      in regardless (on_disk (Stat path)) (\<lambda>r. case r of
           Inr n \<Rightarrow> regardless (mark_found fs k path n) (\<lambda>_. give True)
         | Inl e \<Rightarrow> regardless (report_missing fs k e) (\<lambda>_. give False)))"

section \<open>Blobs in memory\<close>

text \<open>NZBs and objects share the one map. A writer collects in its buffer and stores when it is closed the first time.\<close>

definition Mem_GetReader :: "string \<Rightarrow> string \<Rightarrow> reader shop" where
  "Mem_GetReader what k s =
     (case ct_memory s k of
        None \<Rightarrow> (Inl (Message (what @ '' payload not found for key '' @ k)), s)
      | Some b \<Rightarrow> (Inr (Buffer b), s))"

definition Mem_GetObjectReader :: "string \<Rightarrow> reader shop" where "Mem_GetObjectReader = Mem_GetReader ''object''"

definition Mem_GetNZBReader :: "string \<Rightarrow> reader shop" where "Mem_GetNZBReader = Mem_GetReader ''nzb''"

definition Mem_SaveAtomically :: "string \<Rightarrow> byte list \<Rightarrow> unit shop" where
  "Mem_SaveAtomically k data s = (Inr (), s\<lparr>ct_memory := (ct_memory s)(k \<mapsto> data)\<rparr>)"

definition Mem_Exists :: "string \<Rightarrow> bool shop" where
  "Mem_Exists k s = (Inr (ct_memory s k \<noteq> None), s)"

record ephemeral_writer =
  ew_key :: string
  ew_buf :: "byte list"
  ew_closed :: bool

definition Mem_CreateWriter :: "string \<Rightarrow> ephemeral_writer" where
  "Mem_CreateWriter k = \<lparr>ew_key = k, ew_buf = [], ew_closed = False\<rparr>"

definition ephemeral_Write :: "byte list \<Rightarrow> ephemeral_writer \<Rightarrow> (go_error + int) \<times> ephemeral_writer" where
  "ephemeral_Write p w =
     (if ew_closed w then (Inl (Message ''writer is closed''), w)
      else (Inr (int (length p)), w\<lparr>ew_buf := ew_buf w @ p\<rparr>))"

definition ephemeral_Close :: "ephemeral_writer \<Rightarrow> ephemeral_writer shop" where
  "ephemeral_Close w =
     (if ew_closed w then give w
      else attempt (Mem_SaveAtomically (ew_key w) (ew_buf w)) (\<lambda>_. give (w\<lparr>ew_closed := True\<rparr>)))"

section \<open>The store of the payloads\<close>

text \<open>The configuration chooses one of the two.\<close>

datatype payload_store = OnDisk fs_blob_store | InMemory

fun GetNZBReader :: "payload_store \<Rightarrow> string \<Rightarrow> reader shop" where
  "GetNZBReader (OnDisk fs) k = FS_GetNZBReader fs k"
| "GetNZBReader InMemory k = Mem_GetNZBReader k"

fun SaveNZBAtomically :: "payload_store \<Rightarrow> string \<Rightarrow> byte list \<Rightarrow> unit shop" where
  "SaveNZBAtomically (OnDisk fs) k data = FS_SaveNZBAtomically fs k data"
| "SaveNZBAtomically InMemory k data = Mem_SaveAtomically k data"

fun Exists :: "payload_store \<Rightarrow> string \<Rightarrow> bool shop" where
  "Exists (OnDisk fs) k = FS_Exists fs k"
| "Exists InMemory k = Mem_Exists k"

section \<open>The cache of search results\<close>

definition row_of_release :: "int \<Rightarrow> release \<Rightarrow> cached_release" where
  "row_of_release now r =
     \<lparr>cr_id = rel_ID r, cr_title = rel_Title r, cr_size = rel_Size r, cr_source = rel_Source r, cr_category = rel_Category r,
      cr_guid = rel_GUID r, cr_publish = unix (rel_PublishDate r), cr_cached = rel_CachePresent r, cr_updated = now\<rparr>"

text \<open>The conflict clause: everything is replaced, except that a set flag stays set.\<close>

definition put_release :: "cached_release \<Rightarrow> cached_release list \<Rightarrow> cached_release list" where
  "put_release row rows =
     (if list_ex (\<lambda>r. cr_id r = cr_id row) rows
      then map (\<lambda>r. if cr_id r = cr_id row then row\<lparr>cr_cached := cr_cached row \<or> cr_cached r\<rparr> else r) rows
      else rows @ [row])"

fun upsert_each :: "release list \<Rightarrow> unit shop" where
  "upsert_each [] = give ()"
| "upsert_each (r # rs) =
     attempt (if rel_ID r = [] then give ()
              else (\<lambda>s. map_error (Wrapped (''upsert aggregator_release_cache for '' @ rel_ID r))
                (exec (\<lambda>d. d\<lparr>cd_releases := put_release (row_of_release (ct_now s) r) (cd_releases d)\<rparr>)) s))
       (\<lambda>_. upsert_each rs)"

definition UpsertAggregatorReleaseCache :: "release list \<Rightarrow> unit shop" where
  "UpsertAggregatorReleaseCache rs = (if rs = [] then give () else transaction (upsert_each rs))"

definition release_of_row :: "cached_release \<Rightarrow> release" where
  "release_of_row r =
     empty_release\<lparr>rel_ID := cr_id r, rel_Title := cr_title r, rel_Size := cr_size r, rel_Source := cr_source r,
       rel_Category := cr_category r, rel_GUID := cr_guid r, rel_CachePresent := cr_cached r,
       rel_PublishDate := (if cr_publish r > 0 then Some (cr_publish r * 1000000000) else None)\<rparr>"

text \<open>\<open>LIKE\<close> in SQLite: letters of ASCII match in either case, \<open>%\<close> any characters, \<open>_\<close> one character; the bytes
  80 to BF continue a character.\<close>

definition fold_case :: "char \<Rightarrow> char" where
  "fold_case c = (if 65 \<le> code c \<and> code c \<le> 90 then char_of (code c + 32) else c)"

abbreviation next_char :: "string \<Rightarrow> string" where
  "next_char \<equiv> dropWhile (\<lambda>c. 128 \<le> code c \<and> code c < 192)"

function sql_like :: "string \<Rightarrow> string \<Rightarrow> bool" where
  "sql_like [] s \<longleftrightarrow> s = []"
| "sql_like (p # ps) s \<longleftrightarrow>
     (if p = CHR ''%'' then sql_like ps s \<or> (case s of [] \<Rightarrow> False | c # cs \<Rightarrow> sql_like (p # ps) (next_char cs))
      else if p = CHR ''_'' then (case s of [] \<Rightarrow> False | c # cs \<Rightarrow> sql_like ps (next_char cs))
      else (case s of [] \<Rightarrow> False | c # cs \<Rightarrow> fold_case c = fold_case p \<and> sql_like ps cs))"
  by pat_completeness auto
termination
  by (relation "measure (\<lambda>(p, s). length p + length s)") (auto simp: less_Suc_eq_le le_SucI length_dropWhile_le)

definition SearchAggregatorReleaseCache :: "string \<Rightarrow> int \<Rightarrow> release list shop" where
  "SearchAggregatorReleaseCache query limit =
     (let limit = (if limit \<le> 0 then 100 else limit)
      in attempt (map_error (Wrapped ''query aggregator_release_cache'') (stmt (\<lambda>d. (take (nat limit)
           (sort_key (\<lambda>r. - cr_publish r) (sort_key (\<lambda>r. - cr_updated r)
             (filter (\<lambda>r. sql_like (''%'' @ query @ ''%'') (cr_title r)) (cd_releases d)))), d)))) (\<lambda>rows.
         give (map release_of_row rows)))"

text \<open>The scan wraps its error, the lookup compares the wrapped error with \<open>sql.ErrNoRows\<close>.\<close>

definition scan_error :: "go_error \<Rightarrow> go_error" where
  "scan_error e = Wrapped ''scan aggregator_release_cache row'' e"

definition scan_found :: "go_error + cached_release option \<Rightarrow> go_error + release" where
  "scan_found r =
     (case r of Inl e \<Rightarrow> Inl (scan_error e)
      | Inr None \<Rightarrow> Inl (scan_error ErrNoRows)
      | Inr (Some row) \<Rightarrow> Inr (release_of_row row))"

definition GetAggregatorReleaseCacheByID :: "string \<Rightarrow> release option shop" where
  "GetAggregatorReleaseCacheByID k =
     regardless (stmt (\<lambda>d. (find (\<lambda>r. cr_id r = k) (cd_releases d), d))) (\<lambda>r.
       case scan_found r of
         Inr rel \<Rightarrow> give (Some rel)
       | Inl e \<Rightarrow> (if e = ErrNoRows then give None else refuse e))"

section \<open>Agreement of the index with the disk\<close>

text \<open>\<open>filepath.Glob\<close> of \<open>*.nzb\<close> in a directory whose name has no pattern characters: errors are no matches.\<close>

definition glob_nzb :: "string \<Rightarrow> string list shop" where
  "glob_nzb dir =
     regardless (on_disk (attempt (Stat dir) (\<lambda>n. ReadDir dir))) (\<lambda>r.
       give (case r of Inl _ \<Rightarrow> []
             | Inr es \<Rightarrow> map (path_join dir) (filter (has_suffix ''.nzb'') (map fst es))))"

definition blob_id :: "string \<Rightarrow> string" where
  "blob_id p = (let b = base_name p in if has_suffix ''.nzb'' b then take (length b - 4) b else b)"

fun mark_present :: "string list \<Rightarrow> string list shop" where
  "mark_present [] = give []"
| "mark_present (p # ps) =
     (if blob_id p = [] then mark_present ps
      else regardless (on_disk (Stat p)) (\<lambda>r. case r of
          Inl _ \<Rightarrow> mark_present ps
        | Inr n \<Rightarrow> attempt (mark_found \<lparr>fb_dir = [], fb_index = True\<rparr> (blob_id p) p n) (\<lambda>_.
            attempt (mark_present ps) (\<lambda>ks. give (blob_id p # ks)))))"

text \<open>Each step to the next row, also the one past the last, may fail.\<close>

definition next_row :: "unit shop" where
  "next_row = map_error (Wrapped ''iterate blob_cache_index keys'') (exec id)"

fun mark_absent :: "string list \<Rightarrow> string list \<Rightarrow> unit shop" where
  "mark_absent present [] = next_row"
| "mark_absent present (k # ks) =
     attempt next_row (\<lambda>_.
     attempt (if k \<in> set present then give () else MarkReleaseCacheMissing k ''missing blob on disk'') (\<lambda>_.
     mark_absent present ks))"

definition ReconcileBlobCacheIndex :: "string \<Rightarrow> unit shop" where
  "ReconcileBlobCacheIndex dir =
     attempt (glob_nzb dir) (\<lambda>ps.
     attempt (mark_present ps) (\<lambda>present.
     attempt (map_error (Wrapped ''query blob_cache_index keys'') (stmt (\<lambda>d. (map br_key (cd_blobs d), d)))) (\<lambda>ks.
     mark_absent present ks)))"

end
