(* ===== verification/Aggregator.thy ===== *)
theory Aggregator
  imports Blob_Store Categories "HOL-Library.AList"
begin

text \<open>
  Searching and fetching releases: the aggregator with its sources (\<open>internal/aggregator\<close>), the client of a Newznab
  indexer and the source over the local cache (\<open>aggregator/sources\<close>), the module facade, and the resolvers that lead from
  a job of the queue to its NZB (\<open>internal/resolver\<close>). SHA-256 in hexadecimal is the argument \<open>sha\<close>.
\<close>

section \<open>Requests and sources\<close>

record search_request =
  sr_Type :: string
  sr_Query :: string
  sr_IMDbID :: string
  sr_TVDBID :: string
  sr_TVMazeID :: string
  sr_RageID :: string
  sr_Season :: string
  sr_Episode :: string
  sr_Genre :: string

definition toSearchRequest :: "search_request \<Rightarrow> search_request" where
  "toSearchRequest r =
     (let t = trim_space (to_lower (sr_Type r)) in r\<lparr>sr_Type := (if t = [] then ''search'' else t)\<rparr>)"

record source =
  so_name :: string
  so_search :: "search_request \<Rightarrow> release list shop"
  so_get :: "release \<Rightarrow> reader shop"

definition GenerateCompositeID :: "(string \<Rightarrow> string) \<Rightarrow> string \<Rightarrow> string \<Rightarrow> string" where
  "GenerateCompositeID sha src guid = sha (src @ ''-'' @ guid)"

section \<open>The manager\<close>

text \<open>\<open>ag_sources\<close> is the map of sources by name, \<open>ag_store\<close> the store of payloads; the table of search results and the
  results of the last search are part of the state.\<close>

record aggregator =
  ag_sources :: "source list"
  ag_store :: payload_store
  ag_cache :: bool
  ag_persist :: bool

definition NewAggregator :: "payload_store \<Rightarrow> bool \<Rightarrow> bool \<Rightarrow> aggregator" where
  "NewAggregator ps cache persist = \<lparr>ag_sources = [], ag_store = ps, ag_cache = cache, ag_persist = persist\<rparr>"

definition AddSource :: "source \<Rightarrow> aggregator \<Rightarrow> aggregator" where
  "AddSource src ag = ag\<lparr>ag_sources := filter (\<lambda>x. so_name x \<noteq> so_name src) (ag_sources ag) @ [src]\<rparr>"

definition mergeRelease :: "release \<Rightarrow> release \<Rightarrow> bool \<Rightarrow> release" where
  "mergeRelease old new preferIncoming =
     (let cached = rel_CachePresent old \<or> rel_CachePresent new;
          pick = (\<lambda>f. if f old = ([] :: string) then f new else f old)
      in if preferIncoming then new\<lparr>rel_CachePresent := cached\<rparr>
         else old\<lparr>rel_Title := pick rel_Title, rel_Source := pick rel_Source, rel_GUID := pick rel_GUID,
           rel_Category := pick rel_Category,
           rel_Size := (if rel_Size old = 0 then rel_Size new else rel_Size old),
           rel_PublishDate := (if rel_PublishDate old = None then rel_PublishDate new else rel_PublishDate old),
           rel_DownloadURL := pick rel_DownloadURL, rel_CachePresent := cached\<rparr>)"

definition with_id :: "(string \<Rightarrow> string) \<Rightarrow> release \<Rightarrow> release" where
  "with_id sha r = (if rel_ID r = [] then r\<lparr>rel_ID := GenerateCompositeID sha (rel_Source r) (rel_GUID r)\<rparr> else r)"

text \<open>The map \<open>merged\<close> with the slice \<open>order\<close>: an association list in the order of the first arrivals.\<close>

type_synonym merged = "(string \<times> release) list"

definition addOrMerge :: "(string \<Rightarrow> string) \<Rightarrow> bool \<Rightarrow> release \<Rightarrow> merged \<Rightarrow> merged" where
  "addOrMerge sha preferIncoming rel acc =
     (let r = with_id sha rel
      in if rel_ID r = [] then acc
         else AList.update (rel_ID r)
           (case map_of acc (rel_ID r) of Some old \<Rightarrow> mergeRelease old r preferIncoming | None \<Rightarrow> r) acc)"

text \<open>The sources are asked in parallel; \<open>srcs\<close> is the order in which they answer, those that fail are left out.\<close>

fun ask_sources :: "(string \<Rightarrow> string) \<Rightarrow> search_request \<Rightarrow> source list \<Rightarrow> release list list shop" where
  "ask_sources sha req [] = give []"
| "ask_sources sha req (src # srcs) =
     regardless (so_search src req) (\<lambda>r. attempt (ask_sources sha req srcs) (\<lambda>rest.
       give (case r of Inl _ \<Rightarrow> rest | Inr res \<Rightarrow> map (with_id sha) res # rest)))"

definition merge_answers :: "(string \<Rightarrow> string) \<Rightarrow> release list \<Rightarrow> release list list \<Rightarrow> release list" where
  "merge_answers sha hits answers =
     map snd (fold (\<lambda>res acc. fold (addOrMerge sha True) res acc) answers (fold (addOrMerge sha False) hits []))"

definition remember :: "release list \<Rightarrow> unit shop" where
  "remember rs s = (Inr (), s\<lparr>ct_recent := map (\<lambda>r. (rel_ID r, r)) (filter (\<lambda>r. rel_ID r \<noteq> []) rs)\<rparr>)"

definition publish_results :: "aggregator \<Rightarrow> release list \<Rightarrow> release list shop" where
  "publish_results ag rs =
     attempt (remember rs) (\<lambda>_.
     regardless (if ag_persist ag \<and> rs \<noteq> [] then UpsertAggregatorReleaseCache rs else give ()) (\<lambda>_. give rs))"

definition cached_hits :: "aggregator \<Rightarrow> search_request \<Rightarrow> release list shop" where
  "cached_hits ag req =
     (if ag_persist ag \<and> sr_Type req = ''search'' \<and> sr_Query req \<noteq> []
      then regardless (SearchAggregatorReleaseCache (sr_Query req) 100) (\<lambda>r. give (case r of Inl _ \<Rightarrow> [] | Inr rs \<Rightarrow> rs))
      else give [])"

definition SearchAllWithRequest ::
  "(string \<Rightarrow> string) \<Rightarrow> (source list \<Rightarrow> source list) \<Rightarrow> aggregator \<Rightarrow> search_request \<Rightarrow> release list shop" where
  "SearchAllWithRequest sha arrival ag request =
     (let req = toSearchRequest request
      in attempt (cached_hits ag req) (\<lambda>hits.
         attempt (ask_sources sha req (arrival (ag_sources ag))) (\<lambda>answers.
         publish_results ag (merge_answers sha hits answers))))"

section \<open>Fetching\<close>

text \<open>The release is passed by pointer, its flag is set in place: an answer holds the release as it is then.\<close>

type_synonym fetched = "release option \<times> (go_error + reader)"

definition persist_flag :: "aggregator \<Rightarrow> release \<Rightarrow> unit shop" where
  "persist_flag ag rel =
     (if ag_persist ag then regardless (UpsertAggregatorReleaseCache [rel]) (\<lambda>_. give ()) else give ())"

definition serve_cached :: "aggregator \<Rightarrow> release \<Rightarrow> fetched shop" where
  "serve_cached ag rel =
     (let rel = rel\<lparr>rel_CachePresent := True\<rparr>
      in attempt (persist_flag ag rel) (\<lambda>_. regardless (GetNZBReader (ag_store ag) (rel_ID rel)) (\<lambda>r. give (Some rel, r))))"

definition fetch_from :: "aggregator \<Rightarrow> source \<Rightarrow> release \<Rightarrow> fetched shop" where
  "fetch_from ag src rel =
     regardless (so_get src rel) (\<lambda>r. case r of
       Inl e \<Rightarrow> give (Some rel, Inl (Wrapped ''failed to fetch nzb from source'' e))
     | Inr body \<Rightarrow>
         (if \<not> ag_cache ag then give (Some rel, Inr body)
          else regardless (ReadAll body) (\<lambda>r. case r of
            Inl e \<Rightarrow> give (Some rel, Inl (Wrapped ''failed reading nzb payload'' e))
          | Inr payload \<Rightarrow> regardless (SaveNZBAtomically (ag_store ag) (rel_ID rel) payload) (\<lambda>r. case r of
              Inl _ \<Rightarrow> give (Some rel, Inr (Buffer payload))
            | Inr _ \<Rightarrow> serve_cached ag rel))))"

definition AG_GetNZB :: "aggregator \<Rightarrow> release option \<Rightarrow> fetched shop" where
  "AG_GetNZB ag rel =
     (case rel of
        None \<Rightarrow> give (None, Inl (Message ''release is required''))
      | Some rel \<Rightarrow>
          attempt (if ag_cache ag then Exists (ag_store ag) (rel_ID rel) else give False) (\<lambda>present.
            if present then serve_cached ag rel
            else (case find (\<lambda>x. so_name x = rel_Source rel) (ag_sources ag) of
                None \<Rightarrow> give (Some rel, Inl (Message (''aggregator source '' @ rel_Source rel @ '' not found'')))
              | Some src \<Rightarrow> fetch_from ag src rel)))"

definition GetResultByID :: "aggregator \<Rightarrow> string \<Rightarrow> release option shop" where
  "GetResultByID ag k s =
     (case map_of (ct_recent s) k of
        Some r \<Rightarrow> (Inr (Some r), s)
      | None \<Rightarrow> (if ag_persist ag then GetAggregatorReleaseCacheByID k s else (Inr None, s)))"

section \<open>The module\<close>

definition ErrUnavailable :: go_error where "ErrUnavailable = Message ''aggregator runtime is unavailable''"

definition ErrReleaseMissing :: go_error where "ErrReleaseMissing = Message ''release not found''"

definition module_Search ::
  "(string \<Rightarrow> string) \<Rightarrow> (source list \<Rightarrow> source list) \<Rightarrow> aggregator option \<Rightarrow> search_request \<Rightarrow> release list shop" where
  "module_Search sha arrival ag req =
     (case ag of
        None \<Rightarrow> refuse ErrUnavailable
      | Some ag \<Rightarrow> map_error (Wrapped ''search releases'') (SearchAllWithRequest sha arrival ag req))"

record download_result =
  dl_Release :: "release option"
  dl_RedirectURL :: string
  dl_Reader :: "reader option"

definition PrepareDownload :: "aggregator option \<Rightarrow> payload_store option \<Rightarrow> string \<Rightarrow> download_result shop" where
  "PrepareDownload ag blobs k =
     (case ag of
        None \<Rightarrow> refuse ErrUnavailable
      | Some ag \<Rightarrow>
          attempt (map_error (Wrapped ''lookup release'') (GetResultByID ag k)) (\<lambda>res. case res of
            None \<Rightarrow> refuse ErrReleaseMissing
          | Some rel \<Rightarrow>
              attempt (if rel_RedirectAllowed rel
                 then (case blobs of None \<Rightarrow> give True | Some ps \<Rightarrow> attempt (Exists ps (rel_ID rel)) (\<lambda>b. give (\<not> b)))
                 else give False) (\<lambda>redirect.
                if redirect
                then give \<lparr>dl_Release = Some rel, dl_RedirectURL = rel_DownloadURL rel, dl_Reader = None\<rparr>
                else attempt (AG_GetNZB ag (Some rel)) (\<lambda>x. case x of
                    (_, Inl e) \<Rightarrow> refuse (Wrapped ''fetch nzb'' e)
                  | (rel, Inr rd) \<Rightarrow> give \<lparr>dl_Release = rel, dl_RedirectURL = [], dl_Reader = Some rd\<rparr>))))"

section \<open>The local cache as a source\<close>

definition local_source :: "payload_store \<Rightarrow> source" where
  "local_source ps =
     \<lparr>so_name = ''Local Store'',
      so_search = (\<lambda>req. if sr_Query req = [] then give [] else SearchAggregatorReleaseCache (sr_Query req) 100),
      so_get = (\<lambda>rel. GetNZBReader ps (rel_ID rel))\<rparr>"

section \<open>Newznab indexers\<close>

record nz_item =
  it_Title :: string
  it_GUID :: string
  it_Link :: string
  it_PubDate :: string
  it_Category :: string
  it_Length :: int
  it_Attributes :: "(string \<times> string) list"

text \<open>What the client uses of \<open>net/url\<close>, \<open>net/http\<close>, \<open>encoding/xml\<close> and \<open>time\<close>, as they answer at that time:
  \<open>wb_get base path params\<close> requests the URL that \<open>path\<close> gives relative to \<open>base\<close>, with the parameters set on it, and
  returns an error, or the status and the body; \<open>wb_decode\<close> are the items of a reply, \<open>wb_date\<close> reads a date.\<close>

record web =
  wb_get :: "string \<Rightarrow> string option \<Rightarrow> (string \<times> string) list \<Rightarrow> go_error + int \<times> (go_error + byte list)"
  wb_decode :: "go_error + byte list \<Rightarrow> go_error + nz_item list"
  wb_date :: "string \<Rightarrow> gotime"

record newznab_client =
  nc_name :: string
  nc_BaseURL :: string
  nc_ApiPath :: string
  nc_APIKey :: string
  nc_redirect :: bool

definition setIfNotEmpty :: "string \<Rightarrow> string \<Rightarrow> (string \<times> string) list \<Rightarrow> (string \<times> string) list" where
  "setIfNotEmpty k v ps = (let v = trim_space v in if v \<noteq> [] then AList.update k v ps else ps)"

definition normalizeIMDbID :: "string \<Rightarrow> string" where
  "normalizeIMDbID v = trim_prefix ''tt'' (trim_space (to_lower v))"

definition search_params :: "newznab_client \<Rightarrow> search_request \<Rightarrow> (string \<times> string) list" where
  "search_params c r =
     (let t = sr_Type r;
          ps = [(''t'', if t = [] then ''search'' else t), (''apikey'', nc_APIKey c), (''o'', ''xml'')];
          ps = setIfNotEmpty ''q'' (sr_Query r) ps
      in if t = ''movie''
         then setIfNotEmpty ''genre'' (sr_Genre r) (setIfNotEmpty ''imdbid'' (normalizeIMDbID (sr_IMDbID r)) ps)
         else if t = ''tvsearch''
         then setIfNotEmpty ''ep'' (sr_Episode r) (setIfNotEmpty ''season'' (sr_Season r)
           (setIfNotEmpty ''tvmazeid'' (sr_TVMazeID r) (setIfNotEmpty ''imdbid'' (normalizeIMDbID (sr_IMDbID r))
             (setIfNotEmpty ''tvdbid'' (sr_TVDBID r) (setIfNotEmpty ''rid'' (sr_RageID r) ps)))))
         else ps)"

definition getAttribute :: "nz_item \<Rightarrow> string \<Rightarrow> string" where
  "getAttribute i name = (case map_of (it_Attributes i) name of Some v \<Rightarrow> v | None \<Rightarrow> [])"

definition positive_attribute :: "nz_item \<Rightarrow> string \<Rightarrow> int option" where
  "positive_attribute i name =
     (case parse_int (getAttribute i name) of Some v \<Rightarrow> if v > 0 then Some v else None | None \<Rightarrow> None)"

definition getSize :: "nz_item \<Rightarrow> int" where
  "getSize i =
     (case positive_attribute i ''size'' of
        Some v \<Rightarrow> v
      | None \<Rightarrow>
          (if it_Length i > 0 then it_Length i
           else (case positive_attribute i ''filesize'' of
               Some v \<Rightarrow> v
             | None \<Rightarrow> (case positive_attribute i ''length'' of Some v \<Rightarrow> v | None \<Rightarrow> 0))))"

definition getCategory :: "nz_item \<Rightarrow> string" where
  "getCategory i =
     (let cat = getAttribute i ''category''
      in if cat \<noteq> [] then
           (case ParseID cat of
              (p, True) \<Rightarrow> itoa p
            | (_, False) \<Rightarrow> (case ParseName cat of (p, True) \<Rightarrow> itoa p | (_, False) \<Rightarrow> trim_space cat))
         else (case ParseName (it_Category i) of (p, True) \<Rightarrow> itoa p | (_, False) \<Rightarrow> trim_space (it_Category i)))"

definition ToRelease :: "(string \<Rightarrow> string) \<Rightarrow> web \<Rightarrow> string \<Rightarrow> nz_item \<Rightarrow> release" where
  "ToRelease sha w name i =
     empty_release\<lparr>rel_ID := GenerateCompositeID sha name (it_GUID i), rel_Title := it_Title i, rel_GUID := it_GUID i,
       rel_DownloadURL := it_Link i, rel_Size := getSize i, rel_Source := name, rel_PublishDate := wb_date w (it_PubDate i),
       rel_Category := getCategory i\<rparr>"

definition nz_Search :: "(string \<Rightarrow> string) \<Rightarrow> web \<Rightarrow> newznab_client \<Rightarrow> search_request \<Rightarrow> release list shop" where
  "nz_Search sha w c req =
     (case wb_get w (nc_BaseURL c) (Some (nc_ApiPath c)) (search_params c req) of
        Inl e \<Rightarrow> refuse e
      | Inr (status, body) \<Rightarrow>
          (if status \<noteq> 200 then refuse (Message (''indexer '' @ nc_name c @ '' returned status: '' @ itoa status))
           else (case wb_decode w body of
               Inl e \<Rightarrow> refuse e
             | Inr is \<Rightarrow> give (map (\<lambda>i. ToRelease sha w (nc_name c) i\<lparr>rel_RedirectAllowed := nc_redirect c\<rparr>) is))))"

definition nz_GetNZB :: "web \<Rightarrow> newznab_client \<Rightarrow> release \<Rightarrow> reader shop" where
  "nz_GetNZB w c rel =
     (case wb_get w (rel_DownloadURL rel) None [(''apikey'', nc_APIKey c)] of
        Inl e \<Rightarrow> refuse e
      | Inr (status, body) \<Rightarrow>
          (if status \<noteq> 200 then refuse (Message (''indexer returned status: '' @ itoa status)) else give (Remote body)))"

definition newznab_source :: "(string \<Rightarrow> string) \<Rightarrow> web \<Rightarrow> newznab_client \<Rightarrow> source" where
  "newznab_source sha w c = \<lparr>so_name = nc_name c, so_search = nz_Search sha w c, so_get = nz_GetNZB w c\<rparr>"

section \<open>Resolvers\<close>

record source_resolver =
  sv_GetRelease :: "string \<Rightarrow> release option shop"
  sv_GetNZB :: "release option \<Rightarrow> fetched shop"

definition manual_release :: "string \<Rightarrow> release" where
  "manual_release k =
     empty_release\<lparr>rel_ID := k, rel_GUID := k, rel_Title := k, rel_Source := ''manual'', rel_Category := ''Uncategorized''\<rparr>"

definition manualResolver :: "payload_store option \<Rightarrow> source_resolver" where
  "manualResolver ps =
     \<lparr>sv_GetRelease = (\<lambda>k. if trim_space k = [] then refuse (Message ''source release id is required'')
        else give (Some (manual_release (trim_space k)))),
      sv_GetNZB = (\<lambda>rel. case ps of
          None \<Rightarrow> give (rel, Inl (Message ''manual payload store is not configured''))
        | Some ps \<Rightarrow> (case rel of
            None \<Rightarrow> give (None, Inl (Message ''manual release is required''))
          | Some r \<Rightarrow>
              (if trim_space (rel_ID r) = [] then give (rel, Inl (Message ''manual release is required''))
               else regardless (GetNZBReader ps (rel_ID r)) (\<lambda>x. give (rel, x)))))\<rparr>"

definition aggregatorResolver :: "aggregator option \<Rightarrow> source_resolver" where
  "aggregatorResolver ag =
     \<lparr>sv_GetRelease = (\<lambda>k. case ag of
          None \<Rightarrow> refuse (Message ''aggregator is not configured'')
        | Some ag \<Rightarrow> (if trim_space k = [] then refuse (Message ''source release id is required'')
            else GetResultByID ag (trim_space k))),
      sv_GetNZB = (\<lambda>rel. case ag of
          None \<Rightarrow> give (rel, Inl (Message ''aggregator is not configured''))
        | Some ag \<Rightarrow> (if rel = None then give (rel, Inl (Message ''aggregator release is required'')) else AG_GetNZB ag rel))\<rparr>"

record release_resolver =
  rr_manual :: "source_resolver option"
  rr_aggregator :: "source_resolver option"
  rr_usenetIndex :: "source_resolver option"

definition pickResolver :: "release_resolver \<Rightarrow> string \<Rightarrow> go_error + source_resolver" where
  "pickResolver rr kind =
     (let k = trim_space (to_lower kind);
          configured = (\<lambda>x. case x of None \<Rightarrow> Inl (Message (k @ '' resolver is not configured'')) | Some r \<Rightarrow> Inr r)
      in if k = ''manual'' then configured (rr_manual rr)
         else if k = ''aggregator'' then configured (rr_aggregator rr)
         else if k = ''usenet_index'' then configured (rr_usenetIndex rr)
         else Inl (Message (''unsupported source kind '' @ CHR 0x22 # kind @ [CHR 0x22])))"

definition RR_GetRelease :: "release_resolver \<Rightarrow> string \<Rightarrow> string \<Rightarrow> release option shop" where
  "RR_GetRelease rr kind k = (case pickResolver rr kind of Inl e \<Rightarrow> refuse e | Inr r \<Rightarrow> sv_GetRelease r k)"

definition RR_GetNZB :: "release_resolver \<Rightarrow> string \<Rightarrow> release option \<Rightarrow> fetched shop" where
  "RR_GetNZB rr kind rel = (case pickResolver rr kind of Inl e \<Rightarrow> give (rel, Inl e) | Inr r \<Rightarrow> sv_GetNZB r rel)"

end
