(* ===== verification/Downloads.thy ===== *)
theory Downloads
  imports Aggregator Queue_Manager
begin

text \<open>
  The downloader module: its commands and queries (\<open>internal/downloader\<close>) over the queue, the resolvers and the store of
  payloads, and the file sets of the jobs (\<open>sqlitejob/queue_item_files.go\<close>). SHA-256 in hexadecimal and KSUIDs are
  arguments.
\<close>

section \<open>State\<close>

text \<open>A row of \<open>queue_file_set_items\<close>; the foreign keys of the tables are not enforced.\<close>

record set_item_row =
  si_id :: int
  si_set :: string
  si_name :: string
  si_size :: int
  si_index :: int
  si_pars :: bool
  si_subject :: string
  si_date :: int
  si_poster :: string
  si_groups :: "string list"

text \<open>\<open>ft_sets\<close>: content hash, id and number of files of a set; \<open>ft_link\<close>: the column \<open>file_set_id\<close> of the queue table.\<close>

record file_tables =
  ft_sets :: "(string \<times> string \<times> int) list"
  ft_items :: "set_item_row list"
  ft_next :: int
  ft_link :: "string \<Rightarrow> string option"

record app =
  ap_shop :: catalogue
  ap_queue :: queue_manager
  ap_files :: file_tables

type_synonym 'a desk = "(app, go_error, 'a) op"

definition in_shop :: "'a shop \<Rightarrow> 'a desk" where
  "in_shop m a = (case m (ap_shop a) of (r, s) \<Rightarrow> (r, a\<lparr>ap_shop := s\<rparr>))"

definition in_queue :: "(queue_manager \<Rightarrow> 'a \<times> queue_manager) \<Rightarrow> 'a desk" where
  "in_queue f a = (case f (ap_queue a) of (x, q) \<Rightarrow> (Inr x, a\<lparr>ap_queue := q\<rparr>))"

text \<open>One statement on the tables of files; it may fail.\<close>

definition on_files :: "(file_tables \<Rightarrow> 'a \<times> file_tables) \<Rightarrow> 'a desk" where
  "on_files f a =
     (case in_shop (exec id) a of
        (Inl e, b) \<Rightarrow> (Inl e, b)
      | (Inr _, b) \<Rightarrow> (case f (ap_files b) of (x, t) \<Rightarrow> (Inr x, b\<lparr>ap_files := t\<rparr>)))"

section \<open>File sets\<close>

text \<open>The fields that are hashed: name, size, index, par flag, subject, date, poster, sorted groups.\<close>

type_synonym norm_item = "string \<times> int \<times> int \<times> bool \<times> string \<times> int \<times> string \<times> string list"

definition norm_item :: "download_file \<Rightarrow> norm_item" where
  "norm_item f = (df_FileName f, df_Size f, df_Index f, df_IsPars f, df_Subject f, df_Date f, df_Poster f, sort (df_Groups f))"

abbreviation norm_name :: "norm_item \<Rightarrow> string" where "norm_name x \<equiv> fst x"

abbreviation norm_index :: "norm_item \<Rightarrow> int" where "norm_index x \<equiv> fst (snd (snd x))"

definition normal_files :: "download_file list \<Rightarrow> norm_item list" where
  "normal_files fs = sort_key norm_index (sort_key norm_name (map norm_item fs))"

definition buildFileSetHash :: "(norm_item list \<Rightarrow> string) \<Rightarrow> download_file list \<Rightarrow> string" where
  "buildFileSetHash digest fs = digest (normal_files fs)"

definition row_of_file :: "string \<Rightarrow> int \<Rightarrow> download_file \<Rightarrow> set_item_row" where
  "row_of_file sid n f =
     \<lparr>si_id = n, si_set = sid, si_name = df_FileName f, si_size = df_Size f, si_index = df_Index f, si_pars = df_IsPars f,
      si_subject = df_Subject f, si_date = df_Date f, si_poster = df_Poster f, si_groups = df_Groups f\<rparr>"

text \<open>On a conflict of set and index the row keeps its id.\<close>

definition put_item :: "string \<Rightarrow> download_file \<Rightarrow> file_tables \<Rightarrow> file_tables" where
  "put_item sid f t =
     (if list_ex (\<lambda>r. si_set r = sid \<and> si_index r = df_Index f) (ft_items t)
      then t\<lparr>ft_items := map (\<lambda>r. if si_set r = sid \<and> si_index r = df_Index f then row_of_file sid (si_id r) f else r) (ft_items t)\<rparr>
      else t\<lparr>ft_items := ft_items t @ [row_of_file sid (ft_next t) f], ft_next := ft_next t + 1\<rparr>)"

fun insert_items :: "string \<Rightarrow> download_file list \<Rightarrow> unit desk" where
  "insert_items sid [] = give ()"
| "insert_items sid (f # fs) =
     attempt (map_error (Wrapped (''insert queue_file_set_items row for '' @ df_FileName f))
       (on_files (\<lambda>t. ((), put_item sid f t)))) (\<lambda>_. insert_items sid fs)"

text \<open>The set with the hash, or a new one under the id \<open>fresh\<close>.\<close>

definition set_for :: "string \<Rightarrow> string \<Rightarrow> download_file list \<Rightarrow> string desk" where
  "set_for fresh h fs =
     attempt (map_error (Wrapped ''lookup queue_file_sets by hash'') (on_files (\<lambda>t. (map_of (ft_sets t) h, t)))) (\<lambda>found.
       case found of
         Some (sid, _) \<Rightarrow> give sid
       | None \<Rightarrow>
           attempt (map_error (Wrapped ''insert queue_file_sets row'')
             (on_files (\<lambda>t. ((), t\<lparr>ft_sets := ft_sets t @ [(h, fresh, int (length fs))]\<rparr>)))) (\<lambda>_.
           attempt (insert_items fresh fs) (\<lambda>_. give fresh)))"

definition in_file_transaction :: "unit desk \<Rightarrow> unit desk" where
  "in_file_transaction m a =
     (case attempt (on_files (Pair ())) (\<lambda>_. attempt m (\<lambda>_. on_files (Pair ()))) a of
        (Inl e, b) \<Rightarrow> (Inl e, b\<lparr>ap_files := ap_files a\<rparr>)
      | r \<Rightarrow> r)"

definition has_job :: "string \<Rightarrow> app \<Rightarrow> bool" where
  "has_job qid a \<longleftrightarrow> list_ex (\<lambda>r. row_id r = qid) (store (ap_queue a))"

definition link_files :: "string \<Rightarrow> string \<Rightarrow> unit desk" where
  "link_files qid sid a =
     map_error (Wrapped ''update queue_items.file_set_id'')
       (on_files (\<lambda>t. ((), if has_job qid a then t\<lparr>ft_link := (ft_link t)(qid \<mapsto> sid)\<rparr> else t))) a"

definition SaveQueueItemFiles :: "(norm_item list \<Rightarrow> string) \<Rightarrow> string \<Rightarrow> string \<Rightarrow> download_file list \<Rightarrow> unit desk" where
  "SaveQueueItemFiles digest fresh qid fs =
     in_file_transaction (attempt (set_for fresh (buildFileSetHash digest fs) fs) (link_files qid))"

definition file_of_row :: "string \<Rightarrow> set_item_row \<Rightarrow> download_file" where
  "file_of_row qid r =
     \<lparr>df_ID = si_id r, df_ReleaseID = qid, df_FileName = si_name r, df_Size = si_size r, df_Index = si_index r,
      df_IsPars = si_pars r, df_Subject = si_subject r, df_Date = si_date r, df_Groups = si_groups r, df_Poster = si_poster r,
      df_PartPath = [], df_FinalPath = [], df_IsComplete = False, df_Password = [], df_actualSize = 0, df_Segments = []\<rparr>"

definition GetQueueItemFiles :: "string \<Rightarrow> download_file list option desk" where
  "GetQueueItemFiles qid a =
     attempt (map_error (Wrapped ''lookup queue item file_set_id'') (on_files (\<lambda>t. (ft_link t qid, t)))) (\<lambda>link.
       if \<not> has_job qid a then give None
       else (case link of
           None \<Rightarrow> give (Some [])
         | Some sid \<Rightarrow>
             (if sid = [] then give (Some [])
              else attempt (map_error (Wrapped ''query queue_file_set_items'') (on_files (\<lambda>t.
                  (map (file_of_row qid) (sort_key si_index (sort_key si_id (filter (\<lambda>r. si_set r = sid) (ft_items t)))), t))))
                (\<lambda>fs. give (Some fs))))) a"

section \<open>Commands\<close>

text \<open>What is installed: the queue, the resolver, the stores; \<open>md_digest\<close> is the hash of a payload. The clock, the state
  of the database and the fresh id of a job are arguments.\<close>

record download_module =
  md_queue :: bool
  md_jobs :: bool
  md_resolver :: "release_resolver option"
  md_blobs :: "payload_store option"
  md_files :: bool
  md_cfg :: "queue_config option"
  md_digest :: "byte list \<Rightarrow> string"

definition normalizeQueueCategory :: "string \<Rightarrow> string" where
  "normalizeQueueCategory c = (let c = trim_space c in if c = [] then ''*'' else c)"

definition normalizeReleaseSourceKind :: "string \<Rightarrow> string" where
  "normalizeReleaseSourceKind k =
     (let n = trim_space (to_lower k)
      in if n = [] \<or> n = ''aggregator'' then ''aggregator''
         else if n = ''usenet_index'' \<or> n = ''usenet_indexer'' then ''usenet_index'' else n)"

text \<open>The item is added and, had it come back without its release, given it.\<close>

definition enqueue :: "download_module \<Rightarrow> env \<Rightarrow> string \<Rightarrow> queue_add_request \<Rightarrow> release \<Rightarrow> nat desk" where
  "enqueue md e qid req rel =
     attempt (in_queue (Add e (md_cfg md) qid req)) (\<lambda>x. case x of
       Inl msg \<Rightarrow> refuse (Message msg)
     | Inr r \<Rightarrow> in_queue (\<lambda>m. (r, if qi_Release (items m r) = None
           then set_item r ((items m r)\<lparr>qi_Release := Some rel\<rparr>) m else m)))"

definition EnqueueByReleaseID :: "download_module \<Rightarrow> env \<Rightarrow> string \<Rightarrow> string \<Rightarrow> string \<Rightarrow> string \<Rightarrow> nat desk" where
  "EnqueueByReleaseID md e qid kind k title =
     (if k = [] then refuse (Message ''release_id is required'')
      else (let kind = normalizeReleaseSourceKind kind in case md_resolver md of
          None \<Rightarrow> refuse (Message ''release resolver is unavailable'')
        | Some rr \<Rightarrow>
            (if \<not> md_queue md then refuse (Message ''downloader queue is unavailable'')
             else attempt (map_error (Wrapped (''failed to resolve '' @ kind @ '' release '' @ k)) (in_shop (RR_GetRelease rr kind k)))
               (\<lambda>found. case found of
                  None \<Rightarrow> refuse (Message (''release '' @ k @ '' not found''))
                | Some rel \<Rightarrow>
                    (let rel = (if title \<noteq> [] then rel\<lparr>rel_Title := title\<rparr> else rel)
                     in enqueue md e qid \<lparr>qr_SourceKind = kind, qr_SourceReleaseID = rel_ID rel, qr_Release = Some rel,
                          qr_Title = rel_Title rel\<rparr> rel)))))"

definition manual_upload :: "string \<Rightarrow> string \<Rightarrow> string \<Rightarrow> release" where
  "manual_upload k filename category =
     empty_release\<lparr>rel_ID := k, rel_GUID := k, rel_Title := filename, rel_Source := ''manual'',
       rel_Category := normalizeQueueCategory category\<rparr>"

definition EnqueueNZBWithCategory ::
  "download_module \<Rightarrow> env \<Rightarrow> string \<Rightarrow> string \<Rightarrow> string \<Rightarrow> go_error + byte list \<Rightarrow> nat desk" where
  "EnqueueNZBWithCategory md e qid filename category file =
     (let filename = (if filename = [] then ''manual.nzb'' else filename)
      in if \<not> md_queue md then refuse (Message ''downloader queue is unavailable'')
         else case md_blobs md of
           None \<Rightarrow> refuse (Message ''blob store is unavailable'')
         | Some ps \<Rightarrow> (case file of
             Inl x \<Rightarrow> refuse (Wrapped ''failed to read uploaded nzb'' x)
           | Inr data \<Rightarrow>
               (if data = [] then refuse (Message ''uploaded nzb is empty'')
                else (let k = md_digest md data
                  in attempt (map_error (Wrapped ''failed to persist nzb in blob store'') (in_shop (SaveNZBAtomically ps k data)))
                    (\<lambda>_. enqueue md e qid \<lparr>qr_SourceKind = ''manual'', qr_SourceReleaseID = k,
                       qr_Release = Some (manual_upload k filename category), qr_Title = filename\<rparr>
                       (manual_upload k filename category))))))"

definition EnqueueNZB :: "download_module \<Rightarrow> env \<Rightarrow> string \<Rightarrow> string \<Rightarrow> go_error + byte list \<Rightarrow> nat desk" where
  "EnqueueNZB md e qid filename file = EnqueueNZBWithCategory md e qid filename [] file"

definition cmd_Cancel :: "download_module \<Rightarrow> env \<Rightarrow> string \<Rightarrow> bool desk" where
  "cmd_Cancel md e k = (if md_queue md then in_queue (Cancel e k) else give False)"

fun cancel_each :: "env \<Rightarrow> string list \<Rightarrow> queue_manager \<Rightarrow> int \<times> queue_manager" where
  "cancel_each e [] m = (0, m)"
| "cancel_each e (k # ks) m =
     (case Cancel e k m of (ok, m1) \<Rightarrow> case cancel_each e ks m1 of (n, m2) \<Rightarrow> (if ok then n + 1 else n, m2))"

definition CancelMany :: "download_module \<Rightarrow> env \<Rightarrow> string list \<Rightarrow> int desk" where
  "CancelMany md e ks = (if md_queue md then in_queue (cancel_each e ks) else give 0)"

definition finished_ids :: "env \<Rightarrow> string list \<Rightarrow> queue_manager \<Rightarrow> string list" where
  "finished_ids e ks m = filter (\<lambda>k. case GetItem e k m of None \<Rightarrow> False | Some i \<Rightarrow> terminal (qi_Status i)) ks"

definition job_table :: "env \<Rightarrow> (job_store \<Rightarrow> 'a \<times> job_store) \<Rightarrow> 'a desk" where
  "job_table e f = (if db_up e then in_queue (\<lambda>m. case f (store m) of (x, db) \<Rightarrow> (x, m\<lparr>store := db\<rparr>)) else refuse stmt_failed)"

definition DeleteMany :: "download_module \<Rightarrow> env \<Rightarrow> string list \<Rightarrow> int desk" where
  "DeleteMany md e ks a =
     (if \<not> md_queue md \<or> \<not> md_jobs md then refuse (Message ''downloader stores are unavailable'') a
      else (let gone = finished_ids e ks (ap_queue a)
            in if gone = [] then give 0 a else job_table e (DeleteQueueItems gone) a))"

definition ClearHistory :: "download_module \<Rightarrow> env \<Rightarrow> int desk" where
  "ClearHistory md e =
     (if md_jobs md then job_table e (ClearQueueHistory [StatusCompleted, StatusFailed])
      else refuse (Message ''job store is unavailable''))"

definition cmd_Pause :: "download_module \<Rightarrow> bool desk" where
  "cmd_Pause md = (if md_queue md then in_queue (\<lambda>m. (True, Pause m)) else give False)"

definition cmd_Resume :: "download_module \<Rightarrow> bool desk" where
  "cmd_Resume md = (if md_queue md then in_queue (\<lambda>m. (True, Resume m)) else give False)"

section \<open>Queries\<close>

text \<open>The expression \<open>xs[start:end]\<close>; \<open>None\<close> is the panic.\<close>

definition slice :: "'a list \<Rightarrow> int \<Rightarrow> int \<Rightarrow> 'a list option" where
  "slice xs a b = (if 0 \<le> a \<and> a \<le> b \<and> b \<le> int (length xs) then Some (drop (nat a) (take (nat b) xs)) else None)"

definition page_of :: "'a list \<Rightarrow> int \<Rightarrow> int \<Rightarrow> 'a list option" where
  "page_of xs limit offset =
     (let total = int (length xs);
          start = (if offset > total then total else offset);
          stop = i64 (start + limit);
          stop = (if stop > total then total else stop)
      in slice xs start stop)"

text \<open>The page of the history, newest first, and the number of all its items.\<close>

definition history_items :: "string \<Rightarrow> job_store \<Rightarrow> queue_item list" where
  "history_items status db = rev (filter (\<lambda>i. status = [] \<or> status_text (qi_Status i) = status) (GetQueueItems db))"

definition ListHistory :: "download_module \<Rightarrow> env \<Rightarrow> string \<Rightarrow> int \<Rightarrow> int \<Rightarrow> (queue_item list option \<times> int) desk" where
  "ListHistory md e status limit offset a =
     (if \<not> md_jobs md then refuse (Message ''job store is unavailable'') a
      else if \<not> db_up e then refuse stmt_failed a
      else (let xs = history_items status (store (ap_queue a)) in give (page_of xs limit offset, int (length xs)) a))"

definition ListActive :: "download_module \<Rightarrow> app \<Rightarrow> queue_item list" where
  "ListActive md a = (if md_queue md then GetAllItems (ap_queue a) else [])"

definition query_GetItem :: "download_module \<Rightarrow> env \<Rightarrow> string \<Rightarrow> queue_item option desk" where
  "query_GetItem md e k a =
     (if md_queue md then give (GetItem e k (ap_queue a)) a else refuse (Message ''downloader queue is unavailable'') a)"

definition GetItemFiles :: "download_module \<Rightarrow> env \<Rightarrow> string \<Rightarrow> download_file list option desk" where
  "GetItemFiles md e k a =
     (if \<not> md_queue md \<or> \<not> md_files md then refuse (Message ''queue file store is unavailable'') a
      else (case GetItem e k (ap_queue a) of None \<Rightarrow> give None a | Some i \<Rightarrow> GetQueueItemFiles (qi_ID i) a))"

definition GetItemEvents :: "download_module \<Rightarrow> env \<Rightarrow> string \<Rightarrow> queue_event list option desk" where
  "GetItemEvents md e k a =
     (if \<not> md_queue md \<or> \<not> md_jobs md then refuse (Message ''job store is unavailable'') a
      else (case GetItem e k (ap_queue a) of
          None \<Rightarrow> give None a
        | Some i \<Rightarrow>
            (if db_up e then give (Some (filter (\<lambda>ev. ev_QueueID ev = qi_ID i) (events (ap_queue a)))) a
             else refuse (Wrapped ''failed to query queue events'' stmt_failed) a)))"

definition query_IsPaused :: "download_module \<Rightarrow> app \<Rightarrow> bool" where
  "query_IsPaused md a = (md_queue md \<and> paused (ap_queue a))"

end
