(* ===== verification/Http_Api.thy ===== *)
theory Http_Api
  imports Downloads
begin

text \<open>
  The HTTP interface of the downloader and of the aggregator: parameters and file names
  (\<open>api/controllers/http_helpers.go\<close>), the queue (\<open>queue.go\<close>, \<open>queue_responses.go\<close>), the SAB-compatible interface
  (\<open>sab.go\<close>, \<open>sab_dto.go\<close>, \<open>sab_responses.go\<close>) and the Newznab one (\<open>newznab.go\<close>, \<open>aggregator.go\<close>,
  \<open>aggregator_service.go\<close>). A reply is its status and its content; the rendering as JSON or XML is left to the
  libraries. Texts are taken as UTF-8 without broken sequences.
\<close>

section \<open>Parameters\<close>

datatype 'a reply = Reply int 'a | Failed int string | Panic

definition parseOptionalBoundedInt :: "string \<Rightarrow> string \<Rightarrow> int \<Rightarrow> int \<Rightarrow> int \<Rightarrow> string + int" where
  "parseOptionalBoundedInt raw field fallback lo hi =
     (let raw = trim_space raw
      in if raw = [] then Inr fallback
         else case parse_int raw of
           None \<Rightarrow> Inl (field @ '' must be an integer'')
         | Some n \<Rightarrow>
             (if n < lo \<or> n > hi then Inl (field @ '' must be between '' @ itoa lo @ '' and '' @ itoa hi) else Inr n))"

definition parsePaginationParams :: "string \<Rightarrow> string \<Rightarrow> int \<Rightarrow> int \<Rightarrow> string + int \<times> int" where
  "parsePaginationParams limit offset defaultLimit maxLimit =
     (case parseOptionalBoundedInt (trim_space limit) ''limit'' defaultLimit 1 maxLimit of
        Inl e \<Rightarrow> Inl e
      | Inr l \<Rightarrow>
          (case parseOptionalBoundedInt (trim_space offset) ''offset'' 0 0 1000000 of Inl e \<Rightarrow> Inl e | Inr o' \<Rightarrow> Inr (l, o')))"

abbreviation defaultPageLimit :: int where "defaultPageLimit \<equiv> 50"

abbreviation maxPageLimit :: int where "maxPageLimit \<equiv> 200"

definition parseIntDefault :: "string \<Rightarrow> int \<Rightarrow> int" where
  "parseIntDefault raw fallback =
     (let raw = trim_space raw
      in if raw = [] then fallback else case parse_int raw of None \<Rightarrow> fallback | Some n \<Rightarrow> if n < 0 then fallback else n)"

definition parseOptionalBool :: "string \<Rightarrow> string \<Rightarrow> string + bool option" where
  "parseOptionalBool raw field =
     (let raw = to_lower (trim_space raw)
      in if raw = [] then Inr None
         else if raw \<in> {''true'', ''1'', ''yes''} then Inr (Some True)
         else if raw \<in> {''false'', ''0'', ''no''} then Inr (Some False)
         else Inl (field @ '' must be a boolean''))"

definition parseOptionalInt64 :: "string \<Rightarrow> string \<Rightarrow> int \<Rightarrow> int \<Rightarrow> string + int" where
  "parseOptionalInt64 raw field lo hi = parseOptionalBoundedInt raw field 0 lo hi"

section \<open>File names\<close>

definition sanitizeUploadFilename :: "string \<Rightarrow> string \<Rightarrow> string" where
  "sanitizeUploadFilename name fallback =
     (let name = base_name (filter (\<lambda>c. code c \<noteq> 0) (trim_space name));
          name = (if name = [] \<or> name = ''.'' \<or> name = ''/'' then fallback else name);
          name = trim_space (filter (\<lambda>c. \<not> code c < 32 \<and> c \<noteq> CHR ''/'' \<and> code c \<noteq> 92) name)
      in if name = [] then fallback else name)"

definition buildDownloadFilename :: "string \<Rightarrow> string \<Rightarrow> string" where
  "buildDownloadFilename name fallback =
     (let f = sanitizeUploadFilename name fallback in if has_suffix ''.nzb'' (to_lower f) then f else f @ ''.nzb'')"

definition contentDispositionFilename :: "string \<Rightarrow> string" where
  "contentDispositionFilename f =
     ''attachment; filename='' @ [CHR 0x22] @
     map (\<lambda>c. if code c \<in> {92, 34, 13, 10} then CHR ''_'' else c) f @ [CHR 0x22]"

fun ids_seen :: "string list \<Rightarrow> string list \<Rightarrow> string list" where
  "ids_seen seen [] = []"
| "ids_seen seen (k # ks) =
     (let k = trim_space k in if k = [] \<or> k \<in> set seen then ids_seen seen ks else k # ids_seen (k # seen) ks)"

definition normalizeIDs :: "string list \<Rightarrow> string list" where "normalizeIDs ks = ids_seen [] ks"

section \<open>The queue\<close>

record item_reply =
  ir_ID :: string
  ir_ReleaseID :: string
  ir_Status :: job_status
  ir_OutDir :: string
  ir_Error :: "string option"
  ir_CreatedAt :: gotime
  ir_UpdatedAt :: gotime
  ir_StartedAt :: gotime
  ir_CompletedAt :: gotime
  ir_Release :: "(string \<times> string \<times> int \<times> string \<times> string \<times> gotime) option"
  ir_BytesWritten :: int
  ir_Metrics :: "int \<times> int \<times> int \<times> int"

definition mapQueueItem :: "queue_item \<Rightarrow> item_reply" where
  "mapQueueItem i =
     \<lparr>ir_ID = qi_ID i, ir_ReleaseID = qi_ReleaseID i, ir_Status = qi_Status i, ir_OutDir = qi_OutDir i, ir_Error = qi_Error i,
      ir_CreatedAt = qi_CreatedAt i, ir_UpdatedAt = qi_UpdatedAt i, ir_StartedAt = qi_StartedAt i,
      ir_CompletedAt = qi_CompletedAt i,
      ir_Release = map_option (\<lambda>r. (rel_ID r, rel_Title r, rel_Size r, rel_Category r, rel_Source r, rel_PublishDate r))
        (qi_Release i),
      ir_BytesWritten = GetBytes i,
      ir_Metrics = (qi_DownloadedBytes i, qi_AvgBps i, qi_DownloadSeconds i, qi_PostProcessSeconds i)\<rparr>"

record page =
  pg_items :: "item_reply list"
  pg_total :: int
  pg_limit :: int
  pg_offset :: int
  pg_has_more :: bool

definition unavailable :: "'a reply" where "unavailable = Failed 503 ''downloader queue service is unavailable''"

text \<open>\<open>md\<close> is missing when the module is off.\<close>

definition http_ListActive :: "download_module option \<Rightarrow> string \<Rightarrow> string \<Rightarrow> app \<Rightarrow> page reply" where
  "http_ListActive md limit offset a =
     (case md of
        None \<Rightarrow> unavailable
      | Some md \<Rightarrow>
          (case parsePaginationParams limit offset defaultPageLimit maxPageLimit of
             Inl e \<Rightarrow> Failed 400 e
           | Inr (l, o') \<Rightarrow>
               (let xs = map mapQueueItem (ListActive md a); n = int (length xs);
                    o' = (if o' > n then n else o');
                    stop = i64 (o' + l); stop = (if stop > n then n else stop)
                in case slice xs o' stop of
                     None \<Rightarrow> Panic
                   | Some p \<Rightarrow> Reply 200 \<lparr>pg_items = p, pg_total = n, pg_limit = l, pg_offset = o', pg_has_more = stop < n\<rparr>)))"

definition http_ListHistory :: "download_module option \<Rightarrow> env \<Rightarrow> string \<Rightarrow> string \<Rightarrow> string \<Rightarrow> app \<Rightarrow> page reply \<times> app" where
  "http_ListHistory md e limit offset status a =
     (case md of
        None \<Rightarrow> (unavailable, a)
      | Some md \<Rightarrow>
          (case parsePaginationParams limit offset defaultPageLimit maxPageLimit of
             Inl x \<Rightarrow> (Failed 400 x, a)
           | Inr (l, o') \<Rightarrow>
               (case ListHistory md e (trim_space status) l o' a of
                  (Inl x, b) \<Rightarrow> (Failed 500 (error_text x), b)
                | (Inr (None, _), b) \<Rightarrow> (Panic, b)
                | (Inr (Some xs, n), b) \<Rightarrow>
                    (Reply 200 \<lparr>pg_items = map mapQueueItem xs, pg_total = n, pg_limit = l, pg_offset = o',
                       pg_has_more = i64 (o' + int (length xs)) < n\<rparr>, b))))"

definition http_GetItem :: "download_module option \<Rightarrow> env \<Rightarrow> string \<Rightarrow> app \<Rightarrow> item_reply reply \<times> app" where
  "http_GetItem md e k a =
     (case md of
        None \<Rightarrow> (unavailable, a)
      | Some md \<Rightarrow>
          (if trim_space k = [] then (Failed 400 ''missing queue item id'', a)
           else (case query_GetItem md e (trim_space k) a of
               (Inl x, b) \<Rightarrow> (Failed 500 (error_text x), b)
             | (Inr None, b) \<Rightarrow> (Failed 404 ''queue item not found'', b)
             | (Inr (Some i), b) \<Rightarrow> (Reply 200 (mapQueueItem i), b))))"

text \<open>The body of a request to add a job: an uploaded file, or the fields of the JSON object.\<close>

datatype add_body =
    NoUpload
  | UnreadableUpload
  | Upload string "go_error + byte list"
  | BadJson string
  | ByRelease string string string

definition http_Add :: "download_module option \<Rightarrow> env \<Rightarrow> string \<Rightarrow> add_body \<Rightarrow> app \<Rightarrow> item_reply reply \<times> app" where
  "http_Add md e qid body a =
     (let created = (\<lambda>x. case x of
          (Inl err, b) \<Rightarrow> (Failed 400 (error_text err), b)
        | (Inr r, b) \<Rightarrow> (Reply 201 (mapQueueItem (items (ap_queue b) r)), b))
      in case md of
           None \<Rightarrow> (unavailable, a)
         | Some md \<Rightarrow>
             (case body of
                NoUpload \<Rightarrow> (Failed 400 ''missing nzb file in multipart form'', a)
              | UnreadableUpload \<Rightarrow> (Failed 400 ''failed to open uploaded nzb'', a)
              | Upload name file \<Rightarrow> created (EnqueueNZB md e qid (sanitizeUploadFilename name ''manual.nzb'') file a)
              | BadJson x \<Rightarrow> (Failed 400 x, a)
              | ByRelease kind k title \<Rightarrow>
                  created (EnqueueByReleaseID md e qid (trim_space kind) (trim_space k) (trim_space title) a)))"

definition http_GetItemFiles :: "download_module option \<Rightarrow> env \<Rightarrow> string \<Rightarrow> app \<Rightarrow> download_file list reply \<times> app" where
  "http_GetItemFiles md e k a =
     (case md of
        None \<Rightarrow> (unavailable, a)
      | Some md \<Rightarrow>
          (if trim_space k = [] then (Failed 400 ''missing queue item id'', a)
           else (case GetItemFiles md e (trim_space k) a of
               (Inl x, b) \<Rightarrow> (Failed 500 (error_text x), b)
             | (Inr None, b) \<Rightarrow> (Failed 404 ''queue item not found'', b)
             | (Inr (Some fs), b) \<Rightarrow> (Reply 200 fs, b))))"

definition http_GetItemEvents :: "download_module option \<Rightarrow> env \<Rightarrow> string \<Rightarrow> app \<Rightarrow> queue_event list reply \<times> app" where
  "http_GetItemEvents md e k a =
     (case md of
        None \<Rightarrow> (unavailable, a)
      | Some md \<Rightarrow>
          (if trim_space k = [] then (Failed 400 ''missing queue item id'', a)
           else (case GetItemEvents md e (trim_space k) a of
               (Inl x, b) \<Rightarrow> (Failed 500 (error_text x), b)
             | (Inr None, b) \<Rightarrow> (Failed 404 ''queue item not found'', b)
             | (Inr (Some evs), b) \<Rightarrow> (Reply 200 evs, b))))"

definition http_Cancel :: "download_module option \<Rightarrow> env \<Rightarrow> string \<Rightarrow> app \<Rightarrow> string reply \<times> app" where
  "http_Cancel md e k a =
     (case md of
        None \<Rightarrow> (unavailable, a)
      | Some md \<Rightarrow>
          (if trim_space k = [] then (Failed 400 ''missing queue item id'', a)
           else (case cmd_Cancel md e (trim_space k) a of
               (Inr True, b) \<Rightarrow> (Reply 200 (trim_space k), b)
             | (_, b) \<Rightarrow> (Failed 404 ''unable to cancel queue item'', b))))"

text \<open>\<open>body\<close> is the error of the JSON decoder or the ids; the reply holds how many were requested and how many done.\<close>

definition http_CancelMany :: "download_module option \<Rightarrow> env \<Rightarrow> string + string list \<Rightarrow> app \<Rightarrow> (int \<times> int) reply \<times> app" where
  "http_CancelMany md e body a =
     (case md of
        None \<Rightarrow> (unavailable, a)
      | Some md \<Rightarrow>
          (case body of
             Inl x \<Rightarrow> (Failed 400 x, a)
           | Inr ks \<Rightarrow>
               (if normalizeIDs ks = [] then (Failed 400 ''ids must contain at least one queue item id'', a)
                else (case CancelMany md e (normalizeIDs ks) a of
                    (Inl x, b) \<Rightarrow> (Failed 500 (error_text x), b)
                  | (Inr n, b) \<Rightarrow> (Reply 200 (int (length (normalizeIDs ks)), n), b)))))"

definition http_DeleteMany :: "download_module option \<Rightarrow> env \<Rightarrow> string + string list \<Rightarrow> app \<Rightarrow> (int \<times> int) reply \<times> app" where
  "http_DeleteMany md e body a =
     (case md of
        None \<Rightarrow> (unavailable, a)
      | Some md \<Rightarrow>
          (case body of
             Inl x \<Rightarrow> (Failed 400 x, a)
           | Inr ks \<Rightarrow>
               (if normalizeIDs ks = [] then (Failed 400 ''ids must contain at least one queue item id'', a)
                else (case DeleteMany md e (normalizeIDs ks) a of
                    (Inl x, b) \<Rightarrow> (Failed 500 (error_text x), b)
                  | (Inr n, b) \<Rightarrow> (Reply 200 (int (length (normalizeIDs ks)), n), b)))))"

definition http_ClearHistory :: "download_module option \<Rightarrow> env \<Rightarrow> app \<Rightarrow> int reply \<times> app" where
  "http_ClearHistory md e a =
     (case md of
        None \<Rightarrow> (unavailable, a)
      | Some md \<Rightarrow> (case ClearHistory md e a of (Inl x, b) \<Rightarrow> (Failed 500 (error_text x), b) | (Inr n, b) \<Rightarrow> (Reply 200 n, b)))"

section \<open>The SAB-compatible interface\<close>

record sab_request =
  sab_Mode :: string
  sab_Output :: string
  sab_Name :: string
  sab_Value :: string
  sab_NZOID :: string
  sab_Limit :: string
  sab_Start :: string
  sab_Search :: string
  sab_Category :: string
  sab_CategoryAlt :: string
  sab_NZBName :: string

definition sab_normalize :: "sab_request \<Rightarrow> sab_request" where
  "sab_normalize r =
     (let cat = trim_space (sab_Category r); alt = trim_space (sab_CategoryAlt r); out = to_lower (trim_space (sab_Output r))
      in r\<lparr>sab_Mode := to_lower (trim_space (sab_Mode r)), sab_Output := (if out = [] then ''json'' else out),
           sab_Name := trim_space (sab_Name r), sab_Value := trim_space (sab_Value r), sab_NZOID := trim_space (sab_NZOID r),
           sab_Limit := trim_space (sab_Limit r), sab_Start := trim_space (sab_Start r),
           sab_Search := trim_space (sab_Search r), sab_Category := (if cat = [] then alt else cat),
           sab_CategoryAlt := alt, sab_NZBName := trim_space (sab_NZBName r)\<rparr>)"

definition addURL :: "sab_request \<Rightarrow> string" where
  "addURL r = (if sab_Name r \<noteq> [] then sab_Name r else sab_Value r)"

definition deleteTarget :: "sab_request \<Rightarrow> string" where
  "deleteTarget r = (if sab_Value r \<noteq> [] then sab_Value r else if sab_NZOID r \<noteq> [] then sab_NZOID r else sab_Name r)"

definition queueItemDisplayName :: "queue_item \<Rightarrow> string" where
  "queueItemDisplayName i =
     (case qi_Release i of
        Some r \<Rightarrow>
          (if rel_Title r \<noteq> [] then rel_Title r
           else if qi_ReleaseTitle i \<noteq> [] then qi_ReleaseTitle i else if qi_ReleaseID i \<noteq> [] then qi_ReleaseID i else qi_ID i)
      | None \<Rightarrow> if qi_ReleaseTitle i \<noteq> [] then qi_ReleaseTitle i else if qi_ReleaseID i \<noteq> [] then qi_ReleaseID i else qi_ID i)"

definition queueItemCategory :: "queue_item \<Rightarrow> string" where
  "queueItemCategory i =
     (case qi_Release i of Some r \<Rightarrow> if trim_space (rel_Category r) \<noteq> [] then rel_Category r else ''*'' | None \<Rightarrow> ''*'')"

definition queueItemSize :: "queue_item \<Rightarrow> int" where
  "queueItemSize i =
     (case qi_Release i of
        Some r \<Rightarrow> if rel_Size r > 0 then rel_Size r else if qi_ReleaseSize i > 0 then qi_ReleaseSize i else 0
      | None \<Rightarrow> if qi_ReleaseSize i > 0 then qi_ReleaseSize i else 0)"

definition matchesSABSearch :: "queue_item \<Rightarrow> string \<Rightarrow> bool" where
  "matchesSABSearch i search \<longleftrightarrow> search = [] \<or> contains_str search (to_lower (trim_space (queueItemDisplayName i)))"

fun split_comma :: "string \<Rightarrow> string \<Rightarrow> string list" where
  "split_comma acc [] = [rev acc]"
| "split_comma acc (c # cs) = (if c = CHR '','' then rev acc # split_comma [] cs else split_comma (c # acc) cs)"

text \<open>\<open>strings.EqualFold\<close> is the equality of the texts in lower case.\<close>

definition matchesSABCategory :: "string \<Rightarrow> string \<Rightarrow> bool" where
  "matchesSABCategory cat wanted \<longleftrightarrow>
     wanted = [] \<or>
     (let cat = trim_space cat; cat = (if cat = [] then ''*'' else cat)
      in list_ex (\<lambda>part. trim_space part \<noteq> [] \<and> to_lower (trim_space part) = to_lower cat) (split_comma [] wanted))"

fun mapSABQueueStatus :: "job_status \<Rightarrow> string" where
  "mapSABQueueStatus StatusPending = ''Queued''"
| "mapSABQueueStatus StatusDownloading = ''Downloading''"
| "mapSABQueueStatus StatusProcessing = ''Processing''"
| "mapSABQueueStatus StatusCompleted = ''Completed''"
| "mapSABQueueStatus StatusFailed = ''Failed''"

record sab_slot =
  sl_Status :: string
  sl_Index :: int
  sl_Filename :: string
  sl_Category :: string
  sl_NZOID :: string
  sl_Bytes :: int
  sl_Left :: int

text \<open>The slots of the queue, without the figures that are formatted from the bytes.\<close>

definition queue_slot :: "bool \<Rightarrow> nat \<times> queue_item \<Rightarrow> sab_slot" where
  "queue_slot is_paused x =
     (let i = snd x; st = mapSABQueueStatus (qi_Status i); left = i64 (queueItemSize i - GetBytes i)
      in \<lparr>sl_Status = (if is_paused \<and> st = ''Queued'' then ''Paused'' else st), sl_Index = int (fst x),
          sl_Filename = queueItemDisplayName i, sl_Category = queueItemCategory i, sl_NZOID = qi_ID i,
          sl_Bytes = queueItemSize i, sl_Left = (if left < 0 then 0 else left)\<rparr>)"

definition buildQueueSlots :: "download_module \<Rightarrow> sab_request \<Rightarrow> app \<Rightarrow> sab_slot list" where
  "buildQueueSlots md req a =
     map (queue_slot (query_IsPaused md a))
       (filter (\<lambda>(_, i). \<not> terminal (qi_Status i) \<and> matchesSABSearch i (sab_Search req) \<and>
          matchesSABCategory (queueItemCategory i) (sab_Category req))
         (enumerate 0 (ListActive md a)))"

fun queue_status :: "string \<Rightarrow> sab_slot list \<Rightarrow> string" where
  "queue_status st [] = st"
| "queue_status st (s # ss) =
     (if sl_Status s = ''Downloading'' then ''Downloading''
      else queue_status (if sl_Status s = ''Processing'' then ''Downloading''
        else if sl_Status s = ''Queued'' \<and> st = ''Idle'' then ''Queued'' else st) ss)"

record sab_queue =
  sq_Status :: string
  sq_Paused :: bool
  sq_Total :: int
  sq_Limit :: int
  sq_Start :: int
  sq_Slots :: "sab_slot list"

definition buildQueueData :: "download_module \<Rightarrow> sab_request \<Rightarrow> app \<Rightarrow> sab_queue option" where
  "buildQueueData md req a =
     (let slots = buildQueueSlots md req a; n = int (length slots);
          start = parseIntDefault (sab_Start req) 0;
          limit = parseIntDefault (sab_Limit req) n;
          limit = (if limit \<le> 0 then n else limit);
          start = (if start < 0 then 0 else start);
          start = (if start > n then n else start);
          stop = i64 (start + limit);
          stop = (if stop > n then n else stop)
      in map_option (\<lambda>visible.
           \<lparr>sq_Status = queue_status (if query_IsPaused md a then ''Paused'' else ''Idle'') slots,
            sq_Paused = query_IsPaused md a, sq_Total = n, sq_Limit = limit, sq_Start = start, sq_Slots = visible\<rparr>)
         (slice slots start stop))"

record sab_history_slot =
  hs_NZOID :: string
  hs_Name :: string
  hs_Status :: string
  hs_Category :: string
  hs_Size :: int
  hs_FailMessage :: string
  hs_Completed :: gotime
  hs_Storage :: string

definition history_slot :: "queue_item \<Rightarrow> sab_history_slot" where
  "history_slot i =
     \<lparr>hs_NZOID = qi_ID i, hs_Name = queueItemDisplayName i, hs_Status = mapSABQueueStatus (qi_Status i),
      hs_Category = queueItemCategory i, hs_Size = queueItemSize i,
      hs_FailMessage = (case qi_Error i of Some m \<Rightarrow> m | None \<Rightarrow> []), hs_Completed = qi_CompletedAt i, hs_Storage = qi_OutDir i\<rparr>"

datatype sab_reply =
    Done
  | Added string
  | QueueReply sab_queue
  | HistoryReply "sab_history_slot list"
  | FilesReply "download_file list"

definition sab_history_delete :: "download_module \<Rightarrow> env \<Rightarrow> sab_request \<Rightarrow> app \<Rightarrow> sab_reply reply \<times> app" where
  "sab_history_delete md e req a =
     (let target = trim_space (sab_Value req);
          target = (if target = [] then trim_space (sab_NZOID req) else target);
          target = (if target = [] then trim_space (sab_Name req) else target)
      in if target = [] \<or> to_lower target = ''all''
         then (case ClearHistory md e a of (Inl x, b) \<Rightarrow> (Failed 500 (error_text x), b) | (Inr _, b) \<Rightarrow> (Reply 200 Done, b))
         else (case DeleteMany md e [target] a of
             (Inl x, b) \<Rightarrow> (Failed 500 (error_text x), b)
           | (Inr n, b) \<Rightarrow> (if n = 0 then Failed 404 ''history item not found'' else Reply 200 Done, b)))"

definition sab_history :: "download_module \<Rightarrow> env \<Rightarrow> sab_request \<Rightarrow> app \<Rightarrow> sab_reply reply \<times> app" where
  "sab_history md e req a =
     (if to_lower (sab_Name req) = ''delete'' then sab_history_delete md e req a
      else (case ListHistory md e [] (parseIntDefault (sab_Limit req) 50) (parseIntDefault (sab_Start req) 0) a of
          (Inl x, b) \<Rightarrow> (Failed 500 (error_text x), b)
        | (Inr (None, _), b) \<Rightarrow> (Panic, b)
        | (Inr (Some xs, _), b) \<Rightarrow>
            (Reply 200 (HistoryReply (map history_slot (filter (\<lambda>i. terminal (qi_Status i) \<and> matchesSABSearch i (sab_Search req) \<and>
               matchesSABCategory (queueItemCategory i) (sab_Category req)) xs))), b)))"

definition sab_delete :: "download_module \<Rightarrow> env \<Rightarrow> sab_request \<Rightarrow> app \<Rightarrow> sab_reply reply \<times> app" where
  "sab_delete md e req a =
     (let k = deleteTarget req
      in if k = [] then (Failed 400 ''missing nzo_id/value for delete'', a)
         else case cmd_Cancel md e k a of
           (Inr True, b) \<Rightarrow> (Reply 200 Done, b)
         | (_, b) \<Rightarrow>
             (case DeleteMany md e [k] b of
                (Inl x, c) \<Rightarrow> (Failed 500 (error_text x), c)
              | (Inr n, c) \<Rightarrow> (if n > 0 then Reply 200 Done else Failed 404 ''queue item not found'', c)))"

definition names_a_job :: "sab_request \<Rightarrow> bool" where
  "names_a_job req \<longleftrightarrow> sab_NZOID req \<noteq> [] \<or> sab_Value req \<noteq> [] \<or> sab_Name req \<noteq> []"

definition sab_pause :: "download_module \<Rightarrow> sab_request \<Rightarrow> app \<Rightarrow> sab_reply reply \<times> app" where
  "sab_pause md req a =
     (if names_a_job req then (Failed 400 ''per-job pause is not supported; use global pause'', a)
      else (case cmd_Pause md a of
          (Inr True, b) \<Rightarrow> (Reply 200 Done, b)
        | (_, b) \<Rightarrow> (Failed 500 ''failed to pause downloader queue'', b)))"

definition sab_resume :: "download_module \<Rightarrow> sab_request \<Rightarrow> app \<Rightarrow> sab_reply reply \<times> app" where
  "sab_resume md req a =
     (if names_a_job req then (Failed 400 ''per-job resume is not supported; use global resume'', a)
      else (case cmd_Resume md a of
          (Inr True, b) \<Rightarrow> (Reply 200 Done, b)
        | (_, b) \<Rightarrow> (Failed 500 ''failed to resume downloader queue'', b)))"

definition sab_get_files :: "download_module \<Rightarrow> env \<Rightarrow> sab_request \<Rightarrow> app \<Rightarrow> sab_reply reply \<times> app" where
  "sab_get_files md e req a =
     (let k = deleteTarget req
      in if k = [] then (Failed 400 ''missing nzo_id/value for get_files'', a)
         else case attempt (query_GetItem md e k) (\<lambda>i. case i of None \<Rightarrow> give None | Some _ \<Rightarrow> GetItemFiles md e k) a of
           (Inl x, b) \<Rightarrow> (Failed 500 (error_text x), b)
         | (Inr None, b) \<Rightarrow> (Failed 404 ''queue item not found'', b)
         | (Inr (Some fs), b) \<Rightarrow> (Reply 200 (FilesReply fs), b))"

definition sab_enqueue :: "download_module \<Rightarrow> env \<Rightarrow> string \<Rightarrow> string \<Rightarrow> string \<Rightarrow> go_error + byte list \<Rightarrow> app \<Rightarrow> sab_reply reply \<times> app" where
  "sab_enqueue md e qid filename cat file a =
     (case EnqueueNZBWithCategory md e qid filename cat file a of
        (Inl x, b) \<Rightarrow> (Failed 400 (error_text x), b)
      | (Inr r, b) \<Rightarrow> (Reply 200 (Added (qi_ID (items (ap_queue b) r))), b))"

text \<open>\<open>base\<close> is the last element of the path of the address, when it can be parsed; \<open>fetch\<close> is what the request for it gives: an
  error, or the status and the body.\<close>

definition sab_addurl ::
  "(string \<Rightarrow> string option) \<Rightarrow> (string \<Rightarrow> go_error + int \<times> (go_error + byte list)) \<Rightarrow> download_module \<Rightarrow> env \<Rightarrow> string \<Rightarrow>
     sab_request \<Rightarrow> app \<Rightarrow> sab_reply reply \<times> app" where
  "sab_addurl base fetch md e qid req a =
     (let link = addURL req;
          filename = (if sab_NZBName req \<noteq> [] then sab_NZBName req
            else case base link of Some b \<Rightarrow> if b \<notin> {[], ''.'', ''/''} then b else [] | None \<Rightarrow> []);
          filename = (if filename = [] then ''remote.nzb'' else filename)
      in if link = [] then (Failed 400 ''missing nzb url'', a)
         else case fetch link of
           Inl x \<Rightarrow> (Failed 502 (''failed to fetch nzb url: '' @ error_text x), a)
         | Inr (status, body) \<Rightarrow>
             (if status < 200 \<or> status \<ge> 300 then (Failed 502 (''upstream nzb url returned '' @ itoa status), a)
              else sab_enqueue md e qid filename (sab_Category req) body a))"

definition sab_addfile :: "download_module \<Rightarrow> env \<Rightarrow> string \<Rightarrow> sab_request \<Rightarrow> add_body \<Rightarrow> app \<Rightarrow> sab_reply reply \<times> app" where
  "sab_addfile md e qid req body a =
     (case body of
        Upload name file \<Rightarrow>
          (let filename = (if sab_NZBName req \<noteq> [] then sab_NZBName req else name);
               filename = (if filename = [] then ''upload.nzb'' else filename)
           in sab_enqueue md e qid filename (sab_Category req) file a)
      | UnreadableUpload \<Rightarrow> (Failed 400 ''failed to open uploaded nzb'', a)
      | _ \<Rightarrow> (Failed 400 ''missing nzb file upload'', a))"

text \<open>\<open>req\<close> is the error of the binder or the request; the replies to \<open>get_config\<close>, \<open>get_cats\<close>, \<open>version\<close> and \<open>status\<close>, which
  hold settings and constants, are not modelled.\<close>

definition sab_Handle ::
  "(string \<Rightarrow> string option) \<Rightarrow> (string \<Rightarrow> go_error + int \<times> (go_error + byte list)) \<Rightarrow> (sab_request \<Rightarrow> sab_reply reply) \<Rightarrow>
     download_module option \<Rightarrow> env \<Rightarrow> string \<Rightarrow> string + sab_request \<Rightarrow> add_body \<Rightarrow> app \<Rightarrow> sab_reply reply \<times> app" where
  "sab_Handle base fetch info md e qid bound body a =
     (case md of
        None \<Rightarrow> (unavailable, a)
      | Some md \<Rightarrow>
          (case bound of
             Inl x \<Rightarrow> (Failed 400 x, a)
           | Inr raw \<Rightarrow>
               (let req = sab_normalize raw; mode = sab_Mode req
                in if sab_Output req \<noteq> ''json'' then (Failed 400 ''only json output is currently supported'', a)
                   else if mode = ''queue''
                   then (case buildQueueData md req a of Some q \<Rightarrow> (Reply 200 (QueueReply q), a) | None \<Rightarrow> (Panic, a))
                   else if mode = ''history'' then sab_history md e req a
                   else if mode = ''addurl'' then sab_addurl base fetch md e qid req a
                   else if mode = ''addfile'' then sab_addfile md e qid req body a
                   else if mode = ''delete'' then sab_delete md e req a
                   else if mode = ''pause'' then sab_pause md req a
                   else if mode = ''resume'' then sab_resume md req a
                   else if mode = ''get_files'' then sab_get_files md e req a
                   else if mode \<in> {''get_config'', ''get_cats'', ''version'', ''fullstatus'', ''status''} then (info req, a)
                   else (Failed 400 ''unsupported or missing SAB mode'', a))))"

section \<open>The Newznab interface and the search of the user interface\<close>

text \<open>\<open>url.QueryEscape\<close>.\<close>

definition unreserved :: "char \<Rightarrow> bool" where
  "unreserved c \<longleftrightarrow> is_digit c \<or> 65 \<le> code c \<and> code c \<le> 90 \<or> 97 \<le> code c \<and> code c \<le> 122 \<or> c \<in> set ''-_.~''"

definition hex_upper :: "nat \<Rightarrow> char" where
  "hex_upper d = (if d < 10 then char_of (48 + d) else char_of (55 + d))"

definition query_escape :: "string \<Rightarrow> string" where
  "query_escape s =
     concat (map (\<lambda>c. if unreserved c then [c] else if c = CHR '' '' then ''+''
        else [CHR ''%'', hex_upper (code c div 16), hex_upper (code c mod 16)]) s)"

record rss_item =
  rs_Title :: string
  rs_GUID :: string
  rs_Link :: string
  rs_Category :: string
  rs_PubDate :: gotime
  rs_Length :: int
  rs_Attributes :: "(string \<times> string) list"

definition category_of_reply :: "string \<Rightarrow> string \<times> string" where
  "category_of_reply raw =
     (let cat = trim_space raw
      in case ParseID cat of
           (p, True) \<Rightarrow> (itoa p, DisplayName p)
         | (_, False) \<Rightarrow> (if cat = [] then (itoa OtherMisc, DisplayName OtherMisc) else (cat, cat)))"

definition rss_item_of :: "string \<Rightarrow> string \<Rightarrow> release \<Rightarrow> rss_item" where
  "rss_item_of addr apikey r =
     (let cat = category_of_reply (rel_Category r);
          link = addr @ ''/api?t=get&id='' @ rel_ID r;
          link = (if apikey \<noteq> [] then link @ ''&apikey='' @ query_escape apikey else link)
      in \<lparr>rs_Title = rel_Title r, rs_GUID = rel_ID r, rs_Link = link, rs_Category = snd cat, rs_PubDate = rel_PublishDate r,
          rs_Length = rel_Size r,
          rs_Attributes = [(''category'', fst cat), (''size'', itoa (rel_Size r)), (''guid'', rel_ID r)]\<rparr>)"

definition aggregatorErrorStatus :: "go_error \<Rightarrow> int" where
  "aggregatorErrorStatus e =
     (if errors_is ErrUnavailable e then 503 else if errors_is ErrReleaseMissing e then 404 else 500)"

definition service_Search ::
  "(string \<Rightarrow> string) \<Rightarrow> (source list \<Rightarrow> source list) \<Rightarrow> aggregator option option \<Rightarrow> search_request \<Rightarrow> release list shop" where
  "service_Search sha arrival ag req =
     (case ag of
        None \<Rightarrow> refuse ErrUnavailable
      | Some ag \<Rightarrow> map_error (Wrapped ''search releases'') (module_Search sha arrival ag req))"

definition newznab_error :: "int \<Rightarrow> string \<Rightarrow> 'a reply" where
  "newznab_error status what = Failed status what"

definition newznab_Search ::
  "(string \<Rightarrow> string) \<Rightarrow> (source list \<Rightarrow> source list) \<Rightarrow> aggregator option option \<Rightarrow> string \<Rightarrow> string \<Rightarrow> search_request \<Rightarrow> catalogue \<Rightarrow>
     rss_item list reply \<times> catalogue" where
  "newznab_Search sha arrival ag addr apikey req s =
     (case service_Search sha arrival ag req s of
        (Inl e, t) \<Rightarrow>
          (if aggregatorErrorStatus e = 503 then newznab_error 404 ''Newznab-compatible API is not enabled''
           else newznab_error 500 ''search failed'', t)
      | (Inr rs, t) \<Rightarrow> (Reply 200 (map (rss_item_of addr apikey) rs), t))"

datatype download_reply = Redirect string | Stream string reader

text \<open>A result without an address to redirect to and without a reader makes the deferred call panic.\<close>

definition HandleDownload :: "aggregator option option \<Rightarrow> payload_store option \<Rightarrow> string \<Rightarrow> string \<Rightarrow> catalogue \<Rightarrow> download_reply reply \<times> catalogue" where
  "HandleDownload ag blobs path_id query_id s =
     (let k = (if trim_space path_id = [] then trim_space query_id else trim_space path_id)
      in if k = [] then (newznab_error 400 ''missing id parameter'', s)
         else case (case ag of None \<Rightarrow> refuse ErrUnavailable | Some ag \<Rightarrow> PrepareDownload ag blobs k) s of
           (Inl e, t) \<Rightarrow>
             (if aggregatorErrorStatus e = 503 then newznab_error 404 ''Newznab-compatible API is not enabled''
              else if aggregatorErrorStatus e = 404 then newznab_error 404 ''nzb not found''
              else newznab_error 500 ''failed to fetch nzb'', t)
         | (Inr d, t) \<Rightarrow>
             (if dl_RedirectURL d \<noteq> [] then (Reply 302 (Redirect (dl_RedirectURL d)), t)
              else (case (dl_Reader d, dl_Release d) of
                  (Some rd, Some rel) \<Rightarrow>
                    (Reply 200 (Stream (contentDispositionFilename (buildDownloadFilename (rel_Title rel) k)) rd), t)
                | _ \<Rightarrow> (Panic, t))))"

text \<open>The answer of the user interface: id, title, size, category, source, cached, size of the blob.\<close>

definition SearchReleases ::
  "(string \<Rightarrow> string) \<Rightarrow> (source list \<Rightarrow> source list) \<Rightarrow> aggregator option option \<Rightarrow> string \<Rightarrow> catalogue \<Rightarrow>
     (string \<times> string \<times> int \<times> string \<times> string \<times> bool \<times> int) list reply \<times> catalogue" where
  "SearchReleases sha arrival ag q s =
     (let query = trim_space q
      in if length query < 2 then (Reply 200 [], s)
         else case service_Search sha arrival ag \<lparr>sr_Type = ''search'', sr_Query = query, sr_IMDbID = [], sr_TVDBID = [], sr_TVMazeID = [],
             sr_RageID = [], sr_Season = [], sr_Episode = [], sr_Genre = []\<rparr> s of
           (Inl e, t) \<Rightarrow> (Failed (aggregatorErrorStatus e) (error_text e), t)
         | (Inr rs, t) \<Rightarrow>
             (Reply 200 (map (\<lambda>r. (rel_ID r, rel_Title r, rel_Size r, rel_Category r, rel_Source r, rel_CachePresent r,
                rel_CacheBlobSize r)) rs), t))"

end
