(* ===== verification/Blob_Props.thy ===== *)
theory Blob_Props
  imports Blob_Store
begin

text \<open>
  What the stores of payloads promise (locale \<open>payload_map\<close>, interpreted on the files and on the memory): a save that
  succeeds is read back, one that fails changes nothing, no other NZB is touched. Where an NZB is looked for, and what
  the index of the blobs says after it has been reconciled.
\<close>

section \<open>Where an NZB lies\<close>

text \<open>The name of the file of an NZB ends in a B; a temporary file does not.\<close>

definition nzb_place :: "place \<Rightarrow> bool" where
  "nzb_place q \<longleftrightarrow> q \<noteq> [] \<and> last q \<noteq> [] \<and> last (last q) \<in> {CHR ''b'', CHR ''B''}"

lemma to_lower_ne: "s \<noteq> [] \<Longrightarrow> to_lower s \<noteq> []"
  by (cases s) (auto simp: Let_def)

lemma lower_ends_in_b: "s \<noteq> [] \<Longrightarrow> last (to_lower s) = CHR ''b'' \<Longrightarrow> last s \<in> {CHR ''b'', CHR ''B''}"
proof (induction s rule: to_lower.induct)
  case (2 c cs)
  have up: "c = CHR ''B''" if "(char_of (code c + 32 :: nat) :: char) = CHR ''b''" "code c \<le> (90::nat)"
  proof -
    have "code c + 32 = (code (CHR ''b'') :: nat)"
      using arg_cong [OF that(1), of code] that(2) by (simp only: code_char_of)
    then have "code c = (code (CHR ''B'') :: nat)" by simp
    then show ?thesis by (simp only: of_char_eq_iff)
  qed
  have step: "last (c # cs) \<in> {CHR ''b'', CHR ''B''}"
    if "to_lower (c # cs) = d # to_lower (drop n cs)" "d = CHR ''b'' \<Longrightarrow> c \<in> {CHR ''b'', CHR ''B''} \<and> n = 0"
      "drop n cs \<noteq> [] \<Longrightarrow> last (to_lower (drop n cs)) = CHR ''b'' \<Longrightarrow> last (drop n cs) \<in> {CHR ''b'', CHR ''B''}" for d n
  proof (cases "drop n cs = []")
    case True
    with 2 that(1) have "d = CHR ''b''" by simp
    with True that(2) show ?thesis by simp
  next
    case False
    with 2 that(1) to_lower_ne [OF False] have "last (to_lower (drop n cs)) = CHR ''b''" by simp
    with False that(3) show ?thesis by (cases "cs = []") (auto simp: last_drop)
  qed
  show ?case
  proof (cases "65 \<le> (code c :: nat) \<and> code c \<le> (90::nat)")
    case True
    then show ?thesis using step [of _ 0] 2(1) up by simp
  next
    case low: False
    note eq = to_lower.simps(2) [of c cs, unfolded if_not_P [OF low]]
    note hyps = 2
    consider "is_prefix [CHR 0xC4, CHR 0xB0] (c # cs)" | "\<not> is_prefix [CHR 0xC4, CHR 0xB0] (c # cs)" "is_prefix [CHR 0xE2, CHR 0x84, CHR 0xAA] (c # cs)"
      | "\<not> is_prefix [CHR 0xC4, CHR 0xB0] (c # cs)" "\<not> is_prefix [CHR 0xE2, CHR 0x84, CHR 0xAA] (c # cs)" by blast
    then show ?thesis
    proof cases
      case 1
      show ?thesis by (rule step [OF _ _ hyps(2) [OF low 1]]) (use 1 in \<open>auto simp: eq simp del: to_lower.simps is_prefix.simps\<close>)
    next
      case 2
      show ?thesis by (rule step [OF _ _ hyps(3) [OF low 2]]) (use 2 in \<open>auto simp: eq simp del: to_lower.simps is_prefix.simps\<close>)
    next
      case 3
      show ?thesis by (rule step [of c 0]) (use 3 hyps(4) [OF low 3] in \<open>auto simp: eq simp del: to_lower.simps is_prefix.simps\<close>)
    qed
  qed
qed simp

lemma last_element: "c \<noteq> CHR ''/'' \<Longrightarrow> \<exists>e. last (split_slash acc (w @ [c])) = e @ [c]"
proof (induction acc w rule: split_slash.induct)
  case (2 acc d cs)
  then show ?case by (auto simp: split_slash_ne)
qed auto

lemma ends_in_b_ordinary: "CHR ''/'' \<notin> set (e @ [c]) \<Longrightarrow> c \<in> {CHR ''b'', CHR ''B''} \<Longrightarrow> ordinary (e @ [c])"
  by (auto simp: ordinary_def append_eq_Cons_conv)

text \<open>The last element of the place is the last element of the key.\<close>

lemma place_key:
  assumes "rooted cwd" "dir \<noteq> []" "key \<noteq> []" "ordinary (last (split_slash [] key))"
  shows "\<exists>q. place_of cwd (path_join dir key) = q @ [last (split_slash [] key)]"
proof -
  let ?p = "dir @ CHR ''/'' # key" and ?e = "last (split_slash [] key)"
  have "split_slash [] ?p = (split_slash [] dir @ butlast (split_slash [] key)) @ [?e]"
    by (simp add: split_slash_append split_slash_ne)
  then have "place_of cwd ?p = clean_elems True (start_of cwd ?p) (split_slash [] dir @ butlast (split_slash [] key)) @ [?e]"
    using assms(1,4) by (simp add: place_elems clean_elems_ordinary del: append_assoc)
  moreover have "path_join dir key = clean_path ?p" using assms by (simp add: path_join_def)
  ultimately show ?thesis using assms place_clean [of cwd ?p] by simp
qed

lemma nzb_key_place:
  assumes "rooted cwd" "fb_dir fs \<noteq> []"
  shows "nzb_place (place_of cwd (pathForNZBKey fs k))"
proof -
  obtain key where key: "pathForNZBKey fs k = path_join (fb_dir fs) key" "key \<noteq> []" "last key \<in> {CHR ''b'', CHR ''B''}"
  proof -
    define k0 where "k0 = (let k = trim_space (trim_prefix ''/'' k) in if k = [] then ''unknown.nzb'' else k)"
    have ne: "k0 \<noteq> []" by (simp add: k0_def Let_def)
    have p: "pathForNZBKey fs k = path_join (fb_dir fs) (if has_suffix ''.nzb'' (to_lower k0) then k0 else k0 @ ''.nzb'')"
      by (simp add: pathForNZBKey_def k0_def Let_def)
    show thesis
    proof (cases "has_suffix ''.nzb'' (to_lower k0)")
      case True
      then obtain w where "rev (to_lower k0) = rev ''.nzb'' @ w" unfolding has_suffix_def is_prefix_iff by blast
      then have "to_lower k0 = rev w @ ''.nzb''" by (metis rev_append rev_rev_ident)
      then have "last k0 \<in> {CHR ''b'', CHR ''B''}" using lower_ends_in_b [OF ne] by simp
      then show thesis using that [of k0] p True ne by simp
    next
      case False
      then show thesis using that [of "k0 @ ''.nzb''"] p by simp
    qed
  qed
  obtain w c where w: "key = w @ [c]" "c \<in> {CHR ''b'', CHR ''B''}" using key(2,3) by (cases key rule: rev_cases) auto
  obtain e where e: "last (split_slash [] key) = e @ [c]" using last_element [of c "[]" w] w by auto
  have "ordinary (e @ [c])" using ends_in_b_ordinary split_no_slash [of "e @ [c]" key] w(2) e
    by (metis last_in_set split_slash_ne)
  with place_key [OF assms key(2)] e key(1) obtain q where "place_of cwd (pathForNZBKey fs k) = q @ [e @ [c]]" by auto
  then show ?thesis using w(2) by (simp add: nzb_place_def)
qed

section \<open>Saving a file\<close>

lemma look_faults [simp]: "look (s\<lparr>os_faults := bs\<rparr>) q = look s q"
  by (simp add: look_def)

lemma sys_step_keeps: "sys_step s = (r, t) \<Longrightarrow> look t = look s \<and> os_cwd t = os_cwd s"
  unfolding sys_step_def by (auto simp: call_def sys_def refuse_def give_def look_def Let_def fun_eq_iff split: list.splits option.splits)

lemma digits_no_slash: "CHR ''/'' \<notin> set (utoa n)"
  using utoa_digits [of n] by (auto simp: list_all_iff is_digit_def)

lemma CreateTemp_ok:
  assumes "CreateTemp names d stem s = (Inr p, t)" "rooted (os_cwd s)" "d \<noteq> []"
  defines "q \<equiv> place_of (os_cwd s) p"
  shows "\<not> nzb_place q \<and> q \<noteq> [] \<and> look s q = None \<and> look t = (look s)(q \<mapsto> FileNode []) \<and> os_cwd t = os_cwd s"
proof -
  from assms(1) have ns: "CHR ''/'' \<notin> set stem" and
    c: "call (\<lambda>s. case find (\<lambda>r. look s (resolve s (path_join d (stem @ ''.'' @ utoa r @ ''.tmp''))) = None) names of
          None \<Rightarrow> (Inl SysFailed, s)
        | Some r \<Rightarrow>
            (let p = path_join d (stem @ ''.'' @ utoa r @ ''.tmp''); q = resolve s p
             in if look s (butlast q) \<noteq> Some DirNode then (Inl (absent s q), s)
                else (Inr p, put_node q (FileNode []) s))) s = (Inr p, t)"
    by (auto simp: CreateTemp_def refuse_def split: if_splits)
  from c show ?thesis
  proof (cases rule: call_cases)
    case (2 s')
    then obtain r where f: "find (\<lambda>r. look s (place_of (os_cwd s) (path_join d (stem @ ''.'' @ utoa r @ ''.tmp''))) = None) names = Some r"
      and p: "p = path_join d (stem @ ''.'' @ utoa r @ ''.tmp'')" and t: "t = put_node (place_of (os_cwd s) p) (FileNode []) s'"
      by (auto simp: resolve_def Let_def split: option.splits if_splits)
    have "ordinary (stem @ ''.'' @ utoa r @ ''.tmp'')" using ns digits_no_slash [of r]
      by (auto simp: ordinary_def append_eq_Cons_conv Cons_eq_append_conv)
    from place_snoc [OF assms(2,3) this] p have q: "q = place_of (os_cwd s) d @ [stem @ ''.'' @ utoa r @ ''.tmp'']"
      by (simp add: q_def)
    have "look s q = None" using f p by (auto simp: q_def find_Some_iff)
    then show ?thesis using q t 2(2,3) by (auto simp: nzb_place_def q_def look_put fun_eq_iff)
  qed simp
qed

lemma CopyInto_keeps:
  assumes "CopyInto p (FileNode c) s = (r, t)" "look s (place_of (os_cwd s) p) = Some (FileNode d)"
  shows "os_cwd t = os_cwd s" "q \<noteq> place_of (os_cwd s) p \<Longrightarrow> look t q = look s q"
    "\<exists>d. look t (place_of (os_cwd s) p) = Some (FileNode d)"
    "r = Inr u \<Longrightarrow> look t (place_of (os_cwd s) p) = Some (FileNode c)"
proof -
  have "place_of (os_cwd s) p \<noteq> []" using assms(2) by (auto simp: look_def)
  then show "os_cwd t = os_cwd s" "q \<noteq> place_of (os_cwd s) p \<Longrightarrow> look t q = look s q"
    "\<exists>d. look t (place_of (os_cwd s) p) = Some (FileNode d)"
    "r = Inr u \<Longrightarrow> look t (place_of (os_cwd s) p) = Some (FileNode c)"
    using assms(1) unfolding CopyInto_def sys_def
    by (auto simp: resolve_def look_put Let_def split: list.splits option.splits)
qed

text \<open>From one state to the next only the file at \<open>q\<close> may change, and it stays a file.\<close>

definition only_file :: "place \<Rightarrow> os \<Rightarrow> os \<Rightarrow> bool" where
  "only_file q s t \<longleftrightarrow> os_cwd t = os_cwd s \<and> (\<forall>x. x \<noteq> q \<longrightarrow> look t x = look s x) \<and> (\<exists>d. look t q = Some (FileNode d))"

lemma only_file_step: "only_file q s t \<Longrightarrow> sys_step t = (r, u) \<Longrightarrow> only_file q s u \<and> look u = look t"
  using sys_step_keeps [of t r u] by (simp add: only_file_def)

lemma or_closeE:
  assumes "or_close text m s = (r, t)"
  obtains e u z where "m s = (Inl e, u)" "sys_step u = (z, t)" "r = Inl (Wrapped text e)" | "m s = (Inr (), t)" "r = Inr ()"
  using assms unfolding or_close_def
  by (auto simp: regardless_def refuse_def give_def split: prod.splits sum.splits)

lemma write_temp_keeps:
  assumes "write_temp what tmp data s = (r, t)" "look s (place_of (os_cwd s) tmp) = Some (FileNode d)"
  defines "q \<equiv> place_of (os_cwd s) tmp"
  shows "only_file q s t \<and> (r = Inr () \<longrightarrow> look t q = Some (FileNode data))"
proof -
  have cpd: "only_file q s u \<and> (x = Inr () \<longrightarrow> look u q = Some (FileNode data))"
    if "or_close msg (CopyInto tmp (FileNode data)) s = (x, u)" for msg x u
    using that
  proof (cases rule: or_closeE)
    case (1 e v z)
    from CopyInto_keeps [OF 1(1) assms(2)] have "only_file q s v" by (auto simp: only_file_def q_def)
    with only_file_step 1 show ?thesis by auto
  next
    case 2
    with CopyInto_keeps [OF 2(1) assms(2)] show ?thesis by (auto simp: only_file_def q_def)
  qed
  have synced: "only_file q s v \<and> look v = look u" if "or_close msg sys_step u = (x, v)" "only_file q s u" for msg x u v
    using that(1) by (cases rule: or_closeE) (use only_file_step that(2) in metis)+
  from assms(1) show ?thesis unfolding write_temp_def
  proof (cases rule: attemptE)
    case (goes_on x u)
    note u = cpd [OF goes_on(1)]
    from goes_on(2) show ?thesis
    proof (cases rule: attemptE)
      case second: (goes_on y v)
      from second(2) obtain z where "sys_step v = (z, t)" by (auto elim: map_errorE)
      with synced [OF second(1)] u only_file_step show ?thesis by (metis old.unit.exhaust)
    qed (use synced u in auto)
  qed (use cpd in auto)
qed

lemma Rename_file:
  assumes "Rename p r s = (x, t)" "look s (place_of (os_cwd s) p) = Some (FileNode c)"
    "q \<noteq> place_of (os_cwd s) p" "q \<noteq> place_of (os_cwd s) r"
  shows "look t q = look s q"
  using assms(1) unfolding Rename_def
proof (cases rule: call_cases)
  case 1
  then show ?thesis using assms(1) Rename_fails by metis
next
  case (2 s')
  then show ?thesis using assms(2-4) by (auto simp: resolve_def Let_def look_put look_drop split: if_splits)
qed

lemma Rename_cwd: "Rename p r s = (x, t) \<Longrightarrow> os_cwd t = os_cwd s"
  unfolding Rename_def call_def sys_def
  by (auto simp: Let_def refuse_def split: list.splits option.splits node.splits if_splits)

lemma Remove_other: "Remove p s = (x, t) \<Longrightarrow> q \<noteq> place_of (os_cwd s) p \<Longrightarrow> look t q = look s q"
  and Remove_cwd: "Remove p s = (x, t) \<Longrightarrow> os_cwd t = os_cwd s"
  unfolding Remove_def call_def sys_def
  by (auto simp: resolve_def refuse_def Let_def look_drop split: list.splits option.splits node.splits if_splits)

lemma commit_temp_keeps:
  assumes "commit_temp what commit tmp final data s = (r, t)" "look s (place_of (os_cwd s) tmp) = Some (FileNode d)"
  defines "a \<equiv> place_of (os_cwd s) tmp" and "b \<equiv> place_of (os_cwd s) final"
  shows "os_cwd t = os_cwd s" "q \<noteq> a \<Longrightarrow> q \<noteq> b \<or> r \<noteq> Inr () \<Longrightarrow> look t q = look s q"
    "r = Inr () \<Longrightarrow> file_at t b = Some data"
proof -
  define m where "m = attempt (write_temp what tmp data) (\<lambda>_. map_error (Wrapped commit) (Rename tmp final))"
  obtain x u where m: "m s = (x, u)" by fastforce
  note w = write_temp_keeps [OF _ assms(2), folded a_def]
  have u: "os_cwd u = os_cwd s \<and> (q \<noteq> a \<longrightarrow> (q \<noteq> b \<or> x \<noteq> Inr ()) \<longrightarrow> look u q = look s q) \<and> (x = Inr () \<longrightarrow> file_at u b = Some data)" for q
    using m unfolding m_def
  proof (cases rule: attemptE)
    case (fails e)
    with w [OF fails(1)] show ?thesis by (auto simp: only_file_def)
  next
    case (goes_on y v)
    note v = w [OF goes_on(1), unfolded only_file_def]
    obtain z where z: "Rename tmp final v = (z, u)" "x = Inr () \<longleftrightarrow> z = Inr ()" using goes_on(2) by (auto elim: map_errorE)
    have va: "look v (place_of (os_cwd v) tmp) = Some (FileNode data)" using v by (simp add: a_def)
    show ?thesis
    proof (cases z)
      case (Inl e)
      with Rename_fails [of tmp final v e u] z v show ?thesis by auto
    next
      case (Inr z')
      with Rename_ok [of tmp final v z' u] Rename_file [OF z(1) va] Rename_cwd [OF z(1)] z va v
      show ?thesis by (auto simp: a_def b_def)
    qed
  qed
  have c: "(case x of Inl e \<Rightarrow> (Inl e, snd (Remove tmp u)) | Inr y \<Rightarrow> (Inr y, u)) = (r, t)"
    using assms(1) m by (auto simp: commit_temp_def m_def split: sum.splits)
  obtain y v where rm: "Remove tmp u = (y, v)" by fastforce
  from c rm Remove_other [OF rm] Remove_cwd [OF rm] u
  show "os_cwd t = os_cwd s" "q \<noteq> a \<Longrightarrow> q \<noteq> b \<or> r \<noteq> Inr () \<Longrightarrow> look t q = look s q"
    "r = Inr () \<Longrightarrow> file_at t b = Some data"
    by (auto simp: a_def split: sum.splits)
qed

lemma CreateTemp_fails: "CreateTemp names d stem s = (Inl e, t) \<Longrightarrow> look t = look s \<and> os_cwd t = os_cwd s"
  unfolding CreateTemp_def call_def sys_def
  by (auto simp: Let_def refuse_def look_def fun_eq_iff split: list.splits option.splits if_splits)

lemma save_io_keeps:
  assumes "save_io names what commit final data s = (r, t)" "rooted (os_cwd s)" "nzb_place q"
  shows "os_cwd t = os_cwd s"
    "q \<noteq> place_of (os_cwd s) final \<or> r \<noteq> Inr () \<Longrightarrow> file_at t q = file_at s q"
    "r = Inr () \<Longrightarrow> file_at t (place_of (os_cwd s) final) = Some data"
proof -
  note mk = sparing_file [OF sparing_MkdirAll [of "os_cwd s" "\<lambda>_. True"], OF _ refl]
  have "os_cwd t = os_cwd s \<and> (q \<noteq> place_of (os_cwd s) final \<or> r \<noteq> Inr () \<longrightarrow> file_at t q = file_at s q) \<and>
      (r = Inr () \<longrightarrow> file_at t (place_of (os_cwd s) final) = Some data)"
    using assms(1) unfolding save_io_def
  proof (cases rule: attemptE)
    case (fails e)
    with mk [OF fails(1)] show ?thesis by auto
  next
    case (goes_on x u)
    note u = mk [OF goes_on(1)]
    from goes_on(2) show ?thesis
    proof (cases rule: attemptE)
      case (fails e)
      then obtain e' where f: "CreateTemp names (dir_name final) (base_name final) u = (Inl e', t)" by (auto elim: map_errorE)
      from CreateTemp_fails [OF f] u fails show ?thesis by (auto simp: file_at_def)
    next
      case second: (goes_on tmp v)
      then have c: "CreateTemp names (dir_name final) (base_name final) u = (Inr tmp, v)" by (auto elim: map_errorE)
      have "dir_name final \<noteq> []" by (simp add: dir_name_def clean_path_ne)
      note T = CreateTemp_ok [OF c _ this, unfolded u(1), OF assms(2)]
      have l: "look v (place_of (os_cwd v) tmp) = Some (FileNode [])" using T by simp
      note C = commit_temp_keeps [OF second(2) l]
      have "q \<noteq> place_of (os_cwd s) tmp" using T assms(3) by auto
      then show ?thesis using C T u by (auto simp: file_at_def)
    qed
  qed
  then show "os_cwd t = os_cwd s"
    "q \<noteq> place_of (os_cwd s) final \<or> r \<noteq> Inr () \<Longrightarrow> file_at t q = file_at s q"
    "r = Inr () \<Longrightarrow> file_at t (place_of (os_cwd s) final) = Some data"
    by auto
qed

section \<open>What keeps the payloads\<close>

definition quiet_step :: "catalogue \<Rightarrow> catalogue \<Rightarrow> bool" where
  "quiet_step s t \<longleftrightarrow> ct_memory t = ct_memory s \<and> look (ct_os t) = look (ct_os s) \<and> os_cwd (ct_os t) = os_cwd (ct_os s)"

abbreviation quiet :: "'a shop \<Rightarrow> bool" where "quiet \<equiv> steps_within quiet_step"

lemma quiet_trans: "transp quiet_step"
  by (rule transpI) (auto simp: quiet_step_def)

lemma quiet_give [intro!]: "quiet (give x)" "quiet (refuse e)"
  by (simp_all add: steps_within_def give_def refuse_def quiet_step_def)

lemma quiet_attempt [intro!]: "quiet m \<Longrightarrow> (\<And>x. quiet (k x)) \<Longrightarrow> quiet (attempt m k)"
  by (rule steps_attempt [OF quiet_trans])

lemma quiet_regardless [intro!]: "quiet m \<Longrightarrow> (\<And>x. quiet (k x)) \<Longrightarrow> quiet (regardless m k)"
  by (rule steps_regardless [OF quiet_trans])

lemma quiet_map_error [intro!]: "quiet m \<Longrightarrow> quiet (map_error f m)"
  unfolding steps_within_def map_error_def by (auto split: prod.split sum.split) (metis snd_conv)+

lemma quiet_stmt [intro!]: "quiet (stmt f)" "quiet (exec g)"
  unfolding exec_def stmt_def steps_within_def
  by (auto simp: quiet_step_def Let_def split: list.split prod.split)

lemma quiet_disk:
  assumes "\<And>s r t. m s = (r, t) \<Longrightarrow> look t = look s \<and> os_cwd t = os_cwd s"
  shows "quiet (on_disk m)"
  using assms unfolding steps_within_def quiet_step_def on_disk_def by (auto split: prod.split)

lemma Stat_keeps: "Stat p s = (r, t) \<Longrightarrow> look t = look s \<and> os_cwd t = os_cwd s"
  unfolding Stat_def call_def sys_def
  by (auto simp: refuse_def look_def fun_eq_iff Let_def split: list.splits option.splits)

lemma read_start_keeps: "read_start k n s = (r, t) \<Longrightarrow> look t = look s \<and> os_cwd t = os_cwd s"
  unfolding read_start_def call_def sys_def
  by (auto simp: refuse_def give_def look_def fun_eq_iff Let_def split: list.splits option.splits node.splits)

lemma quiet_calls [intro!]: "quiet (on_disk (Stat p))" "quiet (on_disk (Open p))" "quiet (on_disk sys_step)" "quiet (on_disk (read_start k n))"
  using Stat_keeps sys_step_keeps read_start_keeps by (auto intro!: quiet_disk simp: Open_def)

lemma quiet_mark_row [intro!]: "quiet (mark_row what now row b)"
  unfolding mark_row_def by blast

lemma quiet_marks [intro!]: "quiet (MarkReleaseCached k sz mt)" "quiet (MarkReleaseCacheMissing k reason)"
  using quiet_mark_row unfolding steps_within_def MarkReleaseCached_def MarkReleaseCacheMissing_def by simp_all

lemma quiet_found [intro!]: "quiet (mark_found fs k p n)"
  using quiet_marks(1) unfolding steps_within_def mark_found_def by (simp add: give_def quiet_step_def)

lemma quiet_missing [intro!]: "quiet (report_missing fs k e)"
  unfolding report_missing_def by auto

lemma quiet_FS [intro!]: "quiet (FS_GetNZBReader fs k)" "quiet (FS_Exists fs k)"
  unfolding FS_GetNZBReader_def FS_Exists_def Let_def by (auto split: sum.split)

lemma quiet_report [intro!]: "quiet (report_saved fs k final)"
  unfolding report_saved_def by (auto split: sum.split)

lemma quiet_Mem [intro!]: "quiet (Mem_GetReader w k)" "quiet (Mem_Exists k)"
  by (auto simp: steps_within_def quiet_step_def Mem_GetReader_def Mem_Exists_def split: option.split)

lemma quiet_Exists [intro!]: "quiet (Exists ps k)" and quiet_GetNZBReader [intro!]: "quiet (GetNZBReader ps k)"
  by (cases ps; auto simp: Mem_GetNZBReader_def)+

lemma quiet_ReadAll [intro!]: "quiet (ReadAll r)"
  unfolding ReadAll_def by (auto split: reader.split node.split sum.split)

lemma quiet_result: "quiet m \<Longrightarrow> m s = (r, t) \<Longrightarrow> quiet_step s t"
  unfolding steps_within_def by (metis snd_conv)

lemma on_diskE:
  assumes "on_disk m s = (r, t)"
  obtains d where "m (ct_os s) = (r, d)" "t = s\<lparr>ct_os := d\<rparr>"
  using assms unfolding on_disk_def by (auto split: prod.splits)

section \<open>The stores as maps\<close>

text \<open>What the aggregator, the resolvers and the upload rely on. \<open>wf\<close> is the invariant of the state, \<open>same\<close> says which keys
  name the same payload.\<close>

locale payload_map =
  fixes save :: "string \<Rightarrow> 'd \<Rightarrow> ('s, 'e, unit) op"
    and load :: "string \<Rightarrow> ('s, 'f, 'd) op"
    and holds :: "'s \<Rightarrow> string \<Rightarrow> 'd option"
    and same :: "string \<Rightarrow> string \<Rightarrow> bool"
    and wf :: "'s \<Rightarrow> bool"
  assumes save_wf: "wf s \<Longrightarrow> save k d s = (r, t) \<Longrightarrow> wf t"
    and save_holds: "wf s \<Longrightarrow> save k d s = (Inr u, t) \<Longrightarrow> same k j \<Longrightarrow> holds t j = Some d"
    and save_other: "wf s \<Longrightarrow> save k d s = (r, t) \<Longrightarrow> \<not> same k j \<Longrightarrow> holds t j = holds s j"
    and save_fails: "wf s \<Longrightarrow> save k d s = (Inl e, t) \<Longrightarrow> holds t j = holds s j"
    and load_wf: "wf s \<Longrightarrow> load k s = (q, t) \<Longrightarrow> wf t"
    and load_holds: "wf s \<Longrightarrow> load k s = (Inr d, t) \<Longrightarrow> holds s k = Some d"
    and load_keeps: "wf s \<Longrightarrow> load k s = (q, t) \<Longrightarrow> holds t j = holds s j"
    and same_refl: "same k k"
begin

definition saves :: "(string \<times> 'd) list \<Rightarrow> 's \<Rightarrow> 's" where
  "saves xs s = fold (\<lambda>x s. snd (save (fst x) (snd x) s)) xs s"

lemma saves_simps [simp]: "saves [] s = s" "saves (x # xs) s = saves xs (snd (save (fst x) (snd x) s))"
  by (simp_all add: saves_def)

lemma step_wf: "wf s \<Longrightarrow> wf (snd (save k d s))"
  using save_wf prod.collapse by metis

lemma saves_wf: "wf s \<Longrightarrow> wf (saves xs s)"
  by (induction xs arbitrary: s) (simp_all add: step_wf)

lemma step_whole: "wf s \<Longrightarrow> holds (snd (save k d s)) j = holds s j \<or> same k j \<and> holds (snd (save k d s)) j = Some d"
  by (cases "save k d s"; cases "fst (save k d s)"; cases "same k j")
    (auto dest: save_holds save_other save_fails)

lemma saves_whole: "wf s \<Longrightarrow> holds (saves xs s) j = holds s j \<or> (\<exists>x \<in> set xs. same (fst x) j \<and> holds (saves xs s) j = Some (snd x))"
proof (induction xs arbitrary: s)
  case (Cons x xs)
  from Cons.IH [OF step_wf [OF Cons.prems, of "fst x" "snd x"]] step_whole [OF Cons.prems, of "fst x" "snd x" j]
  show ?case by auto
qed simp

lemma saved_is_loaded:
  assumes "wf s" "save k d s = (Inr u, t)" "load k t = (Inr d', t')"
  shows "d' = d"
  using load_holds [OF save_wf [OF assms(1,2)] assms(3)] save_holds [OF assms(1,2) same_refl] by simp

end

fun stored :: "payload_store \<Rightarrow> catalogue \<Rightarrow> string \<Rightarrow> byte list option" where
  "stored (OnDisk fs) s k = file_at (ct_os s) (place_of (os_cwd (ct_os s)) (pathForNZBKey fs k))"
| "stored InMemory s k = ct_memory s k"

fun same_key :: "payload_store \<Rightarrow> string \<Rightarrow> string \<Rightarrow> string \<Rightarrow> bool" where
  "same_key (OnDisk fs) cwd k j \<longleftrightarrow> place_of cwd (pathForNZBKey fs k) = place_of cwd (pathForNZBKey fs j)"
| "same_key InMemory cwd k j \<longleftrightarrow> k = j"

fun store_ready :: "payload_store \<Rightarrow> string \<Rightarrow> catalogue \<Rightarrow> bool" where
  "store_ready (OnDisk fs) cwd s \<longleftrightarrow> fb_dir fs \<noteq> [] \<and> rooted cwd \<and> os_cwd (ct_os s) = cwd"
| "store_ready InMemory cwd s \<longleftrightarrow> True"

definition fetch_payload :: "payload_store \<Rightarrow> string \<Rightarrow> byte list shop" where
  "fetch_payload ps k = attempt (GetNZBReader ps k) ReadAll"

lemma quiet_fetch [intro!]: "quiet (fetch_payload ps k)"
  unfolding fetch_payload_def by blast

lemma quiet_stored: "quiet_step s t \<Longrightarrow> stored ps t k = stored ps s k" "quiet_step s t \<Longrightarrow> store_ready ps cwd t = store_ready ps cwd s"
  by (cases ps; simp add: quiet_step_def file_at_def)+

lemma FS_save_keeps:
  assumes "FS_SaveNZBAtomically fs k data s = (r, t)" "store_ready (OnDisk fs) cwd s"
  shows "os_cwd (ct_os t) = cwd"
    "\<not> same_key (OnDisk fs) cwd k j \<or> r \<noteq> Inr () \<Longrightarrow> stored (OnDisk fs) t j = stored (OnDisk fs) s j"
    "r = Inr () \<Longrightarrow> same_key (OnDisk fs) cwd k j \<Longrightarrow> stored (OnDisk fs) t j = Some data"
proof -
  define final where "final = pathForNZBKey fs k"
  have cwd: "os_cwd (ct_os s) = cwd" "rooted cwd" "fb_dir fs \<noteq> []" using assms(2) by simp_all
  have nz: "nzb_place (place_of cwd (pathForNZBKey fs i))" for i by (rule nzb_key_place [OF cwd(2,3)])
  have saved: "os_cwd (ct_os u) = cwd \<and> (\<not> same_key (OnDisk fs) cwd k j \<or> x \<noteq> Inr () \<longrightarrow> stored (OnDisk fs) u j = stored (OnDisk fs) s j) \<and>
      (x = Inr () \<longrightarrow> same_key (OnDisk fs) cwd k j \<longrightarrow> stored (OnDisk fs) u j = Some data)"
    if "save_file ''nzb'' ''failed to commit nzb cache file'' final data s = (x, u)" for x u
  proof -
    from that obtain d where d: "save_io (ct_names s) ''nzb'' ''failed to commit nzb cache file'' final data (ct_os s) = (x, d)"
      "u = s\<lparr>ct_os := d\<rparr>" unfolding save_file_def by (rule on_diskE)
    from save_io_keeps [OF d(1) _ nz [of j]] cwd d(2) show ?thesis by (auto simp: final_def)
  qed
  have "os_cwd (ct_os t) = cwd \<and> (\<not> same_key (OnDisk fs) cwd k j \<or> r \<noteq> Inr () \<longrightarrow> stored (OnDisk fs) t j = stored (OnDisk fs) s j) \<and>
      (r = Inr () \<longrightarrow> same_key (OnDisk fs) cwd k j \<longrightarrow> stored (OnDisk fs) t j = Some data)"
    using assms(1) unfolding FS_SaveNZBAtomically_def Let_def final_def [symmetric]
  proof (cases rule: attemptE)
    case (goes_on x u)
    note q = quiet_result [OF quiet_report goes_on(2)]
    have "r = Inr ()" using goes_on(2) by (auto simp: report_saved_def regardless_def give_def split: prod.splits sum.splits)
    then show ?thesis using saved [OF goes_on(1)] q quiet_stored(1) [OF q, of "OnDisk fs" j]
      by (auto simp del: stored.simps simp: quiet_step_def)
  qed (use saved in auto)
  then show "os_cwd (ct_os t) = cwd"
    "\<not> same_key (OnDisk fs) cwd k j \<or> r \<noteq> Inr () \<Longrightarrow> stored (OnDisk fs) t j = stored (OnDisk fs) s j"
    "r = Inr () \<Longrightarrow> same_key (OnDisk fs) cwd k j \<Longrightarrow> stored (OnDisk fs) t j = Some data" by blast+
qed

lemma fetch_loads:
  assumes "fetch_payload ps k s = (Inr b, t)"
  shows "stored ps s k = Some b"
proof -
  from assms obtain r u where r: "GetNZBReader ps k s = (Inr r, u)" "ReadAll r u = (Inr b, t)"
    unfolding fetch_payload_def by (auto elim: attemptE)
  show ?thesis
  proof (cases ps)
    case InMemory
    then show ?thesis using r by (auto simp: Mem_GetNZBReader_def Mem_GetReader_def ReadAll_def give_def split: option.splits)
  next
    case (OnDisk fs)
    let ?p = "pathForNZBKey fs k"
    from r(1) OnDisk obtain x v where o: "on_disk (Open ?p) s = (x, v)"
      and k: "(case x of Inl e \<Rightarrow> regardless (report_missing fs k e) (\<lambda>_. refuse e)
         | Inr n \<Rightarrow> regardless (on_disk sys_step) (\<lambda>stat. case stat of
               Inr _ \<Rightarrow> regardless (mark_found fs k ?p n) (\<lambda>_. give (OpenFile n))
             | Inl _ \<Rightarrow> give (OpenFile n))) v = (Inr r, u)"
      by (auto simp: FS_GetNZBReader_def Let_def elim!: regardlessE)
    show ?thesis
    proof (cases x)
      case (Inl e)
      with k show ?thesis by (auto simp: refuse_def elim!: regardlessE)
    next
      case (Inr n)
      with k have n: "r = OpenFile n" by (auto simp: give_def elim!: regardlessE split: sum.splits)
      from o Inr obtain d where "Open ?p (ct_os s) = (Inr n, d)" by (auto elim: on_diskE)
      from Open_ok [OF this] have l: "look (ct_os s) (place_of (os_cwd (ct_os s)) ?p) = Some n" .
      show ?thesis
      proof (cases n)
        case (FileNode c)
        have "read_start (length c) (FileNode c) d = (Inr b, e) \<Longrightarrow> b = c" for d e
          by (auto simp: read_start_def call_def sys_def give_def refuse_def Let_def split: list.splits option.splits)
        with r(2) n FileNode have "b = c" by (auto simp: ReadAll_def elim!: on_diskE)
        with l FileNode OnDisk show ?thesis by (simp add: file_at_def)
      next
        case DirNode
        have "read_start 0 DirNode d \<noteq> (Inr b, e)" for d e
          by (auto simp: read_start_def call_def sys_def give_def refuse_def Let_def split: list.splits option.splits)
        with r(2) n DirNode show ?thesis by (auto simp: ReadAll_def elim!: on_diskE)
      qed
    qed
  qed
qed

interpretation payloads: payload_map "SaveNZBAtomically ps" "fetch_payload ps" "stored ps" "same_key ps cwd" "store_ready ps cwd"
proof unfold_locales
  fix s t :: catalogue and k j :: string and d :: "byte list" and r u e
  show "same_key ps cwd k k" by (cases ps) simp_all
  show "store_ready ps cwd s \<Longrightarrow> fetch_payload ps k s = (Inr d, t) \<Longrightarrow> stored ps s k = Some d"
    by (rule fetch_loads)
  show "store_ready ps cwd s \<Longrightarrow> fetch_payload ps k s = (r, t) \<Longrightarrow> store_ready ps cwd t" for r :: "go_error + byte list"
    using quiet_stored(2) [OF quiet_result [OF quiet_fetch]] by blast
  show "store_ready ps cwd s \<Longrightarrow> fetch_payload ps k s = (r, t) \<Longrightarrow> stored ps t j = stored ps s j" for r :: "go_error + byte list"
    using quiet_stored(1) [OF quiet_result [OF quiet_fetch]] by blast
  show "store_ready ps cwd s \<Longrightarrow> SaveNZBAtomically ps k d s = (r, t) \<Longrightarrow> store_ready ps cwd t" for r :: "go_error + unit"
    by (cases ps) (auto dest: FS_save_keeps(1))
  show "store_ready ps cwd s \<Longrightarrow> SaveNZBAtomically ps k d s = (Inr u, t) \<Longrightarrow> same_key ps cwd k j \<Longrightarrow> stored ps t j = Some d"
    by (cases ps) (use FS_save_keeps(3) in \<open>auto simp: Mem_SaveAtomically_def simp del: store_ready.simps(1) stored.simps(1) same_key.simps(1)\<close>)
  show "store_ready ps cwd s \<Longrightarrow> SaveNZBAtomically ps k d s = (r, t) \<Longrightarrow> \<not> same_key ps cwd k j \<Longrightarrow> stored ps t j = stored ps s j" for r :: "go_error + unit"
    by (cases ps) (use FS_save_keeps(2) in \<open>auto simp: Mem_SaveAtomically_def simp del: store_ready.simps(1) stored.simps(1) same_key.simps(1)\<close>)
  show "store_ready ps cwd s \<Longrightarrow> SaveNZBAtomically ps k d s = (Inl e, t) \<Longrightarrow> stored ps t j = stored ps s j"
    by (cases ps) (use FS_save_keeps(2) in \<open>auto simp: Mem_SaveAtomically_def simp del: store_ready.simps(1) stored.simps(1) same_key.simps(1)\<close>)
qed

text \<open>C34: An NZB is never torn. Whatever saves came before, and whichever calls of the system failed in them or between
  their steps, what is stored under a key afterwards is what was there, or the whole of a payload that was saved
  under that key.\<close>

theorem nzb_is_never_torn:
  assumes "store_ready ps cwd s"
  shows "stored ps (fold (\<lambda>x s. snd (SaveNZBAtomically ps (fst x) (snd x) s)) xs s) j = stored ps s j \<or>
    (\<exists>x \<in> set xs. same_key ps cwd (fst x) j \<and>
       stored ps (fold (\<lambda>x s. snd (SaveNZBAtomically ps (fst x) (snd x) s)) xs s) j = Some (snd x))"
  using payloads.saves_whole [OF assms, of xs j] by (simp add: payloads.saves_def)

definition demo_shop :: "nat option list \<Rightarrow> catalogue" where
  "demo_shop faults =
     \<lparr>ct_os = \<lparr>os_tree = [([''b''], DirNode), ([''s.nzb''], FileNode [7])], os_cwd = ''/'', os_handles = [], os_faults = faults, os_ctx = []\<rparr>,
      ct_db = \<lparr>cd_blobs = [], cd_releases = []\<rparr>, ct_memory = (\<lambda>_. None), ct_recent = [], ct_faults = [], ct_now = 100,
      ct_mtime = (\<lambda>_. 50), ct_names = [7, 8]\<rparr>"

definition demo_store :: payload_store where "demo_store = OnDisk \<lparr>fb_dir = ''/b'', fb_index = True\<rparr>"

text \<open>The second save fails while it writes its temporary file.\<close>

lemma nzb_is_never_torn_witness:
  "let t = snd (SaveNZBAtomically demo_store ''k.nzb'' [3, 4, 5] (snd (SaveNZBAtomically demo_store ''k'' [1, 2]
      (demo_shop [None, None, None, None, None, None, None, None, None, Some 1]))))
   in stored demo_store t ''k'' = Some [1, 2] \<and> (stored demo_store t ''k'' = None \<or> stored demo_store t ''k'' \<in> {Some [1, 2], Some [3, 4, 5]})"
proof -
  let ?s = "demo_shop [None, None, None, None, None, None, None, None, None, Some 1]"
  let ?t = "snd (SaveNZBAtomically demo_store ''k.nzb'' [3, 4, 5] (snd (SaveNZBAtomically demo_store ''k'' [1, 2] ?s)))"
  have r: "store_ready demo_store ''/'' ?s" by code_simp
  have "stored demo_store ?s ''k'' = None" by code_simp
  moreover have "stored demo_store ?t ''k'' = Some [1, 2]" by code_simp
  ultimately show ?thesis using nzb_is_never_torn [OF r, of "[(''k'', [1, 2]), (''k.nzb'', [3, 4, 5])]" "''k''", simplified]
    unfolding Let_def by blast
qed

section \<open>The index after it has been reconciled\<close>

text \<open>The rows of the keys in \<open>K\<close> say that the blob is there, those of the keys in \<open>M\<close> that it is missing.\<close>

definition rows_say :: "string set \<Rightarrow> string set \<Rightarrow> catalogue \<Rightarrow> bool" where
  "rows_say K M s \<longleftrightarrow> (\<forall>r \<in> set (cd_blobs (ct_db s)). (br_key r \<in> K \<longrightarrow> br_error r = []) \<and> (br_key r \<in> M \<longrightarrow> br_error r \<noteq> []))"

definition blob_keys :: "catalogue \<Rightarrow> string set" where
  "blob_keys s = br_key ` set (cd_blobs (ct_db s))"

lemma exec_ok: "exec f s = (Inr x, t) \<Longrightarrow> ct_db t = f (ct_db s) \<and> ct_os t = ct_os s"
  by (auto simp: exec_def stmt_def Let_def split: list.splits if_splits)

lemma mark_row_ok:
  assumes "mark_row what now row b s = (Inr x, t)"
  shows "cd_blobs (ct_db t) = put_blob row (cd_blobs (ct_db s))" "ct_os t = ct_os s"
proof -
  from assms obtain u where "exec (\<lambda>d. d\<lparr>cd_blobs := put_blob row (cd_blobs d)\<rparr>) s = (Inr (), u)"
      "exec (set_cached now (br_key row) b) u = (Inr x, t)"
    unfolding mark_row_def by (auto elim!: attemptE map_errorE)
  from exec_ok [OF this(1)] exec_ok [OF this(2)]
  show "cd_blobs (ct_db t) = put_blob row (cd_blobs (ct_db s))" "ct_os t = ct_os s" by (simp_all add: set_cached_def)
qed

lemma put_blob_rows: "r \<in> set (put_blob row rows) \<longleftrightarrow> r = row \<or> r \<in> set rows \<and> br_key r \<noteq> br_key row"
  by (auto simp: put_blob_def list_ex_iff split: if_splits)

lemma put_blob_keys: "br_key ` set (put_blob row rows) = insert (br_key row) (br_key ` set rows)"
  unfolding set_eq_iff image_iff Bex_def put_blob_rows insert_iff by blast

lemma mark_found_ok:
  assumes "mark_found \<lparr>fb_dir = [], fb_index = True\<rparr> k p n s = (Inr x, t)" "rows_say K M s"
  shows "rows_say (insert k K) (M - {k}) t" "ct_os t = ct_os s"
proof -
  obtain row where m: "mark_row ''cached'' (ct_now s) row True s = (Inr x, t)" and row: "br_key row = k" "br_error row = []"
    using assms(1) by (auto simp: mark_found_def MarkReleaseCached_def)
  from mark_row_ok [OF m] assms(2) row show "rows_say (insert k K) (M - {k}) t" "ct_os t = ct_os s"
    by (auto simp: rows_say_def put_blob_rows)
qed

lemma report_missing_ok:
  assumes "MarkReleaseCacheMissing k reason s = (Inr x, t)" "rows_say K M s" "k \<notin> K" "reason \<noteq> []"
  shows "rows_say K (insert k M) t" "ct_os t = ct_os s" "blob_keys t = insert k (blob_keys s)"
proof -
  obtain row where m: "mark_row ''missing'' (ct_now s) row False s = (Inr x, t)" and row: "br_key row = k" "br_error row = reason"
    using assms(1) by (auto simp: MarkReleaseCacheMissing_def)
  from mark_row_ok [OF m] assms(2-4) row
  show "rows_say K (insert k M) t" "ct_os t = ct_os s" "blob_keys t = insert k (blob_keys s)"
    by (auto simp: rows_say_def put_blob_rows blob_keys_def put_blob_keys)
qed

lemma mark_absent_ok:
  "mark_absent present ks s = (Inr x, t) \<Longrightarrow> rows_say (set present) M s \<Longrightarrow> M \<inter> set present = {} \<Longrightarrow> set ks \<subseteq> blob_keys s \<Longrightarrow>
   rows_say (set present) (M \<union> (set ks - set present)) t \<and> blob_keys t = blob_keys s \<and> ct_os t = ct_os s"
proof (induction ks arbitrary: s M)
  case Nil
  then have "exec id s = (Inr x, t)" by (auto simp: next_row_def elim: map_errorE)
  with exec_ok [OF this] Nil show ?case by (simp add: rows_say_def blob_keys_def)
next
  case (Cons k ks)
  from Cons.prems(1) obtain y u v where u: "exec id s = (Inr y, u)"
    and v: "(if k \<in> set present then give () else MarkReleaseCacheMissing k ''missing blob on disk'') u = (Inr (), v)"
    and rest: "mark_absent present ks v = (Inr x, t)"
    by (auto simp: next_row_def elim!: attemptE map_errorE)
  have us: "rows_say (set present) M u" "blob_keys u = blob_keys s" "ct_os u = ct_os s"
    using exec_ok [OF u] Cons.prems(2) by (simp_all add: rows_say_def blob_keys_def)
  show ?case
  proof (cases "k \<in> set present")
    case True
    then have "v = u" using v by (simp add: give_def)
    with Cons.IH [OF rest] us Cons.prems True show ?thesis by (auto simp: insert_Diff_if)
  next
    case False
    with v have m: "MarkReleaseCacheMissing k ''missing blob on disk'' u = (Inr (), v)" by simp
    have "blob_keys v = blob_keys s" using report_missing_ok(3) [OF m us(1) False] us(2) Cons.prems(4) by auto
    with Cons.IH [OF rest report_missing_ok(1) [OF m us(1) False]] report_missing_ok(2) [OF m us(1) False] us Cons.prems False
    show ?thesis by (auto simp: insert_Diff_if Un_insert_right)
  qed
qed

text \<open>What \<open>mark_present\<close> reports, when no call of the system fails: the blobs that are there.\<close>

lemma no_fault_Stat: "os_faults s = [] \<Longrightarrow> Stat p s = ((case look s (resolve s p) of None \<Rightarrow> Inl (absent s (resolve s p)) | Some n \<Rightarrow> Inr n), s)"
  by (simp add: Stat_def call_def sys_def split: option.split)

lemma mark_present_ok:
  "mark_present ps s = (Inr ks, t) \<Longrightarrow> os_faults (ct_os s) = [] \<Longrightarrow> rows_say K {} s \<Longrightarrow>
   rows_say (K \<union> set ks) {} t \<and> ct_os t = ct_os s \<and>
   set ks = {blob_id p |p. p \<in> set ps \<and> blob_id p \<noteq> [] \<and> look (ct_os s) (resolve (ct_os s) p) \<noteq> None}"
proof (induction ps arbitrary: s ks K)
  case Nil
  then show ?case by (auto simp: give_def)
next
  case (Cons p ps)
  consider "blob_id p = [] \<or> look (ct_os s) (resolve (ct_os s) p) = None"
    | n where "blob_id p \<noteq> []" "look (ct_os s) (resolve (ct_os s) p) = Some n" by blast
  then show ?case
  proof cases
    case 1
    then have "mark_present ps s = (Inr ks, t)"
      using Cons.prems(1,2) by (auto simp: regardless_def on_disk_def no_fault_Stat split: if_splits)
    from Cons.IH [OF this Cons.prems(2,3)] 1 show ?thesis by auto
  next
    case (2 n)
    then have "attempt (mark_found \<lparr>fb_dir = [], fb_index = True\<rparr> (blob_id p) p n) (\<lambda>_.
        attempt (mark_present ps) (\<lambda>ks. give (blob_id p # ks))) s = (Inr ks, t)"
      using Cons.prems(1,2) by (simp add: regardless_def on_disk_def no_fault_Stat)
    then obtain x u where u: "mark_found \<lparr>fb_dir = [], fb_index = True\<rparr> (blob_id p) p n s = (Inr x, u)"
      and r: "attempt (mark_present ps) (\<lambda>ks. give (blob_id p # ks)) u = (Inr ks, t)"
      by (rule attemptE) auto
    from r obtain ks' where ks: "mark_present ps u = (Inr ks', t)" "ks = blob_id p # ks'" by (auto simp: give_def elim!: attemptE)
    note m = mark_found_ok [OF u Cons.prems(3)]
    from Cons.IH [OF ks(1) _ m(1) [simplified]] m(2) Cons.prems(2) ks(2) 2 show ?thesis by auto
  qed
qed

definition wf_tree :: "os \<Rightarrow> bool" where
  "wf_tree s \<longleftrightarrow> rooted (os_cwd s) \<and> list_all (\<lambda>x. list_all ordinary (fst x)) (os_tree s)"

lemma no_fault_ReadDir:
  assumes "os_faults s = []" "ReadDir p s = (Inr es, t)"
  shows "t = s" "fst ` set es = last ` set (children s (resolve s p))"
  using assms by (auto simp: ReadDir_def call_def sys_def Let_def image_iff split: option.splits node.splits)

lemma glob_ok:
  assumes "glob_nzb dir s = (Inr ps, t)" "os_faults (ct_os s) = []" "look (ct_os s) (resolve (ct_os s) dir) = Some DirNode"
  shows "t = s" "set ps = path_join dir ` {last q |q. q \<in> set (children (ct_os s) (resolve (ct_os s) dir)) \<and> has_suffix ''.nzb'' (last q)}"
proof -
  have st: "Stat dir (ct_os s) = (Inr DirNode, ct_os s)" using no_fault_Stat [OF assms(2)] assms(3) by simp
  obtain es d where rd: "ReadDir dir (ct_os s) = (Inr es, d)"
    using assms(2,3) by (simp add: ReadDir_def call_def sys_def Let_def)
  note D = no_fault_ReadDir [OF assms(2) rd]
  have "t = s \<and> ps = map (path_join dir) (filter (has_suffix ''.nzb'') (map fst es))"
    using assms(1) st rd D by (auto simp: glob_nzb_def regardless_def on_disk_def attempt_def give_def)
  moreover have "{x \<in> fst ` set es. has_suffix ''.nzb'' x} =
      {last q |q. q \<in> set (children (ct_os s) (resolve (ct_os s) dir)) \<and> has_suffix ''.nzb'' (last q)}"
    unfolding D(2) by auto
  ultimately show "t = s" "set ps = path_join dir ` {last q |q. q \<in> set (children (ct_os s) (resolve (ct_os s) dir)) \<and> has_suffix ''.nzb'' (last q)}"
    by (auto simp: image_def)
qed

lemma has_suffix_iff: "has_suffix e s \<longleftrightarrow> (\<exists>x. s = x @ e)"
  unfolding has_suffix_def is_prefix_iff by (metis rev_append rev_rev_ident)

lemma child_of:
  assumes "wf_tree s"
  shows "q \<in> set (children s d) \<longleftrightarrow> (\<exists>e. q = d @ [e] \<and> ordinary e \<and> look s q \<noteq> None)"
proof -
  have "look s q \<noteq> None \<longleftrightarrow> q \<in> fst ` set (os_tree s)" if "q \<noteq> []"
    using that by (simp add: look_def map_of_eq_None_iff)
  moreover have "ordinary (last q)" if "q \<in> fst ` set (os_tree s)" "q \<noteq> []"
    using assms that by (auto simp: wf_tree_def list_all_iff)
  ultimately show ?thesis by (cases q rule: rev_cases) (auto simp: children_def)
qed

lemma blob_id_join: "dir \<noteq> [] \<Longrightarrow> ordinary (k @ ''.nzb'') \<Longrightarrow> blob_id (path_join dir (k @ ''.nzb'')) = k"
proof -
  assume d: "dir \<noteq> []" and o: "ordinary (k @ ''.nzb'')"
  have l: "last (split_slash [] (path_join dir (k @ ''.nzb''))) = k @ ''.nzb''"
    using last_of_join [of dir "[k @ ''.nzb'']"] d o by simp
  have "path_join dir (k @ ''.nzb'') \<noteq> []" using d by (simp add: path_join_def clean_path_ne)
  with place_dir(2) [of "''/''" "path_join dir (k @ ''.nzb'')"] l o
  have "base_name (path_join dir (k @ ''.nzb'')) = k @ ''.nzb''" by (simp add: rooted_def)
  then show ?thesis by (simp add: blob_id_def has_suffix_iff)
qed

lemma present_keys:
  assumes "wf_tree s" "dir \<noteq> []"
    "set ps = path_join dir ` {last q |q. q \<in> set (children s (resolve s dir)) \<and> has_suffix ''.nzb'' (last q)}"
    "set present = {blob_id p |p. p \<in> set ps \<and> blob_id p \<noteq> [] \<and> look s (resolve s p) \<noteq> None}" "k \<noteq> []"
  shows "k \<in> set present \<longleftrightarrow> look s (resolve s dir @ [k @ ''.nzb'']) \<noteq> None"
proof -
  let ?d = "resolve s dir"
  have ps: "p \<in> set ps \<longleftrightarrow> (\<exists>e. p = path_join dir (e @ ''.nzb'') \<and> ordinary (e @ ''.nzb'') \<and> look s (?d @ [e @ ''.nzb'']) \<noteq> None)" for p
    unfolding assms(3) using child_of [OF assms(1), of _ ?d] by (auto simp: has_suffix_iff image_iff) (metis last_snoc)+
  have res: "resolve s (path_join dir (e @ ''.nzb'')) = ?d @ [e @ ''.nzb'']" if "ordinary (e @ ''.nzb'')" for e
    using place_snoc [of "os_cwd s" dir "e @ ''.nzb''"] assms(1,2) that by (simp add: resolve_def wf_tree_def)
  have o: "ordinary (k @ ''.nzb'')" if "look s (?d @ [k @ ''.nzb'']) \<noteq> None"
  proof -
    have "?d @ [k @ ''.nzb''] \<in> fst ` set (os_tree s)" using that by (simp add: look_def map_of_eq_None_iff)
    with assms(1) show ?thesis by (auto simp: wf_tree_def list_all_iff)
  qed
  have "k \<in> set present \<longleftrightarrow> (\<exists>p. p \<in> set ps \<and> k = blob_id p \<and> look s (resolve s p) \<noteq> None)"
    unfolding assms(4) using assms(5) by blast
  also have "\<dots> \<longleftrightarrow> (\<exists>e. k = blob_id (path_join dir (e @ ''.nzb'')) \<and> ordinary (e @ ''.nzb'') \<and> look s (?d @ [e @ ''.nzb'']) \<noteq> None)"
    unfolding ps using res by metis
  also have "\<dots> \<longleftrightarrow> look s (?d @ [k @ ''.nzb'']) \<noteq> None"
    using blob_id_join [OF assms(2)] o by metis
  finally show ?thesis .
qed


definition demo_index :: catalogue where
  "demo_index = (demo_shop [])
     \<lparr>ct_os := \<lparr>os_tree = [([''b''], DirNode), ([''b'', ''x.nzb''], FileNode [7]), ([''b'', ''sub''], DirNode),
        ([''b'', ''sub'', ''y.nzb''], FileNode [8])], os_cwd = ''/'', os_handles = [], os_faults = [], os_ctx = []\<rparr>,
      ct_db := \<lparr>cd_blobs = [\<lparr>br_key = ''sub/y'', br_size = 1, br_mtime = 1, br_verified = 1, br_error = []\<rparr>], cd_releases = []\<rparr>\<rparr>"

definition demo_reconciled :: catalogue where
  "demo_reconciled = snd (ReconcileBlobCacheIndex ''/b'' demo_index)"

lemma demo_reconciled_rows: "ReconcileBlobCacheIndex ''/b'' demo_index = (Inr (), demo_reconciled)"
  "map br_key (cd_blobs (ct_db demo_reconciled)) = [''sub/y'', ''x'']" "map br_error (cd_blobs (ct_db demo_reconciled)) = [''missing blob on disk'', []]"
proof -
  have "fst (ReconcileBlobCacheIndex ''/b'' demo_index) = Inr ()" by code_simp
  then show "ReconcileBlobCacheIndex ''/b'' demo_index = (Inr (), demo_reconciled)" unfolding demo_reconciled_def by (metis prod.collapse)
qed code_simp+


lemma nested_nzb_reported_missing:
  "stored demo_store demo_index ''sub/y'' = Some [8] \<and> br_error (cd_blobs (ct_db demo_reconciled) ! 0) = ''missing blob on disk''"
proof -
  have l: "length (cd_blobs (ct_db demo_reconciled)) = 2" using arg_cong [OF demo_reconciled_rows(2), of length] by simp
  have "stored demo_store demo_index ''sub/y'' = Some [8]" by code_simp
  then show ?thesis using arg_cong [OF demo_reconciled_rows(3), of "\<lambda>x. x ! 0"] l by simp
qed

section \<open>Keys that leave the directory of the blobs\<close>

text \<open>A key is joined to the directory without a check: dot-dot leads out of it.\<close>

lemma nzb_key_leaves_the_store:
  assumes "rooted cwd" "fb_dir fs \<noteq> []" "place_of cwd (fb_dir fs) = d @ [e]" "ordinary name" "list_all plain name"
    "\<not> has_suffix ''.nzb'' (to_lower (''../'' @ name))"
  shows "place_of cwd (pathForNZBKey fs (''../'' @ name)) = d @ [name @ ''.nzb'']"
proof -
  have pl: "list_all plain (''../'' @ name)" using assms(5) by (simp add: plain_def)
  have o: "ordinary (name @ ''.nzb'')" using assms(4) by (auto simp: ordinary_def append_eq_Cons_conv)
  have s: "split_slash [] (''../'' @ name @ ''.nzb'') = [''..'', name @ ''.nzb'']"
    using split_slash_plain [of "name @ ''.nzb''" "[]" "[]"] o by (simp add: ordinary_def)
  have key: "pathForNZBKey fs (''../'' @ name) = path_join (fb_dir fs) (''../'' @ name @ ''.nzb'')"
    using assms(6) trim_space_plain [OF pl] by (simp add: pathForNZBKey_def trim_prefix_def Let_def)
  let ?p = "fb_dir fs @ CHR ''/'' # ''../'' @ name @ ''.nzb''"
  have pj: "path_join (fb_dir fs) (''../'' @ name @ ''.nzb'') = clean_path ?p" using assms(2) by (simp add: path_join_def)
  have st: "start_of cwd ?p = start_of cwd (fb_dir fs)" using assms(2) by (cases "fb_dir fs") (simp_all add: start_of_def rooted_def)
  have "place_of cwd ?p = clean_elems True (start_of cwd ?p) (split_slash [] (fb_dir fs) @ [''..'', name @ ''.nzb''])"
    using assms(1) s by (simp add: place_elems split_slash_append)
  also have "\<dots> = clean_elems True (rev (d @ [e])) [''..'', name @ ''.nzb'']"
  proof -
    have app: "clean_elems True out (xs @ ys) = clean_elems True (rev (clean_elems True out xs)) ys" for out xs ys
      by (induction True out xs rule: clean_elems.induct) (auto split: list.split)
    show ?thesis unfolding app st using assms(3) by (simp add: place_elems [OF assms(1)])
  qed
  also have "\<dots> = d @ [name @ ''.nzb'']"
  proof -
    have "ordinary e" using place_ordinary [OF assms(1), of "fb_dir fs"] assms(3) by simp
    then show ?thesis using o by (simp add: ordinary_def)
  qed
  finally show ?thesis using key pj place_clean [OF assms(1), of ?p] by simp
qed


section \<open>Unknown releases\<close>

text \<open>The lookup of a release that is not in the table was meant to answer with no release and no error.\<close>

lemma unknown_release_is_an_error:
  assumes "ct_faults s = []" "list_all (\<lambda>r. cr_id r \<noteq> k) (cd_releases (ct_db s))"
  shows "fst (GetAggregatorReleaseCacheByID k s) = Inl (scan_error ErrNoRows)"
proof -
  have "find (\<lambda>r. cr_id r = k) (cd_releases (ct_db s)) = None" using assms(2) by (simp add: find_None_iff list_all_iff)
  then show ?thesis using assms(1)
    by (simp add: GetAggregatorReleaseCacheByID_def stmt_def regardless_def scan_found_def scan_error_def ErrNoRows_def refuse_def)
qed

end
