(* ===== verification/Aggregator_Props.thy ===== *)
theory Aggregator_Props
  imports Aggregator Blob_Props
begin

text \<open>
  What the aggregator answers: the results of a search are the reported releases, each once, and can be looked up until
  the next search; what is fetched is the stored payload or that of the source.
\<close>

section \<open>Merging\<close>

definition merged_ok :: "merged \<Rightarrow> bool" where
  "merged_ok acc \<longleftrightarrow> distinct (map fst acc) \<and> (\<forall>x \<in> set acc. rel_ID (snd x) = fst x \<and> fst x \<noteq> [])"

text \<open>\<open>acc\<close> stands for the releases in \<open>S\<close>: their ids, and for each whether one of them is cached.\<close>

definition stands_for :: "merged \<Rightarrow> release set \<Rightarrow> bool" where
  "stands_for acc S \<longleftrightarrow> merged_ok acc \<and> fst ` set acc = rel_ID ` S - {[]} \<and>
     (\<forall>k r. map_of acc k = Some r \<longrightarrow> rel_CachePresent r = (\<exists>x \<in> S. rel_ID x = k \<and> rel_CachePresent x))"

lemma mergeRelease_fields [simp]:
  "rel_CachePresent (mergeRelease a b p) = (rel_CachePresent a \<or> rel_CachePresent b)"
  "rel_ID (mergeRelease a b p) = (if p then rel_ID b else rel_ID a)"
  by (simp_all add: mergeRelease_def Let_def)

lemma update_set: "distinct (map fst acc) \<Longrightarrow> set (AList.update k v acc) = insert (k, v) {x \<in> set acc. fst x \<noteq> k}"
  by (induction acc) (auto simp: image_iff)

lemma merged_lookup: "merged_ok acc \<Longrightarrow> map_of acc k = Some r \<Longrightarrow> rel_ID r = k \<and> k \<noteq> []"
  by (auto simp: merged_ok_def dest: map_of_SomeD)

lemma stands_for_add:
  assumes "stands_for acc S"
  shows "stands_for (addOrMerge sha p rel acc) (insert (with_id sha rel) S)"
proof (cases "rel_ID (with_id sha rel) = []")
  case True
  with assms show ?thesis
    by (auto simp: addOrMerge_def stands_for_def merged_ok_def dest!: map_of_SomeD)
next
  case False
  let ?r = "with_id sha rel"
  let ?v = "case map_of acc (rel_ID ?r) of Some old \<Rightarrow> mergeRelease old ?r p | None \<Rightarrow> ?r"
  have a: "addOrMerge sha p rel acc = AList.update (rel_ID ?r) ?v acc" using False by (simp add: addOrMerge_def Let_def)
  have d: "distinct (map fst acc)" and ok: "merged_ok acc" using assms by (auto simp: stands_for_def merged_ok_def)
  have v: "rel_ID ?v = rel_ID ?r" using merged_lookup [OF ok, of "rel_ID ?r"] by (cases "map_of acc (rel_ID ?r)") auto
  have "merged_ok (AList.update (rel_ID ?r) ?v acc)"
    using ok v False unfolding merged_ok_def update_set [OF d] by (simp add: distinct_update)
  moreover have "fst ` set (AList.update (rel_ID ?r) ?v acc) = rel_ID ` insert ?r S - {[]}"
  proof -
    have "fst ` set (AList.update (rel_ID ?r) ?v acc) = insert (rel_ID ?r) (fst ` set acc)"
      unfolding update_set [OF d] by (auto simp: image_iff)
    with assms False show ?thesis by (auto simp: stands_for_def)
  qed
  moreover have "rel_CachePresent r = (\<exists>x \<in> insert ?r S. rel_ID x = k \<and> rel_CachePresent x)"
    if "map_of (AList.update (rel_ID ?r) ?v acc) k = Some r" for k r
  proof (cases "k = rel_ID ?r")
    case True
    have none: "\<not> (\<exists>x \<in> S. rel_ID x = rel_ID ?r)" if "map_of acc (rel_ID ?r) = None"
    proof -
      have "rel_ID ?r \<notin> fst ` set acc" using that by (simp add: map_of_eq_None_iff)
      with assms have "rel_ID ?r \<notin> rel_ID ` S - {[]}" by (simp add: stands_for_def)
      with False show ?thesis by (metis Diff_iff imageI singletonD)
    qed
    have "r = ?v" using that True by (simp add: update_conv')
    with True assms none show ?thesis by (cases "map_of acc (rel_ID ?r)") (auto simp: stands_for_def)
  next
    case False
    with that assms show ?thesis by (auto simp: update_conv' stands_for_def)
  qed
  ultimately show ?thesis unfolding stands_for_def a by blast
qed

lemma stands_for_fold:
  "stands_for acc S \<Longrightarrow> stands_for (fold (addOrMerge sha p) rs acc) (S \<union> with_id sha ` set rs)"
proof (induction rs arbitrary: acc S)
  case (Cons r rs)
  from Cons.IH [OF stands_for_add [OF Cons.prems]] show ?case by (simp add: insert_is_Un [symmetric] Un_assoc [symmetric])
qed simp

lemma stands_for_answers:
  "stands_for acc S \<Longrightarrow>
   stands_for (fold (\<lambda>res acc. fold (addOrMerge sha p) res acc) answers acc) (S \<union> with_id sha ` (\<Union>(set ` set answers)))"
proof (induction answers arbitrary: acc S)
  case (Cons r rs)
  from Cons.IH [OF stands_for_fold [OF Cons.prems]] show ?case by (simp add: image_Un Un_assoc)
qed simp

definition reported :: "(string \<Rightarrow> string) \<Rightarrow> release list \<Rightarrow> release list list \<Rightarrow> release set" where
  "reported sha hits answers = with_id sha ` (set hits \<union> \<Union>(set ` set answers))"

lemma merge_answers_ok:
  "distinct (map rel_ID (merge_answers sha hits answers))"
  "rel_ID ` set (merge_answers sha hits answers) = rel_ID ` reported sha hits answers - {[]}"
  "r \<in> set (merge_answers sha hits answers) \<Longrightarrow>
   rel_CachePresent r = (\<exists>x \<in> reported sha hits answers. rel_ID x = rel_ID r \<and> rel_CachePresent x)"
proof -
  let ?acc = "fold (\<lambda>res acc. fold (addOrMerge sha True) res acc) answers (fold (addOrMerge sha False) hits [])"
  have "stands_for [] {}" by (simp add: stands_for_def merged_ok_def)
  from stands_for_answers [OF stands_for_fold [OF this]]
  have s: "stands_for ?acc (reported sha hits answers)" by (simp add: reported_def image_Un)
  have m: "map rel_ID (merge_answers sha hits answers) = map fst ?acc"
    using s unfolding merge_answers_def by (auto simp: stands_for_def merged_ok_def)
  from s m show "distinct (map rel_ID (merge_answers sha hits answers))" by (simp add: stands_for_def merged_ok_def)
  from s m show "rel_ID ` set (merge_answers sha hits answers) = rel_ID ` reported sha hits answers - {[]}"
    unfolding stands_for_def by (metis list.set_map)
  assume "r \<in> set (merge_answers sha hits answers)"
  then obtain k where "(k, r) \<in> set ?acc" unfolding merge_answers_def by auto
  moreover from this s have "rel_ID r = k" "map_of ?acc k = Some r" by (auto simp: stands_for_def merged_ok_def)
  ultimately show "rel_CachePresent r = (\<exists>x \<in> reported sha hits answers. rel_ID x = rel_ID r \<and> rel_CachePresent x)"
    using s by (simp add: stands_for_def)
qed

section \<open>Searching\<close>

lemma ask_sources_total: "\<exists>answers t. ask_sources sha req srcs s = (Inr answers, t)"
proof (induction srcs arbitrary: s)
  case (Cons x xs)
  from Cons.IH [of "snd (so_search x req s)"] show ?case by (auto simp: regardless_eq attempt_def give_def)
qed (simp add: give_def)

text \<open>What was remembered is not touched by the statements of the database and by reading and saving payloads.\<close>

abbreviation keeps_recent :: "(catalogue \<Rightarrow> ('e + 'a) \<times> catalogue) \<Rightarrow> bool" where
  "keeps_recent m \<equiv> steps_within (\<lambda>s t. ct_recent t = ct_recent s) m"

lemma recent_trans: "transp (\<lambda>s t. ct_recent t = ct_recent s)" by (simp add: transp_def)

lemma recent_give [intro!]: "keeps_recent (give x)" "keeps_recent (refuse e)"
  by (simp_all add: steps_within_def give_def refuse_def)

lemma recent_attempt [intro!]: "keeps_recent m \<Longrightarrow> (\<And>x. keeps_recent (k x)) \<Longrightarrow> keeps_recent (attempt m k)"
  by (rule steps_attempt [OF recent_trans])

lemma recent_regardless [intro!]: "keeps_recent m \<Longrightarrow> (\<And>x. keeps_recent (k x)) \<Longrightarrow> keeps_recent (regardless m k)"
  by (rule steps_regardless [OF recent_trans])

lemma recent_map_error [intro!]: "keeps_recent m \<Longrightarrow> keeps_recent (map_error f m)"
  by (auto simp: steps_within_def map_error_def split: prod.split sum.split) (metis snd_conv)+

lemma recent_stmt [intro!]: "keeps_recent (stmt f)" "keeps_recent (exec g)"
  by (auto simp: steps_within_def exec_def stmt_def Let_def split: list.split prod.split)

lemma recent_disk [intro!]: "keeps_recent (on_disk m)"
  by (simp add: steps_within_def on_disk_def split: prod.split)

lemma recent_transaction [intro!]: "keeps_recent m \<Longrightarrow> keeps_recent (transaction m)"
proof -
  assume "keeps_recent m"
  then have "keeps_recent (attempt (exec id) (\<lambda>_. attempt m (\<lambda>_. exec id)))" by auto
  then show "keeps_recent (transaction m)"
    by (auto simp: steps_within_def transaction_def split: prod.split sum.split) (metis snd_conv)+
qed

lemma recent_upsert [intro!]: "keeps_recent (UpsertAggregatorReleaseCache rs)"
proof -
  have row: "keeps_recent (\<lambda>s. map_error f (exec (g s)) s)" for f :: "go_error \<Rightarrow> go_error" and g
    unfolding steps_within_def
  proof
    fix s
    from recent_map_error [OF recent_stmt(2) [of "g s"], of f]
    show "ct_recent (snd (map_error f (exec (g s)) s)) = ct_recent s" by (simp add: steps_within_def)
  qed
  have "keeps_recent (upsert_each rs)" by (induction rs) (auto intro: row)
  then show ?thesis unfolding UpsertAggregatorReleaseCache_def by auto
qed

section \<open>What a search returns\<close>

lemma remember_ok: "remember rs s = (r, t) \<Longrightarrow> r = Inr () \<and> ct_recent t = map (\<lambda>r. (rel_ID r, r)) (filter (\<lambda>r. rel_ID r \<noteq> []) rs)"
  by (auto simp: remember_def)

text \<open>The steps of a search: the hits of the cache, the answers of the sources, what is remembered.\<close>

lemma publish_steps:
  assumes "publish_results ag rs s = (r, t)"
  shows "r = Inr rs \<and> ct_recent t = map (\<lambda>r. (rel_ID r, r)) (filter (\<lambda>r. rel_ID r \<noteq> []) rs)"
proof -
  let ?save = "if ag_persist ag \<and> rs \<noteq> [] then UpsertAggregatorReleaseCache rs else give ()"
  from assms obtain u where u: "remember rs s = (Inr (), u)" "regardless ?save (\<lambda>_. give rs) u = (r, t)"
    unfolding publish_results_def by (auto simp: remember_def elim: attemptE)
  have "keeps_recent ?save" by auto
  with u(2) have "ct_recent t = ct_recent u" "r = Inr rs" by (auto simp: steps_within_def regardless_eq give_def)
  with remember_ok [OF u(1)] show ?thesis by simp
qed

lemma search_steps:
  assumes "SearchAllWithRequest sha arrival ag request s = (r, t)"
  obtains hits answers s1 s2 where
    "cached_hits ag (toSearchRequest request) s = (Inr hits, s1)"
    "ask_sources sha (toSearchRequest request) (arrival (ag_sources ag)) s1 = (Inr answers, s2)"
    "r = Inr (merge_answers sha hits answers)"
    "ct_recent t = map (\<lambda>r. (rel_ID r, r)) (filter (\<lambda>r. rel_ID r \<noteq> []) (merge_answers sha hits answers))"
proof -
  obtain hits s1 where h: "cached_hits ag (toSearchRequest request) s = (Inr hits, s1)"
  proof (cases "ag_persist ag \<and> sr_Type (toSearchRequest request) = ''search'' \<and> sr_Query (toSearchRequest request) \<noteq> []")
    case True
    then show ?thesis using that by (auto simp: cached_hits_def give_def regardless_eq)
  next
    case False
    then show ?thesis using that by (auto simp: cached_hits_def give_def)
  qed
  obtain answers s2 where a: "ask_sources sha (toSearchRequest request) (arrival (ag_sources ag)) s1 = (Inr answers, s2)"
    using ask_sources_total by blast
  from assms h a have "publish_results ag (merge_answers sha hits answers) s2 = (r, t)"
    by (simp add: SearchAllWithRequest_def Let_def attempt_def)
  from publish_steps [OF this] show thesis using that [OF h a] by simp
qed


lemma recent_marks [intro!]: "keeps_recent (mark_found fs k p n)" "keeps_recent (report_missing fs k e)"
proof -
  have m: "keeps_recent (mark_row what now row b)" for what now row b unfolding mark_row_def by auto
  show "keeps_recent (report_missing fs k e)"
    using m by (auto simp: report_missing_def MarkReleaseCacheMissing_def steps_within_def give_def)
  show "keeps_recent (mark_found fs k p n)"
    using m by (auto simp: mark_found_def MarkReleaseCached_def steps_within_def give_def)
qed

lemma recent_payloads [intro!]:
  "keeps_recent (Exists ps k)" "keeps_recent (GetNZBReader ps k)" "keeps_recent (SaveNZBAtomically ps k d)" "keeps_recent (ReadAll x)"
proof -
  have mem: "keeps_recent (Mem_Exists k)" "keeps_recent (Mem_GetReader w k)" "keeps_recent (Mem_SaveAtomically k d)" for w
    by (auto simp: steps_within_def Mem_Exists_def Mem_GetReader_def Mem_SaveAtomically_def split: option.split)
  have save: "keeps_recent (save_file a b c d)" for a b c by (simp add: steps_within_def save_file_def on_disk_def split: prod.split)
  show "keeps_recent (Exists ps k)"
    by (cases ps) (auto simp: mem FS_Exists_def Let_def split: sum.split)
  show "keeps_recent (GetNZBReader ps k)"
    by (cases ps) (auto simp: mem FS_GetNZBReader_def Mem_GetNZBReader_def Let_def split: sum.split)
  show "keeps_recent (SaveNZBAtomically ps k d)"
    by (cases ps) (auto simp: mem FS_SaveNZBAtomically_def report_saved_def Let_def intro!: save split: sum.split)
  show "keeps_recent (ReadAll x)"
    by (auto simp: ReadAll_def split: reader.split node.split sum.split)
qed

lemma recent_fetch [intro!]:
  assumes "\<And>src rel. src \<in> set (ag_sources ag) \<Longrightarrow> keeps_recent (so_get src rel)"
  shows "keeps_recent (AG_GetNZB ag rel)"
proof -
  have serve: "keeps_recent (serve_cached ag r)" for r
    unfolding serve_cached_def persist_flag_def Let_def by auto
  have "keeps_recent (fetch_from ag src r)" if "src \<in> set (ag_sources ag)" for src r
    unfolding fetch_from_def using serve assms [OF that] by (auto split: sum.split)
  then show ?thesis unfolding AG_GetNZB_def using serve
    by (auto simp: find_Some_iff split: option.split)
qed

abbreviation fetch_all :: "aggregator \<Rightarrow> release list \<Rightarrow> catalogue \<Rightarrow> catalogue" where
  "fetch_all ag rels \<equiv> fold (\<lambda>rel s. snd (AG_GetNZB ag (Some rel) s)) rels"

lemma fetch_all_recent:
  assumes "\<And>src rel. src \<in> set (ag_sources ag) \<Longrightarrow> keeps_recent (so_get src rel)"
  shows "ct_recent (fetch_all ag rels t) = ct_recent t"
  by (induction rels arbitrary: t) (use recent_fetch [OF assms] in \<open>auto simp: steps_within_def\<close>)

text \<open>C31: The results of a search are the releases that the cache and the sources have reported, each id once; a result is
  marked as cached exactly when one of the reports with its id says so. Until the next search, whatever is fetched in
  between, the id of a result leads back to that result.\<close>

theorem search_results:
  assumes "SearchAllWithRequest sha arrival ag req s = (r, t)"
    "\<forall>src \<in> set (ag_sources ag). \<forall>rel. keeps_recent (so_get src rel)"
  shows "\<exists>hits s1 answers s2 results. cached_hits ag (toSearchRequest req) s = (Inr hits, s1) \<and>
    ask_sources sha (toSearchRequest req) (arrival (ag_sources ag)) s1 = (Inr answers, s2) \<and> r = Inr results \<and>
    distinct (map rel_ID results) \<and> rel_ID ` set results = rel_ID ` reported sha hits answers - {[]} \<and>
    (\<forall>x \<in> set results.
       rel_CachePresent x = (\<exists>y \<in> reported sha hits answers. rel_ID y = rel_ID x \<and> rel_CachePresent y) \<and>
       fst (GetResultByID ag (rel_ID x) (fetch_all ag rels t)) = Inr (Some x))"
proof -
  obtain hits answers s1 s2 where st: "cached_hits ag (toSearchRequest req) s = (Inr hits, s1)"
    "ask_sources sha (toSearchRequest req) (arrival (ag_sources ag)) s1 = (Inr answers, s2)"
    "r = Inr (merge_answers sha hits answers)"
    "ct_recent t = map (\<lambda>r. (rel_ID r, r)) (filter (\<lambda>r. rel_ID r \<noteq> []) (merge_answers sha hits answers))"
    by (rule search_steps [OF assms(1)])
  let ?rs = "merge_answers sha hits answers"
  have "fst (GetResultByID ag (rel_ID x) (fetch_all ag rels t)) = Inr (Some x)" if x: "x \<in> set ?rs" for x
  proof -
    have "rel_ID x \<noteq> []" using merge_answers_ok(2) [of sha hits answers] x by auto
    then have "(rel_ID x, x) \<in> set (ct_recent t)" using x st(4) by auto
    moreover have "distinct (map fst (ct_recent t))"
      using st(4) merge_answers_ok(1) [of sha hits answers] by (simp add: comp_def distinct_map_filter)
    ultimately have "map_of (ct_recent t) (rel_ID x) = Some x" by simp
    then show ?thesis using fetch_all_recent [of ag rels t] assms(2) by (simp add: GetResultByID_def)
  qed
  then have c: "\<forall>x \<in> set ?rs. rel_CachePresent x = (\<exists>y \<in> reported sha hits answers. rel_ID y = rel_ID x \<and> rel_CachePresent y) \<and>
       fst (GetResultByID ag (rel_ID x) (fetch_all ag rels t)) = Inr (Some x)"
    using merge_answers_ok(3) by simp
  show ?thesis
    by (rule exI [of _ hits], rule exI [of _ s1], rule exI [of _ answers], rule exI [of _ s2], rule exI [of _ ?rs])
      (intro conjI st(1-3) merge_answers_ok(1,2) c)
qed


section \<open>Links of earlier searches\<close>

lemma row_keeps_no_link: "rel_DownloadURL (release_of_row r) = [] \<and> \<not> rel_RedirectAllowed (release_of_row r)"
  by (simp add: release_of_row_def empty_release_def)

lemma persisted_has_no_link:
  assumes "GetAggregatorReleaseCacheByID k s = (Inr (Some rel), t)"
  shows "rel_DownloadURL rel = [] \<and> \<not> rel_RedirectAllowed rel"
  using assms row_keeps_no_link
  by (auto simp: GetAggregatorReleaseCacheByID_def regardless_eq scan_found_def give_def refuse_def split: sum.splits option.splits if_splits)

text \<open>C32: The link of a release is remembered until the next search only: when a later search does not report the release
  again, looking it up finds it in the table of search results without its link, and unless its NZB is cached the
  download fails, since the client asks the indexer for an empty address.\<close>

theorem later_search_forgets_link:
  assumes "SearchAllWithRequest sha arrival ag req s = (Inr results, t)" "k \<notin> rel_ID ` set results"
    "GetResultByID ag k t = (Inr (Some rel), u)" "ag_cache ag \<Longrightarrow> fst (Exists (ag_store ag) (rel_ID rel) u) = Inr False"
    "find (\<lambda>x. so_name x = rel_Source rel) (ag_sources ag) = Some (newznab_source sha w c)"
    "\<And>params. isl (wb_get w [] None params)"
  shows "rel_DownloadURL rel = [] \<and> (\<exists>e v. AG_GetNZB ag (Some rel) u = (Inr (Some rel, Inl e), v))"
proof -
  obtain hits answers s1 s2 where st: "cached_hits ag (toSearchRequest req) s = (Inr hits, s1)"
    "ask_sources sha (toSearchRequest req) (arrival (ag_sources ag)) s1 = (Inr answers, s2)"
    "Inr results = (Inr (merge_answers sha hits answers) :: go_error + release list)"
    "ct_recent t = map (\<lambda>r. (rel_ID r, r)) (filter (\<lambda>r. rel_ID r \<noteq> []) (merge_answers sha hits answers))"
    by (rule search_steps [OF assms(1)])
  from st(3,4) assms(2) have "map_of (ct_recent t) k = None" by (auto simp: map_of_eq_None_iff)
  with assms(3) have "GetAggregatorReleaseCacheByID k t = (Inr (Some rel), u)" by (auto simp: GetResultByID_def split: if_splits)
  from persisted_has_no_link [OF this] have l: "rel_DownloadURL rel = []" by simp
  obtain v where e: "(if ag_cache ag then Exists (ag_store ag) (rel_ID rel) else give False) u = (Inr False, v)"
    using assms(4) by (cases "ag_cache ag") (auto simp: give_def prod_eq_iff)
  from assms(6) [of "[(''apikey'', nc_APIKey c)]"] obtain x where "wb_get w [] None [(''apikey'', nc_APIKey c)] = Inl x"
    by (auto elim: isl_def [THEN iffD1, elim_format])
  with l have "so_get (newznab_source sha w c) rel v = (Inl x, v)" by (simp add: newznab_source_def nz_GetNZB_def refuse_def)
  then have "fetch_from ag (newznab_source sha w c) rel v = (Inr (Some rel, Inl (Wrapped ''failed to fetch nzb from source'' x)), v)"
    by (simp add: fetch_from_def regardless_def give_def)
  with e assms(5) l show ?thesis by (simp add: AG_GetNZB_def attempt_def)
qed

section \<open>What is fetched\<close>

lemma quiet_transaction [intro!]: "quiet m \<Longrightarrow> quiet (transaction m)"
proof -
  assume "quiet m"
  then have "quiet (attempt (exec id) (\<lambda>_. attempt m (\<lambda>_. exec id)))" by auto
  then show "quiet (transaction m)"
    by (auto simp: steps_within_def transaction_def quiet_step_def split: prod.split sum.split) (metis snd_conv)+
qed

lemma quiet_upsert [intro!]: "quiet (UpsertAggregatorReleaseCache rs)"
proof -
  have row: "quiet (\<lambda>s. map_error f (exec (g s)) s)" for f :: "go_error \<Rightarrow> go_error" and g
    unfolding steps_within_def
  proof
    fix s
    from quiet_map_error [OF quiet_stmt(2) [of "g s"], of f]
    show "quiet_step s (snd (map_error f (exec (g s)) s))" by (simp add: steps_within_def)
  qed
  have "quiet (upsert_each rs)" by (induction rs) (auto intro: row)
  then show ?thesis unfolding UpsertAggregatorReleaseCache_def by auto
qed

lemma quiet_flag [intro!]: "quiet (persist_flag ag rel)"
  unfolding persist_flag_def by auto

text \<open>A payload served from the store is the stored one.\<close>

lemma serve_cached_loads:
  assumes "serve_cached ag rel s = (Inr (rel', Inr rd), t)" "ReadAll rd t = (Inr b, u)" "store_ready (ag_store ag) cwd s"
  shows "stored (ag_store ag) s (rel_ID rel) = Some b \<and> stored (ag_store ag) u (rel_ID rel) = Some b"
proof -
  let ?ps = "ag_store ag"
  from assms(1) obtain v where v: "persist_flag ag (rel\<lparr>rel_CachePresent := True\<rparr>) s = (Inr (), v)"
    and g: "GetNZBReader ?ps (rel_ID rel) v = (Inr rd, t)"
    by (auto simp: serve_cached_def Let_def give_def elim!: attemptE regardlessE)
  have q: "quiet_step s v" using quiet_result [OF quiet_flag v] .
  have "fetch_payload ?ps (rel_ID rel) v = (Inr b, u)" using g assms(2) by (simp add: fetch_payload_def attempt_def)
  with quiet_stored [OF q, of ?ps] assms(3) have "stored ?ps v (rel_ID rel) = Some b" "stored ?ps u (rel_ID rel) = stored ?ps v (rel_ID rel)"
    using payloads.load_holds payloads.load_keeps by metis+
  with quiet_stored(1) [OF q, of ?ps] show ?thesis by simp
qed

text \<open>What the aggregator fetches, with its cache enabled, is the payload stored under the id of the release or what
  the source of the release answered; and whatever came from the source and is reported as cached is stored under
  the id afterwards.\<close>

theorem fetched_nzb_is_cached_or_sources:
  assumes "store_ready (ag_store ag) cwd s" "ag_cache ag" "\<forall>src \<in> set (ag_sources ag). quiet (so_get src rel)"
    "AG_GetNZB ag (Some rel) s = (Inr (rel', Inr rd), t)" "ReadAll rd t = (Inr b, u)"
  shows "(stored (ag_store ag) s (rel_ID rel) = Some b \<or>
     (\<exists>src \<in> set (ag_sources ag). so_name src = rel_Source rel \<and>
        (\<exists>s1 body s2 s3. so_get src rel s1 = (Inr body, s2) \<and> ReadAll body s2 = (Inr b, s3)))) \<and>
    (\<forall>x. rel' = Some x \<and> rel_CachePresent x \<and> \<not> rel_CachePresent rel \<longrightarrow> stored (ag_store ag) u (rel_ID rel) = Some b)"
proof -
  let ?ps = "ag_store ag"
  from assms(2,4) obtain present s0 where e: "Exists ?ps (rel_ID rel) s = (Inr present, s0)"
    and k: "(if present then serve_cached ag rel
       else (case find (\<lambda>x. so_name x = rel_Source rel) (ag_sources ag) of
           None \<Rightarrow> give (Some rel, Inl (Message (''aggregator source '' @ rel_Source rel @ '' not found'')))
         | Some src \<Rightarrow> fetch_from ag src rel)) s0 = (Inr (rel', Inr rd), t)"
    by (auto simp: AG_GetNZB_def elim!: attemptE)
  note q0 = quiet_stored [OF quiet_result [OF quiet_Exists e], of ?ps]
  show ?thesis
  proof (cases present)
    case True
    with k have "serve_cached ag rel s0 = (Inr (rel', Inr rd), t)" by simp
    from serve_cached_loads [OF this assms(5)] q0 assms(1) show ?thesis by simp
  next
    case False
    with k obtain src where f: "find (\<lambda>x. so_name x = rel_Source rel) (ag_sources ag) = Some src"
      and g: "fetch_from ag src rel s0 = (Inr (rel', Inr rd), t)"
      by (auto simp: give_def split: option.splits)
    from f have src: "src \<in> set (ag_sources ag)" "so_name src = rel_Source rel" by (auto simp: find_Some_iff)
    from g assms(2) obtain body s2 where b: "so_get src rel s0 = (Inr body, s2)"
      and h: "regardless (ReadAll body) (\<lambda>r. case r of
            Inl e \<Rightarrow> give (Some rel, Inl (Wrapped ''failed reading nzb payload'' e))
          | Inr payload \<Rightarrow> regardless (SaveNZBAtomically ?ps (rel_ID rel) payload) (\<lambda>r. case r of
              Inl _ \<Rightarrow> give (Some rel, Inr (Buffer payload))
            | Inr _ \<Rightarrow> serve_cached ag rel)) s2 = (Inr (rel', Inr rd), t)"
      by (auto simp: fetch_from_def give_def elim!: regardlessE split: sum.splits)
    from h obtain p s3 r s4 where p: "ReadAll body s2 = (Inr p, s3)" and sv: "SaveNZBAtomically ?ps (rel_ID rel) p s3 = (r, s4)"
      and i: "(case r of Inl _ \<Rightarrow> give (Some rel, Inr (Buffer p)) | Inr _ \<Rightarrow> serve_cached ag rel) s4 = (Inr (rel', Inr rd), t)"
      by (auto simp: give_def elim!: regardlessE split: sum.splits)
    have "store_ready ?ps cwd s3"
      using quiet_stored(2) [OF quiet_result [OF quiet_ReadAll p]] quiet_stored(2) [OF quiet_result [of "so_get src rel", OF _ b]] assms(1,3) src(1) q0(2) by blast
    note w = this payloads.save_wf [OF this sv]
    show ?thesis
    proof (cases r)
      case (Inl e)
      with i assms(5) have "b = p" "rel' = Some rel" by (auto simp: give_def ReadAll_def)
      with src b p show ?thesis by blast
    next
      case (Inr x)
      with i have "serve_cached ag rel s4 = (Inr (rel', Inr rd), t)" by simp
      from serve_cached_loads [OF this assms(5) w(2)] payloads.save_holds [OF w(1) sv [unfolded Inr] payloads.same_refl]
      have "b = p" "stored ?ps u (rel_ID rel) = Some b" by simp_all
      with src b p show ?thesis by blast
    qed
  qed
qed


section \<open>An indexer and a search\<close>

lemma source_gets:
  "quiet (so_get (local_source ps) rel)" "keeps_recent (so_get (local_source ps) rel)"
  "quiet (so_get (newznab_source sha w c) rel)" "keeps_recent (so_get (newznab_source sha w c) rel)"
  by (auto simp: local_source_def newznab_source_def nz_GetNZB_def split: sum.split prod.split)

text \<open>The indexer reports one release for the query \<open>a\<close> and none for others.\<close>

definition demo_web :: web where
  "demo_web =
     \<lparr>wb_get = (\<lambda>url path ps. if url = ''u'' then Inr (200, Inr (if map_of ps ''q'' = Some ''a'' then [1] else []))
        else if url = ''u/g'' then Inr (200, Inr [5, 6]) else Inl SysFailed),
      wb_decode = (\<lambda>b. if b = Inr [1] then Inr [\<lparr>it_Title = ''a b'', it_GUID = ''g'', it_Link = ''u/g'', it_PubDate = [],
          it_Category = [], it_Length = 3, it_Attributes = [(''size'', ''12'')]\<rparr>] else Inr []),
      wb_date = (\<lambda>_. None)\<rparr>"

definition demo_client :: newznab_client where
  "demo_client = \<lparr>nc_name = ''ix'', nc_BaseURL = ''u'', nc_ApiPath = ''api'', nc_APIKey = ''k'', nc_redirect = False\<rparr>"

definition demo_ag :: aggregator where
  "demo_ag = AddSource (newznab_source id demo_web demo_client) (AddSource (local_source demo_store) (NewAggregator demo_store True True))"

definition demo_query :: "string \<Rightarrow> search_request" where
  "demo_query q = \<lparr>sr_Type = ''search'', sr_Query = q, sr_IMDbID = [], sr_TVDBID = [], sr_TVMazeID = [], sr_RageID = [],
     sr_Season = [], sr_Episode = [], sr_Genre = []\<rparr>"

definition demo_search :: "string \<Rightarrow> catalogue \<Rightarrow> (go_error + release list) \<times> catalogue" where
  "demo_search q = SearchAllWithRequest id rev demo_ag (demo_query q)"

definition demo_hit :: release where
  "demo_hit = ToRelease id demo_web ''ix'' \<lparr>it_Title = ''a b'', it_GUID = ''g'', it_Link = ''u/g'', it_PubDate = [],
     it_Category = [], it_Length = 3, it_Attributes = [(''size'', ''12'')]\<rparr>"

definition demo_found :: catalogue where "demo_found = snd (publish_results demo_ag [demo_hit] (demo_shop []))"

definition demo_later :: catalogue where "demo_later = snd (publish_results demo_ag [] demo_found)"

lemma demo_ag_sources:
  "ag_sources demo_ag = [local_source demo_store, newznab_source id demo_web demo_client]"
  "src \<in> set (ag_sources demo_ag) \<Longrightarrow> quiet (so_get src rel) \<and> keeps_recent (so_get src rel)"
proof -
  show s: "ag_sources demo_ag = [local_source demo_store, newznab_source id demo_web demo_client]"
    by (simp add: demo_ag_def AddSource_def NewAggregator_def local_source_def newznab_source_def demo_client_def)
  show "src \<in> set (ag_sources demo_ag) \<Longrightarrow> quiet (so_get src rel) \<and> keeps_recent (so_get src rel)"
    unfolding s using source_gets by auto
qed

text \<open>Reading the tables without a fault leaves the state as it is.\<close>

lemma no_fault_hits: "ct_faults s = [] \<Longrightarrow> SearchAggregatorReleaseCache q n s = (fst (SearchAggregatorReleaseCache q n s), s)"
  by (simp add: SearchAggregatorReleaseCache_def stmt_def attempt_def map_error_def give_def Let_def)

lemma demo_source_searches:
  assumes "ct_faults s = []"
  shows "snd (so_search (local_source demo_store) req s) = s" "snd (so_search (newznab_source id demo_web demo_client) req s) = s"
  using no_fault_hits [OF assms, of "sr_Query req" 100]
  by (auto simp: local_source_def newznab_source_def nz_Search_def give_def refuse_def prod_eq_iff split: sum.split prod.split)

lemma demo_step:
  assumes "ct_faults s = []" "fst (cached_hits demo_ag (demo_query q) s) = Inr hits"
    "fst (ask_sources id (demo_query q) (rev (ag_sources demo_ag)) s) = Inr answers" "merge_answers id hits answers = rs"
  shows "demo_search q s = publish_results demo_ag rs s"
proof -
  have t: "toSearchRequest (demo_query q) = demo_query q"
    unfolding toSearchRequest_def demo_query_def Let_def by code_simp
  have "snd (cached_hits demo_ag (demo_query q) s) = s"
    using no_fault_hits [OF assms(1), of "sr_Query (demo_query q)" 100]
    by (auto simp: cached_hits_def regardless_eq give_def prod_eq_iff)
  moreover have "snd (ask_sources id (demo_query q) (rev (ag_sources demo_ag)) s) = s"
    using demo_source_searches [OF assms(1)] by (auto simp: demo_ag_sources(1) regardless_eq attempt_def give_def)
  ultimately have "cached_hits demo_ag (demo_query q) s = (Inr hits, s)"
      "ask_sources id (demo_query q) (rev (ag_sources demo_ag)) s = (Inr answers, s)"
    using assms(2,3) by (simp_all add: prod_eq_iff)
  then show ?thesis using assms(4) t by (simp add: demo_search_def SearchAllWithRequest_def attempt_def Let_def)
qed

lemma demo_searches:
  "demo_search ''a'' (demo_shop []) = (Inr [demo_hit], demo_found)"
  "demo_search ''z'' demo_found = (Inr [], demo_later)"
proof -
  have "ct_faults (demo_shop []) = []" "fst (cached_hits demo_ag (demo_query ''a'') (demo_shop [])) = Inr []"
    "fst (ask_sources id (demo_query ''a'') (rev (ag_sources demo_ag)) (demo_shop [])) = Inr [[demo_hit], []]"
    "merge_answers id [] [[demo_hit], []] = [demo_hit]"
    by code_simp+
  from demo_step [OF this] publish_steps show "demo_search ''a'' (demo_shop []) = (Inr [demo_hit], demo_found)"
    unfolding demo_found_def by (metis prod.collapse)
  have "ct_faults demo_found = []" by code_simp
  have "fst (cached_hits demo_ag (demo_query ''z'') demo_found) = Inr []" by code_simp
  have "fst (ask_sources id (demo_query ''z'') (rev (ag_sources demo_ag)) demo_found) = Inr [[], []]" by code_simp
  have "merge_answers id [] [[], []] = []" by code_simp
  from demo_step [OF \<open>ct_faults demo_found = []\<close>
      \<open>fst (cached_hits demo_ag (demo_query ''z'') demo_found) = Inr []\<close>
      \<open>fst (ask_sources id (demo_query ''z'') (rev (ag_sources demo_ag)) demo_found) = Inr [[], []]\<close> this] publish_steps
  show "demo_search ''z'' demo_found = (Inr [], demo_later)" unfolding demo_later_def by (metis prod.collapse)
qed

lemma search_results_witness:
  "fst (GetResultByID demo_ag (rel_ID demo_hit) (fetch_all demo_ag [demo_hit] demo_found)) = Inr (Some demo_hit)"
  using search_results [OF demo_searches(1) [unfolded demo_search_def], of "[demo_hit]"] demo_ag_sources(2) by auto

definition demo_row :: release where "demo_row = demo_hit\<lparr>rel_DownloadURL := []\<rparr>"

lemma later_search_forgets_link_witness:
  "rel_DownloadURL demo_row = [] \<and>
   (\<exists>e v. AG_GetNZB demo_ag (Some demo_row) (snd (GetResultByID demo_ag (rel_ID demo_hit) demo_later)) = (Inr (Some demo_row, Inl e), v))"
proof (rule later_search_forgets_link [OF demo_searches(2) [unfolded demo_search_def]])
  have "fst (GetResultByID demo_ag (rel_ID demo_hit) demo_later) = Inr (Some demo_row)" by code_simp
  then show "GetResultByID demo_ag (rel_ID demo_hit) demo_later =
      (Inr (Some demo_row), snd (GetResultByID demo_ag (rel_ID demo_hit) demo_later))" by (simp add: prod_eq_iff)
  show "fst (Exists (ag_store demo_ag) (rel_ID demo_row) (snd (GetResultByID demo_ag (rel_ID demo_hit) demo_later))) = Inr False" by code_simp
  show "find (\<lambda>x. so_name x = rel_Source demo_row) (ag_sources demo_ag) = Some (newznab_source id demo_web demo_client)"
    unfolding demo_ag_sources(1) by (simp add: local_source_def newznab_source_def demo_client_def demo_row_def demo_hit_def ToRelease_def)
  show "isl (wb_get demo_web [] None params)" for params by (simp add: demo_web_def)
qed simp

definition demo_fetch :: "(go_error + fetched) \<times> catalogue" where "demo_fetch = AG_GetNZB demo_ag (Some demo_hit) (demo_shop [])"

lemma fetched_nzb_is_cached_or_sources_witness: "stored demo_store (snd (ReadAll (OpenFile (FileNode [5, 6])) (snd demo_fetch))) (rel_ID demo_hit) = Some [5, 6]"
proof -
  have f: "AG_GetNZB demo_ag (Some demo_hit) (demo_shop []) =
      (Inr (Some (demo_hit\<lparr>rel_CachePresent := True\<rparr>), Inr (OpenFile (FileNode [5, 6]))), snd demo_fetch)"
  proof -
    have "fst demo_fetch = Inr (Some (demo_hit\<lparr>rel_CachePresent := True\<rparr>), Inr (OpenFile (FileNode [5, 6])))" by code_simp
    then show ?thesis unfolding demo_fetch_def by (simp add: prod_eq_iff)
  qed
  have r: "ReadAll (OpenFile (FileNode [5, 6])) (snd demo_fetch) =
      (Inr [5, 6], snd (ReadAll (OpenFile (FileNode [5, 6])) (snd demo_fetch)))"
  proof -
    have "fst (ReadAll (OpenFile (FileNode [5, 6])) (snd demo_fetch)) = Inr [5, 6]" by code_simp
    then show ?thesis by (simp add: prod_eq_iff)
  qed
  have "store_ready (ag_store demo_ag) ''/'' (demo_shop [])" "ag_cache demo_ag" "ag_store demo_ag = demo_store"
    "\<not> rel_CachePresent demo_hit" by code_simp+
  with fetched_nzb_is_cached_or_sources [OF this(1,2) _ f r] demo_ag_sources(2) show ?thesis by auto
qed

end
