(* ===== verification/Downloads_Props.thy ===== *)
theory Downloads_Props
  imports Downloads Aggregator_Props "HOL-Library.Multiset"
begin

text \<open>
  The downloader module: an uploaded NZB is what its job downloads, the pages of the history are the history, and the
  files of a job are given back as they were saved.
\<close>

section \<open>Uploads\<close>

abbreviation keeps_disk :: "(catalogue \<Rightarrow> ('e + 'a) \<times> catalogue) \<Rightarrow> bool" where
  "keeps_disk m \<equiv> steps_within (\<lambda>s t. ct_os t = ct_os s) m"

lemma mark_keeps_disk: "keeps_disk (mark_found fs k p n)"
proof -
  have tr: "transp (\<lambda>s t. ct_os t = ct_os s)" by (simp add: transp_def)
  have ex: "keeps_disk (exec f)" for f
    by (auto simp: steps_within_def exec_def stmt_def Let_def split: list.split prod.split)
  have me: "keeps_disk (map_error g m)" if "keeps_disk m" for g m
    using that by (auto simp: steps_within_def map_error_def split: prod.split sum.split) (metis snd_conv)+
  have row: "keeps_disk (mark_row what now row b)" for what now row b
    unfolding mark_row_def by (intro steps_attempt [OF tr] me ex)
  then show ?thesis by (auto simp: mark_found_def MarkReleaseCached_def steps_within_def give_def)
qed

text \<open>Without a fault of the system, what is stored can be read.\<close>

lemma stored_is_fetched:
  assumes "stored ps s k = Some d" "os_faults (ct_os s) = []"
  shows "\<exists>rd t u. GetNZBReader ps k s = (Inr rd, t) \<and> ReadAll rd t = (Inr d, u)"
proof (cases ps)
  case InMemory
  with assms(1) show ?thesis by (simp add: Mem_GetNZBReader_def Mem_GetReader_def ReadAll_def give_def)
next
  case (OnDisk fs)
  let ?p = "pathForNZBKey fs k"
  from assms(1) OnDisk have l: "look (ct_os s) (resolve (ct_os s) ?p) = Some (FileNode d)"
    by (auto simp: file_at_def resolve_def split: option.splits node.splits)
  obtain r t where m: "mark_found fs k ?p (FileNode d) s = (r, t)" by (cases "mark_found fs k ?p (FileNode d) s")
  have t: "ct_os t = ct_os s" using mark_keeps_disk [of fs k ?p "FileNode d"] m by (auto simp: steps_within_def) (metis snd_conv)
  have "on_disk (Open ?p) s = (Inr (FileNode d), s)" "on_disk sys_step s = (Inr (), s)"
    using l assms(2) by (simp_all add: on_disk_def Open_def no_fault_Stat sys_step_def call_def sys_def give_def)
  then have "GetNZBReader ps k s = (Inr (OpenFile (FileNode d)), t)"
    using m OnDisk by (simp add: FS_GetNZBReader_def regardless_def give_def Let_def)
  moreover have "ReadAll (OpenFile (FileNode d)) t = (Inr d, t)"
    using assms(2) t by (simp add: ReadAll_def on_disk_def read_start_def call_def sys_def give_def)
  ultimately show ?thesis by blast
qed

lemma enqueued:
  assumes "enqueue md e qid req rel a = (Inr r, b)" "qr_Release req = Some rel0" "rel_ID rel0 \<noteq> []"
  shows "ap_shop b = ap_shop a \<and> (\<exists>x. qi_Release (items (ap_queue b) r) = Some x \<and> rel_ID x = rel_ID rel0)"
proof -
  from assms(1) obtain m where m: "Add e (md_cfg md) qid req (ap_queue a) = (Inr r, m)"
    and b: "b = a\<lparr>ap_queue := (if qi_Release (items m r) = None
           then set_item r ((items m r)\<lparr>qi_Release := Some rel\<rparr>) m else m)\<rparr>"
    by (auto simp: enqueue_def in_queue_def refuse_def elim!: attemptE split: prod.splits sum.splits)
  from m have i: "items m r = new_item e (md_cfg md) qid req"
    by (auto simp: Add_def add_item_def notify_def recordEvent_def set_item_def Let_def split: if_splits option.splits sum.splits prod.splits)
  have "qi_Release (new_item e (md_cfg md) qid req) = Some (request_release req)" by (simp add: new_item_def Let_def)
  moreover have "rel_ID (request_release req) = rel_ID rel0" using assms(2,3) by (simp add: request_release_def Let_def or_else_def)
  ultimately show ?thesis using i b by auto
qed

text \<open>C30: What is uploaded is what the job downloads. The NZB that an upload has put into the queue is read, byte for byte,
  when its job asks the resolver for it; whatever has been stored since, as long as payloads under the same key have
  the same bytes (the key is the hash of the bytes), and if the system does not fail while it is read.\<close>

theorem uploaded_nzb_is_served:
  assumes "md_blobs md = Some ps" "store_ready ps cwd (ap_shop a)" "trim_space (md_digest md data) \<noteq> []"
    "EnqueueNZBWithCategory md e qid filename category (Inr data) a = (Inr r, b)"
    "s = fold (\<lambda>x s. snd (SaveNZBAtomically ps (fst x) (snd x) s)) xs (ap_shop b)"
    "\<forall>x \<in> set xs. same_key ps cwd (fst x) (md_digest md data) \<longrightarrow> snd x = data"
    "rr_manual rr = Some (manualResolver (Some ps))" "os_faults (ct_os s) = []"
  shows "\<exists>rel rd t u. RR_GetNZB rr ''manual'' (qi_Release (items (ap_queue b) r)) s = (Inr (rel, Inr rd), t) \<and>
    ReadAll rd t = (Inr data, u)"
proof -
  let ?k = "md_digest md data"
  have k: "?k \<noteq> []" using assms(3) by (auto simp: trim_space_def)
  define f where "f = (if filename = [] then ''manual.nzb'' else filename)"
  from assms(1,4) have "attempt (map_error (Wrapped ''failed to persist nzb in blob store'') (in_shop (SaveNZBAtomically ps ?k data)))
      (\<lambda>_. enqueue md e qid \<lparr>qr_SourceKind = ''manual'', qr_SourceReleaseID = ?k,
         qr_Release = Some (manual_upload ?k f category), qr_Title = f\<rparr> (manual_upload ?k f category)) a = (Inr r, b)"
    unfolding EnqueueNZBWithCategory_def f_def [symmetric] Let_def by (auto simp: refuse_def split: if_splits)
  then obtain s1 where sv: "SaveNZBAtomically ps ?k data (ap_shop a) = (Inr (), s1)"
    and q: "enqueue md e qid \<lparr>qr_SourceKind = ''manual'', qr_SourceReleaseID = ?k,
        qr_Release = Some (manual_upload ?k f category), qr_Title = f\<rparr> (manual_upload ?k f category)
        (a\<lparr>ap_shop := s1\<rparr>) = (Inr r, b)"
    by (auto simp: in_shop_def elim!: attemptE map_errorE split: prod.splits)
  have "rel_ID (manual_upload ?k f category) = ?k" by (simp add: manual_upload_def)
  with enqueued [OF q] k obtain x where b: "ap_shop b = s1" "qi_Release (items (ap_queue b) r) = Some x" "rel_ID x = ?k"
    by auto
  have "store_ready ps cwd (ap_shop b)" using payloads.save_wf [OF assms(2) sv] b(1) by simp
  from payloads.saves_whole [OF this, of xs ?k] assms(5,6) payloads.save_holds [OF assms(2) sv payloads.same_refl] b(1)
  have "stored ps s ?k = Some data" by (auto simp: payloads.saves_def)
  from stored_is_fetched [OF this assms(8)] obtain rd t u where f: "GetNZBReader ps ?k s = (Inr rd, t)" "ReadAll rd t = (Inr data, u)"
    by blast
  have "trim_space (to_lower ''manual'') = ''manual''" by code_simp
  then have "RR_GetNZB rr ''manual'' (Some x) s = (Inr (Some x, Inr rd), t)"
    using assms(3,7) b(3) f(1)
    by (simp add: RR_GetNZB_def pickResolver_def Let_def manualResolver_def regardless_def give_def)
  with b(2) f(2) show ?thesis by auto
qed

section \<open>Pages\<close>

lemma page_is_slice:
  assumes "0 < limit" "0 \<le> offset" "int (length xs) + limit < 2 ^ 63"
  shows "page_of xs limit offset = Some (take (nat limit) (drop (nat offset) xs))"
proof -
  let ?n = "int (length xs)" and ?a = "if offset > int (length xs) then int (length xs) else offset"
  have a: "0 \<le> ?a" "?a \<le> ?n" using assms(2) by simp_all
  then have "in64 (?a + limit)" using assms(1,3) unfolding in64_def by linarith
  then have i: "i64 (?a + limit) = ?a + limit" by (rule i64_id)
  let ?b = "if ?a + limit > ?n then ?n else ?a + limit"
  have s: "page_of xs limit offset = slice xs ?a ?b" unfolding page_of_def Let_def i ..
  have "0 \<le> ?a \<and> ?a \<le> ?b \<and> ?b \<le> ?n" using a assms(1) by simp
  then have "slice xs ?a ?b = Some (drop (nat ?a) (take (nat ?b) xs))" by (simp add: slice_def)
  moreover have "drop (nat ?a) (take (nat ?b) xs) = take (nat limit) (drop (nat offset) xs)"
  proof (cases "offset > ?n")
    case True
    then have "nat offset \<ge> length xs" by linarith
    with True show ?thesis using assms(1) by simp
  next
    case False
    have "drop (nat offset) (take (nat ?b) xs) = take (nat ?b - nat offset) (drop (nat offset) xs)" by (simp add: drop_take)
    also have "\<dots> = take (nat limit) (drop (nat offset) xs)"
    proof (cases "offset + limit > ?n")
      case True
      then have "nat limit \<ge> length (drop (nat offset) xs)" "nat ?n - nat offset \<ge> length (drop (nat offset) xs)" by auto
      with True False show ?thesis by simp
    next
      case c: False
      have "nat (offset + limit) - nat offset = nat limit" using assms(1,2) by (simp add: nat_diff_distrib')
      with False c show ?thesis by simp
    qed
    finally show ?thesis using False by simp
  qed
  ultimately show ?thesis using s by simp
qed

lemma slices_cover: "0 < l \<Longrightarrow> concat (map (\<lambda>k. take l (drop (k * l) xs)) [0..<n]) = take (n * l) xs"
proof (induction n)
  case (Suc n)
  have "take (Suc n * l) xs = take (n * l) xs @ take l (drop (n * l) xs)" by (simp add: take_add [symmetric] add.commute)
  with Suc show ?case by simp
qed simp

text \<open>The pages of the history, read one after the other with any limit, are the history, newest first: no item is
  left out or listed twice.\<close>

theorem history_pages_cover:
  assumes "md_jobs md" "db_up e" "0 < limit" "int (length (history_items st (store (ap_queue a)))) + limit < 2 ^ 63"
    "int (length (history_items st (store (ap_queue a)))) \<le> int n * limit"
  shows "concat (map (\<lambda>k. case fst (ListHistory md e st limit (int k * limit) a) of Inr (Some p, _) \<Rightarrow> p | _ \<Rightarrow> []) [0..<n]) =
    history_items st (store (ap_queue a))"
proof -
  let ?xs = "history_items st (store (ap_queue a))"
  have p: "page_of ?xs limit (int k * limit) = Some (take (nat limit) (drop (k * nat limit) ?xs))" for k
    using page_is_slice [OF assms(3) _ assms(4), of "int k * limit"] assms(3) by (simp add: nat_mult_distrib)
  have "(case fst (ListHistory md e st limit (int k * limit) a) of Inr (Some p, _) \<Rightarrow> p | _ \<Rightarrow> []) =
      take (nat limit) (drop (k * nat limit) ?xs)" for k
    using p assms(1,2) by (simp add: ListHistory_def Let_def give_def)
  moreover have "length ?xs \<le> n * nat limit"
    using assms(3,5) by (metis int_nat_eq nat_int of_nat_le_iff of_nat_mult order_less_imp_le)
  ultimately show ?thesis using slices_cover [of "nat limit" ?xs n] assms(3) by simp
qed

text \<open>The SAB-compatible API does not bound the limit: the sum wraps around and the slice expression panics.\<close>

lemma huge_limit_panics:
  assumes "0 < length xs"
  shows "page_of xs (2 ^ 63 - 1) 1 = None"
proof -
  have "i64 (1 + (2 ^ 63 - 1)) = - (2 ^ 63)" by (simp add: i64_def)
  with assms show ?thesis by (simp add: page_of_def slice_def Let_def)
qed


section \<open>The files of a job\<close>

lemma on_files_ok: "on_files f a = (Inr x, b) \<Longrightarrow> f (ap_files a) = (x, ap_files b) \<and> ap_queue b = ap_queue a"
  by (auto simp: on_files_def in_shop_def split: prod.splits sum.splits)

lemma map_error_ok: "map_error f m a = (Inr x, b) \<Longrightarrow> m a = (Inr x, b)"
  by (auto elim: map_errorE)

lemma on_filesE:
  assumes "on_files f a = (r, b)"
  obtains (fails) e where "r = Inl e" "ap_files b = ap_files a" "ap_queue b = ap_queue a"
  | (goes_on) x where "r = Inr x" "f (ap_files a) = (x, ap_files b)" "ap_queue b = ap_queue a"
  using assms by (auto simp: on_files_def in_shop_def split: prod.splits sum.splits)

abbreviation norm_row :: "set_item_row \<Rightarrow> norm_item" where "norm_row r \<equiv> norm_item (file_of_row [] r)"

definition set_rows :: "string \<Rightarrow> file_tables \<Rightarrow> set_item_row list" where
  "set_rows sid t = filter (\<lambda>r. si_set r = sid) (ft_items t)"

definition normal :: "norm_item list \<Rightarrow> norm_item list" where
  "normal xs = sort_key norm_index (sort_key norm_name xs)"

text \<open>Each set is found under the hash of its rows, which have different indexes.\<close>

definition files_ok :: "(norm_item list \<Rightarrow> string) \<Rightarrow> file_tables \<Rightarrow> bool" where
  "files_ok digest t \<longleftrightarrow> distinct (map (\<lambda>x. fst (snd x)) (ft_sets t)) \<and>
     (\<forall>x \<in> set (ft_sets t). fst (snd x) \<noteq> [] \<and> fst x = digest (normal (map norm_row (set_rows (fst (snd x)) t))) \<and>
        distinct (map si_index (set_rows (fst (snd x)) t)))"

definition fresh_set :: "string \<Rightarrow> file_tables \<Rightarrow> bool" where
  "fresh_set sid t \<longleftrightarrow> sid \<noteq> [] \<and> (\<forall>x \<in> set (ft_sets t). fst (snd x) \<noteq> sid) \<and> set_rows sid t = []"

lemma normal_files_normal: "normal_files fs = normal (map norm_item fs)"
  by (simp add: normal_files_def normal_def)

lemma norm_row_file [simp]:
  "norm_row (row_of_file sid n f) = norm_item f"
  "norm_index (norm_item f) = df_Index f" "si_index (row_of_file sid n f) = df_Index f" "df_Index (file_of_row q r) = si_index r"
  by (simp_all add: norm_item_def file_of_row_def row_of_file_def)

lemma norm_row_job: "norm_item (file_of_row q r) = norm_row r"
  by (simp add: norm_item_def file_of_row_def)

lemma normal_perm:
  assumes "mset xs = mset ys" "distinct (map norm_index xs)"
  shows "normal xs = normal ys"
proof -
  have m: "mset (sort_key norm_name xs) = mset (normal ys)" using assms(1) by (simp add: normal_def)
  have "inj_on norm_index (set (sort_key norm_name xs))" using assms(2) by (simp add: distinct_map)
  moreover have "sorted (map norm_index (normal ys))" by (simp add: normal_def)
  ultimately show ?thesis unfolding normal_def [of xs] by (rule sort_key_inj_key_eq [OF m])
qed

lemma insert_items_ok:
  "insert_items sid fs a = (Inr (), b) \<Longrightarrow> distinct (map df_Index fs) \<Longrightarrow>
   (\<forall>r \<in> set (set_rows sid (ap_files a)). si_index r \<notin> df_Index ` set fs) \<Longrightarrow>
   ft_sets (ap_files b) = ft_sets (ap_files a) \<and> ft_link (ap_files b) = ft_link (ap_files a) \<and> ap_queue b = ap_queue a \<and>
   map norm_row (set_rows sid (ap_files b)) = map norm_row (set_rows sid (ap_files a)) @ map norm_item fs \<and>
   map si_index (set_rows sid (ap_files b)) = map si_index (set_rows sid (ap_files a)) @ map df_Index fs \<and>
   (\<forall>j. j \<noteq> sid \<longrightarrow> set_rows j (ap_files b) = set_rows j (ap_files a))"
proof (induction fs arbitrary: a)
  case (Cons f fs)
  from Cons.prems(1) obtain c where o: "map_error (Wrapped (''insert queue_file_set_items row for '' @ df_FileName f))
       (on_files (\<lambda>t. ((), put_item sid f t))) a = (Inr (), c)" and rest: "insert_items sid fs c = (Inr (), b)"
    unfolding insert_items.simps by (rule attemptE) auto
  from o have "on_files (\<lambda>t. ((), put_item sid f t)) a = (Inr (), c)" by (auto elim: map_errorE)
  from on_files_ok [OF this] have c: "ap_files c = put_item sid f (ap_files a)" "ap_queue c = ap_queue a" by auto
  have "\<not> list_ex (\<lambda>r. si_set r = sid \<and> si_index r = df_Index f) (ft_items (ap_files a))"
    using Cons.prems(3) by (auto simp: list_ex_iff set_rows_def)
  with c(1) have p: "ap_files c = (ap_files a)\<lparr>ft_items := ft_items (ap_files a) @ [row_of_file sid (ft_next (ap_files a)) f],
      ft_next := ft_next (ap_files a) + 1\<rparr>" by (simp add: put_item_def)
  have rows: "set_rows sid (ap_files c) = set_rows sid (ap_files a) @ [row_of_file sid (ft_next (ap_files a)) f]"
    "j \<noteq> sid \<Longrightarrow> set_rows j (ap_files c) = set_rows j (ap_files a)" for j
    using p by (simp_all add: set_rows_def row_of_file_def)
  have "\<forall>r \<in> set (set_rows sid (ap_files c)). si_index r \<notin> df_Index ` set fs"
    using rows(1) Cons.prems(2,3) by (auto simp: row_of_file_def)
  note I = Cons.IH [OF rest _ this]
  have d: "distinct (map df_Index fs)" using Cons.prems(2) by simp
  have e: "ft_sets (ap_files c) = ft_sets (ap_files a)" "ft_link (ap_files c) = ft_link (ap_files a)"
    "map norm_row (set_rows sid (ap_files c)) = map norm_row (set_rows sid (ap_files a)) @ [norm_item f]"
    "map si_index (set_rows sid (ap_files c)) = map si_index (set_rows sid (ap_files a)) @ [df_Index f]"
    unfolding rows(1) using p by simp_all
  from I [OF d] rows(2) c(2) show ?case unfolding e by simp
qed (simp add: give_def)

text \<open>The set that is found or made for a list of files.\<close>

lemma set_for_ok:
  assumes "set_for fresh (buildFileSetHash digest fs) fs a = (Inr sid, b)" "files_ok digest (ap_files a)"
    "fresh_set fresh (ap_files a)" "distinct (map df_Index fs)"
    "\<forall>x \<in> set (ft_sets (ap_files a)). digest (normal (map norm_row (set_rows (fst (snd x)) (ap_files a)))) = digest (normal_files fs) \<longrightarrow>
       normal (map norm_row (set_rows (fst (snd x)) (ap_files a))) = normal_files fs"
  shows "files_ok digest (ap_files b)" "normal (map norm_row (set_rows sid (ap_files b))) = normal_files fs"
    "sid \<noteq> []" "ap_queue b = ap_queue a" "distinct (map si_index (set_rows sid (ap_files b)))"
proof -
  let ?h = "buildFileSetHash digest fs"
  from assms(1) obtain found c where c: "found = map_of (ft_sets (ap_files a)) ?h" "ap_files c = ap_files a" "ap_queue c = ap_queue a"
    and k: "(case found of Some (sid, _) \<Rightarrow> give sid
       | None \<Rightarrow>
           attempt (map_error (Wrapped ''insert queue_file_sets row'')
             (on_files (\<lambda>t. ((), t\<lparr>ft_sets := ft_sets t @ [(?h, fresh, int (length fs))]\<rparr>)))) (\<lambda>_.
           attempt (insert_items fresh fs) (\<lambda>_. give fresh))) c = (Inr sid, b)"
  proof -
    from assms(1) obtain found c where o: "map_error (Wrapped ''lookup queue_file_sets by hash'') (on_files (\<lambda>t. (map_of (ft_sets t) ?h, t))) a =
        (Inr found, c)"
      and k: "(case found of Some (sid, _) \<Rightarrow> give sid
       | None \<Rightarrow>
           attempt (map_error (Wrapped ''insert queue_file_sets row'')
             (on_files (\<lambda>t. ((), t\<lparr>ft_sets := ft_sets t @ [(?h, fresh, int (length fs))]\<rparr>)))) (\<lambda>_.
           attempt (insert_items fresh fs) (\<lambda>_. give fresh))) c = (Inr sid, b)"
      unfolding set_for_def by (rule attemptE) auto
    from o have "on_files (\<lambda>t. (map_of (ft_sets t) ?h, t)) a = (Inr found, c)" by (auto elim: map_errorE)
    from on_files_ok [OF this] k that show thesis by auto
  qed
  have "files_ok digest (ap_files b) \<and> normal (map norm_row (set_rows sid (ap_files b))) = normal_files fs \<and>
    sid \<noteq> [] \<and> ap_queue b = ap_queue a \<and> distinct (map si_index (set_rows sid (ap_files b)))"
  proof (cases found)
    case (Some p)
    then obtain n where n: "found = Some (sid, n)" "b = c" using k by (auto simp: give_def split: prod.splits)
    then have "(?h, sid, n) \<in> set (ft_sets (ap_files a))" using c(1) by (metis map_of_SomeD)
    note x = this
    have "?h = digest (normal (map norm_row (set_rows sid (ap_files a))))" "sid \<noteq> []"
        "distinct (map si_index (set_rows sid (ap_files a)))"
      using assms(2) [unfolded files_ok_def, THEN conjunct2, THEN bspec, OF x] by simp_all
    moreover from this(1) have "normal (map norm_row (set_rows sid (ap_files a))) = normal_files fs"
      using assms(5) [THEN bspec, OF x] by (simp add: buildFileSetHash_def)
    ultimately show ?thesis using assms(2) c(2,3) n(2) by simp
  next
    case None
    with k have "attempt (map_error (Wrapped ''insert queue_file_sets row'')
         (on_files (\<lambda>t. ((), t\<lparr>ft_sets := ft_sets t @ [(?h, fresh, int (length fs))]\<rparr>)))) (\<lambda>_.
       attempt (insert_items fresh fs) (\<lambda>_. give fresh)) c = (Inr sid, b)" by simp
    then obtain d where o: "map_error (Wrapped ''insert queue_file_sets row'')
         (on_files (\<lambda>t. ((), t\<lparr>ft_sets := ft_sets t @ [(?h, fresh, int (length fs))]\<rparr>))) c = (Inr (), d)"
      and r: "attempt (insert_items fresh fs) (\<lambda>_. give fresh) d = (Inr sid, b)"
      by (rule attemptE) auto
    from on_files_ok [OF map_error_ok [OF o]]
    have d: "ap_files d = (ap_files c)\<lparr>ft_sets := ft_sets (ap_files c) @ [(?h, fresh, int (length fs))]\<rparr>" "ap_queue d = ap_queue c"
      by auto
    from r have i: "insert_items fresh fs d = (Inr (), b)" and s: "sid = fresh"
      by (auto simp: give_def elim!: attemptE)
    have rows: "set_rows j (ap_files d) = set_rows j (ap_files a)" for j using d(1) c(2) by (simp add: set_rows_def)
    have "set_rows fresh (ap_files a) = []" "fresh \<noteq> []" "\<forall>x \<in> set (ft_sets (ap_files a)). fst (snd x) \<noteq> fresh"
      using assms(3) by (auto simp: fresh_set_def)
    note f = this
    from insert_items_ok [OF i assms(4)] f(1) rows
    have I: "ft_sets (ap_files b) = ft_sets (ap_files d)" "ap_queue b = ap_queue d"
      "map norm_row (set_rows fresh (ap_files b)) = map norm_item fs" "map si_index (set_rows fresh (ap_files b)) = map df_Index fs"
      "\<And>j. j \<noteq> fresh \<Longrightarrow> set_rows j (ap_files b) = set_rows j (ap_files a)"
      by simp_all
    from I(3) have nf: "normal (map norm_row (set_rows fresh (ap_files b))) = normal_files fs" by (simp add: normal_files_normal)
    have "files_ok digest (ap_files b)"
      using assms(2,4) f(2,3) I(1,4,5) d(1) c(2) nf by (auto simp: files_ok_def buildFileSetHash_def)
    with nf f(2) s I(2,4) d(2) c(3) assms(4) show ?thesis by simp
  qed
  then show "files_ok digest (ap_files b)" "normal (map norm_row (set_rows sid (ap_files b))) = normal_files fs"
    "sid \<noteq> []" "ap_queue b = ap_queue a" "distinct (map si_index (set_rows sid (ap_files b)))" by simp_all
qed

lemma in_file_transactionE:
  assumes "in_file_transaction m a = (r, b)"
  obtains (fails) e where "r = Inl e" "ap_files b = ap_files a"
  | (goes_on) c d where "r = Inr ()" "ap_files c = ap_files a" "ap_queue c = ap_queue a" "m c = (Inr (), d)"
      "ap_files b = ap_files d" "ap_queue b = ap_queue d"
proof (cases "attempt (on_files (Pair ())) (\<lambda>_. attempt m (\<lambda>_. on_files (Pair ()))) a")
  case (Pair x y)
  show thesis
  proof (cases x)
    case (Inl e)
    with assms Pair fails show thesis by (auto simp: in_file_transaction_def)
  next
    case (Inr u)
    with assms Pair have "r = Inr ()" "b = y" by (simp_all add: in_file_transaction_def)
    with Pair Inr goes_on show thesis by (auto elim!: attemptE on_filesE)
  qed
qed

lemma files_read:
  assumes "GetQueueItemFiles qid b = (Inr res, v)" "ft_link (ap_files b) qid = Some sid" "has_job qid b" "sid \<noteq> []"
  shows "res = Some (map (file_of_row qid) (sort_key si_index (sort_key si_id (set_rows sid (ap_files b)))))"
proof -
  let ?get = "\<lambda>sid. attempt (map_error (Wrapped ''query queue_file_set_items'') (on_files (\<lambda>t.
      (map (file_of_row qid) (sort_key si_index (sort_key si_id (filter (\<lambda>r. si_set r = sid) (ft_items t)))), t)))) (\<lambda>fs. give (Some fs))"
  from assms(1) obtain link c where "map_error (Wrapped ''lookup queue item file_set_id'') (on_files (\<lambda>t. (ft_link t qid, t))) b = (Inr link, c)"
    and k: "(if \<not> has_job qid b then give None
       else (case link of None \<Rightarrow> give (Some []) | Some sid \<Rightarrow> (if sid = [] then give (Some []) else ?get sid))) c = (Inr res, v)"
    unfolding GetQueueItemFiles_def by (rule attemptE) auto
  then have "on_files (\<lambda>t. (ft_link t qid, t)) b = (Inr link, c)" by (auto elim: map_errorE)
  from on_files_ok [OF this] assms(2) have c: "link = Some sid" "ap_files c = ap_files b" by auto
  with k assms(3,4) have "?get sid c = (Inr res, v)" by simp
  then obtain fs w where "map_error (Wrapped ''query queue_file_set_items'') (on_files (\<lambda>t.
      (map (file_of_row qid) (sort_key si_index (sort_key si_id (filter (\<lambda>r. si_set r = sid) (ft_items t)))), t))) c = (Inr fs, w)"
    "res = Some fs" by (rule attemptE) (auto simp: give_def)
  then show ?thesis using c(2) on_files_ok by (auto simp: set_rows_def elim!: map_errorE dest!: on_files_ok)
qed

text \<open>The files of a job are given back as they were saved, up to the order of their groups, in the order of their
  indexes, although jobs with the same files share one set of rows; provided different lists of files do not have the
  same hash. The tables keep their invariant, and a save that fails leaves them as they were.\<close>

theorem saved_files_come_back:
  assumes "SaveQueueItemFiles digest fresh qid fs a = (r, b)" "files_ok digest (ap_files a)" "fresh_set fresh (ap_files a)"
    "distinct (map df_Index fs)"
    "\<forall>x \<in> set (ft_sets (ap_files a)). digest (normal (map norm_row (set_rows (fst (snd x)) (ap_files a)))) = digest (normal_files fs) \<longrightarrow>
       normal (map norm_row (set_rows (fst (snd x)) (ap_files a))) = normal_files fs"
  shows "files_ok digest (ap_files b) \<and> (isl r \<longrightarrow> ap_files b = ap_files a) \<and>
    (\<forall>res c. \<not> isl r \<and> has_job qid a \<and> GetQueueItemFiles qid b = (Inr res, c) \<longrightarrow>
       (\<exists>gs. res = Some gs \<and> normal_files gs = normal_files fs \<and> sorted (map df_Index gs)))"
  using assms(1) unfolding SaveQueueItemFiles_def
proof (cases rule: in_file_transactionE)
  case (fails e)
  with assms(2) show ?thesis by simp
next
  case (goes_on c d)
  from goes_on(4) obtain sid u where s: "set_for fresh (buildFileSetHash digest fs) fs c = (Inr sid, u)" and l: "link_files qid sid u = (Inr (), d)"
    by (rule attemptE) auto
  note S = set_for_ok [OF s, unfolded goes_on(2), OF assms(2-5)]
  from l have D: "ap_files d = (if has_job qid u then (ap_files u)\<lparr>ft_link := (ft_link (ap_files u))(qid \<mapsto> sid)\<rparr> else ap_files u)"
      "ap_queue d = ap_queue u"
  proof -
    from l have "on_files (\<lambda>t. ((), if has_job qid u then t\<lparr>ft_link := (ft_link t)(qid \<mapsto> sid)\<rparr> else t)) u = (Inr (), d)"
      unfolding link_files_def by (rule map_error_ok)
    from on_files_ok [OF this] show "ap_files d = (if has_job qid u then (ap_files u)\<lparr>ft_link := (ft_link (ap_files u))(qid \<mapsto> sid)\<rparr> else ap_files u)"
      "ap_queue d = ap_queue u" by auto
  qed
  have rows: "set_rows j (ap_files b) = set_rows j (ap_files u)" "ft_sets (ap_files b) = ft_sets (ap_files u)" for j
    using D(1) goes_on(5) by (simp_all add: set_rows_def)
  have q: "ap_queue b = ap_queue a" "ap_queue u = ap_queue a" using goes_on(3,6) D(2) S(4) by simp_all
  have "\<exists>gs. res = Some gs \<and> normal_files gs = normal_files fs \<and> sorted (map df_Index gs)"
    if h: "has_job qid a" and g: "GetQueueItemFiles qid b = (Inr res, v)" for res v
  proof -
    from h q have jobs: "has_job qid b" "has_job qid u" by (simp_all add: has_job_def)
    then have link: "ft_link (ap_files b) qid = Some sid" using D(1) goes_on(5) by simp
    let ?rows = "sort_key si_index (sort_key si_id (set_rows sid (ap_files b)))"
    have "res = Some (map (file_of_row qid) ?rows)"
      by (rule files_read [OF g link jobs(1) S(3)])
    moreover have "normal_files (map (file_of_row qid) ?rows) = normal_files fs"
    proof -
      have "mset (map norm_row ?rows) = mset (map norm_row (set_rows sid (ap_files u)))" using rows(1) by (simp add: mset_map)
      moreover have "distinct (map norm_index (map norm_row ?rows))" using S(5) rows(1) by (simp add: comp_def distinct_map)
      ultimately have "normal (map norm_row ?rows) = normal (map norm_row (set_rows sid (ap_files u)))" by (rule normal_perm)
      then show ?thesis using S(2) by (simp add: normal_files_normal comp_def norm_row_job [of qid])
    qed
    moreover have "map df_Index (map (file_of_row qid) ?rows) = map si_index ?rows" by (simp add: comp_def)
    ultimately show ?thesis using sorted_sort_key [of si_index] by (simp add: comp_def)
  qed
  moreover have "files_ok digest (ap_files b)" using S(1) rows by (simp add: files_ok_def)
  ultimately show ?thesis using goes_on(1) by simp
qed

section \<open>An upload, a history and a job\<close>

definition demo_module :: download_module where
  "demo_module = \<lparr>md_queue = True, md_jobs = True, md_resolver = None, md_blobs = Some demo_store, md_files = True,
     md_cfg = None, md_digest = (\<lambda>_. ''h'')\<rparr>"

definition demo_resolver :: release_resolver where
  "demo_resolver = \<lparr>rr_manual = Some (manualResolver (Some demo_store)), rr_aggregator = None, rr_usenetIndex = None\<rparr>"

definition demo_rows :: job_store where
  "demo_rows = [row_of_item 5 (blank_item\<lparr>qi_ID := ''q1'', qi_SourceKind := ''manual''\<rparr>),
     row_of_item 6 (blank_item\<lparr>qi_ID := ''q2'', qi_SourceKind := ''manual'', qi_Status := StatusCompleted\<rparr>)]"

definition demo_app :: app where
  "demo_app = \<lparr>ap_shop = demo_shop [], ap_queue = NewQueueManager demo_rows,
     ap_files = \<lparr>ft_sets = [], ft_items = [], ft_next = 1, ft_link = (\<lambda>_. None)\<rparr>\<rparr>"

definition demo_env :: env where "demo_env = \<lparr>now = 9, db_up = True\<rparr>"

definition demo_uploaded :: app where
  "demo_uploaded = snd (EnqueueNZBWithCategory demo_module demo_env ''q3'' ''f.nzb'' [] (Inr [4, 5]) demo_app)"

lemma demo_upload:
  "EnqueueNZBWithCategory demo_module demo_env ''q3'' ''f.nzb'' [] (Inr [4, 5]) demo_app = (Inr 0, demo_uploaded)"
proof -
  have "fst (EnqueueNZBWithCategory demo_module demo_env ''q3'' ''f.nzb'' [] (Inr [4, 5]) demo_app) = Inr 0" by code_simp
  then show ?thesis unfolding demo_uploaded_def by (simp add: prod_eq_iff)
qed

lemma uploaded_nzb_is_served_witness:
  "let s = snd (SaveNZBAtomically demo_store ''k2'' [7] (ap_shop demo_uploaded))
   in \<exists>rel rd t u. RR_GetNZB demo_resolver ''manual'' (qi_Release (items (ap_queue demo_uploaded) 0)) s = (Inr (rel, Inr rd), t) \<and>
      ReadAll rd t = (Inr [4, 5], u)"
proof -
  have "md_blobs demo_module = Some demo_store" "store_ready demo_store ''/'' (ap_shop demo_app)"
    "trim_space (md_digest demo_module [4, 5]) \<noteq> []" by code_simp+
  note h = this
  have k: "\<not> same_key demo_store ''/'' ''k2'' (md_digest demo_module [4, 5])" by code_simp
  have f: "os_faults (ct_os (snd (SaveNZBAtomically demo_store ''k2'' [7] (ap_shop demo_uploaded)))) = []" by code_simp
  have m: "rr_manual demo_resolver = Some (manualResolver (Some demo_store))" by (simp add: demo_resolver_def)
  show ?thesis unfolding Let_def
    by (rule uploaded_nzb_is_served [OF h demo_upload, of _ "[(''k2'', [7])]"]) (use k f m in auto)
qed

lemma history_pages_cover_witness:
  "concat (map (\<lambda>k. case fst (ListHistory demo_module demo_env [] 1 (int k * 1) demo_app) of Inr (Some p, _) \<Rightarrow> p | _ \<Rightarrow> []) [0..<2]) =
     history_items [] (store (ap_queue demo_app)) \<and> map qi_ID (history_items [] (store (ap_queue demo_app))) = [''q2'', ''q1'']"
proof -
  have "md_jobs demo_module" "db_up demo_env" by code_simp+
  moreover have i: "map qi_ID (history_items [] (store (ap_queue demo_app))) = [''q2'', ''q1'']" by code_simp
  moreover from i have "length (history_items [] (store (ap_queue demo_app))) = 2"
  proof -
    have "length (map qi_ID (history_items [] (store (ap_queue demo_app)))) = 2" unfolding i by simp
    then show ?thesis by (simp only: length_map)
  qed
  ultimately show ?thesis using history_pages_cover [of demo_module demo_env 1 "[]" demo_app 2] by simp
qed

definition demo_file :: "int \<Rightarrow> string \<Rightarrow> download_file" where
  "demo_file i name =
     \<lparr>df_ID = 0, df_ReleaseID = [], df_FileName = name, df_Size = 10, df_Index = i, df_IsPars = False, df_Subject = [],
      df_Date = 0, df_Groups = [''g2'', ''g1''], df_Poster = [], df_PartPath = [], df_FinalPath = [], df_IsComplete = False,
      df_Password = [], df_actualSize = 0, df_Segments = []\<rparr>"

definition demo_save :: "(go_error + unit) \<times> app" where
  "demo_save = SaveQueueItemFiles (\<lambda>_. ''d'') ''s'' ''q1'' [demo_file 2 ''b'', demo_file 1 ''a''] demo_app"

lemma saved_files_come_back_witness:
  "\<exists>gs. fst (GetQueueItemFiles ''q1'' (snd demo_save)) = Inr (Some gs) \<and>
     normal_files gs = normal_files [demo_file 2 ''b'', demo_file 1 ''a''] \<and> sorted (map df_Index gs)"
proof -
  have r: "fst demo_save = Inr ()" by code_simp
  have s: "SaveQueueItemFiles (\<lambda>_. ''d'') ''s'' ''q1'' [demo_file 2 ''b'', demo_file 1 ''a''] demo_app = (Inr (), snd demo_save)"
    using r unfolding demo_save_def by (simp add: prod_eq_iff)
  have "files_ok (\<lambda>_. ''d'') (ap_files demo_app)" by (simp add: files_ok_def demo_app_def)
  moreover have "fresh_set ''s'' (ap_files demo_app)" by (simp add: fresh_set_def set_rows_def demo_app_def)
  moreover have "distinct (map df_Index [demo_file 2 ''b'', demo_file 1 ''a''])" by (simp add: demo_file_def)
  moreover have "ft_sets (ap_files demo_app) = []" by (simp add: demo_app_def)
  ultimately have c: "\<forall>res v. has_job ''q1'' demo_app \<and> GetQueueItemFiles ''q1'' (snd demo_save) = (Inr res, v) \<longrightarrow>
       (\<exists>gs. res = Some gs \<and> normal_files gs = normal_files [demo_file 2 ''b'', demo_file 1 ''a''] \<and> sorted (map df_Index gs))"
    using saved_files_come_back [OF s] by simp
  have "has_job ''q1'' demo_app" by code_simp
  moreover have "\<not> isl (fst (GetQueueItemFiles ''q1'' (snd demo_save)))" by code_simp
  then obtain res where "fst (GetQueueItemFiles ''q1'' (snd demo_save)) = Inr res"
    by (cases "fst (GetQueueItemFiles ''q1'' (snd demo_save))") auto
  ultimately show ?thesis using c by (metis prod.collapse)
qed

end
