(* ===== verification/Http_Props.thy ===== *)
theory Http_Props
  imports Http_Api Downloads_Props
begin

text \<open>
  The HTTP interface: file names are harmless, pages are what was asked for, requests to clean up spare unfinished jobs;
  and the requests that are answered wrongly.
\<close>

section \<open>File names\<close>

definition harmless :: "char \<Rightarrow> bool" where
  "harmless c \<longleftrightarrow> 32 \<le> code c \<and> c \<noteq> CHR ''/'' \<and> code c \<noteq> 92"

lemma trim_left_set: "set (trim_left s) \<subseteq> set s"
  by (induction s rule: trim_left.induct) (auto simp: Let_def dest: in_set_dropD)

lemma trim_left_rev_set: "set (trim_left_rev s) \<subseteq> set s"
  by (induction s rule: trim_left_rev.induct) (auto simp: Let_def dest: in_set_dropD)

lemma trim_space_set: "set (trim_space s) \<subseteq> set s"
  using trim_left_set trim_left_rev_set unfolding trim_space_def by (metis set_rev subset_trans)

lemma sanitized_upload:
  "sanitizeUploadFilename name fallback = fallback \<or>
   sanitizeUploadFilename name fallback \<noteq> [] \<and> list_all harmless (sanitizeUploadFilename name fallback)"
proof -
  have "list_all harmless (trim_space (filter (\<lambda>c. \<not> code c < 32 \<and> c \<noteq> CHR ''/'' \<and> code c \<noteq> 92) x))" for x
    using trim_space_set [of "filter (\<lambda>c. \<not> code c < 32 \<and> c \<noteq> CHR ''/'' \<and> code c \<noteq> 92) x"]
    by (auto simp: list_all_iff harmless_def not_less)
  then show ?thesis unfolding sanitizeUploadFilename_def Let_def by (simp split: if_split)
qed

lemma sanitized_with_fallback:
  "f \<noteq> [] \<Longrightarrow> list_all harmless f \<Longrightarrow> sanitizeUploadFilename name f \<noteq> [] \<and> list_all harmless (sanitizeUploadFilename name f)"
  using sanitized_upload [of name f] by auto

text \<open>Whatever name a file is uploaded under, and whatever title a release has, the name the program goes on with is
  not empty and has no control characters, slashes or backslashes (when the name to fall back on has none); and the
  header of a download keeps the file name inside its quotation marks, without line breaks.\<close>

theorem file_names_are_harmless:
  assumes "fallback \<noteq> []" "list_all harmless fallback"
  shows "sanitizeUploadFilename name fallback \<noteq> [] \<and> list_all harmless (sanitizeUploadFilename name fallback) \<and>
    list_all harmless (buildDownloadFilename name fallback) \<and>
    (\<exists>shown. contentDispositionFilename f = ''attachment; filename='' @ [CHR 0x22] @ shown @ [CHR 0x22] \<and>
       (\<forall>c \<in> set shown. code c \<notin> {10, 13, 34, 92}) \<and> length shown = length f)"
proof -
  let ?shown = "map (\<lambda>c. if code c \<in> {92, 34, 13, 10} then CHR ''_'' else c) f"
  have "\<forall>c \<in> set ?shown. code c \<notin> {10, 13, 34, 92}"
  proof -
    have "code (CHR ''_'') = 95" by code_simp
    then show ?thesis by auto
  qed
  then have shown: "\<exists>shown. contentDispositionFilename f = ''attachment; filename='' @ [CHR 0x22] @ shown @ [CHR 0x22] \<and>
       (\<forall>c \<in> set shown. code c \<notin> {10, 13, 34, 92}) \<and> length shown = length f"
    unfolding contentDispositionFilename_def by (intro exI [of _ ?shown] conjI refl length_map)
  have "list_all harmless ''.nzb''" by code_simp
  with sanitized_with_fallback [OF assms, of name] have "list_all harmless (buildDownloadFilename name fallback)"
    by (simp add: buildDownloadFilename_def Let_def)
  with sanitized_with_fallback [OF assms, of name] shown show ?thesis by blast
qed

lemma file_names_are_harmless_witness:
  "sanitizeUploadFilename ''a/..'' ''manual.nzb'' \<noteq> [] \<and> list_all harmless (sanitizeUploadFilename ''a/..'' ''manual.nzb'')"
proof -
  have "list_all harmless ''manual.nzb''" by code_simp
  from file_names_are_harmless [OF _ this] show ?thesis by simp
qed

section \<open>Pages\<close>

lemma pagination_bounds:
  assumes "parsePaginationParams limit offset defaultPageLimit maxPageLimit = Inr (l, o')"
  shows "1 \<le> l \<and> l \<le> maxPageLimit \<and> 0 \<le> o' \<and> o' \<le> 1000000"
proof -
  have b: "lo \<le> n \<and> n \<le> hi" if "parseOptionalBoundedInt raw field d lo hi = Inr n" "lo \<le> d" "d \<le> hi" for raw field d lo hi n
    using that by (auto simp: parseOptionalBoundedInt_def Let_def split: if_splits option.splits)
  from assms obtain "parseOptionalBoundedInt (trim_space limit) ''limit'' defaultPageLimit 1 maxPageLimit = Inr l"
    "parseOptionalBoundedInt (trim_space offset) ''offset'' 0 0 1000000 = Inr o'"
    by (auto simp: parsePaginationParams_def split: sum.splits)
  from b [OF this(1)] b [OF this(2)] show ?thesis by simp
qed

text \<open>The listings of the queue and of its history never fail on their parameters: a request is answered with status 400
  or with the page of at most 200 items that begins at the offset, and the page says that there is more exactly when
  items of the list come after it.\<close>

theorem listings_are_pages:
  assumes "md_jobs md" "db_up e" "int (length (history_items (trim_space status) (store (ap_queue a)))) < 2 ^ 62"
  shows "case fst (http_ListHistory (Some md) e limit offset status a) of
      Reply st p \<Rightarrow> st = 200 \<and> length (pg_items p) \<le> 200 \<and>
        pg_items p = map mapQueueItem (take (nat (pg_limit p)) (drop (nat (pg_offset p))
          (history_items (trim_space status) (store (ap_queue a))))) \<and>
        pg_has_more p = (nat (pg_offset p) + length (pg_items p) < length (history_items (trim_space status) (store (ap_queue a))))
    | Failed st m \<Rightarrow> st = 400
    | Panic \<Rightarrow> False"
proof (cases "parsePaginationParams limit offset defaultPageLimit maxPageLimit")
  case (Inl x)
  then show ?thesis by (simp add: http_ListHistory_def)
next
  case (Inr lo)
  obtain l k where p: "parsePaginationParams limit offset defaultPageLimit maxPageLimit = Inr (l, k)" using Inr by (cases lo) simp
  note b = pagination_bounds [OF p]
  let ?xs = "history_items (trim_space status) (store (ap_queue a))"
  let ?p = "take (nat l) (drop (nat k) ?xs)"
  have "page_of ?xs l k = Some ?p" using page_is_slice [of l k ?xs] b assms(3) by simp
  then have h: "http_ListHistory (Some md) e limit offset status a =
      (Reply 200 \<lparr>pg_items = map mapQueueItem ?p, pg_total = int (length ?xs), pg_limit = l, pg_offset = k,
         pg_has_more = i64 (k + int (length ?p)) < int (length ?xs)\<rparr>, a)"
    using p assms(1,2) by (simp add: http_ListHistory_def ListHistory_def give_def Let_def)
  have len: "length ?p \<le> nat l" by simp
  then have "int (length ?p) \<le> l" using b by linarith
  then have "in64 (k + int (length ?p))" using b by (simp add: in64_def)
  then have "i64 (k + int (length ?p)) = int (nat k + length ?p)" using b by (simp add: i64_id)
  then have "(i64 (k + int (length ?p)) < int (length ?xs)) = (nat k + length ?p < length ?xs)" by (simp only: of_nat_less_iff)
  moreover have "length ?p \<le> 200" using len b by linarith
  ultimately show ?thesis unfolding h by (simp del: length_take length_drop)
qed

lemma listings_are_pages_witness:
  "fst (http_ListHistory (Some demo_module) demo_env ''1'' ''0'' [] demo_app) \<noteq> Panic"
proof -
  have "md_jobs demo_module" "db_up demo_env" by code_simp+
  moreover have "length (history_items (trim_space []) (store (ap_queue demo_app))) < 9" by code_simp
  then have "int (length (history_items (trim_space []) (store (ap_queue demo_app)))) < 2 ^ 62" by simp
  ultimately show ?thesis using listings_are_pages [of demo_module demo_env "[]" demo_app "''1''" "''0''"]
    by (auto split: reply.splits)
qed

section \<open>Cleaning up\<close>

definition unfinished :: "env \<Rightarrow> app \<Rightarrow> queue_row \<Rightarrow> bool" where
  "unfinished e a row \<longleftrightarrow> \<not> terminal (row_status row) \<and>
     (\<forall>i. GetItem e (row_id row) (ap_queue a) = Some i \<longrightarrow> \<not> terminal (qi_Status i))"

lemma DeleteMany_spares:
  assumes "DeleteMany md e ks a = (r, b)" "unfinished e a row" "row \<in> set (store (ap_queue a))"
  shows "row \<in> set (store (ap_queue b))"
proof -
  have "row_id row \<notin> set (finished_ids e ks (ap_queue a))"
    using assms(2) by (auto simp: finished_ids_def unfinished_def split: option.splits)
  with assms(1,3) show ?thesis
    by (auto simp: DeleteMany_def Let_def refuse_def give_def job_table_def in_queue_def DeleteQueueItems_def split: if_splits)
qed

lemma ClearHistory_spares:
  assumes "ClearHistory md e a = (r, b)" "unfinished e a row" "row \<in> set (store (ap_queue a))"
  shows "row \<in> set (store (ap_queue b))"
proof -
  have "row_status row \<notin> {StatusCompleted, StatusFailed}" using assms(2) by (auto simp: unfinished_def terminal_def)
  with assms(1,3) show ?thesis
    by (auto simp: ClearHistory_def refuse_def job_table_def in_queue_def ClearQueueHistory_def split: if_splits)
qed

text \<open>C33: The requests that clean up - deleting jobs, clearing the history, deleting from the history over the SAB-compatible
  interface - never remove a job that is not finished, whatever ids they name.\<close>

theorem cleaning_spares_unfinished_jobs:
  assumes "unfinished e a row" "row \<in> set (store (ap_queue a))"
  shows "row \<in> set (store (ap_queue (snd (http_DeleteMany md e body a)))) \<and>
    row \<in> set (store (ap_queue (snd (http_ClearHistory md e a)))) \<and>
    row \<in> set (store (ap_queue (snd (sab_history_delete md' e req a))))"
proof (intro conjI)
  note D = DeleteMany_spares [OF _ assms] and C = ClearHistory_spares [OF _ assms]
  show "row \<in> set (store (ap_queue (snd (http_DeleteMany md e body a))))"
    using assms(2) by (simp add: http_DeleteMany_def split: option.split sum.split prod.split) (auto dest: D)
  show "row \<in> set (store (ap_queue (snd (http_ClearHistory md e a))))"
    using assms(2) by (simp add: http_ClearHistory_def split: option.split sum.split prod.split) (auto dest: C)
  show "row \<in> set (store (ap_queue (snd (sab_history_delete md' e req a))))"
    by (simp add: sab_history_delete_def Let_def split: sum.split prod.split) (auto dest: C D)
qed

lemma cleaning_spares_unfinished_jobs_witness:
  "hd demo_rows \<in> set (store (ap_queue (snd (http_DeleteMany (Some demo_module) demo_env (Inr [''q1'', ''q2'']) demo_app))))"
proof -
  have "map_option qi_Status (GetItem demo_env (row_id (hd demo_rows)) (ap_queue demo_app)) = Some StatusPending" by code_simp
  moreover have "\<not> terminal (row_status (hd demo_rows))" by code_simp
  ultimately have "unfinished demo_env demo_app (hd demo_rows)" by (auto simp: unfinished_def terminal_def)
  moreover have "hd demo_rows \<in> set (store (ap_queue demo_app))" by (simp add: demo_app_def demo_rows_def NewQueueManager_def)
  ultimately show ?thesis
    using cleaning_spares_unfinished_jobs [of demo_env demo_app "hd demo_rows" "Some demo_module" "Inr [''q1'', ''q2'']"] by blast
qed

section \<open>Requests that are answered wrongly\<close>

text \<open>A download with an id that no search has found: the lookup fails where it should have found nothing.\<close>

lemma unknown_id_answers_500:
  assumes "ct_faults s = []" "list_all (\<lambda>r. cr_id r \<noteq> k) (cd_releases (ct_db s))" "map_of (ct_recent s) k = None"
    "ag_persist ag" "trim_space k = k" "k \<noteq> []"
  shows "fst (HandleDownload (Some (Some ag)) blobs k [] s) = Failed 500 ''failed to fetch nzb''"
proof -
  from unknown_release_is_an_error [OF assms(1,2)] obtain t where
    t: "GetAggregatorReleaseCacheByID k s = (Inl (scan_error ErrNoRows), t)" by (metis prod.collapse)
  then have "PrepareDownload (Some ag) blobs k s = (Inl (Wrapped ''lookup release'' (scan_error ErrNoRows)), t)"
    using assms(3,4) by (simp add: PrepareDownload_def GetResultByID_def attempt_def map_error_def)
  moreover have "aggregatorErrorStatus (Wrapped ''lookup release'' (scan_error ErrNoRows)) = 500" by code_simp
  ultimately show ?thesis using assms(5,6) by (simp add: HandleDownload_def newznab_error_def)
qed

text \<open>A release that may be redirected to, but has no link.\<close>

lemma redirect_without_link_panics:
  assumes "map_of (ct_recent s) k = Some rel" "rel_RedirectAllowed rel" "rel_DownloadURL rel = []" "trim_space k = k" "k \<noteq> []"
  shows "fst (HandleDownload (Some (Some ag)) None k [] s) = Panic"
  using assms by (simp add: HandleDownload_def PrepareDownload_def GetResultByID_def attempt_def map_error_def give_def)

text \<open>The search text of the SAB-compatible interface is compared with the title in lower case, but is not in lower case.\<close>

lemma to_lower_no_capital: "c \<in> set (to_lower s) \<Longrightarrow> \<not> (65 \<le> code c \<and> code c \<le> 90)"
proof (induction s rule: to_lower.induct)
  case (2 d cs)
  have small: "\<not> (65 \<le> code (char_of (code d + 32) :: char) \<and> code (char_of (code d + 32) :: char) \<le> 90)"
    if "65 \<le> code d \<and> code d \<le> 90"
    using that by (simp add: of_char_of take_bit_eq_mod)
  have ik: "code (CHR ''i'') = 105" "code (CHR ''k'') = 107" by code_simp+
  from 2 small ik show ?case by (auto split: if_splits)
qed simp

lemma contains_letters: "contains_str p s \<Longrightarrow> set p \<subseteq> set s"
proof (induction s)
  case (Cons c s)
  then show ?case by (auto simp: is_prefix_iff) (metis Un_iff insert_iff list.set(2) set_append)
qed simp

lemma capital_search_finds_nothing:
  assumes "c \<in> set search" "65 \<le> code c" "code c \<le> 90"
  shows "\<not> matchesSABSearch i search"
  using assms contains_letters to_lower_no_capital unfolding matchesSABSearch_def by (metis empty_iff empty_set subsetD)

text \<open>The history is cut into a page before the unfinished jobs are left out: they take the place of finished ones.\<close>

definition demo_history_request :: sab_request where
  "demo_history_request = \<lparr>sab_Mode = ''history'', sab_Output = ''json'', sab_Name = [], sab_Value = [], sab_NZOID = [], sab_Limit = ''1'',
     sab_Start = [], sab_Search = [], sab_Category = [], sab_CategoryAlt = [], sab_NZBName = []\<rparr>"

definition demo_busy :: app where
  "demo_busy = demo_app\<lparr>ap_queue := NewQueueManager (rev (map (\<lambda>r. r\<lparr>row_created_at := 0\<rparr>) demo_rows))\<rparr>"

lemma unfinished_jobs_hide_the_history:
  "map row_status (store (ap_queue demo_busy)) = [StatusCompleted, StatusPending]"
  "fst (sab_history demo_module demo_env demo_history_request demo_busy) = Reply 200 (HistoryReply [])"
  by code_simp+

text \<open>A request to delete from the history that names no item: its own name, \<open>delete\<close>, is taken for the item.\<close>

lemma history_delete_without_item:
  assumes "list_all (\<lambda>r. row_id r \<noteq> ''delete'') (store (ap_queue a))" "queue (ap_queue a) = []" "db_up e"
    "md_queue md" "md_jobs md"
  shows "fst (sab_history md e (demo_history_request\<lparr>sab_Name := ''delete''\<rparr>) a) = Failed 404 ''history item not found''"
proof -
  have l: "to_lower ''delete'' = ''delete''" "trim_space ''delete'' = ''delete''" "trim_space [] = []" by code_simp+
  have "find (\<lambda>r. row_id r = ''delete'') (store (ap_queue a)) = None" using assms(1) by (simp add: find_None_iff list_all_iff)
  then have "GetItem e ''delete'' (ap_queue a) = None" using assms(2,3) by (simp add: GetItem_def GetQueueItem_def)
  then have "DeleteMany md e [''delete''] a = (Inr 0, a)" using assms(4,5) by (simp add: DeleteMany_def finished_ids_def give_def)
  then show ?thesis using l by (simp add: sab_history_def sab_history_delete_def demo_history_request_def)
qed

end
