(* ===== verification/Release_Store.thy ===== *)
theory Release_Store
  imports Complex_Main Blob_Store "HOL-Library.Char_ord" "HOL-Library.List_Lexorder" "HOL-Library.Product_Lexorder"
begin

text \<open>
  The releases of the index (\<open>internal/store/pgindex\<close>): the tables a release and its NZB are made of, the readiness
  policy, the readers of the catalogue and the snapshot of a release that the formation of releases writes. A table is
  the list of its rows; the columns are those the code below reads or writes. Floating point figures are rationals.
\<close>

section \<open>Regular expressions of the database\<close>

text \<open>A text is the list of its characters between two marks, which \<open>^\<close> and \<open>$\<close> match.\<close>

datatype mark = Begin | Ch char | Finish

datatype re = Never | Eps | Sym "mark \<Rightarrow> bool" | Seq re re | Alt re re | Star re

fun nullable :: "re \<Rightarrow> bool" where
  "nullable Never = False"
| "nullable Eps = True"
| "nullable (Sym p) = False"
| "nullable (Seq r s) = (nullable r \<and> nullable s)"
| "nullable (Alt r s) = (nullable r \<or> nullable s)"
| "nullable (Star r) = True"

fun deriv :: "mark \<Rightarrow> re \<Rightarrow> re" where
  "deriv x Never = Never"
| "deriv x Eps = Never"
| "deriv x (Sym p) = (if p x then Eps else Never)"
| "deriv x (Seq r s) = (if nullable r then Alt (Seq (deriv x r) s) (deriv x s) else Seq (deriv x r) s)"
| "deriv x (Alt r s) = Alt (deriv x r) (deriv x s)"
| "deriv x (Star r) = Seq (deriv x r) (Star r)"

fun accepts :: "re \<Rightarrow> mark list \<Rightarrow> bool" where
  "accepts r [] = nullable r"
| "accepts r (x # xs) = accepts (deriv x r) xs"

definition marked :: "string \<Rightarrow> mark list" where "marked s = Begin # map Ch s @ [Finish]"

definition found :: "re \<Rightarrow> string \<Rightarrow> bool" where
  "found r s = accepts (Seq (Star (Sym (\<lambda>_. True))) (Seq r (Star (Sym (\<lambda>_. True))))) (marked s)"

fun cls :: "(char \<Rightarrow> bool) \<Rightarrow> mark \<Rightarrow> bool" where
  "cls p (Ch c) = p c"
| "cls p _ = False"

definition lit :: "string \<Rightarrow> re" where "lit s = foldr (\<lambda>c. Seq (Sym (cls (\<lambda>d. d = c)))) s Eps"

definition one :: "(char \<Rightarrow> bool) \<Rightarrow> re" where "one p = Sym (cls p)"

definition some :: "(char \<Rightarrow> bool) \<Rightarrow> re" where "some p = Seq (one p) (Star (one p))"

fun at_least_of :: "nat \<Rightarrow> (char \<Rightarrow> bool) \<Rightarrow> re" where
  "at_least_of 0 p = Star (one p)"
| "at_least_of (Suc n) p = Seq (one p) (at_least_of n p)"

definition at_begin :: re where "at_begin = Sym (\<lambda>x. x = Begin)"

definition at_finish :: re where "at_finish = Sym (\<lambda>x. x = Finish)"

definition maybe :: "re \<Rightarrow> re" where "maybe r = Alt Eps r"

definition lower_or_digit :: "char \<Rightarrow> bool" where
  "lower_or_digit c \<longleftrightarrow> is_digit c \<or> 97 \<le> code c \<and> code c \<le> 122"

definition is_blank :: "char \<Rightarrow> bool" where
  "is_blank c \<longleftrightarrow> c = CHR '' '' \<or> 9 \<le> code c \<and> code c \<le> 13"

text \<open>What ends the title of one file of a post: \<open>(part|vol)[0-9]+([+._-][0-9]+)?$\<close>, and an opaque title of \<open>n\<close>
  letters and digits.\<close>

definition part_or_vol :: re where
  "part_or_vol = Seq (Alt (lit ''part'') (lit ''vol'')) (Seq (some is_digit)
     (maybe (Seq (one (\<lambda>c. c \<in> set ''+._-'')) (some is_digit))))"

definition part_title :: re where
  "part_title = Seq (Alt at_begin (one is_blank)) (Seq part_or_vol at_finish)"

definition opaque_title :: "nat \<Rightarrow> re" where
  "opaque_title n = Seq at_begin (Seq (at_least_of n lower_or_digit) (Seq (maybe (Seq (some is_blank) part_or_vol)) at_finish))"

definition seed_or_test :: "re \<Rightarrow> re \<Rightarrow> re" where
  "seed_or_test before after = Seq (Alt at_begin before) (Seq (Alt (lit ''seed'') (lit ''test'')) (Alt after at_finish))"

text \<open>\<open>BTRIM\<close> removes spaces; \<open>~*\<close> ignores the case of ASCII letters.\<close>

definition btrim :: "string \<Rightarrow> string" where
  "btrim s = rev (dropWhile (\<lambda>c. c = CHR '' '') (rev (dropWhile (\<lambda>c. c = CHR '' '') s)))"

definition without_case :: "string \<Rightarrow> string" where
  "without_case = map (\<lambda>c. if 65 \<le> code c \<and> code c \<le> 90 then char_of (code c + 32) else c)"

section \<open>The tables\<close>

record release_row =
  rl_id :: string
  rl_guid :: string
  rl_provider :: int
  rl_group :: string
  rl_family :: string
  rl_title :: string
  rl_search_title :: string
  rl_title_source :: string
  rl_deobfuscated :: string
  rl_matched_media :: string
  rl_original_media :: string
  rl_category :: string
  rl_category_id :: int
  rl_poster :: string
  rl_source_kind :: string
  rl_size :: int
  rl_posted :: gotime
  rl_file_count :: int
  rl_par_count :: int
  rl_expected :: int
  rl_archive_count :: int
  rl_expected_archive :: int
  rl_completion :: rat
  rl_confidence :: rat
  rl_identity :: string
  rl_password_state :: string
  rl_passworded :: bool
  rl_password_known :: bool
  rl_password_unknown :: bool
  rl_has_par2 :: bool
  rl_has_nfo :: bool
  rl_runtime :: int
  rl_resolution :: string
  rl_video_codec :: string
  rl_audio_codec :: string
  rl_tmdb :: int
  rl_tvdb :: int
  rl_media_type :: string

record override_row =
  ov_release :: string
  ov_title :: string
  ov_hidden :: bool

record file_row =
  fi_release :: string
  fi_binary :: "int option"
  fi_name :: string
  fi_size :: int
  fi_index :: int
  fi_is_pars :: bool
  fi_subject :: string
  fi_poster :: string
  fi_posted :: gotime

record catalog_row =
  cf_id :: int
  cf_release :: string
  cf_name :: string
  cf_size :: int
  cf_index :: int
  cf_is_pars :: bool
  cf_subject :: string
  cf_poster :: string
  cf_posted :: gotime
  cf_articles :: int
  cf_total :: int

record core_row =
  co_binary :: int
  co_newsgroup :: int
  co_posted :: "int option"

record stats_row =
  st_binary :: int
  st_root :: int
  st_observed :: int
  st_total :: int
  st_posted :: gotime
  st_min :: "int option"
  st_max :: "int option"

record ident_row =
  bi_binary :: int
  bi_root :: int
  bi_file_name :: string
  bi_binary_name :: string
  bi_main :: bool

record part_row =
  pa_id :: int
  pa_binary :: int
  pa_article :: int
  pa_posted :: int
  pa_number :: int

record article_row =
  ar_id :: int
  ar_posted :: int
  ar_number :: int
  ar_message :: string
  ar_bytes :: int

record crosspost_row =
  xp_article :: int
  xp_posted :: int
  xp_group :: string

record inspection_row =
  is_binary :: int
  is_stage :: string
  is_status :: string

record archive_state =
  as_release :: string
  as_status :: string
  as_store :: string
  as_kind :: string
  as_key :: string
  as_hash :: string
  as_size :: int
  as_encoding :: string
  as_module :: string
  as_archived :: gotime
  as_eligible :: gotime
  as_purged :: gotime
  as_error :: string

record nzb_row =
  nz_release :: string
  nz_status :: string
  nz_hash :: string
  nz_generated :: gotime
  nz_error :: string

text \<open>\<open>ix_owned\<close> holds the rows of the other tables that belong to a binary (name of the table, binary);
  \<open>ix_superseded\<close> pairs of source and target; \<open>ix_payloads\<close> the articles whose payload is kept; \<open>ix_details\<close> the snapshots
  of archived releases (the row of the release, its override, its files).\<close>

record index_db =
  ix_releases :: "release_row list"
  ix_overrides :: "override_row list"
  ix_files :: "file_row list"
  ix_rel_groups :: "(string \<times> int) list"
  ix_group_names :: "(int \<times> string) list"
  ix_catalog :: "catalog_row list"
  ix_next :: int
  ix_cores :: "core_row list"
  ix_stats :: "stats_row list"
  ix_idents :: "ident_row list"
  ix_parts :: "part_row list"
  ix_articles :: "article_row list"
  ix_crossposts :: "crosspost_row list"
  ix_payloads :: "int list"
  ix_inspections :: "inspection_row list"
  ix_owned :: "(string \<times> int) list"
  ix_superseded :: "(int \<times> int) list"
  ix_archive :: "archive_state list"
  ix_lineage :: "(string \<times> int) list"
  ix_lineage_articles :: "(string \<times> int) list"
  ix_nzb :: "nzb_row list"
  ix_details :: "(string \<times> release_row \<times> override_row option \<times> catalog_row list) list"


section \<open>The readiness policy\<close>

record ready_policy =
  rp_MinMatchConfidence :: rat
  rp_MinCompletionPct :: rat
  rp_MinIdentityStatus :: string
  rp_RequireInspection :: bool
  rp_RequireEnrichment :: bool
  rp_RequireClearTitle :: bool
  rp_RequirePayloadComplete :: bool
  rp_RequireExpectedFileCountComplete :: bool
  rp_RequirePAR2 :: bool
  rp_RequireNFO :: bool
  rp_RequireSFV :: bool
  rp_RetainUntilExpectedFileCountComplete :: bool
  rp_RetainRequirePAR2 :: bool
  rp_RetainRequireNFO :: bool
  rp_RetainRequireSFV :: bool

definition DefaultReleaseReadyPolicy :: ready_policy where
  "DefaultReleaseReadyPolicy =
     \<lparr>rp_MinMatchConfidence = 55 / 100, rp_MinCompletionPct = 100, rp_MinIdentityStatus = ''probable'',
      rp_RequireInspection = True, rp_RequireEnrichment = False, rp_RequireClearTitle = True,
      rp_RequirePayloadComplete = True, rp_RequireExpectedFileCountComplete = False, rp_RequirePAR2 = False,
      rp_RequireNFO = False, rp_RequireSFV = False, rp_RetainUntilExpectedFileCountComplete = False,
      rp_RetainRequirePAR2 = False, rp_RetainRequireNFO = False, rp_RetainRequireSFV = False\<rparr>"

definition NormalizeReleaseReadyPolicy :: "ready_policy \<Rightarrow> ready_policy" where
  "NormalizeReleaseReadyPolicy p =
     (let d = DefaultReleaseReadyPolicy; status = trim_space (to_lower (rp_MinIdentityStatus p))
      in p\<lparr>rp_MinMatchConfidence := (if 0 \<le> rp_MinMatchConfidence p \<and> rp_MinMatchConfidence p \<le> 1
             then rp_MinMatchConfidence p else rp_MinMatchConfidence d),
           rp_MinCompletionPct := (if 0 \<le> rp_MinCompletionPct p \<and> rp_MinCompletionPct p \<le> 100
             then rp_MinCompletionPct p else rp_MinCompletionPct d),
           rp_MinIdentityStatus := (if status = ''identified'' \<or> status = ''probable'' then status else rp_MinIdentityStatus d)\<rparr>)"

text \<open>\<open>%.4f\<close> writes a figure with four decimals, halves to the even neighbour.\<close>

definition four_decimals :: "rat \<Rightarrow> rat" where
  "four_decimals x =
     (let y = x * 10000; f = \<lfloor>y\<rfloor>; r = y - of_int f
      in of_int (if r > 1 / 2 \<or> r = 1 / 2 \<and> odd f then f + 1 else f) / 10000)"

definition override_of :: "index_db \<Rightarrow> string \<Rightarrow> override_row option" where
  "override_of d k = find (\<lambda>v. ov_release v = k) (ix_overrides d)"

definition shown_title :: "index_db \<Rightarrow> release_row \<Rightarrow> string" where
  "shown_title d r = (case override_of d (rl_id r) of
     Some v \<Rightarrow> (if ov_title v \<noteq> [] then ov_title v else rl_title r) | None \<Rightarrow> rl_title r)"

definition effective_title :: "index_db \<Rightarrow> release_row \<Rightarrow> string" where
  "effective_title d r = to_lower (btrim (shown_title d r))"

definition stored_states :: "string list" where "stored_states = [''archived'', ''purge_pending'', ''purged'']"

definition archive_of :: "index_db \<Rightarrow> string \<Rightarrow> archive_state option" where
  "archive_of d k = find (\<lambda>a. as_release a = k) (ix_archive d)"

definition files_of :: "index_db \<Rightarrow> string \<Rightarrow> file_row list" where
  "files_of d k = filter (\<lambda>f. fi_release f = k) (ix_files d)"

definition catalog_of :: "index_db \<Rightarrow> string \<Rightarrow> catalog_row list" where
  "catalog_of d k = filter (\<lambda>f. cf_release f = k) (ix_catalog d)"

definition in_archive :: "index_db \<Rightarrow> string \<Rightarrow> bool" where
  "in_archive d k = (case archive_of d k of Some a \<Rightarrow> as_status a \<in> set stored_states \<and> as_key a \<noteq> [] | None \<Rightarrow> False)"

definition clearTextReleaseTitleClause :: "index_db \<Rightarrow> release_row \<Rightarrow> bool" where
  "clearTextReleaseTitleClause d r =
     (let t = effective_title d r
      in t \<noteq> [] \<and> t \<noteq> ''unknown-release''
        \<and> t \<notin> set [''vip'', ''vip only'', ''private'', ''private release'', ''exclusive'', ''unknown'']
        \<and> \<not> found (opaque_title 12) t \<and> rl_title_source r \<noteq> ''source_obfuscated'')"

definition probableWeakTitleClause :: "index_db \<Rightarrow> release_row \<Rightarrow> bool" where
  "probableWeakTitleClause d r =
     (let t = effective_title d r
      in \<not> (rl_identity r = ''probable'' \<and> rl_category_id r = 8010 \<and> (found part_title t \<or> found (opaque_title 12) t)))"

definition opaqueTitleNeedsEvidenceClause :: "index_db \<Rightarrow> release_row \<Rightarrow> bool" where
  "opaqueTitleNeedsEvidenceClause d r =
     (\<not> (found (opaque_title 16) (effective_title d r) \<and> rl_deobfuscated r = [] \<and> rl_matched_media r = []
        \<and> rl_original_media r = [] \<and> rl_tmdb r \<le> 0 \<and> rl_tvdb r \<le> 0 \<and> rl_media_type r = [] \<and> rl_runtime r \<le> 0
        \<and> rl_resolution r = [] \<and> rl_video_codec r = [] \<and> rl_audio_codec r = [] \<and> \<not> rl_has_nfo r))"

definition payloadCompleteClause :: "release_row \<Rightarrow> bool" where
  "payloadCompleteClause r =
     (let enough = max (rl_file_count r - rl_par_count r) 0 \<ge> rl_expected_archive r
      in rl_archive_count r > 0 \<and> rl_expected_archive r > 0 \<and> enough
       \<or> rl_archive_count r \<le> 0 \<and> (rl_expected_archive r \<le> 0 \<or> enough))"

definition expectedFileCountCompleteClause :: "release_row \<Rightarrow> bool" where
  "expectedFileCountCompleteClause r = (rl_expected r \<le> 0 \<or> rl_file_count r \<ge> rl_expected r)"

definition hasSFVClause :: "index_db \<Rightarrow> release_row \<Rightarrow> bool" where
  "hasSFVClause d r = list_ex (\<lambda>f. has_suffix ''.sfv'' (to_lower (cf_name f))) (catalog_of d (rl_id r))"

definition releasePasswordStateSQL :: "release_row \<Rightarrow> string" where
  "releasePasswordStateSQL r =
     (if rl_password_known r \<or> rl_password_state r \<in> set [''password_known'', ''passworded_known''] then ''password_known''
      else if rl_password_unknown r \<or> rl_passworded r
        \<or> rl_password_state r \<in> set [''password_unknown'', ''passworded_unknown'', ''passworded''] then ''password_unknown''
      else if rl_password_state r = ''not_passworded'' then ''not_passworded'' else ''unknown'')"

definition not_lower_or_digit :: "char \<Rightarrow> bool" where "not_lower_or_digit c \<longleftrightarrow> \<not> lower_or_digit c"

definition releaseReadyVisibilityClause :: "ready_policy \<Rightarrow> index_db \<Rightarrow> release_row \<Rightarrow> bool" where
  "releaseReadyVisibilityClause pol d r =
     (let p = NormalizeReleaseReadyPolicy pol;
          sep = one not_lower_or_digit; dot = one (\<lambda>c. c \<in> set ''._-'')
      in rl_search_title r \<noteq> []
       \<and> (files_of d (rl_id r) \<noteq> [] \<or> in_archive d (rl_id r))
       \<and> effective_title d r \<noteq> ''unknown-release''
       \<and> rl_confidence r \<ge> four_decimals (rp_MinMatchConfidence p)
       \<and> rl_completion r \<ge> four_decimals (rp_MinCompletionPct p)
       \<and> (rl_identity r = ''identified'' \<or> rp_MinIdentityStatus p \<noteq> ''identified'' \<and> rl_identity r = ''probable'')
       \<and> rl_size r > 0
       \<and> (rl_expected r \<le> 1 \<or> rl_file_count r \<ge> 2)
       \<and> \<not> (found (seed_or_test sep sep) (without_case (rl_search_title r))
          \<or> found (seed_or_test dot dot) (without_case (rl_group r)))
       \<and> probableWeakTitleClause d r
       \<and> opaqueTitleNeedsEvidenceClause d r
       \<and> releasePasswordStateSQL r \<in> set [''not_passworded'', ''password_known'']
       \<and> (case override_of d (rl_id r) of Some v \<Rightarrow> \<not> ov_hidden v | None \<Rightarrow> True)
       \<and> (rp_RequireClearTitle p \<longrightarrow> clearTextReleaseTitleClause d r)
       \<and> (rp_RequireInspection p \<longrightarrow> rl_runtime r > 0 \<or> rl_resolution r \<noteq> [] \<or> rl_video_codec r \<noteq> []
          \<or> rl_audio_codec r \<noteq> [] \<or> rl_has_nfo r \<or> rl_has_par2 r)
       \<and> (rp_RequireEnrichment p \<longrightarrow> rl_tmdb r > 0 \<or> rl_tvdb r > 0 \<or> rl_media_type r \<noteq> [] \<or> rl_matched_media r \<noteq> [])
       \<and> (rp_RequirePayloadComplete p \<longrightarrow> payloadCompleteClause r)
       \<and> (rp_RequireExpectedFileCountComplete p \<longrightarrow> expectedFileCountCompleteClause r)
       \<and> (rp_RequirePAR2 p \<longrightarrow> rl_has_par2 r)
       \<and> (rp_RequireNFO p \<longrightarrow> rl_has_nfo r)
       \<and> (rp_RequireSFV p \<longrightarrow> hasSFVClause d r))"


section \<open>Statements, transactions, retries\<close>

text \<open>\<open>in_faults\<close>: what becomes of the coming transactions and single statements; \<open>Some e\<close> is an error somewhere in it,
  with the text the code gives it, after which the tables are as before. \<open>in_ctx\<close> are the coming answers of
  \<open>ctx.Err()\<close>; \<open>in_shop\<close> is the store of the archived NZBs.\<close>

record indexer =
  in_db :: index_db
  in_faults :: "go_error option list"
  in_ctx :: "bool list"
  in_shop :: catalogue
  in_now :: int

type_synonym 'a indexing = "(indexer, go_error, 'a) op"

type_synonym 'a tables = "(index_db, go_error, 'a) op"

definition in_tx :: "'a tables \<Rightarrow> 'a indexing" where
  "in_tx m s =
     (let rest = s\<lparr>in_faults := tl (in_faults s)\<rparr>
      in case in_faults s of
           Some e # _ \<Rightarrow> (Inl e, rest)
         | _ \<Rightarrow> (case m (in_db s) of (Inl e, _) \<Rightarrow> (Inl e, rest) | (Inr x, d) \<Rightarrow> (Inr x, rest\<lparr>in_db := d\<rparr>)))"

definition asks :: "(index_db \<Rightarrow> 'a) \<Rightarrow> 'a tables" where "asks f d = (Inr (f d), d)"

definition change :: "(index_db \<Rightarrow> index_db) \<Rightarrow> unit tables" where "change f d = (Inr (), f d)"

definition payload_call :: "'a shop \<Rightarrow> 'a indexing" where
  "payload_call m s = (case m (in_shop s) of (r, c) \<Rightarrow> (r, s\<lparr>in_shop := c\<rparr>))"

definition ctx_done :: "bool indexing" where
  "ctx_done s = (case in_ctx s of [] \<Rightarrow> (Inr False, s) | b # bs \<Rightarrow> (Inr b, s\<lparr>in_ctx := bs\<rparr>))"

definition containsSQLState :: "string \<Rightarrow> string \<Rightarrow> bool" where
  "containsSQLState t c \<longleftrightarrow>
     t \<noteq> [] \<and> c \<noteq> [] \<and> (contains_str (''SQLSTATE '' @ c) t \<or> contains_str (''sqlstate '' @ c) t)"

definition isRetryablePostgresTxError :: "go_error \<Rightarrow> bool" where
  "isRetryablePostgresTxError e \<longleftrightarrow> containsSQLState (error_text e) ''40P01'' \<or> containsSQLState (error_text e) ''40001''"

text \<open>\<open>retry_tx n m\<close>: at most \<open>n + 1\<close> attempts, between which the context may be cancelled.\<close>

fun retry_tx :: "nat \<Rightarrow> 'a indexing \<Rightarrow> 'a indexing" where
  "retry_tx 0 m s = m s"
| "retry_tx (Suc n) m s =
     (case m s of
        (Inr x, t) \<Rightarrow> (Inr x, t)
      | (Inl e, t) \<Rightarrow>
          if \<not> isRetryablePostgresTxError e then (Inl e, t)
          else attempt ctx_done (\<lambda>b. if b then refuse Canceled else retry_tx n m) t)"

definition retryRetryablePostgresTx :: "'a indexing \<Rightarrow> 'a indexing" where
  "retryRetryablePostgresTx = retry_tx 2"

section \<open>The catalogue\<close>

record catalog_file =
  cl_ID :: int
  cl_BinaryID :: int
  cl_GroupName :: string
  cl_FileName :: string
  cl_Subject :: string
  cl_Poster :: string
  cl_PostedAt :: gotime
  cl_SizeBytes :: int
  cl_IsPars :: bool
  cl_FileIndex :: int

record article_ref =
  af_MessageID :: string
  af_Bytes :: int
  af_PartNumber :: int

record source_span =
  sp_BinaryID :: int
  sp_Min :: int
  sp_Max :: int

definition a_day :: int where "a_day = 24 * 60 * 60 * 1000000000"

definition normalizeBinaryPartSourceSpan :: "int \<Rightarrow> int \<Rightarrow> int option \<Rightarrow> int option \<Rightarrow> source_span" where
  "normalizeBinaryPartSourceSpan binary posted lo hi =
     \<lparr>sp_BinaryID = binary,
      sp_Min = (case lo of Some t \<Rightarrow> t | None \<Rightarrow> posted - a_day),
      sp_Max = (case hi of Some t \<Rightarrow> t | None \<Rightarrow> posted + a_day)\<rparr>"

definition core_of :: "index_db \<Rightarrow> int \<Rightarrow> core_row option" where
  "core_of d b = find (\<lambda>c. co_binary c = b) (ix_cores d)"

text \<open>The row of the statistics that belongs to the binary: same binary, same time of posting.\<close>

definition stats_of :: "index_db \<Rightarrow> int \<Rightarrow> stats_row option" where
  "stats_of d b = (case core_of d b of
     None \<Rightarrow> None | Some c \<Rightarrow> find (\<lambda>r. st_binary r = b \<and> co_posted c = Some (st_root r)) (ix_stats d))"

definition span_of_binary :: "index_db \<Rightarrow> int \<Rightarrow> source_span option" where
  "span_of_binary d b =
     map_option (\<lambda>r. normalizeBinaryPartSourceSpan b (st_root r) (st_min r) (st_max r)) (stats_of d b)"

definition loadBinaryPartSourceSpan :: "int \<Rightarrow> source_span option indexing" where
  "loadBinaryPartSourceSpan b = in_tx (asks (\<lambda>d. span_of_binary d b))"

text \<open>The file of the release behind a row of the catalogue: same release, index and name.\<close>

definition joined_file :: "index_db \<Rightarrow> catalog_row \<Rightarrow> file_row option" where
  "joined_file d c = find (\<lambda>f. fi_release f = cf_release c \<and> fi_index f = cf_index c \<and> fi_name f = cf_name c) (ix_files d)"

definition binary_of_file :: "index_db \<Rightarrow> catalog_row \<Rightarrow> int option" where
  "binary_of_file d c = (case joined_file d c of None \<Rightarrow> None | Some f \<Rightarrow> fi_binary f)"

definition span_of_file :: "index_db \<Rightarrow> int \<Rightarrow> source_span option" where
  "span_of_file d k =
     (case find (\<lambda>c. cf_id c = k) (ix_catalog d) of
        None \<Rightarrow> None
      | Some c \<Rightarrow> (case binary_of_file d c of None \<Rightarrow> None | Some b \<Rightarrow> span_of_binary d b))"

definition loadReleaseFileBinaryPartSourceSpan :: "int \<Rightarrow> source_span option indexing" where
  "loadReleaseFileBinaryPartSourceSpan k = in_tx (asks (\<lambda>d. span_of_file d k))"

text \<open>The parts of a binary with their articles, within the span; of the parts of one number the first by time of posting,
  number of the article and key; in the order of the numbers.\<close>

definition in_span :: "source_span \<Rightarrow> int \<Rightarrow> bool" where "in_span sp t \<longleftrightarrow> sp_Min sp \<le> t \<and> t \<le> sp_Max sp"

definition parts_with_articles :: "index_db \<Rightarrow> source_span \<Rightarrow> (part_row \<times> article_row) list" where
  "parts_with_articles d sp =
     [(p, a). p \<leftarrow> ix_parts d, pa_binary p = sp_BinaryID sp, in_span sp (pa_posted p),
        a \<leftarrow> ix_articles d, ar_id a = pa_article p, ar_posted a = pa_posted p]"

definition part_order :: "part_row \<times> article_row \<Rightarrow> int list" where
  "part_order x = [pa_number (fst x), pa_posted (fst x), ar_number (snd x), pa_id (fst x)]"

definition ref_of_part :: "part_row \<times> article_row \<Rightarrow> article_ref" where
  "ref_of_part x = \<lparr>af_MessageID = ar_message (snd x), af_Bytes = ar_bytes (snd x), af_PartNumber = pa_number (fst x)\<rparr>"

fun first_of_each :: "int list \<Rightarrow> (part_row \<times> article_row) list \<Rightarrow> (part_row \<times> article_row) list" where
  "first_of_each seen [] = []"
| "first_of_each seen (x # xs) =
     (if pa_number (fst x) \<in> set seen then first_of_each seen xs
      else x # first_of_each (pa_number (fst x) # seen) xs)"

definition articles_in_span :: "index_db \<Rightarrow> source_span \<Rightarrow> article_ref list" where
  "articles_in_span d sp = map ref_of_part (first_of_each [] (sort_key part_order (parts_with_articles d sp)))"

definition listCatalogArticlesForBinarySpan :: "source_span \<Rightarrow> article_ref list indexing" where
  "listCatalogArticlesForBinarySpan sp = in_tx (asks (\<lambda>d. articles_in_span d sp))"

definition ListCatalogBinaryArticles :: "int \<Rightarrow> article_ref list indexing" where
  "ListCatalogBinaryArticles b =
     (if b \<le> 0 then refuse (Message ''binary id is required'')
      else attempt (loadBinaryPartSourceSpan b) (\<lambda>r. case r of
        None \<Rightarrow> give [] | Some sp \<Rightarrow> listCatalogArticlesForBinarySpan sp))"

definition ListCatalogReleaseFileArticles :: "int \<Rightarrow> article_ref list indexing" where
  "ListCatalogReleaseFileArticles k =
     (if k \<le> 0 then refuse (Message ''release file id is required'')
      else attempt (loadReleaseFileBinaryPartSourceSpan k) (\<lambda>r. case r of
        None \<Rightarrow> give []
      | Some sp \<Rightarrow>
          if sp_BinaryID sp \<le> 0 then give []
          else attempt (map_error (Wrapped (''list catalog release file articles '' @ itoa k)) (listCatalogArticlesForBinarySpan sp))
            (\<lambda>out. if out \<noteq> [] then give out
               else map_error (Wrapped (''fallback binary articles for release file '' @ itoa k @ '' binary '' @ itoa (sp_BinaryID sp)))
                 (ListCatalogBinaryArticles (sp_BinaryID sp)))))"

definition group_name :: "index_db \<Rightarrow> int \<Rightarrow> string" where
  "group_name d g = (case map_of (ix_group_names d) g of Some x \<Rightarrow> x | None \<Rightarrow> [])"

definition ListCatalogBinaryNewsgroups :: "int \<Rightarrow> string list indexing" where
  "ListCatalogBinaryNewsgroups b =
     (if b \<le> 0 then refuse (Message ''binary id is required'')
      else in_tx (asks (\<lambda>d. case core_of d b of
        None \<Rightarrow> []
      | Some c \<Rightarrow> (case map_of (ix_group_names d) (co_newsgroup c) of
            None \<Rightarrow> [] | Some g \<Rightarrow> if trim_space g = [] then [] else [trim_space g]))))"

definition catalog_entry :: "index_db \<Rightarrow> catalog_row \<Rightarrow> catalog_file" where
  "catalog_entry d c =
     (let b = binary_of_file d c
      in \<lparr>cl_ID = cf_id c, cl_BinaryID = (case b of Some n \<Rightarrow> n | None \<Rightarrow> 0),
          cl_GroupName = (case b of None \<Rightarrow> [] | Some n \<Rightarrow> (case core_of d n of None \<Rightarrow> [] | Some k \<Rightarrow> group_name d (co_newsgroup k))),
          cl_FileName = cf_name c, cl_Subject = cf_subject c, cl_Poster = cf_poster c, cl_PostedAt = cf_posted c,
          cl_SizeBytes = cf_size c, cl_IsPars = cf_is_pars c, cl_FileIndex = cf_index c\<rparr>)"

definition catalog_files :: "index_db \<Rightarrow> string \<Rightarrow> catalog_file list" where
  "catalog_files d k = map (catalog_entry d) (sort_key (\<lambda>c. (cf_index c, cf_id c)) (catalog_of d k))"

definition need_release :: "string \<Rightarrow> (string \<Rightarrow> 'a indexing) \<Rightarrow> 'a indexing" where
  "need_release k m = (let k = trim_space k in if k = [] then refuse (Message ''release id is required'') else m k)"

definition ListCatalogReleaseFiles :: "string \<Rightarrow> catalog_file list indexing" where
  "ListCatalogReleaseFiles k = need_release k (\<lambda>k. in_tx (asks (\<lambda>d. catalog_files d k)))"

text \<open>The groups of a release: its own, and those the articles of its parts were posted to as well.\<close>

definition binaries_of :: "index_db \<Rightarrow> string \<Rightarrow> int list" where
  "binaries_of d k = List.map_filter fi_binary (files_of d k)"

definition crosspost_groups :: "index_db \<Rightarrow> int \<Rightarrow> string list" where
  "crosspost_groups d b =
     (case span_of_binary d b of
        None \<Rightarrow> []
      | Some sp \<Rightarrow> [xp_group x. p \<leftarrow> ix_parts d, pa_binary p = b, in_span sp (pa_posted p),
           x \<leftarrow> ix_crossposts d, xp_article x = pa_article p, xp_posted x = pa_posted p])"

definition catalog_groups :: "index_db \<Rightarrow> string \<Rightarrow> string list" where
  "catalog_groups d k =
     remdups (filter (\<lambda>g. btrim g \<noteq> [])
       (List.map_filter (\<lambda>x. if fst x = k then map_of (ix_group_names d) (snd x) else None) (ix_rel_groups d)
        @ concat (map (crosspost_groups d) (binaries_of d k))))"

definition ListCatalogReleaseNewsgroups :: "string \<Rightarrow> string list indexing" where
  "ListCatalogReleaseNewsgroups k =
     need_release k (\<lambda>k. in_tx (asks (\<lambda>d. map trim_space (sort (catalog_groups d k)))))"

definition GetCatalogReleaseByID :: "string \<Rightarrow> release option indexing" where
  "GetCatalogReleaseByID k = need_release k (\<lambda>k. in_tx (asks (\<lambda>d.
     map_option (\<lambda>r. empty_release\<lparr>rel_ID := rl_id r, rel_Title := rl_title r, rel_GUID := rl_guid r, rel_Source := rl_source_kind r,
         rel_Size := rl_size r, rel_PublishDate := rl_posted r, rel_Category := rl_category r, rel_Poster := rl_poster r,
         rel_CachePresent := in_archive d k\<rparr>)
       (find (\<lambda>r. rl_id r = k) (ix_releases d)))))"

definition GetReleaseArchiveState :: "string \<Rightarrow> archive_state option indexing" where
  "GetReleaseArchiveState k = need_release k (\<lambda>k. in_tx (asks (\<lambda>d. archive_of d k)))"


section \<open>Writing a release\<close>

text \<open>The rows of the catalogue are made anew from the files of the release; \<open>GROUP BY\<close> takes files that agree in
  everything shown as one.\<close>

definition catalog_row_of :: "index_db \<Rightarrow> file_row \<Rightarrow> catalog_row" where
  "catalog_row_of d f =
     (let r = (case fi_binary f of None \<Rightarrow> None | Some b \<Rightarrow> stats_of d b)
      in \<lparr>cf_id = 0, cf_release = fi_release f, cf_name = fi_name f, cf_size = fi_size f, cf_index = fi_index f,
          cf_is_pars = fi_is_pars f, cf_subject = fi_subject f, cf_poster = fi_poster f,
          cf_posted = (if fi_posted f = None then Option.bind r st_posted else fi_posted f),
          cf_articles = (case r of None \<Rightarrow> 0 | Some x \<Rightarrow> st_observed x),
          cf_total = (case r of None \<Rightarrow> 0 | Some x \<Rightarrow> st_total x)\<rparr>)"

fun numbered :: "int \<Rightarrow> catalog_row list \<Rightarrow> catalog_row list" where
  "numbered n [] = []"
| "numbered n (c # cs) = c\<lparr>cf_id := n\<rparr> # numbered (n + 1) cs"

definition sync_catalog :: "string \<Rightarrow> index_db \<Rightarrow> index_db" where
  "sync_catalog k d =
     (let rows = map (catalog_row_of d) (files_of d k)
      in d\<lparr>ix_catalog := filter (\<lambda>c. cf_release c \<noteq> k) (ix_catalog d) @ numbered (ix_next d) rows,
           ix_next := ix_next d + int (length rows)\<rparr>)"

definition need_id :: "string \<Rightarrow> (string \<Rightarrow> 'a tables) \<Rightarrow> 'a tables" where
  "need_id k m = (let k = trim_space k in if k = [] then refuse (Message ''release id is required'') else m k)"

definition syncReleaseCatalogFiles :: "string \<Rightarrow> unit tables" where
  "syncReleaseCatalogFiles k = need_id k (\<lambda>k. change (sync_catalog k))"

definition put_row :: "('a \<Rightarrow> 'k) \<Rightarrow> 'k \<Rightarrow> ('a option \<Rightarrow> 'a) \<Rightarrow> 'a list \<Rightarrow> 'a list" where
  "put_row key k f rows =
     (if list_ex (\<lambda>x. key x = k) rows then map (\<lambda>x. if key x = k then f (Some x) else x) rows else rows @ [f None])"

definition upsertNZBCacheWithRunner :: "int \<Rightarrow> string \<Rightarrow> string \<Rightarrow> string \<Rightarrow> string \<Rightarrow> unit tables" where
  "upsertNZBCacheWithRunner now k status sha err =
     need_id k (\<lambda>k.
       let st = trim_space (to_lower status); st = (if st = [] then ''pending'' else st);
           made = (if st = ''ready'' then Some now else None)
       in change (\<lambda>d. d\<lparr>ix_nzb := put_row nz_release k
            (\<lambda>old. \<lparr>nz_release = k, nz_status = st, nz_hash = trim_space sha,
               nz_generated = (if made = None then Option.bind old nz_generated else made), nz_error = trim_space err\<rparr>)
            (ix_nzb d)\<rparr>))"

definition UpsertNZBCache :: "string \<Rightarrow> string \<Rightarrow> string \<Rightarrow> string \<Rightarrow> unit indexing" where
  "UpsertNZBCache k status sha err s = in_tx (upsertNZBCacheWithRunner (in_now s) k status sha err) s"

text \<open>A file as it is handed in; the binary 0 is none, and one that is not there any more is left out.\<close>

record file_record =
  fr_BinaryID :: int
  fr_FileName :: string
  fr_SizeBytes :: int
  fr_FileIndex :: int
  fr_IsPars :: bool
  fr_Subject :: string
  fr_Poster :: string
  fr_PostedAt :: gotime

definition file_row_of :: "index_db \<Rightarrow> string \<Rightarrow> file_record \<Rightarrow> file_row" where
  "file_row_of d k f =
     \<lparr>fi_release = k,
      fi_binary = (if fr_BinaryID f > 0 \<and> core_of d (fr_BinaryID f) \<noteq> None then Some (fr_BinaryID f) else None),
      fi_name = trim_space (fr_FileName f), fi_size = fr_SizeBytes f, fi_index = fr_FileIndex f, fi_is_pars = fr_IsPars f,
      fi_subject = trim_space (fr_Subject f), fi_poster = trim_space (fr_Poster f), fi_posted = fr_PostedAt f\<rparr>"

text \<open>The unique indexes of the files: (release, name), and the binary.\<close>

definition files_unique :: "file_row list \<Rightarrow> bool" where
  "files_unique fs \<longleftrightarrow> distinct (map (\<lambda>f. (fi_release f, fi_name f)) fs) \<and> distinct (List.map_filter fi_binary fs)"

definition given_binaries :: "file_record list \<Rightarrow> int list" where
  "given_binaries fs = remdups (filter (\<lambda>b. b > 0) (map fr_BinaryID fs))"

definition replaceReleaseFilesInRunner :: "string \<Rightarrow> file_record list \<Rightarrow> unit tables" where
  "replaceReleaseFilesInRunner k fs =
     need_id k (\<lambda>k.
       attempt (change (\<lambda>d. d\<lparr>ix_files := filter (\<lambda>f. fi_release f \<noteq> k) (ix_files d)\<rparr>)) (\<lambda>_.
       attempt (change (\<lambda>d. d\<lparr>ix_files := filter (\<lambda>f. \<not> (\<exists>b \<in> set (given_binaries fs). fi_binary f = Some b)) (ix_files d)\<rparr>)) (\<lambda>_.
       attempt (\<lambda>d. let rows = ix_files d @ map (file_row_of d k) fs
          in if files_unique rows then (Inr (), d\<lparr>ix_files := rows\<rparr>)
             else refuse (Wrapped (''insert release files for '' @ k) (Message ''duplicate key value violates unique constraint'')) d) (\<lambda>_.
       syncReleaseCatalogFiles k))))"

definition replaceReleaseNewsgroupsInRunner :: "string \<Rightarrow> int list \<Rightarrow> unit tables" where
  "replaceReleaseNewsgroupsInRunner k gs =
     need_id k (\<lambda>k. change (\<lambda>d. d\<lparr>ix_rel_groups :=
       filter (\<lambda>x. fst x \<noteq> k) (ix_rel_groups d) @ map (\<lambda>g. (k, g)) (rev (remdups (rev (filter (\<lambda>g. g > 0) gs))))\<rparr>))"

definition ReplaceReleaseFiles :: "string \<Rightarrow> file_record list \<Rightarrow> unit indexing" where
  "ReplaceReleaseFiles k fs = in_tx (replaceReleaseFilesInRunner k fs)"

definition ReplaceReleaseNewsgroups :: "string \<Rightarrow> int list \<Rightarrow> unit indexing" where
  "ReplaceReleaseNewsgroups k gs = in_tx (replaceReleaseNewsgroupsInRunner k gs)"

text \<open>The row of the release. \<open>fresh\<close> is the new key, \<open>guid\<close> the stable identifier (a digest of provider and group),
  \<open>recat\<close> the category that is worked out afterwards. The columns of the family are one column here.\<close>

definition firstNonBlank :: "string list \<Rightarrow> string" where
  "firstNonBlank xs = (case find (\<lambda>x. trim_space x \<noteq> []) xs of Some x \<Rightarrow> trim_space x | None \<Rightarrow> [])"

definition keeps_title :: "release_row \<Rightarrow> release_row \<Rightarrow> bool" where
  "keeps_title old new \<longleftrightarrow> rl_title_source old \<noteq> [] \<and> rl_title_source old \<noteq> ''source''
     \<and> (rl_title_source new = [] \<or> rl_title_source new = ''source'')"

definition merge_release_row :: "release_row \<Rightarrow> release_row \<Rightarrow> release_row" where
  "merge_release_row old new =
     (let known = rl_password_known old \<or> rl_password_known new;
          pick = (\<lambda>f. if f new \<noteq> ([] :: string) then f new else f old);
          title = (\<lambda>f. if keeps_title old new then f old else (f new :: string))
      in new\<lparr>rl_id := rl_id old,
           rl_title := title rl_title, rl_deobfuscated := title rl_deobfuscated,
           rl_title_source := title rl_title_source, rl_search_title := title rl_search_title,
           rl_matched_media := pick rl_matched_media,
           rl_expected := max (rl_expected old) (rl_expected new),
           rl_expected_archive := max (rl_expected_archive old) (rl_expected_archive new),
           rl_passworded := (rl_passworded old \<or> rl_passworded new),
           rl_password_known := known,
           rl_password_unknown := (\<not> known \<and> (rl_password_unknown old \<or> rl_password_unknown new)),
           rl_password_state :=
             (if known then ''password_known''
              else if rl_password_unknown old \<or> rl_password_unknown new then ''password_unknown''
              else if rl_passworded old \<or> rl_passworded new then ''password_unknown''
              else if rl_password_state new \<noteq> [] \<and> rl_password_state new \<noteq> ''unknown'' then rl_password_state new
              else rl_password_state old),
           rl_has_par2 := (rl_has_par2 old \<or> rl_has_par2 new),
           rl_has_nfo := (rl_has_nfo old \<or> rl_has_nfo new),
           rl_archive_count := max (rl_archive_count old) (rl_archive_count new),
           rl_runtime := (if rl_runtime new > 0 then rl_runtime new else rl_runtime old),
           rl_resolution := pick rl_resolution, rl_video_codec := pick rl_video_codec,
           rl_audio_codec := pick rl_audio_codec,
           rl_tmdb := rl_tmdb old, rl_tvdb := rl_tvdb old, rl_media_type := rl_media_type old,
           rl_original_media := rl_original_media old, rl_source_kind := rl_source_kind old\<rparr>)"

datatype snapshot_status = SnapshotInserted | SnapshotUpdated | SnapshotSkippedDowngrade

definition same_release :: "int \<Rightarrow> string \<Rightarrow> release_row \<Rightarrow> bool" where
  "same_release p g r \<longleftrightarrow> rl_provider r = p \<and> rl_group r = g"

definition with_category :: "(release_row \<Rightarrow> int \<times> string) \<Rightarrow> release_row \<Rightarrow> release_row" where
  "with_category f r = r\<lparr>rl_category_id := fst (f r), rl_category := snd (f r)\<rparr>"

definition upsertReleaseWithRunner ::
  "string \<Rightarrow> (int \<Rightarrow> string \<Rightarrow> string) \<Rightarrow> (index_db \<Rightarrow> release_row \<Rightarrow> int \<times> string) \<Rightarrow> release_row
     \<Rightarrow> (string \<times> snapshot_status) tables" where
  "upsertReleaseWithRunner fresh guid recat r d =
     (let g = firstNonBlank [rl_group r]; fam = firstNonBlank [rl_family r, rl_group r]
      in if rl_provider r \<le> 0 then refuse (Message ''provider id is required'') d
         else if fam = [] then refuse (Message ''release family key is required'') d
         else if g = [] then refuse (Message ''group name is required'') d
         else
           let new = r\<lparr>rl_group := g, rl_family := fam,
                 rl_id := (if trim_space (rl_id r) = [] then fresh else rl_id r),
                 rl_guid := (if trim_space (rl_guid r) = [] then guid (rl_provider r) g else rl_guid r),
                 rl_source_kind := ''usenet_index'', rl_title := trim_space (rl_title r),
                 rl_deobfuscated := trim_space (rl_deobfuscated r), rl_matched_media := trim_space (rl_matched_media r),
                 rl_title_source := trim_space (rl_title_source r), rl_search_title := trim_space (rl_search_title r),
                 rl_poster := trim_space (rl_poster r), rl_identity := trim_space (rl_identity r),
                 rl_password_state := trim_space (rl_password_state r), rl_resolution := trim_space (rl_resolution r),
                 rl_video_codec := trim_space (rl_video_codec r), rl_audio_codec := trim_space (rl_audio_codec r),
                 rl_tmdb := 0, rl_tvdb := 0, rl_media_type := [], rl_original_media := []\<rparr>
           in case find (same_release (rl_provider r) g) (ix_releases d) of
                Some old \<Rightarrow>
                  (Inr (rl_id old, SnapshotUpdated),
                   d\<lparr>ix_releases := map (\<lambda>x. if same_release (rl_provider r) g x then with_category (recat d) (merge_release_row x new) else x)
                     (ix_releases d)\<rparr>)
              | None \<Rightarrow> (Inr (rl_id new, SnapshotInserted), d\<lparr>ix_releases := ix_releases d @ [with_category (recat d) new]\<rparr>))"

definition releaseSnapshotWouldDowngrade :: "release_row \<Rightarrow> release_row \<Rightarrow> bool" where
  "releaseSnapshotWouldDowngrade old new =
     (if trim_space (rl_id old) = [] \<or> rl_file_count old \<le> 0 then False
      else if rl_file_count new \<le> 0 then True
      else
        let expected = max (rl_expected old) (rl_expected new);
            completionDrop = rl_completion new + 1 / 100 < rl_completion old;
            fileDrop = rl_file_count new < rl_file_count old;
            sizeDrop = rl_size new > 0 \<and> rl_size old > 0 \<and> rl_size new < rl_size old
        in expected > 1 \<and> completionDrop \<and> (fileDrop \<or> sizeDrop)
         \<or> expected > 1 \<and> fileDrop \<and> sizeDrop \<and> rl_completion new < 100)"

definition loadExistingReleaseSnapshotQuality :: "int \<Rightarrow> string \<Rightarrow> index_db \<Rightarrow> release_row option" where
  "loadExistingReleaseSnapshotQuality p g d =
     (if p \<le> 0 \<or> trim_space g = [] then None else find (same_release p (trim_space g)) (ix_releases d))"

definition persist_snapshot ::
  "int \<Rightarrow> string \<Rightarrow> (int \<Rightarrow> string \<Rightarrow> string) \<Rightarrow> (index_db \<Rightarrow> release_row \<Rightarrow> int \<times> string) \<Rightarrow> release_row
     \<Rightarrow> file_record list \<Rightarrow> int list \<Rightarrow> (string \<times> snapshot_status) tables" where
  "persist_snapshot now fresh guid recat r fs gs =
     attempt (asks (loadExistingReleaseSnapshotQuality (rl_provider r) (rl_group r))) (\<lambda>old.
       if (case old of Some x \<Rightarrow> releaseSnapshotWouldDowngrade x r | None \<Rightarrow> False)
       then give (rl_id (the old), SnapshotSkippedDowngrade)
       else attempt (upsertReleaseWithRunner fresh guid recat r) (\<lambda>res.
         attempt (replaceReleaseFilesInRunner (fst res) fs) (\<lambda>_.
         attempt (replaceReleaseNewsgroupsInRunner (fst res) gs) (\<lambda>_.
         attempt (upsertNZBCacheWithRunner now (fst res) ''pending'' [] []) (\<lambda>_.
         give res)))))"

definition PersistReleaseSnapshot ::
  "string \<Rightarrow> (int \<Rightarrow> string \<Rightarrow> string) \<Rightarrow> (index_db \<Rightarrow> release_row \<Rightarrow> int \<times> string) \<Rightarrow> release_row
     \<Rightarrow> file_record list \<Rightarrow> int list \<Rightarrow> (string \<times> snapshot_status) indexing" where
  "PersistReleaseSnapshot fresh guid recat r fs gs s =
     retryRetryablePostgresTx (in_tx (persist_snapshot (in_now s) fresh guid recat r fs gs)) s"

end
