(* ===== verification/Archive.thy ===== *)
theory Archive
  imports Release_Store Aggregator
begin

text \<open>
  The archive of the NZBs of finished releases: the states of a release in it and the purge of what the NZB was made from
  (\<open>pgindex/archive_store.go\<close>, \<open>release_generate_store.go\<close>), the three stages that move releases through these states
  (\<open>indexing/releasegenerate\<close>, \<open>releasearchive\<close>, \<open>releasepurge\<close>), and the resolver that hands out the NZB of a release
  from the archive or builds it from the articles (\<open>resolver/usenet_index.go\<close>).
\<close>

section \<open>Claiming\<close>

record archive_candidate =
  ca_ReleaseID :: string
  ca_ProviderID :: int
  ca_Title :: string

text \<open>\<open>posted_at DESC NULLS LAST, release_id\<close>, the first \<open>n\<close>; \<open>locked\<close> are the releases another transaction holds.\<close>

definition latest_posted :: "release_row list \<Rightarrow> release_row list" where
  "latest_posted rs = sort_key (\<lambda>r. (rl_posted r = None, case rl_posted r of Some t \<Rightarrow> - t | None \<Rightarrow> 0)) (sort_key rl_id rs)"

definition status_of :: "index_db \<Rightarrow> string \<Rightarrow> string" where
  "status_of d k = (case archive_of d k of Some a \<Rightarrow> as_status a | None \<Rightarrow> ''active'')"

definition may_be_claimed :: "index_db \<Rightarrow> string \<Rightarrow> bool" where
  "may_be_claimed d k \<longleftrightarrow> status_of d k = ''active'' \<or> status_of d k = ''archive_failed''"

definition new_archive_state :: "string \<Rightarrow> archive_state" where
  "new_archive_state k =
     \<lparr>as_release = k, as_status = ''active'', as_store = ''indexer_archive'', as_kind = ''fs'', as_key = [], as_hash = [],
      as_size = 0, as_encoding = ''identity'', as_module = ''usenet_index'', as_archived = None, as_eligible = None,
      as_purged = None, as_error = []\<rparr>"

definition put_state :: "string \<Rightarrow> (archive_state \<Rightarrow> archive_state) \<Rightarrow> index_db \<Rightarrow> index_db" where
  "put_state k f d =
     d\<lparr>ix_archive := put_row as_release k (\<lambda>old. f (case old of Some a \<Rightarrow> a | None \<Rightarrow> new_archive_state k)) (ix_archive d)\<rparr>"

definition mark_pending :: "string \<Rightarrow> index_db \<Rightarrow> index_db" where
  "mark_pending k = put_state k (\<lambda>a. a\<lparr>as_status := ''archive_pending'', as_error := []\<rparr>)"

definition claim_rows :: "string list \<Rightarrow> int \<Rightarrow> (index_db \<Rightarrow> release_row \<Rightarrow> bool) \<Rightarrow> archive_candidate list tables" where
  "claim_rows locked n eligible d =
     (let picked = take (nat n) (latest_posted (filter (\<lambda>r. eligible d r \<and> rl_id r \<notin> set locked) (ix_releases d)))
      in (Inr (map (\<lambda>r. \<lparr>ca_ReleaseID = rl_id r, ca_ProviderID = rl_provider r, ca_Title = rl_title r\<rparr>) (sort_key rl_id picked)),
          fold (\<lambda>r. mark_pending (rl_id r)) picked d))"

definition inspected :: "string \<Rightarrow> index_db \<Rightarrow> string \<Rightarrow> bool" where
  "inspected stage d k =
     list_ex (\<lambda>b. list_ex (\<lambda>i. is_binary i = b \<and> is_stage i = stage \<and> is_status i = ''completed'') (ix_inspections d))
       (binaries_of d k)"

definition has_groups :: "index_db \<Rightarrow> string \<Rightarrow> bool" where
  "has_groups d k = list_ex (\<lambda>x. fst x = k) (ix_rel_groups d)"

definition nzb_ready :: "index_db \<Rightarrow> string \<Rightarrow> bool" where
  "nzb_ready d k = list_ex (\<lambda>z. nz_release z = k \<and> nz_status z = ''ready'') (ix_nzb d)"

definition archive_eligible :: "ready_policy \<Rightarrow> index_db \<Rightarrow> release_row \<Rightarrow> bool" where
  "archive_eligible p d r \<longleftrightarrow>
     rl_source_kind r = ''usenet_index'' \<and> nzb_ready d (rl_id r) \<and> releaseReadyVisibilityClause p d r
     \<and> files_of d (rl_id r) \<noteq> [] \<and> has_groups d (rl_id r)
     \<and> inspected ''inspect_archive'' d (rl_id r) \<and> inspected ''inspect_media'' d (rl_id r) \<and> may_be_claimed d (rl_id r)"

definition ClaimReleaseArchiveCandidates :: "string list \<Rightarrow> int \<Rightarrow> ready_policy \<Rightarrow> archive_candidate list indexing" where
  "ClaimReleaseArchiveCandidates locked limit p =
     in_tx (claim_rows locked (if limit \<le> 0 then 100 else limit) (archive_eligible (NormalizeReleaseReadyPolicy p)))"

text \<open>Whether a file is the first volume of an archive, or a media file; \<open>n\<close> is its name in lower case.\<close>

definition ident_of :: "index_db \<Rightarrow> file_row \<Rightarrow> ident_row option" where
  "ident_of d f = (case fi_binary f of None \<Rightarrow> None | Some b \<Rightarrow> (case core_of d b of None \<Rightarrow> None
     | Some c \<Rightarrow> find (\<lambda>i. bi_binary i = b \<and> co_posted c = Some (bi_root i)) (ix_idents d)))"

definition main_payload :: "index_db \<Rightarrow> file_row \<Rightarrow> bool" where
  "main_payload d f = (case ident_of d f of Some i \<Rightarrow> bi_main i | None \<Rightarrow> True)"

definition known_name :: "index_db \<Rightarrow> file_row \<Rightarrow> string" where
  "known_name d f = to_lower
     (let i = ident_of d f
      in case find (\<lambda>x. x \<noteq> []) [fi_name f, case i of Some x \<Rightarrow> bi_file_name x | None \<Rightarrow> [],
           case i of Some x \<Rightarrow> bi_binary_name x | None \<Rightarrow> []] of Some n \<Rightarrow> n | None \<Rightarrow> [])"

definition digit_re :: re where "digit_re = one is_digit"

definition opens_archive :: "string \<Rightarrow> bool" where
  "opens_archive n \<longleftrightarrow>
     has_suffix ''.7z'' n \<or> has_suffix ''.7z.001'' n \<or> has_suffix ''.zip'' n \<or> has_suffix ''.zip.001'' n
     \<or> found (Seq (lit ''.part'') (Seq (Star (one (\<lambda>c. c = CHR ''0''))) (Seq (lit ''1.rar'') at_finish))) n
     \<or> has_suffix ''.r00'' n
     \<or> has_suffix ''.rar'' n
       \<and> \<not> found (Seq (lit ''.part'') (Seq (some is_digit) (Seq (lit ''.rar'') at_finish))) n
       \<and> \<not> found (Seq (lit ''.r'') (Seq digit_re (Seq digit_re (Seq (maybe digit_re) at_finish)))) n"

definition media_name :: "string \<Rightarrow> bool" where
  "media_name n \<longleftrightarrow> list_ex (\<lambda>e. has_suffix e n) [''.mkv'', ''.mp4'', ''.avi'', ''.ts'', ''.flac'', ''.mp3'', ''.m4a'']"

definition media_file_inspected :: "index_db \<Rightarrow> string \<Rightarrow> bool" where
  "media_file_inspected d k =
     list_ex (\<lambda>f. main_payload d f \<and> media_name (known_name d f) \<and>
        (case fi_binary f of None \<Rightarrow> False | Some b \<Rightarrow>
           list_ex (\<lambda>i. is_binary i = b \<and> is_stage i = ''inspect_media'' \<and> is_status i = ''completed'') (ix_inspections d)))
       (files_of d k)"

definition inspection_done :: "index_db \<Rightarrow> string \<Rightarrow> bool" where
  "inspection_done d k =
     (if list_ex (\<lambda>f. main_payload d f \<and> opens_archive (known_name d f)) (files_of d k)
      then inspected ''inspect_archive'' d k \<and> inspected ''inspect_media'' d k
      else media_file_inspected d k)"

definition generate_eligible :: "ready_policy \<Rightarrow> index_db \<Rightarrow> release_row \<Rightarrow> bool" where
  "generate_eligible p d r \<longleftrightarrow>
     rl_source_kind r = ''usenet_index'' \<and> files_of d (rl_id r) \<noteq> [] \<and> has_groups d (rl_id r)
     \<and> (rp_RequireInspection p \<longrightarrow> inspection_done d (rl_id r)) \<and> may_be_claimed d (rl_id r)
     \<and> releaseReadyVisibilityClause (if rp_RequirePayloadComplete p then p\<lparr>rp_MinCompletionPct := 0\<rparr> else p) d r"

definition ListReleaseNZBGenerateCandidates :: "string list \<Rightarrow> int \<Rightarrow> ready_policy \<Rightarrow> archive_candidate list indexing" where
  "ListReleaseNZBGenerateCandidates locked limit p =
     in_tx (claim_rows locked (if limit \<le> 0 then 100 else limit) (generate_eligible (NormalizeReleaseReadyPolicy p)))"

section \<open>What becomes of a claimed release\<close>

record stored_record =
  sr_ReleaseID :: string
  sr_ArchiveStore :: string
  sr_ObjectStoreKind :: string
  sr_ObjectKey :: string
  sr_ContentHashSHA256 :: string
  sr_ObjectSizeBytes :: int
  sr_ContentEncoding :: string
  sr_SourceModule :: string

definition stored_state :: "int \<Rightarrow> stored_record \<Rightarrow> archive_state \<Rightarrow> archive_state" where
  "stored_state now r a =
     a\<lparr>as_status := ''purge_pending'', as_store := firstNonBlank [sr_ArchiveStore r, ''indexer_archive''],
       as_kind := firstNonBlank [sr_ObjectStoreKind r, ''fs''], as_key := trim_space (sr_ObjectKey r),
       as_hash := trim_space (sr_ContentHashSHA256 r), as_size := sr_ObjectSizeBytes r,
       as_encoding := firstNonBlank [sr_ContentEncoding r, ''identity''],
       as_module := firstNonBlank [sr_SourceModule r, ''usenet_index''],
       as_archived := Some now, as_eligible := Some now, as_purged := None, as_error := []\<rparr>"

text \<open>What the purge will remove is written down: the binaries of the files and the articles of their parts.\<close>

definition lineage_of :: "index_db \<Rightarrow> string \<Rightarrow> int list" where
  "lineage_of d k = remdups (binaries_of d k)"

definition lineage_articles_of :: "index_db \<Rightarrow> string \<Rightarrow> int list" where
  "lineage_articles_of d k =
     remdups [pa_article p. b \<leftarrow> binaries_of d k, p \<leftarrow> ix_parts d, pa_binary p = b]"

definition seed_lineage :: "string \<Rightarrow> index_db \<Rightarrow> index_db" where
  "seed_lineage k d =
     d\<lparr>ix_lineage := filter (\<lambda>x. fst x \<noteq> k) (ix_lineage d) @ map (Pair k) (lineage_of d k),
       ix_lineage_articles := filter (\<lambda>x. fst x \<noteq> k) (ix_lineage_articles d) @ map (Pair k) (lineage_articles_of d k)\<rparr>"

definition put_details :: "string \<Rightarrow> index_db \<Rightarrow> index_db" where
  "put_details k d =
     (case find (\<lambda>r. rl_id r = k) (ix_releases d) of
        None \<Rightarrow> d
      | Some r \<Rightarrow> d\<lparr>ix_details := put_row fst k (\<lambda>_. (k, r, override_of d k, catalog_of d k)) (ix_details d)\<rparr>)"

definition mark_stored :: "int \<Rightarrow> string \<Rightarrow> stored_record \<Rightarrow> unit tables" where
  "mark_stored now k r =
     attempt (change (put_state k (stored_state now r))) (\<lambda>_.
     attempt (upsertNZBCacheWithRunner now k ''ready'' (trim_space (sr_ContentHashSHA256 r)) []) (\<lambda>_.
     attempt (change (seed_lineage k)) (\<lambda>_.
     attempt (syncReleaseCatalogFiles k) (\<lambda>_.
     change (put_details k)))))"

definition MarkReleaseArchiveStored :: "stored_record \<Rightarrow> unit indexing" where
  "MarkReleaseArchiveStored r s = need_release (sr_ReleaseID r) (\<lambda>k. in_tx (mark_stored (in_now s) k r)) s"

definition MarkReleaseArchiveFailed :: "string \<Rightarrow> string \<Rightarrow> unit indexing" where
  "MarkReleaseArchiveFailed k err =
     need_release k (\<lambda>k. in_tx (change (put_state k (\<lambda>a. a\<lparr>as_status := ''archive_failed'', as_error := trim_space err\<rparr>))))"

definition reopened :: "archive_state \<Rightarrow> archive_state" where
  "reopened a =
     (if as_status a \<in> set [''archived'', ''purge_pending'', ''purged'', ''archive_failed'', ''archive_pending'']
      then a\<lparr>as_status := ''active'', as_key := [], as_hash := [], as_size := 0, as_eligible := None, as_purged := None, as_error := []\<rparr>
      else a)"

definition ReopenArchivedReleaseForRegeneration :: "string \<Rightarrow> unit indexing" where
  "ReopenArchivedReleaseForRegeneration k =
     need_release k (\<lambda>k. in_tx (change (\<lambda>d. d\<lparr>ix_archive := map (\<lambda>a. if as_release a = k then reopened a else a) (ix_archive d)\<rparr>)))"


section \<open>Purging the sources\<close>

record purge_candidate =
  pc_ReleaseID :: string
  pc_ObjectKey :: string

record purge_result =
  pr_ReleaseID :: string
  pr_DeletedRowsByTable :: "(string \<times> int) list"
  pr_SkippedSharedBinaryRows :: int
  pr_DeletedBinaryRows :: int
  pr_DeletedArticleHeaderRows :: int
  pr_DeletedArticlePayloadRows :: int

definition retained :: "ready_policy \<Rightarrow> index_db \<Rightarrow> release_row \<Rightarrow> bool" where
  "retained p d r \<longleftrightarrow>
     (rp_RetainUntilExpectedFileCountComplete p \<longrightarrow> expectedFileCountCompleteClause r)
     \<and> (rp_RetainRequirePAR2 p \<longrightarrow> rl_has_par2 r) \<and> (rp_RetainRequireNFO p \<longrightarrow> rl_has_nfo r)
     \<and> (rp_RetainRequireSFV p \<longrightarrow> hasSFVClause d r)"

definition purge_eligible :: "ready_policy \<Rightarrow> index_db \<Rightarrow> archive_state \<Rightarrow> bool" where
  "purge_eligible p d a \<longleftrightarrow>
     as_status a = ''purge_pending'' \<and> as_key a \<noteq> []
     \<and> list_ex (\<lambda>r. rl_id r = as_release a \<and> retained p d r \<and> releaseReadyVisibilityClause p d r) (ix_releases d)
     \<and> catalog_of d (as_release a) \<noteq> [] \<and> inspected ''inspect_media'' d (as_release a)"

text \<open>\<open>purge_eligible_at ASC NULLS FIRST, archived_at ASC NULLS FIRST, release_id\<close>.\<close>

definition nulls_first :: "gotime \<Rightarrow> bool \<times> int" where
  "nulls_first t = (t \<noteq> None, case t of Some x \<Rightarrow> x | None \<Rightarrow> 0)"

definition ClaimReleasePurgeCandidates :: "int \<Rightarrow> ready_policy \<Rightarrow> purge_candidate list indexing" where
  "ClaimReleasePurgeCandidates limit pol =
     in_tx (asks (\<lambda>d.
       map (\<lambda>a. \<lparr>pc_ReleaseID = as_release a, pc_ObjectKey = as_key a\<rparr>)
         (take (nat (if limit \<le> 0 then 50 else limit))
           (sort_key (\<lambda>a. nulls_first (as_eligible a)) (sort_key (\<lambda>a. nulls_first (as_archived a)) (sort_key as_release
             (filter (purge_eligible (NormalizeReleaseReadyPolicy pol) d) (ix_archive d)))))))) "

record preflight =
  pf_ArchiveStatus :: string
  pf_ObjectKey :: string
  pf_ReleaseExists :: bool
  pf_HasCatalogFiles :: bool
  pf_HasCompletedMediaInspect :: bool

definition loadReleasePurgePreflight :: "string \<Rightarrow> preflight tables" where
  "loadReleasePurgePreflight k d =
     (case archive_of d k of
        None \<Rightarrow> refuse (Message (''release archive state not found for '' @ k)) d
      | Some a \<Rightarrow> give \<lparr>pf_ArchiveStatus = as_status a, pf_ObjectKey = as_key a,
          pf_ReleaseExists = list_ex (\<lambda>r. rl_id r = k) (ix_releases d), pf_HasCatalogFiles = (catalog_of d k \<noteq> []),
          pf_HasCompletedMediaInspect = inspected ''inspect_media'' d k\<rparr> d)"

text \<open>A binary that a file of another release needs, one that is not yet in the archive, stays.\<close>

definition needed_elsewhere :: "index_db \<Rightarrow> string \<Rightarrow> int \<Rightarrow> bool" where
  "needed_elsewhere d k b =
     list_ex (\<lambda>f. fi_binary f = Some b \<and> fi_release f \<noteq> k \<and> status_of d (fi_release f) \<notin> set stored_states) (ix_files d)"

definition purge_roots :: "index_db \<Rightarrow> string \<Rightarrow> int list" where
  "purge_roots d k =
     remdups (filter (\<lambda>b. \<not> needed_elsewhere d k b) (map snd (filter (\<lambda>x. fst x = k) (ix_lineage d))))"

definition purge_superseded :: "index_db \<Rightarrow> string \<Rightarrow> int list" where
  "purge_superseded d k =
     remdups (map fst (filter (\<lambda>x. snd x \<in> set (purge_roots d k) \<and> \<not> needed_elsewhere d k (fst x)) (ix_superseded d)))"

text \<open>Only positive keys are staged.\<close>

definition staged_binaries :: "index_db \<Rightarrow> string \<Rightarrow> int list" where
  "staged_binaries d k = filter (\<lambda>b. b > 0) (remdups (purge_roots d k @ purge_superseded d k))"

text \<open>With a binary go the rows of all tables that belong to it.\<close>

definition delete_binaries :: "int list \<Rightarrow> index_db \<Rightarrow> index_db" where
  "delete_binaries bs d =
     d\<lparr>ix_cores := filter (\<lambda>c. co_binary c \<notin> set bs) (ix_cores d),
       ix_stats := filter (\<lambda>r. st_binary r \<notin> set bs) (ix_stats d),
       ix_idents := filter (\<lambda>i. bi_binary i \<notin> set bs) (ix_idents d),
       ix_parts := filter (\<lambda>p. pa_binary p \<notin> set bs) (ix_parts d),
       ix_inspections := filter (\<lambda>i. is_binary i \<notin> set bs) (ix_inspections d),
       ix_owned := filter (\<lambda>x. snd x \<notin> set bs) (ix_owned d),
       ix_superseded := filter (\<lambda>x. fst x \<notin> set bs \<and> snd x \<notin> set bs) (ix_superseded d)\<rparr>"

definition count_if :: "('a \<Rightarrow> bool) \<Rightarrow> 'a list \<Rightarrow> int" where "count_if p xs = int (length (filter p xs))"

definition owned_tables :: "string list" where
  "owned_tables = [''binary_grouping_evidence'', ''binary_inspection_artifacts'', ''binary_archive_entries'',
     ''binary_text_evidence'', ''binary_media_streams'', ''binary_par2_sets'', ''binary_par2_targets'', ''yenc_recovery_work_items'']"

definition binary_counts :: "int list \<Rightarrow> index_db \<Rightarrow> (string \<times> int) list" where
  "binary_counts bs d =
     [(''binary_superseded_sources'', count_if (\<lambda>x. fst x \<in> set bs \<or> snd x \<in> set bs) (ix_superseded d)),
      (''binary_parts'', count_if (\<lambda>p. pa_binary p \<in> set bs) (ix_parts d)),
      (''binary_inspections'', count_if (\<lambda>i. is_binary i \<in> set bs) (ix_inspections d))]
     @ map (\<lambda>t. (t, count_if (\<lambda>x. fst x = t \<and> snd x \<in> set bs) (ix_owned d))) owned_tables
     @ [(''binary_core'', count_if (\<lambda>c. co_binary c \<in> set bs) (ix_cores d))]"

definition unreferenced :: "index_db \<Rightarrow> string \<Rightarrow> int \<Rightarrow> bool" where
  "unreferenced d k a \<longleftrightarrow> (k, a) \<in> set (ix_lineage_articles d) \<and> \<not> list_ex (\<lambda>p. pa_article p = a) (ix_parts d)"

definition delete_release_rows :: "string \<Rightarrow> index_db \<Rightarrow> index_db" where
  "delete_release_rows k d =
     d\<lparr>ix_files := filter (\<lambda>f. fi_release f \<noteq> k) (ix_files d),
       ix_rel_groups := filter (\<lambda>x. fst x \<noteq> k) (ix_rel_groups d),
       ix_nzb := filter (\<lambda>z. nz_release z \<noteq> k) (ix_nzb d)\<rparr>"

text \<open>With an article go its groups and its parts.\<close>

definition delete_articles :: "string \<Rightarrow> index_db \<Rightarrow> index_db" where
  "delete_articles k d =
     d\<lparr>ix_payloads := filter (\<lambda>a. \<not> unreferenced d k a) (ix_payloads d),
       ix_articles := filter (\<lambda>a. \<not> unreferenced d k (ar_id a)) (ix_articles d),
       ix_crossposts := filter (\<lambda>x. \<not> list_ex (\<lambda>a. unreferenced d k (ar_id a) \<and> ar_id a = xp_article x \<and> ar_posted a = xp_posted x)
          (ix_articles d)) (ix_crossposts d)\<rparr>"

definition delete_lineage :: "string \<Rightarrow> index_db \<Rightarrow> index_db" where
  "delete_lineage k d =
     d\<lparr>ix_lineage := filter (\<lambda>x. fst x \<noteq> k) (ix_lineage d),
       ix_lineage_articles := filter (\<lambda>x. fst x \<noteq> k) (ix_lineage_articles d)\<rparr>"

definition set_purged :: "int \<Rightarrow> string \<Rightarrow> index_db \<Rightarrow> index_db" where
  "set_purged now k d =
     d\<lparr>ix_archive := map (\<lambda>a. if as_release a = k then a\<lparr>as_status := ''purged'', as_purged := Some now\<rparr> else a) (ix_archive d)\<rparr>"

definition purge_rows :: "int \<Rightarrow> string \<Rightarrow> index_db \<Rightarrow> index_db" where
  "purge_rows now k d =
     (let bs = staged_binaries d k
      in set_purged now k (delete_lineage k (delete_articles k (delete_release_rows k (delete_binaries bs d)))))"

definition purge_report :: "string \<Rightarrow> index_db \<Rightarrow> purge_result" where
  "purge_report k d =
     (let bs = staged_binaries d k; d1 = delete_release_rows k (delete_binaries bs d);
          heads = count_if (\<lambda>a. unreferenced d1 k (ar_id a)) (ix_articles d1);
          loads = count_if (unreferenced d1 k) (ix_payloads d1);
          roots = int (length (purge_roots d k))
      in \<lparr>pr_ReleaseID = k,
          pr_DeletedRowsByTable =
            (if purge_roots d k = [] \<and> purge_superseded d k = [] then [] else binary_counts bs d)
            @ [(''release_files'', count_if (\<lambda>f. fi_release f = k) (ix_files d)),
               (''release_newsgroups'', count_if (\<lambda>x. fst x = k) (ix_rel_groups d)),
               (''nzb_cache'', count_if (\<lambda>z. nz_release z = k) (ix_nzb d)),
               (''article_header_ingest_payloads'', loads), (''article_headers'', heads),
               (''release_archive_lineage_binaries'', count_if (\<lambda>x. fst x = k) (ix_lineage d)),
               (''release_archive_lineage_article_headers'', count_if (\<lambda>x. fst x = k) (ix_lineage_articles d))],
          pr_SkippedSharedBinaryRows = count_if (\<lambda>x. fst x = k) (ix_lineage d) - roots,
          pr_DeletedBinaryRows = (if bs = [] then 0 else count_if (\<lambda>c. co_binary c \<in> set bs) (ix_cores d)),
          pr_DeletedArticleHeaderRows = heads, pr_DeletedArticlePayloadRows = loads\<rparr>)"

definition purgeArchivedReleaseSourcesTx :: "int \<Rightarrow> string \<Rightarrow> purge_result tables" where
  "purgeArchivedReleaseSourcesTx now k =
     attempt (loadReleasePurgePreflight k) (\<lambda>pf.
       if pf_ArchiveStatus pf \<noteq> ''purge_pending'' then refuse (Message (''release '' @ k @ '' is not purge_pending''))
       else if trim_space (pf_ObjectKey pf) = [] then refuse (Message (''release '' @ k @ '' does not have a durable archive object key''))
       else if \<not> pf_ReleaseExists pf then refuse (Message (''release '' @ k @ '' does not exist in durable catalog''))
       else if \<not> pf_HasCatalogFiles pf then refuse (Message (''release '' @ k @ '' does not have durable catalog files''))
       else if \<not> pf_HasCompletedMediaInspect pf then refuse (Message (''release '' @ k @ '' has not completed inspect_media''))
       else (\<lambda>d. (Inr (purge_report k d), purge_rows now k d)))"

definition PurgeArchivedReleaseSources :: "string \<Rightarrow> purge_result indexing" where
  "PurgeArchivedReleaseSources k s =
     need_release k (\<lambda>k. retryRetryablePostgresTx (in_tx (purgeArchivedReleaseSourcesTx (in_now s) k))) s"


section \<open>The NZB of a release\<close>

record nzb_segment =
  xs_Bytes :: int
  xs_Number :: int
  xs_ID :: string

record nzb_file_xml =
  xf_Poster :: string
  xf_Date :: int
  xf_Subject :: string
  xf_Groups :: "string list"
  xf_Segments :: "nzb_segment list"

text \<open>The document is the list of its files; \<open>xml\<close>, an argument below, writes it as bytes (\<open>xml.MarshalIndent\<close> after the
  header) or fails.\<close>

type_synonym nzb_doc = "nzb_file_xml list"

definition segments_of :: "article_ref list \<Rightarrow> nzb_segment list" where
  "segments_of refs =
     map (\<lambda>a. \<lparr>xs_Bytes = af_Bytes a, xs_Number = af_PartNumber a, xs_ID = trim_space (af_MessageID a)\<rparr>)
       (filter (\<lambda>a. trim_space (af_MessageID a) \<noteq> []) refs)"

definition first_filled :: "string list \<Rightarrow> string" where
  "first_filled xs = (case find (\<lambda>x. x \<noteq> []) xs of Some x \<Rightarrow> x | None \<Rightarrow> last xs)"

definition nzb_file_of :: "release \<Rightarrow> string list \<Rightarrow> catalog_file \<Rightarrow> nzb_segment list \<Rightarrow> nzb_file_xml" where
  "nzb_file_of rel groups f segs =
     \<lparr>xf_Poster = first_filled [trim_space (cl_Poster f), rel_Poster rel, ''unknown''],
      xf_Date = (case cl_PostedAt f of Some t \<Rightarrow> t div 1000000000 | None \<Rightarrow> unix (rel_PublishDate rel)),
      xf_Subject = first_filled [trim_space (cl_Subject f), trim_space (cl_FileName f), rel_Title rel],
      xf_Groups = (let g = trim_space (cl_GroupName f)
        in if g \<noteq> [] then [g] else filter (\<lambda>x. x \<noteq> []) (map trim_space groups)),
      xf_Segments = segs\<rparr>"

fun doc_files :: "release \<Rightarrow> string list \<Rightarrow> catalog_file list \<Rightarrow> nzb_doc indexing" where
  "doc_files rel groups [] = give []"
| "doc_files rel groups (f # fs) =
     attempt ctx_done (\<lambda>b. if b then refuse Canceled else
     attempt (map_error (Wrapped (''load release file articles '' @ itoa (cl_ID f))) (ListCatalogReleaseFileArticles (cl_ID f))) (\<lambda>refs.
     let segs = segments_of refs
     in if segs = [] then doc_files rel groups fs
        else attempt (doc_files rel groups fs) (\<lambda>rest. give (nzb_file_of rel groups f segs # rest))))"

definition buildNZB ::
  "(nzb_doc \<Rightarrow> go_error + byte list) \<Rightarrow> release \<Rightarrow> catalog_file list \<Rightarrow> string list \<Rightarrow> byte list indexing" where
  "buildNZB xml rel files groups =
     attempt (doc_files rel (sort groups) files) (\<lambda>doc.
       if doc = [] then refuse (Message (''release '' @ rel_ID rel @ '' produced no nzb files''))
       else (case xml doc of
           Inl e \<Rightarrow> refuse (Wrapped (''marshal nzb xml for '' @ rel_ID rel) e)
         | Inr payload \<Rightarrow> give payload))"

definition from_articles :: "(nzb_doc \<Rightarrow> go_error + byte list) \<Rightarrow> release \<Rightarrow> reader indexing" where
  "from_articles xml rel =
     attempt (map_error (Wrapped (''load catalog release files for '' @ rel_ID rel)) (ListCatalogReleaseFiles (rel_ID rel))) (\<lambda>files.
     if files = [] then refuse (Message (''no release files found for '' @ rel_ID rel))
     else attempt (map_error (Wrapped (''load catalog release newsgroups for '' @ rel_ID rel))
         (ListCatalogReleaseNewsgroups (rel_ID rel))) (\<lambda>groups.
       if groups = [] then refuse (Message (''no release newsgroups found for '' @ rel_ID rel))
       else attempt (buildNZB xml rel files groups) (\<lambda>bytes. give (Buffer bytes))))"

definition in_stored_state :: "archive_state option \<Rightarrow> bool" where
  "in_stored_state a = (case a of Some x \<Rightarrow> as_key x \<noteq> [] \<and> as_status x \<in> set stored_states | None \<Rightarrow> False)"

definition Index_GetNZB ::
  "(nzb_doc \<Rightarrow> go_error + byte list) \<Rightarrow> payload_store option \<Rightarrow> release option \<Rightarrow> reader indexing" where
  "Index_GetNZB xml archive rel =
     (case rel of
        None \<Rightarrow> refuse (Message ''usenet index release is required'')
      | Some r \<Rightarrow>
          if trim_space (rel_ID r) = [] then refuse (Message ''usenet index release is required'')
          else (case archive of
              None \<Rightarrow> from_articles xml r
            | Some ps \<Rightarrow>
                attempt (map_error (Wrapped (''load archive state for '' @ rel_ID r)) (GetReleaseArchiveState (rel_ID r))) (\<lambda>a.
                if in_stored_state a
                then regardless (payload_call (GetNZBReader ps (as_key (the a))))
                  (\<lambda>res. case res of Inr rd \<Rightarrow> give rd | Inl _ \<Rightarrow> from_articles xml r)
                else from_articles xml r)))"

definition Index_GetRelease :: "string \<Rightarrow> release option indexing" where
  "Index_GetRelease k =
     (let k = trim_space k in if k = [] then refuse (Message ''source release id is required'') else GetCatalogReleaseByID k)"

section \<open>The stages\<close>

definition archiveObjectKey :: "int \<Rightarrow> string \<Rightarrow> string \<Rightarrow> string" where
  "archiveObjectKey provider k hex =
     (let hex = trim_space hex; hex = (if hex = [] then ''unknown'' else hex)
      in ''releases/'' @ itoa provider @ ''/'' @ trim_space k @ ''/'' @ hex @ ''.nzb'')"

text \<open>\<open>sha\<close> is SHA-256 in hexadecimal. One release: its NZB is fetched, saved and recorded; an error marks it as failed.
  The result says whether it is in the archive.\<close>

definition candidate_release :: "int \<Rightarrow> archive_candidate \<Rightarrow> release" where
  "candidate_release now c =
     empty_release\<lparr>rel_ID := ca_ReleaseID c, rel_Title := ca_Title c, rel_GUID := ca_ReleaseID c,
       rel_Source := ''usenet_index'', rel_PublishDate := Some now\<rparr>"

definition fetch_bytes :: "(nzb_doc \<Rightarrow> go_error + byte list) \<Rightarrow> payload_store \<Rightarrow> archive_candidate \<Rightarrow> byte list indexing" where
  "fetch_bytes xml ps c s =
     attempt (Index_GetNZB xml (Some ps) (Some (candidate_release (in_now s) c))) (\<lambda>rd. payload_call (ReadAll rd)) s"

definition record_of :: "string \<Rightarrow> string \<Rightarrow> string \<Rightarrow> byte list \<Rightarrow> stored_record" where
  "record_of k key hex payload =
     \<lparr>sr_ReleaseID = k, sr_ArchiveStore = ''indexer_archive'', sr_ObjectStoreKind = ''fs'', sr_ObjectKey = key,
      sr_ContentHashSHA256 = hex, sr_ObjectSizeBytes = int (length payload), sr_ContentEncoding = ''identity'',
      sr_SourceModule = ''usenet_index''\<rparr>"

definition store_bytes :: "(byte list \<Rightarrow> string) \<Rightarrow> payload_store \<Rightarrow> archive_candidate \<Rightarrow> byte list \<Rightarrow> unit indexing" where
  "store_bytes sha ps c payload =
     (let key = archiveObjectKey (ca_ProviderID c) (ca_ReleaseID c) (sha payload)
      in attempt (payload_call (SaveNZBAtomically ps key payload)) (\<lambda>_.
         MarkReleaseArchiveStored (record_of (ca_ReleaseID c) key (sha payload) payload)))"

definition archive_one ::
  "(byte list \<Rightarrow> string) \<Rightarrow> (nzb_doc \<Rightarrow> go_error + byte list) \<Rightarrow> payload_store \<Rightarrow> archive_candidate \<Rightarrow> bool indexing" where
  "archive_one sha xml ps c =
     regardless (attempt (fetch_bytes xml ps c) (store_bytes sha ps c)) (\<lambda>res. case res of
       Inr _ \<Rightarrow> give True
     | Inl e \<Rightarrow> regardless (MarkReleaseArchiveFailed (ca_ReleaseID c) (error_text e)) (\<lambda>_. give False))"

text \<open>The rest is given up when the context is cancelled; the figures are candidates tried, archived and failed.\<close>

record stage_metrics =
  sm_attempted :: int
  sm_archived :: int
  sm_failed :: int

fun archive_each ::
  "(byte list \<Rightarrow> string) \<Rightarrow> (nzb_doc \<Rightarrow> go_error + byte list) \<Rightarrow> payload_store \<Rightarrow> stage_metrics \<Rightarrow> archive_candidate list
     \<Rightarrow> (go_error option \<times> stage_metrics) indexing" where
  "archive_each sha xml ps m [] = give (None, m)"
| "archive_each sha xml ps m (c # cs) =
     attempt ctx_done (\<lambda>b. if b then give (Some Canceled, m) else
     attempt (archive_one sha xml ps c) (\<lambda>ok.
       archive_each sha xml ps
         \<lparr>sm_attempted = sm_attempted m + 1, sm_archived = sm_archived m + (if ok then 1 else 0),
          sm_failed = sm_failed m + (if ok then 0 else 1)\<rparr> cs))"

record stage_options =
  so_BatchSize :: int
  so_Policy :: ready_policy

definition empty_policy :: "ready_policy \<Rightarrow> bool" where
  "empty_policy p \<longleftrightarrow> p = \<lparr>rp_MinMatchConfidence = 0, rp_MinCompletionPct = 0, rp_MinIdentityStatus = [],
     rp_RequireInspection = False, rp_RequireEnrichment = False, rp_RequireClearTitle = False,
     rp_RequirePayloadComplete = False, rp_RequireExpectedFileCountComplete = False, rp_RequirePAR2 = False,
     rp_RequireNFO = False, rp_RequireSFV = False, rp_RetainUntilExpectedFileCountComplete = False,
     rp_RetainRequirePAR2 = False, rp_RetainRequireNFO = False, rp_RetainRequireSFV = False\<rparr>"

definition archive_options :: "stage_options \<Rightarrow> stage_options" where
  "archive_options opts =
     \<lparr>so_BatchSize = (if so_BatchSize opts \<le> 0 then 100 else so_BatchSize opts),
      so_Policy = (if empty_policy (so_Policy opts) then DefaultReleaseReadyPolicy
        else NormalizeReleaseReadyPolicy (so_Policy opts))\<rparr>"

definition fresh_metrics :: stage_metrics where "fresh_metrics = \<lparr>sm_attempted = 0, sm_archived = 0, sm_failed = 0\<rparr>"

definition generate_RunOnce ::
  "(byte list \<Rightarrow> string) \<Rightarrow> (nzb_doc \<Rightarrow> go_error + byte list) \<Rightarrow> payload_store \<Rightarrow> stage_options \<Rightarrow> string list
     \<Rightarrow> (go_error option \<times> stage_metrics) indexing" where
  "generate_RunOnce sha xml ps opts locked =
     attempt (ListReleaseNZBGenerateCandidates locked (so_BatchSize opts) (so_Policy opts)) (archive_each sha xml ps fresh_metrics)"

definition archive_RunOnce ::
  "(byte list \<Rightarrow> string) \<Rightarrow> (nzb_doc \<Rightarrow> go_error + byte list) \<Rightarrow> payload_store \<Rightarrow> stage_options \<Rightarrow> string list
     \<Rightarrow> (go_error option \<times> stage_metrics) indexing" where
  "archive_RunOnce sha xml ps opts locked =
     attempt (ClaimReleaseArchiveCandidates locked (so_BatchSize opts) (so_Policy opts)) (archive_each sha xml ps fresh_metrics)"

definition purge_options :: "stage_options \<Rightarrow> stage_options" where
  "purge_options opts =
     \<lparr>so_BatchSize = (if so_BatchSize opts \<le> 0 then 50 else so_BatchSize opts),
      so_Policy = NormalizeReleaseReadyPolicy (so_Policy opts)\<rparr>"

text \<open>The first error ends a run of the purge.\<close>

fun purge_each :: "purge_result list \<Rightarrow> purge_candidate list \<Rightarrow> (go_error option \<times> purge_result list) indexing" where
  "purge_each acc [] = give (None, acc)"
| "purge_each acc (c # cs) =
     regardless (PurgeArchivedReleaseSources (pc_ReleaseID c)) (\<lambda>res. case res of
       Inl e \<Rightarrow> give (Some e, acc)
     | Inr r \<Rightarrow> purge_each (acc @ [r]) cs)"

definition purge_RunOnce :: "stage_options \<Rightarrow> (go_error option \<times> purge_result list) indexing" where
  "purge_RunOnce opts =
     attempt (ClaimReleasePurgeCandidates (so_BatchSize opts) (so_Policy opts)) (purge_each [])"


section \<open>The index as a source of the aggregator\<close>

text \<open>What the listing of public releases, whose SQL is an argument here, is asked for and returns.\<close>

record public_release =
  pu_ReleaseID :: string
  pu_GUID :: string
  pu_Title :: string
  pu_SizeBytes :: int
  pu_PostedAt :: gotime
  pu_AddedAt :: gotime
  pu_Category :: string
  pu_CategoryID :: int

record list_params =
  lp_Query :: string
  lp_Limit :: int
  lp_Sort :: string
  lp_BrowseCategory :: string
  lp_IMDBID :: string
  lp_TVDBID :: int
  lp_Season :: int
  lp_Episode :: int
  lp_ReadyPolicy :: ready_policy

text \<open>The settings of the release stage that the source uses; \<open>None\<close> when there are none or they cannot be read.\<close>

record public_settings =
  ps_MinMatchConfidence :: rat
  ps_MinCompletionPct :: rat
  ps_MinIdentityStatus :: string
  ps_RequireInspection :: bool
  ps_RequireEnrichment :: bool
  ps_RequireClearTitle :: bool

definition source_policy :: "public_settings option \<Rightarrow> ready_policy" where
  "source_policy ps =
     (case ps of
        None \<Rightarrow> DefaultReleaseReadyPolicy
      | Some p \<Rightarrow> NormalizeReleaseReadyPolicy
          \<lparr>rp_MinMatchConfidence = ps_MinMatchConfidence p, rp_MinCompletionPct = ps_MinCompletionPct p,
           rp_MinIdentityStatus = ps_MinIdentityStatus p, rp_RequireInspection = ps_RequireInspection p,
           rp_RequireEnrichment = ps_RequireEnrichment p, rp_RequireClearTitle = ps_RequireClearTitle p,
           rp_RequirePayloadComplete = False, rp_RequireExpectedFileCountComplete = False, rp_RequirePAR2 = False,
           rp_RequireNFO = False, rp_RequireSFV = False, rp_RetainUntilExpectedFileCountComplete = False,
           rp_RetainRequirePAR2 = False, rp_RetainRequireNFO = False, rp_RetainRequireSFV = False\<rparr>)"

text \<open>A number out of range is the nearest bound: \<open>Atoi\<close> returns it beside its error, which is dropped.\<close>

definition number_or_bound :: "string \<Rightarrow> int" where
  "number_or_bound s =
     (let t = trim_space s; neg = is_prefix ''-'' t; ds = (if neg \<or> is_prefix ''+'' t then tl t else t)
      in case parse_udec ds of
           None \<Rightarrow> 0
         | Some n \<Rightarrow> if neg then max (- n) (- (2 ^ 63)) else min n (2 ^ 63 - 1))"

definition publicReleaseToDomain :: "int \<Rightarrow> public_release \<Rightarrow> release" where
  "publicReleaseToDomain now item =
     empty_release\<lparr>rel_ID := pu_ReleaseID item, rel_Title := pu_Title item,
       rel_GUID := (let g = trim_space (pu_GUID item) in if g = [] then pu_ReleaseID item else g),
       rel_Source := ''usenet_index'', rel_Size := pu_SizeBytes item,
       rel_PublishDate := Some (case pu_PostedAt item of Some t \<Rightarrow> t
         | None \<Rightarrow> (case pu_AddedAt item of Some t \<Rightarrow> t | None \<Rightarrow> now)),
       rel_Category := (if pu_CategoryID item > 0 then itoa (pu_CategoryID item)
         else if pu_Category item = [] then itoa OtherMisc else pu_Category item)\<rparr>"

definition index_params :: "public_settings option \<Rightarrow> search_request \<Rightarrow> list_params" where
  "index_params settings req =
     \<lparr>lp_Query = trim_space (sr_Query req), lp_Limit = 100, lp_Sort = ''posted_at_desc'',
      lp_BrowseCategory = (if sr_Type req = ''movie'' then ''movies'' else if sr_Type req = ''tvsearch'' then ''tv'' else []),
      lp_IMDBID = sr_IMDbID req, lp_TVDBID = number_or_bound (sr_TVDBID req), lp_Season = number_or_bound (sr_Season req),
      lp_Episode = number_or_bound (sr_Episode req), lp_ReadyPolicy = source_policy settings\<rparr>"

definition index_Search ::
  "(list_params \<Rightarrow> public_release list indexing) \<Rightarrow> public_settings option \<Rightarrow> search_request \<Rightarrow> release list indexing" where
  "index_Search listing settings req s =
     attempt (listing (index_params settings req)) (\<lambda>items. give (map (publicReleaseToDomain (in_now s)) items)) s"

end
