(* ===== verification/Archive_Props.thy ===== *)
theory Archive_Props
  imports Archive Blob_Props
begin

text \<open>
  What the resolver hands out when nothing fails, as a function of the tables, and what a purge leaves of it: the purge of
  one release never changes the NZB of another.
\<close>

section \<open>Reading without faults\<close>

definition calm :: "indexer \<Rightarrow> bool" where "calm s \<longleftrightarrow> in_faults s = [] \<and> in_ctx s = []"

lemma in_tx_calm:
  "calm s \<Longrightarrow> in_tx m s = (case m (in_db s) of (Inl e, _) \<Rightarrow> (Inl e, s) | (Inr x, d) \<Rightarrow> (Inr x, s\<lparr>in_db := d\<rparr>))"
  by (auto simp: in_tx_def calm_def Let_def split: prod.split sum.split)

lemma in_tx_asks [simp]: "calm s \<Longrightarrow> in_tx (asks f) s = (Inr (f (in_db s)), s)"
  by (simp add: in_tx_calm asks_def)

lemma ctx_done_calm [simp]: "calm s \<Longrightarrow> ctx_done s = (Inr False, s)"
  by (simp add: ctx_done_def calm_def)

lemma attempt_Inr_eq [simp]: "m s = (Inr x, t) \<Longrightarrow> attempt m k s = k x t"
  by (simp add: attempt_def)

lemma attempt_Inl_eq [simp]: "m s = (Inl e, t) \<Longrightarrow> attempt m k s = (Inl e, t)"
  by (simp add: attempt_def)

lemma map_error_Inr_eq [simp]: "m s = (Inr x, t) \<Longrightarrow> map_error f m s = (Inr x, t)"
  by (simp add: map_error_def)

lemma map_error_Inl_eq [simp]: "m s = (Inl e, t) \<Longrightarrow> map_error f m s = (Inl (f e), t)"
  by (simp add: map_error_def)

text \<open>What the tables hold for a file, a release, a document.\<close>

definition file_articles :: "index_db \<Rightarrow> int \<Rightarrow> article_ref list" where
  "file_articles d k =
     (case span_of_file d k of None \<Rightarrow> []
      | Some sp \<Rightarrow> if sp_BinaryID sp \<le> 0 then [] else articles_in_span d sp)"

lemma span_binary: "span_of_binary d b = Some sp \<Longrightarrow> sp_BinaryID sp = b"
  by (auto simp: span_of_binary_def normalizeBinaryPartSourceSpan_def)

lemma span_again: "span_of_file d k = Some sp \<Longrightarrow> span_of_binary d (sp_BinaryID sp) = Some sp"
  by (auto simp: span_of_file_def span_binary split: option.splits)

lemma file_articles_calm:
  "calm s \<Longrightarrow> k > 0 \<Longrightarrow> ListCatalogReleaseFileArticles k s = (Inr (file_articles (in_db s) k), s)"
proof -
  assume c: "calm s" "k > 0"
  let ?d = "in_db s"
  have load: "loadReleaseFileBinaryPartSourceSpan k s = (Inr (span_of_file ?d k), s)"
    using c by (simp add: loadReleaseFileBinaryPartSourceSpan_def)
  have list: "listCatalogArticlesForBinarySpan sp s = (Inr (articles_in_span ?d sp), s)" for sp
    using c by (simp add: listCatalogArticlesForBinarySpan_def)
  have again: "ListCatalogBinaryArticles (sp_BinaryID sp) s = (Inr (articles_in_span ?d sp), s)"
    if "span_of_file ?d k = Some sp" "sp_BinaryID sp > 0" for sp
    using c that span_again [OF that(1)] list
    by (simp add: ListCatalogBinaryArticles_def loadBinaryPartSourceSpan_def)
  show ?thesis
  proof (cases "span_of_file ?d k")
    case None
    then show ?thesis using c load by (simp add: ListCatalogReleaseFileArticles_def file_articles_def give_def)
  next
    case (Some sp)
    then show ?thesis using c load list [of sp] again [OF Some]
      by (auto simp: ListCatalogReleaseFileArticles_def file_articles_def give_def)
  qed
qed

text \<open>The articles by file: for keys that are not positive the code has no answer.\<close>

fun plain_doc :: "release \<Rightarrow> string list \<Rightarrow> index_db \<Rightarrow> catalog_file list \<Rightarrow> go_error + nzb_doc" where
  "plain_doc rel groups d [] = Inr []"
| "plain_doc rel groups d (f # fs) =
     (if cl_ID f \<le> 0 then Inl (Wrapped (''load release file articles '' @ itoa (cl_ID f)) (Message ''release file id is required''))
      else let segs = segments_of (file_articles d (cl_ID f))
        in if segs = [] then plain_doc rel groups d fs
           else map_sum id (\<lambda>rest. nzb_file_of rel groups f segs # rest) (plain_doc rel groups d fs))"

lemma doc_calm: "calm s \<Longrightarrow> doc_files rel groups fs s = (plain_doc rel groups (in_db s) fs, s)"
proof (induction fs)
  case Nil
  then show ?case by (simp add: give_def)
next
  case (Cons f fs)
  show ?case
  proof (cases "cl_ID f \<le> 0")
    case True
    then have "ListCatalogReleaseFileArticles (cl_ID f) s = (Inl (Message ''release file id is required''), s)"
      by (simp add: ListCatalogReleaseFileArticles_def refuse_def)
    with Cons.prems True show ?thesis by (simp add: attempt_def map_error_def refuse_def)
  next
    case False
    then have "ListCatalogReleaseFileArticles (cl_ID f) s = (Inr (file_articles (in_db s) (cl_ID f)), s)"
      using file_articles_calm Cons.prems by simp
    with Cons False show ?thesis
      by (cases "plain_doc rel groups (in_db s) fs") (auto simp: Let_def give_def attempt_def map_error_def)
  qed
qed

definition release_groups :: "index_db \<Rightarrow> string \<Rightarrow> string list" where
  "release_groups d k = map trim_space (sort (catalog_groups d k))"

definition plain_nzb :: "(nzb_doc \<Rightarrow> go_error + byte list) \<Rightarrow> release \<Rightarrow> index_db \<Rightarrow> go_error + byte list" where
  "plain_nzb xml rel d =
     (let k = trim_space (rel_ID rel); files = catalog_files d k; groups = release_groups d k
      in if files = [] then Inl (Message (''no release files found for '' @ rel_ID rel))
         else if groups = [] then Inl (Message (''no release newsgroups found for '' @ rel_ID rel))
         else (case plain_doc rel (sort groups) d files of
             Inl e \<Rightarrow> Inl e
           | Inr doc \<Rightarrow>
               if doc = [] then Inl (Message (''release '' @ rel_ID rel @ '' produced no nzb files''))
               else (case xml doc of Inl e \<Rightarrow> Inl (Wrapped (''marshal nzb xml for '' @ rel_ID rel) e) | Inr p \<Rightarrow> Inr p)))"

lemma from_articles_calm:
  assumes "calm s" "trim_space (rel_ID rel) \<noteq> []"
  shows "from_articles xml rel s = (map_sum id Buffer (plain_nzb xml rel (in_db s)), s)"
proof -
  let ?k = "trim_space (rel_ID rel)" and ?d = "in_db s"
  have f: "ListCatalogReleaseFiles (rel_ID rel) s = (Inr (catalog_files ?d ?k), s)"
    and g: "ListCatalogReleaseNewsgroups (rel_ID rel) s = (Inr (release_groups ?d ?k), s)"
    using assms by (simp_all add: ListCatalogReleaseFiles_def ListCatalogReleaseNewsgroups_def need_release_def release_groups_def)
  note d = doc_calm [OF assms(1), of rel "sort (release_groups ?d ?k)" "catalog_files ?d ?k"]
  show ?thesis
    using f g d
    by (cases "plain_doc rel (sort (release_groups ?d ?k)) ?d (catalog_files ?d ?k)")
      (auto simp: from_articles_def plain_nzb_def buildNZB_def give_def refuse_def attempt_def map_error_def Let_def split: sum.split)
qed


section \<open>What a purge leaves alone\<close>

lemma find_filter_keep: "(\<And>x. x \<in> set xs \<Longrightarrow> P x \<Longrightarrow> Q x) \<Longrightarrow> find P (filter Q xs) = find P xs"
  by (induction xs) auto

lemma filter_filter_keep: "(\<And>x. x \<in> set xs \<Longrightarrow> P x \<Longrightarrow> Q x) \<Longrightarrow> filter P (filter Q xs) = filter P xs"
  by (induction xs) auto

lemma find_map_keep: "(\<And>x. P (f x) = P x) \<Longrightarrow> (\<And>x. P x \<Longrightarrow> f x = x) \<Longrightarrow> find P (map f xs) = find P xs"
  by (induction xs) auto

text \<open>\<open>spared d k b\<close>: the purge of \<open>k\<close> leaves the binary \<open>b\<close>.\<close>

abbreviation spared :: "index_db \<Rightarrow> string \<Rightarrow> int \<Rightarrow> bool" where
  "spared d k b \<equiv> b \<notin> set (staged_binaries d k)"

lemma needed_spared: "needed_elsewhere d k b \<Longrightarrow> spared d k b"
  by (auto simp: staged_binaries_def purge_roots_def purge_superseded_def)

lemma others_spared:
  assumes "f \<in> set (files_of d j)" "fi_binary f = Some b" "j \<noteq> k" "status_of d j \<notin> set stored_states"
  shows "spared d k b"
  by (rule needed_spared) (use assms in \<open>auto simp: needed_elsewhere_def list_ex_iff files_of_def\<close>)

definition purged_base :: "string \<Rightarrow> index_db \<Rightarrow> index_db" where
  "purged_base k d = delete_release_rows k (delete_binaries (staged_binaries d k) d)"

lemma purge_fields:
  "ix_catalog (purge_rows now k d) = ix_catalog d"
  "ix_group_names (purge_rows now k d) = ix_group_names d"
  "ix_files (purge_rows now k d) = filter (\<lambda>f. fi_release f \<noteq> k) (ix_files d)"
  "ix_rel_groups (purge_rows now k d) = filter (\<lambda>x. fst x \<noteq> k) (ix_rel_groups d)"
  "ix_cores (purge_rows now k d) = filter (\<lambda>c. spared d k (co_binary c)) (ix_cores d)"
  "ix_stats (purge_rows now k d) = filter (\<lambda>r. spared d k (st_binary r)) (ix_stats d)"
  "ix_parts (purge_rows now k d) = filter (\<lambda>p. spared d k (pa_binary p)) (ix_parts d)"
  "ix_articles (purge_rows now k d) = filter (\<lambda>a. \<not> unreferenced (purged_base k d) k (ar_id a)) (ix_articles d)"
  "ix_crossposts (purge_rows now k d) = filter (\<lambda>x. \<not> list_ex (\<lambda>a. unreferenced (purged_base k d) k (ar_id a)
      \<and> ar_id a = xp_article x \<and> ar_posted a = xp_posted x) (ix_articles d)) (ix_crossposts d)"
  "ix_archive (purge_rows now k d) =
     map (\<lambda>a. if as_release a = k then a\<lparr>as_status := ''purged'', as_purged := Some now\<rparr> else a) (ix_archive d)"
  "ix_releases (purge_rows now k d) = ix_releases d"
  "ix_overrides (purge_rows now k d) = ix_overrides d"
  by (simp_all add: purge_rows_def Let_def set_purged_def delete_lineage_def delete_articles_def delete_release_rows_def
      delete_binaries_def purged_base_def)

lemma base_parts: "ix_parts (purged_base k d) = filter (\<lambda>p. spared d k (pa_binary p)) (ix_parts d)"
  by (simp add: purged_base_def delete_release_rows_def delete_binaries_def)

text \<open>The article of a part that stays is referenced.\<close>

lemma part_keeps_article:
  "p \<in> set (ix_parts d) \<Longrightarrow> spared d k (pa_binary p) \<Longrightarrow> \<not> unreferenced (purged_base k d) k (pa_article p)"
  by (auto simp: unreferenced_def base_parts list_ex_iff)

lemma purge_archive_of:
  "archive_of (purge_rows now k d) j =
     (if j = k then map_option (\<lambda>a. a\<lparr>as_status := ''purged'', as_purged := Some now\<rparr>) (archive_of d k) else archive_of d j)"
proof -
  have "find (\<lambda>a. as_release a = k) (map (\<lambda>a. if as_release a = k then a\<lparr>as_status := ''purged'', as_purged := Some now\<rparr> else a) xs) =
    map_option (\<lambda>a. a\<lparr>as_status := ''purged'', as_purged := Some now\<rparr>) (find (\<lambda>a. as_release a = k) xs)" for xs
    by (induction xs) auto
  moreover have "find (\<lambda>a. as_release a = j) (map (\<lambda>a. if as_release a = k then a\<lparr>as_status := ''purged'', as_purged := Some now\<rparr> else a) xs) =
    find (\<lambda>a. as_release a = j) xs" if "j \<noteq> k" for xs
    by (rule find_map_keep) (use that in auto)
  ultimately show ?thesis unfolding archive_of_def purge_fields by (cases "j = k") simp_all
qed

lemma purge_core: "spared d k b \<Longrightarrow> core_of (purge_rows now k d) b = core_of d b"
  unfolding core_of_def purge_fields by (rule find_filter_keep) simp

lemma purge_span: "spared d k b \<Longrightarrow> span_of_binary (purge_rows now k d) b = span_of_binary d b"
proof -
  assume s: "spared d k b"
  have "find (\<lambda>r. st_binary r = b \<and> co_posted c = Some (st_root r)) (ix_stats (purge_rows now k d)) =
    find (\<lambda>r. st_binary r = b \<and> co_posted c = Some (st_root r)) (ix_stats d)" for c :: core_row
    unfolding purge_fields by (rule find_filter_keep) (use s in auto)
  then show ?thesis by (simp add: span_of_binary_def stats_of_def purge_core [OF s] split: option.split)
qed


lemma purge_parts:
  assumes "spared d k (sp_BinaryID sp)"
  shows "parts_with_articles (purge_rows now k d) sp = parts_with_articles d sp"
proof -
  let ?e = "purge_rows now k d"
  have a: "filter (\<lambda>a. ar_id a = pa_article p \<and> ar_posted a = pa_posted p) (ix_articles ?e) =
      filter (\<lambda>a. ar_id a = pa_article p \<and> ar_posted a = pa_posted p) (ix_articles d)"
    if "p \<in> set (ix_parts d)" "pa_binary p = sp_BinaryID sp" for p :: part_row
    unfolding purge_fields by (rule filter_filter_keep) (use that part_keeps_article [of p d k] assms in auto)
  have pick: "[(p, a). p \<leftarrow> ps, pa_binary p = sp_BinaryID sp, in_span sp (pa_posted p),
        a \<leftarrow> as, ar_id a = pa_article p, ar_posted a = pa_posted p] =
      concat (map (\<lambda>p. map (Pair p) (filter (\<lambda>a. ar_id a = pa_article p \<and> ar_posted a = pa_posted p) as))
        (filter (\<lambda>p. pa_binary p = sp_BinaryID sp \<and> in_span sp (pa_posted p)) ps))"
    for ps :: "part_row list" and as :: "article_row list"
  proof -
    have "[(p, a). a \<leftarrow> as, ar_id a = pa_article p, ar_posted a = pa_posted p] =
      map (Pair p) (filter (\<lambda>a. ar_id a = pa_article p \<and> ar_posted a = pa_posted p) as)" for p :: part_row
      by (induction as) auto
    then show ?thesis by (induction ps) auto
  qed
  have p: "filter (\<lambda>p. pa_binary p = sp_BinaryID sp \<and> in_span sp (pa_posted p)) (ix_parts ?e) =
      filter (\<lambda>p. pa_binary p = sp_BinaryID sp \<and> in_span sp (pa_posted p)) (ix_parts d)"
    unfolding purge_fields by (rule filter_filter_keep) (use assms in auto)
  show ?thesis unfolding parts_with_articles_def pick p
    by (rule arg_cong [where f = concat], rule map_cong [OF refl]) (use a in auto)
qed

lemma purge_crossposts:
  assumes "spared d k b"
  shows "crosspost_groups (purge_rows now k d) b = crosspost_groups d b"
proof -
  let ?e = "purge_rows now k d"
  have x: "filter (\<lambda>x. xp_article x = pa_article p \<and> xp_posted x = pa_posted p) (ix_crossposts ?e) =
      filter (\<lambda>x. xp_article x = pa_article p \<and> xp_posted x = pa_posted p) (ix_crossposts d)"
    if "p \<in> set (ix_parts d)" "pa_binary p = b" for p :: part_row
    unfolding purge_fields by (rule filter_filter_keep) (use that part_keeps_article [of p d k] assms in \<open>auto simp: list_ex_iff\<close>)
  have pick: "[xp_group x. p \<leftarrow> ps, pa_binary p = b, in_span sp (pa_posted p),
        x \<leftarrow> xs, xp_article x = pa_article p, xp_posted x = pa_posted p] =
      concat (map (\<lambda>p. map xp_group (filter (\<lambda>x. xp_article x = pa_article p \<and> xp_posted x = pa_posted p) xs))
        (filter (\<lambda>p. pa_binary p = b \<and> in_span sp (pa_posted p)) ps))"
    for ps :: "part_row list" and xs :: "crosspost_row list" and sp
  proof -
    have "[xp_group x. x \<leftarrow> xs, xp_article x = pa_article p, xp_posted x = pa_posted p] =
      map xp_group (filter (\<lambda>x. xp_article x = pa_article p \<and> xp_posted x = pa_posted p) xs)" for p :: part_row
      by (induction xs) auto
    then show ?thesis by (induction ps) auto
  qed
  have p: "filter (\<lambda>p. pa_binary p = b \<and> in_span sp (pa_posted p)) (ix_parts ?e) =
      filter (\<lambda>p. pa_binary p = b \<and> in_span sp (pa_posted p)) (ix_parts d)" for sp
    unfolding purge_fields by (rule filter_filter_keep) (use assms in auto)
  have "concat (map (\<lambda>p. map xp_group (filter (\<lambda>x. xp_article x = pa_article p \<and> xp_posted x = pa_posted p) (ix_crossposts ?e)))
        (filter (\<lambda>p. pa_binary p = b \<and> in_span sp (pa_posted p)) (ix_parts ?e))) =
      concat (map (\<lambda>p. map xp_group (filter (\<lambda>x. xp_article x = pa_article p \<and> xp_posted x = pa_posted p) (ix_crossposts d)))
        (filter (\<lambda>p. pa_binary p = b \<and> in_span sp (pa_posted p)) (ix_parts d)))" for sp
    unfolding p by (rule arg_cong [where f = concat], rule map_cong [OF refl]) (use x in auto)
  then show ?thesis unfolding crosspost_groups_def purge_span [OF assms] pick by (simp split: option.split)
qed

text \<open>What the NZB of another release, one that is not in the archive, is made of.\<close>

lemma purge_files: "j \<noteq> k \<Longrightarrow> files_of (purge_rows now k d) j = files_of d j"
  unfolding files_of_def purge_fields by (rule filter_filter_keep) auto

lemma purge_catalog: "catalog_of (purge_rows now k d) j = catalog_of d j"
  by (simp add: catalog_of_def purge_fields)

lemma purge_joined:
  "cf_release c = j \<Longrightarrow> j \<noteq> k \<Longrightarrow> joined_file (purge_rows now k d) c = joined_file d c"
  unfolding joined_file_def purge_fields by (rule find_filter_keep) auto

lemma joined_in: "joined_file d c = Some f \<Longrightarrow> f \<in> set (files_of d (cf_release c))"
  by (auto simp: joined_file_def files_of_def find_Some_iff in_set_conv_nth)

lemma purge_entry:
  assumes "cf_release c = j" "j \<noteq> k" "status_of d j \<notin> set stored_states"
  shows "catalog_entry (purge_rows now k d) c = catalog_entry d c"
proof -
  have b: "binary_of_file (purge_rows now k d) c = binary_of_file d c"
    unfolding binary_of_file_def purge_joined [OF assms(1,2)] ..
  have "core_of (purge_rows now k d) n = core_of d n" if "binary_of_file d c = Some n" for n
  proof -
    from that obtain f where f: "joined_file d c = Some f" "fi_binary f = Some n" by (auto simp: binary_of_file_def split: option.splits)
    have "spared d k n" by (rule others_spared [OF _ f(2) assms(2,3)]) (use joined_in [OF f(1)] assms(1) in simp)
    then show ?thesis by (rule purge_core)
  qed
  then show ?thesis unfolding catalog_entry_def b by (simp add: Let_def group_name_def purge_fields split: option.split)
qed

lemma purge_catalog_files:
  "j \<noteq> k \<Longrightarrow> status_of d j \<notin> set stored_states \<Longrightarrow> catalog_files (purge_rows now k d) j = catalog_files d j"
  unfolding catalog_files_def purge_catalog by (rule map_cong [OF refl]) (auto intro!: purge_entry simp: catalog_of_def)

lemma purge_groups:
  assumes "j \<noteq> k" "status_of d j \<notin> set stored_states"
  shows "catalog_groups (purge_rows now k d) j = catalog_groups d j"
proof -
  have "List.map_filter (\<lambda>x. if fst x = j then map_of ns (snd x) else None) (filter (\<lambda>x. fst x \<noteq> k) xs) =
    List.map_filter (\<lambda>x. if fst x = j then map_of ns (snd x) else None) xs" for ns :: "(int \<times> string) list" and xs
    using assms(1) by (induction xs) (auto simp: List.map_filter_simps split: option.split)
  moreover have "crosspost_groups (purge_rows now k d) b = crosspost_groups d b" if "b \<in> set (binaries_of d j)" for b
  proof -
    from that obtain f where "f \<in> set (files_of d j)" "fi_binary f = Some b"
      by (auto simp: binaries_of_def List.map_filter_def)
    then show ?thesis by (intro purge_crossposts others_spared [OF _ _ assms])
  qed
  then have "map (crosspost_groups (purge_rows now k d)) (binaries_of d j) = map (crosspost_groups d) (binaries_of d j)" by simp
  ultimately show ?thesis
    unfolding catalog_groups_def binaries_of_def purge_files [OF assms(1)] by (simp only: purge_fields)
qed

lemma purge_file_articles:
  assumes "distinct (map cf_id (ix_catalog d))" "f \<in> set (catalog_files d j)" "j \<noteq> k" "status_of d j \<notin> set stored_states"
  shows "file_articles (purge_rows now k d) (cl_ID f) = file_articles d (cl_ID f)"
proof -
  let ?e = "purge_rows now k d"
  from assms(2) obtain c where c: "c \<in> set (ix_catalog d)" "cf_release c = j" "cl_ID f = cf_id c"
    by (auto simp: catalog_files_def catalog_of_def catalog_entry_def Let_def)
  have "find (\<lambda>x. cf_id x = cf_id c) xs = Some c" if "distinct (map cf_id xs)" "c \<in> set xs" for xs
    using that by (induction xs) (auto simp: image_iff)
  then have find: "find (\<lambda>x. cf_id x = cl_ID f) (ix_catalog d) = Some c" using assms(1) c by simp
  have bin: "binary_of_file ?e c = binary_of_file d c"
    unfolding binary_of_file_def purge_joined [OF c(2) assms(3)] ..
  have sp: "spared d k b" if "binary_of_file d c = Some b" for b
  proof -
    from that obtain g where g: "joined_file d c = Some g" "fi_binary g = Some b" by (auto simp: binary_of_file_def split: option.splits)
    show ?thesis by (rule others_spared [OF _ g(2) assms(3,4)]) (use joined_in [OF g(1)] c(2) in simp)
  qed
  have span: "span_of_file ?e (cl_ID f) = span_of_file d (cl_ID f)"
    using bin sp purge_span by (simp add: span_of_file_def purge_fields(1) find split: option.split)
  have "articles_in_span ?e x = articles_in_span d x" if "span_of_file d (cl_ID f) = Some x" for x
  proof -
    have "spared d k (sp_BinaryID x)" using that sp span_binary by (auto simp: span_of_file_def find split: option.splits)
    then show ?thesis by (simp add: articles_in_span_def purge_parts)
  qed
  then show ?thesis unfolding file_articles_def span by (auto split: option.split)
qed

lemma plain_doc_cong:
  "(\<And>f. f \<in> set fs \<Longrightarrow> file_articles e (cl_ID f) = file_articles d (cl_ID f)) \<Longrightarrow> plain_doc rel gs e fs = plain_doc rel gs d fs"
  by (induction fs) (auto simp: Let_def)

lemma purge_plain_nzb:
  assumes "distinct (map cf_id (ix_catalog d))" "trim_space (rel_ID rel) \<noteq> k" "status_of d (trim_space (rel_ID rel)) \<notin> set stored_states"
  shows "plain_nzb xml rel (purge_rows now k d) = plain_nzb xml rel d"
proof -
  let ?j = "trim_space (rel_ID rel)"
  have g: "release_groups (purge_rows now k d) ?j = release_groups d ?j"
    unfolding release_groups_def purge_groups [OF assms(2,3)] ..
  have "plain_doc rel gs (purge_rows now k d) (catalog_files d ?j) = plain_doc rel gs d (catalog_files d ?j)" for gs
    by (rule plain_doc_cong) (rule purge_file_articles [OF assms(1) _ assms(2,3)])
  then show ?thesis by (simp only: plain_nzb_def Let_def g purge_catalog_files [OF assms(2,3)])
qed


section \<open>Transactions\<close>

text \<open>A transaction, with or without retries: either its body ran as a whole, or the tables are as before.\<close>

definition ran :: "'a tables \<Rightarrow> indexer \<Rightarrow> go_error + 'a \<Rightarrow> indexer \<Rightarrow> bool" where
  "ran m s r t \<longleftrightarrow> in_shop t = in_shop s \<and> in_now t = in_now s \<and> (calm s \<longrightarrow> calm t) \<and>
     (case r of Inr x \<Rightarrow> m (in_db s) = (Inr x, in_db t) | Inl e \<Rightarrow> in_db t = in_db s)"

lemma in_tx_ran: "in_tx m s = (r, t) \<Longrightarrow> ran m s r t"
  by (auto simp: ran_def in_tx_def calm_def Let_def split: list.splits option.splits prod.splits sum.splits)

lemma retry_ran: "retry_tx n (in_tx m) s = (r, t) \<Longrightarrow> ran m s r t"
proof (induction n arbitrary: s r t)
  case 0
  then show ?case by (auto intro: in_tx_ran)
next
  case (Suc n)
  obtain q u where q: "in_tx m s = (q, u)" by fastforce
  note u = in_tx_ran [OF q]
  show ?case
  proof (cases q)
    case (Inr x)
    with Suc.prems q u show ?thesis by simp
  next
    case (Inl e)
    show ?thesis
    proof (cases "isRetryablePostgresTxError e")
      case False
      with Suc.prems q u Inl show ?thesis by simp
    next
      case True
      obtain b v where v: "ctx_done u = (Inr b, v)" "in_db v = in_db u" "in_shop v = in_shop u" "in_now v = in_now u" "calm u \<longrightarrow> calm v"
        by (cases "in_ctx u") (auto simp: ctx_done_def calm_def)
      from Suc.prems q Inl True v(1) have next_: "(if b then refuse Canceled else retry_tx n (in_tx m)) v = (r, t)" by simp
      show ?thesis
      proof (cases b)
        case True
        with next_ have "r = Inl Canceled" "t = v" by (auto simp: refuse_def)
        with u v Inl show ?thesis by (simp add: ran_def)
      next
        case False
        with next_ Suc.IH [of v r t] have "ran m v r t" by simp
        with u v Inl show ?thesis by (auto simp: ran_def split: sum.splits)
      qed
    qed
  qed
qed

text \<open>An operation that first needs the key of a release.\<close>

lemma need_releaseE:
  assumes "need_release k m s = (r, t)"
  obtains (blank) "r = Inl (Message ''release id is required'')" "t = s" | (runs) "trim_space k \<noteq> []" "m (trim_space k) s = (r, t)"
  using assms by (cases "trim_space k = []") (auto simp: need_release_def refuse_def Let_def)

definition may_purge :: "index_db \<Rightarrow> string \<Rightarrow> bool" where
  "may_purge d k \<longleftrightarrow> (\<exists>a. archive_of d k = Some a \<and> as_status a = ''purge_pending'' \<and> trim_space (as_key a) \<noteq> [])
     \<and> list_ex (\<lambda>r. rl_id r = k) (ix_releases d) \<and> catalog_of d k \<noteq> [] \<and> inspected ''inspect_media'' d k"

lemma purge_tx:
  "purgeArchivedReleaseSourcesTx now k d = (Inr x, e) \<longleftrightarrow> may_purge d k \<and> x = purge_report k d \<and> e = purge_rows now k d"
  by (auto simp: purgeArchivedReleaseSourcesTx_def loadReleasePurgePreflight_def may_purge_def attempt_def give_def refuse_def
      split: option.splits if_splits)

lemma purge_cases:
  assumes "PurgeArchivedReleaseSources k s = (r, t)"
  obtains (refused) e where "r = Inl e" "in_db t = in_db s" "in_shop t = in_shop s" "calm s \<longrightarrow> calm t"
  | (purged) "r = Inr (purge_report (trim_space k) (in_db s))" "trim_space k \<noteq> []" "may_purge (in_db s) (trim_space k)"
      "in_db t = purge_rows (in_now s) (trim_space k) (in_db s)" "in_shop t = in_shop s" "calm s \<longrightarrow> calm t"
proof -
  from assms have n: "need_release k (\<lambda>k. retryRetryablePostgresTx (in_tx (purgeArchivedReleaseSourcesTx (in_now s) k))) s = (r, t)"
    by (simp add: PurgeArchivedReleaseSources_def)
  from n show thesis
  proof (cases rule: need_releaseE)
    case blank
    then show thesis using refused by simp
  next
    case runs
    then have "ran (purgeArchivedReleaseSourcesTx (in_now s) (trim_space k)) s r t"
      unfolding retryRetryablePostgresTx_def by (intro retry_ran)
    then show thesis using runs(1) refused purged by (cases r) (auto simp: ran_def purge_tx)
  qed
qed

section \<open>A purge never changes another release\<close>

lemma index_nzb_from_articles:
  assumes "calm s" "trim_space (rel_ID rel) \<noteq> []" "\<not> in_stored_state (archive_of (in_db s) (trim_space (rel_ID rel)))"
  shows "Index_GetNZB xml archive (Some rel) s = (map_sum id Buffer (plain_nzb xml rel (in_db s)), s)"
proof (cases archive)
  case None
  then show ?thesis using assms by (simp add: Index_GetNZB_def from_articles_calm)
next
  case (Some ps)
  have "GetReleaseArchiveState (rel_ID rel) s = (Inr (archive_of (in_db s) (trim_space (rel_ID rel))), s)"
    using assms by (simp add: GetReleaseArchiveState_def need_release_def)
  then show ?thesis using Some assms by (simp add: Index_GetNZB_def from_articles_calm attempt_def map_error_def)
qed

text \<open>When the archive can be read, nothing else is.\<close>

lemma index_nzb_from_archive:
  assumes "calm s" "trim_space (rel_ID rel) \<noteq> []" "archive_of (in_db s) (trim_space (rel_ID rel)) = Some a"
    "in_stored_state (Some a)" "GetNZBReader ps (as_key a) (in_shop s) = (Inr rd, c)"
  shows "Index_GetNZB xml (Some ps) (Some rel) s = (Inr rd, s\<lparr>in_shop := c\<rparr>)"
proof -
  have "GetReleaseArchiveState (rel_ID rel) s = (Inr (Some a), s)"
    using assms by (simp add: GetReleaseArchiveState_def need_release_def)
  then show ?thesis using assms
    by (simp add: Index_GetNZB_def attempt_def map_error_def regardless_def payload_call_def give_def)
qed

lemma in_stored_status: "in_stored_state (archive_of d j) \<Longrightarrow> status_of d j \<in> set stored_states"
  by (auto simp: in_stored_state_def status_of_def split: option.splits)

text \<open>C7: The purge of a release never changes the NZB of another one. The other release may share binaries and articles with
  it, or have taken them over; as long as it is not in the archive itself, or can be read from there, what the
  resolver hands out for it is the same before and after.\<close>

theorem purge_spares_other_releases:
  assumes "distinct (map cf_id (ix_catalog (in_db s)))" "calm s"
    and "PurgeArchivedReleaseSources k s = (res, t)"
    and "trim_space (rel_ID rel) \<noteq> trim_space k"
    and "status_of (in_db s) (trim_space (rel_ID rel)) \<notin> set stored_states \<or>
      (\<exists>a ps rd c. archive = Some ps \<and> archive_of (in_db s) (trim_space (rel_ID rel)) = Some a \<and> in_stored_state (Some a)
         \<and> GetNZBReader ps (as_key a) (in_shop s) = (Inr rd, c))"
  shows "fst (Index_GetNZB xml archive (Some rel) t) = fst (Index_GetNZB xml archive (Some rel) s)"
proof (cases "trim_space (rel_ID rel) = []")
  case True
  then show ?thesis by (simp add: Index_GetNZB_def refuse_def)
next
  case ne: False
  let ?j = "trim_space (rel_ID rel)"
  from assms(3) show ?thesis
  proof (cases rule: purge_cases)
    case refused
    with refused assms(2,5) ne show ?thesis
    proof (elim disjE exE conjE)
      assume "status_of (in_db s) ?j \<notin> set stored_states"
      then show ?thesis using refused assms(2) ne index_nzb_from_articles [of s rel xml archive] index_nzb_from_articles [of t rel xml archive]
          in_stored_status by (metis fst_conv)
    next
      fix a ps rd c
      assume "archive = Some ps" "archive_of (in_db s) ?j = Some a" "in_stored_state (Some a)" "GetNZBReader ps (as_key a) (in_shop s) = (Inr rd, c)"
      then show ?thesis using refused assms(2) ne index_nzb_from_archive [of s rel a ps rd c xml] index_nzb_from_archive [of t rel a ps rd c xml] by simp
    qed
  next
    case purged
    then have j: "archive_of (in_db t) ?j = archive_of (in_db s) ?j" "status_of (in_db t) ?j = status_of (in_db s) ?j"
      using assms(4) by (simp_all add: status_of_def purge_archive_of)
    from assms(5) show ?thesis
    proof (elim disjE exE conjE)
      assume st: "status_of (in_db s) ?j \<notin> set stored_states"
      then have "\<not> in_stored_state (archive_of (in_db s) ?j)" "\<not> in_stored_state (archive_of (in_db t) ?j)"
        using in_stored_status j(2) by metis+
      then show ?thesis
        using index_nzb_from_articles [OF _ ne, of s] index_nzb_from_articles [OF _ ne, of t] purged(4,6) assms(2)
          purge_plain_nzb [OF assms(1,4) st] by simp
    next
      fix a ps rd c
      assume "archive = Some ps" "archive_of (in_db s) ?j = Some a" "in_stored_state (Some a)" "GetNZBReader ps (as_key a) (in_shop s) = (Inr rd, c)"
      then show ?thesis
        using purged(5,6) assms(2) ne j(1) index_nzb_from_archive [of s rel a ps rd c xml] index_nzb_from_archive [of t rel a ps rd c xml] by simp
    qed
  qed
qed


section \<open>An index with two releases\<close>

text \<open>Release A has the file of binary 1, release B that of binary 2, which A had before; both binaries have one article.\<close>

definition idx_release :: "string \<Rightarrow> string \<Rightarrow> release_row" where
  "idx_release k title =
     \<lparr>rl_id = k, rl_guid = k, rl_provider = 7, rl_group = k, rl_family = k, rl_title = title, rl_search_title = title,
      rl_title_source = ''source'', rl_deobfuscated = [], rl_matched_media = [], rl_original_media = [], rl_category = [],
      rl_category_id = 2000, rl_poster = ''p'', rl_source_kind = ''usenet_index'', rl_size = 10, rl_posted = Some 5,
      rl_file_count = 1, rl_par_count = 0, rl_expected = 1, rl_archive_count = 0, rl_expected_archive = 0,
      rl_completion = 100, rl_confidence = 1, rl_identity = ''identified'', rl_password_state = ''not_passworded'',
      rl_passworded = False, rl_password_known = False, rl_password_unknown = False, rl_has_par2 = True, rl_has_nfo = False,
      rl_runtime = 0, rl_resolution = [], rl_video_codec = [], rl_audio_codec = [], rl_tmdb = 0, rl_tvdb = 0, rl_media_type = []\<rparr>"

definition idx_file :: "string \<Rightarrow> int \<Rightarrow> string \<Rightarrow> file_row" where
  "idx_file k b n = \<lparr>fi_release = k, fi_binary = Some b, fi_name = n, fi_size = 10, fi_index = 1, fi_is_pars = False,
     fi_subject = n, fi_poster = ''p'', fi_posted = Some 5\<rparr>"

definition idx_catalog :: "int \<Rightarrow> string \<Rightarrow> string \<Rightarrow> catalog_row" where
  "idx_catalog i k n = \<lparr>cf_id = i, cf_release = k, cf_name = n, cf_size = 10, cf_index = 1, cf_is_pars = False,
     cf_subject = n, cf_poster = ''p'', cf_posted = Some 5, cf_articles = 1, cf_total = 1\<rparr>"

definition idx_tables :: index_db where
  "idx_tables =
     \<lparr>ix_releases = [idx_release ''A'' ''Film'', idx_release ''B'' ''Song''], ix_overrides = [],
      ix_files = [idx_file ''A'' 1 ''a.mkv'', idx_file ''B'' 2 ''b.mp3''],
      ix_rel_groups = [(''A'', 4), (''B'', 4)], ix_group_names = [(4, ''alt.x'')],
      ix_catalog = [idx_catalog 11 ''A'' ''a.mkv'', idx_catalog 12 ''B'' ''b.mp3''], ix_next = 20,
      ix_cores = [\<lparr>co_binary = 1, co_newsgroup = 4, co_posted = Some 5\<rparr>, \<lparr>co_binary = 2, co_newsgroup = 4, co_posted = Some 5\<rparr>],
      ix_stats = [\<lparr>st_binary = 1, st_root = 5, st_observed = 1, st_total = 1, st_posted = Some 5, st_min = None, st_max = None\<rparr>,
        \<lparr>st_binary = 2, st_root = 5, st_observed = 1, st_total = 1, st_posted = Some 5, st_min = None, st_max = None\<rparr>],
      ix_idents = [],
      ix_parts = [\<lparr>pa_id = 1, pa_binary = 1, pa_article = 31, pa_posted = 5, pa_number = 1\<rparr>,
        \<lparr>pa_id = 2, pa_binary = 2, pa_article = 32, pa_posted = 5, pa_number = 1\<rparr>],
      ix_articles = [\<lparr>ar_id = 31, ar_posted = 5, ar_number = 100, ar_message = ''m1'', ar_bytes = 10\<rparr>,
        \<lparr>ar_id = 32, ar_posted = 5, ar_number = 101, ar_message = ''m2'', ar_bytes = 10\<rparr>],
      ix_crossposts = [\<lparr>xp_article = 32, xp_posted = 5, xp_group = ''alt.y''\<rparr>], ix_payloads = [31, 32],
      ix_inspections = [\<lparr>is_binary = 1, is_stage = ''inspect_media'', is_status = ''completed''\<rparr>],
      ix_owned = [(''binary_par2_sets'', 1)], ix_superseded = [], ix_archive = [], ix_lineage = [], ix_lineage_articles = [],
      ix_nzb = [], ix_details = []\<rparr>"

definition idx_shop :: catalogue where
  "idx_shop =
     \<lparr>ct_os = \<lparr>os_tree = [], os_cwd = ''/'', os_handles = [], os_faults = [], os_ctx = []\<rparr>,
      ct_db = \<lparr>cd_blobs = [], cd_releases = []\<rparr>, ct_memory = (\<lambda>_. None), ct_recent = [], ct_faults = [], ct_now = 100,
      ct_mtime = (\<lambda>_. 50), ct_names = []\<rparr>"

definition idx_state :: "index_db \<Rightarrow> indexer" where
  "idx_state d = \<lparr>in_db = d, in_faults = [], in_ctx = [], in_shop = idx_shop, in_now = 9\<rparr>"

definition idx_candidate :: archive_candidate where
  "idx_candidate = \<lparr>ca_ReleaseID = ''A'', ca_ProviderID = 7, ca_Title = ''Film''\<rparr>"

definition idx_sha :: "byte list \<Rightarrow> string" where "idx_sha x = ''ab'' @ utoa (length x)"

definition idx_xml :: "nzb_doc \<Rightarrow> go_error + byte list" where
  "idx_xml doc = Inr (map (\<lambda>f. if xf_Subject f = ''a.mkv'' then 1 else 2) doc)"

text \<open>A is in the archive, and it had binary 2 when it was put there.\<close>

definition idx_pending :: index_db where
  "idx_pending = idx_tables\<lparr>
     ix_archive := [(new_archive_state ''A'')\<lparr>as_status := ''purge_pending'', as_key := ''releases/7/A/ab1.nzb'', as_hash := ''ab1''\<rparr>],
     ix_lineage := [(''A'', 1), (''A'', 2)], ix_lineage_articles := [(''A'', 31), (''A'', 32)]\<rparr>"

lemma purge_runs:
  assumes "calm s" "trim_space k = k" "k \<noteq> []" "may_purge (in_db s) k"
  shows "PurgeArchivedReleaseSources k s = (Inr (purge_report k (in_db s)), s\<lparr>in_db := purge_rows (in_now s) k (in_db s)\<rparr>)"
proof -
  have "in_tx (purgeArchivedReleaseSourcesTx (in_now s) k) s =
    (Inr (purge_report k (in_db s)), s\<lparr>in_db := purge_rows (in_now s) k (in_db s)\<rparr>)"
  proof -
    have "purgeArchivedReleaseSourcesTx (in_now s) k (in_db s) = (Inr (purge_report k (in_db s)), purge_rows (in_now s) k (in_db s))"
      using assms(4) by (simp add: purge_tx)
    then show ?thesis by (simp add: in_tx_calm [OF assms(1)])
  qed
  then show ?thesis using assms(2,3)
    by (simp add: PurgeArchivedReleaseSources_def need_release_def retryRetryablePostgresTx_def numeral_2_eq_2)
qed

text \<open>The purge of A leaves one binary, the one B has taken over, and B's NZB can still be built.\<close>

lemma purge_spares_other_releases_witness:
  "let t = snd (PurgeArchivedReleaseSources ''A'' (idx_state idx_pending)); b = Some (empty_release\<lparr>rel_ID := ''B''\<rparr>)
   in map co_binary (ix_cores (in_db t)) = [2] \<and> map ar_id (ix_articles (in_db t)) = [32] \<and>
      fst (Index_GetNZB idx_xml (Some InMemory) b t) = fst (Index_GetNZB idx_xml (Some InMemory) b (idx_state idx_pending)) \<and>
      fst (Index_GetNZB idx_xml (Some InMemory) b (idx_state idx_pending)) = Inr (Buffer [2])"
proof -
  let ?s = "idx_state idx_pending" and ?b = "empty_release\<lparr>rel_ID := ''B''\<rparr>"
  have d: "in_db ?s = idx_pending" "in_now ?s = 9" by (simp_all add: idx_state_def)
  have 1: "distinct (map cf_id (ix_catalog (in_db ?s)))" unfolding d by code_simp
  have 2: "calm ?s" by (simp add: calm_def idx_state_def)
  have b: "trim_space (rel_ID ?b) = ''B''" "trim_space ''A'' = ''A''" by code_simp+
  have 3: "trim_space (rel_ID ?b) \<noteq> trim_space ''A''" unfolding b by simp
  have 4: "status_of (in_db ?s) (trim_space (rel_ID ?b)) \<notin> set stored_states" unfolding b d by code_simp
  have 5: "may_purge (in_db ?s) ''A''"
  proof -
    have "archive_of idx_pending ''A'' \<noteq> None \<and> as_status (the (archive_of idx_pending ''A'')) = ''purge_pending''
      \<and> trim_space (as_key (the (archive_of idx_pending ''A''))) \<noteq> []" by code_simp
    moreover have "list_ex (\<lambda>r. rl_id r = ''A'') (ix_releases idx_pending)" by code_simp
    moreover have "catalog_of idx_pending ''A'' \<noteq> []" by code_simp
    moreover have "inspected ''inspect_media'' idx_pending ''A''" by code_simp
    ultimately show ?thesis unfolding d by (auto simp: may_purge_def)
  qed
  have t: "in_db (snd (PurgeArchivedReleaseSources ''A'' ?s)) = purge_rows 9 ''A'' idx_pending"
    using purge_runs [OF 2 b(2) _ 5] by (simp add: d)
  have "fst (Index_GetNZB idx_xml (Some InMemory) (Some ?b) (snd (PurgeArchivedReleaseSources ''A'' ?s))) =
    fst (Index_GetNZB idx_xml (Some InMemory) (Some ?b) ?s)"
    by (rule purge_spares_other_releases [OF 1 2 prod.collapse [symmetric] 3]) (use 4 in simp)
  moreover have "map co_binary (ix_cores (purge_rows 9 ''A'' idx_pending)) = [2]" by code_simp
  moreover have "map ar_id (ix_articles (purge_rows 9 ''A'' idx_pending)) = [32]" by code_simp
  moreover have "fst (Index_GetNZB idx_xml (Some InMemory) (Some ?b) ?s) = Inr (Buffer [2])"
  proof -
    have "plain_nzb idx_xml ?b idx_pending = Inr [2]" by code_simp
    moreover have "\<not> in_stored_state (archive_of (in_db ?s) (trim_space (rel_ID ?b)))" using 4 in_stored_status by blast
    ultimately show ?thesis using index_nzb_from_articles [OF 2, of ?b] b by (simp add: d)
  qed
  ultimately show ?thesis by (simp add: Let_def t)
qed

end
