(* ===== verification/Archive_Runs.thy ===== *)
theory Archive_Runs
  imports Archive_Props
begin

text \<open>
  Histories of the archive: the steps of the three stages, of the formation of releases and of everything that does not
  touch the archive, in any order, with any fault. Every release in the archive can be read, with the digest that was
  recorded. What one run of a stage does, who may claim a release, and where a release is lost.
\<close>

section \<open>The keys of the archive\<close>

text \<open>\<open>sha\<close> gives hexadecimal digits.\<close>

definition hex_digest :: "(byte list \<Rightarrow> string) \<Rightarrow> bool" where
  "hex_digest sha \<longleftrightarrow> (\<forall>x. sha x \<noteq> [] \<and> list_all lower_or_digit (sha x))"

lemma idx_digest: "hex_digest idx_sha"
proof -
  have "list_all lower_or_digit (utoa n)" for n
    using utoa_digits [of n] by (auto simp: list_all_iff lower_or_digit_def)
  then show ?thesis by (simp add: hex_digest_def idx_sha_def lower_or_digit_def)
qed

lemma trim_space_ends: "s \<noteq> [] \<Longrightarrow> plain (hd s) \<Longrightarrow> plain (last s) \<Longrightarrow> trim_space s = s"
proof -
  assume t: "s \<noteq> []" "plain (hd s)" "plain (last s)"
  have l: "trim_left s = s" using t by (cases s) (simp_all add: space_len_plain)
  have "trim_left_rev (rev s) = rev s"
    using t by (cases "rev s") (simp_all add: space_len_rev_plain last_rev [symmetric] hd_rev)
  with l show ?thesis by (simp add: trim_space_def)
qed

lemma hex_plain: "lower_or_digit c \<Longrightarrow> plain c \<and> c \<noteq> CHR ''.'' \<and> c \<noteq> CHR ''/''"
  by (auto simp: lower_or_digit_def is_digit_def plain_def)

lemma digest_trim: "hex_digest sha \<Longrightarrow> trim_space (sha x) = sha x"
  by (rule trim_space_plain) (auto simp: hex_digest_def list_all_iff hex_plain)

lemma archive_key:
  assumes "hex_digest sha"
  shows "\<exists>w. archiveObjectKey p k (sha x) = ''releases/'' @ w @ CHR ''/'' # sha x @ ''.nzb''"
  using assms digest_trim [OF assms, of x] by (auto simp: archiveObjectKey_def Let_def hex_digest_def)

lemma archive_key_trim: "hex_digest sha \<Longrightarrow> trim_space (archiveObjectKey p k (sha x)) = archiveObjectKey p k (sha x)"
  using archive_key [of sha p k x] by (auto intro!: trim_space_ends simp: plain_def)

lemma archive_key_ne: "hex_digest sha \<Longrightarrow> archiveObjectKey p k (sha x) \<noteq> []"
  using archive_key [of sha p k x] by auto

lemma archive_path:
  assumes "hex_digest sha" "rooted cwd" "fb_dir fs \<noteq> []"
  shows "\<exists>q suf. place_of cwd (pathForNZBKey fs (archiveObjectKey p k (sha x))) = q @ [sha x @ CHR ''.'' # suf]"
proof -
  let ?key = "archiveObjectKey p k (sha x)"
  obtain w where w: "?key = ''releases/'' @ w @ CHR ''/'' # sha x @ ''.nzb''" using archive_key [OF assms(1)] by blast
  have ns: "CHR ''/'' \<notin> set (sha x @ CHR ''.'' # suf)" if "CHR ''/'' \<notin> set suf" for suf
    using assms(1) that by (auto simp: hex_digest_def list_all_iff dest: hex_plain)
  have path: "\<exists>q. place_of cwd (path_join (fb_dir fs) (''releases/'' @ w @ CHR ''/'' # sha x @ CHR ''.'' # suf)) = q @ [sha x @ CHR ''.'' # suf]"
    if "suf \<noteq> []" "CHR ''/'' \<notin> set suf" for suf
  proof -
    have l: "split_slash [] (''releases/'' @ w @ CHR ''/'' # sha x @ CHR ''.'' # suf) =
      split_slash [] (''releases/'' @ w) @ [sha x @ CHR ''.'' # suf]"
      using split_slash_append [of "[]" "''releases/'' @ w" "sha x @ CHR ''.'' # suf"] split_slash_plain [OF ns [OF that(2)], of "[]" "[]"] by simp
    have "ordinary (sha x @ CHR ''.'' # suf)"
      using ns [OF that(2)] that(1) assms(1) by (auto simp: ordinary_def hex_digest_def append_eq_Cons_conv)
    then show ?thesis using place_key [OF assms(2,3), of "''releases/'' @ w @ CHR ''/'' # sha x @ CHR ''.'' # suf"] l by simp
  qed
  have "trim_prefix ''/'' ?key = ?key" by (simp add: w trim_prefix_def)
  then have "pathForNZBKey fs ?key = path_join (fb_dir fs) (if has_suffix ''.nzb'' (to_lower ?key) then ?key else ?key @ ''.nzb'')"
    using archive_key_trim [OF assms(1)] archive_key_ne [OF assms(1)] by (simp add: pathForNZBKey_def Let_def)
  then show ?thesis
    using path [of "''nzb''"] path [of "''nzb.nzb''"] by (cases "has_suffix ''.nzb'' (to_lower ?key)") (auto simp: w)
qed

lemma before_mark: "m \<notin> set u \<Longrightarrow> takeWhile (\<lambda>c. c \<noteq> m) (u @ m # v) = u"
  by (induction u) auto

text \<open>Keys that name the same payload carry the same digest.\<close>

lemma same_key_digest:
  assumes "hex_digest sha" "store_ready ps cwd c" "same_key ps cwd (archiveObjectKey p k (sha x)) (archiveObjectKey p' k' (sha y))"
  shows "sha x = sha y"
proof -
  have nd: "CHR ''.'' \<notin> set (sha z)" for z
    using assms(1) by (auto simp: hex_digest_def list_all_iff dest: hex_plain)
  have eq: "sha x = sha y" if "sha x @ CHR ''.'' # u = sha y @ CHR ''.'' # v" for u v
    using arg_cong [OF that, of "takeWhile (\<lambda>c. c \<noteq> CHR ''.'')"] before_mark [OF nd] by simp
  show ?thesis
  proof (cases ps)
    case (OnDisk fs)
    have r: "rooted cwd" "fb_dir fs \<noteq> []" using assms(2) OnDisk by simp_all
    obtain q suf where a: "place_of cwd (pathForNZBKey fs (archiveObjectKey p k (sha x))) = q @ [sha x @ CHR ''.'' # suf]"
      using archive_path [OF assms(1) r] by blast
    obtain q' suf' where b: "place_of cwd (pathForNZBKey fs (archiveObjectKey p' k' (sha y))) = q' @ [sha y @ CHR ''.'' # suf']"
      using archive_path [OF assms(1) r] by blast
    from assms(3) OnDisk have "q @ [sha x @ CHR ''.'' # suf] = q' @ [sha y @ CHR ''.'' # suf']" by (simp add: a b)
    then have "sha x @ CHR ''.'' # suf = sha y @ CHR ''.'' # suf'" by (simp only: append1_eq_conv)
    then show ?thesis by (rule eq)
  next
    case InMemory
    have cancel: "rev (sha x) @ CHR ''/'' # rev a = rev (sha y) @ CHR ''/'' # rev b"
      if "a @ CHR ''/'' # sha x @ n = b @ CHR ''/'' # sha y @ n" for a b n :: string
      using arg_cong [OF that, of rev] by simp
    obtain w where w: "archiveObjectKey p k (sha x) = ''releases/'' @ w @ CHR ''/'' # sha x @ ''.nzb''"
      using archive_key [OF assms(1)] by blast
    obtain w' where w': "archiveObjectKey p' k' (sha y) = ''releases/'' @ w' @ CHR ''/'' # sha y @ ''.nzb''"
      using archive_key [OF assms(1)] by blast
    have "archiveObjectKey p k (sha x) = archiveObjectKey p' k' (sha y)" using InMemory assms(3) by simp
    then have "(''releases/'' @ w) @ CHR ''/'' # sha x @ ''.nzb'' = (''releases/'' @ w') @ CHR ''/'' # sha y @ ''.nzb''"
      unfolding w w' by (simp only: append_assoc)
    note e = cancel [OF this]
    have ns: "CHR ''/'' \<notin> set (rev (sha z))" for z
      using assms(1) by (auto simp: hex_digest_def list_all_iff dest: hex_plain)
    from arg_cong [OF e, of "takeWhile (\<lambda>c. c \<noteq> CHR ''/'')"] show ?thesis unfolding before_mark [OF ns] by simp
  qed
qed


section \<open>Steps that only read\<close>

definition reading :: "indexer \<Rightarrow> indexer \<Rightarrow> bool" where
  "reading s t \<longleftrightarrow> in_db t = in_db s \<and> in_now t = in_now s \<and> quiet_step (in_shop s) (in_shop t)"

lemma quiet_refl [simp]: "quiet_step c c" by (simp add: quiet_step_def)

lemma reading_trans: "transp reading"
  by (rule transpI) (use transpD [OF quiet_trans] in \<open>auto simp: reading_def\<close>)

abbreviation only_reads :: "'a indexing \<Rightarrow> bool" where "only_reads \<equiv> steps_within reading"

lemma reads_give [intro!]: "only_reads (give x)" "only_reads (refuse e)"
  by (simp_all add: steps_within_def give_def refuse_def reading_def)

lemma reads_attempt [intro!]: "only_reads m \<Longrightarrow> (\<And>x. only_reads (k x)) \<Longrightarrow> only_reads (attempt m k)"
  by (rule steps_attempt [OF reading_trans])

lemma reads_regardless [intro!]: "only_reads m \<Longrightarrow> (\<And>x. only_reads (k x)) \<Longrightarrow> only_reads (regardless m k)"
  by (rule steps_regardless [OF reading_trans])

lemma reads_map_error [intro!]: "only_reads m \<Longrightarrow> only_reads (map_error f m)"
  unfolding steps_within_def map_error_def by (auto split: prod.split sum.split) (metis snd_conv)+

lemma reads_asks [intro!]: "only_reads (in_tx (asks f))"
  by (auto simp: steps_within_def in_tx_def asks_def reading_def Let_def split: list.split option.split)

lemma reads_ctx [intro!]: "only_reads ctx_done"
  by (auto simp: steps_within_def ctx_done_def reading_def split: list.split)

lemma reads_shop [intro!]: "quiet m \<Longrightarrow> only_reads (payload_call m)"
  by (auto simp: steps_within_def payload_call_def reading_def split: prod.split) (metis snd_conv)

lemma reads_need [intro!]: "(\<And>k. only_reads (m k)) \<Longrightarrow> only_reads (need_release k m)"
  unfolding need_release_def Let_def by auto

lemma reads_articles [intro!]: "only_reads (ListCatalogReleaseFileArticles k)"
  unfolding ListCatalogReleaseFileArticles_def loadReleaseFileBinaryPartSourceSpan_def listCatalogArticlesForBinarySpan_def
    ListCatalogBinaryArticles_def loadBinaryPartSourceSpan_def
  by (auto split: option.split)

lemma reads_doc [intro!]: "only_reads (doc_files rel groups fs)"
  by (induction fs) (auto simp: Let_def)

lemma reads_from_articles [intro!]: "only_reads (from_articles xml rel)"
  unfolding from_articles_def buildNZB_def ListCatalogReleaseFiles_def ListCatalogReleaseNewsgroups_def
  by (auto split: sum.split)

lemma reads_nzb [intro!]: "only_reads (Index_GetNZB xml archive rel)"
  unfolding Index_GetNZB_def GetReleaseArchiveState_def by (auto split: option.split sum.split)

lemma reads_fetch: "fetch_bytes xml ps c s = (r, t) \<Longrightarrow> reading s t"
proof -
  have "only_reads (attempt (Index_GetNZB xml (Some ps) (Some (candidate_release (in_now s) c))) (\<lambda>rd. payload_call (ReadAll rd)))"
    by auto
  then show "fetch_bytes xml ps c s = (r, t) \<Longrightarrow> reading s t"
    unfolding fetch_bytes_def steps_within_def by (metis snd_conv)
qed

section \<open>The histories\<close>

text \<open>\<open>work\<close> holds what the runs under way have saved and not recorded yet: provider, release, payload. The runs of the
  stages are taken apart into their steps, between which any other step may come.\<close>

type_synonym work = "(int \<times> string \<times> byte list) list"

inductive archive_step ::
  "(byte list \<Rightarrow> string) \<Rightarrow> payload_store \<Rightarrow> indexer \<times> work \<Rightarrow> indexer \<times> work \<Rightarrow> bool"
  for sha :: "byte list \<Rightarrow> string" and ps :: payload_store where
  step_other: "ix_archive (in_db t) = ix_archive (in_db s) \<Longrightarrow> quiet_step (in_shop s) (in_shop t) \<Longrightarrow>
    archive_step sha ps (s, w) (t, w)"
| step_persist: "PersistReleaseSnapshot fresh guid recat r fs gs s = (res, t) \<Longrightarrow> archive_step sha ps (s, w) (t, w)"
| step_generate: "ListReleaseNZBGenerateCandidates locked n p s = (cands, t) \<Longrightarrow> archive_step sha ps (s, w) (t, w)"
| step_claim: "ClaimReleaseArchiveCandidates locked n p s = (cands, t) \<Longrightarrow> archive_step sha ps (s, w) (t, w)"
| step_save: "payload_call (SaveNZBAtomically ps (archiveObjectKey pr k (sha x)) x) s = (res, t) \<Longrightarrow>
    archive_step sha ps (s, w) (t, if isl res then w else (pr, k, x) # w)"
| step_record: "(pr, k, x) \<in> set w \<Longrightarrow>
    MarkReleaseArchiveStored (record_of k (archiveObjectKey pr k (sha x)) (sha x) x) s = (rec, t) \<Longrightarrow>
    archive_step sha ps (s, w) (t, w)"
| step_failed: "MarkReleaseArchiveFailed k e s = (rec, t) \<Longrightarrow> archive_step sha ps (s, w) (t, w)"
| step_reopen: "ReopenArchivedReleaseForRegeneration k s = (rec, t) \<Longrightarrow> archive_step sha ps (s, w) (t, w)"
| step_purge: "PurgeArchivedReleaseSources k s = (rep, t) \<Longrightarrow> archive_step sha ps (s, w) (t, w)"

text \<open>A key holds a payload with the digest it names.\<close>

definition holds_digest :: "(byte list \<Rightarrow> string) \<Rightarrow> payload_store \<Rightarrow> catalogue \<Rightarrow> string \<Rightarrow> string \<Rightarrow> bool" where
  "holds_digest sha ps c k h \<longleftrightarrow> (\<exists>q. stored ps c k = Some q \<and> sha q = h)"

definition archived_well :: "(byte list \<Rightarrow> string) \<Rightarrow> payload_store \<Rightarrow> catalogue \<Rightarrow> archive_state \<Rightarrow> bool" where
  "archived_well sha ps c a \<longleftrightarrow>
     (\<exists>p k x. as_key a = archiveObjectKey p k (sha x) \<and> as_hash a = sha x \<and> holds_digest sha ps c (as_key a) (sha x))"

definition archive_sound :: "(byte list \<Rightarrow> string) \<Rightarrow> payload_store \<Rightarrow> string \<Rightarrow> indexer \<times> work \<Rightarrow> bool" where
  "archive_sound sha ps cwd x \<longleftrightarrow>
     store_ready ps cwd (in_shop (fst x)) \<and> distinct (map as_release (ix_archive (in_db (fst x)))) \<and>
     (\<forall>a \<in> set (ix_archive (in_db (fst x))). as_status a \<in> set stored_states \<longrightarrow> archived_well sha ps (in_shop (fst x)) a) \<and>
     (\<forall>(p, k, y) \<in> set (snd x). holds_digest sha ps (in_shop (fst x)) (archiveObjectKey p k (sha y)) (sha y))"

text \<open>Rows of the archive.\<close>

lemma put_row_set:
  assumes "y \<in> set (put_row key k f xs)"
  shows "y \<in> set xs \<and> key y \<noteq> k \<or> (\<exists>x \<in> set xs. key x = k \<and> y = f (Some x)) \<or> y = f None"
  using assms by (auto simp: put_row_def list_ex_iff split: if_splits)

lemma put_row_distinct:
  assumes "distinct (map key xs)" "\<And>x. key x = k \<Longrightarrow> key (f (Some x)) = k" "key (f None) = k"
  shows "distinct (map key (put_row key k f xs))"
proof (cases "list_ex (\<lambda>x. key x = k) xs")
  case True
  have "map key (map (\<lambda>x. if key x = k then f (Some x) else x) xs) = map key xs" using assms(2) by (induction xs) auto
  then show ?thesis using assms(1) True by (simp add: put_row_def del: map_map)
next
  case False
  then show ?thesis using assms by (auto simp: put_row_def list_ex_iff)
qed

text \<open>Only the rows count, and what the store holds; \<open>rows_step\<close>: a row in a stored state is an old one.\<close>

definition rows_step :: "index_db \<Rightarrow> index_db \<Rightarrow> bool" where
  "rows_step d e \<longleftrightarrow> (distinct (map as_release (ix_archive d)) \<longrightarrow> distinct (map as_release (ix_archive e))) \<and>
     (\<forall>a \<in> set (ix_archive e). as_status a \<in> set stored_states \<longrightarrow> a \<in> set (ix_archive d))"

lemma rows_refl: "ix_archive e = ix_archive d \<Longrightarrow> rows_step d e"
  by (simp add: rows_step_def)

lemma rows_trans: "rows_step d e \<Longrightarrow> rows_step e f \<Longrightarrow> rows_step d f"
  by (auto simp: rows_step_def)

lemma rows_put:
  assumes "\<And>a. as_release (f a) = as_release a" "\<And>a. as_status (f a) \<notin> set stored_states"
  shows "rows_step d (put_state k f d)"
proof -
  have "distinct (map as_release xs) \<Longrightarrow>
      distinct (map as_release (put_row as_release k (\<lambda>old. f (case old of Some a \<Rightarrow> a | None \<Rightarrow> new_archive_state k)) xs))" for xs
    by (erule put_row_distinct) (simp_all add: assms(1) new_archive_state_def)
  then show ?thesis
    using assms(2) by (auto simp: rows_step_def put_state_def dest!: put_row_set)
qed

lemma rows_claim: "claim_rows locked n eligible d = (r, e) \<Longrightarrow> rows_step d e"
proof -
  have one: "rows_step d (mark_pending k d)" for k d
    unfolding mark_pending_def by (rule rows_put) (simp_all add: stored_states_def)
  have "rows_step d (fold (\<lambda>r. mark_pending (rl_id r)) rs d)" for rs d
    by (induction rs arbitrary: d) (auto intro: rows_refl rows_trans one)
  then show "claim_rows locked n eligible d = (r, e) \<Longrightarrow> rows_step d e" by (auto simp: claim_rows_def Let_def)
qed


lemma sound_quiet:
  assumes "archive_sound sha ps cwd (s, w)" "rows_step (in_db s) (in_db t)" "quiet_step (in_shop s) (in_shop t)"
  shows "archive_sound sha ps cwd (t, w)"
proof -
  note q = quiet_stored [OF assms(3), of ps]
  have h: "holds_digest sha ps (in_shop t) = holds_digest sha ps (in_shop s)" by (simp add: holds_digest_def q(1) fun_eq_iff)
  then have "archived_well sha ps (in_shop t) = archived_well sha ps (in_shop s)" by (simp add: archived_well_def fun_eq_iff)
  with assms(1,2) h q(2) show ?thesis by (auto simp: archive_sound_def rows_step_def)
qed

lemma ran_rows:
  assumes "ran m s r t" "\<And>x e. m (in_db s) = (Inr x, e) \<Longrightarrow> rows_step (in_db s) e"
  shows "rows_step (in_db s) (in_db t)" "in_shop t = in_shop s"
  using assms by (auto simp: ran_def rows_refl split: sum.splits)

text \<open>The formation of releases does not touch the archive.\<close>

abbreviation keeps_archive :: "'a tables \<Rightarrow> bool" where
  "keeps_archive \<equiv> steps_within (\<lambda>d e. ix_archive e = ix_archive d)"

lemma keeps_attempt [intro!]: "keeps_archive m \<Longrightarrow> (\<And>x. keeps_archive (k x)) \<Longrightarrow> keeps_archive (attempt m k)"
  by (rule steps_attempt) (auto intro: transpI)

lemma keeps_basic [intro!]: "keeps_archive (give x)" "keeps_archive (refuse e)" "keeps_archive (asks f)"
  by (simp_all add: steps_within_def give_def refuse_def asks_def)

lemma keeps_change [intro!]: "(\<And>d. ix_archive (f d) = ix_archive d) \<Longrightarrow> keeps_archive (change f)"
  by (simp add: steps_within_def change_def)

lemma keeps_need [intro!]: "(\<And>k. keeps_archive (m k)) \<Longrightarrow> keeps_archive (need_id k m)"
  unfolding need_id_def Let_def by auto

lemma keeps_sync [intro!]: "keeps_archive (syncReleaseCatalogFiles k)"
  unfolding syncReleaseCatalogFiles_def by (auto simp: sync_catalog_def Let_def)

lemma keeps_nzb [intro!]: "keeps_archive (upsertNZBCacheWithRunner now k st h e)"
  unfolding upsertNZBCacheWithRunner_def Let_def by auto

lemma keeps_persist: "keeps_archive (persist_snapshot now fresh guid recat r fs gs)"
proof -
  have up: "keeps_archive (upsertReleaseWithRunner fresh guid recat r)"
    by (auto simp: steps_within_def upsertReleaseWithRunner_def Let_def refuse_def split: option.split)
  have ins: "keeps_archive (\<lambda>d. let rows = ix_files d @ map (file_row_of d k) fs
      in if files_unique rows then (Inr (), d\<lparr>ix_files := rows\<rparr>)
         else refuse (Wrapped (''insert release files for '' @ k) (Message ''duplicate key value violates unique constraint'')) d)" for k
    by (auto simp: steps_within_def Let_def refuse_def)
  have files: "keeps_archive (replaceReleaseFilesInRunner k fs)" for k
    unfolding replaceReleaseFilesInRunner_def by (intro keeps_need keeps_attempt keeps_change ins keeps_sync) simp_all
  have groups: "keeps_archive (replaceReleaseNewsgroupsInRunner k gs)" for k
    unfolding replaceReleaseNewsgroupsInRunner_def by auto
  show ?thesis unfolding persist_snapshot_def using up files groups by auto
qed

lemma save_keeps_digest:
  assumes "hex_digest sha" "store_ready ps cwd c" "SaveNZBAtomically ps (archiveObjectKey p k (sha x)) x c = (r, c')"
    "holds_digest sha ps c (archiveObjectKey p' k' (sha y)) (sha y)"
  shows "holds_digest sha ps c' (archiveObjectKey p' k' (sha y)) (sha y)"
proof (cases "same_key ps cwd (archiveObjectKey p k (sha x)) (archiveObjectKey p' k' (sha y))")
  case True
  show ?thesis
  proof (cases r)
    case (Inl e)
    then show ?thesis using payloads.save_fails [OF assms(2)] assms(3,4) by (simp add: holds_digest_def)
  next
    case (Inr u)
    then have "stored ps c' (archiveObjectKey p' k' (sha y)) = Some x" using payloads.save_holds [OF assms(2)] assms(3) True by simp
    then show ?thesis using same_key_digest [OF assms(1,2) True] by (simp add: holds_digest_def)
  qed
next
  case False
  then show ?thesis using payloads.save_other [OF assms(2,3) False] assms(4) by (simp add: holds_digest_def)
qed

lemma sound_save:
  assumes "hex_digest sha" "archive_sound sha ps cwd (s, w)"
    "payload_call (SaveNZBAtomically ps (archiveObjectKey p k (sha x)) x) s = (res, t)"
  shows "archive_sound sha ps cwd (t, if isl res then w else (p, k, x) # w)"
proof -
  let ?key = "archiveObjectKey p k (sha x)"
  obtain c where c: "SaveNZBAtomically ps ?key x (in_shop s) = (res, c)" "t = s\<lparr>in_shop := c\<rparr>"
    using assms(3) by (auto simp: payload_call_def split: prod.splits)
  have ready: "store_ready ps cwd (in_shop s)" using assms(2) by (simp add: archive_sound_def)
  note keep = save_keeps_digest [OF assms(1) ready c(1)]
  have "archived_well sha ps c a" if "archived_well sha ps (in_shop s) a" for a
    using that keep unfolding archived_well_def by metis
  moreover have "holds_digest sha ps c ?key (sha x)" if "\<not> isl res"
    using that c(1) payloads.save_holds [OF ready, of ?key x _ c ?key] payloads.same_refl by (cases res) (auto simp: holds_digest_def)
  moreover have "store_ready ps cwd c" using payloads.save_wf [OF ready c(1)] .
  ultimately show ?thesis using assms(2) keep c(2) by (auto simp: archive_sound_def)
qed

lemma mark_stored_rows:
  assumes "mark_stored now k r d = (Inr u, e)"
  shows "ix_archive e = ix_archive (put_state k (stored_state now r) d)"
proof -
  have "keeps_archive (attempt (upsertNZBCacheWithRunner now k ''ready'' (trim_space (sr_ContentHashSHA256 r)) []) (\<lambda>_.
     attempt (change (seed_lineage k)) (\<lambda>_.
     attempt (syncReleaseCatalogFiles k) (\<lambda>_.
     change (put_details k)))))"
    by (auto simp: seed_lineage_def put_details_def split: option.split)
  then have rest: "ix_archive (snd (attempt (upsertNZBCacheWithRunner now k ''ready'' (trim_space (sr_ContentHashSHA256 r)) []) (\<lambda>_.
     attempt (change (seed_lineage k)) (\<lambda>_. attempt (syncReleaseCatalogFiles k) (\<lambda>_. change (put_details k)))) d')) = ix_archive d'" for d'
    by (simp add: steps_within_def)
  have first: "attempt (change f) m d = m () (f d)" for f and m :: "unit \<Rightarrow> unit tables" by (simp add: attempt_def change_def)
  from assms [unfolded mark_stored_def, unfolded first] rest [of "put_state k (stored_state now r) d"]
  show ?thesis by simp
qed

lemma sound_record:
  assumes "hex_digest sha" "archive_sound sha ps cwd (s, w)" "(p, k, x) \<in> set w"
    "MarkReleaseArchiveStored (record_of k (archiveObjectKey p k (sha x)) (sha x) x) s = (res, t)"
  shows "archive_sound sha ps cwd (t, w)"
proof -
  let ?r = "record_of k (archiveObjectKey p k (sha x)) (sha x) x"
  from assms(4) have n: "need_release k (\<lambda>k. in_tx (mark_stored (in_now s) k ?r)) s = (res, t)"
    by (simp add: MarkReleaseArchiveStored_def record_of_def)
  from n show ?thesis
  proof (cases rule: need_releaseE)
    case blank
    then show ?thesis using assms(2) by simp
  next
    case runs
    then have ran: "ran (mark_stored (in_now s) (trim_space k) ?r) s res t" by (intro in_tx_ran)
    show ?thesis
    proof (cases res)
      case (Inl e)
      then show ?thesis using ran assms(2) by (intro sound_quiet [OF assms(2)]) (auto simp: ran_def rows_refl)
    next
      case (Inr u)
      let ?f = "\<lambda>old. stored_state (in_now s) ?r (case old of Some a \<Rightarrow> a | None \<Rightarrow> new_archive_state (trim_space k))"
      from ran Inr have rows: "ix_archive (in_db t) = put_row as_release (trim_space k) ?f (ix_archive (in_db s))" and shop: "in_shop t = in_shop s"
        by (auto simp: ran_def put_state_def dest: mark_stored_rows)
      have held: "holds_digest sha ps (in_shop s) (archiveObjectKey p k (sha x)) (sha x)"
        using assms(2,3) by (auto simp: archive_sound_def)
      have new: "archived_well sha ps (in_shop s) (stored_state (in_now s) ?r a)" for a
        unfolding archived_well_def
        by (rule exI [of _ p], rule exI [of _ k], rule exI [of _ x])
          (simp add: stored_state_def record_of_def archive_key_trim [OF assms(1)] digest_trim [OF assms(1)] held)
      have "archived_well sha ps (in_shop s) a" if "a \<in> set (ix_archive (in_db t))" "as_status a \<in> set stored_states" for a
        using that assms(2) new unfolding rows by (auto simp: archive_sound_def dest!: put_row_set)
      moreover have "distinct (map as_release (ix_archive (in_db t)))"
        unfolding rows by (rule put_row_distinct) (use assms(2) in \<open>simp_all add: archive_sound_def stored_state_def new_archive_state_def\<close>)
      ultimately show ?thesis using assms(2) shop by (simp add: archive_sound_def)
    qed
  qed
qed

lemma find_unique: "distinct (map f xs) \<Longrightarrow> x \<in> set xs \<Longrightarrow> find (\<lambda>y. f y = f x) xs = Some x"
  by (induction xs) (auto simp: image_iff)

lemma sound_purge:
  assumes "archive_sound sha ps cwd (s, w)" "PurgeArchivedReleaseSources k s = (res, t)"
  shows "archive_sound sha ps cwd (t, w)"
  using assms(2)
proof (cases rule: purge_cases)
  case refused
  then show ?thesis by (intro sound_quiet [OF assms(1)]) (auto intro: rows_refl)
next
  case purged
  let ?k = "trim_space k"
  from assms(1) have dist: "distinct (map as_release (ix_archive (in_db s)))" by (simp add: archive_sound_def)
  have well: "archived_well sha ps (in_shop s) a" if "a \<in> set (ix_archive (in_db s))" "as_release a = ?k" for a
  proof -
    from purged(3) find_unique [OF dist that(1)] that(2) have "as_status a = ''purge_pending''" by (auto simp: may_purge_def archive_of_def)
    then show ?thesis using assms(1) that(1) by (auto simp: archive_sound_def stored_states_def)
  qed
  have rows: "ix_archive (in_db t) = map (\<lambda>a. if as_release a = ?k then a\<lparr>as_status := ''purged'', as_purged := Some (in_now s)\<rparr> else a) (ix_archive (in_db s))"
    by (simp add: purged(4) purge_fields)
  have same: "archived_well sha ps c (a\<lparr>as_status := st, as_purged := p\<rparr>) = archived_well sha ps c a" for c a st p
    by (simp add: archived_well_def)
  have "archived_well sha ps (in_shop t) a" if "a \<in> set (ix_archive (in_db t))" "as_status a \<in> set stored_states" for a
    using that assms(1) purged(5) unfolding rows by (auto simp: same archive_sound_def intro: well split: if_splits)
  moreover have "map as_release (ix_archive (in_db t)) = map as_release (ix_archive (in_db s))" unfolding rows by simp
  ultimately show ?thesis using assms(1) purged(5) by (simp add: archive_sound_def)
qed


section \<open>What holds in every history\<close>

lemma sound_step:
  assumes "hex_digest sha" "archive_step sha ps x y" "archive_sound sha ps cwd x"
  shows "archive_sound sha ps cwd y"
  using assms(2,3)
proof (cases rule: archive_step.cases)
  case (step_other t s w)
  with assms(3) show ?thesis by (auto intro: sound_quiet rows_refl)
next
  case (step_persist fresh guid recat r fs gs s res t w)
  then have "ran (persist_snapshot (in_now s) fresh guid recat r fs gs) s res t"
    unfolding PersistReleaseSnapshot_def retryRetryablePostgresTx_def by (intro retry_ran)
  have "ix_archive e = ix_archive (in_db s)" if "persist_snapshot (in_now s) fresh guid recat r fs gs (in_db s) = (Inr v, e)" for v e
    using keeps_persist [of "in_now s" fresh guid recat r fs gs] that unfolding steps_within_def by (metis snd_conv)
  note rows = ran_rows [OF \<open>ran _ _ _ _\<close> rows_refl, OF this]
  from rows assms(3) step_persist(1,2) show ?thesis by (auto intro: sound_quiet)
next
  case (step_generate locked n p s cands t w)
  then have "ran (claim_rows locked (if n \<le> 0 then 100 else n) (generate_eligible (NormalizeReleaseReadyPolicy p))) s cands t"
    unfolding ListReleaseNZBGenerateCandidates_def by (intro in_tx_ran)
  from ran_rows [OF this rows_claim] assms(3) step_generate show ?thesis by (auto intro: sound_quiet)
next
  case (step_claim locked n p s cands t w)
  then have "ran (claim_rows locked (if n \<le> 0 then 100 else n) (archive_eligible (NormalizeReleaseReadyPolicy p))) s cands t"
    unfolding ClaimReleaseArchiveCandidates_def by (intro in_tx_ran)
  from ran_rows [OF this rows_claim] assms(3) step_claim show ?thesis by (auto intro: sound_quiet)
next
  case (step_save pr k z s res t w)
  from assms(3) step_save(1) have "archive_sound sha ps cwd (s, w)" by simp
  from sound_save [OF assms(1) this step_save(3)] show ?thesis by (simp only: step_save(2))
next
  case (step_record pr k z w s rec t)
  with assms(3) show ?thesis by (auto intro: sound_record [OF assms(1)])
next
  case (step_failed k e s rec t w)
  then have n: "need_release k (\<lambda>k. in_tx (change (put_state k (\<lambda>a. a\<lparr>as_status := ''archive_failed'', as_error := trim_space e\<rparr>)))) s = (rec, t)"
    by (simp add: MarkReleaseArchiveFailed_def)
  have put: "rows_step d (put_state j (\<lambda>a. a\<lparr>as_status := ''archive_failed'', as_error := trim_space e\<rparr>) d)" for d j
    by (rule rows_put) (simp_all add: stored_states_def)
  from n show ?thesis
  proof (cases rule: need_releaseE)
    case blank
    with assms(3) step_failed show ?thesis by simp
  next
    case runs
    from ran_rows [OF in_tx_ran [OF runs(2)]] put assms(3) step_failed show ?thesis
      by (auto simp: change_def intro: sound_quiet)
  qed
next
  case (step_reopen k s rec t w)
  then have n: "need_release k (\<lambda>k. in_tx (change (\<lambda>d. d\<lparr>ix_archive := map (\<lambda>a. if as_release a = k then reopened a else a) (ix_archive d)\<rparr>))) s = (rec, t)"
    by (simp add: ReopenArchivedReleaseForRegeneration_def)
  have same: "as_release (reopened a) = as_release a" for a by (simp add: reopened_def)
  have open_: "as_status (reopened a) \<in> set stored_states \<Longrightarrow> reopened a = a" for a
    by (auto simp: reopened_def stored_states_def split: if_splits)
  have "rows_step d (d\<lparr>ix_archive := map (\<lambda>a. if as_release a = j then reopened a else a) (ix_archive d)\<rparr>)" for d j
  proof -
    have "map as_release (map (\<lambda>a. if as_release a = j then reopened a else a) xs) = map as_release xs" for xs
      by (induction xs) (auto simp: same)
    then show ?thesis by (auto simp: rows_step_def simp del: map_map) (metis open_)
  qed
  note put = this
  from n show ?thesis
  proof (cases rule: need_releaseE)
    case blank
    with assms(3) step_reopen show ?thesis by simp
  next
    case runs
    from ran_rows [OF in_tx_ran [OF runs(2)]] put assms(3) step_reopen show ?thesis
      by (auto simp: change_def intro: sound_quiet)
  qed
next
  case (step_purge k s rep t w)
  with assms(3) show ?thesis by (auto intro: sound_purge)
qed

lemma sound_history:
  "(archive_step sha ps)\<^sup>*\<^sup>* x y \<Longrightarrow> hex_digest sha \<Longrightarrow> archive_sound sha ps cwd x \<Longrightarrow> archive_sound sha ps cwd y"
  by (induction rule: rtranclp_induct) (auto intro: sound_step)

lemma sound_start: "store_ready ps cwd (in_shop s) \<Longrightarrow> ix_archive (in_db s) = [] \<Longrightarrow> archive_sound sha ps cwd (s, [])"
  by (simp add: archive_sound_def)

text \<open>C6: In every history of the stages - releases formed and formed again, claimed by two stages, built, saved, recorded,
  marked as failed, reopened and purged, in any order and with any fault, interleaved with everything else the program
  does to the index - a release that counts as archived or purged has its NZB in the archive: under the key recorded
  for it lies a payload with the digest recorded for it.\<close>

theorem archived_releases_can_be_read:
  assumes "hex_digest sha" "store_ready ps cwd (in_shop s)" "ix_archive (in_db s) = []"
    and "(archive_step sha ps)\<^sup>*\<^sup>* (s, []) (t, w)"
    and "a \<in> set (ix_archive (in_db t))" "as_status a \<in> set stored_states"
  shows "as_key a \<noteq> [] \<and> (\<exists>q. stored ps (in_shop t) (as_key a) = Some q \<and> sha q = as_hash a)"
proof -
  have "archive_sound sha ps cwd (t, w)" by (rule sound_history [OF assms(4,1) sound_start [OF assms(2,3)]])
  with assms(5,6) obtain p k x where "as_key a = archiveObjectKey p k (sha x)" "as_hash a = sha x" "holds_digest sha ps (in_shop t) (as_key a) (sha x)"
    by (auto simp: archive_sound_def archived_well_def)
  then show ?thesis using archive_key_ne [OF assms(1), of p k x] by (auto simp: holds_digest_def)
qed

text \<open>One release of a run is a history of these steps.\<close>

lemma reading_step: "reading s t \<Longrightarrow> archive_step sha ps (s, w) (t, w)"
  by (rule step_other) (auto simp: reading_def)

lemma archive_one_steps:
  assumes "archive_one sha xml ps c s = (r, t)"
  shows "\<exists>v. (archive_step sha ps)\<^sup>*\<^sup>* (s, w) (t, v)"
proof -
  let ?key = "\<lambda>x. archiveObjectKey (ca_ProviderID c) (ca_ReleaseID c) (sha x)"
  obtain q u where q: "attempt (fetch_bytes xml ps c) (store_bytes sha ps c) s = (q, u)" by fastforce
  have "\<exists>v. (archive_step sha ps)\<^sup>*\<^sup>* (s, w) (u, v)"
    using q
  proof (cases rule: attemptE)
    case (fails e)
    then show ?thesis using reading_step [OF reads_fetch] by blast
  next
    case (goes_on x s1)
    have one: "archive_step sha ps (s, w) (s1, w)" by (rule reading_step [OF reads_fetch [OF goes_on(1)]])
    from goes_on(2) have "attempt (payload_call (SaveNZBAtomically ps (?key x) x)) (\<lambda>_.
       MarkReleaseArchiveStored (record_of (ca_ReleaseID c) (?key x) (sha x) x)) s1 = (q, u)" by (simp add: store_bytes_def Let_def)
    then show ?thesis
    proof (cases rule: attemptE)
      case (fails e)
      from one step_save [where sha = sha and pr = "ca_ProviderID c" and k = "ca_ReleaseID c" and x = x and w = w, OF fails(1)] show ?thesis by (meson converse_rtranclp_into_rtranclp r_into_rtranclp)
    next
      case second: (goes_on y s2)
      from step_save [where sha = sha and pr = "ca_ProviderID c" and k = "ca_ReleaseID c" and x = x and w = w, OF second(1)]
      have two: "archive_step sha ps (s1, w) (s2, (ca_ProviderID c, ca_ReleaseID c, x) # w)" by simp
      have three: "archive_step sha ps (s2, (ca_ProviderID c, ca_ReleaseID c, x) # w) (u, (ca_ProviderID c, ca_ReleaseID c, x) # w)"
        by (rule step_record [where sha = sha and pr = "ca_ProviderID c" and k = "ca_ReleaseID c" and x = x, OF _ second(2)]) simp
      from one two three show ?thesis by (meson converse_rtranclp_into_rtranclp r_into_rtranclp)
    qed
  qed
  then obtain v where v: "(archive_step sha ps)\<^sup>*\<^sup>* (s, w) (u, v)" by blast
  have "u = t \<or> archive_step sha ps (u, v) (t, v)"
  proof (cases q)
    case (Inr x)
    with assms q have "t = u" by (simp add: archive_one_def regardless_eq give_def)
    then show ?thesis by simp
  next
    case (Inl e)
    with assms q obtain rec where "MarkReleaseArchiveFailed (ca_ReleaseID c) (error_text e) u = (rec, t)"
      by (cases "MarkReleaseArchiveFailed (ca_ReleaseID c) (error_text e) u") (auto simp: archive_one_def regardless_eq give_def)
    then show ?thesis by (blast intro: step_failed)
  qed
  with v show ?thesis by (meson rtranclp.rtrancl_into_rtrancl)
qed


section \<open>From the articles to the archive\<close>

lemma asks_result: "in_tx (asks f) s = (r, t) \<Longrightarrow> in_db t = in_db s \<and> (\<forall>x. r = Inr x \<longrightarrow> x = f (in_db s))"
  by (auto simp: in_tx_def asks_def Let_def split: list.splits option.splits)

text \<open>Without groups no NZB can be built.\<close>

lemma from_articles_no_groups:
  assumes "catalog_groups (in_db s) (trim_space (rel_ID rel)) = []"
  shows "\<exists>e. fst (from_articles xml rel s) = Inl e"
proof -
  obtain r t where rt: "from_articles xml rel s = (r, t)" by fastforce
  from rt have "\<exists>e. r = Inl e"
    unfolding from_articles_def
  proof (cases rule: attemptE)
    case (goes_on files u)
    then have l: "ListCatalogReleaseFiles (rel_ID rel) s = (Inr files, u)" by (auto elim: map_errorE)
    then have u: "in_db u = in_db s"
      by (auto simp: ListCatalogReleaseFiles_def elim!: need_releaseE dest: asks_result)
    show ?thesis
    proof (cases "files = []")
      case True
      then show ?thesis using goes_on(2) by (auto simp: refuse_def)
    next
      case False
      with goes_on(2) have g: "attempt (map_error (Wrapped (''load catalog release newsgroups for '' @ rel_ID rel))
         (ListCatalogReleaseNewsgroups (rel_ID rel))) (\<lambda>groups.
           if groups = [] then refuse (Message (''no release newsgroups found for '' @ rel_ID rel))
           else attempt (buildNZB xml rel files groups) (\<lambda>bytes. give (Buffer bytes))) u = (r, t)" by simp
      from g show ?thesis
      proof (cases rule: attemptE)
        case second: (goes_on groups v)
        then have "ListCatalogReleaseNewsgroups (rel_ID rel) u = (Inr groups, v)" by (auto elim: map_errorE)
        then have "groups = []" using assms u
          by (auto simp: ListCatalogReleaseNewsgroups_def elim!: need_releaseE dest: asks_result)
        then show ?thesis using second(2) by (auto simp: refuse_def)
      qed simp
    qed
  qed simp
  then show ?thesis by (simp add: rt)
qed

lemma purged_no_groups: "catalog_groups (purge_rows now k d) k = []"
proof -
  have "List.map_filter (\<lambda>x. if fst x = k then map_of ns (snd x) else None) (filter (\<lambda>x. fst x \<noteq> k) xs) = []"
    for ns :: "(int \<times> string) list" and xs
    by (induction xs) (auto simp: List.map_filter_simps)
  moreover have "files_of (purge_rows now k d) k = []" by (simp add: files_of_def purge_fields)
  ultimately show ?thesis by (simp add: catalog_groups_def binaries_of_def purge_fields List.map_filter_simps)
qed

text \<open>What one run does with one release, when it succeeds.\<close>

lemma archive_one_ok:
  assumes "hex_digest sha" "store_ready ps cwd (in_shop s)" "archive_one sha xml ps c s = (Inr True, t)"
  obtains x s1 where "fetch_bytes xml ps c s = (Inr x, s1)"
    and "stored ps (in_shop t) (archiveObjectKey (ca_ProviderID c) (ca_ReleaseID c) (sha x)) = Some x"
    and "store_ready ps cwd (in_shop t)"
    and "\<exists>a. archive_of (in_db t) (trim_space (ca_ReleaseID c)) = Some a \<and> as_status a = ''purge_pending''
      \<and> as_key a = archiveObjectKey (ca_ProviderID c) (ca_ReleaseID c) (sha x) \<and> as_hash a = sha x"
proof -
  let ?key = "\<lambda>x. archiveObjectKey (ca_ProviderID c) (ca_ReleaseID c) (sha x)"
  let ?k = "trim_space (ca_ReleaseID c)"
  obtain q u where q: "attempt (fetch_bytes xml ps c) (store_bytes sha ps c) s = (q, u)" by fastforce
  with assms(3) have inr: "\<not> isl q" "u = t" by (auto simp: archive_one_def regardless_eq give_def split: sum.splits)
  from q inr obtain x s1 where f: "fetch_bytes xml ps c s = (Inr x, s1)" "store_bytes sha ps c x s1 = (q, t)"
    by (auto elim: attemptE)
  from f(2) have "attempt (payload_call (SaveNZBAtomically ps (?key x) x)) (\<lambda>_.
     MarkReleaseArchiveStored (record_of (ca_ReleaseID c) (?key x) (sha x) x)) s1 = (q, t)" by (simp add: store_bytes_def Let_def)
  then obtain y s2 where s2: "payload_call (SaveNZBAtomically ps (?key x) x) s1 = (Inr y, s2)"
    "MarkReleaseArchiveStored (record_of (ca_ReleaseID c) (?key x) (sha x) x) s2 = (q, t)" using inr by (auto elim: attemptE)
  note rd = reads_fetch [OF f(1)]
  have ready: "store_ready ps cwd (in_shop s1)" using quiet_stored(2) rd assms(2) by (auto simp: reading_def)
  obtain cc where cc: "SaveNZBAtomically ps (?key x) x (in_shop s1) = (Inr y, cc)" "s2 = s1\<lparr>in_shop := cc\<rparr>"
    using s2(1) by (auto simp: payload_call_def split: prod.splits)
  from s2(2) have "need_release (ca_ReleaseID c) (\<lambda>k. in_tx (mark_stored (in_now s2) k (record_of (ca_ReleaseID c) (?key x) (sha x) x))) s2 = (q, t)"
    by (simp add: MarkReleaseArchiveStored_def record_of_def)
  then have ran: "ran (mark_stored (in_now s2) ?k (record_of (ca_ReleaseID c) (?key x) (sha x) x)) s2 q t"
    by (rule need_releaseE) (use inr(1) in \<open>auto dest: in_tx_ran\<close>)
  then obtain v where v: "mark_stored (in_now s2) ?k (record_of (ca_ReleaseID c) (?key x) (sha x) x) (in_db s2) = (Inr v, in_db t)"
    "in_shop t = cc" using inr(1) cc(2) by (cases q) (auto simp: ran_def)
  have find_put: "find (\<lambda>a. as_release a = k) (put_row as_release k f xs) = Some (f (find (\<lambda>a. as_release a = k) xs))"
    if "\<And>o'. as_release (f o') = k \<or> (\<exists>b. o' = Some b \<and> as_release b \<noteq> k)" for k f and xs :: "archive_state list"
  proof (cases "list_ex (\<lambda>x. as_release x = k) xs")
    case True
    have "\<exists>a \<in> set xs. as_release a = k \<Longrightarrow>
        find (\<lambda>a. as_release a = k) (map (\<lambda>x. if as_release x = k then f (Some x) else x) xs) = Some (f (find (\<lambda>a. as_release a = k) xs))"
      using that [of "Some _"] by (induction xs) auto
    then show ?thesis using True by (simp add: put_row_def list_ex_iff)
  next
    case False
    then have "find (\<lambda>a. as_release a = k) xs = None" by (auto simp: list_ex_iff find_None_iff)
    moreover have "find P (xs @ ys) = (case find P xs of None \<Rightarrow> find P ys | Some z \<Rightarrow> Some z)" for P and xs ys :: "archive_state list"
      by (induction xs) auto
    ultimately show ?thesis using that [of None] False by (simp add: put_row_def)
  qed
  have "\<exists>a. archive_of (in_db t) ?k = Some a \<and> as_status a = ''purge_pending'' \<and> as_key a = ?key x \<and> as_hash a = sha x"
    unfolding archive_of_def mark_stored_rows [OF v(1)] put_state_def
    by (simp add: find_put stored_state_def new_archive_state_def record_of_def archive_key_trim [OF assms(1)] digest_trim [OF assms(1)]
        split: option.split)
  moreover have "stored ps (in_shop t) (?key x) = Some x"
    using payloads.save_holds [OF ready cc(1) payloads.same_refl] v(2) by simp
  moreover have "store_ready ps cwd (in_shop t)" using payloads.save_wf [OF ready cc(1)] v(2) by simp
  ultimately show thesis using that f(1) by blast
qed


lemma state_read:
  "GetReleaseArchiveState k s = (Inr a, t) \<Longrightarrow> in_db t = in_db s \<and> in_shop t = in_shop s \<and> a = archive_of (in_db s) (trim_space k)"
  by (auto simp: GetReleaseArchiveState_def in_tx_def asks_def Let_def elim!: need_releaseE split: list.splits option.splits)

text \<open>C8: The NZB outlives what it was made from. When a run has put a release into the archive and its sources are purged,
  the resolver hands out, if it hands out anything, the very bytes that were built from the articles before.\<close>

theorem archived_nzb_outlives_its_sources:
  assumes "hex_digest sha" "store_ready ps cwd (in_shop s)"
    and "archive_one sha xml ps c s = (Inr True, t)"
    and "PurgeArchivedReleaseSources (ca_ReleaseID c) t = (Inr rep, u)"
    and "trim_space (rel_ID rel) = trim_space (ca_ReleaseID c)"
    and "Index_GetNZB xml (Some ps) (Some rel) u = (Inr rd, v)" "ReadAll rd (in_shop v) = (Inr bytes, z)"
  shows "fst (fetch_bytes xml ps c s) = Inr bytes"
proof -
  let ?k = "trim_space (ca_ReleaseID c)"
  from archive_one_ok [OF assms(1,2,3)] obtain x s1 a where x: "fetch_bytes xml ps c s = (Inr x, s1)"
    "stored ps (in_shop t) (as_key a) = Some x" "store_ready ps cwd (in_shop t)"
    "archive_of (in_db t) ?k = Some a" "as_key a = archiveObjectKey (ca_ProviderID c) (ca_ReleaseID c) (sha x)" by metis
  from assms(4) have p: "in_db u = purge_rows (in_now t) ?k (in_db t)" "in_shop u = in_shop t" "?k \<noteq> []"
    by (auto elim!: purge_cases)
  let ?a = "a\<lparr>as_status := ''purged'', as_purged := Some (in_now t)\<rparr>"
  have row: "archive_of (in_db u) (trim_space (rel_ID rel)) = Some ?a" using x(4) assms(5) by (simp add: p(1) purge_archive_of)
  have st: "in_stored_state (Some ?a)"
    using archive_key_ne [OF assms(1)] by (simp add: in_stored_state_def stored_states_def x(5))
  have ne: "trim_space (rel_ID rel) \<noteq> []" using p(3) assms(5) by simp
  from assms(6) ne have "attempt (map_error (Wrapped (''load archive state for '' @ rel_ID rel)) (GetReleaseArchiveState (rel_ID rel))) (\<lambda>a.
      if in_stored_state a
      then regardless (payload_call (GetNZBReader ps (as_key (the a))))
        (\<lambda>res. case res of Inr rd \<Rightarrow> give rd | Inl _ \<Rightarrow> from_articles xml rel)
      else from_articles xml rel) u = (Inr rd, v)" by (simp add: Index_GetNZB_def)
  then obtain b u1 where b: "GetReleaseArchiveState (rel_ID rel) u = (Inr b, u1)"
    "(if in_stored_state b
      then regardless (payload_call (GetNZBReader ps (as_key (the b))))
        (\<lambda>res. case res of Inr rd \<Rightarrow> give rd | Inl _ \<Rightarrow> from_articles xml rel)
      else from_articles xml rel) u1 = (Inr rd, v)" by (auto elim!: attemptE map_errorE)
  note u1 = state_read [OF b(1)]
  have bq: "b = Some ?a" using u1 row by simp
  obtain q cc where q: "GetNZBReader ps (as_key a) (in_shop u1) = (q, cc)" by fastforce
  have run: "(case q of Inr rd \<Rightarrow> give rd | Inl _ \<Rightarrow> from_articles xml rel) (u1\<lparr>in_shop := cc\<rparr>) = (Inr rd, v)"
    using b(2) st q by (simp add: bq regardless_eq payload_call_def)
  show ?thesis
  proof (cases q)
    case (Inl e)
    have "catalog_groups (in_db (u1\<lparr>in_shop := cc\<rparr>)) (trim_space (rel_ID rel)) = []"
      using u1 p(1) assms(5) purged_no_groups by simp
    from from_articles_no_groups [OF this] run Inl show ?thesis by (metis fst_conv old.sum.simps(5) sum.distinct(1))
  next
    case (Inr r)
    with run have "r = rd" "in_shop v = cc" by (auto simp: give_def)
    with q Inr assms(7) have "fetch_payload ps (as_key a) (in_shop u1) = (Inr bytes, z)" by (simp add: fetch_payload_def)
    moreover have "store_ready ps cwd (in_shop u1)" using u1 p(2) x(3) by simp
    ultimately have "stored ps (in_shop u1) (as_key a) = Some bytes" using payloads.load_holds by blast
    then show ?thesis using x(1,2) u1 p(2) by simp
  qed
qed

section \<open>Claims\<close>

definition claims :: "string list \<Rightarrow> int \<Rightarrow> ready_policy \<Rightarrow> bool \<Rightarrow> archive_candidate list indexing" where
  "claims locked n p b = (if b then ListReleaseNZBGenerateCandidates locked n p else ClaimReleaseArchiveCandidates locked n p)"

lemma status_put:
  assumes "\<And>a. as_release (f a) = as_release a"
  shows "status_of (put_state k f d) j =
    (if j = k then as_status (f (case archive_of d k of Some a \<Rightarrow> a | None \<Rightarrow> new_archive_state k)) else status_of d j)"
proof (cases "list_ex (\<lambda>x. as_release x = k) (ix_archive d)")
  case True
  have m: "find (\<lambda>a. as_release a = j) (map (\<lambda>x. if as_release x = k then f (case Some x of None \<Rightarrow> new_archive_state k | Some a \<Rightarrow> a) else x) xs) =
    map_option (\<lambda>x. if j = k then f x else x) (find (\<lambda>a. as_release a = j) xs)" for xs
    using assms by (induction xs) auto
  have "find (\<lambda>a. as_release a = k) (ix_archive d) \<noteq> None" using True by (auto simp: find_None_iff list_ex_iff)
  then show ?thesis using True by (auto simp: status_of_def archive_of_def put_state_def put_row_def m split: option.split)
next
  case False
  then have n: "find (\<lambda>a. as_release a = k) (ix_archive d) = None" by (auto simp: list_ex_iff find_None_iff)
  have app: "find P (xs @ ys) = (case find P xs of None \<Rightarrow> find P ys | Some z \<Rightarrow> Some z)" for P and xs ys :: "archive_state list"
    by (induction xs) auto
  show ?thesis
    using False n assms by (auto simp: status_of_def archive_of_def put_state_def put_row_def app new_archive_state_def split: option.splits)
qed

lemma status_pending: "status_of (mark_pending k d) j = (if j = k then ''archive_pending'' else status_of d j)"
  unfolding mark_pending_def by (subst status_put) simp_all

lemma status_claimed:
  "status_of (fold (\<lambda>r. mark_pending (rl_id r)) rs d) j = (if j \<in> rl_id ` set rs then ''archive_pending'' else status_of d j)"
  by (induction rs arbitrary: d) (auto simp: status_pending)

lemma claim_rows_claims:
  assumes "claim_rows locked n eligible d = (Inr cs, e)" "\<And>r. eligible d r \<Longrightarrow> may_be_claimed d (rl_id r)" "c \<in> set cs"
  shows "may_be_claimed d (ca_ReleaseID c)" "ca_ReleaseID c \<notin> set locked" "status_of e (ca_ReleaseID c) = ''archive_pending''"
proof -
  define picked where "picked = take (nat n) (latest_posted (filter (\<lambda>r. eligible d r \<and> rl_id r \<notin> set locked) (ix_releases d)))"
  from assms(1) have cs: "cs = map (\<lambda>r. \<lparr>ca_ReleaseID = rl_id r, ca_ProviderID = rl_provider r, ca_Title = rl_title r\<rparr>) (sort_key rl_id picked)"
    and e: "e = fold (\<lambda>r. mark_pending (rl_id r)) picked d"
    by (auto simp: claim_rows_def Let_def picked_def)
  from assms(3) obtain r where r: "r \<in> set picked" "ca_ReleaseID c = rl_id r" by (auto simp: cs)
  then have "r \<in> set (latest_posted (filter (\<lambda>r. eligible d r \<and> rl_id r \<notin> set locked) (ix_releases d)))"
    by (auto simp: picked_def dest: in_set_takeD)
  then have "eligible d r" "rl_id r \<notin> set locked" by (auto simp: latest_posted_def)
  then show "may_be_claimed d (ca_ReleaseID c)" "ca_ReleaseID c \<notin> set locked" using assms(2) r(2) by simp_all
  show "status_of e (ca_ReleaseID c) = ''archive_pending''" using r by (auto simp: e status_claimed)
qed

lemma claims_ran:
  assumes "claims locked n p b s = (Inr cs, t)" "c \<in> set cs"
  shows "may_be_claimed (in_db s) (ca_ReleaseID c)" "ca_ReleaseID c \<notin> set locked" "status_of (in_db t) (ca_ReleaseID c) = ''archive_pending''"
proof -
  obtain m eligible where tx: "in_tx (claim_rows locked m eligible) s = (Inr cs, t)" and el: "\<And>d r. eligible d r \<Longrightarrow> may_be_claimed d (rl_id r)"
  proof (cases b)
    case True
    show thesis
      by (rule that [of "if n \<le> 0 then 100 else n" "generate_eligible (NormalizeReleaseReadyPolicy p)"])
        (use assms(1) True in \<open>auto simp: claims_def ListReleaseNZBGenerateCandidates_def generate_eligible_def\<close>)
  next
    case False
    show thesis
      by (rule that [of "if n \<le> 0 then 100 else n" "archive_eligible (NormalizeReleaseReadyPolicy p)"])
        (use assms(1) False in \<open>auto simp: claims_def ClaimReleaseArchiveCandidates_def archive_eligible_def\<close>)
  qed
  from in_tx_ran [OF tx] have rows: "claim_rows locked m eligible (in_db s) = (Inr cs, in_db t)" by (simp add: ran_def)
  note C = claim_rows_claims [OF rows _ assms(2)]
  show "may_be_claimed (in_db s) (ca_ReleaseID c)" by (rule C(1)) (rule el)
  show "ca_ReleaseID c \<notin> set locked" by (rule C(2)) (rule el)
  show "status_of (in_db t) (ca_ReleaseID c) = ''archive_pending''" by (rule C(3)) (rule el)
qed

text \<open>A release is claimed by one stage at a time. What one claim has returned no later claim returns, of the same stage or
  the other, of this process or another, as long as the release is pending - whatever else happened in between. For the
  same reason a release whose run was cut off is never claimed again.\<close>

theorem release_claimed_once:
  assumes "claims locked n p b s = (Inr cs, t)" "c \<in> set cs"
    and "status_of (in_db u) (ca_ReleaseID c) = status_of (in_db t) (ca_ReleaseID c)"
    and "claims locked' n' p' b' u = (Inr ds, v)" "e \<in> set ds"
  shows "ca_ReleaseID e \<noteq> ca_ReleaseID c"
  using claims_ran(3) [OF assms(1,2)] claims_ran(1) [OF assms(4,5)] assms(3) by (auto simp: may_be_claimed_def)

section \<open>Where a release is lost\<close>

lemma groups_archive: "catalog_groups (d\<lparr>ix_archive := xs\<rparr>) k = catalog_groups d k"
proof -
  have "crosspost_groups (d\<lparr>ix_archive := xs\<rparr>) = crosspost_groups d"
  proof
    fix b
    have "span_of_binary (d\<lparr>ix_archive := xs\<rparr>) b = span_of_binary d b"
      by (simp add: span_of_binary_def stats_of_def core_of_def split: option.split)
    then show "crosspost_groups (d\<lparr>ix_archive := xs\<rparr>) b = crosspost_groups d b"
      by (simp add: crosspost_groups_def cong: if_cong split: option.split)
  qed
  then show ?thesis by (simp add: catalog_groups_def binaries_of_def files_of_def cong: if_cong)
qed

text \<open>C9: Reopening a release after its purge loses it: the key of its payload is forgotten while the articles are gone, and
  the resolver has nothing to hand out any more.\<close>

theorem reopened_after_purge_is_lost:
  assumes "PurgeArchivedReleaseSources k s = (Inr rep, t)" "ReopenArchivedReleaseForRegeneration k t = (Inr (), u)"
    and "trim_space (rel_ID rel) = trim_space k"
  shows "\<exists>e. fst (Index_GetNZB xml archive (Some rel) u) = Inl e"
proof -
  let ?k = "trim_space k"
  from assms(1) have p: "in_db t = purge_rows (in_now s) ?k (in_db s)" "?k \<noteq> []" "may_purge (in_db s) ?k" by (auto elim!: purge_cases)
  from assms(2) have "ran (change (\<lambda>d. d\<lparr>ix_archive := map (\<lambda>a. if as_release a = ?k then reopened a else a) (ix_archive d)\<rparr>)) t (Inr ()) u"
    unfolding ReopenArchivedReleaseForRegeneration_def by (auto elim!: need_releaseE dest: in_tx_ran)
  then have u: "in_db u = (in_db t)\<lparr>ix_archive := map (\<lambda>a. if as_release a = ?k then reopened a else a) (ix_archive (in_db t))\<rparr>"
    by (simp add: ran_def change_def)
  have groups: "catalog_groups (in_db u) ?k = []"
    unfolding u groups_archive p(1) by (rule purged_no_groups)
  have "find (\<lambda>a. as_release a = ?k) (map (\<lambda>a. if as_release a = ?k then reopened a else a) xs) =
    map_option reopened (find (\<lambda>a. as_release a = ?k) xs)" for xs
    by (induction xs) (auto simp: reopened_def)
  then have "archive_of (in_db u) ?k = map_option reopened (archive_of (in_db t) ?k)" by (simp add: u archive_of_def)
  then have out: "\<not> in_stored_state (archive_of (in_db u) ?k)"
    by (cases "archive_of (in_db t) ?k") (auto simp: in_stored_state_def reopened_def stored_states_def)
  show ?thesis
  proof (cases archive)
    case None
    then show ?thesis using from_articles_no_groups [of u rel xml] groups assms(3) p(2) by (simp add: Index_GetNZB_def)
  next
    case (Some ps)
    obtain q v where q: "GetReleaseArchiveState (rel_ID rel) u = (q, v)" by fastforce
    show ?thesis
    proof (cases q)
      case (Inl e)
      then show ?thesis using Some q assms(3) p(2) by (simp add: Index_GetNZB_def attempt_def map_error_def)
    next
      case (Inr a)
      have "in_db v = in_db u" "a = archive_of (in_db u) ?k" using state_read [of "rel_ID rel" u a v] q Inr assms(3) by simp_all
      with Some q Inr out assms(3) p(2) from_articles_no_groups [of v rel xml] groups show ?thesis
        by (simp add: Index_GetNZB_def attempt_def map_error_def)
    qed
  qed
qed


section \<open>Examples\<close>

definition idx_record :: stored_record where
  "idx_record = record_of ''A'' (archiveObjectKey 7 ''A'' (idx_sha [1])) (idx_sha [1]) [1]"

definition idx_stored :: index_db where "idx_stored = snd (mark_stored 9 ''A'' idx_record idx_tables)"

definition idx_saved :: catalogue where
  "idx_saved = idx_shop\<lparr>ct_memory := (\<lambda>_. None)(archiveObjectKey 7 ''A'' (idx_sha [1]) \<mapsto> [1])\<rparr>"

definition idx_after :: indexer where "idx_after = (idx_state idx_stored)\<lparr>in_shop := idx_saved\<rparr>"

lemma idx_calm: "calm (idx_state d)" "calm (s\<lparr>in_shop := c\<rparr>) = calm s" "calm idx_after"
  by (simp_all add: calm_def idx_state_def idx_after_def)

lemma idx_marks: "mark_stored 9 ''A'' idx_record idx_tables = (Inr (), idx_stored)"
proof -
  have "fst (mark_stored 9 ''A'' idx_record idx_tables) = Inr ()" by code_simp
  then show ?thesis by (simp add: idx_stored_def prod_eq_iff)
qed

lemma idx_trim: "trim_space ''A'' = ''A''" by code_simp

lemma idx_save: "payload_call (SaveNZBAtomically InMemory (archiveObjectKey 7 ''A'' (idx_sha [1])) [1]) (idx_state idx_tables) =
    (Inr (), (idx_state idx_tables)\<lparr>in_shop := idx_saved\<rparr>)"
  by (simp add: payload_call_def Mem_SaveAtomically_def idx_state_def idx_saved_def idx_shop_def)

lemma idx_marked: "MarkReleaseArchiveStored idx_record ((idx_state idx_tables)\<lparr>in_shop := idx_saved\<rparr>) = (Inr (), idx_after)"
proof -
  have "sr_ReleaseID idx_record = ''A''" by (simp add: idx_record_def record_of_def)
  moreover have "in_tx (mark_stored 9 ''A'' idx_record) ((idx_state idx_tables)\<lparr>in_shop := idx_saved\<rparr>) = (Inr (), idx_after)"
    using idx_marks by (simp add: in_tx_calm idx_calm) (simp add: idx_state_def idx_after_def)
  ultimately show ?thesis by (simp add: MarkReleaseArchiveStored_def need_release_def idx_trim) (simp add: idx_state_def)
qed

lemma idx_row: "ix_archive idx_stored = [(new_archive_state ''A'')\<lparr>as_status := ''purge_pending'',
    as_key := ''releases/7/A/ab1.nzb'', as_hash := ''ab1'', as_size := 1, as_archived := Some 9, as_eligible := Some 9\<rparr>]"
proof -
  have "ix_archive (put_state ''A'' (stored_state 9 idx_record) idx_tables) = [(new_archive_state ''A'')\<lparr>as_status := ''purge_pending'',
    as_key := ''releases/7/A/ab1.nzb'', as_hash := ''ab1'', as_size := 1, as_archived := Some 9, as_eligible := Some 9\<rparr>]" by code_simp
  then show ?thesis using mark_stored_rows [OF idx_marks] by simp
qed

text \<open>Release A is saved and recorded.\<close>

lemma archived_releases_can_be_read_witness:
  "as_status (hd (ix_archive (in_db idx_after))) = ''purge_pending'' \<and>
   (\<exists>q. stored InMemory (in_shop idx_after) (as_key (hd (ix_archive (in_db idx_after)))) = Some q
      \<and> idx_sha q = as_hash (hd (ix_archive (in_db idx_after))))"
proof -
  let ?w = "[(7, ''A'', [1])] :: work"
  let ?a = "hd (ix_archive (in_db idx_after))"
  have db: "in_db idx_after = idx_stored" by (simp add: idx_after_def idx_state_def)
  have "archive_step idx_sha InMemory (idx_state idx_tables, []) ((idx_state idx_tables)\<lparr>in_shop := idx_saved\<rparr>, ?w)"
    using step_save [where sha = idx_sha and w = "[]", OF idx_save] by simp
  moreover have "archive_step idx_sha InMemory ((idx_state idx_tables)\<lparr>in_shop := idx_saved\<rparr>, ?w) (idx_after, ?w)"
    by (rule step_record [where sha = idx_sha and pr = 7 and k = "''A''" and x = "[1]"]) (use idx_marked in \<open>auto simp: idx_record_def\<close>)
  ultimately have path: "(archive_step idx_sha InMemory)\<^sup>*\<^sup>* (idx_state idx_tables, []) (idx_after, ?w)"
    by (meson converse_rtranclp_into_rtranclp r_into_rtranclp)
  have a: "?a \<in> set (ix_archive (in_db idx_after))" "as_status ?a = ''purge_pending''" by (simp_all add: db idx_row)
  have s: "as_status ?a \<in> set stored_states" by (simp add: a(2) stored_states_def)
  have i: "store_ready InMemory cwd (in_shop (idx_state idx_tables))" "ix_archive (in_db (idx_state idx_tables)) = []" for cwd
    by (simp_all add: idx_state_def idx_tables_def)
  from archived_releases_can_be_read [OF idx_digest i path a(1) s] a(2) show ?thesis by simp
qed


lemma idx_archived: "archive_one idx_sha idx_xml InMemory idx_candidate (idx_state idx_tables) = (Inr True, idx_after)"
proof -
  let ?s = "idx_state idx_tables" and ?rel = "candidate_release 9 idx_candidate"
  have n: "in_now ?s = 9" "in_db ?s = idx_tables" by (simp_all add: idx_state_def)
  have k: "trim_space (rel_ID ?rel) = ''A''" by code_simp
  have "plain_nzb idx_xml ?rel idx_tables = Inr [1]" by code_simp
  moreover have "\<not> in_stored_state (archive_of idx_tables ''A'')" by code_simp
  ultimately have "Index_GetNZB idx_xml (Some InMemory) (Some ?rel) ?s = (Inr (Buffer [1]), ?s)"
    using index_nzb_from_articles [OF idx_calm(1), of ?rel] k by (simp add: n)
  moreover have "payload_call (ReadAll (Buffer [1])) ?s = (Inr [1], ?s)" by (simp add: payload_call_def ReadAll_def give_def)
  ultimately have "fetch_bytes idx_xml InMemory idx_candidate ?s = (Inr [1], ?s)" by (simp add: fetch_bytes_def n)
  moreover have "store_bytes idx_sha InMemory idx_candidate [1] ?s = (Inr (), idx_after)"
    using idx_save idx_marked by (simp add: store_bytes_def Let_def idx_candidate_def idx_record_def)
  ultimately show ?thesis by (simp add: archive_one_def regardless_eq give_def)
qed

lemma idx_may_purge: "may_purge (in_db idx_after) ''A''"
proof -
  have "list_ex (\<lambda>r. rl_id r = ''A'') (ix_releases idx_stored)" by code_simp
  moreover have "catalog_of idx_stored ''A'' \<noteq> []" by code_simp
  moreover have "inspected ''inspect_media'' idx_stored ''A''" by code_simp
  moreover have "trim_space ''releases/7/A/ab1.nzb'' \<noteq> []" by code_simp
  ultimately show ?thesis by (auto simp: may_purge_def archive_of_def idx_row idx_after_def idx_state_def new_archive_state_def)
qed

definition idx_purged :: indexer where "idx_purged = idx_after\<lparr>in_db := purge_rows 9 ''A'' idx_stored\<rparr>"

lemma idx_purge: "PurgeArchivedReleaseSources ''A'' idx_after = (Inr (purge_report ''A'' idx_stored), idx_purged)"
  using purge_runs [OF idx_calm(3) idx_trim _ idx_may_purge] by (simp add: idx_purged_def) (simp add: idx_after_def idx_state_def)

text \<open>The NZB of A is read from the archive after its purge; it is the one that was built.\<close>

lemma archived_nzb_outlives_its_sources_witness:
  "fst (fetch_bytes idx_xml InMemory idx_candidate (idx_state idx_tables)) = Inr [1] \<and> ix_parts (in_db idx_purged) \<noteq> ix_parts idx_tables"
proof -
  let ?rel = "empty_release\<lparr>rel_ID := ''A''\<rparr>"
  have k: "trim_space (rel_ID ?rel) = ''A''" by code_simp
  have c: "ca_ReleaseID idx_candidate = ''A''" by (simp add: idx_candidate_def)
  have ready: "store_ready InMemory [] (in_shop (idx_state idx_tables))" by simp
  have key: "archiveObjectKey 7 ''A'' (idx_sha [1]) = ''releases/7/A/ab1.nzb''" by code_simp
  have "archive_of (in_db idx_purged) ''A'' \<noteq> None" "in_stored_state (archive_of (in_db idx_purged) ''A'')"
    "as_key (the (archive_of (in_db idx_purged) ''A'')) = ''releases/7/A/ab1.nzb''"
  proof -
    have "archive_of idx_stored ''A'' = Some (hd (ix_archive idx_stored))" by (simp add: archive_of_def idx_row new_archive_state_def)
    then show "archive_of (in_db idx_purged) ''A'' \<noteq> None" "in_stored_state (archive_of (in_db idx_purged) ''A'')"
      "as_key (the (archive_of (in_db idx_purged) ''A'')) = ''releases/7/A/ab1.nzb''"
      by (simp_all add: idx_purged_def purge_archive_of idx_row in_stored_state_def stored_states_def)
  qed
  moreover have "GetNZBReader InMemory ''releases/7/A/ab1.nzb'' (in_shop idx_purged) = (Inr (Buffer [1]), in_shop idx_purged)"
    by (simp add: idx_purged_def idx_after_def idx_saved_def key Mem_GetNZBReader_def Mem_GetReader_def)
  moreover have "calm idx_purged" using idx_calm(3) by (simp add: idx_purged_def calm_def)
  ultimately have "Index_GetNZB idx_xml (Some InMemory) (Some ?rel) idx_purged = (Inr (Buffer [1]), idx_purged\<lparr>in_shop := in_shop idx_purged\<rparr>)"
    using index_nzb_from_archive [of idx_purged ?rel "the (archive_of (in_db idx_purged) ''A'')" InMemory "Buffer [1]" "in_shop idx_purged" idx_xml] k
    by simp
  moreover have "ReadAll (Buffer [1]) (in_shop idx_purged) = (Inr [1], in_shop idx_purged)" by (simp add: ReadAll_def give_def)
  ultimately have "fst (fetch_bytes idx_xml InMemory idx_candidate (idx_state idx_tables)) = Inr [1]"
    using archived_nzb_outlives_its_sources [OF idx_digest ready idx_archived, unfolded c, OF idx_purge _ _, of ?rel "Buffer [1]"] k idx_trim by simp
  moreover have "map pa_id (ix_parts (purge_rows 9 ''A'' idx_stored)) = [2]" by code_simp
  moreover have "map pa_id (ix_parts idx_tables) = [1, 2]" by code_simp
  ultimately show ?thesis by (auto simp: idx_purged_def)
qed

lemma reopened_after_purge_is_lost_witness:
  "let u = snd (ReopenArchivedReleaseForRegeneration ''A'' idx_purged)
   in isl (fst (Index_GetNZB idx_xml (Some InMemory) (Some (empty_release\<lparr>rel_ID := ''A''\<rparr>)) u))"
proof -
  let ?u = "snd (ReopenArchivedReleaseForRegeneration ''A'' idx_purged)"
  have k: "trim_space (rel_ID (empty_release\<lparr>rel_ID := ''A''\<rparr>)) = trim_space ''A''" by simp
  have "calm idx_purged" using idx_calm(3) by (simp add: idx_purged_def calm_def)
  then have "fst (ReopenArchivedReleaseForRegeneration ''A'' idx_purged) = Inr ()"
    by (simp add: ReopenArchivedReleaseForRegeneration_def need_release_def idx_trim in_tx_calm change_def)
  then have "ReopenArchivedReleaseForRegeneration ''A'' idx_purged = (Inr (), ?u)" by (simp add: prod_eq_iff)
  from reopened_after_purge_is_lost [OF idx_purge this k] show ?thesis by (metis isl_def)
qed

lemma in_tx_runs: "calm s \<Longrightarrow> fst (m (in_db s)) = Inr x \<Longrightarrow> in_tx m s = (Inr x, s\<lparr>in_db := snd (m (in_db s))\<rparr>)"
  by (cases "m (in_db s)") (auto simp: in_tx_calm)

text \<open>A is claimed; of the next claim, which asks for less, only B is left.\<close>

lemma release_claimed_once_witness:
  "let s = idx_state idx_tables; p = DefaultReleaseReadyPolicy; t = snd (claims [] 5 p True s)
   in fst (claims [] 5 p True s) = Inr [idx_candidate] \<and>
      fst (claims [] 5 (p\<lparr>rp_RequireInspection := False\<rparr>) True t) = Inr [\<lparr>ca_ReleaseID = ''B'', ca_ProviderID = 7, ca_Title = ''Song''\<rparr>] \<and>
      ''B'' \<noteq> ca_ReleaseID idx_candidate"
proof -
  let ?s = "idx_state idx_tables" and ?p = "NormalizeReleaseReadyPolicy DefaultReleaseReadyPolicy"
  let ?q = "NormalizeReleaseReadyPolicy (DefaultReleaseReadyPolicy\<lparr>rp_RequireInspection := False\<rparr>)"
  let ?d = "snd (claim_rows [] 5 (generate_eligible ?p) idx_tables)"
  let ?b = "\<lparr>ca_ReleaseID = ''B'', ca_ProviderID = 7, ca_Title = ''Song''\<rparr>"
  have r1: "fst (claim_rows [] 5 (generate_eligible ?p) idx_tables) = Inr [idx_candidate]" by code_simp
  have r2: "fst (claim_rows [] 5 (generate_eligible ?q) ?d) = Inr [?b]" by code_simp
  have c1: "claims [] 5 DefaultReleaseReadyPolicy True ?s = (Inr [idx_candidate], ?s\<lparr>in_db := ?d\<rparr>)"
  proof -
    have "in_db ?s = idx_tables" by (simp add: idx_state_def)
    then show ?thesis
      using in_tx_runs [OF idx_calm(1), of "claim_rows [] 5 (generate_eligible ?p)" idx_tables "[idx_candidate]"] r1
      by (simp add: claims_def ListReleaseNZBGenerateCandidates_def)
  qed
  have c2: "claims [] 5 (DefaultReleaseReadyPolicy\<lparr>rp_RequireInspection := False\<rparr>) True (?s\<lparr>in_db := ?d\<rparr>) =
    (Inr [?b], ?s\<lparr>in_db := snd (claim_rows [] 5 (generate_eligible ?q) ?d)\<rparr>)"
  proof -
    have "calm (?s\<lparr>in_db := ?d\<rparr>)" by (simp add: calm_def idx_state_def)
    from in_tx_runs [OF this, of "claim_rows [] 5 (generate_eligible ?q)" "[?b]"] r2 show ?thesis
      by (simp add: claims_def ListReleaseNZBGenerateCandidates_def)
  qed
  have "ca_ReleaseID ?b \<noteq> ca_ReleaseID idx_candidate"
    by (rule release_claimed_once [OF c1 _ refl c2]) simp_all
  then show ?thesis using c1 c2 by (simp add: Let_def)
qed

end
