(* ===== verification/Spec2Isabelle.thy ===== *)
theory Spec2Isabelle
  imports Yenc Categories Nntp_Conn_Props Queue_Props Nntp_Props Worker_Props Supervisor_Props Stage_Guard_Props Scrape_Runs
  Auth_Props Processor_Props Http_Props Archive_Runs
begin

text \<open>
  A verification development for GoNZB, a Usenet downloader with its own indexer (Go).

  The program. The downloader keeps a queue of NZB jobs (\<open>internal/engine\<close>), stores it in SQLite
  (\<open>internal/store/sqlitejob\<close>), fetches the segments of a job through a pool of workers from one or more NNTP
  providers (\<open>internal/nntp\<close>), decodes them (\<open>internal/nzb/yenc.go\<close>) and writes them into files. The indexer
  runs stages (scrape, assemble, inspect, release, ...) under a supervisor with leases in PostgreSQL
  (\<open>internal/indexing/supervisor\<close>, \<open>internal/store/pgindex\<close>) and gates that hold stages back
  (\<open>internal/runtime/wiring\<close>); its first stage reads the newsgroups (\<open>internal/indexing/scrape\<close>) over the same
  NNTP manager. Its last stages archive the NZB of a finished release and delete the articles it was built from
  (\<open>internal/indexing/releasearchive\<close>, \<open>releasepurge\<close>). Releases are sorted into categories (\<open>internal/categories/newsnab\<close>). When a download is complete
  its files are repaired, unpacked, cleaned and moved (\<open>internal/processor\<close>). Searches go to several sources at once,
  their answers are merged and remembered (\<open>internal/aggregator\<close>); the NZB of a release is found again by the
  resolvers (\<open>internal/resolver\<close>) and kept on disk under a bounded index (\<open>internal/store/blob\<close>); commands and
  queries of the downloader (\<open>internal/downloader\<close>) tie them to the queue. The HTTP interface
  (\<open>internal/api\<close>) lets in users by password and session or by API token (\<open>internal/auth\<close>).

  Conventions. A Go struct is a record, its integers are integers wrapped at 64 bits where they can overflow,
  strings and byte slices are lists of characters (bytes), errors are options or sums, a mutex is the
  atomicity of one step, and what other goroutines do between two steps is a function applied there. Times are
  integers (nanoseconds). Everything outside the repository - what a server answers, whether a statement of the
  database fails, the clock, the order in which goroutines finish - is an argument of the definitions.

  Theories, and what they model and show:

  \<^item> \<open>Go_Prelude\<close>: 64-bit wrap-around, Go's division, the functions of \<open>strings\<close> and \<open>strconv\<close> the program uses,
    generic lemmas, the collections of rewrite rules.
  \<^item> \<open>Yenc\<close> (\<open>nzb/yenc.go\<close>): \<open>ReadYencHeader\<close>, \<open>DiscardHeader\<close>, \<open>Read\<close> as a state machine over escapes, dots and
    line starts, the footer, the incremental checksum (locale \<open>incremental_hash\<close>). An encoded article decodes to
    what was encoded, and no choice of read sizes changes the bytes.
  \<^item> \<open>Domain\<close>, \<open>Job_Store\<close> (\<open>internal/domain\<close>, \<open>sqlitejob/queue.go\<close>, \<open>dbo.go\<close>): queue items, releases, the queue
    table and its statements (locale \<open>status_table\<close>); saving and reading back.
  \<^item> \<open>Queue_Manager\<close> (\<open>engine/manager.go\<close>, \<open>workflow.go\<close>): items on a heap, every request, the loop of the manager
    as steps between which requests interleave. \<open>Queue_Steps\<close>, \<open>Queue_Store\<close>, \<open>Queue_Runs\<close>, \<open>Queue_Props\<close>: the
    step relation, the invariant of every reachable state, agreement of the table with the queue, no lost
    wake-up, restart, and where a cancellation is recorded as success.
  \<^item> \<open>Nntp_Wire\<close>, \<open>Nntp_Overview\<close>, \<open>Nntp_Conn\<close>, \<open>Nntp_Conn_Props\<close> (\<open>nntp/provider.go\<close>): the bytes of a connection
    with pauses and errors, reply lines and dot-terminated bodies, the texts of the replies, the connection
    pool, the two attempts of every operation. The locale \<open>conversation\<close> states what one exchange on a
    connection does to the pool and is interpreted on all five. No connection is lost or used twice.
  \<^item> \<open>Nntp_Manager\<close>, \<open>Nntp_Fetch\<close>, \<open>Nntp_Props\<close> (\<open>nntp/manager.go\<close>, \<open>errors.go\<close>): permits per provider (locale
    \<open>permit_pool\<close>), the shares of the modules, waiting, falling back to other providers.
  \<^item> \<open>Worker\<close>, \<open>File_Writer\<close>, \<open>Worker_Props\<close> (\<open>engine/worker.go\<close>, \<open>downloader.go\<close>, \<open>file_writer.go\<close>): the pool with its
    channels as a step relation, one segment from fetch to write, the writer (locale \<open>positional_store\<close>).
  \<^item> \<open>Stage_Store\<close>, \<open>Stage_Leases\<close> (\<open>pgindex/stage_runtime_store.go\<close>, \<open>maintenance_store.go\<close>): the tables of leases and
    runs; their invariant over every history of operations of any number of processes (locale \<open>stage_tracker\<close>).
  \<^item> \<open>Supervisor\<close>, \<open>Supervisor_Props\<close> (\<open>supervisor/supervisor.go\<close>): one execution of a stage in two halves, any number
    of them interleaved; write lanes, the closing of runs, the schedule.
  \<^item> \<open>Stage_Guards\<close>, \<open>Stage_Guard_Props\<close> (\<open>runtime/wiring/indexer_*_guard.go\<close>, \<open>pgindex/storage_guard.go\<close>): the gates and
    their cached decisions, hysteresis with two marks (locale \<open>water_marks\<close>), the chain of gates.
  \<^item> \<open>Categories\<close> (\<open>categories/newsnab/newsnab.go\<close>): the tree, its lookups, the choice of a category.
  \<^item> \<open>Scrape_Store\<close>, \<open>Scrape\<close>, \<open>Scrape_Props\<close>, \<open>Scrape_Runs\<close> (\<open>pgindex/repository.go\<close>, \<open>work_window_control_store.go\<close>,
    \<open>scrape_boundary_store.go\<close>, \<open>scrape/service.go\<close>): checkpoints, deferred ranges, the latest and the backfill run
    of a group, rotation of the groups; before-and-after triples for operations that may fail anywhere, the
    invariant that nothing between the checkpoints is passed over, the end of a backfill, and the histories in
    which articles are lost.
  \<^item> \<open>Go_Path\<close>, \<open>Go_Places\<close>, \<open>Go_Os\<close>, \<open>Go_Frame\<close>: the functions of \<open>path/filepath\<close>, the place a path leads to, the file
    system (tree of directories and files, open handles, a fault for any call) with the calls the program makes,
    and frame lemmas: what an operation leaves as it was. \<open>Go_Effects\<close>: operations that may fail, for any state.
  \<^item> \<open>Processor\<close>, \<open>Processor_Props\<close> (\<open>internal/processor\<close>, \<open>nzb/nzb.go\<close>): preparing the files of a job, finalizing, repair,
    extraction, cleaning, moving; no file is lost on the way, nothing outside the job's directories is written
    or removed, and where an archive is lost. The locale \<open>closeable\<close> is the writer as the processor uses it.
  \<^item> \<open>Auth_Store\<close>, \<open>Auth\<close>, \<open>Auth_Http\<close>, \<open>Auth_Props\<close> (\<open>store/settings/auth.go\<close>, \<open>internal/auth\<close>, \<open>api/auth_middleware.go\<close>,
    \<open>controllers/auth.go\<close>): users, sessions, API tokens, the middleware of every route and the handlers. Who passes
    a guard is entitled; sessions end, revoked tokens stay dead, answers hide secrets (locales \<open>authenticator\<close>
    and \<open>session_token_invariant\<close>, interpreted on both ways to log in and on every handler).
  \<^item> \<open>Blob_Store\<close>, \<open>Blob_Props\<close> (\<open>store/blob/fs_blob_store.go\<close>, \<open>ephemeral_blob_store.go\<close>,
    \<open>sqlitejob/blob_cache_index.go\<close>, \<open>aggregator_release_cache.go\<close>): the store of NZBs as files written beside and
    renamed, its index, the table of cached releases. Whatever call fails, a reader gets the old bytes or the new ones
    (locale \<open>payload_map\<close>: what a store of payloads promises, interpreted on the file store); reconciling makes the
    index agree with the disk.
  \<^item> \<open>Aggregator\<close>, \<open>Aggregator_Props\<close> (\<open>aggregator/manager.go\<close>, its sources, \<open>resolver\<close>): search requests,
    merging the answers, links of the recent searches, the client of a Newznab server, fetching an NZB from the cache
    or a source, the resolvers. What a search returns, which bytes a fetch returns, when a later search makes a release
    unreachable.
  \<^item> \<open>Downloads\<close>, \<open>Downloads_Props\<close> (\<open>downloader/commands.go\<close>, \<open>queries.go\<close>, \<open>sqlitejob/queue_item_files.go\<close>): one
    state of catalogue, queue and file tables; uploads, enqueuing, cancelling, deleting, the history in pages, the
    files of an item. An uploaded NZB is the one its job reads, the pages cover the history once, saved files come back.
  \<^item> \<open>Http_Api\<close>, \<open>Http_Props\<close> (\<open>api/controllers/queue.go\<close>, \<open>sab.go\<close>, \<open>newznab.go\<close>, \<open>aggregator.go\<close>,
    \<open>http_helpers.go\<close>): parameters and their bounds, file names given to clients, the handlers with their statuses.
    No file name carries a separator or quote, listings are pages of the queue, cleaning spares unfinished jobs, and
    the requests that panic or answer wrongly.
  \<^item> \<open>Release_Store\<close> (\<open>pgindex/release_ready_policy.go\<close>, \<open>release_store.go\<close>, \<open>release_catalog_files.go\<close>,
    \<open>catalog_reads.go\<close>, \<open>runtime_tuning.go\<close>): the tables of releases, files, binaries, articles and archive states as
    lists of rows, a transaction as a step of them that may fail, the conditions under which a release is shown, saving
    the snapshot of a release with its check against downgrades, the readers of the catalogue.
  \<^item> \<open>Archive\<close>, \<open>Archive_Props\<close>, \<open>Archive_Runs\<close> (\<open>pgindex/archive_store.go\<close>, \<open>release_generate_store.go\<close>,
    \<open>indexing/releasegenerate\<close>, \<open>releasearchive\<close>, \<open>releasepurge\<close>, \<open>resolver/usenet_index.go\<close>,
    \<open>sources/usenetindex\<close>): claiming, archiving, reopening and purging releases, the NZB read from the archive or built
    from the catalogue, the source of searches. A purge leaves the NZB of every other release as it was, an archived
    release can be read under its recorded hash after any history of operations, what is served after the purge is what was
    built before it, and a release that is reopened after its purge is lost.

  Bounds and fuel. Loops over bytes, lines, rows and lists are structural; those that are not (\<open>getConn\<close>
  emptying a pool, \<open>attempts\<close>, the removal of empty directories upwards) recurse on the length of the pool, on the
  number of attempts left, which the code bounds by two, and on the length of the path; nested archives are
  unpacked to the depth of three the code has. Article numbers and batch sizes in scraping are not wrapped: they are far below 2^63.
  Counters and offsets elsewhere are wrapped by \<open>i64\<close>.
  Percentages and confidences of releases are rational numbers, rounded to four decimals where the SQL does. A retried transaction
  is tried as often as the code tries it. Regular expressions of the SQL are matched by derivatives, which is structural in the text.

  Not modelled. The SQL of the index store apart from leases, guards, scraping and the archive of releases (its behaviour
  is in the statements, not in Go); in the archive the snapshot of details kept for the screens, the backfills, the choice of
  a category and the statement that lists public releases, which are arguments or left out; matching, assembly, release formation,
  inspection, recovery and enrichment; the administration of settings and indexer, screens,
  wiring and logging (input and output). JSON and XML as text, figures formatted from floating point numbers, TLS,
  sockets, regular expressions of libraries, password hashing, digests, random numbers and the programs that repair
  and unpack are parameters. The file system has no symbolic links. Go's data races (an item's fields read without
  the lock) are not modelled: a step is atomic.
\<close>

end
